(* ===== verification/Prelude.thy ===== *)
theory Prelude
  imports Main "HOL-Library.Word" "HOL-Library.Multiset" "HOL-Library.Monad_Syntax"
begin

text \<open>
  Shared vocabulary of the development: Rust's machine integers as words, its panics as
  \<open>None\<close>, the integer operations of the standard library that the sources call
  (\<open>checked_add\<close>, \<open>overflowing_sub\<close>, \<open>wrapping_shl\<close>, \<open>rotate_left\<close>, \<open>count_ones\<close>, ...), and
  the list lemmas behind \<open>Vec\<close>, slices and \<open>rotate_left\<close>/\<open>rotate_right\<close>.

  Conventions.  A computation that may panic has type \<open>'a option\<close> and \<open>None\<close> is the panic;
  a Rust \<open>Result\<close> is a sum, \<open>Inl\<close> the error.  Lengths, indices and \<open>usize\<close> values are \<open>nat\<close>;
  data that the program computes with is a word of the width the source declares.
\<close>

section \<open>Machine integers\<close>

type_synonym u8 = "8 word"
type_synonym u16 = "16 word"
type_synonym u32 = "32 word"
type_synonym u64 = "64 word"
type_synonym u128 = "128 word"
type_synonym 'a word4 = "'a \<times> 'a \<times> 'a \<times> 'a"

named_theorems stack_simps \<open>characteristic equations of the VM operand stack, top first\<close>
named_theorems exec_simps \<open>execution of single MASM operations on a stack given top first\<close>
named_theorems emit_defs \<open>definitions of the code emitters\<close>

definition assert_that :: "bool \<Rightarrow> unit option" where
  "assert_that b = (if b then Some () else None)"

lemma assert_that_True [simp]: "assert_that True = Some ()"
  and assert_that_False [simp]: "assert_that False = None"
  by (simp_all add: assert_that_def)

lemma assert_that_eq_Some [simp]: "assert_that b = Some u \<longleftrightarrow> b"
  by (simp add: assert_that_def)

lemma bind_assert_that: "Option.bind (assert_that b) k = (if b then k () else None)"
  by (simp add: assert_that_def)

lemma bind_eq_Some_E [elim!]:
  assumes "Option.bind m k = Some y"
  obtains x where "m = Some x" "k x = Some y"
  using assms by (cases m) auto

text \<open>
  For evaluation: rewrite the first argument of a bind only, so that code behind a step is
  not unfolded before the step has been taken.
\<close>

lemma bind_weak_cong: "m = n \<Longrightarrow> Option.bind m k = Option.bind n k"
  by simp

definition checked_add :: "'a::len word \<Rightarrow> 'a word \<Rightarrow> 'a word option" where
  "checked_add a b = (if unat a + unat b < 2 ^ LENGTH('a) then Some (a + b) else None)"

definition checked_sub :: "'a::len word \<Rightarrow> 'a word \<Rightarrow> 'a word option" where
  "checked_sub a b = (if b \<le> a then Some (a - b) else None)"

definition checked_mul :: "'a::len word \<Rightarrow> 'a word \<Rightarrow> 'a word option" where
  "checked_mul a b = (if unat a * unat b < 2 ^ LENGTH('a) then Some (a * b) else None)"

definition checked_div :: "'a::len word \<Rightarrow> 'a word \<Rightarrow> 'a word option" where
  "checked_div a b = (if b = 0 then None else Some (a div b))"

definition checked_rem :: "'a::len word \<Rightarrow> 'a word \<Rightarrow> 'a word option" where
  "checked_rem a b = (if b = 0 then None else Some (a mod b))"

definition checked_shl :: "u32 \<Rightarrow> u32 \<Rightarrow> u32 option" where
  "checked_shl a n = (if unat n < 32 then Some (push_bit (unat n) a) else None)"

definition checked_shr :: "u32 \<Rightarrow> u32 \<Rightarrow> u32 option" where
  "checked_shr a n = (if unat n < 32 then Some (drop_bit (unat n) a) else None)"

definition overflowing_add :: "'a::len word \<Rightarrow> 'a word \<Rightarrow> 'a word \<times> bool" where
  "overflowing_add a b = (a + b, \<not> unat a + unat b < 2 ^ LENGTH('a))"

definition overflowing_sub :: "'a::len word \<Rightarrow> 'a word \<Rightarrow> 'a word \<times> bool" where
  "overflowing_sub a b = (a - b, \<not> b \<le> a)"

definition overflowing_mul :: "'a::len word \<Rightarrow> 'a word \<Rightarrow> 'a word \<times> bool" where
  "overflowing_mul a b = (a * b, \<not> unat a * unat b < 2 ^ LENGTH('a))"

definition wrapping_add :: "'a::len word \<Rightarrow> 'a word \<Rightarrow> 'a word" where
  "wrapping_add a b = a + b"

definition wrapping_sub :: "'a::len word \<Rightarrow> 'a word \<Rightarrow> 'a word" where
  "wrapping_sub a b = a - b"

definition wrapping_mul :: "'a::len word \<Rightarrow> 'a word \<Rightarrow> 'a word" where
  "wrapping_mul a b = a * b"

text \<open>Rust's \<open>wrapping_shl\<close> and \<open>wrapping_shr\<close> mask the shift amount to the width.\<close>

definition wrapping_shl :: "u32 \<Rightarrow> u32 \<Rightarrow> u32" where
  "wrapping_shl a n = push_bit (unat n mod 32) a"

definition wrapping_shr :: "u32 \<Rightarrow> u32 \<Rightarrow> u32" where
  "wrapping_shr a n = drop_bit (unat n mod 32) a"

definition rotate_left :: "'a::len word \<Rightarrow> u32 \<Rightarrow> 'a word" where
  "rotate_left a n = word_rotl (unat n) a"

definition rotate_right :: "'a::len word \<Rightarrow> u32 \<Rightarrow> 'a word" where
  "rotate_right a n = word_rotr (unat n) a"

definition count_ones :: "'a::len word \<Rightarrow> u32" where
  "count_ones a = of_nat (length (filter (bit a) [0..<LENGTH('a)]))"

definition u8_of_bool :: "bool \<Rightarrow> u8" where
  "u8_of_bool b = (if b then 1 else 0)"

text \<open>
  \<open>u8\<close> values that serve as stack indices are kept as \<open>nat\<close>; \<open>u8_add\<close> and \<open>u8_sub\<close> are
  Rust's \<open>+\<close> and \<open>-\<close> on them, which panic when the result leaves the range, and
  \<open>as_u8\<close> is the truncating cast.
\<close>

definition as_u8 :: "nat \<Rightarrow> nat" where
  "as_u8 n = n mod 256"

definition u8_add :: "nat \<Rightarrow> nat \<Rightarrow> nat option" where
  "u8_add a b = (if a + b < 256 then Some (a + b) else None)"

definition u8_sub :: "nat \<Rightarrow> nat \<Rightarrow> nat option" where
  "u8_sub a b = (if b \<le> a then Some (a - b) else None)"

text \<open>
  Sizes, offsets and addresses are \<open>nat\<close> as well: \<open>to_u8\<close>, \<open>to_u16\<close> and \<open>to_u32\<close> are
  \<open>try_into().expect(..)\<close>, \<open>as_u32\<close> is the truncating cast, and \<open>u32_add\<close>, \<open>u32_sub\<close>,
  \<open>u32_mul\<close> and \<open>usize_add\<close> the operators, which panic on overflow.
\<close>

definition u32_MAX :: nat where "u32_MAX = 4294967295"
definition usize_MAX :: nat where "usize_MAX = 18446744073709551615"

definition to_u8 :: "nat \<Rightarrow> nat option" where
  "to_u8 n = (if n < 256 then Some n else None)"

definition to_u16 :: "nat \<Rightarrow> nat option" where
  "to_u16 n = (if n < 65536 then Some n else None)"

definition to_u32 :: "nat \<Rightarrow> nat option" where
  "to_u32 n = (if n \<le> u32_MAX then Some n else None)"

definition as_u32 :: "nat \<Rightarrow> nat" where
  "as_u32 n = n mod 4294967296"

definition u32_add :: "nat \<Rightarrow> nat \<Rightarrow> nat option" where
  "u32_add a b = (if a + b \<le> u32_MAX then Some (a + b) else None)"

definition u32_sub :: "nat \<Rightarrow> nat \<Rightarrow> nat option" where
  "u32_sub a b = (if b \<le> a then Some (a - b) else None)"

definition u32_mul :: "nat \<Rightarrow> nat \<Rightarrow> nat option" where
  "u32_mul a b = (if a * b \<le> u32_MAX then Some (a * b) else None)"

definition usize_add :: "nat \<Rightarrow> nat \<Rightarrow> nat option" where
  "usize_add a b = (if a + b \<le> usize_MAX then Some (a + b) else None)"

definition usize_sub :: "nat \<Rightarrow> nat \<Rightarrow> nat option" where
  "usize_sub a b = (if b \<le> a then Some (a - b) else None)"

section \<open>Words between 32 and 64 bits\<close>

lemma unat_lt_u32 [simp]: "unat (w :: u32) < 4294967296"
  using unsigned_less [of w, where 'a = nat] by simp

lemma unat_lt_u64 [simp]: "unat (w :: u64) < 18446744073709551616"
  using unsigned_less [of w, where 'a = nat] by simp

lemma unat_lt_u8 [simp]: "unat (w :: u8) < 256"
  using unsigned_less [of w, where 'a = nat] by simp

lemma unat_lt_u16 [simp]: "unat (w :: u16) < 65536"
  using unsigned_less [of w, where 'a = nat] by simp

lemma unat_ucast_u32_u64 [simp]: "unat (ucast (w :: u32) :: u64) = unat w"
  by (simp add: unsigned_ucast_eq take_bit_eq_mod mod_less [OF less_trans [OF unat_lt_u32]])

lemma unat_ucast_u8_u64 [simp]: "unat (ucast (w :: u8) :: u64) = unat w"
  by (simp add: unsigned_ucast_eq take_bit_eq_mod mod_less [OF less_trans [OF unat_lt_u8]])

lemma unat_ucast_u16_u64 [simp]: "unat (ucast (w :: u16) :: u64) = unat w"
  by (simp add: unsigned_ucast_eq take_bit_eq_mod mod_less [OF less_trans [OF unat_lt_u16]])

lemma unat_ucast_u64_u32: "unat (ucast (w :: u64) :: u32) = unat w mod 4294967296"
  by (simp add: unsigned_ucast_eq take_bit_eq_mod)

lemma ucast_u64_u32_id [simp]: "(ucast (ucast (w :: u32) :: u64) :: u32) = w"
  by (rule word_unat_eq_iff [THEN iffD2]) (simp add: unat_ucast_u64_u32)

lemma ucast_u32_u64_id: "unat w < 4294967296 \<Longrightarrow> (ucast (ucast (w :: u64) :: u32) :: u64) = w"
  by (rule word_unat_eq_iff [THEN iffD2]) (simp add: unat_ucast_u64_u32)

lemma ucast_u32_u64_inject [simp]: "(ucast (a :: u32) :: u64) = ucast b \<longleftrightarrow> a = b"
  by (metis ucast_u64_u32_id)

lemma unat_u8_of_bool [simp]: "unat (u8_of_bool b) = (if b then 1 else 0)"
  by (simp add: u8_of_bool_def)

section \<open>Lists as vectors and slices\<close>

text \<open>
  A \<open>Vec\<close> used as a stack keeps its top at the end.  The following lemmas read such a
  vector from the top, i.e. through \<open>rev\<close>.
\<close>

lemma nth_from_end: "n < length xs \<Longrightarrow> xs ! (length xs - Suc n) = rev xs ! n"
  by (simp add: rev_nth)

lemma take_minus_rev: "take (length xs - n) (rev xs) = rev (drop n xs)"
  by (simp add: rev_drop)

lemma drop_minus_rev: "drop (length xs - n) (rev xs) = rev (take n xs)"
  by (simp add: rev_take)

lemma rev_update_from_end:
  "n < length xs \<Longrightarrow> (rev xs)[length xs - Suc n := y] = rev (xs[n := y])"
  by (simp add: rev_update)

lemma rotate1_rev_Cons: "rotate1 (rev (xs @ [x])) = rev (x # xs)"
  by simp

end
