(* ===== verification/Felt.thy ===== *)
theory Felt
  imports Prelude
begin

text \<open>
  Field elements.  The type \<open>Felt\<close> of the sources is an alias (hir/src/lib.rs) of the base
  element of an external crate, so its representation is a type variable \<open>'f\<close> here and its
  operations are a record \<open>'f felt_ops\<close>, an argument of every definition that computes with
  field elements.  The locale \<open>felt_field\<close> states what the crate documents and the sources
  rely on: \<open>as_int\<close> is the canonical representative below the modulus, and the arithmetic is
  arithmetic modulo \<open>felt_P\<close>.  Nothing is assumed about inversion and division.

  The record \<open>ref_ops\<close> over the type \<open>ref_felt\<close> of the numbers below the modulus satisfies
  the locale; witnesses evaluate on it.
\<close>

section \<open>The operations and their contract\<close>

record 'f felt_ops =
  felt_new :: "u64 \<Rightarrow> 'f"
  felt_as_int :: "'f \<Rightarrow> u64"
  felt_ZERO :: 'f
  felt_ONE :: 'f
  felt_add :: "'f \<Rightarrow> 'f \<Rightarrow> 'f"
  felt_sub :: "'f \<Rightarrow> 'f \<Rightarrow> 'f"
  felt_mul :: "'f \<Rightarrow> 'f \<Rightarrow> 'f"
  felt_div :: "'f \<Rightarrow> 'f \<Rightarrow> 'f"
  felt_neg :: "'f \<Rightarrow> 'f"
  felt_inv :: "'f \<Rightarrow> 'f"
  felt_exp :: "'f \<Rightarrow> u64 \<Rightarrow> 'f"

text \<open>The modulus \<open>P\<close> of emit/mod.rs.\<close>

definition felt_P :: nat where
  "felt_P = 2 ^ 64 - 2 ^ 32 + 1"

lemma felt_P_eq: "felt_P = 18446744069414584321"
  by (simp add: felt_P_def)

definition fval :: "'f felt_ops \<Rightarrow> 'f \<Rightarrow> nat" where
  "fval F x = unat (felt_as_int F x)"

locale felt_field =
  fixes F :: "'f felt_ops"
  assumes as_int_less: "unat (felt_as_int F x) < felt_P"
    and as_int_inject: "felt_as_int F x = felt_as_int F y \<Longrightarrow> x = y"
    and as_int_new: "unat (felt_as_int F (felt_new F n)) = unat n mod felt_P"
    and as_int_ZERO: "felt_as_int F (felt_ZERO F) = 0"
    and as_int_ONE: "felt_as_int F (felt_ONE F) = 1"
    and as_int_add: "unat (felt_as_int F (felt_add F x y)) =
      (unat (felt_as_int F x) + unat (felt_as_int F y)) mod felt_P"
    and as_int_sub: "unat (felt_as_int F (felt_sub F x y)) =
      (unat (felt_as_int F x) + (felt_P - unat (felt_as_int F y))) mod felt_P"
    and as_int_mul: "unat (felt_as_int F (felt_mul F x y)) =
      (unat (felt_as_int F x) * unat (felt_as_int F y)) mod felt_P"
    and as_int_neg: "unat (felt_as_int F (felt_neg F x)) =
      (felt_P - unat (felt_as_int F x)) mod felt_P"
    and as_int_exp: "unat (felt_as_int F (felt_exp F x n)) =
      unat (felt_as_int F x) ^ unat n mod felt_P"
begin

lemma as_int_inject_iff [simp]: "felt_as_int F x = felt_as_int F y \<longleftrightarrow> x = y"
  using as_int_inject by auto

lemma as_int_new_word: "unat n < felt_P \<Longrightarrow> felt_as_int F (felt_new F n) = n"
  by (rule word_unat_eq_iff [THEN iffD2]) (simp add: as_int_new)

lemma new_as_int [simp]: "felt_new F (felt_as_int F x) = x"
  by (rule as_int_inject) (simp add: as_int_new_word as_int_less)

lemma as_int_new_u32 [simp]: "felt_as_int F (felt_new F (ucast (v :: u32))) = ucast v"
  by (rule as_int_new_word) (simp add: felt_P_eq less_trans [OF unat_lt_u32])

lemma as_int_new_u16 [simp]: "felt_as_int F (felt_new F (ucast (v :: u16))) = ucast v"
  by (rule as_int_new_word) (simp add: felt_P_eq less_trans [OF unat_lt_u16])

lemma as_int_new_u8 [simp]: "felt_as_int F (felt_new F (ucast (v :: u8))) = ucast v"
  by (rule as_int_new_word) (simp add: felt_P_eq less_trans [OF unat_lt_u8])

lemma new_inject:
  assumes "unat m < felt_P" "unat n < felt_P"
  shows "felt_new F m = felt_new F n \<longleftrightarrow> m = n"
  using assms by (metis as_int_new_word)

lemma new_u32_inject [simp]:
  "felt_new F (ucast (v :: u32)) = felt_new F (ucast (w :: u32)) \<longleftrightarrow> v = w"
  by (metis as_int_new_u32 ucast_u32_u64_inject)

lemma new_0 [simp]: "felt_new F 0 = felt_ZERO F"
  by (rule as_int_inject) (simp add: as_int_ZERO as_int_new_word felt_P_eq)

lemma new_1 [simp]: "felt_new F 1 = felt_ONE F"
  by (rule as_int_inject) (simp add: as_int_ONE as_int_new_word felt_P_eq)

lemma ONE_neq_ZERO [simp]: "felt_ONE F \<noteq> felt_ZERO F" "felt_ZERO F \<noteq> felt_ONE F"
  by (metis as_int_ONE as_int_ZERO zero_neq_one)+

lemma fval_less: "fval F x < felt_P"
  by (simp add: fval_def as_int_less)

lemma fval_inject [simp]: "fval F x = fval F y \<longleftrightarrow> x = y"
  by (simp add: fval_def word_unat_eq_iff [symmetric])

end

section \<open>A reference instance\<close>

typedef ref_felt = "{n :: nat. n < felt_P}"
  morphisms ref_nat ref_abs
  by (rule exI [of _ 0]) (simp add: felt_P_def)

setup_lifting type_definition_ref_felt

lift_definition ref_of_nat :: "nat \<Rightarrow> ref_felt" is "\<lambda>n. n mod felt_P"
  by (simp add: felt_P_def)

lemma ref_nat_of_nat [simp]: "ref_nat (ref_of_nat n) = n mod felt_P"
  by transfer simp

lemma ref_nat_less: "ref_nat x < felt_P"
  by transfer simp

lemma ref_of_nat_eq_iff: "ref_of_nat m = ref_of_nat n \<longleftrightarrow> m mod felt_P = n mod felt_P"
  by (metis ref_nat_of_nat ref_nat_inject)

lemma unat_ref_nat [simp]: "unat (of_nat (ref_nat x) :: u64) = ref_nat x"
proof -
  have "ref_nat x < 2 ^ 64"
    using ref_nat_less [of x] by (simp add: felt_P_eq)
  then show ?thesis by (simp add: unat_of_nat)
qed

lemma unat_mod_P [simp]: "unat (of_nat (n mod felt_P) :: u64) = n mod felt_P"
proof -
  have "n mod felt_P < 2 ^ 64"
    using mod_less_divisor [of felt_P n] by (simp add: felt_P_eq)
  then show ?thesis by (simp add: unat_of_nat)
qed

definition ref_ops :: "ref_felt felt_ops" where
  "ref_ops =
    \<lparr>felt_new = \<lambda>n. ref_of_nat (unat n),
     felt_as_int = \<lambda>x. of_nat (ref_nat x),
     felt_ZERO = ref_of_nat 0,
     felt_ONE = ref_of_nat 1,
     felt_add = \<lambda>x y. ref_of_nat (ref_nat x + ref_nat y),
     felt_sub = \<lambda>x y. ref_of_nat (ref_nat x + (felt_P - ref_nat y)),
     felt_mul = \<lambda>x y. ref_of_nat (ref_nat x * ref_nat y),
     felt_div = \<lambda>x y. ref_of_nat (ref_nat x * ref_nat y ^ (felt_P - 2)),
     felt_neg = \<lambda>x. ref_of_nat (felt_P - ref_nat x),
     felt_inv = \<lambda>x. ref_of_nat (ref_nat x ^ (felt_P - 2)),
     felt_exp = \<lambda>x n. ref_of_nat (ref_nat x ^ unat n)\<rparr>"

interpretation ref_field: felt_field ref_ops
proof unfold_locales
  fix x y :: ref_felt
  assume "felt_as_int ref_ops x = felt_as_int ref_ops y"
  then have "unat (of_nat (ref_nat x) :: u64) = unat (of_nat (ref_nat y) :: u64)"
    by (simp add: ref_ops_def)
  then show "x = y" by (simp add: ref_nat_inject)
qed (simp_all add: ref_ops_def ref_nat_less, simp_all add: felt_P_def)

lemma ref_felt_field: "felt_field ref_ops"
  by (rule ref_field.felt_field_axioms)

end
