(* ===== verification/StackSpec.thy ===== *)
theory StackSpec
  imports Prelude
begin

text \<open>
  The contract of an operand stack.  Two components of the compiler keep one: the emulator, a
  stack of field elements (hir/src/asm/stack.rs), and the code generator, a stack of typed
  operands that must move 1:1 with the code it emits (stackify/operand_stack.rs).  Both offer
  \<open>drop\<close>, \<open>dup\<close>, \<open>swap\<close>, \<open>movup\<close> and \<open>movdn\<close>; the locale \<open>operand_stack\<close> states what a client
  may rely on, over the list of elements read from the top.
\<close>

section \<open>Moves on a list whose head is the top\<close>

definition list_swap :: "nat \<Rightarrow> nat \<Rightarrow> 'a list \<Rightarrow> 'a list" where
  "list_swap a b s = s[a := s ! b, b := s ! a]"

definition move_up :: "nat \<Rightarrow> 'a list \<Rightarrow> 'a list" where
  "move_up n xs = xs ! n # take n xs @ drop (Suc n) xs"

definition move_down :: "nat \<Rightarrow> 'a list \<Rightarrow> 'a list" where
  "move_down n xs = take n (tl xs) @ hd xs # drop (Suc n) xs"

lemma length_list_swap [simp]: "length (list_swap a b xs) = length xs"
  by (simp add: list_swap_def)

lemma length_move_up [simp]: "n < length xs \<Longrightarrow> length (move_up n xs) = length xs"
  by (simp add: move_up_def)

lemma length_move_down [simp]: "n < length xs \<Longrightarrow> length (move_down n xs) = length xs"
  by (cases xs) (simp_all add: move_down_def)

lemma move_up_split: "length us = n \<Longrightarrow> move_up n (us @ x # vs) = x # us @ vs"
  by (simp add: move_up_def nth_append)

lemma move_down_split: "length us = n \<Longrightarrow> move_down n (x # us @ vs) = us @ x # vs"
  by (simp add: move_down_def)

lemma split_at: "n < length xs \<Longrightarrow> \<exists>us x vs. xs = us @ x # vs \<and> length us = n"
  by (rule exI [of _ "take n xs"]) (auto simp: id_take_nth_drop [symmetric] intro!: exI id_take_nth_drop)

lemma move_down_up: "n < length xs \<Longrightarrow> move_down n (move_up n xs) = xs"
  using split_at [of n xs] by (auto simp: move_up_split move_down_split)

lemma move_up_down:
  assumes "n < length xs"
  shows "move_up n (move_down n xs) = xs"
proof -
  from assms obtain x ys where xs: "xs = x # ys" by (cases xs) auto
  with assms have "length (take n ys) = n" by simp
  then have "move_up n (move_down n (x # take n ys @ drop n ys)) = x # take n ys @ drop n ys"
    by (simp only: move_down_split move_up_split)
  with xs show ?thesis by simp
qed

lemma list_swap_twice: "n < length xs \<Longrightarrow> list_swap 0 n (list_swap 0 n xs) = xs"
  by (cases xs; cases n) (auto simp: list_swap_def nth_list_update list_update_same_conv)

lemma mset_move_up: "n < length xs \<Longrightarrow> mset (move_up n xs) = mset xs"
  using split_at [of n xs] by (auto simp: move_up_split)

lemma mset_move_down: "n < length xs \<Longrightarrow> mset (move_down n xs) = mset xs"
  by (metis mset_move_up move_up_down length_move_down)

lemma mset_list_swap: "i < length xs \<Longrightarrow> j < length xs \<Longrightarrow> mset (list_swap i j xs) = mset xs"
  by (simp add: list_swap_def mset_swap)

lemma swap_1_move_up: "1 < length xs \<Longrightarrow> list_swap 0 1 xs = move_up 1 xs"
  by (cases xs rule: remdups_adj.cases) (simp_all add: list_swap_def move_up_def)

lemma swap_1_move_down: "1 < length xs \<Longrightarrow> list_swap 0 1 xs = move_down 1 xs"
  by (cases xs rule: remdups_adj.cases) (simp_all add: list_swap_def move_down_def)

section \<open>The contract\<close>

locale operand_stack =
  fixes top_view :: "'s \<Rightarrow> 'a list"
    and drop_op :: "'s \<Rightarrow> 's option"
    and dup_op swap_op movup_op movdn_op :: "nat \<Rightarrow> 's \<Rightarrow> 's option"
  assumes view_inject: "top_view s = top_view t \<Longrightarrow> s = t"
    and drop_law: "map_option top_view (drop_op s) =
      (case top_view s of [] \<Rightarrow> None | _ # xs \<Rightarrow> Some xs)"
    and dup_law: "dup_op n s = Some t \<Longrightarrow>
      n < length (top_view s) \<and> top_view t = top_view s ! n # top_view s"
    and swap_law: "map_option top_view (swap_op n s) =
      (if n \<noteq> 0 \<and> n < length (top_view s) then Some (list_swap 0 n (top_view s)) else None)"
    and movup_law: "map_option top_view (movup_op n s) =
      (if n \<noteq> 0 \<and> n < length (top_view s) then Some (move_up n (top_view s)) else None)"
    and movdn_law: "map_option top_view (movdn_op n s) =
      (if n \<noteq> 0 \<and> n < length (top_view s) then Some (move_down n (top_view s)) else None)"
begin

lemma swap_Some: "swap_op n s = Some t \<longleftrightarrow>
    n \<noteq> 0 \<and> n < length (top_view s) \<and> top_view t = list_swap 0 n (top_view s)"
  using swap_law [of n s] view_inject by (auto split: if_splits)

lemma movup_Some: "movup_op n s = Some t \<longleftrightarrow>
    n \<noteq> 0 \<and> n < length (top_view s) \<and> top_view t = move_up n (top_view s)"
  using movup_law [of n s] view_inject by (auto split: if_splits)

lemma movdn_Some: "movdn_op n s = Some t \<longleftrightarrow>
    n \<noteq> 0 \<and> n < length (top_view s) \<and> top_view t = move_down n (top_view s)"
  using movdn_law [of n s] view_inject by (auto split: if_splits)

lemma swap_involutive: "swap_op n s = Some t \<Longrightarrow> swap_op n t = Some s"
  by (auto simp: swap_Some list_swap_twice)

lemma movdn_undoes_movup: "movup_op n s = Some t \<Longrightarrow> movdn_op n t = Some s"
  by (auto simp: movup_Some movdn_Some move_down_up)

lemma movup_undoes_movdn: "movdn_op n s = Some t \<Longrightarrow> movup_op n t = Some s"
  by (auto simp: movup_Some movdn_Some move_up_down)

lemma moves_permute:
  "swap_op n s = Some t \<or> movup_op n s = Some t \<or> movdn_op n s = Some t \<Longrightarrow>
    mset (top_view t) = mset (top_view s)"
  by (auto simp: swap_Some movup_Some movdn_Some mset_move_up mset_move_down intro!: mset_list_swap)

lemma swap_1_movup: "swap_op 1 s = movup_op 1 s"
proof (cases "1 < length (top_view s)")
  case True
  with swap_law [of 1 s] obtain t where "swap_op 1 s = Some t" by auto
  moreover from this True have "movup_op 1 s = Some t"
    by (simp add: swap_Some movup_Some swap_1_move_up [simplified])
  ultimately show ?thesis by simp
next
  case False
  with swap_law [of 1 s] movup_law [of 1 s] show ?thesis by auto
qed

lemma swap_1_movdn: "swap_op 1 s = movdn_op 1 s"
proof (cases "1 < length (top_view s)")
  case True
  with swap_law [of 1 s] obtain t where "swap_op 1 s = Some t" by auto
  moreover from this True have "movdn_op 1 s = Some t"
    by (simp add: swap_Some movdn_Some swap_1_move_down [simplified])
  ultimately show ?thesis by simp
next
  case False
  with swap_law [of 1 s] movdn_law [of 1 s] show ?thesis by auto
qed

lemma dup_drop: "dup_op n s = Some t \<Longrightarrow> drop_op t = Some s"
  using drop_law [of t] dup_law [of n s t] view_inject by auto

end

end
