(* ===== verification/VmStack.thy ===== *)
theory VmStack
  imports StackSpec
begin

text \<open>
  The trait \<open>Stack\<close> of hir/src/asm/stack.rs: the plumbing of the Miden operand stack, as used
  by the emulator on field elements.  The vector holds the top of the stack at its end, and
  every operation is written on that vector with the bounds checks, index arithmetic and
  panics of the source.  \<open>topdown xs\<close> is the vector whose elements, read from the top, are
  \<open>xs\<close>; the lemmas in \<open>stack_simps\<close> characterise each operation on such a vector, which is
  how all later proofs execute code.
\<close>

section \<open>The operations on the vector\<close>

definition vm_peek :: "'a list \<Rightarrow> 'a option" where
  "vm_peek s = (if s = [] then None else Some (last s))"

text \<open>
  \<open>vm_peekw\<close> panics (outer \<open>None\<close>) when between one and three elements are there, since it
  only checks the stack for emptiness before indexing.
\<close>

definition vm_peekw :: "'a list \<Rightarrow> 'a word4 option option" where
  "vm_peekw s =
     (if s = [] then Some None
      else let end = length s - 1 in
        if end < 3 then None
        else Some (Some (s ! end, s ! (end - 1), s ! (end - 2), s ! (end - 3))))"

definition vm_padw :: "'a \<Rightarrow> 'a list \<Rightarrow> 'a list" where
  "vm_padw dflt s = s @ [dflt, dflt, dflt, dflt]"

definition vm_push :: "'a \<Rightarrow> 'a list \<Rightarrow> 'a list" where
  "vm_push x s = s @ [x]"

fun vm_pushw :: "'a word4 \<Rightarrow> 'a list \<Rightarrow> 'a list" where
  "vm_pushw (a, b, c, d) s = s @ rev [a, b, c, d]"

declare vm_pushw.simps [simp del]

definition vm_pop :: "'a list \<Rightarrow> 'a option \<times> 'a list" where
  "vm_pop s = (if s = [] then (None, s) else (Some (last s), butlast s))"

text \<open>Each \<open>?\<close> of \<open>popw\<close> returns early with what was popped so far already gone.\<close>

definition vm_popw :: "'a list \<Rightarrow> 'a word4 option \<times> 'a list" where
  "vm_popw s =
     (case vm_pop s of (None, s) \<Rightarrow> (None, s) | (Some a, s) \<Rightarrow>
      (case vm_pop s of (None, s) \<Rightarrow> (None, s) | (Some b, s) \<Rightarrow>
      (case vm_pop s of (None, s) \<Rightarrow> (None, s) | (Some c, s) \<Rightarrow>
      (case vm_pop s of (None, s) \<Rightarrow> (None, s) | (Some d, s) \<Rightarrow>
         (Some (a, b, c, d), s)))))"

definition vm_dropn :: "nat \<Rightarrow> 'a list \<Rightarrow> 'a list option" where
  "vm_dropn n s =
     do { assert_that (n \<le> length s);
          Some (take (length s - n) s) }"

definition vm_drop :: "'a list \<Rightarrow> 'a list option" where
  "vm_drop s = vm_dropn 1 s"

definition vm_dropw :: "'a list \<Rightarrow> 'a list option" where
  "vm_dropw s = vm_dropn 4 s"

text \<open>The \<open>Index\<close> implementation: only the top 16 elements are accessible.\<close>

definition vm_index :: "'a list \<Rightarrow> nat \<Rightarrow> 'a option" where
  "vm_index s index =
     do { assert_that (index < 16);
          assert_that (index < length s);
          Some (s ! (length s - index - 1)) }"

definition vm_dup :: "nat \<Rightarrow> 'a list \<Rightarrow> 'a list option" where
  "vm_dup n s = do { x \<leftarrow> vm_index s n; Some (s @ [x]) }"

definition vm_dupw :: "nat \<Rightarrow> 'a list \<Rightarrow> 'a list option" where
  "vm_dupw n s =
     do { assert_that (n < 4);
          let len = length s; let index = n * 4;
          assert_that (index < len);
          if index = 0 then
            (case vm_peekw s of Some (Some word) \<Rightarrow> Some (vm_pushw word s) | _ \<Rightarrow> None)
          else do {
            let end = len - index - 1;
            assert_that (3 \<le> end);
            Some (vm_pushw (s ! end, s ! (end - 1), s ! (end - 2), s ! (end - 3)) s) } }"

definition vm_swap :: "nat \<Rightarrow> 'a list \<Rightarrow> 'a list option" where
  "vm_swap n s =
     do { assert_that (n \<noteq> 0);
          let len = length s;
          assert_that (n < len);
          let a = len - 1; let b = a - n;
          Some (list_swap a b s) }"

definition vm_swapw :: "nat \<Rightarrow> 'a list \<Rightarrow> 'a list option" where
  "vm_swapw n s =
     do { assert_that (n \<noteq> 0);
          let len = length s; let index = n * 4;
          assert_that (index < len);
          let end = len - 1;
          assert_that (3 + index \<le> end);
          Some (fold (\<lambda>offset. list_swap (end - offset) (end - offset - index)) [0..<4] s) }"

text \<open>\<open>slice::rotate_left(k)\<close> and \<open>slice::rotate_right(k)\<close>; both panic if \<open>k\<close> is too large.\<close>

definition slice_rotate_left :: "nat \<Rightarrow> 'a list \<Rightarrow> 'a list option" where
  "slice_rotate_left k r = do { assert_that (k \<le> length r); Some (drop k r @ take k r) }"

definition slice_rotate_right :: "nat \<Rightarrow> 'a list \<Rightarrow> 'a list option" where
  "slice_rotate_right k r =
     do { assert_that (k \<le> length r);
          Some (drop (length r - k) r @ take (length r - k) r) }"

definition vm_movup :: "nat \<Rightarrow> 'a list \<Rightarrow> 'a list option" where
  "vm_movup n s =
     do { assert_that (n \<noteq> 0);
          let len = length s;
          assert_that (n < len);
          let mid = len - (n + 1);
          r \<leftarrow> slice_rotate_left 1 (drop mid s);
          Some (take mid s @ r) }"

definition vm_movupw :: "nat \<Rightarrow> 'a list \<Rightarrow> 'a list option" where
  "vm_movupw n s =
     do { assert_that (n \<noteq> 0);
          let len = length s; let index = n * 4 + 4;
          assert_that (index < len);
          let mid = len - index;
          r \<leftarrow> slice_rotate_left 4 (drop mid s);
          Some (take mid s @ r) }"

definition vm_movdn :: "nat \<Rightarrow> 'a list \<Rightarrow> 'a list option" where
  "vm_movdn n s =
     do { assert_that (n \<noteq> 0);
          let len = length s;
          assert_that (n < len);
          let mid = len - (n + 1);
          r \<leftarrow> slice_rotate_right 1 (drop mid s);
          Some (take mid s @ r) }"

definition vm_movdnw :: "nat \<Rightarrow> 'a list \<Rightarrow> 'a list option" where
  "vm_movdnw n s =
     do { assert_that (n \<noteq> 0);
          let len = length s; let index = n * 4 + 4;
          assert_that (index < len);
          let mid = len - index;
          r \<leftarrow> slice_rotate_right 4 (drop mid s);
          Some (take mid s @ r) }"

section \<open>The operations read from the top\<close>

definition topdown :: "'a list \<Rightarrow> 'a list" where
  "topdown xs = rev xs"

lemma topdown_inject [simp]: "topdown xs = topdown ys \<longleftrightarrow> xs = ys"
  by (simp add: topdown_def)

lemma topdown_eq_Nil [simp]: "topdown xs = [] \<longleftrightarrow> xs = []" "[] = topdown xs \<longleftrightarrow> xs = []"
  by (simp_all add: topdown_def)

lemma length_topdown [simp]: "length (topdown xs) = length xs"
  by (simp add: topdown_def)

lemma set_topdown [simp]: "set (topdown xs) = set xs"
  by (simp add: topdown_def)

lemma topdown_exists: "\<exists>xs. s = topdown xs"
  by (rule exI [of _ "rev s"]) (simp add: topdown_def)

lemma peek_topdown [stack_simps]:
  "vm_peek (topdown xs) = (case xs of [] \<Rightarrow> None | x # _ \<Rightarrow> Some x)"
  by (cases xs) (simp_all add: vm_peek_def topdown_def)

lemma pop_topdown [stack_simps]:
  "vm_pop (topdown xs) = (case xs of [] \<Rightarrow> (None, topdown []) | x # xs' \<Rightarrow> (Some x, topdown xs'))"
  by (cases xs) (simp_all add: vm_pop_def topdown_def)

lemma push_topdown [stack_simps]: "vm_push x (topdown xs) = topdown (x # xs)"
  by (simp add: vm_push_def topdown_def)

lemma pushw_topdown [stack_simps]:
  "vm_pushw (a, b, c, d) (topdown xs) = topdown (a # b # c # d # xs)"
  by (simp add: vm_pushw.simps topdown_def)

lemma padw_topdown [stack_simps]:
  "vm_padw z (topdown xs) = topdown (z # z # z # z # xs)"
  by (simp add: vm_padw_def topdown_def)

lemma peekw_topdown [stack_simps]:
  "vm_peekw (topdown (a # b # c # d # xs)) = Some (Some (a, b, c, d))"
  by (simp add: vm_peekw_def topdown_def nth_append Let_def)

lemma popw_topdown [stack_simps]:
  "vm_popw (topdown (a # b # c # d # xs)) = (Some (a, b, c, d), topdown xs)"
  by (simp add: vm_popw_def stack_simps)

lemma index_topdown [stack_simps]:
  "vm_index (topdown xs) n = (if n < 16 \<and> n < length xs then Some (xs ! n) else None)"
  by (simp add: vm_index_def topdown_def assert_that_def rev_nth)

lemma dup_topdown [stack_simps]:
  "vm_dup n (topdown xs) =
     (if n < 16 \<and> n < length xs then Some (topdown (xs ! n # xs)) else None)"
  by (simp add: vm_dup_def index_topdown) (simp add: topdown_def)

lemma dropn_topdown [stack_simps]:
  "vm_dropn n (topdown xs) = (if n \<le> length xs then Some (topdown (drop n xs)) else None)"
  by (simp add: vm_dropn_def topdown_def assert_that_def rev_drop)

lemma drop_topdown [stack_simps]:
  "vm_drop (topdown xs) = (case xs of [] \<Rightarrow> None | _ # xs' \<Rightarrow> Some (topdown xs'))"
  by (cases xs) (simp_all add: vm_drop_def stack_simps)

lemma dropw_topdown [stack_simps]:
  "vm_dropw (topdown xs) = (if 4 \<le> length xs then Some (topdown (drop 4 xs)) else None)"
  by (simp add: vm_dropw_def stack_simps)

lemma list_swap_from_end:
  assumes "i < length xs" "j < length xs"
  shows "list_swap (length xs - Suc i) (length xs - Suc j) (rev xs) = rev (list_swap i j xs)"
  using assms
  by (simp add: list_swap_def rev_update rev_nth)

lemma swap_topdown [stack_simps]:
  "vm_swap n (topdown xs) =
     (if n \<noteq> 0 \<and> n < length xs then Some (topdown (list_swap 0 n xs)) else None)"
proof (cases "n \<noteq> 0 \<and> n < length xs")
  case True
  then have "xs \<noteq> []" by auto
  with True list_swap_from_end [of 0 xs n] show ?thesis
    by (simp add: vm_swap_def topdown_def assert_that_def Let_def)
qed (auto simp: vm_swap_def assert_that_def Let_def)

lemma movup_topdown [stack_simps]:
  "vm_movup n (topdown xs) =
     (if n \<noteq> 0 \<and> n < length xs
      then Some (topdown (move_up n xs)) else None)"
proof (cases "n \<noteq> 0 \<and> n < length xs")
  case True
  then have "take (Suc n) xs = take n xs @ [xs ! n]" "Suc (length xs - Suc n) = length xs - n"
    by (simp_all add: take_Suc_conv_app_nth Suc_diff_Suc)
  with True show ?thesis
    by (simp add: vm_movup_def move_up_def slice_rotate_left_def topdown_def Let_def
        drop_minus_rev take_minus_rev assert_that_def)
qed (auto simp: vm_movup_def assert_that_def Let_def)

lemma movdn_topdown [stack_simps]:
  "vm_movdn n (topdown xs) =
     (if n \<noteq> 0 \<and> n < length xs
      then Some (topdown (move_down n xs)) else None)"
proof (cases "n \<noteq> 0 \<and> n < length xs")
  case True
  then obtain x xs' where xs: "xs = x # xs'" by (cases xs) auto
  with True have "n \<le> length xs'" by simp
  with xs True show ?thesis
    by (simp add: vm_movdn_def move_down_def slice_rotate_right_def topdown_def Let_def
        drop_minus_rev take_minus_rev assert_that_def)
qed (auto simp: vm_movdn_def assert_that_def Let_def)

section \<open>Words\<close>

lemma rev_rotate_left:
  "k \<le> length ys \<Longrightarrow> slice_rotate_left k (rev ys) =
     Some (rev (drop (length ys - k) ys @ take (length ys - k) ys))"
  by (simp add: slice_rotate_left_def rev_drop rev_take)

lemma rev_rotate_right:
  "k \<le> length ys \<Longrightarrow> slice_rotate_right k (rev ys) = Some (rev (drop k ys @ take k ys))"
  by (simp add: slice_rotate_right_def rev_drop rev_take)

lemma movupw_topdown [stack_simps]:
  "vm_movupw n (topdown xs) =
     (if n \<noteq> 0 \<and> 4 * n + 4 < length xs
      then Some (topdown (take 4 (drop (4 * n) xs) @ take (4 * n) xs @ drop (4 * n + 4) xs))
      else None)"
  by (auto simp: vm_movupw_def topdown_def Let_def bind_assert_that mult.commute
      drop_minus_rev take_minus_rev rev_rotate_left drop_take min_def)

lemma movdnw_topdown [stack_simps]:
  "vm_movdnw n (topdown xs) =
     (if n \<noteq> 0 \<and> 4 * n + 4 < length xs
      then Some (topdown (take (4 * n) (drop 4 xs) @ take 4 xs @ drop (4 * n + 4) xs))
      else None)"
  by (auto simp: vm_movdnw_def topdown_def Let_def bind_assert_that mult.commute
      drop_minus_rev take_minus_rev rev_rotate_right drop_take min_def)

text \<open>The \<open>n\<close>th word and the top word exchanged, element by element.\<close>

definition swap_words :: "nat \<Rightarrow> 'a list \<Rightarrow> 'a list" where
  "swap_words n xs = fold (\<lambda>i. list_swap i (i + 4 * n)) [0..<4] xs"

lemma upt_4: "[0..<4] = [0, 1, 2, 3 :: nat]"
  by (simp add: upt_rec)

lemma nth_swap_words:
  assumes "n \<noteq> 0" "4 * n + 4 \<le> length xs" "i < length xs"
  shows "swap_words n xs ! i =
    (if i < 4 then xs ! (i + 4 * n)
     else if 4 * n \<le> i \<and> i < 4 * n + 4 then xs ! (i - 4 * n) else xs ! i)"
proof -
  have "i < 4 \<longleftrightarrow> i = 0 \<or> i = 1 \<or> i = 2 \<or> i = 3" by auto
  moreover have "4 * n \<le> i \<and> i < 4 * n + 4 \<longleftrightarrow>
      i = 4 * n \<or> i = 1 + 4 * n \<or> i = 2 + 4 * n \<or> i = 3 + 4 * n" by auto
  ultimately show ?thesis using assms
    by (auto simp: swap_words_def upt_4 list_swap_def nth_list_update)
qed

lemma fold_swap_from_end:
  assumes "m \<noteq> 0" "\<forall>i \<in> set is. i + m < len" "length ys = len"
  shows "fold (\<lambda>i. list_swap (len - 1 - i) (len - 1 - i - m)) is (rev ys) =
    rev (fold (\<lambda>i. list_swap i (i + m)) is ys)"
  using assms(2,3)
proof (induction "is" arbitrary: ys)
  case (Cons i "is")
  then have "list_swap (len - 1 - i) (len - 1 - i - m) (rev ys) = rev (list_swap i (i + m) ys)"
    using list_swap_from_end [of i ys "i + m"] by simp
  with Cons show ?case by simp
qed simp

lemma swapw_topdown [stack_simps]:
  "vm_swapw n (topdown xs) =
     (if n \<noteq> 0 \<and> 4 * n + 4 \<le> length xs then Some (topdown (swap_words n xs)) else None)"
proof (cases "n \<noteq> 0 \<and> 4 * n + 4 \<le> length xs")
  case True
  then have "fold (\<lambda>i. list_swap (length xs - 1 - i) (length xs - 1 - i - n * 4)) [0..<4] (rev xs) =
      rev (swap_words n xs)"
    using fold_swap_from_end [of "n * 4" "[0..<4]" "length xs" xs]
    by (simp add: swap_words_def mult.commute)
  moreover from True have "3 + n * 4 \<le> length xs - 1" "n * 4 < length xs" by arith+
  ultimately show ?thesis using True
    by (simp add: vm_swapw_def topdown_def bind_assert_that)
qed (auto simp: vm_swapw_def Let_def bind_assert_that)

lemma take_4_drop: "k + 4 \<le> length xs \<Longrightarrow>
    take 4 (drop k xs) = [xs ! k, xs ! (k + 1), xs ! (k + 2), xs ! (k + 3)]"
  by (rule nth_equalityI) (auto simp: nth_Cons numeral_eq_Suc less_Suc_eq split: nat.splits)

lemma peekw_long:
  "4 \<le> length xs \<Longrightarrow> vm_peekw (topdown xs) = Some (Some (xs ! 0, xs ! 1, xs ! 2, xs ! 3))"
  by (auto simp: vm_peekw_def topdown_def Let_def rev_nth numeral_eq_Suc)

lemma peekw_short: "xs \<noteq> [] \<Longrightarrow> length xs < 4 \<Longrightarrow> vm_peekw (topdown xs) = None"
  by (cases xs) (auto simp: vm_peekw_def Let_def)

lemma dupw_topdown [stack_simps]:
  "vm_dupw n (topdown xs) =
     (if n < 4 \<and> 4 * n + 4 \<le> length xs
      then Some (topdown (take 4 (drop (4 * n) xs) @ xs)) else None)"
proof (cases "n = 0")
  case True
  show ?thesis
  proof (cases "xs = [] \<or> length xs < 4")
    case True
    with \<open>n = 0\<close> show ?thesis
      using peekw_short [of xs] by (auto simp: vm_dupw_def bind_assert_that)
  next
    case False
    with \<open>n = 0\<close> take_4_drop [of 0 xs] show ?thesis
      by (simp add: vm_dupw_def bind_assert_that peekw_long pushw_topdown numeral_2_eq_2)
  qed
next
  case False
  have "vm_dupw n (topdown xs) = (if n < 4 \<and> 4 * n + 4 \<le> length xs
      then Some (vm_pushw (xs ! (4 * n), xs ! (4 * n + 1), xs ! (4 * n + 2), xs ! (4 * n + 3))
        (topdown xs)) else None)"
    using False
    by (auto simp: vm_dupw_def bind_assert_that Let_def topdown_def rev_nth numeral_eq_Suc
        mult.commute algebra_simps)
  then show ?thesis
    using take_4_drop [of "4 * n" xs] by (simp add: pushw_topdown)
qed

section \<open>The contract holds\<close>

lemma topdown_rev [simp]: "topdown (rev s) = s" "rev (topdown xs) = xs"
  by (simp_all add: topdown_def)

interpretation vm: operand_stack rev vm_drop vm_dup vm_swap vm_movup vm_movdn
proof unfold_locales
  fix s t :: "'a list" and n :: nat
  show "rev s = rev t \<Longrightarrow> s = t" by simp
  show "map_option rev (vm_drop s) = (case rev s of [] \<Rightarrow> None | _ # xs \<Rightarrow> Some xs)"
    using drop_topdown [of "rev s"] by (auto split: list.splits)
  show "vm_dup n s = Some t \<Longrightarrow> n < length (rev s) \<and> rev t = rev s ! n # rev s"
    using dup_topdown [of n "rev s"] by (auto simp: topdown_def split: if_splits)
  show "map_option rev (vm_swap n s) =
      (if n \<noteq> 0 \<and> n < length (rev s) then Some (list_swap 0 n (rev s)) else None)"
    using swap_topdown [of n "rev s"] by simp
  show "map_option rev (vm_movup n s) =
      (if n \<noteq> 0 \<and> n < length (rev s) then Some (move_up n (rev s)) else None)"
    using movup_topdown [of n "rev s"] by simp
  show "map_option rev (vm_movdn n s) =
      (if n \<noteq> 0 \<and> n < length (rev s) then Some (move_down n (rev s)) else None)"
    using movdn_topdown [of n "rev s"] by simp
qed

end
