(* ===== verification/HirType.thy ===== *)
theory HirType
  imports Prelude
begin

text \<open>
  The type language of the IR (hir-type/src/lib.rs): \<open>Type\<close> with its struct and array types,
  the classification predicates, the compatibility relation of binary operators, and the
  memory sizes and alignments of hir-type/src/layout.rs.

  Field indices (\<open>u8\<close>), alignments (\<open>u16\<close>) and offsets and sizes (\<open>u32\<close>, \<open>usize\<close>) are
  \<open>nat\<close>; where the source converts with \<open>try_into().expect(..)\<close> or adds in \<open>u32\<close>, the model
  checks the range and is \<open>None\<close> (the panic) outside it.
\<close>

section \<open>Types\<close>

datatype address_space = AsUnknown | AsRoot | AsId nat

datatype type_repr = ReprDefault | ReprAlign nat | ReprPacked nat | ReprTransparent

datatype (plugins only: size) hir_type =
    TyUnknown | TyUnit | TyNever
  | TyI1 | TyI8 | TyU8 | TyI16 | TyU16 | TyI32 | TyU32 | TyI64 | TyU64
  | TyI128 | TyU128 | TyU256 | TyF64 | TyFelt
  | TyPtr hir_type
  | TyNativePtr hir_type address_space
  | TyStruct struct_type
  | TyArray hir_type nat
  and struct_type = StructType (st_repr: type_repr) (st_size: nat) (st_fields: "struct_field list")
  and struct_field = StructField (sf_index: nat) (sf_align: nat) (sf_offset: nat) (sf_ty: hir_type)

section \<open>Classification\<close>

fun is_zst :: "hir_type \<Rightarrow> bool" and all_zst :: "struct_field list \<Rightarrow> bool" where
  "is_zst TyUnknown = False"
| "is_zst TyNever = True"
| "is_zst TyUnit = True"
| "is_zst (TyArray t n) = (n = 0 \<or> is_zst t)"
| "is_zst (TyStruct (StructType r sz fs)) = all_zst fs"
| "is_zst _ = False"
| "all_zst [] = True"
| "all_zst (StructField i a off t # fs) = (is_zst t \<and> all_zst fs)"

definition is_numeric :: "hir_type \<Rightarrow> bool" where
  "is_numeric t = (t \<in> {TyI1, TyI8, TyU8, TyI16, TyU16, TyI32, TyU32, TyI64, TyU64, TyI128,
     TyU128, TyU256, TyF64, TyFelt})"

definition is_integer :: "hir_type \<Rightarrow> bool" where
  "is_integer t = (t \<in> {TyI1, TyI8, TyU8, TyI16, TyU16, TyI32, TyU32, TyI64, TyU64, TyI128,
     TyU128, TyU256, TyFelt})"

definition is_signed_integer :: "hir_type \<Rightarrow> bool" where
  "is_signed_integer t = (t \<in> {TyI8, TyI16, TyI32, TyI64, TyI128})"

definition is_unsigned_integer :: "hir_type \<Rightarrow> bool" where
  "is_unsigned_integer t = (t \<in> {TyU8, TyU16, TyU32, TyU64, TyU128})"

fun as_unsigned :: "hir_type \<Rightarrow> hir_type option" where
  "as_unsigned TyI8 = Some TyU8" | "as_unsigned TyU8 = Some TyU8"
| "as_unsigned TyI16 = Some TyU16" | "as_unsigned TyU16 = Some TyU16"
| "as_unsigned TyI32 = Some TyU32" | "as_unsigned TyU32 = Some TyU32"
| "as_unsigned TyI64 = Some TyU64" | "as_unsigned TyU64 = Some TyU64"
| "as_unsigned TyFelt = Some TyFelt"
| "as_unsigned _ = None"

fun as_signed :: "hir_type \<Rightarrow> hir_type option" where
  "as_signed TyI8 = Some TyI8" | "as_signed TyU8 = Some TyI8"
| "as_signed TyI16 = Some TyI16" | "as_signed TyU16 = Some TyI16"
| "as_signed TyI32 = Some TyI32" | "as_signed TyU32 = Some TyI32"
| "as_signed TyI64 = Some TyI64" | "as_signed TyU64 = Some TyI64"
| "as_signed TyI128 = Some TyI128"
| "as_signed _ = None"

fun is_pointer :: "hir_type \<Rightarrow> bool" where
  "is_pointer (TyPtr _) = True"
| "is_pointer (TyNativePtr _ _) = True"
| "is_pointer _ = False"

fun pointee :: "hir_type \<Rightarrow> hir_type option" where
  "pointee (TyPtr t) = Some t"
| "pointee (TyNativePtr t _) = Some t"
| "pointee _ = None"

text \<open>The operand compatibility of a binary operator, \<open>self\<close> being the controlling type.\<close>

definition is_compatible_operand :: "hir_type \<Rightarrow> hir_type \<Rightarrow> bool" where
  "is_compatible_operand self other =
     (case self of
        TyI1 \<Rightarrow> other = TyI1
      | TyI8 \<Rightarrow> other = TyI8
      | TyU8 \<Rightarrow> other = TyU8
      | TyI16 \<Rightarrow> other \<in> {TyI8, TyU8, TyI16}
      | TyU16 \<Rightarrow> other \<in> {TyU8, TyU16}
      | TyI32 \<Rightarrow> other \<in> {TyI8, TyU8, TyI16, TyU16, TyI32}
      | TyU32 \<Rightarrow> other \<in> {TyU8, TyU16, TyU32}
      | TyFelt \<Rightarrow> other \<in> {TyI8, TyU8, TyI16, TyU16, TyI32, TyU32, TyFelt}
      | TyI64 \<Rightarrow> other \<in> {TyI8, TyU8, TyI16, TyU16, TyI32, TyU32, TyFelt, TyI64}
      | TyU64 \<Rightarrow> other \<in> {TyU8, TyU16, TyU32, TyU64}
      | TyI128 \<Rightarrow> other \<in> {TyI8, TyU8, TyI16, TyU16, TyI32, TyU32, TyFelt, TyI64, TyU64, TyI128}
      | TyU128 \<Rightarrow> other \<in> {TyU8, TyU16, TyU32, TyU64, TyU128}
      | TyU256 \<Rightarrow> is_integer other
      | TyF64 \<Rightarrow> other = TyF64
      | TyPtr _ \<Rightarrow> other \<in> {TyU8, TyU16, TyU32}
      | TyNativePtr _ _ \<Rightarrow> other \<in> {TyU8, TyU16, TyU32}
      | _ \<Rightarrow> False)"

section \<open>Alignment arithmetic\<close>

text \<open>The trait \<open>Alignable\<close>; \<open>mx\<close> is the maximum of the integer type it is used at.\<close>

fun is_power_of_two :: "nat \<Rightarrow> bool" where
  "is_power_of_two n =
     (if n = 0 then False else if n = 1 then True
      else if n mod 2 = 1 then False else is_power_of_two (n div 2))"

declare is_power_of_two.simps [simp del]

lemma is_power_of_two_iff: "is_power_of_two n \<longleftrightarrow> (\<exists>k. n = 2 ^ k)"
proof (induction n rule: is_power_of_two.induct)
  case (1 n)
  have odd: "\<nexists>k. n = 2 ^ k" if "n \<noteq> 1" "n mod 2 = 1"
    using that by (metis even_power odd_iff_mod_2_eq_one power_0 even_numeral neq0_conv)
  have even: "(\<exists>k. n div 2 = 2 ^ k) \<longleftrightarrow> (\<exists>k. n = 2 ^ k)" if "n \<noteq> 0" "n \<noteq> 1" "n mod 2 = 0"
  proof
    assume "\<exists>k. n div 2 = 2 ^ k"
    then obtain k where "n div 2 = 2 ^ k" ..
    with that(3) have "n = 2 ^ Suc k" by auto
    then show "\<exists>k. n = 2 ^ k" ..
  next
    assume "\<exists>k. n = 2 ^ k"
    then obtain k where k: "n = 2 ^ k" ..
    with that(2) obtain j where "k = Suc j" by (cases k) auto
    with k show "\<exists>k. n div 2 = 2 ^ k" by auto
  qed
  have one: "\<exists>k. Suc 0 = 2 ^ k"
    by (rule exI [of _ 0]) simp
  show ?case
    by (subst is_power_of_two.simps) (use 1 one odd even in \<open>auto simp: mod2_eq_if split: if_splits\<close>)
qed

definition next_multiple_of :: "nat \<Rightarrow> nat \<Rightarrow> nat \<Rightarrow> nat option" where
  "next_multiple_of mx n m =
     do { assert_that (m \<noteq> 0);
          let offset = n mod m;
          let is_not_multiple = (if offset > 0 then 1 else 0);
          let r = n + (m - offset) * is_not_multiple;
          assert_that (r \<le> mx);
          Some r }"

definition align_offset :: "nat \<Rightarrow> nat \<Rightarrow> nat \<Rightarrow> nat option" where
  "align_offset mx n align =
     do { assert_that (is_power_of_two align);
          r \<leftarrow> next_multiple_of mx n align;
          Some (r - n) }"

definition align_up :: "nat \<Rightarrow> nat \<Rightarrow> nat \<Rightarrow> nat option" where
  "align_up mx n align =
     do { assert_that (min (n + align) mx < mx);
          next_multiple_of mx n align }"

section \<open>Sizes and alignments\<close>

definition repr_min_alignment :: "type_repr \<Rightarrow> nat option" where
  "repr_min_alignment r = (case r of ReprPacked a \<Rightarrow> Some a | ReprAlign a \<Rightarrow> Some a | _ \<Rightarrow> None)"

definition max_or_1 :: "nat list \<Rightarrow> nat" where
  "max_or_1 xs = (case xs of [] \<Rightarrow> 1 | x # xs' \<Rightarrow> fold max xs' x)"

definition struct_min_alignment :: "struct_type \<Rightarrow> nat" where
  "struct_min_alignment st =
     (case repr_min_alignment (st_repr st) of
        Some a \<Rightarrow> a
      | None \<Rightarrow> max_or_1 (map sf_align (st_fields st)))"

fun min_alignment :: "hir_type \<Rightarrow> nat" where
  "min_alignment TyUnknown = 1"
| "min_alignment TyUnit = 1"
| "min_alignment TyNever = 1"
| "min_alignment TyFelt = 4"
| "min_alignment TyU256 = 16"
| "min_alignment TyI128 = 16"
| "min_alignment TyU128 = 16"
| "min_alignment TyI64 = 4"
| "min_alignment TyU64 = 4"
| "min_alignment TyF64 = 4"
| "min_alignment TyI32 = 4"
| "min_alignment TyU32 = 4"
| "min_alignment (TyPtr _) = 4"
| "min_alignment (TyNativePtr _ _) = 4"
| "min_alignment TyI16 = 2"
| "min_alignment TyU16 = 2"
| "min_alignment TyI8 = 1"
| "min_alignment TyU8 = 1"
| "min_alignment TyI1 = 1"
| "min_alignment (TyStruct st) = struct_min_alignment st"
| "min_alignment (TyArray t _) = min_alignment t"

fun size_in_bits :: "hir_type \<Rightarrow> nat option" where
  "size_in_bits TyUnknown = Some 0"
| "size_in_bits TyUnit = Some 0"
| "size_in_bits TyNever = Some 0"
| "size_in_bits TyI1 = Some 1"
| "size_in_bits TyI8 = Some 8"
| "size_in_bits TyU8 = Some 8"
| "size_in_bits TyI16 = Some 16"
| "size_in_bits TyU16 = Some 16"
| "size_in_bits TyI32 = Some 32"
| "size_in_bits TyU32 = Some 32"
| "size_in_bits TyFelt = Some 32"
| "size_in_bits TyI64 = Some 64"
| "size_in_bits TyU64 = Some 64"
| "size_in_bits TyF64 = Some 64"
| "size_in_bits TyI128 = Some 128"
| "size_in_bits TyU128 = Some 128"
| "size_in_bits TyU256 = Some 256"
| "size_in_bits (TyPtr _) = Some 32"
| "size_in_bits (TyNativePtr _ _) = Some 96"
| "size_in_bits (TyStruct st) = Some (st_size st * 8)"
| "size_in_bits (TyArray t n) =
     (if n = 0 then Some 0
      else if n = 1 then size_in_bits t
      else do {
        let min_align = min_alignment t * 8;
        element_size \<leftarrow> size_in_bits t;
        padded_element_size \<leftarrow> align_up usize_MAX element_size min_align;
        let r = element_size + padded_element_size * (n - 1);
        assert_that (r \<le> usize_MAX);
        Some r })"

definition size_in_bytes :: "hir_type \<Rightarrow> nat option" where
  "size_in_bytes t =
     do { bits \<leftarrow> size_in_bits t;
          Some (bits div 8 + (if bits mod 8 > 0 then 1 else 0)) }"

definition aligned_size_in_bytes :: "hir_type \<Rightarrow> nat option" where
  "aligned_size_in_bytes t =
     do { let align = min_alignment t;
          size \<leftarrow> size_in_bytes t;
          if size = 0 then Some 0
          else do { assert_that (size + align \<le> usize_MAX); Some (size + align) } }"

text \<open>\<open>FELT_SIZE\<close> is \<open>size_of::<u64>()\<close> and \<open>WORD_SIZE\<close> is \<open>size_of::<[u64; 4]>()\<close>.\<close>

definition FELT_SIZE :: nat where "FELT_SIZE = 8"
definition WORD_SIZE :: nat where "WORD_SIZE = 32"

definition size_in_felts :: "hir_type \<Rightarrow> nat option" where
  "size_in_felts t =
     do { bytes \<leftarrow> size_in_bytes t;
          Some (bytes div FELT_SIZE + (if bytes mod FELT_SIZE > 0 then 1 else 0)) }"

definition size_in_words :: "hir_type \<Rightarrow> nat option" where
  "size_in_words t =
     do { bytes \<leftarrow> size_in_bytes t;
          Some (bytes div WORD_SIZE + (if bytes mod WORD_SIZE > 0 then 1 else 0)) }"

definition is_loadable :: "hir_type \<Rightarrow> bool option" where
  "is_loadable t = do { words \<leftarrow> size_in_words t; Some (words \<le> WORD_SIZE) }"

end
