(* ===== verification/Layout.thy ===== *)
theory Layout
  imports HirType
begin

text \<open>
  Struct layout and type splitting: \<open>StructType::new_with_repr\<close> of hir-type/src/lib.rs, which
  places the fields of a struct, and \<open>Type::split\<close> and \<open>Type::to_raw_parts\<close> of
  hir-type/src/layout.rs, which cut a value into the pieces that occupy one stack element.
\<close>

section \<open>Laying out a struct\<close>

text \<open>The loop of the transparent representation, from field \<open>index\<close> at \<open>offset\<close>.\<close>

fun transparent_fields :: "nat \<Rightarrow> nat \<Rightarrow> hir_type list \<Rightarrow> (struct_field list \<times> nat) option" where
  "transparent_fields index offset [] = Some ([], offset)"
| "transparent_fields index offset (ty # tys) =
     do { idx \<leftarrow> to_u8 index;
          bytes \<leftarrow> size_in_bytes ty;
          field_size \<leftarrow> to_u32 bytes;
          if field_size = 0 then do {
            (fs, offset') \<leftarrow> transparent_fields (index + 1) offset tys;
            Some (StructField idx 1 offset ty # fs, offset') }
          else do {
            align \<leftarrow> to_u16 (min_alignment ty);
            assert_that (offset = 0);
            next \<leftarrow> u32_add offset field_size;
            (fs, offset') \<leftarrow> transparent_fields (index + 1) next tys;
            Some (StructField idx align offset ty # fs, offset') } }"

text \<open>The alignment of one field: a packed representation lowers it.\<close>

definition field_align :: "type_repr \<Rightarrow> nat \<Rightarrow> nat" where
  "field_align repr default_align =
     (case repr of ReprPacked a \<Rightarrow> min a default_align | _ \<Rightarrow> default_align)"

text \<open>The loop of all other representations.\<close>

fun layout_fields :: "type_repr \<Rightarrow> nat \<Rightarrow> nat \<Rightarrow> hir_type list \<Rightarrow>
    (struct_field list \<times> nat) option" where
  "layout_fields repr index offset [] = Some ([], offset)"
| "layout_fields repr index offset (ty # tys) =
     do { idx \<leftarrow> to_u8 index;
          bytes \<leftarrow> size_in_bytes ty;
          field_size \<leftarrow> to_u32 bytes;
          default_align \<leftarrow> to_u16 (min_alignment ty);
          let align = field_align repr default_align;
          padding \<leftarrow> align_offset u32_MAX offset align;
          offset1 \<leftarrow> u32_add offset padding;
          offset2 \<leftarrow> u32_add offset1 field_size;
          (fs, offset') \<leftarrow> layout_fields repr (index + 1) offset2 tys;
          Some (StructField idx align offset1 ty # fs, offset') }"

definition struct_align :: "type_repr \<Rightarrow> hir_type list \<Rightarrow> nat option" where
  "struct_align repr tys =
     do { default_align \<leftarrow> to_u16 (max_or_1 (map min_alignment tys));
          Some (case repr of
              ReprAlign a \<Rightarrow> max a default_align
            | ReprPacked a \<Rightarrow> min a default_align
            | _ \<Rightarrow> default_align) }"

definition new_with_repr :: "type_repr \<Rightarrow> hir_type list \<Rightarrow> struct_type option" where
  "new_with_repr repr tys =
     (if repr = ReprTransparent then
        do { (fs, offset) \<leftarrow> transparent_fields 0 0 tys; Some (StructType repr offset fs) }
      else
        do { align \<leftarrow> struct_align repr tys;
             (fs, offset) \<leftarrow> layout_fields repr 0 0 tys;
             size \<leftarrow> align_up u32_MAX offset align;
             Some (StructType repr size fs) })"

section \<open>Alignment arithmetic, characterised\<close>

lemma next_multiple_of_Some:
  assumes "next_multiple_of mx n m = Some r"
  shows "m dvd r" "n \<le> r" "r < n + m" "r \<le> mx" "m \<noteq> 0"
proof -
  from assms have m: "m \<noteq> 0" and le: "r \<le> mx"
    and r: "r = n + (m - n mod m) * (if n mod m > 0 then 1 else 0)"
    by (auto simp: next_multiple_of_def bind_assert_that Let_def split: if_splits)
  have eq: "n = m * (n div m) + n mod m" by simp
  show "m dvd r"
  proof (cases "n mod m = 0")
    case True
    with r show ?thesis by (simp add: mod_0_imp_dvd)
  next
    case False
    with r have "r = n + (m - n mod m)" by simp
    moreover have "n mod m < m" using m by simp
    ultimately have "r = m * (n div m) + m" using eq by linarith
    then show ?thesis by simp
  qed
  show "n \<le> r" using r by simp
  show "r < n + m" using r m by auto
  show "r \<le> mx" "m \<noteq> 0" by fact+
qed

lemma align_offset_Some:
  assumes "align_offset mx n m = Some p"
  shows "m dvd n + p" "p < m" "n + p \<le> mx"
proof -
  from assms obtain r where "next_multiple_of mx n m = Some r" "p = r - n"
    by (auto simp: align_offset_def)
  with next_multiple_of_Some [OF this(1)] show "m dvd n + p" "p < m" "n + p \<le> mx"
    by auto
qed

lemma align_up_Some:
  assumes "align_up mx n m = Some r"
  shows "m dvd r" "n \<le> r" "r < n + m"
  using assms next_multiple_of_Some [of mx n m r] by (auto simp: align_up_def)

section \<open>The layout is a layout\<close>

text \<open>
  \<open>placed offset fs end\<close>: the fields \<open>fs\<close> follow one another from \<open>offset\<close> to \<open>end\<close>, each
  at a multiple of its alignment, with less padding than that before it.
\<close>

fun placed :: "nat \<Rightarrow> struct_field list \<Rightarrow> nat \<Rightarrow> bool" where
  "placed offset [] end = (offset = end)"
| "placed offset (f # fs) end =
     (case size_in_bytes (sf_ty f) of None \<Rightarrow> False
      | Some n \<Rightarrow> offset \<le> sf_offset f \<and> sf_align f dvd sf_offset f \<and>
          sf_offset f < offset + sf_align f \<and> placed (sf_offset f + n) fs end)"

lemma placed_end: "placed offset fs end \<Longrightarrow> offset \<le> end"
  by (induction fs arbitrary: offset) (fastforce split: option.splits)+

lemma placed_sized:
  "placed offset fs end \<Longrightarrow> f \<in> set fs \<Longrightarrow> \<exists>n. size_in_bytes (sf_ty f) = Some n"
  by (induction fs arbitrary: offset) (auto split: option.splits)

lemma placed_bounds:
  "placed offset fs end \<Longrightarrow> f \<in> set fs \<Longrightarrow> size_in_bytes (sf_ty f) = Some n \<Longrightarrow>
    offset \<le> sf_offset f \<and> sf_offset f + n \<le> end"
proof (induction fs arbitrary: offset)
  case (Cons g fs)
  then obtain m where m: "size_in_bytes (sf_ty g) = Some m" "offset \<le> sf_offset g"
    "placed (sf_offset g + m) fs end"
    by (auto split: option.splits)
  with Cons.IH [OF m(3)] Cons.prems placed_end [OF m(3)] show ?case by auto
qed simp

lemma placed_aligned: "placed offset fs end \<Longrightarrow> f \<in> set fs \<Longrightarrow> sf_align f dvd sf_offset f"
  by (induction fs arbitrary: offset) (auto split: option.splits)

lemma placed_disjoint:
  "placed offset fs end \<Longrightarrow> i < j \<Longrightarrow> j < length fs \<Longrightarrow>
    size_in_bytes (sf_ty (fs ! i)) = Some n \<Longrightarrow> sf_offset (fs ! i) + n \<le> sf_offset (fs ! j)"
proof (induction fs arbitrary: offset i j)
  case (Cons g fs)
  then obtain m where m: "size_in_bytes (sf_ty g) = Some m" "placed (sf_offset g + m) fs end"
    by (auto split: option.splits)
  from Cons.prems obtain j' where j: "j = Suc j'" "j' < length fs" by (cases j) auto
  show ?case
  proof (cases i)
    case 0
    from j(2) have "fs ! j' \<in> set fs" by simp
    with placed_sized [OF m(2)] placed_bounds [OF m(2)] j 0 m Cons.prems(4) show ?thesis
      by fastforce
  next
    case (Suc i')
    with Cons.IH [OF m(2), of i' j'] Cons.prems j show ?thesis by simp
  qed
qed simp

lemma layout_fields_ConsD:
  assumes "layout_fields repr index offset (ty # tys) = Some (fs, end)"
  obtains bytes padding fs' where "size_in_bytes ty = Some bytes"
    "align_offset u32_MAX offset (field_align repr (min_alignment ty)) = Some padding"
    "layout_fields repr (index + 1) (offset + padding + bytes) tys = Some (fs', end)"
    "fs = StructField index (field_align repr (min_alignment ty)) (offset + padding) ty # fs'"
  using assms
  by (auto simp: to_u8_def to_u16_def to_u32_def u32_add_def Let_def split: if_splits)

lemma layout_fields_placed:
  "layout_fields repr index offset tys = Some (fs, end) \<Longrightarrow> placed offset fs end"
proof (induction tys arbitrary: index offset fs)
  case (Cons ty tys)
  from Cons.prems show ?case
    by (rule layout_fields_ConsD) (use Cons.IH align_offset_Some in fastforce)
qed simp

lemma layout_fields_types:
  "layout_fields repr index offset tys = Some (fs, end) \<Longrightarrow> map sf_ty fs = tys"
proof (induction tys arbitrary: index offset fs)
  case (Cons ty tys)
  from Cons.prems show ?case by (rule layout_fields_ConsD) (use Cons.IH in fastforce)
qed simp

lemma layout_fields_index:
  "layout_fields repr index offset tys = Some (fs, end) \<Longrightarrow>
    map sf_index fs = [index ..< index + length tys]"
proof (induction tys arbitrary: index offset fs)
  case (Cons ty tys)
  from Cons.prems show ?case
    by (rule layout_fields_ConsD) (use Cons.IH in \<open>auto simp: upt_rec [of index] Suc_le_eq\<close>)
qed simp

section \<open>Splitting a type\<close>

text \<open>
  \<open>u16::prev_power_of_two\<close>.  Rust's \<open>next_power_of_two\<close> overflows (and panics) above \<open>2^15\<close>.
\<close>

definition next_power_of_two_u16 :: "nat \<Rightarrow> nat option" where
  "next_power_of_two_u16 n =
     List.find (\<lambda>p. n \<le> p)
       [1, 2, 4, 8, 16, 32, 64, 128, 256, 512, 1024, 2048, 4096, 8192, 16384, 32768]"

definition prev_power_of_two_u16 :: "nat \<Rightarrow> nat option" where
  "prev_power_of_two_u16 n =
     (if is_power_of_two n then Some n
      else do { p \<leftarrow> next_power_of_two_u16 n; Some (max (p div 2) 1) })"

text \<open>
  The loop, repeated in each branch of the source, that moves the fields behind the cut into
  the struct of what remains.  \<open>skip\<close> is what the source adds to \<open>prev_offset\<close> beside the
  field's own size: \<open>needed\<close> where a field was cut in two, \<open>0\<close> elsewhere.
\<close>

fun relocate :: "nat \<Rightarrow> nat \<Rightarrow> nat \<Rightarrow> nat \<Rightarrow> struct_field list \<Rightarrow> struct_field list option" where
  "relocate skip index prev_offset field_offset [] = Some []"
| "relocate skip index prev_offset field_offset (f # fs) =
     do { align_offset \<leftarrow> u32_sub (sf_offset f) prev_offset;
          bytes \<leftarrow> size_in_bytes (sf_ty f);
          let field_size = as_u32 bytes;
          end \<leftarrow> u32_add (sf_offset f) skip;
          prev \<leftarrow> u32_add end field_size;
          offset \<leftarrow> u32_add field_offset align_offset;
          next \<leftarrow> u32_add offset field_size;
          rest \<leftarrow> relocate skip (index + 1) prev next fs;
          Some (StructField (index mod 256) (sf_align f) offset (sf_ty f) # rest) }"

text \<open>The end of the struct case: structs of one field are replaced by that field's type.\<close>

definition finish_split :: "struct_type \<Rightarrow> struct_type \<Rightarrow> (hir_type \<times> hir_type option) option" where
  "finish_split sp rm =
     do { first \<leftarrow> (if length (st_fields sp) > 1 then Some (TyStruct sp)
            else if st_fields sp = [] then None else Some (sf_ty (last (st_fields sp))));
          Some (case st_fields rm of
              [] \<Rightarrow> (first, None)
            | [f] \<Rightarrow> (first, Some (sf_ty f))
            | _ \<Rightarrow> (first, Some (TyStruct rm))) }"

text \<open>Padding in front of the first field becomes an array of bytes.\<close>

definition pad_front :: "nat \<Rightarrow> struct_field list \<Rightarrow> struct_field list" where
  "pad_front needed done = (if done = [] then [StructField 0 1 0 (TyArray TyU8 needed)] else done)"

text \<open>The two branches of the struct case that cut inside padding.\<close>

definition cut_at_padding :: "struct_type \<Rightarrow> nat \<Rightarrow> nat \<Rightarrow> struct_field list \<Rightarrow> struct_field \<Rightarrow>
    struct_field list \<Rightarrow> (hir_type \<times> hir_type option) option" where
  "cut_at_padding orig needed split_size done f fs =
     do { size \<leftarrow> u32_add split_size needed;
          rsize \<leftarrow> u32_sub (st_size orig) size;
          bytes \<leftarrow> size_in_bytes (sf_ty f);
          rest \<leftarrow> relocate 0 1 (sf_offset f) (as_u32 bytes) fs;
          finish_split (StructType (st_repr orig) size (pad_front needed done))
            (StructType ReprDefault rsize
              (StructField 0 (sf_align f) 0 (sf_ty f) # rest)) }"

definition cut_in_padding :: "struct_type \<Rightarrow> nat \<Rightarrow> nat \<Rightarrow> nat \<Rightarrow> struct_field list \<Rightarrow> struct_field \<Rightarrow>
    struct_field list \<Rightarrow> (hir_type \<times> hir_type option) option" where
  "cut_in_padding orig padding needed split_size done f fs =
     do { size \<leftarrow> u32_add split_size needed;
          leftover \<leftarrow> to_u16 (padding - needed);
          effective \<leftarrow> prev_power_of_two_u16 leftover;
          let align_offset = leftover mod effective;
          let default_alignment = max (max_or_1 (map sf_align fs)) (sf_align f);
          let repr = (if default_alignment = effective then ReprDefault
            else if default_alignment > effective then ReprPacked effective
            else ReprAlign effective);
          rsize \<leftarrow> u32_sub (st_size orig) size;
          bytes \<leftarrow> size_in_bytes (sf_ty f);
          next \<leftarrow> u32_add align_offset (as_u32 bytes);
          rest \<leftarrow> relocate 0 1 (sf_offset f) next fs;
          finish_split (StructType (st_repr orig) size (pad_front needed done))
            (StructType repr rsize
              (StructField 0 (sf_align f) align_offset (sf_ty f) # rest)) }"

text \<open>The branch that cuts behind a field.\<close>

definition cut_behind :: "struct_type \<Rightarrow> nat \<Rightarrow> nat \<Rightarrow> nat \<Rightarrow> struct_field list \<Rightarrow> struct_field \<Rightarrow>
    struct_field list \<Rightarrow> (hir_type \<times> hir_type option) option" where
  "cut_behind orig offset field_size split_size done f fs =
     do { size \<leftarrow> u32_add split_size field_size;
          assert_that (fs \<noteq> []);
          rsize \<leftarrow> u32_sub (st_size orig) size;
          prev \<leftarrow> u32_add offset field_size;
          rest \<leftarrow> relocate 0 0 prev 0 fs;
          finish_split
            (StructType (st_repr orig) size
              (done @ [StructField (sf_index f) (sf_align f) offset (sf_ty f)]))
            (StructType (st_repr orig) rsize rest) }"

text \<open>The branch that cuts a field in two.\<close>

definition cut_inside :: "struct_type \<Rightarrow> nat \<Rightarrow> nat \<Rightarrow> nat \<Rightarrow> struct_field list \<Rightarrow> struct_field \<Rightarrow>
    hir_type \<Rightarrow> hir_type \<Rightarrow> struct_field list \<Rightarrow> (hir_type \<times> hir_type option) option" where
  "cut_inside orig offset needed split_size done f partial1 partial2 fs =
     do { size \<leftarrow> u32_add split_size needed;
          prev \<leftarrow> u32_add offset needed;
          psize \<leftarrow> size_in_bytes partial2;
          next \<leftarrow> u32_add needed (as_u32 psize);
          rsize \<leftarrow> u32_sub (st_size orig) size;
          rest \<leftarrow> relocate needed 1 prev next fs;
          finish_split
            (StructType (st_repr orig) size
              (done @ [StructField (sf_index f) (sf_align f) offset partial1]))
            (StructType (ReprPacked 1) rsize (StructField 0 1 1 partial2 # rest)) }"

fun split_weight :: "hir_type \<Rightarrow> nat" and fields_weight :: "struct_field list \<Rightarrow> nat" where
  "split_weight (TyNativePtr _ _) = 10"
| "split_weight (TyArray t _) = 1 + split_weight t"
| "split_weight (TyStruct (StructType _ _ fs)) = 1 + fields_weight fs"
| "split_weight _ = 1"
| "fields_weight [] = 0"
| "fields_weight (StructField _ _ _ t # fs) = 1 + split_weight t + fields_weight fs"

lemma fields_weight_Cons:
  "fields_weight (f # fs) = 1 + split_weight (sf_ty f) + fields_weight fs"
  by (cases f) simp

lemma fields_weight_less:
  "f \<in> set fs \<Longrightarrow> split_weight (sf_ty f) < fields_weight fs"
  by (induction fs) (auto simp: fields_weight_Cons)

lemma find_in_set: "List.find P xs = Some x \<Longrightarrow> x \<in> set xs"
  by (auto simp: find_Some_iff)

definition native_ptr_struct :: "hir_type \<Rightarrow> struct_type" where
  "native_ptr_struct t = StructType ReprDefault 12
     [StructField 0 4 0 (TyPtr t), StructField 1 4 4 TyU8, StructField 2 4 8 TyU8]"

definition is_byte_split :: "hir_type \<Rightarrow> bool" where
  "is_byte_split t = (case t of TyPtr _ \<Rightarrow> True
     | _ \<Rightarrow> t \<in> {TyU256, TyI128, TyU128, TyI64, TyU64, TyF64, TyFelt, TyI32, TyU32, TyI16, TyU16})"

definition byte_split :: "nat \<Rightarrow> nat \<Rightarrow> (hir_type \<times> hir_type option) option" where
  "byte_split n len =
     (let remaining = len - n in
      if n = 0 \<or> remaining = 0 then None
      else Some ((if n = 1 then TyU8 else TyArray TyU8 n),
        Some (if remaining = 1 then TyU8 else TyArray TyU8 remaining)))"

text \<open>
  \<open>split\<close> itself; \<open>split_fields\<close> is the \<open>while let\<close> loop over the fields of a struct, with the
  fields taken so far, the bytes still needed and the running offset as its arguments.
\<close>

function (sequential) split :: "hir_type \<Rightarrow> nat \<Rightarrow> (hir_type \<times> hir_type option) option"
  and split_fields :: "struct_type \<Rightarrow> nat \<Rightarrow> nat \<Rightarrow> nat \<Rightarrow> struct_field list \<Rightarrow> struct_field list \<Rightarrow>
    (hir_type \<times> hir_type option) option" where
  "split ty n =
     (if n = 0 then Some (ty, None)
      else do {
        size \<leftarrow> size_in_bytes ty;
        if n \<ge> size then Some (ty, None)
        else if is_byte_split ty then byte_split n size
        else case ty of
          TyNativePtr t _ \<Rightarrow> split (TyStruct (native_ptr_struct t)) n
        | TyArray t len \<Rightarrow>
            if len = 1 then split t n
            else do {
              elem_size \<leftarrow> size_in_bytes t;
              if n \<ge> elem_size then do {
                assert_that (elem_size \<noteq> 0);
                let take = n div elem_size;
                let extra = n mod elem_size;
                if extra = 0 then do {
                  let first = (if take = 1 then t else TyArray t take);
                  assert_that (take < len);
                  let rest = (if len - take = 1 then t else TyArray t (len - take));
                  Some (first, Some rest) }
                else do {
                  (partial1, partial2) \<leftarrow> split t (elem_size - extra);
                  assert_that (take < len);
                  st \<leftarrow> new_with_repr (ReprPacked 1) [TyArray t take, partial1];
                  if len - take = 1 then Some (TyStruct st, partial2)
                  else do {
                    p2 \<leftarrow> partial2;
                    rest \<leftarrow> new_with_repr (ReprPacked 1) [p2, TyArray t (len - take)];
                    Some (TyStruct st, Some (TyStruct rest)) } } }
              else do {
                (partial1, partial2) \<leftarrow> split t n;
                assert_that (1 < len);
                let remaining_input = (if len - 1 = 1 then t else TyArray t (len - 1 - 1));
                p2 \<leftarrow> partial2;
                rest \<leftarrow> new_with_repr (ReprPacked 1) [p2, remaining_input];
                Some (partial1, Some (TyStruct rest)) } }
        | TyStruct (StructType r sz fs) \<Rightarrow>
            if r = ReprTransparent then
              (case List.find (\<lambda>f. \<not> is_zst (sf_ty f)) fs of
                 None \<Rightarrow> None
               | Some f \<Rightarrow> split (sf_ty f) n)
            else do {
              needed \<leftarrow> to_u32 n;
              split_fields (StructType r sz fs) needed 0 0 [] fs }
        | _ \<Rightarrow> None })"
| "split_fields orig needed current_offset split_size done [] =
     finish_split (StructType (st_repr orig) split_size done) (StructType (ReprPacked 1) 0 [])"
| "split_fields orig needed current_offset split_size done (f # fs) =
     do { padding \<leftarrow> u32_sub (sf_offset f) current_offset;
          if padding = needed then cut_at_padding orig needed split_size done f fs
          else if padding > needed then cut_in_padding orig padding needed split_size done f fs
          else do {
            split_size \<leftarrow> u32_add split_size padding;
            let needed = needed - padding;
            offset \<leftarrow> u32_add current_offset padding;
            bytes \<leftarrow> size_in_bytes (sf_ty f);
            let field_size = as_u32 bytes;
            if field_size = needed then cut_behind orig offset field_size split_size done f fs
            else if field_size > needed then do {
              (partial1, partial2) \<leftarrow> split (sf_ty f) needed;
              p2 \<leftarrow> partial2;
              cut_inside orig offset needed split_size done f partial1 p2 fs }
            else do {
              next \<leftarrow> u32_add offset field_size;
              size \<leftarrow> u32_add split_size field_size;
              split_fields orig (needed - field_size) next size
                (done @ [StructField (sf_index f) (sf_align f) offset (sf_ty f)]) fs } } }"
  by pat_completeness auto
termination
  by (relation "measure (\<lambda>x. case x of Inl (t, n) \<Rightarrow> split_weight t
    | Inr (orig, needed, off, sz, done, fs) \<Rightarrow> fields_weight fs)")
    (auto simp: native_ptr_struct_def fields_weight_Cons
      dest!: find_in_set fields_weight_less intro: less_SucI)

declare split.simps [simp del]
declare split_fields.simps [simp del]

section \<open>The stack elements of a value\<close>

text \<open>
  The loop of \<open>to_raw_parts\<close> splits off four bytes at a time until nothing remains.  It is a
  partial function: \<open>None\<close> is a panic or a loop that does not end, so a statement that it
  returns \<open>Some\<close> rules out both.
\<close>

partial_function (option) raw_parts_from :: "hir_type option \<Rightarrow> hir_type list \<Rightarrow> hir_type list option" where
  "raw_parts_from rest parts =
     (case rest of
        None \<Rightarrow> Some parts
      | Some ty \<Rightarrow> Option.bind (split ty 4) (\<lambda>r. raw_parts_from (snd r) (parts @ [fst r])))"

definition to_raw_parts :: "hir_type \<Rightarrow> hir_type list option option" where
  "to_raw_parts ty =
     (if ty = TyUnknown then Some None
      else map_option Some (raw_parts_from (Some ty) []))"

section \<open>Evaluation\<close>

lemmas layout_eval =
  to_raw_parts_def raw_parts_from.simps split.simps split_fields.simps
  size_in_bytes_def Let_def is_byte_split_def byte_split_def align_up_def next_multiple_of_def
  bind_assert_that usize_MAX_def u32_MAX_def native_ptr_struct_def u32_sub_def u32_add_def
  cut_behind_def cut_inside_def finish_split_def cut_at_padding_def cut_in_padding_def
  to_u32_def to_u16_def to_u8_def as_u32_def pad_front_def new_with_repr_def struct_align_def
  field_align_def align_offset_def is_power_of_two.simps max_or_1_def struct_min_alignment_def
  repr_min_alignment_def prev_power_of_two_u16_def next_power_of_two_u16_def

section \<open>Byte arrays\<close>

lemma size_byte_array:
  assumes "8 * n \<le> usize_MAX"
  shows "size_in_bytes (TyArray TyU8 n) = Some n"
proof -
  have "align_up usize_MAX 8 8 = Some 8"
    by (simp add: layout_eval)
  moreover have "8 + 8 * (n - 1) = 8 * n" if "n \<noteq> 0"
    using that by (cases n) auto
  ultimately show ?thesis
    using assms by (auto simp: size_in_bytes_def bind_assert_that Let_def)
qed

lemma size_byte_array_D:
  assumes "size_in_bytes (TyArray TyU8 n) = Some k"
  shows "k = n" "8 * n \<le> usize_MAX"
proof -
  have "align_up usize_MAX 8 8 = Some 8"
    by (simp add: layout_eval)
  moreover have "8 + 8 * (n - 1) = 8 * n" if "n \<noteq> 0"
    using that by (cases n) auto
  ultimately show "k = n" "8 * n \<le> usize_MAX"
    using assms
    by (auto simp: size_in_bytes_def bind_assert_that Let_def usize_MAX_def split: if_splits)
qed

definition byte_run :: "nat \<Rightarrow> hir_type" where
  "byte_run n = (if n = 1 then TyU8 else TyArray TyU8 n)"

lemma size_U8 [simp]: "size_in_bytes TyU8 = Some 1"
  by (simp add: size_in_bytes_def)

lemma size_byte_run: "8 * n \<le> usize_MAX \<Longrightarrow> size_in_bytes (byte_run n) = Some n"
  by (simp add: byte_run_def size_byte_array)

lemma split_small: "size_in_bytes ty = Some k \<Longrightarrow> k \<le> n \<Longrightarrow> split ty n = Some (ty, None)"
  by (simp add: split.simps)

lemma split_byte_run:
  assumes "8 * n \<le> usize_MAX" "4 < n"
  shows "split (byte_run n) 4 = Some (TyArray TyU8 4, Some (byte_run (n - 4)))"
  using assms size_byte_array [OF assms(1)]
  by (simp add: split.simps [of "TyArray TyU8 n"] byte_run_def is_byte_split_def bind_assert_that
      Let_def cong: bind_weak_cong)

fun byte_runs :: "nat \<Rightarrow> nat list" where
  "byte_runs n = (if n \<le> 4 then [n] else 4 # byte_runs (n - 4))"

declare byte_runs.simps [simp del]

lemma raw_parts_byte_run:
  "8 * n \<le> usize_MAX \<Longrightarrow>
    raw_parts_from (Some (byte_run n)) parts = Some (parts @ map byte_run (byte_runs n))"
proof (induction n arbitrary: parts rule: byte_runs.induct)
  case (1 n)
  show ?case
  proof (cases "n \<le> 4")
    case True
    with 1(2) show ?thesis
      by (simp add: raw_parts_from.simps byte_runs.simps split_small [OF size_byte_run])
  next
    case False
    with 1 show ?thesis
      by (simp add: raw_parts_from.simps [of "Some (byte_run n)"] byte_runs.simps [of n]
          split_byte_run) (simp add: byte_run_def)
  qed
qed

lemma byte_runs_bounds: "k \<in> set (byte_runs n) \<Longrightarrow> k \<le> 4"
  by (induction n rule: byte_runs.induct) (subst (asm) (2) byte_runs.simps, auto split: if_splits)

lemma byte_runs_sum: "sum_list (byte_runs n) = n"
  by (induction n rule: byte_runs.induct) (subst byte_runs.simps, auto)


lemma split_scalar:
  assumes "is_byte_split ty" "size_in_bytes ty = Some k" "4 < k"
  shows "split ty 4 = Some (TyArray TyU8 4, Some (byte_run (k - 4)))"
  using assms by (simp add: split.simps [of ty] byte_split_def byte_run_def Let_def)

lemma size_scalar: "is_byte_split ty \<Longrightarrow> \<exists>k. size_in_bytes ty = Some k \<and> k \<le> 32"
  by (auto simp: is_byte_split_def size_in_bytes_def split: hir_type.splits)

lemma to_raw_parts_scalar:
  assumes "is_byte_split ty" "size_in_bytes ty = Some k"
  shows "to_raw_parts ty = Some (Some (if k \<le> 4 then [ty] else map byte_run (byte_runs k)))"
proof -
  have ty: "ty \<noteq> TyUnknown"
    using assms(1) by (auto simp: is_byte_split_def)
  have k: "8 * (k - 4) \<le> usize_MAX"
    using size_scalar [OF assms(1)] assms(2) by (simp add: usize_MAX_def)
  show ?thesis
  proof (cases "k \<le> 4")
    case True
    with ty assms show ?thesis
      by (simp add: to_raw_parts_def raw_parts_from.simps split_small)
  next
    case False
    with ty k show ?thesis
      by (simp add: to_raw_parts_def raw_parts_from.simps [of "Some ty"]
          split_scalar [OF assms] raw_parts_byte_run byte_runs.simps [of k])
        (simp add: byte_run_def)
  qed
qed

section \<open>Properties\<close>

lemma new_with_repr_cases:
  assumes "new_with_repr repr tys = Some st" "repr \<noteq> ReprTransparent"
  obtains fs "end" size align where "struct_align repr tys = Some align"
    "layout_fields repr 0 0 tys = Some (fs, end)" "align_up u32_MAX end align = Some size"
    "st = StructType repr size fs"
  using assms by (auto simp: new_with_repr_def)

text \<open>
  C7. \<open>StructType::new_with_repr\<close> produces a layout: the fields keep their types and order
  and are numbered from 0; each lies at a multiple of its alignment, with less padding before
  it than that alignment; no two of them overlap; all of them lie inside the struct, whose
  size is the end of the last field rounded up to the alignment of the struct.
\<close>

theorem new_with_repr_layout:
  assumes "new_with_repr repr tys = Some st" "repr \<noteq> ReprTransparent"
  shows "map sf_ty (st_fields st) = tys \<and> map sf_index (st_fields st) = [0..<length tys] \<and>
    (\<forall>f \<in> set (st_fields st). sf_align f dvd sf_offset f \<and>
       (\<exists>n. size_in_bytes (sf_ty f) = Some n \<and> sf_offset f + n \<le> st_size st)) \<and>
    (\<forall>i j n. i < j \<and> j < length tys \<and> size_in_bytes (tys ! i) = Some n \<longrightarrow>
       sf_offset (st_fields st ! i) + n \<le> sf_offset (st_fields st ! j)) \<and>
    (\<exists>end align. placed 0 (st_fields st) end \<and> struct_align repr tys = Some align \<and>
       align dvd st_size st \<and> end \<le> st_size st \<and> st_size st < end + align)"
proof -
  from assms obtain fs "end" size align where al: "struct_align repr tys = Some align"
    and fs: "layout_fields repr 0 0 tys = Some (fs, end)"
    and up: "align_up u32_MAX end align = Some size" and st: "st = StructType repr size fs"
    by (rule new_with_repr_cases)
  note pl = layout_fields_placed [OF fs] and ty = layout_fields_types [OF fs]
  note size = align_up_Some [OF up]
  have len: "length fs = length tys"
    using ty by (metis length_map)
  have inside: "\<exists>n. size_in_bytes (sf_ty f) = Some n \<and> sf_offset f + n \<le> size"
    if "f \<in> set fs" for f
    using placed_sized [OF pl that] placed_bounds [OF pl that] size(2) le_trans by fastforce
  have disjoint: "sf_offset (fs ! i) + n \<le> sf_offset (fs ! j)"
    if "i < j" "j < length tys" "size_in_bytes (tys ! i) = Some n" for i j n
    using placed_disjoint [OF pl that(1)] that len ty by (metis less_trans nth_map)
  show ?thesis
    using layout_fields_index [OF fs] ty pl al size placed_aligned [OF pl] inside disjoint
    by (auto simp: st)
qed

theorem new_with_repr_layout_witness:
  "\<exists>st. new_with_repr ReprDefault [TyU8, TyU32, TyU16] = Some st \<and>
    map sf_ty (st_fields st) = [TyU8, TyU32, TyU16]"
proof -
  have "\<exists>st. new_with_repr ReprDefault [TyU8, TyU32, TyU16] = Some st"
    by (simp add: layout_eval cong: bind_weak_cong)
  then obtain st where st: "new_with_repr ReprDefault [TyU8, TyU32, TyU16] = Some st" ..
  with new_with_repr_layout [OF this] show ?thesis by simp
qed

text \<open>
  C8. \<open>Type::to_raw_parts\<close> on integers, floats and pointers: the loop ends, a type of at most
  four bytes is its own part, and a larger one becomes arrays of four bytes that add up to its
  size.
\<close>

theorem to_raw_parts_of_scalar:
  assumes "is_byte_split ty" "size_in_bytes ty = Some k"
  shows "to_raw_parts ty = Some (Some (if k \<le> 4 then [ty] else map byte_run (byte_runs k))) \<and>
    map size_in_bytes (map byte_run (byte_runs k)) = map Some (byte_runs k) \<and>
    sum_list (byte_runs k) = k \<and> (\<forall>n \<in> set (byte_runs k). n \<le> 4)"
proof -
  have "8 * n \<le> usize_MAX" if "n \<in> set (byte_runs k)" for n
    using byte_runs_bounds [OF that] by (simp add: usize_MAX_def)
  then show ?thesis
    using to_raw_parts_scalar [OF assms] byte_runs_sum byte_runs_bounds
    by (auto simp: size_byte_run)
qed

theorem to_raw_parts_of_scalar_witness:
  "to_raw_parts TyU64 = Some (Some [TyArray TyU8 4, TyArray TyU8 4])"
  using to_raw_parts_of_scalar [of TyU64 8]
  by (simp add: is_byte_split_def size_in_bytes_def byte_runs.simps byte_run_def)

text \<open>
  \<open>Type::to_raw_parts\<close> on an array of bytes: parts of four bytes and a remainder, which
  together have the length of the array.
\<close>

theorem to_raw_parts_of_bytes:
  assumes "8 * n \<le> usize_MAX" "n \<noteq> 1"
  shows "to_raw_parts (TyArray TyU8 n) = Some (Some (map byte_run (byte_runs n))) \<and>
    sum_list (byte_runs n) = n"
  using raw_parts_byte_run [OF assms(1), of "[]"] assms(2) byte_runs_sum
  by (simp add: to_raw_parts_def) (simp add: byte_run_def)

theorem to_raw_parts_of_bytes_witness:
  "to_raw_parts (TyArray TyU8 5) = Some (Some [TyArray TyU8 4, TyU8])"
  using to_raw_parts_of_bytes [of 5]
  by (simp add: usize_MAX_def byte_runs.simps byte_run_def)

text \<open>
  The split of other arrays is not faithful to its contract.  An array of three
  \<open>u64\<close> is 24 bytes long, but its raw parts are 16 bytes: \<open>Type::split\<close> takes one element
  off the length twice.  And the first part of a split may be larger than was asked for: three
  arrays of three bytes, split at four, give a first part of five bytes.
\<close>

theorem split_array_defects:
  "size_in_bytes (TyArray TyU64 3) = Some 24 \<and>
   to_raw_parts (TyArray TyU64 3) = Some (Some [byte_run 4, byte_run 4, byte_run 4, byte_run 4]) \<and>
   (\<exists>first rest. split (TyArray (TyArray TyU8 3) 3) 4 = Some (first, Some rest) \<and>
      size_in_bytes first = Some 5)"
proof (intro conjI)
  show "size_in_bytes (TyArray TyU64 3) = Some 24"
    by (simp add: layout_eval)
  show "to_raw_parts (TyArray TyU64 3) = Some (Some [byte_run 4, byte_run 4, byte_run 4, byte_run 4])"
    by (simp add: layout_eval byte_run_def cong: bind_weak_cong)
  show "\<exists>first rest. split (TyArray (TyArray TyU8 3) 3) 4 = Some (first, Some rest) \<and>
      size_in_bytes first = Some 5"
    by (simp add: layout_eval cong: bind_weak_cong)
qed

end
