(* ===== verification/Masm.thy ===== *)
theory Masm
  imports HirType
begin

text \<open>
  The MASM representation that the code generator produces and the emulator runs: the
  instruction set of hir/src/asm/isa.rs, functions (codegen/masm/src/masm/function.rs) with
  their blocks and locals, modules, and native pointers (codegen/masm/src/masm/mod.rs).

  \<open>MasmOp\<close> has 158 constructors.  They are grouped here, in the order of the source, into one
  datatype per family, and \<open>masm_op\<close> is the sum of the families; a constructor keeps its
  name, with the prefix \<open>Op\<close> where it would clash with a name of HOL.  Field elements have
  the type \<open>'f\<close> (see Felt); block and local identifiers and \<open>u8\<close> operands are \<open>nat\<close>.
\<close>

section \<open>Identifiers\<close>

type_synonym ident = string

text \<open>Source spans take no part in the equality of identifiers and are left out.\<close>

datatype function_ident = FunctionIdent (fi_module: ident) (fi_function: ident)

type_synonym block_id = nat
type_synonym local_id = nat

section \<open>Instructions\<close>

text \<open>Stack manipulation and assertions.\<close>

datatype (plugins only: size) 'f stack_op =
    Padw | Push 'f | Push2 'f 'f | Pushw "'f word4" | PushU8 u8 | PushU16 u16 | PushU32 u32
  | Drop | Dropw | Dup nat | Dupw nat | Swap nat | Swapw nat
  | Movup nat | Movupw nat | Movdn nat | Movdnw nat
  | Cswap | Cswapw | Cdrop | Cdropw
  | Assert | Assertz | AssertEq | AssertEqw

text \<open>Memory.\<close>

datatype (plugins only: size) mem_op =
    LocAddr local_id | MemLoad | MemLoadImm u32 | MemLoadOffset | MemLoadOffsetImm u32 nat
  | MemLoadw | MemLoadwImm u32
  | MemStore | MemStoreImm u32 | MemStoreOffset | MemStoreOffsetImm u32 nat
  | MemStorew | MemStorewImm u32

text \<open>Field arithmetic.\<close>

datatype (plugins only: size) 'f felt_op =
    Add | AddImm 'f | Sub | SubImm 'f | Mul | MulImm 'f | Div | DivImm 'f
  | Neg | Inv | Incr | Pow2 | Exp | ExpImm nat

text \<open>Boolean operations and comparisons of field elements.\<close>

datatype (plugins only: size) 'f cmp_op =
    OpNot | OpAnd | AndImm bool | OpOr | OrImm bool | OpXor | XorImm bool
  | Eq | EqImm 'f | Neq | NeqImm 'f | Gt | GtImm 'f | Gte | GteImm 'f
  | Lt | LtImm 'f | Lte | LteImm 'f | IsOdd | Eqw

text \<open>32-bit tests, casts, addition, subtraction and multiplication.\<close>

datatype (plugins only: size) arith_op =
    U32Test | U32Testw | U32Assert | U32Assert2 | U32Assertw | U32Cast | U32Split
  | U32CheckedAdd | U32CheckedAddImm u32 | U32OverflowingAdd | U32OverflowingAddImm u32
  | U32WrappingAdd | U32WrappingAddImm u32 | U32OverflowingAdd3 | U32WrappingAdd3
  | U32CheckedSub | U32CheckedSubImm u32 | U32OverflowingSub | U32OverflowingSubImm u32
  | U32WrappingSub | U32WrappingSubImm u32
  | U32CheckedMul | U32CheckedMulImm u32 | U32OverflowingMul | U32OverflowingMulImm u32
  | U32WrappingMul | U32WrappingMulImm u32 | U32OverflowingMadd | U32WrappingMadd

text \<open>32-bit division, bitwise operations, shifts and rotations.\<close>

datatype (plugins only: size) bit_op =
    U32CheckedDiv | U32CheckedDivImm u32 | U32UncheckedDiv | U32UncheckedDivImm u32
  | U32CheckedMod | U32CheckedModImm u32 | U32UncheckedMod | U32UncheckedModImm u32
  | U32CheckedDivMod | U32CheckedDivModImm u32 | U32UncheckedDivMod | U32UncheckedDivModImm u32
  | U32And | U32Or | U32Xor | U32Not
  | U32CheckedShl | U32CheckedShlImm u32 | U32UncheckedShl | U32UncheckedShlImm u32
  | U32CheckedShr | U32CheckedShrImm u32 | U32UncheckedShr | U32UncheckedShrImm u32
  | U32CheckedRotl | U32CheckedRotlImm u32 | U32UncheckedRotl | U32UncheckedRotlImm u32
  | U32CheckedRotr | U32CheckedRotrImm u32 | U32UncheckedRotr | U32UncheckedRotrImm u32

text \<open>Population count, 32-bit comparisons, minimum and maximum.\<close>

datatype (plugins only: size) rel_op =
    U32CheckedPopcnt | U32UncheckedPopcnt
  | U32Eq | U32EqImm u32 | U32Neq | U32NeqImm u32
  | U32CheckedLt | U32UncheckedLt | U32CheckedLte | U32UncheckedLte
  | U32CheckedGt | U32UncheckedGt | U32CheckedGte | U32UncheckedGte
  | U32CheckedMin | U32UncheckedMin | U32CheckedMax | U32UncheckedMax

datatype (plugins only: size) 'f masm_op =
    Stk "'f stack_op" | Mem mem_op
  | OpIf block_id block_id | OpWhile block_id | OpRepeat nat block_id
  | OpExec function_ident | OpSyscall function_ident
  | Fld "'f felt_op" | Cmp "'f cmp_op" | OpClk
  | Arith arith_op | Bit bit_op | Rel rel_op

section \<open>Functions and modules\<close>

datatype call_conv = CcFast | CcSystemV | CcKernel
datatype argument_purpose = ApDefault | ApStructReturn
datatype argument_extension = AeNone | AeZext | AeSext
datatype linkage = LkInternal | LkOdr | LkExternal

record abi_param =
  ap_ty :: hir_type
  ap_purpose :: argument_purpose
  ap_extension :: argument_extension

record signature =
  sig_params :: "abi_param list"
  sig_results :: "abi_param list"
  sig_cc :: call_conv
  sig_linkage :: linkage

definition sig_arity :: "signature \<Rightarrow> nat" where
  "sig_arity s = length (sig_params s)"

definition signature_results :: "signature \<Rightarrow> abi_param list" where
  "signature_results s =
     (case sig_results s of
        [p] \<Rightarrow> if ap_ty p = TyUnit \<or> ap_ty p = TyNever then [] else [p]
      | ps \<Rightarrow> ps)"

text \<open>The external function that a call refers to (\<open>ExternalFunction\<close> of hir/src/function.rs).\<close>

record external_function =
  ef_id :: function_ident
  ef_signature :: signature

text \<open>\<open>Overflow\<close> of hir/src/instruction.rs.\<close>

datatype overflow = Unchecked | Checked | Wrapping | Overflowing

record masm_local =
  loc_id :: local_id
  loc_ty :: hir_type

text \<open>
  A function: \<open>fn_blocks\<close> is the map from block identifiers, which are allocated from 0 on, to
  the instructions of the block.
\<close>

record 'f masm_function =
  fn_name :: function_ident
  fn_signature :: signature
  fn_body :: block_id
  fn_blocks :: "'f masm_op list list"
  fn_locals :: "masm_local list"
  fn_next_local_id :: nat

definition new_function :: "function_ident \<Rightarrow> signature \<Rightarrow> 'f masm_function" where
  "new_function name sig =
     \<lparr>fn_name = name, fn_signature = sig, fn_body = 0, fn_blocks = [[]], fn_locals = [],
      fn_next_local_id = 0\<rparr>"

definition fn_arity :: "'f masm_function \<Rightarrow> nat" where
  "fn_arity f = sig_arity (fn_signature f)"

definition fn_num_results :: "'f masm_function \<Rightarrow> nat" where
  "fn_num_results f = length (sig_results (fn_signature f))"

definition alloc_local :: "hir_type \<Rightarrow> 'f masm_function \<Rightarrow> (local_id \<times> 'f masm_function) option" where
  "alloc_local ty f =
     do { num_words \<leftarrow> size_in_words ty;
          let next_id = fn_next_local_id f;
          assert_that (next_id + num_words < 255);
          Some (next_id, f\<lparr>fn_next_local_id := next_id + num_words,
            fn_locals := fn_locals f @ [\<lparr>loc_id = next_id, loc_ty = ty\<rparr>]\<rparr>) }"

definition fn_local :: "'f masm_function \<Rightarrow> local_id \<Rightarrow> masm_local option" where
  "fn_local f lid = List.find (\<lambda>l. loc_id l = lid) (fn_locals f)"

definition create_block :: "'f masm_function \<Rightarrow> block_id \<times> 'f masm_function" where
  "create_block f = (length (fn_blocks f), f\<lparr>fn_blocks := fn_blocks f @ [[]]\<rparr>)"

definition fn_block :: "'f masm_function \<Rightarrow> block_id \<Rightarrow> 'f masm_op list option" where
  "fn_block f b = do { assert_that (b < length (fn_blocks f)); Some (fn_blocks f ! b) }"

text \<open>Appending to a block (\<open>MasmBlock\<close> of hir/src/asm/isa.rs).\<close>

definition block_push :: "'f masm_op \<Rightarrow> 'f masm_op list \<Rightarrow> 'f masm_op list" where
  "block_push op ops = ops @ [op]"

definition block_push_n :: "nat \<Rightarrow> 'f masm_op \<Rightarrow> 'f masm_op list \<Rightarrow> 'f masm_op list" where
  "block_push_n n op ops = fold (\<lambda>_ ops. block_push op ops) [0..<n] ops"

definition block_push_repeat :: "'f masm_op list \<Rightarrow> nat \<Rightarrow> 'f masm_op list \<Rightarrow> 'f masm_op list" where
  "block_push_repeat new n ops = fold (\<lambda>_ ops. ops @ new) [0..<n] ops"

definition block_push_template :: "nat \<Rightarrow> (nat \<Rightarrow> 'f masm_op list) \<Rightarrow> 'f masm_op list \<Rightarrow> 'f masm_op list" where
  "block_push_template n template ops = fold (\<lambda>i ops. ops @ template i) [0..<n] ops"

record 'f masm_module =
  mod_name :: ident
  mod_imports :: "(ident \<times> ident) list"
  mod_functions :: "'f masm_function list"

section \<open>Native pointers\<close>

record native_ptr =
  np_waddr :: nat
  np_index :: nat
  np_offset :: nat
  np_addrspace :: address_space

definition np_from_ptr :: "nat \<Rightarrow> native_ptr" where
  "np_from_ptr addr =
     (let woffset = addr mod 16 in
      \<lparr>np_waddr = addr div 16, np_index = as_u8 (woffset div 4), np_offset = as_u8 (woffset mod 4),
       np_addrspace = AsUnknown\<rparr>)"

definition np_as_ptr :: "native_ptr \<Rightarrow> nat option" where
  "np_as_ptr p =
     (let a = np_waddr p * 16 in let b = a + np_index p * 4 in let c = b + np_offset p in
      if a \<le> u32_MAX \<and> b \<le> u32_MAX \<and> c \<le> u32_MAX then Some c else None)"

definition np_is_word_aligned :: "native_ptr \<Rightarrow> bool" where
  "np_is_word_aligned p = (np_index p = 0 \<and> np_offset p = 0)"

definition np_is_element_aligned :: "native_ptr \<Rightarrow> bool" where
  "np_is_element_aligned p = (np_offset p = 0)"

definition np_is_unaligned :: "native_ptr \<Rightarrow> bool" where
  "np_is_unaligned p = (np_offset p > 0)"

section \<open>Lemmas\<close>

lemma block_push_n_eq: "block_push_n n op ops = ops @ replicate n op"
  by (induction n) (simp_all add: block_push_n_def block_push_def replicate_append_same)

lemma block_push_repeat_eq: "block_push_repeat new n ops = ops @ concat (replicate n new)"
  by (induction n)
    (simp_all add: block_push_repeat_def flip: replicate_append_same)

lemma block_push_template_eq:
  "block_push_template n t ops = ops @ concat (map t [0..<n])"
  by (induction n) (simp_all add: block_push_template_def)

lemma np_from_ptr_fields:
  "np_waddr (np_from_ptr addr) = addr div 16"
  "np_index (np_from_ptr addr) = addr mod 16 div 4"
  "np_offset (np_from_ptr addr) = addr mod 4"
proof -
  have "addr mod 16 < 256"
    by (rule less_trans [OF mod_less_divisor]) simp_all
  then have index: "addr mod 16 div 4 mod 256 = addr mod 16 div 4"
    by (rule mod_less [OF le_less_trans [OF div_le_dividend]])
  have "addr mod 4 < 256"
    by (rule less_trans [OF mod_less_divisor]) simp_all
  then have offset: "addr mod 16 mod 4 mod 256 = addr mod 4"
    by (simp add: mod_mod_cancel)
  show "np_waddr (np_from_ptr addr) = addr div 16"
    "np_index (np_from_ptr addr) = addr mod 16 div 4" "np_offset (np_from_ptr addr) = addr mod 4"
    by (simp_all only: np_from_ptr_def as_u8_def Let_def native_ptr.select_convs index offset)
qed

lemma ptr_parts: "(addr :: nat) div 16 * 16 + addr mod 16 div 4 * 4 + addr mod 4 = addr"
proof -
  have "addr mod 16 div 4 * 4 + addr mod 16 mod 4 = addr mod 16"
    by (rule div_mult_mod_eq)
  moreover have "addr mod 16 mod 4 = addr mod 4"
    by (rule mod_mod_cancel) simp
  ultimately show ?thesis
    using div_mult_mod_eq [of addr 16] by linarith
qed

lemma np_as_ptr_from_ptr: "addr \<le> u32_MAX \<Longrightarrow> np_as_ptr (np_from_ptr addr) = Some addr"
  using ptr_parts [of addr] by (simp add: np_as_ptr_def np_from_ptr_fields Let_def)

lemma np_from_ptr_aligned:
  "np_is_word_aligned (np_from_ptr addr) \<longleftrightarrow> 16 dvd addr"
  "np_is_element_aligned (np_from_ptr addr) \<longleftrightarrow> 4 dvd addr"
proof -
  have a: "16 dvd addr" if "addr mod 16 div 4 = 0" "addr mod 4 = 0"
    using ptr_parts [of addr] that by (metis add.right_neutral dvd_triv_right mult_zero_left)
  have b: "addr mod 16 div 4 = 0 \<and> addr mod 4 = 0" if "16 dvd addr"
    using that dvd_trans [of 4 16 addr] by (simp add: dvd_eq_mod_eq_0)
  show "np_is_word_aligned (np_from_ptr addr) \<longleftrightarrow> 16 dvd addr"
    unfolding np_is_word_aligned_def np_from_ptr_fields
    by (rule iffI, erule conjE, rule a, assumption+, rule b)
  show "np_is_element_aligned (np_from_ptr addr) \<longleftrightarrow> 4 dvd addr"
    by (simp add: np_is_element_aligned_def np_from_ptr_fields dvd_eq_mod_eq_0)
qed

text \<open>Locals are allocated one behind the other.\<close>

definition locals_wf :: "'f masm_function \<Rightarrow> bool" where
  "locals_wf f = (fn_next_local_id f < 255 \<and>
     (\<forall>i j n. i < j \<and> j < length (fn_locals f) \<and> size_in_words (loc_ty (fn_locals f ! i)) = Some n
        \<longrightarrow> loc_id (fn_locals f ! i) + n \<le> loc_id (fn_locals f ! j)) \<and>
     (\<forall>l \<in> set (fn_locals f). \<exists>n. size_in_words (loc_ty l) = Some n \<and>
        loc_id l + n \<le> fn_next_local_id f))"

lemma alloc_local_wf:
  assumes "locals_wf f" "alloc_local ty f = Some (lid, g)"
  shows "locals_wf g" "lid = fn_next_local_id f"
proof -
  from assms(2) obtain n where n: "size_in_words ty = Some n"
    and lid: "lid = fn_next_local_id f" and lim: "fn_next_local_id f + n < 255"
    and g: "g = f\<lparr>fn_next_local_id := fn_next_local_id f + n,
      fn_locals := fn_locals f @ [\<lparr>loc_id = fn_next_local_id f, loc_ty = ty\<rparr>]\<rparr>"
    by (auto simp: alloc_local_def Let_def bind_assert_that split: if_splits)
  have "loc_id (fn_locals g ! i) + m \<le> loc_id (fn_locals g ! j)"
    if "i < j" "j < length (fn_locals g)" "size_in_words (loc_ty (fn_locals g ! i)) = Some m"
    for i j m
  proof (cases "j < length (fn_locals f)")
    case True
    with that assms(1) show ?thesis by (auto simp: g locals_wf_def nth_append)
  next
    case False
    with that have j: "j = length (fn_locals f)" by (simp add: g)
    with that have "fn_locals f ! i \<in> set (fn_locals f)" by simp
    with assms(1) obtain k where "size_in_words (loc_ty (fn_locals f ! i)) = Some k"
      "loc_id (fn_locals f ! i) + k \<le> fn_next_local_id f"
      unfolding locals_wf_def by blast
    with that j show ?thesis by (simp add: g nth_append)
  qed
  moreover have "\<exists>m. size_in_words (loc_ty l) = Some m \<and> loc_id l + m \<le> fn_next_local_id g"
    if "l \<in> set (fn_locals g)" for l
  proof (cases "l \<in> set (fn_locals f)")
    case True
    with assms(1) obtain k where "size_in_words (loc_ty l) = Some k"
      "loc_id l + k \<le> fn_next_local_id f"
      unfolding locals_wf_def by blast
    then show ?thesis by (auto simp: g)
  next
    case False
    with that n show ?thesis by (auto simp: g)
  qed
  ultimately show "locals_wf g"
    using lim by (auto simp: locals_wf_def g)
  show "lid = fn_next_local_id f" by fact
qed

lemma new_function_wf: "locals_wf (new_function name sig)"
  by (simp add: locals_wf_def new_function_def)

end
