(* ===== verification/ExecOps.thy ===== *)
theory ExecOps
  imports Masm Felt VmStack
begin

text \<open>
  The instructions of the emulator (codegen/masm/src/emulator.rs, \<open>Emulator::step\<close>) that act
  on the operand stack only, one function per family of instructions.  Each takes the field
  operations \<open>F\<close> and the stack and is \<open>None\<close> where the emulator panics.  The macros of the
  source (\<open>pop!\<close>, \<open>pop_u32!\<close>, \<open>binop_checked_u32!\<close>, ...) are the definitions of the same
  name.
\<close>

unbundle bit_operations_syntax

section \<open>The macros\<close>

definition pop1 :: "'f list \<Rightarrow> ('f \<times> 'f list) option" where
  "pop1 s = (case vm_pop s of (None, _) \<Rightarrow> None | (Some x, s') \<Rightarrow> Some (x, s'))"

definition popw :: "'f list \<Rightarrow> ('f word4 \<times> 'f list) option" where
  "popw s = (case vm_popw s of (None, _) \<Rightarrow> None | (Some w, s') \<Rightarrow> Some (w, s'))"

definition pop2 :: "'f list \<Rightarrow> (('f \<times> 'f) \<times> 'f list) option" where
  "pop2 s = do { (b, s) \<leftarrow> pop1 s; (a, s) \<leftarrow> pop1 s; Some ((b, a), s) }"

definition pop_u32 :: "'f felt_ops \<Rightarrow> 'f list \<Rightarrow> (u32 \<times> 'f list) option" where
  "pop_u32 F s =
     do { (x, s) \<leftarrow> pop1 s;
          assert_that (unat (felt_as_int F x) < 2 ^ 32);
          Some (ucast (felt_as_int F x), s) }"

definition pop_bool :: "'f felt_ops \<Rightarrow> 'f list \<Rightarrow> (bool \<times> 'f list) option" where
  "pop_bool F s =
     do { (x, s) \<leftarrow> pop1 s;
          assert_that (unat (felt_as_int F x) < 2);
          Some (felt_as_int F x = 1, s) }"

definition push_u8 :: "'f felt_ops \<Rightarrow> u8 \<Rightarrow> 'f list \<Rightarrow> 'f list" where
  "push_u8 F v s = s @ [felt_new F (ucast v)]"

definition push_u16 :: "'f felt_ops \<Rightarrow> u16 \<Rightarrow> 'f list \<Rightarrow> 'f list" where
  "push_u16 F v s = s @ [felt_new F (ucast v)]"

definition push_u32 :: "'f felt_ops \<Rightarrow> u32 \<Rightarrow> 'f list \<Rightarrow> 'f list" where
  "push_u32 F v s = s @ [felt_new F (ucast v)]"

definition binop :: "('f \<Rightarrow> 'f \<Rightarrow> 'f) \<Rightarrow> 'f list \<Rightarrow> 'f list option" where
  "binop f s = do { (b, s) \<leftarrow> pop1 s; (a, s) \<leftarrow> pop1 s; Some (vm_push (f a b) s) }"

definition binop_imm :: "('f \<Rightarrow> 'f \<Rightarrow> 'f) \<Rightarrow> 'f \<Rightarrow> 'f list \<Rightarrow> 'f list option" where
  "binop_imm f imm s = do { (a, s) \<leftarrow> pop1 s; Some (vm_push (f a imm) s) }"

definition binop32 :: "'f felt_ops \<Rightarrow> (u32 \<Rightarrow> u32 \<Rightarrow> u32) \<Rightarrow> 'f list \<Rightarrow> 'f list option" where
  "binop32 F f s = do { (b, s) \<leftarrow> pop_u32 F s; (a, s) \<leftarrow> pop_u32 F s; Some (push_u32 F (f a b) s) }"

definition binop32_imm :: "'f felt_ops \<Rightarrow> (u32 \<Rightarrow> u32 \<Rightarrow> u32) \<Rightarrow> u32 \<Rightarrow> 'f list \<Rightarrow> 'f list option" where
  "binop32_imm F f imm s = do { (a, s) \<leftarrow> pop_u32 F s; Some (push_u32 F (f a imm) s) }"

definition binop_checked_u32 :: "'f felt_ops \<Rightarrow> (u32 \<Rightarrow> u32 \<Rightarrow> u32 option) \<Rightarrow> 'f list \<Rightarrow> 'f list option" where
  "binop_checked_u32 F f s =
     do { (b, s) \<leftarrow> pop_u32 F s; (a, s) \<leftarrow> pop_u32 F s;
          r \<leftarrow> f a b;
          Some (vm_push (felt_new F (ucast r)) s) }"

definition binop_checked_u32_imm ::
    "'f felt_ops \<Rightarrow> (u32 \<Rightarrow> u32 \<Rightarrow> u32 option) \<Rightarrow> u32 \<Rightarrow> 'f list \<Rightarrow> 'f list option" where
  "binop_checked_u32_imm F f imm s =
     do { (a, s) \<leftarrow> pop_u32 F s;
          r \<leftarrow> f a imm;
          Some (vm_push (felt_new F (ucast r)) s) }"

definition binop_overflowing_u32 ::
    "'f felt_ops \<Rightarrow> (u32 \<Rightarrow> u32 \<Rightarrow> u32 \<times> bool) \<Rightarrow> 'f list \<Rightarrow> 'f list option" where
  "binop_overflowing_u32 F f s =
     do { (b, s) \<leftarrow> pop_u32 F s; (a, s) \<leftarrow> pop_u32 F s;
          Some (push_u8 F (u8_of_bool (snd (f a b))) (push_u32 F (fst (f a b)) s)) }"

definition binop_overflowing_u32_imm ::
    "'f felt_ops \<Rightarrow> (u32 \<Rightarrow> u32 \<Rightarrow> u32 \<times> bool) \<Rightarrow> u32 \<Rightarrow> 'f list \<Rightarrow> 'f list option" where
  "binop_overflowing_u32_imm F f imm s =
     do { (a, s) \<leftarrow> pop_u32 F s;
          Some (push_u8 F (u8_of_bool (snd (f a imm))) (push_u32 F (fst (f a imm)) s)) }"

definition binop_wrapping_u32 :: "'f felt_ops \<Rightarrow> (u32 \<Rightarrow> u32 \<Rightarrow> u32) \<Rightarrow> 'f list \<Rightarrow> 'f list option" where
  "binop_wrapping_u32 F f s =
     do { (b, s) \<leftarrow> pop_u32 F s; (a, s) \<leftarrow> pop_u32 F s; Some (push_u32 F (f a b) s) }"

definition binop_wrapping_u32_imm ::
    "'f felt_ops \<Rightarrow> (u32 \<Rightarrow> u32 \<Rightarrow> u32) \<Rightarrow> u32 \<Rightarrow> 'f list \<Rightarrow> 'f list option" where
  "binop_wrapping_u32_imm F f imm s =
     do { (a, s) \<leftarrow> pop_u32 F s; Some (push_u32 F (f a imm) s) }"

definition comparison :: "'f felt_ops \<Rightarrow> (u64 \<Rightarrow> u64 \<Rightarrow> bool) \<Rightarrow> 'f list \<Rightarrow> 'f list option" where
  "comparison F r s =
     do { (b, s) \<leftarrow> pop1 s; (a, s) \<leftarrow> pop1 s;
          Some (push_u8 F (u8_of_bool (r (felt_as_int F a) (felt_as_int F b))) s) }"

definition comparison_imm :: "'f felt_ops \<Rightarrow> (u64 \<Rightarrow> u64 \<Rightarrow> bool) \<Rightarrow> u64 \<Rightarrow> 'f list \<Rightarrow> 'f list option" where
  "comparison_imm F r imm s =
     do { (a, s) \<leftarrow> pop1 s; Some (push_u8 F (u8_of_bool (r (felt_as_int F a) imm)) s) }"

definition comparison32 :: "'f felt_ops \<Rightarrow> (u32 \<Rightarrow> u32 \<Rightarrow> bool) \<Rightarrow> 'f list \<Rightarrow> 'f list option" where
  "comparison32 F r s =
     do { (b, s) \<leftarrow> pop_u32 F s; (a, s) \<leftarrow> pop_u32 F s;
          Some (push_u8 F (u8_of_bool (r a b)) s) }"

definition comparison32_imm :: "'f felt_ops \<Rightarrow> (u32 \<Rightarrow> u32 \<Rightarrow> bool) \<Rightarrow> u32 \<Rightarrow> 'f list \<Rightarrow> 'f list option" where
  "comparison32_imm F r imm s =
     do { (a, s) \<leftarrow> pop_u32 F s; Some (push_u8 F (u8_of_bool (r a imm)) s) }"

section \<open>Stack manipulation and assertions\<close>

primrec exec_stack_op :: "'f felt_ops \<Rightarrow> 'f stack_op \<Rightarrow> 'f list \<Rightarrow> 'f list option" where
  "exec_stack_op F Padw s = Some (vm_padw (felt_ZERO F) s)"
| "exec_stack_op F (Push v) s = Some (vm_push v s)"
| "exec_stack_op F (Push2 a b) s = Some (vm_push b (vm_push a s))"
| "exec_stack_op F (Pushw w) s = Some (vm_pushw w s)"
| "exec_stack_op F (PushU8 i) s = Some (push_u8 F i s)"
| "exec_stack_op F (PushU16 i) s = Some (push_u16 F i s)"
| "exec_stack_op F (PushU32 i) s = Some (push_u32 F i s)"
| "exec_stack_op F Drop s = vm_drop s"
| "exec_stack_op F Dropw s = vm_dropw s"
| "exec_stack_op F (Dup pos) s = vm_dup pos s"
| "exec_stack_op F (Dupw pos) s = vm_dupw pos s"
| "exec_stack_op F (Swap pos) s = vm_swap pos s"
| "exec_stack_op F (Swapw pos) s = vm_swapw pos s"
| "exec_stack_op F (Movup pos) s = vm_movup pos s"
| "exec_stack_op F (Movupw pos) s = vm_movupw pos s"
| "exec_stack_op F (Movdn pos) s = vm_movdn pos s"
| "exec_stack_op F (Movdnw pos) s = vm_movdnw pos s"
| "exec_stack_op F Cswap s =
     do { (cond, s) \<leftarrow> pop_bool F s; if cond then vm_swap 1 s else Some s }"
| "exec_stack_op F Cswapw s =
     do { (cond, s) \<leftarrow> pop_bool F s; if cond then vm_swapw 1 s else Some s }"
| "exec_stack_op F Cdrop s =
     do { (cond, s) \<leftarrow> pop_bool F s; ((b, a), s) \<leftarrow> pop2 s;
          Some (vm_push (if cond then b else a) s) }"
| "exec_stack_op F Cdropw s =
     do { (cond, s) \<leftarrow> pop_bool F s; (b, s) \<leftarrow> popw s; (a, s) \<leftarrow> popw s;
          Some (vm_pushw (if cond then b else a) s) }"
| "exec_stack_op F Assert s = do { (cond, s) \<leftarrow> pop_bool F s; assert_that cond; Some s }"
| "exec_stack_op F Assertz s = do { (cond, s) \<leftarrow> pop_bool F s; assert_that (\<not> cond); Some s }"
| "exec_stack_op F AssertEq s = do { ((b, a), s) \<leftarrow> pop2 s; assert_that (a = b); Some s }"
| "exec_stack_op F AssertEqw s =
     do { (b, s) \<leftarrow> popw s; (a, s) \<leftarrow> popw s; assert_that (a = b); Some s }"

section \<open>Field arithmetic\<close>

primrec exec_felt_op :: "'f felt_ops \<Rightarrow> 'f felt_op \<Rightarrow> 'f list \<Rightarrow> 'f list option" where
  "exec_felt_op F Add s = binop (felt_add F) s"
| "exec_felt_op F (AddImm imm) s = binop_imm (felt_add F) imm s"
| "exec_felt_op F Sub s = binop (felt_sub F) s"
| "exec_felt_op F (SubImm imm) s = binop_imm (felt_sub F) imm s"
| "exec_felt_op F Mul s = binop (felt_mul F) s"
| "exec_felt_op F (MulImm imm) s = binop_imm (felt_mul F) imm s"
| "exec_felt_op F Div s = binop (felt_div F) s"
| "exec_felt_op F (DivImm imm) s = binop_imm (felt_div F) imm s"
| "exec_felt_op F Neg s = do { (a, s) \<leftarrow> pop1 s; Some (vm_push (felt_neg F a) s) }"
| "exec_felt_op F Inv s = do { (a, s) \<leftarrow> pop1 s; Some (vm_push (felt_inv F a) s) }"
| "exec_felt_op F Incr s = binop_imm (felt_add F) (felt_ONE F) s"
| "exec_felt_op F Pow2 s =
     do { (a, s) \<leftarrow> pop1 s;
          let a = felt_as_int F a;
          assert_that (unat a < 64);
          Some (vm_push (felt_exp F (felt_new F 2) a) s) }"
| "exec_felt_op F Exp s =
     do { ((b, a), s) \<leftarrow> pop2 s;
          let b = felt_as_int F b;
          assert_that (unat b < 64);
          Some (vm_push (felt_exp F a b) s) }"
| "exec_felt_op F (ExpImm pow) s =
     do { (a, s) \<leftarrow> pop1 s;
          assert_that (pow < 64);
          Some (vm_push (felt_exp F a (of_nat pow)) s) }"

section \<open>Boolean operations and comparisons\<close>

primrec exec_cmp_op :: "'f felt_ops \<Rightarrow> 'f cmp_op \<Rightarrow> 'f list \<Rightarrow> 'f list option" where
  "exec_cmp_op F OpNot s = do { (a, s) \<leftarrow> pop_bool F s; Some (push_u8 F (u8_of_bool (\<not> a)) s) }"
| "exec_cmp_op F OpAnd s =
     do { (b, s) \<leftarrow> pop_bool F s; (a, s) \<leftarrow> pop_bool F s; Some (push_u8 F (u8_of_bool (b \<and> a)) s) }"
| "exec_cmp_op F (AndImm b) s =
     do { (a, s) \<leftarrow> pop_bool F s; Some (push_u8 F (u8_of_bool (a \<and> b)) s) }"
| "exec_cmp_op F OpOr s =
     do { (b, s) \<leftarrow> pop_bool F s; (a, s) \<leftarrow> pop_bool F s; Some (push_u8 F (u8_of_bool (b \<or> a)) s) }"
| "exec_cmp_op F (OrImm b) s =
     do { (a, s) \<leftarrow> pop_bool F s; Some (push_u8 F (u8_of_bool (a \<or> b)) s) }"
| "exec_cmp_op F OpXor s =
     do { (b, s) \<leftarrow> pop_bool F s; (a, s) \<leftarrow> pop_bool F s; Some (push_u8 F (u8_of_bool (b \<noteq> a)) s) }"
| "exec_cmp_op F (XorImm b) s =
     do { (a, s) \<leftarrow> pop_bool F s; Some (push_u8 F (u8_of_bool (a \<noteq> b)) s) }"
| "exec_cmp_op F Eq s = comparison F (=) s"
| "exec_cmp_op F (EqImm imm) s = comparison_imm F (=) (felt_as_int F imm) s"
| "exec_cmp_op F Neq s = comparison F (\<noteq>) s"
| "exec_cmp_op F (NeqImm imm) s = comparison_imm F (\<noteq>) (felt_as_int F imm) s"
| "exec_cmp_op F Gt s = comparison F (>) s"
| "exec_cmp_op F (GtImm imm) s = comparison_imm F (>) (felt_as_int F imm) s"
| "exec_cmp_op F Gte s = comparison F (\<ge>) s"
| "exec_cmp_op F (GteImm imm) s = comparison_imm F (\<ge>) (felt_as_int F imm) s"
| "exec_cmp_op F Lt s = comparison F (<) s"
| "exec_cmp_op F (LtImm imm) s = comparison_imm F (<) (felt_as_int F imm) s"
| "exec_cmp_op F Lte s = comparison F (\<le>) s"
| "exec_cmp_op F (LteImm imm) s = comparison_imm F (\<le>) (felt_as_int F imm) s"
| "exec_cmp_op F IsOdd s =
     do { (a, s) \<leftarrow> pop1 s; Some (push_u8 F (u8_of_bool (felt_as_int F a mod 2 = 0)) s) }"
| "exec_cmp_op F Eqw s =
     do { (b, s) \<leftarrow> popw s; (a, s) \<leftarrow> popw s; Some (push_u8 F (u8_of_bool (a = b)) s) }"

section \<open>32-bit arithmetic\<close>

text \<open>\<open>peek\<close> and \<open>peekw\<close> with their \<open>expect\<close>.\<close>

definition peek_int :: "'f felt_ops \<Rightarrow> 'f list \<Rightarrow> nat option" where
  "peek_int F s = map_option (\<lambda>x. unat (felt_as_int F x)) (vm_peek s)"

definition peekw_ints :: "'f felt_ops \<Rightarrow> 'f list \<Rightarrow> nat list option" where
  "peekw_ints F s =
     (case vm_peekw s of Some (Some (a, b, c, d)) \<Rightarrow>
        Some (map (\<lambda>x. unat (felt_as_int F x)) [a, b, c, d])
      | _ \<Rightarrow> None)"

definition exec_madd :: "'f felt_ops \<Rightarrow> bool \<Rightarrow> 'f list \<Rightarrow> 'f list option" where
  "exec_madd F wrapping s =
     do { (b, s) \<leftarrow> pop_u32 F s; (a, s) \<leftarrow> pop_u32 F s; (c, s) \<leftarrow> pop_u32 F s;
          let b = (ucast b :: u64); let a = (ucast a :: u64); let c = (ucast c :: u64);
          m \<leftarrow> checked_mul a b;
          r \<leftarrow> checked_add m c;
          let d = r mod 4294967296;
          let e = r div 4294967296;
          if wrapping then Some (vm_push (felt_new F d) s)
          else Some (vm_push (felt_new F e) (vm_push (felt_new F d) s)) }"

primrec exec_arith_op :: "'f felt_ops \<Rightarrow> arith_op \<Rightarrow> 'f list \<Rightarrow> 'f list option" where
  "exec_arith_op F U32Test s =
     do { top \<leftarrow> peek_int F s; Some (push_u8 F (u8_of_bool (top < 2 ^ 32)) s) }"
| "exec_arith_op F U32Testw s =
     do { word \<leftarrow> peekw_ints F s; Some (push_u8 F (u8_of_bool (\<forall>x \<in> set word. x < 2 ^ 32)) s) }"
| "exec_arith_op F U32Assert s = do { top \<leftarrow> peek_int F s; assert_that (top < 2 ^ 32); Some s }"
| "exec_arith_op F U32Assert2 s =
     do { a \<leftarrow> peek_int F s; b \<leftarrow> peek_int F s;
          assert_that (a < 2 ^ 32); assert_that (b < 2 ^ 32); Some s }"
| "exec_arith_op F U32Assertw s =
     do { word \<leftarrow> peekw_ints F s; assert_that (\<forall>x \<in> set word. x < 2 ^ 32); Some s }"
| "exec_arith_op F U32Cast s =
     do { (a, s) \<leftarrow> pop1 s; Some (vm_push (felt_new F (felt_as_int F a mod 4294967296)) s) }"
| "exec_arith_op F U32Split s =
     do { (a, s) \<leftarrow> pop1 s;
          let a = felt_as_int F a;
          let hi = a div 4294967296;
          let lo = a mod 4294967296;
          Some (vm_push (felt_new F hi) (vm_push (felt_new F lo) s)) }"
| "exec_arith_op F U32CheckedAdd s = binop_checked_u32 F checked_add s"
| "exec_arith_op F (U32CheckedAddImm imm) s = binop_checked_u32_imm F checked_add imm s"
| "exec_arith_op F U32OverflowingAdd s = binop_overflowing_u32 F overflowing_add s"
| "exec_arith_op F (U32OverflowingAddImm imm) s = binop_overflowing_u32_imm F overflowing_add imm s"
| "exec_arith_op F U32WrappingAdd s = binop_wrapping_u32 F wrapping_add s"
| "exec_arith_op F (U32WrappingAddImm imm) s = binop_wrapping_u32_imm F wrapping_add imm s"
| "exec_arith_op F U32OverflowingAdd3 s = None"
| "exec_arith_op F U32WrappingAdd3 s = None"
| "exec_arith_op F U32CheckedSub s = binop_checked_u32 F checked_sub s"
| "exec_arith_op F (U32CheckedSubImm imm) s = binop_checked_u32_imm F checked_sub imm s"
| "exec_arith_op F U32OverflowingSub s = binop_overflowing_u32 F overflowing_sub s"
| "exec_arith_op F (U32OverflowingSubImm imm) s = binop_overflowing_u32_imm F overflowing_sub imm s"
| "exec_arith_op F U32WrappingSub s = binop_wrapping_u32 F wrapping_sub s"
| "exec_arith_op F (U32WrappingSubImm imm) s = binop_wrapping_u32_imm F wrapping_sub imm s"
| "exec_arith_op F U32CheckedMul s = binop_checked_u32 F checked_mul s"
| "exec_arith_op F (U32CheckedMulImm imm) s = binop_checked_u32_imm F checked_mul imm s"
| "exec_arith_op F U32OverflowingMul s = binop_overflowing_u32 F overflowing_mul s"
| "exec_arith_op F (U32OverflowingMulImm imm) s = binop_overflowing_u32_imm F overflowing_mul imm s"
| "exec_arith_op F U32WrappingMul s = binop_wrapping_u32 F wrapping_mul s"
| "exec_arith_op F (U32WrappingMulImm imm) s = binop_wrapping_u32_imm F wrapping_mul imm s"
| "exec_arith_op F U32OverflowingMadd s = exec_madd F False s"
| "exec_arith_op F U32WrappingMadd s = exec_madd F True s"

section \<open>32-bit division, bits, shifts\<close>

definition divmod_felts :: "'f felt_ops \<Rightarrow> u64 \<Rightarrow> u64 \<Rightarrow> 'f list \<Rightarrow> 'f list option" where
  "divmod_felts F a b s =
     do { q \<leftarrow> checked_div a b; r \<leftarrow> checked_rem a b;
          Some (vm_push (felt_new F r) (vm_push (felt_new F q) s)) }"

definition divmod_u32s :: "'f felt_ops \<Rightarrow> u32 \<Rightarrow> u32 \<Rightarrow> 'f list \<Rightarrow> 'f list option" where
  "divmod_u32s F a b s =
     do { q \<leftarrow> checked_div a b; r \<leftarrow> checked_rem a b;
          Some (push_u32 F r (push_u32 F q s)) }"

primrec exec_bit_op :: "'f felt_ops \<Rightarrow> bit_op \<Rightarrow> 'f list \<Rightarrow> 'f list option" where
  "exec_bit_op F U32CheckedDiv s = binop_checked_u32 F checked_div s"
| "exec_bit_op F (U32CheckedDivImm imm) s = binop_checked_u32_imm F checked_div imm s"
| "exec_bit_op F U32UncheckedDiv s = binop (felt_div F) s"
| "exec_bit_op F (U32UncheckedDivImm imm) s = binop_imm (felt_div F) (felt_new F (ucast imm)) s"
| "exec_bit_op F U32CheckedMod s = binop_checked_u32 F checked_rem s"
| "exec_bit_op F (U32CheckedModImm imm) s = binop_checked_u32_imm F checked_rem imm s"
| "exec_bit_op F U32UncheckedMod s =
     do { (b, s) \<leftarrow> pop1 s; (a, s) \<leftarrow> pop1 s;
          r \<leftarrow> checked_rem (felt_as_int F a) (felt_as_int F b);
          Some (vm_push (felt_new F r) s) }"
| "exec_bit_op F (U32UncheckedModImm imm) s =
     do { (a, s) \<leftarrow> pop1 s;
          r \<leftarrow> checked_rem (felt_as_int F a) (ucast imm);
          Some (vm_push (felt_new F r) s) }"
| "exec_bit_op F U32CheckedDivMod s =
     do { (b, s) \<leftarrow> pop_u32 F s; (a, s) \<leftarrow> pop_u32 F s; divmod_u32s F a b s }"
| "exec_bit_op F (U32CheckedDivModImm imm) s =
     do { (a, s) \<leftarrow> pop_u32 F s; divmod_u32s F a imm s }"
| "exec_bit_op F U32UncheckedDivMod s =
     do { (b, s) \<leftarrow> pop1 s; (a, s) \<leftarrow> pop1 s; divmod_felts F (felt_as_int F a) (felt_as_int F b) s }"
| "exec_bit_op F (U32UncheckedDivModImm b) s =
     do { (a, s) \<leftarrow> pop1 s; divmod_felts F (felt_as_int F a) (ucast b) s }"
| "exec_bit_op F U32And s = binop32 F (AND) s"
| "exec_bit_op F U32Or s = binop32 F (OR) s"
| "exec_bit_op F U32Xor s = binop32 F (XOR) s"
| "exec_bit_op F U32Not s = do { (a, s) \<leftarrow> pop_u32 F s; Some (push_u32 F (NOT a) s) }"
| "exec_bit_op F U32CheckedShl s = binop_checked_u32 F checked_shl s"
| "exec_bit_op F (U32CheckedShlImm imm) s = binop_checked_u32_imm F checked_shl imm s"
| "exec_bit_op F U32UncheckedShl s = binop_wrapping_u32 F wrapping_shl s"
| "exec_bit_op F (U32UncheckedShlImm imm) s = binop_wrapping_u32_imm F wrapping_shl imm s"
| "exec_bit_op F U32CheckedShr s = binop_checked_u32 F checked_shr s"
| "exec_bit_op F (U32CheckedShrImm imm) s = binop_checked_u32_imm F checked_shr imm s"
| "exec_bit_op F U32UncheckedShr s = binop_wrapping_u32 F wrapping_shr s"
| "exec_bit_op F (U32UncheckedShrImm imm) s = binop_wrapping_u32_imm F wrapping_shr imm s"
| "exec_bit_op F U32CheckedRotl s = binop32 F rotate_left s"
| "exec_bit_op F (U32CheckedRotlImm imm) s = binop32_imm F rotate_left imm s"
| "exec_bit_op F U32UncheckedRotl s =
     do { (b, s) \<leftarrow> pop_u32 F s; (a, s) \<leftarrow> pop1 s;
          Some (vm_push (felt_new F (rotate_left (felt_as_int F a) b)) s) }"
| "exec_bit_op F (U32UncheckedRotlImm imm) s =
     do { (a, s) \<leftarrow> pop1 s; Some (vm_push (felt_new F (rotate_left (felt_as_int F a) imm)) s) }"
| "exec_bit_op F U32CheckedRotr s = binop32 F rotate_right s"
| "exec_bit_op F (U32CheckedRotrImm imm) s = binop32_imm F rotate_right imm s"
| "exec_bit_op F U32UncheckedRotr s =
     do { (b, s) \<leftarrow> pop_u32 F s; (a, s) \<leftarrow> pop1 s;
          Some (vm_push (felt_new F (rotate_right (felt_as_int F a) b)) s) }"
| "exec_bit_op F (U32UncheckedRotrImm imm) s =
     do { (a, s) \<leftarrow> pop1 s; Some (vm_push (felt_new F (rotate_right (felt_as_int F a) imm)) s) }"

section \<open>Population count, comparisons, minimum and maximum\<close>

primrec exec_rel_op :: "'f felt_ops \<Rightarrow> rel_op \<Rightarrow> 'f list \<Rightarrow> 'f list option" where
  "exec_rel_op F U32CheckedPopcnt s =
     do { (a, s) \<leftarrow> pop_u32 F s; Some (push_u32 F (count_ones a) s) }"
| "exec_rel_op F U32UncheckedPopcnt s =
     do { (a, s) \<leftarrow> pop1 s; Some (push_u32 F (count_ones (felt_as_int F a)) s) }"
| "exec_rel_op F U32Eq s = comparison32 F (=) s"
| "exec_rel_op F (U32EqImm imm) s = comparison32_imm F (=) imm s"
| "exec_rel_op F U32Neq s = comparison32 F (\<noteq>) s"
| "exec_rel_op F (U32NeqImm imm) s = comparison32_imm F (\<noteq>) imm s"
| "exec_rel_op F U32CheckedLt s = comparison32 F (<) s"
| "exec_rel_op F U32UncheckedLt s = comparison F (<) s"
| "exec_rel_op F U32CheckedLte s = comparison32 F (\<le>) s"
| "exec_rel_op F U32UncheckedLte s = comparison F (\<le>) s"
| "exec_rel_op F U32CheckedGt s = comparison32 F (>) s"
| "exec_rel_op F U32UncheckedGt s = comparison F (>) s"
| "exec_rel_op F U32CheckedGte s = comparison32 F (\<ge>) s"
| "exec_rel_op F U32UncheckedGte s = comparison F (\<ge>) s"
| "exec_rel_op F U32CheckedMin s =
     do { (b, s) \<leftarrow> pop_u32 F s; (a, s) \<leftarrow> pop_u32 F s; Some (push_u32 F (min a b) s) }"
| "exec_rel_op F U32UncheckedMin s =
     do { (b, s) \<leftarrow> pop1 s; (a, s) \<leftarrow> pop1 s;
          Some (vm_push (felt_new F (min (felt_as_int F a) (felt_as_int F b))) s) }"
| "exec_rel_op F U32CheckedMax s =
     do { (b, s) \<leftarrow> pop_u32 F s; (a, s) \<leftarrow> pop_u32 F s; Some (push_u32 F (max a b) s) }"
| "exec_rel_op F U32UncheckedMax s =
     do { (b, s) \<leftarrow> pop1 s; (a, s) \<leftarrow> pop1 s;
          Some (vm_push (felt_new F (max (felt_as_int F a) (felt_as_int F b))) s) }"

section \<open>Sequences of instructions\<close>

text \<open>
  \<open>exec_op\<close> runs one instruction that only uses the stack (\<open>None\<close> also for the others) and
  \<open>exec_ops\<close> a straight-line sequence; the theory Emulator relates them to \<open>step\<close>.
\<close>

definition exec_op :: "'f felt_ops \<Rightarrow> 'f masm_op \<Rightarrow> 'f list \<Rightarrow> 'f list option" where
  "exec_op F op s =
     (case op of
        Stk o1 \<Rightarrow> exec_stack_op F o1 s
      | Fld o1 \<Rightarrow> exec_felt_op F o1 s
      | Cmp o1 \<Rightarrow> exec_cmp_op F o1 s
      | Arith o1 \<Rightarrow> exec_arith_op F o1 s
      | Bit o1 \<Rightarrow> exec_bit_op F o1 s
      | Rel o1 \<Rightarrow> exec_rel_op F o1 s
      | _ \<Rightarrow> None)"

lemma exec_op_simps [simp]:
  "exec_op F (Stk a) s = exec_stack_op F a s"
  "exec_op F (Fld b) s = exec_felt_op F b s"
  "exec_op F (Cmp c) s = exec_cmp_op F c s"
  "exec_op F (Arith d) s = exec_arith_op F d s"
  "exec_op F (Bit e) s = exec_bit_op F e s"
  "exec_op F (Rel f) s = exec_rel_op F f s"
  by (simp_all add: exec_op_def)

fun exec_ops :: "'f felt_ops \<Rightarrow> 'f masm_op list \<Rightarrow> 'f list \<Rightarrow> 'f list option" where
  "exec_ops F [] s = Some s"
| "exec_ops F (op # ops) s = Option.bind (exec_op F op s) (exec_ops F ops)"

lemma exec_ops_append:
  "exec_ops F (ops1 @ ops2) s = Option.bind (exec_ops F ops1 s) (exec_ops F ops2)"
proof (induction ops1 arbitrary: s)
  case (Cons op ops1)
  then show ?case by (cases "exec_op F op s") simp_all
qed simp

section \<open>Execution on stacks read from the top\<close>

text \<open>
  \<open>felt_u32 F v\<close> is the field element of a \<open>u32\<close> and \<open>felt_bool F b\<close> that of a boolean; the
  lemmas of \<open>exec_simps\<close> run each instruction on a stack of such elements.
\<close>

definition felt_u32 :: "'f felt_ops \<Rightarrow> u32 \<Rightarrow> 'f" where
  "felt_u32 F v = felt_new F (ucast v)"

definition felt_bool :: "'f felt_ops \<Rightarrow> bool \<Rightarrow> 'f" where
  "felt_bool F b = felt_u32 F (if b then 1 else 0)"

definition is_u32 :: "'f felt_ops \<Rightarrow> 'f \<Rightarrow> bool" where
  "is_u32 F x = (unat (felt_as_int F x) < 2 ^ 32)"

definition u32_of :: "'f felt_ops \<Rightarrow> 'f \<Rightarrow> u32" where
  "u32_of F x = ucast (felt_as_int F x)"

lemma pop1_topdown [exec_simps]:
  "pop1 (topdown []) = None"
  "pop1 (topdown (x # xs)) = Some (x, topdown xs)"
  by (simp_all add: pop1_def stack_simps)

lemma pop2_topdown [exec_simps]: "pop2 (topdown (b # a # xs)) = Some ((b, a), topdown xs)"
  by (simp add: pop2_def exec_simps)

lemma popw_word_topdown [exec_simps]:
  "popw (topdown (a # b # c # d # xs)) = Some ((a, b, c, d), topdown xs)"
  by (simp add: popw_def stack_simps)

lemma pop_u32_any:
  "pop_u32 F (topdown (x # xs)) = (if is_u32 F x then Some (u32_of F x, topdown xs) else None)"
  by (simp add: pop_u32_def exec_simps bind_assert_that is_u32_def u32_of_def)

lemma push_u8_bool [exec_simps]: "push_u8 F (u8_of_bool b) (topdown xs) = topdown (felt_bool F b # xs)"
  by (simp add: push_u8_def topdown_def felt_bool_def felt_u32_def u8_of_bool_def)

lemma push_u32_topdown [exec_simps]: "push_u32 F v (topdown xs) = topdown (felt_u32 F v # xs)"
  by (simp add: push_u32_def topdown_def felt_u32_def)

lemma felt_new_u32 [exec_simps]: "felt_new F (ucast (v :: u32)) = felt_u32 F v"
  by (simp add: felt_u32_def)

lemma peek_int_topdown [exec_simps]:
  "peek_int F (topdown (x # xs)) = Some (unat (felt_as_int F x))"
  by (simp add: peek_int_def stack_simps)

lemma peekw_ints_topdown [exec_simps]:
  "peekw_ints F (topdown (a # b # c # d # xs)) =
     Some [unat (felt_as_int F a), unat (felt_as_int F b), unat (felt_as_int F c), unat (felt_as_int F d)]"
  by (simp add: peekw_ints_def stack_simps)

context felt_field
begin

lemma as_int_u32 [simp]: "felt_as_int F (felt_u32 F v) = ucast v"
  by (simp add: felt_u32_def)

lemma is_u32_u32 [simp]: "is_u32 F (felt_u32 F v)"
  by (simp add: is_u32_def)

lemma u32_of_u32 [simp]: "u32_of F (felt_u32 F v) = v"
  by (simp add: u32_of_def)

lemma u32_of_inverse: "is_u32 F x \<Longrightarrow> felt_u32 F (u32_of F x) = x"
  by (rule as_int_inject)
    (simp add: is_u32_def u32_of_def ucast_u32_u64_id)

lemma is_u32_cases:
  assumes "is_u32 F x"
  obtains v where "x = felt_u32 F v"
  using u32_of_inverse [OF assms] by metis

lemma felt_u32_inject [simp]: "felt_u32 F v = felt_u32 F w \<longleftrightarrow> v = w"
  by (simp add: felt_u32_def)

lemma felt_bool_inject [simp]: "felt_bool F b = felt_bool F c \<longleftrightarrow> b = c"
  by (auto simp: felt_bool_def)

lemma felt_u32_0_1: "felt_u32 F 0 = felt_ZERO F" "felt_u32 F 1 = felt_ONE F"
  by (simp_all add: felt_u32_def)

lemma pop_u32_u32 [exec_simps]: "pop_u32 F (topdown (felt_u32 F v # xs)) = Some (v, topdown xs)"
  by (simp add: pop_u32_any)

lemma pop_bool_bool [exec_simps]: "pop_bool F (topdown (felt_bool F b # xs)) = Some (b, topdown xs)"
  by (simp add: pop_bool_def exec_simps bind_assert_that felt_bool_def)

lemma pop_bool_u32 [exec_simps]:
  "pop_bool F (topdown (felt_u32 F v # xs)) = (if v = 0 \<or> v = 1 then Some (v = 1, topdown xs) else None)"
proof -
  have "unat v < 2 \<longleftrightarrow> v = 0 \<or> v = 1"
    by (simp add: less_2_cases_iff word_unat_eq_iff)
  moreover have "(ucast v :: u64) = 1 \<longleftrightarrow> v = 1"
    using ucast_u32_u64_inject [of v 1] by simp
  ultimately show ?thesis
    by (simp add: pop_bool_def exec_simps bind_assert_that)
qed

lemma as_int_bool [simp]: "felt_as_int F (felt_bool F b) = (if b then 1 else 0)"
  by (simp add: felt_bool_def)

end

lemmas exec_defs =
  binop_def binop_imm_def binop32_def binop32_imm_def binop_checked_u32_def
  binop_checked_u32_imm_def binop_overflowing_u32_def binop_overflowing_u32_imm_def
  binop_wrapping_u32_def binop_wrapping_u32_imm_def comparison_def comparison_imm_def
  comparison32_def comparison32_imm_def overflowing_add_def overflowing_sub_def
  overflowing_mul_def wrapping_add_def wrapping_sub_def wrapping_mul_def bind_assert_that
  divmod_felts_def divmod_u32s_def

end
