(* ===== verification/Emulator.thy ===== *)
theory Emulator
  imports ExecOps
begin

text \<open>
  The emulator of codegen/masm/src/emulator.rs: activation records with their instruction
  pointer, the stacks of enclosing blocks and of repeat counters; the state of the emulator
  (functions, memory, operand stack, call stack, heap and locals pointers, breakpoint, clock);
  loading of modules and functions; the heap; and the interpreter \<open>step\<close> and \<open>run\<close>.

  A \<open>Vec\<close> used as a stack of activations or pointers is a list with its top at the head.  A
  function of type \<open>_ option\<close> is \<open>None\<close> where the source panics; \<open>Inl e\<close> is \<open>Err(e)\<close>.  Native
  functions are closures of the embedding program, so \<open>Native k\<close> only names one and \<open>invoke\<close>
  has their meaning as a parameter.
\<close>

section \<open>State\<close>

datatype emulation_error =
    AlreadyLoaded ident | DuplicateFunction function_ident | UndefinedFunction function_ident
  | OutOfMemory | CycleBudgetExceeded | BreakpointHit

datatype 'f stub = Asm "'f masm_function" | Native nat

datatype instruction_pointer = IP (ip_block: block_id) (ip_index: nat)

datatype breakpoint =
    BpStep | BpStepN nat | BpStepOnce | BpStepOut | BpStepOver | BpStepUntil instruction_pointer
  | BpLoop | BpCall function_ident | BpMemoryWrite nat nat

datatype jump = JumpNone | JumpReturn | JumpBranch | JumpRepeat nat

datatype action = Halt | Suspend | Return

record 'f activation =
  act_function :: "'f masm_function"
  act_ip :: instruction_pointer
  act_fp :: nat
  act_repeat_stack :: "(nat \<times> nat) option list"
  act_ip_stack :: "instruction_pointer list"

record 'f emulator =
  em_functions :: "function_ident \<Rightarrow> 'f stub option"
  em_locals :: "function_ident \<Rightarrow> nat option"
  em_modules_loaded :: "ident set"
  em_modules_pending :: "ident set"
  em_memory :: "'f word4 list"
  em_stack :: "'f list"
  em_callstack :: "'f activation list"
  em_hp :: nat
  em_lp :: nat
  em_bp :: "breakpoint option"
  em_clk :: nat
  em_clk_limit :: nat

definition PAGE_SIZE :: nat where "PAGE_SIZE = 64 * 1024"
definition DEFAULT_HEAP_SIZE :: nat where "DEFAULT_HEAP_SIZE = 4 * PAGE_SIZE div 16"
definition DEFAULT_HEAP_START :: nat where "DEFAULT_HEAP_START = 2 * PAGE_SIZE div 16"
definition DEFAULT_LOCALS_START :: nat where "DEFAULT_LOCALS_START = 3 * PAGE_SIZE div 16"

definition new_emulator :: "'f felt_ops \<Rightarrow> nat \<Rightarrow> nat \<Rightarrow> nat \<Rightarrow> 'f emulator" where
  "new_emulator F memory_size hp lp =
     \<lparr>em_functions = (\<lambda>_. None), em_locals = (\<lambda>_. None), em_modules_loaded = {},
      em_modules_pending = {},
      em_memory = replicate memory_size (felt_ZERO F, felt_ZERO F, felt_ZERO F, felt_ZERO F),
      em_stack = [], em_callstack = [], em_hp = hp, em_lp = lp, em_bp = None,
      em_clk = 0, em_clk_limit = usize_MAX\<rparr>"

definition default_emulator :: "'f felt_ops \<Rightarrow> 'f emulator" where
  "default_emulator F = new_emulator F DEFAULT_HEAP_SIZE DEFAULT_HEAP_START DEFAULT_LOCALS_START"

definition set_max_cycles :: "nat \<Rightarrow> 'f emulator \<Rightarrow> 'f emulator" where
  "set_max_cycles mx em = em\<lparr>em_clk_limit := mx\<rparr>"

definition set_breakpoint :: "breakpoint \<Rightarrow> 'f emulator \<Rightarrow> 'f emulator" where
  "set_breakpoint bp em = em\<lparr>em_bp := Some bp\<rparr>"

definition clear_breakpoint :: "'f emulator \<Rightarrow> 'f emulator" where
  "clear_breakpoint em = em\<lparr>em_bp := None\<rparr>"

section \<open>Activations\<close>

definition new_activation :: "'f masm_function \<Rightarrow> nat \<Rightarrow> 'f activation" where
  "new_activation f fp =
     \<lparr>act_function = f, act_ip = IP (fn_body f) 0, act_fp = fp, act_repeat_stack = [],
      act_ip_stack = []\<rparr>"

text \<open>The instruction at a pointer; the outer \<open>None\<close> is an invalid block identifier.\<close>

definition op_at :: "'f masm_function \<Rightarrow> instruction_pointer \<Rightarrow> 'f masm_op option option" where
  "op_at f ip =
     do { code \<leftarrow> fn_block f (ip_block ip);
          Some (if ip_index ip < length code then Some (code ! ip_index ip) else None) }"

text \<open>The loop of \<open>pending_ip\<close> over the enclosing blocks.\<close>

fun find_resume :: "'f masm_function \<Rightarrow> instruction_pointer list \<Rightarrow> instruction_pointer option option" where
  "find_resume f [] = Some None"
| "find_resume f (ip # ips) =
     do { ix \<leftarrow> op_at f ip;
          case ix of Some _ \<Rightarrow> Some (Some ip) | None \<Rightarrow> find_resume f ips }"

definition pending_ip :: "'f activation \<Rightarrow> (instruction_pointer \<times> jump) option" where
  "pending_ip st =
     do { code \<leftarrow> fn_block (act_function st) (ip_block (act_ip st));
          if ip_index (act_ip st) = length code then
            let resume = do {
              r \<leftarrow> find_resume (act_function st) (act_ip_stack st);
              Some (case r of Some ip \<Rightarrow> (ip, JumpBranch) | None \<Rightarrow> (act_ip st, JumpReturn)) }
            in (case act_repeat_stack st of
                  Some (c, n) # _ \<Rightarrow>
                    if c \<le> n then Some (IP (ip_block (act_ip st)) 0, JumpRepeat c) else resume
                | _ \<Rightarrow> resume)
          else Some (act_ip st, JumpNone) }"

text \<open>The loop of \<open>next_instruction\<close> that leaves enclosing blocks.\<close>

fun resume_parent :: "'f activation \<Rightarrow> instruction_pointer list \<Rightarrow>
    (('f masm_op option \<times> jump) \<times> 'f activation) option" where
  "resume_parent st [] = Some ((None, JumpReturn), st\<lparr>act_ip_stack := []\<rparr>)"
| "resume_parent st (ip # ips) =
     do { ix \<leftarrow> op_at (act_function st) ip;
          case ix of
            Some op \<Rightarrow> Some ((Some op, JumpBranch),
              st\<lparr>act_ip := IP (ip_block ip) (ip_index ip + 1), act_ip_stack := ips\<rparr>)
          | None \<Rightarrow> resume_parent (st\<lparr>act_ip := ip\<rparr>) ips }"

definition next_instruction ::
    "'f activation \<Rightarrow> (('f masm_op option \<times> jump) \<times> 'f activation) option" where
  "next_instruction st =
     do { code \<leftarrow> fn_block (act_function st) (ip_block (act_ip st));
          if ip_index (act_ip st) = length code then
            (case act_repeat_stack st of
               [] \<Rightarrow> resume_parent st (act_ip_stack st)
             | r # rs \<Rightarrow>
                 (case r of
                    Some (c, n) \<Rightarrow>
                      if c \<le> n then do {
                        c' \<leftarrow> u8_add c 1;
                        assert_that (code \<noteq> []);
                        Some ((Some (code ! 0), JumpRepeat c),
                          st\<lparr>act_repeat_stack := Some (c', n) # rs,
                             act_ip := IP (ip_block (act_ip st)) 1\<rparr>) }
                      else resume_parent (st\<lparr>act_repeat_stack := rs\<rparr>) (act_ip_stack st)
                  | None \<Rightarrow> resume_parent (st\<lparr>act_repeat_stack := rs\<rparr>) (act_ip_stack st)))
          else do {
            ix \<leftarrow> op_at (act_function st) (act_ip st);
            Some ((ix, JumpNone),
              st\<lparr>act_ip := IP (ip_block (act_ip st)) (ip_index (act_ip st) + 1)\<rparr>) } }"

definition peek_instruction ::
    "'f activation \<Rightarrow> ('f masm_op option \<times> jump \<times> instruction_pointer) option" where
  "peek_instruction st =
     do { (ip, jump) \<leftarrow> pending_ip st;
          ix \<leftarrow> op_at (act_function st) ip;
          Some (ix, jump, ip) }"

definition enter_block :: "block_id \<Rightarrow> 'f activation \<Rightarrow> 'f activation" where
  "enter_block b st =
     st\<lparr>act_ip_stack := act_ip st # act_ip_stack st, act_repeat_stack := None # act_repeat_stack st,
        act_ip := IP b 0\<rparr>"

text \<open>\<open>ip.index -= 1\<close>, which panics at 0.\<close>

definition step_back :: "'f activation \<Rightarrow> 'f activation option" where
  "step_back st =
     do { assert_that (ip_index (act_ip st) > 0);
          Some (st\<lparr>act_ip := IP (ip_block (act_ip st)) (ip_index (act_ip st) - 1)\<rparr>) }"

definition enter_while_loop :: "block_id \<Rightarrow> 'f activation \<Rightarrow> 'f activation option" where
  "enter_while_loop b st =
     do { back \<leftarrow> step_back st;
          Some (st\<lparr>act_ip_stack := act_ip back # act_ip_stack st,
            act_repeat_stack := None # act_repeat_stack st, act_ip := IP b 0\<rparr>) }"

definition repeat_block :: "block_id \<Rightarrow> nat \<Rightarrow> 'f activation \<Rightarrow> 'f activation" where
  "repeat_block b n st =
     st\<lparr>act_ip_stack := act_ip st # act_ip_stack st,
        act_repeat_stack := Some (1, n) # act_repeat_stack st, act_ip := IP b 0\<rparr>"

section \<open>Loading\<close>

definition load_function :: "'f masm_function \<Rightarrow> 'f emulator \<Rightarrow>
    ('f emulator \<times> (emulation_error + unit)) option" where
  "load_function f em =
     (let fid = fn_name f in
      case em_functions em fid of
        Some _ \<Rightarrow> Some (em, Inl (DuplicateFunction fid))
      | None \<Rightarrow> do {
          let fp = em_lp em;
          lp \<leftarrow> u32_add fp (as_u32 (length (fn_locals f)));
          Some (em\<lparr>em_lp := lp, em_functions := (em_functions em)(fid \<mapsto> Asm f),
                   em_locals := (em_locals em)(fid \<mapsto> fp)\<rparr>, Inr ()) })"

fun load_functions :: "'f masm_function list \<Rightarrow> 'f emulator \<Rightarrow>
    ('f emulator \<times> (emulation_error + unit)) option" where
  "load_functions [] em = Some (em, Inr ())"
| "load_functions (f # fs) em =
     do { (em, r) \<leftarrow> load_function f em;
          case r of Inl e \<Rightarrow> Some (em, Inl e) | Inr _ \<Rightarrow> load_functions fs em }"

definition load_module :: "'f masm_module \<Rightarrow> 'f emulator \<Rightarrow>
    ('f emulator \<times> (emulation_error + unit)) option" where
  "load_module m em =
     (if mod_name m \<in> em_modules_loaded em then Some (em, Inl (AlreadyLoaded (mod_name m)))
      else
        let loaded = insert (mod_name m) (em_modules_loaded em);
            pending = fold (\<lambda>i p. if fst i \<in> loaded then p else insert (fst i) p)
              (mod_imports m) (em_modules_pending em) - {mod_name m}
        in load_functions (mod_functions m)
             (em\<lparr>em_modules_loaded := loaded, em_modules_pending := pending\<rparr>))"

fun load_program :: "'f masm_module list \<Rightarrow> 'f emulator \<Rightarrow>
    ('f emulator \<times> (emulation_error + unit)) option" where
  "load_program [] em = Some (em, Inr ())"
| "load_program (m # ms) em =
     do { (em, r) \<leftarrow> load_module m em;
          case r of Inl e \<Rightarrow> Some (em, Inl e) | Inr _ \<Rightarrow> load_program ms em }"

definition load_nif :: "function_ident \<Rightarrow> nat \<Rightarrow> 'f emulator \<Rightarrow>
    'f emulator \<times> (emulation_error + unit)" where
  "load_nif fid native em =
     (case em_functions em fid of
        Some _ \<Rightarrow> (em, Inl (DuplicateFunction fid))
      | None \<Rightarrow> (em\<lparr>em_functions := (em_functions em)(fid \<mapsto> Native native)\<rparr>, Inr ()))"

section \<open>The heap\<close>

fun word_get :: "'f word4 \<Rightarrow> nat \<Rightarrow> 'f option" where
  "word_get (a, b, c, d) i =
     (if i = 0 then Some a else if i = 1 then Some b else if i = 2 then Some c
      else if i = 3 then Some d else None)"

fun word_set :: "'f word4 \<Rightarrow> nat \<Rightarrow> 'f \<Rightarrow> 'f word4 option" where
  "word_set (a, b, c, d) i x =
     (if i = 0 then Some (x, b, c, d) else if i = 1 then Some (a, x, c, d)
      else if i = 2 then Some (a, b, x, d) else if i = 3 then Some (a, b, c, x) else None)"

definition mem_get :: "'f word4 list \<Rightarrow> nat \<Rightarrow> nat \<Rightarrow> 'f option" where
  "mem_get m addr i = do { assert_that (addr < length m); word_get (m ! addr) i }"

definition mem_set :: "nat \<Rightarrow> nat \<Rightarrow> 'f \<Rightarrow> 'f word4 list \<Rightarrow> 'f word4 list option" where
  "mem_set addr i x m =
     do { assert_that (addr < length m); w \<leftarrow> word_set (m ! addr) i x; Some (m[addr := w]) }"

text \<open>\<open>u32::from_le_bytes\<close> of a chunk of at most four bytes, padded with zeroes.\<close>

fun u32_from_le_bytes :: "u8 list \<Rightarrow> u32" where
  "u32_from_le_bytes [] = 0"
| "u32_from_le_bytes (b # bs) = ucast b + 256 * u32_from_le_bytes bs"

fun write_chunks :: "'f felt_ops \<Rightarrow> u8 list \<Rightarrow> nat \<Rightarrow> 'f emulator \<Rightarrow> 'f emulator option" where
  "write_chunks F [] elem_idx em = Some em"
| "write_chunks F (b # bs) elem_idx em =
     do { let elem = u32_from_le_bytes (take 4 (b # bs));
          (elem_idx, em) \<leftarrow>
            (if elem_idx = 4 then do {
               hp \<leftarrow> u32_add (em_hp em) 1;
               assert_that (hp < em_lp em);
               Some (0, em\<lparr>em_hp := hp\<rparr>) }
             else Some (elem_idx, em));
          m \<leftarrow> mem_set (em_hp em) elem_idx (felt_new F (ucast elem)) (em_memory em);
          write_chunks F (drop 4 (b # bs)) (elem_idx + 1) (em\<lparr>em_memory := m\<rparr>) }"

definition write_bytes_to_memory :: "'f felt_ops \<Rightarrow> u8 list \<Rightarrow> 'f emulator \<Rightarrow> (nat \<times> 'f emulator) option" where
  "write_bytes_to_memory F value em =
     (if value = [] then Some (em_hp em, em)
      else do { em' \<leftarrow> write_chunks F value 0 em; Some (em_hp em, em') })"

definition malloc :: "nat \<Rightarrow> 'f emulator \<Rightarrow> (nat \<times> 'f emulator) option" where
  "malloc bytes em =
     (let addr = em_hp em in
      if bytes = 0 then Some (addr, em)
      else do {
        let sz = as_u32 bytes;
        let extra = sz mod 16;
        let words = sz div 16 + (if extra > 0 then 1 else 0);
        hp \<leftarrow> u32_add (em_hp em) words;
        assert_that (hp < em_lp em);
        ptr \<leftarrow> u32_mul addr 16;
        Some (ptr, em\<lparr>em_hp := hp\<rparr>) })"

definition store :: "nat \<Rightarrow> 'f \<Rightarrow> 'f emulator \<Rightarrow> 'f emulator option" where
  "store addr value em =
     do { addr \<leftarrow> to_u32 addr;
          let ptr = np_from_ptr addr;
          assert_that (np_offset ptr = 0);
          assert_that (np_waddr ptr < length (em_memory em));
          m \<leftarrow> mem_set (np_waddr ptr) (np_index ptr) value (em_memory em);
          Some (em\<lparr>em_memory := m\<rparr>) }"

section \<open>Instructions that use memory\<close>

text \<open>
  What one instruction does: either the activation goes on (\<open>Next\<close>) or \<open>step\<close> returns at once
  (\<open>Stop\<close>).  While an instruction runs, its activation is off the call stack.
\<close>

datatype 'f flow = Next "'f activation" "'f emulator" | Stop "'f emulator" "emulation_error + action"

definition pop_addr :: "'f felt_ops \<Rightarrow> 'f emulator \<Rightarrow> 'f list \<Rightarrow> (nat \<times> 'f list) option" where
  "pop_addr F em s =
     do { (a, s) \<leftarrow> pop_u32 F s;
          assert_that (unat a < length (em_memory em));
          Some (unat a, s) }"

definition hits_write :: "breakpoint option \<Rightarrow> nat \<Rightarrow> bool option" where
  "hits_write bp addr =
     (case bp of
        Some (BpMemoryWrite min_addr len) \<Rightarrow>
          do { max_addr \<leftarrow> usize_add min_addr len; Some (min_addr \<le> addr \<and> addr < max_addr) }
      | _ \<Rightarrow> Some False)"

text \<open>Put the instruction back, suspend the activation and report the breakpoint.\<close>

definition suspend_at_break :: "'f activation \<Rightarrow> 'f emulator \<Rightarrow> 'f flow option" where
  "suspend_at_break st em =
     do { st \<leftarrow> step_back st;
          Some (Stop (em\<lparr>em_callstack := st # em_callstack em\<rparr>) (Inl BreakpointHit)) }"

text \<open>
  The end of the store instructions: \<open>pushed\<close> is what is pushed back when the breakpoint is
  hit, \<open>m\<close> the memory afterwards when it is not.
\<close>

definition store_or_break :: "nat \<Rightarrow> 'f list \<Rightarrow> 'f list \<Rightarrow> 'f word4 list option \<Rightarrow> 'f activation \<Rightarrow>
    'f emulator \<Rightarrow> 'f flow option" where
  "store_or_break addr pushed s m st em =
     do { hit \<leftarrow> hits_write (em_bp em) addr;
          if hit then suspend_at_break st (em\<lparr>em_stack := s @ pushed\<rparr>)
          else do { m \<leftarrow> m; Some (Next st (em\<lparr>em_stack := s, em_memory := m\<rparr>)) } }"

primrec exec_mem_op :: "'f felt_ops \<Rightarrow> mem_op \<Rightarrow> 'f activation \<Rightarrow> 'f emulator \<Rightarrow> 'f flow option" where
  "exec_mem_op F (LocAddr lid) st em =
     do { addr \<leftarrow> u32_add (act_fp st) lid;
          assert_that (addr < as_u32 (length (em_memory em)));
          ptr \<leftarrow> u32_mul addr 16;
          Some (Next st (em\<lparr>em_stack := push_u32 F (of_nat ptr) (em_stack em)\<rparr>)) }"
| "exec_mem_op F MemLoad st em =
     do { (addr, s) \<leftarrow> pop_addr F em (em_stack em);
          x \<leftarrow> mem_get (em_memory em) addr 0;
          Some (Next st (em\<lparr>em_stack := vm_push x s\<rparr>)) }"
| "exec_mem_op F MemLoadOffset st em =
     do { (offset, s) \<leftarrow> pop_u32 F (em_stack em);
          assert_that (unat offset < 4);
          (addr, s) \<leftarrow> pop_addr F em s;
          x \<leftarrow> mem_get (em_memory em) addr (unat offset);
          Some (Next st (em\<lparr>em_stack := vm_push x s\<rparr>)) }"
| "exec_mem_op F (MemLoadImm addr) st em =
     do { x \<leftarrow> mem_get (em_memory em) (unat addr) 0;
          Some (Next st (em\<lparr>em_stack := vm_push x (em_stack em)\<rparr>)) }"
| "exec_mem_op F (MemLoadOffsetImm addr offset) st em =
     do { x \<leftarrow> mem_get (em_memory em) (unat addr) offset;
          Some (Next st (em\<lparr>em_stack := vm_push x (em_stack em)\<rparr>)) }"
| "exec_mem_op F MemLoadw st em =
     do { (addr, s) \<leftarrow> pop_addr F em (em_stack em);
          s \<leftarrow> vm_dropw s;
          Some (Next st (em\<lparr>em_stack := vm_pushw (em_memory em ! addr) s\<rparr>)) }"
| "exec_mem_op F (MemLoadwImm addr) st em =
     do { limit \<leftarrow> usize_sub (length (em_memory em)) 4;
          assert_that (unat addr < limit);
          s \<leftarrow> vm_dropw (em_stack em);
          Some (Next st (em\<lparr>em_stack := vm_pushw (em_memory em ! unat addr) s\<rparr>)) }"
| "exec_mem_op F MemStore st em =
     do { (addr, s) \<leftarrow> pop_addr F em (em_stack em);
          (value, s) \<leftarrow> pop1 s;
          store_or_break addr [value, felt_new F (of_nat addr)] s
            (mem_set addr 0 value (em_memory em)) st em }"
| "exec_mem_op F MemStoreOffset st em =
     do { (offset, s) \<leftarrow> pop_u32 F (em_stack em);
          assert_that (unat offset < 4);
          (addr, s) \<leftarrow> pop_addr F em s;
          (value, s) \<leftarrow> pop1 s;
          store_or_break addr [felt_new F (ucast offset), value, felt_new F (of_nat addr)] s
            (mem_set addr (unat offset) value (em_memory em)) st em }"
| "exec_mem_op F (MemStoreImm addr) st em =
     do { hit \<leftarrow> hits_write (em_bp em) (unat addr);
          if hit then suspend_at_break st em
          else do {
            assert_that (unat addr < length (em_memory em));
            (value, s) \<leftarrow> pop1 (em_stack em);
            m \<leftarrow> mem_set (unat addr) 0 value (em_memory em);
            Some (Next st (em\<lparr>em_stack := s, em_memory := m\<rparr>)) } }"
| "exec_mem_op F (MemStoreOffsetImm addr offset) st em =
     do { hit \<leftarrow> hits_write (em_bp em) (unat addr);
          if hit then suspend_at_break st em
          else do {
            assert_that (unat addr < length (em_memory em));
            (value, s) \<leftarrow> pop1 (em_stack em);
            m \<leftarrow> mem_set (unat addr) offset value (em_memory em);
            Some (Next st (em\<lparr>em_stack := s, em_memory := m\<rparr>)) } }"
| "exec_mem_op F MemStorew st em =
     do { (addr, s) \<leftarrow> pop_addr F em (em_stack em);
          w \<leftarrow> vm_peekw s;
          word \<leftarrow> w;
          store_or_break addr [felt_new F (of_nat addr)] s
            (Some ((em_memory em)[addr := word])) st em }"
| "exec_mem_op F (MemStorewImm addr) st em =
     do { hit \<leftarrow> hits_write (em_bp em) (unat addr);
          if hit then suspend_at_break st em
          else do {
            limit \<leftarrow> usize_sub (length (em_memory em)) 4;
            assert_that (unat addr < limit);
            w \<leftarrow> vm_peekw (em_stack em);
            word \<leftarrow> w;
            Some (Next st (em\<lparr>em_memory := (em_memory em)[unat addr := word]\<rparr>)) } }"

section \<open>Control flow\<close>

text \<open>At a control instruction, \<open>StepOver\<close> turns into a breakpoint behind it.\<close>

definition step_over :: "'f activation \<Rightarrow> 'f emulator \<Rightarrow> 'f emulator option" where
  "step_over st em =
     (if em_bp em = Some BpStepOver then do {
        (ip, jump) \<leftarrow> pending_ip st;
        Some (em\<lparr>em_bp := Some (BpStepUntil ip)\<rparr>) }
      else Some em)"

definition exec_if :: "'f felt_ops \<Rightarrow> block_id \<Rightarrow> block_id \<Rightarrow> 'f activation \<Rightarrow> 'f emulator \<Rightarrow> 'f flow option" where
  "exec_if F then_blk else_blk st em =
     do { em \<leftarrow> step_over st em;
          (cond, s) \<leftarrow> pop_bool F (em_stack em);
          Some (Next (enter_block (if cond then then_blk else else_blk) st) (em\<lparr>em_stack := s\<rparr>)) }"

definition exec_while :: "'f felt_ops \<Rightarrow> block_id \<Rightarrow> 'f activation \<Rightarrow> 'f emulator \<Rightarrow> 'f flow option" where
  "exec_while F body_blk st em =
     (if em_bp em = Some BpLoop then suspend_at_break st em
      else do {
        em \<leftarrow> step_over st em;
        (cond, s) \<leftarrow> pop_bool F (em_stack em);
        if cond then do {
          st \<leftarrow> enter_while_loop body_blk st;
          Some (Next st (em\<lparr>em_stack := s\<rparr>)) }
        else Some (Next st (em\<lparr>em_stack := s\<rparr>)) })"

definition exec_repeat :: "nat \<Rightarrow> block_id \<Rightarrow> 'f activation \<Rightarrow> 'f emulator \<Rightarrow> 'f flow option" where
  "exec_repeat n body_blk st em =
     (if em_bp em = Some BpLoop then suspend_at_break st em
      else do { em \<leftarrow> step_over st em; Some (Next (repeat_block body_blk n st) em) })"

definition exec_call :: "function_ident \<Rightarrow> 'f activation \<Rightarrow> 'f emulator \<Rightarrow> 'f flow option" where
  "exec_call callee st em =
     (case em_functions em callee of
        None \<Rightarrow> Some (Stop em (Inl (UndefinedFunction callee)))
      | Some (Native _) \<Rightarrow> None
      | Some (Asm f) \<Rightarrow> do {
          fp \<leftarrow> em_locals em (fn_name f);
          let callee_state = new_activation f fp;
          case em_bp em of
            Some (BpCall bp) \<Rightarrow>
              Some (Stop (em\<lparr>em_callstack := callee_state # st # em_callstack em\<rparr>)
                (if callee = bp then Inl BreakpointHit else Inr Suspend))
          | _ \<Rightarrow> do {
              em \<leftarrow> step_over st em;
              Some (Stop (em\<lparr>em_callstack := callee_state # st # em_callstack em\<rparr>)
                (Inr Suspend)) } })"

definition exec_instruction :: "'f felt_ops \<Rightarrow> 'f masm_op \<Rightarrow> 'f activation \<Rightarrow> 'f emulator \<Rightarrow> 'f flow option" where
  "exec_instruction F op st em =
     (case op of
        Mem o1 \<Rightarrow> exec_mem_op F o1 st em
      | OpIf then_blk else_blk \<Rightarrow> exec_if F then_blk else_blk st em
      | OpWhile body_blk \<Rightarrow> exec_while F body_blk st em
      | OpRepeat n body_blk \<Rightarrow> exec_repeat n body_blk st em
      | OpExec callee \<Rightarrow> exec_call callee st em
      | OpSyscall callee \<Rightarrow> None
      | OpClk \<Rightarrow>
          Some (Next st (em\<lparr>em_stack := vm_push (felt_new F (of_nat (em_clk em))) (em_stack em)\<rparr>))
      | _ \<Rightarrow> do { s \<leftarrow> exec_op F op (em_stack em); Some (Next st (em\<lparr>em_stack := s\<rparr>)) })"

section \<open>One step\<close>

definition breaks_at_jump :: "breakpoint option \<Rightarrow> jump \<Rightarrow> bool" where
  "breaks_at_jump bp jump =
     (case bp of
        Some BpStepOut \<Rightarrow> jump = JumpBranch
      | Some BpLoop \<Rightarrow> (case jump of JumpRepeat _ \<Rightarrow> True | _ \<Rightarrow> False)
      | _ \<Rightarrow> False)"

text \<open>The end of \<open>step\<close>: return from the function or suspend the activation.\<close>

definition finish_step :: "jump \<Rightarrow> 'f activation \<Rightarrow> 'f emulator \<Rightarrow> 'f emulator \<times> action" where
  "finish_step jump st em =
     (if jump = JumpReturn then (em, if em_callstack em = [] then Halt else Return)
      else (em\<lparr>em_callstack := st # em_callstack em\<rparr>, Suspend))"

definition step :: "'f felt_ops \<Rightarrow> 'f emulator \<Rightarrow> ('f emulator \<times> (emulation_error + action)) option" where
  "step F em =
     (case em_callstack em of
        [] \<Rightarrow> Some (em, Inr Halt)
      | act # rest \<Rightarrow> do {
          ((ix, jump), st) \<leftarrow> next_instruction act;
          let em = em\<lparr>em_callstack := rest\<rparr>;
          flow \<leftarrow>
            (case ix of
               None \<Rightarrow> Some (Next st em)
             | Some op \<Rightarrow>
                 if breaks_at_jump (em_bp em) jump then do {
                   st \<leftarrow> step_back st;
                   Some (Stop em (Inl BreakpointHit)) }
                 else exec_instruction F op st em);
          case flow of
            Stop em r \<Rightarrow> Some (em, r)
          | Next st em \<Rightarrow> (case finish_step jump st em of (em, a) \<Rightarrow> Some (em, Inr a)) })"

end
