(* ===== verification/EmuRun.thy ===== *)
theory EmuRun
  imports Emulator
begin

text \<open>
  The interpreter loop of the emulator, \<open>Emulator::run\<close>, with \<open>resume\<close> and \<open>invoke\<close>.  The loop
  is a total function: every iteration increments the cycle counter, whose overflow panics, and
  a chain of returns shortens the call stack.
\<close>

section \<open>What one step leaves alone\<close>

definition same_frame :: "'f emulator \<Rightarrow> 'f emulator \<Rightarrow> bool" where
  "same_frame em em' = (em_callstack em' = em_callstack em \<and> em_clk em' = em_clk em)"

lemma step_over_frame: "step_over st em = Some em' \<Longrightarrow> same_frame em em'"
  by (auto simp: step_over_def same_frame_def split: if_splits)

lemma suspend_at_break_flow:
  "suspend_at_break st em = Some flow \<Longrightarrow> \<exists>em'. flow = Stop em' (Inl BreakpointHit) \<and> em_clk em' = em_clk em"
  by (auto simp: suspend_at_break_def)

lemma store_or_break_flow:
  assumes "store_or_break addr pushed s m st em = Some flow"
  shows "(\<exists>st' em'. flow = Next st' em' \<and> same_frame em em') \<or>
    (\<exists>em'. flow = Stop em' (Inl BreakpointHit) \<and> em_clk em' = em_clk em)"
  using assms suspend_at_break_flow
  by (fastforce simp: store_or_break_def same_frame_def split: if_splits)

definition tame :: "'f emulator \<Rightarrow> 'f flow \<Rightarrow> bool" where
  "tame em flow =
     (case flow of
        Next st em' \<Rightarrow> same_frame em em'
      | Stop em' r \<Rightarrow> em_clk em' = em_clk em \<and> (\<forall>a. r = Inr a \<longrightarrow> a = Suspend))"

lemma suspend_at_break_tame: "suspend_at_break st em = Some flow \<Longrightarrow> tame em flow"
  by (auto simp: suspend_at_break_def tame_def)

lemma store_or_break_tame: "store_or_break addr pushed s m st em = Some flow \<Longrightarrow> tame em flow"
  by (auto simp: store_or_break_def tame_def same_frame_def suspend_at_break_def split: if_splits)

lemma exec_mem_op_tame: "exec_mem_op F op st em = Some flow \<Longrightarrow> tame em flow"
  by (cases op)
    (auto dest!: store_or_break_tame suspend_at_break_tame
      simp: tame_def same_frame_def split: if_splits flow.splits)

lemma exec_if_tame: "exec_if F t e st em = Some flow \<Longrightarrow> tame em flow"
  by (auto simp: exec_if_def tame_def same_frame_def dest!: step_over_frame)

lemma exec_while_tame: "exec_while F b st em = Some flow \<Longrightarrow> tame em flow"
  by (auto simp: exec_while_def tame_def same_frame_def suspend_at_break_def
      dest!: step_over_frame split: if_splits)

lemma exec_repeat_tame: "exec_repeat n b st em = Some flow \<Longrightarrow> tame em flow"
  by (auto simp: exec_repeat_def tame_def same_frame_def suspend_at_break_def
      dest!: step_over_frame split: if_splits)

lemma exec_call_tame: "exec_call callee st em = Some flow \<Longrightarrow> tame em flow"
  by (auto simp: exec_call_def Let_def tame_def same_frame_def dest!: step_over_frame
      split: option.splits stub.splits breakpoint.splits if_splits)

lemma exec_instruction_tame:
  assumes "exec_instruction F op st em = Some flow"
  shows "tame em flow"
proof (cases op)
  case (Mem x)
  with assms show ?thesis by (auto simp: exec_instruction_def intro: exec_mem_op_tame)
next
  case (OpIf t e)
  with assms show ?thesis by (auto simp: exec_instruction_def intro: exec_if_tame)
next
  case (OpWhile b)
  with assms show ?thesis by (auto simp: exec_instruction_def intro: exec_while_tame)
next
  case (OpRepeat n b)
  with assms show ?thesis by (auto simp: exec_instruction_def intro: exec_repeat_tame)
next
  case (OpExec f)
  with assms show ?thesis by (auto simp: exec_instruction_def intro: exec_call_tame)
qed (use assms in \<open>auto simp: exec_instruction_def tame_def same_frame_def\<close>)

lemma step_clk:
  assumes "step F em = Some (em', r)"
  shows "em_clk em' = em_clk em"
proof (cases "em_callstack em")
  case Nil
  with assms show ?thesis by (simp add: step_def)
next
  case (Cons act rest)
  with assms show ?thesis
    by (auto simp: step_def finish_step_def Let_def tame_def same_frame_def dest!: exec_instruction_tame
        split: option.splits flow.splits if_splits)
qed

lemma step_Return:
  assumes "step F em = Some (em', Inr Return)"
  shows "em_callstack em \<noteq> [] \<and> em_callstack em' = tl (em_callstack em)"
proof (cases "em_callstack em")
  case Nil
  with assms show ?thesis by (simp add: step_def)
next
  case (Cons act rest)
  with assms show ?thesis
    by (auto simp: step_def finish_step_def Let_def tame_def same_frame_def dest!: exec_instruction_tame
        split: option.splits flow.splits if_splits)
qed

section \<open>The loop\<close>

text \<open>
  \<open>Continue\<close> is \<open>continue 'outer\<close>, \<open>Break\<close> is \<open>break 'outer\<close>, \<open>Fail e\<close> is \<open>return Err(e)\<close>.
\<close>

datatype outcome = Continue | Break | Fail emulation_error

definition handle_suspend :: "nat \<Rightarrow> 'f emulator \<Rightarrow> ('f emulator \<times> outcome) option" where
  "handle_suspend step_until_cycle em =
     (case em_bp em of
        Some BpStep \<Rightarrow> Some (em, Fail BreakpointHit)
      | Some BpStepOver \<Rightarrow> Some (em, Fail BreakpointHit)
      | Some BpStepOnce \<Rightarrow> Some (em\<lparr>em_bp := None\<rparr>, Fail BreakpointHit)
      | Some (BpStepN _) \<Rightarrow>
          if em_clk em \<ge> step_until_cycle then Some (em, Fail BreakpointHit)
          else Some (em, Continue)
      | Some (BpStepUntil ip) \<Rightarrow>
          (case em_callstack em of
             [] \<Rightarrow> Some (em, Continue)
           | act # _ \<Rightarrow> do {
               (pending, jump) \<leftarrow> pending_ip act;
               if pending = ip then Some (em\<lparr>em_bp := None\<rparr>, Fail BreakpointHit)
               else Some (em, Continue) })
      | _ \<Rightarrow> Some (em, Continue))"

function handle_action :: "'f felt_ops \<Rightarrow> nat \<Rightarrow> action \<Rightarrow> 'f emulator \<Rightarrow> ('f emulator \<times> outcome) option" where
  "handle_action F lim Halt em = Some (em, Break)"
| "handle_action F lim Suspend em = handle_suspend lim em"
| "handle_action F lim Return em =
     (case em_callstack em of
        [] \<Rightarrow> Some (em, Break)
      | act # _ \<Rightarrow> do {
          (ip, jump) \<leftarrow> pending_ip act;
          if jump = JumpReturn then
            (case step F em of
               None \<Rightarrow> None
             | Some (em', Inl e) \<Rightarrow> Some (em', Fail e)
             | Some (em', Inr a) \<Rightarrow> handle_action F lim a em')
          else handle_suspend lim em })"
  by pat_completeness auto
termination
proof (relation "measure (\<lambda>(F, lim, a, em). if a = Return then Suc (length (em_callstack em)) else 0)",
    goal_cases)
  case (2 F lim em act cs x ip jump p em' r a)
  then show ?case
    by (cases a) (auto dest!: step_Return)
qed simp

lemma handle_suspend_clk: "handle_suspend lim em = Some (em', out) \<Longrightarrow> em_clk em' = em_clk em"
  by (auto simp: handle_suspend_def split: option.splits breakpoint.splits if_splits list.splits)

lemma handle_action_clk: "handle_action F lim a em = Some (em', out) \<Longrightarrow> em_clk em' = em_clk em"
proof (induction F lim a em rule: handle_action.induct)
  case (3 F lim em)
  show ?case
  proof (cases "em_callstack em")
    case Nil
    with 3 show ?thesis by simp
  next
    case (Cons act cs)
    with "3.prems" "3.IH" [OF Cons] show ?thesis
      by (fastforce dest: handle_suspend_clk step_clk split: option.splits sum.splits if_splits)
  qed
qed (auto dest: handle_suspend_clk)

text \<open>
  One dispatch of an instruction.  While resuming, the breakpoints on loops and memory writes
  are off for one step; an error of that step leaves them off.
\<close>

definition dispatch :: "'f felt_ops \<Rightarrow> bool \<Rightarrow> 'f emulator \<Rightarrow>
    ('f emulator \<times> (emulation_error + action)) option" where
  "dispatch F resuming em =
     (if resuming \<and> (case em_bp em of Some BpLoop \<Rightarrow> True | Some (BpMemoryWrite _ _) \<Rightarrow> True | _ \<Rightarrow> False)
      then do {
        (em', r) \<leftarrow> step F (em\<lparr>em_bp := None\<rparr>);
        case r of Inl e \<Rightarrow> Some (em', Inl e) | Inr a \<Rightarrow> Some (em'\<lparr>em_bp := em_bp em\<rparr>, Inr a) }
      else step F em)"

lemma dispatch_clk: "dispatch F resuming em = Some (em', r) \<Longrightarrow> em_clk em' = em_clk em"
  by (auto simp: dispatch_def dest!: step_clk split: if_splits sum.splits)

function run_loop :: "'f felt_ops \<Rightarrow> nat \<Rightarrow> bool \<Rightarrow> 'f emulator \<Rightarrow>
    ('f emulator \<times> (emulation_error + unit)) option" where
  "run_loop F lim resuming em =
     (if em_clk em \<ge> usize_MAX then None
      else
        let em = em\<lparr>em_clk := em_clk em + 1\<rparr> in
        if em_clk em > em_clk_limit em then Some (em, Inl CycleBudgetExceeded)
        else
          (case dispatch F resuming em of
             None \<Rightarrow> None
           | Some (em, Inl e) \<Rightarrow> Some (em, Inl e)
           | Some (em, Inr a) \<Rightarrow>
               (case handle_action F lim a em of
                  None \<Rightarrow> None
                | Some (em, Break) \<Rightarrow> Some (em, Inr ())
                | Some (em, Fail e) \<Rightarrow> Some (em, Inl e)
                | Some (em, Continue) \<Rightarrow> run_loop F lim False em)))"
  by pat_completeness auto
termination
  by (relation "measure (\<lambda>(F, lim, resuming, em). usize_MAX - em_clk em)")
    (auto dest!: dispatch_clk handle_action_clk)

declare run_loop.simps [simp del]

definition run :: "'f felt_ops \<Rightarrow> bool \<Rightarrow> 'f emulator \<Rightarrow>
    ('f emulator \<times> (emulation_error + unit)) option" where
  "run F resuming em =
     do { step_until_cycle \<leftarrow>
            (case em_bp em of
               Some (BpStepN n) \<Rightarrow> do { k \<leftarrow> usize_sub n 1; usize_add (em_clk em) k }
             | _ \<Rightarrow> Some usize_MAX);
          run_loop F step_until_cycle resuming em }"

definition resume :: "'f felt_ops \<Rightarrow> 'f emulator \<Rightarrow> ('f emulator \<times> (emulation_error + 'f list)) option" where
  "resume F em =
     do { (em, r) \<leftarrow> run F True em;
          case r of Inl e \<Rightarrow> Some (em, Inl e) | Inr _ \<Rightarrow> Some (em, Inr (em_stack em)) }"

definition invoke_function :: "'f felt_ops \<Rightarrow> 'f masm_function \<Rightarrow> 'f list \<Rightarrow> 'f emulator \<Rightarrow>
    ('f emulator \<times> (emulation_error + 'f list)) option" where
  "invoke_function F f args em =
     do { assert_that (length args = fn_arity f);
          let em = em\<lparr>em_stack := fold vm_push (rev args) (em_stack em)\<rparr>;
          fp \<leftarrow> em_locals em (fn_name f);
          let em = em\<lparr>em_callstack := new_activation f fp # em_callstack em\<rparr>;
          if em_bp em = Some BpStep \<or> em_bp em = Some (BpCall (fn_name f))
          then Some (em, Inl BreakpointHit)
          else resume F em }"

text \<open>\<open>nif k\<close> is the closure that was loaded under the number \<open>k\<close>.\<close>

definition invoke :: "'f felt_ops \<Rightarrow>
    (nat \<Rightarrow> 'f emulator \<Rightarrow> 'f list \<Rightarrow> ('f emulator \<times> (emulation_error + unit)) option) \<Rightarrow>
    function_ident \<Rightarrow> 'f list \<Rightarrow> 'f emulator \<Rightarrow> ('f emulator \<times> (emulation_error + 'f list)) option" where
  "invoke F nif callee args em =
     (case em_functions em callee of
        None \<Rightarrow> Some (em, Inl (UndefinedFunction callee))
      | Some (Asm f) \<Rightarrow> invoke_function F f args em
      | Some (Native k) \<Rightarrow> do {
          (em, r) \<leftarrow> nif k em args;
          case r of Inl e \<Rightarrow> Some (em, Inl e) | Inr _ \<Rightarrow> Some (em, Inr (em_stack em)) })"

end
