(* ===== verification/EmuRefine.thy ===== *)
theory EmuRefine
  imports EmuRun
begin

text \<open>
  What the emulator computes, without its instruction pointers: the continuation of an
  activation is the flat list of the instructions that are still to run, and one step of the
  emulator executes the first of them.  Blocks entered by \<open>if.true\<close> and \<open>while.true\<close> are
  spliced in front; \<open>repeat.n\<close> splices \<open>n\<close> copies of its body, as the instruction is documented.
  The emulator does not follow the documentation there: it executes \<open>repeat.n\<close> as the documented
  machine executes \<open>repeat.(n + 1)\<close>, and as the documented machine everywhere else.

  The development covers functions without calls in which the body of a \<open>repeat.n\<close>, with
  \<open>n < 255\<close>, is non-empty straight-line code; the emulator loses the counter of a \<open>repeat.n\<close> in
  whose body another block ends.
\<close>

section \<open>Continuations\<close>

definition blk :: "'f masm_function \<Rightarrow> block_id \<Rightarrow> 'f masm_op list" where
  "blk f b = (if b < length (fn_blocks f) then fn_blocks f ! b else [])"

definition rest_of :: "'f masm_function \<Rightarrow> instruction_pointer \<Rightarrow> 'f masm_op list" where
  "rest_of f ip = drop (ip_index ip) (blk f (ip_block ip))"

definition pending_repeats :: "'f activation \<Rightarrow> 'f masm_op list" where
  "pending_repeats st =
     (case act_repeat_stack st of
        Some (c, n) # _ \<Rightarrow>
          concat (replicate (Suc n - c) (blk (act_function st) (ip_block (act_ip st))))
      | _ \<Rightarrow> [])"

definition continuation :: "'f activation \<Rightarrow> 'f masm_op list" where
  "continuation st =
     rest_of (act_function st) (act_ip st) @ pending_repeats st @
     concat (map (rest_of (act_function st)) (act_ip_stack st))"

text \<open>Instructions without control flow.\<close>

definition straight :: "'f masm_op \<Rightarrow> bool" where
  "straight op =
     (case op of
        OpIf _ _ \<Rightarrow> False | OpWhile _ \<Rightarrow> False | OpRepeat _ _ \<Rightarrow> False
      | OpExec _ \<Rightarrow> False | OpSyscall _ \<Rightarrow> False | _ \<Rightarrow> True)"

definition op_wf :: "'f masm_function \<Rightarrow> 'f masm_op \<Rightarrow> bool" where
  "op_wf f op =
     (case op of
        OpIf t e \<Rightarrow> t < length (fn_blocks f) \<and> e < length (fn_blocks f)
      | OpWhile b \<Rightarrow> b < length (fn_blocks f)
      | OpRepeat n b \<Rightarrow> n < 255 \<and> b < length (fn_blocks f) \<and> blk f b \<noteq> [] \<and> list_all straight (blk f b)
      | OpExec _ \<Rightarrow> False | OpSyscall _ \<Rightarrow> False | _ \<Rightarrow> True)"

definition fn_wf :: "'f masm_function \<Rightarrow> bool" where
  "fn_wf f = (fn_body f < length (fn_blocks f) \<and> list_all (list_all (op_wf f)) (fn_blocks f))"

definition ip_wf :: "'f masm_function \<Rightarrow> instruction_pointer \<Rightarrow> bool" where
  "ip_wf f ip = (ip_block ip < length (fn_blocks f) \<and> ip_index ip \<le> length (blk f (ip_block ip)))"

definition repeats_wf :: "'f activation \<Rightarrow> bool" where
  "repeats_wf st =
     ((\<forall>r \<in> set (tl (act_repeat_stack st)). r = None) \<and>
      (case act_repeat_stack st of
         Some (c, n) # _ \<Rightarrow>
           n < 255 \<and> blk (act_function st) (ip_block (act_ip st)) \<noteq> [] \<and>
           list_all straight (blk (act_function st) (ip_block (act_ip st)))
       | _ \<Rightarrow> True))"

definition act_wf :: "'f activation \<Rightarrow> bool" where
  "act_wf st =
     (fn_wf (act_function st) \<and> ip_wf (act_function st) (act_ip st) \<and>
      (\<forall>ip \<in> set (act_ip_stack st). ip_wf (act_function st) ip) \<and> repeats_wf st)"

lemma op_at_rest:
  "ip_wf f ip \<Longrightarrow> op_at f ip = Some (case rest_of f ip of [] \<Rightarrow> None | op # _ \<Rightarrow> Some op)"
  by (auto simp: op_at_def fn_block_def bind_assert_that ip_wf_def rest_of_def blk_def
      Cons_nth_drop_Suc [symmetric])

lemma rest_of_next:
  "rest_of f ip = op # k \<Longrightarrow> rest_of f (IP (ip_block ip) (Suc (ip_index ip))) = k"
  by (metis drop_Suc instruction_pointer.sel list.sel(3) rest_of_def tl_drop)

lemma ip_wf_next:
  "ip_wf f ip \<Longrightarrow> rest_of f ip = op # k \<Longrightarrow> ip_wf f (IP (ip_block ip) (Suc (ip_index ip)))"
  by (auto simp: ip_wf_def rest_of_def) (metis drop_all linorder_not_less list.distinct(1) Suc_leI)

text \<open>What an instruction that has just been fetched looks like from its activation.\<close>

definition fetched :: "'f masm_op \<Rightarrow> 'f activation \<Rightarrow> bool" where
  "fetched op st =
     (\<exists>b i. act_ip st = IP b (Suc i) \<and> rest_of (act_function st) (IP b i) =
        op # rest_of (act_function st) (IP b (Suc i)) \<and> ip_wf (act_function st) (IP b i))"

lemma resume_parent_Nil:
  assumes "\<forall>ip \<in> set ips. ip_wf (act_function st) ip"
    "concat (map (rest_of (act_function st)) ips) = []"
  shows "\<exists>st'. resume_parent st ips = Some ((None, JumpReturn), st')"
  using assms
proof (induction ips arbitrary: st)
  case (Cons ip ips)
  with Cons.IH [of "st\<lparr>act_ip := ip\<rparr>"] show ?case
    by (simp add: op_at_rest)
qed simp

lemma resume_parent_Cons:
  assumes "\<forall>ip \<in> set ips. ip_wf (act_function st) ip"
    "concat (map (rest_of (act_function st)) ips) = op # k"
  shows "\<exists>b i ips'. resume_parent st ips =
      Some ((Some op, JumpBranch), st\<lparr>act_ip := IP b (Suc i), act_ip_stack := ips'\<rparr>) \<and>
    set ips' \<subseteq> set ips \<and> ip_wf (act_function st) (IP b i) \<and>
    rest_of (act_function st) (IP b i) = op # rest_of (act_function st) (IP b (Suc i)) \<and>
    k = rest_of (act_function st) (IP b (Suc i)) @ concat (map (rest_of (act_function st)) ips')"
  using assms
proof (induction ips arbitrary: st)
  case (Cons ip ips)
  then have wf: "ip_wf (act_function st) ip" by simp
  show ?case
  proof (cases "rest_of (act_function st) ip")
    case Nil
    with Cons.prems have "concat (map (rest_of (act_function st)) ips) = op # k" by simp
    with Cons.IH [of "st\<lparr>act_ip := ip\<rparr>"] Cons.prems(1) obtain b i ips' where
      "resume_parent (st\<lparr>act_ip := ip\<rparr>) ips =
        Some ((Some op, JumpBranch), st\<lparr>act_ip := IP b (Suc i), act_ip_stack := ips'\<rparr>)"
      "set ips' \<subseteq> set ips" "ip_wf (act_function st) (IP b i)"
      "rest_of (act_function st) (IP b i) = op # rest_of (act_function st) (IP b (Suc i))"
      "k = rest_of (act_function st) (IP b (Suc i)) @ concat (map (rest_of (act_function st)) ips')"
      by auto
    with Nil wf show ?thesis
      by (intro exI [of _ b] exI [of _ i] exI [of _ ips']) (auto simp: op_at_rest)
  next
    case (Cons op' k')
    with wf Cons.prems rest_of_next [OF Cons] show ?thesis
      by (intro exI [of _ "ip_block ip"] exI [of _ "ip_index ip"] exI [of _ ips])
        (auto simp: op_at_rest)
  qed
qed simp

section \<open>Fetching\<close>

lemma fetched_D:
  "fetched op st \<Longrightarrow> ip_wf (act_function st) (act_ip st)"
  by (auto simp: fetched_def intro: ip_wf_next [of _ "IP b i" for b i, simplified])

text \<open>The activation after a fetch: \<open>k\<close> is its continuation and all its invariants hold.\<close>

definition after_fetch :: "'f activation \<Rightarrow> 'f masm_op \<Rightarrow> 'f masm_op list \<Rightarrow> 'f activation \<Rightarrow> bool" where
  "after_fetch st op k st' =
     (act_function st' = act_function st \<and> act_fp st' = act_fp st \<and> act_wf st' \<and>
      continuation st' = k \<and> fetched op st' \<and>
      (\<not> straight op \<longrightarrow> (\<forall>r \<in> set (act_repeat_stack st'). r = None)))"

lemma next_instruction_Nil:
  assumes "act_wf st" "continuation st = []"
  shows "\<exists>st'. next_instruction st = Some ((None, JumpReturn), st')"
proof -
  let ?f = "act_function st"
  have code: "fn_block ?f (ip_block (act_ip st)) = Some (blk ?f (ip_block (act_ip st)))"
    using assms(1) by (simp add: act_wf_def ip_wf_def fn_block_def blk_def)
  have "rest_of ?f (act_ip st) = []" and rep: "pending_repeats st = []"
    and up: "concat (map (rest_of ?f) (act_ip_stack st)) = []"
    using assms(2) by (simp_all add: continuation_def)
  then have idx: "ip_index (act_ip st) = length (blk ?f (ip_block (act_ip st)))"
    using assms(1) by (simp add: act_wf_def ip_wf_def rest_of_def)
  have wf: "\<forall>ip \<in> set (act_ip_stack st). ip_wf ?f ip"
    using assms(1) by (simp add: act_wf_def)
  have resume: "\<exists>st'. resume_parent (st\<lparr>act_repeat_stack := rs\<rparr>) (act_ip_stack st) =
      Some ((None, JumpReturn), st')" for rs
    using resume_parent_Nil [of "act_ip_stack st" "st\<lparr>act_repeat_stack := rs\<rparr>"] wf up by simp
  show ?thesis
  proof (cases "act_repeat_stack st")
    case Nil
    with code idx resume_parent_Nil [OF wf up] show ?thesis by (simp add: next_instruction_def)
  next
    case (Cons r rs)
    show ?thesis
    proof (cases r)
      case None
      with Cons code idx resume [of rs] show ?thesis by (simp add: next_instruction_def)
    next
      case (Some cn)
      obtain c n where cn: "cn = (c, n)" by (cases cn)
      with Some Cons rep assms(1) have "n < c"
        by (auto simp: pending_repeats_def act_wf_def repeats_wf_def)
      with Some Cons cn code idx resume [of rs] show ?thesis by (simp add: next_instruction_def)
    qed
  qed
qed

lemma after_resume:
  assumes wf: "act_wf st" and rs: "\<forall>r \<in> set rs. r = None"
    and k: "concat (map (rest_of (act_function st)) (act_ip_stack st)) = op # k"
  shows "\<exists>st'. resume_parent (st\<lparr>act_repeat_stack := rs\<rparr>) (act_ip_stack st) =
      Some ((Some op, JumpBranch), st') \<and> after_fetch st op k st'"
proof -
  let ?st = "st\<lparr>act_repeat_stack := rs\<rparr>"
  have "\<forall>ip \<in> set (act_ip_stack st). ip_wf (act_function ?st) ip"
    using wf by (simp add: act_wf_def)
  from resume_parent_Cons [OF this, of op k] k obtain b i ips' where
    eq: "resume_parent ?st (act_ip_stack st) =
      Some ((Some op, JumpBranch), ?st\<lparr>act_ip := IP b (Suc i), act_ip_stack := ips'\<rparr>)"
    and sub: "set ips' \<subseteq> set (act_ip_stack st)" and ip: "ip_wf (act_function st) (IP b i)"
    and rest: "rest_of (act_function st) (IP b i) = op # rest_of (act_function st) (IP b (Suc i))"
    and k': "k = rest_of (act_function st) (IP b (Suc i)) @
      concat (map (rest_of (act_function st)) ips')"
    by auto
  let ?st' = "?st\<lparr>act_ip := IP b (Suc i), act_ip_stack := ips'\<rparr>"
  have "pending_repeats ?st' = []"
    using rs by (auto simp: pending_repeats_def split: list.splits)
  moreover have "repeats_wf ?st'"
    using rs by (auto simp: repeats_wf_def split: list.splits option.splits)
  moreover have "ip_wf (act_function st) (IP b (Suc i))"
    using ip_wf_next [OF ip rest] by simp
  ultimately have "after_fetch st op k ?st'"
    using wf rs sub ip rest k'
    by (auto simp: after_fetch_def act_wf_def continuation_def fetched_def)
  with eq show ?thesis by blast
qed

lemma next_instruction_Cons:
  assumes wf: "act_wf st" and op: "continuation st = op # k"
  shows "\<exists>j st'. next_instruction st = Some ((Some op, j), st') \<and> j \<noteq> JumpReturn \<and>
    after_fetch st op k st'"
proof -
  let ?f = "act_function st" and ?ip = "act_ip st"
  let ?code = "blk ?f (ip_block ?ip)"
  have ip: "ip_wf ?f ?ip" and rep: "repeats_wf st"
    using wf by (simp_all add: act_wf_def)
  have code: "fn_block ?f (ip_block ?ip) = Some ?code"
    using ip by (simp add: ip_wf_def fn_block_def blk_def)
  show ?thesis
  proof (cases "rest_of ?f ?ip")
    case (Cons op' r)
    with op have op': "op' = op" and k: "k = r @ pending_repeats st @
        concat (map (rest_of ?f) (act_ip_stack st))"
      by (auto simp: continuation_def)
    have idx: "ip_index ?ip < length ?code" and in_code: "op \<in> set ?code"
      using Cons op' by (auto simp: rest_of_def intro: in_set_dropD [of _ "ip_index ?ip"]
          dest: arg_cong [of _ _ length])
    let ?st' = "st\<lparr>act_ip := IP (ip_block ?ip) (Suc (ip_index ?ip))\<rparr>"
    have rest: "rest_of ?f ?ip = op # rest_of ?f (IP (ip_block ?ip) (Suc (ip_index ?ip)))"
      using Cons rest_of_next [OF Cons] op' by simp
    have "pending_repeats ?st' = pending_repeats st" "repeats_wf ?st'"
      using rep
      by (auto simp: pending_repeats_def repeats_wf_def split: list.splits option.splits)
    moreover have "r' = None" if "\<not> straight op" "r' \<in> set (act_repeat_stack st)" for r'
      using that rep in_code
      by (cases "act_repeat_stack st")
        (auto simp: repeats_wf_def list_all_iff split: option.splits)
    ultimately have "after_fetch st op k ?st'"
      using wf Cons op' k rest ip_wf_next [OF ip Cons] ip
      by (auto simp: after_fetch_def act_wf_def continuation_def fetched_def
          intro!: exI [of _ "ip_block ?ip"] exI [of _ "ip_index ?ip"])
    moreover have "next_instruction st = Some ((Some op, JumpNone), ?st')"
      using code idx Cons op' op_at_rest [OF ip] by (simp add: next_instruction_def)
    ultimately show ?thesis by (intro exI conjI) (assumption, simp, assumption)
  next
    case Nil
    then have idx: "ip_index ?ip = length ?code"
      using ip by (simp add: ip_wf_def rest_of_def)
    have tl: "\<forall>r \<in> set (tl (act_repeat_stack st)). r = None"
      using rep by (simp add: repeats_wf_def)
    show ?thesis
    proof (cases "pending_repeats st")
      case (Cons op' r)
      then obtain c n rs where rs: "act_repeat_stack st = Some (c, n) # rs"
        by (auto simp: pending_repeats_def split: list.splits option.splits)
      have c: "c \<le> n"
        by (rule ccontr) (use Cons rs in \<open>simp add: pending_repeats_def\<close>)
      have n: "n < 255" and straight: "list_all straight ?code" and ne: "?code \<noteq> []"
        using rep rs by (simp_all add: repeats_wf_def)
      then obtain code' where code': "?code = op # code'"
        using op Nil c rs
        by (cases ?code) (auto simp: continuation_def pending_repeats_def Suc_diff_le)
      let ?st' = "st\<lparr>act_repeat_stack := Some (Suc c, n) # rs, act_ip := IP (ip_block ?ip) 1\<rparr>"
      have "k = code' @ pending_repeats ?st' @ concat (map (rest_of ?f) (act_ip_stack st))"
        using op Nil c rs code' by (simp add: continuation_def pending_repeats_def Suc_diff_le)
      then have "after_fetch st op k ?st'"
        using wf rs n straight code' ip tl
        by (auto simp: after_fetch_def act_wf_def continuation_def fetched_def repeats_wf_def
            rest_of_def ip_wf_def intro!: exI [of _ "ip_block ?ip"] exI [of _ "0 :: nat"])
      moreover have "next_instruction st = Some ((Some op, JumpRepeat c), ?st')"
        using code idx rs c n code' by (simp add: next_instruction_def u8_add_def)
      ultimately show ?thesis by (intro exI conjI) (assumption, simp, assumption)
    next
      case Nil': Nil
      with op Nil have up: "concat (map (rest_of ?f) (act_ip_stack st)) = op # k"
        by (simp add: continuation_def)
      have same: "st\<lparr>act_repeat_stack := []\<rparr> = st" if "act_repeat_stack st = []"
        using that by (cases st) simp
      have "next_instruction st =
          resume_parent (st\<lparr>act_repeat_stack := tl (act_repeat_stack st)\<rparr>) (act_ip_stack st)"
        using code idx Nil' rep
        by (cases "act_repeat_stack st")
          (auto simp: next_instruction_def pending_repeats_def repeats_wf_def Suc_diff_le same
            split: option.splits)
      with after_resume [OF wf tl up] show ?thesis by auto
    qed
  qed
qed

section \<open>The abstract machine\<close>

text \<open>
  \<open>cstep\<close> executes the instruction \<open>op\<close> in front of the continuation \<open>k\<close> as it is documented; in
  particular \<open>repeat.n\<close> evaluates its body \<open>n\<close> times.  \<open>crun\<close> runs a
  continuation to its end and counts cycles as the emulator does: one for each instruction and
  one for noticing that no code is left.
\<close>

definition cstep :: "'f felt_ops \<Rightarrow> 'f masm_function \<Rightarrow> nat \<Rightarrow> 'f masm_op \<Rightarrow> 'f masm_op list \<Rightarrow>
    'f emulator \<Rightarrow> ('f masm_op list \<times> 'f emulator) option" where
  "cstep F f fp op k em =
     (case op of
        OpIf t e \<Rightarrow> do {
          (cond, s) \<leftarrow> pop_bool F (em_stack em);
          Some (blk f (if cond then t else e) @ k, em\<lparr>em_stack := s\<rparr>) }
      | OpWhile b \<Rightarrow> do {
          (cond, s) \<leftarrow> pop_bool F (em_stack em);
          Some (if cond then blk f b @ OpWhile b # k else k, em\<lparr>em_stack := s\<rparr>) }
      | OpRepeat n b \<Rightarrow> Some (concat (replicate n (blk f b)) @ k, em)
      | OpExec _ \<Rightarrow> None
      | OpSyscall _ \<Rightarrow> None
      | OpClk \<Rightarrow> Some (k, em\<lparr>em_stack := vm_push (felt_new F (of_nat (em_clk em))) (em_stack em)\<rparr>)
      | Mem o1 \<Rightarrow> do {
          flow \<leftarrow> exec_mem_op F o1 (new_activation f fp) em;
          case flow of Next _ em \<Rightarrow> Some (k, em) | Stop _ _ \<Rightarrow> None }
      | _ \<Rightarrow> do { s \<leftarrow> exec_op F op (em_stack em); Some (k, em\<lparr>em_stack := s\<rparr>) })"

fun crun :: "'f felt_ops \<Rightarrow> 'f masm_function \<Rightarrow> nat \<Rightarrow> nat \<Rightarrow> 'f masm_op list \<Rightarrow> 'f emulator \<Rightarrow>
    'f emulator option" where
  "crun F f fp n [] em = Some (em\<lparr>em_clk := em_clk em + 1\<rparr>)"
| "crun F f fp 0 (op # k) em = None"
| "crun F f fp (Suc n) (op # k) em =
     do { (k', em') \<leftarrow> cstep F f fp op k (em\<lparr>em_clk := em_clk em + 1\<rparr>);
          crun F f fp n k' em' }"

text \<open>
  The one deviation of the emulator: a \<open>repeat\<close> that counts one more.  \<open>once_more_fn\<close> is the
  function with every \<open>repeat.n\<close> replaced by \<open>repeat.(n + 1)\<close>.
\<close>

definition once_more :: "'f masm_op \<Rightarrow> 'f masm_op" where
  "once_more op = (case op of OpRepeat n b \<Rightarrow> OpRepeat (n + 1) b | _ \<Rightarrow> op)"

definition once_more_fn :: "'f masm_function \<Rightarrow> 'f masm_function" where
  "once_more_fn f = f\<lparr>fn_blocks := map (map once_more) (fn_blocks f)\<rparr>"

lemma blk_once_more [simp]: "blk (once_more_fn f) b = map once_more (blk f b)"
  by (simp add: blk_def once_more_fn_def)

lemma fn_body_once_more [simp]: "fn_body (once_more_fn f) = fn_body f"
  by (simp add: once_more_fn_def)

lemma once_more_other: "(\<And>n b. op \<noteq> OpRepeat n b) \<Longrightarrow> once_more op = op"
  by (cases op) (auto simp: once_more_def)

text \<open>A function without \<open>repeat\<close> is its own.\<close>

lemma once_more_fn_other:
  assumes "\<And>ops n b. ops \<in> set (fn_blocks f) \<Longrightarrow> OpRepeat n b \<notin> set ops"
  shows "once_more_fn f = f"
proof -
  have "map once_more ops = ops" if "ops \<in> set (fn_blocks f)" for ops
    using assms [OF that] by (intro map_idI once_more_other) auto
  then have "map (map once_more) (fn_blocks f) = fn_blocks f" by (rule map_idI)
  then show ?thesis by (simp add: once_more_fn_def)
qed

section \<open>Simulation\<close>

lemma exec_mem_op_cases:
  assumes "em_bp em = None" "act_fp st = act_fp st0"
  shows "exec_mem_op F op st em = None \<and> exec_mem_op F op st0 em = None \<or>
    (\<exists>em'. exec_mem_op F op st em = Some (Next st em') \<and>
       exec_mem_op F op st0 em = Some (Next st0 em') \<and> em_bp em' = None)"
  using assms
  by (cases op)
    (auto simp: store_or_break_def hits_write_def bind_assert_that Let_def
      split: Option.bind_split if_splits)

lemma enter_block_continuation:
  assumes "act_wf st" "b < length (fn_blocks (act_function st))"
    "\<forall>r \<in> set (act_repeat_stack st). r = None"
  shows "act_wf (enter_block b st)"
    "continuation (enter_block b st) = blk (act_function st) b @ continuation st"
proof -
  have "pending_repeats st = []" "pending_repeats (enter_block b st) = []"
    using assms(3) by (auto simp: pending_repeats_def enter_block_def split: list.splits)
  then show "continuation (enter_block b st) = blk (act_function st) b @ continuation st"
    by (simp add: continuation_def enter_block_def rest_of_def)
  show "act_wf (enter_block b st)"
    using assms by (auto simp: act_wf_def enter_block_def ip_wf_def repeats_wf_def)
qed

lemma enter_while_continuation:
  assumes "act_wf st" "b < length (fn_blocks (act_function st))"
    "\<forall>r \<in> set (act_repeat_stack st). r = None" "fetched op st"
  shows "\<exists>st'. enter_while_loop b st = Some st' \<and> act_wf st' \<and>
    act_function st' = act_function st \<and> act_fp st' = act_fp st \<and>
    continuation st' = blk (act_function st) b @ op # continuation st"
proof -
  from assms(4) obtain c i where ip: "act_ip st = IP c (Suc i)"
    and rest: "rest_of (act_function st) (IP c i) = op # rest_of (act_function st) (IP c (Suc i))"
    and wf: "ip_wf (act_function st) (IP c i)"
    by (auto simp: fetched_def)
  let ?st' = "st\<lparr>act_ip_stack := IP c i # act_ip_stack st,
    act_repeat_stack := None # act_repeat_stack st, act_ip := IP b 0\<rparr>"
  have "pending_repeats st = []" "pending_repeats ?st' = []"
    using assms(3) by (auto simp: pending_repeats_def split: list.splits)
  then have "continuation ?st' = blk (act_function st) b @ op # continuation st"
    using ip rest by (simp add: continuation_def) (simp add: rest_of_def)
  moreover have "act_wf ?st'"
    using assms wf by (auto simp: act_wf_def ip_wf_def repeats_wf_def)
  moreover have "enter_while_loop b st = Some ?st'"
    using ip by (simp add: enter_while_loop_def step_back_def)
  ultimately show ?thesis by auto
qed

lemma repeat_block_continuation:
  assumes "act_wf st" "b < length (fn_blocks (act_function st))" "n < 255"
    "blk (act_function st) b \<noteq> []" "list_all straight (blk (act_function st) b)"
    "\<forall>r \<in> set (act_repeat_stack st). r = None"
  shows "act_wf (repeat_block b n st)"
    "continuation (repeat_block b n st) =
       concat (replicate (Suc n) (blk (act_function st) b)) @ continuation st"
proof -
  have "pending_repeats st = []"
    using assms(6) by (auto simp: pending_repeats_def split: list.splits)
  then show "continuation (repeat_block b n st) =
      concat (replicate (Suc n) (blk (act_function st) b)) @ continuation st"
    by (simp add: continuation_def repeat_block_def pending_repeats_def) (simp add: rest_of_def)
  show "act_wf (repeat_block b n st)"
    using assms by (auto simp: act_wf_def repeat_block_def ip_wf_def repeats_wf_def)
qed

lemma fetched_op_wf:
  assumes "act_wf st" "fetched op st"
  shows "op_wf (act_function st) op"
proof -
  from assms(2) obtain b i where "rest_of (act_function st) (IP b i) = op # rest_of (act_function st) (IP b (Suc i))"
    and b: "b < length (fn_blocks (act_function st))"
    by (auto simp: fetched_def ip_wf_def)
  then have "op \<in> set (blk (act_function st) b)"
    by (metis in_set_dropD instruction_pointer.sel list.set_intros(1) rest_of_def)
  with b assms(1) show ?thesis
    by (auto simp: act_wf_def fn_wf_def blk_def list_all_iff)
qed

text \<open>The relation between an activation and the abstract machine.\<close>

definition runs_as :: "'f activation \<Rightarrow> 'f masm_function \<Rightarrow> nat \<Rightarrow> 'f masm_op list \<Rightarrow> bool" where
  "runs_as st f fp k = (act_wf st \<and> act_function st = f \<and> act_fp st = fp \<and> continuation st = k)"

lemma exec_instruction_cstep:
  assumes rel: "runs_as st f fp k" and op: "fetched op st" and bp: "em_bp em = None"
    and none: "\<not> straight op \<longrightarrow> (\<forall>r \<in> set (act_repeat_stack st). r = None)"
  shows "case cstep F f fp (once_more op) k em of
      None \<Rightarrow> exec_instruction F op st em = None
    | Some (k', em') \<Rightarrow> \<exists>st'. exec_instruction F op st em = Some (Next st' em') \<and>
        runs_as st' f fp k' \<and> em_bp em' = None"
proof -
  from rel have wf: "act_wf st" and f: "act_function st = f" and fp: "act_fp st = fp"
    and k: "continuation st = k"
    by (simp_all add: runs_as_def)
  from fetched_op_wf [OF wf op] f have opwf: "op_wf f op" by simp
  have over: "step_over st em = Some em"
    using bp by (simp add: step_over_def)
  show ?thesis
  proof (cases op)
    case (Mem o1)
    have "act_fp (new_activation f fp) = act_fp st"
      using fp by (simp add: new_activation_def)
    from exec_mem_op_cases [OF bp this, of F o1] Mem rel show ?thesis
      by (auto simp: cstep_def once_more_def exec_instruction_def)
  next
    case (OpIf t e)
    then have "t < length (fn_blocks f)" "e < length (fn_blocks f)"
      "\<forall>r \<in> set (act_repeat_stack st). r = None"
      using opwf none by (simp_all add: op_wf_def straight_def)
    with enter_block_continuation [OF wf, of t] enter_block_continuation [OF wf, of e] f fp k OpIf over bp
    show ?thesis
      by (auto simp: cstep_def once_more_def exec_instruction_def exec_if_def runs_as_def enter_block_def
          split: Option.bind_split)
  next
    case (OpWhile b)
    then have "b < length (fn_blocks f)" "\<forall>r \<in> set (act_repeat_stack st). r = None"
      using opwf none by (simp_all add: op_wf_def straight_def)
    with enter_while_continuation [OF wf _ _ op, of b] f fp k OpWhile over bp wf show ?thesis
      by (auto simp: cstep_def once_more_def exec_instruction_def exec_while_def runs_as_def
          split: Option.bind_split)
  next
    case (OpRepeat n b)
    then have "b < length (fn_blocks f)" "n < 255" "blk f b \<noteq> []" "list_all straight (blk f b)"
      "\<forall>r \<in> set (act_repeat_stack st). r = None"
      using opwf none by (simp_all add: op_wf_def straight_def)
    with repeat_block_continuation [OF wf, of b n] f fp k OpRepeat over bp show ?thesis
      by (auto simp: cstep_def once_more_def exec_instruction_def exec_repeat_def runs_as_def repeat_block_def)
  qed (use opwf rel bp in \<open>auto simp: cstep_def once_more_def exec_instruction_def op_wf_def
      split: Option.bind_split\<close>)
qed

lemma step_cstep:
  assumes cs: "em_callstack em = st # cs" and rel: "runs_as st f fp (op # k)"
    and bp: "em_bp em = None"
  shows "case cstep F f fp (once_more op) k (em\<lparr>em_callstack := cs\<rparr>) of
      None \<Rightarrow> step F em = None
    | Some (k', em') \<Rightarrow> \<exists>st'. step F em = Some (em'\<lparr>em_callstack := st' # em_callstack em'\<rparr>, Inr Suspend) \<and>
        runs_as st' f fp k' \<and> em_bp em' = None"
proof -
  let ?em = "em\<lparr>em_callstack := cs\<rparr>"
  from rel next_instruction_Cons [of st op k] obtain j st1 where
    ni: "next_instruction st = Some ((Some op, j), st1)" "j \<noteq> JumpReturn" and
    af: "after_fetch st op k st1"
    by (auto simp: runs_as_def)
  from af rel have "runs_as st1 f fp k" "fetched op st1"
    "\<not> straight op \<longrightarrow> (\<forall>r \<in> set (act_repeat_stack st1). r = None)"
    by (simp_all add: after_fetch_def runs_as_def)
  from exec_instruction_cstep [OF this(1,2) _ this(3), of ?em F] bp
  have "case cstep F f fp (once_more op) k ?em of
      None \<Rightarrow> exec_instruction F op st1 ?em = None
    | Some (k', em') \<Rightarrow> \<exists>st'. exec_instruction F op st1 ?em = Some (Next st' em') \<and>
        runs_as st' f fp k' \<and> em_bp em' = None"
    by simp
  then show ?thesis
    using ni cs bp
    by (auto simp: step_def finish_step_def Let_def breaks_at_jump_def split: option.splits)
qed

lemma step_end:
  assumes "em_callstack em = [st]" "runs_as st f fp []"
  shows "step F em = Some (em\<lparr>em_callstack := []\<rparr>, Inr Halt)"
  using assms next_instruction_Nil [of st]
  by (auto simp: step_def finish_step_def runs_as_def)

section \<open>Runs\<close>

text \<open>Only the stack and the memory differ.\<close>

definition data_update :: "'f emulator \<Rightarrow> 'f emulator \<Rightarrow> bool" where
  "data_update em em' = (em' = em\<lparr>em_stack := em_stack em', em_memory := em_memory em'\<rparr>)"

lemma exec_mem_op_frame: "exec_mem_op F op st em = Some (Next st' em') \<Longrightarrow> data_update em em'"
  by (cases op)
    (auto simp: store_or_break_def suspend_at_break_def data_update_def split: if_splits)

lemma cstep_update: "cstep F f fp op k em = Some (k', em') \<Longrightarrow> data_update em em'"
  by (cases op)
    (auto simp: cstep_def dest!: exec_mem_op_frame split: flow.splits, auto simp: data_update_def)

lemma cstep_frame:
  assumes "cstep F f fp op k em = Some (k', em')"
  shows "\<exists>s m. em' = em\<lparr>em_stack := s, em_memory := m\<rparr>"
  using cstep_update [OF assms] unfolding data_update_def by blast

lemma crun_clk: "crun F f fp n k em = Some em' \<Longrightarrow> em_clk em < em_clk em'"
proof (induction F f fp n k em rule: crun.induct)
  case (3 F f fp n op k em)
  then obtain k1 em1 where "cstep F f fp op k (em\<lparr>em_clk := em_clk em + 1\<rparr>) = Some (k1, em1)"
    "crun F f fp n k1 em1 = Some em'"
    by auto
  with "3.IH" cstep_frame show ?case by fastforce
qed auto

text \<open>A step of the function with its counts raised is a step of the function itself.\<close>

lemma cstep_once_more:
  assumes "em_bp em = None"
  shows "cstep F (once_more_fn f) fp op (map once_more k) em =
    map_option (\<lambda>(k', em'). (map once_more k', em')) (cstep F f fp op k em)"
proof (cases op)
  case (Mem o1)
  have "act_fp (new_activation (once_more_fn f) fp) = act_fp (new_activation f fp)" by (simp add: new_activation_def)
  from exec_mem_op_cases [OF assms this, of F o1] Mem show ?thesis by (auto simp: cstep_def)
qed (auto simp: cstep_def once_more_def map_concat split: Option.bind_split)

lemma run_loop_crun:
  assumes "crun F (once_more_fn f) fp n (map once_more k) em = Some em'" "runs_as st f fp k" "em_bp em = None"
    "em_callstack em = []" "em_clk em' \<le> em_clk_limit em" "em_clk em' \<le> usize_MAX"
  shows "run_loop F lim res (em\<lparr>em_callstack := [st]\<rparr>) = Some (em', Inr ())"
  using assms
proof (induction n arbitrary: k em st res)
  case 0
  then have k: "k = []" by (cases k) simp_all
  let ?em = "em\<lparr>em_callstack := [st], em_clk := em_clk em + 1\<rparr>"
  have "step F ?em = Some (?em\<lparr>em_callstack := []\<rparr>, Inr Halt)"
    using 0 k by (intro step_end [of _ st]) auto
  moreover have "?em\<lparr>em_callstack := []\<rparr> = em'"
    using 0 k by (cases em) auto
  ultimately show ?case
    using 0 by (subst run_loop.simps) (auto simp: dispatch_def Let_def)
next
  case (Suc n)
  show ?case
  proof (cases k)
    case Nil
    let ?em = "em\<lparr>em_callstack := [st], em_clk := em_clk em + 1\<rparr>"
    have "step F ?em = Some (?em\<lparr>em_callstack := []\<rparr>, Inr Halt)"
      using Suc.prems Nil by (intro step_end [of _ st]) auto
    moreover have "?em\<lparr>em_callstack := []\<rparr> = em'"
      using Suc.prems Nil by (cases em) auto
    ultimately show ?thesis
      using Suc.prems by (subst run_loop.simps) (auto simp: dispatch_def Let_def)
  next
    case (Cons op k0)
    let ?em = "em\<lparr>em_clk := em_clk em + 1\<rparr>"
    have bp: "em_bp ?em = None" using Suc.prems(3) by simp
    from Suc.prems(1) obtain k1 em1 where
      step1: "cstep F f fp (once_more op) k0 ?em = Some (k1, em1)"
      and rest: "crun F (once_more_fn f) fp n (map once_more k1) em1 = Some em'"
      unfolding Cons using cstep_once_more [OF bp, of F f fp "once_more op" k0] by auto
    from cstep_frame [OF step1] obtain s m where em1: "em1 = ?em\<lparr>em_stack := s, em_memory := m\<rparr>"
      by blast
    have self: "em\<lparr>em_callstack := [st], em_clk := em_clk em + 1, em_callstack := []\<rparr> = ?em"
      using Suc.prems(4) by (cases em) simp
    have clk: "em_clk em + 1 < em_clk em'"
      using crun_clk [OF rest] em1 by simp
    have "em_callstack (em\<lparr>em_callstack := [st], em_clk := em_clk em + 1\<rparr>) = [st]"
      "em_bp (em\<lparr>em_callstack := [st], em_clk := em_clk em + 1\<rparr>) = None"
      using Suc.prems(3) by simp_all
    from step_cstep [OF this(1) Suc.prems(2) [unfolded Cons] this(2), of F, unfolded self] step1 obtain st' where
      "step F (em\<lparr>em_callstack := [st], em_clk := em_clk em + 1\<rparr>) =
        Some (em1\<lparr>em_callstack := [st']\<rparr>, Inr Suspend)"
      and rel: "runs_as st' f fp k1"
      using em1 Suc.prems(4) by auto
    moreover have "run_loop F lim False (em1\<lparr>em_callstack := [st']\<rparr>) = Some (em', Inr ())"
      using Suc.IH [OF rest rel] Suc.prems em1 by simp
    ultimately show ?thesis
      using Suc.prems clk em1
      by (subst run_loop.simps) (auto simp: dispatch_def Let_def handle_suspend_def)
  qed
qed

lemma new_activation_runs_as:
  assumes "fn_wf f"
  shows "runs_as (new_activation f fp) f fp (blk f (fn_body f))"
  using assms
  by (auto simp: runs_as_def act_wf_def new_activation_def continuation_def rest_of_def
      pending_repeats_def repeats_wf_def ip_wf_def fn_wf_def)

lemma push_args: "fold vm_push (rev args) (topdown xs) = topdown (args @ xs)"
  by (induction args arbitrary: xs rule: rev_induct) (simp_all add: stack_simps)

section \<open>Straight-line code\<close>

definition stack_only :: "'f masm_op \<Rightarrow> bool" where
  "stack_only op =
     (case op of
        Stk _ \<Rightarrow> True | Fld _ \<Rightarrow> True | Cmp _ \<Rightarrow> True | Arith _ \<Rightarrow> True | Bit _ \<Rightarrow> True | Rel _ \<Rightarrow> True
      | _ \<Rightarrow> False)"

lemma stack_only_straight: "stack_only op \<Longrightarrow> straight op"
  by (cases op) (simp_all add: stack_only_def straight_def)

lemma cstep_stack_only:
  "stack_only op \<Longrightarrow> exec_op F op (em_stack em) = Some s \<Longrightarrow>
    cstep F f fp op k em = Some (k, em\<lparr>em_stack := s\<rparr>)"
  by (cases op) (simp_all add: stack_only_def cstep_def)

lemma crun_exec_ops:
  assumes "list_all stack_only ops" "exec_ops F ops (em_stack em) = Some s"
  shows "crun F f fp (length ops + n) (ops @ k) em =
    crun F f fp n k (em\<lparr>em_stack := s, em_clk := em_clk em + length ops\<rparr>)"
  using assms
proof (induction ops arbitrary: em)
  case Nil
  then have "s = em_stack em" by simp
  then show ?case by simp
next
  case (Cons op ops)
  then obtain s1 where s1: "exec_op F op (em_stack em) = Some s1" "exec_ops F ops s1 = Some s"
    by auto
  let ?em = "em\<lparr>em_clk := em_clk em + 1, em_stack := s1\<rparr>"
  have "cstep F f fp op (ops @ k) (em\<lparr>em_clk := em_clk em + 1\<rparr>) = Some (ops @ k, ?em)"
    using Cons.prems s1 cstep_stack_only [of op F "em\<lparr>em_clk := em_clk em + 1\<rparr>" s1] by simp
  moreover have "crun F f fp (length ops + n) (ops @ k) ?em =
      crun F f fp n k (?em\<lparr>em_stack := s, em_clk := em_clk ?em + length ops\<rparr>)"
    using Cons.prems s1 by (intro Cons.IH) simp_all
  ultimately show ?case by simp
qed

lemma once_more_stack_only: "list_all stack_only ops \<Longrightarrow> map once_more ops = ops"
  by (intro map_idI once_more_other) (auto simp: list_all_iff stack_only_def)

text \<open>The emulator a function is invoked on: loaded, idle and without a breakpoint.\<close>

definition ready :: "'f masm_function \<Rightarrow> nat \<Rightarrow> 'f list \<Rightarrow> 'f emulator \<Rightarrow> bool" where
  "ready f fp args em =
     (em_functions em (fn_name f) = Some (Asm f) \<and> em_locals em (fn_name f) = Some fp \<and>
      em_callstack em = [] \<and> em_bp em = None \<and> fn_wf f \<and> length args = fn_arity f)"

definition entry_stack :: "'f list \<Rightarrow> 'f emulator \<Rightarrow> 'f list" where
  "entry_stack args em = fold vm_push (rev args) (em_stack em)"

lemma invoke_crun:
  assumes "ready f fp args em"
    "crun F (once_more_fn f) fp n (map once_more (blk f (fn_body f))) (em\<lparr>em_stack := entry_stack args em\<rparr>) = Some em'"
    "em_clk em' \<le> em_clk_limit em" "em_clk em' \<le> usize_MAX"
  shows "invoke F nif (fn_name f) args em = Some (em', Inr (em_stack em'))"
proof -
  let ?em = "em\<lparr>em_stack := entry_stack args em\<rparr>"
  have "run_loop F usize_MAX True (?em\<lparr>em_callstack := [new_activation f fp]\<rparr>) = Some (em', Inr ())"
    using assms by (intro run_loop_crun [OF assms(2) new_activation_runs_as]) (auto simp: ready_def)
  with assms(1) show ?thesis
    by (simp add: ready_def invoke_def invoke_function_def resume_def run_def Let_def
        entry_stack_def)
qed

section \<open>Properties\<close>



text \<open>
  C3. A function whose body is a straight-line sequence of stack instructions computes what
  \<open>exec_ops\<close> computes, in one cycle per instruction and one for the return.
\<close>

theorem invoke_straight_line:
  assumes "ready f fp args em" "list_all stack_only (blk f (fn_body f))"
    "exec_ops F (blk f (fn_body f)) (entry_stack args em) = Some s"
    "em_clk em + length (blk f (fn_body f)) + 1 \<le> min (em_clk_limit em) usize_MAX"
  shows "invoke F nif (fn_name f) args em =
    Some (em\<lparr>em_stack := s, em_clk := em_clk em + length (blk f (fn_body f)) + 1\<rparr>, Inr s)"
proof -
  let ?ops = "blk f (fn_body f)"
  have "crun F (once_more_fn f) fp (length ?ops) (map once_more ?ops) (em\<lparr>em_stack := entry_stack args em\<rparr>) =
      Some (em\<lparr>em_stack := s, em_clk := em_clk em + length ?ops + 1\<rparr>)"
    using crun_exec_ops [OF assms(2), of F "em\<lparr>em_stack := entry_stack args em\<rparr>" s "once_more_fn f" fp 0 "[]"] assms(3)
    by (simp add: once_more_stack_only [OF assms(2)])
  from invoke_crun [OF assms(1) this] assms(4) show ?thesis by simp
qed

text \<open>
  The emulator runs the body of \<open>repeat.n\<close> once too often: a function that consists of
  \<open>repeat.n\<close> of a straight-line block computes what \<open>n + 1\<close> copies of the block compute, while
  the documentation of the instruction says that the block is evaluated \<open>n\<close> times.
\<close>

theorem repeat_runs_once_too_often:
  assumes "ready f fp args em" "blk f (fn_body f) = [OpRepeat n b]"
    "list_all stack_only (blk f b)"
    "exec_ops F (concat (replicate (n + 1) (blk f b))) (entry_stack args em) = Some s"
    "em_clk em + (n + 1) * length (blk f b) + 2 \<le> min (em_clk_limit em) usize_MAX"
  shows "\<exists>em'. invoke F nif (fn_name f) args em = Some (em', Inr s) \<and> em_stack em' = s"
proof -
  let ?ops = "concat (replicate (n + 1) (blk f b))"
  let ?em = "em\<lparr>em_stack := entry_stack args em, em_clk := em_clk em + 1\<rparr>"
  let ?em' = "?em\<lparr>em_stack := s, em_clk := em_clk em + 1 + length ?ops + 1\<rparr>"
  have len: "length ?ops = (n + 1) * length (blk f b)"
    by (simp add: length_concat sum_list_replicate)
  have "list_all stack_only ?ops"
    using assms(3) by (auto simp: list_all_iff)
  from crun_exec_ops [OF this, of F ?em s "once_more_fn f" fp 0 "[]"] assms(4)
  have "crun F (once_more_fn f) fp (length ?ops) ?ops ?em = Some ?em'" by simp
  then have "crun F (once_more_fn f) fp (Suc (length ?ops)) (map once_more [OpRepeat n b])
      (em\<lparr>em_stack := entry_stack args em\<rparr>) = Some ?em'"
    using once_more_stack_only [OF assms(3)] by (simp add: cstep_def once_more_def)
  from invoke_crun [OF assms(1), of F "Suc (length ?ops)" ?em' nif, unfolded assms(2), OF this]
    assms(5) len show ?thesis by auto
qed

section \<open>Concrete runs\<close>

text \<open>A function with no arguments that increments the value \<open>0\<close> in a \<open>repeat.1\<close>.\<close>

definition example_function :: "ref_felt masm_function" where
  "example_function =
     \<lparr>fn_name = FunctionIdent ''m'' ''f'',
      fn_signature = \<lparr>sig_params = [], sig_results = [], sig_cc = CcSystemV, sig_linkage = LkExternal\<rparr>,
      fn_body = 0, fn_blocks = [[OpRepeat 1 1], [Stk (PushU8 7)], [Stk (PushU8 1), OpIf 1 1]],
      fn_locals = [], fn_next_local_id = 0\<rparr>"

definition example_emulator :: "ref_felt masm_function \<Rightarrow> ref_felt emulator" where
  "example_emulator f =
     (new_emulator ref_ops 4 0 2)
       \<lparr>em_functions := [fn_name f \<mapsto> Asm f], em_locals := [fn_name f \<mapsto> 2]\<rparr>"

lemmas example_defs = example_function_def example_emulator_def new_emulator_def ready_def fn_wf_def
  op_wf_def blk_def straight_def sig_arity_def fn_arity_def entry_stack_def stack_only_def usize_MAX_def



theorem invoke_straight_line_witness:
  "\<exists>em'. invoke ref_ops (\<lambda>_ _ _. None) (FunctionIdent ''m'' ''f'') [] (example_emulator (example_function\<lparr>fn_body := 1\<rparr>)) =
    Some (em', Inr [ref_of_nat 7])"
  using invoke_straight_line [of "example_function\<lparr>fn_body := 1\<rparr>" 2 "[]"
      "example_emulator (example_function\<lparr>fn_body := 1\<rparr>)" ref_ops "[ref_of_nat 7]" "\<lambda>_ _ _. None"]
  by (simp add: example_defs push_u8_def ref_ops_def)

theorem repeat_runs_once_too_often_witness:
  "\<exists>em'. invoke ref_ops (\<lambda>_ _ _. None) (FunctionIdent ''m'' ''f'') [] (example_emulator example_function) =
    Some (em', Inr [ref_of_nat 7, ref_of_nat 7]) \<and> em_stack em' = [ref_of_nat 7, ref_of_nat 7]"
  using repeat_runs_once_too_often [of example_function 2 "[]" "example_emulator example_function"
      1 1 ref_ops "[ref_of_nat 7, ref_of_nat 7]" "\<lambda>_ _ _. None"]
  by (simp add: example_defs push_u8_def ref_ops_def)

end
