(* ===== verification/EmuProps.thy ===== *)
theory EmuProps
  imports EmuRefine Layout
begin

text \<open>
  Properties of the parts of the emulator beside its main loop: the prediction of the next
  instruction, the heap, and the placement of locals.
\<close>

section \<open>Prediction\<close>

lemma find_resume_parent:
  assumes "resume_parent st ips = Some ((ix, j), st')"
  shows "case ix of
      Some op \<Rightarrow> j = JumpBranch \<and> (\<exists>ip. find_resume (act_function st) ips = Some (Some ip) \<and>
        op_at (act_function st) ip = Some (Some op))
    | None \<Rightarrow> j = JumpReturn \<and> find_resume (act_function st) ips = Some None"
  using assms
proof (induction ips arbitrary: st)
  case (Cons ip ips)
  from Cons.prems obtain r where r: "op_at (act_function st) ip = Some r"
    by (cases "op_at (act_function st) ip") simp_all
  show ?case
  proof (cases r)
    case None
    with Cons.IH [of "st\<lparr>act_ip := ip\<rparr>"] Cons.prems r show ?thesis
      by (auto split: option.splits)
  next
    case (Some op)
    with Cons.prems r show ?thesis by auto
  qed
qed auto

lemma next_peek:
  assumes "next_instruction st = Some ((ix, j), st')"
  shows "\<exists>ip. peek_instruction st = Some (ix, j, ip)"
proof -
  from assms obtain code where code: "fn_block (act_function st) (ip_block (act_ip st)) = Some code"
    by (auto simp: next_instruction_def)
  have at_end: "op_at (act_function st) (act_ip st) = Some None"
    if "ip_index (act_ip st) = length code"
    using that code by (simp add: op_at_def)
  have resume: "\<exists>ip. (do { r \<leftarrow> find_resume (act_function st) (act_ip_stack st);
        Some (case r of Some ip \<Rightarrow> (ip, JumpBranch) | None \<Rightarrow> (act_ip st, JumpReturn)) }) = Some (ip, j) \<and>
        op_at (act_function st) ip = Some ix"
    if "resume_parent st1 (act_ip_stack st) = Some ((ix, j), st')"
      "act_function st1 = act_function st" "ip_index (act_ip st) = length code" for st1
    using find_resume_parent [OF that(1)] that(2) at_end [OF that(3)] by (auto split: option.splits)
  show ?thesis
  proof (cases "ip_index (act_ip st) = length code")
    case False
    with assms code show ?thesis
      by (auto simp: next_instruction_def peek_instruction_def pending_ip_def)
  next
    case True
    show ?thesis
    proof (cases "\<exists>c n rs. act_repeat_stack st = Some (c, n) # rs \<and> c \<le> n")
      case True': True
      with assms code True show ?thesis
        by (auto simp: next_instruction_def peek_instruction_def pending_ip_def op_at_def)
    next
      case False
      with assms code True obtain st1 where
        "resume_parent st1 (act_ip_stack st) = Some ((ix, j), st')"
        "act_function st1 = act_function st"
        by (cases "act_repeat_stack st") (auto simp: next_instruction_def split: option.splits if_splits)
      from resume [OF this True] False code True show ?thesis
        by (auto simp: peek_instruction_def pending_ip_def Let_def split: list.splits option.splits)
    qed
  qed
qed

section \<open>The heap\<close>

lemma mem_set_length: "mem_set a i x m = Some m' \<Longrightarrow> length m' = length m"
  by (auto simp: mem_set_def)

lemma write_chunks_inv:
  assumes "write_chunks F bs i em = Some em'" "em_hp em < em_lp em"
  shows "em_hp em' < em_lp em' \<and> em_lp em' = em_lp em \<and> em_hp em \<le> em_hp em' \<and>
    length (em_memory em') = length (em_memory em)"
  using assms
proof (induction F bs i em rule: write_chunks.induct)
  case (2 F b bs i em)
  then show ?case
    by (fastforce simp: Let_def u32_add_def dest: mem_set_length split: if_splits)
qed simp


text \<open>Elements in the order of their addresses.\<close>

definition mem_elem :: "'f word4 list \<Rightarrow> nat \<Rightarrow> 'f option" where
  "mem_elem m p = mem_get m (p div 4) (p mod 4)"

lemma word_get_set:
  "word_set w i x = Some w' \<Longrightarrow> word_get w' j = (if j = i then Some x else word_get w j)"
  by (cases w) (auto split: if_splits)

lemma word_set_less: "word_set w i x = Some w' \<Longrightarrow> i < 4"
  by (cases w) (auto split: if_splits)

lemma mem_elem_set:
  assumes "mem_set a i x m = Some m'"
  shows "mem_elem m' p = (if p = 4 * a + i then Some x else mem_elem m p)"
proof -
  from assms obtain w where w: "word_set (m ! a) i x = Some w" "a < length m" "m' = m[a := w]"
    by (auto simp: mem_set_def)
  have i: "i < 4" by (rule word_set_less [OF w(1)])
  have "p = 4 * a + i \<longleftrightarrow> p div 4 = a \<and> p mod 4 = i"
    using i div_mult_mod_eq [of p 4] by auto
  then show ?thesis
    using w i word_get_set [OF w(1), of "p mod 4"]
    by (auto simp: mem_elem_def mem_get_def bind_assert_that nth_list_update)
qed

definition chunk :: "u8 list \<Rightarrow> nat \<Rightarrow> u32" where
  "chunk bs j = u32_from_le_bytes (take 4 (drop (4 * j) bs))"

lemma chunk_Suc: "chunk (drop 4 bs) k = chunk bs (Suc k)"
  by (simp add: chunk_def add.commute)

lemma write_chunks_elems:
  assumes "write_chunks F bs i em = Some em'"
  shows "(\<forall>p < 4 * em_hp em + i. mem_elem (em_memory em') p = mem_elem (em_memory em) p) \<and>
    (\<forall>j. 4 * j < length bs \<longrightarrow>
       mem_elem (em_memory em') (4 * em_hp em + i + j) = Some (felt_u32 F (chunk bs j)))"
  using assms
proof (induction F bs i em rule: write_chunks.induct)
  case (2 F b bs i em)
  let ?elem = "u32_from_le_bytes (take 4 (b # bs))"
  from "2.prems" obtain i1 em1 m where
    adv: "(if i = 4 then do { hp \<leftarrow> u32_add (em_hp em) 1; assert_that (hp < em_lp em);
        Some (0, em\<lparr>em_hp := hp\<rparr>) } else Some (i, em)) = Some (i1, em1)"
    and m: "mem_set (em_hp em1) i1 (felt_new F (ucast ?elem)) (em_memory em1) = Some m"
    and rest: "write_chunks F (drop 4 (b # bs)) (i1 + 1) (em1\<lparr>em_memory := m\<rparr>) = Some em'"
    by (auto simp: Let_def)
  from adv have pos: "4 * em_hp em1 + i1 = 4 * em_hp em + i" and mem: "em_memory em1 = em_memory em"
    by (auto simp: u32_add_def split: if_splits)
  note ih = "2.IH" [OF refl adv refl m rest]
  have set: "mem_elem m p = (if p = 4 * em_hp em + i then Some (felt_u32 F ?elem)
      else mem_elem (em_memory em) p)" for p
    using mem_elem_set [OF m, of p] pos mem by (simp add: felt_u32_def)
  show ?case
  proof (intro conjI allI impI)
    fix p
    assume "p < 4 * em_hp em + i"
    with ih pos set [of p] show "mem_elem (em_memory em') p = mem_elem (em_memory em) p"
      by simp
  next
    fix j
    assume j: "4 * j < length (b # bs)"
    show "mem_elem (em_memory em') (4 * em_hp em + i + j) = Some (felt_u32 F (chunk (b # bs) j))"
    proof (cases j)
      case 0
      with ih pos set [of "4 * em_hp em + i"] show ?thesis
        by (simp add: chunk_def)
    next
      case (Suc k)
      with j have "4 * k < length (drop 4 (b # bs))" by simp
      with ih have "mem_elem (em_memory em') (4 * em_hp em1 + (i1 + 1) + k) =
          Some (felt_u32 F (chunk (drop 4 (b # bs)) k))"
        by simp
      moreover have "chunk (drop 4 (b # bs)) k = chunk (b # bs) j"
        using Suc by (simp only: chunk_Suc)
      moreover have "4 * em_hp em1 + (i1 + 1) + k = 4 * em_hp em + i + j"
        using Suc pos by simp
      ultimately show ?thesis by simp
    qed
  qed
qed simp

lemma write_chunks_hp:
  "write_chunks F bs i em = Some em' \<Longrightarrow> length bs + 4 * i \<le> 16 \<Longrightarrow> em_hp em' = em_hp em"
proof (induction F bs i em rule: write_chunks.induct)
  case (2 F b bs i em)
  then have i: "i \<noteq> 4" by auto
  from "2.prems"(1) i obtain m where
    m: "mem_set (em_hp em) i (felt_new F (ucast (u32_from_le_bytes (take 4 (b # bs))))) (em_memory em) = Some m"
    and rest: "write_chunks F (drop 4 (b # bs)) (i + 1) (em\<lparr>em_memory := m\<rparr>) = Some em'"
    by (auto simp: Let_def)
  have bound: "length (drop 4 (b # bs)) + 4 * (i + 1) \<le> 16 \<or> drop 4 (b # bs) = []"
    using "2.prems"(2) by auto
  show ?case
  proof (cases "drop 4 (b # bs) = []")
    case True
    with rest show ?thesis by (auto simp del: drop_eq_Nil)
  next
    case False
    with bound i "2.IH" [OF refl _ refl m rest] show ?thesis by simp
  qed
qed simp

section \<open>Properties\<close>

text \<open>
  C4. What \<open>peek_instruction\<close> predicts is what \<open>next_instruction\<close> does: the same instruction
  and the same kind of jump.
\<close>

theorem peek_predicts_next:
  assumes "next_instruction st = Some ((ix, j), st')"
  shows "\<exists>ip. peek_instruction st = Some (ix, j, ip)"
  by (rule next_peek [OF assms])

theorem peek_predicts_next_witness:
  "\<exists>ip. peek_instruction (new_activation example_function 0) = Some (Some (OpRepeat 1 1), JumpNone, ip)"
  by (rule peek_predicts_next)
    (simp add: next_instruction_def new_activation_def fn_block_def op_at_def example_function_def)



text \<open>
  C5. \<open>write_bytes_to_memory\<close> stores the bytes: element \<open>j\<close> behind the returned address is the
  little-endian number of the \<open>j\<close>-th group of four bytes, everything in front of that address
  is as before, and the heap pointer stays in front of the reserved region.
\<close>

theorem write_bytes_stores:
  assumes "write_bytes_to_memory F bs em = Some (addr, em')" "em_hp em < em_lp em"
  shows "addr = em_hp em \<and>
    (\<forall>j. 4 * j < length bs \<longrightarrow> mem_elem (em_memory em') (4 * addr + j) = Some (felt_u32 F (chunk bs j))) \<and>
    (\<forall>p < 4 * addr. mem_elem (em_memory em') p = mem_elem (em_memory em) p) \<and>
    em_hp em' < em_lp em' \<and> length (em_memory em') = length (em_memory em)"
proof (cases "bs = []")
  case True
  with assms show ?thesis by (auto simp: write_bytes_to_memory_def)
next
  case False
  with assms(1) have "write_chunks F bs 0 em = Some em'" "addr = em_hp em"
    by (auto simp: write_bytes_to_memory_def)
  with write_chunks_elems [OF this(1)] write_chunks_inv [OF this(1) assms(2)] show ?thesis
    by simp
qed

theorem write_bytes_stores_witness:
  "\<exists>em'. write_bytes_to_memory ref_ops [1, 2] (new_emulator ref_ops 1 0 1) = Some (0, em') \<and>
    mem_elem (em_memory em') 0 = Some (felt_u32 ref_ops 513)"
proof -
  have "\<exists>em'. write_bytes_to_memory ref_ops [1, 2] (new_emulator ref_ops 1 0 1) = Some (0, em')"
    by (simp add: write_bytes_to_memory_def new_emulator_def mem_set_def Let_def)
  then obtain em' where "write_bytes_to_memory ref_ops [1, 2] (new_emulator ref_ops 1 0 1) = Some (0, em')"
    by blast
  with write_bytes_stores [OF this] show ?thesis
    by (auto simp: new_emulator_def chunk_def dest: spec [of _ 0])
qed

text \<open>
  A second \<open>write_bytes_to_memory\<close> overwrites the first: the heap pointer is left on the
  last word written, so after a write of at most sixteen bytes the next one returns the same
  address.
\<close>

theorem write_bytes_overwrites:
  assumes "write_bytes_to_memory F bs1 em = Some (addr1, em1)" "length bs1 \<le> 16"
    "write_bytes_to_memory F bs2 em1 = Some (addr2, em2)" "em_hp em < em_lp em" "bs2 \<noteq> []"
  shows "addr2 = addr1 \<and> mem_elem (em_memory em2) (4 * addr1) = Some (felt_u32 F (chunk bs2 0))"
proof -
  have hp: "em_hp em1 = em_hp em" "addr1 = em_hp em"
    using assms(1,2) write_chunks_hp [of F bs1 0 em em1]
    by (auto simp: write_bytes_to_memory_def split: if_splits)
  from assms(3,5) have w: "write_chunks F bs2 0 em1 = Some em2" and a: "addr2 = em_hp em1"
    by (auto simp: write_bytes_to_memory_def)
  from write_chunks_elems [OF w] assms(5) have "mem_elem (em_memory em2) (4 * em_hp em1 + 0 + 0) =
      Some (felt_u32 F (chunk bs2 0))"
    by (metis add_0_right length_greater_0_conv mult_0_right)
  with hp a show ?thesis by simp
qed

theorem write_bytes_overwrites_witness:
  "\<exists>em1 em2. write_bytes_to_memory ref_ops [1] (new_emulator ref_ops 1 0 1) = Some (0, em1) \<and>
    write_bytes_to_memory ref_ops [2] em1 = Some (0, em2) \<and>
    mem_elem (em_memory em2) 0 = Some (felt_u32 ref_ops 2)"
proof -
  have "\<exists>em1 em2. write_bytes_to_memory ref_ops [1] (new_emulator ref_ops 1 0 1) = Some (0, em1) \<and>
      write_bytes_to_memory ref_ops [2] em1 = Some (0, em2)"
    by (simp add: write_bytes_to_memory_def new_emulator_def mem_set_def Let_def)
  then obtain em1 em2 where
    "write_bytes_to_memory ref_ops [1] (new_emulator ref_ops 1 0 1) = Some (0, em1)"
    "write_bytes_to_memory ref_ops [2] em1 = Some (0, em2)"
    by blast
  with write_bytes_overwrites [OF this(1) _ this(2)] show ?thesis
    by (simp add: new_emulator_def chunk_def)
qed

text \<open>
  C9. The locals of two functions may overlap: \<open>alloc_local\<close> numbers locals by words, but
  \<open>load_function\<close> reserves one word for each local.  After a function with one local of more
  than one word, the frame of the next function starts inside that local.
\<close>

theorem locals_overlap:
  assumes "alloc_local ty (new_function name sig) = Some (lid, f)" "size_in_words ty = Some n" "1 < n"
    "load_function f em = Some (em1, Inr ())" "load_function g em1 = Some (em2, Inr ())"
    "em_lp em + 1 \<le> u32_MAX"
  shows "\<exists>fpf fpg. em_locals em2 (fn_name f) = Some fpf \<and> em_locals em2 (fn_name g) = Some fpg \<and>
    fpf + lid \<le> fpg \<and> fpg < fpf + lid + n"
proof -
  have f: "lid = 0" "length (fn_locals f) = 1"
    using assms(1,2) by (auto simp: alloc_local_def new_function_def bind_assert_that Let_def split: if_splits)
  have em1: "em_lp em1 = em_lp em + 1" "em_locals em1 = (em_locals em)(fn_name f \<mapsto> em_lp em)"
    "em_functions em1 = (em_functions em)(fn_name f \<mapsto> Asm f)"
    using assms(4) f(2) by (auto simp: load_function_def Let_def u32_add_def as_u32_def split: option.splits if_splits)
  have "fn_name g \<noteq> fn_name f"
    using assms(5) em1(3) by (auto simp: load_function_def Let_def split: option.splits)
  moreover have "em_locals em2 = (em_locals em1)(fn_name g \<mapsto> em_lp em1)"
    using assms(5) by (auto simp: load_function_def Let_def split: option.splits if_splits)
  ultimately show ?thesis
    using em1 f assms(3) by simp
qed

theorem locals_overlap_witness:
  "\<exists>f em2. load_function f (new_emulator ref_ops 8 0 4) = Some (em2, Inr ()) \<and>
    (\<exists>em3 fpf fpg. load_function example_function em2 = Some (em3, Inr ()) \<and>
       em_locals em3 (fn_name f) = Some fpf \<and>
       em_locals em3 (fn_name example_function) = Some fpg \<and> fpf \<le> fpg \<and> fpg < fpf + 2)"
proof -
  let ?f0 = "new_function (FunctionIdent ''m'' ''g'') (fn_signature example_function)"
  have words: "size_in_words (TyArray TyU8 64) = Some 2"
    using size_byte_array [of 64] by (simp add: size_in_words_def WORD_SIZE_def usize_MAX_def)
  then have "\<exists>f. alloc_local (TyArray TyU8 64) ?f0 = Some (0, f) \<and> fn_name f = FunctionIdent ''m'' ''g'' \<and>
      length (fn_locals f) = 1"
    by (simp add: alloc_local_def new_function_def Let_def)
  then obtain f :: "ref_felt masm_function" where f: "alloc_local (TyArray TyU8 64) ?f0 = Some (0, f)"
    "fn_name f = FunctionIdent ''m'' ''g''" "length (fn_locals f) = 1"
    by blast
  then have "\<exists>em2 em3. load_function f (new_emulator ref_ops 8 0 4) = Some (em2, Inr ()) \<and>
      load_function example_function em2 = Some (em3, Inr ())"
    by (simp add: load_function_def new_emulator_def example_function_def Let_def u32_add_def as_u32_def u32_MAX_def)
  then obtain em2 em3 where em: "load_function f (new_emulator ref_ops 8 0 4) = Some (em2, Inr ())"
    "load_function example_function em2 = Some (em3, Inr ())"
    by blast
  from locals_overlap [OF f(1) words _ em] em show ?thesis
    by (fastforce simp: new_emulator_def u32_MAX_def)
qed

end
