(* ===== verification/Immediates.thy ===== *)
theory Immediates
  imports HirType Felt
begin

text \<open>
  Immediate values (hir/src/immediates.rs): their types, predicates and conversions.  An
  integer is a word of its width, read by \<open>uint\<close> or \<open>sint\<close>; an \<open>f64\<close> is its 64-bit pattern,
  and \<open>float_to_int\<close> decodes it.  Panics of the comparison are
  \<open>None\<close>.
\<close>

datatype 'f immediate =
    ImmI1 bool | ImmU8 u8 | ImmI8 u8 | ImmU16 u16 | ImmI16 u16 | ImmU32 u32 | ImmI32 u32
  | ImmU64 u64 | ImmI64 u64 | ImmI128 u128 | ImmF64 u64 | ImmFelt 'f

primrec imm_ty :: "'f immediate \<Rightarrow> hir_type" where
  "imm_ty (ImmI1 _) = TyI1"
| "imm_ty (ImmU8 _) = TyU8"
| "imm_ty (ImmI8 _) = TyI8"
| "imm_ty (ImmU16 _) = TyU16"
| "imm_ty (ImmI16 _) = TyI16"
| "imm_ty (ImmU32 _) = TyU32"
| "imm_ty (ImmI32 _) = TyI32"
| "imm_ty (ImmU64 _) = TyU64"
| "imm_ty (ImmI64 _) = TyI64"
| "imm_ty (ImmI128 _) = TyI128"
| "imm_ty (ImmF64 _) = TyF64"
| "imm_ty (ImmFelt _) = TyFelt"

primrec is_non_negative :: "'f immediate \<Rightarrow> bool" where
  "is_non_negative (ImmI1 i) = i"
| "is_non_negative (ImmI8 i) = (sint i > 0)"
| "is_non_negative (ImmU8 i) = (uint i > 0)"
| "is_non_negative (ImmI16 i) = (sint i > 0)"
| "is_non_negative (ImmU16 i) = (uint i > 0)"
| "is_non_negative (ImmI32 i) = (sint i > 0)"
| "is_non_negative (ImmU32 i) = (uint i > 0)"
| "is_non_negative (ImmI64 i) = (sint i > 0)"
| "is_non_negative (ImmU64 i) = (uint i > 0)"
| "is_non_negative (ImmI128 i) = (sint i > 0)"
| "is_non_negative (ImmF64 f) = (\<not> bit f 63)"
| "is_non_negative (ImmFelt _) = True"

primrec imm_is_signed :: "'f immediate \<Rightarrow> bool" where
  "imm_is_signed (ImmI1 _) = False"
| "imm_is_signed (ImmU8 _) = False"
| "imm_is_signed (ImmI8 _) = True"
| "imm_is_signed (ImmU16 _) = False"
| "imm_is_signed (ImmI16 _) = True"
| "imm_is_signed (ImmU32 _) = False"
| "imm_is_signed (ImmI32 _) = True"
| "imm_is_signed (ImmU64 _) = False"
| "imm_is_signed (ImmI64 _) = True"
| "imm_is_signed (ImmI128 _) = True"
| "imm_is_signed (ImmF64 _) = True"
| "imm_is_signed (ImmFelt _) = False"

primrec imm_is_unsigned :: "'f immediate \<Rightarrow> bool" where
  "imm_is_unsigned (ImmI1 _) = True"
| "imm_is_unsigned (ImmU8 _) = True"
| "imm_is_unsigned (ImmI8 _) = False"
| "imm_is_unsigned (ImmU16 _) = True"
| "imm_is_unsigned (ImmI16 _) = False"
| "imm_is_unsigned (ImmU32 _) = True"
| "imm_is_unsigned (ImmI32 _) = False"
| "imm_is_unsigned (ImmU64 _) = True"
| "imm_is_unsigned (ImmI64 _) = False"
| "imm_is_unsigned (ImmI128 _) = False"
| "imm_is_unsigned (ImmF64 _) = False"
| "imm_is_unsigned (ImmFelt _) = True"

text \<open>\<open>i % 2 == 0\<close> on a signed integer: the remainder is zero exactly for even values.\<close>

primrec is_odd :: "'f felt_ops \<Rightarrow> 'f immediate \<Rightarrow> bool option" where
  "is_odd F (ImmI1 b) = Some b"
| "is_odd F (ImmU8 i) = Some (uint i mod 2 = 0)"
| "is_odd F (ImmI8 i) = Some (sint i mod 2 = 0)"
| "is_odd F (ImmU16 i) = Some (uint i mod 2 = 0)"
| "is_odd F (ImmI16 i) = Some (sint i mod 2 = 0)"
| "is_odd F (ImmU32 i) = Some (uint i mod 2 = 0)"
| "is_odd F (ImmI32 i) = Some (sint i mod 2 = 0)"
| "is_odd F (ImmU64 i) = Some (uint i mod 2 = 0)"
| "is_odd F (ImmI64 i) = Some (sint i mod 2 = 0)"
| "is_odd F (ImmFelt i) = Some (uint (felt_as_int F i) mod 2 = 0)"
| "is_odd F (ImmI128 i) = Some (sint i mod 2 = 0)"
| "is_odd F (ImmF64 _) = None"

primrec as_bool :: "'f felt_ops \<Rightarrow> 'f immediate \<Rightarrow> bool option" where
  "as_bool F (ImmI1 b) = Some b"
| "as_bool F (ImmU8 i) = Some (i \<noteq> 0)"
| "as_bool F (ImmI8 i) = Some (i \<noteq> 0)"
| "as_bool F (ImmU16 i) = Some (i \<noteq> 0)"
| "as_bool F (ImmI16 i) = Some (i \<noteq> 0)"
| "as_bool F (ImmU32 i) = Some (i \<noteq> 0)"
| "as_bool F (ImmI32 i) = Some (i \<noteq> 0)"
| "as_bool F (ImmU64 i) = Some (i \<noteq> 0)"
| "as_bool F (ImmI64 i) = Some (i \<noteq> 0)"
| "as_bool F (ImmFelt i) = Some (felt_as_int F i \<noteq> 0)"
| "as_bool F (ImmI128 i) = Some (i \<noteq> 0)"
| "as_bool F (ImmF64 _) = None"

section \<open>Floats that are integers\<close>

text \<open>
  \<open>float_to_int lo hi f\<close> is \<open>FloatToInt::to_int\<close>: NaN, infinities and subnormals are errors,
  zeroes are \<open>0\<close>, and a normal number must be integral and strictly between the bounds of the
  target type, which are themselves floats.
\<close>

definition f64_exponent :: "u64 \<Rightarrow> nat" where
  "f64_exponent f = unat f div 2 ^ 52 mod 2 ^ 11"

definition f64_fraction :: "u64 \<Rightarrow> nat" where
  "f64_fraction f = unat f mod 2 ^ 52"

definition f64_integer :: "u64 \<Rightarrow> int option" where
  "f64_integer f =
     (let m = int (2 ^ 52 + f64_fraction f); e = f64_exponent f;
          sgn = (if bit f 63 then -1 else 1)
      in if 1075 \<le> e then Some (sgn * (m * 2 ^ (e - 1075)))
         else if m mod 2 ^ (1075 - e) = 0 then Some (sgn * (m div 2 ^ (1075 - e)))
         else None)"

definition float_to_int :: "int \<Rightarrow> int \<Rightarrow> u64 \<Rightarrow> int option" where
  "float_to_int lower_bound upper_bound f =
     (if f64_exponent f = 2047 then None
      else if f64_exponent f = 0 then (if f64_fraction f = 0 then Some 0 else None)
      else do {
        i \<leftarrow> f64_integer f;
        if lower_bound < i \<and> i < upper_bound then Some i else None })"

text \<open>
  The bounds, as the numbers the float expressions round to: \<open>-(2^63) - 1.0\<close> is \<open>-(2^63)\<close>, and
  \<open>(127 * -1.0).exp2() - 1.0\<close>, the lower bound of \<open>i128\<close>, is \<open>-1\<close>.
\<close>

definition f64_to_u32 :: "u64 \<Rightarrow> int option" where
  "f64_to_u32 = float_to_int 0 (2 ^ 32)"
definition f64_to_i64 :: "u64 \<Rightarrow> int option" where
  "f64_to_i64 = float_to_int (- (2 ^ 63)) (2 ^ 63)"
definition f64_to_u64 :: "u64 \<Rightarrow> int option" where
  "f64_to_u64 = float_to_int 0 (2 ^ 64)"

text \<open>
  \<open>FloatToInt<Felt>::to_int\<close> is \<open>float_to_int(self).map(Felt::new)\<close>: \<open>Felt::new\<close> takes a \<open>u64\<close>, so
  the conversion is the one to \<open>u64\<close>, with the bounds of \<open>u64\<close>; the bounds that the instance for
  \<open>Felt\<close> declares are not used.
\<close>

definition f64_to_felt :: "u64 \<Rightarrow> int option" where
  "f64_to_felt = f64_to_u64"

definition f64_to_i128 :: "u64 \<Rightarrow> int option" where
  "f64_to_i128 = float_to_int (- 1) (2 ^ 127)"

section \<open>Conversions\<close>

text \<open>\<open>fits lo hi i\<close> is a \<open>try_from(i).ok()\<close> into a type with the range \<open>lo..hi\<close>.\<close>

definition fits :: "int \<Rightarrow> int \<Rightarrow> int \<Rightarrow> int option" where
  "fits lo hi i = (if lo \<le> i \<and> i < hi then Some i else None)"

definition imm_as_u32 :: "'f felt_ops \<Rightarrow> 'f immediate \<Rightarrow> u32 option" where
  "imm_as_u32 F imm = map_option of_int
     (case imm of
        ImmI1 b \<Rightarrow> Some (if b then 1 else 0)
      | ImmU8 b \<Rightarrow> Some (uint b)
      | ImmI8 b \<Rightarrow> (if sint b \<ge> 0 then Some (sint b) else None)
      | ImmU16 b \<Rightarrow> Some (uint b)
      | ImmI16 b \<Rightarrow> (if sint b \<ge> 0 then Some (sint b) else None)
      | ImmU32 b \<Rightarrow> Some (uint b)
      | ImmI32 b \<Rightarrow> (if sint b \<ge> 0 then Some (sint b) else None)
      | ImmU64 b \<Rightarrow> fits 0 (2 ^ 32) (uint b)
      | ImmI64 b \<Rightarrow> (if sint b \<ge> 0 then fits 0 (2 ^ 32) (sint b) else None)
      | ImmFelt i \<Rightarrow> fits 0 (2 ^ 32) (uint (felt_as_int F i))
      | ImmI128 b \<Rightarrow> (if sint b \<ge> 0 \<and> sint b \<le> 4294967295 then Some (sint b) else None)
      | ImmF64 f \<Rightarrow> f64_to_u32 f)"

definition imm_as_felt :: "'f felt_ops \<Rightarrow> 'f immediate \<Rightarrow> 'f option" where
  "imm_as_felt F imm =
     (case imm of
        ImmFelt i \<Rightarrow> Some i
      | _ \<Rightarrow> map_option (\<lambda>i. felt_new F (of_int i))
          (case imm of
             ImmI1 b \<Rightarrow> Some (if b then 1 else 0)
           | ImmU8 b \<Rightarrow> Some (uint b)
           | ImmI8 b \<Rightarrow> fits 0 (2 ^ 64) (sint b)
           | ImmU16 b \<Rightarrow> Some (uint b)
           | ImmI16 b \<Rightarrow> fits 0 (2 ^ 64) (sint b)
           | ImmU32 b \<Rightarrow> Some (uint b)
           | ImmI32 b \<Rightarrow> fits 0 (2 ^ 64) (sint b)
           | ImmU64 b \<Rightarrow> Some (uint b)
           | ImmI64 b \<Rightarrow> fits 0 (2 ^ 64) (sint b)
           | ImmI128 b \<Rightarrow> fits 0 (2 ^ 64) (sint b)
           | ImmF64 f \<Rightarrow> f64_to_felt f
           | ImmFelt i \<Rightarrow> None))"

definition imm_as_u64 :: "'f felt_ops \<Rightarrow> 'f immediate \<Rightarrow> u64 option" where
  "imm_as_u64 F imm = map_option of_int
     (case imm of
        ImmI1 b \<Rightarrow> Some (if b then 1 else 0)
      | ImmU8 i \<Rightarrow> Some (uint i)
      | ImmI8 i \<Rightarrow> (if sint i \<ge> 0 then Some (sint i) else None)
      | ImmU16 i \<Rightarrow> Some (uint i)
      | ImmI16 i \<Rightarrow> (if sint i \<ge> 0 then Some (sint i) else None)
      | ImmU32 i \<Rightarrow> Some (uint i)
      | ImmI32 i \<Rightarrow> (if sint i \<ge> 0 then Some (sint i) else None)
      | ImmU64 i \<Rightarrow> Some (uint i)
      | ImmI64 i \<Rightarrow> (if sint i \<ge> 0 then Some (sint i) else None)
      | ImmFelt i \<Rightarrow> Some (uint (felt_as_int F i))
      | ImmI128 i \<Rightarrow> (if sint i \<ge> 0 then fits 0 (2 ^ 64) (sint i) else None)
      | ImmF64 f \<Rightarrow> f64_to_u64 f)"

definition imm_as_i64 :: "'f felt_ops \<Rightarrow> 'f immediate \<Rightarrow> int option" where
  "imm_as_i64 F imm =
     (case imm of
        ImmI1 b \<Rightarrow> Some (if b then 1 else 0)
      | ImmU8 i \<Rightarrow> Some (uint i)
      | ImmI8 i \<Rightarrow> Some (sint i)
      | ImmU16 i \<Rightarrow> Some (uint i)
      | ImmI16 i \<Rightarrow> Some (sint i)
      | ImmU32 i \<Rightarrow> Some (uint i)
      | ImmI32 i \<Rightarrow> Some (sint i)
      | ImmU64 i \<Rightarrow> fits (- (2 ^ 63)) (2 ^ 63) (uint i)
      | ImmI64 i \<Rightarrow> Some (sint i)
      | ImmFelt i \<Rightarrow> fits (- (2 ^ 63)) (2 ^ 63) (uint (felt_as_int F i))
      | ImmI128 i \<Rightarrow> fits (- (2 ^ 63)) (2 ^ 63) (sint i)
      | ImmF64 f \<Rightarrow> f64_to_i64 f)"

definition imm_as_i128 :: "'f felt_ops \<Rightarrow> 'f immediate \<Rightarrow> int option" where
  "imm_as_i128 F imm =
     (case imm of
        ImmI1 b \<Rightarrow> Some (if b then 1 else 0)
      | ImmU8 i \<Rightarrow> Some (uint i)
      | ImmI8 i \<Rightarrow> Some (sint i)
      | ImmU16 i \<Rightarrow> Some (uint i)
      | ImmI16 i \<Rightarrow> Some (sint i)
      | ImmU32 i \<Rightarrow> Some (uint i)
      | ImmI32 i \<Rightarrow> Some (sint i)
      | ImmU64 i \<Rightarrow> Some (uint i)
      | ImmI64 i \<Rightarrow> Some (sint i)
      | ImmFelt i \<Rightarrow> Some (uint (felt_as_int F i))
      | ImmI128 i \<Rightarrow> Some (sint i)
      | ImmF64 f \<Rightarrow> f64_to_i128 f)"

section \<open>Equality and order\<close>

text \<open>\<open>PartialEq\<close>: pairs that no arm lists are unequal.  Equality of floats is IEEE equality.\<close>

definition f64_is_nan :: "u64 \<Rightarrow> bool" where
  "f64_is_nan f \<longleftrightarrow> f64_exponent f = 2047 \<and> f64_fraction f \<noteq> 0"

definition f64_is_zero :: "u64 \<Rightarrow> bool" where
  "f64_is_zero f \<longleftrightarrow> f64_exponent f = 0 \<and> f64_fraction f = 0"

definition f64_eq :: "u64 \<Rightarrow> u64 \<Rightarrow> bool" where
  "f64_eq x y \<longleftrightarrow>
     \<not> f64_is_nan x \<and> \<not> f64_is_nan y \<and> (x = y \<or> f64_is_zero x \<and> f64_is_zero y)"

definition imm_eq :: "'f felt_ops \<Rightarrow> 'f immediate \<Rightarrow> 'f immediate \<Rightarrow> bool" where
  "imm_eq F a b =
     (case (a, b) of
        (ImmI8 x, ImmI8 y) \<Rightarrow> x = y
      | (ImmU16 x, ImmU16 y) \<Rightarrow> x = y
      | (ImmI16 x, ImmI16 y) \<Rightarrow> x = y
      | (ImmU32 x, ImmU32 y) \<Rightarrow> x = y
      | (ImmI32 x, ImmI32 y) \<Rightarrow> x = y
      | (ImmU64 x, ImmU64 y) \<Rightarrow> x = y
      | (ImmI64 x, ImmI64 y) \<Rightarrow> x = y
      | (ImmI128 x, ImmI128 y) \<Rightarrow> x = y
      | (ImmF64 x, ImmF64 y) \<Rightarrow> f64_eq x y
      | (ImmFelt x, ImmFelt y) \<Rightarrow> felt_as_int F x = felt_as_int F y
      | _ \<Rightarrow> False)"

datatype ordering = Less | Equal | Greater

primrec reverse_ordering :: "ordering \<Rightarrow> ordering" where
  "reverse_ordering Less = Greater"
| "reverse_ordering Equal = Equal"
| "reverse_ordering Greater = Less"

definition order_of :: "int \<Rightarrow> int \<Rightarrow> ordering" where
  "order_of x y = (if x < y then Less else if x = y then Equal else Greater)"

text \<open>
  \<open>total_cmp\<close> compares the bit patterns as sign-and-magnitude numbers; \<open>trunc\<close> clears the bits
  of the fraction that stand for a fractional part.
\<close>

definition f64_total_key :: "u64 \<Rightarrow> int" where
  "f64_total_key f = (if bit f 63 then - (uint f - 2 ^ 63) - 1 else uint f)"

definition f64_trunc :: "u64 \<Rightarrow> u64" where
  "f64_trunc f =
     (let e = f64_exponent f
      in if e < 1023 then (if bit f 63 then push_bit 63 1 else 0)
         else if e < 1075 then push_bit (1075 - e) (drop_bit (1075 - e) f)
         else f)"

definition imm_cmp_float :: "'f felt_ops \<Rightarrow> u64 \<Rightarrow> 'f immediate \<Rightarrow> ordering option" where
  "imm_cmp_float F x imm =
     (case imm of
        ImmF64 y \<Rightarrow> Some (order_of (f64_total_key x) (f64_total_key y))
      | _ \<Rightarrow> do {
          y \<leftarrow> imm_as_i128 F imm;
          Some (case f64_to_i128 x of
                  Some i \<Rightarrow> order_of i y
                | None \<Rightarrow>
                    (let is_positive = \<not> bit x 63
                     in case f64_to_i128 (f64_trunc x) of
                          Some i \<Rightarrow>
                            (case order_of i y of
                               Equal \<Rightarrow> (if is_positive then Greater else Less)
                             | r \<Rightarrow> r)
                        | None \<Rightarrow> (if is_positive then Greater else Less)))})"

definition as_u64_cast :: "int \<Rightarrow> int" where
  "as_u64_cast i = i mod 2 ^ 64"

definition imm_cmp :: "'f felt_ops \<Rightarrow> 'f immediate \<Rightarrow> 'f immediate \<Rightarrow> ordering option" where
  "imm_cmp F a b =
     (case (a, b) of
        (ImmF64 x, y) \<Rightarrow> imm_cmp_float F x y
      | (x, ImmF64 y) \<Rightarrow> map_option reverse_ordering (imm_cmp_float F y x)
      | (ImmI128 x, ImmI128 y) \<Rightarrow> Some (order_of (sint x) (sint y))
      | (ImmI128 x, y) \<Rightarrow> do { j \<leftarrow> imm_as_i128 F y; Some (order_of (sint x) j) }
      | (x, ImmI128 y) \<Rightarrow> do { i \<leftarrow> imm_as_i128 F x; Some (order_of i (sint y)) }
      | (ImmU64 x, ImmU64 y) \<Rightarrow> Some (order_of (uint x) (uint y))
      | (ImmU64 x, y) \<Rightarrow>
          do { j \<leftarrow> imm_as_i64 F y; Some (order_of (uint x) (as_u64_cast j)) }
      | (x, ImmU64 y) \<Rightarrow>
          do { i \<leftarrow> imm_as_i64 F x; Some (order_of (as_u64_cast i) (uint y)) }
      | (x, y) \<Rightarrow>
          do { i \<leftarrow> imm_as_i64 F x; j \<leftarrow> imm_as_i64 F y; Some (order_of i j) })"

section \<open>Conversions are exact\<close>

text \<open>The number an integer immediate stands for.\<close>

primrec imm_value :: "'f felt_ops \<Rightarrow> 'f immediate \<Rightarrow> int option" where
  "imm_value F (ImmI1 b) = Some (of_bool b)"
| "imm_value F (ImmU8 i) = Some (uint i)"
| "imm_value F (ImmI8 i) = Some (sint i)"
| "imm_value F (ImmU16 i) = Some (uint i)"
| "imm_value F (ImmI16 i) = Some (sint i)"
| "imm_value F (ImmU32 i) = Some (uint i)"
| "imm_value F (ImmI32 i) = Some (sint i)"
| "imm_value F (ImmU64 i) = Some (uint i)"
| "imm_value F (ImmI64 i) = Some (sint i)"
| "imm_value F (ImmI128 i) = Some (sint i)"
| "imm_value F (ImmF64 _) = None"
| "imm_value F (ImmFelt i) = Some (uint (felt_as_int F i))"

lemma sint_less: "2 ^ (LENGTH('a) - 1) \<le> n \<Longrightarrow> sint (w :: 'a::len word) < n"
  using sint_lt [of w] by linarith

lemma less_sint: "n \<le> - (2 ^ (LENGTH('a) - 1)) \<Longrightarrow> n \<le> sint (w :: 'a::len word)"
  using sint_ge [of w] by linarith

lemma uint_less: "2 ^ LENGTH('a) \<le> n \<Longrightarrow> uint (w :: 'a::len word) < n"
  using uint_bounded [of w] by linarith

lemma imm_value_range: "imm_value F imm = Some v \<Longrightarrow> - (2 ^ 127) \<le> v \<and> v < 2 ^ 127"
  by (cases imm)
    (auto simp: sint_less less_sint uint_less intro: order_trans [OF _ uint_nonnegative])

lemma imm_as_i128_value: "imm_value F imm = Some v \<Longrightarrow> imm_as_i128 F imm = Some v"
  by (cases imm) (auto simp: imm_as_i128_def)

lemma imm_as_i64_value:
  "imm_value F imm = Some v \<Longrightarrow> imm_as_i64 F imm = fits (- (2 ^ 63)) (2 ^ 63) v"
  by (cases imm)
    (auto simp: imm_as_i64_def fits_def sint_less less_sint uint_less not_less not_le
      intro: order_trans [OF _ uint_nonnegative])

lemma imm_as_u64_value:
  "imm_value F imm = Some v \<Longrightarrow> imm_as_u64 F imm = map_option of_int (fits 0 (2 ^ 64) v)"
  by (cases imm)
    (auto simp: imm_as_u64_def fits_def sint_less less_sint uint_less not_less not_le)

lemma imm_as_u32_value:
  "imm_value F imm = Some v \<Longrightarrow> imm_as_u32 F imm = map_option of_int (fits 0 (2 ^ 32) v)"
  by (cases imm)
    (auto simp: imm_as_u32_def fits_def sint_less less_sint uint_less not_less not_le)

lemma unat_of_int: "0 \<le> v \<Longrightarrow> v < 2 ^ 64 \<Longrightarrow> unat (word_of_int v :: u64) = nat v"
  by (simp only: unat_eq_nat_uint uint_word_of_int) simp

lemma imm_as_felt_value:
  "imm_value F imm = Some v \<Longrightarrow> (\<And>i. felt_new F (felt_as_int F i) = i) \<Longrightarrow>
    imm_as_felt F imm = map_option (\<lambda>i. felt_new F (of_int i)) (fits 0 (2 ^ 64) v)"
  by (cases imm)
    (auto simp: imm_as_felt_def fits_def sint_less less_sint uint_less not_less not_le)

text \<open>
  C12. Every conversion of an integer immediate to a machine integer returns the number itself
  when the target type can hold it and \<open>None\<close> otherwise, whatever the width and the signedness
  of the source.  The conversion to a field element returns one for exactly the numbers that fit
  a \<open>u64\<close>, and the element stands for the number modulo the order of the field, so a number of
  \<open>u64\<close> from the order on is reduced and not refused.
\<close>

theorem conversions_are_exact:
  assumes "felt_field F" and v: "imm_value F imm = Some v"
  shows "imm_as_u32 F imm = map_option of_int (fits 0 (2 ^ 32) v)
    \<and> imm_as_u64 F imm = map_option of_int (fits 0 (2 ^ 64) v)
    \<and> imm_as_i64 F imm = fits (- (2 ^ 63)) (2 ^ 63) v
    \<and> imm_as_i128 F imm = Some v \<and> - (2 ^ 127) \<le> v \<and> v < 2 ^ 127
    \<and> (case imm_as_felt F imm of
         None \<Rightarrow> \<not> (0 \<le> v \<and> v < 2 ^ 64)
       | Some x \<Rightarrow> 0 \<le> v \<and> v < 2 ^ 64 \<and> unat (felt_as_int F x) = nat v mod felt_P)"
proof -
  have "case imm_as_felt F imm of
         None \<Rightarrow> \<not> (0 \<le> v \<and> v < 2 ^ 64)
       | Some x \<Rightarrow> 0 \<le> v \<and> v < 2 ^ 64 \<and> unat (felt_as_int F x) = nat v mod felt_P"
    using imm_as_felt_value [OF v felt_field.new_as_int [OF assms(1)]] felt_field.as_int_new [OF assms(1)]
    by (auto simp: fits_def unat_of_int)
  then show ?thesis
    using imm_as_u32_value [OF v] imm_as_u64_value [OF v] imm_as_i64_value [OF v]
      imm_as_i128_value [OF v] imm_value_range [OF v]
    by blast
qed

theorem conversions_are_exact_witness:
  "imm_as_u32 ref_ops (ImmI16 (- 5)) = None \<and> imm_as_i128 ref_ops (ImmI16 (- 5)) = Some (- 5)"
  using conversions_are_exact [OF ref_felt_field, of "ImmI16 (- 5)" "- 5"]
  by (simp add: fits_def)

lemma reverse_order_of: "reverse_ordering (order_of a b) = order_of b a"
  by (simp add: order_of_def)

lemma imm_cmp_reverse:
  assumes x: "imm_value F x = Some a" and y: "imm_value F y = Some b"
  shows "imm_cmp F y x = map_option reverse_ordering (imm_cmp F x y)"
proof -
  note as = imm_as_i128_value [OF x] imm_as_i128_value [OF y] imm_as_i64_value [OF x] imm_as_i64_value [OF y]
  have bind: "map_option reverse_ordering (Option.bind p (\<lambda>i. Option.bind q (\<lambda>j. Some (order_of i j)))) =
      Option.bind q (\<lambda>j. Option.bind p (\<lambda>i. Some (order_of j i)))" for p q
    by (cases p; cases q) (simp_all add: reverse_order_of)
  show ?thesis
    using as x y by (cases x; cases y) (simp_all add: imm_cmp_def bind fits_def reverse_order_of)
qed

text \<open>
  C13. The order of integer immediates, of any two types.  When one of them is an \<open>I128\<close>, or both
  are \<open>U64\<close>, it is the order of the numbers.  When none of them is an \<open>I128\<close> or a \<open>U64\<close>, it is the
  order of the numbers if both fit an \<open>i64\<close>, and a panic otherwise.  A \<open>U64\<close> and a number of
  another type that fits an \<open>i64\<close> compare by their numbers if that number is not negative; a
  negative one is taken for the \<open>u64\<close> of its bits and compares above every smaller \<open>U64\<close>, which
  is a defect; one that does not fit is a panic.  Exchanging the two reverses the result.
\<close>

theorem comparison_is_numeric:
  assumes x: "imm_value F x = Some a" and y: "imm_value F y = Some b"
  shows "(TyI128 \<in> {imm_ty x, imm_ty y} \<or> imm_ty x = TyU64 \<and> imm_ty y = TyU64 \<longrightarrow>
       imm_cmp F x y = Some (order_of a b)) \<and>
    ({TyI128, TyU64} \<inter> {imm_ty x, imm_ty y} = {} \<longrightarrow>
       imm_cmp F x y = (if - (2 ^ 63) \<le> a \<and> a < 2 ^ 63 \<and> - (2 ^ 63) \<le> b \<and> b < 2 ^ 63
         then Some (order_of a b) else None)) \<and>
    (imm_ty x = TyU64 \<and> imm_ty y \<notin> {TyU64, TyI128} \<longrightarrow>
       imm_cmp F x y = (if - (2 ^ 63) \<le> b \<and> b < 2 ^ 63
         then Some (order_of a (if 0 \<le> b then b else b + 2 ^ 64)) else None)) \<and>
    imm_cmp F y x = map_option reverse_ordering (imm_cmp F x y)"
proof (intro conjI impI)
  note as = imm_as_i128_value [OF x] imm_as_i128_value [OF y] imm_as_i64_value [OF x] imm_as_i64_value [OF y]
  have cast: "as_u64_cast i = (if 0 \<le> i then i else i + 2 ^ 64)" if "- (2 ^ 63) \<le> i" "i < 2 ^ 63" for i
  proof (cases "0 \<le> i")
    case False
    have "i mod 2 ^ 64 = (i + 2 ^ 64) mod 2 ^ 64" by simp
    also have "\<dots> = i + 2 ^ 64" using that False by (intro mod_pos_pos_trivial) simp_all
    finally show ?thesis using False by (simp add: as_u64_cast_def)
  qed (use that in \<open>simp add: as_u64_cast_def\<close>)
  show "imm_cmp F x y = Some (order_of a b)"
    if "TyI128 \<in> {imm_ty x, imm_ty y} \<or> imm_ty x = TyU64 \<and> imm_ty y = TyU64"
    using that as x y by (cases x; cases y) (simp_all add: imm_cmp_def)
  show "imm_cmp F x y = (if - (2 ^ 63) \<le> a \<and> a < 2 ^ 63 \<and> - (2 ^ 63) \<le> b \<and> b < 2 ^ 63
      then Some (order_of a b) else None)"
    if "{TyI128, TyU64} \<inter> {imm_ty x, imm_ty y} = {}"
    using that as x y by (cases x; cases y) (simp_all add: imm_cmp_def fits_def)
  show "imm_cmp F x y = (if - (2 ^ 63) \<le> b \<and> b < 2 ^ 63
      then Some (order_of a (if 0 \<le> b then b else b + 2 ^ 64)) else None)"
    if "imm_ty x = TyU64 \<and> imm_ty y \<notin> {TyU64, TyI128}"
    using that as x y cast [of b] by (cases x; cases y) (simp_all add: imm_cmp_def fits_def)
  show "imm_cmp F y x = map_option reverse_ordering (imm_cmp F x y)" by (rule imm_cmp_reverse [OF x y])
qed

theorem comparison_is_numeric_witness:
  "imm_cmp ref_ops (ImmI8 (- 3)) (ImmU32 7) = Some Less \<and> imm_cmp ref_ops (ImmU64 5) (ImmI8 (- 3)) = Some Less"
  using comparison_is_numeric [of ref_ops "ImmI8 (- 3)" "- 3" "ImmU32 7" 7]
    comparison_is_numeric [of ref_ops "ImmU64 5" 5 "ImmI8 (- 3)" "- 3"]
  by (simp add: order_of_def)

text \<open>
  Where the immediates are not what they say.  \<open>is_odd\<close> answers whether an integer is
  even; \<open>is_non_negative\<close> rejects zero; booleans and \<open>U8\<close> immediates are not equal to
  themselves; a \<open>U64\<close> compares below every negative number; and \<open>-2.0\<close>, an integral float,
  has no \<open>i128\<close> and compares below \<open>-5\<close>.
\<close>

theorem immediate_defects:
  "is_odd F (ImmU32 i) = Some (even (uint i)) \<and> \<not> is_non_negative (ImmI32 0 :: 'f immediate)
  \<and> \<not> imm_eq F (ImmI1 b) (ImmI1 b) \<and> \<not> imm_eq F (ImmU8 n) (ImmU8 n)
  \<and> imm_cmp F (ImmU64 5) (ImmI8 (- 1)) = Some Less
  \<and> imm_as_i128 F (ImmF64 0xC000000000000000) = None
  \<and> imm_cmp F (ImmF64 0xC000000000000000) (ImmI8 (- 5)) = Some Less"
  by (intro conjI)
    (simp_all add: even_iff_mod_2_eq_zero imm_eq_def imm_cmp_def imm_as_i64_def order_of_def as_u64_cast_def
    imm_as_i128_def f64_to_i128_def float_to_int_def f64_exponent_def f64_fraction_def
    f64_integer_def imm_cmp_float_def f64_trunc_def Let_def)

end
