(* ===== verification/OpStack.thy ===== *)
theory OpStack
  imports Immediates Layout VmStack
begin

text \<open>
  The operand stack of the code generator (codegen/masm/src/stackify/operand_stack.rs): typed
  operands that take one to four elements of the runtime stack each.  The vector holds the top
  at its end.  \<open>None\<close> is a panic; the nested options of \<open>os_peekw\<close> and \<open>os_popw\<close> are the
  \<open>Option\<close> those functions return.
\<close>

section \<open>Operands\<close>

datatype 'f constant_value = CImm "'f immediate" | CBytes "u8 list"

primrec constant_ty :: "'f constant_value \<Rightarrow> hir_type" where
  "constant_ty (CImm imm) = imm_ty imm"
| "constant_ty (CBytes bytes) = TyArray TyU8 (length bytes)"

definition constant_eq :: "'f felt_ops \<Rightarrow> 'f constant_value \<Rightarrow> 'f constant_value \<Rightarrow> bool option" where
  "constant_eq F x y =
     (case (x, y) of
        (CImm a, CImm b) \<Rightarrow> map_option (\<lambda>r. r = Equal) (imm_cmp F a b)
      | (CBytes a, CBytes b) \<Rightarrow> Some (a = b)
      | _ \<Rightarrow> Some False)"

record typed_value =
  tv_value :: nat
  tv_ty :: hir_type

datatype 'f operand_type = OpConst "'f constant_value" | OpValue typed_value | OpType hir_type

primrec operand_ty :: "'f operand_type \<Rightarrow> hir_type" where
  "operand_ty (OpConst imm) = constant_ty imm"
| "operand_ty (OpValue tv) = tv_ty tv"
| "operand_ty (OpType ty) = ty"

definition operand_eq :: "'f felt_ops \<Rightarrow> 'f operand_type \<Rightarrow> 'f operand_type \<Rightarrow> bool option" where
  "operand_eq F x y =
     (case (x, y) of
        (OpValue a, OpValue b) \<Rightarrow> Some (tv_value a = tv_value b)
      | (OpValue _, _) \<Rightarrow> Some False
      | (_, OpValue _) \<Rightarrow> Some False
      | (OpConst a, OpConst b) \<Rightarrow> constant_eq F a b
      | (OpConst _, _) \<Rightarrow> Some False
      | (_, OpConst _) \<Rightarrow> Some False
      | (OpType a, OpType b) \<Rightarrow> Some (a = b))"

definition operand_is_value :: "'f operand_type \<Rightarrow> nat \<Rightarrow> bool" where
  "operand_is_value x v = (case x of OpValue this \<Rightarrow> tv_value this = v | _ \<Rightarrow> False)"

text \<open>The word of an operand is a stack of its own, with the first part at the end.\<close>

record 'f operand =
  op_word :: "hir_type list"
  op_operand :: "'f operand_type"

definition new_operand :: "'f operand_type \<Rightarrow> 'f operand option" where
  "new_operand x =
     do { parts \<leftarrow> to_raw_parts (operand_ty x);
          word \<leftarrow> parts;
          assert_that (word \<noteq> []);
          assert_that (length word \<le> 4);
          Some \<lparr>op_word = (if length word > 1 then rev word else word), op_operand = x\<rparr> }"

definition op_size :: "'f operand \<Rightarrow> nat" where
  "op_size x = length (op_word x)"

definition op_ty :: "'f operand \<Rightarrow> hir_type" where
  "op_ty x = operand_ty (op_operand x)"

text \<open>\<open>op_pop x\<close> is the popped operand and what \<open>x\<close> becomes.\<close>

definition pop_word :: "'f operand_type \<Rightarrow> 'f operand_type \<Rightarrow> hir_type list \<Rightarrow>
    ('f operand \<times> 'f operand) option" where
  "pop_word taken rest word =
     do { assert_that (word \<noteq> []);
          Some (\<lparr>op_word = [last word], op_operand = taken\<rparr>,
                \<lparr>op_word = butlast word, op_operand = rest\<rparr>) }"

definition u128_to_le_bytes :: "u128 \<Rightarrow> u8 list" where
  "u128_to_le_bytes i = map (\<lambda>k. ucast (drop_bit (8 * k) i)) [0..<16]"

definition split_operand :: "hir_type \<Rightarrow> hir_type list \<Rightarrow> ('f operand \<times> 'f operand) option" where
  "split_operand ty word =
     do { (ty', rest) \<leftarrow> split ty 4;
          rest' \<leftarrow> rest;
          pop_word (OpType ty') (OpType rest') word }"

definition op_pop :: "'f operand \<Rightarrow> ('f operand \<times> 'f operand) option" where
  "op_pop x =
     (if length (op_word x) = 1 then Some (x, x)
      else case op_operand x of
        OpConst (CBytes bytes) \<Rightarrow> do {
          assert_that (length bytes > 4);
          pop_word (OpConst (CBytes (take 4 bytes))) (OpConst (CBytes (drop 4 bytes))) (op_word x) }
      | OpConst (CImm (ImmU64 i)) \<Rightarrow>
          pop_word (OpConst (CImm (ImmU32 (ucast (drop_bit 32 i)))))
            (OpConst (CImm (ImmU32 (ucast i)))) (op_word x)
      | OpConst (CImm (ImmI64 i)) \<Rightarrow>
          pop_word (OpConst (CImm (ImmU32 (ucast (drop_bit 32 i)))))
            (OpConst (CImm (ImmU32 (ucast i)))) (op_word x)
      | OpConst (CImm (ImmF64 f)) \<Rightarrow>
          pop_word (OpConst (CImm (ImmU32 (ucast f))))
            (OpConst (CImm (ImmU32 (ucast (drop_bit 32 f))))) (op_word x)
      | OpConst (CImm (ImmI128 i)) \<Rightarrow>
          pop_word (OpConst (CImm (ImmU32 (ucast i))))
            (OpConst (CBytes (drop 4 (u128_to_le_bytes i)))) (op_word x)
      | OpConst (CImm _) \<Rightarrow> None
      | OpValue tv \<Rightarrow> split_operand (tv_ty tv) (op_word x)
      | OpType ty \<Rightarrow> split_operand ty (op_word x))"

section \<open>The stack\<close>

type_synonym 'f opstack = "'f operand list"

definition op_sizes :: "'f opstack \<Rightarrow> nat" where
  "op_sizes xs = sum_list (map op_size xs)"

text \<open>The \<open>Index\<close> implementation: the operand must end within the first 16 elements.\<close>

definition os_index :: "'f opstack \<Rightarrow> nat \<Rightarrow> 'f operand option" where
  "os_index s index =
     do { let len = length s;
          assert_that (index < len);
          let effective_len = op_sizes (take (index + 1) (rev s));
          assert_that (effective_len \<le> 16);
          Some (s ! (len - index - 1)) }"

definition rename_operand :: "nat \<Rightarrow> 'f operand_type \<Rightarrow> 'f operand_type" where
  "rename_operand v x =
     (case x of
        OpValue tv \<Rightarrow> OpValue (tv\<lparr>tv_value := v\<rparr>)
      | prev \<Rightarrow> OpValue \<lparr>tv_value = v, tv_ty = operand_ty prev\<rparr>)"

definition os_rename :: "nat \<Rightarrow> nat \<Rightarrow> 'f opstack \<Rightarrow> 'f opstack option" where
  "os_rename n v s =
     do { x \<leftarrow> os_index s n;
          Some (s[length s - n - 1 := x\<lparr>op_operand := rename_operand v (op_operand x)\<rparr>]) }"

fun position :: "('a \<Rightarrow> bool) \<Rightarrow> 'a list \<Rightarrow> nat option" where
  "position P [] = None"
| "position P (x # xs) = (if P x then Some 0 else map_option Suc (position P xs))"

definition os_find :: "nat \<Rightarrow> 'f opstack \<Rightarrow> nat option" where
  "os_find v s = position (\<lambda>x. operand_is_value (op_operand x) v) (rev s)"

definition os_raw_len :: "'f opstack \<Rightarrow> nat" where
  "os_raw_len s = op_sizes s"

definition effective_index :: "nat \<Rightarrow> 'f opstack \<Rightarrow> nat option" where
  "effective_index index s =
     do { assert_that (index < length s);
          Some (op_sizes (take index (rev s))) }"

definition effective_index_inclusive :: "nat \<Rightarrow> 'f opstack \<Rightarrow> nat option" where
  "effective_index_inclusive index s =
     do { assert_that (index < length s);
          usize_sub (op_sizes (take (index + 1) (rev s))) 1 }"

definition os_peek :: "'f opstack \<Rightarrow> 'f operand option" where
  "os_peek s = (if s = [] then None else Some (last s))"

text \<open>
  The loop of \<open>peekw\<close> and \<open>popw\<close>: \<open>n\<close> elements taken off a stack of operands, one at a time.
\<close>

fun take_elements :: "nat \<Rightarrow> 'f opstack \<Rightarrow> ('f operand list \<times> 'f opstack) option" where
  "take_elements 0 s = Some ([], s)"
| "take_elements (Suc n) s =
     (if s = [] then None
      else if op_size (last s) = 1 then do {
        (xs, s') \<leftarrow> take_elements n (butlast s);
        Some (last s # xs, s') }
      else do {
        (a, elem) \<leftarrow> op_pop (last s);
        (xs, s') \<leftarrow> take_elements n (butlast s @ [elem]);
        Some (a # xs, s') })"

definition os_peekw :: "'f opstack \<Rightarrow> 'f operand list option option" where
  "os_peekw s =
     (if s = [] \<or> os_raw_len s < 4 then Some None
      else do {
        start \<leftarrow> usize_sub (length s - 1) 3;
        (word, _) \<leftarrow> take_elements 4 (drop start s);
        Some (Some word) })"

definition os_padw :: "'f opstack \<Rightarrow> 'f opstack" where
  "os_padw s = s @ replicate 4 \<lparr>op_word = [TyU32], op_operand = OpConst (CImm (ImmU32 0))\<rparr>"

definition os_push :: "'f operand \<Rightarrow> 'f opstack \<Rightarrow> 'f opstack" where
  "os_push x s = s @ [x]"

fun os_pushw :: "'f operand word4 \<Rightarrow> 'f opstack \<Rightarrow> 'f opstack option" where
  "os_pushw (a, b, c, d) s =
     do { assert_that (\<forall>x \<in> set [a, b, c, d]. op_size x = 1);
          Some (s @ rev [a, b, c, d]) }"

definition os_pop :: "'f opstack \<Rightarrow> 'f operand option \<times> 'f opstack" where
  "os_pop s = (if s = [] then (None, s) else (Some (last s), butlast s))"

definition os_popw :: "'f opstack \<Rightarrow> ('f operand list option \<times> 'f opstack) option" where
  "os_popw s =
     (if os_raw_len s < 4 then Some (None, s)
      else do { (word, s') \<leftarrow> take_elements 4 s; Some (Some word, s') })"

definition os_drop :: "'f opstack \<Rightarrow> 'f opstack option" where
  "os_drop s = (case os_pop s of (None, _) \<Rightarrow> None | (Some _, s') \<Rightarrow> Some s')"

text \<open>\<open>op_pop_n n x\<close> is what remains of \<open>x\<close> after \<open>n\<close> pops.\<close>

fun op_pop_n :: "nat \<Rightarrow> 'f operand \<Rightarrow> 'f operand option" where
  "op_pop_n 0 x = Some x"
| "op_pop_n (Suc n) x = do { (_, x') \<leftarrow> op_pop x; op_pop_n n x' }"

function dropw_loop :: "nat \<Rightarrow> 'f opstack \<Rightarrow> 'f opstack option" where
  "dropw_loop dropped s =
     (if s = [] then Some s
      else do {
        needed \<leftarrow> usize_sub 4 dropped;
        let size = op_size (last s);
        if needed = size then Some (butlast s)
        else if needed < size then do {
          x \<leftarrow> op_pop_n needed (last s);
          Some (butlast s @ [x]) }
        else dropw_loop (dropped + size) (butlast s) })"
  by pat_completeness auto
termination by (relation "measure (length \<circ> snd)") auto

declare dropw_loop.simps [simp del]

definition os_dropw :: "'f opstack \<Rightarrow> 'f opstack option" where
  "os_dropw s = do { assert_that (os_raw_len s \<ge> 4); dropw_loop 0 s }"

definition os_dropn :: "nat \<Rightarrow> 'f opstack \<Rightarrow> 'f opstack option" where
  "os_dropn n s =
     do { assert_that (n \<le> length s);
          Some (take (length s - n) s) }"

definition os_dup :: "nat \<Rightarrow> 'f opstack \<Rightarrow> 'f opstack option" where
  "os_dup n s = do { x \<leftarrow> os_index s n; Some (s @ [x]) }"

definition os_swap :: "nat \<Rightarrow> 'f opstack \<Rightarrow> 'f opstack option" where
  "os_swap n s =
     do { assert_that (n \<noteq> 0);
          let len = length s;
          assert_that (n < len);
          let a = len - 1; let b = a - n;
          Some (list_swap a b s) }"

definition os_movup :: "nat \<Rightarrow> 'f opstack \<Rightarrow> 'f opstack option" where
  "os_movup n s =
     do { assert_that (n \<noteq> 0);
          let len = length s;
          assert_that (n < len);
          let mid = len - (n + 1);
          r \<leftarrow> slice_rotate_left 1 (drop mid s);
          Some (take mid s @ r) }"

definition os_movdn :: "nat \<Rightarrow> 'f opstack \<Rightarrow> 'f opstack option" where
  "os_movdn n s =
     do { assert_that (n \<noteq> 0);
          let len = length s;
          assert_that (n < len);
          let mid = len - (n + 1);
          r \<leftarrow> slice_rotate_right 1 (drop mid s);
          Some (take mid s @ r) }"

section \<open>The stack read from the top\<close>

lemma op_sizes_simps [simp]:
  "op_sizes [] = 0" "op_sizes (x # xs) = op_size x + op_sizes xs"
  "op_sizes (xs @ ys) = op_sizes xs + op_sizes ys" "op_sizes (rev xs) = op_sizes xs"
  by (simp_all add: op_sizes_def rev_map [symmetric])

lemma op_sizes_topdown [simp]: "op_sizes (topdown xs) = op_sizes xs"
  by (simp add: topdown_def)

lemma raw_len_topdown [stack_simps]: "os_raw_len (topdown xs) = op_sizes xs"
  by (simp add: os_raw_len_def)

lemma os_index_topdown [stack_simps]:
  "os_index (topdown xs) n =
     (if n < length xs \<and> op_sizes (take (Suc n) xs) \<le> 16 then Some (xs ! n) else None)"
  by (auto simp: os_index_def topdown_def bind_assert_that Let_def rev_nth)

lemma effective_index_topdown [stack_simps]:
  "effective_index n (topdown xs) =
     (if n < length xs then Some (op_sizes (take n xs)) else None)"
  by (simp add: effective_index_def topdown_def bind_assert_that)

lemma effective_index_inclusive_topdown [stack_simps]:
  "effective_index_inclusive n (topdown xs) =
     (if n < length xs then usize_sub (op_sizes (take (Suc n) xs)) 1 else None)"
  by (simp add: effective_index_inclusive_def topdown_def bind_assert_that)

lemma os_peek_topdown [stack_simps]:
  "os_peek (topdown xs) = (case xs of [] \<Rightarrow> None | x # _ \<Rightarrow> Some x)"
  by (cases xs) (simp_all add: os_peek_def topdown_def)

lemma os_push_topdown [stack_simps]: "os_push x (topdown xs) = topdown (x # xs)"
  by (simp add: os_push_def topdown_def)

lemma os_pop_topdown [stack_simps]:
  "os_pop (topdown xs) = (case xs of [] \<Rightarrow> (None, topdown []) | x # xs' \<Rightarrow> (Some x, topdown xs'))"
  by (cases xs) (simp_all add: os_pop_def topdown_def)

lemma os_drop_topdown [stack_simps]:
  "os_drop (topdown xs) = (case xs of [] \<Rightarrow> None | _ # xs' \<Rightarrow> Some (topdown xs'))"
  by (cases xs) (simp_all add: os_drop_def stack_simps)

lemma os_dropn_topdown [stack_simps]:
  "os_dropn n (topdown xs) = (if n \<le> length xs then Some (topdown (drop n xs)) else None)"
  by (simp add: os_dropn_def topdown_def assert_that_def rev_drop)

lemma os_dup_topdown [stack_simps]:
  "os_dup n (topdown xs) =
     (if n < length xs \<and> op_sizes (take (Suc n) xs) \<le> 16
      then Some (topdown (xs ! n # xs)) else None)"
  by (auto simp: os_dup_def os_index_topdown, simp add: topdown_def)

lemma os_swap_topdown [stack_simps]:
  "os_swap n (topdown xs) =
     (if n \<noteq> 0 \<and> n < length xs then Some (topdown (list_swap 0 n xs)) else None)"
  using swap_topdown [of n xs] by (simp add: os_swap_def vm_swap_def)

lemma os_movup_topdown [stack_simps]:
  "os_movup n (topdown xs) =
     (if n \<noteq> 0 \<and> n < length xs then Some (topdown (move_up n xs)) else None)"
  using movup_topdown [of n xs] by (simp add: os_movup_def vm_movup_def)

lemma os_movdn_topdown [stack_simps]:
  "os_movdn n (topdown xs) =
     (if n \<noteq> 0 \<and> n < length xs then Some (topdown (move_down n xs)) else None)"
  using movdn_topdown [of n xs] by (simp add: os_movdn_def vm_movdn_def)

interpretation os: operand_stack rev os_drop os_dup os_swap os_movup os_movdn
proof unfold_locales
  fix s t :: "'f opstack" and n :: nat
  show "rev s = rev t \<Longrightarrow> s = t" by simp
  show "map_option rev (os_drop s) = (case rev s of [] \<Rightarrow> None | _ # xs \<Rightarrow> Some xs)"
    using os_drop_topdown [of "rev s"] by (auto split: list.splits)
  show "os_dup n s = Some t \<Longrightarrow> n < length (rev s) \<and> rev t = rev s ! n # rev s"
    using os_dup_topdown [of n "rev s"] by (auto simp: topdown_def split: if_splits)
  show "map_option rev (os_swap n s) =
      (if n \<noteq> 0 \<and> n < length (rev s) then Some (list_swap 0 n (rev s)) else None)"
    using os_swap_topdown [of n "rev s"] by simp
  show "map_option rev (os_movup n s) =
      (if n \<noteq> 0 \<and> n < length (rev s) then Some (move_up n (rev s)) else None)"
    using os_movup_topdown [of n "rev s"] by simp
  show "map_option rev (os_movdn n s) =
      (if n \<noteq> 0 \<and> n < length (rev s) then Some (move_down n (rev s)) else None)"
    using os_movdn_topdown [of n "rev s"] by simp
qed

section \<open>Words of elements\<close>

text \<open>
  \<open>typed_wf x\<close>: an SSA value or an intermediate value whose word has one entry per raw part of
  its type.  \<open>new_operand\<close> creates such operands and popping an element keeps them.
\<close>

definition typed_wf :: "'f operand \<Rightarrow> bool" where
  "typed_wf x \<longleftrightarrow>
     (case op_operand x of OpConst _ \<Rightarrow> False | _ \<Rightarrow> True) \<and> op_word x \<noteq> [] \<and>
     (\<exists>ps. raw_parts_from (Some (op_ty x)) [] = Some ps \<and> length ps = op_size x)"

lemma raw_parts_from_append:
  assumes "raw_parts_from r ps = Some qs"
  shows "\<exists>ts. qs = ps @ ts \<and> (\<forall>ps'. raw_parts_from r ps' = Some (ps' @ ts))"
proof (rule raw_parts_from.raw_induct [OF _ assms])
  fix f and r :: "hir_type option" and ps qs
  assume IH: "\<And>r ps qs. f r ps = Some qs \<Longrightarrow>
      \<exists>ts. qs = ps @ ts \<and> (\<forall>ps'. raw_parts_from r ps' = Some (ps' @ ts))"
    and eq: "(case r of None \<Rightarrow> Some ps
      | Some ty \<Rightarrow> split ty 4 \<bind> (\<lambda>r. f (snd r) (ps @ [fst r]))) = Some qs"
  show "\<exists>ts. qs = ps @ ts \<and> (\<forall>ps'. raw_parts_from r ps' = Some (ps' @ ts))"
  proof (cases r)
    case None
    with eq show ?thesis by (simp add: raw_parts_from.simps)
  next
    case (Some ty)
    with eq obtain x where x: "split ty 4 = Some x" "f (snd x) (ps @ [fst x]) = Some qs"
      by auto
    from IH [OF x(2)] obtain ts where "qs = (ps @ [fst x]) @ ts"
      "\<forall>ps'. raw_parts_from (snd x) ps' = Some (ps' @ ts)" by blast
    with Some x(1) show ?thesis
      by (simp add: raw_parts_from.simps [of "Some ty"])
  qed
qed

lemma new_operand_wf:
  assumes "new_operand x = Some y" "\<And>c. x \<noteq> OpConst c"
  shows "typed_wf y" "1 \<le> op_size y" "op_size y \<le> 4"
proof -
  from assms obtain word where w: "to_raw_parts (operand_ty x) = Some (Some word)" "word \<noteq> []"
    "length word \<le> 4"
    "y = \<lparr>op_word = (if length word > 1 then rev word else word), op_operand = x\<rparr>"
    by (auto simp: new_operand_def)
  then have "raw_parts_from (Some (operand_ty x)) [] = Some word"
    by (auto simp: to_raw_parts_def split: if_splits)
  with w assms(2) show "typed_wf y"
    by (cases x) (auto simp: typed_wf_def op_ty_def op_size_def)
  show "1 \<le> op_size y" "op_size y \<le> 4"
    using w by (auto simp: op_size_def Suc_le_eq)
qed

lemma typed_wf_split:
  assumes "typed_wf x" "op_size x > 1"
  obtains t r where "split (op_ty x) 4 = Some (t, Some r)"
    "op_pop x = Some (\<lparr>op_word = [last (op_word x)], op_operand = OpType t\<rparr>,
      \<lparr>op_word = butlast (op_word x), op_operand = OpType r\<rparr>)"
    "typed_wf \<lparr>op_word = butlast (op_word x), op_operand = OpType r\<rparr>"
proof -
  from assms obtain ps where ps: "raw_parts_from (Some (op_ty x)) [] = Some ps"
    "length ps = op_size x" "op_word x \<noteq> []" by (auto simp: typed_wf_def)
  then obtain t r' where tr: "split (op_ty x) 4 = Some (t, r')" "raw_parts_from r' [t] = Some ps"
    by (auto simp: raw_parts_from.simps [of "Some _"])
  then obtain ts where ts: "ps = t # ts" "\<forall>qs. raw_parts_from r' qs = Some (qs @ ts)"
    using raw_parts_from_append [OF tr(2)] by auto
  show thesis
  proof (cases r')
    case None
    with ts(2) have "ts = []" by (simp add: raw_parts_from.simps)
    with ts(1) ps(2) assms(2) show ?thesis by simp
  next
    case (Some r)
    have "op_pop x = split_operand (op_ty x) (op_word x)"
      using assms by (auto simp: op_pop_def typed_wf_def op_ty_def op_size_def
        split: operand_type.splits)
    with tr(1) Some ps(3) assms(2) have "op_pop x = Some
      (\<lparr>op_word = [last (op_word x)], op_operand = OpType t\<rparr>,
       \<lparr>op_word = butlast (op_word x), op_operand = OpType r\<rparr>)"
      by (simp add: split_operand_def pop_word_def)
    moreover have "typed_wf \<lparr>op_word = butlast (op_word x), op_operand = OpType r\<rparr>"
      using assms(2) ts ps(2) Some
      by (cases "op_word x") (auto simp: typed_wf_def op_size_def op_ty_def)
    ultimately show ?thesis using that tr(1) Some by blast
  qed
qed

lemma op_pop_wf:
  assumes "typed_wf x" "op_size x > 1"
  obtains a y where "op_pop x = Some (a, y)" "op_size a = 1" "typed_wf y"
    "op_size y = op_size x - 1"
  using typed_wf_split [OF assms] by (metis (no_types, lifting) op_size_def length_butlast
      One_nat_def length_Cons list.size(3) operand.select_convs(1))

lemma op_pop_n_wf:
  "typed_wf x \<Longrightarrow> n < op_size x \<Longrightarrow>
    \<exists>y. op_pop_n n x = Some y \<and> typed_wf y \<and> op_size y = op_size x - n"
proof (induction n arbitrary: x)
  case (Suc n)
  then obtain a y where "op_pop x = Some (a, y)" "typed_wf y" "op_size y = op_size x - 1"
    by (auto elim: op_pop_wf)
  with Suc show ?case by fastforce
qed simp

lemma typed_wf_size: "typed_wf x \<Longrightarrow> 0 < op_size x"
  by (auto simp: typed_wf_def op_size_def)

text \<open>
  \<open>take_operand n x\<close>: what taking \<open>n\<close> elements leaves of an operand, in the terms of
  \<open>take_elements\<close> and of the loop of \<open>dropw\<close>.
\<close>

lemma take_elements_last:
  "typed_wf x \<Longrightarrow> n < op_size x \<Longrightarrow>
    \<exists>as y. take_elements n (s @ [x]) = Some (as, s @ [y]) \<and> op_pop_n n x = Some y \<and>
      length as = n \<and> (\<forall>a \<in> set as. op_size a = 1) \<and> typed_wf y \<and> op_size y = op_size x - n"
proof (induction n arbitrary: x)
  case (Suc n)
  then obtain a y where y: "op_pop x = Some (a, y)" "op_size a = 1" "typed_wf y"
    "op_size y = op_size x - 1" by (auto elim: op_pop_wf)
  moreover from Suc.prems y(4) have "n < op_size y" by simp
  ultimately obtain as z where "take_elements n (s @ [y]) = Some (as, s @ [z])"
    "op_pop_n n y = Some z" "length as = n" "\<forall>a \<in> set as. op_size a = 1" "typed_wf z"
    "op_size z = op_size y - n"
    using Suc.IH [of y] by blast
  with y Suc.prems show ?case by simp
qed simp

lemma take_elements_whole:
  "typed_wf x \<Longrightarrow>
    \<exists>as. length as = op_size x \<and> (\<forall>a \<in> set as. op_size a = 1) \<and>
      take_elements (op_size x + n) (s @ [x]) =
        map_option (apfst ((@) as)) (take_elements n s)"
proof (induction "op_size x" arbitrary: x)
  case 0
  with typed_wf_size [of x] show ?case by simp
next
  case (Suc k)
  show ?case
  proof (cases "k = 0")
    case True
    with Suc(2) have "op_size x = 1" by simp
    then show ?thesis
      by (intro exI [of _ "[x]"]) (cases "take_elements n s", auto)
  next
    case False
    with Suc obtain a y where y: "op_pop x = Some (a, y)" "op_size a = 1" "typed_wf y"
      "op_size y = op_size x - 1" by (auto elim: op_pop_wf [of x])
    from y(4) Suc(2) have "k = op_size y" by simp
    from Suc(1) [OF this y(3)] obtain as where "length as = op_size y"
      "\<forall>a \<in> set as. op_size a = 1"
      "take_elements (op_size y + n) (s @ [y]) = map_option (apfst ((@) as)) (take_elements n s)"
      by auto
    moreover have size: "op_size x = Suc (op_size y)" "op_size y \<noteq> 0"
      using y(4) Suc(2) False by linarith+
    ultimately show ?thesis using y(1,2)
      by (intro exI [of _ "a # as"]) (cases "take_elements n s", auto)
  qed
qed

lemma take_elements_wf:
  "\<forall>x \<in> set s. typed_wf x \<Longrightarrow> d + n = 4 \<Longrightarrow> n \<le> op_sizes s \<Longrightarrow> 0 < n \<Longrightarrow>
    \<exists>as t. take_elements n s = Some (as, t) \<and> dropw_loop d s = Some t \<and> length as = n \<and>
      (\<forall>a \<in> set as. op_size a = 1) \<and> (\<forall>x \<in> set t. typed_wf x) \<and> op_sizes t + n = op_sizes s"
proof (induction s arbitrary: n d rule: rev_induct)
  case (snoc x s)
  then have x: "typed_wf x" and s: "\<forall>x \<in> set s. typed_wf x" by auto
  have needed: "usize_sub 4 d = Some n" using snoc.prems by (simp add: usize_sub_def)
  show ?case
  proof (cases "n < op_size x")
    case True
    from take_elements_last [OF x True, of s] show ?thesis
      using True needed s by (fastforce simp: dropw_loop.simps [of d])
  next
    case False
    then obtain m where m: "n = op_size x + m" using le_Suc_ex not_less by blast
    obtain as where as: "length as = op_size x" "\<forall>a \<in> set as. op_size a = 1"
      "take_elements n (s @ [x]) = map_option (apfst ((@) as)) (take_elements m s)"
      using take_elements_whole [OF x, of m s] m by auto
    show ?thesis
    proof (cases "m = 0")
      case True
      with as m needed s show ?thesis by (auto simp: dropw_loop.simps [of d])
    next
      case False
      have "\<exists>bs t. take_elements m s = Some (bs, t) \<and> dropw_loop (d + op_size x) s = Some t \<and>
          length bs = m \<and> (\<forall>a \<in> set bs. op_size a = 1) \<and> (\<forall>x \<in> set t. typed_wf x) \<and>
          op_sizes t + m = op_sizes s"
        using snoc.IH [OF s, of "d + op_size x" m] snoc.prems False m by auto
      with as m needed False show ?thesis by (auto simp: dropw_loop.simps [of d])
    qed
  qed
qed simp

text \<open>
  On a stack of SSA values and intermediate values that covers at least four elements,
  \<open>popw\<close> returns a word of four single-element operands and leaves exactly four elements
  less, whatever the sizes of the operands it has to cut; \<open>dropw\<close> leaves the same stack, and
  both keep the words of the operands in step with their types.
\<close>

theorem popw_dropw_take_a_word:
  assumes "\<forall>x \<in> set s. typed_wf x" "4 \<le> os_raw_len s"
  shows "\<exists>word t. os_popw s = Some (Some word, t) \<and> os_dropw s = Some t \<and> length word = 4
    \<and> (\<forall>x \<in> set word. op_size x = 1) \<and> (\<forall>x \<in> set t. typed_wf x)
    \<and> os_raw_len t + 4 = os_raw_len s"
proof -
  obtain as t where "take_elements 4 s = Some (as, t)" "dropw_loop 0 s = Some t" "length as = 4"
    "\<forall>a \<in> set as. op_size a = 1" "\<forall>x \<in> set t. typed_wf x" "op_sizes t + 4 = op_sizes s"
    using take_elements_wf [OF assms(1), of 0 4] assms(2) by (auto simp: os_raw_len_def)
  with assms(2) show ?thesis
    by (simp add: os_popw_def os_dropw_def os_raw_len_def)
qed

definition u64_operand :: "'f operand" where
  "u64_operand = \<lparr>op_word = [TyArray TyU8 4, TyArray TyU8 4], op_operand = OpType TyU64\<rparr>"

lemma new_u64_operand: "new_operand (OpType TyU64) = Some u64_operand"
  by (simp add: new_operand_def u64_operand_def layout_eval cong: bind_weak_cong)

lemmas u64_operand_wf = new_operand_wf [OF new_u64_operand, simplified]

lemma u64_operand_size [simp]: "op_size u64_operand = 2"
  by (simp add: u64_operand_def op_size_def)

lemma pop_u64_operand:
  "op_pop u64_operand = Some (\<lparr>op_word = [TyArray TyU8 4], op_operand = OpType (TyArray TyU8 4)\<rparr>,
     \<lparr>op_word = [TyArray TyU8 4], op_operand = OpType (TyArray TyU8 4)\<rparr>)"
proof -
  have "split TyU64 4 = Some (TyArray TyU8 4, Some (TyArray TyU8 4))"
    by (simp add: layout_eval cong: bind_weak_cong)
  then show ?thesis
    by (simp add: op_pop_def u64_operand_def split_operand_def pop_word_def)
qed

theorem popw_dropw_take_a_word_witness:
  "\<exists>word t. os_popw [u64_operand, u64_operand, u64_operand :: 'f operand] = Some (Some word, t)
    \<and> length word = 4 \<and> os_raw_len t = 2"
proof -
  let ?s = "[u64_operand, u64_operand, u64_operand :: 'f operand]"
  have "os_raw_len ?s = 6"
    by (simp add: os_raw_len_def)
  with popw_dropw_take_a_word [of ?s] u64_operand_wf(1) [where 'a = 'f]
  show ?thesis by auto
qed

text \<open>
  \<open>peekw\<close> promises a word whenever four elements are there, but it takes the last four
  operands of the vector: on two \<open>u64\<close> operands, which are four elements, it panics, where
  \<open>popw\<close> returns the word.
\<close>

theorem peekw_needs_four_operands:
  "os_raw_len [u64_operand, u64_operand :: 'f operand] = 4 \<and> os_peekw [u64_operand, u64_operand :: 'f operand] = None
    \<and> (\<exists>word. os_popw [u64_operand, u64_operand :: 'f operand] = Some (Some word, []) \<and> length word = 4)"
proof -
  define p :: "'f operand" where
    "p = \<lparr>op_word = [TyArray TyU8 4], op_operand = OpType (TyArray TyU8 4)\<rparr>"
  have "take_elements (Suc (Suc (Suc (Suc 0)))) [u64_operand, u64_operand] = Some ([p, p, p, p], [])"
    by (simp add: pop_u64_operand p_def op_size_def [of "\<lparr>op_word = _, op_operand = _\<rparr>"])
  then have "take_elements 4 [u64_operand, u64_operand :: 'f operand] = Some ([p, p, p, p], [])"
    by (simp only: numeral_eq_Suc pred_numeral_simps arith_simps One_nat_def)
  then show ?thesis
    by (simp add: os_peekw_def os_popw_def os_raw_len_def usize_sub_def)
qed

section \<open>Renaming\<close>

lemma position_update:
  "n < length xs \<Longrightarrow> P y \<Longrightarrow> \<exists>m \<le> n. position P (xs[n := y]) = Some m"
  by (induction xs arbitrary: n) (fastforce simp: nth_Cons less_Suc_eq_0_disj split: nat.splits)+

lemma op_sizes_update:
  "n < length xs \<Longrightarrow> op_size y = op_size (xs ! n) \<Longrightarrow> op_sizes (xs[n := y]) = op_sizes xs"
  by (induction xs arbitrary: n) (auto split: nat.splits)

text \<open>
  Renaming the \<open>n\<close>th operand to a value makes that value the one found at \<open>n\<close> (or at a
  copy above it), keeps its type, every other operand, and the number of elements.
\<close>

theorem rename_then_find:
  assumes "os_rename n v s = Some t"
  shows "(\<exists>m \<le> n. os_find v t = Some m) \<and> os_raw_len t = os_raw_len s \<and> length t = length s
    \<and> map op_ty (rev t) = map op_ty (rev s)
    \<and> (\<forall>i < length s. i \<noteq> n \<longrightarrow> rev t ! i = rev s ! i)"
proof -
  define y where "y = (rev s ! n)\<lparr>op_operand := rename_operand v (op_operand (rev s ! n))\<rparr>"
  from assms have n: "n < length s" and "t = s[length s - n - 1 := y]"
    by (auto simp: os_rename_def os_index_def rev_nth y_def Let_def)
  then have t: "rev t = (rev s)[n := y]"
    by (simp add: rev_update)
  have y: "op_size y = op_size (rev s ! n)" "op_ty y = op_ty (rev s ! n)"
    "operand_is_value (op_operand y) v"
    by (auto simp: y_def op_size_def op_ty_def rename_operand_def operand_is_value_def
        split: operand_type.splits)
  have "\<exists>m \<le> n. os_find v t = Some m"
    using position_update [of n "rev s" "\<lambda>x. operand_is_value (op_operand x) v" y] n y(3) t
    by (simp add: os_find_def)
  moreover have "os_raw_len t = os_raw_len s"
    using op_sizes_update [of n "rev s" y] n y(1) t
    by (metis length_rev op_sizes_simps(4) os_raw_len_def)
  moreover have "map op_ty (rev t) = map op_ty (rev s)"
    using y(2) t n by (auto simp: map_update list_update_same_conv)
  moreover have "length t = length s"
    using arg_cong [OF t, of length] by simp
  ultimately show ?thesis using t by simp
qed

theorem rename_then_find_witness:
  "os_rename 1 7 [u64_operand, u64_operand]
    = Some [u64_operand\<lparr>op_operand := OpValue \<lparr>tv_value = 7, tv_ty = TyU64\<rparr>\<rparr>, u64_operand]
  \<and> (\<exists>m \<le> 1. os_find 7 [u64_operand\<lparr>op_operand := OpValue \<lparr>tv_value = 7, tv_ty = TyU64\<rparr>\<rparr>,
      u64_operand] = Some m)"
  using rename_then_find [THEN conjunct1, of 1 7 "[u64_operand, u64_operand]"
      "[u64_operand\<lparr>op_operand := OpValue \<lparr>tv_value = 7, tv_ty = TyU64\<rparr>\<rparr>, u64_operand]"]
  by (simp add: os_rename_def os_index_def u64_operand_def op_size_def rename_operand_def
      bind_assert_that)

end
