(* ===== verification/OpEmitter.thy ===== *)
theory OpEmitter
  imports OpStack ExecOps
begin

text \<open>
  The code emitter (codegen/masm/src/stackify/emit/mod.rs): every emitter appends instructions
  to the current block and updates the operand stack, which must stay in step with the runtime
  stack.  An emitter is modelled as a function from the operand stack to the instructions it
  appends and the new operand stack; \<open>None\<close> is a panic of the compiler.
\<close>

type_synonym 'f code = "'f masm_op list"
type_synonym 'f emitter = "'f opstack \<Rightarrow> ('f code \<times> 'f opstack) option"

section \<open>Emitting instructions\<close>

definition emit :: "'f masm_op \<Rightarrow> 'f emitter" where
  "emit op s = Some (block_push op [], s)"

definition emit_n :: "nat \<Rightarrow> 'f masm_op \<Rightarrow> 'f emitter" where
  "emit_n n op s = Some (block_push_n n op [], s)"

definition emit_all :: "'f code \<Rightarrow> 'f emitter" where
  "emit_all ops s = Some (ops, s)"

definition emit_repeat :: "nat \<Rightarrow> 'f code \<Rightarrow> 'f emitter" where
  "emit_repeat n ops s = Some (block_push_repeat ops n [], s)"

definition emit_template :: "nat \<Rightarrow> (nat \<Rightarrow> 'f code) \<Rightarrow> 'f emitter" where
  "emit_template n template s = Some (block_push_template n template [], s)"

text \<open>One emitter after another.\<close>

definition em_seq :: "'f emitter \<Rightarrow> 'f emitter \<Rightarrow> 'f emitter" where
  "em_seq e1 e2 s = do { (c1, s1) \<leftarrow> e1 s; (c2, s2) \<leftarrow> e2 s1; Some (c1 @ c2, s2) }"

definition em_skip :: "'f emitter" where
  "em_skip s = Some ([], s)"

definition em_panic :: "'f emitter" where
  "em_panic s = None"

section \<open>Moving operands\<close>

definition em_dup :: "nat \<Rightarrow> 'f emitter" where
  "em_dup index s =
     do { assert_that (index < 16);
          ei \<leftarrow> effective_index index s;
          let i = as_u8 ei;
          s' \<leftarrow> os_dup index s;
          last \<leftarrow> os_peek s';
          let n = op_size last;
          off \<leftarrow> usize_sub n 1;
          pos \<leftarrow> u8_add i (as_u8 off);
          Some (replicate n (Stk (Dup pos)), s') }"

definition em_movup :: "nat \<Rightarrow> 'f emitter" where
  "em_movup index s =
     do { assert_that (index < 16);
          ei \<leftarrow> effective_index index s;
          let i = as_u8 ei;
          s' \<leftarrow> os_movup index s;
          moved \<leftarrow> os_peek s';
          let n = op_size moved;
          off \<leftarrow> usize_sub n 1;
          pos \<leftarrow> u8_add i (as_u8 off);
          Some (replicate n (Stk (Movup pos)), s') }"

definition em_movdn :: "nat \<Rightarrow> 'f emitter" where
  "em_movdn index s =
     do { assert_that (index < 16);
          ei \<leftarrow> effective_index_inclusive index s;
          let i = as_u8 ei;
          top \<leftarrow> os_peek s;
          let top_size = op_size top;
          s' \<leftarrow> os_movdn index s;
          Some (replicate top_size (Stk (Movdn i)), s') }"

text \<open>
  The casts of \<open>swap\<close> between \<open>u8\<close> and \<open>i8\<close>, and the addition of \<open>i8\<close> numbers that panics on
  overflow.
\<close>

definition as_i8 :: "nat \<Rightarrow> int" where
  "as_i8 n = (if n < 128 then int n else int n - 256)"

definition i8_checked :: "int \<Rightarrow> int option" where
  "i8_checked i = (if - 128 \<le> i \<and> i < 128 then Some i else None)"

definition i8_as_u8 :: "int \<Rightarrow> nat" where
  "i8_as_u8 i = nat (i mod 256)"

definition swap_code :: "nat \<Rightarrow> nat \<Rightarrow> nat \<Rightarrow> 'f code option" where
  "swap_code src dst i =
     (if src = 1 \<and> dst = 1 then Some [Stk (Swap i)]
      else if src = 1 \<and> i = 1 then do {
        d \<leftarrow> u8_sub dst 1; k \<leftarrow> u8_add i d; Some [Stk (Movdn k)] }
      else if dst = 1 \<and> i = src then Some [Stk (Movup i)]
      else if i = src then do {
        d \<leftarrow> u8_sub dst 1; k \<leftarrow> u8_add i d; Some (replicate src (Stk (Movdn k))) }
      else do {
        assert_that (src \<le> i);
        off \<leftarrow> u8_sub dst 1;
        k \<leftarrow> u8_add i off;
        d \<leftarrow> i8_checked (as_i8 dst - as_i8 src);
        j \<leftarrow> i8_checked (as_i8 i + d);
        up \<leftarrow> u8_sub (i8_as_u8 j) 1;
        if up = 1 then do {
          assert_that (dst = 1);
          Some (replicate src (Stk (Movdn k)) @ [Stk (Swap 1)]) }
        else Some (replicate src (Stk (Movdn k)) @ replicate dst (Stk (Movup up))) })"

definition em_swap :: "nat \<Rightarrow> 'f emitter" where
  "em_swap index s =
     do { assert_that (index > 0);
          assert_that (index < 16);
          x \<leftarrow> os_index s 0;
          y \<leftarrow> os_index s index;
          ei \<leftarrow> effective_index index s;
          s' \<leftarrow> os_swap index s;
          code \<leftarrow> swap_code (as_u8 (op_size x)) (as_u8 (op_size y)) (as_u8 ei);
          Some (code, s') }"

definition em_drop :: "'f emitter" where
  "em_drop s =
     (case os_pop s of
        (None, _) \<Rightarrow> None
      | (Some elem, s') \<Rightarrow>
          Some ((if op_size elem = 1 then [Stk Drop]
                 else if op_size elem = 4 then [Stk Dropw]
                 else replicate (op_size elem) (Stk Drop)), s'))"

definition em_dropn :: "nat \<Rightarrow> 'f emitter" where
  "em_dropn n s =
     do { assert_that (length s \<ge> n);
          assert_that (n \<noteq> 0);
          let raw_len = op_sizes (take n (rev s));
          s' \<leftarrow> os_dropn n s;
          Some ((if raw_len = 1 then [Stk Drop]
                 else if raw_len = 4 then [Stk Dropw]
                 else replicate (raw_len div 4) (Stk Dropw) @ replicate (raw_len mod 4) (Stk Drop)),
                s') }"

definition drop_operand_at_position :: "nat \<Rightarrow> 'f emitter" where
  "drop_operand_at_position n =
     (if n = 0 then em_drop
      else if n = 1 then em_seq (em_swap 1) em_drop
      else em_seq (em_movup (as_u8 n)) em_drop)"

text \<open>
  The loop of \<open>truncate_stack\<close>, from \<open>offset\<close>; each round drops the operand that is at the
  bottom.  When nothing remains, the source emits \<open>dropw\<close> for the remainder as well.
\<close>

fun truncate_loop :: "nat \<Rightarrow> nat list \<Rightarrow> 'f emitter" where
  "truncate_loop stack_size [] s = Some ([], s)"
| "truncate_loop stack_size (offset # offsets) s =
     do { index \<leftarrow> usize_sub stack_size (1 + offset);
          (c1, s1) \<leftarrow> drop_operand_at_position index s;
          (c2, s2) \<leftarrow> truncate_loop stack_size offsets s1;
          Some (c1 @ c2, s2) }"

definition truncate_stack :: "nat \<Rightarrow> 'f emitter" where
  "truncate_stack n s =
     do { let stack_size = length s;
          num_to_drop \<leftarrow> usize_sub stack_size n;
          if stack_size = num_to_drop then do {
            let raw_size = os_raw_len s;
            s' \<leftarrow> os_dropn num_to_drop s;
            Some (replicate (raw_size div 4) (Stk Dropw) @
                  replicate (raw_size mod 4) (Stk Dropw), s') }
          else truncate_loop stack_size [0..<num_to_drop] s }"

definition copy_operand_to_position :: "nat \<Rightarrow> nat \<Rightarrow> bool \<Rightarrow> 'f emitter" where
  "copy_operand_to_position n m is_commutative =
     (if n = 0 \<and> m = 0 then em_dup 0
      else if m = 0 then em_dup (as_u8 n)
      else if m = 1 then
        (if \<not> is_commutative then em_seq (em_dup (as_u8 n)) (em_swap 1) else em_dup (as_u8 n))
      else em_seq (em_dup (as_u8 n)) (em_movdn (as_u8 m)))"

definition move_operand_to_position :: "nat \<Rightarrow> nat \<Rightarrow> bool \<Rightarrow> 'f emitter" where
  "move_operand_to_position n m is_commutative =
     (if n = m then em_skip
      else if (n, m) = (1, 0) \<or> (n, m) = (0, 1) then
        (if \<not> is_commutative then em_swap 1 else em_skip)
      else if m = 0 then em_movup (as_u8 n)
      else if m = 1 then em_seq (em_movup (as_u8 n)) (em_swap 1)
      else em_seq (em_movup (as_u8 n)) (em_movdn (as_u8 m)))"

section \<open>Runs of stack instructions\<close>

lemma exec_movups:
  "length us + length c = Suc n \<Longrightarrow> n \<noteq> 0 \<Longrightarrow>
    exec_ops F (replicate (length c) (Stk (Movup n))) (topdown (us @ c @ vs)) =
      Some (topdown (c @ us @ vs))"
proof (induction c arbitrary: us vs rule: rev_induct)
  case (snoc y c)
  have "move_up n ((us @ c) @ y # vs) = y # (us @ c) @ vs"
    by (rule move_up_split) (use snoc.prems in simp)
  with snoc.IH [of "y # us" vs] snoc.prems show ?case
    by (simp add: stack_simps)
qed simp

lemma exec_movdns:
  "length c + length us = Suc n \<Longrightarrow> n \<noteq> 0 \<Longrightarrow>
    exec_ops F (replicate (length c) (Stk (Movdn n))) (topdown (c @ us @ vs)) =
      Some (topdown (us @ c @ vs))"
proof (induction c arbitrary: us)
  case (Cons x c)
  have "move_down n (x # (c @ us) @ vs) = (c @ us) @ x # vs"
    by (rule move_down_split) (use Cons.prems in simp)
  with Cons.IH [of "us @ [x]"] Cons.prems show ?case
    by (simp add: stack_simps)
qed simp

lemma exec_dups:
  "length us + length c = Suc n \<Longrightarrow> n < 16 \<Longrightarrow>
    exec_ops F (replicate (length c) (Stk (Dup n))) (topdown (us @ c @ vs)) =
      Some (topdown (c @ us @ c @ vs))"
proof (induction c arbitrary: us vs rule: rev_induct)
  case (snoc y c)
  have "(us @ c @ y # vs) ! n = y"
    using snoc.prems nth_append_length [of "us @ c" y vs] by simp
  with snoc.IH [of "y # us" "y # vs"] snoc.prems show ?case
    by (simp add: stack_simps)
qed simp

lemma exec_drops:
  "exec_ops F (replicate (length us) (Stk Drop)) (topdown (us @ vs)) = Some (topdown vs)"
  by (induction us) (simp_all add: stack_simps)

lemma exec_dropws:
  "length us = 4 * n \<Longrightarrow> exec_ops F (replicate n (Stk Dropw)) (topdown (us @ vs)) = Some (topdown vs)"
proof (induction n arbitrary: us)
  case (Suc n)
  have "exec_ops F (replicate n (Stk Dropw)) (topdown (drop 4 us @ vs)) = Some (topdown vs)"
    by (rule Suc.IH) (use Suc.prems in simp)
  with Suc.prems show ?case by (simp add: stack_simps)
qed simp

lemma exec_drop_mixed:
  assumes "length us = r"
  shows "exec_ops F (replicate (r div 4) (Stk Dropw) @ replicate (r mod 4) (Stk Drop))
    (topdown (us @ vs)) = Some (topdown vs)"
proof -
  obtain a b where us: "us = a @ b" "length a = 4 * (r div 4)" "length b = r mod 4"
  proof
    show "us = take (4 * (r div 4)) us @ drop (4 * (r div 4)) us" by simp
  qed (use assms in \<open>auto simp: minus_mult_div_eq_mod\<close>)
  show ?thesis
    using exec_dropws [OF us(2), of F "b @ vs"] exec_drops [of F b vs]
    by (simp add: exec_ops_append us(1) us(3))
qed

section \<open>Operands and their elements\<close>

text \<open>
  The runtime stack below a list of operands \<open>xs\<close> consists of one chunk of elements per
  operand, as long as the operand says; \<open>concat cs\<close> is that part of the runtime stack, read
  from the top.
\<close>

definition sized :: "'f operand list \<Rightarrow> bool" where
  "sized xs \<longleftrightarrow> (\<forall>x \<in> set xs. 1 \<le> op_size x \<and> op_size x \<le> 4)"

definition chunked :: "'f operand list \<Rightarrow> 'f list list \<Rightarrow> bool" where
  "chunked xs cs \<longleftrightarrow> map op_size xs = map length cs"

lemma sized_simps [simp]:
  "sized []" "sized (x # xs) \<longleftrightarrow> 1 \<le> op_size x \<and> op_size x \<le> 4 \<and> sized xs"
  "sized (xs @ ys) \<longleftrightarrow> sized xs \<and> sized ys"
  by (auto simp: sized_def)

lemma chunked_length: "chunked xs cs \<Longrightarrow> length cs = length xs"
  by (auto simp: chunked_def dest: map_eq_imp_length_eq)

lemma chunked_nth: "chunked xs cs \<Longrightarrow> i < length xs \<Longrightarrow> length (cs ! i) = op_size (xs ! i)"
  using chunked_length [of xs cs] by (auto simp: chunked_def dest!: arg_cong [where f = "\<lambda>l. l ! i"])

lemma chunked_concat: "chunked xs cs \<Longrightarrow> length (concat cs) = op_sizes xs"
  by (simp add: chunked_def length_concat op_sizes_def)

lemma chunked_take: "chunked xs cs \<Longrightarrow> chunked (take i xs) (take i cs)"
  by (simp add: chunked_def take_map [symmetric])

lemma chunked_drop: "chunked xs cs \<Longrightarrow> chunked (drop i xs) (drop i cs)"
  by (simp add: chunked_def drop_map [symmetric])

lemma chunked_split:
  assumes "chunked (us @ x # vs) cs"
  obtains cu c cv where "cs = cu @ c # cv" "chunked us cu" "length c = op_size x" "chunked vs cv"
proof -
  from assms have "map length cs = map op_size us @ op_size x # map op_size vs"
    by (simp add: chunked_def)
  then show thesis
    using that by (auto simp: map_eq_append_conv map_eq_Cons_conv chunked_def)
qed

lemma chunked_append [simp]: "length us = length cu \<Longrightarrow>
    chunked (us @ vs) (cu @ cv) \<longleftrightarrow> chunked us cu \<and> chunked vs cv"
  by (simp add: chunked_def)

lemma chunked_Cons [simp]: "chunked (x # xs) (c # cs) \<longleftrightarrow> op_size x = length c \<and> chunked xs cs"
  by (simp add: chunked_def)

lemma op_sizes_ge: "sized xs \<Longrightarrow> length xs \<le> op_sizes xs"
  by (induction xs) auto

lemma op_sizes_le: "sized xs \<Longrightarrow> op_sizes xs \<le> 4 * length xs"
  by (induction xs) auto

text \<open>
  \<open>tracks F em f g\<close>: whenever the emitter succeeds, the operand stack is rearranged by \<open>f\<close>,
  and the code it emitted rearranges the chunks of the runtime stack by \<open>g\<close>, leaving the
  elements below them alone.
\<close>

definition tracks :: "'f felt_ops \<Rightarrow> 'f emitter \<Rightarrow> ('f operand list \<Rightarrow> 'f operand list) \<Rightarrow>
    ('f list list \<Rightarrow> 'f list list) \<Rightarrow> bool" where
  "tracks F em f g \<longleftrightarrow>
     (\<forall>xs cs rest code s. sized xs \<and> chunked xs cs \<and> em (topdown xs) = Some (code, s) \<longrightarrow>
        s = topdown (f xs) \<and> sized (f xs) \<and> chunked (f xs) (g cs) \<and>
        exec_ops F code (topdown (concat cs @ rest)) = Some (topdown (concat (g cs) @ rest)))"

lemma tracksI:
  assumes "\<And>xs cs rest code s. sized xs \<Longrightarrow> chunked xs cs \<Longrightarrow> em (topdown xs) = Some (code, s) \<Longrightarrow>
    s = topdown (f xs) \<and> sized (f xs) \<and> chunked (f xs) (g cs) \<and>
    exec_ops F code (topdown (concat cs @ rest)) = Some (topdown (concat (g cs) @ rest))"
  shows "tracks F em f g"
  using assms unfolding tracks_def by blast

lemma tracksD:
  assumes "tracks F em f g" "sized xs" "chunked xs cs" "em (topdown xs) = Some (code, s)"
  shows "s = topdown (f xs)" "sized (f xs)" "chunked (f xs) (g cs)"
    "exec_ops F code (topdown (concat cs @ rest)) = Some (topdown (concat (g cs) @ rest))"
  using assms unfolding tracks_def by blast+

lemma tracks_seq:
  assumes 1: "tracks F e1 f1 g1" and 2: "tracks F e2 f2 g2"
  shows "tracks F (em_seq e1 e2) (f2 \<circ> f1) (g2 \<circ> g1)"
proof (rule tracksI)
  fix xs cs rest code s
  assume xs: "sized xs" "chunked xs cs" and "em_seq e1 e2 (topdown xs) = Some (code, s)"
  then obtain c1 s1 c2 where e1: "e1 (topdown xs) = Some (c1, s1)"
    and e2: "e2 s1 = Some (c2, s)" and code: "code = c1 @ c2"
    by (auto simp: em_seq_def)
  note D1 = tracksD [OF 1 xs e1]
  from e2 D1(1) have e2: "e2 (topdown (f1 xs)) = Some (c2, s)" by simp
  note D2 = tracksD [OF 2 D1(2,3) e2]
  show "s = topdown ((f2 \<circ> f1) xs) \<and> sized ((f2 \<circ> f1) xs) \<and> chunked ((f2 \<circ> f1) xs) ((g2 \<circ> g1) cs) \<and>
      exec_ops F code (topdown (concat cs @ rest)) = Some (topdown (concat ((g2 \<circ> g1) cs) @ rest))"
    using D1(4) [of rest] D2 by (simp add: code exec_ops_append)
qed

lemma tracks_skip: "tracks F em_skip id id"
  by (rule tracksI) (simp add: em_skip_def)

section \<open>The moves, characterised\<close>

lemma take_16: "sized xs \<Longrightarrow> i < 16 \<Longrightarrow> op_sizes (take i xs) \<le> 60"
  using op_sizes_le [of "take i xs"] by (fastforce simp: sized_def min_def dest: in_set_takeD
      split: if_splits)

lemma sized_nth: "sized xs \<Longrightarrow> i < length xs \<Longrightarrow> 1 \<le> op_size (xs ! i) \<and> op_size (xs ! i) \<le> 4"
  by (simp add: sized_def)

lemma sizes_nth:
  "i < length xs \<Longrightarrow> op_sizes (take (Suc i) xs) = op_sizes (take i xs) + op_size (xs ! i)"
  by (simp add: take_Suc_conv_app_nth)

lemma em_dup_eq:
  assumes "sized xs"
  shows "em_dup i (topdown xs) =
    (if i < 16 \<and> i < length xs \<and> op_sizes (take (Suc i) xs) \<le> 16
     then Some (replicate (op_size (xs ! i)) (Stk (Dup (op_sizes (take (Suc i) xs) - 1))),
                topdown (xs ! i # xs))
     else None)"
  using take_16 [OF assms, of i] sized_nth [OF assms, of i]
  by (auto simp: em_dup_def stack_simps bind_assert_that usize_sub_def as_u8_def u8_add_def
      sizes_nth Let_def)

lemma em_movup_eq:
  assumes "sized xs"
  shows "em_movup i (topdown xs) =
    (if i \<noteq> 0 \<and> i < 16 \<and> i < length xs
     then Some (replicate (op_size (xs ! i)) (Stk (Movup (op_sizes (take (Suc i) xs) - 1))),
                topdown (move_up i xs))
     else None)"
  using take_16 [OF assms, of i] sized_nth [OF assms, of i]
  by (auto simp: em_movup_def stack_simps bind_assert_that usize_sub_def as_u8_def u8_add_def
      sizes_nth move_up_def Let_def)

lemma em_movdn_eq:
  assumes "sized xs"
  shows "em_movdn i (topdown xs) =
    (if i \<noteq> 0 \<and> i < 16 \<and> i < length xs
     then Some (replicate (op_size (xs ! 0)) (Stk (Movdn (op_sizes (take (Suc i) xs) - 1))),
                topdown (move_down i xs))
     else None)"
proof (cases "i \<noteq> 0 \<and> i < 16 \<and> i < length xs")
  case True
  then obtain x ys where xs: "xs = x # ys" by (cases xs) auto
  have "1 \<le> op_sizes (take (Suc i) xs)" "op_sizes (take (Suc i) xs) \<le> 64"
    using True take_16 [OF assms, of i] sized_nth [OF assms, of i] by (auto simp: sizes_nth)
  with True xs show ?thesis
    by (simp add: em_movdn_def stack_simps bind_assert_that usize_sub_def as_u8_def Let_def)
qed (auto simp: em_movdn_def stack_simps bind_assert_that usize_sub_def Let_def
    split: list.splits Option.bind_splits)

lemma swap_code_exec:
  assumes "1 \<le> length c" "length c \<le> 4" "1 \<le> length d" "length d \<le> 4"
    and "length c + length m + length d \<le> 16"
  shows "\<exists>code. swap_code (length c) (length d) (length c + length m) = Some code \<and>
    exec_ops F code (topdown (c @ m @ d @ vs)) = Some (topdown (d @ m @ c @ vs))"
proof -
  let ?a = "length c" and ?b = "length d" and ?i = "length c + length m"
  define k where "k = ?i + ?b - 1"
  have down: "exec_ops F (replicate ?a (Stk (Movdn k))) (topdown (c @ m @ d @ vs)) =
      Some (topdown (m @ d @ c @ vs))"
    using exec_movdns [of c "m @ d" k F vs] assms by (simp add: k_def)
  have k: "u8_sub ?b 1 = Some (?b - 1)" "u8_add ?i (?b - 1) = Some k"
    using assms by (auto simp: u8_sub_def u8_add_def k_def)
  consider (unit) "?a = 1" "?b = 1" | (below) "\<not> (?a = 1 \<and> ?b = 1)" "m = []" "?a = 1"
    | (above) "\<not> (?a = 1 \<and> ?b = 1)" "m = []" "?a \<noteq> 1" "?b = 1"
    | (adjacent) "?a \<noteq> 1" "?b \<noteq> 1" "m = []" | (far) "\<not> (?a = 1 \<and> ?b = 1)" "m \<noteq> []"
    using assms(1,3) by fastforce
  then show ?thesis
  proof cases
    case unit
    then obtain x y where "c = [x]" "d = [y]" by (auto simp: length_Suc_conv)
    moreover have "list_swap 0 (Suc (length m)) (x # m @ y # vs) = y # m @ x # vs"
      by (simp add: list_swap_def nth_append list_update_append)
    ultimately show ?thesis by (simp add: swap_code_def stack_simps)
  next
    case below
    with down k show ?thesis by (simp add: swap_code_def)
  next
    case above
    have "exec_ops F (replicate ?b (Stk (Movup ?a))) (topdown (c @ d @ vs)) = Some (topdown (d @ c @ vs))"
      by (rule exec_movups) (use above assms(1) in auto)
    with above show ?thesis by (auto simp: swap_code_def)
  next
    case adjacent
    with down k show ?thesis by (auto simp: swap_code_def)
  next
    case far
    have up: "i8_checked (as_i8 ?b - as_i8 ?a) = Some (int ?b - int ?a)"
      "i8_checked (as_i8 ?i + (int ?b - int ?a)) = Some (int (length m + ?b))"
      "i8_as_u8 (int (length m + ?b)) = length m + ?b"
      "u8_sub (length m + ?b) 1 = Some (length m + ?b - 1)"
      using assms by (auto simp: as_i8_def i8_checked_def i8_as_u8_def u8_sub_def nat_mod_distrib
          simp flip: of_nat_add)
    have "swap_code ?a ?b ?i = (if length m + ?b - 1 = 1
        then if ?b = 1 then Some (replicate ?a (Stk (Movdn k)) @ [Stk (Swap 1)]) else None
        else Some (replicate ?a (Stk (Movdn k)) @ replicate ?b (Stk (Movup (length m + ?b - 1)))))"
      using far assms k up by (auto simp: swap_code_def bind_assert_that)
    moreover have "length m + ?b - 1 = 1 \<Longrightarrow> ?b = 1"
      using far assms(3) by (cases m) auto
    moreover have "exec_ops F (replicate ?b (Stk (Movup (length m + ?b - 1)))) (topdown (m @ d @ c @ vs))
        = Some (topdown (d @ m @ c @ vs))"
      by (rule exec_movups) (use far assms(3) in \<open>cases m; auto\<close>)+
    moreover have "exec_ops F [Stk (Swap 1)] (topdown (m @ d @ c @ vs)) = Some (topdown (d @ m @ c @ vs))"
      if one: "length m + ?b - 1 = 1"
    proof -
      from one far assms(3) obtain x y where "m = [x]" "d = [y]"
        by (cases m; cases d) auto
      then show ?thesis by (simp add: stack_simps list_swap_def)
    qed
    ultimately show ?thesis using down
      by (cases "length m + ?b - 1 = 1") (auto simp: exec_ops_append)
  qed
qed

lemma em_swap_eq:
  assumes "sized xs"
  shows "em_swap i (topdown xs) =
    (if i \<noteq> 0 \<and> i < 16 \<and> i < length xs \<and> op_sizes (take (Suc i) xs) \<le> 16
     then map_option (\<lambda>code. (code, topdown (list_swap 0 i xs)))
       (swap_code (op_size (xs ! 0)) (op_size (xs ! i)) (op_sizes (take i xs)))
     else None)"
proof (cases "i \<noteq> 0 \<and> i < 16 \<and> i < length xs \<and> op_sizes (take (Suc i) xs) \<le> 16")
  case True
  then obtain x ys where xs: "xs = x # ys" by (cases xs) auto
  with assms have "op_size x \<le> 4" by simp
  with True xs take_16 [OF assms, of i] sized_nth [OF assms, of i] show ?thesis
    by (simp add: em_swap_def stack_simps as_u8_def map_conv_bind_option comp_def)
qed (auto simp: em_swap_def stack_simps bind_assert_that)

section \<open>The moves track the runtime stack\<close>

lemma split_at_index:
  assumes "i < length xs" "chunked xs cs"
  obtains us x vs cu c cv where "xs = us @ x # vs" "length us = i" "cs = cu @ c # cv"
    "chunked us cu" "length c = op_size x" "chunked vs cv" "length cu = i"
proof -
  from split_at [OF assms(1)] obtain us x vs where xs: "xs = us @ x # vs" "length us = i" by blast
  with assms(2) obtain cu c cv where cs: "cs = cu @ c # cv" "chunked us cu" "length c = op_size x"
    "chunked vs cv" by (auto elim: chunked_split)
  with xs chunked_length [of us cu] show thesis using that by simp
qed

lemma tracks_dup: "tracks (F :: 'a felt_ops) (em_dup i) (\<lambda>xs. xs ! i # xs) (\<lambda>cs. cs ! i # cs)"
proof (rule tracksI)
  fix xs :: "'a operand list" and cs :: "'a list list" and rest code s
  assume sz: "sized xs" and ch: "chunked xs cs" and em: "em_dup i (topdown xs) = Some (code, s)"
  then have i: "i < length xs" "op_sizes (take (Suc i) xs) \<le> 16"
    and code: "code = replicate (op_size (xs ! i)) (Stk (Dup (op_sizes (take (Suc i) xs) - 1)))"
    and s: "s = topdown (xs ! i # xs)"
    by (auto simp: em_dup_eq split: if_splits)
  from split_at_index [OF i(1) ch] obtain us x vs cu c cv where
    spl: "xs = us @ x # vs" "length us = i" "cs = cu @ c # cv" "chunked us cu"
    "length c = op_size x" "chunked vs cv" "length cu = i" by blast
  let ?n = "op_sizes us + op_size x - 1"
  have "exec_ops F (replicate (length c) (Stk (Dup ?n))) (topdown (concat cu @ c @ concat cv @ rest)) =
      Some (topdown (c @ concat cu @ c @ concat cv @ rest))"
    by (rule exec_dups) (use i sz spl chunked_concat [OF spl(4)] in \<open>auto\<close>)
  moreover have "sized (xs ! i # xs)" using sized_nth [OF sz i(1)] sz by simp
  ultimately show "s = topdown (xs ! i # xs) \<and> sized (xs ! i # xs) \<and>
      chunked (xs ! i # xs) (cs ! i # cs) \<and>
      exec_ops F code (topdown (concat cs @ rest)) = Some (topdown (concat (cs ! i # cs) @ rest))"
    using spl s ch by (simp add: code nth_append)
qed

lemma tracks_movup: "tracks (F :: 'a felt_ops) (em_movup i) (move_up i) (move_up i)"
proof (rule tracksI)
  fix xs :: "'a operand list" and cs :: "'a list list" and rest code s
  assume sz: "sized xs" and ch: "chunked xs cs" and em: "em_movup i (topdown xs) = Some (code, s)"
  then have i: "i \<noteq> 0" "i < length xs"
    and code: "code = replicate (op_size (xs ! i)) (Stk (Movup (op_sizes (take (Suc i) xs) - 1)))"
    and s: "s = topdown (move_up i xs)"
    by (auto simp: em_movup_eq split: if_splits)
  from split_at_index [OF i(2) ch] obtain us x vs cu c cv where
    spl: "xs = us @ x # vs" "length us = i" "cs = cu @ c # cv" "chunked us cu"
    "length c = op_size x" "chunked vs cv" "length cu = i" by blast
  let ?n = "op_sizes us + op_size x - 1"
  have "0 < op_sizes us" using op_sizes_ge [of us] sz spl(1,2) i(1) by simp
  then have "exec_ops F (replicate (length c) (Stk (Movup ?n))) (topdown (concat cu @ c @ concat cv @ rest)) =
      Some (topdown (c @ concat cu @ concat cv @ rest))"
    by (intro exec_movups) (use sz spl chunked_concat [OF spl(4)] in \<open>auto\<close>)
  then show "s = topdown (move_up i xs) \<and> sized (move_up i xs) \<and>
      chunked (move_up i xs) (move_up i cs) \<and>
      exec_ops F code (topdown (concat cs @ rest)) = Some (topdown (concat (move_up i cs) @ rest))"
    using spl s sz by (simp add: code move_up_split nth_append)
qed

lemma tracks_movdn: "tracks (F :: 'a felt_ops) (em_movdn i) (move_down i) (move_down i)"
proof (rule tracksI)
  fix xs :: "'a operand list" and cs :: "'a list list" and rest code s
  assume sz: "sized xs" and ch: "chunked xs cs" and em: "em_movdn i (topdown xs) = Some (code, s)"
  then have i: "i \<noteq> 0" "i < length xs"
    and code: "code = replicate (op_size (xs ! 0)) (Stk (Movdn (op_sizes (take (Suc i) xs) - 1)))"
    and s: "s = topdown (move_down i xs)"
    by (auto simp: em_movdn_eq split: if_splits)
  then obtain x ys where xs: "xs = x # ys" "i \<le> length ys" by (cases xs) auto
  with ch obtain c ds where cs: "cs = c # ds" "length c = op_size x" "chunked ys ds"
    by (cases cs) (auto simp: chunked_def)
  let ?us = "take i ys" and ?cu = "take i ds"
  have spl: "chunked ?us ?cu" "chunked (drop i ys) (drop i ds)" "length ?us = i" "length ?cu = i"
    using cs(3) xs(2) chunked_length [OF cs(3)] by (simp_all add: chunked_take chunked_drop)
  let ?n = "op_sizes ?us + op_size x - 1"
  have us: "sized ?us" "sized (drop i ys)" "sized [x]"
    using sz xs(1) by (auto simp: sized_def dest: in_set_takeD in_set_dropD)
  then have "0 < op_sizes ?us" using op_sizes_ge [of ?us] spl(3) i(1) by simp
  then have "exec_ops F (replicate (length c) (Stk (Movdn ?n)))
      (topdown (c @ concat ?cu @ concat (drop i ds) @ rest)) =
      Some (topdown (concat ?cu @ c @ concat (drop i ds) @ rest))"
    by (intro exec_movdns) (use us cs(2) chunked_concat [OF spl(1)] in \<open>auto\<close>)
  moreover have "concat ds = concat ?cu @ concat (drop i ds)"
    by (simp flip: concat_append)
  ultimately show "s = topdown (move_down i xs) \<and> sized (move_down i xs) \<and>
      chunked (move_down i xs) (move_down i cs) \<and>
      exec_ops F code (topdown (concat cs @ rest)) = Some (topdown (concat (move_down i cs) @ rest))"
    using spl s us cs xs(1) by (simp add: code move_down_def add.commute)
qed

lemma list_swap_split:
  "length us = n \<Longrightarrow> list_swap 0 (Suc n) (x # us @ y # vs) = y # us @ x # vs"
  by (simp add: list_swap_def nth_append list_update_append)

lemma tracks_swap: "tracks (F :: 'a felt_ops) (em_swap i) (list_swap 0 i) (list_swap 0 i)"
proof (rule tracksI)
  fix xs :: "'a operand list" and cs :: "'a list list" and rest code s
  assume sz: "sized xs" and ch: "chunked xs cs" and em: "em_swap i (topdown xs) = Some (code, s)"
  then have i: "i \<noteq> 0" "i < length xs" "op_sizes (take (Suc i) xs) \<le> 16"
    and code: "swap_code (op_size (xs ! 0)) (op_size (xs ! i)) (op_sizes (take i xs)) = Some code"
    and s: "s = topdown (list_swap 0 i xs)"
    by (auto simp: em_swap_eq split: if_splits)
  then obtain x ys j where xs: "xs = x # ys" "i = Suc j" "j < length ys"
    by (cases xs; cases i) auto
  with ch obtain c ds where cs: "cs = c # ds" "op_size x = length c" "chunked ys ds"
    by (cases cs) (auto simp: chunked_def)
  from split_at_index [OF xs(3) cs(3)] obtain us y vs cu d cv where
    spl: "ys = us @ y # vs" "length us = j" "ds = cu @ d # cv" "chunked us cu"
    "length d = op_size y" "chunked vs cv" "length cu = j" by blast
  note [simp] = list_swap_split
  have "length c + length (concat cu) + length d \<le> 16"
    using i(3) xs cs(2) spl chunked_concat [OF spl(4)] by simp
  moreover have "1 \<le> length c" "length c \<le> 4" "1 \<le> length d" "length d \<le> 4"
    using sz xs cs(2) spl by simp_all
  ultimately obtain code' where
    "swap_code (length c) (length d) (length c + length (concat cu)) = Some code'"
    "exec_ops F code' (topdown (c @ concat cu @ d @ concat cv @ rest)) =
      Some (topdown (d @ concat cu @ c @ concat cv @ rest))"
    using swap_code_exec by blast
  moreover from this(1) have "code' = code"
    using code xs cs(2) spl chunked_concat [OF spl(4)] by (simp add: nth_append)
  ultimately show "s = topdown (list_swap 0 i xs) \<and> sized (list_swap 0 i xs) \<and>
      chunked (list_swap 0 i xs) (list_swap 0 i cs) \<and>
      exec_ops F code (topdown (concat cs @ rest)) = Some (topdown (concat (list_swap 0 i cs) @ rest))"
    using s sz xs cs spl by simp
qed

lemma exec_drop_code:
  "length us = n \<Longrightarrow> exec_ops F (if n = 1 then [Stk Drop] else if n = 4 then [Stk Dropw]
      else replicate n (Stk Drop)) (topdown (us @ vs)) = Some (topdown vs)"
  using exec_drops [of F us vs] exec_dropws [of us 1 F vs] by auto

lemma em_drop_eq:
  "em_drop (topdown xs) =
     (case xs of [] \<Rightarrow> None
      | x # xs' \<Rightarrow> Some ((if op_size x = 1 then [Stk Drop] else if op_size x = 4 then [Stk Dropw]
          else replicate (op_size x) (Stk Drop)), topdown xs'))"
  by (cases xs) (simp_all add: em_drop_def stack_simps)

lemma tracks_drop: "tracks (F :: 'a felt_ops) em_drop tl tl"
proof (rule tracksI)
  fix xs :: "'a operand list" and cs :: "'a list list" and rest code s
  assume sz: "sized xs" and ch: "chunked xs cs" and em: "em_drop (topdown xs) = Some (code, s)"
  then obtain x xs' c cs' where "xs = x # xs'" "cs = c # cs'" "length c = op_size x"
    by (cases xs; cases cs) (auto simp: em_drop_eq chunked_def)
  with sz ch em exec_drop_code [of c "op_size x" F "concat cs' @ rest"]
  show "s = topdown (tl xs) \<and> sized (tl xs) \<and> chunked (tl xs) (tl cs) \<and>
      exec_ops F code (topdown (concat cs @ rest)) = Some (topdown (concat (tl cs) @ rest))"
    by (simp add: em_drop_eq)
qed

lemma tracks_dropn: "tracks (F :: 'a felt_ops) (em_dropn n) (drop n) (drop n)"
proof (rule tracksI)
  fix xs :: "'a operand list" and cs :: "'a list list" and rest code s
  assume sz: "sized xs" and ch: "chunked xs cs" and em: "em_dropn n (topdown xs) = Some (code, s)"
  let ?r = "op_sizes (take n xs)"
  from em have code: "code = (if ?r = 1 then [Stk Drop] else if ?r = 4 then [Stk Dropw]
      else replicate (?r div 4) (Stk Dropw) @ replicate (?r mod 4) (Stk Drop))"
    and s: "s = topdown (drop n xs)"
    by (auto simp: em_dropn_def stack_simps bind_assert_that Let_def split: if_splits)
  have "length (concat (take n cs)) = ?r"
    using chunked_concat [OF chunked_take [OF ch]] .
  from exec_drop_mixed [OF this, of F "concat (drop n cs) @ rest"]
  have "exec_ops F code (topdown (concat cs @ rest)) = Some (topdown (concat (drop n cs) @ rest))"
    using concat_append [of "take n cs" "drop n cs"] by (auto simp: code)
  then show "s = topdown (drop n xs) \<and> sized (drop n xs) \<and> chunked (drop n xs) (drop n cs) \<and>
      exec_ops F code (topdown (concat cs @ rest)) = Some (topdown (concat (drop n cs) @ rest))"
    using s sz ch by (auto simp: chunked_drop sized_def dest: in_set_dropD)
qed

section \<open>Composite moves\<close>

definition insert_at :: "nat \<Rightarrow> 'a \<Rightarrow> 'a list \<Rightarrow> 'a list" where
  "insert_at n x xs = take n xs @ x # drop n xs"

definition remove_at :: "nat \<Rightarrow> 'a list \<Rightarrow> 'a list" where
  "remove_at n xs = take n xs @ drop (Suc n) xs"

lemma remove_at_0: "remove_at 0 = tl"
  by (simp add: remove_at_def fun_eq_iff drop_Suc)

lemma tracks_cong:
  assumes "tracks F em f g"
    and "\<And>xs cs code s. sized xs \<Longrightarrow> chunked xs cs \<Longrightarrow> em (topdown xs) = Some (code, s) \<Longrightarrow>
      f xs = f' xs \<and> g cs = g' cs"
  shows "tracks F em f' g'"
  using assms unfolding tracks_def by metis

lemma move_down_Cons: "move_down m (x # xs) = insert_at m x xs"
  by (simp add: move_down_def insert_at_def)

lemma move_down_up_insert: "move_down m (move_up n xs) = insert_at m (xs ! n) (remove_at n xs)"
  by (simp add: move_up_def move_down_Cons remove_at_def)

lemma move_up_insert: "move_up n xs = insert_at 0 (xs ! n) (remove_at n xs)"
  by (simp add: move_up_def remove_at_def insert_at_def)

lemma swap_1_Cons: "xs \<noteq> [] \<Longrightarrow> list_swap 0 (Suc 0) (x # xs) = insert_at (Suc 0) x xs"
  by (cases xs) (simp_all add: list_swap_def insert_at_def)

lemma swap_1_insert: "Suc 0 < length xs \<Longrightarrow>
    list_swap 0 (Suc 0) xs = insert_at (Suc 0) (xs ! 0) (remove_at 0 xs)"
  by (cases xs) (simp_all add: remove_at_def swap_1_Cons)

lemma swap_1_move_up_insert: "Suc 0 < length xs \<Longrightarrow>
    list_swap 0 (Suc 0) xs = insert_at 0 (xs ! Suc 0) (remove_at (Suc 0) xs)"
  by (cases xs rule: remdups_adj.cases) (simp_all add: remove_at_def insert_at_def list_swap_def)

lemma tl_move_up: "tl (move_up n xs) = remove_at n xs"
  by (simp add: move_up_def remove_at_def)

lemma em_swap_SomeD: "em_swap i (topdown xs) = Some r \<Longrightarrow> i < length xs"
  by (auto simp: em_swap_def stack_simps bind_assert_that split: if_splits)

lemma em_movup_SomeD: "em_movup i (topdown xs) = Some r \<Longrightarrow> i < length xs"
  by (auto simp: em_movup_def stack_simps bind_assert_that split: if_splits)

lemma tracks_copy:
  assumes "n < 256" "m < 256"
  shows "tracks F (copy_operand_to_position n m False)
    (\<lambda>xs. insert_at m (xs ! n) xs) (\<lambda>cs. insert_at m (cs ! n) cs)"
proof -
  have u8: "as_u8 n = n" "as_u8 m = m" using assms by (simp_all add: as_u8_def)
  consider "m = 0" | "m = 1" | "m \<ge> 2" by linarith
  then show ?thesis
  proof cases
    case 1
    then show ?thesis using tracks_dup [of F n] u8
      by (auto simp: copy_operand_to_position_def insert_at_def)
  next
    case 2
    have "tracks F (em_seq (em_dup n) (em_swap 1))
        (list_swap 0 1 \<circ> (\<lambda>xs. xs ! n # xs)) (list_swap 0 1 \<circ> (\<lambda>cs. cs ! n # cs))"
      by (rule tracks_seq [OF tracks_dup tracks_swap])
    then have "tracks F (em_seq (em_dup n) (em_swap 1))
        (\<lambda>xs. insert_at m (xs ! n) xs) (\<lambda>cs. insert_at m (cs ! n) cs)"
    proof (rule tracks_cong)
      fix xs :: "'a operand list" and cs :: "'a list list" and code s
      assume "sized xs" and ch: "chunked xs cs"
        and "em_seq (em_dup n) (em_swap 1) (topdown xs) = Some (code, s)"
      then have "xs \<noteq> []" by (auto simp: em_seq_def em_dup_eq split: if_splits)
      moreover from this chunked_length [OF ch] have "cs \<noteq> []" by auto
      ultimately show "(list_swap 0 1 \<circ> (\<lambda>xs. xs ! n # xs)) xs = insert_at m (xs ! n) xs \<and>
          (list_swap 0 1 \<circ> (\<lambda>cs. cs ! n # cs)) cs = insert_at m (cs ! n) cs"
        using 2 by (simp add: swap_1_Cons)
    qed
    with 2 u8 show ?thesis by (simp add: copy_operand_to_position_def)
  next
    case 3
    have "tracks F (em_seq (em_dup n) (em_movdn m))
        (move_down m \<circ> (\<lambda>xs. xs ! n # xs)) (move_down m \<circ> (\<lambda>cs. cs ! n # cs))"
      by (rule tracks_seq [OF tracks_dup tracks_movdn])
    with 3 u8 show ?thesis
      by (simp add: copy_operand_to_position_def comp_def move_down_Cons)
  qed
qed

lemma tracks_drop_at:
  assumes "n < 256"
  shows "tracks F (drop_operand_at_position n) (remove_at n) (remove_at n)"
proof -
  have u8: "as_u8 n = n" using assms by (simp add: as_u8_def)
  consider "n = 0" | "n = 1" | "n \<ge> 2" by linarith
  then show ?thesis
  proof cases
    case 1
    with tracks_drop [of F] show ?thesis by (simp add: drop_operand_at_position_def remove_at_0)
  next
    case 2
    have "tracks F (em_seq (em_swap 1) em_drop) (tl \<circ> list_swap 0 1) (tl \<circ> list_swap 0 1)"
      by (rule tracks_seq [OF tracks_swap tracks_drop])
    then have "tracks F (em_seq (em_swap 1) em_drop) (remove_at n) (remove_at n)"
    proof (rule tracks_cong)
      fix xs :: "'a operand list" and cs :: "'a list list" and code s
      assume "sized xs" and ch: "chunked xs cs"
        and "em_seq (em_swap 1) em_drop (topdown xs) = Some (code, s)"
      then have "1 < length xs" by (auto simp: em_seq_def dest: em_swap_SomeD)
      moreover from this chunked_length [OF ch] have "1 < length cs" by auto
      ultimately show "(tl \<circ> list_swap 0 1) xs = remove_at n xs \<and>
          (tl \<circ> list_swap 0 1) cs = remove_at n cs"
        using 2 by (simp add: swap_1_move_up [simplified] tl_move_up)
    qed
    with 2 show ?thesis by (simp add: drop_operand_at_position_def)
  next
    case 3
    have "tracks F (em_seq (em_movup n) em_drop) (tl \<circ> move_up n) (tl \<circ> move_up n)"
      by (rule tracks_seq [OF tracks_movup tracks_drop])
    with 3 u8 show ?thesis
      by (simp add: drop_operand_at_position_def comp_def tl_move_up)
  qed
qed

lemma insert_remove_same: "n < length xs \<Longrightarrow> insert_at n (xs ! n) (remove_at n xs) = xs"
  by (simp add: insert_at_def remove_at_def id_take_nth_drop [symmetric])

lemma tracks_move:
  assumes "n < 256" "m < 256"
  shows "tracks F (em_seq (em_movup n) (em_movdn m))
      (\<lambda>xs. insert_at m (xs ! n) (remove_at n xs)) (\<lambda>cs. insert_at m (cs ! n) (remove_at n cs))"
    and "tracks F (em_seq (em_movup n) (em_swap 1))
      (\<lambda>xs. insert_at 1 (xs ! n) (remove_at n xs)) (\<lambda>cs. insert_at 1 (cs ! n) (remove_at n cs))"
proof -
  have "tracks F (em_seq (em_movup n) (em_movdn m)) (move_down m \<circ> move_up n) (move_down m \<circ> move_up n)"
    by (rule tracks_seq [OF tracks_movup tracks_movdn])
  then show "tracks F (em_seq (em_movup n) (em_movdn m))
      (\<lambda>xs. insert_at m (xs ! n) (remove_at n xs)) (\<lambda>cs. insert_at m (cs ! n) (remove_at n cs))"
    by (simp add: comp_def move_down_up_insert)
  have "tracks F (em_seq (em_movup n) (em_swap 1)) (list_swap 0 1 \<circ> move_up n) (list_swap 0 1 \<circ> move_up n)"
    by (rule tracks_seq [OF tracks_movup tracks_swap])
  then show "tracks F (em_seq (em_movup n) (em_swap 1))
      (\<lambda>xs. insert_at 1 (xs ! n) (remove_at n xs)) (\<lambda>cs. insert_at 1 (cs ! n) (remove_at n cs))"
  proof (rule tracks_cong)
    fix xs :: "'a operand list" and cs :: "'a list list" and code s
    assume "sized xs" and ch: "chunked xs cs"
      and em: "em_seq (em_movup n) (em_swap 1) (topdown xs) = Some (code, s)"
    then have "n \<noteq> 0" "n < length xs" by (auto simp: em_seq_def em_movup_eq split: if_splits)
    then have "remove_at n xs \<noteq> []" "remove_at n cs \<noteq> []"
      using chunked_length [OF ch] by (auto simp: remove_at_def)
    then show "(list_swap 0 1 \<circ> move_up n) xs = insert_at 1 (xs ! n) (remove_at n xs) \<and>
        (list_swap 0 1 \<circ> move_up n) cs = insert_at 1 (cs ! n) (remove_at n cs)"
      by (simp add: move_up_def swap_1_Cons flip: remove_at_def)
  qed
qed

lemma tracks_move_to:
  assumes "n < 256" "m < 256" "n \<noteq> m"
  shows "tracks F (move_operand_to_position n m False)
    (\<lambda>xs. insert_at m (xs ! n) (remove_at n xs)) (\<lambda>cs. insert_at m (cs ! n) (remove_at n cs))"
proof -
  have u8: "as_u8 n = n" "as_u8 m = m" using assms by (simp_all add: as_u8_def)
  consider (sw) "n = 1 \<and> m = 0 \<or> n = 0 \<and> m = 1" | (zero) "m = 0" "n \<noteq> 1" | (one) "m = 1" "n \<noteq> 0"
    | (far) "m \<ge> 2" by linarith
  then show ?thesis
  proof cases
    case sw
    have "tracks F (em_swap 1) (\<lambda>xs. insert_at m (xs ! n) (remove_at n xs))
        (\<lambda>cs. insert_at m (cs ! n) (remove_at n cs))"
    proof (rule tracks_cong [OF tracks_swap])
      fix xs :: "'a operand list" and cs :: "'a list list" and code s
      assume ch: "chunked xs cs" and "em_swap 1 (topdown xs) = Some (code, s)"
      then have "1 < length xs" "1 < length cs"
        using chunked_length [OF ch] by (auto dest: em_swap_SomeD)
      with sw show "list_swap 0 1 xs = insert_at m (xs ! n) (remove_at n xs) \<and>
          list_swap 0 1 cs = insert_at m (cs ! n) (remove_at n cs)"
        using swap_1_insert [of xs] swap_1_insert [of cs] swap_1_move_up_insert [of xs]
          swap_1_move_up_insert [of cs] by auto
    qed
    with sw show ?thesis by (auto simp: move_operand_to_position_def)
  next
    case zero
    with tracks_movup [of F n] u8 assms(3) show ?thesis
      by (simp add: move_operand_to_position_def move_up_insert [abs_def])
  next
    case one
    with tracks_move(2) [of n m F] u8 assms show ?thesis
      by (simp add: move_operand_to_position_def)
  next
    case far
    with tracks_move(1) [OF assms(1,2), of F] u8 assms(3) show ?thesis
      by (simp add: move_operand_to_position_def)
  qed
qed

section \<open>Dropping all but the top\<close>

lemma drop_at_succeeds:
  assumes "sized xs" "n < length xs" "n < 16"
  shows "\<exists>code. drop_operand_at_position n (topdown xs) = Some (code, topdown (remove_at n xs))"
proof -
  have drop1: "\<exists>code. em_drop (topdown ys) = Some (code, topdown (tl ys))" if "ys \<noteq> []"
    for ys :: "'a operand list" using that by (cases ys) (simp_all add: em_drop_eq)
  consider "n = 0" | "n = 1" | "n \<ge> 2" by linarith
  then show ?thesis
  proof cases
    case 1
    with drop1 [of xs] assms show ?thesis by (simp add: drop_operand_at_position_def remove_at_0)
  next
    case 2
    with assms obtain x y ys where xs: "xs = x # y # ys" by (cases xs rule: remdups_adj.cases) auto
    obtain c d :: "'a list" where "length c = op_size x" "length d = op_size y"
      by (meson Ex_list_of_length)
    with swap_code_exec [of c d "[]"] assms(1) xs obtain code where
      "em_swap 1 (topdown xs) = Some (code, topdown (list_swap 0 1 xs))"
      by (auto simp: em_swap_eq)
    moreover obtain code' where
      "em_drop (topdown (list_swap 0 1 xs)) = Some (code', topdown (tl (list_swap 0 1 xs)))"
      using drop1 [of "list_swap 0 1 xs"] xs by (auto simp: list_swap_def)
    ultimately show ?thesis using 2 xs
      by (simp add: drop_operand_at_position_def em_seq_def remove_at_def list_swap_def)
  next
    case 3
    obtain code' where "em_drop (topdown (move_up n xs)) = Some (code', topdown (remove_at n xs))"
      using drop1 [of "move_up n xs"] by (auto simp: move_up_def remove_at_def)
    with 3 assms show ?thesis
      by (simp add: drop_operand_at_position_def em_seq_def em_movup_eq as_u8_def)
  qed
qed

lemma remove_last: "n = length xs - 1 \<Longrightarrow> xs \<noteq> [] \<Longrightarrow> remove_at n xs = take n xs"
  by (simp add: remove_at_def)

lemma truncate_loop_tracks:
  assumes "sized xs" "length xs = N - a" "a \<le> k" "k < N" "N - a \<le> 16"
  shows "\<exists>code. truncate_loop N [a..<k] (topdown xs) = Some (code, topdown (take (N - k) xs)) \<and>
    (\<forall>cs rest. chunked xs cs \<longrightarrow> exec_ops F code (topdown (concat cs @ rest)) =
      Some (topdown (concat (take (N - k) cs) @ rest)))"
  using assms
proof (induction "k - a" arbitrary: a xs)
  case 0
  then show ?case by (auto dest: chunked_length)
next
  case (Suc d)
  let ?i = "N - (1 + a)"
  have i: "?i = length xs - 1" "?i < length xs" "xs \<noteq> []" "a < k" "?i < 16"
    using Suc(2) Suc.prems by auto
  obtain c1 where c1: "drop_operand_at_position ?i (topdown xs) = Some (c1, topdown (take ?i xs))"
    using drop_at_succeeds [OF Suc.prems(1) i(2) i(5)] remove_last [OF i(1,3)] by auto
  have sz: "sized (take ?i xs)" using Suc.prems(1) by (auto simp: sized_def dest: in_set_takeD)
  have "\<exists>code. truncate_loop N [Suc a..<k] (topdown (take ?i xs)) =
        Some (code, topdown (take (N - k) (take ?i xs))) \<and>
      (\<forall>cs rest. chunked (take ?i xs) cs \<longrightarrow> exec_ops F code (topdown (concat cs @ rest)) =
        Some (topdown (concat (take (N - k) cs) @ rest)))"
    by (rule Suc.hyps(1)) (use Suc(2) Suc.prems i sz in auto)
  then obtain c2 where c2: "truncate_loop N [Suc a..<k] (topdown (take ?i xs)) =
        Some (c2, topdown (take (N - k) (take ?i xs)))"
      "\<And>cs rest. chunked (take ?i xs) cs \<Longrightarrow> exec_ops F c2 (topdown (concat cs @ rest)) =
        Some (topdown (concat (take (N - k) cs) @ rest))" by blast
  have min: "min (N - k) ?i = N - k" using i(4) Suc.prems by simp
  have "exec_ops F (c1 @ c2) (topdown (concat cs @ rest)) =
      Some (topdown (concat (take (N - k) cs) @ rest))" if ch: "chunked xs cs" for cs rest
  proof -
    have "length cs = length xs" by (rule chunked_length [OF ch])
    then have rm: "remove_at ?i cs = take ?i cs"
      using i by (intro remove_last) auto
    have "exec_ops F c1 (topdown (concat cs @ rest)) = Some (topdown (concat (take ?i cs) @ rest))"
      using tracksD(4) [OF tracks_drop_at [of ?i F] Suc.prems(1) ch c1] Suc.prems rm by simp
    then show ?thesis
      using c2(2) [OF chunked_take [OF ch]] min by (simp add: exec_ops_append take_take)
  qed
  moreover have "truncate_loop N [a..<k] (topdown xs) = Some (c1 @ c2, topdown (take (N - k) xs))"
    using c1 c2(1) min i(4) Suc.prems by (simp add: upt_conv_Cons usize_sub_def take_take)
  ultimately show ?case by blast
qed

section \<open>Properties\<close>

text \<open>
  C10. Every stack move of the code generator keeps the operand stack and the runtime stack in
  step: with operands of one to four elements each, the emitted instructions move, copy, swap
  or drop exactly the elements of the operand that the operand stack moves, copies, swaps or
  drops, in order, and leave everything below untouched.
\<close>

theorem moves_keep_stacks_in_step:
  "tracks F (em_dup i) (\<lambda>xs. xs ! i # xs) (\<lambda>cs. cs ! i # cs)
  \<and> tracks F (em_movup i) (move_up i) (move_up i)
  \<and> tracks F (em_movdn i) (move_down i) (move_down i)
  \<and> tracks F (em_swap i) (list_swap 0 i) (list_swap 0 i)
  \<and> tracks F em_drop tl tl
  \<and> tracks F (em_dropn i) (drop i) (drop i)"
  using tracks_dup tracks_movup tracks_movdn tracks_swap tracks_drop tracks_dropn by blast

text \<open>
  C11. When the moves panic: \<open>movup\<close> and \<open>movdn\<close> accept every position from 1 to 15 that
  exists; \<open>dup\<close> and \<open>swap\<close> also ask that the operand ends within the top 16 elements; \<open>drop\<close>
  only needs an operand.
\<close>

theorem moves_succeed:
  assumes "sized (xs :: 'f operand list)"
  shows "(\<exists>r. em_movup i (topdown xs) = Some r) = (0 < i \<and> i < 16 \<and> i < length xs)
    \<and> (\<exists>r. em_movdn i (topdown xs) = Some r) = (0 < i \<and> i < 16 \<and> i < length xs)
    \<and> (\<exists>r. em_dup i (topdown xs) = Some r) =
        (i < 16 \<and> i < length xs \<and> op_sizes (take (Suc i) xs) \<le> 16)
    \<and> (\<exists>r. em_swap i (topdown xs) = Some r) =
        (0 < i \<and> i < 16 \<and> i < length xs \<and> op_sizes (take (Suc i) xs) \<le> 16)
    \<and> (\<exists>r. em_drop (topdown xs) = Some r) = (xs \<noteq> [])"
proof -
  have "\<exists>code. swap_code (op_size (xs ! 0)) (op_size (xs ! i)) (op_sizes (take i xs)) = Some (code :: 'f code)"
    if i: "0 < i" "i < length xs" "op_sizes (take (Suc i) xs) \<le> 16"
  proof -
    from i(1,2) obtain x ys j where xs: "xs = x # ys" "i = Suc j" "j < length ys"
      by (cases xs; cases i) auto
    obtain c m d :: "'f list" where "length c = op_size x" "length m = op_sizes (take j ys)"
      "length d = op_size (ys ! j)" by (meson Ex_list_of_length)
    with swap_code_exec [of c d m] i(3) assms xs sized_nth [of ys j] show ?thesis
      by (auto simp: sizes_nth)
  qed
  then show ?thesis using assms
    by (auto simp: em_movup_eq em_movdn_eq em_dup_eq em_swap_eq em_drop_eq split: list.splits)
qed

theorem moves_succeed_witness:
  "(\<exists>r. em_swap 1 (topdown [u64_operand, u64_operand :: ref_felt operand]) = Some r)"
  using moves_succeed [of "[u64_operand, u64_operand :: ref_felt operand]" 1] by simp

text \<open>
  Positioning operands: copying operand \<open>n\<close> to position \<open>m\<close> inserts a copy of it so that
  it becomes operand \<open>m\<close>; moving it takes it out first; dropping takes it out.  All three do
  the same to the elements of the runtime stack.
\<close>

theorem positions_are_reached:
  assumes "n < 256" "m < 256"
  shows "tracks F (copy_operand_to_position n m False)
      (\<lambda>xs. insert_at m (xs ! n) xs) (\<lambda>cs. insert_at m (cs ! n) cs)
    \<and> (n \<noteq> m \<longrightarrow> tracks F (move_operand_to_position n m False)
      (\<lambda>xs. insert_at m (xs ! n) (remove_at n xs)) (\<lambda>cs. insert_at m (cs ! n) (remove_at n cs)))
    \<and> move_operand_to_position n n False = em_skip
    \<and> tracks F (drop_operand_at_position n) (remove_at n) (remove_at n)"
proof -
  have "move_operand_to_position n n False = em_skip"
    by (simp add: move_operand_to_position_def)
  then show ?thesis
    using tracks_copy [OF assms] tracks_move_to [OF assms] tracks_drop_at [OF assms(1)] by blast
qed

theorem positions_are_reached_witness:
  "tracks ref_ops (copy_operand_to_position 4 2 False)
     (\<lambda>xs. insert_at 2 (xs ! 4) xs) (\<lambda>cs. insert_at 2 (cs ! 4) cs)"
  using positions_are_reached [of 4 2 ref_ops, THEN conjunct1] by simp

text \<open>
  \<open>truncate_stack n\<close> keeps exactly the top \<open>n\<close> operands, with their elements, for any
  positive \<open>n\<close> and an operand stack of at most 16 operands, and does not panic.
\<close>

theorem truncate_keeps_the_top:
  assumes "sized xs" "0 < n" "n \<le> length xs" "length xs \<le> 16"
  shows "\<exists>code. truncate_stack n (topdown xs) = Some (code, topdown (take n xs))
    \<and> (\<forall>cs rest. chunked xs cs \<longrightarrow>
        exec_ops F code (topdown (concat cs @ rest)) = Some (topdown (concat (take n cs) @ rest)))"
proof -
  have "length xs - n < length xs" "length xs - (length xs - n) = n" using assms by auto
  then show ?thesis
    using truncate_loop_tracks [OF assms(1), of "length xs" 0 "length xs - n" F] assms
    by (simp add: truncate_stack_def usize_sub_def Let_def)
qed

theorem truncate_keeps_the_top_witness:
  "\<exists>code. truncate_stack 1 (topdown [u64_operand, u64_operand])
    = Some (code, topdown [u64_operand :: ref_felt operand])
    \<and> (\<forall>cs rest. chunked [u64_operand, u64_operand] cs \<longrightarrow>
        exec_ops ref_ops code (topdown (concat cs @ rest)) = Some (topdown (concat (take 1 cs) @ rest)))"
  using truncate_keeps_the_top [of "[u64_operand, u64_operand :: ref_felt operand]" 1 ref_ops]
  by simp

lemma exec_dropw_run:
  "exec_ops F (replicate k (Stk Dropw)) (topdown us) =
     (if 4 * k \<le> length us then Some (topdown (drop (4 * k) us)) else None)"
proof (induction k arbitrary: us)
  case (Suc k)
  then show ?case by (auto simp: stack_simps add.commute)
qed simp

text \<open>
  Truncating to nothing is wrong unless the operands cover whole words: the remainder of
  \<open>r mod 4\<close> elements is dropped with that many \<open>dropw\<close> instructions, which take three more
  elements each from below the operand stack, or fail when those are not there.
\<close>

theorem truncate_to_nothing:
  assumes "chunked xs cs"
  shows "\<exists>code. truncate_stack 0 (topdown xs) = Some (code, topdown [])
    \<and> exec_ops F code (topdown (concat cs @ rest)) =
        (if 3 * (op_sizes xs mod 4) \<le> length rest
         then Some (topdown (drop (3 * (op_sizes xs mod 4)) rest)) else None)"
proof -
  let ?r = "op_sizes xs"
  define k where "k = ?r div 4 + ?r mod 4"
  have "truncate_stack 0 (topdown xs) = Some (replicate k (Stk Dropw), topdown [])"
    by (simp add: truncate_stack_def usize_sub_def stack_simps replicate_add Let_def k_def)
  moreover have "4 * k = ?r + 3 * (?r mod 4)" by (simp add: k_def algebra_simps)
  ultimately show ?thesis
    using chunked_concat [OF assms] by (simp add: exec_dropw_run)
qed

theorem truncate_to_nothing_witness:
  "\<exists>code. truncate_stack 0 (topdown [u64_operand]) = Some (code, topdown [])
    \<and> exec_ops ref_ops code (topdown (concat [[ref_of_nat 1, ref_of_nat 2]] @
        map ref_of_nat [3, 4, 5, 6, 7, 8, 9])) = Some (topdown [ref_of_nat 9])"
  using truncate_to_nothing [of "[u64_operand]" "[[ref_of_nat 1, ref_of_nat 2]]" ref_ops
      "map ref_of_nat [3, 4, 5, 6, 7, 8, 9]"]
  by (simp add: chunked_def)

text \<open>
  \<open>movup\<close> and \<open>movdn\<close> check the position among the operands but not the element it ends
  at: for an operand that ends below the top 16 elements, where \<open>dup\<close> and \<open>swap\<close> refuse, they
  emit instructions whose index is not a valid stack index.  And moving the top operand to a
  position from 2 on is not supported at all: it panics.
\<close>

theorem moves_beyond_the_stack_window:
  assumes "sized xs" "0 < i" "i < 16" "i < length xs" "16 < op_sizes (take (Suc i) xs)" "2 \<le> m"
  shows "em_dup i (topdown xs) = None \<and> em_swap i (topdown xs) = None
    \<and> (\<exists>k \<ge> 16. em_movup i (topdown xs) =
          Some (replicate (op_size (xs ! i)) (Stk (Movup k)), topdown (move_up i xs)))
    \<and> (\<exists>k \<ge> 16. em_movdn i (topdown xs) =
          Some (replicate (op_size (xs ! 0)) (Stk (Movdn k)), topdown (move_down i xs)))
    \<and> move_operand_to_position 0 m c (topdown xs) = None"
  using assms
  by (auto simp: em_dup_eq em_swap_eq em_movup_eq em_movdn_eq move_operand_to_position_def
      em_seq_def as_u8_def intro!: exI [of _ "op_sizes (take (Suc i) xs) - 1"])

theorem moves_beyond_the_stack_window_witness:
  "\<exists>k \<ge> 16. \<exists>s. em_movup 8 (topdown (replicate 9 u64_operand :: ref_felt operand list))
    = Some (replicate 2 (Stk (Movup k)), s)"
proof -
  let ?xs = "replicate 9 u64_operand :: ref_felt operand list"
  have "sized ?xs" "op_sizes (take (Suc 8) ?xs) = 18" "op_size (?xs ! 8) = 2"
    by (simp_all add: sized_def op_sizes_def sum_list_replicate)
  then show ?thesis
    using moves_beyond_the_stack_window [of ?xs 8 2 False] by auto
qed

end
