(* ===== verification/EmitInt.thy ===== *)
theory EmitInt
  imports OpEmitter
begin

text \<open>
  The integer emitters of the code generator: int32.rs, smallint.rs, felt.rs, int64.rs and
  int128.rs of codegen/masm/src/stackify/emit.  They only append instructions, so each is the
  code it emits, and \<open>None\<close> where an assertion of the compiler fails.  \<open>F\<close> provides the field
  elements that occur as literals.
\<close>

text \<open>The macros \<open>assert_valid_integer_size!\<close> and \<open>assert_valid_stack_index!\<close>.\<close>

definition assert_valid_integer_size :: "nat \<Rightarrow> nat \<Rightarrow> nat \<Rightarrow> unit option" where
  "assert_valid_integer_size n lo hi =
     do { assert_that (n > 0); assert_that (is_power_of_two n);
          assert_that (n \<ge> lo); assert_that (n \<le> hi) }"

definition assert_valid_integer_size_min :: "nat \<Rightarrow> nat \<Rightarrow> unit option" where
  "assert_valid_integer_size_min n lo =
     do { assert_that (n > 0); assert_that (is_power_of_two n); assert_that (n \<ge> lo) }"

definition assert_valid_stack_index :: "nat \<Rightarrow> unit option" where
  "assert_valid_stack_index i = assert_that (i < 16)"

text \<open>Rust's \<open>2u32.pow(k)\<close> and \<open>a << k\<close>, which panic on overflow of the result and of the shift.\<close>

definition u32_pow2 :: "nat \<Rightarrow> u32 option" where
  "u32_pow2 k = (if k < 32 then Some (2 ^ k) else None)"

definition u32_shift_left :: "u32 \<Rightarrow> nat \<Rightarrow> u32 option" where
  "u32_shift_left a k = (if k < 32 then Some (push_bit k a) else None)"

section \<open>32-bit integers\<close>

definition SIGN_BIT :: u32 where "SIGN_BIT = push_bit 31 1"

definition const_mask_u32 :: "u32 \<Rightarrow> 'f code" where
  "const_mask_u32 msk = [Stk (PushU32 msk), Bit U32And]"

definition mask_u32 :: "'f code" where
  "mask_u32 = [Stk (Dup 1), Bit U32And]"

definition is_const_flag_set_u32 :: "'f felt_ops \<Rightarrow> u32 \<Rightarrow> 'f code" where
  "is_const_flag_set_u32 F flags =
     [Stk (Dup 0)] @ const_mask_u32 flags @ [Cmp (EqImm (felt_new F (ucast flags)))]"

definition is_flag_set_u32 :: "'f code" where
  "is_flag_set_u32 = [Stk (Dup 1), Stk (Dup 1), Bit U32And, Cmp Eq]"

definition is_signed_int32 :: "'f felt_ops \<Rightarrow> 'f code" where
  "is_signed_int32 F = is_const_flag_set_u32 F SIGN_BIT"

definition is_unsigned_int32 :: "'f felt_ops \<Rightarrow> 'f code" where
  "is_unsigned_int32 F = is_signed_int32 F @ [Cmp OpNot]"

definition assert_signed_int32 :: "'f felt_ops \<Rightarrow> 'f code" where
  "assert_signed_int32 F = is_signed_int32 F @ [Stk Assert]"

definition assert_unsigned_int32 :: "'f felt_ops \<Rightarrow> 'f code" where
  "assert_unsigned_int32 F = is_signed_int32 F @ [Stk Assertz]"

definition is_i32 :: "'f code" where
  "is_i32 = [Stk (Dup 0), Stk (PushU32 0x80000000), Rel U32CheckedLte]"

definition assert_i32 :: "'f code" where
  "assert_i32 = is_i32 @ [Stk Assert]"

definition assert_eq_imm_u32 :: "'f felt_ops \<Rightarrow> u32 \<Rightarrow> 'f code" where
  "assert_eq_imm_u32 F v = [Stk (Dup 0), Cmp (EqImm (felt_new F (ucast v))), Stk Assert]"

definition assert_eq_u32 :: "'f code" where
  "assert_eq_u32 = [Stk (Dup 1), Stk AssertEq]"

definition select_int32 :: "u32 \<Rightarrow> u32 \<Rightarrow> 'f code" where
  "select_int32 a b = [Stk (PushU32 b), Stk (PushU32 a), Stk (Movup 2), Stk Cdrop]"

definition mov_select_int32 :: "u32 \<Rightarrow> u32 \<Rightarrow> nat \<Rightarrow> 'f code option" where
  "mov_select_int32 a b n =
     do { assert_valid_stack_index n;
          Some (if n > 13 then Stk (Movup n) # select_int32 a b
                else [Stk (PushU32 b), Stk (PushU32 a), Stk (Movup (n + 2)), Stk Cdrop]) }"

definition dup_select_int32 :: "u32 \<Rightarrow> u32 \<Rightarrow> nat \<Rightarrow> 'f code option" where
  "dup_select_int32 a b n =
     do { assert_valid_stack_index n;
          Some (if n > 13 then Stk (Dup n) # select_int32 a b
                else [Stk (PushU32 b), Stk (PushU32 a), Stk (Dup (n + 2)), Stk Cdrop]) }"

text \<open>The mask of the bits above the value bits of an \<open>n\<close>-bit signed integer.\<close>

definition int_mask :: "nat \<Rightarrow> u32 option" where
  "int_mask n =
     do { reserved \<leftarrow> u32_sub 32 n;
          p \<leftarrow> u32_pow2 (reserved + 1);
          k \<leftarrow> u32_sub n 1;
          u32_shift_left (p - 1) k }"

definition uint_mask :: "nat \<Rightarrow> u32 option" where
  "uint_mask n =
     do { reserved \<leftarrow> u32_sub 32 n;
          p \<leftarrow> u32_pow2 reserved;
          u32_shift_left (p - 1) n }"

definition int32_to_int :: "nat \<Rightarrow> 'f code option" where
  "int32_to_int n =
     do { assert_valid_integer_size n 1 32;
          msk \<leftarrow> int_mask n;
          Some (is_i32 @ select_int32 msk 0 @ [Stk (Dup 1), Stk (Dup 1), Bit U32And, Stk AssertEq]) }"

definition try_int32_to_int :: "nat \<Rightarrow> 'f code option" where
  "try_int32_to_int n =
     do { assert_valid_integer_size n 1 32;
          msk \<leftarrow> int_mask n;
          Some (is_i32 @ select_int32 msk 0 @ [Stk (Dup 1), Stk (Dup 1), Bit U32And, Cmp Eq]) }"

definition int32_to_uint :: "nat \<Rightarrow> 'f code option" where
  "int32_to_uint n =
     do { assert_valid_integer_size n 1 32;
          msk \<leftarrow> uint_mask n;
          Some [Stk (Dup 1), Stk (PushU32 msk), Bit U32And, Stk Assertz] }"

definition try_int32_to_uint :: "'f felt_ops \<Rightarrow> nat \<Rightarrow> 'f code option" where
  "try_int32_to_uint F n =
     do { assert_valid_integer_size n 1 32;
          msk \<leftarrow> uint_mask n;
          Some [Stk (Dup 1), Stk (PushU32 msk), Bit U32And, Cmp (EqImm (felt_ZERO F))] }"

definition trunc_int32 :: "nat \<Rightarrow> 'f code option" where
  "trunc_int32 n =
     do { assert_valid_integer_size n 1 32;
          unused_bits \<leftarrow> u32_sub 32 n;
          if unused_bits > 0 then do {
            msk \<leftarrow> u32_shift_left 1 ((32 - unused_bits) - 1);
            Some (const_mask_u32 msk) }
          else Some [] }"

definition zext_int32 :: "nat \<Rightarrow> 'f code option" where
  "zext_int32 n =
     do { assert_valid_integer_size_min n 32;
          if n \<le> 32 then Some []
          else do {
            let num_bits = n mod 32;
            let num_elements = n div 32 + (if num_bits > 0 then 1 else 0);
            let needed = num_elements - 1;
            Some (replicate needed (Stk (PushU32 0))) } }"

definition pad_int32 :: "nat \<Rightarrow> 'f code option" where
  "pad_int32 n =
     do { assert_valid_integer_size_min n 32;
          Some (replicate (n div 32 - 2) (Stk (Dup 0))) }"

definition sext_int32 :: "'f felt_ops \<Rightarrow> nat \<Rightarrow> 'f code option" where
  "sext_int32 F n =
     do { assert_valid_integer_size_min n 32;
          pad \<leftarrow> pad_int32 n;
          Some (is_signed_int32 F @ select_int32 0xFFFFFFFF 0 @ pad) }"

definition emit_push_u32 :: "u32 \<Rightarrow> 'f code" where "emit_push_u32 i = [Stk (PushU32 i)]"
definition emit_push_i32 :: "u32 \<Rightarrow> 'f code" where "emit_push_i32 i = [Stk (PushU32 i)]"

definition add_u32 :: "overflow \<Rightarrow> 'f code" where
  "add_u32 overflow =
     [case overflow of
        Unchecked \<Rightarrow> Fld Add
      | Checked \<Rightarrow> Arith U32CheckedAdd
      | Wrapping \<Rightarrow> Arith U32WrappingAdd
      | Overflowing \<Rightarrow> Arith U32OverflowingAdd]"

definition add_i32 :: "overflow \<Rightarrow> 'f code" where
  "add_i32 overflow = add_u32 overflow"

definition add_imm_u32 :: "'f felt_ops \<Rightarrow> u32 \<Rightarrow> overflow \<Rightarrow> 'f code" where
  "add_imm_u32 F imm overflow =
     (if imm = 0 then []
      else [case overflow of
          Unchecked \<Rightarrow> if imm = 1 then Fld Incr else Fld (AddImm (felt_new F (ucast imm)))
        | Checked \<Rightarrow> Arith (U32CheckedAddImm imm)
        | Wrapping \<Rightarrow> Arith (U32WrappingAddImm imm)
        | Overflowing \<Rightarrow> Arith (U32OverflowingAddImm imm)])"

definition sub_u32 :: "overflow \<Rightarrow> 'f code" where
  "sub_u32 overflow =
     [case overflow of
        Unchecked \<Rightarrow> Fld Sub
      | Checked \<Rightarrow> Arith U32CheckedSub
      | Wrapping \<Rightarrow> Arith U32WrappingSub
      | Overflowing \<Rightarrow> Arith U32OverflowingSub]"

definition sub_imm_u32 :: "'f felt_ops \<Rightarrow> u32 \<Rightarrow> overflow \<Rightarrow> 'f code" where
  "sub_imm_u32 F imm overflow =
     (if imm = 0 then []
      else [case overflow of
          Unchecked \<Rightarrow> Fld (SubImm (felt_new F (ucast imm)))
        | Checked \<Rightarrow> Arith (U32CheckedSubImm imm)
        | Wrapping \<Rightarrow> Arith (U32WrappingSubImm imm)
        | Overflowing \<Rightarrow> Arith (U32OverflowingSubImm imm)])"

definition mul_u32 :: "overflow \<Rightarrow> 'f code" where
  "mul_u32 overflow =
     [case overflow of
        Unchecked \<Rightarrow> Fld Mul
      | Checked \<Rightarrow> Arith U32CheckedMul
      | Wrapping \<Rightarrow> Arith U32WrappingMul
      | Overflowing \<Rightarrow> Arith U32OverflowingMul]"

definition mul_imm_u32 :: "'f felt_ops \<Rightarrow> u32 \<Rightarrow> overflow \<Rightarrow> 'f code" where
  "mul_imm_u32 F imm overflow =
     (if imm = 0 then [Stk Drop, Stk (PushU32 0)]
      else if imm = 1 then []
      else [case overflow of
          Unchecked \<Rightarrow> Fld (MulImm (felt_new F (ucast imm)))
        | Checked \<Rightarrow> Arith (U32CheckedMulImm imm)
        | Wrapping \<Rightarrow> Arith (U32WrappingMulImm imm)
        | Overflowing \<Rightarrow> Arith (U32OverflowingMulImm imm)])"

definition checked_div_u32 :: "'f code" where "checked_div_u32 = [Bit U32CheckedDiv]"
definition unchecked_div_u32 :: "'f code" where "unchecked_div_u32 = [Bit U32UncheckedDiv]"
definition checked_mod_u32 :: "'f code" where "checked_mod_u32 = [Bit U32CheckedMod]"
definition unchecked_mod_u32 :: "'f code" where "unchecked_mod_u32 = [Bit U32UncheckedMod]"
definition checked_divmod_u32 :: "'f code" where "checked_divmod_u32 = [Bit U32CheckedDivMod]"
definition unchecked_divmod_u32 :: "'f code" where "unchecked_divmod_u32 = [Bit U32UncheckedDivMod]"

definition checked_div_imm_u32 :: "u32 \<Rightarrow> 'f code option" where
  "checked_div_imm_u32 imm = do { assert_that (imm \<noteq> 0); Some [Bit (U32CheckedDivImm imm)] }"
definition unchecked_div_imm_u32 :: "u32 \<Rightarrow> 'f code option" where
  "unchecked_div_imm_u32 imm = do { assert_that (imm \<noteq> 0); Some [Bit (U32UncheckedDivImm imm)] }"
definition checked_mod_imm_u32 :: "u32 \<Rightarrow> 'f code option" where
  "checked_mod_imm_u32 imm = do { assert_that (imm \<noteq> 0); Some [Bit (U32CheckedModImm imm)] }"
definition unchecked_mod_imm_u32 :: "u32 \<Rightarrow> 'f code option" where
  "unchecked_mod_imm_u32 imm = do { assert_that (imm \<noteq> 0); Some [Bit (U32UncheckedModImm imm)] }"
definition checked_divmod_imm_u32 :: "u32 \<Rightarrow> 'f code option" where
  "checked_divmod_imm_u32 imm = do { assert_that (imm \<noteq> 0); Some [Bit (U32CheckedDivModImm imm)] }"
definition unchecked_divmod_imm_u32 :: "u32 \<Rightarrow> 'f code option" where
  "unchecked_divmod_imm_u32 imm =
     do { assert_that (imm \<noteq> 0); Some [Bit (U32UncheckedDivModImm imm)] }"

definition band_u32 :: "'f code" where "band_u32 = [Bit U32And]"
definition band_imm_u32 :: "u32 \<Rightarrow> 'f code" where "band_imm_u32 imm = [Stk (PushU32 imm), Bit U32And]"
definition bor_u32 :: "'f code" where "bor_u32 = [Bit U32Or]"
definition bor_imm_u32 :: "u32 \<Rightarrow> 'f code" where "bor_imm_u32 imm = [Stk (PushU32 imm), Bit U32Or]"
definition bxor_u32 :: "'f code" where "bxor_u32 = [Bit U32Xor]"
definition bxor_imm_u32 :: "u32 \<Rightarrow> 'f code" where "bxor_imm_u32 imm = [Stk (PushU32 imm), Bit U32Xor]"
definition bnot_u32 :: "'f code" where "bnot_u32 = [Arith (U32CheckedSubImm 0xFFFFFFFF)]"
definition shl_u32 :: "'f code" where "shl_u32 = [Bit U32CheckedShl]"
definition shr_u32 :: "'f code" where "shr_u32 = [Bit U32CheckedShr]"
definition rotl_u32 :: "'f code" where "rotl_u32 = [Bit U32CheckedRotl]"
definition rotr_u32 :: "'f code" where "rotr_u32 = [Bit U32CheckedRotr]"

definition shl_imm_u32 :: "u32 \<Rightarrow> 'f code option" where
  "shl_imm_u32 imm = do { assert_that (imm < 32); Some [Bit (U32CheckedShlImm imm)] }"
definition shr_imm_u32 :: "u32 \<Rightarrow> 'f code option" where
  "shr_imm_u32 imm = do { assert_that (imm < 32); Some [Bit (U32CheckedShrImm imm)] }"
definition rotl_imm_u32 :: "u32 \<Rightarrow> 'f code option" where
  "rotl_imm_u32 imm = do { assert_that (imm < 32); Some [Bit (U32CheckedRotlImm imm)] }"
definition rotr_imm_u32 :: "u32 \<Rightarrow> 'f code option" where
  "rotr_imm_u32 imm = do { assert_that (imm < 32); Some [Bit (U32CheckedRotrImm imm)] }"

definition min_u32 :: "'f code" where "min_u32 = [Rel U32CheckedMin]"
definition min_imm_u32 :: "'f felt_ops \<Rightarrow> u32 \<Rightarrow> 'f code" where
  "min_imm_u32 F imm = [Stk (Push (felt_new F (ucast imm))), Rel U32CheckedMin]"
definition max_u32 :: "'f code" where "max_u32 = [Rel U32CheckedMax]"
definition max_imm_u32 :: "'f felt_ops \<Rightarrow> u32 \<Rightarrow> 'f code" where
  "max_imm_u32 F imm = [Stk (Push (felt_new F (ucast imm))), Rel U32CheckedMax]"

section \<open>Integers of at most 32 bits\<close>

definition is_signed_smallint :: "'f felt_ops \<Rightarrow> nat \<Rightarrow> 'f code option" where
  "is_signed_smallint F n =
     do { assert_valid_integer_size n 1 32;
          if n = 1 then Some [Stk (PushU32 0)]
          else do {
            flag \<leftarrow> u32_shift_left 1 (n - 1);
            Some (is_const_flag_set_u32 F flag) } }"

definition assert_unsigned_smallint :: "'f felt_ops \<Rightarrow> nat \<Rightarrow> 'f code option" where
  "assert_unsigned_smallint F n =
     (if n = 1 then Some []
      else do { c \<leftarrow> is_signed_smallint F n; Some (c @ [Stk Assert]) })"

definition is_valid_uint :: "'f felt_ops \<Rightarrow> nat \<Rightarrow> 'f code option" where
  "is_valid_uint F n = try_int32_to_uint F n"

definition is_valid_int :: "nat \<Rightarrow> 'f code option" where
  "is_valid_int n = try_int32_to_int n"

definition int_to_felt :: "'f felt_ops \<Rightarrow> nat \<Rightarrow> 'f code option" where
  "int_to_felt F n = assert_unsigned_smallint F n"

definition uint_to_felt :: "nat \<Rightarrow> 'f code option" where
  "uint_to_felt n = do { assert_valid_integer_size n 1 32; Some [] }"

definition int_to_u64 :: "'f felt_ops \<Rightarrow> nat \<Rightarrow> 'f code option" where
  "int_to_u64 F n = do { c \<leftarrow> assert_unsigned_smallint F n; Some (c @ [Stk (PushU32 0)]) }"

definition uint_to_u64 :: "'f code" where
  "uint_to_u64 = [Stk (PushU32 0)]"

definition sext_smallint :: "'f felt_ops \<Rightarrow> nat \<Rightarrow> nat \<Rightarrow> 'f code option" where
  "sext_smallint F n m =
     do { assert_valid_integer_size n n 256;
          if n = m then Some []
          else do {
            num_sign_bits \<leftarrow> u32_sub 32 n;
            p \<leftarrow> u32_shift_left 1 num_sign_bits;
            sign_bits \<leftarrow> u32_shift_left (p - 1) n;
            c \<leftarrow> is_signed_smallint F n;
            if m > 32 then do {
              pad \<leftarrow> pad_int32 m;
              Some (c @ [Stk (Dup 0)] @ select_int32 sign_bits 0 @
                [Stk (Movup 2), Bit U32Or, Stk (Swap 1)] @ select_int32 0xFFFFFFFF 0 @ pad) }
            else Some (c @ select_int32 sign_bits 0 @ [Bit U32Or]) } }"

definition zext_smallint :: "nat \<Rightarrow> nat \<Rightarrow> 'f code option" where
  "zext_smallint n m =
     do { assert_valid_integer_size n n 256;
          if n = m then Some [] else zext_int32 m }"

definition int_to_i128 :: "'f felt_ops \<Rightarrow> nat \<Rightarrow> 'f code option" where
  "int_to_i128 F n = sext_smallint F n 128"

definition uint_to_i128 :: "'f code" where
  "uint_to_i128 = replicate 3 (Stk (PushU32 0))"

definition handle_uint_overflow :: "'f felt_ops \<Rightarrow> nat \<Rightarrow> overflow \<Rightarrow> 'f code option" where
  "handle_uint_overflow F n overflow =
     (case overflow of
        Unchecked \<Rightarrow> Some []
      | Checked \<Rightarrow> int32_to_uint n
      | Wrapping \<Rightarrow> do { p \<leftarrow> u32_pow2 n; Some [Bit (U32CheckedModImm p)] }
      | Overflowing \<Rightarrow> do {
          c \<leftarrow> try_int32_to_uint F n;
          p \<leftarrow> u32_pow2 n;
          Some (c @ [Stk (Swap 1), Bit (U32CheckedModImm p), Stk (Swap 1), Cmp OpNot]) })"

definition add_uint :: "'f felt_ops \<Rightarrow> nat \<Rightarrow> overflow \<Rightarrow> 'f code option" where
  "add_uint F n overflow =
     (if overflow = Unchecked then Some (add_u32 Unchecked)
      else do { c \<leftarrow> handle_uint_overflow F n overflow; Some (add_u32 Checked @ c) })"

definition add_imm_uint :: "'f felt_ops \<Rightarrow> u32 \<Rightarrow> nat \<Rightarrow> overflow \<Rightarrow> 'f code option" where
  "add_imm_uint F imm n overflow =
     (if overflow = Unchecked then Some (add_imm_u32 F imm Unchecked)
      else do { c \<leftarrow> handle_uint_overflow F n overflow; Some (add_imm_u32 F imm Checked @ c) })"

definition sub_uint :: "'f felt_ops \<Rightarrow> nat \<Rightarrow> overflow \<Rightarrow> 'f code option" where
  "sub_uint F n overflow =
     (if overflow = Unchecked then Some (sub_u32 overflow)
      else do { c \<leftarrow> handle_uint_overflow F n overflow; Some (sub_u32 overflow @ c) })"

definition sub_imm_uint :: "'f felt_ops \<Rightarrow> u32 \<Rightarrow> nat \<Rightarrow> overflow \<Rightarrow> 'f code option" where
  "sub_imm_uint F imm n overflow =
     (if imm = 0 then Some []
      else if overflow = Unchecked then Some (sub_imm_u32 F imm overflow)
      else do { c \<leftarrow> handle_uint_overflow F n overflow; Some (sub_imm_u32 F imm overflow @ c) })"

definition mul_uint :: "'f felt_ops \<Rightarrow> nat \<Rightarrow> overflow \<Rightarrow> 'f code option" where
  "mul_uint F n overflow =
     (if overflow = Unchecked then Some (mul_u32 Unchecked)
      else do { c \<leftarrow> handle_uint_overflow F n overflow; Some (mul_u32 Checked @ c) })"

definition mul_imm_uint :: "'f felt_ops \<Rightarrow> u32 \<Rightarrow> nat \<Rightarrow> overflow \<Rightarrow> 'f code option" where
  "mul_imm_uint F imm n overflow =
     (if overflow = Unchecked then Some (mul_imm_u32 F imm Unchecked)
      else do { c \<leftarrow> handle_uint_overflow F n overflow; Some (mul_imm_u32 F imm Checked @ c) })"

definition checked_div_uint :: "nat \<Rightarrow> 'f code option" where
  "checked_div_uint n = do { c \<leftarrow> int32_to_uint n; Some (checked_div_u32 @ c) }"

definition checked_div_imm_uint :: "u32 \<Rightarrow> nat \<Rightarrow> 'f code option" where
  "checked_div_imm_uint imm n =
     do { c1 \<leftarrow> checked_div_imm_u32 imm; c2 \<leftarrow> int32_to_uint n; Some (c1 @ c2) }"

definition unchecked_div_uint :: "'f code" where "unchecked_div_uint = unchecked_div_u32"
definition unchecked_div_imm_uint :: "u32 \<Rightarrow> 'f code option" where
  "unchecked_div_imm_uint imm = unchecked_div_imm_u32 imm"
definition checked_mod_uint :: "'f code" where "checked_mod_uint = checked_mod_u32"
definition checked_mod_imm_uint :: "u32 \<Rightarrow> 'f code option" where
  "checked_mod_imm_uint imm = checked_mod_imm_u32 imm"
definition unchecked_mod_uint :: "'f code" where "unchecked_mod_uint = unchecked_mod_u32"
definition unchecked_mod_imm_uint :: "u32 \<Rightarrow> 'f code option" where
  "unchecked_mod_imm_uint imm = unchecked_mod_imm_u32 imm"
definition checked_divmod_uint :: "'f code" where "checked_divmod_uint = checked_divmod_u32"
definition checked_divmod_imm_uint :: "u32 \<Rightarrow> 'f code option" where
  "checked_divmod_imm_uint imm = checked_divmod_imm_u32 imm"
definition unchecked_divmod_uint :: "'f code" where "unchecked_divmod_uint = unchecked_divmod_u32"
definition unchecked_divmod_imm_uint :: "u32 \<Rightarrow> 'f code option" where
  "unchecked_divmod_imm_uint imm = unchecked_divmod_imm_u32 imm"

section \<open>64-bit integers\<close>

text \<open>A function of the standard library of the VM, which is not part of the sources.\<close>

definition std_u64 :: "string \<Rightarrow> 'f masm_op" where
  "std_u64 name = OpExec (FunctionIdent ''std::math::u64'' name)"

text \<open>
  \<open>to_raw_parts\<close> and \<open>from_raw_parts\<close> of int64.rs: the four low bytes of the little-endian
  encoding are called \<open>hi\<close> there.
\<close>

definition u64_to_raw_parts :: "u64 \<Rightarrow> u32 \<times> u32" where
  "u64_to_raw_parts v = (let hi = ucast v; lo = ucast (drop_bit 32 v) in (hi, lo))"

definition u64_from_raw_parts :: "'f felt_ops \<Rightarrow> u32 \<Rightarrow> u32 \<Rightarrow> 'f code" where
  "u64_from_raw_parts F lo hi = [Stk (Push2 (felt_new F (ucast lo)) (felt_new F (ucast hi)))]"

definition push_u64 :: "'f felt_ops \<Rightarrow> u64 \<Rightarrow> 'f code" where
  "push_u64 F v = (case u64_to_raw_parts v of (hi, lo) \<Rightarrow> u64_from_raw_parts F lo hi)"

definition push_i64 :: "'f felt_ops \<Rightarrow> u64 \<Rightarrow> 'f code" where
  "push_i64 F v = push_u64 F v"

definition copy_int64_from :: "nat \<Rightarrow> 'f code option" where
  "copy_int64_from n = do { assert_valid_stack_index (n + 1); Some (replicate 2 (Stk (Dup (n + 1)))) }"

definition copy_int64 :: "'f code option" where
  "copy_int64 = copy_int64_from 0"

definition move_int64_up :: "nat \<Rightarrow> 'f code option" where
  "move_int64_up n =
     do { assert_valid_stack_index (n + 1);
          Some (if n = 0 then []
                else if n = 1 then [Stk (Movdn 2)]
                else [Stk (Movup (n + 1)), Stk (Movup (n + 1))]) }"

definition lt_u64 :: "'f code" where "lt_u64 = [std_u64 ''checked_lt'']"
definition lte_u64 :: "'f code" where "lte_u64 = [std_u64 ''checked_lte'']"
definition gt_u64 :: "'f code" where "gt_u64 = [std_u64 ''checked_gt'']"
definition gte_u64 :: "'f code" where "gte_u64 = [std_u64 ''checked_gte'']"
definition eq_int64 :: "'f code" where "eq_int64 = [std_u64 ''checked_eq'']"
definition is_zero_int64 :: "'f code" where "is_zero_int64 = [std_u64 ''checked_eqz'']"
definition min_u64 :: "'f code" where "min_u64 = [std_u64 ''checked_min'']"
definition max_u64 :: "'f code" where "max_u64 = [std_u64 ''checked_max'']"
definition neq_int64 :: "'f code" where "neq_int64 = [std_u64 ''checked_neq'']"

definition add_u64 :: "overflow \<Rightarrow> 'f code" where
  "add_u64 overflow =
     [case overflow of
        Checked \<Rightarrow> std_u64 ''checked_add''
      | Unchecked \<Rightarrow> std_u64 ''wrapping_add''
      | Wrapping \<Rightarrow> std_u64 ''wrapping_add''
      | Overflowing \<Rightarrow> std_u64 ''overflowing_add'']"

definition sub_u64 :: "overflow \<Rightarrow> 'f code" where
  "sub_u64 overflow =
     [case overflow of
        Checked \<Rightarrow> std_u64 ''checked_sub''
      | Unchecked \<Rightarrow> std_u64 ''wrapping_sub''
      | Wrapping \<Rightarrow> std_u64 ''wrapping_sub''
      | Overflowing \<Rightarrow> std_u64 ''overflowing_sub'']"

definition mul_u64 :: "overflow \<Rightarrow> 'f code" where
  "mul_u64 overflow =
     [case overflow of
        Checked \<Rightarrow> std_u64 ''checked_mul''
      | Unchecked \<Rightarrow> std_u64 ''wrapping_mul''
      | Wrapping \<Rightarrow> std_u64 ''wrapping_mul''
      | Overflowing \<Rightarrow> std_u64 ''overflowing_mul'']"

definition checked_div_u64 :: "'f code" where "checked_div_u64 = [std_u64 ''checked_div'']"
definition unchecked_div_u64 :: "'f code" where "unchecked_div_u64 = [std_u64 ''unchecked_div'']"
definition checked_mod_u64 :: "'f code" where "checked_mod_u64 = [std_u64 ''checked_mod'']"
definition unchecked_mod_u64 :: "'f code" where "unchecked_mod_u64 = [std_u64 ''unchecked_mod'']"
definition checked_divmod_u64 :: "'f code" where "checked_divmod_u64 = [std_u64 ''checked_divmod'']"
definition unchecked_divmod_u64 :: "'f code" where "unchecked_divmod_u64 = [std_u64 ''unchecked_divmod'']"
definition band_int64 :: "'f code" where "band_int64 = [std_u64 ''checked_and'']"
definition bor_int64 :: "'f code" where "bor_int64 = [std_u64 ''checked_or'']"
definition bxor_int64 :: "'f code" where "bxor_int64 = [std_u64 ''checked_xor'']"
definition shl_u64 :: "'f code" where "shl_u64 = [std_u64 ''unchecked_shl'']"
definition shr_u64 :: "'f code" where "shr_u64 = [std_u64 ''unchecked_shr'']"
definition rotl_u64 :: "'f code" where "rotl_u64 = [std_u64 ''unchecked_rotl'']"
definition rotr_u64 :: "'f code" where "rotr_u64 = [std_u64 ''unchecked_rotr'']"

text \<open>The constant \<open>U32_FIELD_MODULUS\<close> of felt.rs, and \<open>P\<close> as a \<open>u64\<close>.\<close>

definition U32_FIELD_MODULUS :: "'f felt_ops \<Rightarrow> 'f" where
  "U32_FIELD_MODULUS F = felt_new F (2 ^ 32)"

definition u64_to_felt :: "'f felt_ops \<Rightarrow> 'f code option" where
  "u64_to_felt F =
     do { c \<leftarrow> copy_int64;
          Some (c @ push_u64 F (of_nat felt_P) @ lte_u64 @ [Stk Assert, Fld Mul]) }"

definition is_signed_int64 :: "'f felt_ops \<Rightarrow> 'f code" where
  "is_signed_int64 F = is_signed_int32 F"

definition assert_unsigned_int64 :: "'f felt_ops \<Rightarrow> 'f code" where
  "assert_unsigned_int64 F = assert_unsigned_int32 F"

definition i64_to_felt :: "'f felt_ops \<Rightarrow> 'f code option" where
  "i64_to_felt F = do { c \<leftarrow> u64_to_felt F; Some (assert_unsigned_int64 F @ c) }"

definition u64_to_uint :: "'f felt_ops \<Rightarrow> nat \<Rightarrow> 'f code option" where
  "u64_to_uint F n =
     do { assert_that (n < 64);
          Some [Stk (PushU32 0), Stk AssertEq, Stk (Dup 0), Stk (Push (felt_new F (2 ^ n - 1))),
            Rel U32UncheckedLte] }"

definition i64_to_int :: "'f felt_ops \<Rightarrow> nat \<Rightarrow> 'f code option" where
  "i64_to_int F n =
     do { k \<leftarrow> u32_sub n 1;
          assert_that (k < 64);
          let value_bits = (ucast (2 ^ k - 1 :: u64) :: u32);
          Some ([Stk (Dup 0), Cmp (EqImm (felt_ZERO F)), Stk (Dup 0), Stk (Movdn 2)] @
            select_int32 0 0xFFFFFFFF @ [Stk AssertEq, Stk (Dup 1)] @
            const_mask_u32 (NOT value_bits) @
            [Stk (Dup 0), Stk (PushU32 0), Stk (Movup 3), Stk Cdrop, Stk AssertEq]) }"

definition trunc_int64_to_felt :: "'f felt_ops \<Rightarrow> 'f code" where
  "trunc_int64_to_felt F = [Fld (MulImm (U32_FIELD_MODULUS F)), Fld Add]"

definition trunc_int64 :: "nat \<Rightarrow> 'f code option" where
  "trunc_int64 n =
     do { assert_valid_integer_size n 1 32;
          c \<leftarrow> (if n = 32 then Some [] else trunc_int32 n);
          Some (Stk Drop # c) }"

definition sext_int64 :: "'f felt_ops \<Rightarrow> nat \<Rightarrow> 'f code option" where
  "sext_int64 F n =
     do { assert_valid_integer_size n 128 256;
          pad \<leftarrow> pad_int32 (n - 32);
          Some (is_signed_int64 F @ select_int32 0xFFFFFFFF 0 @ pad) }"

definition zext_int64 :: "nat \<Rightarrow> 'f code option" where
  "zext_int64 n = do { assert_valid_integer_size n 128 256; zext_int32 (n - 32) }"

definition assert_int64 :: "'f code" where
  "assert_int64 = [Arith U32Assert2]"

definition assert_i64 :: "'f felt_ops \<Rightarrow> 'f code option" where
  "assert_i64 F =
     do { c \<leftarrow> copy_int64; Some (c @ push_i64 F (push_bit 63 1) @ lte_u64 @ [Stk Assert]) }"

section \<open>Field elements\<close>

definition felt_is_zero :: "'f felt_ops \<Rightarrow> 'f code" where
  "felt_is_zero F = [Stk (Dup 0), Cmp (EqImm (felt_ZERO F))]"

definition assert_felt_is_zero :: "'f code" where
  "assert_felt_is_zero = [Stk (Dup 0), Stk Assertz]"

definition felt_to_i128 :: "'f felt_ops \<Rightarrow> 'f code" where
  "felt_to_i128 F = [Arith U32Split, Stk (Push2 (felt_ZERO F) (felt_ZERO F))]"

definition felt_to_u64 :: "'f code" where
  "felt_to_u64 = [Arith U32Split]"

definition felt_to_i64 :: "'f felt_ops \<Rightarrow> 'f code" where
  "felt_to_i64 F = felt_to_u64 @ assert_unsigned_int64 F"

definition felt_to_uint :: "'f felt_ops \<Rightarrow> nat \<Rightarrow> 'f code option" where
  "felt_to_uint F n =
     do { assert_valid_integer_size n 1 32;
          c \<leftarrow> (if n < 32 then int32_to_uint n else Some []);
          Some ([Arith U32Split, Cmp (EqImm (felt_ZERO F)), Stk Assert] @ c) }"

definition felt_to_int :: "'f felt_ops \<Rightarrow> nat \<Rightarrow> 'f code option" where
  "felt_to_int F n =
     do { assert_valid_integer_size n 1 32;
          c \<leftarrow> (if n < 32 then int32_to_int n else Some []);
          Some ([Arith U32Split, Cmp (EqImm (felt_ZERO F)), Stk Assert] @
            assert_unsigned_int32 F @ c) }"

definition zext_felt :: "'f felt_ops \<Rightarrow> nat \<Rightarrow> 'f code option" where
  "zext_felt F n =
     do { assert_valid_integer_size n 64 256;
          if n = 64 then Some felt_to_u64
          else if n = 128 then Some (felt_to_i128 F)
          else do { c \<leftarrow> zext_int64 n; Some (felt_to_u64 @ c) } }"

definition sext_felt :: "'f felt_ops \<Rightarrow> nat \<Rightarrow> 'f code option" where
  "sext_felt F n =
     do { assert_valid_integer_size n 64 256;
          if n = 64 then Some (felt_to_i64 F)
          else if n = 128 then Some (felt_to_i128 F)
          else do { c \<leftarrow> sext_int64 F n; Some (felt_to_i64 F @ c) } }"

definition trunc_felt :: "nat \<Rightarrow> 'f code option" where
  "trunc_felt n = do { c \<leftarrow> trunc_int32 n; Some (Arith U32Cast # c) }"

definition dup_felt :: "nat \<Rightarrow> 'f code" where
  "dup_felt n = replicate n (Stk (Dup 0))"

section \<open>128-bit integers\<close>

definition is_signed_i128 :: "'f felt_ops \<Rightarrow> 'f code" where
  "is_signed_i128 F = is_signed_int32 F"

definition assert_unsigned_i128 :: "'f felt_ops \<Rightarrow> 'f code" where
  "assert_unsigned_i128 F = assert_unsigned_int32 F"

definition push_i128 :: "'f felt_ops \<Rightarrow> u128 \<Rightarrow> 'f code" where
  "push_i128 F v =
     (let hi = ucast v; lo = ucast (drop_bit 64 v) in push_u64 F lo @ push_u64 F hi)"

definition i128_to_u64 :: "'f code" where
  "i128_to_u64 = assert_felt_is_zero @ [Stk AssertEq]"

definition i128_to_felt :: "'f felt_ops \<Rightarrow> 'f code option" where
  "i128_to_felt F = do { c \<leftarrow> u64_to_felt F; Some (i128_to_u64 @ c) }"

definition i128_to_i64 :: "'f felt_ops \<Rightarrow> 'f code option" where
  "i128_to_i64 F =
     do { up \<leftarrow> move_int64_up 2;
          Some (is_signed_int32 F @ [Stk (Dup 0)] @ select_int32 0xFFFFFFFF 0 @ up @
            [Stk (Movup 2)] @ assert_eq_u32 @ [Stk AssertEq, Stk (Swap 1)] @
            is_const_flag_set_u32 F (push_bit 31 1) @ [Stk (Movup 2), Stk AssertEq]) }"

definition trunc_i128_to_felt :: "'f felt_ops \<Rightarrow> 'f code" where
  "trunc_i128_to_felt F = replicate 2 (Stk Drop) @ trunc_int64_to_felt F"

definition trunc_i128 :: "nat \<Rightarrow> 'f code option" where
  "trunc_i128 n =
     do { assert_valid_integer_size n 1 64;
          if n = 64 then Some (replicate 2 (Stk Drop))
          else if n = 32 then Some (replicate 3 (Stk Drop))
          else trunc_int32 n }"

definition eq_i128 :: "'f code" where
  "eq_i128 = [Cmp Eqw, Stk (Movdn 8), Stk Dropw, Stk Dropw]"

definition neq_i128 :: "'f code" where
  "neq_i128 = eq_i128 @ [Cmp OpNot]"

section \<open>Literals\<close>

text \<open>\<open>push_immediate\<close> and \<open>literal\<close> of emit/mod.rs.\<close>

definition push_immediate :: "'f felt_ops \<Rightarrow> 'f immediate \<Rightarrow> 'f code option" where
  "push_immediate F imm =
     (case imm of
        ImmI1 i \<Rightarrow> Some [Stk (PushU8 (u8_of_bool i))]
      | ImmI8 i \<Rightarrow> Some [Stk (PushU8 i)]
      | ImmU8 i \<Rightarrow> Some [Stk (PushU8 i)]
      | ImmU16 i \<Rightarrow> Some [Stk (PushU32 (ucast i))]
      | ImmI16 i \<Rightarrow> Some [Stk (PushU32 (ucast i))]
      | ImmU32 i \<Rightarrow> Some [Stk (PushU32 i)]
      | ImmI32 i \<Rightarrow> Some [Stk (PushU32 i)]
      | ImmU64 i \<Rightarrow> Some (push_u64 F i)
      | ImmI64 i \<Rightarrow> Some (push_i64 F i)
      | ImmI128 i \<Rightarrow> Some (push_i128 F i)
      | ImmFelt i \<Rightarrow> Some [Stk (Push i)]
      | ImmF64 _ \<Rightarrow> None)"

definition literal :: "'f felt_ops \<Rightarrow> 'f immediate \<Rightarrow> 'f emitter" where
  "literal F imm s =
     do { c \<leftarrow> push_immediate F imm;
          x \<leftarrow> new_operand (OpConst (CImm imm));
          Some (c, os_push x s) }"

end
