(* ===== verification/EmitIntProps.thy ===== *)
theory EmitIntProps
  imports EmitInt
begin

text \<open>
  What the integer emitters compute: the emitted code is executed on a runtime stack of field
  elements, read from the top, and the results are compared with the operation on words.
  \<open>exec_from F code xs\<close> is the stack the code leaves when it starts on \<open>xs\<close>, \<open>None\<close> a trap.
\<close>

definition exec_from :: "'f felt_ops \<Rightarrow> 'f code \<Rightarrow> 'f list \<Rightarrow> 'f list option" where
  "exec_from F code xs = map_option topdown (exec_ops F code (topdown xs))"

lemma exec_from_eq:
  "exec_ops F code (topdown xs) = Some (topdown ys) \<Longrightarrow> exec_from F code xs = Some ys"
  "exec_ops F code (topdown xs) = None \<Longrightarrow> exec_from F code xs = None"
  by (simp_all add: exec_from_def topdown_def)

lemma exec_from_append:
  "exec_from F (c1 @ c2) xs = Option.bind (exec_from F c1 xs) (exec_from F c2)"
  by (cases "exec_ops F c1 (topdown xs)") (simp_all add: exec_from_def exec_ops_append topdown_def)

lemma exec_from_Nil [simp]: "exec_from F [] xs = Some xs"
  by (simp add: exec_from_def topdown_def)

lemma exec_from_Cons:
  "exec_from F (op # c) xs = Option.bind (exec_from F [op] xs) (exec_from F c)"
  using exec_from_append [of F "[op]" c xs] by simp

lemma exec_from_one:
  "exec_from F [op] xs = map_option topdown (exec_op F op (topdown xs))"
  by (cases "exec_op F op (topdown xs)") (simp_all add: exec_from_def)

lemmas code_defs =
  const_mask_u32_def mask_u32_def is_const_flag_set_u32_def is_flag_set_u32_def
  is_signed_int32_def is_unsigned_int32_def assert_signed_int32_def assert_unsigned_int32_def
  is_i32_def assert_i32_def assert_eq_imm_u32_def assert_eq_u32_def select_int32_def

lemma powers_of_two [simp]:
  "is_power_of_two (Suc 0)" "is_power_of_two 2" "is_power_of_two 4" "is_power_of_two 8"
  "is_power_of_two 16" "is_power_of_two 32" "is_power_of_two 64" "is_power_of_two 128"
  "is_power_of_two 256"
  by (simp_all add: is_power_of_two.simps)

lemma topdown_topdown [simp]: "topdown (topdown xs) = xs"
  by (simp add: topdown_def)

section \<open>One instruction at a time\<close>

context felt_field
begin

lemma push_u32_felt [simp]: "felt_new F (ucast (v :: u32)) = felt_u32 F v"
  by (simp add: felt_u32_def)

named_theorems step_simps

lemma one_stack_op [step_simps]:
  "exec_from F [Stk (PushU32 i)] xs = Some (felt_u32 F i # xs)"
  "exec_from F [Stk (Push x)] xs = Some (x # xs)"
  "exec_from F [Stk (Push2 x y)] xs = Some (y # x # xs)"
  "exec_from F [Stk Drop] (x # xs) = Some xs"
  "exec_from F [Stk AssertEq] (x # y # xs) = (if x = y then Some xs else None)"
  "exec_from F [Stk Assert] (felt_bool F b # xs) = (if b then Some xs else None)"
  "exec_from F [Stk Assertz] (felt_bool F b # xs) = (if b then None else Some xs)"
  "exec_from F [Stk Cdrop] (felt_bool F b # x # y # xs) = Some ((if b then x else y) # xs)"
  by (auto simp: exec_from_one exec_simps stack_simps bind_assert_that)

lemma one_move [step_simps]:
  "exec_from F [Stk (Dup i)] xs = (if i < length xs \<and> i < 16 then Some (xs ! i # xs) else None)"
  "exec_from F [Stk (Movup i)] xs =
     (if 0 < i \<and> i < length xs then Some (move_up i xs) else None)"
  "exec_from F [Stk (Swap (Suc 0))] (x # y # xs) = Some (y # x # xs)"
  by (auto simp: exec_from_one exec_simps stack_simps bind_assert_that list_swap_def)

lemma one_u32_op [step_simps]:
  "exec_from F [Bit U32And] (felt_u32 F b # felt_u32 F a # xs) = Some (felt_u32 F (a AND b) # xs)"
  "exec_from F [Bit U32Or] (felt_u32 F b # felt_u32 F a # xs) = Some (felt_u32 F (a OR b) # xs)"
  "exec_from F [Rel U32CheckedLte] (felt_u32 F b # felt_u32 F a # xs) = Some (felt_bool F (a \<le> b) # xs)"
  "exec_from F [Bit (U32CheckedModImm i)] (felt_u32 F a # xs) =
     (if i = 0 then None else Some (felt_u32 F (a mod i) # xs))"
  "exec_from F [Arith U32CheckedAdd] (felt_u32 F b # felt_u32 F a # xs) =
     (if unat a + unat b < 2 ^ 32 then Some (felt_u32 F (a + b) # xs) else None)"
  "exec_from F [Arith U32CheckedMul] (felt_u32 F b # felt_u32 F a # xs) =
     (if unat a * unat b < 2 ^ 32 then Some (felt_u32 F (a * b) # xs) else None)"
  "exec_from F [Arith U32CheckedSub] (felt_u32 F b # felt_u32 F a # xs) =
     (if b \<le> a then Some (felt_u32 F (a - b) # xs) else None)"
  "exec_from F [Arith U32WrappingSub] (felt_u32 F b # felt_u32 F a # xs) = Some (felt_u32 F (a - b) # xs)"
  by (simp_all add: exec_from_one exec_simps stack_simps exec_defs checked_add_def checked_sub_def
      checked_mul_def checked_rem_def)

lemma one_comparison [step_simps]:
  "exec_from F [Cmp (EqImm y)] (x # xs) = Some (felt_bool F (x = y) # xs)"
  "exec_from F [Cmp Eq] (y # x # xs) = Some (felt_bool F (x = y) # xs)"
  "exec_from F [Cmp OpNot] (felt_bool F b # xs) = Some (felt_bool F (\<not> b) # xs)"
  by (simp_all add: exec_from_one exec_simps stack_simps exec_defs)

section \<open>Flags and selections\<close>

lemma run_Cons [step_simps]:
  "exec_from F (op # op' # c) xs = Option.bind (exec_from F [op] xs) (exec_from F (op' # c))"
  by (rule exec_from_Cons)

lemma run_Cons_append [step_simps]:
  "exec_from F (op # c1 @ c2) xs = Option.bind (exec_from F [op] xs) (exec_from F (c1 @ c2))"
  by (rule exec_from_Cons)

lemma run_mask: "exec_from F (const_mask_u32 msk) (felt_u32 F v # xs) = Some (felt_u32 F (v AND msk) # xs)"
  by (simp add: code_defs step_simps)

lemma run_flag_set:
  "exec_from F (is_const_flag_set_u32 F flags) (felt_u32 F v # xs) =
     Some (felt_bool F (v AND flags = flags) # felt_u32 F v # xs)"
  by (simp add: code_defs step_simps)

lemma and_power_eq: "v AND 2 ^ k = 2 ^ k \<longleftrightarrow> bit v k" if "k < 32" for v :: u32
  using that by (auto simp: bit_eq_iff [where 'a = u32] bit_and_iff bit_exp_iff)

lemma run_is_signed:
  "exec_from F (is_signed_int32 F) (felt_u32 F v # xs) = Some (felt_bool F (bit v 31) # felt_u32 F v # xs)"
  using and_power_eq [of 31 v] by (simp add: is_signed_int32_def run_flag_set SIGN_BIT_def)

lemma run_select:
  "exec_from F (select_int32 a b) (felt_bool F c # xs) = Some (felt_u32 F (if c then a else b) # xs)"
  by (simp add: code_defs step_simps move_up_def)

lemma run_smallint_signed:
  assumes "is_signed_smallint F n = Some c" "2 \<le> n"
  shows "exec_from F c (felt_u32 F v # xs) = Some (felt_bool F (bit v (n - 1)) # felt_u32 F v # xs)"
  using assms by (auto simp: is_signed_smallint_def u32_shift_left_def run_flag_set and_power_eq
      split: if_splits)

section \<open>Sign extension\<close>

lemma unat_power_2: "unat (2 ^ n :: u32) = 2 ^ n" if "n < 32"
proof -
  have "(2 :: nat) ^ n < 2 ^ 32"
    using that by (rule power_strict_increasing) simp
  then have "unat (of_nat (2 ^ n) :: u32) = 2 ^ n" by (simp only: unat_of_nat) simp
  then show ?thesis by simp
qed

lemma unat_less_power: "v < 2 ^ n \<longleftrightarrow> unat v < 2 ^ n" if "n < 32" for v :: u32
  using that by (simp add: word_less_nat_alt unat_power_2)

lemma take_bit_self: "v < 2 ^ n \<Longrightarrow> n < 32 \<Longrightarrow> take_bit n v = v" for v :: u32
  by (simp add: word_unat_eq_iff unsigned_take_bit_eq unat_less_power take_bit_nat_eq_self)

lemma sign_extend_limb:
  assumes "v < 2 ^ n" "0 < n" "n < 32"
  shows "v OR (if bit v (n - 1) then push_bit n (2 ^ (32 - n) - 1) else 0) = signed_take_bit (n - 1) (v :: u32)"
proof (rule bit_eqI)
  fix i assume "possible_bit TYPE(u32) i"
  then have i: "i < 32" by simp
  have v: "take_bit n v = v"
    using assms by (simp add: take_bit_self)
  have high: "\<not> bit v j" if "n \<le> j" for j
    using that by (subst v [symmetric]) (simp add: bit_take_bit_iff)
  show "bit (v OR (if bit v (n - 1) then push_bit n (2 ^ (32 - n) - 1) else 0)) i
      = bit (signed_take_bit (n - 1) v) i"
  proof (cases "i < n")
    case True
    then have "min (n - 1) i = i" by simp
    with True i show ?thesis
      by (simp add: bit_or_iff bit_push_bit_iff bit_signed_take_bit_iff)
  next
    case False
    then have "min (n - 1) i = n - 1" by simp
    with False i high [of i] show ?thesis
      by (auto simp: bit_or_iff bit_push_bit_iff bit_signed_take_bit_iff bit_mask_iff simp flip: mask_eq_exp_minus_1)
  qed
qed

lemma run_pad:
  "exec_from F (replicate k (Stk (Dup 0))) (x # xs) = Some (replicate k x @ x # xs)"
proof (induction k arbitrary: xs)
  case (Suc k)
  have "exec_from F (replicate (Suc k) (Stk (Dup 0))) (x # xs) = exec_from F (replicate k (Stk (Dup 0))) (x # x # xs)"
    by (simp add: exec_from_Cons [of F _ "replicate k (Stk (Dup 0))"] one_move)
  with Suc [of "x # xs"] show ?case
    by (simp add: replicate_app_Cons_same)
qed simp

lemma run_sext:
  assumes n: "n \<in> {2, 4, 8, 16}" and m: "m \<in> {4, 8, 16, 32, 64, 128, 256}" "n < m" and v: "v < 2 ^ n"
  shows "\<exists>c. sext_smallint F n m = Some c \<and> exec_from F c (felt_u32 F v # xs) =
    Some (replicate (m div 32 - 1) (felt_u32 F (if bit v (n - 1) then 0xFFFFFFFF else 0)) @
      felt_u32 F (signed_take_bit (n - 1) v) # xs)"
proof -
  have size: "assert_valid_integer_size n n 256 = Some ()" "assert_valid_integer_size n 1 32 = Some ()"
    and small: "0 < n" "n < 32" "2 \<le> n"
    using n by (auto simp: assert_valid_integer_size_def)
  have pad: "pad_int32 m = Some (replicate (m div 32 - 2) (Stk (Dup 0)))" if "32 < m"
    using that m(1) by (auto simp: pad_int32_def assert_valid_integer_size_min_def)
  obtain c where c: "is_signed_smallint F n = Some c"
    using size small by (cases "n - 1 < 32") (auto simp: is_signed_smallint_def u32_shift_left_def)
  note flag = run_smallint_signed [OF c small(3)]
  let ?ext = "push_bit n (2 ^ (32 - n) - 1) :: u32"
  have ext: "bit v (n - 1) \<Longrightarrow> ?ext OR v = signed_take_bit (n - 1) v"
      "\<not> bit v (n - 1) \<Longrightarrow> v = signed_take_bit (n - 1) v"
    using sign_extend_limb [OF v small(1,2)] by (simp_all add: or.commute)
  show ?thesis
  proof (cases "32 < m")
    case True
    have "m div 32 - Suc 0 = Suc (m div 32 - 2)"
      using True m by auto
    then show ?thesis
      using small True m(2) size
      by (simp add: sext_smallint_def c pad u32_sub_def u32_shift_left_def exec_from_append flag step_simps
          run_select move_up_def run_pad replicate_app_Cons_same)
        (use ext in auto)
  next
    case False
    with m have "m div 32 - 1 = 0" by auto
    with small False m(2) size show ?thesis
      by (simp add: sext_smallint_def c u32_sub_def u32_shift_left_def exec_from_append flag step_simps
          run_select)
        (use ext in \<open>auto simp: or.commute\<close>)
  qed
qed

text \<open>An \<open>i1\<close> has no sign.\<close>

lemma run_sext_bool:
  assumes m: "m \<in> {2, 4, 8, 16, 32, 64, 128, 256}"
  shows "\<exists>c. sext_smallint F 1 m = Some c \<and> exec_from F c (felt_u32 F v # xs) =
    Some (replicate (m div 32 - 1) (felt_u32 F 0) @ felt_u32 F v # xs)"
proof -
  have size: "assert_valid_integer_size 1 1 256 = Some ()"
    by (simp add: assert_valid_integer_size_def)
  have c: "is_signed_smallint F (Suc 0) = Some [Stk (PushU32 0)]"
    by (simp add: is_signed_smallint_def assert_valid_integer_size_def)
  have sel: "exec_from F (select_int32 a b) (felt_u32 F 0 # ys) = Some (felt_u32 F b # ys)" for a b ys
    using run_select [of a b False ys] by (simp add: felt_bool_def)
  have pad: "pad_int32 m = Some (replicate (m div 32 - 2) (Stk (Dup 0)))" if "32 < m"
    using that m by (auto simp: pad_int32_def assert_valid_integer_size_min_def)
  show ?thesis
  proof (cases "32 < m")
    case True
    have "m div 32 - Suc 0 = Suc (m div 32 - 2)" using True m by auto
    then show ?thesis
      using True size
      by (simp add: sext_smallint_def c pad u32_sub_def u32_shift_left_def exec_from_append sel step_simps
          move_up_def run_pad replicate_app_Cons_same)
  next
    case False
    with m have "m div 32 - 1 = 0" by auto
    with False m size show ?thesis
      by (auto simp: sext_smallint_def c u32_sub_def u32_shift_left_def exec_from_append sel step_simps)
  qed
qed

section \<open>Arithmetic on integers of at most 16 bits\<close>

lemma mod_power: "a mod 2 ^ n = of_nat (unat a mod 2 ^ n)" if "n < 32" for a :: u32
  using that by (simp add: word_unat_eq_iff unat_mod_distrib unat_power_2 unat_of_nat
      order.strict_trans1 [OF mod_less_eq_dividend unat_lt_u32])

lemma handle_wrapping:
  "n < 32 \<Longrightarrow> handle_uint_overflow F n Wrapping = Some [Bit (U32CheckedModImm (2 ^ n))]"
  by (simp add: handle_uint_overflow_def u32_pow2_def)

lemma unat_sub_wrap:
  assumes "unat a < 2 ^ n" "unat b < 2 ^ n" "n < 32"
  shows "unat (a - b :: u32) mod 2 ^ n = (unat a + 2 ^ n - unat b) mod 2 ^ n"
proof (cases "b \<le> a")
  case True
  then have eq: "unat a + 2 ^ n - unat b = unat (a - b) + 2 ^ n"
    by (simp add: unat_sub word_le_nat_alt)
  show ?thesis
    unfolding eq by simp
next
  case False
  then have "unat a < unat b" by (simp add: word_le_nat_alt)
  then have "unat (a - b) = 2 ^ 32 + unat a - unat b"
    using False by (simp add: unat_sub_if' word_le_nat_alt)
  also have "\<dots> = (unat a + 2 ^ n - unat b) + (2 ^ (32 - n) - 1) * 2 ^ n"
  proof -
    have "(2 :: nat) ^ 32 = 2 ^ (32 - n) * 2 ^ n"
      using assms(3) by (simp flip: power_add)
    moreover have "(1 :: nat) \<le> 2 ^ (32 - n)" by simp
    ultimately have "(2 :: nat) ^ 32 = 2 ^ n + (2 ^ (32 - n) - 1) * 2 ^ n"
      by (metis add.commute le_add_diff_inverse2 mult.commute mult_Suc_right plus_1_eq_Suc)
    with assms show ?thesis by linarith
  qed
  finally show ?thesis by simp
qed

lemma run_uint_wrapping:
  assumes "0 < n" "n \<le> 16" "unat a < 2 ^ n" "unat b < 2 ^ n"
  shows "\<exists>c. add_uint F n Wrapping = Some c \<and> exec_from F c (felt_u32 F b # felt_u32 F a # xs) =
      Some (felt_u32 F (of_nat ((unat a + unat b) mod 2 ^ n)) # xs)"
    and "\<exists>c. sub_uint F n Wrapping = Some c \<and> exec_from F c (felt_u32 F b # felt_u32 F a # xs) =
      Some (felt_u32 F (of_nat ((unat a + 2 ^ n - unat b) mod 2 ^ n)) # xs)"
    and "\<exists>c. mul_uint F n Wrapping = Some c \<and> exec_from F c (felt_u32 F b # felt_u32 F a # xs) =
      Some (felt_u32 F (of_nat (unat a * unat b mod 2 ^ n)) # xs)"
proof -
  have n: "0 < n" "n < 32" using assms by auto
  have p: "(2 :: nat) ^ n \<le> 65536"
    using power_increasing [of n 16 "2 :: nat"] assms(2) by simp
  have add: "unat a + unat b < 4294967296" using assms(3,4) p by linarith
  have "unat a * unat b \<le> 65535 * 65535" using assms(3,4) p by (intro mult_le_mono) linarith+
  then have mul: "unat a * unat b < 4294967296" by simp
  show "\<exists>c. add_uint F n Wrapping = Some c \<and> exec_from F c (felt_u32 F b # felt_u32 F a # xs) =
      Some (felt_u32 F (of_nat ((unat a + unat b) mod 2 ^ n)) # xs)"
    using add n by (simp add: add_uint_def add_u32_def handle_wrapping exec_from_append step_simps mod_power
        unat_add_lem [THEN iffD1])
  show "\<exists>c. sub_uint F n Wrapping = Some c \<and> exec_from F c (felt_u32 F b # felt_u32 F a # xs) =
      Some (felt_u32 F (of_nat ((unat a + 2 ^ n - unat b) mod 2 ^ n)) # xs)"
    using n by (simp add: sub_uint_def sub_u32_def handle_wrapping exec_from_append step_simps mod_power
        unat_sub_wrap [OF assms(3,4) n(2)])
  show "\<exists>c. mul_uint F n Wrapping = Some c \<and> exec_from F c (felt_u32 F b # felt_u32 F a # xs) =
      Some (felt_u32 F (of_nat (unat a * unat b mod 2 ^ n)) # xs)"
    using mul n by (simp add: mul_uint_def mul_u32_def handle_wrapping exec_from_append step_simps mod_power
        unat_mult_lem [THEN iffD1])
qed

section \<open>Field elements and limbs\<close>

lemma unat_high_limb: "unat (ucast (w div 4294967296) :: u32) = unat w div 4294967296" for w :: u64
  using unat_lt_u64 [of w]
  by (simp add: unat_ucast_u64_u32 unat_div_distrib less_mult_imp_div_less)

lemma split_u64:
  "(ucast (ucast (w div 4294967296) :: u32) :: u64) = w div 4294967296"
  "(ucast (ucast w :: u32) :: u64) = w mod 4294967296"
  "w div 4294967296 mod 4294967296 = w div 4294967296" for w :: u64
  using unat_lt_u64 [of w]
  by (simp_all only: word_unat_eq_iff unat_ucast_u32_u64 unat_high_limb)
    (simp_all add: unat_ucast_u64_u32 unat_div_distrib unat_mod_distrib less_mult_imp_div_less
      word_unat_eq_iff)

lemma one_split [step_simps]:
  "exec_from F [Arith U32Split] (x # xs) =
     Some (felt_u32 F (ucast (felt_as_int F x div 4294967296)) # felt_u32 F (ucast (felt_as_int F x)) # xs)"
  by (simp add: exec_from_one exec_simps stack_simps Let_def) (simp add: felt_u32_def split_u64)

lemma one_field_op [step_simps]:
  "exec_from F [Fld (MulImm y)] (x # xs) = Some (felt_mul F x y # xs)"
  "exec_from F [Fld Add] (y # x # xs) = Some (felt_add F x y # xs)"
  by (simp_all add: exec_from_one exec_simps stack_simps exec_defs)

lemma join_limbs:
  "fval F (felt_add F (felt_u32 F lo) (felt_mul F (felt_u32 F hi) (U32_FIELD_MODULUS F))) =
     (unat lo + unat hi * 4294967296) mod felt_P"
  by (simp add: fval_def as_int_add as_int_mul U32_FIELD_MODULUS_def as_int_new felt_P_eq mod_simps)

lemma run_trunc_to_felt:
  "exec_from F (trunc_int64_to_felt F) (felt_u32 F hi # felt_u32 F lo # xs) =
     Some (felt_add F (felt_u32 F lo) (felt_mul F (felt_u32 F hi) (U32_FIELD_MODULUS F)) # xs)"
  by (simp add: trunc_int64_to_felt_def step_simps)

lemma run_trunc_i128_to_felt:
  "exec_from F (trunc_i128_to_felt F) (a # b # xs) = exec_from F (trunc_int64_to_felt F) xs"
  by (simp add: trunc_i128_to_felt_def numeral_2_eq_2 exec_from_Cons [of F _ "trunc_int64_to_felt F"] step_simps)

lemma split_join:
  "felt_add F (felt_u32 F (ucast (felt_as_int F x)))
     (felt_mul F (felt_u32 F (ucast (felt_as_int F x div 4294967296))) (U32_FIELD_MODULUS F)) = x"
proof -
  have "unat (felt_as_int F x) mod 4294967296 + unat (felt_as_int F x) div 4294967296 * 4294967296
      = unat (felt_as_int F x)" by simp
  then show ?thesis
    using fval_less [of x]
    by (simp only: fval_inject [symmetric] join_limbs unat_high_limb) (simp add: fval_def unat_ucast_u64_u32)
qed

section \<open>Properties\<close>

lemma one_word_op [step_simps]:
  "exec_from F [Cmp Eqw] (b0 # b1 # b2 # b3 # a0 # a1 # a2 # a3 # xs) =
     Some (felt_bool F ([a0, a1, a2, a3] = [b0, b1, b2, b3]) # xs)"
  "exec_from F [Stk Dropw] xs = (if 4 \<le> length xs then Some (drop 4 xs) else None)"
  "exec_from F [Stk (Movdn i)] xs =
     (if 0 < i \<and> i < length xs then Some (move_down i xs) else None)"
  by (simp_all add: exec_from_one exec_simps stack_simps)

lemma run_asserts:
  "exec_from F (assert_signed_int32 F) (felt_u32 F v # xs) = (if bit v 31 then Some (felt_u32 F v # xs) else None)"
  "exec_from F (assert_unsigned_int32 F) (felt_u32 F v # xs) = (if bit v 31 then None else Some (felt_u32 F v # xs))"
  by (simp_all add: assert_signed_int32_def assert_unsigned_int32_def exec_from_append run_is_signed step_simps)

lemma run_dup_select:
  assumes "dup_select_int32 a b n = Some c" "n < length xs" "xs ! n = felt_bool F d"
  shows "exec_from F c xs = Some (felt_u32 F (if d then a else b) # xs)"
  using assms
  by (auto simp: dup_select_int32_def assert_valid_stack_index_def run_select exec_from_Cons [of F _ "select_int32 _ _"]
      step_simps nth_Cons' split: if_splits)

lemma run_mov_select:
  assumes "mov_select_int32 a b n = Some c" "n < length xs" "xs ! n = felt_bool F d"
  shows "exec_from F c xs = Some (felt_u32 F (if d then a else b) # take n xs @ drop (Suc n) xs)"
  using assms
  by (auto simp: mov_select_int32_def assert_valid_stack_index_def run_select exec_from_Cons [of F _ "select_int32 _ _"]
      step_simps move_up_def nth_Cons' split: if_splits)

lemma one_dup_assertz: "exec_from F [Stk Assertz] (felt_u32 F v # xs) = (if v = 0 then Some xs else None)"
  by (auto simp: exec_from_one exec_simps stack_simps bind_assert_that)

lemma run_i128_to_u64:
  "exec_from F i128_to_u64 (felt_u32 F a # felt_u32 F b # xs) = (if a = 0 \<and> b = 0 then Some xs else None)"
  by (simp add: i128_to_u64_def assert_felt_is_zero_def step_simps one_dup_assertz)

lemma run_felt_to_u64:
  "exec_from F felt_to_u64 (x # xs) =
     Some (felt_u32 F (ucast (felt_as_int F x div 4294967296)) # felt_u32 F (ucast (felt_as_int F x)) # xs)"
  by (simp add: felt_to_u64_def step_simps)

lemma run_felt_to_i128:
  "exec_from F (felt_to_i128 F) (x # xs) =
     Some (felt_u32 F 0 # felt_u32 F 0 #
       felt_u32 F (ucast (felt_as_int F x div 4294967296)) # felt_u32 F (ucast (felt_as_int F x)) # xs)"
  by (simp add: felt_to_i128_def step_simps felt_u32_0_1)

section \<open>Range checks\<close>

lemma int_mask_below:
  assumes "2 \<le> n" "n < 32"
  obtains m where "int_mask n = Some m" "\<And>v. v \<le> 0x80000000 \<Longrightarrow> v AND m \<noteq> m"
proof -
  let ?m = "push_bit (n - 1) (2 ^ (32 - n + 1) - 1) :: u32"
  have m: "int_mask n = Some ?m"
    using assms by (simp add: int_mask_def u32_sub_def u32_pow2_def u32_shift_left_def) arith
  have bits: "bit ?m 31" "bit ?m 30"
    using assms unfolding mask_eq_exp_minus_1 [symmetric] by (auto simp: bit_push_bit_iff bit_mask_iff)
  have "v AND ?m \<noteq> ?m" if v: "v \<le> 0x80000000" for v
  proof
    assume "v AND ?m = ?m"
    then have b: "bit v 31" "bit v 30"
      using bits by (metis bit_and_iff)+
    have "v AND (2 ^ 31 OR 2 ^ 30) = (v AND 2 ^ 31) OR (v AND 2 ^ 30)"
      by (rule bit.conj_disj_distrib)
    also have "\<dots> = 2 ^ 31 OR 2 ^ 30"
      using b and_power_eq [of 31 v] and_power_eq [of 30 v] by simp
    finally have "2 ^ 31 OR 2 ^ 30 \<le> v"
      by (metis word_and_le2)
    with v show False by (simp add: word_le_nat_alt)
  qed
  with m show ?thesis using that by blast
qed

lemma run_int32_to_int:
  assumes n: "n \<in> {2, 4, 8, 16}"
  shows "\<exists>c. int32_to_int n = Some c \<and>
    exec_from F c (felt_u32 F v # xs) = (if 0x80000000 < v then Some (felt_u32 F v # xs) else None)"
proof -
  have "2 \<le> n" "n < 32" "assert_valid_integer_size n 1 32 = Some ()"
    using n by (auto simp: assert_valid_integer_size_def)
  moreover obtain m where "int_mask n = Some m" "\<And>v. v \<le> 0x80000000 \<Longrightarrow> v AND m \<noteq> m"
    using int_mask_below calculation(1,2) by blast
  moreover have "exec_from F (is_i32 @ c) (felt_u32 F v # xs) =
      exec_from F c (felt_bool F (v \<le> 0x80000000) # felt_u32 F v # xs)" for c
    by (simp add: exec_from_append is_i32_def step_simps exec_from_Cons [of F _ c])
  ultimately show ?thesis
    by (auto simp: int32_to_int_def exec_from_append run_select step_simps not_less)
qed

lemma uint_mask_above:
  assumes "0 < n" "n < 32"
  shows "uint_mask n = Some (push_bit n (mask (32 - n)))"
    and "v AND push_bit n (mask (32 - n)) = 0 \<longleftrightarrow> (v :: u32) < 2 ^ n"
proof -
  show "uint_mask n = Some (push_bit n (mask (32 - n)))"
    using assms by (simp add: uint_mask_def u32_sub_def u32_pow2_def u32_shift_left_def mask_eq_exp_minus_1)
  have "v AND push_bit n (mask (32 - n)) = push_bit n (drop_bit n v)"
    using assms by (auto intro!: bit_eqI simp: bit_and_iff bit_push_bit_iff bit_mask_iff bit_drop_bit_eq)
  moreover have "push_bit n (drop_bit n v) = 0 \<longleftrightarrow> take_bit n v = v"
    by (metis add.right_neutral add_left_cancel bits_ident add.commute)
  moreover have "take_bit n v = v \<longleftrightarrow> v < 2 ^ n"
  proof
    assume "take_bit n v = v"
    then have "unat v = take_bit n (unat v)" by (metis unsigned_take_bit_eq)
    then show "v < 2 ^ n"
      using assms(2) by (metis take_bit_nat_less_exp unat_less_power)
  qed (use assms take_bit_self in blast)
  ultimately show "v AND push_bit n (mask (32 - n)) = 0 \<longleftrightarrow> v < 2 ^ n"
    by simp
qed

lemma run_int32_to_uint:
  assumes "n \<in> {1, 2, 4, 8, 16}"
  shows "\<exists>c. int32_to_uint n = Some c \<and> exec_from F c (felt_u32 F v # felt_u32 F w # xs) =
    (if w < 2 ^ n then Some (felt_u32 F v # felt_u32 F w # xs) else None)"
proof -
  have n: "0 < n" "n < 32" "assert_valid_integer_size n 1 32 = Some ()"
    using assms by (auto simp: assert_valid_integer_size_def)
  show ?thesis
    using n(3) uint_mask_above [OF n(1,2)]
    by (simp add: int32_to_uint_def step_simps one_dup_assertz)
qed

lemma run_trunc_int32:
  assumes "n \<in> {1, 2, 4, 8, 16}"
  shows "\<exists>c. trunc_int32 n = Some c \<and>
    exec_from F c (felt_u32 F v # xs) = Some (felt_u32 F (v AND 2 ^ (n - 1)) # xs)"
proof -
  have "0 < n" "n < 32" "assert_valid_integer_size n 1 32 = Some ()"
    using assms by (auto simp: assert_valid_integer_size_def)
  then show ?thesis
    by (auto simp: trunc_int32_def u32_sub_def u32_shift_left_def run_mask)
qed

lemma run_assert_unsigned_smallint:
  assumes "n \<in> {2, 4, 8, 16, 32}"
  shows "\<exists>c. assert_unsigned_smallint F n = Some c \<and>
    exec_from F c (felt_u32 F v # xs) = (if bit v (n - 1) then Some (felt_u32 F v # xs) else None)"
proof -
  have n: "2 \<le> n" "n \<le> 32" "assert_valid_integer_size n 1 32 = Some ()"
    using assms by (auto simp: assert_valid_integer_size_def)
  then obtain c where c: "is_signed_smallint F n = Some c"
    by (cases "n - 1 < 32") (auto simp: is_signed_smallint_def u32_shift_left_def)
  from n(1) show ?thesis
    by (simp add: assert_unsigned_smallint_def c exec_from_append run_smallint_signed [OF c] step_simps)
qed

lemma run_bnot_u32:
  "exec_from F bnot_u32 (felt_u32 F v # xs) = (if v = 0xFFFFFFFF then Some (felt_u32 F 0 # xs) else None)"
proof -
  have "0xFFFFFFFF \<le> v \<longleftrightarrow> v = 0xFFFFFFFF"
    by (simp add: word_le_nat_alt word_unat_eq_iff) (use unat_lt_u32 [of v] in arith)
  then show ?thesis
    by (simp add: bnot_u32_def exec_from_one exec_simps stack_simps exec_defs checked_sub_def)
qed

section \<open>Wide integers\<close>

lemma run_eq_i128:
  assumes "length w8 = 8"
  shows "exec_from F eq_i128 ([b0, b1, b2, b3, a0, a1, a2, a3] @ w8 @ xs) =
    Some (felt_bool F ([a0, a1, a2, a3] = [b0, b1, b2, b3]) # xs)"
  using assms
  by (simp add: eq_i128_def step_simps move_down_def)

lemma run_push_u64:
  "exec_from F (push_u64 F v) xs = Some (felt_u32 F (ucast v) # felt_u32 F (ucast (drop_bit 32 v)) # xs)"
  by (simp add: push_u64_def u64_to_raw_parts_def u64_from_raw_parts_def step_simps Let_def)

end

lemma extend_int64_panics: "sext_int64 F n = None" "zext_int64 n = (None :: 'f code option)"
proof -
  have "assert_valid_integer_size_min (n - 32) 32 = None" if "assert_valid_integer_size n 128 256 = Some ()"
  proof -
    have "is_power_of_two n" "128 \<le> n" "n \<le> 256"
      using that by (auto simp: assert_valid_integer_size_def)
    then obtain k where k: "n = 2 ^ k" by (auto simp: is_power_of_two_iff)
    have "2 ^ 7 \<le> (2 :: nat) ^ k" "(2 :: nat) ^ k \<le> 2 ^ 8"
      using k \<open>128 \<le> n\<close> \<open>n \<le> 256\<close> by simp_all
    then have "7 \<le> k" "k \<le> 8"
      by (simp_all only: power_increasing_iff)
    then have "k = 7 \<or> k = 8" by arith
    then have "n = 128 \<or> n = 256" using k by auto
    moreover have "\<not> is_power_of_two 96" "\<not> is_power_of_two 224"
      by (simp_all add: is_power_of_two.simps)
    ultimately have "\<not> is_power_of_two (n - 32)" by auto
    then show ?thesis by (simp add: assert_valid_integer_size_min_def bind_assert_that)
  qed
  then show "sext_int64 F n = None" "zext_int64 n = (None :: 'f code option)"
    by (cases "assert_valid_integer_size n 128 256";
        auto simp: sext_int64_def zext_int64_def pad_int32_def zext_int32_def)+
qed

section \<open>Properties\<close>

text \<open>
  The sign tests of the code generator, on 32-bit and on smaller two's complement integers,
  leave the sign bit above the unchanged operand, and \<open>mov_select\<close> and \<open>dup_select\<close> choose by
  the condition at the position they are given, taking it out or leaving it.
\<close>

theorem sign_tests_and_selects:
  assumes "felt_field F"
  shows "exec_from F (is_signed_int32 F) (felt_u32 F v # xs) = Some (felt_bool F (bit v 31) # felt_u32 F v # xs)
    \<and> exec_from F (assert_signed_int32 F) (felt_u32 F v # xs) = (if bit v 31 then Some (felt_u32 F v # xs) else None)
    \<and> exec_from F (assert_unsigned_int32 F) (felt_u32 F v # xs) = (if bit v 31 then None else Some (felt_u32 F v # xs))
    \<and> (\<forall>n c. is_signed_smallint F n = Some c \<longrightarrow> 2 \<le> n \<longrightarrow>
        exec_from F c (felt_u32 F v # xs) = Some (felt_bool F (bit v (n - 1)) # felt_u32 F v # xs))
    \<and> (\<forall>n c. dup_select_int32 a b n = Some c \<longrightarrow> n < length xs \<longrightarrow> xs ! n = felt_bool F d \<longrightarrow>
        exec_from F c xs = Some (felt_u32 F (if d then a else b) # xs))
    \<and> (\<forall>n c. mov_select_int32 a b n = Some c \<longrightarrow> n < length xs \<longrightarrow> xs ! n = felt_bool F d \<longrightarrow>
        exec_from F c xs = Some (felt_u32 F (if d then a else b) # take n xs @ drop (Suc n) xs))"
  by (intro conjI allI impI felt_field.run_is_signed [OF assms] felt_field.run_asserts [OF assms];
      rule felt_field.run_smallint_signed [OF assms] felt_field.run_dup_select [OF assms]
        felt_field.run_mov_select [OF assms]; assumption)



text \<open>
  C15. The wrapping operations on unsigned integers of at most 16 bits compute modulo \<open>2 ^ n\<close>:
  the sum and the product are computed with a 32-bit check that cannot fail, the difference
  wraps at 32 bits first, and the remainder is right in all three cases.
\<close>

theorem uint_arithmetic_wraps:
  assumes "felt_field F" "0 < n" "n \<le> 16" "unat a < 2 ^ n" "unat b < 2 ^ n"
  shows "(\<exists>c. add_uint F n Wrapping = Some c \<and> exec_from F c (felt_u32 F b # felt_u32 F a # xs) =
      Some (felt_u32 F (of_nat ((unat a + unat b) mod 2 ^ n)) # xs))
    \<and> (\<exists>c. sub_uint F n Wrapping = Some c \<and> exec_from F c (felt_u32 F b # felt_u32 F a # xs) =
      Some (felt_u32 F (of_nat ((unat a + 2 ^ n - unat b) mod 2 ^ n)) # xs))
    \<and> (\<exists>c. mul_uint F n Wrapping = Some c \<and> exec_from F c (felt_u32 F b # felt_u32 F a # xs) =
      Some (felt_u32 F (of_nat (unat a * unat b mod 2 ^ n)) # xs))"
  by (intro conjI felt_field.run_uint_wrapping [OF assms])

lemma sign_tests_and_selects_witness:
  "exec_from ref_ops (is_signed_int32 ref_ops) [felt_u32 ref_ops 0x80000001] =
     Some [felt_bool ref_ops True, felt_u32 ref_ops 0x80000001]"
  using sign_tests_and_selects [OF ref_felt_field, of "0x80000001" "[]" 0 0 False] by simp


lemma uint_arithmetic_wraps_witness:
  "\<exists>c. sub_uint ref_ops 8 Wrapping = Some c \<and>
     exec_from ref_ops c [felt_u32 ref_ops 3, felt_u32 ref_ops 1] = Some [felt_u32 ref_ops 254]"
  using uint_arithmetic_wraps [OF ref_felt_field, of 8 1 3 "[]"] by simp

text \<open>
  C16. Field elements and their limbs: splitting a field element leaves two 32-bit limbs, the
  high one on top, that determine it; truncating those to a field element returns it, with or
  without the two zero limbs of its 128-bit form; and the conversion from 128 to 64 bits
  accepts exactly the numbers whose two high limbs are zero.
\<close>

theorem felt_limbs_round_trip:
  assumes "felt_field F"
  shows "(\<exists>hi lo. exec_from F felt_to_u64 (x # xs) = Some (felt_u32 F hi # felt_u32 F lo # xs)
      \<and> fval F x = unat hi * 2 ^ 32 + unat lo)
    \<and> exec_from F (felt_to_u64 @ trunc_int64_to_felt F) (x # xs) = Some (x # xs)
    \<and> exec_from F (felt_to_i128 F @ trunc_i128_to_felt F) (x # xs) = Some (x # xs)
    \<and> exec_from F (felt_to_i128 F @ i128_to_u64) (x # xs) = exec_from F felt_to_u64 (x # xs)
    \<and> exec_from F i128_to_u64 (felt_u32 F a # felt_u32 F b # xs) = (if a = 0 \<and> b = 0 then Some xs else None)"
proof -
  note run = felt_field.run_felt_to_u64 [OF assms] felt_field.run_trunc_to_felt [OF assms]
    felt_field.run_felt_to_i128 [OF assms] felt_field.run_i128_to_u64 [OF assms]
    felt_field.split_join [OF assms] felt_field.run_trunc_i128_to_felt [OF assms]
  have "fval F x = unat (ucast (felt_as_int F x div 4294967296) :: u32) * 2 ^ 32 + unat (ucast (felt_as_int F x) :: u32)"
    by (simp add: felt_field.unat_high_limb [OF assms]) (simp add: fval_def unat_ucast_u64_u32)
  then show ?thesis
    by (auto simp: exec_from_append run)
qed

lemma felt_limbs_round_trip_witness:
  "exec_from ref_ops (felt_to_u64 @ trunc_int64_to_felt ref_ops) [ref_of_nat 12345678901] =
     Some [ref_of_nat 12345678901]"
  using felt_limbs_round_trip [OF ref_felt_field, of "ref_of_nat 12345678901" "[]"] by blast

text \<open>
  Checks that decide something else than they say.  The range check for signed integers of
  at most 16 bits accepts exactly the 32-bit values above \<open>0x80000000\<close>, so it traps on 5 and
  lets \<open>0x80000001\<close> through; the one for unsigned integers looks at the element below its
  operand; truncation keeps a single bit, the highest of the width; the assertion that an
  integer is not negative traps exactly when it is not negative; and the complement traps for
  every value except \<open>0xFFFFFFFF\<close>.
\<close>

theorem range_checks_misjudge:
  assumes "felt_field F" "n \<in> {2, 4, 8, 16}"
  shows "(\<exists>c. int32_to_int n = Some c \<and> exec_from F c (felt_u32 F v # xs) =
        (if 0x80000000 < v then Some (felt_u32 F v # xs) else None))
    \<and> (\<exists>c. int32_to_uint n = Some c \<and> exec_from F c (felt_u32 F v # felt_u32 F w # xs) =
        (if w < 2 ^ n then Some (felt_u32 F v # felt_u32 F w # xs) else None))
    \<and> (\<exists>c. trunc_int32 n = Some c \<and> exec_from F c (felt_u32 F v # xs) = Some (felt_u32 F (v AND 2 ^ (n - 1)) # xs))
    \<and> (\<exists>c. assert_unsigned_smallint F n = Some c \<and> exec_from F c (felt_u32 F v # xs) =
        (if bit v (n - 1) then Some (felt_u32 F v # xs) else None))
    \<and> exec_from F bnot_u32 (felt_u32 F v # xs) = (if v = 0xFFFFFFFF then Some (felt_u32 F 0 # xs) else None)"
  by (intro conjI felt_field.run_int32_to_int [OF assms] felt_field.run_int32_to_uint [OF assms(1)]
      felt_field.run_trunc_int32 [OF assms(1)] felt_field.run_assert_unsigned_smallint [OF assms(1)]
      felt_field.run_bnot_u32 [OF assms(1)]) (use assms(2) in auto)

lemma range_checks_misjudge_witness:
  "\<exists>c. int32_to_int 8 = Some c \<and> exec_from ref_ops c [felt_u32 ref_ops 5] = None"
  using range_checks_misjudge [OF ref_felt_field, of 8 5 "[]" 0] by auto

text \<open>
  Where 64-bit and 128-bit integers go wrong: extending a 64-bit integer never succeeds;
  truncating a 128-bit integer below 32 bits leaves its four limbs on the stack; a 64-bit
  literal has its low limb on top, where the conversions expect the high one, so that the
  literal \<open>v\<close> becomes the field element of its two halves exchanged; and the equality of
  128-bit integers removes eight more elements than the comparison leaves.
\<close>

theorem wide_integer_defects:
  assumes "felt_field F" "n \<in> {1, 2, 4, 8, 16}" "length w8 = 8"
  shows "sext_int64 F k = None \<and> zext_int64 k = (None :: 'f code option)
    \<and> (\<exists>c. trunc_i128 n = Some c \<and> exec_from F c (felt_u32 F v # xs) = Some (felt_u32 F (v AND 2 ^ (n - 1)) # xs))
    \<and> (\<exists>y. exec_from F (push_u64 F i @ trunc_int64_to_felt F) xs = Some (y # xs)
        \<and> fval F y = (unat (drop_bit 32 i) + unat (ucast i :: u32) * 2 ^ 32) mod felt_P)
    \<and> exec_from F eq_i128 ([b0, b1, b2, b3, a0, a1, a2, a3] @ w8 @ xs) =
        Some (felt_bool F ([a0, a1, a2, a3] = [b0, b1, b2, b3]) # (xs :: 'f list))"
proof -
  obtain c where c: "trunc_int32 n = Some c"
      "exec_from F c (felt_u32 F v # xs) = Some (felt_u32 F (v AND 2 ^ (n - 1)) # xs)"
    using felt_field.run_trunc_int32 [OF assms(1,2)] by blast
  have "assert_valid_integer_size n 1 64 = Some ()" "n \<noteq> 64" "n \<noteq> 32"
    using assms(2) by (auto simp: assert_valid_integer_size_def)
  then have "trunc_i128 n = Some c"
    by (simp add: trunc_i128_def c)
  moreover have "drop_bit 32 i = (ucast (ucast (drop_bit 32 i) :: u32) :: u64)"
    using felt_field.split_u64(1) [OF assms(1), of i] by (simp add: drop_bit_eq_div)
  then have "unat (ucast (drop_bit 32 i) :: u32) = unat (drop_bit 32 i)"
    by (metis unat_ucast_u32_u64)
  ultimately show ?thesis
    using c(2)
    by (simp add: extend_int64_panics felt_field.run_eq_i128 [OF assms(1,3), simplified] exec_from_append
        felt_field.run_push_u64 [OF assms(1)] felt_field.run_trunc_to_felt [OF assms(1)]
        felt_field.join_limbs [OF assms(1)])
qed

lemma wide_integer_defects_witness:
  "\<exists>y. exec_from ref_ops (push_u64 ref_ops 1 @ trunc_int64_to_felt ref_ops) [] = Some [y]
     \<and> fval ref_ops y = 2 ^ 32"
  using wide_integer_defects [OF ref_felt_field, of 1 "replicate 8 (ref_of_nat 0)" 0 0 "[]" 1]
  by (auto simp: felt_P_eq)

end
