(* ===== verification/EmitOps.thy ===== *)
theory EmitOps
  imports EmitInt
begin

text \<open>
  The typed emitters of the code generator: unary.rs, binary.rs and primop.rs of
  codegen/masm/src/stackify/emit.  Each pops its operands from the operand stack, checks their
  types, chooses the code by the type, and pushes operands of the result types.  \<open>None\<close> is a
  panic of the compiler: an empty stack, operands of different types, or a type that the
  operation does not support.
\<close>

section \<open>Operands\<close>

text \<open>\<open>pop().expect(..)\<close> and \<open>push(ty)\<close>.\<close>

definition em_pop :: "'f opstack \<Rightarrow> ('f operand \<times> 'f opstack) option" where
  "em_pop s = (case os_pop s of (Some x, s') \<Rightarrow> Some (x, s') | (None, _) \<Rightarrow> None)"

definition push_ty :: "hir_type \<Rightarrow> 'f opstack \<Rightarrow> 'f opstack option" where
  "push_ty ty s = do { x \<leftarrow> new_operand (OpType ty); Some (os_push x s) }"

primrec push_tys :: "hir_type list \<Rightarrow> 'f opstack \<Rightarrow> 'f opstack option" where
  "push_tys [] s = Some s"
| "push_tys (ty # tys) s = do { s \<leftarrow> push_ty ty s; push_tys tys s }"

definition ty_bits :: "hir_type \<Rightarrow> nat option" where
  "ty_bits ty = map_option as_u32 (size_in_bits ty)"

text \<open>
  The frame that the emitters of one and of two operands share: \<open>code\<close> is the code for the
  type, \<open>results\<close> the types of the results in the order they are pushed.
\<close>

definition em_unary :: "(hir_type \<Rightarrow> 'f code option) \<Rightarrow> (hir_type \<Rightarrow> hir_type list) \<Rightarrow> 'f emitter" where
  "em_unary code results s =
     do { (arg, s) \<leftarrow> em_pop s;
          let ty = op_ty arg;
          c \<leftarrow> code ty;
          s \<leftarrow> push_tys (results ty) s;
          Some (c, s) }"

definition em_binary :: "(hir_type \<Rightarrow> 'f code option) \<Rightarrow> (hir_type \<Rightarrow> hir_type list) \<Rightarrow> 'f emitter" where
  "em_binary code results s =
     do { (x, s) \<leftarrow> em_pop s;
          (y, s) \<leftarrow> em_pop s;
          let ty = op_ty x;
          assert_that (ty = op_ty y);
          c \<leftarrow> code ty;
          s \<leftarrow> push_tys (results ty) s;
          Some (c, s) }"

definition em_binary_imm ::
    "'f immediate \<Rightarrow> (hir_type \<Rightarrow> 'f code option) \<Rightarrow> (hir_type \<Rightarrow> hir_type list) \<Rightarrow> 'f emitter" where
  "em_binary_imm imm code results s =
     do { (x, s) \<leftarrow> em_pop s;
          let ty = op_ty x;
          assert_that (ty = imm_ty imm);
          c \<leftarrow> code ty;
          s \<leftarrow> push_tys (results ty) s;
          Some (c, s) }"

abbreviation (input) same :: "hir_type \<Rightarrow> hir_type list" where "same ty \<equiv> [ty]"
abbreviation (input) boolean :: "hir_type \<Rightarrow> hir_type list" where "boolean ty \<equiv> [TyI1]"

definition with_overflow :: "overflow \<Rightarrow> hir_type \<Rightarrow> hir_type list" where
  "with_overflow overflow ty = (if overflow = Overflowing then [ty, TyI1] else [ty])"

text \<open>The immediates as the emitters use them; \<open>imm_i64_u32\<close> is \<open>as_i64().unwrap() as u64 as u32\<close>.\<close>

definition imm_i64_u32 :: "'f felt_ops \<Rightarrow> 'f immediate \<Rightarrow> u32 option" where
  "imm_i64_u32 F imm = map_option of_int (imm_as_i64 F imm)"

section \<open>Unary operators\<close>

definition trunc_code :: "'f felt_ops \<Rightarrow> hir_type \<Rightarrow> hir_type \<Rightarrow> nat \<Rightarrow> 'f code option" where
  "trunc_code F src dst n =
     (if src = dst then Some []
      else if src = TyFelt \<and> n \<le> 32 then trunc_felt n
      else if src = TyI128 \<and> dst = TyFelt then Some (trunc_i128_to_felt F)
      else if src = TyI128 \<and> n \<le> 64 then trunc_i128 n
      else if src \<in> {TyI64, TyU64} \<and> dst = TyFelt then Some (trunc_int64_to_felt F)
      else if src \<in> {TyI64, TyU64} \<and> n \<le> 32 then trunc_int64 n
      else if src \<in> {TyI32, TyU32} \<and> n \<le> 32 then trunc_int32 n
      else if src \<in> {TyI16, TyU16} \<and> n \<le> 16 then trunc_int32 n
      else if src \<in> {TyI8, TyU8} \<and> n \<le> 8 then trunc_int32 n
      else None)"

definition em_trunc :: "'f felt_ops \<Rightarrow> hir_type \<Rightarrow> 'f emitter" where
  "em_trunc F dst =
     em_unary (\<lambda>src. do {
       assert_that (is_integer src \<and> is_integer dst);
       n \<leftarrow> ty_bits dst;
       trunc_code F src dst n }) (\<lambda>_. [dst])"

definition zext_code :: "'f felt_ops \<Rightarrow> hir_type \<Rightarrow> hir_type \<Rightarrow> nat \<Rightarrow> nat \<Rightarrow> 'f code option" where
  "zext_code F src dst src_bits dst_bits =
     (if src = dst then Some []
      else if src = TyU64 \<and> dst = TyI128 then Some (push_u64 F 0)
      else if src = TyFelt \<and> dst \<in> {TyU64, TyI128} then zext_felt F dst_bits
      else if src = TyU32 \<and> dst \<in> {TyU64, TyI64, TyI128} then zext_int32 dst_bits
      else if src \<in> {TyI1, TyU8, TyU16} \<and> dst \<in> {TyU64, TyI64, TyI128} then zext_smallint src_bits dst_bits
      else if src \<in> {TyI1, TyU8, TyU16} \<and> dst \<in> {TyU32, TyI32} then Some []
      else if src \<in> {TyI1, TyU8, TyU16, TyU32} \<and> dst = TyFelt then Some []
      else None)"

definition em_zext :: "'f felt_ops \<Rightarrow> hir_type \<Rightarrow> 'f emitter" where
  "em_zext F dst =
     em_unary (\<lambda>src. do {
       assert_that (is_unsigned_integer src \<and> is_integer dst);
       src_bits \<leftarrow> ty_bits src;
       dst_bits \<leftarrow> ty_bits dst;
       assert_that (src_bits \<le> dst_bits);
       zext_code F src dst src_bits dst_bits }) (\<lambda>_. [dst])"

definition sext_code :: "'f felt_ops \<Rightarrow> hir_type \<Rightarrow> hir_type \<Rightarrow> nat \<Rightarrow> nat \<Rightarrow> 'f code option" where
  "sext_code F src dst src_bits dst_bits =
     (if src = dst then Some []
      else if src \<in> {TyU64, TyI64} \<and> dst = TyI128 then sext_int64 F 128
      else if src = TyFelt \<and> dst \<in> {TyI64, TyI128} then sext_felt F dst_bits
      else if src \<in> {TyI32, TyU32} \<and> dst \<in> {TyI64, TyI128} then sext_int32 F dst_bits
      else if src \<in> {TyI1, TyI8, TyU8, TyI16, TyU16} \<and> dst \<in> {TyI32, TyI64, TyI128}
        then sext_smallint F src_bits dst_bits
      else None)"

definition em_sext :: "'f felt_ops \<Rightarrow> hir_type \<Rightarrow> 'f emitter" where
  "em_sext F dst =
     em_unary (\<lambda>src. do {
       assert_that (is_integer src \<and> is_signed_integer dst);
       src_bits \<leftarrow> ty_bits src;
       dst_bits \<leftarrow> ty_bits dst;
       assert_that (src_bits \<le> dst_bits);
       sext_code F src dst src_bits dst_bits }) (\<lambda>_. [dst])"

definition code_then :: "'f code option \<Rightarrow> 'f code option \<Rightarrow> 'f code option" where
  "code_then a b = do { c1 \<leftarrow> a; c2 \<leftarrow> b; Some (c1 @ c2) }"

definition cast_code :: "'f felt_ops \<Rightarrow> hir_type \<Rightarrow> hir_type \<Rightarrow> nat \<Rightarrow> nat \<Rightarrow> 'f code option" where
  "cast_code F src dst src_bits dst_bits =
     (let small_uint = dst \<in> {TyU32, TyU16, TyU8, TyI1}; small_int = dst \<in> {TyI32, TyI16, TyI8} in
      if src = TyI128 then
        (if dst = TyI64 then i128_to_i64 F
         else if dst = TyU64 then Some i128_to_u64
         else if dst = TyFelt then i128_to_felt F
         else if small_uint then code_then (Some i128_to_u64) (u64_to_uint F dst_bits)
         else if small_int then code_then (i128_to_i64 F) (i64_to_int F dst_bits)
         else None)
      else if src = TyI64 then
        (if dst = TyI128 then sext_int64 F 128
         else if dst = TyU64 then Some (assert_unsigned_int64 F)
         else if dst = TyFelt then i64_to_felt F
         else if small_uint then code_then (Some (assert_unsigned_int64 F)) (u64_to_uint F dst_bits)
         else if small_int then i64_to_int F dst_bits
         else None)
      else if src = TyU64 then
        (if dst = TyI64 then assert_i64 F
         else if dst = TyFelt then u64_to_felt F
         else if small_uint then u64_to_uint F dst_bits
         else if small_int then code_then (u64_to_uint F dst_bits) (assert_unsigned_smallint F dst_bits)
         else None)
      else if src = TyFelt then
        (if dst \<in> {TyI64, TyI128} then sext_felt F dst_bits
         else if dst = TyU64 then Some felt_to_u64
         else if small_uint then felt_to_uint F dst_bits
         else if small_int then felt_to_int F dst_bits
         else None)
      else if src = TyU32 then
        (if dst \<in> {TyI64, TyU64, TyI128} then zext_int32 dst_bits
         else if dst = TyI32 then Some (assert_unsigned_int32 F)
         else if dst \<in> {TyU16, TyU8, TyI1} then int32_to_uint dst_bits
         else if dst \<in> {TyI16, TyI8} then int32_to_int dst_bits
         else None)
      else if src = TyI32 then
        (if dst \<in> {TyI64, TyI128} then sext_int32 F dst_bits
         else if dst = TyU64 then Some (assert_unsigned_int32 F @ [Stk (PushU32 0)])
         else if dst = TyU32 then Some (assert_unsigned_int32 F)
         else if dst \<in> {TyU16, TyU8, TyI1} then int32_to_uint dst_bits
         else if dst \<in> {TyI16, TyI8} then int32_to_int dst_bits
         else None)
      else if src \<in> {TyI8, TyI16} \<and> dst \<in> {TyI32, TyI64, TyI128} then sext_smallint F src_bits dst_bits
      else if src \<in> {TyI8, TyI16} \<and> dst \<in> {TyU32, TyU64} then
        code_then (assert_unsigned_smallint F src_bits) (zext_smallint src_bits dst_bits)
      else if (src, dst) = (TyI16, TyU16) \<or> (src, dst) = (TyI8, TyU8) then assert_unsigned_smallint F src_bits
      else if src = TyI16 \<and> dst \<in> {TyU8, TyI1} then int32_to_int dst_bits
      else if (src, dst) = (TyI16, TyI8) then int32_to_int dst_bits
      else if (src, dst) = (TyI8, TyI1) then Some [Stk (Dup 0), Stk (PushU32 2), Cmp Lt, Stk Assert]
      else if src = TyI1 then zext_smallint src_bits dst_bits
      else None)"

definition em_cast :: "'f felt_ops \<Rightarrow> hir_type \<Rightarrow> 'f emitter" where
  "em_cast F dst =
     em_unary (\<lambda>src. do {
       assert_that (is_integer src \<and> is_integer dst);
       src_bits \<leftarrow> ty_bits src;
       dst_bits \<leftarrow> ty_bits dst;
       cast_code F src dst src_bits dst_bits }) (\<lambda>_. [dst])"

definition em_inttoptr :: "hir_type \<Rightarrow> 'f emitter" where
  "em_inttoptr ty s =
     do { assert_that (is_pointer ty);
          em_unary (\<lambda>src.
            if src = TyU32 then Some []
            else if src = TyFelt then Some [Arith U32Assert]
            else None) (\<lambda>_. [ty]) s }"

definition em_is_odd :: "'f emitter" where
  "em_is_odd =
     em_unary (\<lambda>ty.
       if ty \<in> {TyI1, TyU8, TyI8, TyU16, TyI16, TyU32, TyI32, TyFelt} then Some [Cmp IsOdd]
       else if ty \<in> {TyI64, TyU64} then Some [Stk Drop, Cmp IsOdd]
       else if ty = TyI128 then Some (replicate 3 (Stk Drop) @ [Cmp IsOdd])
       else None) boolean"

definition em_popcnt :: "'f emitter" where
  "em_popcnt =
     em_unary (\<lambda>ty.
       if ty = TyI128 then
         Some [Rel U32CheckedPopcnt, Stk (Swap 1), Rel U32CheckedPopcnt, Fld Add, Stk (Movdn 2),
           Rel U32CheckedPopcnt, Stk (Swap 1), Rel U32CheckedPopcnt, Arith U32WrappingAdd3]
       else if ty \<in> {TyI64, TyU64} then
         Some [Rel U32CheckedPopcnt, Stk (Swap 1), Rel U32CheckedPopcnt, Fld Add]
       else if ty \<in> {TyI32, TyU32, TyI16, TyU16, TyI8, TyU8, TyI1} then Some [Rel U32CheckedPopcnt]
       else None) same"

definition bnot_code :: "nat \<Rightarrow> 'f code" where
  "bnot_code num_elements =
     (if num_elements \<le> 1 then [Bit U32Not]
      else if num_elements = 2 then block_push_repeat [Stk (Swap 1), Bit U32Not] 2 []
      else block_push_template num_elements (\<lambda>n. [Stk (Movup (as_u8 n)), Bit U32Not]) [])"

definition em_bnot :: "'f emitter" where
  "em_bnot =
     em_unary (\<lambda>ty.
       if ty = TyI1 then Some [Cmp OpNot]
       else if ty \<in> {TyI8, TyU8, TyI16, TyU16, TyI32, TyU32, TyI64, TyU64, TyI128} then
         do { bits \<leftarrow> size_in_bits ty; Some (bnot_code (bits div 32)) }
       else None) same"

definition em_not :: "'f emitter" where
  "em_not = em_unary (\<lambda>ty. do { assert_that (ty = TyI1); Some [Cmp OpNot] }) boolean"

definition em_pow2 :: "'f emitter" where
  "em_pow2 =
     em_unary (\<lambda>ty.
       if ty = TyU64 then Some [Stk Assertz, Fld Pow2, Arith U32Split]
       else if ty = TyFelt then Some [Fld Pow2]
       else if ty = TyU32 then Some [Fld Pow2, Arith U32Assert]
       else if ty \<in> {TyU8, TyU16} then
         do { n \<leftarrow> ty_bits ty; c \<leftarrow> int32_to_uint n; Some ([Fld Pow2, Arith U32Assert] @ c) }
       else None) same"

definition em_incr :: "'f felt_ops \<Rightarrow> 'f emitter" where
  "em_incr F =
     em_unary (\<lambda>ty.
       if ty \<in> {TyI64, TyU64} then Some (push_u64 F 1 @ add_u64 Wrapping)
       else if ty = TyFelt then Some [Fld Incr]
       else if ty \<in> {TyI32, TyU32} then Some (add_imm_u32 F 1 Wrapping)
       else if ty \<in> {TyI8, TyU8, TyI16, TyU16} then
         do { bits \<leftarrow> ty_bits ty;
              p \<leftarrow> u32_pow2 bits;
              c \<leftarrow> unchecked_mod_imm_u32 p;
              Some (add_imm_u32 F 1 Wrapping @ c) }
       else None) same"

definition em_inv :: "'f emitter" where
  "em_inv = em_unary (\<lambda>ty. if ty = TyFelt then Some [Fld Inv] else None) same"

definition em_neg :: "'f emitter" where
  "em_neg = em_unary (\<lambda>ty. if ty = TyFelt then Some [Fld Neg] else None) same"

section \<open>Comparisons\<close>

fun is_ptr :: "hir_type \<Rightarrow> bool" where
  "is_ptr (TyPtr _) = True"
| "is_ptr _ = False"

definition em_eq :: "'f emitter" where
  "em_eq =
     em_binary (\<lambda>ty.
       if ty = TyI128 then Some eq_i128
       else if ty \<in> {TyI64, TyU64} then Some [Cmp Eqw]
       else if ty = TyFelt then Some [Cmp Eq]
       else if is_ptr ty \<or> ty \<in> {TyU32, TyI32, TyU16, TyI16, TyI8, TyU8, TyI1} then Some [Rel U32Eq]
       else None) boolean"

definition em_eq_imm :: "'f felt_ops \<Rightarrow> 'f immediate \<Rightarrow> 'f emitter" where
  "em_eq_imm F imm =
     em_binary_imm imm (\<lambda>ty.
       if ty = TyI128 then do { c \<leftarrow> push_immediate F imm; Some (c @ eq_i128) }
       else if ty \<in> {TyI64, TyU64} then do { c \<leftarrow> push_immediate F imm; Some (c @ [Cmp Eqw]) }
       else if ty = TyFelt then do { i \<leftarrow> imm_as_felt F imm; Some [Cmp (EqImm i)] }
       else if is_ptr ty \<or> ty \<in> {TyU32, TyU16, TyU8, TyI1} then
         do { i \<leftarrow> imm_as_u32 F imm; Some [Rel (U32EqImm i)] }
       else if ty \<in> {TyI32, TyI16, TyI8} then do { i \<leftarrow> imm_i64_u32 F imm; Some [Rel (U32EqImm i)] }
       else None) boolean"

definition em_neq :: "'f emitter" where
  "em_neq =
     em_binary (\<lambda>ty.
       if ty = TyI128 then Some eq_i128
       else if ty \<in> {TyI64, TyU64} then Some [Cmp Eqw, Cmp OpNot]
       else if ty = TyFelt then Some [Cmp Neq]
       else if is_ptr ty \<or> ty \<in> {TyU32, TyI32, TyU16, TyI16, TyI8, TyU8, TyI1} then Some [Rel U32Neq]
       else None) boolean"

definition em_neq_imm :: "'f felt_ops \<Rightarrow> 'f immediate \<Rightarrow> 'f emitter" where
  "em_neq_imm F imm =
     em_binary_imm imm (\<lambda>ty.
       if ty = TyI128 then do { c \<leftarrow> push_immediate F imm; Some (c @ neq_i128) }
       else if ty \<in> {TyI64, TyU64} then do { c \<leftarrow> push_immediate F imm; Some (c @ [Cmp Eqw, Cmp OpNot]) }
       else if ty = TyFelt then do { i \<leftarrow> imm_as_felt F imm; Some [Cmp (NeqImm i)] }
       else if is_ptr ty \<or> ty \<in> {TyU32, TyU16, TyU8, TyI1} then
         do { i \<leftarrow> imm_as_u32 F imm; Some [Rel (U32NeqImm i)] }
       else if ty \<in> {TyI32, TyI16, TyI8} then do { i \<leftarrow> imm_i64_u32 F imm; Some [Rel (U32NeqImm i)] }
       else None) boolean"

definition em_gt :: "'f emitter" where
  "em_gt =
     em_binary (\<lambda>ty.
       if ty = TyFelt then Some [Cmp Gt]
       else if ty \<in> {TyU32, TyU16, TyU8, TyI1} then Some [Rel U32CheckedGt]
       else None) boolean"

definition em_gt_imm :: "'f felt_ops \<Rightarrow> 'f immediate \<Rightarrow> 'f emitter" where
  "em_gt_imm F imm =
     em_binary_imm imm (\<lambda>ty.
       if ty = TyFelt then do { i \<leftarrow> imm_as_felt F imm; Some [Cmp (GtImm i)] }
       else if ty \<in> {TyU32, TyU16, TyU8, TyI1} then
         do { i \<leftarrow> imm_as_u32 F imm; Some [Stk (PushU32 i), Rel U32CheckedGt] }
       else None) boolean"

definition em_gte :: "'f emitter" where
  "em_gte =
     em_binary (\<lambda>ty.
       if ty = TyFelt then Some [Cmp Gte]
       else if ty \<in> {TyU32, TyU16, TyU8, TyI1} then Some [Rel U32CheckedGte]
       else None) boolean"

definition em_gte_imm :: "'f felt_ops \<Rightarrow> 'f immediate \<Rightarrow> 'f emitter" where
  "em_gte_imm F imm =
     em_binary_imm imm (\<lambda>ty.
       if ty = TyFelt then do { i \<leftarrow> imm_as_felt F imm; Some [Cmp (GteImm i)] }
       else if ty \<in> {TyU32, TyU16, TyU8, TyI1} then
         do { i \<leftarrow> imm_as_u32 F imm; Some [Stk (PushU32 i), Rel U32CheckedGte] }
       else None) boolean"

definition em_lt :: "'f emitter" where
  "em_lt =
     em_binary (\<lambda>ty.
       if ty = TyFelt then Some [Cmp Lt]
       else if ty \<in> {TyU32, TyU16, TyU8, TyI1} then Some [Rel U32CheckedLt]
       else None) boolean"

definition em_lt_imm :: "'f felt_ops \<Rightarrow> 'f immediate \<Rightarrow> 'f emitter" where
  "em_lt_imm F imm =
     em_binary_imm imm (\<lambda>ty.
       if ty = TyFelt then do { i \<leftarrow> imm_as_felt F imm; Some [Cmp (LtImm i)] }
       else if ty \<in> {TyU32, TyU16, TyU8, TyI1} then
         do { i \<leftarrow> imm_as_u32 F imm; Some [Stk (PushU32 i), Rel U32CheckedLt] }
       else None) boolean"

definition em_lte :: "'f emitter" where
  "em_lte =
     em_binary (\<lambda>ty.
       if ty = TyFelt then Some [Cmp Lte]
       else if ty \<in> {TyU32, TyU16, TyU8, TyI1} then Some [Rel U32CheckedLte]
       else None) boolean"

definition em_lte_imm :: "'f felt_ops \<Rightarrow> 'f immediate \<Rightarrow> 'f emitter" where
  "em_lte_imm F imm =
     em_binary_imm imm (\<lambda>ty.
       if ty = TyFelt then do { i \<leftarrow> imm_as_felt F imm; Some [Cmp (LteImm i)] }
       else if ty \<in> {TyU32, TyU16, TyU8, TyI1} then
         do { i \<leftarrow> imm_as_u32 F imm; Some [Stk (PushU32 i), Rel U32CheckedLte] }
       else None) boolean"

section \<open>Arithmetic\<close>

definition em_add :: "'f felt_ops \<Rightarrow> overflow \<Rightarrow> 'f emitter" where
  "em_add F overflow =
     em_binary (\<lambda>ty.
       if ty = TyFelt then Some [Fld Add]
       else if ty = TyU64 then Some (add_u64 overflow)
       else if ty = TyU32 then Some (add_u32 overflow)
       else if ty \<in> {TyU16, TyU8, TyI1} then do { n \<leftarrow> ty_bits ty; add_uint F n overflow }
       else None) (with_overflow overflow)"

definition em_add_imm :: "'f felt_ops \<Rightarrow> 'f immediate \<Rightarrow> overflow \<Rightarrow> 'f emitter" where
  "em_add_imm F imm overflow =
     em_binary_imm imm (\<lambda>ty.
       if ty = TyFelt then do { i \<leftarrow> imm_as_felt F imm; Some [Fld (AddImm i)] }
       else if ty = TyU64 then do { c \<leftarrow> push_immediate F imm; Some (c @ add_u64 overflow) }
       else if ty = TyU32 then do { i \<leftarrow> imm_as_u32 F imm; Some (add_imm_u32 F i overflow) }
       else if ty \<in> {TyU16, TyU8, TyI1} then
         do { i \<leftarrow> imm_as_u32 F imm; n \<leftarrow> ty_bits ty; add_imm_uint F i n overflow }
       else None) (with_overflow overflow)"

definition em_sub :: "'f felt_ops \<Rightarrow> overflow \<Rightarrow> 'f emitter" where
  "em_sub F overflow =
     em_binary (\<lambda>ty.
       if ty = TyFelt then Some [Fld Sub]
       else if ty = TyU64 then Some (sub_u64 overflow)
       else if ty = TyU32 then Some (sub_u32 overflow)
       else if ty \<in> {TyU16, TyU8, TyI1} then do { n \<leftarrow> ty_bits ty; sub_uint F n overflow }
       else None) (with_overflow overflow)"

definition em_sub_imm :: "'f felt_ops \<Rightarrow> 'f immediate \<Rightarrow> overflow \<Rightarrow> 'f emitter" where
  "em_sub_imm F imm overflow =
     em_binary_imm imm (\<lambda>ty.
       if ty = TyFelt then do { i \<leftarrow> imm_as_felt F imm; Some [Fld (SubImm i)] }
       else if ty = TyU64 then do { c \<leftarrow> push_immediate F imm; Some (c @ sub_u64 overflow) }
       else if ty = TyU32 then do { i \<leftarrow> imm_as_u32 F imm; Some (sub_imm_u32 F i overflow) }
       else if ty \<in> {TyU16, TyU8, TyI1} then
         do { i \<leftarrow> imm_as_u32 F imm; n \<leftarrow> ty_bits ty; sub_imm_uint F i n overflow }
       else None) (with_overflow overflow)"

definition em_mul :: "'f felt_ops \<Rightarrow> overflow \<Rightarrow> 'f emitter" where
  "em_mul F overflow =
     em_binary (\<lambda>ty.
       if ty = TyU64 then Some (mul_u64 overflow)
       else if ty = TyFelt then do { assert_that (overflow \<in> {Unchecked, Wrapping}); Some [Fld Mul] }
       else if ty = TyU32 then Some (mul_u32 overflow)
       else if ty \<in> {TyU16, TyU8} then do { n \<leftarrow> ty_bits ty; mul_uint F n overflow }
       else None) (with_overflow overflow)"

definition em_mul_imm :: "'f felt_ops \<Rightarrow> 'f immediate \<Rightarrow> overflow \<Rightarrow> 'f emitter" where
  "em_mul_imm F imm overflow =
     em_binary_imm imm (\<lambda>ty.
       if ty = TyU64 then do { c \<leftarrow> push_immediate F imm; Some (c @ mul_u64 overflow) }
       else if ty = TyFelt then
         do { assert_that (overflow \<in> {Unchecked, Wrapping}); i \<leftarrow> imm_as_felt F imm; Some [Fld (MulImm i)] }
       else if ty = TyU32 then do { i \<leftarrow> imm_as_u32 F imm; Some (mul_imm_u32 F i overflow) }
       else if ty \<in> {TyU16, TyU8} then
         do { i \<leftarrow> imm_as_u32 F imm; n \<leftarrow> ty_bits ty; mul_imm_uint F i n overflow }
       else None) (with_overflow overflow)"

definition em_checked_div :: "'f emitter" where
  "em_checked_div =
     em_binary (\<lambda>ty.
       if ty = TyU64 then Some checked_div_u64
       else if ty = TyFelt then Some [Fld Div]
       else if ty = TyU32 then Some checked_div_u32
       else if ty \<in> {TyU16, TyU8} then do { n \<leftarrow> ty_bits ty; checked_div_uint n }
       else None) same"

definition em_checked_div_imm :: "'f felt_ops \<Rightarrow> 'f immediate \<Rightarrow> 'f emitter" where
  "em_checked_div_imm F imm =
     em_binary_imm imm (\<lambda>ty.
       if ty = TyU64 then
         do { i \<leftarrow> imm_as_u64 F imm; assert_that (i \<noteq> 0);
              c \<leftarrow> push_immediate F imm; Some (c @ checked_div_u64) }
       else if ty = TyFelt then Some [Fld Div]
       else if ty = TyU32 then do { i \<leftarrow> imm_as_u32 F imm; checked_div_imm_u32 i }
       else if ty \<in> {TyU16, TyU8} then do { i \<leftarrow> imm_as_u32 F imm; n \<leftarrow> ty_bits ty; checked_div_imm_uint i n }
       else None) same"

definition em_unchecked_div :: "'f emitter" where
  "em_unchecked_div =
     em_binary (\<lambda>ty.
       if ty = TyU64 then Some unchecked_div_u64
       else if ty = TyFelt then Some [Fld Div]
       else if ty \<in> {TyU32, TyU16, TyU8} then Some unchecked_div_u32
       else None) same"

definition em_unchecked_div_imm :: "'f felt_ops \<Rightarrow> 'f immediate \<Rightarrow> 'f emitter" where
  "em_unchecked_div_imm F imm =
     em_binary_imm imm (\<lambda>ty.
       if ty = TyU64 then
         do { i \<leftarrow> imm_as_u64 F imm; assert_that (i \<noteq> 0);
              c \<leftarrow> push_immediate F imm; Some (c @ unchecked_div_u64) }
       else if ty = TyFelt then Some [Fld Div]
       else if ty = TyU32 then do { i \<leftarrow> imm_as_u32 F imm; unchecked_div_imm_u32 i }
       else if ty \<in> {TyU16, TyU8} then do { i \<leftarrow> imm_as_u32 F imm; unchecked_div_imm_uint i }
       else None) same"

definition em_checked_mod :: "'f emitter" where
  "em_checked_mod =
     em_binary (\<lambda>ty.
       if ty = TyU64 then Some checked_mod_u64
       else if ty = TyU32 then Some checked_mod_u32
       else if ty \<in> {TyU16, TyU8} then Some checked_mod_uint
       else None) same"

definition em_checked_mod_imm :: "'f felt_ops \<Rightarrow> 'f immediate \<Rightarrow> 'f emitter" where
  "em_checked_mod_imm F imm =
     em_binary_imm imm (\<lambda>ty.
       if ty = TyU64 then
         do { i \<leftarrow> imm_as_u64 F imm; assert_that (i \<noteq> 0);
              c \<leftarrow> push_immediate F imm; Some (c @ checked_mod_u64) }
       else if ty = TyU32 then do { i \<leftarrow> imm_as_u32 F imm; checked_mod_imm_u32 i }
       else if ty \<in> {TyU16, TyU8} then do { i \<leftarrow> imm_as_u32 F imm; checked_mod_imm_uint i }
       else None) same"

definition em_unchecked_mod :: "'f emitter" where
  "em_unchecked_mod =
     em_binary (\<lambda>ty.
       if ty = TyU64 then Some unchecked_mod_u64
       else if ty = TyU32 then Some unchecked_mod_u32
       else if ty \<in> {TyU16, TyU8} then Some unchecked_mod_uint
       else None) same"

definition em_unchecked_mod_imm :: "'f felt_ops \<Rightarrow> 'f immediate \<Rightarrow> 'f emitter" where
  "em_unchecked_mod_imm F imm =
     em_binary_imm imm (\<lambda>ty.
       if ty = TyU64 then
         do { i \<leftarrow> imm_as_u64 F imm; assert_that (i \<noteq> 0);
              c \<leftarrow> push_immediate F imm; Some (c @ unchecked_mod_u64) }
       else if ty = TyU32 then do { i \<leftarrow> imm_as_u32 F imm; unchecked_mod_imm_u32 i }
       else if ty \<in> {TyU16, TyU8} then do { i \<leftarrow> imm_as_u32 F imm; unchecked_mod_imm_uint i }
       else None) same"

definition em_checked_divmod :: "'f emitter" where
  "em_checked_divmod =
     em_binary (\<lambda>ty.
       if ty = TyU64 then Some checked_divmod_u64
       else if ty = TyU32 then Some checked_divmod_u32
       else if ty \<in> {TyU16, TyU8} then Some checked_divmod_uint
       else None) (\<lambda>ty. [ty, ty])"

definition em_checked_divmod_imm :: "'f felt_ops \<Rightarrow> 'f immediate \<Rightarrow> 'f emitter" where
  "em_checked_divmod_imm F imm =
     em_binary_imm imm (\<lambda>ty.
       if ty = TyU64 then
         do { i \<leftarrow> imm_as_u64 F imm; assert_that (i \<noteq> 0);
              c \<leftarrow> push_immediate F imm; Some (c @ checked_divmod_u64) }
       else if ty = TyU32 then do { i \<leftarrow> imm_as_u32 F imm; checked_divmod_imm_u32 i }
       else if ty \<in> {TyU16, TyU8} then do { i \<leftarrow> imm_as_u32 F imm; checked_divmod_imm_uint i }
       else None) (\<lambda>ty. [ty, ty])"

definition em_unchecked_divmod :: "'f emitter" where
  "em_unchecked_divmod =
     em_binary (\<lambda>ty.
       if ty = TyU64 then Some unchecked_divmod_u64
       else if ty = TyU32 then Some unchecked_divmod_u32
       else if ty \<in> {TyU16, TyU8} then Some unchecked_divmod_uint
       else None) (\<lambda>ty. [ty, ty])"

definition em_unchecked_divmod_imm :: "'f felt_ops \<Rightarrow> 'f immediate \<Rightarrow> 'f emitter" where
  "em_unchecked_divmod_imm F imm =
     em_binary_imm imm (\<lambda>ty.
       if ty = TyU64 then
         do { i \<leftarrow> imm_as_u64 F imm; assert_that (i \<noteq> 0);
              c \<leftarrow> push_immediate F imm; Some (c @ unchecked_divmod_u64) }
       else if ty = TyU32 then do { i \<leftarrow> imm_as_u32 F imm; unchecked_divmod_imm_u32 i }
       else if ty \<in> {TyU16, TyU8} then do { i \<leftarrow> imm_as_u32 F imm; unchecked_divmod_imm_uint i }
       else None) (\<lambda>ty. [ty, ty])"

definition em_exp :: "'f emitter" where
  "em_exp =
     em_binary (\<lambda>ty.
       if ty = TyFelt then Some [Fld Exp]
       else if ty = TyU32 then Some [Fld Exp, Arith U32Assert]
       else if ty \<in> {TyU16, TyU8} then
         do { n \<leftarrow> ty_bits ty; c \<leftarrow> int32_to_uint n; Some ([Fld Exp, Arith U32Assert] @ c) }
       else None) same"

definition em_exp_imm :: "'f felt_ops \<Rightarrow> 'f immediate \<Rightarrow> 'f emitter" where
  "em_exp_imm F imm =
     em_binary_imm imm (\<lambda>ty. do {
       i \<leftarrow> imm_as_u64 F imm;
       exp \<leftarrow> to_u8 (unat i);
       if ty = TyFelt then Some [Fld (ExpImm exp)]
       else if ty = TyU32 then Some [Fld (ExpImm exp), Arith U32Assert]
       else if ty \<in> {TyU16, TyU8} then
         do { n \<leftarrow> ty_bits ty; c \<leftarrow> int32_to_uint n; Some ([Fld (ExpImm exp), Arith U32Assert] @ c) }
       else None }) same"

section \<open>Booleans, bits and shifts\<close>

definition em_and :: "'f emitter" where
  "em_and = em_binary (\<lambda>ty. do { assert_that (ty = TyI1); Some [Cmp OpAnd] }) same"

definition em_and_imm :: "'f felt_ops \<Rightarrow> 'f immediate \<Rightarrow> 'f emitter" where
  "em_and_imm F imm =
     em_binary_imm imm (\<lambda>ty. do { assert_that (ty = TyI1); b \<leftarrow> as_bool F imm; Some [Cmp (AndImm b)] }) same"

definition em_or :: "'f emitter" where
  "em_or = em_binary (\<lambda>ty. do { assert_that (ty = TyI1); Some [Cmp OpOr] }) same"

definition em_or_imm :: "'f felt_ops \<Rightarrow> 'f immediate \<Rightarrow> 'f emitter" where
  "em_or_imm F imm =
     em_binary_imm imm (\<lambda>ty. do { assert_that (ty = TyI1); b \<leftarrow> as_bool F imm; Some [Cmp (OrImm b)] }) same"

definition em_xor :: "'f emitter" where
  "em_xor = em_binary (\<lambda>ty. do { assert_that (ty = TyI1); Some [Cmp OpXor] }) same"

definition em_xor_imm :: "'f felt_ops \<Rightarrow> 'f immediate \<Rightarrow> 'f emitter" where
  "em_xor_imm F imm =
     em_binary_imm imm (\<lambda>ty. do { assert_that (ty = TyI1); b \<leftarrow> as_bool F imm; Some [Cmp (XorImm b)] }) same"

definition em_band :: "'f emitter" where
  "em_band =
     em_binary (\<lambda>ty.
       if ty \<in> {TyU64, TyI64} then Some band_int64
       else if ty \<in> {TyU32, TyI32, TyU16, TyI16, TyU8, TyI8} then Some band_u32
       else if ty = TyI1 then Some [Cmp OpAnd]
       else None) same"

definition em_band_imm :: "'f felt_ops \<Rightarrow> 'f immediate \<Rightarrow> 'f emitter" where
  "em_band_imm F imm =
     em_binary_imm imm (\<lambda>ty.
       if ty \<in> {TyU64, TyI64} then do { c \<leftarrow> push_immediate F imm; Some (c @ band_int64) }
       else if ty \<in> {TyU32, TyU16, TyU8} then do { i \<leftarrow> imm_as_u32 F imm; Some (band_imm_u32 i) }
       else if ty \<in> {TyI32, TyI16, TyI8} then do { i \<leftarrow> imm_i64_u32 F imm; Some (band_imm_u32 i) }
       else if ty = TyI1 then do { b \<leftarrow> as_bool F imm; Some [Cmp (AndImm b)] }
       else None) same"

definition em_bor :: "'f emitter" where
  "em_bor =
     em_binary (\<lambda>ty.
       if ty \<in> {TyU64, TyI64} then Some bor_int64
       else if ty \<in> {TyU32, TyI32, TyU16, TyI16, TyU8, TyI8} then Some bor_u32
       else if ty = TyI1 then Some [Cmp OpOr]
       else None) same"

definition em_bor_imm :: "'f felt_ops \<Rightarrow> 'f immediate \<Rightarrow> 'f emitter" where
  "em_bor_imm F imm =
     em_binary_imm imm (\<lambda>ty.
       if ty \<in> {TyU64, TyI64} then do { c \<leftarrow> push_immediate F imm; Some (c @ bor_int64) }
       else if ty \<in> {TyU32, TyU16, TyU8} then do { i \<leftarrow> imm_as_u32 F imm; Some (bor_imm_u32 i) }
       else if ty \<in> {TyI32, TyI16, TyI8} then do { i \<leftarrow> imm_i64_u32 F imm; Some (bor_imm_u32 i) }
       else if ty = TyI1 then do { b \<leftarrow> as_bool F imm; Some [Cmp (AndImm b)] }
       else None) same"

definition em_bxor :: "'f emitter" where
  "em_bxor =
     em_binary (\<lambda>ty.
       if ty \<in> {TyU64, TyI64} then Some bxor_int64
       else if ty \<in> {TyU32, TyI32} then Some bxor_u32
       else if ty \<in> {TyU16, TyI16, TyU8, TyI8} then
         do { n \<leftarrow> ty_bits ty; c \<leftarrow> trunc_int32 n; Some (bxor_u32 @ c) }
       else if ty = TyI1 then Some [Cmp OpXor]
       else None) same"

definition em_bxor_imm :: "'f felt_ops \<Rightarrow> 'f immediate \<Rightarrow> 'f emitter" where
  "em_bxor_imm F imm =
     em_binary_imm imm (\<lambda>ty.
       if ty \<in> {TyU64, TyI64} then do { c \<leftarrow> push_immediate F imm; Some (c @ bxor_int64) }
       else if ty = TyU32 then do { i \<leftarrow> imm_as_u32 F imm; Some (bxor_imm_u32 i) }
       else if ty = TyI32 then do { i \<leftarrow> imm_i64_u32 F imm; Some (bxor_imm_u32 i) }
       else if ty \<in> {TyU16, TyU8} then
         do { i \<leftarrow> imm_as_u32 F imm; n \<leftarrow> ty_bits ty; c \<leftarrow> trunc_int32 n; Some (bxor_imm_u32 i @ c) }
       else if ty \<in> {TyI16, TyI8} then
         do { i \<leftarrow> imm_i64_u32 F imm; n \<leftarrow> ty_bits ty; c \<leftarrow> trunc_int32 n; Some (bxor_imm_u32 i @ c) }
       else if ty = TyI1 then do { b \<leftarrow> as_bool F imm; Some [Cmp (XorImm b)] }
       else None) same"

definition em_shl :: "'f emitter" where
  "em_shl =
     em_binary (\<lambda>ty.
       if ty = TyU64 then Some shl_u64
       else if ty = TyU32 then Some shl_u32
       else if ty \<in> {TyU16, TyU8} then do { n \<leftarrow> ty_bits ty; c \<leftarrow> trunc_int32 n; Some (shl_u32 @ c) }
       else None) same"

definition em_shl_imm :: "'f felt_ops \<Rightarrow> 'f immediate \<Rightarrow> 'f emitter" where
  "em_shl_imm F imm =
     em_binary_imm imm (\<lambda>ty.
       if ty = TyU64 then
         do { i \<leftarrow> imm_as_u64 F imm; assert_that (i < 64);
              c \<leftarrow> push_immediate F imm; Some (c @ shl_u64) }
       else if ty = TyU32 then do { i \<leftarrow> imm_as_u32 F imm; shl_imm_u32 i }
       else if ty \<in> {TyU16, TyU8} then
         do { i \<leftarrow> imm_as_u32 F imm; c1 \<leftarrow> shl_imm_u32 i; n \<leftarrow> ty_bits ty; c2 \<leftarrow> trunc_int32 n; Some (c1 @ c2) }
       else None) same"

definition em_shr :: "'f emitter" where
  "em_shr =
     em_binary (\<lambda>ty.
       if ty = TyU64 then Some shr_u64
       else if ty \<in> {TyU32, TyU16, TyU8} then Some shr_u32
       else None) same"

definition em_shr_imm :: "'f felt_ops \<Rightarrow> 'f immediate \<Rightarrow> 'f emitter" where
  "em_shr_imm F imm =
     em_binary_imm imm (\<lambda>ty.
       if ty = TyU64 then
         do { i \<leftarrow> imm_as_u64 F imm; assert_that (i < 64);
              c \<leftarrow> push_immediate F imm; Some (c @ shr_u64) }
       else if ty \<in> {TyU32, TyU16, TyU8} then do { i \<leftarrow> imm_as_u32 F imm; shr_imm_u32 i }
       else None) same"

definition em_rotl :: "'f emitter" where
  "em_rotl =
     em_binary (\<lambda>ty.
       if ty = TyU64 then Some rotl_u64
       else if ty = TyU32 then Some rotl_u32
       else None) same"

definition em_rotl_imm :: "'f felt_ops \<Rightarrow> 'f immediate \<Rightarrow> 'f emitter" where
  "em_rotl_imm F imm =
     em_binary_imm imm (\<lambda>ty.
       if ty = TyU64 then do { c \<leftarrow> push_immediate F imm; Some (c @ rotl_u64) }
       else if ty = TyU32 then do { i \<leftarrow> imm_as_u32 F imm; rotl_imm_u32 i }
       else None) same"

definition em_rotr :: "'f emitter" where
  "em_rotr =
     em_binary (\<lambda>ty.
       if ty = TyU64 then Some rotr_u64
       else if ty = TyU32 then Some rotr_u32
       else None) same"

definition em_rotr_imm :: "'f felt_ops \<Rightarrow> 'f immediate \<Rightarrow> 'f emitter" where
  "em_rotr_imm F imm =
     em_binary_imm imm (\<lambda>ty.
       if ty = TyU64 then do { c \<leftarrow> push_immediate F imm; Some (c @ rotr_u64) }
       else if ty = TyU32 then do { i \<leftarrow> imm_as_u32 F imm; rotr_imm_u32 i }
       else None) same"

definition em_min :: "'f emitter" where
  "em_min =
     em_binary (\<lambda>ty.
       if ty = TyU64 then Some min_u64
       else if ty \<in> {TyU32, TyU16, TyU8, TyI1} then Some min_u32
       else None) same"

definition em_min_imm :: "'f felt_ops \<Rightarrow> 'f immediate \<Rightarrow> 'f emitter" where
  "em_min_imm F imm =
     em_binary_imm imm (\<lambda>ty.
       if ty = TyU64 then do { c \<leftarrow> push_immediate F imm; Some (c @ min_u64) }
       else if ty \<in> {TyU32, TyU16, TyU8, TyI1} then do { i \<leftarrow> imm_as_u32 F imm; Some (min_imm_u32 F i) }
       else None) same"

definition em_max :: "'f emitter" where
  "em_max =
     em_binary (\<lambda>ty.
       if ty = TyU64 then Some max_u64
       else if ty \<in> {TyU32, TyU16, TyU8, TyI1} then Some max_u32
       else None) same"

definition em_max_imm :: "'f felt_ops \<Rightarrow> 'f immediate \<Rightarrow> 'f emitter" where
  "em_max_imm F imm =
     em_binary_imm imm (\<lambda>ty.
       if ty = TyU64 then do { c \<leftarrow> push_immediate F imm; Some (c @ max_u64) }
       else if ty \<in> {TyU32, TyU16, TyU8, TyI1} then do { i \<leftarrow> imm_as_u32 F imm; Some (max_imm_u32 F i) }
       else None) same"

section \<open>Assertions, selection and calls\<close>

definition small_or_felt :: "hir_type \<Rightarrow> bool" where
  "small_or_felt ty = (ty \<in> {TyFelt, TyU32, TyI32, TyU16, TyI16, TyU8, TyI8, TyI1})"

definition no_result :: "hir_type \<Rightarrow> hir_type list" where
  "no_result ty = []"

definition em_assert :: "'f emitter" where
  "em_assert =
     em_unary (\<lambda>ty.
       if small_or_felt ty then Some [Stk Assert]
       else if ty = TyI128 then Some [Stk Assertz, Stk Assertz, Stk Assertz, Stk Assert]
       else if ty \<in> {TyU64, TyI64} then Some [Stk Assertz, Stk Assert]
       else None) no_result"

definition em_assertz :: "'f emitter" where
  "em_assertz =
     em_unary (\<lambda>ty.
       if small_or_felt ty then Some [Stk Assertz]
       else if ty \<in> {TyI128, TyU64, TyI64} then
         do { bits \<leftarrow> size_in_bits ty; Some (replicate (bits div 32) (Stk Assertz)) }
       else None) no_result"

definition em_assert_eq :: "'f emitter" where
  "em_assert_eq =
     em_binary (\<lambda>ty.
       if small_or_felt ty then Some [Stk AssertEq]
       else if ty = TyI128 then Some [Stk AssertEqw]
       else if ty \<in> {TyU64, TyI64} then Some [Stk (Movup 2), Stk AssertEq, Stk AssertEq]
       else None) no_result"

definition em_assert_eq_imm :: "'f felt_ops \<Rightarrow> 'f immediate \<Rightarrow> 'f emitter" where
  "em_assert_eq_imm F imm =
     em_binary_imm imm (\<lambda>ty.
       if small_or_felt ty then do { i \<leftarrow> imm_as_felt F imm; Some [Cmp (EqImm i), Stk Assert] }
       else if ty = TyI128 then do { c \<leftarrow> push_immediate F imm; Some (c @ [Stk AssertEqw]) }
       else if ty \<in> {TyI64, TyU64} then do {
         v \<leftarrow> (case imm of ImmI64 i \<Rightarrow> Some i | ImmU64 i \<Rightarrow> Some i | _ \<Rightarrow> None);
         let (hi, lo) = u64_to_raw_parts v;
         Some [Cmp (EqImm (felt_new F (ucast hi))), Stk Assert,
               Cmp (EqImm (felt_new F (ucast lo))), Stk Assert] }
       else None) no_result"

definition em_select :: "'f emitter" where
  "em_select s =
     do { (c, s) \<leftarrow> em_pop s;
          (b, s) \<leftarrow> em_pop s;
          (a, s) \<leftarrow> em_pop s;
          assert_that (op_ty c = TyI1);
          let ty = op_ty a;
          assert_that (ty = op_ty b);
          code \<leftarrow>
            (if small_or_felt ty then Some [Stk Cdrop]
             else if ty = TyI128 then Some [Stk Cdropw]
             else if ty \<in> {TyI64, TyU64} then
               Some [Stk (Dup 0), Stk (Movdn 6), Stk (Movup 3), Stk (Movup 2), Stk (Movup 6),
                 Stk Cdrop, Stk (Movdn 4), Stk Cdrop, Stk (Swap 1)]
             else None);
          s \<leftarrow> push_ty ty s;
          Some (code, s) }"

text \<open>
  The loop of \<open>exec\<close> over the parameters, from index \<open>i\<close>; \<open>results\<close> are the results of the
  signature.  The size that is compared with the size of the parameter is that of the
  parameter itself, as in the source.
\<close>

definition exec_arg :: "'f felt_ops \<Rightarrow> abi_param list \<Rightarrow> nat \<Rightarrow> abi_param \<Rightarrow> 'f emitter" where
  "exec_arg F results i param s =
     do { (arg, s) \<leftarrow> em_pop s;
          let ty = op_ty arg;
          (case ap_purpose param of
             ApStructReturn \<Rightarrow> do {
               assert_that (i = 0); assert_that (length results = 0); assert_that (is_pointer ty) }
           | ApDefault \<Rightarrow> Some ());
          (case ap_extension param of
             AeNone \<Rightarrow> do { assert_that (ty = ap_ty param); Some ([], s) }
           | AeZext \<Rightarrow>
               if ty \<noteq> ap_ty param then do {
                 assert_that (is_unsigned_integer (ap_ty param));
                 assert_that (is_unsigned_integer ty);
                 expected_size \<leftarrow> size_in_bits (ap_ty param);
                 provided_size \<leftarrow> size_in_bits (ap_ty param);
                 assert_that (provided_size \<le> expected_size);
                 (c, s) \<leftarrow> em_zext F (ap_ty param) (os_push arg s);
                 s \<leftarrow> os_drop s;
                 Some (c, s) }
               else Some ([], s)
           | AeSext \<Rightarrow>
               if ty \<noteq> ap_ty param then do {
                 assert_that (is_signed_integer (ap_ty param));
                 assert_that (is_integer ty);
                 expected_size \<leftarrow> size_in_bits (ap_ty param);
                 provided_size \<leftarrow> size_in_bits (ap_ty param);
                 (if is_unsigned_integer ty then assert_that (provided_size < expected_size)
                  else assert_that (provided_size \<le> expected_size));
                 (c, s) \<leftarrow> em_sext F (ap_ty param) (os_push arg s);
                 s \<leftarrow> os_drop s;
                 Some (c, s) }
               else Some ([], s)) }"

fun exec_args :: "'f felt_ops \<Rightarrow> abi_param list \<Rightarrow> nat \<Rightarrow> abi_param list \<Rightarrow> 'f emitter" where
  "exec_args F results i [] s = Some ([], s)"
| "exec_args F results i (param # params) s =
     do { (c1, s) \<leftarrow> exec_arg F results i param s;
          (c2, s) \<leftarrow> exec_args F results (Suc i) params s;
          Some (c1 @ c2, s) }"

definition em_exec :: "'f felt_ops \<Rightarrow> external_function \<Rightarrow> 'f emitter" where
  "em_exec F callee s =
     do { let sig = ef_signature callee;
          (c, s) \<leftarrow> exec_args F (sig_results sig) 0 (sig_params sig) s;
          s \<leftarrow> push_tys (map ap_ty (sig_results sig)) s;
          Some (c @ [OpExec (ef_id callee)], s) }"

definition em_syscall :: "external_function \<Rightarrow> 'f emitter" where
  "em_syscall callee s = None"

end
