(* ===== verification/EmitMem.thy ===== *)
theory EmitMem
  imports EmitOps
begin

text \<open>
  The memory emitters (codegen/masm/src/stackify/emit/mem.rs): allocation of locals, loads from
  dynamic and immediate addresses, and the realignment of values that do not start at an
  element.  The store functions are unimplemented in the source and panic.
\<close>

section \<open>Native pointers on the stack\<close>

definition emit_native_ptr :: "'f code" where
  "emit_native_ptr =
     [Stk (Dup 0), Bit (U32CheckedModImm 16), Stk (Dup 0), Bit (U32CheckedModImm 4), Stk (Swap 1),
      Bit (U32CheckedDivImm 4), Stk (Movup 2), Bit (U32CheckedDivImm 16)]"

text \<open>
  The addresses of the word a pointer points into and of the next one; \<open>waddr\<close> of a pointer
  made by \<open>from_ptr\<close> is below \<open>2 ^ 28\<close>.
\<close>

definition mem_intrinsic :: "string \<Rightarrow> 'f masm_op" where
  "mem_intrinsic name = OpExec (FunctionIdent ''intrinsics::mem'' name)"

definition load_this :: "native_ptr \<Rightarrow> 'f code" where
  "load_this p = [Stk Padw, Mem (MemLoadwImm (of_nat (np_waddr p)))]"

definition load_next :: "native_ptr \<Rightarrow> 'f code" where
  "load_next p = [Stk Padw, Mem (MemLoadwImm (of_nat (np_waddr p + 1)))]"

definition shift_high :: "native_ptr \<Rightarrow> 'f masm_op" where
  "shift_high p = Bit (U32CheckedShlImm (of_nat (np_offset p)))"

definition shift_low :: "native_ptr \<Rightarrow> 'f masm_op" where
  "shift_low p = Bit (U32CheckedShrImm (of_nat (32 - np_offset p)))"

section \<open>Loads\<close>

definition load_felt_imm :: "native_ptr \<Rightarrow> 'f code option" where
  "load_felt_imm p =
     do { assert_that (np_is_element_aligned p);
          if np_index p = 0 then Some [Mem (MemLoadImm (of_nat (np_waddr p)))]
          else if np_index p = 1 then
            Some (load_this p @ [Stk (Movup 4), Stk (Movup 4), Stk Drop, Stk Drop, Stk Drop])
          else if np_index p = 2 then
            Some (load_this p @ [Stk Drop, Stk Drop, Stk (Swap 1), Stk Drop])
          else if np_index p = 3 then Some (load_this p @ [Stk Drop, Stk Drop, Stk Drop])
          else None }"

definition load_felt :: "native_ptr option \<Rightarrow> 'f code option" where
  "load_felt ptr =
     (case ptr of Some imm \<Rightarrow> load_felt_imm imm | None \<Rightarrow> Some [mem_intrinsic ''load_felt''])"

definition load_word_imm :: "native_ptr \<Rightarrow> 'f code option" where
  "load_word_imm p =
     (let aligned = np_is_element_aligned p; combine = [shift_high p, Stk (Swap 1), shift_low p, Bit U32Or] in
      if np_index p = 0 then
        Some (if aligned then [Mem (MemLoadImm (of_nat (np_waddr p)))]
              else load_this p @ [Stk (Movdn 4), Stk (Movdn 4), Stk Drop, Stk Drop] @ combine)
      else if np_index p = 1 then
        Some (if aligned then load_this p @ [Stk Drop, Stk (Movdn 3), Stk Drop, Stk Drop]
              else load_this p @ [Stk Drop, Stk (Movdn 3), Stk (Movdn 3), Stk Drop] @ combine)
      else if np_index p = 2 then
        Some (if aligned then load_this p @ [Stk Drop, Stk Drop, Stk (Swap 1), Stk Drop]
              else load_this p @ [Stk Drop, Stk Drop] @ combine)
      else if np_index p = 3 then
        Some (if aligned then load_this p @ [Stk Drop, Stk Drop, Stk Drop]
              else load_next p @ [Stk (Movdn 4), Stk Drop, Stk Drop, Stk Drop, shift_low p] @
                   load_this p @ [Stk Drop, Stk Drop, Stk Drop, shift_high p, Bit U32Or])
      else None)"

definition load_word :: "native_ptr option \<Rightarrow> 'f code option" where
  "load_word ptr =
     (case ptr of Some imm \<Rightarrow> load_word_imm imm | None \<Rightarrow> Some [mem_intrinsic ''load_sw''])"

definition realign_double_word :: "native_ptr \<Rightarrow> 'f code" where
  "realign_double_word p =
     [shift_high p, Stk (Movdn 3), Stk (Dup 0), shift_low p, Stk (Movup 3), Bit U32Or,
      Stk (Movdn 2), shift_high p, Stk (Swap 1), shift_low p, Bit U32Or, Stk (Swap 1)]"

definition realign_quad_word :: "native_ptr \<Rightarrow> 'f code" where
  "realign_quad_word p =
     [shift_high p, Stk (Movdn 5), Stk (Dup 0), shift_low p, Stk (Movup 3), Bit U32Or, Stk (Movdn 5),
      shift_high p, Stk (Movdn 5), Stk (Dup 0), shift_low p, Stk (Movup 5), Bit U32Or, Stk (Movdn 5),
      shift_high p, Stk (Movdn 5), Stk (Dup 0), shift_low p, Stk (Movup 6), Bit U32Or, Stk (Movdn 5),
      shift_high p, Stk (Movdn 5), shift_low p, Stk (Movup 5), Bit U32Or, Stk (Movdn 5)]"

definition load_double_word_imm :: "native_ptr \<Rightarrow> 'f code option" where
  "load_double_word_imm p =
     (let aligned = np_is_element_aligned p in
      if np_index p = 0 then
        Some (if aligned then load_this p @ [Stk (Movdn 4), Stk (Movdn 4), Stk Drop, Stk Drop]
              else load_this p @ [Stk (Movup 4), Stk Drop] @ realign_double_word p)
      else if np_index p = 1 then
        Some (if aligned then load_this p @ [Stk Drop, Stk (Movup 3), Stk Drop]
              else load_this p @ [Stk Drop] @ realign_double_word p)
      else if np_index p = 2 then
        Some (if aligned then load_this p @ [Stk Drop, Stk Drop]
              else load_next p @ [Stk (Movdn 4), Stk Drop, Stk Drop, Stk Drop] @
                   load_this p @ [Stk Drop, Stk Drop] @ realign_double_word p)
      else if np_index p = 3 then
        Some (if aligned then
                load_next p @ [Stk (Movup 4), Stk Drop, Stk (Movup 3), Stk Drop] @
                load_this p @ [Stk Drop, Stk Drop, Stk Drop]
              else
                load_next p @ [Stk (Movup 4), Stk Drop] @
                load_this p @ [Stk Drop, Stk Drop, Stk Drop] @ realign_double_word p)
      else None)"

definition load_double_word :: "native_ptr option \<Rightarrow> 'f code option" where
  "load_double_word ptr =
     (case ptr of Some imm \<Rightarrow> load_double_word_imm imm | None \<Rightarrow> Some [mem_intrinsic ''load_dw''])"

definition load_quad_word_imm :: "native_ptr \<Rightarrow> 'f code option" where
  "load_quad_word_imm p =
     (let aligned = np_is_element_aligned p in
      if np_index p = 0 then
        Some (if aligned then load_this p
              else load_next p @ [Stk (Movdn 4), Stk Drop, Stk Drop, Stk Drop] @
                   load_this p @ realign_quad_word p)
      else if np_index p = 1 then
        Some (if aligned then load_next p @ [Stk (Movup 4), Stk Drop] @ load_this p @ [Stk Drop]
              else load_next p @ [Stk (Movdn 4), Stk (Movdn 4), Stk Drop, Stk Drop] @
                   load_this p @ [Stk Drop] @ realign_quad_word p)
      else if np_index p = 2 then
        Some (if aligned then
                load_this p @ [Stk (Movup 4), Stk (Movup 4), Stk Drop, Stk Drop] @
                load_this p @ [Stk Drop, Stk Drop]
              else
                load_next p @ [Stk (Movup 4), Stk Drop] @
                load_this p @ [Stk Drop, Stk Drop] @ realign_quad_word p)
      else if np_index p = 3 then
        Some (if aligned then
                load_next p @ [Stk (Movup 4), Stk Drop] @
                load_this p @ [Stk Drop, Stk Drop, Stk Drop]
              else
                load_next p @ load_this p @ [Stk Drop, Stk Drop, Stk Drop] @ realign_quad_word p)
      else None)"

definition load_quad_word :: "native_ptr option \<Rightarrow> 'f code option" where
  "load_quad_word ptr =
     (case ptr of Some imm \<Rightarrow> load_quad_word_imm imm | None \<Rightarrow> Some [mem_intrinsic ''load_qw''])"

text \<open>The part that \<open>load\<close> and \<open>load_imm\<close> share: the code by the type of the value.\<close>

definition load_code :: "hir_type \<Rightarrow> native_ptr option \<Rightarrow> 'f code option" where
  "load_code ty ptr =
     (if ty = TyI128 then load_quad_word ptr
      else if ty \<in> {TyI64, TyU64} then load_double_word ptr
      else if ty = TyFelt then load_felt ptr
      else if ty \<in> {TyI32, TyU32} then load_word ptr
      else if ty \<in> {TyI16, TyU16, TyU8, TyI8, TyI1} then
        do { n \<leftarrow> ty_bits ty; code_then (load_word ptr) (trunc_int32 n) }
      else None)"

definition em_load :: "hir_type \<Rightarrow> 'f emitter" where
  "em_load ty s =
     do { (ptr, s) \<leftarrow> em_pop s;
          assert_that (is_ptr (op_ty ptr));
          c \<leftarrow> load_code ty None;
          s \<leftarrow> push_ty ty s;
          Some (emit_native_ptr @ c, s) }"

definition em_load_imm :: "nat \<Rightarrow> hir_type \<Rightarrow> 'f emitter" where
  "em_load_imm addr ty s =
     do { c \<leftarrow> load_code ty (Some (np_from_ptr addr));
          s \<leftarrow> push_ty ty s;
          Some (c, s) }"

section \<open>Locals\<close>

text \<open>\<open>alloca\<close> also extends the locals of the function.\<close>

definition em_alloca ::
    "hir_type \<Rightarrow> 'f masm_function \<Rightarrow> 'f opstack \<Rightarrow> ('f code \<times> 'f opstack \<times> 'f masm_function) option" where
  "em_alloca ptr f s =
     (case ptr of
        TyPtr elem_ty \<Rightarrow> do {
          (local, f) \<leftarrow> alloc_local elem_ty f;
          s \<leftarrow> push_ty ptr s;
          Some ([Mem (LocAddr local)], s, f) }
      | _ \<Rightarrow> None)"

section \<open>Stores\<close>

definition store_quad_word :: "native_ptr option \<Rightarrow> 'f code option" where "store_quad_word ptr = None"
definition store_double_word :: "native_ptr option \<Rightarrow> 'f code option" where "store_double_word ptr = None"
definition store_word :: "native_ptr option \<Rightarrow> 'f code option" where "store_word ptr = None"
definition store_felt :: "native_ptr option \<Rightarrow> 'f code option" where "store_felt ptr = None"
definition store_small :: "hir_type \<Rightarrow> native_ptr option \<Rightarrow> 'f code option" where
  "store_small ty ptr = None"
definition store_array :: "hir_type \<Rightarrow> native_ptr option \<Rightarrow> 'f code option" where
  "store_array element_ty ptr = None"
definition store_struct :: "struct_type \<Rightarrow> native_ptr option \<Rightarrow> 'f code option" where
  "store_struct ty ptr = None"

definition store_code :: "hir_type \<Rightarrow> native_ptr option \<Rightarrow> 'f code option" where
  "store_code ty ptr =
     (if ty = TyI128 then store_quad_word ptr
      else if ty \<in> {TyI64, TyU64} then store_double_word ptr
      else if ty = TyFelt then store_felt ptr
      else if ty \<in> {TyI32, TyU32} then store_word ptr
      else do {
        size \<leftarrow> size_in_bytes ty;
        if size \<le> 4 then store_small ty ptr
        else case ty of
          TyArray elem_ty n \<Rightarrow> store_array elem_ty ptr
        | TyStruct struct_ty \<Rightarrow> store_struct struct_ty ptr
        | _ \<Rightarrow> None })"

definition em_store :: "'f emitter" where
  "em_store s =
     do { (ptr, s) \<leftarrow> em_pop s;
          (val, s) \<leftarrow> em_pop s;
          assert_that (is_pointer (op_ty ptr));
          assert_that (\<not> is_zst (op_ty val));
          assert_that (is_ptr (op_ty ptr));
          c \<leftarrow> store_code (op_ty val) None;
          Some (emit_native_ptr @ c, s) }"

definition em_store_imm :: "nat \<Rightarrow> 'f emitter" where
  "em_store_imm addr s =
     do { (val, s) \<leftarrow> em_pop s;
          assert_that (\<not> is_zst (op_ty val));
          c \<leftarrow> store_code (op_ty val) (Some (np_from_ptr addr));
          Some (c, s) }"

definition em_memcpy :: "'f emitter" where
  "em_memcpy s =
     do { (src, s) \<leftarrow> em_pop s;
          (dst, s) \<leftarrow> em_pop s;
          (n, s) \<leftarrow> em_pop s;
          assert_that (op_ty n = TyU32);
          assert_that (op_ty src = op_ty dst);
          None }"

end
