(* ===== verification/EmitOpsProps.thy ===== *)
theory EmitOpsProps
  imports EmitMem EmitIntProps Emulator
begin

text \<open>
  The typed emitters on operands of the types they support: what their code computes on the
  elements of the operands, together with the operands they leave.  \<open>computes F e s xs t r\<close>:
  the emitter \<open>e\<close> takes the operand stack \<open>s\<close> to \<open>t\<close>, and its code takes the elements \<open>xs\<close>,
  read from the top, to \<open>r\<close> (\<open>None\<close> a trap).
\<close>

definition computes ::
    "'f felt_ops \<Rightarrow> 'f emitter \<Rightarrow> 'f opstack \<Rightarrow> 'f list \<Rightarrow> 'f opstack \<Rightarrow> 'f list option \<Rightarrow> bool" where
  "computes F e s xs t r \<longleftrightarrow> (\<exists>c. e s = Some (c, t) \<and> exec_from F c xs = r)"

definition small_operand :: "hir_type \<Rightarrow> 'f operand" where
  "small_operand ty = \<lparr>op_word = [ty], op_operand = OpType ty\<rparr>"


lemma new_small [simp]:
  "new_operand (OpType TyI1) = Some (small_operand TyI1)"
  "new_operand (OpType TyU8) = Some (small_operand TyU8)"
  "new_operand (OpType TyU16) = Some (small_operand TyU16)"
  "new_operand (OpType TyU32) = Some (small_operand TyU32)"
  by (simp_all add: new_operand_def small_operand_def layout_eval cong: bind_weak_cong)

lemma em_pop_snoc [simp]: "em_pop (s @ [x]) = Some (x, s)" "em_pop (s @ [y, x]) = Some (x, s @ [y])"
  by (simp_all add: em_pop_def os_pop_def butlast_append)

lemma os_push_snoc [simp]: "os_push x s = s @ [x]"
  by (simp add: os_push_def)

lemmas frame_defs = em_unary_def em_binary_def em_binary_imm_def push_ty_def with_overflow_def no_result_def
  small_or_felt_def

context felt_field
begin

lemma one_u32_arith [step_simps]:
  "exec_from F [Arith U32OverflowingAdd] (felt_u32 F b # felt_u32 F a # xs) =
     Some (felt_bool F (2 ^ 32 \<le> unat a + unat b) # felt_u32 F (a + b) # xs)"
  "exec_from F [Arith U32OverflowingSub] (felt_u32 F b # felt_u32 F a # xs) =
     Some (felt_bool F (a < b) # felt_u32 F (a - b) # xs)"
  "exec_from F [Arith U32OverflowingMul] (felt_u32 F b # felt_u32 F a # xs) =
     Some (felt_bool F (2 ^ 32 \<le> unat a * unat b) # felt_u32 F (a * b) # xs)"
  "exec_from F [Arith U32WrappingAdd] (felt_u32 F b # felt_u32 F a # xs) = Some (felt_u32 F (a + b) # xs)"
  "exec_from F [Arith U32WrappingMul] (felt_u32 F b # felt_u32 F a # xs) = Some (felt_u32 F (a * b) # xs)"
  by (simp_all add: exec_from_one exec_simps stack_simps exec_defs not_le not_less)

lemma one_u32_rel [step_simps]:
  "exec_from F [Rel U32Eq] (felt_u32 F b # felt_u32 F a # xs) = Some (felt_bool F (a = b) # xs)"
  "exec_from F [Rel U32Neq] (felt_u32 F b # felt_u32 F a # xs) = Some (felt_bool F (a \<noteq> b) # xs)"
  "exec_from F [Rel U32CheckedLt] (felt_u32 F b # felt_u32 F a # xs) = Some (felt_bool F (a < b) # xs)"
  "exec_from F [Rel U32CheckedGt] (felt_u32 F b # felt_u32 F a # xs) = Some (felt_bool F (a > b) # xs)"
  "exec_from F [Rel U32CheckedGte] (felt_u32 F b # felt_u32 F a # xs) = Some (felt_bool F (a \<ge> b) # xs)"
  "exec_from F [Rel U32CheckedMin] (felt_u32 F b # felt_u32 F a # xs) = Some (felt_u32 F (min a b) # xs)"
  "exec_from F [Rel U32CheckedMax] (felt_u32 F b # felt_u32 F a # xs) = Some (felt_u32 F (max a b) # xs)"
  by (simp_all add: exec_from_one exec_simps stack_simps exec_defs)

lemma one_u32_bit [step_simps]:
  "exec_from F [Bit U32CheckedDiv] (felt_u32 F b # felt_u32 F a # xs) =
     (if b = 0 then None else Some (felt_u32 F (a div b) # xs))"
  "exec_from F [Bit U32CheckedMod] (felt_u32 F b # felt_u32 F a # xs) =
     (if b = 0 then None else Some (felt_u32 F (a mod b) # xs))"
  "exec_from F [Bit U32CheckedDivMod] (felt_u32 F b # felt_u32 F a # xs) =
     (if b = 0 then None else Some (felt_u32 F (a mod b) # felt_u32 F (a div b) # xs))"
  "exec_from F [Bit U32Xor] (felt_u32 F b # felt_u32 F a # xs) = Some (felt_u32 F (a XOR b) # xs)"
  "exec_from F [Bit U32CheckedShl] (felt_u32 F b # felt_u32 F a # xs) =
     (if unat b < 32 then Some (felt_u32 F (push_bit (unat b) a) # xs) else None)"
  "exec_from F [Bit U32CheckedShr] (felt_u32 F b # felt_u32 F a # xs) =
     (if unat b < 32 then Some (felt_u32 F (drop_bit (unat b) a) # xs) else None)"
  "exec_from F [Bit U32CheckedRotl] (felt_u32 F b # felt_u32 F a # xs) =
     Some (felt_u32 F (word_rotl (unat b) a) # xs)"
  "exec_from F [Bit U32CheckedRotr] (felt_u32 F b # felt_u32 F a # xs) =
     Some (felt_u32 F (word_rotr (unat b) a) # xs)"
  "exec_from F [Bit U32Not] (felt_u32 F a # xs) = Some (felt_u32 F (NOT a) # xs)"
  by (simp_all add: exec_from_one exec_simps stack_simps exec_defs checked_div_def checked_rem_def
      checked_shl_def checked_shr_def rotate_left_def rotate_right_def)

lemma one_felt_arith [step_simps]:
  "exec_from F [Fld Add] (y # x # xs) = Some (felt_add F x y # xs)"
  "exec_from F [Fld Sub] (y # x # xs) = Some (felt_sub F x y # xs)"
  "exec_from F [Fld Mul] (y # x # xs) = Some (felt_mul F x y # xs)"
  by (simp_all add: exec_from_one exec_simps stack_simps exec_defs)

end

section \<open>Properties\<close>

text \<open>
  C17. The comparisons of unsigned integers of 1, 8, 16 and 32 bits: two operands of the type are
  consumed and a boolean is left, the one for \<open>a < b\<close> and so on, where \<open>b\<close> is on top.
\<close>

theorem unsigned_comparisons:
  assumes "felt_field F" "op_ty x = ty" "op_ty y = ty" "ty \<in> {TyI1, TyU8, TyU16, TyU32}"
  shows "computes F em_eq (s @ [y, x]) (felt_u32 F b # felt_u32 F a # xs)
      (s @ [small_operand TyI1]) (Some (felt_bool F (a = b) # xs))
    \<and> computes F em_neq (s @ [y, x]) (felt_u32 F b # felt_u32 F a # xs)
      (s @ [small_operand TyI1]) (Some (felt_bool F (a \<noteq> b) # xs))
    \<and> computes F em_lt (s @ [y, x]) (felt_u32 F b # felt_u32 F a # xs)
      (s @ [small_operand TyI1]) (Some (felt_bool F (a < b) # xs))
    \<and> computes F em_lte (s @ [y, x]) (felt_u32 F b # felt_u32 F a # xs)
      (s @ [small_operand TyI1]) (Some (felt_bool F (a \<le> b) # xs))
    \<and> computes F em_gt (s @ [y, x]) (felt_u32 F b # felt_u32 F a # xs)
      (s @ [small_operand TyI1]) (Some (felt_bool F (a > b) # xs))
    \<and> computes F em_gte (s @ [y, x]) (felt_u32 F b # felt_u32 F a # xs)
      (s @ [small_operand TyI1]) (Some (felt_bool F (a \<ge> b) # xs))"
  using assms(2-)
  by (intro conjI; auto simp: computes_def frame_defs em_eq_def em_neq_def em_lt_def em_lte_def em_gt_def em_gte_def
      felt_field.one_u32_rel [OF assms(1)] felt_field.one_u32_op [OF assms(1)])

lemma unsigned_comparisons_witness:
  "computes ref_ops em_lt [small_operand TyU16, small_operand TyU16] [felt_u32 ref_ops 7, felt_u32 ref_ops 3]
     [small_operand TyI1] (Some [felt_bool ref_ops True])"
  using unsigned_comparisons [OF ref_felt_field, of "small_operand TyU16" TyU16 "small_operand TyU16" "[]" 7 3 "[]"]
  by (simp add: op_ty_def small_operand_def)



section \<open>Wide operands\<close>

context felt_field
begin

lemma one_movdn [step_simps]:
  "exec_from F [Stk (Movdn i)] xs = (if 0 < i \<and> i < length xs then Some (move_down i xs) else None)"
  by (simp add: exec_from_one stack_simps)

lemma one_popcnt: "exec_from F [Rel U32CheckedPopcnt] (felt_u32 F a # xs) = Some (felt_u32 F (count_ones a) # xs)"
  by (simp add: exec_from_one exec_simps stack_simps)

lemma one_div_imm: "exec_from F [Bit (U32CheckedDivImm i)] (felt_u32 F a # xs) =
    (if i = 0 then None else Some (felt_u32 F (a div i) # xs))"
  by (simp add: exec_from_one exec_simps stack_simps exec_defs checked_div_def)

lemma run_select_int64:
  "exec_from F [Stk (Dup 0), Stk (Movdn 6), Stk (Movup 3), Stk (Movup 2), Stk (Movup 6),
      Stk Cdrop, Stk (Movdn 4), Stk Cdrop, Stk (Swap 1)]
     (felt_bool F c # bh # bl # ah # al # x # xs) =
   Some (x # (if c then bl else al) # (if c then bh else ah) # xs)"
  by (simp add: step_simps move_up_def move_down_def numeral_eq_Suc)

lemma run_bnot_int64:
  "exec_from F (bnot_code 2) (felt_u32 F hi # felt_u32 F lo # xs) =
     Some (felt_u32 F (NOT hi) # felt_u32 F (NOT lo) # xs)"
  by (simp add: bnot_code_def block_push_repeat_eq numeral_2_eq_2 step_simps)

lemma run_assert_eq_int64:
  "exec_from F [Stk (Movup 2), Stk AssertEq, Stk AssertEq]
     (felt_u32 F bh # felt_u32 F bl # felt_u32 F ah # felt_u32 F al # xs) =
   (if ah = bh \<and> al = bl then Some xs else None)"
  by (simp add: step_simps move_up_def numeral_2_eq_2)

lemma count_ones_le: "unat (count_ones (w :: u32)) \<le> 32"
proof -
  have "length (filter (bit w) [0..<32]) \<le> length [0..<32 :: nat]"
    by (rule length_filter_le)
  then have "length (filter (bit w) [0..<32]) \<le> 32" by simp
  then show ?thesis by (simp add: count_ones_def unat_of_nat)
qed

lemma add_counts:
  assumes "unat a \<le> 32" "unat b \<le> 32"
  shows "felt_add F (felt_u32 F a) (felt_u32 F b) = felt_u32 F (a + b)"
proof -
  have "unat (a + b) = unat a + unat b"
    using assms by (intro unat_add_lem [THEN iffD1]) simp
  then have "fval F (felt_add F (felt_u32 F a) (felt_u32 F b)) = fval F (felt_u32 F (a + b))"
    using assms by (simp add: fval_def as_int_add felt_P_eq)
  then show ?thesis by simp
qed

lemma run_popcnt_int64:
  "exec_from F [Rel U32CheckedPopcnt, Stk (Swap 1), Rel U32CheckedPopcnt, Fld Add]
     (felt_u32 F hi # felt_u32 F lo # xs) =
   Some (felt_u32 F (count_ones hi + count_ones lo) # xs)"
  by (simp add: step_simps one_popcnt add_counts count_ones_le)

end

lemma em_pop_three [simp]: "em_pop (s @ [z, y, x]) = Some (x, s @ [z, y])"
  by (simp add: em_pop_def os_pop_def butlast_append)

text \<open>
  Operators on 64-bit integers, which have two limbs.  \<open>assert_eq\<close> traps exactly when the
  limbs differ, and \<open>bnot\<close> complements both.  But \<open>select\<close> moves the condition one place too
  far, below an element \<open>z\<close> that is not part of its operands, and ends with \<open>z\<close> on top and the
  limbs exchanged; and \<open>popcnt\<close> leaves the number of ones in one element, where the operand
  stack then has an operand of two elements.
\<close>

theorem int64_operators:
  assumes "felt_field F" "op_ty x = TyU64" "op_ty y = TyU64" "op_ty c = TyI1"
  shows "computes F em_assert_eq (s @ [y, x]) (felt_u32 F bh # felt_u32 F bl # felt_u32 F ah # felt_u32 F al # xs)
      s (if ah = bh \<and> al = bl then Some xs else None)
    \<and> computes F em_bnot (s @ [x]) (felt_u32 F hi # felt_u32 F lo # xs)
      (s @ [u64_operand]) (Some (felt_u32 F (NOT hi) # felt_u32 F (NOT lo) # xs))
    \<and> computes F em_select (s @ [y, x, c]) (felt_bool F d # e1 # e0 # f1 # f0 # z # xs)
      (s @ [u64_operand]) (Some (z # (if d then e0 else f0) # (if d then e1 else f1) # xs))
    \<and> computes F em_popcnt (s @ [x]) (felt_u32 F hi # felt_u32 F lo # xs)
      (s @ [u64_operand]) (Some (felt_u32 F (count_ones hi + count_ones lo) # xs))"
proof (intro conjI)
  show "computes F em_assert_eq (s @ [y, x]) (felt_u32 F bh # felt_u32 F bl # felt_u32 F ah # felt_u32 F al # xs)
      s (if ah = bh \<and> al = bl then Some xs else None)"
    using assms(2,3) felt_field.run_assert_eq_int64 [OF assms(1)]
    by (simp add: computes_def em_assert_eq_def frame_defs)
  show "computes F em_bnot (s @ [x]) (felt_u32 F hi # felt_u32 F lo # xs)
      (s @ [u64_operand]) (Some (felt_u32 F (NOT hi) # felt_u32 F (NOT lo) # xs))"
    using assms(2) felt_field.run_bnot_int64 [OF assms(1)]
    by (simp add: computes_def em_bnot_def frame_defs new_u64_operand)
  show "computes F em_select (s @ [y, x, c]) (felt_bool F d # e1 # e0 # f1 # f0 # z # xs)
      (s @ [u64_operand]) (Some (z # (if d then e0 else f0) # (if d then e1 else f1) # xs))"
    using assms(2-4) felt_field.run_select_int64 [OF assms(1)]
    by (simp add: computes_def em_select_def frame_defs new_u64_operand)
  show "computes F em_popcnt (s @ [x]) (felt_u32 F hi # felt_u32 F lo # xs)
      (s @ [u64_operand]) (Some (felt_u32 F (count_ones hi + count_ones lo) # xs))"
    using assms(2) felt_field.run_popcnt_int64 [OF assms(1)]
    by (simp add: computes_def em_popcnt_def frame_defs new_u64_operand)
qed

lemma int64_operators_witness:
  "computes ref_ops em_select [u64_operand, u64_operand, small_operand TyI1]
     [felt_bool ref_ops True, ref_of_nat 1, ref_of_nat 2, ref_of_nat 3, ref_of_nat 4, ref_of_nat 5]
     [u64_operand] (Some [ref_of_nat 5, ref_of_nat 2, ref_of_nat 1])"
  using int64_operators [OF ref_felt_field, of u64_operand u64_operand "small_operand TyI1" "[]" 0 0 0 0 "[]" 0 0
      True "ref_of_nat 1" "ref_of_nat 2" "ref_of_nat 3" "ref_of_nat 4" "ref_of_nat 5"]
  by (simp add: op_ty_def small_operand_def u64_operand_def)

section \<open>Memory\<close>

text \<open>
  \<open>run_code F st code em\<close> executes a block of instructions that neither branch nor stop, memory
  accesses included, as the emulator does one by one.
\<close>

fun run_code :: "'f felt_ops \<Rightarrow> 'f activation \<Rightarrow> 'f code \<Rightarrow> 'f emulator \<Rightarrow> 'f emulator option" where
  "run_code F st [] em = Some em"
| "run_code F st (op # ops) em =
     (case exec_instruction F op st em of
        Some (Next st' em') \<Rightarrow> run_code F st' ops em'
      | _ \<Rightarrow> None)"

declare run_code.simps(2) [simp del]

text \<open>What is on the stack after loading code has run on the elements \<open>xs\<close>.\<close>

definition loads :: "'f felt_ops \<Rightarrow> 'f emulator \<Rightarrow> 'f code option \<Rightarrow> 'f list \<Rightarrow> 'f list \<Rightarrow> bool" where
  "loads F em code xs ys \<longleftrightarrow> (\<exists>c. code = Some c \<and>
     (\<forall>st. run_code F st c (em\<lparr>em_stack := topdown xs\<rparr>) = Some (em\<lparr>em_stack := topdown ys\<rparr>)))"

lemma exec_instruction_stack_op:
  "exec_instruction F (Stk o1) st em =
     do { s \<leftarrow> exec_stack_op F o1 (em_stack em); Some (Next st (em\<lparr>em_stack := s\<rparr>)) }"
  "exec_instruction F (Mem m) st em = exec_mem_op F m st em"
  by (simp_all add: exec_instruction_def)

lemma exec_load_this:
  assumes "waddr + 4 < length (em_memory em)" "waddr < 2 ^ 28" "em_memory em ! waddr = (e0, e1, e2, e3)"
  shows "run_code F st (Stk Padw # Mem (MemLoadwImm (of_nat waddr)) # c) (em\<lparr>em_stack := topdown xs\<rparr>) =
    run_code F st c (em\<lparr>em_stack := topdown (e0 # e1 # e2 # e3 # xs)\<rparr>)"
proof -
  have "unat (of_nat waddr :: u32) = waddr"
    using assms(2) by (simp add: unat_of_nat)
  moreover have "waddr < length (em_memory em) - 4" using assms(1) by simp
  ultimately show ?thesis
    using assms by (simp add: run_code.simps exec_instruction_stack_op stack_simps usize_sub_def bind_assert_that)
qed

lemma exec_one:
  "run_code F st (Stk Drop # c) (em\<lparr>em_stack := topdown (x # xs)\<rparr>) = run_code F st c (em\<lparr>em_stack := topdown xs\<rparr>)"
  "run_code F st (Stk (Swap (Suc 0)) # c) (em\<lparr>em_stack := topdown (x # y # xs)\<rparr>) =
     run_code F st c (em\<lparr>em_stack := topdown (y # x # xs)\<rparr>)"
  "run_code F st (Stk (Movup i) # c) (em\<lparr>em_stack := topdown xs'\<rparr>) =
     (if 0 < i \<and> i < length xs' then run_code F st c (em\<lparr>em_stack := topdown (move_up i xs')\<rparr>) else None)"
  "run_code F st (Stk (Movdn i) # c) (em\<lparr>em_stack := topdown xs'\<rparr>) =
     (if 0 < i \<and> i < length xs' then run_code F st c (em\<lparr>em_stack := topdown (move_down i xs')\<rparr>) else None)"
  by (simp_all add: run_code.simps exec_instruction_stack_op stack_simps list_swap_def)

lemma exec_load_first:
  assumes "waddr < length (em_memory em)" "waddr < 2 ^ 28" "em_memory em ! waddr = (e0, e1, e2, e3)"
  shows "run_code F st (Mem (MemLoadImm (of_nat waddr)) # c) (em\<lparr>em_stack := topdown xs\<rparr>) =
    run_code F st c (em\<lparr>em_stack := topdown (e0 # xs)\<rparr>)"
proof -
  have "unat (of_nat waddr :: u32) = waddr"
    using assms(2) by (simp add: unat_of_nat)
  with assms show ?thesis
    by (simp add: run_code.simps exec_instruction_stack_op stack_simps mem_get_def)
qed

text \<open>
  C19. Loads from an immediate address that is a multiple of four, for every position in the memory
  word \<open>(e0, e1, e2, e3)\<close>, which the word \<open>(f0, f1, f2, f3)\<close> follows.  A word or field element is
  loaded from the elements 0, 2 and 3, a double word from element 2 and a quad word from element
  0.  The code for the other positions involves the element \<open>z\<close> below: the word at element 1 ends
  below \<open>z\<close>, and so does the double word at 0; the field element at 1, the double words at 1 and 3
  and the quad words at 1, 2 and 3 replace \<open>z\<close> by loaded elements and leave some too many, and the
  quad word at 2 reads its second half from the first word again.
\<close>

theorem loads_at_aligned_addresses:
  assumes "addr < 2 ^ 32" "addr mod 4 = 0" "addr div 16 + 5 < length (em_memory em)"
    and "em_memory em ! (addr div 16) = (e0, e1, e2, e3)" "em_memory em ! (addr div 16 + 1) = (f0, f1, f2, f3)"
  defines "p \<equiv> Some (np_from_ptr addr)"
  shows "(addr mod 16 \<in> {0, 8, 12} \<longrightarrow>
      loads F em (load_word p) xs ([e0, e1, e2, e3] ! (addr mod 16 div 4) # xs)
      \<and> loads F em (load_felt p) xs ([e0, e1, e2, e3] ! (addr mod 16 div 4) # xs))
    \<and> (addr mod 16 = 8 \<longrightarrow> loads F em (load_double_word p) xs (e2 # e3 # xs))
    \<and> (addr mod 16 = 0 \<longrightarrow> loads F em (load_quad_word p) xs (e0 # e1 # e2 # e3 # xs))
    \<and> (addr mod 16 = 0 \<longrightarrow> loads F em (load_double_word p) (z # xs) (z # e0 # e1 # xs))
    \<and> (addr mod 16 = 4 \<longrightarrow> loads F em (load_word p) (z # xs) (z # e1 # xs)
      \<and> loads F em (load_felt p) (z # xs) (e1 # e2 # xs)
      \<and> loads F em (load_double_word p) (z # xs) (e1 # e2 # e3 # xs)
      \<and> loads F em (load_quad_word p) (z # xs) (e1 # e2 # e3 # f0 # f1 # f2 # f3 # xs))
    \<and> (addr mod 16 = 8 \<longrightarrow> loads F em (load_quad_word p) (z # xs) (e2 # e3 # e0 # e1 # e2 # xs))
    \<and> (addr mod 16 = 12 \<longrightarrow> loads F em (load_double_word p) (z # xs) (e3 # f0 # f1 # f2 # xs)
      \<and> loads F em (load_quad_word p) (z # xs) (e3 # f0 # f1 # f2 # f3 # xs))"
proof -
  have w: "addr div 16 < 2 ^ 28" using assms(1) by (simp add: less_mult_imp_div_less)
  have len: "addr div 16 + 4 < length (em_memory em)" using assms(3) by simp
  note load = exec_load_this [OF len w assms(4)] exec_load_first [OF add_lessD1 [OF len] w assms(4)]
  have aligned: "np_is_element_aligned (np_from_ptr addr)"
    using assms(2) by (simp add: np_is_element_aligned_def np_from_ptr_fields)
  have "run_code F st (load_next (np_from_ptr addr) @ c) (em\<lparr>em_stack := topdown ys\<rparr>) =
      run_code F st c (em\<lparr>em_stack := topdown (f0 # f1 # f2 # f3 # ys)\<rparr>)" for st c ys
  proof -
    have "unat (of_nat (addr div 16 + 1) :: u32) = addr div 16 + 1" using w by (simp only: unat_of_nat) simp
    then have n: "unat (1 + of_nat (addr div 16) :: u32) = Suc (addr div 16)" by simp
    have "addr div 16 + 1 < length (em_memory em) - 4" "length (em_memory em) \<ge> 4" using assms(3) by simp_all
    then show ?thesis
      using assms(5) by (simp add: load_next_def np_from_ptr_fields run_code.simps exec_instruction_stack_op stack_simps
          usize_sub_def bind_assert_that n)
  qed
  note following = this
  note defs = loads_def load_word_def load_felt_def load_double_word_def load_quad_word_def
    load_word_imm_def load_felt_imm_def load_double_word_imm_def load_quad_word_imm_def
    load_this_def p_def aligned np_from_ptr_fields load following exec_one move_up_def move_down_def Let_def
  show ?thesis
    by (intro conjI impI; auto simp: defs)
qed

lemma loads_at_aligned_addresses_witness:
  "loads ref_ops ((new_emulator ref_ops 8 1 6)\<lparr>em_memory := replicate 8 (ref_of_nat 10, ref_of_nat 11, ref_of_nat 12, ref_of_nat 13)\<rparr>)
     (load_double_word (Some (np_from_ptr 24))) [] [ref_of_nat 12, ref_of_nat 13]"
  by (rule loads_at_aligned_addresses [of 24 "(new_emulator ref_ops 8 1 6)\<lparr>em_memory := replicate 8 (ref_of_nat 10, ref_of_nat 11, ref_of_nat 12, ref_of_nat 13)\<rparr>"
        "ref_of_nat 10" "ref_of_nat 11" "ref_of_nat 12" "ref_of_nat 13" "ref_of_nat 10" "ref_of_nat 11" "ref_of_nat 12"
        "ref_of_nat 13" ref_ops "[]" "ref_of_nat 0", THEN conjunct2, THEN conjunct1, rule_format]) simp_all

text \<open>
  The code that splits a byte address into a native pointer leaves exactly the parts that
  the compiler computes for a constant address: the word address on top, then the element and
  the byte in the element.
\<close>

theorem native_pointer_on_stack:
  assumes "felt_field F"
  shows "exec_from F emit_native_ptr (felt_u32 F addr # xs) =
    Some (map (\<lambda>k. felt_u32 F (of_nat k))
      [np_waddr (np_from_ptr (unat addr)), np_index (np_from_ptr (unat addr)),
       np_offset (np_from_ptr (unat addr))] @ xs)"
proof -
  have "unat addr div 16 < 4294967296"
    by (rule le_less_trans [OF div_le_dividend]) simp
  moreover have "unat addr mod 16 div 4 < 4294967296"
    by (rule le_less_trans [OF div_le_dividend le_less_trans [OF mod_less_eq_dividend]]) simp
  moreover have "unat addr mod 4 < 4294967296"
    by (rule le_less_trans [OF mod_less_eq_dividend]) simp
  ultimately have parts: "of_nat (unat addr div 16) = addr div 16" "of_nat (unat addr mod 16 div 4) = addr mod 16 div 4"
    "of_nat (unat addr mod 4) = addr mod 16 mod 4"
    by (simp_all only: word_unat_eq_iff unat_of_nat unat_div_distrib unat_mod_distrib) (simp_all add: mod_mod_cancel)
  note [simp] = felt_field.one_u32_op [OF assms] felt_field.one_move [OF assms] felt_field.run_Cons [OF assms]
    felt_field.one_div_imm [OF assms]
  show ?thesis
    by (simp add: emit_native_ptr_def np_from_ptr_fields parts move_up_def)
qed

lemma native_pointer_on_stack_witness:
  "exec_from ref_ops emit_native_ptr [felt_u32 ref_ops 0x1B] =
     Some [felt_u32 ref_ops 1, felt_u32 ref_ops 2, felt_u32 ref_ops 3]"
  using native_pointer_on_stack [OF ref_felt_field, of "0x1B" "[]"]
  by (simp add: np_from_ptr_fields)

end
