(* ===== verification/Arena.thy ===== *)
theory Arena
  imports Prelude
begin

text \<open>
  The maps of hir/src/layout.rs.  \<open>ArenaMap\<close> is a vector of optional slots indexed by keys
  that are allocated from 0 on; the raw pointers into the arena are the values themselves.
  \<open>OrderedArenaMap\<close> adds an intrusive linked list of the linked nodes, here the list of their
  keys in order.

  Indexing an unallocated or empty slot panics (\<open>None\<close>).  The cursors are obtained by
  \<open>cursor_mut_from_ptr\<close>, whose precondition is that the node is in the list; the operations are
  \<open>None\<close> where a caller violates it.  Debug assertions are checked.
\<close>

section \<open>\<open>ArenaMap\<close>\<close>

type_synonym 'v arena_map = "'v option list"

definition am_new :: "'v arena_map" where
  "am_new = []"

definition am_is_empty :: "'v arena_map \<Rightarrow> bool" where
  "am_is_empty m = (m = [])"

definition am_len :: "'v arena_map \<Rightarrow> nat" where
  "am_len m = length (filter (\<lambda>item. item \<noteq> None) m)"

definition am_get :: "'v arena_map \<Rightarrow> nat \<Rightarrow> 'v option" where
  "am_get m key = (if key < length m then m ! key else None)"

definition am_contains :: "'v arena_map \<Rightarrow> nat \<Rightarrow> bool" where
  "am_contains m key = (am_get m key \<noteq> None)"

definition am_alloc_key :: "'v arena_map \<Rightarrow> nat \<times> 'v arena_map" where
  "am_alloc_key m = (length m, m @ [None])"

definition am_append :: "nat \<Rightarrow> 'v \<Rightarrow> 'v arena_map \<Rightarrow> 'v arena_map option" where
  "am_append key v m = (if key < length m then Some (m[key := Some v]) else None)"

definition am_push :: "'v \<Rightarrow> 'v arena_map \<Rightarrow> (nat \<times> 'v arena_map) option" where
  "am_push v m =
     (let (key, m) = am_alloc_key m in
      do { m \<leftarrow> am_append key v m; Some (key, m) })"

text \<open>\<open>get_mut\<close> followed by an update of the value.\<close>

definition am_update :: "nat \<Rightarrow> ('v \<Rightarrow> 'v) \<Rightarrow> 'v arena_map \<Rightarrow> 'v arena_map option" where
  "am_update key f m = do { v \<leftarrow> am_get m key; Some (m[key := Some (f v)]) }"

definition am_take :: "nat \<Rightarrow> 'v arena_map \<Rightarrow> ('v option \<times> 'v arena_map) option" where
  "am_take key m = (if key < length m then Some (m ! key, m[key := None]) else None)"

definition am_remove :: "nat \<Rightarrow> 'v arena_map \<Rightarrow> 'v arena_map option" where
  "am_remove key m = (if key < length m then Some (m[key := None]) else None)"

fun am_clone_from :: "'v arena_map \<Rightarrow> 'v arena_map \<Rightarrow> 'v arena_map option" where
  "am_clone_from [] cloned = Some cloned"
| "am_clone_from (None # keys) cloned = am_clone_from keys (cloned @ [None])"
| "am_clone_from (Some v # keys) cloned =
     do { (_, cloned) \<leftarrow> am_push v cloned; am_clone_from keys cloned }"

definition am_clone :: "'v arena_map \<Rightarrow> 'v arena_map option" where
  "am_clone m = am_clone_from m am_new"

lemma am_push_eq [simp]: "am_push v m = Some (length m, m @ [Some v])"
  by (simp add: am_push_def am_alloc_key_def am_append_def list_update_append)

lemma am_get_push: "am_get (m @ [x]) k = (if k = length m then x else am_get m k)"
  by (auto simp: am_get_def nth_append)

lemma am_get_update [simp]:
  "k < length m \<Longrightarrow> am_get (m[k := x]) j = (if j = k then x else am_get m j)"
  by (simp add: am_get_def)

lemma am_get_SomeD: "am_get m k = Some v \<Longrightarrow> k < length m"
  by (auto simp: am_get_def split: if_splits)

lemma am_clone_from_eq: "am_clone_from keys cloned = Some (cloned @ keys)"
  by (induction keys cloned rule: am_clone_from.induct) auto

lemma am_clone_eq [simp]: "am_clone m = Some m"
  by (simp add: am_clone_def am_new_def am_clone_from_eq)

section \<open>\<open>OrderedArenaMap\<close>\<close>

record 'v ordered_map =
  om_list :: "nat list"
  om_map :: "'v arena_map"

definition om_new :: "'v ordered_map" where
  "om_new = \<lparr>om_list = [], om_map = am_new\<rparr>"

definition om_is_empty :: "'v ordered_map \<Rightarrow> bool" where
  "om_is_empty m = am_is_empty (om_map m)"

definition om_len :: "'v ordered_map \<Rightarrow> nat" where
  "om_len m = am_len (om_map m)"

definition om_contains :: "'v ordered_map \<Rightarrow> nat \<Rightarrow> bool" where
  "om_contains m key = am_contains (om_map m) key"

definition om_get :: "'v ordered_map \<Rightarrow> nat \<Rightarrow> 'v option" where
  "om_get m key = am_get (om_map m) key"

definition om_update :: "nat \<Rightarrow> ('v \<Rightarrow> 'v) \<Rightarrow> 'v ordered_map \<Rightarrow> 'v ordered_map option" where
  "om_update key f m = do { a \<leftarrow> am_update key f (om_map m); Some (m\<lparr>om_map := a\<rparr>) }"

definition om_create :: "'v ordered_map \<Rightarrow> nat \<times> 'v ordered_map" where
  "om_create m = (let (key, a) = am_alloc_key (om_map m) in (key, m\<lparr>om_map := a\<rparr>))"

definition om_alloc_node :: "nat \<Rightarrow> 'v \<Rightarrow> 'v ordered_map \<Rightarrow> 'v ordered_map option" where
  "om_alloc_node key v m = do { a \<leftarrow> am_append key v (om_map m); Some (m\<lparr>om_map := a\<rparr>) }"

definition om_append :: "nat \<Rightarrow> 'v \<Rightarrow> 'v ordered_map \<Rightarrow> 'v ordered_map option" where
  "om_append key v m = do {
     assert_that (\<not> om_contains m key);
     m \<leftarrow> om_alloc_node key v m;
     Some (m\<lparr>om_list := om_list m @ [key]\<rparr>) }"

text \<open>Insertion at the cursor on \<open>key\<close>: the node must be in the list.\<close>

fun insert_before_key :: "'a \<Rightarrow> 'a \<Rightarrow> 'a list \<Rightarrow> 'a list option" where
  "insert_before_key k before [] = None"
| "insert_before_key k before (x # xs) =
     (if x = before then Some (k # x # xs)
      else do { ys \<leftarrow> insert_before_key k before xs; Some (x # ys) })"

fun insert_after_key :: "'a \<Rightarrow> 'a \<Rightarrow> 'a list \<Rightarrow> 'a list option" where
  "insert_after_key k after [] = None"
| "insert_after_key k after (x # xs) =
     (if x = after then Some (x # k # xs)
      else do { ys \<leftarrow> insert_after_key k after xs; Some (x # ys) })"

definition om_insert_before :: "nat \<Rightarrow> nat \<Rightarrow> 'v \<Rightarrow> 'v ordered_map \<Rightarrow> 'v ordered_map option" where
  "om_insert_before key before v m = do {
     assert_that (om_get m key = None);
     m \<leftarrow> om_alloc_node key v m;
     ks \<leftarrow> insert_before_key key before (om_list m);
     Some (m\<lparr>om_list := ks\<rparr>) }"

definition om_insert_after :: "nat \<Rightarrow> nat \<Rightarrow> 'v \<Rightarrow> 'v ordered_map \<Rightarrow> 'v ordered_map option" where
  "om_insert_after key after v m = do {
     assert_that (om_get m key = None);
     m \<leftarrow> om_alloc_node key v m;
     ks \<leftarrow> insert_after_key key after (om_list m);
     Some (m\<lparr>om_list := ks\<rparr>) }"

definition om_push :: "'v \<Rightarrow> 'v ordered_map \<Rightarrow> (nat \<times> 'v ordered_map) option" where
  "om_push v m =
     (let (key, m) = om_create m in
      do { m \<leftarrow> om_append key v m; Some (key, m) })"

definition om_push_after :: "nat \<Rightarrow> 'v \<Rightarrow> 'v ordered_map \<Rightarrow> (nat \<times> 'v ordered_map) option" where
  "om_push_after after v m =
     (let (key, m) = om_create m in
      do { m \<leftarrow> om_insert_after key after v m; Some (key, m) })"

definition om_remove :: "nat \<Rightarrow> 'v ordered_map \<Rightarrow> 'v ordered_map option" where
  "om_remove key m =
     (case am_get (om_map m) key of
        None \<Rightarrow> Some m
      | Some _ \<Rightarrow>
          if key \<in> set (om_list m) then Some (m\<lparr>om_list := remove1 key (om_list m)\<rparr>) else None)"

definition om_first :: "'v ordered_map \<Rightarrow> nat option" where
  "om_first m = (case om_list m of [] \<Rightarrow> None | k # _ \<Rightarrow> Some k)"

definition om_last :: "'v ordered_map \<Rightarrow> nat option" where
  "om_last m = (if om_list m = [] then None else Some (last (om_list m)))"

definition om_keys :: "'v ordered_map \<Rightarrow> nat list" where
  "om_keys m = om_list m"

definition om_iter :: "'v ordered_map \<Rightarrow> (nat \<times> 'v) list" where
  "om_iter m = List.map_filter (\<lambda>k. map_option (Pair k) (am_get (om_map m) k)) (om_list m)"

fun om_clone_from :: "'v arena_map \<Rightarrow> 'v ordered_map \<Rightarrow> 'v ordered_map option" where
  "om_clone_from [] cloned = Some cloned"
| "om_clone_from (None # keys) cloned =
     om_clone_from keys (cloned\<lparr>om_map := snd (am_alloc_key (om_map cloned))\<rparr>)"
| "om_clone_from (Some v # keys) cloned =
     do { (_, cloned) \<leftarrow> om_push v cloned; om_clone_from keys cloned }"

definition om_clone :: "'v ordered_map \<Rightarrow> 'v ordered_map option" where
  "om_clone m = om_clone_from (om_map m) om_new"

section \<open>The linked list and the map\<close>

text \<open>
  The invariant: every linked key has a value and is linked once.  It is what the cursors rely
  on, and every operation keeps it.
\<close>

definition om_wf :: "'v ordered_map \<Rightarrow> bool" where
  "om_wf m = (distinct (om_list m) \<and> (\<forall>k \<in> set (om_list m). am_contains (om_map m) k))"

lemma om_wf_new: "om_wf om_new"
  by (simp add: om_wf_def om_new_def)

lemma insert_before_key_split:
  "before \<in> set xs \<Longrightarrow>
   \<exists>us vs. xs = us @ before # vs \<and> before \<notin> set us \<and>
     insert_before_key k before xs = Some (us @ k # before # vs)"
proof (induction xs)
  case (Cons x xs)
  show ?case
  proof (cases "x = before")
    case True
    then show ?thesis by (intro exI [of _ "[]"] exI [of _ xs]) simp
  next
    case False
    with Cons obtain us vs where "xs = us @ before # vs" "before \<notin> set us"
      "insert_before_key k before xs = Some (us @ k # before # vs)" by auto
    with False show ?thesis by (intro exI [of _ "x # us"] exI [of _ vs]) simp
  qed
qed simp

lemma insert_after_key_split:
  "after \<in> set xs \<Longrightarrow>
   \<exists>us vs. xs = us @ after # vs \<and> after \<notin> set us \<and>
     insert_after_key k after xs = Some (us @ after # k # vs)"
proof (induction xs)
  case (Cons x xs)
  show ?case
  proof (cases "x = after")
    case True
    then show ?thesis by (intro exI [of _ "[]"] exI [of _ xs]) simp
  next
    case False
    with Cons obtain us vs where "xs = us @ after # vs" "after \<notin> set us"
      "insert_after_key k after xs = Some (us @ after # k # vs)" by auto
    with False show ?thesis by (intro exI [of _ "x # us"] exI [of _ vs]) simp
  qed
qed simp

lemma insert_before_key_None: "before \<notin> set xs \<Longrightarrow> insert_before_key k before xs = None"
  by (induction xs) auto

lemma insert_after_key_None: "after \<notin> set xs \<Longrightarrow> insert_after_key k after xs = None"
  by (induction xs) auto

lemma insert_before_keyD:
  assumes "insert_before_key k before xs = Some ys"
  shows "\<exists>us vs. xs = us @ before # vs \<and> ys = us @ k # before # vs"
  using assms insert_before_key_split [of before xs k] insert_before_key_None [of before xs k]
  by (cases "before \<in> set xs") auto

lemma insert_after_keyD:
  assumes "insert_after_key k after xs = Some ys"
  shows "\<exists>us vs. xs = us @ after # vs \<and> ys = us @ after # k # vs"
  using assms insert_after_key_split [of after xs k] insert_after_key_None [of after xs k]
  by (cases "after \<in> set xs") auto

lemma om_create_eq [simp]: "om_create m = (length (om_map m), m\<lparr>om_map := om_map m @ [None]\<rparr>)"
  by (simp add: om_create_def am_alloc_key_def)

lemma om_contains_iff: "om_contains m k \<longleftrightarrow> (\<exists>v. am_get (om_map m) k = Some v)"
  by (auto simp: om_contains_def am_contains_def)

lemma om_append_eq:
  assumes "k < length (om_map m)" "\<not> om_contains m k"
  shows "om_append k v m =
    Some (m\<lparr>om_map := (om_map m)[k := Some v], om_list := om_list m @ [k]\<rparr>)"
  using assms by (simp add: om_append_def om_alloc_node_def am_append_def)

lemma om_push_eq [simp]:
  "om_push v m = Some (length (om_map m),
     \<lparr>om_list = om_list m @ [length (om_map m)], om_map = om_map m @ [Some v], \<dots> = ordered_map.more m\<rparr>)"
proof -
  have "\<not> om_contains (m\<lparr>om_map := om_map m @ [None]\<rparr>) (length (om_map m))"
    by (simp add: om_contains_iff am_get_push)
  then show ?thesis
    by (simp add: om_push_def om_append_eq list_update_append)
qed

lemma om_wf_linked: "om_wf m \<Longrightarrow> k \<in> set (om_list m) \<Longrightarrow> \<exists>v. am_get (om_map m) k = Some v"
  by (auto simp: om_wf_def am_contains_def)

lemma om_wf_create: "om_wf m \<Longrightarrow> om_wf (snd (om_create m))"
  by (auto simp: om_wf_def am_contains_def am_get_push dest: am_get_SomeD)

lemma om_wf_fresh: "om_wf m \<Longrightarrow> am_get (om_map m) k = None \<Longrightarrow> k \<notin> set (om_list m)"
  by (auto simp: om_wf_def am_contains_def)

lemma om_wf_link:
  assumes "om_wf m" "am_get (om_map m) k = None" "k < length (om_map m)"
    and "distinct ks" "set ks = insert k (set (om_list m))"
  shows "om_wf (m\<lparr>om_map := (om_map m)[k := Some v], om_list := ks\<rparr>)"
  using assms by (auto simp: om_wf_def am_contains_def)

lemma om_wf_append:
  assumes "om_append k v m = Some m'" "om_wf m"
  shows "om_wf m'"
proof -
  from assms(1) have free: "am_get (om_map m) k = None" "k < length (om_map m)"
    and m': "m' = m\<lparr>om_map := (om_map m)[k := Some v], om_list := om_list m @ [k]\<rparr>"
    by (auto simp: om_append_def om_alloc_node_def am_append_def am_contains_def om_contains_def
        split: if_splits)
  with om_wf_fresh [OF assms(2)] show ?thesis
    using assms(2) unfolding m' by (intro om_wf_link) (auto simp: om_wf_def)
qed

lemma om_wf_insert_after:
  assumes "om_insert_after k a v m = Some m'" "om_wf m"
  shows "om_wf m'"
proof -
  from assms(1) obtain ks where free: "am_get (om_map m) k = None" "k < length (om_map m)"
    and ks: "insert_after_key k a (om_list m) = Some ks"
    and m': "m' = m\<lparr>om_map := (om_map m)[k := Some v], om_list := ks\<rparr>"
    by (auto simp: om_insert_after_def om_alloc_node_def am_append_def om_get_def split: if_splits)
  from insert_after_keyD [OF ks] obtain us vs
    where "om_list m = us @ a # vs" "ks = us @ a # k # vs" by blast
  with om_wf_fresh [OF assms(2) free(1)] show ?thesis
    using assms(2) free unfolding m' by (intro om_wf_link) (auto simp: om_wf_def)
qed

lemma om_wf_insert_before:
  assumes "om_insert_before k a v m = Some m'" "om_wf m"
  shows "om_wf m'"
proof -
  from assms(1) obtain ks where free: "am_get (om_map m) k = None" "k < length (om_map m)"
    and ks: "insert_before_key k a (om_list m) = Some ks"
    and m': "m' = m\<lparr>om_map := (om_map m)[k := Some v], om_list := ks\<rparr>"
    by (auto simp: om_insert_before_def om_alloc_node_def am_append_def om_get_def split: if_splits)
  from insert_before_keyD [OF ks] obtain us vs
    where "om_list m = us @ a # vs" "ks = us @ k # a # vs" by blast
  with om_wf_fresh [OF assms(2) free(1)] show ?thesis
    using assms(2) free unfolding m' by (intro om_wf_link) (auto simp: om_wf_def)
qed

lemma om_wf_remove: "om_remove k m = Some m' \<Longrightarrow> om_wf m \<Longrightarrow> om_wf m'"
  by (auto simp: om_remove_def om_wf_def dest: notin_set_remove1 in_set_remove1
      split: option.splits if_splits)

lemma om_wf_update: "om_update k f m = Some m' \<Longrightarrow> om_wf m \<Longrightarrow> om_wf m'"
  by (auto simp: om_update_def am_update_def om_wf_def am_contains_def dest: am_get_SomeD)

text \<open>A removed key is no longer linked, but \<open>contains\<close>, \<open>len\<close> and \<open>get\<close> still see it.\<close>

lemma om_remove_keeps_the_value:
  assumes "om_wf m" "om_remove k m = Some m'"
  shows "k \<notin> set (om_list m') \<or> \<not> om_contains m k"
    and "om_contains m' j \<longleftrightarrow> om_contains m j" "om_get m' j = om_get m j" "om_len m' = om_len m"
  using assms by (auto simp: om_remove_def om_wf_def om_contains_def am_contains_def om_get_def
      om_len_def split: option.splits if_splits)

lemma om_clone_from_eq:
  "om_clone_from keys cloned = Some (cloned\<lparr>om_list := om_list cloned @
      filter (\<lambda>k. \<exists>v. am_get (om_map cloned @ keys) k = Some v)
        [length (om_map cloned) ..< length (om_map cloned) + length keys],
      om_map := om_map cloned @ keys\<rparr>)"
proof (induction keys cloned rule: om_clone_from.induct)
  case (2 keys cloned)
  have "am_get (om_map cloned @ None # keys) (length (om_map cloned)) = None"
    by (simp add: am_get_def)
  moreover have "[length (om_map cloned) ..< length (om_map cloned) + length (None # keys)] =
      length (om_map cloned) # [Suc (length (om_map cloned)) ..< Suc (length (om_map cloned)) + length keys]"
    by (simp add: upt_rec)
  ultimately show ?case
    using 2 by (simp add: am_alloc_key_def)
next
  case (3 v keys cloned)
  have "am_get (om_map cloned @ Some v # keys) (length (om_map cloned)) = Some v"
    by (simp add: am_get_def)
  moreover have "[length (om_map cloned) ..< length (om_map cloned) + length (Some v # keys)] =
      length (om_map cloned) # [Suc (length (om_map cloned)) ..< Suc (length (om_map cloned)) + length keys]"
    by (simp add: upt_rec)
  ultimately show ?case
    using 3 by simp
qed simp

lemma om_clone_order:
  "om_clone m = Some \<lparr>om_list = filter (om_contains m) [0 ..< length (om_map m)], om_map = om_map m\<rparr>"
  by (simp add: om_clone_def om_clone_from_eq om_new_def am_new_def om_contains_iff [abs_def])

end
