(* ===== verification/HirFunc.thy ===== *)
theory HirFunc
  imports Arena Immediates Masm
begin

text \<open>
  Functions of the IR in SSA form: the instructions (hir/src/instruction.rs), values, blocks
  and the data flow graph with its operations (hir/src/value.rs, block.rs, dataflow.rs,
  insert.rs, function.rs).

  Blocks, instructions, values and global values are the numbers of their entities.  A
  \<open>ValueList\<close> is the list it denotes in the pool; the intrusive list of a block's instructions
  is the list of their keys, and an instruction is linked when it occurs in the list of a block
  of the arena.  Source spans are not modelled.  A panic is \<open>None\<close>; debug assertions are
  checked.
\<close>

section \<open>Instructions\<close>

type_synonym block = nat
type_synonym inst = nat
type_synonym val = nat
type_synonym global_value = nat

datatype (plugins only: size) opcode =
    OcAssert | OcAssertz | OcAssertEq | OcImmI1 | OcImmU8 | OcImmI8 | OcImmU16 | OcImmI16 |
    OcImmU32 | OcImmI32 | OcImmU64 | OcImmI64 | OcImmFelt | OcImmF64 | OcAlloca | OcMemGrow |
    OcGlobalValue | OcLoad | OcStore | OcMemCpy | OcPtrToInt | OcIntToPtr | OcCast | OcTrunc |
    OcZext | OcSext | OcTest | OcSelect | OcAdd | OcSub | OcMul | OcDiv | OcMod | OcDivMod |
    OcNeg | OcInv | OcIncr | OcPow2 | OcExp | OcNot | OcBnot | OcAnd | OcBand | OcOr | OcBor |
    OcXor | OcBxor | OcShl | OcShr | OcRotl | OcRotr | OcPopcnt | OcEq | OcNeq | OcGt | OcGte |
    OcLt | OcLte | OcIsOdd | OcMin | OcMax | OcCall | OcSyscall | OcBr | OcCondBr | OcSwitch |
    OcRet | OcUnreachable | OcInlineAsm

record inline_asm =
  ia_op :: opcode
  ia_args :: "val list"
  ia_results :: "hir_type list"
  ia_body :: block_id

datatype (plugins only: size) 'f instruction =
    IGlobalValue opcode global_value
  | IBinaryOp opcode overflow val val
  | IBinaryOpImm opcode overflow val "'f immediate"
  | IUnaryOp opcode overflow val
  | IUnaryOpImm opcode overflow "'f immediate"
  | ICall opcode function_ident "val list"
  | IBr opcode block "val list"
  | ICondBr opcode val "block \<times> val list" "block \<times> val list"
  | ISwitch opcode val "(nat \<times> block) list" block
  | IRet opcode "val list"
  | IRetImm opcode "'f immediate"
  | ILoad opcode val hir_type
  | IPrimOp opcode "val list"
  | IPrimOpImm opcode "'f immediate" "val list"
  | ITest opcode val hir_type
  | IInlineAsm inline_asm "'f masm_op list list"

text \<open>
  An inline assembly block is given by its arguments, results and body, and the list of its
  code blocks by number.
\<close>

definition new_inline_asm :: "hir_type list \<Rightarrow> inline_asm \<times> 'f masm_op list list" where
  "new_inline_asm results =
     (\<lparr>ia_op = OcInlineAsm, ia_args = [], ia_results = results, ia_body = 0\<rparr>, [[]])"

definition asm_create_block :: "'f masm_op list list \<Rightarrow> block_id \<times> 'f masm_op list list" where
  "asm_create_block blocks = (length blocks, blocks @ [[]])"

definition asm_push ::
  "block_id \<Rightarrow> 'f masm_op \<Rightarrow> 'f masm_op list list \<Rightarrow> 'f masm_op list list option" where
  "asm_push b op blocks =
     (if b < length blocks then Some (blocks[b := blocks ! b @ [op]]) else None)"

primrec inst_opcode :: "'f instruction \<Rightarrow> opcode" where
  "inst_opcode (IGlobalValue op _) = op"
| "inst_opcode (IBinaryOp op _ _ _) = op"
| "inst_opcode (IBinaryOpImm op _ _ _) = op"
| "inst_opcode (IUnaryOp op _ _) = op"
| "inst_opcode (IUnaryOpImm op _ _) = op"
| "inst_opcode (ICall op _ _) = op"
| "inst_opcode (IBr op _ _) = op"
| "inst_opcode (ICondBr op _ _ _) = op"
| "inst_opcode (ISwitch op _ _ _) = op"
| "inst_opcode (IRet op _) = op"
| "inst_opcode (IRetImm op _) = op"
| "inst_opcode (ILoad op _ _) = op"
| "inst_opcode (IPrimOp op _) = op"
| "inst_opcode (IPrimOpImm op _ _) = op"
| "inst_opcode (ITest op _ _) = op"
| "inst_opcode (IInlineAsm asm _) = ia_op asm"

definition is_terminator :: "opcode \<Rightarrow> bool" where
  "is_terminator op = (op \<in> {OcBr, OcCondBr, OcSwitch, OcRet, OcUnreachable})"

definition is_branch :: "opcode \<Rightarrow> bool" where
  "is_branch op = (op \<in> {OcBr, OcCondBr, OcSwitch})"

definition is_call :: "opcode \<Rightarrow> bool" where
  "is_call op = (op \<in> {OcCall, OcSyscall})"

definition is_commutative :: "opcode \<Rightarrow> bool" where
  "is_commutative op = (op \<in>
     {OcAdd, OcMul, OcMin, OcMax, OcEq, OcNeq, OcAnd, OcBand, OcOr, OcBor, OcXor, OcBxor})"

definition has_side_effects :: "opcode \<Rightarrow> bool" where
  "has_side_effects op = (op \<in>
     {OcAssert, OcAssertz, OcAssertEq, OcStore, OcAlloca, OcMemCpy, OcMemGrow, OcCall, OcSyscall,
     OcBr, OcCondBr, OcSwitch, OcRet, OcUnreachable, OcInlineAsm})"

definition num_fixed_args :: "opcode \<Rightarrow> nat" where
  "num_fixed_args op =
    (if op \<in> {OcAssert, OcAssertz} then 1
     else if op = OcAssertEq then 2
     else if op \<in>
     {OcImmI1, OcImmU8, OcImmI8, OcImmU16, OcImmI16, OcImmU32, OcImmI32, OcImmU64, OcImmI64,
     OcImmFelt, OcImmF64} then 0
     else if op \<in>
     {OcStore, OcAdd, OcSub, OcMul, OcDiv, OcMod, OcDivMod, OcExp, OcAnd, OcBand, OcOr, OcBor,
     OcXor, OcBxor, OcShl, OcShr, OcRotl, OcRotr, OcEq, OcNeq, OcGt, OcGte, OcLt, OcLte, OcMin,
     OcMax} then 2
     else if op \<in>
     {OcMemGrow, OcLoad, OcPtrToInt, OcIntToPtr, OcCast, OcTrunc, OcZext, OcSext, OcTest, OcNeg,
     OcInv, OcIncr, OcPow2, OcPopcnt, OcNot, OcBnot, OcIsOdd} then 1
     else if op = OcSelect then 3
     else if op = OcMemCpy then 3
     else if op \<in> {OcCall, OcSyscall} then 0
     else if op = OcBr then 0
     else if op = OcCondBr then 1
     else if op = OcSwitch then 1
     else if op = OcRet then 1
     else 0)"

text \<open>The result types; calls and inline assembly are handled by the caller.\<close>

definition op_results :: "opcode \<Rightarrow> hir_type \<Rightarrow> hir_type list option" where
  "op_results op ctrl_ty =
    (if op \<in>
     {OcAssert, OcAssertz, OcAssertEq, OcStore, OcMemGrow, OcMemCpy, OcBr, OcCondBr, OcSwitch,
     OcRet, OcUnreachable} then Some []
     else if op \<in>
     {OcTest, OcIsOdd, OcNot, OcAnd, OcOr, OcXor, OcEq, OcNeq, OcGt, OcGte, OcLt, OcLte} then Some [TyI1]
     else if op = OcLoad then map_option (\<lambda>t. [t]) (pointee ctrl_ty)
     else if op \<in> {OcCall, OcSyscall, OcInlineAsm} then None
     else Some [ctrl_ty])"

primrec is_binary :: "'f instruction \<Rightarrow> bool" where
  "is_binary (IGlobalValue _ _) = False"
| "is_binary (IBinaryOp _ _ _ _) = True"
| "is_binary (IBinaryOpImm _ _ _ _) = False"
| "is_binary (IUnaryOp _ _ _) = False"
| "is_binary (IUnaryOpImm _ _ _) = False"
| "is_binary (ICall _ _ _) = False"
| "is_binary (IBr _ _ _) = False"
| "is_binary (ICondBr _ _ _ _) = False"
| "is_binary (ISwitch _ _ _ _) = False"
| "is_binary (IRet _ _) = False"
| "is_binary (IRetImm _ _) = False"
| "is_binary (ILoad _ _ _) = False"
| "is_binary (IPrimOp _ _) = False"
| "is_binary (IPrimOpImm _ _ _) = False"
| "is_binary (ITest _ _ _) = False"
| "is_binary (IInlineAsm _ _) = False"

primrec arguments :: "'f instruction \<Rightarrow> val list" where
  "arguments (IGlobalValue _ _) = []"
| "arguments (IBinaryOp _ _ a b) = [a, b]"
| "arguments (IBinaryOpImm _ _ a _) = [a]"
| "arguments (IUnaryOp _ _ a) = [a]"
| "arguments (IUnaryOpImm _ _ _) = []"
| "arguments (ICall _ _ args) = args"
| "arguments (IBr _ _ _) = []"
| "arguments (ICondBr _ c _ _) = [c]"
| "arguments (ISwitch _ a _ _) = [a]"
| "arguments (IRet _ args) = args"
| "arguments (IRetImm _ _) = []"
| "arguments (ILoad _ a _) = [a]"
| "arguments (IPrimOp _ args) = args"
| "arguments (IPrimOpImm _ _ args) = args"
| "arguments (ITest _ a _) = [a]"
| "arguments (IInlineAsm asm _) = ia_args asm"

text \<open>\<open>arguments_mut\<close>: an update of every argument in place.\<close>

primrec map_arguments :: "(val \<Rightarrow> val) \<Rightarrow> 'f instruction \<Rightarrow> 'f instruction" where
  "map_arguments f (IGlobalValue op g) = IGlobalValue op g"
| "map_arguments f (IBinaryOp op ov a b) = IBinaryOp op ov (f a) (f b)"
| "map_arguments f (IBinaryOpImm op ov a i) = IBinaryOpImm op ov (f a) i"
| "map_arguments f (IUnaryOp op ov a) = IUnaryOp op ov (f a)"
| "map_arguments f (IUnaryOpImm op ov i) = IUnaryOpImm op ov i"
| "map_arguments f (ICall op c args) = ICall op c (map f args)"
| "map_arguments f (IBr op b args) = IBr op b args"
| "map_arguments f (ICondBr op c t e) = ICondBr op (f c) t e"
| "map_arguments f (ISwitch op a arms d) = ISwitch op (f a) arms d"
| "map_arguments f (IRet op args) = IRet op (map f args)"
| "map_arguments f (IRetImm op i) = IRetImm op i"
| "map_arguments f (ILoad op a t) = ILoad op (f a) t"
| "map_arguments f (IPrimOp op args) = IPrimOp op (map f args)"
| "map_arguments f (IPrimOpImm op i args) = IPrimOpImm op i (map f args)"
| "map_arguments f (ITest op a t) = ITest op (f a) t"
| "map_arguments f (IInlineAsm asm bs) = IInlineAsm (asm\<lparr>ia_args := map f (ia_args asm)\<rparr>) bs"

text \<open>\<open>JumpTable\<close> is the pair of a destination and its arguments.\<close>

datatype (plugins only: size) branch_info =
    NotABranch
  | SingleDest block "val list"
  | MultiDest "(block \<times> val list) list"

primrec analyze_branch :: "'f instruction \<Rightarrow> branch_info" where
  "analyze_branch (IGlobalValue _ _) = NotABranch"
| "analyze_branch (IBinaryOp _ _ _ _) = NotABranch"
| "analyze_branch (IBinaryOpImm _ _ _ _) = NotABranch"
| "analyze_branch (IUnaryOp _ _ _) = NotABranch"
| "analyze_branch (IUnaryOpImm _ _ _) = NotABranch"
| "analyze_branch (ICall _ _ _) = NotABranch"
| "analyze_branch (IBr _ b args) = SingleDest b args"
| "analyze_branch (ICondBr _ _ t e) = MultiDest [t, e]"
| "analyze_branch (ISwitch _ _ arms d) = MultiDest (map (\<lambda>(_, b). (b, [])) arms @ [(d, [])])"
| "analyze_branch (IRet _ _) = NotABranch"
| "analyze_branch (IRetImm _ _) = NotABranch"
| "analyze_branch (ILoad _ _ _) = NotABranch"
| "analyze_branch (IPrimOp _ _) = NotABranch"
| "analyze_branch (IPrimOpImm _ _ _) = NotABranch"
| "analyze_branch (ITest _ _ _) = NotABranch"
| "analyze_branch (IInlineAsm _ _) = NotABranch"

datatype (plugins only: size) call_info = NotACall | DirectCall function_ident "val list"

definition analyze_call :: "'f instruction \<Rightarrow> call_info" where
  "analyze_call i = (case i of ICall _ callee args \<Rightarrow> DirectCall callee args | _ \<Rightarrow> NotACall)"

definition is_unchecked :: "overflow \<Rightarrow> bool" where "is_unchecked ov = (ov = Unchecked)"
definition is_checked :: "overflow \<Rightarrow> bool" where "is_checked ov = (ov = Checked)"
definition is_overflowing :: "overflow \<Rightarrow> bool" where "is_overflowing ov = (ov = Overflowing)"

section \<open>Values, blocks and the data flow graph\<close>

datatype (plugins only: size) value_data =
    VInst (vd_ty: hir_type) (vd_num: nat) (vd_inst: inst)
  | VParam (vd_ty: hir_type) (vd_num: nat) (vd_block: block)

primrec set_block :: "block \<Rightarrow> value_data \<Rightarrow> value_data option" where
  "set_block b (VParam ty num orig) = Some (VParam ty num b)"
| "set_block b (VInst ty num i) = None"

primrec set_type :: "hir_type \<Rightarrow> value_data \<Rightarrow> value_data" where
  "set_type ty (VInst prev num i) = VInst ty num i"
| "set_type ty (VParam prev num b) = VParam ty num b"

primrec unwrap_inst :: "value_data \<Rightarrow> inst option" where
  "unwrap_inst (VInst ty num i) = Some i"
| "unwrap_inst (VParam ty num b) = None"

record 'f inst_node =
  in_key :: inst
  in_block :: block
  in_data :: "'f instruction"

definition in_replace :: "'f instruction \<Rightarrow> 'f inst_node \<Rightarrow> 'f inst_node" where
  "in_replace data n = n\<lparr>in_data := data\<rparr>"

record block_data =
  bd_id :: block
  bd_params :: "val list"
  bd_insts :: "inst list"

definition new_block_data :: "block \<Rightarrow> block_data" where
  "new_block_data i = \<lparr>bd_id = i, bd_params = [], bd_insts = []\<rparr>"

definition bd_clone :: "block_data \<Rightarrow> block_data" where
  "bd_clone b = \<lparr>bd_id = bd_id b, bd_params = bd_params b, bd_insts = []\<rparr>"

definition bd_prepend :: "inst \<Rightarrow> block_data \<Rightarrow> block_data" where
  "bd_prepend i b = b\<lparr>bd_insts := i # bd_insts b\<rparr>"

definition bd_append :: "inst \<Rightarrow> block_data \<Rightarrow> block_data" where
  "bd_append i b = b\<lparr>bd_insts := bd_insts b @ [i]\<rparr>"

definition bd_first :: "block_data \<Rightarrow> inst option" where
  "bd_first b = (case bd_insts b of [] \<Rightarrow> None | i # _ \<Rightarrow> Some i)"

definition bd_last :: "block_data \<Rightarrow> inst option" where
  "bd_last b = (if bd_insts b = [] then None else Some (last (bd_insts b)))"

definition bd_is_empty :: "block_data \<Rightarrow> bool" where
  "bd_is_empty b = (bd_insts b = [])"

datatype (plugins only: size) global_value_data =
    GvSymbol ident int
  | GvLoad global_value int hir_type
  | GvIAddImm global_value int hir_type

definition gv_is_constant_addr :: "global_value_data \<Rightarrow> bool" where
  "gv_is_constant_addr g = (case g of GvLoad _ _ _ \<Rightarrow> False | _ \<Rightarrow> True)"

definition gv_ty :: "global_value_data \<Rightarrow> hir_type option" where
  "gv_ty g = (case g of GvSymbol _ _ \<Rightarrow> None | GvLoad _ _ ty \<Rightarrow> Some ty | GvIAddImm _ _ ty \<Rightarrow> Some ty)"

text \<open>
  The computed offset: \<open>i32 as usize\<close> sign-extends, the product is checked in \<open>usize\<close>, and the
  result must fit \<open>i32\<close>.
\<close>

definition gv_offset :: "global_value_data \<Rightarrow> int option" where
  "gv_offset g =
     (case g of
        GvSymbol _ off \<Rightarrow> Some off
      | GvLoad _ off _ \<Rightarrow> Some off
      | GvIAddImm _ off ty \<Rightarrow> do {
          sz \<leftarrow> size_in_bytes ty;
          let p = (off mod 2 ^ 64) * int sz;
          assert_that (p < 2 ^ 64);
          assert_that (p < 2 ^ 31);
          Some p })"

record 'f dfg =
  dfg_entry :: block
  dfg_blocks :: "block_data ordered_map"
  dfg_insts :: "'f inst_node arena_map"
  dfg_results :: "inst \<Rightarrow> val list"
  dfg_values :: "value_data list"
  dfg_imports :: "function_ident \<rightharpoonup> external_function"
  dfg_globals :: "global_value_data list"

datatype program_point = PpInst inst | PpBlock block

primrec pp_unwrap_inst :: "program_point \<Rightarrow> inst option" where
  "pp_unwrap_inst (PpInst i) = Some i"
| "pp_unwrap_inst (PpBlock b) = None"

datatype insert = InsertBefore | InsertAfter
record insertion_point =
  ip_at :: program_point
  ip_action :: insert

definition ip_before :: "program_point \<Rightarrow> insertion_point" where
  "ip_before a = \<lparr>ip_at = a, ip_action = InsertBefore\<rparr>"

definition ip_after :: "program_point \<Rightarrow> insertion_point" where
  "ip_after a = \<lparr>ip_at = a, ip_action = InsertAfter\<rparr>"

text \<open>The default graph has an empty entry block.\<close>

definition default_dfg :: "'f dfg" where
  "default_dfg =
     \<lparr>dfg_entry = 0, dfg_blocks = \<lparr>om_list = [0], om_map = [Some (new_block_data 0)]\<rparr>,
      dfg_insts = [], dfg_results = (\<lambda>_. []), dfg_values = [], dfg_imports = Map.empty,
      dfg_globals = []\<rparr>"

subsection \<open>Access\<close>

definition get_import :: "'f dfg \<Rightarrow> function_ident \<Rightarrow> external_function option" where
  "get_import d f = dfg_imports d f"

definition get_import_by_name :: "'f dfg \<Rightarrow> ident \<Rightarrow> ident \<Rightarrow> external_function option" where
  "get_import_by_name d m n = dfg_imports d (FunctionIdent m n)"

text \<open>The equality of signatures counts the parameters and results and does not compare them.\<close>

definition signature_eq :: "signature \<Rightarrow> signature \<Rightarrow> bool" where
  "signature_eq a b =
     (sig_linkage a = sig_linkage b \<and> sig_cc a = sig_cc b \<and>
      length (sig_params a) = length (sig_params b) \<and> length (sig_results a) = length (sig_results b))"

text \<open>\<open>import_function\<close>: the error is the identifier of the conflicting import.\<close>

definition import_function ::
  "ident \<Rightarrow> ident \<Rightarrow> signature \<Rightarrow> 'f dfg \<Rightarrow> (function_ident + function_ident) \<times> 'f dfg" where
  "import_function m n sig d =
     (let f = FunctionIdent m n in
      case dfg_imports d f of
        None \<Rightarrow> (Inr f, d\<lparr>dfg_imports := (dfg_imports d)(f \<mapsto> \<lparr>ef_id = f, ef_signature = sig\<rparr>)\<rparr>)
      | Some ext \<Rightarrow> if \<not> signature_eq (ef_signature ext) sig then (Inl f, d) else (Inr f, d))"

definition create_global_value :: "global_value_data \<Rightarrow> 'f dfg \<Rightarrow> global_value \<times> 'f dfg" where
  "create_global_value g d = (length (dfg_globals d), d\<lparr>dfg_globals := dfg_globals d @ [g]\<rparr>)"

definition nth_opt :: "'a list \<Rightarrow> nat \<Rightarrow> 'a option" where
  "nth_opt xs k = (if k < length xs then Some (xs ! k) else None)"

definition global_value :: "'f dfg \<Rightarrow> global_value \<Rightarrow> global_value_data option" where
  "global_value d g = nth_opt (dfg_globals d) g"

text \<open>The recursion through the base may not end; then there is no value.\<close>

partial_function (option) is_global_addr :: "'f dfg \<Rightarrow> global_value \<Rightarrow> bool option" where
  "is_global_addr d g = do {
     data \<leftarrow> global_value d g;
     case data of
       GvSymbol _ _ \<Rightarrow> Some True
     | GvIAddImm _ _ _ \<Rightarrow> Some True
     | GvLoad base _ _ \<Rightarrow> is_global_addr d base }"

partial_function (option) global_type :: "'f dfg \<Rightarrow> global_value \<Rightarrow> hir_type option" where
  "global_type d g = do {
     data \<leftarrow> global_value d g;
     case data of
       GvSymbol _ _ \<Rightarrow> Some (TyPtr TyI8)
     | GvIAddImm base _ _ \<Rightarrow> global_type d base
     | GvLoad _ _ ty \<Rightarrow> Some ty }"

definition make_value :: "value_data \<Rightarrow> 'f dfg \<Rightarrow> val \<times> 'f dfg" where
  "make_value data d = (length (dfg_values d), d\<lparr>dfg_values := dfg_values d @ [data]\<rparr>)"

definition dfg_value_data :: "'f dfg \<Rightarrow> val \<Rightarrow> value_data option" where
  "dfg_value_data d v = nth_opt (dfg_values d) v"

definition value_type :: "'f dfg \<Rightarrow> val \<Rightarrow> hir_type option" where
  "value_type d v = map_option vd_ty (dfg_value_data d v)"

definition set_value_type :: "val \<Rightarrow> hir_type \<Rightarrow> 'f dfg \<Rightarrow> 'f dfg option" where
  "set_value_type v ty d = do {
     data \<leftarrow> dfg_value_data d v;
     Some (d\<lparr>dfg_values := (dfg_values d)[v := set_type ty data]\<rparr>) }"

definition dfg_inst_node :: "'f dfg \<Rightarrow> inst \<Rightarrow> 'f inst_node option" where
  "dfg_inst_node d i = am_get (dfg_insts d) i"

definition inst_data :: "'f dfg \<Rightarrow> inst \<Rightarrow> 'f instruction option" where
  "inst_data d i = map_option in_data (dfg_inst_node d i)"

definition set_inst_data :: "inst \<Rightarrow> 'f instruction \<Rightarrow> 'f dfg \<Rightarrow> 'f dfg option" where
  "set_inst_data i data d = do {
     m \<leftarrow> am_update i (in_replace data) (dfg_insts d);
     Some (d\<lparr>dfg_insts := m\<rparr>) }"

definition inst_args :: "'f dfg \<Rightarrow> inst \<Rightarrow> val list option" where
  "inst_args d i = map_option arguments (inst_data d i)"

definition inst_is_linked :: "'f dfg \<Rightarrow> inst \<Rightarrow> bool" where
  "inst_is_linked d i =
     list_ex (\<lambda>slot. case slot of None \<Rightarrow> False | Some b \<Rightarrow> i \<in> set (bd_insts b)) (om_map (dfg_blocks d))"

definition inst_block :: "'f dfg \<Rightarrow> inst \<Rightarrow> block option option" where
  "inst_block d i = do {
     n \<leftarrow> dfg_inst_node d i;
     Some (if inst_is_linked d i then Some (in_block n) else None) }"

definition inst_results :: "'f dfg \<Rightarrow> inst \<Rightarrow> val list" where
  "inst_results d i = dfg_results d i"

definition dfg_block :: "'f dfg \<Rightarrow> block \<Rightarrow> block_data option" where
  "dfg_block d b = om_get (dfg_blocks d) b"

definition update_block :: "block \<Rightarrow> (block_data \<Rightarrow> block_data) \<Rightarrow> 'f dfg \<Rightarrow> 'f dfg option" where
  "update_block b f d = do {
     m \<leftarrow> om_update b f (dfg_blocks d);
     Some (d\<lparr>dfg_blocks := m\<rparr>) }"

definition entry_block :: "'f dfg \<Rightarrow> block" where
  "entry_block d = dfg_entry d"

definition last_block :: "'f dfg \<Rightarrow> block option" where
  "last_block d = om_last (dfg_blocks d)"

definition num_blocks :: "'f dfg \<Rightarrow> nat" where
  "num_blocks d = length (om_keys (dfg_blocks d))"

definition block_keys :: "'f dfg \<Rightarrow> block list" where
  "block_keys d = om_keys (dfg_blocks d)"

definition block_insts :: "'f dfg \<Rightarrow> block \<Rightarrow> inst list option" where
  "block_insts d b = map_option bd_insts (dfg_block d b)"

definition block_params :: "'f dfg \<Rightarrow> block \<Rightarrow> val list option" where
  "block_params d b = map_option bd_params (dfg_block d b)"

definition num_block_params :: "'f dfg \<Rightarrow> block \<Rightarrow> nat option" where
  "num_block_params d b = map_option (length \<circ> bd_params) (dfg_block d b)"

definition last_inst :: "'f dfg \<Rightarrow> block \<Rightarrow> inst option option" where
  "last_inst d b = map_option bd_last (dfg_block d b)"

definition is_block_inserted :: "'f dfg \<Rightarrow> block \<Rightarrow> bool" where
  "is_block_inserted d b = om_contains (dfg_blocks d) b"

definition is_block_empty :: "'f dfg \<Rightarrow> block \<Rightarrow> bool option" where
  "is_block_empty d b = map_option bd_is_empty (dfg_block d b)"

definition is_block_terminated :: "'f dfg \<Rightarrow> block \<Rightarrow> bool option" where
  "is_block_terminated d b = do {
     l \<leftarrow> last_inst d b;
     case l of
       None \<Rightarrow> Some False
     | Some i \<Rightarrow> map_option (is_terminator \<circ> inst_opcode) (inst_data d i) }"

definition block_param :: "'f dfg \<Rightarrow> block \<Rightarrow> nat \<Rightarrow> value_data option" where
  "block_param d b k = do {
     ps \<leftarrow> block_params d b;
     v \<leftarrow> nth_opt ps k;
     dfg_value_data d v }"

definition block_param_types :: "'f dfg \<Rightarrow> block \<Rightarrow> hir_type list option" where
  "block_param_types d b = do {
     ps \<leftarrow> block_params d b;
     those (map (value_type d) ps) }"

text \<open>The signature of the callee; an import that is missing is a panic.\<close>

definition call_signature :: "'f dfg \<Rightarrow> inst \<Rightarrow> signature option option" where
  "call_signature d i = do {
     data \<leftarrow> inst_data d i;
     case analyze_call data of
       NotACall \<Rightarrow> Some None
     | DirectCall f _ \<Rightarrow> map_option (Some \<circ> ef_signature) (dfg_imports d f) }"

definition dfg_analyze_branch :: "'f dfg \<Rightarrow> inst \<Rightarrow> branch_info option" where
  "dfg_analyze_branch d i = map_option analyze_branch (inst_data d i)"

definition dfg_analyze_call :: "'f dfg \<Rightarrow> inst \<Rightarrow> call_info option" where
  "dfg_analyze_call d i = map_option analyze_call (inst_data d i)"

subsection \<open>Results\<close>

definition append_result :: "inst \<Rightarrow> hir_type \<Rightarrow> 'f dfg \<Rightarrow> (val \<times> 'f dfg) option" where
  "append_result i ty d =
     (let res = length (dfg_values d); num = length (dfg_results d i) in
      if num \<le> 65535 then
        Some (make_value (VInst ty num i) (d\<lparr>dfg_results := (dfg_results d)(i := dfg_results d i @ [res])\<rparr>))
      else None)"

primrec append_results :: "inst \<Rightarrow> hir_type list \<Rightarrow> 'f dfg \<Rightarrow> 'f dfg option" where
  "append_results i [] d = Some d"
| "append_results i (ty # tys) d = do { (_, d) \<leftarrow> append_result i ty d; append_results i tys d }"

definition first_result :: "'f dfg \<Rightarrow> inst \<Rightarrow> val option" where
  "first_result d i = (case dfg_results d i of [] \<Rightarrow> None | v # _ \<Rightarrow> Some v)"

definition has_results :: "'f dfg \<Rightarrow> inst \<Rightarrow> bool" where
  "has_results d i = (dfg_results d i \<noteq> [])"

text \<open>The types of the results of an instruction, as \<open>make_results\<close> and \<open>replace_results\<close> find them.\<close>

definition result_types :: "'f dfg \<Rightarrow> inst \<Rightarrow> hir_type \<Rightarrow> hir_type list option" where
  "result_types d i ctrl_ty = do {
     data \<leftarrow> inst_data d i;
     sig \<leftarrow> call_signature d i;
     case sig of
       Some s \<Rightarrow> Some (map ap_ty (signature_results s))
     | None \<Rightarrow>
         (case data of
            IInlineAsm asm _ \<Rightarrow> Some (ia_results asm)
          | _ \<Rightarrow> op_results (inst_opcode data) ctrl_ty) }"

definition make_results :: "inst \<Rightarrow> hir_type \<Rightarrow> 'f dfg \<Rightarrow> 'f dfg option" where
  "make_results i ctrl_ty d = do {
     let d = d\<lparr>dfg_results := (dfg_results d)(i := [])\<rparr>;
     tys \<leftarrow> result_types d i ctrl_ty;
     append_results i tys d }"

fun update_results :: "inst \<Rightarrow> val list \<Rightarrow> hir_type list \<Rightarrow> 'f dfg \<Rightarrow> 'f dfg option" where
  "update_results i old [] d = Some d"
| "update_results i [] (ty # tys) d =
     do { (_, d) \<leftarrow> append_result i ty d; update_results i [] tys d }"
| "update_results i (v # old) (ty # tys) d =
     do { d \<leftarrow> set_value_type v ty d; update_results i old tys d }"

definition replace_results :: "inst \<Rightarrow> hir_type \<Rightarrow> 'f dfg \<Rightarrow> 'f dfg option" where
  "replace_results i ctrl_ty d = do {
     let old = dfg_results d i;
     tys \<leftarrow> result_types d i ctrl_ty;
     let d = (if length old > length tys
              then d\<lparr>dfg_results := (dfg_results d)(i := take (length tys) old)\<rparr> else d);
     update_results i old tys d }"

subsection \<open>Insertion\<close>

definition insert_inst ::
  "insertion_point \<Rightarrow> 'f instruction \<Rightarrow> hir_type \<Rightarrow> 'f dfg \<Rightarrow> (inst \<times> 'f dfg) option" where
  "insert_inst ip data ctrl_ty d = do {
     let (i, insts) = am_alloc_key (dfg_insts d);
     let d = d\<lparr>dfg_insts := insts\<rparr>;
     b \<leftarrow> (case ip_at ip of PpBlock b \<Rightarrow> Some b | PpInst j \<Rightarrow> Option.bind (inst_block d j) id);
     insts \<leftarrow> am_append i \<lparr>in_key = i, in_block = b, in_data = data\<rparr> (dfg_insts d);
     d \<leftarrow> make_results i ctrl_ty (d\<lparr>dfg_insts := insts\<rparr>);
     bd \<leftarrow> dfg_block d b;
     bd \<leftarrow> (case (ip_at ip, ip_action ip) of
             (PpBlock _, InsertAfter) \<Rightarrow> Some (bd_append i bd)
           | (PpBlock _, InsertBefore) \<Rightarrow> Some (bd_prepend i bd)
           | (PpInst j, InsertAfter) \<Rightarrow>
               map_option (\<lambda>is. bd\<lparr>bd_insts := is\<rparr>) (insert_after_key i j (bd_insts bd))
           | (PpInst j, InsertBefore) \<Rightarrow>
               map_option (\<lambda>is. bd\<lparr>bd_insts := is\<rparr>) (insert_before_key i j (bd_insts bd)));
     d \<leftarrow> update_block b (\<lambda>_. bd) d;
     Some (i, d) }"

definition append_inst ::
  "block \<Rightarrow> 'f instruction \<Rightarrow> hir_type \<Rightarrow> 'f dfg \<Rightarrow> (inst \<times> 'f dfg) option" where
  "append_inst b = insert_inst (ip_after (PpBlock b))"

text \<open>The clone is in no block: its block is the reserved one.\<close>

definition reserved_block :: block where
  "reserved_block = 4294967295"

primrec clone_results :: "inst \<Rightarrow> val list \<Rightarrow> 'f dfg \<Rightarrow> 'f dfg option" where
  "clone_results i [] d = Some d"
| "clone_results i (v # vs) d = do {
     ty \<leftarrow> value_type d v;
     (_, d) \<leftarrow> append_result i ty d;
     clone_results i vs d }"

definition clone_inst :: "inst \<Rightarrow> 'f dfg \<Rightarrow> (inst \<times> 'f dfg) option" where
  "clone_inst i d = do {
     let (k, insts) = am_alloc_key (dfg_insts d);
     data \<leftarrow> map_option in_data (am_get insts i);
     insts \<leftarrow> am_append k \<lparr>in_key = k, in_block = reserved_block, in_data = data\<rparr> insts;
     let d = d\<lparr>dfg_insts := insts\<rparr>;
     d \<leftarrow> clone_results k (inst_results d i) d;
     Some (k, d) }"

subsection \<open>Uses\<close>

definition replace_val :: "val \<Rightarrow> val \<Rightarrow> val \<Rightarrow> val" where
  "replace_val v r a = (if a = v then r else a)"

definition replace_uses_in :: "val \<Rightarrow> val \<Rightarrow> 'f instruction \<Rightarrow> 'f instruction" where
  "replace_uses_in v r ix =
     (case ix of
        IBr op b args \<Rightarrow> IBr op b (map (replace_val v r) args)
      | ICondBr op c (tb, targs) (eb, eargs) \<Rightarrow>
          ICondBr op (replace_val v r c) (tb, map (replace_val v r) targs)
            (eb, map (replace_val v r) eargs)
      | _ \<Rightarrow> map_arguments (replace_val v r) ix)"

definition replace_uses :: "inst \<Rightarrow> val \<Rightarrow> val \<Rightarrow> 'f dfg \<Rightarrow> 'f dfg option" where
  "replace_uses i v r d = do {
     data \<leftarrow> inst_data d i;
     set_inst_data i (replace_uses_in v r data) d }"

subsection \<open>Program points\<close>

definition pp_block :: "'f dfg \<Rightarrow> program_point \<Rightarrow> block option" where
  "pp_block d pp =
     (case pp of PpBlock b \<Rightarrow> Some b | PpInst i \<Rightarrow> Option.bind (inst_block d i) id)"

fun position :: "'a \<Rightarrow> 'a list \<Rightarrow> nat option" where
  "position x [] = None"
| "position x (y # ys) = (if y = x then Some 0 else map_option Suc (position x ys))"

definition pp_seq :: "'f dfg \<Rightarrow> program_point \<Rightarrow> nat option" where
  "pp_seq d pp =
     (case pp of
        PpBlock _ \<Rightarrow> Some 0
      | PpInst i \<Rightarrow> do {
          n \<leftarrow> dfg_inst_node d i;
          is \<leftarrow> block_insts d (in_block n);
          map_option Suc (position i is) })"

definition pp_cmp :: "'f dfg \<Rightarrow> program_point \<Rightarrow> program_point \<Rightarrow> ordering option" where
  "pp_cmp d a b = do {
     ba \<leftarrow> pp_block d a;
     bb \<leftarrow> pp_block d b;
     assert_that (ba = bb);
     sa \<leftarrow> pp_seq d a;
     sb \<leftarrow> pp_seq d b;
     Some (order_of (int sa) (int sb)) }"

definition ip_block :: "insertion_point \<Rightarrow> 'f dfg \<Rightarrow> block option" where
  "ip_block ip d =
     (case ip_at ip of PpBlock b \<Rightarrow> Some b | PpInst i \<Rightarrow> Option.bind (inst_block d i) id)"

subsection \<open>Blocks\<close>

definition dfg_create_block :: "'f dfg \<Rightarrow> (block \<times> 'f dfg) option" where
  "dfg_create_block d = do {
     let (b, m) = om_create (dfg_blocks d);
     m \<leftarrow> om_append b (new_block_data b) m;
     Some (b, d\<lparr>dfg_blocks := m\<rparr>) }"

definition create_block_after :: "block \<Rightarrow> 'f dfg \<Rightarrow> (block \<times> 'f dfg) option" where
  "create_block_after a d = do {
     let (b, m) = om_create (dfg_blocks d);
     m \<leftarrow> om_insert_after b a (new_block_data b) m;
     Some (b, d\<lparr>dfg_blocks := m\<rparr>) }"

definition detach_block :: "block \<Rightarrow> 'f dfg \<Rightarrow> 'f dfg option" where
  "detach_block b d = do { m \<leftarrow> om_remove b (dfg_blocks d); Some (d\<lparr>dfg_blocks := m\<rparr>) }"

definition append_block_param :: "block \<Rightarrow> hir_type \<Rightarrow> 'f dfg \<Rightarrow> (val \<times> 'f dfg) option" where
  "append_block_param b ty d = do {
     let param = length (dfg_values d);
     bd \<leftarrow> dfg_block d b;
     let num = length (bd_params bd);
     d \<leftarrow> update_block b (\<lambda>bd. bd\<lparr>bd_params := bd_params bd @ [param]\<rparr>) d;
     assert_that (num \<le> 65535);
     Some (make_value (VParam ty num b) d) }"

primrec clone_params_from :: "nat list \<Rightarrow> block \<Rightarrow> block \<Rightarrow> 'f dfg \<Rightarrow> 'f dfg option" where
  "clone_params_from [] src dest d = Some d"
| "clone_params_from (k # ks) src dest d = do {
     v \<leftarrow> block_param d src k;
     (_, d) \<leftarrow> append_block_param dest (vd_ty v) d;
     clone_params_from ks src dest d }"

definition clone_block_params :: "block \<Rightarrow> block \<Rightarrow> 'f dfg \<Rightarrow> 'f dfg option" where
  "clone_block_params src dest d = do {
     m \<leftarrow> num_block_params d dest;
     assert_that (m = 0);
     n \<leftarrow> num_block_params d src;
     clone_params_from [0 ..< n] src dest d }"

text \<open>\<open>Function::new\<close>: the parameters of the entry block, and the function itself as an import.\<close>

record 'f hir_function =
  hf_id :: function_ident
  hf_signature :: signature
  hf_dfg :: "'f dfg"

primrec append_block_params :: "block \<Rightarrow> hir_type list \<Rightarrow> 'f dfg \<Rightarrow> 'f dfg option" where
  "append_block_params b [] d = Some d"
| "append_block_params b (ty # tys) d =
     do { (_, d) \<leftarrow> append_block_param b ty d; append_block_params b tys d }"

definition new_hir_function :: "function_ident \<Rightarrow> signature \<Rightarrow> 'f hir_function option" where
  "new_hir_function f sig = do {
     let d = default_dfg;
     d \<leftarrow> append_block_params (entry_block d) (map ap_ty (sig_params sig)) d;
     Some \<lparr>hf_id = f, hf_signature = sig,
           hf_dfg = d\<lparr>dfg_imports := (dfg_imports d)(f \<mapsto> \<lparr>ef_id = f, ef_signature = sig\<rparr>)\<rparr>\<rparr> }"

end
