(* ===== verification/DfgProps.thy ===== *)
theory DfgProps
  imports HirFunc
begin

text \<open>
  The invariant of the data flow graph: the linked lists, the arenas and the tables of values
  agree with each other, and every value has one definition.  It holds of a new function and
  every operation keeps it.
\<close>

section \<open>The invariant\<close>

definition blocks_wf :: "'f dfg \<Rightarrow> bool" where
  "blocks_wf d \<longleftrightarrow>
     om_wf (dfg_blocks d) \<and> om_contains (dfg_blocks d) (dfg_entry d) \<and>
     (\<forall>b bd. dfg_block d b = Some bd \<longrightarrow>
        bd_id bd = b \<and> distinct (bd_insts bd) \<and>
        (\<forall>i \<in> set (bd_insts bd).
           \<exists>n. dfg_inst_node d i = Some n \<and> in_key n = i \<and> in_block n = b))"

definition params_wf :: "'f dfg \<Rightarrow> bool" where
  "params_wf d \<longleftrightarrow>
     (\<forall>b bd k. dfg_block d b = Some bd \<longrightarrow> k < length (bd_params bd) \<longrightarrow>
        (\<exists>ty. dfg_value_data d (bd_params bd ! k) = Some (VParam ty k b)))"

definition results_wf :: "'f dfg \<Rightarrow> bool" where
  "results_wf d \<longleftrightarrow>
     (\<forall>i k. k < length (dfg_results d i) \<longrightarrow>
        i < length (dfg_insts d) \<and> (\<exists>ty. dfg_value_data d (dfg_results d i ! k) = Some (VInst ty k i)))"

definition imports_wf :: "'f dfg \<Rightarrow> bool" where
  "imports_wf d \<longleftrightarrow> (\<forall>f ext. dfg_imports d f = Some ext \<longrightarrow> ef_id ext = f)"

definition dfg_wf :: "'f dfg \<Rightarrow> bool" where
  "dfg_wf d \<longleftrightarrow> blocks_wf d \<and> params_wf d \<and> results_wf d \<and> imports_wf d"

named_theorems wf_defs \<open>the parts of the invariant\<close>
declare blocks_wf_def [wf_defs] params_wf_def [wf_defs] results_wf_def [wf_defs]
  imports_wf_def [wf_defs]

section \<open>Shared facts\<close>

lemma nth_opt_eq_Some: "nth_opt xs k = Some x \<longleftrightarrow> k < length xs \<and> xs ! k = x"
  by (simp add: nth_opt_def)

lemma nth_opt_append: "nth_opt (xs @ [x]) k = (if k = length xs then Some x else nth_opt xs k)"
  by (auto simp: nth_opt_def nth_append)

lemma nth_opt_update:
  "k < length xs \<Longrightarrow> nth_opt (xs[k := x]) j = (if j = k then Some x else nth_opt xs j)"
  by (simp add: nth_opt_def)

lemma dfg_block_get: "dfg_block d b = am_get (om_map (dfg_blocks d)) b"
  by (simp add: dfg_block_def om_get_def)

lemma blocks_wf_cong:
  assumes "dfg_blocks d' = dfg_blocks d" "dfg_entry d' = dfg_entry d"
    and "\<And>i n. dfg_inst_node d i = Some n \<Longrightarrow>
      \<exists>n'. dfg_inst_node d' i = Some n' \<and> in_key n' = in_key n \<and> in_block n' = in_block n"
    and "blocks_wf d"
  shows "blocks_wf d'"
  unfolding blocks_wf_def dfg_block_get assms(1,2)
proof (intro conjI allI impI ballI)
  fix b bd i
  assume "am_get (om_map (dfg_blocks d)) b = Some bd" "i \<in> set (bd_insts bd)"
  with assms(4) obtain n where "dfg_inst_node d i = Some n" "in_key n = i" "in_block n = b"
    unfolding blocks_wf_def dfg_block_get by blast
  with assms(3) [of i n] show "\<exists>n. dfg_inst_node d' i = Some n \<and> in_key n = i \<and> in_block n = b" by auto
qed (use assms(4) in \<open>auto simp: blocks_wf_def dfg_block_get\<close>)

lemma update_blockD:
  assumes "update_block b f d = Some d'"
  obtains bd where "dfg_block d b = Some bd"
    "d' = d\<lparr>dfg_blocks := dfg_blocks d\<lparr>om_map := (om_map (dfg_blocks d))[b := Some (f bd)]\<rparr>\<rparr>"
    "b < length (om_map (dfg_blocks d))"
  using assms
  by (auto simp: update_block_def om_update_def am_update_def dfg_block_get dest: am_get_SomeD)

lemma append_result_eq:
  "append_result i ty d = Some (v, d') \<longleftrightarrow>
     length (dfg_results d i) \<le> 65535 \<and> v = length (dfg_values d) \<and>
     d' = d\<lparr>dfg_results := (dfg_results d)(i := dfg_results d i @ [v]),
            dfg_values := dfg_values d @ [VInst ty (length (dfg_results d i)) i]\<rparr>"
  by (auto simp: append_result_def make_value_def Let_def)

section \<open>Every operation keeps the invariant\<close>

lemma params_wf_cong:
  assumes "dfg_blocks d' = dfg_blocks d" "params_wf d"
    and "\<And>v ty k b. dfg_value_data d v = Some (VParam ty k b) \<Longrightarrow>
      \<exists>ty'. dfg_value_data d' v = Some (VParam ty' k b)"
  shows "params_wf d'"
  unfolding params_wf_def dfg_block_get assms(1)
proof (intro allI impI)
  fix b bd k
  assume "am_get (om_map (dfg_blocks d)) b = Some bd" "k < length (bd_params bd)"
  with assms(2) obtain ty where "dfg_value_data d (bd_params bd ! k) = Some (VParam ty k b)"
    unfolding params_wf_def dfg_block_get by blast
  then show "\<exists>ty. dfg_value_data d' (bd_params bd ! k) = Some (VParam ty k b)" by (rule assms(3))
qed

lemma results_wf_cong:
  assumes "dfg_results d' = dfg_results d" "length (dfg_insts d') \<ge> length (dfg_insts d)" "results_wf d"
    and "\<And>v ty k i. dfg_value_data d v = Some (VInst ty k i) \<Longrightarrow>
      \<exists>ty'. dfg_value_data d' v = Some (VInst ty' k i)"
  shows "results_wf d'"
  unfolding results_wf_def assms(1)
proof (intro allI impI)
  fix i k assume "k < length (dfg_results d i)"
  with assms(3) obtain ty where i: "i < length (dfg_insts d)"
    and "dfg_value_data d (dfg_results d i ! k) = Some (VInst ty k i)"
    unfolding results_wf_def by blast
  from assms(4) [OF this(2)] i assms(2)
  show "i < length (dfg_insts d') \<and> (\<exists>ty. dfg_value_data d' (dfg_results d i ! k) = Some (VInst ty k i))"
    by simp
qed

lemma value_data_append:
  "dfg_values d' = dfg_values d @ [x] \<Longrightarrow> dfg_value_data d v = Some y \<Longrightarrow> dfg_value_data d' v = Some y"
  by (auto simp: dfg_value_data_def nth_opt_eq_Some nth_append)

lemma append_result_wf:
  assumes "append_result i ty d = Some (v, d')" "dfg_wf d" "i < length (dfg_insts d)"
  shows "dfg_wf d'"
proof -
  note d' = assms(1) [unfolded append_result_eq]
  have vals: "dfg_value_data d w = Some y \<Longrightarrow> dfg_value_data d' w = Some y" for w y
    by (rule value_data_append [of d' d]) (use d' in simp_all)
  have new: "dfg_value_data d' v = Some (VInst ty (length (dfg_results d i)) i)"
    using d' by (simp add: dfg_value_data_def nth_opt_eq_Some)
  have "blocks_wf d'"
    by (rule blocks_wf_cong [of d' d]) (use assms(2) d' in \<open>simp_all add: dfg_wf_def dfg_inst_node_def\<close>)
  moreover have "imports_wf d'"
    using assms(2) d' by (simp add: dfg_wf_def imports_wf_def)
  moreover have "params_wf d'"
    by (rule params_wf_cong [of d' d]) (use assms(2) d' vals in \<open>auto simp: dfg_wf_def\<close>)
  moreover have "results_wf d'"
    unfolding results_wf_def
  proof (intro allI impI)
    fix j k assume k: "k < length (dfg_results d' j)"
    have old: "k < length (dfg_results d j) \<Longrightarrow> j < length (dfg_insts d) \<and>
        (\<exists>ty. dfg_value_data d' (dfg_results d j ! k) = Some (VInst ty k j))" for j k
      using assms(2) vals unfolding dfg_wf_def results_wf_def by blast
    show "j < length (dfg_insts d') \<and> (\<exists>ty. dfg_value_data d' (dfg_results d' j ! k) = Some (VInst ty k j))"
      using old [of k j] new k d' assms(3) by (auto simp: nth_append less_Suc_eq split: if_splits)
  qed
  ultimately show ?thesis by (simp add: dfg_wf_def)
qed

lemma append_result_frame:
  "append_result i ty d = Some (v, d') \<Longrightarrow>
     dfg_insts d' = dfg_insts d \<and> dfg_blocks d' = dfg_blocks d \<and> dfg_imports d' = dfg_imports d \<and>
     dfg_globals d' = dfg_globals d \<and> dfg_entry d' = dfg_entry d"
  by (auto simp: append_result_eq)

lemma append_results_frame:
  "append_results i tys d = Some d' \<Longrightarrow>
     dfg_insts d' = dfg_insts d \<and> dfg_blocks d' = dfg_blocks d \<and> dfg_imports d' = dfg_imports d \<and>
     dfg_globals d' = dfg_globals d \<and> dfg_entry d' = dfg_entry d"
  by (induction tys arbitrary: d) (auto dest!: append_result_frame)

lemma append_results_wf:
  "append_results i tys d = Some d' \<Longrightarrow> dfg_wf d \<Longrightarrow> i < length (dfg_insts d) \<Longrightarrow> dfg_wf d'"
proof (induction tys arbitrary: d)
  case (Cons ty tys)
  then obtain v d1 where 1: "append_result i ty d = Some (v, d1)"
    and 2: "append_results i tys d1 = Some d'" by auto
  show ?case
    using Cons.IH [OF 2] append_result_wf [OF 1] append_result_frame [OF 1] Cons.prems by simp
qed simp

section \<open>Insertion\<close>

definition new_node :: "inst \<Rightarrow> block \<Rightarrow> 'f instruction \<Rightarrow> 'f inst_node" where
  "new_node i b data = \<lparr>in_key = i, in_block = b, in_data = data\<rparr>"

lemma alloc_wf:
  assumes "dfg_wf d"
  shows "dfg_wf (d\<lparr>dfg_insts := dfg_insts d @ [n], dfg_results := (dfg_results d)(length (dfg_insts d) := [])\<rparr>)"
    (is "dfg_wf ?d")
proof -
  have "dfg_results d (length (dfg_insts d)) = []"
    using assms unfolding dfg_wf_def results_wf_def by (metis length_greater_0_conv less_irrefl)
  then have res: "dfg_results ?d = dfg_results d" by auto
  have "blocks_wf ?d"
    by (rule blocks_wf_cong [of ?d d])
      (use assms in \<open>auto simp: dfg_wf_def dfg_inst_node_def am_get_push dest: am_get_SomeD\<close>)
  moreover have "params_wf ?d"
    by (rule params_wf_cong [of ?d d]) (use assms in \<open>auto simp: dfg_wf_def dfg_value_data_def\<close>)
  moreover have "results_wf ?d"
    by (rule results_wf_cong [of ?d d, OF res]) (use assms in \<open>auto simp: dfg_wf_def dfg_value_data_def\<close>)
  ultimately show ?thesis
    using assms by (simp add: dfg_wf_def imports_wf_def)
qed

text \<open>The instructions of a block after an insertion of \<open>i\<close> at \<open>ip\<close>.\<close>

definition insert_at :: "insertion_point \<Rightarrow> inst \<Rightarrow> inst list \<Rightarrow> inst list option" where
  "insert_at ip i xs =
     (case (ip_at ip, ip_action ip) of
        (PpBlock _, InsertAfter) \<Rightarrow> Some (xs @ [i])
      | (PpBlock _, InsertBefore) \<Rightarrow> Some (i # xs)
      | (PpInst j, InsertAfter) \<Rightarrow> insert_after_key i j xs
      | (PpInst j, InsertBefore) \<Rightarrow> insert_before_key i j xs)"

lemma insert_at_set:
  assumes "insert_at ip i xs = Some js"
  shows "set js = insert i (set xs)" "i \<notin> set xs \<Longrightarrow> distinct xs \<Longrightarrow> distinct js"
proof -
  consider "js = xs @ [i]" | "js = i # xs"
    | us a vs where "xs = us @ a # vs" "js = us @ a # i # vs \<or> js = us @ i # a # vs"
    using assms
    by (auto simp: insert_at_def split: program_point.splits insert.splits
        dest!: insert_before_keyD insert_after_keyD)
  note cs = this
  from cs show "set js = insert i (set xs)" by cases auto
  from cs show "i \<notin> set xs \<Longrightarrow> distinct xs \<Longrightarrow> distinct js" by cases auto
qed

lemma insert_instD:
  assumes "insert_inst ip data ty d = Some (i, d')"
  obtains b bd tys js d1 where "i = length (dfg_insts d)" "ip_block ip d = Some b"
    "result_types (d\<lparr>dfg_insts := dfg_insts d @ [Some (new_node i b data)],
       dfg_results := (dfg_results d)(i := [])\<rparr>) i ty = Some tys"
    "append_results i tys (d\<lparr>dfg_insts := dfg_insts d @ [Some (new_node i b data)],
       dfg_results := (dfg_results d)(i := [])\<rparr>) = Some d1"
    "dfg_block d b = Some bd" "insert_at ip i (bd_insts bd) = Some js"
    "update_block b (\<lambda>_. bd\<lparr>bd_insts := js\<rparr>) d1 = Some d'"
proof -
  let ?i = "length (dfg_insts d)"
  have ib: "Option.bind (inst_block (d\<lparr>dfg_insts := dfg_insts d @ [None]\<rparr>) j) id = Option.bind (inst_block d j) id"
    for j
    using am_get_SomeD [of "dfg_insts d" "length (dfg_insts d)"]
    by (cases "am_get (dfg_insts d) (length (dfg_insts d))")
      (auto simp: inst_block_def dfg_inst_node_def inst_is_linked_def am_get_push)
  from assms obtain b d1 bd bd' where i: "i = ?i" and b: "ip_block ip d = Some b"
    and m: "make_results ?i ty (d\<lparr>dfg_insts := dfg_insts d @ [Some (new_node ?i b data)]\<rparr>) = Some d1"
    and bd: "dfg_block d1 b = Some bd"
    and ins: "(case (ip_at ip, ip_action ip) of
             (PpBlock _, InsertAfter) \<Rightarrow> Some (bd_append ?i bd)
           | (PpBlock _, InsertBefore) \<Rightarrow> Some (bd_prepend ?i bd)
           | (PpInst j, InsertAfter) \<Rightarrow>
               map_option (\<lambda>ys. bd\<lparr>bd_insts := ys\<rparr>) (insert_after_key ?i j (bd_insts bd))
           | (PpInst j, InsertBefore) \<Rightarrow>
               map_option (\<lambda>ys. bd\<lparr>bd_insts := ys\<rparr>) (insert_before_key ?i j (bd_insts bd))) = Some bd'"
    and up: "update_block b (\<lambda>_. bd') d1 = Some d'"
    by (auto simp: insert_inst_def am_alloc_key_def am_append_def ip_block_def ib
        list_update_append new_node_def split: program_point.splits if_splits)
  from ins obtain js where "insert_at ip ?i (bd_insts bd) = Some js" "bd' = bd\<lparr>bd_insts := js\<rparr>"
    by (auto simp: insert_at_def bd_append_def bd_prepend_def split: program_point.splits insert.splits)
  moreover from m obtain tys where
    "result_types (d\<lparr>dfg_insts := dfg_insts d @ [Some (new_node ?i b data)],
       dfg_results := (dfg_results d)(?i := [])\<rparr>) ?i ty = Some tys"
    and a: "append_results ?i tys (d\<lparr>dfg_insts := dfg_insts d @ [Some (new_node ?i b data)],
       dfg_results := (dfg_results d)(?i := [])\<rparr>) = Some d1"
    by (auto simp: make_results_def Let_def)
  moreover have "dfg_block d b = Some bd"
    using append_results_frame [OF a] bd by (simp add: dfg_block_def)
  ultimately show thesis using that i b up by blast
qed

lemma link_wf:
  assumes "dfg_wf d" "dfg_block d b = Some bd"
    and "update_block b (\<lambda>_. bd\<lparr>bd_insts := js\<rparr>) d = Some d'"
    and "dfg_inst_node d i = Some (new_node i b data)" "distinct js" "set js = insert i (set (bd_insts bd))"
  shows "dfg_wf d'"
proof -
  from assms(3) obtain bd0
    where d': "d' = d\<lparr>dfg_blocks := dfg_blocks d\<lparr>om_map := (om_map (dfg_blocks d))[b := Some (bd\<lparr>bd_insts := js\<rparr>)]\<rparr>\<rparr>"
      and b: "b < length (om_map (dfg_blocks d))" by (rule update_blockD)
  have blk: "dfg_block d' c = (if c = b then Some (bd\<lparr>bd_insts := js\<rparr>) else dfg_block d c)" for c
    using b d' by (simp add: dfg_block_get)
  have om: "om_wf (dfg_blocks d')" "om_contains (dfg_blocks d') (dfg_entry d')"
    using assms(1) b d' unfolding dfg_wf_def blocks_wf_def
    by (auto simp: om_wf_def om_contains_def am_contains_def)
  have "blocks_wf d'"
    unfolding blocks_wf_def
  proof (intro conjI om allI impI)
    fix c cd assume c: "dfg_block d' c = Some cd"
    show "bd_id cd = c" "distinct (bd_insts cd)"
      using c assms(1,2,5) unfolding dfg_wf_def blocks_wf_def by (auto simp: blk split: if_splits)
    have nodes: "dfg_inst_node d' = dfg_inst_node d" using d' by (auto simp: dfg_inst_node_def)
    show "\<forall>i\<in>set (bd_insts cd). \<exists>n. dfg_inst_node d' i = Some n \<and> in_key n = i \<and> in_block n = c"
    proof
      fix j assume j: "j \<in> set (bd_insts cd)"
      show "\<exists>n. dfg_inst_node d' j = Some n \<and> in_key n = j \<and> in_block n = c"
      proof (cases "c = b \<and> j = i")
        case True
        then show ?thesis using assms(4) nodes by (simp add: new_node_def)
      next
        case False
        have "\<exists>cd'. dfg_block d c = Some cd' \<and> j \<in> set (bd_insts cd')"
        proof (cases "c = b")
          case True
          with c have "cd = bd\<lparr>bd_insts := js\<rparr>" by (simp add: blk)
          with j True False assms(2,6) show ?thesis by simp
        next
          case False
          with c have "dfg_block d c = Some cd" by (simp add: blk)
          with j show ?thesis by blast
        qed
        then obtain cd' where "dfg_block d c = Some cd'" "j \<in> set (bd_insts cd')" by blast
        then show ?thesis using assms(1) unfolding nodes dfg_wf_def blocks_wf_def by blast
      qed
    qed
  qed
  moreover have "params_wf d'"
    using assms(1,2) d' unfolding dfg_wf_def params_wf_def blk
    by (auto simp: dfg_value_data_def split: if_splits)
  moreover have "results_wf d'" "imports_wf d'"
    using assms(1) d' by (auto simp: dfg_wf_def results_wf_def imports_wf_def dfg_value_data_def)
  ultimately show ?thesis by (simp add: dfg_wf_def)
qed

lemma insert_inst_wf:
  assumes "insert_inst ip data ty d = Some (i, d')" "dfg_wf d"
  shows "dfg_wf d'"
  using assms(1)
proof (rule insert_instD)
  fix b bd tys js d1
  let ?d = "d\<lparr>dfg_insts := dfg_insts d @ [Some (new_node i b data)], dfg_results := (dfg_results d)(i := [])\<rparr>"
  assume i: "i = length (dfg_insts d)" and b: "dfg_block d b = Some bd"
    and r: "append_results i tys ?d = Some d1" and ins: "insert_at ip i (bd_insts bd) = Some js"
    and u: "update_block b (\<lambda>_. bd\<lparr>bd_insts := js\<rparr>) d1 = Some d'"
  from append_results_frame [OF r]
  have fr: "dfg_insts d1 = dfg_insts d @ [Some (new_node i b data)]" "dfg_blocks d1 = dfg_blocks d"
    by simp_all
  have "dfg_wf d1"
    using append_results_wf [OF r] alloc_wf [OF assms(2), of "Some (new_node i b data)"] i by simp
  moreover have "i \<notin> set (bd_insts bd)" "distinct (bd_insts bd)"
  proof -
    have "\<forall>j \<in> set (bd_insts bd). j < length (dfg_insts d)"
      using assms(2) b am_get_SomeD [of "dfg_insts d"]
      unfolding dfg_wf_def blocks_wf_def dfg_inst_node_def by blast
    then show "i \<notin> set (bd_insts bd)" using i by auto
    show "distinct (bd_insts bd)" using assms(2) b unfolding dfg_wf_def blocks_wf_def by blast
  qed
  ultimately show ?thesis
    using link_wf [of d1 b bd js d' i data] u insert_at_set [OF ins] b fr i
    by (auto simp: dfg_block_def dfg_inst_node_def am_get_push)
qed

section \<open>Results and values\<close>

lemma clone_results_eq:
  "clone_results i vs d = Some d' \<Longrightarrow> \<exists>tys. append_results i tys d = Some d'"
proof (induction vs arbitrary: d)
  case Nil
  then show ?case by (intro exI [of _ "[]"]) simp
next
  case (Cons v vs)
  then obtain ty w d1 where a: "append_result i ty d = Some (w, d1)"
    and c: "clone_results i vs d1 = Some d'" by auto
  from Cons.IH [OF c] obtain tys where "append_results i tys d1 = Some d'" by blast
  with a show ?case by (intro exI [of _ "ty # tys"]) simp
qed

lemma clone_inst_wf:
  assumes "clone_inst i d = Some (k, d')" "dfg_wf d"
  shows "dfg_wf d'"
proof -
  from assms(1) obtain n where k: "k = length (dfg_insts d)"
    and c: "clone_results k (inst_results d i) (d\<lparr>dfg_insts := dfg_insts d @ [Some n]\<rparr>) = Some d'"
    by (auto simp: clone_inst_def am_alloc_key_def am_append_def list_update_append Let_def
        inst_results_def split: if_splits)
  have "dfg_results d k = []"
    using assms(2) k unfolding dfg_wf_def results_wf_def by (metis length_greater_0_conv less_irrefl)
  then have "(dfg_results d)(k := []) = dfg_results d" by auto
  with alloc_wf [OF assms(2), of "Some n"] k
  have "dfg_wf (d\<lparr>dfg_insts := dfg_insts d @ [Some n]\<rparr>)" by simp
  moreover from clone_results_eq [OF c] obtain tys where
    "append_results k tys (d\<lparr>dfg_insts := dfg_insts d @ [Some n]\<rparr>) = Some d'" by blast
  ultimately show ?thesis using append_results_wf k by fastforce
qed

lemma set_type_shape:
  "set_type ty (VInst ty0 k i) = VInst ty k i" "set_type ty (VParam ty0 k b) = VParam ty k b"
  by simp_all

lemma set_value_type_wf:
  assumes "set_value_type v ty d = Some d'" "dfg_wf d"
  shows "dfg_wf d'"
proof -
  from assms(1) obtain x where x: "dfg_value_data d v = Some x"
    and d': "d' = d\<lparr>dfg_values := (dfg_values d)[v := set_type ty x]\<rparr>"
    by (auto simp: set_value_type_def)
  have val: "dfg_value_data d' w = (if w = v then Some (set_type ty x) else dfg_value_data d w)" for w
    using x d' by (simp add: dfg_value_data_def nth_opt_eq_Some nth_opt_update)
  have fr: "dfg_blocks d' = dfg_blocks d" "dfg_insts d' = dfg_insts d" "dfg_results d' = dfg_results d"
    "dfg_entry d' = dfg_entry d" "dfg_imports d' = dfg_imports d"
    using d' by simp_all
  have "blocks_wf d'"
    by (rule blocks_wf_cong [of d' d]) (use assms(2) fr in \<open>simp_all add: dfg_wf_def dfg_inst_node_def\<close>)
  moreover have "params_wf d'"
    by (rule params_wf_cong [of d' d]) (use assms(2) fr x in \<open>auto simp: dfg_wf_def val\<close>)
  moreover have "results_wf d'"
    by (rule results_wf_cong [of d' d]) (use assms(2) fr x in \<open>auto simp: dfg_wf_def val\<close>)
  ultimately show ?thesis using assms(2) fr by (simp add: dfg_wf_def imports_wf_def)
qed

lemma set_value_type_insts: "set_value_type v ty d = Some d' \<Longrightarrow> dfg_insts d' = dfg_insts d"
  by (auto simp: set_value_type_def)

lemma update_results_wf:
  "update_results i old tys d = Some d' \<Longrightarrow> dfg_wf d \<Longrightarrow> i < length (dfg_insts d) \<Longrightarrow> dfg_wf d'"
proof (induction i old tys d rule: update_results.induct)
  case (2 i ty tys d)
  then obtain v d1 where 1: "append_result i ty d = Some (v, d1)"
    and u: "update_results i [] tys d1 = Some d'" by auto
  show ?case
    using "2.IH" [OF 1 refl u] append_result_wf [OF 1] append_result_frame [OF 1] "2.prems" by simp
next
  case (3 i v old ty tys d)
  then obtain d1 where 1: "set_value_type v ty d = Some d1"
    and u: "update_results i old tys d1 = Some d'" by auto
  show ?case
    using "3.IH" [OF 1 u] set_value_type_wf [OF 1] set_value_type_insts [OF 1] "3.prems" by simp
qed auto

lemma truncate_results_wf:
  assumes "dfg_wf d"
  shows "dfg_wf (d\<lparr>dfg_results := (dfg_results d)(i := take n (dfg_results d i))\<rparr>)" (is "dfg_wf ?d")
proof -
  have "blocks_wf ?d"
    by (rule blocks_wf_cong [of ?d d]) (use assms in \<open>simp_all add: dfg_wf_def dfg_inst_node_def\<close>)
  moreover have "params_wf ?d"
    by (rule params_wf_cong [of ?d d]) (use assms in \<open>auto simp: dfg_wf_def dfg_value_data_def\<close>)
  moreover have "results_wf ?d" "imports_wf ?d"
    using assms by (auto simp: dfg_wf_def results_wf_def imports_wf_def dfg_value_data_def)
  ultimately show ?thesis by (simp add: dfg_wf_def)
qed

lemma replace_results_wf:
  assumes "replace_results i ty d = Some d'" "dfg_wf d"
  shows "dfg_wf d'"
proof -
  from assms(1) obtain tys data where "inst_data d i = Some data"
    and u: "update_results i (dfg_results d i) tys (if length (dfg_results d i) > length tys
        then d\<lparr>dfg_results := (dfg_results d)(i := take (length tys) (dfg_results d i))\<rparr> else d) = Some d'"
    by (auto simp: replace_results_def result_types_def Let_def)
  then have "i < length (dfg_insts d)"
    by (auto simp: inst_data_def dfg_inst_node_def dest: am_get_SomeD)
  then show ?thesis
    using update_results_wf [OF u] assms(2) truncate_results_wf [OF assms(2)]
    by (cases "length (dfg_results d i) > length tys") simp_all
qed

lemma set_inst_data_wf:
  assumes "set_inst_data i data d = Some d'" "dfg_wf d"
  shows "dfg_wf d'"
proof -
  from assms(1) obtain n where n: "am_get (dfg_insts d) i = Some n" "i < length (dfg_insts d)"
    and d': "d' = d\<lparr>dfg_insts := (dfg_insts d)[i := Some (in_replace data n)]\<rparr>"
    by (auto simp: set_inst_data_def am_update_def dest: am_get_SomeD)
  have "blocks_wf d'"
    by (rule blocks_wf_cong [of d' d])
      (use assms(2) d' n in \<open>auto simp: dfg_wf_def dfg_inst_node_def in_replace_def\<close>)
  moreover have "params_wf d'"
    by (rule params_wf_cong [of d' d]) (use assms(2) d' in \<open>auto simp: dfg_wf_def dfg_value_data_def\<close>)
  moreover have "results_wf d'"
    by (rule results_wf_cong [of d' d]) (use assms(2) d' in \<open>auto simp: dfg_wf_def dfg_value_data_def\<close>)
  ultimately show ?thesis using assms(2) d' by (simp add: dfg_wf_def imports_wf_def)
qed

lemma replace_uses_wf: "replace_uses i v r d = Some d' \<Longrightarrow> dfg_wf d \<Longrightarrow> dfg_wf d'"
  by (auto simp: replace_uses_def intro: set_inst_data_wf)

section \<open>Blocks, imports and globals\<close>

lemma om_block_wf:
  assumes "dfg_wf d" "om_wf m"
    and "\<And>k. om_get m k = (if k = b \<and> new then Some (new_block_data b) else om_get (dfg_blocks d) k)"
    and "new \<Longrightarrow> om_get (dfg_blocks d) b = None"
  shows "dfg_wf (d\<lparr>dfg_blocks := m\<rparr>)" (is "dfg_wf ?d")
proof -
  have blk: "dfg_block ?d c = (if c = b \<and> new then Some (new_block_data b) else dfg_block d c)" for c
    using assms(3) by (simp add: dfg_block_def)
  have "blocks_wf ?d"
    unfolding blocks_wf_def
  proof (intro conjI allI impI)
    show "om_wf (dfg_blocks ?d)" using assms(2) by simp
    have "om_get (dfg_blocks d) (dfg_entry d) \<noteq> None"
      using assms(1) by (auto simp: dfg_wf_def blocks_wf_def om_contains_def am_contains_def om_get_def)
    then have "om_get m (dfg_entry d) \<noteq> None" by (simp add: assms(3))
    then show "om_contains (dfg_blocks ?d) (dfg_entry ?d)"
      by (simp add: om_contains_def am_contains_def om_get_def)
  qed (use assms(1) in \<open>auto simp: blk dfg_wf_def blocks_wf_def new_block_data_def dfg_inst_node_def split: if_splits\<close>)
  moreover have "params_wf ?d"
    using assms(1) by (auto simp: blk dfg_wf_def params_wf_def new_block_data_def dfg_value_data_def split: if_splits)
  moreover have "results_wf ?d" "imports_wf ?d"
    using assms(1) by (auto simp: dfg_wf_def results_wf_def imports_wf_def dfg_value_data_def)
  ultimately show ?thesis by (simp add: dfg_wf_def)
qed

lemma om_get_fresh: "om_get m (length (om_map m)) = None"
  by (simp add: om_get_def am_get_def)

lemma dfg_create_block_wf:
  assumes "dfg_create_block d = Some (b, d')" "dfg_wf d"
  shows "dfg_wf d'"
proof -
  let ?m = "dfg_blocks d"
  from assms(1) obtain m where b: "b = length (om_map ?m)" and d': "d' = d\<lparr>dfg_blocks := m\<rparr>"
    and a: "om_append b (new_block_data b) (?m\<lparr>om_map := om_map ?m @ [None]\<rparr>) = Some m"
    by (auto simp: dfg_create_block_def Let_def)
  have "om_wf m"
    using om_wf_append [OF a] om_wf_create [of ?m] assms(2) by (simp add: dfg_wf_def blocks_wf_def)
  moreover have "om_get m k = (if k = b \<and> True then Some (new_block_data b) else om_get ?m k)" for k
    using a b by (auto simp: om_append_def om_alloc_node_def am_append_def om_get_def am_get_push
        list_update_append split: if_splits)
  ultimately show ?thesis
    unfolding d' using om_get_fresh [of ?m] b by (intro om_block_wf [OF assms(2), where new = True]) auto
qed

lemma create_block_after_wf:
  assumes "create_block_after a d = Some (b, d')" "dfg_wf d"
  shows "dfg_wf d'"
proof -
  let ?m = "dfg_blocks d"
  from assms(1) obtain m where b: "b = length (om_map ?m)" and d': "d' = d\<lparr>dfg_blocks := m\<rparr>"
    and a: "om_insert_after b a (new_block_data b) (?m\<lparr>om_map := om_map ?m @ [None]\<rparr>) = Some m"
    by (auto simp: create_block_after_def Let_def)
  have "om_wf m"
    using om_wf_insert_after [OF a] om_wf_create [of ?m] assms(2) by (simp add: dfg_wf_def blocks_wf_def)
  moreover have "om_get m k = (if k = b \<and> True then Some (new_block_data b) else om_get ?m k)" for k
    using a b by (auto simp: om_insert_after_def om_alloc_node_def am_append_def om_get_def am_get_push
        list_update_append split: if_splits)
  ultimately show ?thesis
    unfolding d' using om_get_fresh [of ?m] b by (intro om_block_wf [OF assms(2), where new = True]) auto
qed

lemma detach_block_wf:
  assumes "detach_block b d = Some d'" "dfg_wf d"
  shows "dfg_wf d'"
proof -
  from assms(1) obtain m where d': "d' = d\<lparr>dfg_blocks := m\<rparr>" and r: "om_remove b (dfg_blocks d) = Some m"
    by (auto simp: detach_block_def)
  have wf: "om_wf (dfg_blocks d)" using assms(2) by (simp add: dfg_wf_def blocks_wf_def)
  show ?thesis
    unfolding d' using om_wf_remove [OF r wf] om_remove_keeps_the_value [OF wf r]
    by (intro om_block_wf [OF assms(2), where new = False]) auto
qed

lemma append_block_paramD:
  assumes "append_block_param b ty d = Some (v, d')"
  obtains bd where "dfg_block d b = Some bd" "v = length (dfg_values d)" "b < length (om_map (dfg_blocks d))"
    "d' = d\<lparr>dfg_blocks := dfg_blocks d\<lparr>om_map := (om_map (dfg_blocks d))[b := Some (bd\<lparr>bd_params := bd_params bd @ [v]\<rparr>)]\<rparr>,
            dfg_values := dfg_values d @ [VParam ty (length (bd_params bd)) b]\<rparr>"
  using assms
  by (auto simp: append_block_param_def make_value_def Let_def elim!: update_blockD)

lemma append_block_param_wf:
  assumes "append_block_param b ty d = Some (v, d')" "dfg_wf d"
  shows "dfg_wf d'"
proof -
  from assms(1) obtain bd where bd: "dfg_block d b = Some bd" "v = length (dfg_values d)"
    "b < length (om_map (dfg_blocks d))"
    and d': "d' = d\<lparr>dfg_blocks := dfg_blocks d\<lparr>om_map := (om_map (dfg_blocks d))[b := Some (bd\<lparr>bd_params := bd_params bd @ [v]\<rparr>)]\<rparr>,
            dfg_values := dfg_values d @ [VParam ty (length (bd_params bd)) b]\<rparr>"
    by (rule append_block_paramD)
  have blk: "dfg_block d' c = (if c = b then Some (bd\<lparr>bd_params := bd_params bd @ [v]\<rparr>) else dfg_block d c)" for c
    using bd d' by (simp add: dfg_block_get)
  have vals: "dfg_value_data d w = Some y \<Longrightarrow> dfg_value_data d' w = Some y" for w y
    by (rule value_data_append [of d' d]) (use d' in simp_all)
  have new: "dfg_value_data d' v = Some (VParam ty (length (bd_params bd)) b)"
    using d' bd by (simp add: dfg_value_data_def nth_opt_eq_Some)
  have nodes: "dfg_inst_node d' = dfg_inst_node d" using d' by (auto simp: dfg_inst_node_def)
  have om: "om_wf (dfg_blocks d')" "om_contains (dfg_blocks d') (dfg_entry d')"
    using assms(2) bd(3) d' unfolding dfg_wf_def blocks_wf_def
    by (auto simp: om_wf_def om_contains_def am_contains_def)
  have "blocks_wf d'"
    unfolding blocks_wf_def nodes
  proof (intro conjI om allI impI)
    fix c cd assume "dfg_block d' c = Some cd"
    then obtain cd' where "dfg_block d c = Some cd'" "bd_id cd = bd_id cd'" "bd_insts cd = bd_insts cd'"
      using bd(1) by (cases "c = b") (auto simp: blk)
    then show "bd_id cd = c" "distinct (bd_insts cd)"
      "\<forall>i\<in>set (bd_insts cd). \<exists>n. dfg_inst_node d i = Some n \<and> in_key n = i \<and> in_block n = c"
      using assms(2) unfolding dfg_wf_def blocks_wf_def by simp_all
  qed
  moreover have "params_wf d'"
    unfolding params_wf_def
  proof (intro allI impI)
    fix c cd k assume c: "dfg_block d' c = Some cd" "k < length (bd_params cd)"
    have old: "dfg_block d c = Some cd \<Longrightarrow> k < length (bd_params cd) \<Longrightarrow>
        \<exists>ty. dfg_value_data d' (bd_params cd ! k) = Some (VParam ty k c)" for cd
      using assms(2) vals unfolding dfg_wf_def params_wf_def by blast
    show "\<exists>ty. dfg_value_data d' (bd_params cd ! k) = Some (VParam ty k c)"
      using c old [of cd] old [of bd] new bd(1)
      by (auto simp: blk nth_append less_Suc_eq split: if_splits)
  qed
  moreover have "results_wf d'"
    by (rule results_wf_cong [of d' d]) (use assms(2) d' vals in \<open>auto simp: dfg_wf_def\<close>)
  ultimately show ?thesis using assms(2) d' by (simp add: dfg_wf_def imports_wf_def)
qed

lemma clone_params_from_wf: "clone_params_from ks src dest d = Some d' \<Longrightarrow> dfg_wf d \<Longrightarrow> dfg_wf d'"
  by (induction ks arbitrary: d) (auto intro: append_block_param_wf)

lemma clone_block_params_wf: "clone_block_params src dest d = Some d' \<Longrightarrow> dfg_wf d \<Longrightarrow> dfg_wf d'"
  by (auto simp: clone_block_params_def intro: clone_params_from_wf)

lemma append_block_params_wf: "append_block_params b tys d = Some d' \<Longrightarrow> dfg_wf d \<Longrightarrow> dfg_wf d'"
  by (induction tys arbitrary: d) (auto intro: append_block_param_wf)

lemma imports_update_wf:
  assumes "dfg_wf d" "\<And>f ext. m f = Some ext \<Longrightarrow> ef_id ext = f"
  shows "dfg_wf (d\<lparr>dfg_imports := m\<rparr>)"
  using assms by (auto simp: dfg_wf_def blocks_wf_def params_wf_def results_wf_def imports_wf_def
      dfg_block_def dfg_value_data_def dfg_inst_node_def)

lemma imports_insert_wf:
  "dfg_wf d \<Longrightarrow> dfg_wf (d\<lparr>dfg_imports := (dfg_imports d)(f \<mapsto> \<lparr>ef_id = f, ef_signature = sig\<rparr>)\<rparr>)"
  by (rule imports_update_wf) (auto simp: dfg_wf_def imports_wf_def split: if_splits)

lemma import_function_wf: "import_function m n sig d = (r, d') \<Longrightarrow> dfg_wf d \<Longrightarrow> dfg_wf d'"
  by (auto simp: import_function_def Let_def imports_insert_wf split: option.splits if_splits)

lemma create_global_value_wf: "create_global_value g d = (v, d') \<Longrightarrow> dfg_wf d \<Longrightarrow> dfg_wf d'"
  by (auto simp: create_global_value_def dfg_wf_def blocks_wf_def params_wf_def results_wf_def
      imports_wf_def dfg_block_def dfg_value_data_def dfg_inst_node_def)

lemma default_dfg_wf: "dfg_wf default_dfg"
  by (auto simp: default_dfg_def dfg_wf_def blocks_wf_def params_wf_def results_wf_def imports_wf_def
      om_wf_def om_contains_def am_contains_def am_get_def dfg_block_get new_block_data_def
      split: if_splits)

lemma new_hir_function_wf: "new_hir_function f sig = Some h \<Longrightarrow> dfg_wf (hf_dfg h)"
  by (auto simp: new_hir_function_def Let_def imports_insert_wf
      dest!: append_block_params_wf [OF _ default_dfg_wf])

end
