(* ===== verification/HirBuilder.thy ===== *)
theory HirBuilder
  imports HirFunc
begin

text \<open>
  The instruction builders (hir/src/builder.rs).  The trait \<open>InstBuilder\<close> has two
  implementations of \<open>build\<close>: insertion at an insertion point, and replacement of an
  instruction in place; every method works with both.  A method takes the graph and returns
  the value or instruction with the new graph, or panics (\<open>None\<close>).  The macros that generate
  methods are higher-order definitions, and a generated family with the suffixes \<open>_checked\<close>,
  \<open>_wrapping\<close> and \<open>_overflowing\<close> is one definition that takes the overflow mode.
\<close>

section \<open>Builders\<close>

datatype builder = InsertAt insertion_point | ReplaceInst inst

primrec builder_ip :: "builder \<Rightarrow> insertion_point" where
  "builder_ip (InsertAt ip) = ip"
| "builder_ip (ReplaceInst i) = ip_before (PpInst i)"

definition default_builder :: "'f dfg \<Rightarrow> block \<Rightarrow> builder option" where
  "default_builder d b = do {
     assert_that (is_block_inserted d b);
     Some (InsertAt (ip_after (PpBlock b))) }"

definition sub_ins :: "builder \<Rightarrow> builder" where
  "sub_ins b = InsertAt (builder_ip b)"

definition insert_build ::
  "insertion_point \<Rightarrow> 'f instruction \<Rightarrow> hir_type \<Rightarrow> 'f dfg \<Rightarrow> (inst \<times> 'f dfg) option" where
  "insert_build ip data ty d = do {
     (case (ip_at ip, ip_action ip) of
        (PpBlock b, InsertAfter) \<Rightarrow> do { t \<leftarrow> is_block_terminated d b; assert_that (\<not> t) }
      | _ \<Rightarrow> Some ());
     insert_inst ip data ty d }"

definition replace_build ::
  "inst \<Rightarrow> 'f instruction \<Rightarrow> hir_type \<Rightarrow> 'f dfg \<Rightarrow> (inst \<times> 'f dfg) option" where
  "replace_build i data ty d = do {
     d \<leftarrow> set_inst_data i data d;
     d \<leftarrow> replace_results i ty d;
     Some (i, d) }"

primrec build ::
  "builder \<Rightarrow> 'f instruction \<Rightarrow> hir_type \<Rightarrow> 'f dfg \<Rightarrow> (inst \<times> 'f dfg) option" where
  "build (InsertAt ip) = insert_build ip"
| "build (ReplaceInst i) = replace_build i"

type_synonym 'f ins_inst = "'f dfg \<Rightarrow> (inst \<times> 'f dfg) option"
type_synonym 'f ins_val = "'f dfg \<Rightarrow> (val \<times> 'f dfg) option"

definition into_first_result :: "(inst \<times> 'f dfg) option \<Rightarrow> (val \<times> 'f dfg) option" where
  "into_first_result built = do { (i, d) \<leftarrow> built; v \<leftarrow> first_result d i; Some (v, d) }"

section \<open>Checks of the operands\<close>

definition require_matching_operands :: "'f dfg \<Rightarrow> val \<Rightarrow> val \<Rightarrow> hir_type option" where
  "require_matching_operands d lhs rhs = do {
     lty \<leftarrow> value_type d lhs;
     rty \<leftarrow> value_type d rhs;
     assert_that (lty = rty);
     Some lty }"

definition require_integer :: "'f dfg \<Rightarrow> val \<Rightarrow> hir_type option" where
  "require_integer d v = do { ty \<leftarrow> value_type d v; assert_that (is_integer ty); Some ty }"

definition require_integer_ty :: "'f dfg \<Rightarrow> val \<Rightarrow> hir_type \<Rightarrow> hir_type option" where
  "require_integer_ty d v expected = do {
     ty \<leftarrow> value_type d v;
     assert_that (is_integer ty);
     assert_that (ty = expected);
     Some ty }"

definition require_unsigned_integer :: "'f dfg \<Rightarrow> val \<Rightarrow> hir_type option" where
  "require_unsigned_integer d v =
     do { ty \<leftarrow> value_type d v; assert_that (is_unsigned_integer ty); Some ty }"

definition require_pointer :: "'f dfg \<Rightarrow> val \<Rightarrow> hir_type option" where
  "require_pointer d v = do { ty \<leftarrow> value_type d v; assert_that (is_pointer ty); Some ty }"

definition require_pointee :: "'f dfg \<Rightarrow> val \<Rightarrow> hir_type option" where
  "require_pointee d v = do { ty \<leftarrow> value_type d v; pointee ty }"

definition assert_integer_operands :: "'f dfg \<Rightarrow> val \<Rightarrow> val \<Rightarrow> hir_type option" where
  "assert_integer_operands d lhs rhs = do {
     lty \<leftarrow> require_matching_operands d lhs rhs;
     assert_that (is_integer lty);
     Some lty }"

section \<open>Instruction formats\<close>

definition b_CondBr :: "builder \<Rightarrow> val \<Rightarrow> block \<Rightarrow> val list \<Rightarrow> block \<Rightarrow> val list \<Rightarrow> 'f ins_inst" where
  "b_CondBr b c tb targs eb eargs = build b (ICondBr OcCondBr c (tb, targs) (eb, eargs)) TyUnit"

definition b_Br :: "builder \<Rightarrow> opcode \<Rightarrow> hir_type \<Rightarrow> block \<Rightarrow> val list \<Rightarrow> 'f ins_inst" where
  "b_Br b op ty dest args = build b (IBr op dest args) ty"

definition b_Switch :: "builder \<Rightarrow> val \<Rightarrow> (nat \<times> block) list \<Rightarrow> block \<Rightarrow> 'f ins_inst" where
  "b_Switch b arg arms dflt = build b (ISwitch OcSwitch arg arms dflt) TyUnit"

definition b_Ret :: "builder \<Rightarrow> val list \<Rightarrow> 'f ins_inst" where
  "b_Ret b args = build b (IRet OcRet args) TyUnit"

definition b_Call :: "builder \<Rightarrow> opcode \<Rightarrow> function_ident \<Rightarrow> val list \<Rightarrow> 'f ins_inst" where
  "b_Call b op callee args = build b (ICall op callee args) TyUnit"

definition b_BinaryWithOverflow ::
  "builder \<Rightarrow> opcode \<Rightarrow> hir_type \<Rightarrow> val \<Rightarrow> val \<Rightarrow> overflow \<Rightarrow> 'f ins_inst" where
  "b_BinaryWithOverflow b op ty lhs rhs ov = build b (IBinaryOp op ov lhs rhs) ty"

definition b_Binary :: "builder \<Rightarrow> opcode \<Rightarrow> hir_type \<Rightarrow> val \<Rightarrow> val \<Rightarrow> 'f ins_inst" where
  "b_Binary b op ty lhs rhs = b_BinaryWithOverflow b op ty lhs rhs Unchecked"

definition b_BinaryImmWithOverflow ::
  "builder \<Rightarrow> opcode \<Rightarrow> hir_type \<Rightarrow> val \<Rightarrow> 'f immediate \<Rightarrow> overflow \<Rightarrow> 'f ins_inst" where
  "b_BinaryImmWithOverflow b op ty arg imm ov = build b (IBinaryOpImm op ov arg imm) ty"

definition b_BinaryImm ::
  "builder \<Rightarrow> opcode \<Rightarrow> hir_type \<Rightarrow> val \<Rightarrow> 'f immediate \<Rightarrow> 'f ins_inst" where
  "b_BinaryImm b op ty arg imm = b_BinaryImmWithOverflow b op ty arg imm Unchecked"

definition b_UnaryWithOverflow ::
  "builder \<Rightarrow> opcode \<Rightarrow> hir_type \<Rightarrow> val \<Rightarrow> overflow \<Rightarrow> 'f ins_inst" where
  "b_UnaryWithOverflow b op ty arg ov = build b (IUnaryOp op ov arg) ty"

definition b_Unary :: "builder \<Rightarrow> opcode \<Rightarrow> hir_type \<Rightarrow> val \<Rightarrow> 'f ins_inst" where
  "b_Unary b op ty arg = b_UnaryWithOverflow b op ty arg Unchecked"

definition b_UnaryImmWithOverflow ::
  "builder \<Rightarrow> opcode \<Rightarrow> hir_type \<Rightarrow> 'f immediate \<Rightarrow> overflow \<Rightarrow> 'f ins_inst" where
  "b_UnaryImmWithOverflow b op ty imm ov = build b (IUnaryOpImm op ov imm) ty"

definition b_UnaryImm :: "builder \<Rightarrow> opcode \<Rightarrow> hir_type \<Rightarrow> 'f immediate \<Rightarrow> 'f ins_inst" where
  "b_UnaryImm b op ty imm = b_UnaryImmWithOverflow b op ty imm Unchecked"

definition b_Test :: "builder \<Rightarrow> opcode \<Rightarrow> hir_type \<Rightarrow> val \<Rightarrow> hir_type \<Rightarrow> 'f ins_inst" where
  "b_Test b op ret arg ty = build b (ITest op arg ty) ret"

definition b_PrimOp :: "builder \<Rightarrow> opcode \<Rightarrow> hir_type \<Rightarrow> val list \<Rightarrow> 'f ins_inst" where
  "b_PrimOp b op ty args = build b (IPrimOp op args) ty"

definition b_PrimOpImm ::
  "builder \<Rightarrow> opcode \<Rightarrow> hir_type \<Rightarrow> 'f immediate \<Rightarrow> val list \<Rightarrow> 'f ins_inst" where
  "b_PrimOpImm b op ty imm args = build b (IPrimOpImm op imm args) ty"

definition b_Global :: "builder \<Rightarrow> global_value \<Rightarrow> hir_type \<Rightarrow> 'f ins_inst" where
  "b_Global b g ty = build b (IGlobalValue OcGlobalValue g) ty"

lemmas format_defs = b_CondBr_def b_Br_def b_Switch_def b_Ret_def b_Call_def b_BinaryWithOverflow_def
  b_Binary_def b_BinaryImmWithOverflow_def b_BinaryImm_def b_UnaryWithOverflow_def b_Unary_def
  b_UnaryImmWithOverflow_def b_UnaryImm_def b_Test_def b_PrimOp_def b_PrimOpImm_def b_Global_def

section \<open>Assertions and constants\<close>

definition ins_assert :: "builder \<Rightarrow> val \<Rightarrow> 'f ins_inst" where
  "ins_assert b v d = do {
     require_integer_ty d v TyI1;
     b_PrimOp b OcAssert TyUnit [v] d }"

definition ins_assertz :: "builder \<Rightarrow> val \<Rightarrow> 'f ins_inst" where
  "ins_assertz b v d = do {
     require_integer_ty d v TyI1;
     b_PrimOp b OcAssertz TyUnit [v] d }"

definition ins_assert_eq :: "builder \<Rightarrow> val \<Rightarrow> val \<Rightarrow> 'f ins_inst" where
  "ins_assert_eq b lhs rhs d = do {
     require_matching_operands d lhs rhs;
     b_PrimOp b OcAssertEq TyUnit [lhs, rhs] d }"

definition ins_assert_eq_imm :: "builder \<Rightarrow> 'f immediate \<Rightarrow> val \<Rightarrow> 'f ins_inst" where
  "ins_assert_eq_imm b lhs rhs d = do {
     require_integer d rhs;
     b_PrimOpImm b OcAssertEq TyUnit lhs [rhs] d }"

definition unsigned_integer_literal ::
  "opcode \<Rightarrow> hir_type \<Rightarrow> ('a \<Rightarrow> 'f immediate) \<Rightarrow> builder \<Rightarrow> 'a \<Rightarrow> 'f ins_val" where
  "unsigned_integer_literal op ty mk b i d = into_first_result (b_UnaryImm b op ty (mk i) d)"

definition signed_integer_literal ::
  "opcode \<Rightarrow> hir_type \<Rightarrow> ('a \<Rightarrow> 'f immediate) \<Rightarrow> builder \<Rightarrow> 'a \<Rightarrow> 'f ins_val" where
  "signed_integer_literal op ty mk b i d = into_first_result (b_UnaryImm b op ty (mk i) d)"

definition ins_i1 :: "builder \<Rightarrow> bool \<Rightarrow> 'f ins_val" where
  "ins_i1 = signed_integer_literal OcImmI1 TyI1 ImmI1"

definition ins_u8 :: "builder \<Rightarrow> u8 \<Rightarrow> 'f ins_val" where
  "ins_u8 = unsigned_integer_literal OcImmU8 TyU8 ImmU8"
definition ins_i8 :: "builder \<Rightarrow> u8 \<Rightarrow> 'f ins_val" where
  "ins_i8 = signed_integer_literal OcImmI8 TyI8 ImmI8"
definition ins_u16 :: "builder \<Rightarrow> u16 \<Rightarrow> 'f ins_val" where
  "ins_u16 = unsigned_integer_literal OcImmU16 TyU16 ImmU16"
definition ins_i16 :: "builder \<Rightarrow> u16 \<Rightarrow> 'f ins_val" where
  "ins_i16 = signed_integer_literal OcImmI16 TyI16 ImmI16"
definition ins_u32 :: "builder \<Rightarrow> u32 \<Rightarrow> 'f ins_val" where
  "ins_u32 = unsigned_integer_literal OcImmU32 TyU32 ImmU32"
definition ins_i32 :: "builder \<Rightarrow> u32 \<Rightarrow> 'f ins_val" where
  "ins_i32 = signed_integer_literal OcImmI32 TyI32 ImmI32"
definition ins_u64 :: "builder \<Rightarrow> u64 \<Rightarrow> 'f ins_val" where
  "ins_u64 = unsigned_integer_literal OcImmU64 TyU64 ImmU64"
definition ins_i64 :: "builder \<Rightarrow> u64 \<Rightarrow> 'f ins_val" where
  "ins_i64 = signed_integer_literal OcImmI64 TyI64 ImmI64"

definition ins_felt :: "builder \<Rightarrow> 'f \<Rightarrow> 'f ins_val" where
  "ins_felt b i d = into_first_result (b_UnaryImm b OcImmFelt TyFelt (ImmFelt i) d)"

definition ins_f64 :: "builder \<Rightarrow> u64 \<Rightarrow> 'f ins_val" where
  "ins_f64 b f d = into_first_result (b_UnaryImm b OcImmF64 TyF64 (ImmF64 f) d)"

definition ins_character :: "builder \<Rightarrow> nat \<Rightarrow> 'f ins_val" where
  "ins_character b c = ins_i32 b (of_nat c)"

definition ins_alloca :: "builder \<Rightarrow> hir_type \<Rightarrow> 'f ins_val" where
  "ins_alloca b ty d = into_first_result (b_PrimOp b OcAlloca (TyPtr ty) [] d)"

section \<open>Casts\<close>

definition ins_ptrtoint :: "builder \<Rightarrow> val \<Rightarrow> hir_type \<Rightarrow> 'f ins_val" where
  "ins_ptrtoint b arg ty d = do {
     require_pointer d arg;
     assert_that (is_integer ty);
     into_first_result (b_Unary b OcPtrToInt ty arg d) }"

definition ins_inttoptr :: "builder \<Rightarrow> val \<Rightarrow> hir_type \<Rightarrow> 'f ins_val" where
  "ins_inttoptr b arg ty d = do {
     require_unsigned_integer d arg;
     assert_that (is_pointer ty);
     into_first_result (b_Unary b OcIntToPtr ty arg d) }"

definition ins_cast :: "builder \<Rightarrow> val \<Rightarrow> hir_type \<Rightarrow> 'f ins_val" where
  "ins_cast b arg ty d = do {
     arg_ty \<leftarrow> value_type d arg;
     assert_that ((is_numeric arg_ty \<and> is_numeric ty) \<or> (is_pointer arg_ty \<and> is_pointer ty));
     into_first_result (b_Unary b OcCast ty arg d) }"

definition ins_trunc :: "builder \<Rightarrow> val \<Rightarrow> hir_type \<Rightarrow> 'f ins_val" where
  "ins_trunc b arg ty d = do {
     require_integer d arg;
     assert_that (is_integer ty);
     into_first_result (b_Unary b OcTrunc ty arg d) }"

definition ins_zext :: "builder \<Rightarrow> val \<Rightarrow> hir_type \<Rightarrow> 'f ins_val" where
  "ins_zext b arg ty d = do {
     arg_ty \<leftarrow> require_integer d arg;
     assert_that (is_integer ty);
     if arg_ty = ty then Some (arg, d) else do {
       n \<leftarrow> size_in_bits arg_ty;
       m \<leftarrow> size_in_bits ty;
       assert_that (n \<le> m);
       into_first_result (b_Unary b OcZext ty arg d) } }"

definition ins_sext :: "builder \<Rightarrow> val \<Rightarrow> hir_type \<Rightarrow> 'f ins_val" where
  "ins_sext b arg ty d = do {
     arg_ty \<leftarrow> require_integer d arg;
     assert_that (is_integer ty);
     if arg_ty = ty then Some (arg, d) else do {
       n \<leftarrow> size_in_bits arg_ty;
       m \<leftarrow> size_in_bits ty;
       assert_that (n \<le> m);
       into_first_result (b_Unary b OcSext ty arg d) } }"

section \<open>Arithmetic\<close>

definition binary_int_op :: "opcode \<Rightarrow> overflow \<Rightarrow> builder \<Rightarrow> val \<Rightarrow> val \<Rightarrow> 'f ins_val" where
  "binary_int_op op ov b lhs rhs d = do {
     lty \<leftarrow> assert_integer_operands d lhs rhs;
     into_first_result (b_BinaryWithOverflow b op lty lhs rhs ov d) }"

definition binary_int_op_imm ::
  "opcode \<Rightarrow> overflow \<Rightarrow> builder \<Rightarrow> val \<Rightarrow> 'f immediate \<Rightarrow> 'f ins_val" where
  "binary_int_op_imm op ov b lhs imm d = do {
     lty \<leftarrow> require_integer d lhs;
     into_first_result (b_BinaryImmWithOverflow b op lty lhs imm ov d) }"

definition binary_boolean_op :: "opcode \<Rightarrow> builder \<Rightarrow> val \<Rightarrow> val \<Rightarrow> 'f ins_val" where
  "binary_boolean_op op b lhs rhs d = do {
     lty \<leftarrow> require_matching_operands d lhs rhs;
     assert_that (lty = TyI1);
     into_first_result (b_Binary b op lty lhs rhs d) }"

definition binary_boolean_op_imm :: "opcode \<Rightarrow> builder \<Rightarrow> val \<Rightarrow> 'f immediate \<Rightarrow> 'f ins_val" where
  "binary_boolean_op_imm op b lhs imm d = do {
     lty \<leftarrow> require_integer_ty d lhs TyI1;
     assert_that (lty = TyI1);
     into_first_result (b_BinaryImm b op lty lhs imm d) }"

definition unary_int_op :: "opcode \<Rightarrow> builder \<Rightarrow> val \<Rightarrow> 'f ins_val" where
  "unary_int_op op b rhs d = do {
     rty \<leftarrow> require_integer d rhs;
     into_first_result (b_Unary b op rty rhs d) }"

definition unary_boolean_op :: "opcode \<Rightarrow> builder \<Rightarrow> val \<Rightarrow> 'f ins_val" where
  "unary_boolean_op op b rhs d = do {
     rty \<leftarrow> require_integer_ty d rhs TyI1;
     into_first_result (b_Unary b op rty rhs d) }"

definition ins_add :: "overflow \<Rightarrow> builder \<Rightarrow> val \<Rightarrow> val \<Rightarrow> 'f ins_val" where
  "ins_add = binary_int_op OcAdd"

definition ins_add_imm :: "overflow \<Rightarrow> builder \<Rightarrow> val \<Rightarrow> 'f immediate \<Rightarrow> 'f ins_val" where
  "ins_add_imm = binary_int_op_imm OcAdd"

definition ins_sub :: "overflow \<Rightarrow> builder \<Rightarrow> val \<Rightarrow> val \<Rightarrow> 'f ins_val" where
  "ins_sub = binary_int_op OcSub"

definition ins_sub_imm :: "overflow \<Rightarrow> builder \<Rightarrow> val \<Rightarrow> 'f immediate \<Rightarrow> 'f ins_val" where
  "ins_sub_imm = binary_int_op_imm OcSub"

definition ins_mul :: "overflow \<Rightarrow> builder \<Rightarrow> val \<Rightarrow> val \<Rightarrow> 'f ins_val" where
  "ins_mul = binary_int_op OcMul"

definition ins_mul_imm :: "overflow \<Rightarrow> builder \<Rightarrow> val \<Rightarrow> 'f immediate \<Rightarrow> 'f ins_val" where
  "ins_mul_imm = binary_int_op_imm OcMul"

definition ins_div :: "overflow \<Rightarrow> builder \<Rightarrow> val \<Rightarrow> val \<Rightarrow> 'f ins_val" where
  "ins_div = binary_int_op OcDiv"

definition ins_div_imm :: "overflow \<Rightarrow> builder \<Rightarrow> val \<Rightarrow> 'f immediate \<Rightarrow> 'f ins_val" where
  "ins_div_imm = binary_int_op_imm OcDiv"

definition ins_min :: "overflow \<Rightarrow> builder \<Rightarrow> val \<Rightarrow> val \<Rightarrow> 'f ins_val" where
  "ins_min = binary_int_op OcMin"

definition ins_min_imm :: "overflow \<Rightarrow> builder \<Rightarrow> val \<Rightarrow> 'f immediate \<Rightarrow> 'f ins_val" where
  "ins_min_imm = binary_int_op_imm OcMin"

definition ins_max :: "overflow \<Rightarrow> builder \<Rightarrow> val \<Rightarrow> val \<Rightarrow> 'f ins_val" where
  "ins_max = binary_int_op OcMax"

definition ins_max_imm :: "overflow \<Rightarrow> builder \<Rightarrow> val \<Rightarrow> 'f immediate \<Rightarrow> 'f ins_val" where
  "ins_max_imm = binary_int_op_imm OcMax"

definition ins_mod :: "overflow \<Rightarrow> builder \<Rightarrow> val \<Rightarrow> val \<Rightarrow> 'f ins_val" where
  "ins_mod = binary_int_op OcMod"

definition ins_mod_imm :: "overflow \<Rightarrow> builder \<Rightarrow> val \<Rightarrow> 'f immediate \<Rightarrow> 'f ins_val" where
  "ins_mod_imm = binary_int_op_imm OcMod"

definition ins_divmod :: "overflow \<Rightarrow> builder \<Rightarrow> val \<Rightarrow> val \<Rightarrow> 'f ins_val" where
  "ins_divmod = binary_int_op OcDivMod"

definition ins_divmod_imm :: "overflow \<Rightarrow> builder \<Rightarrow> val \<Rightarrow> 'f immediate \<Rightarrow> 'f ins_val" where
  "ins_divmod_imm = binary_int_op_imm OcDivMod"

definition ins_exp :: "overflow \<Rightarrow> builder \<Rightarrow> val \<Rightarrow> val \<Rightarrow> 'f ins_val" where
  "ins_exp = binary_int_op OcExp"

definition ins_exp_imm :: "overflow \<Rightarrow> builder \<Rightarrow> val \<Rightarrow> 'f immediate \<Rightarrow> 'f ins_val" where
  "ins_exp_imm = binary_int_op_imm OcExp"

definition ins_band :: "overflow \<Rightarrow> builder \<Rightarrow> val \<Rightarrow> val \<Rightarrow> 'f ins_val" where
  "ins_band = binary_int_op OcBand"

definition ins_band_imm :: "overflow \<Rightarrow> builder \<Rightarrow> val \<Rightarrow> 'f immediate \<Rightarrow> 'f ins_val" where
  "ins_band_imm = binary_int_op_imm OcBand"

definition ins_bor :: "overflow \<Rightarrow> builder \<Rightarrow> val \<Rightarrow> val \<Rightarrow> 'f ins_val" where
  "ins_bor = binary_int_op OcBor"

definition ins_bor_imm :: "overflow \<Rightarrow> builder \<Rightarrow> val \<Rightarrow> 'f immediate \<Rightarrow> 'f ins_val" where
  "ins_bor_imm = binary_int_op_imm OcBor"

definition ins_bxor :: "overflow \<Rightarrow> builder \<Rightarrow> val \<Rightarrow> val \<Rightarrow> 'f ins_val" where
  "ins_bxor = binary_int_op OcBxor"

definition ins_bxor_imm :: "overflow \<Rightarrow> builder \<Rightarrow> val \<Rightarrow> 'f immediate \<Rightarrow> 'f ins_val" where
  "ins_bxor_imm = binary_int_op_imm OcBxor"

definition ins_shl :: "overflow \<Rightarrow> builder \<Rightarrow> val \<Rightarrow> val \<Rightarrow> 'f ins_val" where
  "ins_shl = binary_int_op OcShl"

definition ins_shl_imm :: "overflow \<Rightarrow> builder \<Rightarrow> val \<Rightarrow> 'f immediate \<Rightarrow> 'f ins_val" where
  "ins_shl_imm = binary_int_op_imm OcShl"

definition ins_shr :: "overflow \<Rightarrow> builder \<Rightarrow> val \<Rightarrow> val \<Rightarrow> 'f ins_val" where
  "ins_shr = binary_int_op OcShr"

definition ins_shr_imm :: "overflow \<Rightarrow> builder \<Rightarrow> val \<Rightarrow> 'f immediate \<Rightarrow> 'f ins_val" where
  "ins_shr_imm = binary_int_op_imm OcShr"

definition ins_rotl :: "overflow \<Rightarrow> builder \<Rightarrow> val \<Rightarrow> val \<Rightarrow> 'f ins_val" where
  "ins_rotl = binary_int_op OcRotl"

definition ins_rotl_imm :: "overflow \<Rightarrow> builder \<Rightarrow> val \<Rightarrow> 'f immediate \<Rightarrow> 'f ins_val" where
  "ins_rotl_imm = binary_int_op_imm OcRotl"

definition ins_rotr :: "overflow \<Rightarrow> builder \<Rightarrow> val \<Rightarrow> val \<Rightarrow> 'f ins_val" where
  "ins_rotr = binary_int_op OcRotr"

definition ins_rotr_imm :: "overflow \<Rightarrow> builder \<Rightarrow> val \<Rightarrow> 'f immediate \<Rightarrow> 'f ins_val" where
  "ins_rotr_imm = binary_int_op_imm OcRotr"

definition ins_and :: "builder \<Rightarrow> val \<Rightarrow> val \<Rightarrow> 'f ins_val" where
  "ins_and = binary_boolean_op OcAnd"

definition ins_and_imm :: "builder \<Rightarrow> val \<Rightarrow> 'f immediate \<Rightarrow> 'f ins_val" where
  "ins_and_imm = binary_boolean_op_imm OcAnd"

definition ins_or :: "builder \<Rightarrow> val \<Rightarrow> val \<Rightarrow> 'f ins_val" where
  "ins_or = binary_boolean_op OcOr"

definition ins_or_imm :: "builder \<Rightarrow> val \<Rightarrow> 'f immediate \<Rightarrow> 'f ins_val" where
  "ins_or_imm = binary_boolean_op_imm OcOr"

definition ins_xor :: "builder \<Rightarrow> val \<Rightarrow> val \<Rightarrow> 'f ins_val" where
  "ins_xor = binary_boolean_op OcXor"

definition ins_xor_imm :: "builder \<Rightarrow> val \<Rightarrow> 'f immediate \<Rightarrow> 'f ins_val" where
  "ins_xor_imm = binary_boolean_op_imm OcXor"

definition ins_neg :: "builder \<Rightarrow> val \<Rightarrow> 'f ins_val" where
  "ins_neg = unary_int_op OcNeg"

definition ins_inv :: "builder \<Rightarrow> val \<Rightarrow> 'f ins_val" where
  "ins_inv = unary_int_op OcInv"

definition ins_incr :: "builder \<Rightarrow> val \<Rightarrow> 'f ins_val" where
  "ins_incr = unary_int_op OcIncr"

definition ins_pow2 :: "builder \<Rightarrow> val \<Rightarrow> 'f ins_val" where
  "ins_pow2 = unary_int_op OcPow2"

definition ins_bnot :: "builder \<Rightarrow> val \<Rightarrow> 'f ins_val" where
  "ins_bnot = unary_int_op OcBnot"

definition ins_popcnt :: "builder \<Rightarrow> val \<Rightarrow> 'f ins_val" where
  "ins_popcnt = unary_int_op OcPopcnt"

definition ins_not :: "builder \<Rightarrow> val \<Rightarrow> 'f ins_val" where
  "ins_not = unary_boolean_op OcNot"

definition ins_eq :: "builder \<Rightarrow> val \<Rightarrow> val \<Rightarrow> 'f ins_val" where
  "ins_eq b lhs rhs d = into_first_result (b_Binary b OcEq TyI1 lhs rhs d)"

definition ins_neq :: "builder \<Rightarrow> val \<Rightarrow> val \<Rightarrow> 'f ins_val" where
  "ins_neq b lhs rhs d = into_first_result (b_Binary b OcNeq TyI1 lhs rhs d)"

definition ins_gt :: "builder \<Rightarrow> val \<Rightarrow> val \<Rightarrow> 'f ins_val" where
  "ins_gt b lhs rhs d = do {
     require_integer d lhs;
     require_integer d rhs;
     into_first_result (b_Binary b OcGt TyI1 lhs rhs d) }"

definition ins_gte :: "builder \<Rightarrow> val \<Rightarrow> val \<Rightarrow> 'f ins_val" where
  "ins_gte b lhs rhs d = do {
     require_integer d lhs;
     require_integer d rhs;
     into_first_result (b_Binary b OcGte TyI1 lhs rhs d) }"

definition ins_lt :: "builder \<Rightarrow> val \<Rightarrow> val \<Rightarrow> 'f ins_val" where
  "ins_lt b lhs rhs d = do {
     require_integer d lhs;
     require_integer d rhs;
     into_first_result (b_Binary b OcLt TyI1 lhs rhs d) }"

definition ins_lte :: "builder \<Rightarrow> val \<Rightarrow> val \<Rightarrow> 'f ins_val" where
  "ins_lte b lhs rhs d = do {
     require_integer d lhs;
     require_integer d rhs;
     into_first_result (b_Binary b OcLte TyI1 lhs rhs d) }"

definition ins_eq_imm :: "builder \<Rightarrow> val \<Rightarrow> 'f immediate \<Rightarrow> 'f ins_val" where
  "ins_eq_imm b lhs imm d = do {
     lty \<leftarrow> require_integer d lhs;
     assert_that (lty = imm_ty imm);
     into_first_result (b_BinaryImm b OcEq TyI1 lhs imm d) }"

definition ins_neq_imm :: "builder \<Rightarrow> val \<Rightarrow> 'f immediate \<Rightarrow> 'f ins_val" where
  "ins_neq_imm b lhs imm d = do {
     lty \<leftarrow> require_integer d lhs;
     assert_that (lty = imm_ty imm);
     into_first_result (b_BinaryImm b OcNeq TyI1 lhs imm d) }"

definition ins_gt_imm :: "builder \<Rightarrow> val \<Rightarrow> 'f immediate \<Rightarrow> 'f ins_val" where
  "ins_gt_imm b lhs imm d = do {
     lty \<leftarrow> require_integer d lhs;
     assert_that (lty = imm_ty imm);
     into_first_result (b_BinaryImm b OcGt TyI1 lhs imm d) }"

definition ins_gte_imm :: "builder \<Rightarrow> val \<Rightarrow> 'f immediate \<Rightarrow> 'f ins_val" where
  "ins_gte_imm b lhs imm d = do {
     lty \<leftarrow> require_integer d lhs;
     assert_that (lty = imm_ty imm);
     into_first_result (b_BinaryImm b OcGte TyI1 lhs imm d) }"

definition ins_lt_imm :: "builder \<Rightarrow> val \<Rightarrow> 'f immediate \<Rightarrow> 'f ins_val" where
  "ins_lt_imm b lhs imm d = do {
     lty \<leftarrow> require_integer d lhs;
     assert_that (lty = imm_ty imm);
     into_first_result (b_BinaryImm b OcLt TyI1 lhs imm d) }"

definition ins_lte_imm :: "builder \<Rightarrow> val \<Rightarrow> 'f immediate \<Rightarrow> 'f ins_val" where
  "ins_lte_imm b lhs imm d = do {
     lty \<leftarrow> require_integer d lhs;
     assert_that (lty = imm_ty imm);
     into_first_result (b_BinaryImm b OcLte TyI1 lhs imm d) }"

definition ins_is_odd :: "builder \<Rightarrow> val \<Rightarrow> 'f ins_val" where
  "ins_is_odd b v d = do {
     require_integer d v;
     into_first_result (b_Unary b OcIsOdd TyI1 v d) }"

section \<open>Memory\<close>

definition ins_load :: "builder \<Rightarrow> val \<Rightarrow> 'f ins_val" where
  "ins_load b addr d = do {
     ty \<leftarrow> require_pointee d addr;
     into_first_result (build b (ILoad OcLoad addr ty) (TyPtr ty) d) }"

definition ins_store :: "builder \<Rightarrow> val \<Rightarrow> val \<Rightarrow> 'f ins_inst" where
  "ins_store b ptr v d = do {
     pointee_ty \<leftarrow> require_pointee d ptr;
     value_ty \<leftarrow> value_type d v;
     assert_that (pointee_ty = value_ty);
     b_PrimOp b OcStore TyUnit [ptr, v] d }"

definition ins_memcpy :: "builder \<Rightarrow> val \<Rightarrow> val \<Rightarrow> val \<Rightarrow> 'f ins_inst" where
  "ins_memcpy b src dst cnt d = do {
     require_integer d cnt;
     src_ty \<leftarrow> require_pointer d src;
     dst_ty \<leftarrow> require_pointer d dst;
     assert_that (src_ty = dst_ty);
     b_PrimOp b OcMemCpy TyUnit [src, dst, cnt] d }"

text \<open>
  The offset of \<open>getelementptr\<close>, with the type of the element: the sizes and the sum are
  \<open>usize\<close>, whose overflow panics.
\<close>

fun element_offset :: "hir_type \<Rightarrow> nat list \<Rightarrow> nat \<Rightarrow> (hir_type \<times> nat) option" where
  "element_offset ty [] offset = Some (ty, offset)"
| "element_offset (TyArray element_ty n) (index # rest) offset = do {
     assert_that (index < n);
     element_size \<leftarrow> size_in_bytes element_ty;
     padded \<leftarrow> align_up usize_MAX element_size (min_alignment element_ty);
     assert_that (padded * index \<le> usize_MAX);
     offset \<leftarrow> usize_add offset (padded * index);
     element_offset element_ty rest offset }"
| "element_offset (TyStruct s) (index # rest) offset = do {
     assert_that (index < length (st_fields s));
     offset \<leftarrow> usize_add offset (sf_offset (st_fields s ! index));
     element_offset (sf_ty (st_fields s ! index)) rest offset }"
| "element_offset _ (index # rest) offset = None"

definition ins_getelementptr :: "builder \<Rightarrow> val \<Rightarrow> nat list \<Rightarrow> 'f ins_val" where
  "ins_getelementptr b ptr indices d = do {
     ty \<leftarrow> require_pointee d ptr;
     assert_that (indices \<noteq> []);
     (ty, offset) \<leftarrow> element_offset ty indices 0;
     (addr, d) \<leftarrow> ins_ptrtoint (sub_ins b) ptr TyU32 d;
     offset \<leftarrow> to_u32 offset;
     (new_addr, d) \<leftarrow> ins_add_imm Checked (sub_ins b) addr (ImmU32 (of_nat offset)) d;
     ins_inttoptr b new_addr (TyPtr ty) d }"

section \<open>Global values\<close>

definition ins_symbol_relative :: "ident \<Rightarrow> int \<Rightarrow> 'f dfg \<Rightarrow> global_value \<times> 'f dfg" where
  "ins_symbol_relative name offset d = create_global_value (GvSymbol name offset) d"

definition ins_symbol :: "ident \<Rightarrow> 'f dfg \<Rightarrow> global_value \<times> 'f dfg" where
  "ins_symbol name = ins_symbol_relative name 0"

definition ins_symbol_relative_addr :: "builder \<Rightarrow> ident \<Rightarrow> int \<Rightarrow> hir_type \<Rightarrow> 'f ins_val" where
  "ins_symbol_relative_addr b name offset ty d = do {
     assert_that (is_pointer ty);
     let (gv, d) = create_global_value (GvSymbol name offset) d;
     into_first_result (b_Global b gv ty d) }"

definition ins_symbol_addr :: "builder \<Rightarrow> ident \<Rightarrow> hir_type \<Rightarrow> 'f ins_val" where
  "ins_symbol_addr b name ty = ins_symbol_relative_addr b name 0 ty"

text \<open>
  The address arithmetic behind a base whose value is only known at run time.  The casts of
  the offset to \<open>u32\<close> are \<open>word_of_int\<close>.
\<close>

definition offset_address :: "builder \<Rightarrow> val \<Rightarrow> hir_type \<Rightarrow> bool \<Rightarrow> int \<Rightarrow> 'f ins_val" where
  "offset_address b base base_ty up offset d = do {
     (addr, d) \<leftarrow> ins_ptrtoint (sub_ins b) base TyU32 d;
     (offset_addr, d) \<leftarrow>
       (if up then ins_add_imm Checked (sub_ins b) addr (ImmU32 (word_of_int offset)) d
        else ins_sub_imm Checked (sub_ins b) addr (ImmU32 (word_of_int \<bar>offset\<bar>)) d);
     (ptr, d) \<leftarrow> ins_inttoptr (sub_ins b) offset_addr base_ty d;
     ins_load b ptr d }"

text \<open>
  On a base that is itself a load the method calls itself on the same base: a call that does
  not return has no result.
\<close>

partial_function (option) load_global_relative ::
  "builder \<Rightarrow> global_value \<Rightarrow> hir_type \<Rightarrow> int \<Rightarrow> 'f dfg \<Rightarrow> (val \<times> 'f dfg) option" where
  "load_global_relative b base ty offset d = do {
     data \<leftarrow> global_value d base;
     case data of
       GvLoad _ _ base_ty \<Rightarrow> do {
         assert_that (is_pointer base_ty);
         r \<leftarrow> load_global_relative (sub_ins b) base base_ty 0 d;
         offset_address b (fst r) base_ty (offset \<ge> 0) offset (snd r) }
     | GvSymbol _ _ \<Rightarrow>
         (let (gv, d) = create_global_value (GvLoad base offset ty) d in
          into_first_result (b_Global b gv ty d))
     | GvIAddImm _ _ _ \<Rightarrow>
         (let (gv, d) = create_global_value (GvLoad base offset ty) d in
          into_first_result (b_Global b gv ty d)) }"

definition ins_load_global :: "builder \<Rightarrow> global_value \<Rightarrow> hir_type \<Rightarrow> 'f ins_val" where
  "ins_load_global b addr ty = load_global_relative b addr ty 0"

definition ins_load_symbol_relative :: "builder \<Rightarrow> ident \<Rightarrow> hir_type \<Rightarrow> int \<Rightarrow> 'f ins_val" where
  "ins_load_symbol_relative b name ty offset d =
     (let (base, d) = create_global_value (GvSymbol name 0) d in
      load_global_relative b base ty offset d)"

definition ins_load_symbol :: "builder \<Rightarrow> ident \<Rightarrow> hir_type \<Rightarrow> 'f ins_val" where
  "ins_load_symbol b name ty = ins_load_symbol_relative b name ty 0"

text \<open>The unit size must fit \<open>i32\<close>, and so must its product with the offset.\<close>

definition ins_global_addr_offset :: "builder \<Rightarrow> global_value \<Rightarrow> int \<Rightarrow> hir_type \<Rightarrow> 'f ins_val" where
  "ins_global_addr_offset b base offset unit_ty d = do {
     data \<leftarrow> global_value d base;
     case data of
       GvLoad _ _ base_ty \<Rightarrow> do {
         assert_that (is_pointer base_ty);
         (v, d) \<leftarrow> ins_load_global (sub_ins b) base base_ty d;
         unit_size \<leftarrow> size_in_bytes unit_ty;
         assert_that (unit_size < 2 ^ 31);
         let computed_offset = int unit_size * offset;
         assert_that (- (2 ^ 31) \<le> computed_offset \<and> computed_offset < 2 ^ 31);
         offset_address b v base_ty (computed_offset \<ge> 0) offset d }
     | _ \<Rightarrow> do {
         let (gv, d) = create_global_value (GvIAddImm base offset unit_ty) d;
         ty \<leftarrow> global_type d gv;
         into_first_result (b_Global b gv ty d) } }"

section \<open>Calls and control flow\<close>

definition ins_call :: "builder \<Rightarrow> function_ident \<Rightarrow> val list \<Rightarrow> 'f ins_inst" where
  "ins_call b callee args d = do {
     assert_that (get_import d callee \<noteq> None);
     b_Call b OcCall callee args d }"

definition ins_syscall :: "builder \<Rightarrow> function_ident \<Rightarrow> val list \<Rightarrow> 'f ins_inst" where
  "ins_syscall b callee args d = do {
     assert_that (get_import d callee \<noteq> None);
     b_Call b OcSyscall callee args d }"

definition ins_select :: "builder \<Rightarrow> val \<Rightarrow> val \<Rightarrow> val \<Rightarrow> 'f ins_val" where
  "ins_select b c x y d = do {
     ty \<leftarrow> require_matching_operands d x y;
     cty \<leftarrow> value_type d c;
     assert_that (cty = TyI1);
     into_first_result (b_PrimOp b OcSelect ty [c, x, y] d) }"

definition ins_br :: "builder \<Rightarrow> block \<Rightarrow> val list \<Rightarrow> 'f ins_inst" where
  "ins_br b dest args = b_Br b OcBr TyUnit dest args"

definition ins_cond_br :: "builder \<Rightarrow> val \<Rightarrow> block \<Rightarrow> val list \<Rightarrow> block \<Rightarrow> val list \<Rightarrow> 'f ins_inst" where
  "ins_cond_br b c tb targs eb eargs d = do {
     require_integer_ty d c TyI1;
     b_CondBr b c tb targs eb eargs d }"

definition ins_switch :: "builder \<Rightarrow> val \<Rightarrow> (nat \<times> block) list \<Rightarrow> block \<Rightarrow> 'f ins_inst" where
  "ins_switch b arg arms dflt d = do {
     require_integer_ty d arg TyU32;
     b_Switch b arg arms dflt d }"

definition ins_ret :: "builder \<Rightarrow> val option \<Rightarrow> 'f ins_inst" where
  "ins_ret b returning = b_Ret b (case returning of None \<Rightarrow> [] | Some v \<Rightarrow> [v])"

definition ins_ret_imm :: "builder \<Rightarrow> 'f immediate \<Rightarrow> 'f ins_inst" where
  "ins_ret_imm b arg = build b (IRetImm OcRet arg) TyUnit"

definition ins_unreachable :: "builder \<Rightarrow> 'f ins_inst" where
  "ins_unreachable b = build b (IPrimOp OcUnreachable []) TyNever"

section \<open>The function builder\<close>

record 'f function_builder =
  fb_func :: "'f hir_function"
  fb_position :: block

definition fb_new :: "'f hir_function \<Rightarrow> 'f function_builder" where
  "fb_new f =
     (let entry = entry_block (hf_dfg f) in
      \<lparr>fb_func = f, fb_position = (case last_block (hf_dfg f) of None \<Rightarrow> entry | Some b \<Rightarrow> b)\<rparr>)"

definition fb_current_block :: "'f function_builder \<Rightarrow> block option" where
  "fb_current_block fb = (if fb_position fb = reserved_block then None else Some (fb_position fb))"

definition fb_switch_to_block :: "block \<Rightarrow> 'f function_builder \<Rightarrow> 'f function_builder" where
  "fb_switch_to_block b fb = fb\<lparr>fb_position := b\<rparr>"

definition fb_create_block :: "'f function_builder \<Rightarrow> (block \<times> 'f function_builder) option" where
  "fb_create_block fb = do {
     (b, d) \<leftarrow> dfg_create_block (hf_dfg (fb_func fb));
     Some (b, fb\<lparr>fb_func := (fb_func fb)\<lparr>hf_dfg := d\<rparr>\<rparr>) }"

definition fb_detach_block :: "block \<Rightarrow> 'f function_builder \<Rightarrow> 'f function_builder option" where
  "fb_detach_block b fb = do {
     c \<leftarrow> fb_current_block fb;
     assert_that (b \<noteq> c);
     d \<leftarrow> detach_block b (hf_dfg (fb_func fb));
     Some (fb\<lparr>fb_func := (fb_func fb)\<lparr>hf_dfg := d\<rparr>\<rparr>) }"

definition fb_append_block_param ::
  "block \<Rightarrow> hir_type \<Rightarrow> 'f function_builder \<Rightarrow> (val \<times> 'f function_builder) option" where
  "fb_append_block_param b ty fb = do {
     (v, d) \<leftarrow> append_block_param b ty (hf_dfg (fb_func fb));
     Some (v, fb\<lparr>fb_func := (fb_func fb)\<lparr>hf_dfg := d\<rparr>\<rparr>) }"

definition fb_create_global_value ::
  "global_value_data \<Rightarrow> 'f function_builder \<Rightarrow> global_value \<times> 'f function_builder" where
  "fb_create_global_value data fb =
     (let (g, d) = create_global_value data (hf_dfg (fb_func fb)) in
      (g, fb\<lparr>fb_func := (fb_func fb)\<lparr>hf_dfg := d\<rparr>\<rparr>))"

definition fb_import_function :: "ident \<Rightarrow> ident \<Rightarrow> signature \<Rightarrow> 'f function_builder \<Rightarrow>
    (function_ident + function_ident) \<times> 'f function_builder" where
  "fb_import_function m n sig fb =
     (let (r, d) = import_function m n sig (hf_dfg (fb_func fb)) in
      (r, fb\<lparr>fb_func := (fb_func fb)\<lparr>hf_dfg := d\<rparr>\<rparr>))"

definition fb_ins :: "'f function_builder \<Rightarrow> builder option" where
  "fb_ins fb = do { b \<leftarrow> fb_current_block fb; default_builder (hf_dfg (fb_func fb)) b }"

end
