(* ===== verification/BuilderProps.thy ===== *)
theory BuilderProps
  imports HirBuilder DfgProps
begin

text \<open>
  Properties of the graph and of the builders: every sequence of edits keeps the graph well
  formed with one definition per value, insertion and replacement of uses do what they say,
  the builders type their results, and loading through a loaded global never returns.
\<close>

section \<open>An example\<close>

text \<open>A function of two \<open>u32\<close> parameters whose entry block adds them and returns the sum.\<close>

definition demo_id :: function_ident where "demo_id = FunctionIdent ''m'' ''f''"

definition demo_param :: abi_param where
  "demo_param = \<lparr>ap_ty = TyU32, ap_purpose = ApDefault, ap_extension = AeNone\<rparr>"

definition demo_signature :: signature where
  "demo_signature = \<lparr>sig_params = [demo_param, demo_param], sig_results = [demo_param],
     sig_cc = CcFast, sig_linkage = LkExternal\<rparr>"

definition demo_function :: "'f hir_function" where
  "demo_function = the (new_hir_function demo_id demo_signature)"

definition demo_dfg :: "'f dfg" where
  "demo_dfg = snd (the (ins_add Checked (InsertAt (ip_after (PpBlock 0))) 0 1 (hf_dfg demo_function)))"

lemmas demo_eval = demo_id_def demo_param_def demo_signature_def new_hir_function_def default_dfg_def
  entry_block_def append_block_param_def update_block_def om_update_def am_update_def am_get_def
  make_value_def dfg_block_def om_get_def new_block_data_def Let_def

lemmas build_eval = ins_add_def binary_int_op_def assert_integer_operands_def
  require_matching_operands_def value_type_def dfg_value_data_def nth_opt_def b_BinaryWithOverflow_def
  insert_build_def is_block_terminated_def last_inst_def bd_last_def insert_inst_def
  am_alloc_key_def am_append_def make_results_def result_types_def inst_data_def dfg_inst_node_def
  call_signature_def analyze_call_def op_results_def append_result_def bd_append_def
  into_first_result_def first_result_def ip_after_def is_integer_def is_terminator_def

lemma demo_function_eq: "new_hir_function demo_id demo_signature = Some demo_function"
  unfolding demo_function_def by (simp add: demo_eval)


lemma demo_build:
  "build (InsertAt (ip_after (PpBlock 0))) (IBinaryOp OcAdd Checked 0 1) TyU32 (hf_dfg demo_function)
     = Some (0, demo_dfg)"
  by (simp add: demo_dfg_def demo_function_def demo_eval build_eval)


lemma demo_dfg_results: "dfg_results demo_dfg 0 = [2]"
  by (simp add: demo_dfg_def demo_function_def demo_eval build_eval)

section \<open>Edits of the graph\<close>

inductive dfg_edit :: "'f dfg \<Rightarrow> 'f dfg \<Rightarrow> bool" where
  edit_build: "build b data ty d = Some (i, d') \<Longrightarrow> dfg_edit d d'"
| edit_insert: "insert_inst ip data ty d = Some (i, d') \<Longrightarrow> dfg_edit d d'"
| edit_clone: "clone_inst i d = Some (k, d') \<Longrightarrow> dfg_edit d d'"
| edit_uses: "replace_uses i v r d = Some d' \<Longrightarrow> dfg_edit d d'"
| edit_type: "set_value_type v ty d = Some d' \<Longrightarrow> dfg_edit d d'"
| edit_block: "dfg_create_block d = Some (b, d') \<Longrightarrow> dfg_edit d d'"
| edit_block_after: "create_block_after a d = Some (b, d') \<Longrightarrow> dfg_edit d d'"
| edit_detach: "detach_block b d = Some d' \<Longrightarrow> dfg_edit d d'"
| edit_param: "append_block_param b ty d = Some (v, d') \<Longrightarrow> dfg_edit d d'"
| edit_params: "clone_block_params src dest d = Some d' \<Longrightarrow> dfg_edit d d'"
| edit_import: "import_function m n sig d = (r, d') \<Longrightarrow> dfg_edit d d'"
| edit_global: "create_global_value g d = (gv, d') \<Longrightarrow> dfg_edit d d'"

lemma build_wf: "build b data ty d = Some (i, d') \<Longrightarrow> dfg_wf d \<Longrightarrow> dfg_wf d'"
  by (cases b) (auto simp: insert_build_def replace_build_def
      intro: insert_inst_wf replace_results_wf set_inst_data_wf)

lemma dfg_edit_wf: "dfg_edit d d' \<Longrightarrow> dfg_wf d \<Longrightarrow> dfg_wf d'"
  by (induction rule: dfg_edit.induct)
    (auto intro: build_wf insert_inst_wf clone_inst_wf replace_uses_wf set_value_type_wf
      dfg_create_block_wf create_block_after_wf detach_block_wf append_block_param_wf
      clone_block_params_wf import_function_wf create_global_value_wf)

lemma dfg_edits_wf: "dfg_edit\<^sup>*\<^sup>* d d' \<Longrightarrow> dfg_wf d \<Longrightarrow> dfg_wf d'"
  by (induction rule: rtranclp_induct) (auto intro: dfg_edit_wf)

text \<open>
  C20. Every graph that the operations build from a new function is in SSA form: a value is the
  result of one instruction at one position, or the parameter of one block at one position,
  and its data says which; and the instruction lists of the blocks agree with the arena: each
  instruction of a block is allocated, names that block as its own, and occurs in it once.
\<close>

theorem edits_keep_ssa_form:
  assumes "new_hir_function f sig = Some h" "dfg_edit\<^sup>*\<^sup>* (hf_dfg h) d"
  shows "(k < length (dfg_results d i) \<longrightarrow>
            (\<exists>ty. dfg_value_data d (dfg_results d i ! k) = Some (VInst ty k i))) \<and>
         (dfg_block d b = Some bd \<and> k < length (bd_params bd) \<longrightarrow>
            (\<exists>ty. dfg_value_data d (bd_params bd ! k) = Some (VParam ty k b))) \<and>
         (k < length (dfg_results d i) \<and> l < length (dfg_results d j) \<and>
            dfg_results d i ! k = dfg_results d j ! l \<longrightarrow> i = j \<and> k = l) \<and>
         (dfg_block d b = Some bd \<and> k < length (bd_params bd) \<and> l < length (dfg_results d j) \<longrightarrow>
            bd_params bd ! k \<noteq> dfg_results d j ! l) \<and>
         (dfg_block d b = Some bd \<and> i \<in> set (bd_insts bd) \<longrightarrow>
            distinct (bd_insts bd) \<and> inst_block d i = Some (Some b)) \<and>
         om_contains (dfg_blocks d) (entry_block d)"
proof -
  have wf: "dfg_wf d"
    using dfg_edits_wf [OF assms(2)] new_hir_function_wf [OF assms(1)] by blast
  have res: "\<exists>ty. dfg_value_data d (dfg_results d i ! k) = Some (VInst ty k i)"
    if "k < length (dfg_results d i)" for i k
    using wf that unfolding dfg_wf_def results_wf_def by blast
  have par: "\<exists>ty. dfg_value_data d (bd_params bd ! k) = Some (VParam ty k b)"
    if "dfg_block d b = Some bd" "k < length (bd_params bd)" for b bd k
    using wf that unfolding dfg_wf_def params_wf_def by blast
  have blk: "distinct (bd_insts bd) \<and> inst_block d i = Some (Some b)"
    if b: "dfg_block d b = Some bd" "i \<in> set (bd_insts bd)" for b bd i
  proof -
    from wf b obtain n where n: "dfg_inst_node d i = Some n" "in_block n = b" and "distinct (bd_insts bd)"
      unfolding dfg_wf_def blocks_wf_def by blast
    moreover have "inst_is_linked d i"
      using b unfolding inst_is_linked_def dfg_block_get list_ex_iff
      by (intro bexI [of _ "Some bd"]) (auto simp: am_get_def split: if_splits dest: nth_mem)
    ultimately show ?thesis by (simp add: inst_block_def)
  qed
  show ?thesis
    using res par blk wf
    by (auto 0 3 simp: dfg_wf_def blocks_wf_def entry_block_def) (metis option.inject value_data.inject(1) value_data.distinct(1))+
qed

theorem edits_keep_ssa_form_witness:
  "dfg_edit\<^sup>*\<^sup>* (hf_dfg (demo_function :: int hir_function)) demo_dfg \<and>
   (\<exists>ty. dfg_value_data (demo_dfg :: int dfg) (dfg_results (demo_dfg :: int dfg) 0 ! 0) = Some (VInst ty 0 0))"
proof -
  have e: "dfg_edit\<^sup>*\<^sup>* (hf_dfg (demo_function :: int hir_function)) demo_dfg"
    by (rule r_into_rtranclp, rule edit_build, rule demo_build)
  show ?thesis
    using e edits_keep_ssa_form [OF demo_function_eq e, where i = 0 and k = 0]
    by (simp add: demo_dfg_results)
qed

section \<open>Insertion and replacement\<close>

lemma append_results_spec:
  "append_results i tys d = Some d' \<Longrightarrow>
     dfg_values d' = dfg_values d @ map (\<lambda>k. VInst (tys ! k) (length (dfg_results d i) + k) i) [0 ..< length tys] \<and>
     dfg_results d' = (dfg_results d)(i := dfg_results d i @
        [length (dfg_values d) ..< length (dfg_values d) + length tys])"
proof (induction tys arbitrary: d)
  case (Cons ty tys)
  then obtain v d1 where a: "append_result i ty d = Some (v, d1)"
    and r: "append_results i tys d1 = Some d'" by auto
  have "[0 ..< length (ty # tys)] = 0 # map Suc [0 ..< length tys]"
    by (metis length_Cons map_Suc_upt upt_conv_Cons zero_less_Suc)
  moreover have "[length (dfg_values d) ..< length (dfg_values d) + length (ty # tys)] =
      length (dfg_values d) # [Suc (length (dfg_values d)) ..< Suc (length (dfg_values d)) + length tys]"
    by (simp add: upt_rec)
  ultimately show ?case
    using Cons.IH [OF r] a by (auto simp: append_result_eq comp_def)
qed simp

lemma value_type_append:
  assumes "dfg_values d' = dfg_values d @ xs" "value_type d w = Some t"
  shows "value_type d' w = Some t"
  using assms by (auto simp: value_type_def dfg_value_data_def nth_opt_eq_Some nth_append)

text \<open>What an insertion leaves: the instruction, its results, and everything else unchanged.\<close>

lemma insert_inst_spec:
  assumes "insert_inst ip data ty d = Some (i, d')" "dfg_wf d"
  obtains b bd js tys where "i = length (dfg_insts d)" "ip_block ip d = Some b"
    "dfg_block d b = Some bd" "insert_at ip i (bd_insts bd) = Some js"
    "dfg_block d' = (dfg_block d)(b := Some (bd\<lparr>bd_insts := js\<rparr>))"
    "inst_data d' = (inst_data d)(i := Some data)"
    "result_types (d\<lparr>dfg_insts := dfg_insts d @ [Some (new_node i b data)],
       dfg_results := (dfg_results d)(i := [])\<rparr>) i ty = Some tys"
    "dfg_results d' = (dfg_results d)(i := [length (dfg_values d) ..< length (dfg_values d) + length tys])"
    "dfg_values d' = dfg_values d @ map (\<lambda>k. VInst (tys ! k) k i) [0 ..< length tys]"
  using assms(1)
proof (rule insert_instD)
  fix b bd tys js d1
  let ?d = "d\<lparr>dfg_insts := dfg_insts d @ [Some (new_node i b data)], dfg_results := (dfg_results d)(i := [])\<rparr>"
  assume i: "i = length (dfg_insts d)" and b: "ip_block ip d = Some b" "dfg_block d b = Some bd"
    and t: "result_types ?d i ty = Some tys"
    and r: "append_results i tys ?d = Some d1" and ins: "insert_at ip i (bd_insts bd) = Some js"
    and u: "update_block b (\<lambda>_. bd\<lparr>bd_insts := js\<rparr>) d1 = Some d'"
  from append_results_frame [OF r] append_results_spec [OF r]
  have fr: "dfg_insts d1 = dfg_insts d @ [Some (new_node i b data)]" "dfg_blocks d1 = dfg_blocks d"
    "dfg_results d1 = (dfg_results d)(i := [length (dfg_values d) ..< length (dfg_values d) + length tys])"
    "dfg_values d1 = dfg_values d @ map (\<lambda>k. VInst (tys ! k) k i) [0 ..< length tys]"
    by simp_all
  from u obtain bd1 where
    d': "d' = d1\<lparr>dfg_blocks := dfg_blocks d1\<lparr>om_map := (om_map (dfg_blocks d1))[b := Some (bd\<lparr>bd_insts := js\<rparr>)]\<rparr>\<rparr>"
    and l: "b < length (om_map (dfg_blocks d1))" by (rule update_blockD)
  have "dfg_block d' = (dfg_block d)(b := Some (bd\<lparr>bd_insts := js\<rparr>))"
    using l fr d' by (intro ext) (simp add: dfg_block_get)
  moreover have "inst_data d' = (inst_data d)(i := Some data)"
    using fr d' i by (intro ext) (simp add: inst_data_def dfg_inst_node_def am_get_push new_node_def)
  moreover have "dfg_results d' = dfg_results d1" "dfg_values d' = dfg_values d1"
    using d' by simp_all
  ultimately show thesis using that i b ins t fr by simp
qed





section \<open>The types of what the builders produce\<close>

text \<open>
  \<open>yields d data ty v d'\<close>: \<open>d'\<close> is \<open>d\<close> with the instruction \<open>data\<close> added, and \<open>v\<close> is its first
  result, a new value of type \<open>ty\<close>; every older value keeps its type.
\<close>

definition yields :: "'f dfg \<Rightarrow> 'f instruction \<Rightarrow> hir_type \<Rightarrow> val \<Rightarrow> 'f dfg \<Rightarrow> bool" where
  "yields d data ty v d' \<longleftrightarrow>
     v = length (dfg_values d) \<and> value_type d' v = Some ty \<and>
     inst_data d' = (inst_data d)(length (dfg_insts d) := Some data) \<and>
     first_result d' (length (dfg_insts d)) = Some v \<and>
     (\<forall>w t. value_type d w = Some t \<longrightarrow> value_type d' w = Some t)"

lemma build_yields:
  assumes "into_first_result (build (InsertAt ip) data ty d) = Some (v, d')" "dfg_wf d"
    and "op_results (inst_opcode data) ty = Some [t]"
    and "analyze_call data = NotACall" "\<And>asm bs. data \<noteq> IInlineAsm asm bs"
  shows "yields d data t v d'"
proof -
  from assms(1) obtain i where ins: "insert_inst ip data ty d = Some (i, d')"
    and v: "first_result d' i = Some v"
    by (auto simp: into_first_result_def insert_build_def)
  obtain b bd js tys where i: "i = length (dfg_insts d)" and "ip_block ip d = Some b"
    "dfg_block d b = Some bd" "insert_at ip i (bd_insts bd) = Some js"
    "dfg_block d' = (dfg_block d)(b := Some (bd\<lparr>bd_insts := js\<rparr>))"
    and data: "inst_data d' = (inst_data d)(i := Some data)"
    and t: "result_types (d\<lparr>dfg_insts := dfg_insts d @ [Some (new_node i b data)],
       dfg_results := (dfg_results d)(i := [])\<rparr>) i ty = Some tys"
    and r: "dfg_results d' = (dfg_results d)(i := [length (dfg_values d) ..< length (dfg_values d) + length tys])"
    and vs: "dfg_values d' = dfg_values d @ map (\<lambda>k. VInst (tys ! k) k i) [0 ..< length tys]"
    by (rule insert_inst_spec [OF ins assms(2)])
  have tys: "tys = [t]"
    using t assms(3-5) i
    by (cases data) (auto simp: result_types_def call_signature_def inst_data_def dfg_inst_node_def
        am_get_push new_node_def)
  then have "v = length (dfg_values d)" using v r by (simp add: first_result_def)
  then show ?thesis
    using v vs tys i data by (auto simp: yields_def value_type_def dfg_value_data_def nth_opt_def nth_append)
qed




lemma op_results_cast: "op \<in> {OcPtrToInt, OcIntToPtr, OcCast, OcTrunc, OcZext, OcSext, OcSelect} \<Longrightarrow>
    op_results op ty = Some [ty]"
  by (auto simp: op_results_def)



lemma ptrtoint_yields:
  "ins_ptrtoint (InsertAt ip) x ty d = Some (v, d') \<Longrightarrow> dfg_wf d \<Longrightarrow>
   is_integer ty \<and> yields d (IUnaryOp OcPtrToInt Unchecked x) ty v d'"
  by (auto simp: ins_ptrtoint_def format_defs analyze_call_def op_results_cast intro!: build_yields)







section \<open>Loading through a loaded global\<close>

lemma load_global_relative_returns:
  "load_global_relative b base ty offset d = Some r \<Longrightarrow> \<nexists>g off t. global_value d base = Some (GvLoad g off t)"
proof (induction rule: load_global_relative.raw_induct [rotated, consumes 1])
  case (1 f b base ty offset d r)
  show ?case
  proof (cases "global_value d base")
    case (Some data)
    then show ?thesis using 1 by (cases data) auto
  qed simp
qed

text \<open>
  C23. A global that loads a pointer cannot be loaded again: \<open>load_global_relative\<close> and
  \<open>load_global\<close> on such a base call themselves on the same base without end, and so does
  \<open>global_addr_offset\<close>.  No such call returns a value.
\<close>

theorem load_of_loaded_global_never_returns:
  assumes "global_value d base = Some (GvLoad g off t)"
  shows "load_global_relative b base ty offset d = None \<and> ins_load_global b base ty d = None \<and>
         ins_global_addr_offset b base offset ty d = None"
proof -
  have never: "load_global_relative b base ty offset d = None" for b ty offset
    using load_global_relative_returns [of b base ty offset d] assms
    by (cases "load_global_relative b base ty offset d") auto
  moreover have "ins_global_addr_offset b base offset ty d = None"
    using assms never by (simp add: ins_global_addr_offset_def ins_load_global_def bind_assert_that)
  ultimately show ?thesis by (simp add: ins_load_global_def)
qed

theorem load_of_loaded_global_never_returns_witness:
  "load_global_relative (InsertAt (ip_after (PpBlock 0))) 1 TyU32 0
     ((default_dfg :: int dfg)\<lparr>dfg_globals := [GvSymbol ''g'' 0, GvLoad 0 0 (TyPtr TyU32)]\<rparr>) = None"
  by (rule load_of_loaded_global_never_returns [THEN conjunct1, of _ _ 0 0 "TyPtr TyU32"])
    (simp add: global_value_def nth_opt_def)

end
