(* ===== verification/Cfg.thy ===== *)
theory Cfg
  imports HirFunc DfgProps
begin

text \<open>
  The control flow graph (hir-analysis/src/control_flow.rs).  The ordered map of predecessors,
  from the branch instruction to its block, is a list of pairs sorted by instruction; the
  ordered set of successors is a sorted list.  The secondary map of nodes is a function whose
  default is the empty node.
\<close>

section \<open>Ordered maps and sets\<close>

fun map_insert :: "nat \<Rightarrow> 'v \<Rightarrow> (nat \<times> 'v) list \<Rightarrow> (nat \<times> 'v) list" where
  "map_insert k v [] = [(k, v)]"
| "map_insert k v ((j, w) # xs) =
     (if k < j then (k, v) # (j, w) # xs
      else if k = j then (k, v) # xs
      else (j, w) # map_insert k v xs)"

fun set_insert :: "nat \<Rightarrow> nat list \<Rightarrow> nat list" where
  "set_insert k [] = [k]"
| "set_insert k (j # xs) =
     (if k < j then k # j # xs else if k = j then j # xs else j # set_insert k xs)"

definition map_sorted :: "(nat \<times> 'v) list \<Rightarrow> bool" where
  "map_sorted m = sorted_wrt (<) (map fst m)"

definition set_sorted :: "nat list \<Rightarrow> bool" where
  "set_sorted s = sorted_wrt (<) s"

lemma set_set_insert [simp]: "set (set_insert k s) = insert k (set s)"
  by (induction k s rule: set_insert.induct) auto

lemma set_sorted_insert: "set_sorted s \<Longrightarrow> set_sorted (set_insert k s)"
  by (induction k s rule: set_insert.induct) (auto simp: set_sorted_def)

lemma set_sorted_unique: "set_sorted s \<Longrightarrow> set_sorted t \<Longrightarrow> set s = set t \<Longrightarrow> s = t"
  unfolding set_sorted_def by (metis strict_sorted_equal strict_sorted_iff sorted_wrt_less_idx)

lemma fst_map_insert [simp]: "fst ` set (map_insert k v m) = insert k (fst ` set m)"
  by (induction k v m rule: map_insert.induct) auto

lemma map_sorted_insert: "map_sorted m \<Longrightarrow> map_sorted (map_insert k v m)"
proof (induction k v m rule: map_insert.induct)
  case (2 k v j w xs)
  have "\<forall>x \<in> fst ` set (map_insert k v xs). j < x" if "\<not> k < j" "k \<noteq> j"
    using 2 that by (auto simp: map_sorted_def)
  then show ?case using 2 by (auto simp: map_sorted_def)
qed (simp add: map_sorted_def)

lemma set_map_insert:
  "map_sorted m \<Longrightarrow> set (map_insert k v m) = insert (k, v) {p \<in> set m. fst p \<noteq> k}"
  by (induction k v m rule: map_insert.induct) (auto simp: map_sorted_def)

lemma map_sorted_filter: "map_sorted m \<Longrightarrow> map_sorted (filter P m)"
  unfolding map_sorted_def by (induction m) auto

lemma map_sorted_distinct: "map_sorted m \<Longrightarrow> (k, v) \<in> set m \<Longrightarrow> (k, w) \<in> set m \<Longrightarrow> v = w"
  by (induction m) (force simp: map_sorted_def)+

lemma map_sorted_unique:
  assumes "map_sorted m" "map_sorted n" "set m = set n"
  shows "m = n"
proof (rule map_sorted_distinct_set_unique [where f = fst])
  show "inj_on fst (set m \<union> set n)"
    using map_sorted_distinct [OF assms(1)] assms(3) by (auto intro!: inj_onI)
qed (use assms in \<open>auto simp: map_sorted_def strict_sorted_iff\<close>)

section \<open>The graph\<close>

record cfg_node =
  cn_predecessors :: "(inst \<times> block) list"
  cn_successors :: "block list"

record control_flow_graph =
  cfg_data :: "block \<Rightarrow> cfg_node"
  cfg_valid :: bool

definition cfg_new :: control_flow_graph where
  "cfg_new = \<lparr>cfg_data = (\<lambda>_. \<lparr>cn_predecessors = [], cn_successors = []\<rparr>), cfg_valid = False\<rparr>"

definition cfg_clear :: "control_flow_graph \<Rightarrow> control_flow_graph" where
  "cfg_clear c = c\<lparr>cfg_data := (\<lambda>_. \<lparr>cn_predecessors = [], cn_successors = []\<rparr>), cfg_valid := False\<rparr>"

definition pred_iter :: "control_flow_graph \<Rightarrow> block \<Rightarrow> (inst \<times> block) list" where
  "pred_iter c b = cn_predecessors (cfg_data c b)"

definition succ_iter :: "control_flow_graph \<Rightarrow> block \<Rightarrow> block list option" where
  "succ_iter c b = do { assert_that (cfg_valid c); Some (cn_successors (cfg_data c b)) }"

definition num_predecessors :: "control_flow_graph \<Rightarrow> block \<Rightarrow> nat" where
  "num_predecessors c b = length (cn_predecessors (cfg_data c b))"

definition num_successors :: "control_flow_graph \<Rightarrow> block \<Rightarrow> nat" where
  "num_successors c b = length (cn_successors (cfg_data c b))"

text \<open>
  The visits of \<open>visit_block_succs\<close> in order: the branch, the destination, and whether it is
  an arm of a switch.
\<close>

definition inst_succs :: "inst \<Rightarrow> 'f instruction \<Rightarrow> (inst \<times> block \<times> bool) list option" where
  "inst_succs i data =
     (case data of
        IBr _ dest _ \<Rightarrow> Some [(i, dest, False)]
      | ICondBr _ _ t e \<Rightarrow> Some [(i, fst t, False), (i, fst e, False)]
      | ISwitch _ _ arms dflt \<Rightarrow> Some ((i, dflt, False) # map (\<lambda>(_, dest). (i, dest, True)) arms)
      | _ \<Rightarrow> do { assert_that (\<not> is_branch (inst_opcode data)); Some [] })"

definition visit_block_succs :: "'f dfg \<Rightarrow> block \<Rightarrow> (inst \<times> block \<times> bool) list option" where
  "visit_block_succs d b = do {
     l \<leftarrow> last_inst d b;
     case l of
       None \<Rightarrow> Some []
     | Some i \<Rightarrow> do { data \<leftarrow> inst_data d i; inst_succs i data } }"

definition add_edge :: "block \<Rightarrow> inst \<Rightarrow> block \<Rightarrow> control_flow_graph \<Rightarrow> control_flow_graph" where
  "add_edge from from_inst to c =
     (let data = cfg_data c;
          data = data(from := (data from)\<lparr>cn_successors := set_insert to (cn_successors (data from))\<rparr>);
          data = data(to := (data to)\<lparr>cn_predecessors := map_insert from_inst from (cn_predecessors (data to))\<rparr>)
      in c\<lparr>cfg_data := data\<rparr>)"

definition compute_block :: "'f dfg \<Rightarrow> block \<Rightarrow> control_flow_graph \<Rightarrow> control_flow_graph option" where
  "compute_block d b c = do {
     visits \<leftarrow> visit_block_succs d b;
     Some (fold (\<lambda>(i, dest, _). add_edge b i dest) visits c) }"

primrec compute_blocks :: "'f dfg \<Rightarrow> block list \<Rightarrow> control_flow_graph \<Rightarrow> control_flow_graph option" where
  "compute_blocks d [] c = Some c"
| "compute_blocks d (b # bs) c = do { c \<leftarrow> compute_block d b c; compute_blocks d bs c }"

definition cfg_compute :: "'f dfg \<Rightarrow> control_flow_graph \<Rightarrow> control_flow_graph option" where
  "cfg_compute d c = do {
     c \<leftarrow> compute_blocks d (block_keys d) (cfg_clear c);
     Some (c\<lparr>cfg_valid := True\<rparr>) }"

definition cfg_with_function :: "'f hir_function \<Rightarrow> control_flow_graph option" where
  "cfg_with_function f = cfg_compute (hf_dfg f) cfg_new"

definition retain_preds :: "block \<Rightarrow> block \<Rightarrow> control_flow_graph \<Rightarrow> control_flow_graph" where
  "retain_preds b s c = c\<lparr>cfg_data := (cfg_data c)(s := (cfg_data c s)\<lparr>cn_predecessors :=
     filter (\<lambda>(_, e). e \<noteq> b) (cn_predecessors (cfg_data c s))\<rparr>)\<rparr>"

definition invalidate_block_successors :: "block \<Rightarrow> control_flow_graph \<Rightarrow> control_flow_graph" where
  "invalidate_block_successors b c =
     (let successors = cn_successors (cfg_data c b);
          c = c\<lparr>cfg_data := (cfg_data c)(b := (cfg_data c b)\<lparr>cn_successors := []\<rparr>)\<rparr>
      in fold (retain_preds b) successors c)"

definition recompute_block :: "'f dfg \<Rightarrow> block \<Rightarrow> control_flow_graph \<Rightarrow> control_flow_graph option" where
  "recompute_block d b c = do {
     assert_that (cfg_valid c);
     compute_block d b (invalidate_block_successors b c) }"

definition cfg_detach_block :: "block \<Rightarrow> control_flow_graph \<Rightarrow> control_flow_graph option" where
  "cfg_detach_block b c = do {
     assert_that (cfg_valid c);
     Some (invalidate_block_successors b c) }"

section \<open>The edges a graph represents\<close>

text \<open>
  \<open>has_edges c E\<close>: the graph is exactly the set \<open>E\<close> of edges (block, branch, destination), in
  both directions.
\<close>

definition has_edges :: "control_flow_graph \<Rightarrow> (block \<times> inst \<times> block) set \<Rightarrow> bool" where
  "has_edges c E \<longleftrightarrow>
     (\<forall>b. set_sorted (cn_successors (cfg_data c b)) \<and> map_sorted (cn_predecessors (cfg_data c b))) \<and>
     (\<forall>b s. s \<in> set (cn_successors (cfg_data c b)) \<longleftrightarrow> (\<exists>i. (b, i, s) \<in> E)) \<and>
     (\<forall>i b s. (i, b) \<in> set (cn_predecessors (cfg_data c s)) \<longleftrightarrow> (b, i, s) \<in> E)"

lemma has_edges_unique:
  assumes "has_edges c E" "has_edges c' E" "cfg_valid c = cfg_valid c'"
  shows "c = c'"
proof -
  have "cfg_data c b = cfg_data c' b" for b
  proof -
    have "cn_successors (cfg_data c b) = cn_successors (cfg_data c' b)"
      using assms(1,2) by (intro set_sorted_unique set_eqI) (simp_all add: has_edges_def)
    moreover have "cn_predecessors (cfg_data c b) = cn_predecessors (cfg_data c' b)"
      using assms(1,2) by (intro map_sorted_unique) (auto simp: has_edges_def)
    ultimately show ?thesis by simp
  qed
  then have "cfg_data c = cfg_data c'" by (rule ext)
  with assms(3) show ?thesis by simp
qed

lemma has_edges_add:
  assumes "has_edges c E" "\<And>b'. (b', i, s) \<in> E \<Longrightarrow> b' = b"
  shows "has_edges (add_edge b i s c) (insert (b, i, s) E)"
proof -
  have succ: "cn_successors (cfg_data (add_edge b i s c) x) =
      (if x = b then set_insert s (cn_successors (cfg_data c b)) else cn_successors (cfg_data c x))" for x
    by (simp add: add_edge_def Let_def)
  have pred: "cn_predecessors (cfg_data (add_edge b i s c) x) =
      (if x = s then map_insert i b (cn_predecessors (cfg_data c s)) else cn_predecessors (cfg_data c x))" for x
    by (simp add: add_edge_def Let_def)
  have "(j, e) \<in> set (map_insert i b (cn_predecessors (cfg_data c s))) \<longleftrightarrow> (e, j, s) \<in> insert (b, i, s) E"
    for j e
    using assms by (auto simp: has_edges_def set_map_insert)
  then show ?thesis
    using assms(1) unfolding has_edges_def succ pred
    by (auto simp: set_sorted_insert map_sorted_insert)
qed

lemma cfg_valid_add_edge [simp]: "cfg_valid (add_edge b i s c) = cfg_valid c"
  by (simp add: add_edge_def Let_def)

definition block_edges :: "'f dfg \<Rightarrow> block \<Rightarrow> (block \<times> inst \<times> block) set" where
  "block_edges d b = {(b, i, s) | i s f vs. visit_block_succs d b = Some vs \<and> (i, s, f) \<in> set vs}"

lemma block_edges_fst: "(b', i, s) \<in> block_edges d b \<Longrightarrow> b' = b"
  by (auto simp: block_edges_def)

lemma inst_succs_inst: "inst_succs i data = Some vs \<Longrightarrow> (j, s, f) \<in> set vs \<Longrightarrow> j = i"
  by (cases data) (auto simp: inst_succs_def bind_assert_that split: if_splits)

lemma block_edges_owner:
  assumes "dfg_wf d" "(b', i, s) \<in> block_edges d b"
  shows "\<exists>n. dfg_inst_node d i = Some n \<and> in_block n = b"
proof -
  from assms(2) obtain bd where "dfg_block d b = Some bd" "i \<in> set (bd_insts bd)"
    by (auto simp: block_edges_def visit_block_succs_def last_inst_def bd_last_def
        split: option.splits if_splits dest!: inst_succs_inst)
  then show ?thesis
    using assms(1) unfolding dfg_wf_def blocks_wf_def by blast
qed

text \<open>Only the owners of the branches matter.\<close>

lemma compute_block_edges_gen:
  assumes "compute_block d b c = Some c'" "has_edges c E"
    and owner: "\<And>b' i s. (b', i, s) \<in> block_edges d b \<Longrightarrow> \<exists>n. dfg_inst_node d i = Some n \<and> in_block n = b"
    and "\<And>b' i s. (b', i, s) \<in> E \<Longrightarrow> \<exists>n. dfg_inst_node d i = Some n \<and> in_block n = b'"
  shows "has_edges c' (E \<union> block_edges d b) \<and> cfg_valid c' = cfg_valid c"
proof -
  from assms(1) obtain vs where vs: "visit_block_succs d b = Some vs"
    and c': "c' = fold (\<lambda>(i, dest, _). add_edge b i dest) vs c"
    by (auto simp: compute_block_def)
  have "has_edges (fold (\<lambda>(i, dest, _). add_edge b i dest) ws c) (E \<union> {(b, i, s) | i s f. (i, s, f) \<in> set ws}) \<and>
      cfg_valid (fold (\<lambda>(i, dest, _). add_edge b i dest) ws c) = cfg_valid c"
    if "set ws \<subseteq> set vs" for ws
    using that
  proof (induction ws rule: rev_induct)
    case Nil
    then show ?case using assms(2) by simp
  next
    case (snoc w ws)
    obtain i s f where w: "w = (i, s, f)" by (cases w)
    have ed: "(b, i, s) \<in> block_edges d b"
      using snoc.prems vs w by (auto simp: block_edges_def)
    have own: "b' = b" if "(b', i, s) \<in> E \<union> {(b, i, s) | i s f. (i, s, f) \<in> set ws}" for b'
      using that assms(4) [of b' i s] owner [OF ed] by auto
    have "E \<union> {(b, i, s) | i s f. (i, s, f) \<in> set (ws @ [w])} =
        insert (b, i, s) (E \<union> {(b, i, s) | i s f. (i, s, f) \<in> set ws})"
      using w by auto
    with has_edges_add [OF conjunct1 [OF snoc.IH] own] snoc.IH snoc.prems w show ?case by simp
  qed
  from this [of vs] show ?thesis
    using vs c' by (simp add: block_edges_def)
qed

lemma compute_block_edges:
  assumes "compute_block d b c = Some c'" "dfg_wf d" "has_edges c E"
    and "\<And>b' i s. (b', i, s) \<in> E \<Longrightarrow> \<exists>n. dfg_inst_node d i = Some n \<and> in_block n = b'"
  shows "has_edges c' (E \<union> block_edges d b) \<and> cfg_valid c' = cfg_valid c"
  using assms by (intro compute_block_edges_gen) (auto dest: block_edges_owner)

lemma compute_blocks_edges:
  assumes "compute_blocks d bs c = Some c'" "dfg_wf d" "has_edges c E"
    and "\<And>b' i s. (b', i, s) \<in> E \<Longrightarrow> \<exists>n. dfg_inst_node d i = Some n \<and> in_block n = b'"
  shows "has_edges c' (E \<union> (\<Union>b \<in> set bs. block_edges d b)) \<and> cfg_valid c' = cfg_valid c"
  using assms
proof (induction bs arbitrary: c E)
  case (Cons b bs)
  from Cons.prems(1) obtain c1 where 1: "compute_block d b c = Some c1" "compute_blocks d bs c1 = Some c'"
    by auto
  note e = compute_block_edges [OF 1(1) Cons.prems(2-4)]
  have "\<exists>n. dfg_inst_node d i = Some n \<and> in_block n = b'" if "(b', i, s) \<in> E \<union> block_edges d b" for b' i s
    using that Cons.prems(4) block_edges_owner [OF Cons.prems(2)] block_edges_fst by blast
  from Cons.IH [OF 1(2) Cons.prems(2) conjunct1 [OF e] this] show ?case
    using e by (simp add: Un_assoc)
qed simp

lemma compute_blocks_visits:
  "compute_blocks d bs c = Some c' \<Longrightarrow> y \<in> set bs \<Longrightarrow> \<exists>vs. visit_block_succs d y = Some vs"
  by (induction bs arbitrary: c) (auto simp: compute_block_def)

definition dfg_edges :: "'f dfg \<Rightarrow> (block \<times> inst \<times> block) set" where
  "dfg_edges d = (\<Union>b \<in> set (block_keys d). block_edges d b)"

lemma has_edges_clear: "has_edges (cfg_clear c) {}"
  by (simp add: has_edges_def cfg_clear_def set_sorted_def map_sorted_def)

lemma cfg_compute_edges:
  assumes "cfg_compute d c0 = Some c" "dfg_wf d"
  shows "has_edges c (dfg_edges d) \<and> cfg_valid c"
proof -
  from assms(1) obtain c1 where 1: "compute_blocks d (block_keys d) (cfg_clear c0) = Some c1"
    and c: "c = c1\<lparr>cfg_valid := True\<rparr>" by (auto simp: cfg_compute_def)
  from compute_blocks_edges [OF 1 assms(2) has_edges_clear]
  have "has_edges c1 (dfg_edges d)" by (simp add: dfg_edges_def)
  then show ?thesis using c by (simp add: has_edges_def)
qed

lemma invalidate_edges:
  assumes "has_edges c E"
  shows "has_edges (invalidate_block_successors b c) {e \<in> E. fst e \<noteq> b} \<and>
    cfg_valid (invalidate_block_successors b c) = cfg_valid c"
proof -
  let ?c = "c\<lparr>cfg_data := (cfg_data c)(b := (cfg_data c b)\<lparr>cn_successors := []\<rparr>)\<rparr>"
  have fold: "cfg_valid (fold (retain_preds b) ss x) = cfg_valid x \<and>
      cn_successors (cfg_data (fold (retain_preds b) ss x) z) = cn_successors (cfg_data x z) \<and>
      cn_predecessors (cfg_data (fold (retain_preds b) ss x) z) =
        (if z \<in> set ss then filter (\<lambda>(_, e). e \<noteq> b) (cn_predecessors (cfg_data x z))
         else cn_predecessors (cfg_data x z))" for ss x z
    by (induction ss arbitrary: x) (auto simp: retain_preds_def)
  have none: "(b, i, s) \<notin> E" if "s \<notin> set (cn_successors (cfg_data c b))" for i s
    using that assms by (auto simp: has_edges_def)
  show ?thesis
    using assms none unfolding invalidate_block_successors_def Let_def has_edges_def
    by (auto simp: fold map_sorted_filter set_sorted_def)
qed

text \<open>
  C24. The computed graph has exactly the edges of the function: a block is a predecessor of
  another, through its last instruction, if and only if that other is one of its successors,
  which are the destinations of the branch.  Recomputing one block after its instructions
  changed gives the same graph as computing everything again, and a detached block has no
  outgoing edges while every other edge stays.
\<close>

theorem control_flow_graph_exact:
  fixes d d' :: "'f dfg"
  assumes "dfg_wf d" "cfg_compute d c0 = Some c"
  shows "(s \<in> set (cn_successors (cfg_data c b)) \<longleftrightarrow>
            b \<in> set (block_keys d) \<and>
            (\<exists>i vs f. visit_block_succs d b = Some vs \<and> (i, s, f) \<in> set vs)) \<and>
         ((i, b) \<in> set (pred_iter c s) \<longleftrightarrow>
            b \<in> set (block_keys d) \<and> last_inst d b = Some (Some i) \<and>
            (\<exists>vs f. visit_block_succs d b = Some vs \<and> (i, s, f) \<in> set vs)) \<and>
         (dfg_wf d' \<and> b \<in> set (block_keys d') \<and> block_keys d' = block_keys d \<and>
            (\<forall>e. e \<noteq> b \<longrightarrow> visit_block_succs d' e = visit_block_succs d e) \<and>
            (\<forall>j n. dfg_inst_node d j = Some n \<longrightarrow>
               (\<exists>n'. dfg_inst_node d' j = Some n' \<and> in_block n' = in_block n)) \<and>
            recompute_block d' b c = Some c' \<longrightarrow> cfg_compute d' c0 = Some c') \<and>
         (cfg_detach_block b c = Some c' \<longrightarrow> cn_successors (cfg_data c' b) = [] \<and>
            set (pred_iter c' s) = {p \<in> set (pred_iter c s). snd p \<noteq> b})"
proof (intro conjI impI)
  note e = cfg_compute_edges [OF assms(2,1)]
  show "s \<in> set (cn_successors (cfg_data c b)) \<longleftrightarrow> b \<in> set (block_keys d) \<and>
      (\<exists>i vs f. visit_block_succs d b = Some vs \<and> (i, s, f) \<in> set vs)"
    using e unfolding has_edges_def dfg_edges_def block_edges_def by auto
  have last: "last_inst d b = Some (Some i)"
    if "visit_block_succs d b = Some vs" "(i, s, f) \<in> set vs" for vs f
    using that by (auto simp: visit_block_succs_def split: option.splits dest: inst_succs_inst)
  show "(i, b) \<in> set (pred_iter c s) \<longleftrightarrow> b \<in> set (block_keys d) \<and> last_inst d b = Some (Some i) \<and>
      (\<exists>vs f. visit_block_succs d b = Some vs \<and> (i, s, f) \<in> set vs)"
    using e last unfolding has_edges_def dfg_edges_def block_edges_def pred_iter_def by auto
  show "cn_successors (cfg_data c' b) = []" "set (pred_iter c' s) = {p \<in> set (pred_iter c s). snd p \<noteq> b}"
    if "cfg_detach_block b c = Some c'"
  proof -
    have c': "c' = invalidate_block_successors b c"
      using that by (auto simp: cfg_detach_block_def)
    from e have "has_edges c (dfg_edges d)" by simp
    from invalidate_edges [OF this, of b]
    have "has_edges c' {e \<in> dfg_edges d. fst e \<noteq> b}" using c' by simp
    then have none: "x \<notin> set (cn_successors (cfg_data c' b))" for x
      unfolding has_edges_def by auto
    have "cn_successors (cfg_data c' b) = []"
      using none by (cases "cn_successors (cfg_data c' b)") auto
    moreover have "\<And>i e. (i, e) \<in> set (pred_iter c' s) \<longleftrightarrow> (e, i, s) \<in> dfg_edges d \<and> e \<noteq> b"
      using \<open>has_edges c' _\<close> unfolding has_edges_def pred_iter_def by auto
    ultimately show "cn_successors (cfg_data c' b) = []"
      "set (pred_iter c' s) = {p \<in> set (pred_iter c s). snd p \<noteq> b}"
      using e unfolding has_edges_def pred_iter_def
      by auto
  qed
next
  assume a: "dfg_wf d' \<and> b \<in> set (block_keys d') \<and> block_keys d' = block_keys d \<and>
      (\<forall>e. e \<noteq> b \<longrightarrow> visit_block_succs d' e = visit_block_succs d e) \<and>
      (\<forall>j n. dfg_inst_node d j = Some n \<longrightarrow>
         (\<exists>n'. dfg_inst_node d' j = Some n' \<and> in_block n' = in_block n)) \<and>
      recompute_block d' b c = Some c'"
  note e = cfg_compute_edges [OF assms(2,1)]
  from a have r: "compute_block d' b (invalidate_block_successors b c) = Some c'"
    by (auto simp: recompute_block_def)
  have inv: "has_edges (invalidate_block_successors b c) {x \<in> dfg_edges d. fst x \<noteq> b}"
    "cfg_valid (invalidate_block_successors b c)"
    using invalidate_edges [of c "dfg_edges d" b] e by auto
  have own: "\<exists>n. dfg_inst_node d' i = Some n \<and> in_block n = b'" if "(b', i, s) \<in> {x \<in> dfg_edges d. fst x \<noteq> b}" for b' i s
  proof -
    from that obtain b0 where "(b', i, s) \<in> block_edges d b0" by (auto simp: dfg_edges_def)
    from block_edges_owner [OF assms(1) this] block_edges_fst [OF this] a show ?thesis by blast
  qed
  have c': "has_edges c' ({x \<in> dfg_edges d. fst x \<noteq> b} \<union> block_edges d' b)" "cfg_valid c'"
  proof -
    have "has_edges c' ({x \<in> dfg_edges d. fst x \<noteq> b} \<union> block_edges d' b) \<and>
        cfg_valid c' = cfg_valid (invalidate_block_successors b c)"
      by (rule compute_block_edges [OF r _ inv(1)]) (use a own in blast)+
    then show "has_edges c' ({x \<in> dfg_edges d. fst x \<noteq> b} \<union> block_edges d' b)" "cfg_valid c'"
      using inv(2) by simp_all
  qed
  have "{x \<in> dfg_edges d. fst x \<noteq> b} \<union> block_edges d' b = dfg_edges d'"
  proof -
    have same: "block_edges d' y = block_edges d y" if "y \<noteq> b" for y
      using a that by (simp add: block_edges_def)
    have own: "fst x = y" if "x \<in> block_edges e y" for e :: "'f dfg" and x y
      using that block_edges_fst by (cases x) fastforce
    show ?thesis
    proof (intro equalityI subsetI)
      fix x assume "x \<in> {x \<in> dfg_edges d. fst x \<noteq> b} \<union> block_edges d' b"
      then consider y where "y \<in> set (block_keys d)" "x \<in> block_edges d y" "y \<noteq> b" | "x \<in> block_edges d' b"
        using own unfolding dfg_edges_def by blast
      then show "x \<in> dfg_edges d'"
        using a same unfolding dfg_edges_def by cases auto
    next
      fix x assume "x \<in> dfg_edges d'"
      then obtain y where "y \<in> set (block_keys d')" "x \<in> block_edges d' y"
        unfolding dfg_edges_def by blast
      then show "x \<in> {x \<in> dfg_edges d. fst x \<noteq> b} \<union> block_edges d' b"
        using a same [of y] own [of x d' y] unfolding dfg_edges_def by (cases "y = b") auto
    qed
  qed
  with c' have c'': "has_edges c' (dfg_edges d')" by simp
  have def: "visit_block_succs d' x \<noteq> None" if "x \<in> set (block_keys d')" for x
  proof (cases "x = b")
    case True
    then show ?thesis using r by (auto simp: compute_block_def)
  next
    case False
    then show ?thesis
      using that a compute_blocks_visits assms(2) by (fastforce simp: cfg_compute_def)
  qed
  have "\<exists>c2. compute_blocks d' bs c1 = Some c2" if "set bs \<subseteq> set (block_keys d')" for bs c1
    using that def by (induction bs arbitrary: c1) (fastforce simp: compute_block_def)+
  from this [of "block_keys d'" "cfg_clear c0"]
  obtain c2 where "cfg_compute d' c0 = Some c2" by (auto simp: cfg_compute_def)
  with cfg_compute_edges [OF this] a c'' c'(2) show "cfg_compute d' c0 = Some c'"
    using has_edges_unique [of c2 "dfg_edges d'" c'] by auto
qed

text \<open>An example: the entry block branches to a second block.\<close>

definition branch_dfg :: "'f dfg" where
  "branch_dfg = snd (the (insert_inst (ip_after (PpBlock 0)) (IBr OcBr 1 []) TyUnit
     (snd (the (dfg_create_block default_dfg)))))"

lemmas branch_eval = default_dfg_def dfg_create_block_def om_append_def om_alloc_node_def om_contains_def
  am_contains_def am_get_def am_append_def am_alloc_key_def Let_def insert_inst_def ip_after_def
  make_results_def result_types_def inst_data_def dfg_inst_node_def call_signature_def analyze_call_def
  op_results_def dfg_block_def om_get_def new_block_data_def bd_append_def update_block_def om_update_def
  am_update_def nth_Cons'

lemma branch_dfg_steps:
  "\<exists>d1. dfg_create_block default_dfg = Some (1, d1) \<and>
     insert_inst (ip_after (PpBlock 0)) (IBr OcBr 1 []) TyUnit d1 = Some (0, branch_dfg)"
  by (simp add: branch_dfg_def branch_eval)

lemma branch_dfg_wf: "dfg_wf branch_dfg"
  using branch_dfg_steps default_dfg_wf by (auto intro: insert_inst_wf dfg_create_block_wf)

lemma branch_visit:
  "visit_block_succs (branch_dfg :: int dfg) 0 = Some [(0, 1, False)]"
  "visit_block_succs (branch_dfg :: int dfg) (Suc 0) = Some []"
  by (simp_all add: branch_dfg_def branch_eval visit_block_succs_def last_inst_def bd_last_def
      inst_succs_def)

lemma branch_keys: "block_keys (branch_dfg :: int dfg) = [0, 1]"
  by (simp add: branch_dfg_def branch_eval block_keys_def om_keys_def)

lemma branch_last:
  "last_inst (branch_dfg :: int dfg) 0 = Some (Some 0)"
  "last_inst (branch_dfg :: int dfg) (Suc 0) = Some None"
  by (simp_all add: branch_dfg_def branch_eval last_inst_def bd_last_def)

lemma branch_cfg: "\<exists>c. cfg_compute (branch_dfg :: int dfg) cfg_new = Some c"
  by (simp add: cfg_compute_def branch_keys compute_block_def branch_visit)

theorem control_flow_graph_exact_witness:
  "\<exists>c. cfg_compute (branch_dfg :: int dfg) cfg_new = Some c \<and>
     (0, 0) \<in> set (pred_iter c 1) \<and> 1 \<in> set (cn_successors (cfg_data c 0))"
proof -
  obtain c where c: "cfg_compute (branch_dfg :: int dfg) cfg_new = Some c"
    using branch_cfg by blast
  note exact = control_flow_graph_exact [OF branch_dfg_wf c, of 1 0 0 branch_dfg c]
  have "1 \<in> set (cn_successors (cfg_data c 0))"
    unfolding exact [THEN conjunct1] by (simp add: branch_visit branch_keys) blast
  then show ?thesis
    using c exact [THEN conjunct2, THEN conjunct1]
    by (auto simp: branch_visit branch_keys branch_last)
qed

end
