(* ===== verification/Domtree.thy ===== *)
theory Domtree
  imports Cfg
begin

text \<open>
  The dominator tree (hir-analysis/src/dominance.rs): the post-order of the reachable blocks,
  the immediate dominators, the queries, the pre-order numbering with its constant-time test,
  and the dominance frontier.  The secondary maps are functions with the default node; a loop
  that does not return, like a panic, is \<open>None\<close>.  The numbers are \<open>u32\<close>, and their arithmetic is
  checked.
\<close>

section \<open>Nodes\<close>

definition STRIDE :: nat where "STRIDE = 4"
definition SEEN :: nat where "SEEN = 1"

record dom_node =
  rpo_number :: nat
  dn_idom :: "inst option"

datatype visit = VisitFirst | VisitLast

type_synonym dom_nodes = "block \<Rightarrow> dom_node"

definition default_dom_node :: dom_node where
  "default_dom_node = \<lparr>rpo_number = 0, dn_idom = None\<rparr>"

record dominator_tree =
  dt_nodes :: dom_nodes
  dt_postorder :: "block list"
  dt_valid :: bool

definition dt_new :: dominator_tree where
  "dt_new = \<lparr>dt_nodes = (\<lambda>_. default_dom_node), dt_postorder = [], dt_valid = False\<rparr>"

definition dt_clear :: "dominator_tree \<Rightarrow> dominator_tree" where
  "dt_clear t = t\<lparr>dt_nodes := (\<lambda>_. default_dom_node), dt_postorder := [], dt_valid := False\<rparr>"

definition is_reachable :: "dominator_tree \<Rightarrow> block \<Rightarrow> bool" where
  "is_reachable t b = (rpo_number (dt_nodes t b) \<noteq> 0)"

definition cfg_postorder :: "dominator_tree \<Rightarrow> block list option" where
  "cfg_postorder t = do { assert_that (dt_valid t); Some (dt_postorder t) }"

definition idom :: "dominator_tree \<Rightarrow> block \<Rightarrow> inst option" where
  "idom t b = dn_idom (dt_nodes t b)"

section \<open>The post-order\<close>

text \<open>The destinations of the terminator, in the order in which they are pushed.\<close>

definition push_order :: "branch_info \<Rightarrow> block list" where
  "push_order info =
     (case info of
        NotABranch \<Rightarrow> []
      | SingleDest dest _ \<Rightarrow> [dest]
      | MultiDest jt \<Rightarrow> rev (map fst jt))"

definition push_dests :: "dom_nodes \<Rightarrow> block list \<Rightarrow> (visit \<times> block) list \<Rightarrow> (visit \<times> block) list" where
  "push_dests nodes dests stack =
     fold (\<lambda>dest stack. if rpo_number (nodes dest) = 0 then (VisitFirst, dest) # stack else stack)
       dests stack"

definition block_dests :: "'f dfg \<Rightarrow> block \<Rightarrow> block list option" where
  "block_dests d b = do {
     l \<leftarrow> last_inst d b;
     case l of
       None \<Rightarrow> Some []
     | Some i \<Rightarrow> do { info \<leftarrow> dfg_analyze_branch d i; Some (push_order info) } }"

partial_function (option) postorder_loop ::
  "'f dfg \<Rightarrow> (visit \<times> block) list \<Rightarrow> dom_nodes \<Rightarrow> block list \<Rightarrow> (dom_nodes \<times> block list) option" where
  "postorder_loop d stack nodes po =
     (case stack of
        [] \<Rightarrow> Some (nodes, po)
      | (VisitFirst, b) # stack \<Rightarrow>
          if rpo_number (nodes b) = 0 then do {
            let nodes = nodes(b := (nodes b)\<lparr>rpo_number := SEEN\<rparr>);
            dests \<leftarrow> block_dests d b;
            postorder_loop d (push_dests nodes dests ((VisitLast, b) # stack)) nodes po }
          else postorder_loop d stack nodes po
      | (VisitLast, b) # stack \<Rightarrow> postorder_loop d stack nodes (po @ [b]))"

definition compute_postorder :: "'f dfg \<Rightarrow> dominator_tree \<Rightarrow> dominator_tree option" where
  "compute_postorder d t = do {
     let t = dt_clear t;
     (nodes, po) \<leftarrow> postorder_loop d [(VisitFirst, entry_block d)] (dt_nodes t) (dt_postorder t);
     Some (t\<lparr>dt_nodes := nodes, dt_postorder := po\<rparr>) }"

section \<open>Immediate dominators\<close>

text \<open>A \<open>BlockPredecessor\<close> is the pair of the block and the instruction.\<close>

definition rpo_cmp_block :: "dom_nodes \<Rightarrow> block \<Rightarrow> block \<Rightarrow> ordering" where
  "rpo_cmp_block nodes a b = order_of (int (rpo_number (nodes a))) (int (rpo_number (nodes b)))"

definition climb :: "'f dfg \<Rightarrow> dom_nodes \<Rightarrow> block \<Rightarrow> (block \<times> inst) option" where
  "climb d nodes b = do {
     i \<leftarrow> dn_idom (nodes b);
     p \<leftarrow> Option.bind (inst_block d i) id;
     Some (p, i) }"

partial_function (option) common_dominator_loop ::
  "'f dfg \<Rightarrow> dom_nodes \<Rightarrow> block \<times> inst \<Rightarrow> block \<times> inst \<Rightarrow> ((block \<times> inst) \<times> (block \<times> inst)) option" where
  "common_dominator_loop d nodes a b =
     (case rpo_cmp_block nodes (fst a) (fst b) of
        Less \<Rightarrow> do { b \<leftarrow> climb d nodes (fst b); common_dominator_loop d nodes a b }
      | Greater \<Rightarrow> do { a \<leftarrow> climb d nodes (fst a); common_dominator_loop d nodes a b }
      | Equal \<Rightarrow> Some (a, b))"

definition common_dominator ::
  "'f dfg \<Rightarrow> dom_nodes \<Rightarrow> block \<times> inst \<Rightarrow> block \<times> inst \<Rightarrow> (block \<times> inst) option" where
  "common_dominator d nodes a b = do {
     (a, b) \<leftarrow> common_dominator_loop d nodes a b;
     assert_that (fst a = fst b);
     ord \<leftarrow> pp_cmp d (PpInst (snd a)) (PpInst (snd b));
     Some (if ord = Less then a else b) }"

fun fold_dominators ::
  "'f dfg \<Rightarrow> dom_nodes \<Rightarrow> block \<times> inst \<Rightarrow> (block \<times> inst) list \<Rightarrow> (block \<times> inst) option" where
  "fold_dominators d nodes cur [] = Some cur"
| "fold_dominators d nodes cur (p # ps) = do {
     cur \<leftarrow> common_dominator d nodes cur p;
     fold_dominators d nodes cur ps }"

definition reachable_preds :: "control_flow_graph \<Rightarrow> dom_nodes \<Rightarrow> block \<Rightarrow> (block \<times> inst) list" where
  "reachable_preds c nodes b =
     filter (\<lambda>(p, _). rpo_number (nodes p) > 1) (map (\<lambda>(i, p). (p, i)) (pred_iter c b))"

definition compute_idom :: "'f dfg \<Rightarrow> control_flow_graph \<Rightarrow> dom_nodes \<Rightarrow> block \<Rightarrow> inst option" where
  "compute_idom d c nodes b =
     (case reachable_preds c nodes b of
        [] \<Rightarrow> None
      | p # ps \<Rightarrow> map_option snd (fold_dominators d nodes p ps))"

primrec initial_pass ::
  "'f dfg \<Rightarrow> control_flow_graph \<Rightarrow> nat \<Rightarrow> block list \<Rightarrow> dom_nodes \<Rightarrow> dom_nodes option" where
  "initial_pass d c rpo_idx [] nodes = Some nodes"
| "initial_pass d c rpo_idx (b # bs) nodes = do {
     i \<leftarrow> compute_idom d c nodes b;
     n \<leftarrow> u32_add (as_u32 rpo_idx) 3;
     n \<leftarrow> u32_mul n STRIDE;
     initial_pass d c (Suc rpo_idx) bs (nodes(b := \<lparr>rpo_number = n, dn_idom = Some i\<rparr>)) }"

primrec update_pass ::
  "'f dfg \<Rightarrow> control_flow_graph \<Rightarrow> block list \<Rightarrow> dom_nodes \<Rightarrow> bool \<Rightarrow> (dom_nodes \<times> bool) option" where
  "update_pass d c [] nodes changed = Some (nodes, changed)"
| "update_pass d c (b # bs) nodes changed = do {
     i \<leftarrow> compute_idom d c nodes b;
     (if dn_idom (nodes b) \<noteq> Some i
      then update_pass d c bs (nodes(b := (nodes b)\<lparr>dn_idom := Some i\<rparr>)) True
      else update_pass d c bs nodes changed) }"

partial_function (option) converge ::
  "'f dfg \<Rightarrow> control_flow_graph \<Rightarrow> block list \<Rightarrow> dom_nodes \<Rightarrow> dom_nodes option" where
  "converge d c rpo nodes = do {
     r \<leftarrow> update_pass d c rpo nodes False;
     (if snd r then converge d c rpo (fst r) else Some (fst r)) }"

definition compute_domtree ::
  "'f dfg \<Rightarrow> control_flow_graph \<Rightarrow> dominator_tree \<Rightarrow> dominator_tree option" where
  "compute_domtree d c t =
     (if dt_postorder t = [] then Some t
      else do {
        let entry = last (dt_postorder t);
        let rpo = rev (butlast (dt_postorder t));
        let nodes = (dt_nodes t)(entry := (dt_nodes t entry)\<lparr>rpo_number := 2 * STRIDE\<rparr>);
        nodes \<leftarrow> initial_pass d c 0 rpo nodes;
        nodes \<leftarrow> converge d c rpo nodes;
        Some (t\<lparr>dt_nodes := nodes\<rparr>) })"

definition dt_compute ::
  "'f dfg \<Rightarrow> control_flow_graph \<Rightarrow> dominator_tree \<Rightarrow> dominator_tree option" where
  "dt_compute d c t = do {
     assert_that (cfg_valid c);
     t \<leftarrow> compute_postorder d t;
     t \<leftarrow> compute_domtree d c t;
     Some (t\<lparr>dt_valid := True\<rparr>) }"

definition dt_with_function :: "'f hir_function \<Rightarrow> control_flow_graph \<Rightarrow> dominator_tree option" where
  "dt_with_function f c = dt_compute (hf_dfg f) c dt_new"

section \<open>Queries\<close>

definition rpo_cmp :: "dominator_tree \<Rightarrow> program_point \<Rightarrow> program_point \<Rightarrow> 'f dfg \<Rightarrow> ordering option" where
  "rpo_cmp t a b d = do {
     ba \<leftarrow> pp_block d a;
     bb \<leftarrow> pp_block d b;
     (case rpo_cmp_block (dt_nodes t) ba bb of
        Equal \<Rightarrow> pp_cmp d a b
      | ord \<Rightarrow> Some ord) }"

text \<open>The finger that runs up the tree from \<open>b\<close> until it sees \<open>a\<close>.\<close>

partial_function (option) last_dominator_loop ::
  "dominator_tree \<Rightarrow> 'f dfg \<Rightarrow> nat \<Rightarrow> block \<Rightarrow> inst option \<Rightarrow> (block \<times> inst option) option option" where
  "last_dominator_loop t d rpo_a block_b inst_b =
     (if rpo_a < rpo_number (dt_nodes t block_b) then
        (case idom t block_b of
           None \<Rightarrow> Some None
         | Some i \<Rightarrow> do {
             p \<leftarrow> Option.bind (inst_block d i) id;
             last_dominator_loop t d rpo_a p (Some i) })
      else Some (Some (block_b, inst_b)))"

definition last_dominator ::
  "dominator_tree \<Rightarrow> block \<Rightarrow> program_point \<Rightarrow> 'f dfg \<Rightarrow> inst option option" where
  "last_dominator t a b d = do {
     (block_b, inst_b) \<leftarrow> (case b of
        PpBlock b \<Rightarrow> Some (b, None)
      | PpInst i \<Rightarrow> do { p \<leftarrow> Option.bind (inst_block d i) id; Some (p, Some i) });
     r \<leftarrow> last_dominator_loop t d (rpo_number (dt_nodes t a)) block_b inst_b;
     Some (case r of None \<Rightarrow> None | Some (p, i) \<Rightarrow> if a = p then i else None) }"

definition dominates :: "dominator_tree \<Rightarrow> program_point \<Rightarrow> program_point \<Rightarrow> 'f dfg \<Rightarrow> bool option" where
  "dominates t a b d =
     (case a of
        PpBlock block_a \<Rightarrow>
          if a = b then Some True
          else map_option (\<lambda>l. l \<noteq> None) (last_dominator t block_a b d)
      | PpInst inst_a \<Rightarrow> do {
          block_a \<leftarrow> Option.bind (inst_block d inst_a) id;
          l \<leftarrow> last_dominator t block_a b d;
          (case l of
             Some j \<Rightarrow> do { ord \<leftarrow> pp_cmp d (PpInst inst_a) (PpInst j); Some (ord \<noteq> Greater) }
           | None \<Rightarrow> Some False) })"

section \<open>Pre-order\<close>

record preorder_node =
  pn_child :: "block option"
  pn_sibling :: "block option"
  pre_number :: nat
  pre_max :: nat

type_synonym preorder_nodes = "block \<Rightarrow> preorder_node"

definition default_preorder_node :: preorder_node where
  "default_preorder_node = \<lparr>pn_child = None, pn_sibling = None, pre_number = 0, pre_max = 0\<rparr>"

fun link_children :: "dominator_tree \<Rightarrow> 'f dfg \<Rightarrow> block list \<Rightarrow> preorder_nodes \<Rightarrow> block list \<Rightarrow>
    (preorder_nodes \<times> block list) option" where
  "link_children t d [] nodes stack = Some (nodes, stack)"
| "link_children t d (b # bs) nodes stack =
     (case idom t b of
        Some i \<Rightarrow> do {
          p \<leftarrow> Option.bind (inst_block d i) id;
          let sib = pn_child (nodes p);
          let nodes = nodes(p := (nodes p)\<lparr>pn_child := Some b\<rparr>);
          let nodes = nodes(b := (nodes b)\<lparr>pn_sibling := sib\<rparr>);
          link_children t d bs nodes stack }
      | None \<Rightarrow> link_children t d bs nodes (b # stack))"

partial_function (option) number_nodes ::
  "preorder_nodes \<Rightarrow> block list \<Rightarrow> nat \<Rightarrow> preorder_nodes option" where
  "number_nodes nodes stack n =
     (case stack of
        [] \<Rightarrow> Some nodes
      | b # stack \<Rightarrow> do {
          n \<leftarrow> u32_add n 1;
          let nodes = nodes(b := (nodes b)\<lparr>pre_number := n, pre_max := n\<rparr>);
          let stack = (case pn_sibling (nodes b) of None \<Rightarrow> stack | Some s \<Rightarrow> s # stack);
          let stack = (case pn_child (nodes b) of None \<Rightarrow> stack | Some k \<Rightarrow> k # stack);
          number_nodes nodes stack n })"

fun propagate_max :: "dominator_tree \<Rightarrow> 'f dfg \<Rightarrow> block list \<Rightarrow> preorder_nodes \<Rightarrow> preorder_nodes option" where
  "propagate_max t d [] nodes = Some nodes"
| "propagate_max t d (b # bs) nodes =
     (case idom t b of
        Some i \<Rightarrow> do {
          p \<leftarrow> Option.bind (inst_block d i) id;
          let m = max (pre_max (nodes b)) (pre_max (nodes p));
          propagate_max t d bs (nodes(p := (nodes p)\<lparr>pre_max := m\<rparr>)) }
      | None \<Rightarrow> propagate_max t d bs nodes)"

definition preorder_compute :: "dominator_tree \<Rightarrow> 'f dfg \<Rightarrow> preorder_nodes option" where
  "preorder_compute t d = do {
     po \<leftarrow> cfg_postorder t;
     (nodes, stack) \<leftarrow> link_children t d po (\<lambda>_. default_preorder_node) [];
     assert_that (length stack \<le> 1);
     nodes \<leftarrow> number_nodes nodes stack 0;
     propagate_max t d po nodes }"

definition preorder_dominates :: "preorder_nodes \<Rightarrow> block \<Rightarrow> block \<Rightarrow> bool" where
  "preorder_dominates nodes a b =
     (pre_number (nodes a) \<le> pre_number (nodes b) \<and> pre_max (nodes a) \<ge> pre_max (nodes b))"

definition pre_cmp_block :: "preorder_nodes \<Rightarrow> block \<Rightarrow> block \<Rightarrow> ordering" where
  "pre_cmp_block nodes a b = order_of (int (pre_number (nodes a))) (int (pre_number (nodes b)))"

definition pre_cmp :: "preorder_nodes \<Rightarrow> program_point \<Rightarrow> program_point \<Rightarrow> 'f dfg \<Rightarrow> ordering option" where
  "pre_cmp nodes a b d = do {
     ba \<leftarrow> pp_block d a;
     bb \<leftarrow> pp_block d b;
     (case pre_cmp_block nodes ba bb of
        Equal \<Rightarrow> pp_cmp d a b
      | ord \<Rightarrow> Some ord) }"

partial_function (option) child_iter :: "preorder_nodes \<Rightarrow> block option \<Rightarrow> block list option" where
  "child_iter nodes next =
     (case next of
        None \<Rightarrow> Some []
      | Some b \<Rightarrow> do { bs \<leftarrow> child_iter nodes (pn_sibling (nodes b)); Some (b # bs) })"

definition children :: "preorder_nodes \<Rightarrow> block \<Rightarrow> block list option" where
  "children nodes b = child_iter nodes (pn_child (nodes b))"

section \<open>Dominance frontier\<close>

type_synonym frontier = "block \<Rightarrow> block set"

partial_function (option) frontier_walk ::
  "dominator_tree \<Rightarrow> 'f dfg \<Rightarrow> block \<Rightarrow> inst \<Rightarrow> block \<Rightarrow> inst \<Rightarrow> frontier \<Rightarrow> frontier option" where
  "frontier_walk t d x idom_x p i dfs =
     (if i \<noteq> idom_x then
        (case idom t p of
           None \<Rightarrow> Some (dfs(p := insert x (dfs p)))
         | Some idom_p \<Rightarrow> do {
             q \<leftarrow> Option.bind (inst_block d idom_p) id;
             frontier_walk t d x idom_x q idom_p (dfs(p := insert x (dfs p))) })
      else Some dfs)"

primrec frontier_preds ::
  "dominator_tree \<Rightarrow> 'f dfg \<Rightarrow> block \<Rightarrow> inst \<Rightarrow> (inst \<times> block) list \<Rightarrow> frontier \<Rightarrow> frontier option" where
  "frontier_preds t d x idom_x [] dfs = Some dfs"
| "frontier_preds t d x idom_x (p # ps) dfs = do {
     dfs \<leftarrow> frontier_walk t d x idom_x (snd p) (fst p) dfs;
     frontier_preds t d x idom_x ps dfs }"

primrec frontier_blocks ::
  "dominator_tree \<Rightarrow> control_flow_graph \<Rightarrow> 'f dfg \<Rightarrow> block list \<Rightarrow> frontier \<Rightarrow> frontier option" where
  "frontier_blocks t c d [] dfs = Some dfs"
| "frontier_blocks t c d (x # xs) dfs =
     (if num_predecessors c x < 2 then frontier_blocks t c d xs dfs
      else do {
        idom_x \<leftarrow> idom t x;
        dfs \<leftarrow> frontier_preds t d x idom_x (pred_iter c x) dfs;
        frontier_blocks t c d xs dfs })"

definition frontier_compute ::
  "dominator_tree \<Rightarrow> control_flow_graph \<Rightarrow> 'f dfg \<Rightarrow> frontier option" where
  "frontier_compute t c d = do {
     po \<leftarrow> cfg_postorder t;
     frontier_blocks t c d po (\<lambda>_. {}) }"

end
