(* ===== verification/DomTheory.thy ===== *)
theory DomTheory
  imports Main
begin

text \<open>
  Why the algorithm of Cooper, Harvey and Kennedy computes the dominators.  A flow graph is
  given by its nodes \<open>N\<close>, all reachable from \<open>e\<close>, a numbering \<open>rank\<close> in which every node but \<open>e\<close>
  has a predecessor with a smaller number, and the predecessors.  The state of the algorithm
  is a parent function \<open>f\<close>; \<open>anc e f a v\<close> says that \<open>a\<close> is on the chain of \<open>v\<close>.

  Initially the parent of a node is the nearest common ancestor of its predecessors of smaller
  rank.  Then passes in the order of the ranks replace each parent by the nearest common
  ancestor of all predecessors.  \<open>pass_inv f k\<close> holds during a pass in which the nodes of rank
  below \<open>k\<close> have been processed: it makes every replacement move the parent up its own chain,
  hence the passes end, and keeps every dominator on the chain; when nothing changes, every node
  of the chain is a dominator.
\<close>

section \<open>Flow graphs and dominance\<close>

definition flow :: "'n set \<Rightarrow> 'n \<Rightarrow> ('n \<Rightarrow> nat) \<Rightarrow> ('n \<Rightarrow> 'n set) \<Rightarrow> bool" where
  "flow N e rank preds \<longleftrightarrow>
     finite N \<and> e \<in> N \<and> inj_on rank N \<and> (\<forall>v \<in> N. v \<noteq> e \<longrightarrow> rank e < rank v) \<and>
     (\<forall>v \<in> N. preds v \<subseteq> N) \<and>
     (\<forall>v \<in> N. v \<noteq> e \<longrightarrow> (\<exists>p \<in> preds v. rank p < rank v))"

text \<open>The nodes that a path from \<open>e\<close> reaches without passing through \<open>a\<close>.\<close>

inductive avoids :: "'n set \<Rightarrow> 'n \<Rightarrow> ('n \<Rightarrow> 'n set) \<Rightarrow> 'n \<Rightarrow> 'n \<Rightarrow> bool" for N e preds a where
  avoids_entry: "a \<noteq> e \<Longrightarrow> avoids N e preds a e"
| avoids_step: "avoids N e preds a p \<Longrightarrow> p \<in> preds v \<Longrightarrow> v \<in> N \<Longrightarrow> v \<noteq> a \<Longrightarrow> avoids N e preds a v"

lemma avoids_neq: "avoids N e preds a v \<Longrightarrow> v \<noteq> a"
  by (induction rule: avoids.induct) auto

section \<open>Chains of parents\<close>

inductive anc :: "'n \<Rightarrow> ('n \<Rightarrow> 'n) \<Rightarrow> 'n \<Rightarrow> 'n \<Rightarrow> bool" for e f a where
  anc_refl [simp, intro]: "anc e f a a"
| anc_step: "v \<noteq> e \<Longrightarrow> anc e f a (f v) \<Longrightarrow> anc e f a v"

definition sanc :: "'n \<Rightarrow> ('n \<Rightarrow> 'n) \<Rightarrow> 'n \<Rightarrow> 'n \<Rightarrow> bool" where
  "sanc e f a v \<longleftrightarrow> v \<noteq> e \<and> anc e f a (f v)"

lemma anc_cases: "anc e f a v \<longleftrightarrow> a = v \<or> sanc e f a v"
  unfolding sanc_def by (subst anc.simps) auto

lemma anc_entry [simp]: "anc e f a e \<longleftrightarrow> a = e"
  by (subst anc_cases) (auto simp: sanc_def)

lemma anc_trans:
  assumes "anc e f b v" "anc e f a b"
  shows "anc e f a v"
  using assms by (induction rule: anc.induct) (simp_all add: anc_step)

lemma sanc_trans: "sanc e f b v \<Longrightarrow> anc e f a b \<Longrightarrow> sanc e f a v"
  by (auto simp: sanc_def intro: anc_trans)

definition tree :: "'n set \<Rightarrow> 'n \<Rightarrow> ('n \<Rightarrow> nat) \<Rightarrow> ('n \<Rightarrow> 'n) \<Rightarrow> bool" where
  "tree V e rank f \<longleftrightarrow> (\<forall>v \<in> V. v \<noteq> e \<longrightarrow> f v \<in> V \<and> rank (f v) < rank v)"

lemma anc_rank:
  assumes "anc e f a v" "tree V e rank f" "v \<in> V"
  shows "a \<in> V \<and> rank a \<le> rank v"
  using assms(1,3)
proof (induction rule: anc.induct)
  case (anc_step v)
  then have "f v \<in> V" "rank (f v) < rank v" using assms(2) by (auto simp: tree_def)
  with anc_step.IH show ?case by simp
qed simp

lemma sanc_rank:
  assumes "sanc e f a v" "tree V e rank f" "v \<in> V"
  shows "a \<in> V \<and> rank a < rank v"
proof -
  have "f v \<in> V" "rank (f v) < rank v" using assms by (auto simp: tree_def sanc_def)
  with anc_rank [of e f a "f v" V rank] assms show ?thesis by (simp add: sanc_def)
qed

lemma anc_linear:
  assumes "anc e f a v" "anc e f b v" "tree V e rank f" "v \<in> V" "rank a \<le> rank b"
  shows "anc e f a b"
  using assms(1,2,4)
proof (induction rule: anc.induct)
  case anc_refl
  have "\<not> sanc e f b a" using sanc_rank [of e f b a V rank] anc_refl assms(3,5) by auto
  then show ?case using anc_refl by (simp add: anc_cases [of e f b a])
next
  case (anc_step v)
  show ?case
  proof (cases "b = v")
    case True
    then show ?thesis using anc_step.hyps by (simp add: anc.anc_step)
  next
    case False
    then have "anc e f b (f v)" using anc_step.prems by (simp add: anc_cases [of e f b v] sanc_def)
    moreover have "f v \<in> V" using anc_step assms(3) by (simp add: tree_def)
    ultimately show ?thesis using anc_step.IH by simp
  qed
qed

lemma entry_anc:
  assumes "tree V e rank f" "v \<in> V"
  shows "anc e f e v"
  using assms(2)
proof (induction "rank v" arbitrary: v rule: less_induct)
  case less
  then show ?case
    using assms(1) by (cases "v = e") (auto simp: tree_def intro: anc_step)
qed

lemma anc_antisym:
  "anc e f a b \<Longrightarrow> anc e f b a \<Longrightarrow> tree V e rank f \<Longrightarrow> a \<in> V \<Longrightarrow> b \<in> V \<Longrightarrow> a = b"
  using anc_rank [of e f b a V rank] sanc_rank [of e f a b V rank] by (auto simp: anc_cases [of e f a b])

text \<open>Chains only depend on the parents along them.\<close>

lemma anc_cong:
  assumes "anc e f a v" "\<And>u. anc e f u v \<Longrightarrow> u \<noteq> e \<Longrightarrow> u \<noteq> a \<Longrightarrow> g u = f u"
  shows "anc e g a v"
  using assms
proof (induction rule: anc.induct)
  case (anc_step v)
  show ?case
  proof (cases "v = a")
    case False
    then have "g v = f v" using anc_step by simp
    moreover have "anc e g a (f v)"
      using anc_step.IH anc_step.prems anc_step.hyps by (auto intro: anc.anc_step)
    ultimately show ?thesis using anc_step.hyps(1) by (simp add: anc.anc_step)
  qed simp
qed simp

section \<open>The nearest common ancestor\<close>

text \<open>\<open>w\<close> is the nearest common ancestor of a set: its chain is the intersection of theirs.\<close>

definition is_nca :: "'n \<Rightarrow> ('n \<Rightarrow> 'n) \<Rightarrow> 'n set \<Rightarrow> 'n \<Rightarrow> bool" where
  "is_nca e f P w \<longleftrightarrow> (\<forall>a. anc e f a w \<longleftrightarrow> (\<forall>p \<in> P. anc e f a p))"

lemma is_nca_single: "is_nca e f {p} p"
  by (simp add: is_nca_def)

lemma is_nca_anc: "is_nca e f P w \<Longrightarrow> p \<in> P \<Longrightarrow> anc e f w p"
  unfolding is_nca_def by (metis anc_refl)

lemma is_nca_unique:
  assumes "is_nca e f P v" "is_nca e f P w" "tree V e rank f" "P \<subseteq> V" "P \<noteq> {}"
  shows "v = w"
proof -
  from assms(5) obtain p where p: "p \<in> P" by blast
  have "v \<in> V" "w \<in> V"
    using is_nca_anc [OF assms(1) p] is_nca_anc [OF assms(2) p] anc_rank [OF _ assms(3)] p assms(4)
    by blast+
  moreover have "anc e f v w" "anc e f w v"
    using assms(1,2) unfolding is_nca_def by (metis anc_refl)+
  ultimately show ?thesis using anc_antisym assms(3) by metis
qed

lemma is_nca_insert:
  "is_nca e f P w \<Longrightarrow> is_nca e f {w, p} u \<Longrightarrow> is_nca e f (insert p P) u"
  unfolding is_nca_def by auto

lemma is_nca_climb:
  assumes "tree V e rank f" "u \<in> V" "v \<in> V" "rank u < rank v"
  shows "is_nca e f {u, v} w \<longleftrightarrow> is_nca e f {u, f v} w"
proof (cases "v = e")
  case True
  have "rank e \<le> rank u"
    using anc_rank [OF entry_anc [OF assms(1,2)] assms(1,2)] by simp
  with True assms(4) show ?thesis by simp
next
  case False
  have "anc e f a v \<longleftrightarrow> anc e f a (f v)" if "anc e f a u" for a
  proof -
    have "a \<noteq> v" using anc_rank [OF that assms(1,2)] assms(4) by auto
    then show ?thesis using False by (simp add: anc_cases [of e f a v] sanc_def)
  qed
  then show ?thesis unfolding is_nca_def by auto
qed

section \<open>The first pass\<close>

definition first_inv :: "'n set \<Rightarrow> 'n \<Rightarrow> ('n \<Rightarrow> nat) \<Rightarrow> ('n \<Rightarrow> 'n set) \<Rightarrow> 'n set \<Rightarrow> ('n \<Rightarrow> 'n) \<Rightarrow> bool" where
  "first_inv N e rank preds V f \<longleftrightarrow>
     V \<subseteq> N \<and> e \<in> V \<and> tree V e rank f \<and>
     (\<forall>v \<in> V. \<forall>u \<in> N. rank u < rank v \<longrightarrow> u \<in> V) \<and>
     (\<forall>v \<in> V. v \<noteq> e \<longrightarrow> is_nca e f {p \<in> preds v. rank p < rank v} (f v)) \<and>
     (\<forall>v \<in> V. \<forall>a. \<not> avoids N e preds a v \<longrightarrow> anc e f a v)"

lemma first_inv_entry: "flow N e rank preds \<Longrightarrow> first_inv N e rank preds {e} f"
  by (auto simp: first_inv_def flow_def tree_def intro: avoids_entry dest: less_not_sym)

lemma first_inv_step:
  assumes fl: "flow N e rank preds" and inv: "first_inv N e rank preds V f"
    and x: "x \<in> N" "x \<notin> V" "\<And>u. u \<in> N \<Longrightarrow> rank u < rank x \<longleftrightarrow> u \<in> V"
    and w: "is_nca e f {p \<in> preds x. p \<in> V} w"
  shows "first_inv N e rank preds (insert x V) (f(x := w))"
proof -
  let ?f = "f(x := w)"
  have e: "e \<in> V" "V \<subseteq> N" "tree V e rank f" using inv by (auto simp: first_inv_def)
  have pV: "{p \<in> preds x. p \<in> V} = {p \<in> preds x. rank p < rank x}"
    using fl x(1,3) by (auto simp: flow_def)
  have xe: "x \<noteq> e" using e x(2) by auto
  obtain p where p: "p \<in> preds x" "rank p < rank x" using fl x(1) xe by (auto simp: flow_def)
  then have pv: "p \<in> V" using fl x(1,3) by (auto simp: flow_def)
  have wp: "anc e f w p" using is_nca_anc [OF w] p pv by simp
  have wV: "w \<in> V" "rank w \<le> rank p" using anc_rank [OF wp e(3) pv] by auto
  have same: "anc e ?f a v \<longleftrightarrow> anc e f a v" if v: "v \<in> V" for a v
  proof
    have "u \<noteq> x" if "anc e f u v" for u using anc_rank [OF that e(3) v] x(2) by auto
    then show "anc e ?f a v" if "anc e f a v" by (intro anc_cong [OF that]) auto
  next
    have t: "tree V e rank ?f" using e(3) x(2) by (auto simp: tree_def)
    have "u \<noteq> x" if "anc e ?f u v" for u using anc_rank [OF that t v] x(2) by auto
    then show "anc e f a v" if "anc e ?f a v" by (intro anc_cong [OF that]) auto
  qed
  have nca: "is_nca e ?f P u \<longleftrightarrow> is_nca e f P u" if "P \<subseteq> V" "u \<in> V" for P u
    using same that unfolding is_nca_def by blast
  have fV: "f v \<in> V" "{p \<in> preds v. rank p < rank v} \<subseteq> V" if "v \<in> V" "v \<noteq> e" for v
    using inv that fl unfolding first_inv_def tree_def flow_def by blast+
  show ?thesis
    unfolding first_inv_def
  proof (intro conjI ballI allI impI)
    show "insert x V \<subseteq> N" "e \<in> insert x V" using e x by auto
    show "tree (insert x V) e rank ?f"
      using e(3) wV p(2) x(2) by (auto simp: tree_def)
    fix v assume v: "v \<in> insert x V"
    show "u \<in> insert x V" if "u \<in> N" "rank u < rank v" for u
      using that v x(3) inv by (auto simp: first_inv_def)
    show "is_nca e ?f {p \<in> preds v. rank p < rank v} (?f v)" if "v \<noteq> e"
    proof (cases "v = x")
      case True
      then show ?thesis using nca [of "{p \<in> preds x. p \<in> V}" w] w wV pV by auto
    next
      case False
      then show ?thesis using v that fV [of v] nca [of _ "f v"] inv by (auto simp: first_inv_def)
    qed
    fix a assume a: "\<not> avoids N e preds a v"
    show "anc e ?f a v"
    proof (cases "v = x")
      case True
      have "anc e f a q" if "q \<in> preds x" "q \<in> V" "a \<noteq> x" for q
      proof -
        have "\<not> avoids N e preds a q"
          using a True that x(1) by (auto intro: avoids_step)
        then show ?thesis using inv that by (simp add: first_inv_def)
      qed
      then have "anc e f a w" if "a \<noteq> x" using that w by (auto simp: is_nca_def)
      then show ?thesis using True same [OF wV(1)] xe by (auto simp: anc_cases [of e ?f a x] sanc_def)
    next
      case False
      then show ?thesis using a v inv same by (auto simp: first_inv_def)
    qed
  qed
qed

section \<open>The passes\<close>

definition pass_inv ::
  "'n set \<Rightarrow> 'n \<Rightarrow> ('n \<Rightarrow> nat) \<Rightarrow> ('n \<Rightarrow> 'n set) \<Rightarrow> ('n \<Rightarrow> 'n) \<Rightarrow> ('n \<Rightarrow> 'n) \<Rightarrow> nat \<Rightarrow> bool" where
  "pass_inv N e rank preds t f k \<longleftrightarrow>
     tree N e rank f \<and>
     (\<forall>b \<in> N. b \<noteq> e \<longrightarrow> (\<forall>a. (\<forall>q \<in> preds b. anc e f a q) \<longrightarrow> sanc e f a b)) \<and>
     (\<forall>v \<in> N. \<forall>p \<in> preds v. rank p < rank v \<longrightarrow>
        (\<forall>z. sanc e f z v \<longrightarrow> rank v < k \<or> k \<le> rank z \<longrightarrow> anc e f z p)) \<and>
     (\<forall>b \<in> N. \<forall>z. anc e f z b \<longrightarrow> anc e t z b) \<and>
     (\<forall>b \<in> N. \<forall>a. \<not> avoids N e preds a b \<longrightarrow> anc e f a b)"

text \<open>\<open>t\<close> is a tree of predecessors of smaller rank: a chain of \<open>t\<close> is a path of the graph.\<close>

definition pred_tree :: "'n set \<Rightarrow> 'n \<Rightarrow> ('n \<Rightarrow> nat) \<Rightarrow> ('n \<Rightarrow> 'n set) \<Rightarrow> ('n \<Rightarrow> 'n) \<Rightarrow> bool" where
  "pred_tree N e rank preds t \<longleftrightarrow> (\<forall>v \<in> N. v \<noteq> e \<longrightarrow> t v \<in> preds v \<and> rank (t v) < rank v)"

lemma pred_tree_exists: "flow N e rank preds \<Longrightarrow> \<exists>t. pred_tree N e rank preds t"
  unfolding flow_def pred_tree_def by (metis (lifting))

lemma pred_tree_tree: "flow N e rank preds \<Longrightarrow> pred_tree N e rank preds t \<Longrightarrow> tree N e rank t"
  by (auto simp: flow_def pred_tree_def tree_def)

lemma avoids_along:
  assumes "anc e t x c" "flow N e rank preds" "pred_tree N e rank preds t" "c \<in> N"
    and "avoids N e preds a x" "\<And>u. anc e t x u \<Longrightarrow> anc e t u c \<Longrightarrow> u \<noteq> a"
  shows "avoids N e preds a c"
  using assms(1,4,6)
proof (induction rule: anc.induct)
  case anc_refl
  then show ?case using assms(5) by simp
next
  case (anc_step v)
  have tv: "t v \<in> preds v" using assms(3) anc_step.hyps anc_step.prems by (simp add: pred_tree_def)
  then have tN: "t v \<in> N" using assms(2) anc_step.prems(1) by (auto simp: flow_def)
  have "avoids N e preds a (t v)"
    using anc_step.IH [OF tN] anc_step.prems(2) anc_step.hyps(1) by (simp add: anc.anc_step)
  moreover have "v \<noteq> a"
    using anc_step.prems(2) [of v] anc_step.hyps by (simp add: anc.anc_step)
  ultimately show ?case using tv anc_step.prems by (auto intro: avoids_step)
qed

lemma first_pass_inv:
  assumes fl: "flow N e rank preds" and inv: "first_inv N e rank preds N f"
    and t: "pred_tree N e rank preds t"
  shows "pass_inv N e rank preds t f 0"
proof -
  have tr: "tree N e rank f" using inv by (simp add: first_inv_def)
  have s: "sanc e f a v \<longleftrightarrow> (\<forall>p \<in> preds v. rank p < rank v \<longrightarrow> anc e f a p)" if "v \<in> N" "v \<noteq> e" for a v
    using inv that unfolding first_inv_def is_nca_def sanc_def by auto
  have ta: "anc e t z b" if "anc e f z b" "b \<in> N" for z b
    using that
  proof (induction "rank b" arbitrary: b rule: less_induct)
    case less
    show ?case
    proof (cases "z = b \<or> b = e")
      case True
      then show ?thesis using less.prems by auto
    next
      case False
      then have "sanc e f z b" using less.prems by (simp add: anc_cases)
      moreover have tb: "t b \<in> preds b" "rank (t b) < rank b" "t b \<in> N"
        using t fl less.prems False by (auto simp: pred_tree_def flow_def)
      ultimately have "anc e f z (t b)" using s less.prems False by blast
      then have "anc e t z (t b)" using less.hyps tb by blast
      then show ?thesis using False by (simp add: anc_step)
    qed
  qed
  have "sanc e f z v \<Longrightarrow> v \<noteq> e" for z v by (simp add: sanc_def)
  then show ?thesis
    unfolding pass_inv_def
  proof (intro conjI ballI allI impI)
    show "tree N e rank f" by (rule tr)
    show "sanc e f a b" if "b \<in> N" "b \<noteq> e" "\<forall>q \<in> preds b. anc e f a q" for a b
      using that s by blast
    show "anc e f z p" if "v \<in> N" "p \<in> preds v" "rank p < rank v" "sanc e f z v" for v p z
      using that s [of v z] by (simp add: sanc_def)
    show "anc e t z b" if "b \<in> N" "anc e f z b" for z b using ta that by blast
    show "anc e f a b" if "b \<in> N" "\<not> avoids N e preds a b" for a b
      using inv that by (simp add: first_inv_def)
  qed
qed

text \<open>
  One replacement.  The nodes whose chain passes through \<open>x\<close> keep the part of it up to \<open>x\<close> and
  get the chain of the new parent of \<open>x\<close> above it.
\<close>

lemma anc_update:
  assumes "tree N e rank f" "x \<in> N" "x \<noteq> e" "w \<in> N" "rank w < rank x" "v \<in> N"
  shows "anc e (f(x := w)) a v \<longleftrightarrow>
    (if anc e f x v then (anc e f a v \<and> rank x \<le> rank a) \<or> anc e f a w else anc e f a v)"
  using assms(6)
proof (induction "rank v" arbitrary: v rule: less_induct)
  case less
  let ?f = "f(x := w)"
  consider "v = e" | "v = x" | "v \<noteq> e" "v \<noteq> x" by blast
  then show ?case
  proof cases
    case 1
    then show ?thesis using assms(3) by simp
  next
    case 2
    have "\<not> anc e f x w" using anc_rank [of e f x w N rank] assms by auto
    then have "anc e ?f a w \<longleftrightarrow> anc e f a w" using less.hyps [of w] assms 2 by simp
    moreover have "anc e f a x \<and> rank x \<le> rank a \<longleftrightarrow> a = x"
      using sanc_rank [of e f a x N rank] assms(1,2) by (auto simp: anc_cases [of e f a x])
    moreover have "anc e ?f a x \<longleftrightarrow> a = x \<or> anc e ?f a w"
      using assms(3) by (simp add: anc_cases [of e ?f a x] sanc_def)
    ultimately show ?thesis using 2 by auto
  next
    case 3
    have fv: "f v \<in> N" "rank (f v) < rank v" using assms(1) 3 less.prems by (auto simp: tree_def)
    have un: "anc e ?f a v \<longleftrightarrow> a = v \<or> anc e ?f a (f v)" "anc e f b v \<longleftrightarrow> b = v \<or> anc e f b (f v)" for b
      using 3 by (auto simp: anc_cases [of e ?f a v] anc_cases [of e f b v] sanc_def)
    have "anc e f x v \<Longrightarrow> rank x \<le> rank v" using anc_rank [of e f x v N rank] assms(1) less.prems by simp
    then show ?thesis
      using less.hyps [OF fv(2,1)] un un(2) [of x] 3 by auto
  qed
qed

lemma pass_inv_step:
  assumes fl: "flow N e rank preds" and t: "pred_tree N e rank preds t"
    and inv: "pass_inv N e rank preds t f k"
    and x: "x \<in> N" "x \<noteq> e" "k \<le> rank x" "\<And>u. u \<in> N \<Longrightarrow> k \<le> rank u \<Longrightarrow> rank x \<le> rank u"
    and w: "is_nca e f (preds x) w"
  shows "pass_inv N e rank preds t (f(x := w)) (Suc (rank x))" "sanc e f w x"
proof -
  let ?f = "f(x := w)"
  have tr: "tree N e rank f" using inv by (simp add: pass_inv_def)
  have K: "sanc e f a b" if "b \<in> N" "b \<noteq> e" "\<And>q. q \<in> preds b \<Longrightarrow> anc e f a q" for a b
    using inv that unfolding pass_inv_def by blast
  have L: "anc e f z p" if "v \<in> N" "p \<in> preds v" "rank p < rank v" "sanc e f z v"
    "rank v < k \<or> k \<le> rank z" for z p v
    using inv that unfolding pass_inv_def by blast
  have A: "anc e t z b" if "b \<in> N" "anc e f z b" for z b
    using inv that unfolding pass_inv_def by blast
  have D: "anc e f a b" if "b \<in> N" "\<not> avoids N e preds a b" for a b
    using inv that unfolding pass_inv_def by blast
  have preds: "preds v \<subseteq> N" if "v \<in> N" for v using fl that by (simp add: flow_def)
  have wq: "anc e f a w \<longleftrightarrow> (\<forall>q \<in> preds x. anc e f a q)" for a using w by (simp add: is_nca_def)
  show sw: "sanc e f w x" using K [OF x(1,2)] wq [of w] by blast
  then have wN: "w \<in> N" "rank w < rank x" using sanc_rank [of e f w x N rank] tr x(1) by auto
  have up: "anc e f a w \<Longrightarrow> sanc e f a x" for a using sanc_trans [OF sw] .
  note upd = anc_update [OF tr x(1,2) wN]
  have sub: "anc e f a v" if "v \<in> N" "anc e ?f a v" for a v
    using that upd [OF that(1), of a] up [of a] anc_trans [of e f x v a]
    by (auto simp: anc_cases [of e f a x] split: if_splits)
  have keep: "anc e ?f a v" if "v \<in> N" "anc e f a v" "rank x \<le> rank a" for a v
    using that upd [OF that(1), of a] by simp
  have fx: "?f v = f v" "f v \<in> N" if "v \<in> N" "v \<noteq> e" "v \<noteq> x" for v
    using that tr by (auto simp: tree_def)
  have gone: "anc e ?f a v \<longleftrightarrow> anc e f a w" if "v \<in> N" "anc e f x v" "rank a < rank x" for a v
    using that upd [OF that(1), of a] by simp
  have same: "anc e ?f a v \<longleftrightarrow> anc e f a v" if "v \<in> N" "rank v < rank x" for a v
    using that upd [OF that(1), of a] anc_rank [of e f x v N rank] tr by auto
  have swx: "sanc e ?f a x \<longleftrightarrow> anc e f a w" for a using same [OF wN] x(2) by (simp add: sanc_def)
  have sv: "sanc e ?f a v \<longleftrightarrow> anc e ?f a v \<and> a \<noteq> v" if "v \<in> N" "v \<noteq> e" for a v
  proof -
    have "tree N e rank ?f" using tr wN by (auto simp: tree_def)
    then have "\<not> sanc e ?f v v" using sanc_rank [of e ?f v v N rank] that by auto
    then show ?thesis using that by (auto simp: anc_cases [of e ?f a v])
  qed
  have sv': "sanc e f a v \<longleftrightarrow> anc e f a v \<and> a \<noteq> v" if "v \<in> N" "v \<noteq> e" for a v
  proof -
    have "\<not> sanc e f v v" using sanc_rank [of e f v v N rank] tr that by auto
    then show ?thesis using that by (auto simp: anc_cases [of e f a v])
  qed
  show "pass_inv N e rank preds t ?f (Suc (rank x))"
    unfolding pass_inv_def
  proof (intro conjI ballI allI impI)
    show "tree N e rank ?f" using tr wN by (auto simp: tree_def)
  next
    fix b a assume b: "b \<in> N" "b \<noteq> e" and all: "\<forall>q \<in> preds b. anc e ?f a q"
    have old: "anc e f a q" if "q \<in> preds b" for q using all sub preds [OF b(1)] that by blast
    then have s: "sanc e f a b" using K [OF b] by blast
    show "sanc e ?f a b"
    proof (cases "b = x")
      case True
      then show ?thesis using swx wq old by simp
    next
      case False
      have ab: "anc e f a b" "a \<noteq> b" using s sv' [OF b] by auto
      show ?thesis
      proof (cases "anc e f x b \<and> rank a < rank x")
        case True
        then have "sanc e f x b" using False by (simp add: anc_cases [of e f x b])
        moreover obtain p where p: "p \<in> preds b" "rank p < rank b" using fl b by (auto simp: flow_def)
        ultimately have "anc e f x p" using L [OF b(1) p] x(3) by blast
        then have "anc e f a w" using gone [of p a] all p preds [OF b(1)] True by blast
        then show ?thesis using gone [OF b(1), of a] True ab sv [OF b] by simp
      next
        case no: False
        then show ?thesis using keep [OF b(1) ab(1)] upd [OF b(1), of a] ab sv [OF b] by fastforce
      qed
    qed
  next
    fix v p z
    assume v: "v \<in> N" and p: "p \<in> preds v" "rank p < rank v" and z: "sanc e ?f z v"
      and r: "rank v < Suc (rank x) \<or> Suc (rank x) \<le> rank z"
    have pN: "p \<in> N" using p v preds by blast
    have ve: "v \<noteq> e" using z by (simp add: sanc_def)
    have zv: "anc e ?f z v" "z \<noteq> v" using z sv [OF v ve] by auto
    consider "rank v < rank x" | "v = x" | "rank x < rank v" "rank x < rank z"
    proof (cases rule: linorder_cases [of "rank v" "rank x"])
      case equal
      then have "v = x" using fl v x(1) by (auto simp: flow_def dest: inj_onD)
      then show ?thesis using that by blast
    qed (use r that in auto)
    then show "anc e ?f z p"
    proof cases
      case 1
      then have "sanc e f z v" using zv same [OF v 1] sv' [OF v ve] by simp
      moreover have "rank v < k" using x(4) [OF v] 1 by (meson leD le_less_linear)
      ultimately have "anc e f z p" using L [OF v p] by blast
      then show ?thesis using same [OF pN] p 1 by simp
    next
      case 2
      then have "anc e f z w" using z swx by simp
      then have "anc e f z p" using wq p 2 by blast
      then show ?thesis using same [OF pN] p 2 by simp
    next
      case 3
      then have "sanc e f z v" using sub [OF v zv(1)] zv(2) sv' [OF v ve] by simp
      then have "anc e f z p" using L [OF v p, of z] 3 x(3) by simp
      then show ?thesis using keep [OF pN] 3 by simp
    qed
  next
    show "anc e t z b" if "b \<in> N" "anc e ?f z b" for z b using A sub that by blast
  next
    fix b a assume b: "b \<in> N" and dom: "\<not> avoids N e preds a b"
    have ab: "anc e f a b" using D b dom by blast
    show "anc e ?f a b"
    proof (cases "anc e f x b \<and> rank a < rank x")
      case True
      have "\<not> avoids N e preds a x"
      proof
        assume av: "avoids N e preds a x"
        have "avoids N e preds a b"
        proof (rule avoids_along [OF A [OF b] fl t b av])
          show "anc e f x b" using True by simp
          show "u \<noteq> a" if "anc e t x u" "anc e t u b" for u
            using that True anc_rank [of e t u b N rank] anc_rank [of e t x u N rank]
              pred_tree_tree [OF fl t] b by auto
        qed
        with dom show False by simp
      qed
      then have "anc e f a q" if "q \<in> preds x" for q
        using D that preds [OF x(1)] x(1) True avoids_step [of N e preds a q x] by blast
      then show ?thesis using gone [OF b, of a] True wq by blast
    next
      case False
      then show ?thesis
        using keep [OF b ab] upd [OF b, of a] ab by (cases "anc e f x b") (simp_all add: not_less)
    qed
  qed
qed

text \<open>The end of a pass is the start of the next.\<close>

lemma pass_inv_restart:
  assumes "pass_inv N e rank preds t f k" "\<And>v. v \<in> N \<Longrightarrow> rank v < k"
  shows "pass_inv N e rank preds t f 0"
  using assms unfolding pass_inv_def by blast

text \<open>When no parent changes, the chains are the dominators.\<close>

lemma fixpoint_dominators:
  assumes fl: "flow N e rank preds" and inv: "pass_inv N e rank preds t f k"
    and fix_: "\<And>v. v \<in> N \<Longrightarrow> v \<noteq> e \<Longrightarrow> is_nca e f (preds v) (f v)"
    and "b \<in> N"
  shows "anc e f a b \<longleftrightarrow> \<not> avoids N e preds a b"
proof
  have "\<not> anc e f a v" if "avoids N e preds a v" for v
    using that
  proof (induction rule: avoids.induct)
    case (avoids_step p v)
    show ?case
    proof
      assume av: "anc e f a v"
      then have s: "sanc e f a v" using avoids_step.hyps by (simp add: anc_cases [of e f a v])
      then have "v \<noteq> e" "anc e f a (f v)" by (simp_all add: sanc_def)
      then have "anc e f a p" using fix_ avoids_step.hyps unfolding is_nca_def by blast
      with avoids_step.IH show False by simp
    qed
  qed simp
  then show "anc e f a b \<Longrightarrow> \<not> avoids N e preds a b" by blast
  show "\<not> avoids N e preds a b \<Longrightarrow> anc e f a b"
    using inv assms(4) unfolding pass_inv_def by blast
qed

end
