(* ===== verification/DomProps.thy ===== *)
theory DomProps
  imports Domtree DomTheory
begin

text \<open>
  The dominator tree of the code is correct: the post-order enumerates the reachable blocks,
  the passes end, and the queries answer dominance, which is defined over the paths of the
  control flow graph.  The lemmas relate each loop of Domtree to the theory of DomTheory.
\<close>

section \<open>Paths\<close>

definition block_succs :: "'f dfg \<Rightarrow> block \<Rightarrow> block set" where
  "block_succs d b = (case block_dests d b of None \<Rightarrow> {} | Some ds \<Rightarrow> set ds)"

definition cfg_path :: "'f dfg \<Rightarrow> block list \<Rightarrow> bool" where
  "cfg_path d vs \<longleftrightarrow> vs \<noteq> [] \<and> hd vs = entry_block d \<and> successively (\<lambda>u v. v \<in> block_succs d u) vs"

definition reachable :: "'f dfg \<Rightarrow> block \<Rightarrow> bool" where
  "reachable d b \<longleftrightarrow> (\<exists>vs. cfg_path d vs \<and> last vs = b)"

definition path_dominates :: "'f dfg \<Rightarrow> block \<Rightarrow> block \<Rightarrow> bool" where
  "path_dominates d a b \<longleftrightarrow> (\<forall>vs. cfg_path d vs \<and> last vs = b \<longrightarrow> a \<in> set vs)"

lemma reachable_entry: "reachable d (entry_block d)"
  unfolding reachable_def cfg_path_def by (intro exI [of _ "[entry_block d]"]) simp

lemma cfg_path_snoc: "cfg_path d vs \<Longrightarrow> s \<in> block_succs d (last vs) \<Longrightarrow> cfg_path d (vs @ [s])"
  by (auto simp: cfg_path_def successively_append_iff)

lemma cfg_path_snocD:
  assumes "cfg_path d (vs @ [s])" "vs \<noteq> []"
  shows "cfg_path d vs" "s \<in> block_succs d (last vs)"
  using assms by (auto simp: cfg_path_def successively_append_iff)

lemma reachable_step: "reachable d b \<Longrightarrow> s \<in> block_succs d b \<Longrightarrow> reachable d s"
  unfolding reachable_def by (metis cfg_path_snoc last_snoc)

lemma reachable_in:
  assumes "reachable d b" "entry_block d \<in> B" "\<And>u s. u \<in> B \<Longrightarrow> s \<in> block_succs d u \<Longrightarrow> s \<in> B"
  shows "b \<in> B"
proof -
  have "cfg_path d vs \<Longrightarrow> last vs \<in> B" for vs
  proof (induction vs rule: rev_induct)
    case (snoc s vs)
    show ?case
    proof (cases vs)
      case Nil
      then show ?thesis using snoc.prems assms(2) by (simp add: cfg_path_def)
    next
      case (Cons v ws)
      then have "cfg_path d vs" "s \<in> block_succs d (last vs)"
        using cfg_path_snocD [OF snoc.prems] by simp_all
      then show ?thesis using snoc.IH assms(3) by simp
    qed
  qed (simp add: cfg_path_def)
  then show ?thesis using assms(1) by (auto simp: reachable_def)
qed

definition rpreds :: "'f dfg \<Rightarrow> block \<Rightarrow> block set" where
  "rpreds d v = {p. reachable d p \<and> v \<in> block_succs d p}"

lemma avoids_path:
  "\<not> avoids {b. reachable d b} (entry_block d) (rpreds d) a b \<longleftrightarrow> path_dominates d a b" if "reachable d b"
proof -
  have "\<exists>vs. cfg_path d vs \<and> last vs = b \<and> a \<notin> set vs" if "avoids {b. reachable d b} (entry_block d) (rpreds d) a b"
    using that
  proof (induction rule: avoids.induct)
    case avoids_entry
    then show ?case by (intro exI [of _ "[entry_block d]"]) (simp add: cfg_path_def)
  next
    case (avoids_step p v)
    then obtain vs where "cfg_path d vs" "last vs = p" "a \<notin> set vs" by blast
    with avoids_step show ?case
      by (intro exI [of _ "vs @ [v]"]) (auto simp: rpreds_def intro: cfg_path_snoc)
  qed
  moreover have "avoids {b. reachable d b} (entry_block d) (rpreds d) a (last vs)"
    if "cfg_path d vs" "a \<notin> set vs" for vs
    using that
  proof (induction vs rule: rev_induct)
    case (snoc s vs)
    show ?case
    proof (cases vs)
      case Nil
      then show ?thesis using snoc.prems by (auto simp: cfg_path_def intro: avoids_entry)
    next
      case (Cons v ws)
      then have p: "cfg_path d vs" "s \<in> block_succs d (last vs)"
        using cfg_path_snocD [OF snoc.prems(1)] by simp_all
      then have "reachable d (last vs)" "reachable d s"
        using reachable_step unfolding reachable_def by blast+
      with p snoc show ?thesis
        by (auto simp: rpreds_def intro: avoids_step [of _ _ _ _ "last vs"])
    qed
  qed (simp add: cfg_path_def)
  ultimately show ?thesis unfolding path_dominates_def by blast
qed

section \<open>The post-order\<close>

text \<open>
  A graph is closed when its entry is linked and the terminator of every linked block branches
  to linked blocks.
\<close>

definition cfg_closed :: "'f dfg \<Rightarrow> bool" where
  "cfg_closed d \<longleftrightarrow> entry_block d \<in> set (block_keys d) \<and>
     (\<forall>b \<in> set (block_keys d). \<exists>ds. block_dests d b = Some ds \<and> set ds \<subseteq> set (block_keys d))"

definition seen :: "dom_nodes \<Rightarrow> block set" where
  "seen nodes = {b. rpo_number (nodes b) \<noteq> 0}"

definition lasts :: "(visit \<times> block) list \<Rightarrow> block list" where
  "lasts stack = map snd (filter (\<lambda>p. fst p = VisitLast) stack)"

definition po_inv :: "'f dfg \<Rightarrow> (visit \<times> block) list \<Rightarrow> dom_nodes \<Rightarrow> block list \<Rightarrow> bool" where
  "po_inv d stack nodes po \<longleftrightarrow>
     (\<forall>b. nodes b = default_dom_node \<or> nodes b = \<lparr>rpo_number = SEEN, dn_idom = None\<rparr>) \<and>
     distinct (po @ lasts stack) \<and> seen nodes = set po \<union> set (lasts stack) \<and>
     (\<forall>b \<in> seen nodes \<union> snd ` set stack. b \<in> set (block_keys d) \<and> reachable d b) \<and>
     (\<forall>b \<in> seen nodes. \<forall>s \<in> block_succs d b. s \<in> seen nodes \<or> (VisitFirst, s) \<in> set stack) \<and>
     (\<forall>xs x ys. stack = xs @ x # ys \<longrightarrow> snd x \<noteq> entry_block d \<longrightarrow>
        (\<exists>u \<in> set (lasts ys). snd x \<in> block_succs d u)) \<and>
     (\<forall>us v ws. po = us @ v # ws \<longrightarrow> v \<noteq> entry_block d \<longrightarrow>
        (\<exists>u \<in> set ws \<union> set (lasts stack). v \<in> block_succs d u)) \<and>
     (if stack = [] then po \<noteq> [] \<and> last po = entry_block d
      else last stack = (VisitLast, entry_block d) \<or>
           (stack = [(VisitFirst, entry_block d)] \<and> seen nodes = {}))"

lemma po_invD:
  assumes "po_inv d stack nodes po"
  shows "nodes b = default_dom_node \<or> nodes b = \<lparr>rpo_number = SEEN, dn_idom = None\<rparr>"
    "distinct (po @ lasts stack)" "seen nodes = set po \<union> set (lasts stack)"
    "b \<in> seen nodes \<union> snd ` set stack \<Longrightarrow> b \<in> set (block_keys d) \<and> reachable d b"
    "b \<in> seen nodes \<Longrightarrow> s \<in> block_succs d b \<Longrightarrow> s \<in> seen nodes \<or> (VisitFirst, s) \<in> set stack"
    "stack = xs @ x # ys \<Longrightarrow> snd x \<noteq> entry_block d \<Longrightarrow> \<exists>u \<in> set (lasts ys). snd x \<in> block_succs d u"
    "po = us @ v # ws \<Longrightarrow> v \<noteq> entry_block d \<Longrightarrow>
        \<exists>u \<in> set ws \<union> set (lasts stack). v \<in> block_succs d u"
    "if stack = [] then po \<noteq> [] \<and> last po = entry_block d
      else last stack = (VisitLast, entry_block d) \<or>
           (stack = [(VisitFirst, entry_block d)] \<and> seen nodes = {})"
  using assms unfolding po_inv_def by blast+

lemma lasts_Cons [simp]:
  "lasts [] = []" "lasts ((VisitFirst, b) # st) = lasts st" "lasts ((VisitLast, b) # st) = b # lasts st"
  "lasts (st @ st') = lasts st @ lasts st'"
  by (simp_all add: lasts_def)

lemma lasts_map_first [simp]: "lasts (map (Pair VisitFirst) bs) = []"
  by (simp add: lasts_def)

lemma push_dests_eq:
  "push_dests nodes dests st =
     map (Pair VisitFirst) (rev (filter (\<lambda>b. rpo_number (nodes b) = 0) dests)) @ st"
  unfolding push_dests_def by (induction dests arbitrary: st) auto

lemma po_inv_last:
  assumes inv: "po_inv d ((VisitLast, b) # st) nodes po"
  shows "po_inv d st nodes (po @ [b])"
  unfolding po_inv_def
proof (intro conjI allI impI ballI)
  note D = po_invD [OF inv]
  show "nodes x = default_dom_node \<or> nodes x = \<lparr>rpo_number = SEEN, dn_idom = None\<rparr>" for x by (rule D(1))
  show "distinct ((po @ [b]) @ lasts st)" using D(2) by auto
  show "seen nodes = set (po @ [b]) \<union> set (lasts st)" using D(3) by auto
  show "x \<in> set (block_keys d)" "reachable d x" if "x \<in> seen nodes \<union> snd ` set st" for x
    using D(4) [of x] that by auto
  show "s \<in> seen nodes \<or> (VisitFirst, s) \<in> set st" if "x \<in> seen nodes" "s \<in> block_succs d x" for x s
    using D(5) [OF that] by auto
  show "\<exists>u \<in> set (lasts ys). snd x \<in> block_succs d u" if "st = xs @ x # ys" "snd x \<noteq> entry_block d" for xs x ys
    using D(6) [of "(VisitLast, b) # xs" x ys] that by simp
  show "\<exists>u \<in> set ws \<union> set (lasts st). v \<in> block_succs d u"
    if "po @ [b] = us @ v # ws" "v \<noteq> entry_block d" for us v ws
  proof (cases ws rule: rev_cases)
    case Nil
    then show ?thesis using that D(6) [of "[]" "(VisitLast, b)" st] by auto
  next
    case (snoc ws' y)
    then have "po = us @ v # ws'" "y = b" using that(1) by auto
    then show ?thesis using D(7) [of us v ws'] that(2) snoc by auto
  qed
  show "if st = [] then po @ [b] \<noteq> [] \<and> last (po @ [b]) = entry_block d
      else last st = (VisitLast, entry_block d) \<or> (st = [(VisitFirst, entry_block d)] \<and> seen nodes = {})"
    using D(8) by (auto split: if_splits)
qed

lemma po_inv_skip:
  assumes inv: "po_inv d ((VisitFirst, b) # st) nodes po" and "b \<in> seen nodes"
  shows "po_inv d st nodes po"
  unfolding po_inv_def
proof (intro conjI allI impI ballI)
  note D = po_invD [OF inv]
  show "nodes x = default_dom_node \<or> nodes x = \<lparr>rpo_number = SEEN, dn_idom = None\<rparr>" for x by (rule D(1))
  show "distinct (po @ lasts st)" "seen nodes = set po \<union> set (lasts st)" using D(2,3) by auto
  show "x \<in> set (block_keys d)" "reachable d x" if "x \<in> seen nodes \<union> snd ` set st" for x
    using D(4) [of x] that by auto
  show "s \<in> seen nodes \<or> (VisitFirst, s) \<in> set st" if "x \<in> seen nodes" "s \<in> block_succs d x" for x s
    using D(5) [OF that] assms(2) by auto
  show "\<exists>u \<in> set (lasts ys). snd x \<in> block_succs d u" if "st = xs @ x # ys" "snd x \<noteq> entry_block d" for xs x ys
    using D(6) [of "(VisitFirst, b) # xs" x ys] that by simp
  show "\<exists>u \<in> set ws \<union> set (lasts st). v \<in> block_succs d u" if "po = us @ v # ws" "v \<noteq> entry_block d" for us v ws
    using D(7) [OF that] by simp
  show "if st = [] then po \<noteq> [] \<and> last po = entry_block d
      else last st = (VisitLast, entry_block d) \<or> (st = [(VisitFirst, entry_block d)] \<and> seen nodes = {})"
    using D(8) assms(2) by (auto split: if_splits)
qed

lemma po_inv_first:
  assumes inv: "po_inv d ((VisitFirst, b) # st) nodes po" and b: "b \<notin> seen nodes"
    and ds: "block_dests d b = Some ds" "set ds \<subseteq> set (block_keys d)"
    and nodes': "nodes' = nodes(b := (nodes b)\<lparr>rpo_number := SEEN\<rparr>)"
  shows "po_inv d (push_dests nodes' ds ((VisitLast, b) # st)) nodes' po" "seen nodes' = insert b (seen nodes)"
proof -
  note D = po_invD [OF inv]
  show sn: "seen nodes' = insert b (seen nodes)"
    using nodes' by (auto simp: seen_def SEEN_def)
  define new where "new = rev (filter (\<lambda>b. rpo_number (nodes' b) = 0) ds)"
  have st': "push_dests nodes' ds ((VisitLast, b) # st) = map (Pair VisitFirst) new @ (VisitLast, b) # st"
    by (simp add: push_dests_eq new_def)
  have new: "set new = {s \<in> block_succs d b. s \<notin> seen nodes'}"
    using ds(1) unfolding new_def block_succs_def seen_def by auto
  have rb: "reachable d b" "b \<in> set (block_keys d)" using D(4) [of b] by auto
  have nb: "nodes b = default_dom_node"
    using D(1) [of b] b by (auto simp: seen_def SEEN_def)
  show "po_inv d (push_dests nodes' ds ((VisitLast, b) # st)) nodes' po"
    unfolding st' po_inv_def
  proof (intro conjI allI impI ballI)
    show "nodes' x = default_dom_node \<or> nodes' x = \<lparr>rpo_number = SEEN, dn_idom = None\<rparr>" for x
      using D(1) [of x] nb by (simp add: nodes' default_dom_node_def)
    show "distinct (po @ lasts (map (Pair VisitFirst) new @ (VisitLast, b) # st))"
      using D(2,3) b by auto
    show "seen nodes' = set po \<union> set (lasts (map (Pair VisitFirst) new @ (VisitLast, b) # st))"
      using D(3) unfolding sn by auto
  next
    fix c assume c: "c \<in> seen nodes' \<union> snd ` set (map (Pair VisitFirst) new @ (VisitLast, b) # st)"
    have "c \<in> set new \<or> c = b \<or> c \<in> seen nodes \<union> snd ` set ((VisitFirst, b) # st)"
      using c unfolding sn by auto
    moreover have "c \<in> set (block_keys d) \<and> reachable d c" if "c \<in> set new"
      using that ds rb reachable_step [of d b c] unfolding new by (auto simp: block_succs_def)
    ultimately show "c \<in> set (block_keys d)" "reachable d c" using rb D(4) [of c] by blast+
  next
    fix c s assume cs: "c \<in> seen nodes'" "s \<in> block_succs d c"
    show "s \<in> seen nodes' \<or> (VisitFirst, s) \<in> set (map (Pair VisitFirst) new @ (VisitLast, b) # st)"
    proof (cases "c = b")
      case True
      then show ?thesis using cs new by auto
    next
      case False
      then have "c \<in> seen nodes" using cs sn by simp
      from D(5) [OF this cs(2)] show ?thesis using sn by auto
    qed
  next
    fix xs x ys
    assume s: "map (Pair VisitFirst) new @ (VisitLast, b) # st = xs @ x # ys" "snd x \<noteq> entry_block d"
    have "(\<exists>us. map (Pair VisitFirst) new = xs @ x # us \<and> ys = us @ (VisitLast, b) # st) \<or>
        (\<exists>us. (VisitLast, b) # st = us @ x # ys)"
      using s(1) by (auto simp: append_eq_append_conv2 Cons_eq_append_conv append_eq_Cons_conv)
    then show "\<exists>u \<in> set (lasts ys). snd x \<in> block_succs d u"
    proof (elim disjE exE conjE)
      fix us assume us: "map (Pair VisitFirst) new = xs @ x # us" "ys = us @ (VisitLast, b) # st"
      then have "x \<in> set (map (Pair VisitFirst) new)" by (metis in_set_conv_decomp)
      then have "snd x \<in> block_succs d b" using new by auto
      then show ?thesis using us by simp
    next
      fix us assume us: "(VisitLast, b) # st = us @ x # ys"
      show ?thesis
      proof (cases us)
        case Nil
        then show ?thesis using us D(6) [of "[]" "(VisitFirst, b)" st] s(2) by auto
      next
        case (Cons w us')
        then show ?thesis using us D(6) [of "(VisitFirst, b) # us'" x ys] s(2) by simp
      qed
    qed
  next
    show "\<exists>u \<in> set ws \<union> set (lasts (map (Pair VisitFirst) new @ (VisitLast, b) # st)). v \<in> block_succs d u"
      if "po = us @ v # ws" "v \<noteq> entry_block d" for us v ws
      using D(7) [OF that] by auto
    show "if map (Pair VisitFirst) new @ (VisitLast, b) # st = [] then po \<noteq> [] \<and> last po = entry_block d
      else last (map (Pair VisitFirst) new @ (VisitLast, b) # st) = (VisitLast, entry_block d) \<or>
        map (Pair VisitFirst) new @ (VisitLast, b) # st = [(VisitFirst, entry_block d)] \<and> seen nodes' = {}"
      using D(8) by (auto split: if_splits)
  qed
qed

lemma postorder_loop_correct:
  assumes "cfg_closed d" "po_inv d stack nodes po"
  shows "\<exists>nodes' po'. postorder_loop d stack nodes po = Some (nodes', po') \<and> po_inv d [] nodes' po'"
  using assms(2)
proof (induction "(card (set (block_keys d) - seen nodes), length stack)" arbitrary: stack nodes po
    rule: wf_induct_rule [OF wf_lex_prod [OF wf_less_than wf_less_than]])
  case (1 stack nodes po)
  note IH = 1(1)
  show ?case
  proof (cases stack)
    case Nil
    then show ?thesis using 1(2) by (subst postorder_loop.simps) simp
  next
    case (Cons x st)
    obtain v b where x: "x = (v, b)" by (cases x)
    show ?thesis
    proof (cases v)
      case VisitLast
      have "po_inv d st nodes (po @ [b])" using 1(2) Cons x VisitLast po_inv_last by simp
      then show ?thesis
        using IH [of nodes st "po @ [b]"] Cons x VisitLast by (subst postorder_loop.simps) simp
    next
      case VisitFirst
      show ?thesis
      proof (cases "b \<in> seen nodes")
        case True
        then have "po_inv d st nodes po" using 1(2) Cons x VisitFirst po_inv_skip by simp
        then show ?thesis
          using IH [of nodes st po] Cons x VisitFirst True
          by (subst postorder_loop.simps) (simp add: seen_def)
      next
        case False
        have b: "b \<in> set (block_keys d)" using po_invD(4) [OF 1(2), of b] Cons x by auto
        then obtain ds where ds: "block_dests d b = Some ds" "set ds \<subseteq> set (block_keys d)"
          using assms(1) by (auto simp: cfg_closed_def)
        let ?n = "nodes(b := (nodes b)\<lparr>rpo_number := SEEN\<rparr>)"
        have inv: "po_inv d (push_dests ?n ds ((VisitLast, b) # st)) ?n po"
          and sn: "seen ?n = insert b (seen nodes)"
          using po_inv_first [OF _ False ds refl] 1(2) Cons x VisitFirst by auto
        have "card (set (block_keys d) - seen ?n) < card (set (block_keys d) - seen nodes)"
          unfolding sn using b False by (intro psubset_card_mono) auto
        then show ?thesis
          using IH [OF _ inv] Cons x VisitFirst False ds
          by (subst postorder_loop.simps) (simp add: seen_def Let_def)
      qed
    qed
  qed
qed

lemma po_inv_start:
  "cfg_closed d \<Longrightarrow> po_inv d [(VisitFirst, entry_block d)] (\<lambda>_. default_dom_node) []"
  by (auto simp: po_inv_def seen_def default_dom_node_def cfg_closed_def reachable_entry
      Cons_eq_append_conv)

lemma compute_postorder_correct:
  assumes "cfg_closed d"
  obtains t' where "compute_postorder d t = Some t'"
    "dt_nodes t' = (\<lambda>b. if reachable d b then \<lparr>rpo_number = SEEN, dn_idom = None\<rparr> else default_dom_node)"
    "distinct (dt_postorder t')" "set (dt_postorder t') = {b. reachable d b}"
    "dt_postorder t' \<noteq> []" "last (dt_postorder t') = entry_block d"
    "\<And>us v ws. dt_postorder t' = us @ v # ws \<Longrightarrow> v \<noteq> entry_block d \<Longrightarrow>
        \<exists>u \<in> set ws. v \<in> block_succs d u"
proof -
  from postorder_loop_correct [OF assms po_inv_start [OF assms]]
  obtain nodes po where r: "postorder_loop d [(VisitFirst, entry_block d)] (\<lambda>_. default_dom_node) [] = Some (nodes, po)"
    and inv: "po_inv d [] nodes po" by blast
  have "entry_block d \<in> set po" "\<And>u s. u \<in> set po \<Longrightarrow> s \<in> block_succs d u \<Longrightarrow> s \<in> set po"
    using po_invD(3,5,8) [OF inv] last_in_set [of po] by auto
  then have "b \<in> set po" if "reachable d b" for b using reachable_in that by metis
  moreover have "reachable d b" if "b \<in> set po" for b
    using po_invD(3) [OF inv] po_invD(4) [OF inv, of b] that by simp
  ultimately have po: "set po = {b. reachable d b}" by auto
  have seen: "seen nodes = {b. reachable d b}" using po_invD(3) [OF inv] po by simp
  have nodes: "nodes = (\<lambda>b. if reachable d b then \<lparr>rpo_number = SEEN, dn_idom = None\<rparr> else default_dom_node)"
  proof
    fix b
    have "reachable d b \<longleftrightarrow> rpo_number (nodes b) \<noteq> 0" using seen by (auto simp: seen_def)
    then show "nodes b = (if reachable d b then \<lparr>rpo_number = SEEN, dn_idom = None\<rparr> else default_dom_node)"
      using po_invD(1) [OF inv, of b] by (auto simp: SEEN_def default_dom_node_def)
  qed
  show thesis
  proof (rule that [of "(dt_clear t)\<lparr>dt_nodes := nodes, dt_postorder := po\<rparr>"])
    show "compute_postorder d t = Some ((dt_clear t)\<lparr>dt_nodes := nodes, dt_postorder := po\<rparr>)"
      using r by (simp add: compute_postorder_def dt_clear_def Let_def)
    show "dt_nodes ((dt_clear t)\<lparr>dt_nodes := nodes, dt_postorder := po\<rparr>) = (\<lambda>b. if reachable d b then \<lparr>rpo_number = SEEN, dn_idom = None\<rparr> else default_dom_node)"
      using nodes by simp
    show "\<exists>u \<in> set ws. v \<in> block_succs d u"
      if "dt_postorder ((dt_clear t)\<lparr>dt_nodes := nodes, dt_postorder := po\<rparr>) = us @ v # ws" "v \<noteq> entry_block d"
      for us v ws
      using po_invD(7) [OF inv, of us v ws] that by simp
  qed (use po_invD(2,8) [OF inv] po in auto)
qed

end
