(* ===== verification/DomCorrect.thy ===== *)
theory DomCorrect
  imports DomProps
begin

text \<open>
  The loops of the dominator tree follow DomTheory: the climb to the common dominator finds the
  nearest common ancestor, the two kinds of passes keep the invariants, the iteration ends, and
  the queries read the chains.
\<close>

section \<open>Terminators and predecessors\<close>

definition term_of :: "'f dfg \<Rightarrow> block \<Rightarrow> inst" where
  "term_of d p = the (the (last_inst d p))"

lemma last_inst_block:
  assumes "dfg_wf d" "last_inst d p = Some (Some i)"
  shows "inst_block d i = Some (Some p)" "term_of d p = i"
    "\<exists>n k. dfg_inst_node d i = Some n \<and> in_block n = p \<and> pp_seq d (PpInst i) = Some k"
proof -
  from assms(2) obtain bd where bd: "dfg_block d p = Some bd" "i \<in> set (bd_insts bd)"
    by (auto simp: last_inst_def bd_last_def split: if_splits)
  with assms(1) obtain n where n: "dfg_inst_node d i = Some n" "in_block n = p"
    unfolding dfg_wf_def blocks_wf_def by blast
  have "inst_is_linked d i"
    using bd unfolding inst_is_linked_def dfg_block_get list_ex_iff
    by (intro bexI [of _ "Some bd"]) (auto simp: am_get_def split: if_splits dest: nth_mem)
  then show "inst_block d i = Some (Some p)" using n by (simp add: inst_block_def)
  show "term_of d p = i" using assms(2) by (simp add: term_of_def)
  have pos: "\<exists>k. position x xs = Some k" if "x \<in> set xs" for x :: inst and xs
    using that by (induction xs) auto
  from pos [OF bd(2)] show "\<exists>n k. dfg_inst_node d i = Some n \<and> in_block n = p \<and> pp_seq d (PpInst i) = Some k"
    using n bd(1) by (auto simp: pp_seq_def block_insts_def)
qed

lemma succ_has_term:
  assumes "v \<in> block_succs d p"
  shows "last_inst d p = Some (Some (term_of d p))"
  using assms
  by (auto simp: block_succs_def block_dests_def term_of_def split: option.splits if_splits)

lemma pp_cmp_self:
  assumes "dfg_wf d" "last_inst d p = Some (Some i)"
  shows "pp_cmp d (PpInst i) (PpInst i) = Some Equal"
proof -
  from last_inst_block [OF assms] obtain n k where "dfg_inst_node d i = Some n"
    "pp_seq d (PpInst i) = Some k" "inst_block d i = Some (Some p)" by blast
  then show ?thesis by (simp add: pp_cmp_def pp_block_def order_of_def)
qed

text \<open>The destinations of the two analyses of a terminator agree.\<close>

lemma visit_dests:
  assumes "visit_block_succs d b = Some vs"
  shows "block_succs d b = (\<lambda>(i, s, f). s) ` set vs"
proof (cases "last_inst d b")
  case None
  then show ?thesis using assms by (simp add: visit_block_succs_def)
next
  case (Some l)
  show ?thesis
  proof (cases l)
    case None
    then show ?thesis using assms Some
      by (simp add: visit_block_succs_def block_succs_def block_dests_def)
  next
    case (Some i)
    with \<open>last_inst d b = Some l\<close> assms obtain data where "inst_data d i = Some data"
      "inst_succs i data = Some vs" by (auto simp: visit_block_succs_def)
    then show ?thesis
      using \<open>last_inst d b = Some l\<close> Some
      by (cases data) (force simp: block_succs_def block_dests_def dfg_analyze_branch_def push_order_def
          inst_succs_def bind_assert_that split: if_splits)+
  qed
qed

lemma pred_iter_succs:
  assumes "dfg_wf d" "cfg_compute d c0 = Some c"
  shows "(i, p) \<in> set (pred_iter c v) \<longleftrightarrow>
    p \<in> set (block_keys d) \<and> v \<in> block_succs d p \<and> i = term_of d p"
proof -
  have "(i, p) \<in> set (pred_iter c v) \<longleftrightarrow> p \<in> set (block_keys d) \<and> (p, i, v) \<in> block_edges d p"
  proof -
    have "(i, p) \<in> set (pred_iter c v) \<longleftrightarrow> (p, i, v) \<in> dfg_edges d"
      using cfg_compute_edges [OF assms(2,1)] by (simp add: has_edges_def pred_iter_def)
    then show ?thesis
      using block_edges_fst [of p i v d] unfolding dfg_edges_def by blast
  qed
  moreover have "(p, i, v) \<in> block_edges d p \<longleftrightarrow> v \<in> block_succs d p \<and> i = term_of d p"
    if k: "p \<in> set (block_keys d)"
  proof -
    obtain vs where vs: "visit_block_succs d p = Some vs"
      using assms(2) compute_blocks_visits k by (fastforce simp: cfg_compute_def)
    have "last_inst d p = Some (Some j)" if "(j, s, f) \<in> set vs" for j s f
      using that vs by (auto simp: visit_block_succs_def split: option.splits dest: inst_succs_inst)
    then have "j = term_of d p" if "(j, s, f) \<in> set vs" for j s f
      using that by (fastforce simp: term_of_def)
    then show ?thesis
      using vs visit_dests [OF vs] unfolding block_edges_def by force
  qed
  ultimately show ?thesis by blast
qed

section \<open>The numbering\<close>

definition rk :: "block list \<Rightarrow> block \<Rightarrow> nat" where
  "rk rpo b = 4 * (the (position b rpo) + 2)"

lemma position_split: "x \<notin> set xs \<Longrightarrow> position x (xs @ x # ys) = Some (length xs)"
  by (induction xs) auto

lemma position_before: "u \<in> set xs \<Longrightarrow> \<exists>k < length xs. position u (xs @ ys) = Some k"
  by (induction xs) auto

lemma position_inj: "position x xs = Some k \<Longrightarrow> position y xs = Some k \<Longrightarrow> x = y"
  by (induction xs arbitrary: k) (auto split: if_splits)

lemma rk_inj: "inj_on (rk rpo) (set rpo)"
proof (rule inj_onI)
  fix x y assume "x \<in> set rpo" "y \<in> set rpo" "rk rpo x = rk rpo y"
  moreover have "\<exists>k. position z rpo = Some k" if "z \<in> set rpo" for z
    using position_before [OF that, of "[]"] by auto
  ultimately show "x = y" using position_inj [of x rpo _ y] by (fastforce simp: rk_def)
qed

lemma rk_nth: "distinct (us @ v # ws) \<Longrightarrow> rk (us @ v # ws) v = 4 * (length us + 2)"
  by (simp add: rk_def position_split)

lemma rk_less_iff:
  assumes "distinct (us @ v # ws)" "u \<in> set (us @ v # ws)"
  shows "rk (us @ v # ws) u < rk (us @ v # ws) v \<longleftrightarrow> u \<in> set us"
proof
  assume "u \<in> set us"
  then show "rk (us @ v # ws) u < rk (us @ v # ws) v"
    using position_before [of u us "v # ws"] rk_nth [OF assms(1)] by (auto simp: rk_def)
next
  assume less: "rk (us @ v # ws) u < rk (us @ v # ws) v"
  show "u \<in> set us"
  proof (rule ccontr)
    assume no: "u \<notin> set us"
    then have "u \<in> set (v # ws)" using assms(2) by simp
    then obtain xs ys where s: "v # ws = xs @ u # ys" by (metis in_set_conv_decomp)
    then have "us @ v # ws = (us @ xs) @ u # ys" by simp
    with assms(1) have "rk (us @ v # ws) u = 4 * (length us + length xs + 2)"
      using rk_nth [of "us @ xs" u ys] by simp
    with less rk_nth [OF assms(1)] show False by simp
  qed
qed

text \<open>The setting of the passes: the reachable blocks in reverse post-order.\<close>

definition rpo_of :: "'f dfg \<Rightarrow> block list \<Rightarrow> bool" where
  "rpo_of d rpo \<longleftrightarrow>
     distinct rpo \<and> set rpo = {b. reachable d b} \<and> rpo \<noteq> [] \<and> hd rpo = entry_block d \<and>
     (\<forall>us v ws. rpo = us @ v # ws \<longrightarrow> v \<noteq> entry_block d \<longrightarrow> (\<exists>u \<in> set us. v \<in> block_succs d u))"

lemma rpo_flow:
  assumes "rpo_of d rpo"
  shows "flow (set rpo) (entry_block d) (rk rpo) (rpreds d)"
  unfolding flow_def
proof (intro conjI ballI impI)
  obtain bs where bs: "rpo = entry_block d # bs" "entry_block d \<notin> set bs"
    using assms unfolding rpo_of_def by (cases rpo) auto
  show "finite (set rpo)" "entry_block d \<in> set rpo" using bs by auto
  show "inj_on (rk rpo) (set rpo)" by (rule rk_inj)
  fix v assume v: "v \<in> set rpo"
  show "rpreds d v \<subseteq> set rpo" using assms by (auto simp: rpo_of_def rpreds_def)
  then obtain us ws where s: "rpo = us @ v # ws" using v by (metis in_set_conv_decomp)
  have d: "distinct (us @ v # ws)" using assms s by (simp add: rpo_of_def)
  assume ve: "v \<noteq> entry_block d"
  have "entry_block d \<in> set us" using bs s ve by (cases us) auto
  then show "rk rpo (entry_block d) < rk rpo v"
    unfolding s using rk_less_iff [OF d, of "entry_block d"] by simp
  obtain u where u: "u \<in> set us" "v \<in> block_succs d u"
    using assms s ve unfolding rpo_of_def by blast
  then have "rk rpo u < rk rpo v" unfolding s using rk_less_iff [OF d, of u] by simp
  moreover have "u \<in> rpreds d v"
    using u s assms by (auto simp: rpreds_def rpo_of_def)
  ultimately show "\<exists>p \<in> rpreds d v. rk rpo p < rk rpo v" by blast
qed

section \<open>The state\<close>

definition dom_rep :: "'f dfg \<Rightarrow> block list \<Rightarrow> block set \<Rightarrow> dom_nodes \<Rightarrow> (block \<Rightarrow> block) \<Rightarrow> bool" where
  "dom_rep d rpo V nodes f \<longleftrightarrow>
     (\<forall>b. rpo_number (nodes b) = (if b \<in> V then rk rpo b else if b \<in> set rpo then 1 else 0)) \<and>
     (\<forall>b \<in> V. b \<noteq> entry_block d \<longrightarrow> dn_idom (nodes b) = Some (term_of d (f b)) \<and>
        last_inst d (f b) = Some (Some (term_of d (f b)))) \<and>
     dn_idom (nodes (entry_block d)) = None"

lemma rk_pos: "rk rpo b \<ge> 8"
  by (simp add: rk_def)

lemma climb_eq:
  assumes "dfg_wf d" "dom_rep d rpo V nodes f" "b \<in> V" "b \<noteq> entry_block d"
  shows "climb d nodes b = Some (f b, term_of d (f b))"
  using assms last_inst_block(1) [OF assms(1), of "f b" "term_of d (f b)"]
  by (simp add: climb_def dom_rep_def)

lemma common_dominator_loop_correct:
  assumes "dfg_wf d" "dom_rep d rpo V nodes f" "tree V (entry_block d) (rk rpo) f" "V \<subseteq> set rpo"
    and "\<And>v. v \<in> V \<Longrightarrow> v \<noteq> entry_block d \<Longrightarrow> rk rpo (entry_block d) < rk rpo v"
  shows "a \<in> V \<Longrightarrow> b \<in> V \<Longrightarrow> last_inst d a = Some (Some (term_of d a)) \<Longrightarrow>
    last_inst d b = Some (Some (term_of d b)) \<Longrightarrow>
    \<exists>w. common_dominator_loop d nodes (a, term_of d a) (b, term_of d b) =
          Some ((w, term_of d w), (w, term_of d w)) \<and>
        is_nca (entry_block d) f {a, b} w \<and> last_inst d w = Some (Some (term_of d w)) \<and> w \<in> V"
proof (induction "rk rpo a + rk rpo b" arbitrary: a b rule: less_induct)
  case less
  have num: "rpo_number (nodes v) = rk rpo v" if "v \<in> V" for v
    using assms(2) that by (simp add: dom_rep_def)
  have f: "f v \<in> V" "rk rpo (f v) < rk rpo v" "last_inst d (f v) = Some (Some (term_of d (f v)))"
    if "v \<in> V" "v \<noteq> entry_block d" for v
    using assms(2,3) that by (auto simp: tree_def dom_rep_def)
  have ent: "rk rpo (entry_block d) \<le> rk rpo v" if "v \<in> V" for v
    using assms(5) [OF that] by (cases "v = entry_block d") auto
  consider "rk rpo a < rk rpo b" | "rk rpo b < rk rpo a" | "rk rpo a = rk rpo b" by linarith
  then show ?case
  proof cases
    case 1
    then have b: "b \<noteq> entry_block d" using ent [OF less.prems(1)] by auto
    have cmp: "rpo_cmp_block nodes a b = Less"
      using 1 num less.prems by (simp add: rpo_cmp_block_def order_of_def)
    have "\<exists>w. common_dominator_loop d nodes (a, term_of d a) (f b, term_of d (f b)) =
          Some ((w, term_of d w), (w, term_of d w)) \<and>
        is_nca (entry_block d) f {a, f b} w \<and> last_inst d w = Some (Some (term_of d w)) \<and> w \<in> V"
      using f [OF less.prems(2) b] less.prems less.hyps [of a "f b"] by simp
    then show ?thesis
      using cmp climb_eq [OF assms(1,2) less.prems(2) b] is_nca_climb [OF assms(3) less.prems(1,2) 1]
      by (subst common_dominator_loop.simps) simp
  next
    case 2
    then have a: "a \<noteq> entry_block d" using ent [OF less.prems(2)] by auto
    have cmp: "rpo_cmp_block nodes a b = Greater"
      using 2 num less.prems by (simp add: rpo_cmp_block_def order_of_def)
    have "\<exists>w. common_dominator_loop d nodes (f a, term_of d (f a)) (b, term_of d b) =
          Some ((w, term_of d w), (w, term_of d w)) \<and>
        is_nca (entry_block d) f {f a, b} w \<and> last_inst d w = Some (Some (term_of d w)) \<and> w \<in> V"
      using f [OF less.prems(1) a] less.prems less.hyps [of "f a" b] by simp
    then show ?thesis
      using cmp climb_eq [OF assms(1,2) less.prems(1) a]
        is_nca_climb [OF assms(3) less.prems(2,1) 2] insert_commute [of a b] insert_commute [of "f a" b]
      by (subst common_dominator_loop.simps) simp
  next
    case 3
    then have "a = b" using rk_inj less.prems assms(4) by (meson inj_onD subsetD)
    then show ?thesis
      using less.prems is_nca_single
      by (subst common_dominator_loop.simps) (simp add: rpo_cmp_block_def order_of_def)
  qed
qed

lemma common_dominator_correct:
  assumes "dfg_wf d" "dom_rep d rpo V nodes f" "tree V (entry_block d) (rk rpo) f" "V \<subseteq> set rpo"
    and "\<And>v. v \<in> V \<Longrightarrow> v \<noteq> entry_block d \<Longrightarrow> rk rpo (entry_block d) < rk rpo v"
    and "a \<in> V" "b \<in> V" "last_inst d a = Some (Some (term_of d a))" "last_inst d b = Some (Some (term_of d b))"
  shows "\<exists>w. common_dominator d nodes (a, term_of d a) (b, term_of d b) = Some (w, term_of d w) \<and>
        is_nca (entry_block d) f {a, b} w \<and> last_inst d w = Some (Some (term_of d w)) \<and> w \<in> V"
  using common_dominator_loop_correct [OF assms(1-5)] assms(6-9) pp_cmp_self [OF assms(1)]
  by (fastforce simp: common_dominator_def)

lemma fold_dominators_correct:
  assumes "dfg_wf d" "dom_rep d rpo V nodes f" "tree V (entry_block d) (rk rpo) f" "V \<subseteq> set rpo"
    and "\<And>v. v \<in> V \<Longrightarrow> v \<noteq> entry_block d \<Longrightarrow> rk rpo (entry_block d) < rk rpo v"
  shows "w \<in> V \<Longrightarrow> last_inst d w = Some (Some (term_of d w)) \<Longrightarrow> is_nca (entry_block d) f P w \<Longrightarrow>
    (\<forall>(p, i) \<in> set ps. p \<in> V \<and> i = term_of d p \<and> last_inst d p = Some (Some i)) \<Longrightarrow>
    \<exists>u. fold_dominators d nodes (w, term_of d w) ps = Some (u, term_of d u) \<and>
      is_nca (entry_block d) f (P \<union> fst ` set ps) u \<and> last_inst d u = Some (Some (term_of d u)) \<and> u \<in> V"
proof (induction ps arbitrary: w P)
  case (Cons p ps)
  obtain q i where p: "p = (q, i)" by (cases p)
  with Cons.prems have q: "q \<in> V" "i = term_of d q" "last_inst d q = Some (Some (term_of d q))" by auto
  from common_dominator_correct [OF assms Cons.prems(1) q(1) Cons.prems(2) q(3)] obtain u
    where u: "common_dominator d nodes (w, term_of d w) p = Some (u, term_of d u)"
      "is_nca (entry_block d) f {w, q} u" "last_inst d u = Some (Some (term_of d u))" "u \<in> V"
    using p q by auto
  have "is_nca (entry_block d) f (insert q P) u" by (rule is_nca_insert [OF Cons.prems(3) u(2)])
  from Cons.IH [OF u(4,3) this] Cons.prems(4) u(1) p show ?case by simp
qed auto

lemma compute_idom_correct:
  assumes "dfg_wf d" "cfg_closed d" "cfg_compute d c0 = Some c" "rpo_of d rpo"
    and "dom_rep d rpo V nodes f" "tree V (entry_block d) (rk rpo) f" "V \<subseteq> set rpo"
    and "\<exists>p \<in> V. b \<in> block_succs d p"
  shows "\<exists>w. compute_idom d c nodes b = Some (term_of d w) \<and>
    is_nca (entry_block d) f {p \<in> rpreds d b. p \<in> V} w \<and>
    last_inst d w = Some (Some (term_of d w)) \<and> w \<in> V"
proof -
  have key: "p \<in> set (block_keys d)" if "p \<in> V" for p
  proof -
    have "reachable d p" using that assms(4,7) by (auto simp: rpo_of_def)
    then show ?thesis
    proof (rule reachable_in)
      show "entry_block d \<in> set (block_keys d)" using assms(2) by (simp add: cfg_closed_def)
      show "s \<in> set (block_keys d)" if "u \<in> set (block_keys d)" "s \<in> block_succs d u" for u s
        using assms(2) that by (fastforce simp: cfg_closed_def block_succs_def)
    qed
  qed
  have big: "rpo_number (nodes p) > 1 \<longleftrightarrow> p \<in> V" for p
    using assms(5) rk_pos [of rpo p] by (auto simp: dom_rep_def)
  have mem: "(p, i) \<in> set (reachable_preds c nodes b) \<longleftrightarrow>
      p \<in> V \<and> b \<in> block_succs d p \<and> i = term_of d p" for p i
    using pred_iter_succs [OF assms(1,3)] key big by (force simp: reachable_preds_def)
  have ps: "fst ` set (reachable_preds c nodes b) = {p \<in> rpreds d b. p \<in> V}"
  proof (rule set_eqI)
    fix p
    have "p \<in> fst ` set (reachable_preds c nodes b) \<longleftrightarrow> (\<exists>i. (p, i) \<in> set (reachable_preds c nodes b))"
      by force
    also have "\<dots> \<longleftrightarrow> p \<in> V \<and> b \<in> block_succs d p" unfolding mem by simp
    also have "\<dots> \<longleftrightarrow> p \<in> {p \<in> rpreds d b. p \<in> V}"
      using assms(4,7) by (auto simp: rpreds_def rpo_of_def)
    finally show "p \<in> fst ` set (reachable_preds c nodes b) \<longleftrightarrow> p \<in> {p \<in> rpreds d b. p \<in> V}" .
  qed
  have fl: "flow (set rpo) (entry_block d) (rk rpo) (rpreds d)" by (rule rpo_flow [OF assms(4)])
  obtain q qs where q: "reachable_preds c nodes b = q # qs"
    using assms(8) mem by (cases "reachable_preds c nodes b") auto
  obtain w i where wi: "q = (w, i)" by (cases q)
  then have w: "w \<in> V" "b \<in> block_succs d w" "i = term_of d w" using mem [of w i] q by auto
  have all: "\<forall>(p, i) \<in> set qs. p \<in> V \<and> i = term_of d p \<and> last_inst d p = Some (Some i)"
  proof (intro ballI)
    fix x assume x: "x \<in> set qs"
    obtain p j where pj: "x = (p, j)" by (cases x)
    then have "(p, j) \<in> set (reachable_preds c nodes b)" using x q by simp
    then have "p \<in> V" "b \<in> block_succs d p" "j = term_of d p" using mem by auto
    with succ_has_term show "case x of (p, i) \<Rightarrow> p \<in> V \<and> i = term_of d p \<and> last_inst d p = Some (Some i)"
      unfolding pj by simp
  qed
  have ent: "rk rpo (entry_block d) < rk rpo v" if "v \<in> V" "v \<noteq> entry_block d" for v
    using fl that assms(7) by (auto simp: flow_def)
  from fold_dominators_correct [OF assms(1,5-7) ent w(1) succ_has_term [OF w(2)] is_nca_single all]
  obtain u where "fold_dominators d nodes (w, term_of d w) qs = Some (u, term_of d u)"
    "is_nca (entry_block d) f ({w} \<union> fst ` set qs) u" "last_inst d u = Some (Some (term_of d u))" "u \<in> V"
    by blast
  moreover have "{w} \<union> fst ` set qs = {p \<in> rpreds d b. p \<in> V}" using ps q wi by simp
  ultimately show ?thesis using q wi w by (intro exI [of _ u]) (simp add: compute_idom_def)
qed

section \<open>The first pass\<close>

lemma key_bound:
  assumes "rpo_of d rpo" "cfg_closed d"
  shows "length rpo \<le> length (block_keys d)"
proof -
  have "b \<in> set (block_keys d)" if "reachable d b" for b
    using that
  proof (rule reachable_in)
    show "entry_block d \<in> set (block_keys d)" using assms(2) by (simp add: cfg_closed_def)
    show "s \<in> set (block_keys d)" if "u \<in> set (block_keys d)" "s \<in> block_succs d u" for u s
      using assms(2) that by (fastforce simp: cfg_closed_def block_succs_def)
  qed
  then have "set rpo \<subseteq> set (block_keys d)" using assms(1) by (auto simp: rpo_of_def)
  then have "card (set rpo) \<le> card (set (block_keys d))" by (rule card_mono [OF finite_set])
  moreover have "card (set rpo) = length rpo" using assms(1) distinct_card unfolding rpo_of_def by blast
  ultimately show ?thesis using card_length [of "block_keys d"] by linarith
qed

lemma rpo_number_ok:
  assumes "Suc idx < 536870912"
  shows "Option.bind (u32_add (as_u32 idx) 3) (\<lambda>n. u32_mul n STRIDE) = Some (4 * (idx + 3))"
  using assms by (simp add: u32_add_def u32_mul_def as_u32_def u32_MAX_def STRIDE_def)

lemma initial_pass_correct:
  assumes "dfg_wf d" "cfg_closed d" "cfg_compute d c0 = Some c" "rpo_of d rpo"
    and "length rpo < 536870912"
  shows "rpo = us @ todo \<Longrightarrow> length us = Suc idx \<Longrightarrow> dom_rep d rpo (set us) nodes f \<Longrightarrow>
    first_inv (set rpo) (entry_block d) (rk rpo) (rpreds d) (set us) f \<Longrightarrow>
    \<exists>nodes' f'. initial_pass d c idx todo nodes = Some nodes' \<and> dom_rep d rpo (set rpo) nodes' f' \<and>
      first_inv (set rpo) (entry_block d) (rk rpo) (rpreds d) (set rpo) f'"
proof (induction todo arbitrary: us idx nodes f)
  case Nil
  then show ?case by auto
next
  case (Cons x xs)
  have dist: "distinct (us @ x # xs)" using assms(4) Cons.prems(1) by (simp add: rpo_of_def)
  have ent: "entry_block d \<in> set us" using Cons.prems(4) by (simp add: first_inv_def)
  then have xe: "x \<noteq> entry_block d" using dist by auto
  then obtain u where u: "u \<in> set us" "x \<in> block_succs d u"
    using assms(4) Cons.prems(1) unfolding rpo_of_def by blast
  have tree: "tree (set us) (entry_block d) (rk rpo) f" using Cons.prems(4) by (simp add: first_inv_def)
  have sub: "set us \<subseteq> set rpo" using Cons.prems(1) by auto
  obtain w where w: "compute_idom d c nodes x = Some (term_of d w)"
    "is_nca (entry_block d) f {p \<in> rpreds d x. p \<in> set us} w"
    "last_inst d w = Some (Some (term_of d w))" "w \<in> set us"
    using compute_idom_correct [OF assms(1-4) Cons.prems(3) tree sub] u by blast
  define nodes1 where "nodes1 = nodes(x := \<lparr>rpo_number = 4 * (idx + 3), dn_idom = Some (term_of d w)\<rparr>)"
  have inv: "first_inv (set rpo) (entry_block d) (rk rpo) (rpreds d) (insert x (set us)) (f(x := w))"
  proof (rule first_inv_step [OF rpo_flow [OF assms(4)] Cons.prems(4) _ _ _ w(2)])
    show "x \<in> set rpo" "x \<notin> set us" using Cons.prems(1) dist by auto
    show "rk rpo u < rk rpo x \<longleftrightarrow> u \<in> set us" if "u \<in> set rpo" for u
      using rk_less_iff [OF dist] that unfolding Cons.prems(1) by simp
  qed
  have num: "rk rpo x = 4 * (idx + 3)"
    using rk_nth [OF dist] Cons.prems(1,2) by simp
  have rep: "dom_rep d rpo (insert x (set us)) nodes1 (f(x := w))"
    using Cons.prems(3) num xe w(3) dist unfolding dom_rep_def nodes1_def by auto
  have "length us + length xs < 536870912" using assms(5) Cons.prems(1) by simp
  then have "initial_pass d c idx (x # xs) nodes = initial_pass d c (Suc idx) xs nodes1"
    using w(1) rpo_number_ok [of idx] Cons.prems(2)
    by (auto simp: nodes1_def split: bind_splits)
  moreover have "rpo = (us @ [x]) @ xs" "length (us @ [x]) = Suc (Suc idx)" using Cons.prems by simp_all
  moreover have "set (us @ [x]) = insert x (set us)" by simp
  ultimately show ?case using Cons.IH [of "us @ [x]" "Suc idx" nodes1 "f(x := w)"] inv rep by metis
qed

section \<open>The other passes\<close>

text \<open>The sum of the ranks of the parents: what a pass that changes something decreases.\<close>

definition parent_sum :: "'f dfg \<Rightarrow> block list \<Rightarrow> (block \<Rightarrow> block) \<Rightarrow> nat" where
  "parent_sum d rpo f = (\<Sum>v \<in> set rpo - {entry_block d}. rk rpo (f v))"

lemma parent_sum_less:
  assumes "x \<in> set rpo" "x \<noteq> entry_block d" "rk rpo w < rk rpo (f x)"
  shows "parent_sum d rpo (f(x := w)) < parent_sum d rpo f"
  unfolding parent_sum_def
proof (rule sum_strict_mono_ex1)
  show "\<forall>v \<in> set rpo - {entry_block d}. rk rpo ((f(x := w)) v) \<le> rk rpo (f v)"
  proof
    fix v show "rk rpo ((f(x := w)) v) \<le> rk rpo (f v)"
      by (cases "v = x") (use assms(3) in simp_all)
  qed
  show "\<exists>v \<in> set rpo - {entry_block d}. rk rpo ((f(x := w)) v) < rk rpo (f v)"
  proof
    show "rk rpo ((f(x := w)) x) < rk rpo (f x)" using assms(3) by simp
    show "x \<in> set rpo - {entry_block d}" using assms(1,2) by simp
  qed
qed simp

lemma term_of_inj:
  assumes "dfg_wf d" "last_inst d v = Some (Some (term_of d v))" "last_inst d w = Some (Some (term_of d w))"
  shows "term_of d v = term_of d w \<longleftrightarrow> v = w"
  using last_inst_block(1) [OF assms(1,2)] last_inst_block(1) [OF assms(1,3)] by (metis option.inject)

lemma update_pass_flag: "update_pass d c bs nodes ch = Some (nodes', ch') \<Longrightarrow> ch \<Longrightarrow> ch'"
  by (induction bs arbitrary: nodes ch) (auto split: bind_splits if_splits)

lemma update_pass_correct:
  assumes "dfg_wf d" "cfg_closed d" "cfg_compute d c0 = Some c" "rpo_of d rpo"
    and t: "pred_tree (set rpo) (entry_block d) (rk rpo) (rpreds d) t"
  shows "rpo = us @ todo \<Longrightarrow> us \<noteq> [] \<Longrightarrow> (\<forall>u \<in> set us. rk rpo u < k) \<Longrightarrow> (\<forall>u \<in> set todo. k \<le> rk rpo u) \<Longrightarrow>
    dom_rep d rpo (set rpo) nodes f \<Longrightarrow>
    pass_inv (set rpo) (entry_block d) (rk rpo) (rpreds d) t f k \<Longrightarrow>
    \<exists>nodes' f' ch' k'. update_pass d c todo nodes ch = Some (nodes', ch') \<and>
      dom_rep d rpo (set rpo) nodes' f' \<and>
      pass_inv (set rpo) (entry_block d) (rk rpo) (rpreds d) t f' k' \<and> (\<forall>u \<in> set rpo. rk rpo u < k') \<and>
      parent_sum d rpo f' \<le> parent_sum d rpo f \<and>
      (ch' \<and> \<not> ch \<longrightarrow> parent_sum d rpo f' < parent_sum d rpo f) \<and>
      (\<not> ch' \<longrightarrow> f' = f \<and> (\<forall>v \<in> set todo. is_nca (entry_block d) f (rpreds d v) (f v)))"
proof (induction todo arbitrary: us k nodes f ch)
  case Nil
  then show ?case by auto
next
  case (Cons x xs)
  have dist: "distinct (us @ x # xs)" using assms(4) Cons.prems(1) by (simp add: rpo_of_def)
  have ent: "entry_block d \<in> set us"
    using assms(4) Cons.prems(1,2) unfolding rpo_of_def by (cases us) auto
  then have xe: "x \<noteq> entry_block d" using dist by auto
  then obtain u where u: "u \<in> set us" "x \<in> block_succs d u"
    using assms(4) Cons.prems(1) unfolding rpo_of_def by blast
  have xr: "x \<in> set rpo" and "u \<in> set rpo" using Cons.prems(1) u by auto
  have tree: "tree (set rpo) (entry_block d) (rk rpo) f" using Cons.prems(6) by (simp add: pass_inv_def)
  have preds: "{p \<in> rpreds d x. p \<in> set rpo} = rpreds d x"
    using assms(4) by (auto simp: rpo_of_def rpreds_def)
  obtain w where w: "compute_idom d c nodes x = Some (term_of d w)"
    "is_nca (entry_block d) f (rpreds d x) w"
    "last_inst d w = Some (Some (term_of d w))" "w \<in> set rpo"
  proof -
    have "\<exists>p \<in> set rpo. x \<in> block_succs d p" using u \<open>u \<in> set rpo\<close> by blast
    from compute_idom_correct [OF assms(1-4) Cons.prems(5) tree subset_refl this]
    show ?thesis using that unfolding preds by blast
  qed
  have old: "dn_idom (nodes x) = Some (term_of d (f x))" "last_inst d (f x) = Some (Some (term_of d (f x)))"
    using Cons.prems(5) xr xe by (simp_all add: dom_rep_def)
  have least: "rk rpo x \<le> rk rpo u" if "u \<in> set rpo" "k \<le> rk rpo u" for u
  proof -
    have "u \<notin> set us" using that Cons.prems(3) by auto
    then have "\<not> rk rpo u < rk rpo x" using rk_less_iff [OF dist, of u] that(1) Cons.prems(1) by simp
    then show ?thesis by simp
  qed
  note step = pass_inv_step [OF rpo_flow [OF assms(4)] t Cons.prems(6) xr xe _ least w(2)]
  have inv: "pass_inv (set rpo) (entry_block d) (rk rpo) (rpreds d) t (f(x := w)) (Suc (rk rpo x))"
    and sanc: "sanc (entry_block d) f w x"
    using step Cons.prems(4) by simp_all
  have le: "w = f x \<or> rk rpo w < rk rpo (f x)"
  proof -
    have "anc (entry_block d) f w (f x)" using sanc by (simp add: sanc_def)
    moreover have "f x \<in> set rpo" using tree xr xe by (simp add: tree_def)
    ultimately show ?thesis using sanc_rank [OF _ tree] anc_cases by metis
  qed
  define nodes1 where "nodes1 = (if w = f x then nodes else nodes(x := (nodes x)\<lparr>dn_idom := Some (term_of d w)\<rparr>))"
  have rep: "dom_rep d rpo (set rpo) nodes1 (f(x := w))"
    using Cons.prems(5) w(3) xe unfolding dom_rep_def nodes1_def by auto
  have eval: "update_pass d c (x # xs) nodes ch = update_pass d c xs nodes1 (w \<noteq> f x \<or> ch)"
    using w(1) old(1) term_of_inj [OF assms(1) old(2) w(3)] by (auto simp: nodes1_def)
  have split: "rpo = (us @ [x]) @ xs" using Cons.prems(1) by simp
  have before: "\<forall>u \<in> set (us @ [x]). rk rpo u < Suc (rk rpo x)"
    using rk_less_iff [OF dist] unfolding Cons.prems(1) by (auto intro: less_SucI)
  have after: "\<forall>u \<in> set xs. Suc (rk rpo x) \<le> rk rpo u"
  proof
    fix u assume u: "u \<in> set xs"
    then have "rk rpo u \<noteq> rk rpo x"
      using rk_inj [of rpo] dist Cons.prems(1) by (auto simp: inj_on_def)
    moreover have "\<not> rk rpo u < rk rpo x"
      using rk_less_iff [OF dist, of u] u dist unfolding Cons.prems(1) by auto
    ultimately show "Suc (rk rpo x) \<le> rk rpo u" by simp
  qed
  have sum: "parent_sum d rpo (f(x := w)) \<le> parent_sum d rpo f"
    "w \<noteq> f x \<Longrightarrow> parent_sum d rpo (f(x := w)) < parent_sum d rpo f"
    using parent_sum_less [OF xr xe, of w f] le by (auto simp: less_imp_le)
  have "us @ [x] \<noteq> []" by simp
  from Cons.IH [OF split this before after rep inv, of "w \<noteq> f x \<or> ch"] obtain nodes' f' ch' k' where
    ih: "update_pass d c xs nodes1 (w \<noteq> f x \<or> ch) = Some (nodes', ch')"
    "dom_rep d rpo (set rpo) nodes' f'"
    "pass_inv (set rpo) (entry_block d) (rk rpo) (rpreds d) t f' k'" "\<forall>u \<in> set rpo. rk rpo u < k'"
    "parent_sum d rpo f' \<le> parent_sum d rpo (f(x := w))"
    "ch' \<and> \<not> (w \<noteq> f x \<or> ch) \<longrightarrow> parent_sum d rpo f' < parent_sum d rpo (f(x := w))"
    "\<not> ch' \<longrightarrow> f' = f(x := w) \<and> (\<forall>v \<in> set xs. is_nca (entry_block d) (f(x := w)) (rpreds d v) ((f(x := w)) v))"
    by (elim exE conjE) (rule that)
  have flag: "ch' \<or> \<not> (w \<noteq> f x \<or> ch)" using update_pass_flag [OF ih(1)] by auto
  have "f(x := w) = f" if "w = f x" using that by auto
  then have "\<not> ch' \<longrightarrow> f' = f \<and> (\<forall>v \<in> set (x # xs). is_nca (entry_block d) f (rpreds d v) (f v))"
    using ih(7) flag w(2) by (auto split: if_splits)
  moreover have "parent_sum d rpo f' \<le> parent_sum d rpo f" using ih(5) sum(1) by simp
  moreover have "ch' \<and> \<not> ch \<longrightarrow> parent_sum d rpo f' < parent_sum d rpo f"
    using ih(5,6) sum by (cases "w = f x") auto
  ultimately show ?case using eval ih(1-4) by metis
qed

lemma pass_inv_skip_entry:
  assumes "flow N e rank preds" "pass_inv N e rank preds t f 0"
  shows "pass_inv N e rank preds t f (Suc (rank e))"
proof -
  have "v = e" if "v \<in> N" "rank v < Suc (rank e)" for v
    using assms(1) that unfolding flow_def by (metis less_SucE less_not_sym less_irrefl)
  then have "\<not> sanc e f z v" if "v \<in> N" "rank v < Suc (rank e)" for v z
    using that by (auto simp: sanc_def)
  with assms(2) show ?thesis unfolding pass_inv_def by fastforce
qed

lemma converge_correct:
  assumes "dfg_wf d" "cfg_closed d" "cfg_compute d c0 = Some c" "rpo_of d rpo"
    and t: "pred_tree (set rpo) (entry_block d) (rk rpo) (rpreds d) t"
  shows "dom_rep d rpo (set rpo) nodes f \<Longrightarrow>
    pass_inv (set rpo) (entry_block d) (rk rpo) (rpreds d) t f 0 \<Longrightarrow>
    \<exists>nodes' f' k. converge d c (tl rpo) nodes = Some nodes' \<and> dom_rep d rpo (set rpo) nodes' f' \<and>
      pass_inv (set rpo) (entry_block d) (rk rpo) (rpreds d) t f' k \<and>
      (\<forall>v \<in> set rpo. v \<noteq> entry_block d \<longrightarrow> is_nca (entry_block d) f' (rpreds d v) (f' v))"
proof (induction "parent_sum d rpo f" arbitrary: nodes f rule: less_induct)
  case less
  have rpo: "rpo = [entry_block d] @ tl rpo"
    using assms(4) unfolding rpo_of_def by (cases rpo) auto
  have dist: "distinct ([] @ entry_block d # tl rpo)" using assms(4) rpo by (simp add: rpo_of_def)
  have ent: "rk rpo (entry_block d) < rk rpo v" if "v \<in> set (tl rpo)" for v
  proof -
    have "v \<in> set rpo" using that rpo by (metis Un_iff set_append)
    moreover have "v \<noteq> entry_block d" using that dist by auto
    ultimately show ?thesis using rpo_flow [OF assms(4)] by (simp add: flow_def)
  qed
  have inv: "pass_inv (set rpo) (entry_block d) (rk rpo) (rpreds d) t f (Suc (rk rpo (entry_block d)))"
    by (rule pass_inv_skip_entry [OF rpo_flow [OF assms(4)] less.prems(2)])
  from update_pass_correct [OF assms(1-5) rpo _ _ _ less.prems(1) inv, of False] ent
  obtain nodes' f' ch' k' where r: "update_pass d c (tl rpo) nodes False = Some (nodes', ch')"
    "dom_rep d rpo (set rpo) nodes' f'"
    "pass_inv (set rpo) (entry_block d) (rk rpo) (rpreds d) t f' k'" "\<forall>u \<in> set rpo. rk rpo u < k'"
    "ch' \<longrightarrow> parent_sum d rpo f' < parent_sum d rpo f"
    "\<not> ch' \<longrightarrow> f' = f \<and> (\<forall>v \<in> set (tl rpo). is_nca (entry_block d) f (rpreds d v) (f v))"
    by (auto simp: Suc_le_eq)
  show ?case
  proof (cases ch')
    case True
    have "pass_inv (set rpo) (entry_block d) (rk rpo) (rpreds d) t f' 0"
      by (rule pass_inv_restart [OF r(3)]) (use r(4) in blast)
    from less.hyps [OF _ r(2) this] True r(1,5) show ?thesis
      by (subst converge.simps) simp
  next
    case False
    have "v \<in> set (tl rpo)" if "v \<in> set rpo" "v \<noteq> entry_block d" for v
      using that rpo by (metis Un_iff empty_iff list.set(1) list.set(2) insert_iff set_append)
    with False r show ?thesis by (subst converge.simps) auto
  qed
qed

end
