(* ===== verification/DomQueries.thy ===== *)
theory DomQueries
  imports DomCorrect
begin

text \<open>
  The whole computation of the dominator tree and the queries on it: the properties.
\<close>

section \<open>The tree\<close>

definition dom_tree_rep :: "'f dfg \<Rightarrow> block list \<Rightarrow> dominator_tree \<Rightarrow> (block \<Rightarrow> block) \<Rightarrow> bool" where
  "dom_tree_rep d rpo t f \<longleftrightarrow>
     rpo_of d rpo \<and> dom_rep d rpo (set rpo) (dt_nodes t) f \<and>
     tree (set rpo) (entry_block d) (rk rpo) f \<and>
     (\<forall>b \<in> set rpo. \<forall>a. anc (entry_block d) f a b \<longleftrightarrow> path_dominates d a b)"

lemma rpo_of_postorder:
  assumes "distinct po" "set po = {b. reachable d b}" "po \<noteq> []" "last po = entry_block d"
    and "\<And>us v ws. po = us @ v # ws \<Longrightarrow> v \<noteq> entry_block d \<Longrightarrow> \<exists>u \<in> set ws. v \<in> block_succs d u"
  shows "rpo_of d (rev po)"
  unfolding rpo_of_def
proof (intro conjI allI impI)
  fix us v ws assume s: "rev po = us @ v # ws" and v: "v \<noteq> entry_block d"
  from s have "po = rev ws @ v # rev us" by (simp add: rev_eq_append_conv)
  from assms(5) [OF this v] show "\<exists>u \<in> set us. v \<in> block_succs d u" by simp
qed (use assms in \<open>simp_all add: hd_rev\<close>)

lemma compute_domtree_correct:
  assumes "dfg_wf d" "cfg_closed d" "cfg_compute d c0 = Some c" "rpo_of d rpo"
    and "length (block_keys d) < 536870912" "dt_postorder t = rev rpo"
    and nodes: "dt_nodes t = (\<lambda>b. if reachable d b then \<lparr>rpo_number = SEEN, dn_idom = None\<rparr> else default_dom_node)"
  shows "\<exists>nodes' f. compute_domtree d c t = Some (t\<lparr>dt_nodes := nodes'\<rparr>) \<and>
    dom_tree_rep d rpo (t\<lparr>dt_nodes := nodes'\<rparr>) f"
proof -
  have fl: "flow (set rpo) (entry_block d) (rk rpo) (rpreds d)" by (rule rpo_flow [OF assms(4)])
  have rpo: "rpo = [entry_block d] @ tl rpo"
    using assms(4) unfolding rpo_of_def by (cases rpo) auto
  have r: "set rpo = {b. reachable d b}" using assms(4) by (simp add: rpo_of_def)
  have len: "length rpo < 536870912" using key_bound [OF assms(4,2)] assms(5) by simp
  define nodes0 where
    "nodes0 = (dt_nodes t)(entry_block d := (dt_nodes t (entry_block d))\<lparr>rpo_number := 2 * STRIDE\<rparr>)"
  have "rk rpo (entry_block d) = 8" by (subst rpo) (simp add: rk_def)
  then have rep: "dom_rep d rpo (set [entry_block d]) nodes0 (\<lambda>_. entry_block d)"
    using r reachable_entry [of d]
    by (auto simp: dom_rep_def nodes0_def nodes STRIDE_def SEEN_def default_dom_node_def)
  have "first_inv (set rpo) (entry_block d) (rk rpo) (rpreds d) (set [entry_block d]) (\<lambda>_. entry_block d)"
    using first_inv_entry [OF fl] by simp
  from initial_pass_correct [OF assms(1-4) len rpo _ rep this, of 0]
  obtain nodes1 f1 where p1: "initial_pass d c 0 (tl rpo) nodes0 = Some nodes1"
    "dom_rep d rpo (set rpo) nodes1 f1"
    "first_inv (set rpo) (entry_block d) (rk rpo) (rpreds d) (set rpo) f1"
    by auto
  obtain pt where pt: "pred_tree (set rpo) (entry_block d) (rk rpo) (rpreds d) pt"
    using pred_tree_exists [OF fl] by blast
  from converge_correct [OF assms(1-4) pt p1(2) first_pass_inv [OF fl p1(3) pt]]
  obtain nodes2 f2 k where p2: "converge d c (tl rpo) nodes1 = Some nodes2"
    "dom_rep d rpo (set rpo) nodes2 f2"
    "pass_inv (set rpo) (entry_block d) (rk rpo) (rpreds d) pt f2 k"
    "\<forall>v \<in> set rpo. v \<noteq> entry_block d \<longrightarrow> is_nca (entry_block d) f2 (rpreds d v) (f2 v)"
    by blast
  have "anc (entry_block d) f2 a b \<longleftrightarrow> path_dominates d a b" if "b \<in> set rpo" for a b
    using fixpoint_dominators [OF fl p2(3) _ that, of a] p2(4) avoids_path [of d b a] that
    unfolding r by simp
  moreover have "tree (set rpo) (entry_block d) (rk rpo) f2" using p2(3) by (simp add: pass_inv_def)
  moreover have "compute_domtree d c t = Some (t\<lparr>dt_nodes := nodes2\<rparr>)"
  proof -
    obtain bs where "rpo = entry_block d # bs" using rpo by (metis append_Cons append_Nil)
    then have "dt_postorder t \<noteq> []" "last (dt_postorder t) = entry_block d"
      "rev (butlast (dt_postorder t)) = tl rpo"
      using assms(6) by simp_all
    then show ?thesis using p1(1) p2(1) by (simp add: compute_domtree_def nodes0_def [symmetric] Let_def)
  qed
  ultimately show ?thesis using p2(2) assms(4) unfolding dom_tree_rep_def by force
qed

lemma dt_compute_correct:
  assumes "dfg_wf d" "cfg_closed d" "cfg_compute d c0 = Some c" "length (block_keys d) < 536870912"
  shows "\<exists>t' rpo f. dt_compute d c t = Some t' \<and> dt_valid t' \<and> dt_postorder t' = rev rpo \<and>
    dom_tree_rep d rpo t' f"
proof -
  obtain t1 where t1: "compute_postorder d t = Some t1"
    "dt_nodes t1 = (\<lambda>b. if reachable d b then \<lparr>rpo_number = SEEN, dn_idom = None\<rparr> else default_dom_node)"
    "rpo_of d (rev (dt_postorder t1))"
    by (rule compute_postorder_correct [OF assms(2), of t]) (use rpo_of_postorder in blast)
  from compute_domtree_correct [OF assms(1-3) t1(3) assms(4) _ t1(2)] obtain nodes f where
    c: "compute_domtree d c t1 = Some (t1\<lparr>dt_nodes := nodes\<rparr>)"
    "dom_tree_rep d (rev (dt_postorder t1)) (t1\<lparr>dt_nodes := nodes\<rparr>) f"
    by auto
  have "cfg_valid c" using assms(3) by (auto simp: cfg_compute_def split: bind_splits)
  then have "dt_compute d c t = Some (t1\<lparr>dt_nodes := nodes, dt_valid := True\<rparr>)"
    using t1(1) c(1) by (simp add: dt_compute_def)
  then show ?thesis using c(2)
    by (intro exI [of _ "t1\<lparr>dt_nodes := nodes, dt_valid := True\<rparr>"] exI [of _ "rev (dt_postorder t1)"] exI [of _ f])
      (simp add: dom_tree_rep_def)
qed

section \<open>Queries\<close>

text \<open>The facts of a block in which an instruction is linked.\<close>

lemma inst_in_block:
  assumes "dfg_wf d" "Option.bind (inst_block d i) id = Some b"
  obtains bd k where "dfg_block d b = Some bd" "distinct (bd_insts bd)" "k < length (bd_insts bd)"
    "bd_insts bd ! k = i" "pp_seq d (PpInst i) = Some (Suc k)"
proof -
  from assms(2) obtain n where n: "dfg_inst_node d i = Some n" "inst_is_linked d i" "in_block n = b"
    by (auto simp: inst_block_def split: bind_splits if_splits)
  from n(2) obtain bd where m: "Some bd \<in> set (om_map (dfg_blocks d))" "i \<in> set (bd_insts bd)"
    unfolding inst_is_linked_def list_ex_iff by (auto split: option.splits)
  then obtain j where "j < length (om_map (dfg_blocks d))" "om_map (dfg_blocks d) ! j = Some bd"
    by (auto simp: in_set_conv_nth)
  then have bd: "dfg_block d j = Some bd" "i \<in> set (bd_insts bd)"
    using m(2) by (simp_all add: dfg_block_get am_get_def)
  with assms(1) n have j: "j = b" "distinct (bd_insts bd)"
    unfolding dfg_wf_def blocks_wf_def by (metis option.inject)+
  obtain xs ys where s: "bd_insts bd = xs @ i # ys" "i \<notin> set xs"
    using split_list_first [OF bd(2)] by blast
  then have "pp_seq d (PpInst i) = Some (Suc (length xs))"
    using n bd(1) j(1) position_split [of i xs ys] by (simp add: pp_seq_def block_insts_def)
  with bd j s show thesis by (intro that [of bd "length xs"]) simp_all
qed

lemma pp_seq_total:
  assumes "dfg_wf d" "pp_block d p = Some b"
  shows "\<exists>k. pp_seq d p = Some k"
proof (cases p)
  case (PpInst i)
  then show ?thesis using inst_in_block [OF assms(1), of i b] assms(2) by (auto simp: pp_block_def)
qed (simp add: pp_seq_def)

lemma pp_cmp_seq:
  assumes "dfg_wf d" "pp_block d p = Some b" "pp_block d q = Some b"
  shows "\<exists>ord. pp_cmp d p q = Some ord \<and> (ord \<noteq> Greater \<longleftrightarrow> the (pp_seq d p) \<le> the (pp_seq d q))"
  using pp_seq_total [OF assms(1,2)] pp_seq_total [OF assms(1,3)] assms(2,3)
  by (auto simp: pp_cmp_def order_of_def)

lemma pp_cmp_terminator:
  assumes "dfg_wf d" "Option.bind (inst_block d i) id = Some b" "last_inst d b = Some (Some j)"
  shows "\<exists>ord. pp_cmp d (PpInst i) (PpInst j) = Some ord \<and> ord \<noteq> Greater"
proof -
  obtain bd k where i: "dfg_block d b = Some bd" "distinct (bd_insts bd)" "k < length (bd_insts bd)"
    "bd_insts bd ! k = i" "pp_seq d (PpInst i) = Some (Suc k)" by (rule inst_in_block [OF assms(1,2)])
  have jb: "Option.bind (inst_block d j) id = Some b"
    using last_inst_block(1) [OF assms(1,3)] by simp
  obtain bd' k' where j: "dfg_block d b = Some bd'" "distinct (bd_insts bd')" "k' < length (bd_insts bd')"
    "bd_insts bd' ! k' = j" "pp_seq d (PpInst j) = Some (Suc k')" by (rule inst_in_block [OF assms(1) jb])
  have "j = bd_insts bd ! (length (bd_insts bd) - 1)"
    using assms(3) i(1) by (auto simp: last_inst_def bd_last_def last_conv_nth split: if_splits)
  then have "k' = length (bd_insts bd) - 1"
    using i(1) j nth_eq_iff_index_eq [OF i(2), of k' "length (bd_insts bd) - 1"] by auto
  then have "k \<le> k'" using i(3) by simp
  moreover obtain ord where "pp_cmp d (PpInst i) (PpInst j) = Some ord"
      "ord \<noteq> Greater \<longleftrightarrow> the (pp_seq d (PpInst i)) \<le> the (pp_seq d (PpInst j))"
    using pp_cmp_seq [OF assms(1), of "PpInst i" b "PpInst j"] assms(2) jb by (auto simp: pp_block_def)
  ultimately show ?thesis using i(5) j(5) by simp
qed

lemma last_dominator_loop_correct:
  assumes "dfg_wf d" "dom_tree_rep d rpo t f" "a \<in> set rpo"
  shows "b \<in> set rpo \<Longrightarrow>
    \<exists>u i. last_dominator_loop t d (rk rpo a) b ib = Some (Some (u, i)) \<and>
      (anc (entry_block d) f a b \<longleftrightarrow> u = a) \<and> rk rpo u \<le> rk rpo b \<and>
      (if u = b then i = ib
       else i = Some (term_of d u) \<and> last_inst d u = Some (Some (term_of d u)))"
proof (induction "rk rpo b" arbitrary: b ib rule: less_induct)
  case less
  have rep: "dom_rep d rpo (set rpo) (dt_nodes t) f"
    and tree: "tree (set rpo) (entry_block d) (rk rpo) f" and rpo: "rpo_of d rpo"
    using assms(2) by (simp_all add: dom_tree_rep_def)
  have num: "rpo_number (dt_nodes t b) = rk rpo b" using rep less.prems by (simp add: dom_rep_def)
  show ?case
  proof (cases "rk rpo a < rk rpo b")
    case True
    have be: "b \<noteq> entry_block d"
      using True rpo_flow [OF rpo] assms(3) unfolding flow_def by (metis less_not_sym)
    have fb: "f b \<in> set rpo" "rk rpo (f b) < rk rpo b" "idom t b = Some (term_of d (f b))"
      "last_inst d (f b) = Some (Some (term_of d (f b)))"
      using tree rep less.prems be by (simp_all add: tree_def dom_rep_def idom_def)
    have blk: "inst_block d (term_of d (f b)) = Some (Some (f b))"
      by (rule last_inst_block(1) [OF assms(1) fb(4)])
    have an: "anc (entry_block d) f a b \<longleftrightarrow> anc (entry_block d) f a (f b)"
      using True be anc_cases [of "entry_block d" f a b] by (auto simp: sanc_def)
    obtain u i where ih: "last_dominator_loop t d (rk rpo a) (f b) (Some (term_of d (f b))) = Some (Some (u, i))"
      "anc (entry_block d) f a (f b) \<longleftrightarrow> u = a" "rk rpo u \<le> rk rpo (f b)"
      "if u = f b then i = Some (term_of d (f b))
       else i = Some (term_of d u) \<and> last_inst d u = Some (Some (term_of d u))"
      using less.hyps [OF fb(2,1)] by blast
    have "u \<noteq> b" using ih(3) fb(2) by auto
    moreover have "i = Some (term_of d u) \<and> last_inst d u = Some (Some (term_of d u))"
      using ih(4) fb(4) by (cases "u = f b") simp_all
    moreover have "rk rpo u \<le> rk rpo b" using ih(3) fb(2) by simp
    ultimately show ?thesis
      using True num fb(3) blk ih(1,2) an by (subst last_dominator_loop.simps) simp
  next
    case False
    have "anc (entry_block d) f a b \<longleftrightarrow> a = b"
      using anc_rank [OF _ tree less.prems] False rk_inj [of rpo] assms(3) less.prems
      by (metis anc_refl inj_onD le_less)
    then show ?thesis using False num by (subst last_dominator_loop.simps) auto
  qed
qed

lemma last_dominator_unreachable:
  assumes "dfg_wf d" "dom_tree_rep d rpo t f"
  shows "b \<in> set rpo \<Longrightarrow> last_dominator_loop t d 0 b ib = Some None"
proof (induction "rk rpo b" arbitrary: b ib rule: less_induct)
  case less
  have rep: "dom_rep d rpo (set rpo) (dt_nodes t) f" and tree: "tree (set rpo) (entry_block d) (rk rpo) f"
    using assms(2) by (simp_all add: dom_tree_rep_def)
  have num: "0 < rpo_number (dt_nodes t b)" using rep less.prems rk_pos [of rpo b] by (simp add: dom_rep_def)
  show ?case
  proof (cases "b = entry_block d")
    case True
    then have "idom t b = None" using rep by (simp add: dom_rep_def idom_def)
    then show ?thesis using num by (subst last_dominator_loop.simps) simp
  next
    case False
    then have fb: "f b \<in> set rpo" "rk rpo (f b) < rk rpo b" "idom t b = Some (term_of d (f b))"
      "last_inst d (f b) = Some (Some (term_of d (f b)))"
      using tree rep less.prems by (simp_all add: tree_def dom_rep_def idom_def)
    have "inst_block d (term_of d (f b)) = Some (Some (f b))"
      by (rule last_inst_block(1) [OF assms(1) fb(4)])
    then show ?thesis
      using num fb(3) less.hyps [OF fb(2,1)] by (subst last_dominator_loop.simps) simp
  qed
qed

lemma last_dominator_correct:
  assumes "dfg_wf d" "dom_tree_rep d rpo t f" "pp_block d q = Some b"
  shows "last_dominator t a q d = Some
    (if a = b then (case q of PpBlock _ \<Rightarrow> None | PpInst j \<Rightarrow> Some j)
     else if reachable d b \<and> path_dominates d a b then Some (term_of d a) else None) \<and>
    (a \<noteq> b \<and> reachable d b \<and> path_dominates d a b \<longrightarrow> last_inst d a = Some (Some (term_of d a)))"
proof -
  let ?iq = "case q of PpBlock _ \<Rightarrow> None | PpInst j \<Rightarrow> Some j"
  have rep: "dom_rep d rpo (set rpo) (dt_nodes t) f" and r: "set rpo = {b. reachable d b}"
    and an: "\<And>a b. b \<in> set rpo \<Longrightarrow> anc (entry_block d) f a b \<longleftrightarrow> path_dominates d a b"
    and tree: "tree (set rpo) (entry_block d) (rk rpo) f"
    using assms(2) by (auto simp: dom_tree_rep_def rpo_of_def)
  have eval: "last_dominator t a q d = map_option
      (\<lambda>r. case r of None \<Rightarrow> None | Some (p, i) \<Rightarrow> if a = p then i else None)
      (last_dominator_loop t d (rpo_number (dt_nodes t a)) b ?iq)"
    using assms(3) by (cases q) (auto simp: last_dominator_def pp_block_def map_option_case split: option.splits)
  have num: "rpo_number (dt_nodes t v) = (if v \<in> set rpo then rk rpo v else 0)" for v
    using rep by (simp add: dom_rep_def)
  show ?thesis
  proof (cases "b \<in> set rpo")
    case False
    then have "last_dominator_loop t d (rpo_number (dt_nodes t a)) b ?iq = Some (Some (b, ?iq))"
      using num [of b] by (subst last_dominator_loop.simps) simp
    then show ?thesis using eval False r by simp
  next
    case b: True
    show ?thesis
    proof (cases "a \<in> set rpo")
      case True
      from last_dominator_loop_correct [OF assms(1,2) True b, of ?iq] an [OF b, of a] b
      show ?thesis using eval True num [of a] r by (auto split: if_splits)
    next
      case False
      then have "\<not> anc (entry_block d) f a b" using anc_rank [OF _ tree b] by blast
      moreover have "a \<noteq> b" using False b by blast
      ultimately show ?thesis
        using an [OF b, of a] eval num [of a] False last_dominator_unreachable [OF assms(1,2) b, of ?iq] by simp
    qed
  qed
qed

text \<open>Dominance of program points: inside a block it is the order of the layout.\<close>

definition point_dominates :: "'f dfg \<Rightarrow> program_point \<Rightarrow> program_point \<Rightarrow> bool" where
  "point_dominates d p q \<longleftrightarrow>
     (if pp_block d p = pp_block d q then the (pp_seq d p) \<le> the (pp_seq d q)
      else reachable d (the (pp_block d q)) \<and>
           path_dominates d (the (pp_block d p)) (the (pp_block d q)))"

lemma dominates_correct:
  assumes "dfg_wf d" "dom_tree_rep d rpo t f" "pp_block d p = Some a" "pp_block d q = Some b"
  shows "dominates t p q d = Some (point_dominates d p q)"
proof (cases p)
  case (PpBlock a')
  then have a': "a' = a" using assms(3) by (simp add: pp_block_def)
  note last = last_dominator_correct [OF assms(1,2,4), of a]
  show ?thesis
    using last assms(4) PpBlock a'
    by (cases q) (auto simp: dominates_def point_dominates_def pp_block_def pp_seq_def)
next
  case (PpInst i)
  then have i: "Option.bind (inst_block d i) id = Some a" using assms(3) by (simp add: pp_block_def)
  have pi: "pp_block d (PpInst i) = Some a" using i by (simp add: pp_block_def)
  note last = last_dominator_correct [OF assms(1,2,4), of a]
  show ?thesis
  proof (cases "a = b")
    case True
    show ?thesis
    proof (cases q)
      case (PpBlock b')
      obtain k where "pp_seq d (PpInst i) = Some (Suc k)" by (rule inst_in_block [OF assms(1) i])
      then show ?thesis
        using last True PpInst PpBlock i pi assms(4)
        by (simp add: dominates_def point_dominates_def) (simp add: pp_seq_def)
    next
      case q: (PpInst j)
      with pp_cmp_seq [OF assms(1) pi, of q] assms(4) True obtain ord where
        "pp_cmp d (PpInst i) (PpInst j) = Some ord"
        "ord \<noteq> Greater \<longleftrightarrow> the (pp_seq d (PpInst i)) \<le> the (pp_seq d (PpInst j))" by blast
      then show ?thesis
        using last True PpInst q i pi assms(4) by (simp add: dominates_def point_dominates_def)
    qed
  next
    case False
    show ?thesis
    proof (cases "reachable d b \<and> path_dominates d a b")
      case True
      with last False have l: "last_dominator t a q d = Some (Some (term_of d a))"
        "last_inst d a = Some (Some (term_of d a))" by simp_all
      obtain ord where "pp_cmp d (PpInst i) (PpInst (term_of d a)) = Some ord" "ord \<noteq> Greater"
        using pp_cmp_terminator [OF assms(1) i l(2)] by blast
      then show ?thesis
        using l(1) True False PpInst i pi assms(4) by (simp add: dominates_def point_dominates_def)
    next
      case no: False
      with last False have "last_dominator t a q d = Some None" by auto
      then show ?thesis
        using no False PpInst i pi assms(4) by (simp add: dominates_def point_dominates_def)
    qed
  qed
qed

text \<open>The immediate dominator: the strict dominator that the others dominate.\<close>

definition immediate_dominator :: "'f dfg \<Rightarrow> block \<Rightarrow> block \<Rightarrow> bool" where
  "immediate_dominator d w b \<longleftrightarrow>
     w \<noteq> b \<and> path_dominates d w b \<and> (\<forall>a. a \<noteq> b \<and> path_dominates d a b \<longrightarrow> path_dominates d a w)"

lemma idom_correct:
  assumes "dom_tree_rep d rpo t f" "reachable d b" "b \<noteq> entry_block d"
  shows "\<exists>w. idom t b = Some (term_of d w) \<and> last_inst d w = Some (Some (term_of d w)) \<and>
    reachable d w \<and> immediate_dominator d w b"
proof -
  have r: "set rpo = {b. reachable d b}" and tree: "tree (set rpo) (entry_block d) (rk rpo) f"
    and rep: "dom_rep d rpo (set rpo) (dt_nodes t) f"
    and an: "\<And>a b. b \<in> set rpo \<Longrightarrow> anc (entry_block d) f a b \<longleftrightarrow> path_dominates d a b"
    using assms(1) by (auto simp: dom_tree_rep_def rpo_of_def)
  have b: "b \<in> set rpo" using r assms(2) by simp
  have fb: "f b \<in> set rpo" "rk rpo (f b) < rk rpo b" using tree b assms(3) by (simp_all add: tree_def)
  have "anc (entry_block d) f a b \<longleftrightarrow> a = b \<or> anc (entry_block d) f a (f b)" for a
    using anc_cases [of "entry_block d" f a b] assms(3) by (simp add: sanc_def)
  then have "immediate_dominator d (f b) b"
    unfolding immediate_dominator_def an [OF b, symmetric] an [OF fb(1), symmetric]
    using fb(2) anc_refl by auto
  then show ?thesis
    using rep b assms(3) fb(1) r by (intro exI [of _ "f b"]) (simp add: dom_rep_def idom_def)
qed

text \<open>
  C25. \<open>DominatorTree::compute\<close> always returns, and its queries are right.  A block is reported
  reachable exactly when a path of the control flow graph leads to it from the entry block, and
  the post-order lists those blocks once each.  \<open>dominates\<close> decides, for any two linked program
  points, whether the first is on every path to the second: by the order of the layout inside a
  block, and by the paths of the graph between blocks (no other block dominates an unreachable
  one).  \<open>idom\<close> is nothing for the entry block, and for every other reachable block the terminator of its
  immediate dominator: the strict dominator that all its strict dominators dominate.
\<close>

theorem dominator_tree_correct:
  fixes d :: "'f dfg"
  assumes "dfg_wf d" "cfg_closed d" "cfg_compute d c0 = Some c" "length (block_keys d) < 536870912"
  shows "\<exists>t'. dt_compute d c t = Some t' \<and>
    (\<forall>b. is_reachable t' b \<longleftrightarrow> reachable d b) \<and>
    (distinct (dt_postorder t') \<and> set (dt_postorder t') = {b. reachable d b}) \<and>
    (\<forall>p q a b. pp_block d p = Some a \<and> pp_block d q = Some b \<longrightarrow>
       dominates t' p q d = Some (point_dominates d p q)) \<and>
    idom t' (entry_block d) = None \<and>
    (\<forall>b. reachable d b \<and> b \<noteq> entry_block d \<longrightarrow>
       (\<exists>w i. idom t' b = Some i \<and> last_inst d w = Some (Some i) \<and> reachable d w \<and>
          immediate_dominator d w b))"
proof -
  obtain t' rpo f where t': "dt_compute d c t = Some t'" "dt_postorder t' = rev rpo"
    "dom_tree_rep d rpo t' f"
    using dt_compute_correct [OF assms, of t] by blast
  have r: "set rpo = {b. reachable d b}" "distinct rpo"
    and rep: "dom_rep d rpo (set rpo) (dt_nodes t') f"
    using t'(3) by (auto simp: dom_tree_rep_def rpo_of_def)
  have "is_reachable t' b \<longleftrightarrow> reachable d b" for b
    using rep rk_pos [of rpo b] r(1) by (simp add: is_reachable_def dom_rep_def)
  moreover have "idom t' (entry_block d) = None" using rep by (simp add: dom_rep_def idom_def)
  moreover have "\<exists>w i. idom t' b = Some i \<and> last_inst d w = Some (Some i) \<and> reachable d w \<and>
      immediate_dominator d w b" if "reachable d b" "b \<noteq> entry_block d" for b
    using idom_correct [OF t'(3) that] by blast
  ultimately show ?thesis
    using t'(1,2) r dominates_correct [OF assms(1) t'(3)] by (intro exI [of _ t']) simp
qed

lemma branch_dests:
  "block_dests (branch_dfg :: int dfg) 0 = Some [1]"
  "block_dests (branch_dfg :: int dfg) (Suc 0) = Some []"
  using branch_last
  by (simp_all add: block_dests_def)
    (simp add: branch_dfg_def branch_eval dfg_analyze_branch_def push_order_def)

lemma branch_entry: "entry_block (branch_dfg :: int dfg) = 0"
  by (simp add: branch_dfg_def branch_eval entry_block_def)

lemma branch_closed: "cfg_closed (branch_dfg :: int dfg)"
  by (simp add: cfg_closed_def branch_keys branch_dests branch_entry)

theorem dominator_tree_correct_witness:
  "\<exists>c t. cfg_compute (branch_dfg :: int dfg) cfg_new = Some c \<and>
     dt_compute (branch_dfg :: int dfg) c dt_new = Some t \<and>
     dominates t (PpBlock 0) (PpBlock 1) (branch_dfg :: int dfg) = Some True"
proof -
  obtain c where c: "cfg_compute (branch_dfg :: int dfg) cfg_new = Some c" using branch_cfg by blast
  have keys: "length (block_keys (branch_dfg :: int dfg)) < 536870912" by (simp add: branch_keys)
  from dominator_tree_correct [OF branch_dfg_wf branch_closed c keys, of dt_new]
  obtain t where t: "dt_compute (branch_dfg :: int dfg) c dt_new = Some t"
    "\<forall>p q a b. pp_block (branch_dfg :: int dfg) p = Some a \<and> pp_block (branch_dfg :: int dfg) q = Some b \<longrightarrow>
       dominates t p q (branch_dfg :: int dfg) = Some (point_dominates (branch_dfg :: int dfg) p q)"
    by (elim exE conjE) (rule that)
  have "reachable (branch_dfg :: int dfg) 1"
    using reachable_step [OF reachable_entry, of 1 "branch_dfg :: int dfg"]
    by (simp add: branch_entry block_succs_def branch_dests)
  moreover have "path_dominates (branch_dfg :: int dfg) 0 1"
    unfolding path_dominates_def cfg_path_def branch_entry by (metis hd_in_set)
  ultimately have "point_dominates (branch_dfg :: int dfg) (PpBlock 0) (PpBlock 1)"
    by (simp add: point_dominates_def pp_block_def)
  then show ?thesis using c t by (auto simp: pp_block_def)
qed

end
