(* ===== verification/Loops.thy ===== *)
theory Loops
  imports DomQueries
begin

text \<open>
  The loop tree of a function (hir-analysis/src/loops.rs).  A loop is an index into a table of
  loops, a level a number of eight bits with 255 for no level yet; the map from blocks to their
  innermost loop is a function.  A stack is a list with the top first.
\<close>

section \<open>Loops and levels\<close>

type_synonym loop = nat
type_synonym loop_level = nat

definition LEVEL_INVALID :: loop_level where "LEVEL_INVALID = 255"

definition level_root :: loop_level where "level_root = 0"

definition level_inc :: "loop_level \<Rightarrow> loop_level option" where
  "level_inc l = (if l = LEVEL_INVALID - 1 then Some l else u8_add l 1)"

definition level_clamped :: "nat \<Rightarrow> loop_level" where
  "level_clamped l = min l (LEVEL_INVALID - 1)"

record loop_data =
  ld_header :: block
  ld_parent :: "loop option"
  ld_level :: loop_level

definition loop_data_new :: "block \<Rightarrow> loop option \<Rightarrow> loop_data" where
  "loop_data_new h p = \<lparr>ld_header = h, ld_parent = p, ld_level = LEVEL_INVALID\<rparr>"

record loop_analysis =
  la_loops :: "loop_data list"
  la_block_loop :: "block \<Rightarrow> loop option"
  la_valid :: bool

definition la_default :: loop_analysis where
  "la_default = \<lparr>la_loops = [], la_block_loop = (\<lambda>_. None), la_valid = False\<rparr>"

definition la_clear :: "loop_analysis \<Rightarrow> loop_analysis" where
  "la_clear la = la\<lparr>la_loops := [], la_block_loop := (\<lambda>_. None), la_valid := False\<rparr>"

definition loop_at :: "loop_analysis \<Rightarrow> loop \<Rightarrow> loop_data option" where
  "loop_at la l = (if l < length (la_loops la) then Some (la_loops la ! l) else None)"

definition set_parent :: "loop \<Rightarrow> loop \<Rightarrow> loop_analysis \<Rightarrow> loop_analysis option" where
  "set_parent l p la = do {
     data \<leftarrow> loop_at la l;
     Some (la\<lparr>la_loops := (la_loops la)[l := data\<lparr>ld_parent := Some p\<rparr>]\<rparr>) }"

definition set_level :: "loop \<Rightarrow> loop_level \<Rightarrow> loop_analysis \<Rightarrow> loop_analysis option" where
  "set_level l v la = do {
     data \<leftarrow> loop_at la l;
     Some (la\<lparr>la_loops := (la_loops la)[l := data\<lparr>ld_level := v\<rparr>]\<rparr>) }"

section \<open>Queries\<close>

definition la_keys :: "loop_analysis \<Rightarrow> loop list" where
  "la_keys la = [0..<length (la_loops la)]"

definition loop_header :: "loop_analysis \<Rightarrow> loop \<Rightarrow> block option" where
  "loop_header la l = map_option ld_header (loop_at la l)"

definition loop_parent :: "loop_analysis \<Rightarrow> loop \<Rightarrow> loop option option" where
  "loop_parent la l = map_option ld_parent (loop_at la l)"

definition innermost_loop :: "loop_analysis \<Rightarrow> block \<Rightarrow> loop option" where
  "innermost_loop la b = la_block_loop la b"

definition is_loop_header :: "loop_analysis \<Rightarrow> block \<Rightarrow> loop option option" where
  "is_loop_header la b =
     (case innermost_loop la b of
        None \<Rightarrow> Some None
      | Some l \<Rightarrow> do { h \<leftarrow> loop_header la l; Some (if h = b then Some l else None) })"

text \<open>The finger along the loop tree.\<close>

partial_function (option) is_child_loop :: "loop_analysis \<Rightarrow> loop \<Rightarrow> loop \<Rightarrow> bool option" where
  "is_child_loop la child parent =
     (if child = parent then Some True
      else do {
        p \<leftarrow> loop_parent la child;
        (case p of None \<Rightarrow> Some False | Some q \<Rightarrow> is_child_loop la q parent) })"

definition is_in_loop :: "loop_analysis \<Rightarrow> block \<Rightarrow> loop \<Rightarrow> bool option" where
  "is_in_loop la b l =
     (case la_block_loop la b of None \<Rightarrow> Some False | Some k \<Rightarrow> is_child_loop la k l)"

definition loop_level_of :: "loop_analysis \<Rightarrow> block \<Rightarrow> loop_level option" where
  "loop_level_of la b =
     (case innermost_loop la b of None \<Rightarrow> Some 0 | Some l \<Rightarrow> map_option ld_level (loop_at la l))"

definition level_of_loop :: "loop_analysis \<Rightarrow> loop \<Rightarrow> loop_level option" where
  "level_of_loop la l = map_option ld_level (loop_at la l)"

section \<open>Headers\<close>

text \<open>A block with a predecessor that it dominates is a header; one such edge is enough.\<close>

primrec has_back_edge :: "dominator_tree \<Rightarrow> 'f dfg \<Rightarrow> block \<Rightarrow> (inst \<times> block) list \<Rightarrow> bool option" where
  "has_back_edge t d b [] = Some False"
| "has_back_edge t d b (e # es) = do {
     dom \<leftarrow> dominates t (PpBlock b) (PpInst (fst e)) d;
     (if dom then Some True else has_back_edge t d b es) }"

definition push_loop :: "block \<Rightarrow> loop_analysis \<Rightarrow> loop_analysis" where
  "push_loop b la =
     la\<lparr>la_loops := la_loops la @ [loop_data_new b None],
        la_block_loop := (la_block_loop la)(b := Some (length (la_loops la)))\<rparr>"

primrec header_loop ::
  "control_flow_graph \<Rightarrow> dominator_tree \<Rightarrow> 'f dfg \<Rightarrow> block list \<Rightarrow> loop_analysis \<Rightarrow> loop_analysis option" where
  "header_loop c t d [] la = Some la"
| "header_loop c t d (b # bs) la = do {
     back \<leftarrow> has_back_edge t d b (pred_iter c b);
     header_loop c t d bs (if back then push_loop b la else la) }"

definition find_loop_headers ::
  "control_flow_graph \<Rightarrow> dominator_tree \<Rightarrow> 'f dfg \<Rightarrow> loop_analysis \<Rightarrow> loop_analysis option" where
  "find_loop_headers c t d la = do {
     po \<leftarrow> cfg_postorder t;
     header_loop c t d (rev po) la }"

section \<open>Bodies\<close>

text \<open>The sources of the back edges are pushed in their order.\<close>

primrec push_back_edges ::
  "dominator_tree \<Rightarrow> 'f dfg \<Rightarrow> block \<Rightarrow> (inst \<times> block) list \<Rightarrow> block list \<Rightarrow> block list option" where
  "push_back_edges t d h [] stack = Some stack"
| "push_back_edges t d h (e # es) stack = do {
     dom \<leftarrow> dominates t (PpBlock h) (PpInst (fst e)) d;
     push_back_edges t d h es (if dom then snd e # stack else stack) }"

text \<open>
  From a loop the parents are followed until \<open>lp\<close> is the parent or there is none; the result is
  the last loop and its parent.
\<close>

partial_function (option) outermost_below ::
  "loop_analysis \<Rightarrow> loop \<Rightarrow> loop \<Rightarrow> loop option \<Rightarrow> (loop \<times> loop option) option" where
  "outermost_below la lp l parent =
     (case parent of
        None \<Rightarrow> Some (l, parent)
      | Some q \<Rightarrow>
          if parent = Some lp then Some (l, parent)
          else do { p \<leftarrow> loop_parent la q; outermost_below la lp q p })"

text \<open>One node of the search: the new state, and the node whose predecessors come next.\<close>

definition visit_node :: "loop \<Rightarrow> block \<Rightarrow> loop_analysis \<Rightarrow> (loop_analysis \<times> block option) option" where
  "visit_node lp node la =
     (case la_block_loop la node of
        None \<Rightarrow> Some (la\<lparr>la_block_loop := (la_block_loop la)(node := Some lp)\<rparr>, Some node)
      | Some l \<Rightarrow> do {
          p \<leftarrow> loop_parent la l;
          (l, p) \<leftarrow> outermost_below la lp l p;
          (case p of
             Some _ \<Rightarrow> Some (la, None)
           | None \<Rightarrow>
               if l \<noteq> lp then do {
                 la \<leftarrow> set_parent l lp la;
                 h \<leftarrow> loop_header la l;
                 Some (la, Some h) }
               else Some (la, None)) })"

definition push_preds :: "control_flow_graph \<Rightarrow> block option \<Rightarrow> block list \<Rightarrow> block list" where
  "push_preds c next_node stack =
     (case next_node of None \<Rightarrow> stack | Some b \<Rightarrow> rev (map snd (pred_iter c b)) @ stack)"

partial_function (option) loop_dfs ::
  "control_flow_graph \<Rightarrow> loop \<Rightarrow> block list \<Rightarrow> loop_analysis \<Rightarrow> loop_analysis option" where
  "loop_dfs c lp stack la =
     (case stack of
        [] \<Rightarrow> Some la
      | node # stack \<Rightarrow> do {
          r \<leftarrow> visit_node lp node la;
          loop_dfs c lp (push_preds c (snd r) stack) (fst r) })"

primrec body_loop ::
  "control_flow_graph \<Rightarrow> dominator_tree \<Rightarrow> 'f dfg \<Rightarrow> loop list \<Rightarrow> loop_analysis \<Rightarrow> loop_analysis option" where
  "body_loop c t d [] la = Some la"
| "body_loop c t d (lp # lps) la = do {
     h \<leftarrow> loop_header la lp;
     stack \<leftarrow> push_back_edges t d h (pred_iter c h) [];
     la \<leftarrow> loop_dfs c lp stack la;
     body_loop c t d lps la }"

definition discover_loop_blocks ::
  "control_flow_graph \<Rightarrow> dominator_tree \<Rightarrow> 'f dfg \<Rightarrow> loop_analysis \<Rightarrow> loop_analysis option" where
  "discover_loop_blocks c t d la = body_loop c t d (rev (la_keys la)) la"

section \<open>Levels\<close>

partial_function (option) level_stack :: "loop list \<Rightarrow> loop_analysis \<Rightarrow> loop_analysis option" where
  "level_stack stack la =
     (case stack of
        [] \<Rightarrow> Some la
      | l # rest \<Rightarrow> do {
          p \<leftarrow> loop_parent la l;
          (case p of
             Some q \<Rightarrow> do {
               v \<leftarrow> level_of_loop la q;
               (if v \<noteq> LEVEL_INVALID then do {
                  v \<leftarrow> level_inc v;
                  la \<leftarrow> set_level l v la;
                  level_stack rest la }
                else level_stack (q # l # rest) la) }
           | None \<Rightarrow> do {
               v \<leftarrow> level_inc level_root;
               la \<leftarrow> set_level l v la;
               level_stack rest la }) })"

primrec level_loop :: "loop list \<Rightarrow> loop_analysis \<Rightarrow> loop_analysis option" where
  "level_loop [] la = Some la"
| "level_loop (l # ls) la = do {
     v \<leftarrow> level_of_loop la l;
     la \<leftarrow> (if v = LEVEL_INVALID then level_stack [l] la else Some la);
     level_loop ls la }"

definition assign_loop_levels :: "loop_analysis \<Rightarrow> loop_analysis option" where
  "assign_loop_levels la = level_loop (la_keys la) la"

definition la_compute ::
  "'f hir_function \<Rightarrow> control_flow_graph \<Rightarrow> dominator_tree \<Rightarrow> loop_analysis \<Rightarrow> loop_analysis option" where
  "la_compute f c t la = do {
     let la = la\<lparr>la_loops := [], la_block_loop := (\<lambda>_. None)\<rparr>;
     la \<leftarrow> find_loop_headers c t (hf_dfg f) la;
     la \<leftarrow> discover_loop_blocks c t (hf_dfg f) la;
     la \<leftarrow> assign_loop_levels la;
     Some (la\<lparr>la_valid := True\<rparr>) }"

definition la_with_function ::
  "'f hir_function \<Rightarrow> control_flow_graph \<Rightarrow> dominator_tree \<Rightarrow> loop_analysis option" where
  "la_with_function f c t = la_compute f c t la_default"

end
