(* ===== verification/LoopProps.thy ===== *)
theory LoopProps
  imports Loops
begin

text \<open>
  The loops that the analysis finds are the natural loops: a header dominates the source of an
  edge to it, and its loop has the blocks from which such a source is reached without passing
  through the header.
\<close>

section \<open>Natural loops\<close>

definition loop_head :: "'f dfg \<Rightarrow> block \<Rightarrow> bool" where
  "loop_head d h \<longleftrightarrow> reachable d h \<and> (\<exists>p \<in> rpreds d h. path_dominates d h p)"

inductive natural_loop :: "'f dfg \<Rightarrow> block \<Rightarrow> block \<Rightarrow> bool" for d h where
  nl_header: "natural_loop d h h"
| nl_back: "p \<in> rpreds d h \<Longrightarrow> path_dominates d h p \<Longrightarrow> natural_loop d h p"
| nl_pred: "natural_loop d h v \<Longrightarrow> v \<noteq> h \<Longrightarrow> p \<in> rpreds d v \<Longrightarrow> natural_loop d h p"

text \<open>No unreachable block branches to a reachable one.\<close>

definition live_preds :: "'f dfg \<Rightarrow> bool" where
  "live_preds d \<longleftrightarrow>
     (\<forall>p \<in> set (block_keys d). \<forall>v \<in> block_succs d p. reachable d v \<longrightarrow> reachable d p)"

lemma dom_refl: "path_dominates d a a"
  by (auto simp: path_dominates_def cfg_path_def)

lemma dom_step:
  assumes "path_dominates d a v" "v \<noteq> a" "p \<in> rpreds d v"
  shows "path_dominates d a p"
  unfolding path_dominates_def
proof (intro allI impI)
  fix vs assume vs: "cfg_path d vs \<and> last vs = p"
  then have "cfg_path d (vs @ [v])" using assms(3) by (intro cfg_path_snoc) (auto simp: rpreds_def)
  then have "a \<in> set (vs @ [v])" using assms(1) unfolding path_dominates_def by (metis last_snoc)
  with assms(2) show "a \<in> set vs" by simp
qed

lemma dom_entry: "path_dominates d a (entry_block d) \<Longrightarrow> a = entry_block d"
  by (auto simp: path_dominates_def cfg_path_def dest: spec [of _ "[entry_block d]"])

lemma dom_anc:
  assumes "dom_tree_rep d rpo t f" "reachable d b"
  shows "anc (entry_block d) f a b \<longleftrightarrow> path_dominates d a b" "b \<in> set rpo"
    "tree (set rpo) (entry_block d) (rk rpo) f"
  using assms by (auto simp: dom_tree_rep_def rpo_of_def)

lemma dom_rank:
  assumes "dom_tree_rep d rpo t f" "reachable d b" "path_dominates d a b"
  shows "reachable d a" "a \<noteq> b \<Longrightarrow> rk rpo a < rk rpo b"
proof -
  note b = dom_anc [OF assms(1,2)]
  have a: "anc (entry_block d) f a b" using b(1) assms(3) by simp
  show "reachable d a"
    using anc_rank [OF a b(3,2)] assms(1) by (simp add: dom_tree_rep_def rpo_of_def)
  show "rk rpo a < rk rpo b" if "a \<noteq> b"
    using a that sanc_rank [OF _ b(3,2)] by (auto simp: anc_cases [of _ _ a b])
qed

lemma dom_linear:
  assumes "dom_tree_rep d rpo t f" "reachable d v" "path_dominates d a v" "path_dominates d b v"
    "rk rpo a \<le> rk rpo b"
  shows "path_dominates d a b"
proof -
  note v = dom_anc [OF assms(1,2)]
  have "reachable d b" by (rule dom_rank(1) [OF assms(1,2,4)])
  moreover have "anc (entry_block d) f a b"
    using anc_linear [of _ f a v b "set rpo" "rk rpo"] v assms(3-5) by blast
  ultimately show ?thesis using dom_anc(1) [OF assms(1)] by blast
qed

lemma nl_reachable: "natural_loop d h v \<Longrightarrow> reachable d h \<Longrightarrow> reachable d v"
  by (induction rule: natural_loop.induct) (auto simp: rpreds_def)

lemma nl_dom: "natural_loop d h v \<Longrightarrow> path_dominates d h v"
  by (induction rule: natural_loop.induct) (auto intro: dom_refl dom_step)

lemma nl_nested:
  assumes "dom_tree_rep d rpo t f" "natural_loop d h v" "path_dominates d g v" "path_dominates d h g"
    "reachable d h"
  shows "natural_loop d h g"
  using assms(2,3)
proof (induction "rk rpo v" arbitrary: v rule: less_induct)
  case less
  have r: "reachable d v" by (rule nl_reachable [OF less.prems(1) assms(5)])
  show ?case
  proof (cases "v = g")
    case False
    have vh: "v \<noteq> h"
    proof
      assume "v = h"
      with less.prems(2) False dom_rank(2) [OF assms(1,5), of g] assms(4)
        dom_rank(2) [OF assms(1) dom_rank(1) [OF assms(1) r less.prems(2)] assms(4)]
      show False by (cases "g = h") auto
    qed
    have "v \<noteq> entry_block d" using dom_entry [of d g] less.prems(2) False by auto
    moreover have "rpo_of d rpo" "v \<in> set rpo" using dom_anc [OF assms(1) r] assms(1) by (auto simp: dom_tree_rep_def)
    ultimately obtain p where p: "p \<in> rpreds d v" "rk rpo p < rk rpo v"
      using rpo_flow unfolding flow_def by meson
    show ?thesis
      by (rule less.hyps [OF p(2) nl_pred [OF less.prems(1) vh p(1)] dom_step [OF less.prems(2) False p(1)]])
  qed (use less.prems in simp)
qed

lemma nl_subset:
  assumes "dom_tree_rep d rpo t f" "natural_loop d h g" "reachable d h" "natural_loop d g v"
  shows "natural_loop d h v"
proof (cases "g = h")
  case False
  have g: "reachable d g" "path_dominates d h g" using assms(2,3) by (auto intro: nl_reachable nl_dom)
  from assms(4) show ?thesis
  proof (induction rule: natural_loop.induct)
    case (nl_back p)
    then show ?case using nl_pred [OF assms(2) False] by blast
  next
    case (nl_pred v p)
    have "v \<noteq> h"
    proof
      assume "v = h"
      with nl_pred.hyps(1) have "path_dominates d g h" by (simp add: nl_dom)
      with g False dom_rank(2) [OF assms(1)] assms(3) show False by (metis less_asym)
    qed
    with nl_pred show ?case by (intro natural_loop.nl_pred [of d h v p])
  qed (rule assms(2))
qed (use assms(4) in simp)

section \<open>The headers\<close>

text \<open>
  Headers in an order in which a loop comes after the loops around it: two loops with a common
  block are nested, and the header of a loop is not in a later one.
\<close>

definition loop_nest :: "'f dfg \<Rightarrow> block list \<Rightarrow> bool" where
  "loop_nest d hs \<longleftrightarrow>
     distinct hs \<and> (\<forall>h \<in> set hs. reachable d h) \<and>
     (\<forall>i j b v. i < j \<longrightarrow> j < length hs \<longrightarrow> natural_loop d (hs ! i) b \<longrightarrow> natural_loop d (hs ! j) b \<longrightarrow>
        natural_loop d (hs ! j) v \<longrightarrow> natural_loop d (hs ! i) v) \<and>
     (\<forall>i j. i < j \<longrightarrow> j < length hs \<longrightarrow> \<not> natural_loop d (hs ! j) (hs ! i))"

lemma rk_sorted:
  assumes "distinct rpo"
  shows "sorted_wrt (\<lambda>a b. rk rpo a < rk rpo b) rpo"
  unfolding sorted_wrt_iff_nth_less
proof (intro allI impI)
  have rk: "rk rpo (rpo ! k) = 4 * (k + 2)" if "k < length rpo" for k
  proof -
    have s: "rpo = take k rpo @ rpo ! k # drop (Suc k) rpo" using that by (rule id_take_nth_drop)
    with assms have "rpo ! k \<notin> set (take k rpo)" by (metis distinct_append disjoint_iff list.set_intros(1))
    then have "position (rpo ! k) rpo = Some (length (take k rpo))" by (subst s) (rule position_split)
    with that show ?thesis by (simp add: rk_def)
  qed
  show "rk rpo (rpo ! i) < rk rpo (rpo ! j)" if "i < j" "j < length rpo" for i j
    using that by (simp add: rk)
qed

lemma loop_nest_filter:
  assumes "dom_tree_rep d rpo t f"
  shows "loop_nest d (filter (loop_head d) rpo)"
  unfolding loop_nest_def
proof (intro conjI allI impI ballI)
  let ?hs = "filter (loop_head d) rpo"
  have r: "distinct rpo" "set rpo = {b. reachable d b}" using assms by (auto simp: dom_tree_rep_def rpo_of_def)
  show "distinct ?hs" using r by simp
  show reach: "reachable d h" if "h \<in> set ?hs" for h using that r by simp
  have less: "rk rpo (?hs ! i) < rk rpo (?hs ! j)" if "i < j" "j < length ?hs" for i j
    using sorted_wrt_filter [OF rk_sorted [OF r(1)], of "loop_head d"] that
    unfolding sorted_wrt_iff_nth_less by blast
  have no: "\<not> path_dominates d (?hs ! j) (?hs ! i)" if "i < j" "j < length ?hs" for i j
  proof
    assume "path_dominates d (?hs ! j) (?hs ! i)"
    moreover have "reachable d (?hs ! i)" using that by (intro reach nth_mem) simp
    ultimately show False
      using dom_rank(2) [OF assms, of "?hs ! i" "?hs ! j"] less [OF that] by (metis less_asym less_irrefl)
  qed
  show "\<not> natural_loop d (?hs ! j) (?hs ! i)" if "i < j" "j < length ?hs" for i j
    using no [OF that] nl_dom by blast
  show "natural_loop d (?hs ! i) v"
    if ij: "i < j" "j < length ?hs" "natural_loop d (?hs ! i) b" "natural_loop d (?hs ! j) b"
      "natural_loop d (?hs ! j) v" for i j b v
  proof -
    have hi: "reachable d (?hs ! i)" using ij(1,2) by (intro reach nth_mem) simp
    have b: "reachable d b" by (rule nl_reachable [OF ij(3) hi])
    have "path_dominates d (?hs ! i) (?hs ! j)"
      using dom_linear [OF assms b nl_dom [OF ij(3)] nl_dom [OF ij(4)]] less [OF ij(1,2)] by simp
    with nl_nested [OF assms ij(3) nl_dom [OF ij(4)] _ hi] have "natural_loop d (?hs ! i) (?hs ! j)" by blast
    from nl_subset [OF assms this hi ij(5)] show ?thesis .
  qed
qed

text \<open>The predecessors of a reachable block, as the analyses see them.\<close>

lemma pred_iter_rpreds:
  assumes "dfg_wf d" "cfg_closed d" "cfg_compute d c0 = Some c" "live_preds d" "reachable d v"
  shows "snd ` set (pred_iter c v) = rpreds d v"
proof -
  have "p \<in> set (block_keys d)" if "reachable d p" for p
    using that
  proof (rule reachable_in)
    show "entry_block d \<in> set (block_keys d)" using assms(2) by (simp add: cfg_closed_def)
    show "s \<in> set (block_keys d)" if "u \<in> set (block_keys d)" "s \<in> block_succs d u" for u s
      using assms(2) that by (fastforce simp: cfg_closed_def block_succs_def)
  qed
  note keys = this
  have "p \<in> snd ` set (pred_iter c v) \<longleftrightarrow> p \<in> set (block_keys d) \<and> v \<in> block_succs d p" for p
    using pred_iter_succs [OF assms(1,3), of "term_of d p" p v] pred_iter_succs [OF assms(1,3), of _ p v]
    by (auto simp: image_iff) (metis snd_conv)
  then show ?thesis
    using keys assms(4,5) unfolding live_preds_def rpreds_def by blast
qed

lemma back_edge_test:
  assumes "dfg_wf d" "cfg_compute d c0 = Some c" "dom_tree_rep d rpo t f" "reachable d b"
    "e \<in> set (pred_iter c b)"
  shows "dominates t (PpBlock b) (PpInst (fst e)) d =
    Some (reachable d (snd e) \<and> path_dominates d b (snd e))"
proof -
  obtain i p where e: "e = (i, p)" by (cases e)
  with assms(5) have p: "b \<in> block_succs d p" "i = term_of d p"
    using pred_iter_succs [OF assms(1,2)] by auto
  have "inst_block d i = Some (Some p)"
    using last_inst_block(1) [OF assms(1)] succ_has_term [OF p(1)] p(2) by simp
  then have "pp_block d (PpInst i) = Some p" by (simp add: pp_block_def)
  with dominates_correct [OF assms(1,3), of "PpBlock b" b "PpInst i" p] assms(4) show ?thesis
    by (auto simp: e point_dominates_def pp_block_def pp_seq_def dom_refl)
qed

lemma has_back_edge_correct:
  assumes "dfg_wf d" "cfg_compute d c0 = Some c" "dom_tree_rep d rpo t f" "reachable d b"
    "set es \<subseteq> set (pred_iter c b)"
  shows "has_back_edge t d b es = Some (\<exists>e \<in> set es. reachable d (snd e) \<and> path_dominates d b (snd e))"
  using assms(5) by (induction es) (auto simp: back_edge_test [OF assms(1-4)])

lemma header_test:
  assumes "dfg_wf d" "cfg_closed d" "cfg_compute d c0 = Some c" "live_preds d" "dom_tree_rep d rpo t f"
    "reachable d b"
  shows "has_back_edge t d b (pred_iter c b) = Some (loop_head d b)"
proof -
  have "(\<exists>e \<in> set (pred_iter c b). reachable d (snd e) \<and> path_dominates d b (snd e)) \<longleftrightarrow>
      (\<exists>p \<in> snd ` set (pred_iter c b). reachable d p \<and> path_dominates d b p)" by auto
  also have "\<dots> \<longleftrightarrow> loop_head d b"
    unfolding pred_iter_rpreds [OF assms(1-4,6)] using assms(6) by (auto simp: loop_head_def rpreds_def)
  finally show ?thesis by (simp add: has_back_edge_correct [OF assms(1,3,5,6)])
qed

lemma push_back_edges_correct:
  assumes "dfg_wf d" "cfg_compute d c0 = Some c" "dom_tree_rep d rpo t f" "reachable d b"
  shows "set es \<subseteq> set (pred_iter c b) \<Longrightarrow>
    \<exists>stack'. push_back_edges t d b es stack = Some stack' \<and>
      set stack' = set stack \<union> {p \<in> snd ` set es. reachable d p \<and> path_dominates d b p}"
proof (induction es arbitrary: stack)
  case (Cons e es)
  from Cons.IH [of "if reachable d (snd e) \<and> path_dominates d b (snd e) then snd e # stack else stack"] Cons.prems
  show ?case using back_edge_test [OF assms, of e] by auto
qed simp

section \<open>The tree of loops\<close>

text \<open>The last index from \<open>lo\<close> on and below \<open>hi\<close> with a property.\<close>

primrec last_such :: "(nat \<Rightarrow> bool) \<Rightarrow> nat \<Rightarrow> nat \<Rightarrow> nat option" where
  "last_such P lo 0 = None"
| "last_such P lo (Suc hi) = (if lo \<le> hi \<and> P hi then Some hi else last_such P lo hi)"

lemma last_such_Some:
  "last_such P lo hi = Some j \<longleftrightarrow> lo \<le> j \<and> j < hi \<and> P j \<and> (\<forall>i. j < i \<longrightarrow> i < hi \<longrightarrow> \<not> P i)"
  by (induction hi) (auto simp: less_Suc_eq)

lemma last_such_None: "last_such P lo hi = None \<longleftrightarrow> (\<forall>i. lo \<le> i \<longrightarrow> i < hi \<longrightarrow> \<not> P i)"
  by (induction hi) (auto simp: less_Suc_eq)

lemma last_such_empty: "hi \<le> lo \<Longrightarrow> last_such P lo hi = None"
  by (simp add: last_such_None)

lemma last_such_lower:
  "last_such P k hi =
     (if last_such P (Suc k) hi \<noteq> None then last_such P (Suc k) hi
      else if k < hi \<and> P k then Some k else None)"
  by (induction hi) (auto simp: less_Suc_eq Suc_le_eq last_such_empty)

abbreviation in_loop :: "'f dfg \<Rightarrow> block list \<Rightarrow> block \<Rightarrow> loop \<Rightarrow> bool" where
  "in_loop d hs b i \<equiv> natural_loop d (hs ! i) b"

text \<open>The innermost loop of a block, and the loop around a loop, among the loops from \<open>k\<close> on.\<close>

definition inner :: "'f dfg \<Rightarrow> block list \<Rightarrow> nat \<Rightarrow> block \<Rightarrow> loop option" where
  "inner d hs k b = last_such (in_loop d hs b) k (length hs)"

definition around :: "'f dfg \<Rightarrow> block list \<Rightarrow> nat \<Rightarrow> loop \<Rightarrow> loop option" where
  "around d hs k i = last_such (in_loop d hs (hs ! i)) k i"

lemma nest_subset:
  "loop_nest d hs \<Longrightarrow> i \<le> j \<Longrightarrow> j < length hs \<Longrightarrow> in_loop d hs b i \<Longrightarrow> in_loop d hs b j \<Longrightarrow>
   in_loop d hs v j \<Longrightarrow> in_loop d hs v i"
  unfolding loop_nest_def by (cases "i = j") (blast dest: le_neq_implies_less)+

lemma nest_header: "loop_nest d hs \<Longrightarrow> i < j \<Longrightarrow> j < length hs \<Longrightarrow> \<not> in_loop d hs (hs ! i) j"
  unfolding loop_nest_def by blast

text \<open>A block of a loop is in the same outer loops as the header.\<close>

lemma nest_same:
  assumes "loop_nest d hs" "in_loop d hs b j" "i \<le> j" "j < length hs"
  shows "in_loop d hs b i \<longleftrightarrow> in_loop d hs (hs ! j) i"
  using nest_subset [OF assms(1,3,4), of b "hs ! j"] nest_subset [OF assms(1,3,4), of "hs ! j" b]
    assms(2) nl_header [of d "hs ! j"] by blast

text \<open>Above the loop around a loop, the enclosing loops are those of that loop.\<close>

lemma around_same:
  assumes "loop_nest d hs" "around d hs k j = Some q" "j < length hs" "k \<le> i" "i \<noteq> j"
  shows "i < length hs \<Longrightarrow> in_loop d hs (hs ! j) i \<longleftrightarrow> in_loop d hs (hs ! q) i"
proof -
  assume i: "i < length hs"
  from assms(2) have q: "k \<le> q" "q < j" "in_loop d hs (hs ! j) q" "\<forall>i. q < i \<longrightarrow> i < j \<longrightarrow> \<not> in_loop d hs (hs ! j) i"
    by (auto simp: around_def last_such_Some)
  consider "i \<le> q" | "q < i" "i < j" | "j < i" using assms(5) by linarith
  then show ?thesis
  proof cases
    case 1
    show ?thesis by (rule nest_same [OF assms(1) q(3) 1]) (use q assms(3) in simp)
  next
    case 2
    with q(4) nest_header [OF assms(1) 2(1) i] show ?thesis by blast
  next
    case 3
    with nest_header [OF assms(1) 3 i] nest_header [OF assms(1) _ i, of q] q(2) show ?thesis by auto
  qed
qed

lemma around_None:
  assumes "loop_nest d hs" "around d hs k j = None" "j < length hs" "k \<le> i" "i \<noteq> j" "i < length hs"
  shows "\<not> in_loop d hs (hs ! j) i"
  using assms(2) nest_header [OF assms(1), of j i] assms(3-6)
  by (cases "i < j") (auto simp: around_def last_such_None)

lemma inner_same:
  assumes "loop_nest d hs" "inner d hs k b = Some j" "k \<le> i" "i < length hs"
  shows "in_loop d hs b i \<longleftrightarrow> in_loop d hs (hs ! j) i"
proof -
  from assms(2) have j: "k \<le> j" "j < length hs" "in_loop d hs b j" "\<forall>i. j < i \<longrightarrow> i < length hs \<longrightarrow> \<not> in_loop d hs b i"
    by (auto simp: inner_def last_such_Some)
  show ?thesis
  proof (cases "i \<le> j")
    case True
    show ?thesis by (rule nest_same [OF assms(1) j(3) True j(2)])
  next
    case False
    with j(4) assms(4) nest_header [OF assms(1) _ assms(4), of j] show ?thesis by auto
  qed
qed

section \<open>The search\<close>

text \<open>
  The state while the loop \<open>l\<close> is searched and the later loops are done: the tree of the later
  loops, in which the blocks and the outermost loops that have been visited belong to \<open>l\<close>.  A
  block of a later loop is represented by the header of the outermost one.
\<close>

definition search_parent :: "'f dfg \<Rightarrow> block list \<Rightarrow> nat \<Rightarrow> block set \<Rightarrow> loop \<Rightarrow> loop option" where
  "search_parent d hs l V i =
     (if i \<le> l then None
      else case around d hs (Suc l) i of Some j \<Rightarrow> Some j | None \<Rightarrow> if hs ! i \<in> V then Some l else None)"

definition search_map :: "'f dfg \<Rightarrow> block list \<Rightarrow> nat \<Rightarrow> block set \<Rightarrow> block \<Rightarrow> loop option" where
  "search_map d hs l V b =
     (case inner d hs (Suc l) b of
        Some j \<Rightarrow> Some j
      | None \<Rightarrow>
          case position b (take (Suc l) hs) of
            Some i \<Rightarrow> Some i
          | None \<Rightarrow> if b \<in> V then Some l else None)"

definition search_state :: "'f dfg \<Rightarrow> block list \<Rightarrow> nat \<Rightarrow> block set \<Rightarrow> loop_analysis \<Rightarrow> bool" where
  "search_state d hs l V la \<longleftrightarrow>
     la_loops la = map (\<lambda>i. \<lparr>ld_header = hs ! i, ld_parent = search_parent d hs l V i,
       ld_level = LEVEL_INVALID\<rparr>) [0..<length hs] \<and>
     la_block_loop la = search_map d hs l V"

definition first_such :: "(nat \<Rightarrow> bool) \<Rightarrow> nat \<Rightarrow> nat \<Rightarrow> bool" where
  "first_such P lo j \<longleftrightarrow> lo \<le> j \<and> P j \<and> (\<forall>i. lo \<le> i \<longrightarrow> i < j \<longrightarrow> \<not> P i)"

text \<open>The representative: \<open>rep b r\<close> for the header \<open>r\<close> of the outermost later loop, or the block.\<close>

definition is_rep :: "'f dfg \<Rightarrow> block list \<Rightarrow> nat \<Rightarrow> block \<Rightarrow> block \<Rightarrow> bool" where
  "is_rep d hs l b r \<longleftrightarrow>
     (if inner d hs (Suc l) b = None then r = b
      else \<exists>j < length hs. first_such (in_loop d hs b) (Suc l) j \<and> r = hs ! j)"

lemma first_such_unique: "first_such P lo i \<Longrightarrow> first_such P lo j \<Longrightarrow> i = j"
  by (rule linorder_cases [of i j]) (auto simp: first_such_def)

lemma first_such_exists: "lo \<le> i \<Longrightarrow> P i \<Longrightarrow> \<exists>j \<le> i. first_such P lo j"
proof (induction i rule: less_induct)
  case (less i)
  show ?case
  proof (cases "\<exists>k < i. lo \<le> k \<and> P k")
    case True
    with less.IH show ?thesis by (meson le_trans less_imp_le_nat)
  next
    case False
    with less.prems show ?thesis by (auto simp: first_such_def)
  qed
qed

lemma is_rep_unique: "is_rep d hs l b r \<Longrightarrow> is_rep d hs l b s \<Longrightarrow> r = s"
  by (auto simp: is_rep_def dest: first_such_unique split: if_splits)

lemma is_rep_exists: "\<exists>r. is_rep d hs l b r"
proof (cases "inner d hs (Suc l) b")
  case (Some i)
  then have "Suc l \<le> i" "i < length hs" "in_loop d hs b i" by (auto simp: inner_def last_such_Some)
  with first_such_exists [of "Suc l" i "in_loop d hs b"] obtain j where
    "j < length hs" "first_such (in_loop d hs b) (Suc l) j" by (meson le_less_trans)
  with Some show ?thesis by (auto simp: is_rep_def)
qed (simp add: is_rep_def)

lemma around_less: "around d hs k i = Some j \<Longrightarrow> k \<le> j \<and> j < i"
  by (auto simp: around_def last_such_Some)

lemma search_loop_at:
  assumes "search_state d hs l V la" "i < length hs"
  shows "loop_at la i = Some \<lparr>ld_header = hs ! i, ld_parent = search_parent d hs l V i, ld_level = LEVEL_INVALID\<rparr>"
  using assms by (simp add: search_state_def loop_at_def)

lemma first_such_cong:
  assumes "lo \<le> j" "P j" "\<And>m. m \<le> j \<Longrightarrow> P m = Q m"
  shows "first_such P lo r \<longleftrightarrow> first_such Q lo r"
proof (cases "r \<le> j")
  case True
  then show ?thesis using assms(3) by (auto simp: first_such_def)
next
  case False
  then show ?thesis using assms(1) assms(2) assms(3) [of j] by (auto simp: first_such_def)
qed

lemma first_such_around:
  assumes "loop_nest d hs" "around d hs k i = Some j" "i < length hs"
  shows "first_such (in_loop d hs (hs ! i)) k r \<longleftrightarrow> first_such (in_loop d hs (hs ! j)) k r"
proof -
  have j: "k \<le> j" "j < i" "in_loop d hs (hs ! i) j"
    using assms(2) by (auto simp: around_def last_such_Some)
  have same: "in_loop d hs (hs ! i) m \<longleftrightarrow> in_loop d hs (hs ! j) m" if "m \<le> j" for m
    using nest_same [OF assms(1) j(3) that] j(2) assms(3) by simp
  show ?thesis
    by (rule first_such_cong [where P = "in_loop d hs (hs ! i)" and j = j]) (use j(1,3) same in auto)
qed

text \<open>The finger stops at the outermost later loop, which has no parent or belongs to \<open>l\<close>.\<close>

lemma outermost_below_correct:
  assumes "loop_nest d hs" "search_state d hs l V la" "l < length hs"
  shows "l < i \<Longrightarrow> i < length hs \<Longrightarrow>
    \<exists>r. outermost_below la l i (search_parent d hs l V i) =
        Some (r, if hs ! r \<in> V then Some l else None) \<and>
      first_such (in_loop d hs (hs ! i)) (Suc l) r \<and> r \<le> i"
proof (induction i rule: less_induct)
  case (less i)
  show ?case
  proof (cases "around d hs (Suc l) i")
    case None
    then have "first_such (in_loop d hs (hs ! i)) (Suc l) i"
      using less.prems nl_header [of d "hs ! i"] by (auto simp: first_such_def around_def last_such_None)
    with None less.prems show ?thesis
      by (intro exI [of _ i]) (subst outermost_below.simps, simp add: search_parent_def)
  next
    case (Some j)
    then have j: "l < j" "j < i" "j < length hs" using around_less less.prems(2) by fastforce+
    from less.IH [OF j(2,1,3)] obtain r where r:
      "outermost_below la l j (search_parent d hs l V j) = Some (r, if hs ! r \<in> V then Some l else None)"
      "first_such (in_loop d hs (hs ! j)) (Suc l) r" "r \<le> j" by blast
    have "outermost_below la l i (search_parent d hs l V i) =
        outermost_below la l j (search_parent d hs l V j)"
      using Some j less.prems search_loop_at [OF assms(2) j(3)]
      by (subst outermost_below.simps) (simp add: search_parent_def [of d hs l V i] loop_parent_def)
    with r j first_such_around [OF assms(1) Some less.prems(2)] show ?thesis by auto
  qed
qed

lemma inner_header:
  assumes "loop_nest d hs" "i \<le> l" "l < length hs"
  shows "inner d hs (Suc l) (hs ! i) = None"
  using nest_header [OF assms(1)] assms(2,3) by (auto simp: inner_def last_such_None)

lemma search_map_mono:
  assumes "inner d hs (Suc l) b = None" "position b (take (Suc l) hs) = None"
  shows "(search_map d hs l V)(b := Some l) = search_map d hs l (insert b V)"
  using assms by (auto simp: search_map_def fun_eq_iff split: option.splits)

lemma position_None: "position x xs = None \<longleftrightarrow> x \<notin> set xs"
  by (induction xs) auto

lemma position_append:
  "position x (xs @ ys) = (case position x xs of Some i \<Rightarrow> Some i | None \<Rightarrow> map_option (\<lambda>i. i + length xs) (position x ys))"
  by (induction xs) (auto simp: option.map_comp comp_def option.map_ident split: option.splits)

lemma position_nth: "distinct xs \<Longrightarrow> i < length xs \<Longrightarrow> position (xs ! i) xs = Some i"
  by (induction xs arbitrary: i) (auto simp: nth_Cons' dest: nth_mem)

lemma position_Some_nth: "position x xs = Some i \<Longrightarrow> i < length xs \<and> xs ! i = x"
  by (induction xs arbitrary: i) (auto split: if_splits)

lemma search_insert_loop:
  assumes nest: "loop_nest d hs" and st: "search_state d hs l V la" and q: "l < q" "q < length hs"
    "around d hs (Suc l) q = None"
  shows "\<exists>la'. set_parent q l la = Some la' \<and> loop_header la' q = Some (hs ! q) \<and>
    search_state d hs l (insert (hs ! q) V) la'"
proof -
  let ?la = "la\<lparr>la_loops := (la_loops la)[q := \<lparr>ld_header = hs ! q, ld_parent = Some l, ld_level = LEVEL_INVALID\<rparr>]\<rparr>"
  have at: "loop_at la q = Some \<lparr>ld_header = hs ! q, ld_parent = search_parent d hs l V q, ld_level = LEVEL_INVALID\<rparr>"
    by (rule search_loop_at [OF st q(2)])
  then have s: "set_parent q l la = Some ?la" by (simp add: set_parent_def)
  have ll: "la_loops la = map (\<lambda>i. \<lparr>ld_header = hs ! i, ld_parent = search_parent d hs l V i, ld_level = LEVEL_INVALID\<rparr>) [0..<length hs]"
    "la_block_loop la = search_map d hs l V" using st by (simp_all add: search_state_def)
  have "search_parent d hs l (insert (hs ! q) V) i = (if i = q then Some l else search_parent d hs l V i)"
    if "i < length hs" for i
  proof -
    have "hs ! i = hs ! q \<longleftrightarrow> i = q" using nest that q(2) by (simp add: loop_nest_def nth_eq_iff_index_eq)
    then show ?thesis using q by (auto simp: search_parent_def split: option.splits)
  qed
  then have "la_loops ?la = map (\<lambda>i. \<lparr>ld_header = hs ! i, ld_parent = search_parent d hs l (insert (hs ! q) V) i,
      ld_level = LEVEL_INVALID\<rparr>) [0..<length hs]"
    unfolding ll by (intro nth_equalityI) (auto simp: nth_list_update)
  moreover have "la_block_loop ?la = search_map d hs l (insert (hs ! q) V)"
  proof -
    have "inner d hs (Suc l) (hs ! q) \<noteq> None"
      using q nl_header [of d "hs ! q"] by (auto simp: inner_def last_such_None Suc_le_eq)
    then show ?thesis by (auto simp: ll search_map_def fun_eq_iff split: option.splits)
  qed
  ultimately have "search_state d hs l (insert (hs ! q) V) ?la" by (simp add: search_state_def)
  moreover have "loop_header ?la q = Some (hs ! q)"
    using q(2) ll(1) by (simp add: loop_header_def loop_at_def)
  ultimately show ?thesis using s by blast
qed

lemma rep_loop:
  assumes nest: "loop_nest d hs" and "inner d hs (Suc l) b = Some j" "is_rep d hs l b r"
  shows "\<exists>q. r = hs ! q \<and> l < q \<and> q \<le> j \<and> j < length hs \<and>
    first_such (in_loop d hs (hs ! j)) (Suc l) q \<and> first_such (in_loop d hs b) (Suc l) q \<and>
    around d hs (Suc l) q = None"
proof -
  from assms(2) have j: "Suc l \<le> j" "j < length hs" "in_loop d hs b j" by (auto simp: inner_def last_such_Some)
  from assms(2,3) obtain q where q: "r = hs ! q" "first_such (in_loop d hs b) (Suc l) q"
    by (auto simp: is_rep_def)
  have qj: "q \<le> j" using q(2) j(1,3) by (auto simp: first_such_def not_less [symmetric])
  have "first_such (in_loop d hs (hs ! j)) (Suc l) q \<longleftrightarrow> first_such (in_loop d hs b) (Suc l) q"
    by (rule first_such_cong [where j = j]) (use j nest_same [OF nest j(3) _ j(2)] nl_header in auto)
  moreover have "around d hs (Suc l) q = None"
  proof -
    have "\<not> in_loop d hs (hs ! q) m" if "Suc l \<le> m" "m < q" for m
      using nest_same [OF nest, where b = b and j = q and i = m] q(2) that qj j(2) by (auto simp: first_such_def)
    then show ?thesis by (simp add: around_def last_such_None)
  qed
  ultimately show ?thesis using q qj j(2) by (auto simp: first_such_def Suc_le_eq)
qed

text \<open>Visiting a block of the loop: nothing, or one more representative and its predecessors.\<close>

lemma visit_node_correct:
  assumes nest: "loop_nest d hs" and st: "search_state d hs l V la" and l: "l < length hs"
    and b: "in_loop d hs b l" and r: "is_rep d hs l b r"
  shows "if r \<in> V \<or> r = hs ! l then visit_node l b la = Some (la, None)
    else \<exists>la'. visit_node l b la = Some (la', Some r) \<and> search_state d hs l (insert r V) la'"
proof -
  have map: "la_block_loop la b = search_map d hs l V b" using st by (simp add: search_state_def)
  have self: "visit_node l b la = Some (la, None)" if "search_map d hs l V b = Some l"
  proof -
    have "loop_parent la l = Some None"
      using search_loop_at [OF st l] by (simp add: loop_parent_def search_parent_def)
    moreover have "outermost_below la l l None = Some (l, None)" by (subst outermost_below.simps) simp
    ultimately show ?thesis using map that by (simp add: visit_node_def)
  qed
  show ?thesis
  proof (cases "inner d hs (Suc l) b")
    case (Some j)
    obtain q where q: "r = hs ! q" "l < q" "q \<le> j" "j < length hs"
      "first_such (in_loop d hs (hs ! j)) (Suc l) q" "around d hs (Suc l) q = None"
      using rep_loop [OF nest Some r] by blast
    from outermost_below_correct [OF nest st l, of j] q
    have o: "outermost_below la l j (search_parent d hs l V j) = Some (q, if r \<in> V then Some l else None)"
      by (auto dest: first_such_unique)
    have m: "search_map d hs l V b = Some j" using Some by (simp add: search_map_def)
    have "r \<noteq> hs ! l" using q l nest by (auto simp: loop_nest_def nth_eq_iff_index_eq)
    moreover obtain la' where "set_parent q l la = Some la'" "loop_header la' q = Some (hs ! q)"
      "search_state d hs l (insert (hs ! q) V) la'"
      using search_insert_loop [OF nest st q(2) _ q(6)] q(3,4) by auto
    ultimately show ?thesis
      unfolding visit_node_def loop_parent_def map m
      using o q(1,2) by (simp add: search_loop_at [OF st q(4)])
  next
    case None
    then have r: "r = b" using r by (simp add: is_rep_def)
    show ?thesis
    proof (cases "position b (take (Suc l) hs)")
      case (Some i)
      then have i: "i \<le> l" "hs ! i = b" using position_Some_nth l by fastforce+
      then have "i = l" using nest_header [OF nest _ l, of i] b by (cases "i = l") auto
      with i None Some self r show ?thesis by (simp add: search_map_def)
    next
      case pos: None
      have "b \<noteq> hs ! l"
        using pos l by (auto simp: position_None in_set_conv_nth)
      moreover have "search_parent d hs l (insert b V) i = search_parent d hs l V i" if "i < length hs" for i
      proof -
        have "hs ! i \<noteq> b" if "l < i"
          using None \<open>i < length hs\<close> that nl_header [of d "hs ! i"] by (auto simp: inner_def last_such_None Suc_le_eq)
        then show ?thesis by (cases "l < i") (auto simp: search_parent_def split: option.splits)
      qed
      ultimately show ?thesis
        using None pos self r map search_map_mono [OF None pos, of V] st
        by (auto simp: search_map_def visit_node_def search_state_def)
    qed
  qed
qed

text \<open>
  The invariant of the search: visited are representatives of blocks of the loop, and all
  predecessors of what has been visited are represented or wait on the stack.
\<close>

definition represented :: "'f dfg \<Rightarrow> block list \<Rightarrow> nat \<Rightarrow> block set \<Rightarrow> block \<Rightarrow> bool" where
  "represented d hs l V b \<longleftrightarrow> (\<exists>r \<in> insert (hs ! l) V. is_rep d hs l b r)"

definition search_inv :: "'f dfg \<Rightarrow> block list \<Rightarrow> nat \<Rightarrow> block set \<Rightarrow> block list \<Rightarrow> bool" where
  "search_inv d hs l V stack \<longleftrightarrow>
     (\<forall>v \<in> V. in_loop d hs v l \<and> v \<noteq> hs ! l \<and> is_rep d hs l v v) \<and>
     (\<forall>b \<in> set stack. in_loop d hs b l) \<and>
     (\<forall>v \<in> V. \<forall>p \<in> rpreds d v. p \<in> set stack \<or> represented d hs l V p) \<and>
     (\<forall>p \<in> rpreds d (hs ! l). path_dominates d (hs ! l) p \<longrightarrow> p \<in> set stack \<or> represented d hs l V p)"

lemma rep_in_loop:
  assumes "loop_nest d hs" "in_loop d hs b l" "is_rep d hs l b r"
  shows "in_loop d hs r l" "is_rep d hs l r r"
proof -
  have "in_loop d hs r l \<and> is_rep d hs l r r"
  proof (cases "inner d hs (Suc l) b")
    case None
    with assms(2,3) show ?thesis by (simp add: is_rep_def)
  next
    case (Some j)
    obtain q where q: "r = hs ! q" "l < q" "q \<le> j" "j < length hs"
      "first_such (in_loop d hs (hs ! j)) (Suc l) q" "around d hs (Suc l) q = None"
      using rep_loop [OF assms(1) Some assms(3)] by blast
    from Some have j: "in_loop d hs b j" by (simp add: inner_def last_such_Some)
    have "in_loop d hs b q" using nest_same [OF assms(1) j q(3,4)] q(5) by (simp add: first_such_def)
    then have "in_loop d hs r l"
      using nest_subset [OF assms(1) _ _ assms(2), of q "hs ! q"] q nl_header by auto
    moreover have "first_such (in_loop d hs (hs ! q)) (Suc l) q"
      using q(2,6) nl_header [of d "hs ! q"] by (auto simp: first_such_def around_def last_such_None)
    moreover have "inner d hs (Suc l) (hs ! q) \<noteq> None"
      using q(2-4) nl_header [of d "hs ! q"] by (auto simp: inner_def last_such_None Suc_le_eq)
    ultimately show ?thesis using q(1,3,4) unfolding is_rep_def by (metis le_less_trans)
  qed
  then show "in_loop d hs r l" "is_rep d hs l r r" by simp_all
qed

lemma represented_mono: "represented d hs l V p \<Longrightarrow> represented d hs l (insert r V) p"
  by (auto simp: represented_def)

lemma search_inv_skip:
  assumes "search_inv d hs l V (b # stack)" "represented d hs l V b"
  shows "search_inv d hs l V stack"
  using assms by (auto simp: search_inv_def)

lemma search_inv_visit:
  assumes nest: "loop_nest d hs" and inv: "search_inv d hs l V (b # stack)" and r: "is_rep d hs l b r"
    and new: "r \<noteq> hs ! l" and stack': "set stack' = rpreds d r \<union> set stack"
  shows "search_inv d hs l (insert r V) stack'"
proof -
  have b: "in_loop d hs b l" using inv by (simp add: search_inv_def)
  have rl: "in_loop d hs r l" "is_rep d hs l r r" by (rule rep_in_loop [OF nest b r])+
  have rb: "represented d hs l (insert r V) b" using r by (auto simp: represented_def)
  have "in_loop d hs p l" if "p \<in> rpreds d r" for p by (rule nl_pred [OF rl(1) new that])
  note stays = this
  have wait: "p \<in> set stack' \<or> represented d hs l (insert r V) p"
    if "p \<in> set (b # stack) \<or> represented d hs l V p" for p
    using that stack' rb represented_mono [of d hs l V p r] by auto
  show ?thesis
    unfolding search_inv_def
  proof (intro conjI ballI impI)
    show "p \<in> set stack' \<or> represented d hs l (insert r V) p" if "v \<in> insert r V" "p \<in> rpreds d v" for v p
      using that inv wait [of p] stack' unfolding search_inv_def by blast
    show "p \<in> set stack' \<or> represented d hs l (insert r V) p"
      if "p \<in> rpreds d (hs ! l)" "path_dominates d (hs ! l) p" for p
      using that inv wait [of p] unfolding search_inv_def by blast
  qed (use inv rl new stack' stays in \<open>auto simp: search_inv_def\<close>)
qed

lemma loop_dfs_correct:
  assumes nest: "loop_nest d hs" and l: "l < length hs" and fin: "finite {b. in_loop d hs b l}"
    and preds: "\<And>v. reachable d v \<Longrightarrow> snd ` set (pred_iter c v) = rpreds d v"
  shows "search_state d hs l V la \<Longrightarrow> search_inv d hs l V stack \<Longrightarrow>
    \<exists>la' V'. loop_dfs c l stack la = Some la' \<and> search_state d hs l V' la' \<and> search_inv d hs l V' []"
proof (induction "card ({b. in_loop d hs b l} - V)" arbitrary: V la stack rule: less_induct)
  case less
  show ?case
    using less.prems
  proof (induction stack)
    case Nil
    then show ?case by (subst loop_dfs.simps) auto
  next
    case (Cons b stack)
    have b: "in_loop d hs b l" using Cons.prems(2) by (simp add: search_inv_def)
    obtain r where r: "is_rep d hs l b r" using is_rep_exists by blast
    note visit = visit_node_correct [OF nest Cons.prems(1) l b r]
    show ?case
    proof (cases "r \<in> V \<or> r = hs ! l")
      case True
      then have "represented d hs l V b" using r by (auto simp: represented_def)
      from Cons.IH [OF Cons.prems(1) search_inv_skip [OF Cons.prems(2) this]] True visit show ?thesis
        by (subst loop_dfs.simps) (simp add: push_preds_def)
    next
      case False
      with visit obtain la' where la': "visit_node l b la = Some (la', Some r)"
        "search_state d hs l (insert r V) la'" by auto
      have rl: "in_loop d hs r l" by (rule rep_in_loop(1) [OF nest b r])
      have "reachable d (hs ! l)" using nest l by (simp add: loop_nest_def)
      then have "set (push_preds c (Some r) stack) = rpreds d r \<union> set stack"
        using preds [OF nl_reachable [OF rl]] by (auto simp: push_preds_def)
      with search_inv_visit [OF nest Cons.prems(2) r] False
      have inv: "search_inv d hs l (insert r V) (push_preds c (Some r) stack)" by blast
      have "card ({b. in_loop d hs b l} - insert r V) < card ({b. in_loop d hs b l} - V)"
        using False rl fin by (intro psubset_card_mono) auto
      from less.hyps [OF this la'(2) inv] la'(1) show ?thesis
        by (subst loop_dfs.simps) simp
    qed
  qed
qed

text \<open>When the stack is empty, the visited blocks and loops are those of the loop.\<close>

lemma search_complete:
  assumes nest: "loop_nest d hs" and l: "l < length hs" and inv: "search_inv d hs l V []"
  shows "natural_loop d (hs ! l) b \<Longrightarrow> represented d hs l V b"
proof (induction rule: natural_loop.induct)
  case nl_header
  have "inner d hs (Suc l) (hs ! l) = None" by (rule inner_header [OF nest order_refl l])
  then show ?case by (auto simp: represented_def is_rep_def)
next
  case (nl_back p)
  with inv show ?case by (auto simp: search_inv_def)
next
  case (nl_pred v p)
  obtain r where r: "r \<in> insert (hs ! l) V" "is_rep d hs l v r" using nl_pred.IH by (auto simp: represented_def)
  show ?case
  proof (cases "inner d hs (Suc l) v")
    case None
    then have "v \<in> V" using r nl_pred.hyps(2) by (auto simp: is_rep_def)
    with inv nl_pred.hyps(3) show ?thesis by (auto simp: search_inv_def)
  next
    case (Some j)
    obtain q where q: "r = hs ! q" "l < q" "q \<le> j" "j < length hs"
      "first_such (in_loop d hs v) (Suc l) q"
      using rep_loop [OF nest Some r(2)] by blast
    have rV: "r \<in> V" using r(1) q l nest by (auto simp: loop_nest_def nth_eq_iff_index_eq)
    show ?thesis
    proof (cases "v = r")
      case True
      with rV inv nl_pred.hyps(3) show ?thesis by (auto simp: search_inv_def)
    next
      case False
      have p: "in_loop d hs p q"
        using natural_loop.nl_pred [of d "hs ! q" v p] q(1,5) False nl_pred.hyps(3) by (auto simp: first_such_def)
      have "\<not> in_loop d hs p m" if "Suc l \<le> m" "m < q" for m
        using nest_same [OF nest p, of m] nest_same [OF nest, where b = v and j = q and i = m] q that by (auto simp: first_such_def)
      with p q have "first_such (in_loop d hs p) (Suc l) q" by (simp add: first_such_def)
      moreover have "inner d hs (Suc l) p \<noteq> None" using p q by (auto simp: inner_def last_such_None Suc_le_eq)
      ultimately have "is_rep d hs l p r" using q by (auto simp: is_rep_def intro!: exI [of _ q])
      with rV show ?thesis by (auto simp: represented_def)
    qed
  qed
qed

text \<open>The tree of the loops from \<open>k\<close> on; the earlier loops have their headers only.\<close>

definition tree_state :: "'f dfg \<Rightarrow> block list \<Rightarrow> nat \<Rightarrow> loop_analysis \<Rightarrow> bool" where
  "tree_state d hs k la \<longleftrightarrow>
     la_loops la = map (\<lambda>i. \<lparr>ld_header = hs ! i, ld_parent = if i < k then None else around d hs k i,
       ld_level = LEVEL_INVALID\<rparr>) [0..<length hs] \<and>
     la_block_loop la =
       (\<lambda>b. case inner d hs k b of Some j \<Rightarrow> Some j | None \<Rightarrow> position b (take k hs))"

lemma search_start: "tree_state d hs (Suc l) la \<Longrightarrow> search_state d hs l {} la"
  unfolding tree_state_def search_state_def search_parent_def search_map_def
  by (auto simp: fun_eq_iff less_Suc_eq_le split: option.splits)

lemma search_finish:
  assumes nest: "loop_nest d hs" and l: "l < length hs" and inv: "search_inv d hs l V []"
    and st: "search_state d hs l V la"
  shows "tree_state d hs l la"
proof -
  have rep: "in_loop d hs b l \<longleftrightarrow> b = hs ! l \<or> b \<in> V" if "inner d hs (Suc l) b = None" for b
  proof
    assume "in_loop d hs b l"
    from search_complete [OF nest l inv this] that show "b = hs ! l \<or> b \<in> V"
      by (auto simp: represented_def is_rep_def)
  next
    assume "b = hs ! l \<or> b \<in> V"
    with inv show "in_loop d hs b l" by (auto simp: search_inv_def nl_header)
  qed
  have par: "search_parent d hs l V i = (if i < l then None else around d hs l i)" if i: "i < length hs" for i
  proof (cases "around d hs (Suc l) i")
    case (Some j)
    then show ?thesis using around_less [OF Some] by (auto simp: search_parent_def around_def last_such_lower [of _ l])
  next
    case None
    show ?thesis
    proof (cases "l < i")
      case True
      have "hs ! i \<noteq> hs ! l" using True i l nest by (auto simp: loop_nest_def nth_eq_iff_index_eq)
      moreover have "in_loop d hs (hs ! i) l \<longleftrightarrow> hs ! i = hs ! l \<or> hs ! i \<in> V"
      proof
        assume "in_loop d hs (hs ! i) l"
        from search_complete [OF nest l inv this] obtain r where r: "r \<in> insert (hs ! l) V" "is_rep d hs l (hs ! i) r"
          by (auto simp: represented_def)
        have "first_such (in_loop d hs (hs ! i)) (Suc l) i"
          using None True nl_header [of d "hs ! i"] by (auto simp: first_such_def around_def last_such_None)
        moreover have "inner d hs (Suc l) (hs ! i) \<noteq> None"
          using True i nl_header [of d "hs ! i"] by (auto simp: inner_def last_such_None Suc_le_eq)
        ultimately have "r = hs ! i" using r(2) first_such_unique unfolding is_rep_def by metis
        with r(1) show "hs ! i = hs ! l \<or> hs ! i \<in> V" by auto
      qed (use inv in \<open>auto simp: search_inv_def nl_header\<close>)
      ultimately show ?thesis
        using None True by (auto simp: search_parent_def around_def last_such_lower [of _ l])
    next
      case False
      then show ?thesis by (auto simp: search_parent_def around_def last_such_empty)
    qed
  qed
  have map: "search_map d hs l V b = (case inner d hs l b of Some j \<Rightarrow> Some j | None \<Rightarrow> position b (take l hs))" for b
  proof (cases "inner d hs (Suc l) b")
    case (Some j)
    then show ?thesis by (simp add: search_map_def inner_def last_such_lower [of _ l])
  next
    case None
    have t: "take (Suc l) hs = take l hs @ [hs ! l]" using l by (rule take_Suc_conv_app_nth)
    note eval = search_map_def t position_append inner_def last_such_lower [of _ l]
    show ?thesis
    proof (cases "position b (take l hs)")
      case (Some i)
      then have "b \<in> set (take l hs)" using position_None by (metis option.distinct(1))
      then have "\<not> in_loop d hs b l" using nest_header [OF nest _ l] l by (auto simp: in_set_conv_nth)
      then show ?thesis using None Some by (simp add: eval)
    next
      case pos: None
      then show ?thesis using None rep [OF None] l by (auto simp: eval)
    qed
  qed
  show ?thesis using st by (auto simp: tree_state_def search_state_def par map fun_eq_iff)
qed

lemma body_loop_correct:
  assumes wf: "dfg_wf d" "cfg_closed d" "cfg_compute d c0 = Some c" "live_preds d" "dom_tree_rep d rpo t f"
    and nest: "loop_nest d hs"
  shows "k \<le> length hs \<Longrightarrow> tree_state d hs k la \<Longrightarrow>
    \<exists>la'. body_loop c t d (rev [0..<k]) la = Some la' \<and> tree_state d hs 0 la'"
proof (induction k arbitrary: la)
  case (Suc l)
  then have l: "l < length hs" by simp
  note st = search_start [OF Suc.prems(2)]
  have h: "loop_header la l = Some (hs ! l)"
    using search_loop_at [OF st l] by (simp add: loop_header_def)
  have r: "reachable d (hs ! l)" using nest l by (simp add: loop_nest_def)
  note preds = pred_iter_rpreds [OF wf(1-4)]
  from push_back_edges_correct [OF wf(1,3,5) r order_refl, of "[]"] obtain stack where
    stack: "push_back_edges t d (hs ! l) (pred_iter c (hs ! l)) [] = Some stack"
    "set stack = {p \<in> rpreds d (hs ! l). reachable d p \<and> path_dominates d (hs ! l) p}"
    by (auto simp: preds [OF r])
  have "search_inv d hs l {} stack"
    using stack(2) by (auto simp: search_inv_def nl_back rpreds_def)
  moreover have "finite {b. in_loop d hs b l}"
  proof (rule finite_subset)
    show "{b. in_loop d hs b l} \<subseteq> set rpo" using nl_reachable [OF _ r] dom_anc(2) [OF wf(5)] by blast
  qed simp
  ultimately obtain la1 V where la1: "loop_dfs c l stack la = Some la1" "search_state d hs l V la1"
    "search_inv d hs l V []"
    using loop_dfs_correct [OF nest l _ preds st] by blast
  from Suc.IH [OF _ search_finish [OF nest l la1(3,2)]] l obtain la' where
    "body_loop c t d (rev [0..<l]) la1 = Some la'" "tree_state d hs 0 la'" by auto
  then show ?case using h stack(1) la1(1) by auto
qed simp

lemma header_loop_correct:
  assumes wf: "dfg_wf d" "cfg_closed d" "cfg_compute d c0 = Some c" "live_preds d" "dom_tree_rep d rpo t f"
  shows "distinct (us @ bs) \<Longrightarrow> (\<forall>b \<in> set bs. reachable d b) \<Longrightarrow>
    la_loops la = map (\<lambda>h. loop_data_new h None) (filter (loop_head d) us) \<Longrightarrow>
    la_block_loop la = (\<lambda>b. position b (filter (loop_head d) us)) \<Longrightarrow>
    \<exists>la'. header_loop c t d bs la = Some la' \<and>
      la_loops la' = map (\<lambda>h. loop_data_new h None) (filter (loop_head d) (us @ bs)) \<and>
      la_block_loop la' = (\<lambda>b. position b (filter (loop_head d) (us @ bs)))"
proof (induction bs arbitrary: us la)
  case (Cons b bs)
  let ?la = "if loop_head d b then push_loop b la else la"
  have "position b (filter (loop_head d) us) = None" using Cons.prems(1) by (simp add: position_None)
  then have "la_loops ?la = map (\<lambda>h. loop_data_new h None) (filter (loop_head d) (us @ [b]))"
    "la_block_loop ?la = (\<lambda>b'. position b' (filter (loop_head d) (us @ [b])))"
    using Cons.prems(3,4) by (auto simp: push_loop_def position_append fun_eq_iff split: option.splits)
  with Cons.IH [of "us @ [b]" ?la] Cons.prems(1,2) header_test [OF wf, of b] show ?case by simp
qed simp

lemma find_loop_headers_correct:
  assumes wf: "dfg_wf d" "cfg_closed d" "cfg_compute d c0 = Some c" "live_preds d" "dom_tree_rep d rpo t f"
    and po: "dt_valid t" "dt_postorder t = rev rpo"
    and la: "la_loops la = []" "la_block_loop la = (\<lambda>_. None)" and hs: "hs = filter (loop_head d) rpo"
  shows "\<exists>la'. find_loop_headers c t d la = Some la' \<and> tree_state d hs (length hs) la'"
proof -
  have r: "distinct rpo" "set rpo = {b. reachable d b}" using wf(5) by (auto simp: dom_tree_rep_def rpo_of_def)
  from header_loop_correct [OF wf, of "[]" rpo la] r la obtain la' where
    la': "header_loop c t d rpo la = Some la'" "la_loops la' = map (\<lambda>h. loop_data_new h None) hs"
      "la_block_loop la' = (\<lambda>b. position b hs)" by (auto simp: hs)
  have "tree_state d hs (length hs) la'"
    unfolding tree_state_def
    by (auto simp: la' inner_def last_such_empty around_def loop_data_new_def intro!: nth_equalityI)
  with la'(1) po show ?thesis by (auto simp: find_loop_headers_def cfg_postorder_def)
qed

end
