(* ===== verification/LoopQueries.thy ===== *)
theory LoopQueries
  imports LoopProps
begin

text \<open>
  The levels of the loops, the queries on the finished tree, and the property of the analysis.
\<close>

section \<open>The finished tree\<close>

text \<open>The tree with its levels: \<open>m\<close> loops have theirs.\<close>

definition depth :: "'f dfg \<Rightarrow> block list \<Rightarrow> block \<Rightarrow> nat" where
  "depth d hs b = card {j. j < length hs \<and> in_loop d hs b j}"

definition level_state :: "'f dfg \<Rightarrow> block list \<Rightarrow> nat \<Rightarrow> loop_analysis \<Rightarrow> bool" where
  "level_state d hs m la \<longleftrightarrow>
     la_loops la = map (\<lambda>i. \<lparr>ld_header = hs ! i, ld_parent = around d hs 0 i,
       ld_level = if i < m then min 254 (depth d hs (hs ! i)) else LEVEL_INVALID\<rparr>) [0..<length hs] \<and>
     la_block_loop la = inner d hs 0"

lemma level_start: "tree_state d hs 0 la \<Longrightarrow> level_state d hs 0 la"
  by (auto simp: tree_state_def level_state_def fun_eq_iff split: option.splits)

lemma level_loop_at:
  assumes "level_state d hs m la" "i < length hs"
  shows "loop_at la i = Some \<lparr>ld_header = hs ! i, ld_parent = around d hs 0 i,
    ld_level = if i < m then min 254 (depth d hs (hs ! i)) else LEVEL_INVALID\<rparr>"
  using assms by (simp add: level_state_def loop_at_def)

lemma depth_root:
  assumes "loop_nest d hs" "i < length hs" "around d hs 0 i = None"
  shows "depth d hs (hs ! i) = 1"
proof -
  have "{j. j < length hs \<and> in_loop d hs (hs ! i) j} = {i}"
    using around_None [OF assms(1,3,2)] assms(2) nl_header by fastforce
  then show ?thesis by (simp add: depth_def)
qed

lemma depth_around:
  assumes "loop_nest d hs" "i < length hs" "around d hs 0 i = Some q"
  shows "depth d hs (hs ! i) = Suc (depth d hs (hs ! q))"
proof -
  have q: "q < i" using around_less [OF assms(3)] by simp
  have "{j. j < length hs \<and> in_loop d hs (hs ! i) j} = insert i {j. j < length hs \<and> in_loop d hs (hs ! q) j}"
  proof (intro set_eqI)
    show "j \<in> {j. j < length hs \<and> in_loop d hs (hs ! i) j} \<longleftrightarrow>
        j \<in> insert i {j. j < length hs \<and> in_loop d hs (hs ! q) j}" for j
      using around_same [OF assms(1,3,2), of j] assms(2) nl_header [of d "hs ! i"] by (cases "j = i") auto
  qed
  moreover have "\<not> in_loop d hs (hs ! q) i" by (rule nest_header [OF assms(1) q assms(2)])
  ultimately show ?thesis by (simp add: depth_def)
qed

lemma level_inc_min: "n \<noteq> 0 \<Longrightarrow> level_inc (min 254 n) = Some (min 254 (Suc n))"
  by (auto simp: level_inc_def LEVEL_INVALID_def u8_add_def min_def)

lemma set_level_state:
  assumes "level_state d hs m la" "m < length hs"
  shows "\<exists>la'. set_level m (min 254 (depth d hs (hs ! m))) la = Some la' \<and> level_state d hs (Suc m) la'"
proof -
  have "loop_at la m = Some \<lparr>ld_header = hs ! m, ld_parent = around d hs 0 m, ld_level = LEVEL_INVALID\<rparr>"
    using level_loop_at [OF assms] by simp
  then show ?thesis
    using assms by (auto simp: set_level_def level_state_def nth_list_update less_Suc_eq intro!: nth_equalityI)
qed

lemma level_step:
  assumes "loop_nest d hs" "level_state d hs m la" "m < length hs"
  shows "\<exists>la'. level_stack [m] la = Some la' \<and> level_state d hs (Suc m) la'"
proof -
  obtain la' where la': "set_level m (min 254 (depth d hs (hs ! m))) la = Some la'"
    "level_state d hs (Suc m) la'"
    using set_level_state [OF assms(2,3)] by blast
  have stop: "level_stack [] la' = Some la'" by (subst level_stack.simps) simp
  note at = level_loop_at [OF assms(2,3)]
  show ?thesis
  proof (cases "around d hs 0 m")
    case None
    with depth_root [OF assms(1,3) None] la' stop at show ?thesis
      by (subst level_stack.simps) (simp add: loop_parent_def level_root_def level_inc_def LEVEL_INVALID_def u8_add_def)
  next
    case (Some q)
    have q: "q < m" using around_less [OF Some] by simp
    then have lq: "level_of_loop la q = Some (min 254 (depth d hs (hs ! q)))"
      using level_loop_at [OF assms(2), of q] assms(3) by (simp add: level_of_loop_def)
    have "depth d hs (hs ! q) \<noteq> 0"
      using q assms(3) nl_header [of d "hs ! q"] by (auto simp: depth_def intro!: exI [of _ q])
    note inc = level_inc_min [OF this]
    have "min 254 (depth d hs (hs ! q)) \<noteq> LEVEL_INVALID" by (simp add: LEVEL_INVALID_def min_def)
    with Some la' stop at inc lq depth_around [OF assms(1,3) Some] show ?thesis
      by (subst level_stack.simps) (simp add: loop_parent_def)
  qed
qed

lemma level_loop_correct:
  assumes "loop_nest d hs"
  shows "level_state d hs m la \<Longrightarrow> m \<le> length hs \<Longrightarrow>
    \<exists>la'. level_loop [m..<length hs] la = Some la' \<and> level_state d hs (length hs) la'"
proof (induction "length hs - m" arbitrary: m la)
  case (Suc k)
  then have m: "m < length hs" by simp
  then have s: "[m..<length hs] = m # [Suc m..<length hs]" by (rule upt_conv_Cons)
  obtain la' where la': "level_stack [m] la = Some la'" "level_state d hs (Suc m) la'"
    using level_step [OF assms Suc.prems(1) m] by blast
  have "level_of_loop la m = Some LEVEL_INVALID"
    using level_loop_at [OF Suc.prems(1) m] by (simp add: level_of_loop_def)
  with Suc.hyps(1) [OF _ la'(2)] Suc.hyps(2) m la'(1) show ?case by (simp add: s)
qed simp

lemma is_child_loop_correct:
  assumes "loop_nest d hs" "level_state d hs m la" "l < length hs"
  shows "k < length hs \<Longrightarrow> is_child_loop la k l = Some (in_loop d hs (hs ! k) l)"
proof (induction k rule: less_induct)
  case (less k)
  have p: "loop_parent la k = Some (around d hs 0 k)"
    using level_loop_at [OF assms(2) less.prems] by (simp add: loop_parent_def)
  show ?case
  proof (cases "k = l")
    case True
    then show ?thesis using nl_header [of d "hs ! l"] by (subst is_child_loop.simps) simp
  next
    case False
    show ?thesis
    proof (cases "around d hs 0 k")
      case None
      with around_None [OF assms(1) None less.prems _ _ assms(3)] False p show ?thesis
        by (subst is_child_loop.simps) simp
    next
      case (Some q)
      have q: "q < k" "q < length hs" using around_less [OF Some] less.prems by simp_all
      have "in_loop d hs (hs ! k) l \<longleftrightarrow> in_loop d hs (hs ! q) l"
        using around_same [OF assms(1) Some less.prems _ _ assms(3)] False by auto
      with less.IH [OF q] Some p False show ?thesis by (subst is_child_loop.simps) simp
    qed
  qed
qed

lemma is_in_loop_correct:
  assumes "loop_nest d hs" "level_state d hs m la" "l < length hs"
  shows "is_in_loop la b l = Some (in_loop d hs b l)"
proof (cases "inner d hs 0 b")
  case None
  then have "\<not> in_loop d hs b l" using assms(3) by (simp add: inner_def last_such_None)
  with None assms(2) show ?thesis by (simp add: is_in_loop_def level_state_def)
next
  case (Some k)
  then have "k < length hs" by (simp add: inner_def last_such_Some)
  with is_child_loop_correct [OF assms] inner_same [OF assms(1) Some _ assms(3)] Some assms(2) show ?thesis
    by (simp add: is_in_loop_def level_state_def)
qed

lemma loop_level_of_correct:
  assumes "loop_nest d hs" "level_state d hs (length hs) la"
  shows "loop_level_of la b = Some (min 254 (depth d hs b))"
proof (cases "inner d hs 0 b")
  case None
  then have "depth d hs b = 0" by (simp add: depth_def inner_def last_such_None)
  with None assms(2) show ?thesis by (simp add: loop_level_of_def innermost_loop_def level_state_def)
next
  case (Some k)
  then have k: "k < length hs" by (simp add: inner_def last_such_Some)
  have "depth d hs b = depth d hs (hs ! k)"
    using inner_same [OF assms(1) Some] by (auto simp: depth_def intro: arg_cong [where f = card])
  with Some level_loop_at [OF assms(2) k] k assms(2) show ?thesis
    by (simp add: loop_level_of_def innermost_loop_def level_state_def)
qed

section \<open>The property\<close>

lemma la_compute_correct:
  assumes wf: "dfg_wf (hf_dfg f)" "cfg_closed (hf_dfg f)" "cfg_compute (hf_dfg f) c0 = Some c"
    "live_preds (hf_dfg f)" "dom_tree_rep (hf_dfg f) rpo t g"
    and po: "dt_valid t" "dt_postorder t = rev rpo" and hs: "hs = filter (loop_head (hf_dfg f)) rpo"
  shows "\<exists>la'. la_compute f c t la = Some la' \<and> la_valid la' \<and> level_state (hf_dfg f) hs (length hs) la'"
proof -
  let ?la = "la\<lparr>la_loops := [], la_block_loop := (\<lambda>_. None)\<rparr>"
  have nest: "loop_nest (hf_dfg f) hs" unfolding hs by (rule loop_nest_filter [OF wf(5)])
  obtain la1 where la1: "find_loop_headers c t (hf_dfg f) ?la = Some la1" "tree_state (hf_dfg f) hs (length hs) la1"
    using find_loop_headers_correct [OF wf po _ _ hs, of ?la] by auto
  have len: "length (la_loops la1) = length hs" using la1(2) by (simp add: tree_state_def)
  obtain la2 where la2: "discover_loop_blocks c t (hf_dfg f) la1 = Some la2" "tree_state (hf_dfg f) hs 0 la2"
    using body_loop_correct [OF wf nest order_refl la1(2)] by (auto simp: discover_loop_blocks_def la_keys_def len)
  have len2: "length (la_loops la2) = length hs" using la2(2) by (simp add: tree_state_def)
  obtain la3 where la3: "assign_loop_levels la2 = Some la3" "level_state (hf_dfg f) hs (length hs) la3"
    using level_loop_correct [OF nest level_start [OF la2(2)]] by (auto simp: assign_loop_levels_def la_keys_def len2)
  have "la_compute f c t la = Some (la3\<lparr>la_valid := True\<rparr>)"
    using la1(1) la2(1) la3(1) by (simp add: la_compute_def Let_def)
  then show ?thesis using la3(2) by (auto simp: level_state_def)
qed

text \<open>
  C26. The loop analysis always returns, and the loops are the natural loops.  When no unreachable
  block branches to a reachable one, the loops have different headers, which are the blocks that
  dominate a predecessor; \<open>is_in_loop\<close> answers whether a block is in the natural loop of the
  header, and the level of a block is the number of the natural loops that it is in, at most 254.
  The parent of a loop is the smallest other loop that has its header, and its blocks are blocks
  of the parent; a loop without a parent has its header in no other loop.
\<close>

theorem loops_are_natural:
  fixes f :: "'f hir_function"
  assumes d: "d = hf_dfg f" and wf: "dfg_wf d" "cfg_closed d" "cfg_compute d c0 = Some c"
    "dt_compute d c t0 = Some t" "length (block_keys d) < 536870912" "live_preds d"
  shows "\<exists>la hs. la_compute f c t la0 = Some la \<and> la_keys la = [0..<length hs] \<and>
    distinct hs \<and> set hs = {h. loop_head d h} \<and>
    (\<forall>l < length hs. loop_header la l = Some (hs ! l) \<and>
       (\<forall>b. is_in_loop la b l = Some (natural_loop d (hs ! l) b)) \<and>
       (loop_parent la l = Some None \<longrightarrow>
          (\<forall>m < length hs. m \<noteq> l \<longrightarrow> \<not> natural_loop d (hs ! m) (hs ! l))) \<and>
       (\<forall>p. loop_parent la l = Some (Some p) \<longrightarrow> p < length hs \<and> p \<noteq> l \<and>
          (\<forall>b. natural_loop d (hs ! l) b \<longrightarrow> natural_loop d (hs ! p) b) \<and>
          (\<forall>m < length hs. m \<noteq> l \<and> natural_loop d (hs ! m) (hs ! l) \<longrightarrow>
             (\<forall>b. natural_loop d (hs ! p) b \<longrightarrow> natural_loop d (hs ! m) b)))) \<and>
    (\<forall>b. loop_level_of la b = Some (min 254 (card {h. loop_head d h \<and> natural_loop d h b})))"
proof -
  obtain t' rpo g where t': "dt_compute d c t0 = Some t'" "dt_valid t'" "dt_postorder t' = rev rpo"
    "dom_tree_rep d rpo t' g"
    using dt_compute_correct [OF wf(1-3,5), of t0] by blast
  then have t: "t' = t" using wf(4) by simp
  define hs where "hs = filter (loop_head d) rpo"
  have nest: "loop_nest d hs" unfolding hs_def by (rule loop_nest_filter [OF t'(4)])
  have set_hs: "set hs = {h. loop_head d h}"
    using t'(4) by (auto simp: hs_def dom_tree_rep_def rpo_of_def loop_head_def)
  obtain la where la: "la_compute f c t la0 = Some la" "level_state d hs (length hs) la"
    using la_compute_correct [of f c0 c rpo t g hs la0] t' wf t by (auto simp: d hs_def)
  have at: "loop_header la l = Some (hs ! l)" "loop_parent la l = Some (around d hs 0 l)" if "l < length hs" for l
    using level_loop_at [OF la(2) that] by (simp_all add: loop_header_def loop_parent_def)
  have card: "depth d hs b = card {h. loop_head d h \<and> natural_loop d h b}" for b
  proof -
    have "{h. loop_head d h \<and> natural_loop d h b} = (!) hs ` {j. j < length hs \<and> in_loop d hs b j}"
    proof -
      have "{h. loop_head d h \<and> natural_loop d h b} = {h \<in> set hs. natural_loop d h b}" using set_hs by auto
      also have "\<dots> = (!) hs ` {j. j < length hs \<and> in_loop d hs b j}" by (force simp: in_set_conv_nth)
      finally show ?thesis .
    qed
    moreover have "inj_on ((!) hs) {j. j < length hs \<and> in_loop d hs b j}"
      using nest by (auto simp: inj_on_def loop_nest_def nth_eq_iff_index_eq)
    ultimately show ?thesis by (simp add: depth_def card_image)
  qed
  have parent: "p < length hs \<and> p \<noteq> l \<and> (\<forall>b. in_loop d hs b l \<longrightarrow> in_loop d hs b p) \<and>
      (\<forall>m < length hs. m \<noteq> l \<and> in_loop d hs (hs ! l) m \<longrightarrow> (\<forall>b. in_loop d hs b p \<longrightarrow> in_loop d hs b m))"
    if l: "l < length hs" and p: "around d hs 0 l = Some p" for l p
  proof -
    from p have p': "p < l" "in_loop d hs (hs ! l) p" by (auto simp: around_def last_such_Some)
    have "in_loop d hs b p" if "in_loop d hs b l" for b
      using nest_subset [OF nest _ l p'(2) nl_header that] p'(1) by simp
    moreover have "in_loop d hs b m" if m: "m < length hs" "m \<noteq> l" "in_loop d hs (hs ! l) m" "in_loop d hs b p" for m b
    proof -
      have hp: "in_loop d hs (hs ! p) m" using around_same [OF nest p l _ m(2,1)] m(3) by simp
      have "\<not> p < m" using nest_header [OF nest _ m(1), of p] hp by auto
      then show ?thesis using nest_subset [OF nest _ _ hp nl_header m(4)] p'(1) l by simp
    qed
    ultimately show ?thesis using p'(1) l by auto
  qed
  have l_ok: "\<forall>l < length hs. loop_header la l = Some (hs ! l) \<and>
       (\<forall>b. is_in_loop la b l = Some (natural_loop d (hs ! l) b)) \<and>
       (loop_parent la l = Some None \<longrightarrow>
          (\<forall>m < length hs. m \<noteq> l \<longrightarrow> \<not> natural_loop d (hs ! m) (hs ! l))) \<and>
       (\<forall>p. loop_parent la l = Some (Some p) \<longrightarrow> p < length hs \<and> p \<noteq> l \<and>
          (\<forall>b. natural_loop d (hs ! l) b \<longrightarrow> natural_loop d (hs ! p) b) \<and>
          (\<forall>m < length hs. m \<noteq> l \<and> natural_loop d (hs ! m) (hs ! l) \<longrightarrow>
             (\<forall>b. natural_loop d (hs ! p) b \<longrightarrow> natural_loop d (hs ! m) b)))"
  proof (intro allI impI, goal_cases)
    case (1 l)
    note at [OF 1] is_in_loop_correct [OF nest la(2) 1] around_None [OF nest _ 1] parent [OF 1]
    then show ?case by (cases "around d hs 0 l") simp_all
  qed
  have keys: "la_keys la = [0..<length hs]" using la(2) by (simp add: la_keys_def level_state_def)
  have dist: "distinct hs" using nest by (simp add: loop_nest_def)
  have levels: "\<forall>b. loop_level_of la b = Some (min 254 (card {h. loop_head d h \<and> natural_loop d h b}))"
    using loop_level_of_correct [OF nest la(2)] card by simp
  show ?thesis
    by (intro exI [of _ la] exI [of _ hs] conjI la(1) keys dist set_hs levels l_ok)
qed

text \<open>An example: the second block of the function branches to itself.\<close>

definition loop_dfg :: "'f dfg" where
  "loop_dfg = snd (the (insert_inst (ip_after (PpBlock 1)) (IBr OcBr 1 []) TyUnit branch_dfg))"

lemma loop_dfg_step:
  "insert_inst (ip_after (PpBlock 1)) (IBr OcBr 1 []) TyUnit branch_dfg = Some (1, loop_dfg)"
  by (simp add: loop_dfg_def branch_dfg_def branch_eval)

lemma loop_dfg_wf: "dfg_wf loop_dfg"
  using loop_dfg_step branch_dfg_wf by (auto intro: insert_inst_wf)

lemma loop_visit:
  "visit_block_succs (loop_dfg :: int dfg) 0 = Some [(0, 1, False)]"
  "visit_block_succs (loop_dfg :: int dfg) (Suc 0) = Some [(1, 1, False)]"
  by (simp_all add: loop_dfg_def branch_dfg_def branch_eval visit_block_succs_def last_inst_def bd_last_def
      inst_succs_def)

lemma loop_keys: "block_keys (loop_dfg :: int dfg) = [0, 1]"
  by (simp add: loop_dfg_def branch_dfg_def branch_eval block_keys_def om_keys_def)

lemma loop_cfg: "\<exists>c. cfg_compute (loop_dfg :: int dfg) cfg_new = Some c"
  by (simp add: cfg_compute_def loop_keys compute_block_def loop_visit)

lemma loop_dests:
  "block_dests (loop_dfg :: int dfg) 0 = Some [1]"
  "block_dests (loop_dfg :: int dfg) (Suc 0) = Some [1]"
  by (simp_all add: loop_dfg_def branch_dfg_def branch_eval block_dests_def last_inst_def bd_last_def
      dfg_analyze_branch_def push_order_def)

lemma loop_entry: "entry_block (loop_dfg :: int dfg) = 0"
  by (simp add: loop_dfg_def branch_dfg_def branch_eval entry_block_def)

lemma loop_closed: "cfg_closed (loop_dfg :: int dfg)"
  by (simp add: cfg_closed_def loop_keys loop_dests loop_entry)

lemma loop_reachable: "reachable (loop_dfg :: int dfg) 0" "reachable (loop_dfg :: int dfg) 1"
proof -
  show "reachable (loop_dfg :: int dfg) 0" using reachable_entry [of "loop_dfg :: int dfg"] by (simp add: loop_entry)
  then show "reachable (loop_dfg :: int dfg) 1"
    by (rule reachable_step) (simp add: block_succs_def loop_dests)
qed

lemma loop_live: "live_preds (loop_dfg :: int dfg)"
  using loop_reachable by (auto simp: live_preds_def loop_keys)

lemma loop_head_1: "loop_head (loop_dfg :: int dfg) 1"
  using loop_reachable by (auto simp: loop_head_def rpreds_def block_succs_def loop_dests dom_refl intro!: bexI [of _ 1])

definition loop_function :: "int hir_function" where
  "loop_function = \<lparr>hf_id = FunctionIdent ''m'' ''f'',
     hf_signature = \<lparr>sig_params = [], sig_results = [], sig_cc = CcFast, sig_linkage = LkExternal\<rparr>,
     hf_dfg = loop_dfg\<rparr>"

theorem loops_are_natural_witness:
  "\<exists>c t la l. cfg_compute (loop_dfg :: int dfg) cfg_new = Some c \<and> dt_compute (loop_dfg :: int dfg) c dt_new = Some t \<and>
    la_compute loop_function c t la_default = Some la \<and>
    loop_header la l = Some 1 \<and> is_in_loop la 1 l = Some True"
proof -
  obtain c where c: "cfg_compute (loop_dfg :: int dfg) cfg_new = Some c" using loop_cfg by blast
  have keys: "length (block_keys (loop_dfg :: int dfg)) < 536870912" by (simp add: loop_keys)
  obtain t where t: "dt_compute (loop_dfg :: int dfg) c dt_new = Some t"
    using dt_compute_correct [OF loop_dfg_wf loop_closed c keys, of dt_new] by blast
  have "(loop_dfg :: int dfg) = hf_dfg loop_function" by (simp add: loop_function_def)
  from loops_are_natural [OF this loop_dfg_wf loop_closed c t keys loop_live, of la_default]
  obtain la hs where la: "la_compute loop_function c t la_default = Some la" "set hs = {h. loop_head (loop_dfg :: int dfg) h}"
    "\<forall>l < length hs. loop_header la l = Some (hs ! l) \<and>
       (\<forall>b. is_in_loop la b l = Some (natural_loop (loop_dfg :: int dfg) (hs ! l) b))"
    by blast
  obtain l where "l < length hs" "hs ! l = 1"
    using la(2) loop_head_1 by (metis in_set_conv_nth mem_Collect_eq)
  with la(1,3) c t nl_header [of "loop_dfg :: int dfg" 1] show ?thesis by metis
qed

end
