(* ===== verification/Liveness.thy ===== *)
theory Liveness
  imports Loops "HOL-Library.AList"
begin

text \<open>
  The next-use distances of values (hir-analysis/src/liveness.rs).  A set of next uses is an
  ordered map, a list sorted by the value; a distance of \<open>u32_MAX\<close> stands for infinity.  The hash
  maps of the analysis are association lists, and the hash set of the values that an instruction
  uses is the list of them, whose order and repetitions make no difference.
\<close>

section \<open>Sets of next uses\<close>

type_synonym next_uses = "(val \<times> nat) list"

definition sat_add :: "nat \<Rightarrow> nat \<Rightarrow> nat" where
  "sat_add a b = min (a + b) u32_MAX"

definition nu_insert :: "val \<Rightarrow> nat \<Rightarrow> next_uses \<Rightarrow> next_uses" where
  "nu_insert v n s =
     (case map_of s v of None \<Rightarrow> map_insert v n s | Some prev \<Rightarrow> map_insert v (min prev n) s)"

definition nu_from_iter :: "(val \<times> nat) list \<Rightarrow> next_uses" where
  "nu_from_iter xs = fold (\<lambda>(v, n). nu_insert v n) xs []"

definition nu_distance :: "val \<Rightarrow> next_uses \<Rightarrow> nat" where
  "nu_distance v s = (case map_of s v of None \<Rightarrow> u32_MAX | Some n \<Rightarrow> n)"

definition nu_is_live :: "val \<Rightarrow> next_uses \<Rightarrow> bool" where
  "nu_is_live v s = (nu_distance v s < u32_MAX)"

definition nu_contains :: "val \<Rightarrow> next_uses \<Rightarrow> bool" where
  "nu_contains v s = (map_of s v \<noteq> None)"

definition nu_get :: "val \<Rightarrow> next_uses \<Rightarrow> nat option" where
  "nu_get v s = map_of s v"

definition nu_remove :: "val \<Rightarrow> next_uses \<Rightarrow> next_uses" where
  "nu_remove v s = filter (\<lambda>e. fst e \<noteq> v) s"

text \<open>\<open>entry(v).or_insert(n)\<close>\<close>

definition nu_or_insert :: "val \<Rightarrow> nat \<Rightarrow> next_uses \<Rightarrow> next_uses" where
  "nu_or_insert v n s = (case map_of s v of None \<Rightarrow> map_insert v n s | Some _ \<Rightarrow> s)"

definition nu_union :: "next_uses \<Rightarrow> next_uses \<Rightarrow> next_uses" where
  "nu_union s t = fold (\<lambda>(v, n). nu_insert v n) t s"

definition nu_intersection :: "next_uses \<Rightarrow> next_uses \<Rightarrow> next_uses" where
  "nu_intersection s t =
     fold (\<lambda>(v, n) r. case map_of t v of None \<Rightarrow> r | Some m \<Rightarrow> map_insert v (min n m) r) s []"

definition nu_symmetric_difference :: "next_uses \<Rightarrow> next_uses \<Rightarrow> next_uses" where
  "nu_symmetric_difference s t =
     fold (\<lambda>(v, n) r. if map_of s v = None then map_insert v n r else r) t
       (fold (\<lambda>(v, n) r. if map_of t v = None then map_insert v n r else r) s [])"

definition nu_pop_first :: "next_uses \<Rightarrow> (val \<times> nat) option \<times> next_uses" where
  "nu_pop_first s = (case s of [] \<Rightarrow> (None, []) | e # s \<Rightarrow> (Some e, s))"

definition nu_pop_last :: "next_uses \<Rightarrow> (val \<times> nat) option \<times> next_uses" where
  "nu_pop_last s = (if s = [] then (None, []) else (Some (last s), butlast s))"

text \<open>All distances grow by \<open>n\<close>.\<close>

definition nu_add :: "nat \<Rightarrow> next_uses \<Rightarrow> next_uses" where
  "nu_add n s = map (\<lambda>(v, m). (v, sat_add m n)) s"

definition nu_remove_all :: "val list \<Rightarrow> next_uses \<Rightarrow> next_uses" where
  "nu_remove_all vs s = fold nu_remove vs s"

definition nu_live_count :: "next_uses \<Rightarrow> nat" where
  "nu_live_count s = length (filter (\<lambda>e. snd e < u32_MAX) s)"

section \<open>The analysis\<close>

record liveness =
  lv_in :: "(program_point \<times> next_uses) list"
  lv_out :: "(program_point \<times> next_uses) list"
  lv_pressure :: "(block \<times> nat) list"

definition lv_default :: liveness where
  "lv_default = \<lparr>lv_in = [], lv_out = [], lv_pressure = []\<rparr>"

definition lv_clear :: "liveness \<Rightarrow> liveness" where
  "lv_clear lv = lv\<lparr>lv_in := [], lv_out := [], lv_pressure := []\<rparr>"

definition lv_set :: "program_point \<Rightarrow> next_uses \<Rightarrow> next_uses \<Rightarrow> liveness \<Rightarrow> liveness" where
  "lv_set pp s s_after lv =
     lv\<lparr>lv_in := AList.update pp s (lv_in lv), lv_out := AList.update pp s_after (lv_out lv)\<rparr>"

text \<open>\<open>live_in.entry(pp).or_insert_with(default).clone()\<close>\<close>

definition lv_entry :: "program_point \<Rightarrow> liveness \<Rightarrow> next_uses \<times> liveness" where
  "lv_entry pp lv =
     (case map_of (lv_in lv) pp of
        Some s \<Rightarrow> (s, lv)
      | None \<Rightarrow> ([], lv\<lparr>lv_in := AList.update pp [] (lv_in lv)\<rparr>))"

subsection \<open>Queries\<close>

definition next_uses_at :: "program_point \<Rightarrow> liveness \<Rightarrow> next_uses option" where
  "next_uses_at pp lv = map_of (lv_in lv) pp"

definition next_uses_after :: "program_point \<Rightarrow> liveness \<Rightarrow> next_uses option" where
  "next_uses_after pp lv = map_of (lv_out lv) pp"

definition is_live_at :: "val \<Rightarrow> program_point \<Rightarrow> liveness \<Rightarrow> bool option" where
  "is_live_at v pp lv = map_option (nu_contains v) (map_of (lv_in lv) pp)"

definition is_live_after :: "val \<Rightarrow> program_point \<Rightarrow> liveness \<Rightarrow> bool option" where
  "is_live_after v pp lv = map_option (nu_contains v) (map_of (lv_out lv) pp)"

definition next_use :: "val \<Rightarrow> program_point \<Rightarrow> liveness \<Rightarrow> nat option" where
  "next_use v pp lv = map_option (nu_distance v) (map_of (lv_in lv) pp)"

definition next_use_after :: "val \<Rightarrow> program_point \<Rightarrow> liveness \<Rightarrow> nat option" where
  "next_use_after v pp lv = map_option (nu_distance v) (map_of (lv_out lv) pp)"

definition live_values :: "next_uses \<Rightarrow> val list" where
  "live_values s = map fst (filter (\<lambda>e. snd e < u32_MAX) s)"

definition live_at :: "program_point \<Rightarrow> liveness \<Rightarrow> val list option" where
  "live_at pp lv = map_option live_values (map_of (lv_out lv) pp)"

definition live_after :: "program_point \<Rightarrow> liveness \<Rightarrow> val list option" where
  "live_after pp lv = map_option live_values (map_of (lv_out lv) pp)"

definition max_register_pressure :: "block \<Rightarrow> liveness \<Rightarrow> nat option" where
  "max_register_pressure b lv = map_of (lv_pressure lv) b"

definition chromatic_number :: "liveness \<Rightarrow> nat" where
  "chromatic_number lv = fold (\<lambda>(_, s) m. max (nu_live_count s) m) (lv_in lv) 0"

subsection \<open>One instruction\<close>

definition LOOP_EXIT_DISTANCE :: nat where "LOOP_EXIT_DISTANCE = 100000"

definition branch_args :: "branch_info \<Rightarrow> val list" where
  "branch_args info =
     (case info of
        NotABranch \<Rightarrow> []
      | SingleDest _ args \<Rightarrow> args
      | MultiDest jts \<Rightarrow> concat (map snd jts))"

definition inst_uses :: "'f instruction \<Rightarrow> val list" where
  "inst_uses data = arguments data @ branch_args (analyze_branch data)"

text \<open>The values that are passed for live parameters of the successor are used by the branch.\<close>

definition propagate_args :: "val list \<Rightarrow> val list \<Rightarrow> next_uses \<Rightarrow> next_uses" where
  "propagate_args ins outs s =
     fold (\<lambda>(i, out) s. if nu_is_live out s then nu_insert i 0 s else s) (zip ins outs) s"

definition is_loop_exit :: "loop_analysis \<Rightarrow> loop option \<Rightarrow> block \<Rightarrow> bool option" where
  "is_loop_exit la block_loop succ =
     (case block_loop of
        None \<Rightarrow> Some False
      | Some bl \<Rightarrow>
          (case innermost_loop la succ of
             None \<Rightarrow> Some True
           | Some l \<Rightarrow> if bl \<noteq> l then is_child_loop la bl l else Some False))"

text \<open>The next uses over one edge, at the branch and after it, from those of the successor.\<close>

definition edge_uses :: "'f dfg \<Rightarrow> loop_analysis \<Rightarrow> loop option \<Rightarrow> block \<Rightarrow> val list \<Rightarrow> next_uses \<Rightarrow>
    (next_uses \<times> next_uses) option" where
  "edge_uses d la block_loop succ args s = do {
     params \<leftarrow> block_params d succ;
     let uses = nu_remove_all params (propagate_args args params s);
     let uses_after = nu_remove_all params s;
     exits \<leftarrow> is_loop_exit la block_loop succ;
     Some (if exits then (nu_add LOOP_EXIT_DISTANCE uses, nu_add LOOP_EXIT_DISTANCE uses_after)
           else (uses, uses_after)) }"

primrec jump_table_uses :: "control_flow_graph \<Rightarrow> 'f dfg \<Rightarrow> loop_analysis \<Rightarrow> loop option \<Rightarrow>
    (block \<times> val list) list \<Rightarrow> next_uses \<times> next_uses \<Rightarrow> liveness \<Rightarrow>
    ((next_uses \<times> next_uses) \<times> liveness) option" where
  "jump_table_uses c d la bl [] acc lv = Some (acc, lv)"
| "jump_table_uses c d la bl (jt # jts) acc lv = do {
     assert_that (num_predecessors c (fst jt) = 1);
     let (s, lv) = lv_entry (PpBlock (fst jt)) lv;
     (uses, uses_after) \<leftarrow> edge_uses d la bl (fst jt) (snd jt) s;
     jump_table_uses c d la bl jts (nu_union (fst acc) uses, nu_union (snd acc) uses_after) lv }"

text \<open>The initial sets of an instruction whose successor in the block is \<open>succ_inst\<close>.\<close>

definition initial_uses :: "control_flow_graph \<Rightarrow> 'f dfg \<Rightarrow> loop_analysis \<Rightarrow> loop option \<Rightarrow> inst option \<Rightarrow>
    branch_info \<Rightarrow> liveness \<Rightarrow> ((next_uses \<times> next_uses) \<times> liveness) option" where
  "initial_uses c d la bl succ_inst info lv =
     (case info of
        NotABranch \<Rightarrow>
          (case succ_inst of
             Some j \<Rightarrow>
               (let (s, lv) = lv_entry (PpInst j) lv; s = nu_add 1 s
                in Some ((nu_remove_all (inst_results d j) s, s), lv))
           | None \<Rightarrow> Some (([], []), lv))
      | SingleDest succ args \<Rightarrow> do {
          let (s, lv) = lv_entry (PpBlock succ) lv;
          r \<leftarrow> edge_uses d la bl succ args s;
          Some (r, lv) }
      | MultiDest jts \<Rightarrow> jump_table_uses c d la bl jts ([], []) lv)"

definition visit_inst :: "control_flow_graph \<Rightarrow> 'f dfg \<Rightarrow> loop_analysis \<Rightarrow> loop option \<Rightarrow> inst option \<Rightarrow>
    inst \<Rightarrow> liveness \<times> nat \<Rightarrow> (liveness \<times> nat) option" where
  "visit_inst c d la bl succ_inst i st = do {
     data \<leftarrow> inst_data d i;
     ((uses, uses_after), lv) \<leftarrow> initial_uses c d la bl succ_inst (analyze_branch data) (fst st);
     let uses = fold (\<lambda>v. nu_or_insert v u32_MAX) (inst_results d i) uses;
     let uses_after = fold (\<lambda>v. nu_or_insert v u32_MAX) (inst_results d i) uses_after;
     let uses = fold (\<lambda>v. nu_insert v 0) (inst_uses data) uses;
     Some (lv_set (PpInst i) uses uses_after lv, max (snd st) (nu_live_count uses)) }"

text \<open>The instructions of a block from the last to the first.\<close>

fun visit_insts :: "control_flow_graph \<Rightarrow> 'f dfg \<Rightarrow> loop_analysis \<Rightarrow> loop option \<Rightarrow> inst option \<Rightarrow>
    inst list \<Rightarrow> liveness \<times> nat \<Rightarrow> (liveness \<times> nat) option" where
  "visit_insts c d la bl succ_inst [] st = Some st"
| "visit_insts c d la bl succ_inst (i # is) st = do {
     st \<leftarrow> visit_inst c d la bl succ_inst i st;
     visit_insts c d la bl (Some i) is st }"

subsection \<open>One block, and the worklist\<close>

definition nu_header :: "'f dfg \<Rightarrow> inst \<Rightarrow> val list \<Rightarrow> next_uses \<Rightarrow> next_uses" where
  "nu_header d first_inst params s =
     fold (\<lambda>v. nu_or_insert v u32_MAX) params (nu_remove_all (inst_results d first_inst) s)"

text \<open>The result says whether the block must be visited again.\<close>

definition visit_block :: "control_flow_graph \<Rightarrow> 'f dfg \<Rightarrow> loop_analysis \<Rightarrow> block \<Rightarrow> liveness \<Rightarrow>
    (bool \<times> liveness) option" where
  "visit_block c d la b lv = do {
     bd \<leftarrow> dfg_block d b;
     (lv, pressure) \<leftarrow> visit_insts c d la (innermost_loop la b) None (rev (bd_insts bd)) (lv, 0);
     first_inst \<leftarrow> bd_first bd;
     s \<leftarrow> map_of (lv_in lv) (PpInst first_inst);
     let s = nu_header d first_inst (bd_params bd) s;
     last_inst \<leftarrow> bd_last bd;
     s_after \<leftarrow> map_of (lv_out lv) (PpInst last_inst);
     let again = (map_of (lv_in lv) (PpBlock b) \<noteq> Some s);
     let lv = lv_set (PpBlock b) s s_after lv;
     Some (again, lv\<lparr>lv_pressure := AList.update b pressure (lv_pressure lv)\<rparr>) }"

partial_function (option) liveness_loop ::
  "control_flow_graph \<Rightarrow> 'f dfg \<Rightarrow> loop_analysis \<Rightarrow> block list \<Rightarrow> liveness \<Rightarrow> liveness option" where
  "liveness_loop c d la worklist lv =
     (case worklist of
        [] \<Rightarrow> Some lv
      | b # worklist \<Rightarrow> do {
          r \<leftarrow> visit_block c d la b lv;
          liveness_loop c d la (if fst r then worklist @ [b] else worklist) (snd r) })"

definition compute_liveness :: "'f hir_function \<Rightarrow> control_flow_graph \<Rightarrow> dominator_tree \<Rightarrow> loop_analysis \<Rightarrow>
    liveness \<Rightarrow> liveness option" where
  "compute_liveness f c t la lv = do {
     worklist \<leftarrow> cfg_postorder t;
     liveness_loop c (hf_dfg f) la worklist lv }"

definition lv_recompute :: "'f hir_function \<Rightarrow> control_flow_graph \<Rightarrow> dominator_tree \<Rightarrow> loop_analysis \<Rightarrow>
    liveness \<Rightarrow> liveness option" where
  "lv_recompute f c t la lv = compute_liveness f c t la (lv_clear lv)"

definition lv_compute :: "'f hir_function \<Rightarrow> control_flow_graph \<Rightarrow> dominator_tree \<Rightarrow> loop_analysis \<Rightarrow>
    liveness option" where
  "lv_compute f c t la = lv_recompute f c t la lv_default"

end
