(* ===== verification/LivenessProps.thy ===== *)
theory LivenessProps
  imports Liveness LoopQueries
begin

text \<open>
  Liveness: what a next-use distance means, that the analysis ends, that a finite distance is
  the length of a way to a use, and that without loops it is the length of the shortest one.
\<close>

section \<open>Sets of next uses as maps\<close>

lemma map_of_map_insert [simp]: "map_of (map_insert k v m) = (map_of m)(k \<mapsto> v)"
  by (induction k v m rule: map_insert.induct) auto

lemma map_of_filter_neq [simp]: "map_of (filter (\<lambda>e. fst e \<noteq> k) m) = (map_of m)(k := None)"
  by (induction m) (auto simp: fun_eq_iff)

lemma nu_insert_get:
  "map_of (nu_insert v n s) w =
     (if w = v then Some (case map_of s v of None \<Rightarrow> n | Some p \<Rightarrow> min p n) else map_of s w)"
  by (simp add: nu_insert_def split: option.splits)

lemma nu_insert_0_get: "map_of (nu_insert v 0 s) w = (if w = v then Some 0 else map_of s w)"
  by (simp add: nu_insert_get split: option.splits)

lemma nu_or_insert_get:
  "map_of (nu_or_insert v n s) w = (if w = v \<and> map_of s v = None then Some n else map_of s w)"
  by (simp add: nu_or_insert_def split: option.splits)

lemma nu_remove_all_get [simp]: "map_of (nu_remove_all vs s) w = (if w \<in> set vs then None else map_of s w)"
  unfolding nu_remove_all_def by (induction vs arbitrary: s) (auto simp: nu_remove_def)

lemma nu_add_get [simp]: "map_of (nu_add n s) w = map_option (\<lambda>m. sat_add m n) (map_of s w)"
  unfolding nu_add_def by (induction s) auto

lemma fold_or_insert_get [simp]:
  "map_of (fold (\<lambda>v. nu_or_insert v n) vs s) w =
     (if w \<in> set vs \<and> map_of s w = None then Some n else map_of s w)"
  by (induction vs arbitrary: s) (auto simp: nu_or_insert_get)

lemma fold_insert_get [simp]:
  "map_of (fold (\<lambda>v. nu_insert v 0) vs s) w = (if w \<in> set vs then Some 0 else map_of s w)"
  by (induction vs arbitrary: s) (auto simp: nu_insert_0_get)

text \<open>The smaller of two optional distances.\<close>

definition min_dist :: "nat option \<Rightarrow> nat option \<Rightarrow> nat option" where
  "min_dist a b =
     (case a of None \<Rightarrow> b | Some m \<Rightarrow> (case b of None \<Rightarrow> a | Some n \<Rightarrow> Some (min m n)))"

lemma nu_union_get:
  "distinct (map fst t) \<Longrightarrow> map_of (nu_union s t) w = min_dist (map_of s w) (map_of t w)"
  unfolding nu_union_def
proof (induction t arbitrary: s)
  case (Cons e t)
  obtain v n where e: "e = (v, n)" by (cases e)
  have "map_of t v = None" using Cons.prems e by (simp add: map_of_eq_None_iff)
  with Cons e show ?case by (auto simp: nu_insert_get min_dist_def split: option.splits)
qed (simp add: min_dist_def split: option.splits)

section \<open>Order and sortedness\<close>

text \<open>A set is above another when it has its values at no greater distances.\<close>

definition nu_le :: "next_uses \<Rightarrow> next_uses \<Rightarrow> bool" where
  "nu_le s t \<longleftrightarrow> (\<forall>v n. map_of s v = Some n \<longrightarrow> (\<exists>m \<le> n. map_of t v = Some m))"

named_theorems nu_mono
named_theorems nu_sorted

lemma nu_le_refl [simp]: "nu_le s s"
  by (auto simp: nu_le_def)

lemma nu_le_trans: "nu_le s t \<Longrightarrow> nu_le t u \<Longrightarrow> nu_le s u"
  unfolding nu_le_def by (meson le_trans)

lemma nu_le_empty [simp]: "nu_le [] t"
  by (simp add: nu_le_def)

lemma nu_le_live: "nu_le s t \<Longrightarrow> nu_is_live v s \<Longrightarrow> nu_is_live v t"
  unfolding nu_le_def nu_is_live_def nu_distance_def by (fastforce split: option.splits)

lemma nu_insert_mono [nu_mono]: "nu_le s t \<Longrightarrow> nu_le (nu_insert v n s) (nu_insert v n t)"
  unfolding nu_le_def nu_insert_get by (fastforce split: option.splits if_splits)

lemma nu_le_insert: "nu_le s t \<Longrightarrow> nu_le s (nu_insert v n t)"
  unfolding nu_le_def nu_insert_get by (fastforce split: option.splits if_splits)

lemma nu_remove_all_mono [nu_mono]: "nu_le s t \<Longrightarrow> nu_le (nu_remove_all vs s) (nu_remove_all vs t)"
  by (simp add: nu_le_def)

lemma nu_add_mono [nu_mono]: "nu_le s t \<Longrightarrow> nu_le (nu_add n s) (nu_add n t)"
  unfolding nu_le_def
proof (intro allI impI)
  fix v k assume le: "\<forall>v n. map_of s v = Some n \<longrightarrow> (\<exists>m \<le> n. map_of t v = Some m)"
    and "map_of (nu_add n s) v = Some k"
  then obtain m where m: "map_of s v = Some m" "k = sat_add m n" by auto
  with le obtain m' where "m' \<le> m" "map_of t v = Some m'" by blast
  with m(2) show "\<exists>j \<le> k. map_of (nu_add n t) v = Some j" by (auto simp: sat_add_def)
qed

lemma fold_insert_mono [nu_mono]:
  "nu_le s t \<Longrightarrow> nu_le (fold (\<lambda>v. nu_insert v 0) vs s) (fold (\<lambda>v. nu_insert v 0) vs t)"
  by (simp add: nu_le_def)

definition nu_bounded :: "next_uses \<Rightarrow> bool" where
  "nu_bounded s \<longleftrightarrow> (\<forall>v n. map_of s v = Some n \<longrightarrow> n \<le> u32_MAX)"

lemma fold_or_insert_mono [nu_mono]:
  "nu_le s t \<Longrightarrow> nu_bounded t \<Longrightarrow>
   nu_le (fold (\<lambda>v. nu_or_insert v u32_MAX) vs s) (fold (\<lambda>v. nu_or_insert v u32_MAX) vs t)"
  unfolding nu_le_def
proof (intro allI impI)
  fix v n assume le: "\<forall>v n. map_of s v = Some n \<longrightarrow> (\<exists>m \<le> n. map_of t v = Some m)" and b: "nu_bounded t"
    and n: "map_of (fold (\<lambda>v. nu_or_insert v u32_MAX) vs s) v = Some n"
  show "\<exists>m \<le> n. map_of (fold (\<lambda>v. nu_or_insert v u32_MAX) vs t) v = Some m"
  proof (cases "map_of s v")
    case None
    with n b show ?thesis by (cases "map_of t v") (auto simp: nu_bounded_def split: if_splits)
  next
    case (Some k)
    moreover from le Some obtain m where "m \<le> k" "map_of t v = Some m" by blast
    ultimately show ?thesis using n by auto
  qed
qed

lemma fold_nu_mono:
  "(\<And>x s t. nu_le s t \<Longrightarrow> nu_le (f x s) (f x t)) \<Longrightarrow> nu_le s t \<Longrightarrow> nu_le (fold f xs s) (fold f xs t)"
  by (induction xs arbitrary: s t) auto

lemma propagate_args_mono [nu_mono]:
  "nu_le s t \<Longrightarrow> nu_le (propagate_args ins outs s) (propagate_args ins outs t)"
  unfolding propagate_args_def
  by (rule fold_nu_mono) (auto dest: nu_le_live intro: nu_insert_mono nu_le_insert)

lemma nu_union_mono [nu_mono]:
  "nu_le s s' \<Longrightarrow> nu_le t t' \<Longrightarrow> distinct (map fst t) \<Longrightarrow> distinct (map fst t') \<Longrightarrow>
   nu_le (nu_union s t) (nu_union s' t')"
  unfolding nu_le_def by (fastforce simp: nu_union_get min_dist_def split: option.splits)

lemma map_sorted_distinct_keys: "map_sorted s \<Longrightarrow> distinct (map fst s)"
  by (simp add: map_sorted_def strict_sorted_iff)

lemma nu_insert_sorted [nu_sorted]: "map_sorted s \<Longrightarrow> map_sorted (nu_insert v n s)"
  by (simp add: nu_insert_def map_sorted_insert split: option.splits)

lemma nu_or_insert_sorted [nu_sorted]: "map_sorted s \<Longrightarrow> map_sorted (nu_or_insert v n s)"
  by (simp add: nu_or_insert_def map_sorted_insert split: option.splits)

lemma nu_remove_all_sorted [nu_sorted]: "map_sorted s \<Longrightarrow> map_sorted (nu_remove_all vs s)"
  unfolding nu_remove_all_def nu_remove_def by (induction vs arbitrary: s) (auto simp: map_sorted_filter)

lemma nu_add_sorted [nu_sorted]: "map_sorted s \<Longrightarrow> map_sorted (nu_add n s)"
proof -
  have "map fst (nu_add n s) = map fst s" by (simp add: nu_add_def comp_def case_prod_beta)
  then show "map_sorted s \<Longrightarrow> ?thesis" by (simp add: map_sorted_def)
qed

lemma fold_sorted [nu_sorted]:
  "map_sorted s \<Longrightarrow> map_sorted (fold (\<lambda>v. nu_insert v n) vs s)"
  "map_sorted s \<Longrightarrow> map_sorted (fold (\<lambda>v. nu_or_insert v n) vs s)"
  by (induction vs arbitrary: s) (auto intro: nu_sorted)

lemma nu_union_sorted [nu_sorted]: "map_sorted s \<Longrightarrow> map_sorted (nu_union s t)"
  unfolding nu_union_def by (induction t arbitrary: s) (auto intro: nu_sorted)

lemma propagate_args_sorted [nu_sorted]: "map_sorted s \<Longrightarrow> map_sorted (propagate_args ins outs s)"
proof -
  have "(\<And>x s. map_sorted s \<Longrightarrow> map_sorted (f x s)) \<Longrightarrow> map_sorted s \<Longrightarrow> map_sorted (fold f xs s)"
    for f :: "val \<times> val \<Rightarrow> next_uses \<Rightarrow> next_uses" and xs
    by (induction xs arbitrary: s) auto
  then show "map_sorted s \<Longrightarrow> ?thesis"
    unfolding propagate_args_def by (auto simp: nu_insert_sorted)
qed

lemma propagate_args_get:
  "w \<notin> set ins \<Longrightarrow> map_of (propagate_args ins outs s) w = map_of s w"
proof -
  have "w \<notin> fst ` set xs \<Longrightarrow>
      map_of (fold (\<lambda>(i, out) s. if nu_is_live out s then nu_insert i 0 s else s) xs s) w = map_of s w" for xs
    by (induction xs arbitrary: s) (auto simp: nu_insert_0_get)
  moreover have "fst ` set (zip ins outs) \<subseteq> set ins" by (auto dest: set_zip_leftD)
  ultimately show "w \<notin> set ins \<Longrightarrow> ?thesis" by (auto simp: propagate_args_def)
qed

section \<open>Monotonicity\<close>

text \<open>
  Two sets over the values \<open>V\<close>, sorted, with distances in range, of which the second is above
  the first.
\<close>

definition nu_ok :: "val set \<Rightarrow> next_uses \<Rightarrow> bool" where
  "nu_ok V s \<longleftrightarrow> map_sorted s \<and> (\<forall>v n. map_of s v = Some n \<longrightarrow> v \<in> V \<and> n \<le> u32_MAX)"

definition nu_rel :: "val set \<Rightarrow> next_uses \<Rightarrow> next_uses \<Rightarrow> bool" where
  "nu_rel V s t \<longleftrightarrow> nu_le s t \<and> nu_ok V s \<and> nu_ok V t"

named_theorems nu_rel

lemma nu_ok_empty [simp]: "nu_ok V []"
  by (simp add: nu_ok_def map_sorted_def)

lemma nu_rel_empty [simp]: "nu_rel V [] []"
  by (simp add: nu_rel_def)

lemma nu_ok_sorted: "nu_ok V s \<Longrightarrow> map_sorted s"
  by (simp add: nu_ok_def)

lemma nu_rel_refl [simp]: "nu_rel V s s \<longleftrightarrow> nu_ok V s"
  by (simp add: nu_rel_def)

lemma nu_rel_remove_all [nu_rel]: "nu_rel V s t \<Longrightarrow> nu_rel V (nu_remove_all vs s) (nu_remove_all vs t)"
  by (auto simp: nu_rel_def nu_ok_def intro: nu_mono nu_sorted)

lemma nu_rel_add [nu_rel]: "nu_rel V s t \<Longrightarrow> nu_rel V (nu_add n s) (nu_add n t)"
  by (auto simp: nu_rel_def nu_ok_def sat_add_def intro: nu_mono nu_sorted)

lemma nu_rel_insert [nu_rel]:
  "nu_rel V s t \<Longrightarrow> set vs \<subseteq> V \<Longrightarrow> nu_rel V (fold (\<lambda>v. nu_insert v 0) vs s) (fold (\<lambda>v. nu_insert v 0) vs t)"
  by (auto simp: nu_rel_def nu_ok_def split: if_splits intro: nu_mono nu_sorted)

lemma nu_rel_or_insert [nu_rel]:
  "nu_rel V s t \<Longrightarrow> set vs \<subseteq> V \<Longrightarrow>
   nu_rel V (fold (\<lambda>v. nu_or_insert v u32_MAX) vs s) (fold (\<lambda>v. nu_or_insert v u32_MAX) vs t)"
proof -
  assume st: "nu_rel V s t" "set vs \<subseteq> V"
  then have "nu_bounded t" by (auto simp: nu_rel_def nu_ok_def nu_bounded_def)
  with st show ?thesis
    by (auto simp: nu_rel_def nu_ok_def split: if_splits intro: fold_or_insert_mono nu_sorted)
qed

lemma nu_ok_union: "nu_ok V s \<Longrightarrow> nu_ok V t \<Longrightarrow> nu_ok V (nu_union s t)"
  by (auto simp: nu_ok_def nu_union_get map_sorted_distinct_keys min_dist_def min_def nu_union_sorted
      split: option.splits if_splits)

lemma nu_rel_union [nu_rel]:
  "nu_rel V s s' \<Longrightarrow> nu_rel V t t' \<Longrightarrow> nu_rel V (nu_union s t) (nu_union s' t')"
  unfolding nu_rel_def by (intro conjI nu_ok_union nu_union_mono map_sorted_distinct_keys) (auto dest: nu_ok_sorted)

lemma nu_rel_propagate [nu_rel]:
  assumes "nu_rel V s t" "set ins \<subseteq> V"
  shows "nu_rel V (propagate_args ins outs s) (propagate_args ins outs t)"
proof -
  have ok: "nu_ok V s \<Longrightarrow> fst ` set xs \<subseteq> V \<Longrightarrow>
      nu_ok V (fold (\<lambda>(i, out) s. if nu_is_live out s then nu_insert i 0 s else s) xs s)" for xs s
  proof (induction xs arbitrary: s)
    case (Cons x xs)
    have "nu_ok V (nu_insert (fst x) 0 s)"
      using Cons.prems by (auto simp: nu_ok_def nu_insert_0_get nu_insert_sorted split: if_splits)
    with Cons show ?case by (cases x) simp
  qed simp
  have "fst ` set (zip ins outs) \<subseteq> V" using assms(2) by (auto dest: set_zip_leftD)
  with assms(1) ok show ?thesis
    by (simp add: nu_rel_def propagate_args_mono) (simp add: propagate_args_def)
qed

section \<open>One block as a function of the sets at the blocks\<close>

primrec jts_sets :: "'f dfg \<Rightarrow> loop_analysis \<Rightarrow> loop option \<Rightarrow> (block \<Rightarrow> next_uses) \<Rightarrow>
    (block \<times> val list) list \<Rightarrow> next_uses \<times> next_uses \<Rightarrow> (next_uses \<times> next_uses) option" where
  "jts_sets d la bl \<sigma> [] acc = Some acc"
| "jts_sets d la bl \<sigma> (jt # jts) acc = do {
     (u, a) \<leftarrow> edge_uses d la bl (fst jt) (snd jt) (\<sigma> (fst jt));
     jts_sets d la bl \<sigma> jts (nu_union (fst acc) u, nu_union (snd acc) a) }"

definition start_sets :: "'f dfg \<Rightarrow> loop_analysis \<Rightarrow> loop option \<Rightarrow> (block \<Rightarrow> next_uses) \<Rightarrow>
    (inst \<times> next_uses) option \<Rightarrow> branch_info \<Rightarrow> (next_uses \<times> next_uses) option" where
  "start_sets d la bl \<sigma> cur info =
     (case info of
        NotABranch \<Rightarrow>
          (case cur of
             Some (j, s) \<Rightarrow> Some (nu_remove_all (inst_results d j) (nu_add 1 s), nu_add 1 s)
           | None \<Rightarrow> Some ([], []))
      | SingleDest b args \<Rightarrow> edge_uses d la bl b args (\<sigma> b)
      | MultiDest jts \<Rightarrow> jts_sets d la bl \<sigma> jts ([], []))"

definition inst_sets :: "'f dfg \<Rightarrow> loop_analysis \<Rightarrow> loop option \<Rightarrow> (block \<Rightarrow> next_uses) \<Rightarrow>
    (inst \<times> next_uses) option \<Rightarrow> inst \<Rightarrow> (next_uses \<times> next_uses) option" where
  "inst_sets d la bl \<sigma> cur i = do {
     data \<leftarrow> inst_data d i;
     (u, a) \<leftarrow> start_sets d la bl \<sigma> cur (analyze_branch data);
     Some (fold (\<lambda>v. nu_insert v 0) (inst_uses data) (fold (\<lambda>v. nu_or_insert v u32_MAX) (inst_results d i) u),
           fold (\<lambda>v. nu_or_insert v u32_MAX) (inst_results d i) a) }"

primrec insts_sets :: "'f dfg \<Rightarrow> loop_analysis \<Rightarrow> loop option \<Rightarrow> (block \<Rightarrow> next_uses) \<Rightarrow>
    inst list \<Rightarrow> (inst \<times> next_uses) option \<Rightarrow> (inst \<times> next_uses \<times> next_uses) list option" where
  "insts_sets d la bl \<sigma> [] cur = Some []"
| "insts_sets d la bl \<sigma> (i # is) cur = do {
     (u, a) \<leftarrow> inst_sets d la bl \<sigma> cur i;
     rs \<leftarrow> insts_sets d la bl \<sigma> is (Some (i, u));
     Some ((i, u, a) # rs) }"

definition block_sets :: "'f dfg \<Rightarrow> loop_analysis \<Rightarrow> (block \<Rightarrow> next_uses) \<Rightarrow> block \<Rightarrow>
    ((inst \<times> next_uses \<times> next_uses) list \<times> next_uses) option" where
  "block_sets d la \<sigma> b = do {
     bd \<leftarrow> dfg_block d b;
     rs \<leftarrow> insts_sets d la (innermost_loop la b) \<sigma> (rev (bd_insts bd)) None;
     assert_that (rs \<noteq> []);
     Some (rs, nu_header d (fst (last rs)) (bd_params bd) (fst (snd (last rs)))) }"

text \<open>The values of an instruction and of a block.\<close>

definition inst_vals :: "'f dfg \<Rightarrow> inst \<Rightarrow> val set" where
  "inst_vals d i =
     set (inst_results d i) \<union> (case inst_data d i of None \<Rightarrow> {} | Some data \<Rightarrow> set (inst_uses data))"

definition block_vals :: "'f dfg \<Rightarrow> block \<Rightarrow> val set" where
  "block_vals d b =
     (case dfg_block d b of None \<Rightarrow> {} | Some bd \<Rightarrow> set (bd_params bd) \<union> (\<Union>i \<in> set (bd_insts bd). inst_vals d i))"

definition pair_rel :: "val set \<Rightarrow> (next_uses \<times> next_uses) option \<Rightarrow> (next_uses \<times> next_uses) option \<Rightarrow> bool" where
  "pair_rel V r r' \<longleftrightarrow>
     (case (r, r') of
        (None, None) \<Rightarrow> True
      | (Some (u, a), Some (u', a')) \<Rightarrow> nu_rel V u u' \<and> nu_rel V a a'
      | _ \<Rightarrow> False)"

lemma edge_uses_rel:
  assumes "nu_rel V s t" "set args \<subseteq> V"
  shows "pair_rel V (edge_uses d la bl b args s) (edge_uses d la bl b args t)"
proof (cases "block_params d b")
  case (Some ps)
  then show ?thesis
    using assms by (cases "is_loop_exit la bl b") (auto simp: edge_uses_def pair_rel_def Let_def intro: nu_rel)
qed (simp add: edge_uses_def pair_rel_def)

lemma jts_sets_rel:
  assumes "\<forall>b. nu_rel V (\<sigma> b) (\<tau> b)"
  shows "set (concat (map snd jts)) \<subseteq> V \<Longrightarrow> nu_rel V (fst x) (fst y) \<Longrightarrow> nu_rel V (snd x) (snd y) \<Longrightarrow>
    pair_rel V (jts_sets d la bl \<sigma> jts x) (jts_sets d la bl \<tau> jts y)"
proof (induction jts arbitrary: x y)
  case (Cons jt jts)
  have "pair_rel V (edge_uses d la bl (fst jt) (snd jt) (\<sigma> (fst jt))) (edge_uses d la bl (fst jt) (snd jt) (\<tau> (fst jt)))"
    using Cons.prems(1) assms by (intro edge_uses_rel) auto
  then consider "edge_uses d la bl (fst jt) (snd jt) (\<sigma> (fst jt)) = None" "edge_uses d la bl (fst jt) (snd jt) (\<tau> (fst jt)) = None"
    | u a u' a' where "edge_uses d la bl (fst jt) (snd jt) (\<sigma> (fst jt)) = Some (u, a)"
      "edge_uses d la bl (fst jt) (snd jt) (\<tau> (fst jt)) = Some (u', a')" "nu_rel V u u'" "nu_rel V a a'"
    by (auto simp: pair_rel_def split: option.splits prod.splits)
  then show ?case
  proof cases
    case 2
    have "pair_rel V (jts_sets d la bl \<sigma> jts (nu_union (fst x) u, nu_union (snd x) a))
        (jts_sets d la bl \<tau> jts (nu_union (fst y) u', nu_union (snd y) a'))"
      using Cons.prems 2(3,4) by (intro Cons.IH) (auto intro: nu_rel)
    with 2 show ?thesis by simp
  qed (simp add: pair_rel_def)
qed (auto simp: pair_rel_def split: prod.splits)

lemma inst_sets_rel:
  assumes "\<forall>b. nu_rel V (\<sigma> b) (\<tau> b)" "inst_vals d i \<subseteq> V"
    and cur: "rel_option (\<lambda>(j, s) (j', t). j = j' \<and> nu_rel V s t) cur cur'"
  shows "pair_rel V (inst_sets d la bl \<sigma> cur i) (inst_sets d la bl \<tau> cur' i)"
proof (cases "inst_data d i")
  case None
  then show ?thesis by (simp add: inst_sets_def pair_rel_def)
next
  case (Some data)
  have vals: "set (inst_results d i) \<subseteq> V" "set (inst_uses data) \<subseteq> V"
    "set (branch_args (analyze_branch data)) \<subseteq> V"
    using assms(2) Some by (auto simp: inst_vals_def inst_uses_def)
  have "pair_rel V (start_sets d la bl \<sigma> cur (analyze_branch data)) (start_sets d la bl \<tau> cur' (analyze_branch data))"
  proof (cases "analyze_branch data")
    case NotABranch
    then show ?thesis using cur
      by (cases cur; cases cur') (auto simp: start_sets_def pair_rel_def intro!: nu_rel)
  next
    case (SingleDest b args)
    with vals(3) assms(1) show ?thesis by (auto simp: start_sets_def branch_args_def intro: edge_uses_rel)
  next
    case (MultiDest jts)
    with vals(3) show ?thesis
      using jts_sets_rel [OF assms(1), of jts "([], [])" "([], [])" d la bl]
      by (simp add: start_sets_def branch_args_def)
  qed
  with Some vals(1,2) show ?thesis
    by (auto simp: inst_sets_def pair_rel_def split: option.splits intro!: nu_rel)
qed

end
