(* ===== verification/LivenessRun.thy ===== *)
theory LivenessRun
  imports LivenessProps
begin

text \<open>
  The worklist of the liveness analysis: a visit of a block computes the sets of LivenessProps,
  the sets at the blocks only grow, and so the worklist runs empty.
\<close>

section \<open>The sets of a block\<close>

lemma insts_sets_rel:
  assumes "\<forall>b. nu_rel V (\<sigma> b) (\<tau> b)"
  shows "(\<Union>i \<in> set is. inst_vals d i) \<subseteq> V \<Longrightarrow> rel_option (\<lambda>(j, s) (j', t). j = j' \<and> nu_rel V s t) cur cur' \<Longrightarrow>
    rel_option (list_all2 (\<lambda>(i, u, a) (j, u', a'). i = j \<and> nu_rel V u u' \<and> nu_rel V a a'))
      (insts_sets d la bl \<sigma> is cur) (insts_sets d la bl \<tau> is cur')"
proof (induction "is" arbitrary: cur cur')
  case (Cons i "is")
  have "inst_vals d i \<subseteq> V" using Cons.prems(1) by auto
  from inst_sets_rel [OF assms this Cons.prems(2), of la bl]
  consider "inst_sets d la bl \<sigma> cur i = None" "inst_sets d la bl \<tau> cur' i = None"
    | u a u' a' where "inst_sets d la bl \<sigma> cur i = Some (u, a)" "inst_sets d la bl \<tau> cur' i = Some (u', a')"
      "nu_rel V u u'" "nu_rel V a a'"
    by (auto simp: pair_rel_def split: option.splits prod.splits)
  then show ?case
  proof cases
    case 2
    have "rel_option (list_all2 (\<lambda>(i, u, a) (j, u', a'). i = j \<and> nu_rel V u u' \<and> nu_rel V a a'))
        (insts_sets d la bl \<sigma> is (Some (i, u))) (insts_sets d la bl \<tau> is (Some (i, u')))"
      using Cons.prems(1) 2(3) by (intro Cons.IH) auto
    with 2 show ?thesis by (auto simp: option_rel_Some1 elim!: option.rel_cases)
  qed simp
qed simp

lemma nu_header_rel:
  "nu_rel V s t \<Longrightarrow> set ps \<subseteq> V \<Longrightarrow> nu_rel V (nu_header d i ps s) (nu_header d i ps t)"
  unfolding nu_header_def by (intro nu_rel)

lemma insts_sets_fst: "insts_sets d la bl \<sigma> is cur = Some rs \<Longrightarrow> map fst rs = is"
  by (induction "is" arbitrary: cur rs) (auto split: bind_splits)

lemma block_sets_rel:
  assumes "\<forall>b. nu_rel V (\<sigma> b) (\<tau> b)" "block_vals d b \<subseteq> V"
  shows "rel_option (\<lambda>(rs, s) (rs', t). nu_rel V s t) (block_sets d la \<sigma> b) (block_sets d la \<tau> b)"
proof (cases "dfg_block d b")
  case (Some bd)
  have v: "(\<Union>i \<in> set (rev (bd_insts bd)). inst_vals d i) \<subseteq> V" "set (bd_params bd) \<subseteq> V"
    using assms(2) Some by (auto simp: block_vals_def)
  have "rel_option (list_all2 (\<lambda>(i, u, a) (j, u', a'). i = j \<and> nu_rel V u u' \<and> nu_rel V a a'))
      (insts_sets d la (innermost_loop la b) \<sigma> (rev (bd_insts bd)) None)
      (insts_sets d la (innermost_loop la b) \<tau> (rev (bd_insts bd)) None)"
    by (rule insts_sets_rel [OF assms(1) v(1)]) simp
  then consider "insts_sets d la (innermost_loop la b) \<sigma> (rev (bd_insts bd)) None = None"
      "insts_sets d la (innermost_loop la b) \<tau> (rev (bd_insts bd)) None = None"
    | rs rs' where "insts_sets d la (innermost_loop la b) \<sigma> (rev (bd_insts bd)) None = Some rs"
      "insts_sets d la (innermost_loop la b) \<tau> (rev (bd_insts bd)) None = Some rs'"
      "list_all2 (\<lambda>(i, u, a) (j, u', a'). i = j \<and> nu_rel V u u' \<and> nu_rel V a a') rs rs'"
    by (auto elim: option.rel_cases)
  then show ?thesis
  proof cases
    case 2
    show ?thesis
    proof (cases rs rule: rev_cases)
      case Nil
      with 2 Some show ?thesis by (simp add: block_sets_def)
    next
      case (snoc us x)
      have "length rs = length rs'" using 2(3) by (rule list_all2_lengthD)
      with snoc 2(3) obtain us' x' where "rs' = us' @ [x']" "fst x = fst x'" "nu_rel V (fst (snd x)) (fst (snd x'))"
        by (cases rs' rule: rev_cases; cases x) (auto simp: list_all2_append)
      with 2 Some snoc v(2) show ?thesis by (simp add: block_sets_def nu_header_rel)
    qed
  qed (simp add: block_sets_def Some)
qed (simp add: block_sets_def)

text \<open>What the analysis needs of a block: instructions, of which only the last branches, and
  destinations that exist, which a branch with several destinations does not share.\<close>

definition edge_ok :: "'f dfg \<Rightarrow> loop_analysis \<Rightarrow> block \<Rightarrow> block \<Rightarrow> bool" where
  "edge_ok d la b s \<longleftrightarrow> block_params d s \<noteq> None \<and> is_loop_exit la (innermost_loop la b) s \<noteq> None"

definition inst_ready :: "control_flow_graph \<Rightarrow> 'f dfg \<Rightarrow> loop_analysis \<Rightarrow> block \<Rightarrow> inst \<Rightarrow> bool" where
  "inst_ready c d la b i \<longleftrightarrow>
     (\<exists>data. inst_data d i = Some data \<and>
       (case analyze_branch data of
          NotABranch \<Rightarrow> True
        | SingleDest s _ \<Rightarrow> edge_ok d la b s
        | MultiDest jts \<Rightarrow> \<forall>jt \<in> set jts. edge_ok d la b (fst jt) \<and> num_predecessors c (fst jt) = 1))"

definition block_ready :: "control_flow_graph \<Rightarrow> 'f dfg \<Rightarrow> loop_analysis \<Rightarrow> block \<Rightarrow> bool" where
  "block_ready c d la b \<longleftrightarrow>
     (\<exists>bd. dfg_block d b = Some bd \<and> bd_insts bd \<noteq> [] \<and> distinct (bd_insts bd) \<and>
       (\<forall>i \<in> set (bd_insts bd). inst_ready c d la b i))"

lemma edge_uses_total: "edge_ok d la b s \<Longrightarrow> \<exists>u a. edge_uses d la (innermost_loop la b) s args x = Some (u, a)"
  by (auto simp: edge_ok_def edge_uses_def Let_def)

lemma jts_sets_total:
  "\<forall>jt \<in> set jts. edge_ok d la b (fst jt) \<Longrightarrow> \<exists>u a. jts_sets d la (innermost_loop la b) \<sigma> jts acc = Some (u, a)"
proof (induction jts arbitrary: acc)
  case Nil
  show ?case by (cases acc) simp
next
  case (Cons jt jts)
  from Cons.prems have "edge_ok d la b (fst jt)" by simp
  from edge_uses_total [OF this] obtain u a where
    "edge_uses d la (innermost_loop la b) (fst jt) (snd jt) (\<sigma> (fst jt)) = Some (u, a)" by blast
  with Cons.IH Cons.prems show ?case by simp
qed

lemma inst_sets_total:
  "inst_ready c d la b i \<Longrightarrow> \<exists>u a. inst_sets d la (innermost_loop la b) \<sigma> cur i = Some (u, a)"
proof -
  assume "inst_ready c d la b i"
  then obtain data where data: "inst_data d i = Some data"
    "case analyze_branch data of NotABranch \<Rightarrow> True | SingleDest s _ \<Rightarrow> edge_ok d la b s
     | MultiDest jts \<Rightarrow> \<forall>jt \<in> set jts. edge_ok d la b (fst jt) \<and> num_predecessors c (fst jt) = 1"
    by (auto simp: inst_ready_def)
  have "\<exists>u a. start_sets d la (innermost_loop la b) \<sigma> cur (analyze_branch data) = Some (u, a)"
    using data(2) edge_uses_total [of d la b] jts_sets_total [of _ d la b]
    by (cases "analyze_branch data"; cases cur) (auto simp: start_sets_def)
  with data(1) show ?thesis by (auto simp: inst_sets_def)
qed

lemma insts_sets_total:
  "\<forall>i \<in> set is. inst_ready c d la b i \<Longrightarrow> \<exists>rs. insts_sets d la (innermost_loop la b) \<sigma> is cur = Some rs"
proof (induction "is" arbitrary: cur)
  case (Cons i "is")
  obtain u a where "inst_sets d la (innermost_loop la b) \<sigma> cur i = Some (u, a)"
    using inst_sets_total Cons.prems by (metis list.set_intros(1))
  moreover have "\<exists>rs. insts_sets d la (innermost_loop la b) \<sigma> is (Some (i, u)) = Some rs"
    using Cons.prems by (intro Cons.IH) simp
  ultimately show ?case by auto
qed simp

section \<open>A visit\<close>

definition in_of :: "liveness \<Rightarrow> program_point \<Rightarrow> next_uses" where
  "in_of lv pp = (case map_of (lv_in lv) pp of Some s \<Rightarrow> s | None \<Rightarrow> [])"

lemma map_of_alist_update [simp]: "map_of (AList.update k v xs) = (map_of xs)(k \<mapsto> v)"
  by (rule ext) (simp add: update_conv)

lemma lv_entry_eq:
  assumes "lv_entry pp lv = (s, lv')"
  shows "s = in_of lv pp" "in_of lv' = in_of lv" "lv_out lv' = lv_out lv" "lv_pressure lv' = lv_pressure lv"
    "q \<noteq> pp \<Longrightarrow> map_of (lv_in lv') q = map_of (lv_in lv) q"
    "map_of (lv_in lv) q = Some x \<Longrightarrow> map_of (lv_in lv') q = Some x"
proof -
  show "in_of lv' = in_of lv"
    using assms by (auto simp: lv_entry_def in_of_def fun_eq_iff split: option.splits if_splits)
qed (use assms in \<open>auto simp: lv_entry_def in_of_def split: option.splits\<close>)

text \<open>A state that agrees with another outside some instructions and keeps all entries.\<close>

definition lv_agree :: "inst set \<Rightarrow> liveness \<Rightarrow> liveness \<Rightarrow> bool" where
  "lv_agree I lv lv' \<longleftrightarrow>
     (\<forall>q. (\<forall>i \<in> I. q \<noteq> PpInst i) \<longrightarrow> in_of lv' q = in_of lv q \<and> map_of (lv_out lv') q = map_of (lv_out lv) q \<and>
        (\<forall>x. map_of (lv_in lv) q = Some x \<longrightarrow> map_of (lv_in lv') q = Some x)) \<and>
     lv_pressure lv' = lv_pressure lv"

lemma lv_agree_refl [simp]: "lv_agree I lv lv"
  by (simp add: lv_agree_def)

lemma lv_agree_trans:
  "lv_agree I lv lv1 \<Longrightarrow> lv_agree J lv1 lv2 \<Longrightarrow> lv_agree (I \<union> J) lv lv2"
  unfolding lv_agree_def by auto

lemma lv_agree_entry: "lv_entry pp lv = (s, lv') \<Longrightarrow> lv_agree I lv lv'"
  using lv_entry_eq [of pp lv s lv'] by (auto simp: lv_agree_def)

lemma lv_agree_set: "lv_agree {i} lv (lv_set (PpInst i) u a lv)"
  by (auto simp: lv_agree_def lv_set_def in_of_def)

end
