(* ===== verification/LivenessWay.thy ===== *)
theory LivenessWay
  imports LivenessRun
begin

text \<open>
  The ways to a use: what the distances of the liveness analysis are, and that they are right.
\<close>

section \<open>A visit computes the sets of the block\<close>

lemma in_of_Some: "map_of (lv_in lv) pp = Some s \<Longrightarrow> in_of lv pp = s"
  by (simp add: in_of_def)

lemma agree_block: "lv_agree I lv lv' \<Longrightarrow> in_of lv' (PpBlock b) = in_of lv (PpBlock b)"
  by (simp add: lv_agree_def)

lemma jump_table_uses_eq:
  assumes "\<forall>jt \<in> set jts. num_predecessors c (fst jt) = 1" "\<forall>b. in_of lv (PpBlock b) = \<sigma> b"
    "jts_sets d la bl \<sigma> jts acc = Some r"
  shows "\<exists>lv'. jump_table_uses c d la bl jts acc lv = Some (r, lv') \<and> lv_agree {} lv lv'"
  using assms
proof (induction jts arbitrary: acc lv)
  case (Cons jt jts)
  obtain s lv1 where e: "lv_entry (PpBlock (fst jt)) lv = (s, lv1)" by fastforce
  have s: "s = \<sigma> (fst jt)" using lv_entry_eq(1) [OF e] Cons.prems(2) by simp
  have a: "lv_agree {} lv lv1" by (rule lv_agree_entry [OF e])
  obtain u v where uv: "edge_uses d la bl (fst jt) (snd jt) (\<sigma> (fst jt)) = Some (u, v)"
    "jts_sets d la bl \<sigma> jts (nu_union (fst acc) u, nu_union (snd acc) v) = Some r"
    using Cons.prems(3) by (auto split: bind_splits)
  have "\<exists>lv'. jump_table_uses c d la bl jts (nu_union (fst acc) u, nu_union (snd acc) v) lv1 = Some (r, lv') \<and>
      lv_agree {} lv1 lv'"
    using Cons.prems(1,2) agree_block [OF a] uv(2) by (intro Cons.IH) auto
  then obtain lv' where "jump_table_uses c d la bl jts (nu_union (fst acc) u, nu_union (snd acc) v) lv1 = Some (r, lv')"
    "lv_agree {} lv1 lv'" by blast
  with e s uv(1) Cons.prems(1) lv_agree_trans [OF a, of "{}" lv'] show ?case by simp
qed simp

definition cur_of :: "liveness \<Rightarrow> inst option \<Rightarrow> (inst \<times> next_uses) option" where
  "cur_of lv so = map_option (\<lambda>j. (j, in_of lv (PpInst j))) so"

lemma initial_uses_eq:
  assumes "case info of MultiDest jts \<Rightarrow> \<forall>jt \<in> set jts. num_predecessors c (fst jt) = 1 | _ \<Rightarrow> True"
    "\<forall>b. in_of lv (PpBlock b) = \<sigma> b" "start_sets d la bl \<sigma> (cur_of lv so) info = Some r"
  shows "\<exists>lv'. initial_uses c d la bl so info lv = Some (r, lv') \<and> lv_agree {} lv lv'"
proof (cases info)
  case NotABranch
  show ?thesis
  proof (cases so)
    case (Some j)
    obtain s lv1 where e: "lv_entry (PpInst j) lv = (s, lv1)" by fastforce
    with NotABranch Some assms(3) lv_entry_eq(1) [OF e] lv_agree_entry [OF e] show ?thesis
      by (auto simp: initial_uses_def start_sets_def cur_of_def Let_def)
  qed (use NotABranch assms(3) in \<open>simp add: initial_uses_def start_sets_def cur_of_def\<close>)
next
  case (SingleDest b args)
  obtain s lv1 where e: "lv_entry (PpBlock b) lv = (s, lv1)" by fastforce
  with SingleDest assms(2,3) lv_entry_eq(1) [OF e] lv_agree_entry [OF e] show ?thesis
    by (auto simp: initial_uses_def start_sets_def)
next
  case (MultiDest jts)
  with assms jump_table_uses_eq [of jts c lv \<sigma> d la bl "([], [])" r] show ?thesis
    by (simp add: initial_uses_def start_sets_def)
qed

lemma visit_inst_eq:
  assumes "inst_ready c d la b i" "\<forall>b. in_of lv (PpBlock b) = \<sigma> b"
    "inst_sets d la bl \<sigma> (cur_of lv so) i = Some (u, a)"
  shows "\<exists>lv' p'. visit_inst c d la bl so i (lv, p) = Some (lv', p') \<and> lv_agree {i} lv lv' \<and>
    map_of (lv_in lv') (PpInst i) = Some u \<and> map_of (lv_out lv') (PpInst i) = Some a"
proof -
  obtain data u0 a0 where data: "inst_data d i = Some data"
    and r: "start_sets d la bl \<sigma> (cur_of lv so) (analyze_branch data) = Some (u0, a0)"
    "u = fold (\<lambda>v. nu_insert v 0) (inst_uses data) (fold (\<lambda>v. nu_or_insert v u32_MAX) (inst_results d i) u0)"
    "a = fold (\<lambda>v. nu_or_insert v u32_MAX) (inst_results d i) a0"
    using assms(3) by (auto simp: inst_sets_def split: bind_splits)
  have "case analyze_branch data of MultiDest jts \<Rightarrow> \<forall>jt \<in> set jts. num_predecessors c (fst jt) = 1 | _ \<Rightarrow> True"
    using assms(1) data by (auto simp: inst_ready_def split: branch_info.splits)
  from initial_uses_eq [OF this assms(2) r(1)] obtain lv1 where
    lv1: "initial_uses c d la bl so (analyze_branch data) lv = Some ((u0, a0), lv1)" "lv_agree {} lv lv1" by blast
  with data r lv_agree_trans [OF lv1(2) lv_agree_set, of i u a] show ?thesis
    by (simp add: visit_inst_def Let_def lv_set_def)
qed

lemma cur_of_agree: "lv_agree I lv lv' \<Longrightarrow> \<forall>j. so = Some j \<longrightarrow> j \<notin> I \<Longrightarrow> cur_of lv' so = cur_of lv so"
  by (auto simp: cur_of_def lv_agree_def intro!: map_option_cong)

lemma visit_insts_eq:
  assumes "\<forall>i \<in> set is. inst_ready c d la b i" "\<forall>b. in_of lv (PpBlock b) = \<sigma> b"
    "insts_sets d la bl \<sigma> is (cur_of lv so) = Some rs" "distinct is"
  shows "\<exists>lv' p'. visit_insts c d la bl so is (lv, p) = Some (lv', p') \<and> lv_agree (set is) lv lv' \<and>
    (\<forall>(i, u, a) \<in> set rs. map_of (lv_in lv') (PpInst i) = Some u \<and> map_of (lv_out lv') (PpInst i) = Some a)"
  using assms
proof (induction "is" arbitrary: so lv p rs)
  case (Cons i "is")
  obtain u a rs' where r: "inst_sets d la bl \<sigma> (cur_of lv so) i = Some (u, a)"
    "insts_sets d la bl \<sigma> is (Some (i, u)) = Some rs'" "rs = (i, u, a) # rs'"
    using Cons.prems(3) by (auto split: bind_splits)
  have "inst_ready c d la b i" using Cons.prems(1) by simp
  from visit_inst_eq [OF this Cons.prems(2) r(1), of p] obtain lv1 p1 where
    v: "visit_inst c d la bl so i (lv, p) = Some (lv1, p1)" "lv_agree {i} lv lv1"
    "map_of (lv_in lv1) (PpInst i) = Some u" "map_of (lv_out lv1) (PpInst i) = Some a" by blast
  have "insts_sets d la bl \<sigma> is (cur_of lv1 (Some i)) = Some rs'"
    using r(2) v(3) by (simp add: cur_of_def in_of_Some)
  moreover have "\<forall>b. in_of lv1 (PpBlock b) = \<sigma> b" using agree_block [OF v(2)] Cons.prems(2) by simp
  ultimately have "\<exists>lv' p'. visit_insts c d la bl (Some i) is (lv1, p1) = Some (lv', p') \<and> lv_agree (set is) lv1 lv' \<and>
    (\<forall>(i, u, a) \<in> set rs'. map_of (lv_in lv') (PpInst i) = Some u \<and> map_of (lv_out lv') (PpInst i) = Some a)"
    using Cons.prems(1,4) by (intro Cons.IH) auto
  then obtain lv' p' where l: "visit_insts c d la bl (Some i) is (lv1, p1) = Some (lv', p')" "lv_agree (set is) lv1 lv'"
    "\<forall>(i, u, a) \<in> set rs'. map_of (lv_in lv') (PpInst i) = Some u \<and> map_of (lv_out lv') (PpInst i) = Some a" by blast
  have "map_of (lv_in lv') (PpInst i) = Some u" "map_of (lv_out lv') (PpInst i) = Some a"
    using l(2) v(3,4) Cons.prems(4) by (auto simp: lv_agree_def)
  with l v(1) r(3) lv_agree_trans [OF v(2) l(2)] show ?case by auto
qed simp

text \<open>The points of a block.\<close>

definition points :: "'f dfg \<Rightarrow> block \<Rightarrow> program_point set" where
  "points d b = insert (PpBlock b) (case dfg_block d b of None \<Rightarrow> {} | Some bd \<Rightarrow> PpInst ` set (bd_insts bd))"

text \<open>The sets of a block are those that the sets at the blocks give.\<close>

definition settled :: "'f dfg \<Rightarrow> loop_analysis \<Rightarrow> liveness \<Rightarrow> (block \<Rightarrow> next_uses) \<Rightarrow> block \<Rightarrow> bool" where
  "settled d la lv \<sigma> b \<longleftrightarrow>
     (\<exists>rs s. block_sets d la \<sigma> b = Some (rs, s) \<and> map_of (lv_in lv) (PpBlock b) = Some s \<and>
       (\<forall>(i, u, a) \<in> set rs. map_of (lv_in lv) (PpInst i) = Some u))"

lemma visit_block_eq:
  assumes ready: "block_ready c d la b" and \<sigma>: "\<sigma> = (\<lambda>b. in_of lv (PpBlock b))"
  shows "\<exists>again lv' rs s. visit_block c d la b lv = Some (again, lv') \<and> block_sets d la \<sigma> b = Some (rs, s) \<and>
    (again \<longrightarrow> map_of (lv_in lv) (PpBlock b) \<noteq> Some s) \<and> (\<not> again \<longrightarrow> \<sigma> b = s) \<and> settled d la lv' \<sigma> b \<and>
    (\<forall>q. q \<notin> points d b \<longrightarrow> in_of lv' q = in_of lv q) \<and>
    (\<forall>q x. q \<notin> points d b \<longrightarrow> map_of (lv_in lv) q = Some x \<longrightarrow> map_of (lv_in lv') q = Some x)"
proof -
  obtain bd where bd: "dfg_block d b = Some bd" "bd_insts bd \<noteq> []" "distinct (bd_insts bd)"
    "\<forall>i \<in> set (rev (bd_insts bd)). inst_ready c d la b i"
    using ready by (auto simp: block_ready_def)
  define bl where "bl = innermost_loop la b"
  obtain rs where rs: "insts_sets d la bl \<sigma> (rev (bd_insts bd)) None = Some rs"
    using insts_sets_total [OF bd(4)] bl_def by blast
  have fst_rs: "map fst rs = rev (bd_insts bd)" by (rule insts_sets_fst [OF rs])
  have ne: "rs \<noteq> []" using fst_rs bd(2) by auto
  obtain i u a where last_rs: "last rs = (i, u, a)" by (cases "last rs")
  obtain i' u' a' where hd_rs: "hd rs = (i', u', a')" by (cases "hd rs")
  have in_rs: "(i, u, a) \<in> set rs" "(i', u', a') \<in> set rs" using last_rs hd_rs ne by (metis last_in_set) (metis hd_in_set hd_rs ne)
  have first: "bd_first bd = Some i" 
    using arg_cong [OF fst_rs, of last] ne last_rs bd(2) by (cases "bd_insts bd") (auto simp: bd_first_def last_map last_rev)
  have last: "bd_last bd = Some i'"
    using arg_cong [OF fst_rs, of hd] ne hd_rs bd(2) by (simp add: bd_last_def hd_map hd_rev)
  have "\<forall>b. in_of lv (PpBlock b) = \<sigma> b" "insts_sets d la bl \<sigma> (rev (bd_insts bd)) (cur_of lv None) = Some rs"
    "distinct (rev (bd_insts bd))"
    using \<sigma> rs bd(3) by (simp_all add: cur_of_def)
  from visit_insts_eq [OF bd(4) this, of 0] obtain lv1 p where
    v: "visit_insts c d la bl None (rev (bd_insts bd)) (lv, 0) = Some (lv1, p)"
    "lv_agree (set (bd_insts bd)) lv lv1"
    "\<forall>(i, u, a) \<in> set rs. map_of (lv_in lv1) (PpInst i) = Some u \<and> map_of (lv_out lv1) (PpInst i) = Some a"
    by (auto simp only: set_rev)
  have at: "map_of (lv_in lv1) (PpInst i) = Some u" "map_of (lv_out lv1) (PpInst i') = Some a'"
    using v(3) in_rs by auto
  define s where "s = nu_header d i (bd_params bd) u"
  define again where "again = (map_of (lv_in lv1) (PpBlock b) \<noteq> Some s)"
  define lv2 where "lv2 = (lv_set (PpBlock b) s a' lv1)\<lparr>lv_pressure := AList.update b p (lv_pressure lv1)\<rparr>"
  have "visit_block c d la b lv = Some (again, lv2)"
    using bd(1) v(1) first last at
    by (simp add: visit_block_def Let_def bl_def s_def again_def lv2_def lv_set_def)
  moreover have bs: "block_sets d la \<sigma> b = Some (rs, s)"
    using bd(1) rs ne last_rs by (simp add: block_sets_def bl_def s_def)
  moreover have "settled d la lv2 \<sigma> b"
    using bs v(3) by (fastforce simp: settled_def lv2_def lv_set_def in_of_def)
  moreover have "\<forall>q. q \<notin> points d b \<longrightarrow> in_of lv2 q = in_of lv q"
    using v(2) bd(1) by (auto simp: points_def lv2_def lv_set_def lv_agree_def in_of_def image_iff)
  moreover have "again \<longrightarrow> map_of (lv_in lv) (PpBlock b) \<noteq> Some s"
    using v(2) by (auto simp: again_def lv_agree_def)
  moreover have "\<not> again \<longrightarrow> \<sigma> b = s"
    using agree_block [OF v(2), of b] \<sigma> by (auto simp: again_def in_of_def)
  moreover have "\<forall>q x. q \<notin> points d b \<longrightarrow> map_of (lv_in lv) q = Some x \<longrightarrow> map_of (lv_in lv2) q = Some x"
    using v(2) bd(1) by (auto simp: points_def lv2_def lv_set_def lv_agree_def image_iff)
  ultimately show ?thesis by blast
qed

section \<open>Ways to a use\<close>

definition branch_edges :: "branch_info \<Rightarrow> (block \<times> val list) list" where
  "branch_edges info = (case info of NotABranch \<Rightarrow> [] | SingleDest b args \<Rightarrow> [(b, args)] | MultiDest jts \<Rightarrow> jts)"

text \<open>
  \<open>way d la pp v n\<close>: from \<open>pp\<close> a use of the value \<open>v\<close> is \<open>n\<close> away.  Every instruction on the way
  counts one, an edge that leaves a loop counts \<open>LOOP_EXIT_DISTANCE\<close>, other edges count nothing;
  on the way \<open>v\<close> is not defined again.
\<close>

inductive way :: "'f dfg \<Rightarrow> loop_analysis \<Rightarrow> program_point \<Rightarrow> val \<Rightarrow> nat \<Rightarrow> bool" for d la where
  way_use: "inst_data d i = Some data \<Longrightarrow> v \<in> set (inst_uses data) \<Longrightarrow> way d la (PpInst i) v 0"
| way_next: "dfg_block d b = Some bd \<Longrightarrow> bd_insts bd = xs @ i # j # ys \<Longrightarrow> inst_data d i = Some data \<Longrightarrow>
    analyze_branch data = NotABranch \<Longrightarrow> v \<notin> set (inst_results d j) \<Longrightarrow> way d la (PpInst j) v n \<Longrightarrow>
    way d la (PpInst i) v (Suc n)"
| way_edge: "dfg_block d b = Some bd \<Longrightarrow> i \<in> set (bd_insts bd) \<Longrightarrow> inst_data d i = Some data \<Longrightarrow>
    (s, args) \<in> set (branch_edges (analyze_branch data)) \<Longrightarrow> block_params d s = Some ps \<Longrightarrow> v \<notin> set ps \<Longrightarrow>
    is_loop_exit la (innermost_loop la b) s = Some exits \<Longrightarrow> way d la (PpBlock s) v n \<Longrightarrow>
    way d la (PpInst i) v (n + (if exits then LOOP_EXIT_DISTANCE else 0))"
| way_enter: "dfg_block d b = Some bd \<Longrightarrow> bd_first bd = Some i \<Longrightarrow> v \<notin> set (inst_results d i) \<Longrightarrow>
    way d la (PpInst i) v n \<Longrightarrow> way d la (PpBlock b) v n"

text \<open>The distances over one edge and over all edges of a branch.\<close>

lemma edge_uses_get:
  assumes "edge_uses d la bl s args \<sigma>s = Some (u, a)" "block_params d s = Some ps" "is_loop_exit la bl s = Some exits"
    "v \<notin> set args" "v \<notin> set ps"
  shows "map_of u v = map_option (\<lambda>m. if exits then sat_add m LOOP_EXIT_DISTANCE else m) (map_of \<sigma>s v)"
  using assms by (cases exits) (auto simp: edge_uses_def propagate_args_get option.map_ident)

lemma edge_uses_params:
  assumes "edge_uses d la bl s args \<sigma>s = Some (u, a)" "block_params d s = Some ps" "v \<in> set ps"
  shows "map_of u v = None"
  using assms by (auto simp: edge_uses_def Let_def split: bind_splits if_splits)

lemma jts_sets_sound:
  "jts_sets d la bl \<sigma> jts acc = Some (u, a) \<Longrightarrow> \<forall>b. nu_ok V (\<sigma> b) \<Longrightarrow> set (concat (map snd jts)) \<subseteq> V \<Longrightarrow>
   map_of u v = Some m \<Longrightarrow>
   map_of (fst acc) v = Some m \<or>
   (\<exists>(s, args) \<in> set jts. \<exists>u' a'. edge_uses d la bl s args (\<sigma> s) = Some (u', a') \<and> map_of u' v = Some m)"
proof (induction jts arbitrary: acc)
  case (Cons jt jts)
  obtain u1 a1 where e: "edge_uses d la bl (fst jt) (snd jt) (\<sigma> (fst jt)) = Some (u1, a1)"
    "jts_sets d la bl \<sigma> jts (nu_union (fst acc) u1, nu_union (snd acc) a1) = Some (u, a)"
    using Cons.prems(1) by (auto split: bind_splits)
  have "nu_ok V u1"
    using edge_uses_rel [of V "\<sigma> (fst jt)" "\<sigma> (fst jt)" "snd jt" d la bl "fst jt"] e(1) Cons.prems(2,3)
    by (simp add: pair_rel_def)
  then have un: "map_of (nu_union (fst acc) u1) v = min_dist (map_of (fst acc) v) (map_of u1 v)"
    by (simp add: nu_union_get map_sorted_distinct_keys nu_ok_sorted)
  have "map_of (nu_union (fst acc) u1) v = Some m \<or>
    (\<exists>(s, args) \<in> set jts. \<exists>u' a'. edge_uses d la bl s args (\<sigma> s) = Some (u', a') \<and> map_of u' v = Some m)"
    using Cons.IH [OF e(2)] Cons.prems(2-4) by simp
  then show ?case
  proof
    assume "map_of (nu_union (fst acc) u1) v = Some m"
    with un have "map_of (fst acc) v = Some m \<or> map_of u1 v = Some m"
      by (auto simp: min_dist_def min_def split: option.splits if_splits)
    with e(1) show ?thesis by (cases jt) auto
  qed auto
qed auto

lemma jts_sets_complete:
  "jts_sets d la bl \<sigma> jts acc = Some (u, a) \<Longrightarrow> \<forall>b. nu_ok V (\<sigma> b) \<Longrightarrow> set (concat (map snd jts)) \<subseteq> V \<Longrightarrow>
   map_of (fst acc) v = Some m \<or>
   (\<exists>(s, args) \<in> set jts. \<exists>u' a'. edge_uses d la bl s args (\<sigma> s) = Some (u', a') \<and> map_of u' v = Some m) \<Longrightarrow>
   \<exists>k \<le> m. map_of u v = Some k"
proof (induction jts arbitrary: acc m)
  case (Cons jt jts)
  obtain u1 a1 where e: "edge_uses d la bl (fst jt) (snd jt) (\<sigma> (fst jt)) = Some (u1, a1)"
    "jts_sets d la bl \<sigma> jts (nu_union (fst acc) u1, nu_union (snd acc) a1) = Some (u, a)"
    using Cons.prems(1) by (auto split: bind_splits)
  have "nu_ok V u1"
    using edge_uses_rel [of V "\<sigma> (fst jt)" "\<sigma> (fst jt)" "snd jt" d la bl "fst jt"] e(1) Cons.prems(2,3)
    by (simp add: pair_rel_def)
  then have un: "map_of (nu_union (fst acc) u1) v = min_dist (map_of (fst acc) v) (map_of u1 v)"
    by (simp add: nu_union_get map_sorted_distinct_keys nu_ok_sorted)
  note IH = Cons.IH [OF e(2) Cons.prems(2)]
  consider "map_of (fst acc) v = Some m \<or> map_of u1 v = Some m"
    | "\<exists>(s, args) \<in> set jts. \<exists>u' a'. edge_uses d la bl s args (\<sigma> s) = Some (u', a') \<and> map_of u' v = Some m"
    using Cons.prems(4) e(1) by (cases jt) auto
  then show ?case
  proof cases
    case 1
    with un have "\<exists>k \<le> m. map_of (nu_union (fst acc) u1) v = Some k"
      by (auto simp: min_dist_def split: option.splits)
    then obtain k where "k \<le> m" "map_of (nu_union (fst acc) u1) v = Some k" by blast
    moreover from this(2) IH [of k] Cons.prems(3) obtain k' where "k' \<le> k" "map_of u v = Some k'" by auto
    ultimately show ?thesis using le_trans by blast
  qed (use IH [of m] Cons.prems(3) in auto)
qed auto


lemma start_edges_sound:
  assumes "start_sets d la bl \<sigma> cur info = Some (u, a)" "info \<noteq> NotABranch" "\<forall>b. nu_ok V (\<sigma> b)"
    "set (branch_args info) \<subseteq> V" "map_of u v = Some m"
  shows "\<exists>(s, args) \<in> set (branch_edges info). \<exists>u' a'. edge_uses d la bl s args (\<sigma> s) = Some (u', a') \<and> map_of u' v = Some m"
proof (cases info)
  case (MultiDest jts)
  with assms jts_sets_sound [of d la bl \<sigma> jts "([], [])" u a V v m] show ?thesis
    by (simp add: start_sets_def branch_edges_def branch_args_def)
qed (use assms in \<open>auto simp: start_sets_def branch_edges_def\<close>)

lemma start_edges_complete:
  assumes "start_sets d la bl \<sigma> cur info = Some (u, a)" "\<forall>b. nu_ok V (\<sigma> b)"
    "set (branch_args info) \<subseteq> V" "(s, args) \<in> set (branch_edges info)"
    "edge_uses d la bl s args (\<sigma> s) = Some (u', a')" "map_of u' v = Some m"
  shows "\<exists>k \<le> m. map_of u v = Some k"
proof (cases info)
  case (MultiDest jts)
  with assms jts_sets_complete [of d la bl \<sigma> jts "([], [])" u a V v m] show ?thesis
    by (auto simp: start_sets_def branch_edges_def branch_args_def)
qed (use assms in \<open>auto simp: start_sets_def branch_edges_def\<close>)

lemma jts_sets_edge:
  "jts_sets d la bl \<sigma> jts acc = Some r \<Longrightarrow> (s, args) \<in> set jts \<Longrightarrow>
   \<exists>u' a'. edge_uses d la bl s args (\<sigma> s) = Some (u', a')"
  by (induction jts arbitrary: acc) (auto split: bind_splits)

lemma start_sets_edge:
  "start_sets d la bl \<sigma> cur info = Some r \<Longrightarrow> (s, args) \<in> set (branch_edges info) \<Longrightarrow>
   \<exists>u' a'. edge_uses d la bl s args (\<sigma> s) = Some (u', a')"
  by (cases info; cases r) (auto simp: start_sets_def branch_edges_def dest: jts_sets_edge)

text \<open>The distances at one instruction.\<close>

lemma inst_sets_get:
  assumes "inst_sets d la bl \<sigma> cur i = Some (u, a)"
  obtains data u0 a0 where "inst_data d i = Some data"
    "start_sets d la bl \<sigma> cur (analyze_branch data) = Some (u0, a0)"
    "\<And>v. map_of u v = (if v \<in> set (inst_uses data) then Some 0
       else if v \<in> set (inst_results d i) \<and> map_of u0 v = None then Some u32_MAX else map_of u0 v)"
  using assms that by (auto simp: inst_sets_def split: bind_splits)

definition sound_at :: "'f dfg \<Rightarrow> loop_analysis \<Rightarrow> program_point \<Rightarrow> next_uses \<Rightarrow> bool" where
  "sound_at d la pp s \<longleftrightarrow> (\<forall>v n. map_of s v = Some n \<longrightarrow> n < u32_MAX \<longrightarrow> way d la pp v n)"

definition before :: "block_data \<Rightarrow> inst \<Rightarrow> inst \<Rightarrow> bool" where
  "before bd i j \<longleftrightarrow> (\<exists>xs ys. bd_insts bd = xs @ i # j # ys)"

lemma inst_sets_sound:
  assumes sets: "inst_sets d la (innermost_loop la b) \<sigma> cur i = Some (u, a)"
    and ok: "\<forall>b. nu_ok V (\<sigma> b)" "inst_vals d i \<subseteq> V" "\<forall>s. sound_at d la (PpBlock s) (\<sigma> s)"
    and b: "dfg_block d b = Some bd" "i \<in> set (bd_insts bd)"
    and cur: "\<And>j t. cur = Some (j, t) \<Longrightarrow> before bd i j \<and> sound_at d la (PpInst j) t"
  shows "sound_at d la (PpInst i) u"
  unfolding sound_at_def
proof (intro allI impI)
  fix v n assume n: "map_of u v = Some n" "n < u32_MAX"
  obtain data u0 a0 where data: "inst_data d i = Some data"
    "start_sets d la (innermost_loop la b) \<sigma> cur (analyze_branch data) = Some (u0, a0)"
    "\<And>v. map_of u v = (if v \<in> set (inst_uses data) then Some 0
       else if v \<in> set (inst_results d i) \<and> map_of u0 v = None then Some u32_MAX else map_of u0 v)"
    using inst_sets_get [OF sets] by blast
  show "way d la (PpInst i) v n"
  proof (cases "v \<in> set (inst_uses data)")
    case True
    with data(3) n way_use [OF data(1) True] show ?thesis by simp
  next
    case False
    with data(3) [of v] n have u0: "map_of u0 v = Some n" by (auto split: if_splits)
    show ?thesis
    proof (cases "analyze_branch data = NotABranch")
      case True
      with data(2) u0 obtain j t where c: "cur = Some (j, t)" "u0 = nu_remove_all (inst_results d j) (nu_add 1 t)"
        by (auto simp: start_sets_def split: option.splits)
      with u0 obtain m where m: "map_of t v = Some m" "n = sat_add m 1" "v \<notin> set (inst_results d j)"
        by (auto split: if_splits)
      with n(2) have "n = Suc m" "m < u32_MAX" by (auto simp: sat_add_def)
      moreover from this cur [OF c(1)] m(1) have "way d la (PpInst j) v m" by (auto simp: sound_at_def)
      ultimately show ?thesis using cur [OF c(1)] way_next [OF b(1) _ data(1) True m(3)] by (auto simp: before_def)
    next
      case False
      have "set (branch_args (analyze_branch data)) \<subseteq> V" using ok(2) data(1) by (auto simp: inst_vals_def inst_uses_def)
      from start_edges_sound [OF data(2) False ok(1) this u0] obtain s args u' a' where
        e: "(s, args) \<in> set (branch_edges (analyze_branch data))"
        "edge_uses d la (innermost_loop la b) s args (\<sigma> s) = Some (u', a')" "map_of u' v = Some n" by blast
      obtain ps exits where s: "block_params d s = Some ps" "is_loop_exit la (innermost_loop la b) s = Some exits"
        using e(2) by (auto simp: edge_uses_def Let_def split: bind_splits)
      have nv: "v \<notin> set args"
        using \<open>v \<notin> set (inst_uses data)\<close> e(1)
        by (fastforce simp: inst_uses_def branch_args_def branch_edges_def split: branch_info.splits)
      have np: "v \<notin> set ps" using edge_uses_params [OF e(2) s(1)] e(3) by auto
      have "map_option (\<lambda>m. if exits then sat_add m LOOP_EXIT_DISTANCE else m) (map_of (\<sigma> s) v) = Some n"
        using edge_uses_get [OF e(2) s nv np] e(3) by simp
      then obtain m where m: "map_of (\<sigma> s) v = Some m" "n = (if exits then sat_add m LOOP_EXIT_DISTANCE else m)" by auto
      with n(2) have "n = m + (if exits then LOOP_EXIT_DISTANCE else 0)" "m < u32_MAX"
        by (auto simp: sat_add_def split: if_splits)
      with ok(3) m(1) way_edge [OF b data(1) e(1) s(1) np s(2)] show ?thesis by (auto simp: sound_at_def)
    qed
  qed
qed

lemma insts_sets_sound:
  assumes ok: "\<forall>b. nu_ok V (\<sigma> b)" "\<forall>s. sound_at d la (PpBlock s) (\<sigma> s)"
    and b: "dfg_block d b = Some bd"
  shows "insts_sets d la (innermost_loop la b) \<sigma> is cur = Some rs \<Longrightarrow> (\<Union>i \<in> set is. inst_vals d i) \<subseteq> V \<Longrightarrow>
    bd_insts bd = rev is @ ys \<Longrightarrow>
    (\<And>j t. cur = Some (j, t) \<Longrightarrow> ys \<noteq> [] \<and> hd ys = j \<and> nu_ok V t \<and> sound_at d la (PpInst j) t) \<Longrightarrow>
    \<forall>(i, u, a) \<in> set rs. sound_at d la (PpInst i) u"
proof (induction "is" arbitrary: cur rs ys)
  case (Cons i "is")
  obtain u a rs' where r: "inst_sets d la (innermost_loop la b) \<sigma> cur i = Some (u, a)"
    "insts_sets d la (innermost_loop la b) \<sigma> is (Some (i, u)) = Some rs'" "rs = (i, u, a) # rs'"
    using Cons.prems(1) by (auto split: bind_splits)
  have "before bd i j" if "cur = Some (j, t)" for j t
    using Cons.prems(3) Cons.prems(4) [OF that] by (cases ys) (auto simp: before_def)
  then have u: "sound_at d la (PpInst i) u"
    using Cons.prems(2-4) by (intro inst_sets_sound [OF r(1) ok(1) _ ok(2) b]) auto
  have "rel_option (\<lambda>(j, s) (j', t). j = j' \<and> nu_rel V s t) cur cur"
    using Cons.prems(4) by (cases cur) auto
  then have "nu_ok V u"
    using inst_sets_rel [of V \<sigma> \<sigma> d i cur cur la "innermost_loop la b"] ok(1) r(1) Cons.prems(2)
    by (simp add: pair_rel_def)
  with u Cons.prems(2,3) have "\<forall>(i, u, a) \<in> set rs'. sound_at d la (PpInst i) u"
    by (intro Cons.IH [OF r(2), of "i # ys"]) auto
  with u r(3) show ?case by simp
qed simp

lemma block_sets_sound:
  assumes ok: "\<forall>b. nu_ok V (\<sigma> b)" "\<forall>s. sound_at d la (PpBlock s) (\<sigma> s)" "block_vals d b \<subseteq> V"
    and sets: "block_sets d la \<sigma> b = Some (rs, s)"
  shows "(\<forall>(i, u, a) \<in> set rs. sound_at d la (PpInst i) u) \<and> sound_at d la (PpBlock b) s"
proof -
  obtain bd where b: "dfg_block d b = Some bd"
    and rs: "insts_sets d la (innermost_loop la b) \<sigma> (rev (bd_insts bd)) None = Some rs" "rs \<noteq> []"
    and s: "s = nu_header d (fst (last rs)) (bd_params bd) (fst (snd (last rs)))"
    using sets by (auto simp: block_sets_def split: bind_splits)
  have insts: "\<forall>(i, u, a) \<in> set rs. sound_at d la (PpInst i) u"
    using ok(3) b by (intro insts_sets_sound [OF ok(1,2) b rs(1)]) (auto simp: block_vals_def)
  obtain i u a where l: "last rs = (i, u, a)" by (cases "last rs")
  have first: "bd_first bd = Some i"
    using arg_cong [OF insts_sets_fst [OF rs(1)], of last] rs l
    by (cases "bd_insts bd") (auto simp: bd_first_def last_map last_rev)
  have "sound_at d la (PpInst i) u" using insts l rs(2) last_in_set by fastforce
  then have "sound_at d la (PpBlock b) s"
    using way_enter [OF b first] s l by (auto simp: sound_at_def nu_header_def split: if_splits)
  with insts show ?thesis by blast
qed

section \<open>Settled blocks have the shortest ways\<close>

lemma insts_sets_at:
  "insts_sets d la bl \<sigma> (xs @ i # ys) cur = Some rs \<Longrightarrow> \<forall>(i, u, a) \<in> set rs. f i = u \<Longrightarrow>
   \<exists>a. inst_sets d la bl \<sigma> (if xs = [] then cur else Some (last xs, f (last xs))) i = Some (f i, a)"
proof (induction xs arbitrary: cur rs)
  case (Cons x xs)
  obtain u a rs' where r: "insts_sets d la bl \<sigma> (xs @ i # ys) (Some (x, u)) = Some rs'" "rs = (x, u, a) # rs'"
    using Cons.prems(1) by (auto split: bind_splits)
  with Cons.IH [OF r(1)] Cons.prems(2) show ?case by (cases xs) auto
qed (auto split: bind_splits)

lemma inst_sets_complete:
  assumes "inst_sets d la bl \<sigma> cur i = Some (u, a)" "inst_data d i = Some data"
  shows "v \<in> set (inst_uses data) \<Longrightarrow> map_of u v = Some 0"
    and "analyze_branch data = NotABranch \<Longrightarrow> cur = Some (j, t) \<Longrightarrow> v \<notin> set (inst_results d j) \<Longrightarrow>
      map_of t v = Some m \<Longrightarrow> \<exists>k \<le> Suc m. map_of u v = Some k"
    and "\<forall>b. nu_ok V (\<sigma> b) \<Longrightarrow> inst_vals d i \<subseteq> V \<Longrightarrow> (s, args) \<in> set (branch_edges (analyze_branch data)) \<Longrightarrow>
      block_params d s = Some ps \<Longrightarrow> v \<notin> set ps \<Longrightarrow> is_loop_exit la bl s = Some exits \<Longrightarrow> map_of (\<sigma> s) v = Some m \<Longrightarrow>
      \<exists>k \<le> m + (if exits then LOOP_EXIT_DISTANCE else 0). map_of u v = Some k"
proof -
  obtain data' u0 a0 where data': "inst_data d i = Some data'"
    "start_sets d la bl \<sigma> cur (analyze_branch data') = Some (u0, a0)"
    "\<And>v. map_of u v = (if v \<in> set (inst_uses data') then Some 0
       else if v \<in> set (inst_results d i) \<and> map_of u0 v = None then Some u32_MAX else map_of u0 v)"
    using inst_sets_get [OF assms(1)] by blast
  note start = data'(2,3) [unfolded option.inject [THEN iffD1, OF data'(1) [unfolded assms(2)], symmetric]]
  have u: "\<exists>k \<le> n. map_of u v = Some k" if "\<exists>k \<le> n. map_of u0 v = Some k" for n
    using that start(2) [of v] by auto
  show "v \<in> set (inst_uses data) \<Longrightarrow> map_of u v = Some 0" using start(2) by simp
  show "\<exists>k \<le> Suc m. map_of u v = Some k"
    if "analyze_branch data = NotABranch" "cur = Some (j, t)" "v \<notin> set (inst_results d j)" "map_of t v = Some m"
    using that start(1) by (intro u) (auto simp: start_sets_def sat_add_def)
  show "\<exists>k \<le> m + (if exits then LOOP_EXIT_DISTANCE else 0). map_of u v = Some k"
    if ok: "\<forall>b. nu_ok V (\<sigma> b)" "inst_vals d i \<subseteq> V" and e: "(s, args) \<in> set (branch_edges (analyze_branch data))"
      and s: "block_params d s = Some ps" "v \<notin> set ps" "is_loop_exit la bl s = Some exits" "map_of (\<sigma> s) v = Some m"
  proof (cases "v \<in> set (inst_uses data)")
    case True
    with start(2) show ?thesis by simp
  next
    case False
    then have nv: "v \<notin> set args"
      using e by (fastforce simp: inst_uses_def branch_args_def branch_edges_def split: branch_info.splits)
    have args: "set (branch_args (analyze_branch data)) \<subseteq> V"
      using ok(2) assms(2) by (auto simp: inst_vals_def inst_uses_def)
    obtain u' a' where u': "edge_uses d la bl s args (\<sigma> s) = Some (u', a')"
      using start_sets_edge [OF start(1) e] by blast
    have u'v: "map_of u' v = Some (if exits then sat_add m LOOP_EXIT_DISTANCE else m)"
      using edge_uses_get [OF u' s(1,3) nv s(2)] s(4) by simp
    from start_edges_complete [OF start(1) ok(1) args e u' u'v] obtain k where
      "k \<le> (if exits then sat_add m LOOP_EXIT_DISTANCE else m)" "map_of u0 v = Some k" by blast
    then show ?thesis by (intro u) (auto simp: sat_add_def split: if_splits)
  qed
qed


lemma block_sets_insts:
  assumes "block_sets d la \<sigma> b = Some (rs, s)" "dfg_block d b = Some bd"
  shows "insts_sets d la (innermost_loop la b) \<sigma> (rev (bd_insts bd)) None = Some rs"
    and "map fst rs = rev (bd_insts bd)" and "rs \<noteq> []"
    and "s = nu_header d (fst (last rs)) (bd_params bd) (fst (snd (last rs)))"
    and "bd_first bd = Some (fst (last rs))"
proof -
  show r: "insts_sets d la (innermost_loop la b) \<sigma> (rev (bd_insts bd)) None = Some rs" "rs \<noteq> []"
    "s = nu_header d (fst (last rs)) (bd_params bd) (fst (snd (last rs)))"
    using assms by (auto simp: block_sets_def split: bind_splits)
  show f: "map fst rs = rev (bd_insts bd)" by (rule insts_sets_fst [OF r(1)])
  show "bd_first bd = Some (fst (last rs))"
    using arg_cong [OF f, of last] r(1,2) by (cases "bd_insts bd") (auto simp: bd_first_def last_map last_rev)
qed

lemma own_block:
  "blocks_wf d \<Longrightarrow> dfg_block d b = Some bd \<Longrightarrow> i \<in> set (bd_insts bd) \<Longrightarrow> dfg_block d b' = Some bd' \<Longrightarrow>
   i \<in> set (bd_insts bd') \<Longrightarrow> b = b'"
  unfolding blocks_wf_def by (metis option.inject)

lemma settled_inst:
  assumes "settled d la lv \<sigma> b" "dfg_block d b = Some bd" "bd_insts bd = xs @ i # ys"
  shows "\<exists>a. inst_sets d la (innermost_loop la b) \<sigma>
    (if ys = [] then None else Some (hd ys, in_of lv (PpInst (hd ys)))) i = Some (in_of lv (PpInst i), a)"
proof -
  obtain rs s where rs: "block_sets d la \<sigma> b = Some (rs, s)"
    "\<forall>(i, u, a) \<in> set rs. map_of (lv_in lv) (PpInst i) = Some u"
    using assms(1) by (auto simp: settled_def)
  have "\<forall>(i, u, a) \<in> set rs. in_of lv (PpInst i) = u" using rs(2) by (auto simp: in_of_def)
  with insts_sets_at [of d la "innermost_loop la b" \<sigma> "rev ys" i "rev xs" None rs "\<lambda>i. in_of lv (PpInst i)"]
    block_sets_insts(1) [OF rs(1) assms(2)] assms(3)
  show ?thesis by (cases "ys = []") (auto simp: last_rev)
qed

lemma points_inst:
  "PpInst i \<in> points d b \<longleftrightarrow> (\<exists>bd. dfg_block d b = Some bd \<and> i \<in> set (bd_insts bd))"
  by (auto simp: points_def split: option.splits)

lemma points_block [simp]: "PpBlock s \<in> points d b \<longleftrightarrow> s = b"
  by (auto simp: points_def split: option.splits)

definition edges_in :: "'f dfg \<Rightarrow> block set \<Rightarrow> bool" where
  "edges_in d B \<longleftrightarrow> (\<forall>b \<in> B. \<forall>bd i data s args. dfg_block d b = Some bd \<longrightarrow> i \<in> set (bd_insts bd) \<longrightarrow>
     inst_data d i = Some data \<longrightarrow> (s, args) \<in> set (branch_edges (analyze_branch data)) \<longrightarrow> s \<in> B)"

lemma settled_complete:
  assumes \<sigma>: "\<sigma> = (\<lambda>b. in_of lv (PpBlock b))" and wf: "blocks_wf d"
    and ok: "\<forall>b. nu_ok V (\<sigma> b)" "\<forall>b \<in> B. block_vals d b \<subseteq> V"
    and settled: "\<forall>b \<in> B. settled d la lv \<sigma> b" and closed: "edges_in d B"
  shows "way d la pp v n \<Longrightarrow> b \<in> B \<Longrightarrow> pp \<in> points d b \<Longrightarrow> \<exists>k \<le> n. map_of (in_of lv pp) v = Some k"
proof (induction arbitrary: b rule: way.induct)
  case (way_use i data v)
  then obtain bd xs ys where b: "dfg_block d b = Some bd" "bd_insts bd = xs @ i # ys"
    by (auto simp: points_inst in_set_conv_decomp)
  have "settled d la lv \<sigma> b" using settled way_use.prems(1) by simp
  from settled_inst [OF this b] obtain cur a where
    "inst_sets d la (innermost_loop la b) \<sigma> cur i = Some (in_of lv (PpInst i), a)" by blast
  from inst_sets_complete(1) [OF this way_use.hyps] show ?case by simp
next
  case (way_next b' bd xs i j ys data v n)
  obtain bd' where "dfg_block d b = Some bd'" "i \<in> set (bd_insts bd')" using way_next.prems by (auto simp: points_inst)
  moreover have "i \<in> set (bd_insts bd)" using way_next.hyps(2) by simp
  ultimately have b: "b' = b" using own_block [OF wf way_next.hyps(1)] by blast
  have "PpInst j \<in> points d b" using way_next.hyps(1,2) b by (auto simp: points_inst)
  from way_next.IH [OF way_next.prems(1) this] obtain k where k: "k \<le> n" "map_of (in_of lv (PpInst j)) v = Some k" by blast
  have "settled d la lv \<sigma> b" using settled way_next.prems(1) by simp
  from settled_inst [OF this way_next.hyps(1) [unfolded b] way_next.hyps(2)] obtain a where
    "inst_sets d la (innermost_loop la b) \<sigma> (Some (j, in_of lv (PpInst j))) i = Some (in_of lv (PpInst i), a)" by auto
  from inst_sets_complete(2) [OF this way_next.hyps(3,4) refl way_next.hyps(5) k(2)] obtain m where
    "m \<le> Suc k" "map_of (in_of lv (PpInst i)) v = Some m" by blast
  with k(1) show ?case by (intro exI [of _ m]) simp
next
  case (way_edge b' bd i data s args ps v exits n)
  obtain bd' where "dfg_block d b = Some bd'" "i \<in> set (bd_insts bd')" using way_edge.prems by (auto simp: points_inst)
  then have b: "b' = b" using own_block [OF wf way_edge.hyps(1,2)] by blast
  obtain xs ys where i: "bd_insts bd = xs @ i # ys" using way_edge.hyps(2) by (auto simp: in_set_conv_decomp)
  have "s \<in> B"
    by (rule closed [unfolded edges_in_def, rule_format, OF way_edge.prems(1) way_edge.hyps(1) [unfolded b]
          way_edge.hyps(2-4)])
  from way_edge.IH [OF this] obtain k where k: "k \<le> n" "map_of (\<sigma> s) v = Some k" by (auto simp: \<sigma>)
  have bd: "dfg_block d b = Some bd" using way_edge.hyps(1) b by simp
  have "inst_vals d i \<subseteq> block_vals d b" using bd way_edge.hyps(2) by (auto simp: block_vals_def)
  then have vals: "inst_vals d i \<subseteq> V" using ok(2) way_edge.prems(1) by (meson order_trans)
  have "settled d la lv \<sigma> b" using settled way_edge.prems(1) by simp
  from settled_inst [OF this bd i] obtain cur a where
    sets: "inst_sets d la (innermost_loop la b) \<sigma> cur i = Some (in_of lv (PpInst i), a)" by blast
  have exits: "is_loop_exit la (innermost_loop la b) s = Some exits" using way_edge.hyps(7) b by simp
  from inst_sets_complete(3) [OF sets way_edge.hyps(3) ok(1) vals way_edge.hyps(4-6) exits k(2)] obtain m where
    "m \<le> k + (if exits then LOOP_EXIT_DISTANCE else 0)" "map_of (in_of lv (PpInst i)) v = Some m" by blast
  with k(1) show ?case by (intro exI [of _ m]) (cases exits; simp)
next
  case (way_enter b' bd i v n)
  then have b: "b' = b" by simp
  obtain rs s where rs: "block_sets d la \<sigma> b = Some (rs, s)" "map_of (lv_in lv) (PpBlock b) = Some s"
    "\<forall>(i, u, a) \<in> set rs. map_of (lv_in lv) (PpInst i) = Some u"
    using settled way_enter.prems(1) by (auto simp: settled_def)
  note r = block_sets_insts [OF rs(1) way_enter.hyps(1) [unfolded b]]
  obtain i' u a where l: "last rs = (i', u, a)" by (cases "last rs")
  have "(i', u, a) \<in> set rs" using r(3) l last_in_set by metis
  then have "map_of (lv_in lv) (PpInst i') = Some u" using rs(3) by blast
  moreover have "i' = i" using r(5) l b way_enter.hyps(2) by simp
  ultimately have "in_of lv (PpInst i) = fst (snd (last rs))" using l by (simp add: in_of_def)
  moreover have "PpInst i \<in> points d b"
    using way_enter.hyps(1,2) b by (auto simp: points_inst bd_first_def split: list.splits)
  ultimately obtain k where "k \<le> n" "map_of (fst (snd (last rs))) v = Some k"
    using way_enter.IH [OF way_enter.prems(1)] by auto
  with r(4,5) rs(2) way_enter.hyps(2,3) b show ?case by (auto simp: in_of_def nu_header_def)
qed

end
