(* ===== verification/LivenessFix.thy ===== *)
theory LivenessFix
  imports LivenessWay
begin

text \<open>
  The worklist of the liveness analysis: the sets at the blocks only grow and are bounded, so it
  runs empty; its distances are ways; without retreating edges they are the shortest ways.
\<close>

section \<open>The worklist runs empty\<close>

definition heads :: "liveness \<Rightarrow> block \<Rightarrow> next_uses" where
  "heads lv b = in_of lv (PpBlock b)"

text \<open>How far a set is from the one with all distances zero.\<close>

definition gap :: "val set \<Rightarrow> next_uses \<Rightarrow> nat" where
  "gap V s = (\<Sum>v \<in> V. case map_of s v of None \<Rightarrow> Suc u32_MAX | Some n \<Rightarrow> n)"

lemma nu_eqI:
  assumes "nu_ok V s" "nu_ok V t" "map_of s = map_of t"
  shows "s = t"
proof -
  have srt: "sorted (map fst s)" "distinct (map fst s)" "sorted (map fst t)" "distinct (map fst t)"
    using assms(1,2) by (auto simp: nu_ok_def map_sorted_def strict_sorted_iff)
  have "set (map fst s) = set (map fst t)" by (metis assms(3) dom_map_of_conv_image_fst list.set_map)
  with srt have keys: "map fst s = map fst t" by (metis sorted_distinct_set_unique)
  have list: "x = map (\<lambda>k. (k, the (map_of x k))) (map fst x)" if "distinct (map fst x)" for x :: next_uses
    using that by (auto simp: comp_def intro!: map_idI [symmetric])
  show ?thesis using list [OF srt(2)] list [OF srt(4)] keys assms(3) by simp
qed

lemma gap_le:
  assumes "nu_rel V s t" "finite V"
  shows "gap V t \<le> gap V s" and "s \<noteq> t \<Longrightarrow> gap V t < gap V s"
proof -
  define g where "g r v = (case map_of r v of None \<Rightarrow> Suc u32_MAX | Some n \<Rightarrow> n)" for r :: next_uses and v
  have st: "nu_ok V s" "nu_ok V t" "nu_le s t" using assms(1) by (auto simp: nu_rel_def)
  have le: "g t v \<le> g s v" for v
  proof (cases "map_of s v")
    case None
    have "n \<le> u32_MAX" if "map_of t v = Some n" for n using st(2) that by (simp add: nu_ok_def)
    with None show ?thesis by (cases "map_of t v") (simp_all add: g_def le_SucI)
  next
    case (Some n)
    then obtain m where "m \<le> n" "map_of t v = Some m" using st(3) by (auto simp: nu_le_def)
    with Some show ?thesis by (simp add: g_def)
  qed
  then show "gap V t \<le> gap V s" unfolding gap_def g_def [symmetric] by (rule sum_mono)
  assume "s \<noteq> t"
  then obtain v where v: "map_of s v \<noteq> map_of t v" using nu_eqI [OF st(1,2)] by blast
  have "v \<in> V" using st(1,2) v by (cases "map_of s v"; cases "map_of t v") (auto simp: nu_ok_def)
  moreover have "g t v \<noteq> g s v"
    using v st(1,2) by (cases "map_of s v"; cases "map_of t v") (force simp: g_def nu_ok_def)+
  ultimately have "v \<in> V" "g t v < g s v" using le [of v] by simp_all
  then show "gap V t < gap V s"
    unfolding gap_def g_def [symmetric] using le assms(2) by (intro sum_strict_mono_ex1) auto
qed

definition lv_gap :: "block set \<Rightarrow> val set \<Rightarrow> liveness \<Rightarrow> nat" where
  "lv_gap B V lv =
     (\<Sum>b \<in> B. (if map_of (lv_in lv) (PpBlock b) = None then 1 else 0) + gap V (heads lv b))"

text \<open>The sets at the blocks are below those that they give, and every distance is a way.\<close>

definition lv_inv :: "'f dfg \<Rightarrow> loop_analysis \<Rightarrow> block set \<Rightarrow> val set \<Rightarrow> liveness \<Rightarrow> bool" where
  "lv_inv d la B V lv \<longleftrightarrow>
     (\<forall>b. nu_ok V (heads lv b)) \<and> (\<forall>pp. sound_at d la pp (in_of lv pp)) \<and>
     (\<forall>b \<in> B. \<forall>rs s. block_sets d la (heads lv) b = Some (rs, s) \<longrightarrow> nu_le (heads lv b) s)"

definition lv_ready :: "control_flow_graph \<Rightarrow> 'f dfg \<Rightarrow> loop_analysis \<Rightarrow> block set \<Rightarrow> val set \<Rightarrow> bool" where
  "lv_ready c d la B V \<longleftrightarrow> finite B \<and> finite V \<and> (\<forall>b \<in> B. block_ready c d la b \<and> block_vals d b \<subseteq> V)"

lemma visit_inv:
  assumes inv: "lv_inv d la B V lv" and ready: "lv_ready c d la B V" and b: "b \<in> B"
  shows "\<exists>again lv'. visit_block c d la b lv = Some (again, lv') \<and> lv_inv d la B V lv' \<and>
    lv_gap B V lv' \<le> lv_gap B V lv \<and> (again \<longrightarrow> lv_gap B V lv' < lv_gap B V lv)"
proof -
  have br: "block_ready c d la b" "block_vals d b \<subseteq> V" using ready b by (auto simp: lv_ready_def)
  have "heads lv = (\<lambda>b. in_of lv (PpBlock b))" by (simp add: heads_def fun_eq_iff)
  from visit_block_eq [OF br(1) this] obtain again lv' rs s where
    v: "visit_block c d la b lv = Some (again, lv')" "block_sets d la (heads lv) b = Some (rs, s)"
    "again \<longrightarrow> map_of (lv_in lv) (PpBlock b) \<noteq> Some s" "\<not> again \<longrightarrow> heads lv b = s"
    "settled d la lv' (heads lv) b" "\<forall>q. q \<notin> points d b \<longrightarrow> in_of lv' q = in_of lv q"
    "\<forall>q x. q \<notin> points d b \<longrightarrow> map_of (lv_in lv) q = Some x \<longrightarrow> map_of (lv_in lv') q = Some x"
    by blast
  have at: "map_of (lv_in lv') (PpBlock b) = Some s" "\<forall>(i, u, a) \<in> set rs. map_of (lv_in lv') (PpInst i) = Some u"
    using v(2,5) by (auto simp: settled_def)
  have \<sigma>': "heads lv' = (heads lv)(b := s)" using v(6) at(1) by (auto simp: heads_def fun_eq_iff in_of_def)
  have ok: "\<forall>b. nu_rel V (heads lv b) (heads lv b)" using inv by (simp add: lv_inv_def)
  have "nu_ok V s" using block_sets_rel [OF ok br(2), of la] v(2) by simp
  moreover have "nu_le (heads lv b) s" using inv v(2) b by (auto simp: lv_inv_def)
  ultimately have rel: "\<forall>b. nu_rel V (heads lv b) (heads lv' b)" using ok by (auto simp: \<sigma>' nu_rel_def)
  have sound: "(\<forall>(i, u, a) \<in> set rs. sound_at d la (PpInst i) u) \<and> sound_at d la (PpBlock b) s"
    using inv v(2) br(2) by (intro block_sets_sound) (auto simp: lv_inv_def heads_def)
  have "sound_at d la pp (in_of lv' pp)" for pp
  proof (cases "pp \<in> points d b")
    case True
    show ?thesis
    proof (cases pp)
      case (PpInst i)
      with True obtain bd where bd: "dfg_block d b = Some bd" "i \<in> set (bd_insts bd)" by (auto simp: points_inst)
      then have "i \<in> fst ` set rs" using block_sets_insts(2) [OF v(2) bd(1)] by (metis list.set_map set_rev)
      then obtain u a where "(i, u, a) \<in> set rs" by force
      then have "map_of (lv_in lv') (PpInst i) = Some u" "sound_at d la (PpInst i) u" using at(2) sound by blast+
      with PpInst show ?thesis by (simp add: in_of_def)
    qed (use True at(1) sound in \<open>simp add: in_of_def\<close>)
  qed (use inv v(6) in \<open>auto simp: lv_inv_def\<close>)
  moreover have "nu_le (heads lv' b') t" if "b' \<in> B" "block_sets d la (heads lv') b' = Some (rs', t)" for b' rs' t
  proof -
    have "block_vals d b' \<subseteq> V" using ready that(1) by (simp add: lv_ready_def)
    from block_sets_rel [OF rel this, of la] that(2) obtain rs0 t0 where
      t0: "block_sets d la (heads lv) b' = Some (rs0, t0)" "nu_le t0 t"
      by (auto simp: option_rel_Some2 nu_rel_def)
    have "nu_le (heads lv b') t0" using inv that(1) t0(1) by (auto simp: lv_inv_def)
    with t0 v(2) show ?thesis by (cases "b' = b") (auto simp: \<sigma>' intro: nu_le_trans)
  qed
  ultimately have inv': "lv_inv d la B V lv'" using rel by (auto simp: lv_inv_def nu_rel_def)
  define h where "h lv b = (if map_of (lv_in lv) (PpBlock b) = None then 1 else 0) + gap V (heads lv b)" for lv b
  have fin: "finite B" "finite V" using ready by (auto simp: lv_ready_def)
  have entry: "map_of (lv_in lv) (PpBlock b') \<noteq> None \<Longrightarrow> map_of (lv_in lv') (PpBlock b') \<noteq> None" for b'
    using at(1) v(7) by (cases "b' = b") auto
  have le: "h lv' b' \<le> h lv b'" for b'
    using entry [of b'] gap_le(1) [OF rel [rule_format, of b'] fin(2)] by (auto simp: h_def)
  have "h lv' b < h lv b" if again
  proof (cases "map_of (lv_in lv) (PpBlock b)")
    case None
    with at(1) gap_le(1) [OF rel [rule_format, of b] fin(2)] show ?thesis by (simp add: h_def)
  next
    case (Some x)
    with v(3) that have "heads lv b \<noteq> heads lv' b" by (auto simp: \<sigma>' heads_def in_of_def)
    from gap_le(2) [OF rel [rule_format, of b] fin(2) this] Some at(1) show ?thesis by (simp add: h_def)
  qed
  then have "again \<longrightarrow> lv_gap B V lv' < lv_gap B V lv"
    unfolding lv_gap_def h_def [symmetric] using le b fin(1) by (intro impI sum_strict_mono_ex1) auto
  moreover have "lv_gap B V lv' \<le> lv_gap B V lv"
    unfolding lv_gap_def h_def [symmetric] using le by (intro sum_mono)
  ultimately show ?thesis using v(1) inv' by blast
qed

lemma liveness_loop_ends:
  assumes "lv_inv d la B V lv" "lv_ready c d la B V" "set bs \<subseteq> B"
  shows "\<exists>lv'. liveness_loop c d la bs lv = Some lv' \<and> lv_inv d la B V lv'"
  using assms
proof (induction "(lv_gap B V lv, length bs)" arbitrary: lv bs rule: wf_induct_rule [OF wf_lex_prod [OF wf_less_than wf_less_than]])
  case 1
  show ?case
  proof (cases bs)
    case Nil
    with 1(2) show ?thesis by (subst liveness_loop.simps) simp
  next
    case (Cons b bs')
    then obtain again lv' where v: "visit_block c d la b lv = Some (again, lv')" "lv_inv d la B V lv'"
      "lv_gap B V lv' \<le> lv_gap B V lv" "again \<longrightarrow> lv_gap B V lv' < lv_gap B V lv"
      using visit_inv [OF 1(2,3)] 1(4) by (metis list.set_intros(1) subsetD)
    have "\<exists>lv2. liveness_loop c d la (if again then bs' @ [b] else bs') lv' = Some lv2 \<and> lv_inv d la B V lv2"
      using v Cons 1(3,4) by (intro 1(1)) auto
    with v(1) Cons show ?thesis by (subst liveness_loop.simps) simp
  qed
qed

lemma lv_inv_default: "lv_inv d la B V (lv_clear lv)"
  by (simp add: lv_inv_def heads_def in_of_def lv_clear_def sound_at_def)

section \<open>Without retreating edges\<close>

text \<open>The destinations of the branches of a block.\<close>

definition succ_blocks :: "'f dfg \<Rightarrow> block \<Rightarrow> block set" where
  "succ_blocks d b = {s. \<exists>bd i data args. dfg_block d b = Some bd \<and> i \<in> set (bd_insts bd) \<and> inst_data d i = Some data \<and>
     (s, args) \<in> set (branch_edges (analyze_branch data))}"

lemma start_sets_cong:
  assumes "\<forall>(s, args) \<in> set (branch_edges info). \<sigma> s = \<tau> s"
  shows "start_sets d la bl \<sigma> cur info = start_sets d la bl \<tau> cur info"
proof (cases info)
  case (MultiDest jts)
  have "\<forall>(s, args) \<in> set jts. \<sigma> s = \<tau> s \<Longrightarrow> jts_sets d la bl \<sigma> jts acc = jts_sets d la bl \<tau> jts acc" for acc
    by (induction jts arbitrary: acc) (auto simp: case_prod_beta)
  with MultiDest assms show ?thesis by (auto simp: start_sets_def branch_edges_def)
qed (use assms in \<open>auto simp: start_sets_def branch_edges_def\<close>)

lemma inst_sets_cong:
  "\<forall>data. inst_data d i = Some data \<longrightarrow> (\<forall>(s, args) \<in> set (branch_edges (analyze_branch data)). \<sigma> s = \<tau> s) \<Longrightarrow>
   inst_sets d la bl \<sigma> cur i = inst_sets d la bl \<tau> cur i"
proof (cases "inst_data d i")
  case (Some data)
  assume "\<forall>data. inst_data d i = Some data \<longrightarrow> (\<forall>(s, args) \<in> set (branch_edges (analyze_branch data)). \<sigma> s = \<tau> s)"
  with Some have "start_sets d la bl \<sigma> cur (analyze_branch data) = start_sets d la bl \<tau> cur (analyze_branch data)"
    by (intro start_sets_cong) simp
  with Some show ?thesis by (simp add: inst_sets_def)
qed (simp add: inst_sets_def)

lemma insts_sets_cong:
  "\<forall>i \<in> set is. \<forall>data. inst_data d i = Some data \<longrightarrow> (\<forall>(s, args) \<in> set (branch_edges (analyze_branch data)). \<sigma> s = \<tau> s) \<Longrightarrow>
   insts_sets d la bl \<sigma> is cur = insts_sets d la bl \<tau> is cur"
proof (induction "is" arbitrary: cur)
  case (Cons i "is")
  have "inst_sets d la bl \<sigma> cur i = inst_sets d la bl \<tau> cur i" using Cons.prems by (intro inst_sets_cong) simp
  moreover have "insts_sets d la bl \<sigma> is c = insts_sets d la bl \<tau> is c" for c using Cons.prems by (intro Cons.IH) simp
  ultimately show ?case by simp
qed simp

lemma block_sets_cong:
  "\<forall>s \<in> succ_blocks d b. \<sigma> s = \<tau> s \<Longrightarrow> block_sets d la \<sigma> b = block_sets d la \<tau> b"
proof (cases "dfg_block d b")
  case (Some bd)
  moreover assume "\<forall>s \<in> succ_blocks d b. \<sigma> s = \<tau> s"
  ultimately have "insts_sets d la bl \<sigma> (rev (bd_insts bd)) cur = insts_sets d la bl \<tau> (rev (bd_insts bd)) cur" for bl cur
    by (intro insts_sets_cong) (fastforce simp: succ_blocks_def)
  with Some show ?thesis by (simp add: block_sets_def)
qed (simp add: block_sets_def)

lemma settled_cong:
  "\<forall>s \<in> succ_blocks d b. \<sigma> s = \<tau> s \<Longrightarrow> settled d la lv \<sigma> b = settled d la lv \<tau> b"
  using block_sets_cong [of d b \<sigma> \<tau> la] by (simp add: settled_def)

lemma visit_settled:
  assumes ready: "block_ready c d la b" and wf: "blocks_wf d"
    and D: "\<forall>b' \<in> D. settled d la lv (heads lv) b'"
    and succs: "b \<in> D \<or> (\<forall>b' \<in> insert b D. b \<notin> succ_blocks d b')"
  shows "\<exists>again lv'. visit_block c d la b lv = Some (again, lv') \<and>
    (\<forall>b' \<in> insert b D. settled d la lv' (heads lv') b') \<and> (b \<in> D \<longrightarrow> \<not> again)"
proof -
  have "heads lv = (\<lambda>b. in_of lv (PpBlock b))" by (simp add: heads_def fun_eq_iff)
  from visit_block_eq [OF ready this] obtain again lv' rs s where
    v: "visit_block c d la b lv = Some (again, lv')" "block_sets d la (heads lv) b = Some (rs, s)"
    "again \<longrightarrow> map_of (lv_in lv) (PpBlock b) \<noteq> Some s" "settled d la lv' (heads lv) b"
    "\<forall>q. q \<notin> points d b \<longrightarrow> in_of lv' q = in_of lv q"
    "\<forall>q x. q \<notin> points d b \<longrightarrow> map_of (lv_in lv) q = Some x \<longrightarrow> map_of (lv_in lv') q = Some x"
    by blast
  have \<sigma>': "heads lv' = (heads lv)(b := s)"
    using v(2,4,5) by (auto simp: heads_def fun_eq_iff in_of_def settled_def)
  have old: "map_of (lv_in lv) (PpBlock b) = Some s" if "b \<in> D" using D v(2) that by (auto simp: settled_def)
  then have "heads lv b = s" if "b \<in> D" using that by (simp add: heads_def in_of_def)
  then have same: "\<forall>q \<in> succ_blocks d b'. heads lv q = heads lv' q" if "b' \<in> insert b D" for b'
    using succs that by (auto simp: \<sigma>')
  have "settled d la lv' (heads lv) b'" if b': "b' \<in> D" "b' \<noteq> b" for b'
  proof -
    obtain rs' s' where r: "block_sets d la (heads lv) b' = Some (rs', s')" "map_of (lv_in lv) (PpBlock b') = Some s'"
      "\<forall>(i, u, a) \<in> set rs'. map_of (lv_in lv) (PpInst i) = Some u"
      using D b'(1) by (auto simp: settled_def)
    have "map_of (lv_in lv') (PpInst i) = Some u" if m: "(i, u, a) \<in> set rs'" for i u a
    proof -
      obtain bd where bd: "dfg_block d b' = Some bd" using r(1) by (auto simp: block_sets_def split: bind_splits)
      have "i \<in> set (map fst rs')" using m by force
      then have "i \<in> set (bd_insts bd)" using block_sets_insts(2) [OF r(1) bd] by simp
      then have "PpInst i \<notin> points d b" using own_block [OF wf bd] b'(2) by (auto simp: points_inst)
      with v(6) r(3) m show ?thesis by auto
    qed
    with r v(6) b'(2) show ?thesis by (auto simp: settled_def)
  qed
  with v(4) have "\<forall>b' \<in> insert b D. settled d la lv' (heads lv) b'" by auto
  then have "\<forall>b' \<in> insert b D. settled d la lv' (heads lv') b'" using settled_cong [OF same] by blast
  with v(1,3) old show ?thesis by blast
qed

lemma settled_loop:
  "blocks_wf d \<Longrightarrow> \<forall>b \<in> B. block_ready c d la b \<Longrightarrow> \<forall>b \<in> B. settled d la lv (heads lv) b \<Longrightarrow> set bs \<subseteq> B \<Longrightarrow>
   \<exists>lv'. liveness_loop c d la bs lv = Some lv' \<and> (\<forall>b \<in> B. settled d la lv' (heads lv') b)"
proof (induction bs arbitrary: lv)
  case Nil
  then show ?case by (subst liveness_loop.simps) simp
next
  case (Cons b bs)
  then have b: "block_ready c d la b" "b \<in> B" by auto
  from visit_settled [OF b(1) Cons.prems(1,3)] b(2) obtain lv' where
    v: "visit_block c d la b lv = Some (False, lv')" "\<forall>b' \<in> B. settled d la lv' (heads lv') b'"
    by (auto simp: insert_absorb)
  from Cons.IH [OF Cons.prems(1,2) v(2)] Cons.prems(4) v(1) show ?case
    by (subst liveness_loop.simps) simp
qed

text \<open>All branches of a block go to blocks earlier in the list: a post-order without retreating edges.\<close>

definition forward :: "'f dfg \<Rightarrow> block list \<Rightarrow> bool" where
  "forward d bs \<longleftrightarrow> distinct bs \<and> (\<forall>xs b ys. bs = xs @ b # ys \<longrightarrow> succ_blocks d b \<subseteq> set xs)"

lemma forward_before:
  assumes "forward d (xs @ b # ys)" "b' \<in> insert b (set xs)"
  shows "b \<notin> succ_blocks d b'"
proof (cases "b' = b")
  case True
  with assms(1) have "succ_blocks d b' \<subseteq> set xs" "b \<notin> set xs" unfolding forward_def by (blast, simp)
  then show ?thesis by blast
next
  case False
  with assms(2) obtain us vs where x: "xs = us @ b' # vs" by (auto simp: in_set_conv_decomp)
  then have "xs @ b # ys = us @ b' # (vs @ b # ys)" by simp
  with assms(1) have "succ_blocks d b' \<subseteq> set us" unfolding forward_def by blast
  moreover have "b \<notin> set us" using assms(1) x by (simp add: forward_def)
  ultimately show ?thesis by blast
qed

lemma forward_loop:
  assumes wf: "blocks_wf d" and ready: "\<forall>b \<in> set bs. block_ready c d la b" and fwd: "forward d bs"
  shows "bs = xs @ rs \<Longrightarrow> \<forall>b \<in> set xs. settled d la lv (heads lv) b \<Longrightarrow> set zs \<subseteq> set xs \<Longrightarrow>
    \<exists>lv'. liveness_loop c d la (rs @ zs) lv = Some lv' \<and> (\<forall>b \<in> set bs. settled d la lv' (heads lv') b)"
proof (induction rs arbitrary: xs zs lv)
  case Nil
  with settled_loop [OF wf ready, of lv zs] show ?case by simp
next
  case (Cons b rs)
  have b: "block_ready c d la b" using ready Cons.prems(1) by simp
  have "\<forall>b' \<in> insert b (set xs). b \<notin> succ_blocks d b'" using forward_before fwd Cons.prems(1) by blast
  with visit_settled [OF b wf Cons.prems(2)] obtain again lv' where
    v: "visit_block c d la b lv = Some (again, lv')" "\<forall>b' \<in> insert b (set xs). settled d la lv' (heads lv') b'"
    by blast
  have "\<exists>lv2. liveness_loop c d la (rs @ (if again then zs @ [b] else zs)) lv' = Some lv2 \<and>
      (\<forall>b \<in> set bs. settled d la lv2 (heads lv2) b)"
    using Cons.prems v(2) by (intro Cons.IH [of "xs @ [b]"]) auto
  with v(1) show ?case by (subst liveness_loop.simps) (cases again; simp)
qed

section \<open>The properties\<close>

lemma blocks_ready_vals:
  assumes "\<forall>b \<in> set bs. block_ready c d la b"
  shows "lv_ready c d la (set bs) (\<Union>b \<in> set bs. block_vals d b)"
proof -
  have "finite (inst_vals d i)" for i by (auto simp: inst_vals_def split: option.splits)
  then have "finite (block_vals d b)" for b by (auto simp: block_vals_def split: option.splits)
  with assms show ?thesis by (auto simp: lv_ready_def)
qed

lemma settled_point:
  assumes "settled d la lv \<sigma> b" "pp \<in> points d b"
  shows "\<exists>x. map_of (lv_in lv) pp = Some x"
proof (cases pp)
  case (PpInst i)
  obtain rs s where r: "block_sets d la \<sigma> b = Some (rs, s)" "\<forall>(i, u, a) \<in> set rs. map_of (lv_in lv) (PpInst i) = Some u"
    using assms(1) by (auto simp: settled_def)
  obtain bd where bd: "dfg_block d b = Some bd" "i \<in> set (bd_insts bd)" using assms(2) PpInst by (auto simp: points_inst)
  have "i \<in> fst ` set rs" using bd(2) block_sets_insts(2) [OF r(1) bd(1)] by (metis list.set_map set_rev)
  with r(2) PpInst show ?thesis by force
qed (use assms in \<open>auto simp: settled_def\<close>)

lemma next_use_in_of: "next_use v pp lv = Some n \<Longrightarrow> n < u32_MAX \<Longrightarrow> map_of (in_of lv pp) v = Some n"
  by (auto simp: next_use_def nu_distance_def in_of_def split: option.splits)

lemma lv_compute_loop:
  "cfg_postorder t = Some bs \<Longrightarrow> lv_compute f c t la = liveness_loop c (hf_dfg f) la bs (lv_clear lv_default)"
  by (simp add: lv_compute_def lv_recompute_def compute_liveness_def)

text \<open>C30. The analysis ends, on any control flow, and a distance that it finds is one.\<close>

theorem next_uses_are_ways:
  assumes "cfg_postorder t = Some bs" "\<forall>b \<in> set bs. block_ready c (hf_dfg f) la b"
  shows "\<exists>lv. lv_compute f c t la = Some lv \<and>
    (\<forall>pp v n. next_use v pp lv = Some n \<longrightarrow> n < u32_MAX \<longrightarrow> way (hf_dfg f) la pp v n)"
proof -
  from liveness_loop_ends [OF lv_inv_default blocks_ready_vals [OF assms(2)] subset_refl, of lv_default] obtain lv where
    "lv_compute f c t la = Some lv" "\<forall>pp. sound_at (hf_dfg f) la pp (in_of lv pp)"
    using lv_compute_loop [OF assms(1), of f c la] by (auto simp: lv_inv_def)
  then show ?thesis using next_use_in_of by (auto simp: sound_at_def)
qed

text \<open>C27. Without retreating edges.\<close>

theorem next_uses_are_shortest:
  assumes "cfg_postorder t = Some bs" "\<forall>b \<in> set bs. block_ready c (hf_dfg f) la b"
    and "blocks_wf (hf_dfg f)" "forward (hf_dfg f) bs" "b \<in> set bs" "pp \<in> points (hf_dfg f) b" "n < u32_MAX"
  shows "\<exists>lv. lv_compute f c t la = Some lv \<and>
    (next_use v pp lv = Some n \<longleftrightarrow>
      way (hf_dfg f) la pp v n \<and> (\<forall>m. way (hf_dfg f) la pp v m \<longrightarrow> n \<le> m))"
proof -
  let ?d = "hf_dfg f" and ?V = "\<Union>b \<in> set bs. block_vals (hf_dfg f) b"
  from liveness_loop_ends [OF lv_inv_default blocks_ready_vals [OF assms(2)] subset_refl, of lv_default] obtain lv where
    lv: "lv_compute f c t la = Some lv" "lv_inv ?d la (set bs) ?V lv"
    using lv_compute_loop [OF assms(1), of f c la] by auto
  from forward_loop [OF assms(3,2,4), of "[]" bs "lv_clear lv_default" "[]"]
  have settled: "\<forall>b \<in> set bs. settled ?d la lv (heads lv) b"
    using lv(1) lv_compute_loop [OF assms(1), of f c la] by simp
  have \<sigma>: "heads lv = (\<lambda>b. in_of lv (PpBlock b))" by (simp add: heads_def fun_eq_iff)
  have "edges_in ?d (set bs)"
    unfolding edges_in_def
  proof (intro ballI allI impI)
    fix b' bd i data s args
    assume "b' \<in> set bs" "dfg_block ?d b' = Some bd" "i \<in> set (bd_insts bd)" "inst_data ?d i = Some data"
      "(s, args) \<in> set (branch_edges (analyze_branch data))"
    then have s: "s \<in> succ_blocks ?d b'" "b' \<in> set bs" by (auto simp: succ_blocks_def)
    then obtain xs ys where "bs = xs @ b' # ys" by (auto simp: in_set_conv_decomp)
    moreover from this assms(4) have "succ_blocks ?d b' \<subseteq> set xs" unfolding forward_def by blast
    ultimately show "s \<in> set bs" using s(1) by auto
  qed
  note complete = settled_complete [OF \<sigma> assms(3) _ _ settled this _ assms(5,6), of ?V]
  have shortest: "\<exists>k \<le> m. map_of (in_of lv pp) v = Some k" if "way ?d la pp v m" for m
    using that lv(2) by (intro complete) (auto simp: lv_inv_def)
  have sound: "way ?d la pp v k" if "map_of (in_of lv pp) v = Some k" "k < u32_MAX" for k
    using lv(2) that by (auto simp: lv_inv_def sound_at_def)
  obtain x where x: "map_of (lv_in lv) pp = Some x"
    using settled_point [OF settled [rule_format, OF assms(5)] assms(6)] by blast
  then have "next_use v pp lv = Some n \<longleftrightarrow> map_of x v = Some n"
    using assms(7) by (auto simp: next_use_def nu_distance_def split: option.splits)
  moreover have "map_of x v = Some n \<longleftrightarrow> way ?d la pp v n \<and> (\<forall>m. way ?d la pp v m \<longrightarrow> n \<le> m)"
  proof
    assume "map_of x v = Some n"
    with x sound [of n] shortest assms(7) show "way ?d la pp v n \<and> (\<forall>m. way ?d la pp v m \<longrightarrow> n \<le> m)"
      by (auto simp: in_of_def)
  next
    assume w: "way ?d la pp v n \<and> (\<forall>m. way ?d la pp v m \<longrightarrow> n \<le> m)"
    with shortest [of n] obtain k where k: "k \<le> n" "map_of x v = Some k" using x by (auto simp: in_of_def)
    with sound [of k] x assms(7) have "way ?d la pp v k" by (simp add: in_of_def)
    with w k show "map_of x v = Some n" by force
  qed
  ultimately show ?thesis using lv(1) by blast
qed

subsection \<open>An example\<close>

text \<open>
  An example: the entry block has a parameter and an instruction that does not use it, and
  branches to a second block that returns it.
\<close>

definition live_dfg :: "int dfg" where
  "live_dfg =
     \<lparr>dfg_entry = 0,
      dfg_blocks = \<lparr>om_list = [0, 1], om_map =
        [Some \<lparr>bd_id = 0, bd_params = [0], bd_insts = [0, 1]\<rparr>, Some \<lparr>bd_id = 1, bd_params = [], bd_insts = [2]\<rparr>]\<rparr>,
      dfg_insts =
        [Some \<lparr>in_key = 0, in_block = 0, in_data = IUnaryOpImm OcNeg Checked (ImmI32 1)\<rparr>,
         Some \<lparr>in_key = 1, in_block = 0, in_data = IBr OcBr 1 []\<rparr>,
         Some \<lparr>in_key = 2, in_block = 1, in_data = IRet OcRet [0]\<rparr>],
      dfg_results = (\<lambda>i. if i = 0 then [1] else []),
      dfg_values = [VParam TyI32 0 0, VInst TyI32 0 0], dfg_imports = Map.empty, dfg_globals = []\<rparr>"

lemmas live_eval = live_dfg_def dfg_block_get am_get_def nth_Cons' inst_data_def dfg_inst_node_def inst_results_def

lemma live_block:
  "dfg_block live_dfg b =
     (if b = 0 then Some \<lparr>bd_id = 0, bd_params = [0], bd_insts = [0, 1]\<rparr>
      else if b = 1 then Some \<lparr>bd_id = 1, bd_params = [], bd_insts = [2]\<rparr> else None)"
  by (auto simp: live_eval)

lemma live_inst:
  "inst_data live_dfg i =
     (if i = 0 then Some (IUnaryOpImm OcNeg Checked (ImmI32 1)) else if i = 1 then Some (IBr OcBr 1 [])
      else if i = 2 then Some (IRet OcRet [0]) else None)"
  by (auto simp: live_eval)

lemma live_results: "inst_results live_dfg i = (if i = 0 then [1] else [])"
  by (simp add: live_eval)

lemma live_wf: "blocks_wf live_dfg"
  unfolding blocks_wf_def live_block
  by (auto simp: live_eval om_wf_def om_contains_def am_contains_def split: if_splits)

lemmas live_facts = live_block live_inst live_results inst_uses_def branch_args_def branch_edges_def bd_first_def

definition live_function :: "int hir_function" where
  "live_function = \<lparr>hf_id = FunctionIdent ''m'' ''f'',
     hf_signature = \<lparr>sig_params = [], sig_results = [], sig_cc = CcFast, sig_linkage = LkExternal\<rparr>,
     hf_dfg = live_dfg\<rparr>"

definition live_order :: dominator_tree where
  "live_order = \<lparr>dt_nodes = (\<lambda>_. default_dom_node), dt_postorder = [1, 0], dt_valid = True\<rparr>"

lemma live_function: "hf_dfg live_function = live_dfg" "cfg_postorder live_order = Some [1, 0]"
  by (simp_all add: live_function_def live_order_def cfg_postorder_def)

lemma live_ready: "\<forall>b \<in> set [1, 0]. block_ready cfg_new live_dfg la_default b"
  by (simp add: block_ready_def inst_ready_def edge_ok_def live_facts block_params_def is_loop_exit_def
      innermost_loop_def la_default_def)

lemma live_forward: "forward live_dfg [1, 0]"
proof -
  have "succ_blocks live_dfg 1 = {}" "succ_blocks live_dfg 0 = {1}"
    by (auto simp: succ_blocks_def live_facts split: if_splits)
  then show ?thesis by (auto simp: forward_def Cons_eq_append_conv)
qed

inductive_cases way_instE: "way d la (PpInst i) v n"
inductive_cases way_blockE: "way d la (PpBlock b) v n"

lemma live_way: "way live_dfg la_default (PpBlock 0) 0 1"
proof -
  have ret: "way live_dfg la_default (PpInst 2) 0 0"
    by (rule way_use [of _ _ "IRet OcRet [0]"]) (simp_all add: live_facts)
  have exit: "way live_dfg la_default (PpBlock 1) 0 0"
    by (rule way_enter [of _ _ "\<lparr>bd_id = 1, bd_params = [], bd_insts = [2]\<rparr>", OF _ _ _ ret]) (simp_all add: live_facts)
  have br: "way live_dfg la_default (PpInst 1) 0 (0 + (if False then LOOP_EXIT_DISTANCE else 0))"
    by (rule way_edge [of _ 0 "\<lparr>bd_id = 0, bd_params = [0], bd_insts = [0, 1]\<rparr>" _ "IBr OcBr 1 []" _ "[]" "[]",
          OF _ _ _ _ _ _ _ exit])
      (simp_all add: live_facts block_params_def is_loop_exit_def innermost_loop_def la_default_def)
  have neg: "way live_dfg la_default (PpInst 0) 0 (Suc 0)"
    using br by (intro way_next [of _ 0 "\<lparr>bd_id = 0, bd_params = [0], bd_insts = [0, 1]\<rparr>" "[]" 0 1 "[]"
          "IUnaryOpImm OcNeg Checked (ImmI32 1)"]) (simp_all add: live_facts)
  show ?thesis
    by (rule way_enter [of _ _ "\<lparr>bd_id = 0, bd_params = [0], bd_insts = [0, 1]\<rparr>" 0,
          OF _ _ _ neg [folded One_nat_def]]) (simp_all add: live_facts)
qed

lemma live_no_shorter: "way live_dfg la_default (PpBlock 0) 0 m \<Longrightarrow> 1 \<le> m"
proof -
  assume "way live_dfg la_default (PpBlock 0) 0 m"
  then have "way live_dfg la_default (PpInst 0) 0 m" by (cases rule: way_blockE) (auto simp: live_facts)
  then show ?thesis
    by (cases rule: way_instE) (auto simp: live_facts split: if_splits)
qed

theorem next_uses_are_shortest_witness:
  "\<exists>lv. lv_compute live_function cfg_new live_order la_default = Some lv \<and> next_use 0 (PpBlock 0) lv = Some 1"
proof -
  note shortest = next_uses_are_shortest [of live_order "[1, 0]" cfg_new live_function la_default 0 "PpBlock 0" 1 0,
    unfolded live_function, OF refl live_ready live_wf live_forward]
  have "\<exists>lv. lv_compute live_function cfg_new live_order la_default = Some lv \<and>
    (next_use 0 (PpBlock 0) lv = Some 1 \<longleftrightarrow> way live_dfg la_default (PpBlock 0) 0 1 \<and>
      (\<forall>m. way live_dfg la_default (PpBlock 0) 0 m \<longrightarrow> 1 \<le> m))"
    by (rule shortest) (simp_all add: u32_MAX_def)
  then show ?thesis using live_way live_no_shorter by blast
qed

text \<open>The same function, for the first property.\<close>

theorem next_uses_are_ways_witness:
  "\<exists>lv. lv_compute live_function cfg_new live_order la_default = Some lv \<and>
     (\<forall>pp v n. next_use v pp lv = Some n \<longrightarrow> n < u32_MAX \<longrightarrow> way live_dfg la_default pp v n)"
  using next_uses_are_ways [of live_order "[1, 0]" cfg_new live_function la_default, unfolded live_function,
      OF refl live_ready] .

end
