(* ===== verification/SplitEdges.thy ===== *)
theory SplitEdges
  imports DfgProps Cfg
begin

text \<open>
  Splitting of critical edges (hir-transform/src/split_critical_edges.rs): an edge from a block
  with several successors to a block with several predecessors gets a block of its own.
\<close>

section \<open>The pass\<close>

text \<open>The branch from \<open>p\<close> to \<open>b\<close> goes to the new block \<open>split\<close>, without arguments.\<close>

definition retarget :: "block \<Rightarrow> block \<Rightarrow> 'f instruction \<Rightarrow> (val list \<times> 'f instruction) option" where
  "retarget b split ix =
     (case ix of
        IBr op dest args \<Rightarrow> Some (args, IBr op split [])
      | ICondBr op cnd (then_dest, then_args) (else_dest, else_args) \<Rightarrow>
          if then_dest = b then Some (then_args, ICondBr op cnd (split, []) (else_dest, else_args))
          else Some (else_args, ICondBr op cnd (then_dest, then_args) (split, []))
      | _ \<Rightarrow> None)"

definition split_edge :: "block \<Rightarrow> block \<Rightarrow> 'f dfg \<times> control_flow_graph \<Rightarrow>
    ('f dfg \<times> control_flow_graph) option" where
  "split_edge p b dc = do {
     let (d, c) = dc;
     (split, d) \<leftarrow> create_block_after p d;
     t \<leftarrow> last_inst d p;
     terminator \<leftarrow> t;
     ix \<leftarrow> inst_data d terminator;
     (args, ix) \<leftarrow> retarget b split ix;
     d \<leftarrow> set_inst_data terminator ix d;
     (_, d) \<leftarrow> insert_inst (ip_after (PpBlock split)) (IBr OcBr b args) TyUnknown d;
     c \<leftarrow> recompute_block d split c;
     Some (d, c) }"

primrec split_edges :: "block \<Rightarrow> block list \<Rightarrow> 'f dfg \<times> control_flow_graph \<Rightarrow>
    ('f dfg \<times> control_flow_graph) option" where
  "split_edges p [] dc = Some dc"
| "split_edges p (b # bs) dc =
     (if num_predecessors (snd dc) b < 2 then split_edges p bs dc
      else do { dc \<leftarrow> split_edge p b dc; split_edges p bs dc })"

definition split_block :: "block \<Rightarrow> block list \<Rightarrow> 'f dfg \<times> control_flow_graph \<Rightarrow>
    ('f dfg \<times> control_flow_graph) option" where
  "split_block p succs dc =
     (if num_successors (snd dc) p < 2 then Some dc
      else do {
        (d, c) \<leftarrow> split_edges p succs dc;
        c \<leftarrow> recompute_block d p c;
        Some (d, c) })"

partial_function (option) split_loop :: "block list \<Rightarrow> block list \<Rightarrow> 'f dfg \<times> control_flow_graph \<Rightarrow>
    ('f dfg \<times> control_flow_graph) option" where
  "split_loop visited worklist dc =
     (case worklist of
        [] \<Rightarrow> Some dc
      | p # worklist \<Rightarrow>
          if p \<in> set visited then split_loop visited worklist dc
          else do {
            succs \<leftarrow> succ_iter (snd dc) p;
            dc \<leftarrow> split_block p succs dc;
            split_loop (p # visited) (worklist @ succs) dc })"

definition split_critical_edges :: "'f hir_function \<Rightarrow> control_flow_graph \<Rightarrow>
    ('f hir_function \<times> control_flow_graph) option" where
  "split_critical_edges f c = do {
     (d, c) \<leftarrow> split_loop [] [entry_block (hf_dfg f)] (hf_dfg f, c);
     Some (f\<lparr>hf_dfg := d\<rparr>, c) }"

section \<open>One edge\<close>

lemma create_block_after_eq:
  assumes "p \<in> set (block_keys d)"
  shows "\<exists>d'. create_block_after p d = Some (length (om_map (dfg_blocks d)), d') \<and>
    (\<forall>b. dfg_block d' b = (if b = length (om_map (dfg_blocks d)) then Some (new_block_data b) else dfg_block d b)) \<and>
    set (block_keys d') = insert (length (om_map (dfg_blocks d))) (set (block_keys d)) \<and>
    dfg_insts d' = dfg_insts d \<and> dfg_entry d' = dfg_entry d \<and> dfg_results d' = dfg_results d \<and>
    dfg_values d' = dfg_values d"
proof -
  have "p \<in> set (om_list (dfg_blocks d))" using assms by (simp add: block_keys_def om_keys_def)
  from insert_after_key_split [OF this, of "length (om_map (dfg_blocks d))"] obtain us vs where
    "om_list (dfg_blocks d) = us @ p # vs"
    "insert_after_key (length (om_map (dfg_blocks d))) p (om_list (dfg_blocks d)) =
       Some (us @ p # length (om_map (dfg_blocks d)) # vs)" by blast
  then show ?thesis
    by (auto simp: create_block_after_def om_create_def am_alloc_key_def om_insert_after_def om_alloc_node_def
        am_append_def om_get_def am_get_push dfg_block_def block_keys_def om_keys_def list_update_append)
qed

lemma insert_br_eq:
  assumes "dfg_block d n = Some bd"
  shows "\<exists>d'. insert_inst (ip_after (PpBlock n)) (IBr OcBr s args) TyUnknown d = Some (length (dfg_insts d), d') \<and>
    (\<forall>b. dfg_block d' b =
      (if b = n then Some (bd\<lparr>bd_insts := bd_insts bd @ [length (dfg_insts d)]\<rparr>) else dfg_block d b)) \<and>
    (\<forall>i. dfg_inst_node d' i = (if i = length (dfg_insts d)
      then Some \<lparr>in_key = i, in_block = n, in_data = IBr OcBr s args\<rparr> else dfg_inst_node d i)) \<and>
    block_keys d' = block_keys d \<and> dfg_entry d' = dfg_entry d"
  using assms
  by (auto simp: insert_inst_def ip_after_def am_alloc_key_def am_append_def list_update_append make_results_def
      result_types_def inst_data_def dfg_inst_node_def am_get_push call_signature_def analyze_call_def op_results_def
      dfg_block_def om_get_def update_block_def om_update_def am_update_def bd_append_def block_keys_def om_keys_def
      Let_def dest: am_get_SomeD)

lemma set_inst_data_eq:
  assumes "dfg_inst_node d i = Some n"
  shows "\<exists>d'. set_inst_data i data d = Some d' \<and> dfg_blocks d' = dfg_blocks d \<and> dfg_entry d' = dfg_entry d \<and>
    length (dfg_insts d') = length (dfg_insts d) \<and>
    (\<forall>j. dfg_inst_node d' j = (if j = i then Some (n\<lparr>in_data := data\<rparr>) else dfg_inst_node d j))"
  using assms
  by (auto simp: set_inst_data_def am_update_def dfg_inst_node_def in_replace_def dest: am_get_SomeD)

text \<open>
  The step from \<open>d\<close> to \<open>d'\<close>: the last instruction \<open>i\<close> of a block is now \<open>ix\<close>, and there is a new
  block \<open>n\<close> whose only instruction \<open>j\<close> branches to \<open>b\<close>.
\<close>

definition split_step :: "inst \<Rightarrow> 'f instruction \<Rightarrow> block \<Rightarrow> inst \<Rightarrow> block \<Rightarrow> val list \<Rightarrow> 'f dfg \<Rightarrow> 'f dfg \<Rightarrow> bool" where
  "split_step i ix n j b args d d' \<longleftrightarrow>
     dfg_block d n = None \<and> dfg_inst_node d j = None \<and> n \<notin> set (block_keys d) \<and>
     set (block_keys d') = insert n (set (block_keys d)) \<and> dfg_entry d' = dfg_entry d \<and>
     (\<forall>x. dfg_block d' x = (if x = n then Some \<lparr>bd_id = n, bd_params = [], bd_insts = [j]\<rparr> else dfg_block d x)) \<and>
     (\<forall>x. dfg_inst_node d' x =
        (if x = j then Some \<lparr>in_key = j, in_block = n, in_data = IBr OcBr b args\<rparr>
         else if x = i then map_option (\<lambda>nd. nd\<lparr>in_data := ix\<rparr>) (dfg_inst_node d i)
         else dfg_inst_node d x))"

lemma last_inst_eq: "last_inst d b = map_option bd_last (dfg_block d b)"
  by (simp add: last_inst_def)

lemma split_edge_eq:
  assumes wf: "dfg_wf d" and p: "p \<in> set (block_keys d)" "last_inst d p = Some (Some i)" "inst_data d i = Some ix"
    and re: "retarget b (length (om_map (dfg_blocks d))) ix = Some (args, ix')"
    and c: "cfg_valid c" "has_edges c E"
    and own: "\<And>b' k s. (b', k, s) \<in> E \<Longrightarrow> b' \<in> set (block_keys d) \<and> (\<exists>nd. dfg_inst_node d k = Some nd \<and> in_block nd = b')"
  shows "\<exists>j d' c'. split_edge p b (d, c) = Some (d', c') \<and> dfg_wf d' \<and>
    split_step i ix' (length (om_map (dfg_blocks d))) j b args d d' \<and>
    cfg_valid c' \<and> has_edges c' (insert (length (om_map (dfg_blocks d)), j, b) E)"
proof -
  define n where "n = length (om_map (dfg_blocks d))"
  have fresh: "dfg_block d n = None" by (simp add: n_def dfg_block_def om_get_fresh)
  then have "n \<notin> set (block_keys d)"
    using wf by (auto simp: dfg_wf_def blocks_wf_def om_wf_def am_contains_def block_keys_def om_keys_def dfg_block_get)
  obtain d1 where d1: "create_block_after p d = Some (n, d1)"
    "\<forall>x. dfg_block d1 x = (if x = n then Some (new_block_data x) else dfg_block d x)"
    "set (block_keys d1) = insert n (set (block_keys d))" "dfg_insts d1 = dfg_insts d" "dfg_entry d1 = dfg_entry d"
    using create_block_after_eq [OF p(1)] n_def by auto
  have "p \<noteq> n" using p(2) fresh by (auto simp: last_inst_eq)
  then have last1: "last_inst d1 p = Some (Some i)" "inst_data d1 i = Some ix"
    using p(2,3) d1(2,4) by (simp_all add: last_inst_eq inst_data_def dfg_inst_node_def)
  obtain nd where nd: "dfg_inst_node d1 i = Some nd" using last1(2) by (auto simp: inst_data_def)
  from set_inst_data_eq [OF nd, of ix'] obtain d2 where d2: "set_inst_data i ix' d1 = Some d2"
    "dfg_blocks d2 = dfg_blocks d1" "dfg_entry d2 = dfg_entry d1" "length (dfg_insts d2) = length (dfg_insts d1)"
    "\<forall>x. dfg_inst_node d2 x = (if x = i then Some (nd\<lparr>in_data := ix'\<rparr>) else dfg_inst_node d1 x)" by blast
  have "dfg_block d2 n = Some (new_block_data n)" using d2(2) d1(2) by (simp add: dfg_block_def)
  from insert_br_eq [OF this, of b args] obtain d' where d': 
    "insert_inst (ip_after (PpBlock n)) (IBr OcBr b args) TyUnknown d2 = Some (length (dfg_insts d2), d')"
    "\<forall>x. dfg_block d' x = (if x = n
       then Some ((new_block_data n)\<lparr>bd_insts := bd_insts (new_block_data n) @ [length (dfg_insts d2)]\<rparr>) else dfg_block d2 x)"
    "\<forall>x. dfg_inst_node d' x = (if x = length (dfg_insts d2)
      then Some \<lparr>in_key = x, in_block = n, in_data = IBr OcBr b args\<rparr> else dfg_inst_node d2 x)"
    "block_keys d' = block_keys d2" "dfg_entry d' = dfg_entry d2" by blast
  define j where "j = length (dfg_insts d2)"
  have wf': "dfg_wf d'"
    using create_block_after_wf [OF d1(1) wf] set_inst_data_wf [OF d2(1)] insert_inst_wf [OF d'(1)] by blast
  have "dfg_inst_node d j = None" using d2(4) d1(4) by (simp add: j_def dfg_inst_node_def am_get_def)
  moreover have "dfg_inst_node d1 = dfg_inst_node d" using d1(4) by (simp add: fun_eq_iff dfg_inst_node_def)
  ultimately have step: "split_step i ix' n j b args d d'"
    using fresh \<open>n \<notin> set (block_keys d)\<close> d1(2,3,5) d2(2,3,5) d'(2-5) nd
    by (auto simp: split_step_def j_def new_block_data_def dfg_block_def block_keys_def)
  have visit: "visit_block_succs d' n = Some [(j, b, False)]"
    using d'(2,3) by (simp add: visit_block_succs_def last_inst_eq bd_last_def inst_data_def inst_succs_def j_def)
  then have edges: "block_edges d' n = {(n, j, b)}" by (auto simp: block_edges_def)
  have inv: "has_edges (invalidate_block_successors n c) {e \<in> E. fst e \<noteq> n}"
    "cfg_valid (invalidate_block_successors n c)" using invalidate_edges [OF c(2)] c(1) by auto
  have E: "{e \<in> E. fst e \<noteq> n} = E" using own \<open>n \<notin> set (block_keys d)\<close> by auto
  obtain c' where c': "compute_block d' n (invalidate_block_successors n c) = Some c'"
    by (simp add: compute_block_def visit)
  have "\<exists>nd. dfg_inst_node d' k = Some nd \<and> in_block nd = b'" if "(b', k, s) \<in> E" for b' k s
    using own [OF that] step by (auto simp: split_step_def)
  with compute_block_edges [OF c' wf' inv(1)] E edges inv(2) have "has_edges c' (insert (n, j, b) E)" "cfg_valid c'"
    by auto
  moreover have "split_edge p b (d, c) = Some (d', c')"
    using d1(1) last1 re d2(1) d'(1) c' c(1) by (simp add: split_edge_def n_def recompute_block_def)
  ultimately show ?thesis using wf' step unfolding n_def by blast
qed

section \<open>One block\<close>

text \<open>Another block, or another branch, than the one of \<open>i\<close> goes to \<open>x\<close>.\<close>

definition shared :: "(block \<times> inst \<times> block) set \<Rightarrow> inst \<Rightarrow> block \<Rightarrow> bool" where
  "shared E i x \<longleftrightarrow> (\<exists>q k. (q, k, x) \<in> E \<and> k \<noteq> i)"

lemma single_key:
  assumes "distinct (map fst ps)" "(i, p) \<in> set ps"
  shows "length ps < 2 \<longleftrightarrow> (\<forall>k q. (k, q) \<in> set ps \<longrightarrow> k = i)"
proof
  assume "length ps < 2"
  with assms(2) have "length ps = Suc 0" by (cases ps) simp_all
  then show "\<forall>k q. (k, q) \<in> set ps \<longrightarrow> k = i" using assms(2) by (auto simp: length_Suc_conv)
next
  assume "\<forall>k q. (k, q) \<in> set ps \<longrightarrow> k = i"
  then have "set (map fst ps) \<subseteq> {i}" by auto
  then have "card (set (map fst ps)) \<le> card {i}" by (intro card_mono) simp_all
  then show "length ps < 2" using distinct_card [OF assms(1)] by simp
qed

lemma preds_shared:
  assumes "has_edges c E" "(p, i, s) \<in> E"
  shows "num_predecessors c s < 2 \<longleftrightarrow> \<not> shared E i s"
proof -
  have ps: "map_sorted (cn_predecessors (cfg_data c s))" "(i, p) \<in> set (cn_predecessors (cfg_data c s))"
    "\<And>k q. (k, q) \<in> set (cn_predecessors (cfg_data c s)) \<longleftrightarrow> (q, k, s) \<in> E"
    using assms unfolding has_edges_def by auto
  have "distinct (map fst (cn_predecessors (cfg_data c s)))"
    using ps(1) unfolding map_sorted_def strict_sorted_iff by blast
  from single_key [OF this ps(2)] show ?thesis
    unfolding num_predecessors_def shared_def ps(3) by blast
qed

lemma short_list:
  assumes "distinct xs"
  shows "length xs < 2 \<longleftrightarrow> (\<forall>x \<in> set xs. \<forall>y \<in> set xs. x = y)"
proof (cases xs)
  case (Cons x ys)
  with assms show ?thesis by (cases ys) auto
qed simp

lemma succs_two:
  assumes "has_edges c E"
  shows "num_successors c p < 2 \<longleftrightarrow> (\<forall>k k' s s'. (p, k, s) \<in> E \<longrightarrow> (p, k', s') \<in> E \<longrightarrow> s = s')"
proof -
  have ss: "set_sorted (cn_successors (cfg_data c p))"
    "\<And>s. s \<in> set (cn_successors (cfg_data c p)) \<longleftrightarrow> (\<exists>k. (p, k, s) \<in> E)"
    using assms unfolding has_edges_def by auto
  have "distinct (cn_successors (cfg_data c p))"
    using ss(1) unfolding set_sorted_def strict_sorted_iff by blast
  from short_list [OF this] show ?thesis unfolding num_successors_def Ball_def ss(2) by blast
qed

text \<open>An arm of the branch \<open>i\<close> and what it has become, with the edge of its new block.\<close>

definition arm :: "(block \<times> inst \<times> block) set \<Rightarrow> inst \<Rightarrow> block set \<Rightarrow> 'f dfg \<Rightarrow> 'f dfg \<Rightarrow>
    block \<times> val list \<Rightarrow> block \<times> val list \<Rightarrow> (block \<times> inst \<times> block) set \<Rightarrow> bool" where
  "arm E i S d d' x x' F \<longleftrightarrow>
     (if fst x \<in> S \<and> shared E i (fst x)
      then (\<exists>n j. x' = (n, []) \<and> F = {(n, j, fst x)} \<and> dfg_block d n = None \<and> dfg_inst_node d j = None \<and>
              dfg_block d' n = Some \<lparr>bd_id = n, bd_params = [], bd_insts = [j]\<rparr> \<and>
              inst_data d' j = Some (IBr OcBr (fst x) (snd x)))
      else x' = x \<and> F = {})"

text \<open>The arms to the blocks in \<open>S\<close> are done.\<close>

definition stage :: "inst \<Rightarrow> opcode \<Rightarrow> val \<Rightarrow> block \<times> val list \<Rightarrow> block \<times> val list \<Rightarrow> block set \<Rightarrow> 'f dfg \<Rightarrow>
    'f dfg \<Rightarrow> control_flow_graph \<Rightarrow> block \<times> val list \<Rightarrow> block \<times> val list \<Rightarrow>
    (block \<times> inst \<times> block) set \<Rightarrow> (block \<times> inst \<times> block) set \<Rightarrow> bool" where
  "stage i op cnd te ee S d d' c' te' ee' Ft Fe \<longleftrightarrow>
     arm (dfg_edges d) i S d d' te te' Ft \<and> arm (dfg_edges d) i S d d' ee ee' Fe \<and>
     dfg_wf d' \<and> cfg_valid c' \<and> has_edges c' (dfg_edges d \<union> Ft \<union> Fe) \<and>
     set (block_keys d') = set (block_keys d) \<union> fst ` (Ft \<union> Fe) \<and> dfg_entry d' = dfg_entry d \<and>
     (\<forall>b bd. dfg_block d b = Some bd \<longrightarrow> dfg_block d' b = Some bd) \<and>
     (\<forall>k nd. dfg_inst_node d k = Some nd \<longrightarrow> dfg_inst_node d' k =
        Some (if k = i then nd\<lparr>in_data := ICondBr op cnd te' ee'\<rparr> else nd)) \<and>
     (\<forall>k s b. (b, k, s) \<in> Ft \<union> Fe \<longrightarrow> (\<exists>nd. dfg_inst_node d' k = Some nd \<and> in_block nd = b))"

lemma arm_step:
  assumes "arm E i S d d1 x x' F" "split_step i ix n j b args d1 d2" "dfg_inst_node d i \<noteq> None" "fst x \<noteq> b"
  shows "arm E i (insert b S) d d2 x x' F"
proof (cases "fst x \<in> S \<and> shared E i (fst x)")
  case True
  with assms(1) obtain m k where m: "x' = (m, [])" "F = {(m, k, fst x)}" "dfg_block d m = None" "dfg_inst_node d k = None"
    "dfg_block d1 m = Some \<lparr>bd_id = m, bd_params = [], bd_insts = [k]\<rparr>" "inst_data d1 k = Some (IBr OcBr (fst x) (snd x))"
    by (auto simp: arm_def)
  have "k \<noteq> i" using assms(3) m(4) by auto
  then have "dfg_block d2 m = dfg_block d1 m" "inst_data d2 k = inst_data d1 k"
    using assms(2) m(5,6) by (auto simp: split_step_def inst_data_def)
  with m True show ?thesis by (auto simp: arm_def)
qed (use assms in \<open>auto simp: arm_def\<close>)

lemma edge_owner:
  assumes "dfg_wf d" "(b, i, s) \<in> dfg_edges d"
  shows "b \<in> set (block_keys d) \<and> (\<exists>nd. dfg_inst_node d i = Some nd \<and> in_block nd = b)"
proof -
  obtain b' where b': "b' \<in> set (block_keys d)" "(b, i, s) \<in> block_edges d b'" using assms(2) by (auto simp: dfg_edges_def)
  with block_edges_fst [OF b'(2)] block_edges_owner [OF assms(1) b'(2)] show ?thesis by blast
qed

lemma key_block: "dfg_wf d \<Longrightarrow> b \<in> set (block_keys d) \<Longrightarrow> \<exists>bd. dfg_block d b = Some bd"
  by (auto simp: dfg_wf_def blocks_wf_def om_wf_def am_contains_def block_keys_def om_keys_def dfg_block_get)

lemma stage_owner:
  assumes "stage i op cnd te ee S d d1 c1 te' ee' Ft Fe" "dfg_wf d" "(b, k, s) \<in> dfg_edges d \<union> Ft \<union> Fe"
  shows "b \<in> set (block_keys d1) \<and> (\<exists>nd. dfg_inst_node d1 k = Some nd \<and> in_block nd = b)"
proof (cases "(b, k, s) \<in> Ft \<union> Fe")
  case True
  then have "b \<in> fst ` (Ft \<union> Fe)" by force
  with True assms(1) show ?thesis unfolding stage_def by blast
next
  case False
  with assms(3) have "(b, k, s) \<in> dfg_edges d" by blast
  from edge_owner [OF assms(2) this] obtain nd where "b \<in> set (block_keys d)" "dfg_inst_node d k = Some nd" "in_block nd = b"
    by blast
  with assms(1) show ?thesis unfolding stage_def by (cases "k = i") auto
qed

lemma stage_split:
  fixes d d1 :: "'f dfg"
  assumes st: "stage i op cnd te ee S d d1 c1 te' ee' Ft Fe" and wf: "dfg_wf d"
    and p: "p \<in> set (block_keys d)" "last_inst d p = Some (Some i)" "inst_data d i = Some (ICondBr op cnd te ee)"
    and re: "retarget b n (ICondBr op cnd te' ee' :: 'f instruction) = Some (args, ICondBr op cnd te2 ee2)"
      "n = length (om_map (dfg_blocks d1))"
  shows "\<exists>j d2 c2. split_edge p b (d1, c1) = Some (d2, c2) \<and>
    split_step i (ICondBr op cnd te2 ee2) n j b args d1 d2 \<and> dfg_wf d2 \<and> cfg_valid c2 \<and>
    has_edges c2 (insert (n, j, b) (dfg_edges d \<union> Ft \<union> Fe)) \<and>
    dfg_block d n = None \<and> dfg_inst_node d j = None"
proof -
  note st' = st [unfolded stage_def]
  have p1: "p \<in> set (block_keys d1)" using p(1) st' by simp
  have last1: "last_inst d1 p = Some (Some i)" using p(2) st' by (auto simp: last_inst_eq)
  have data1: "inst_data d1 i = Some (ICondBr op cnd te' ee')" using p(3) st' by (auto simp: inst_data_def)
  have "dfg_wf d1" "cfg_valid c1" "has_edges c1 (dfg_edges d \<union> Ft \<union> Fe)" using st' by simp_all
  then have "\<exists>j d' c'. split_edge p b (d1, c1) = Some (d', c') \<and> dfg_wf d' \<and>
    split_step i (ICondBr op cnd te2 ee2) (length (om_map (dfg_blocks d1))) j b args d1 d' \<and>
    cfg_valid c' \<and> has_edges c' (insert (length (om_map (dfg_blocks d1)), j, b) (dfg_edges d \<union> Ft \<union> Fe))"
    using p1 last1 data1 re stage_owner [OF st wf] by (intro split_edge_eq) simp_all
  then obtain j d2 c2 where r: "split_edge p b (d1, c1) = Some (d2, c2)" "dfg_wf d2"
    "split_step i (ICondBr op cnd te2 ee2) n j b args d1 d2" "cfg_valid c2"
    "has_edges c2 (insert (n, j, b) (dfg_edges d \<union> Ft \<union> Fe))" unfolding re(2) [symmetric] by blast
  have "dfg_block d1 n = None" "dfg_inst_node d1 j = None" using r(3) by (simp_all add: split_step_def)
  then have "dfg_block d n = None" "dfg_inst_node d j = None" using st' by (metis option.exhaust option.distinct(1))+
  with r show ?thesis by blast
qed

lemma stage_frame:
  assumes st: "stage i op cnd te ee S d d1 c1 te' ee' Ft Fe" and sp: "split_step i (ICondBr op cnd te2 ee2) n j b args d1 d2"
    and r: "dfg_wf d2" "cfg_valid c2" "has_edges c2 (dfg_edges d \<union> Ft2 \<union> Fe2)" "Ft2 \<union> Fe2 = insert (n, j, b) (Ft \<union> Fe)"
    and arms: "arm (dfg_edges d) i (insert b S) d d2 te te2 Ft2" "arm (dfg_edges d) i (insert b S) d d2 ee ee2 Fe2"
  shows "stage i op cnd te ee (insert b S) d d2 c2 te2 ee2 Ft2 Fe2"
proof -
  note st' = st [unfolded stage_def] and sp' = sp [unfolded split_step_def]
  have "set (block_keys d2) = set (block_keys d) \<union> fst ` (Ft2 \<union> Fe2)" using st' sp' r(4) by auto
  moreover have "dfg_entry d2 = dfg_entry d" using st' sp' by simp
  moreover have "\<forall>b bd. dfg_block d b = Some bd \<longrightarrow> dfg_block d2 b = Some bd"
  proof (intro allI impI)
    fix b bd assume "dfg_block d b = Some bd"
    with st' have "dfg_block d1 b = Some bd" by simp
    with sp' show "dfg_block d2 b = Some bd" by (cases "b = n") auto
  qed
  moreover have "\<forall>k nd. dfg_inst_node d k = Some nd \<longrightarrow>
      dfg_inst_node d2 k = Some (if k = i then nd\<lparr>in_data := ICondBr op cnd te2 ee2\<rparr> else nd)"
  proof (intro allI impI)
    fix k nd assume "dfg_inst_node d k = Some nd"
    with st' have "dfg_inst_node d1 k = Some (if k = i then nd\<lparr>in_data := ICondBr op cnd te' ee'\<rparr> else nd)" by simp
    with sp' show "dfg_inst_node d2 k = Some (if k = i then nd\<lparr>in_data := ICondBr op cnd te2 ee2\<rparr> else nd)"
      by (cases "k = j"; cases "k = i") auto
  qed
  moreover have "\<exists>nd. dfg_inst_node d2 k = Some nd \<and> in_block nd = b'" if "(b', k, s) \<in> Ft2 \<union> Fe2" for b' k s
  proof (cases "(b', k, s) \<in> Ft \<union> Fe")
    case True
    with st' obtain nd where "dfg_inst_node d1 k = Some nd" "in_block nd = b'" by blast
    with sp' show ?thesis by (cases "k = j"; cases "k = i") auto
  next
    case False
    with that r(4) have "b' = n" "k = j" by auto
    with sp' show ?thesis by simp
  qed
  ultimately show ?thesis using r(1-3) arms unfolding stage_def by blast
qed

lemma stage_skip:
  "stage i op cnd te ee S d d1 c1 te' ee' Ft Fe \<Longrightarrow> \<not> shared (dfg_edges d) i b \<Longrightarrow>
   stage i op cnd te ee (insert b S) d d1 c1 te' ee' Ft Fe"
  by (auto simp: stage_def arm_def)

lemma stage_step:
  fixes d d1 :: "'f dfg"
  assumes st: "stage i op cnd te ee S d d1 c1 te' ee' Ft Fe" and wf: "dfg_wf d"
    and p: "p \<in> set (block_keys d)" "last_inst d p = Some (Some i)" "inst_data d i = Some (ICondBr op cnd te ee)"
    and dests: "fst te \<noteq> fst ee" "fst te \<in> set (block_keys d)" "fst ee \<in> set (block_keys d)"
    and b: "b \<in> {fst te, fst ee}" "b \<notin> S" "shared (dfg_edges d) i b"
  shows "\<exists>d2 c2 te2 ee2 Ft2 Fe2. split_edge p b (d1, c1) = Some (d2, c2) \<and>
    stage i op cnd te ee (insert b S) d d2 c2 te2 ee2 Ft2 Fe2"
proof -
  define n where "n = length (om_map (dfg_blocks d1))"
  have i: "dfg_inst_node d i \<noteq> None" using p(3) by (auto simp: inst_data_def)
  have arms: "arm (dfg_edges d) i S d d1 te te' Ft" "arm (dfg_edges d) i S d d1 ee ee' Fe" using st by (simp_all add: stage_def)
  consider (then_dest) "b = fst te" | (else_dest) "b = fst ee" using b(1) by blast
  then show ?thesis
  proof cases
    case then_dest
    with arms(1) b(2) have te: "te' = te" "Ft = {}" by (auto simp: arm_def)
    have re: "retarget b n (ICondBr op cnd te' ee' :: 'f instruction) = Some (snd te, ICondBr op cnd (n, []) ee')"
      using te then_dest by (simp add: retarget_def split: prod.splits)
    from stage_split [OF st wf p re n_def] obtain j d2 c2 where
      r: "split_edge p b (d1, c1) = Some (d2, c2)" "split_step i (ICondBr op cnd (n, []) ee') n j b (snd te) d1 d2"
      "dfg_wf d2" "cfg_valid c2" "has_edges c2 (insert (n, j, b) (dfg_edges d \<union> Ft \<union> Fe))"
      "dfg_block d n = None" "dfg_inst_node d j = None" by blast
    have "arm (dfg_edges d) i (insert b S) d d2 te (n, []) {(n, j, b)}"
      using r(2,6,7) then_dest b(3) by (auto simp: arm_def split_step_def inst_data_def)
    moreover have "arm (dfg_edges d) i (insert b S) d d2 ee ee' Fe"
      using arm_step [OF arms(2) r(2) i] then_dest dests(1) by simp
    moreover have "dfg_edges d \<union> {(n, j, b)} \<union> Fe = insert (n, j, b) (dfg_edges d \<union> Ft \<union> Fe)" using te by blast
    ultimately have "stage i op cnd te ee (insert b S) d d2 c2 (n, []) ee' {(n, j, b)} Fe"
      using r(3-5) te by (intro stage_frame [OF st r(2)]) auto
    with r(1) show ?thesis by blast
  next
    case else_dest
    with arms(2) b(2) have ee: "ee' = ee" "Fe = {}" by (auto simp: arm_def)
    have "fst te' \<noteq> b"
    proof (cases "te' = te")
      case False
      with arms(1) have "dfg_block d (fst te') = None" by (auto simp: arm_def split: if_splits)
      with key_block [OF wf dests(3)] else_dest show ?thesis by auto
    qed (use dests(1) else_dest in simp)
    then have re: "retarget b n (ICondBr op cnd te' ee' :: 'f instruction) = Some (snd ee, ICondBr op cnd te' (n, []))"
      using ee by (cases te'; cases ee) (simp add: retarget_def)
    from stage_split [OF st wf p re n_def] obtain j d2 c2 where
      r: "split_edge p b (d1, c1) = Some (d2, c2)" "split_step i (ICondBr op cnd te' (n, [])) n j b (snd ee) d1 d2"
      "dfg_wf d2" "cfg_valid c2" "has_edges c2 (insert (n, j, b) (dfg_edges d \<union> Ft \<union> Fe))"
      "dfg_block d n = None" "dfg_inst_node d j = None" by blast
    have "arm (dfg_edges d) i (insert b S) d d2 ee (n, []) {(n, j, b)}"
      using r(2,6,7) else_dest b(3) by (auto simp: arm_def split_step_def inst_data_def)
    moreover have "arm (dfg_edges d) i (insert b S) d d2 te te' Ft"
      using arm_step [OF arms(1) r(2) i] else_dest dests(1) by simp
    moreover have "dfg_edges d \<union> Ft \<union> {(n, j, b)} = insert (n, j, b) (dfg_edges d \<union> Ft \<union> Fe)" using ee by blast
    ultimately have "stage i op cnd te ee (insert b S) d d2 c2 te' (n, []) Ft {(n, j, b)}"
      using r(3-5) ee by (intro stage_frame [OF st r(2)]) auto
    with r(1) show ?thesis by blast
  qed
qed

lemma block_edges_condbr:
  assumes "last_inst d p = Some (Some i)" "inst_data d i = Some (ICondBr op cnd te ee)"
  shows "block_edges d p = {(p, i, fst te), (p, i, fst ee)}"
  using assms by (auto simp: block_edges_def visit_block_succs_def inst_succs_def)

lemma arm_edges:
  "arm E i S d d' x x' F \<Longrightarrow> F \<subseteq> {(n, j, fst x) | n j. n = fst x' \<and> fst x \<in> S}"
  by (auto simp: arm_def split: if_splits)

lemma dfg_edges_iff: "(q, k, s) \<in> dfg_edges d \<longleftrightarrow> q \<in> set (block_keys d) \<and> (q, k, s) \<in> block_edges d q"
  by (auto simp: dfg_edges_def dest: block_edges_fst)

lemma stage_visit:
  fixes d d1 :: "'f dfg"
  assumes st: "stage i op cnd te ee S d d1 c1 te' ee' Ft Fe" and wf: "dfg_wf d"
    and p: "p \<in> set (block_keys d)" "last_inst d p = Some (Some i)" "inst_data d i = Some (ICondBr op cnd te ee)"
    and dests: "fst te \<noteq> fst ee" "fst te \<in> set (block_keys d)" "fst ee \<in> set (block_keys d)"
    and b: "b \<in> {fst te, fst ee}" "b \<notin> S"
  shows "\<exists>d2 c2 te2 ee2 Ft2 Fe2. split_edges p (b # bs) (d1, c1) = split_edges p bs (d2, c2) \<and>
    stage i op cnd te ee (insert b S) d d2 c2 te2 ee2 Ft2 Fe2"
proof -
  have arms: "arm (dfg_edges d) i S d d1 te te' Ft" "arm (dfg_edges d) i S d d1 ee ee' Fe"
    "has_edges c1 (dfg_edges d \<union> Ft \<union> Fe)" using st by (simp_all add: stage_def)
  have "(p, i, b) \<in> dfg_edges d" using block_edges_condbr [OF p(2,3)] p(1) b(1) by (auto simp: dfg_edges_def)
  then have "num_predecessors c1 b < 2 \<longleftrightarrow> \<not> shared (dfg_edges d \<union> Ft \<union> Fe) i b"
    by (intro preds_shared [OF arms(3), of p]) simp
  also have "shared (dfg_edges d \<union> Ft \<union> Fe) i b \<longleftrightarrow> shared (dfg_edges d) i b"
    using arm_edges [OF arms(1)] arm_edges [OF arms(2)] b(2) by (fastforce simp: shared_def)
  finally have skip: "num_predecessors c1 b < 2 \<longleftrightarrow> \<not> shared (dfg_edges d) i b" .
  show ?thesis
  proof (cases "shared (dfg_edges d) i b")
    case True
    from stage_step [OF st wf p dests b True] skip True show ?thesis by fastforce
  next
    case False
    with stage_skip [OF st False] skip show ?thesis by (intro exI conjI) auto
  qed
qed

lemma set_of_two: "set xs = {a, b} \<Longrightarrow> distinct xs \<Longrightarrow> a \<noteq> b \<Longrightarrow> \<exists>x y. xs = [x, y] \<and> {x, y} = {a, b} \<and> x \<noteq> y"
proof -
  assume s: "set xs = {a, b}" "distinct xs" "a \<noteq> b"
  with distinct_card [OF s(2)] have "length xs = Suc (Suc 0)" by simp
  with s show ?thesis by (auto simp: length_Suc_conv)
qed

lemma split_edges_stage:
  fixes d :: "'f dfg"
  assumes wf: "dfg_wf d" and c: "cfg_valid c" "has_edges c (dfg_edges d)"
    and p: "p \<in> set (block_keys d)" "last_inst d p = Some (Some i)" "inst_data d i = Some (ICondBr op cnd te ee)"
    and dests: "fst te \<noteq> fst ee" "fst te \<in> set (block_keys d)" "fst ee \<in> set (block_keys d)"
  shows "\<exists>d2 c2 te2 ee2 Ft Fe. split_edges p (cn_successors (cfg_data c p)) (d, c) = Some (d2, c2) \<and>
    stage i op cnd te ee {fst te, fst ee} d d2 c2 te2 ee2 Ft Fe"
proof -
  have start: "stage i op cnd te ee {} d d c te ee {} {}"
    using wf c p(3) by (auto simp: stage_def arm_def inst_data_def)
  have "s \<in> set (cn_successors (cfg_data c p)) \<longleftrightarrow> s \<in> {fst te, fst ee}" for s
    using c(2) p(1) block_edges_condbr [OF p(2,3)] unfolding has_edges_def dfg_edges_iff by auto
  then have "set (cn_successors (cfg_data c p)) = {fst te, fst ee}" by blast
  moreover have "distinct (cn_successors (cfg_data c p))"
    using c(2) unfolding has_edges_def set_sorted_def strict_sorted_iff by blast
  ultimately obtain x y where xy: "cn_successors (cfg_data c p) = [x, y]" "{x, y} = {fst te, fst ee}" "x \<noteq> y"
    using dests(1) set_of_two by metis
  have x: "x \<in> {fst te, fst ee}" "x \<notin> {}" using xy(2) by auto
  from stage_visit [OF start wf p dests x, of "[y]"] obtain d1 c1 te1 ee1 Ft1 Fe1 where
    1: "split_edges p [x, y] (d, c) = split_edges p [y] (d1, c1)" "stage i op cnd te ee {x} d d1 c1 te1 ee1 Ft1 Fe1"
    by blast
  have y: "y \<in> {fst te, fst ee}" "y \<notin> {x}" using xy(2,3) by auto
  from stage_visit [OF 1(2) wf p dests y, of "[]"] obtain d2 c2 te2 ee2 Ft2 Fe2 where
    2: "split_edges p [y] (d1, c1) = split_edges p [] (d2, c2)" "stage i op cnd te ee {y, x} d d2 c2 te2 ee2 Ft2 Fe2"
    by blast
  have "{y, x} = {fst te, fst ee}" using xy(2) by auto
  with 1(1) 2 xy(1) show ?thesis by (metis split_edges.simps(1))
qed

text \<open>
  The edges after a block is done: those of the block are new, and so are those of the new blocks.
\<close>

lemma stage_edges:
  fixes d :: "'f dfg"
  assumes st: "stage i op cnd te ee S d d2 c2 te2 ee2 Ft Fe" and wf: "dfg_wf d"
    and p: "p \<in> set (block_keys d)" "last_inst d p = Some (Some i)" "inst_data d i = Some (ICondBr op cnd te ee)"
  shows "visit_block_succs d2 p = Some [(i, fst te2, False), (i, fst ee2, False)]"
    and "\<And>q. q \<in> set (block_keys d) \<Longrightarrow> q \<noteq> p \<Longrightarrow> visit_block_succs d2 q = visit_block_succs d q"
    and "\<And>n j x. (n, j, x) \<in> Ft \<union> Fe \<Longrightarrow> visit_block_succs d2 n = Some [(j, x, False)]"
    and "dfg_edges d2 = {e \<in> dfg_edges d. fst e \<noteq> p} \<union> Ft \<union> Fe \<union> {(p, i, fst te2), (p, i, fst ee2)}"
proof -
  note st' = st [unfolded stage_def]
  obtain nd where nd: "dfg_inst_node d i = Some nd" using p(3) by (auto simp: inst_data_def)
  obtain bd where bd: "dfg_block d p = Some bd" "bd_last bd = Some i" using p(2) by (auto simp: last_inst_eq)
  have last_p: "last_inst d2 p = Some (Some i)" using st' bd by (simp add: last_inst_eq)
  have data_p: "inst_data d2 i = Some (ICondBr op cnd te2 ee2)" using st' nd by (simp add: inst_data_def)
  from last_p data_p show vp: "visit_block_succs d2 p = Some [(i, fst te2, False), (i, fst ee2, False)]"
    by (simp add: visit_block_succs_def inst_succs_def)
  have "in_block nd = p"
  proof -
    have "(p, i, fst te) \<in> dfg_edges d" using block_edges_condbr [OF p(2,3)] p(1) by (simp add: dfg_edges_iff)
    from edge_owner [OF wf this] nd show ?thesis by simp
  qed
  show vq: "visit_block_succs d2 q = visit_block_succs d q" if q: "q \<in> set (block_keys d)" "q \<noteq> p" for q
  proof -
    obtain bq where bq: "dfg_block d q = Some bq" using key_block [OF wf q(1)] by blast
    then have bq2: "dfg_block d2 q = Some bq" using st' by simp
    show ?thesis
    proof (cases "bd_last bq")
      case (Some k)
      then have "k \<in> set (bd_insts bq)" by (auto simp: bd_last_def split: if_splits)
      then obtain nk where nk: "dfg_inst_node d k = Some nk" "in_block nk = q"
        using wf bq unfolding dfg_wf_def blocks_wf_def by blast
      then have "k \<noteq> i" using nd \<open>in_block nd = p\<close> q(2) by auto
      then have "inst_data d2 k = inst_data d k" using st' nk by (simp add: inst_data_def)
      with bq bq2 Some show ?thesis by (simp add: visit_block_succs_def last_inst_eq)
    qed (use bq bq2 in \<open>simp add: visit_block_succs_def last_inst_eq\<close>)
  qed
  show vn: "visit_block_succs d2 n = Some [(j, x, False)]" if "(n, j, x) \<in> Ft \<union> Fe" for n j x
    using that st' by (auto simp: arm_def visit_block_succs_def last_inst_eq bd_last_def inst_succs_def split: if_splits)
  have keys: "set (block_keys d2) = set (block_keys d) \<union> fst ` (Ft \<union> Fe)" using st' by simp
  have "e \<in> dfg_edges d2 \<longleftrightarrow> e \<in> {e \<in> dfg_edges d. fst e \<noteq> p} \<union> Ft \<union> Fe \<union> {(p, i, fst te2), (p, i, fst ee2)}" for e
  proof -
    obtain q k x where e: "e = (q, k, x)" by (cases e) auto
    have new: "q \<notin> set (block_keys d)" if "(q, j, y) \<in> Ft \<union> Fe" for j y
    proof -
      have "dfg_block d q = None" using that st' by (auto simp: arm_def split: if_splits)
      with key_block [OF wf] show ?thesis by force
    qed
    consider (p) "q = p" | (old) "q \<in> set (block_keys d)" "q \<noteq> p" | (new) "q \<in> fst ` (Ft \<union> Fe)" "q \<notin> set (block_keys d)"
      | (none) "q \<notin> set (block_keys d2)" "q \<notin> set (block_keys d)" "q \<noteq> p"
      using keys p(1) by blast
    then show ?thesis
    proof cases
      case p
      then have "(q, k, x) \<notin> Ft \<union> Fe" using new \<open>p \<in> set (block_keys d)\<close> by blast
      moreover have "block_edges d2 p = {(p, i, fst te2), (p, i, fst ee2)}" using vp by (auto simp: block_edges_def)
      ultimately show ?thesis using p \<open>p \<in> set (block_keys d)\<close> keys e by (simp add: dfg_edges_iff)
    next
      case old
      then have "(q, k, x) \<notin> Ft \<union> Fe" using new by blast
      moreover have "block_edges d2 q = block_edges d q" using vq [OF old] by (simp add: block_edges_def)
      ultimately show ?thesis using old keys e by (simp add: dfg_edges_iff)
    next
      case new
      then obtain j y where jy: "(q, j, y) \<in> Ft \<union> Fe" by force
      have "j' = j \<and> y' = y" if "(q, j', y') \<in> Ft \<union> Fe" for j' y' using vn [OF that] vn [OF jy] by simp
      then have "(q, k, x) \<in> Ft \<union> Fe \<longleftrightarrow> k = j \<and> x = y" using jy by blast
      moreover have "block_edges d2 q = {(q, j, y)}" using vn [OF jy] by (auto simp: block_edges_def)
      moreover have "q \<noteq> p" using new(2) p(1) by blast
      ultimately show ?thesis using new keys e by (simp add: dfg_edges_iff)
    next
      case none
      then have "q \<notin> fst ` (Ft \<union> Fe)" using keys by blast
      then have "(q, k, x) \<notin> Ft \<union> Fe" by force
      with none show ?thesis using e by (simp add: dfg_edges_iff)
    qed
  qed
  then show "dfg_edges d2 = {e \<in> dfg_edges d. fst e \<noteq> p} \<union> Ft \<union> Fe \<union> {(p, i, fst te2), (p, i, fst ee2)}" by blast
qed

lemma recompute_stage:
  fixes d :: "'f dfg"
  assumes st: "stage i op cnd te ee S d d2 c2 te2 ee2 Ft Fe" and wf: "dfg_wf d"
    and p: "p \<in> set (block_keys d)" "last_inst d p = Some (Some i)" "inst_data d i = Some (ICondBr op cnd te ee)"
  shows "\<exists>c3. recompute_block d2 p c2 = Some c3 \<and> cfg_valid c3 \<and> has_edges c3 (dfg_edges d2)"
proof -
  note st' = st [unfolded stage_def] and e = stage_edges [OF st wf p]
  let ?E = "{x \<in> dfg_edges d \<union> Ft \<union> Fe. fst x \<noteq> p}"
  have inv: "has_edges (invalidate_block_successors p c2) ?E" "cfg_valid (invalidate_block_successors p c2)"
    using invalidate_edges [of c2 "dfg_edges d \<union> Ft \<union> Fe" p] st' by auto
  obtain c3 where c3: "compute_block d2 p (invalidate_block_successors p c2) = Some c3"
    using e(1) by (simp add: compute_block_def)
  have wf2: "dfg_wf d2" using st' by simp
  have "has_edges c3 (?E \<union> block_edges d2 p) \<and> cfg_valid c3 = cfg_valid (invalidate_block_successors p c2)"
  proof (rule compute_block_edges [OF c3 wf2 inv(1)])
    show "\<exists>nd. dfg_inst_node d2 k = Some nd \<and> in_block nd = b" if "(b, k, s) \<in> ?E" for b k s
      using stage_owner [OF st wf, of b k s] that by blast
  qed
  then have "has_edges c3 (?E \<union> block_edges d2 p)" "cfg_valid c3" using inv(2) by simp_all
  moreover have "?E \<union> block_edges d2 p = dfg_edges d2"
  proof -
    have "fst x \<noteq> p" if "x \<in> Ft \<union> Fe" for x
    proof -
      obtain n j y where x: "x = (n, j, y)" by (cases x) auto
      have "dfg_block d n = None" using that st' x by (auto simp: arm_def split: if_splits)
      with key_block [OF wf p(1)] x show ?thesis by auto
    qed
    moreover have "block_edges d2 p = {(p, i, fst te2), (p, i, fst ee2)}" using e(1) by (auto simp: block_edges_def)
    ultimately show ?thesis unfolding e(4) by blast
  qed
  ultimately show ?thesis using c3 st' by (simp add: recompute_block_def)
qed

end
