(* ===== verification/SplitProps.thy ===== *)
theory SplitProps
  imports SplitEdges DomQueries
begin

text \<open>
  The pass that splits critical edges: it returns, no critical edge is left, and every branch goes
  where it went, with the same arguments.
\<close>

section \<open>No critical edge\<close>

text \<open>If \<open>p\<close> has another successor, its successors have no other predecessor.\<close>

definition noncrit :: "(block \<times> inst \<times> block) set \<Rightarrow> block \<Rightarrow> bool" where
  "noncrit E p \<longleftrightarrow>
     (\<forall>k s. (p, k, s) \<in> E \<longrightarrow> (\<exists>k' s'. (p, k', s') \<in> E \<and> s' \<noteq> s) \<longrightarrow> \<not> shared E k s)"

definition edges_closed :: "'f dfg \<Rightarrow> bool" where
  "edges_closed d \<longleftrightarrow> (\<forall>b k s. (b, k, s) \<in> dfg_edges d \<longrightarrow> s \<in> set (block_keys d))"

lemma arm_cases:
  assumes "arm E i S d d' x x' F" "fst x \<in> S"
  obtains (split) n j where "x' = (n, [])" "F = {(n, j, fst x)}" "dfg_block d n = None" "dfg_inst_node d j = None"
      "dfg_block d' n = Some \<lparr>bd_id = n, bd_params = [], bd_insts = [j]\<rparr>"
      "inst_data d' j = Some (IBr OcBr (fst x) (snd x))" "shared E i (fst x)"
    | (keep) "x' = x" "F = {}" "\<not> shared E i (fst x)"
  using assms by (auto simp: arm_def split: if_splits)

text \<open>A block with a branch of two destinations, before and after it is done.\<close>

definition block_split :: "block \<Rightarrow> inst \<Rightarrow> opcode \<Rightarrow> val \<Rightarrow> block \<times> val list \<Rightarrow> block \<times> val list \<Rightarrow> 'f dfg \<Rightarrow>
    'f dfg \<Rightarrow> control_flow_graph \<Rightarrow> block \<times> val list \<Rightarrow> block \<times> val list \<Rightarrow>
    (block \<times> inst \<times> block) set \<Rightarrow> (block \<times> inst \<times> block) set \<Rightarrow> bool" where
  "block_split p i op cnd te ee d d2 c2 te2 ee2 Ft Fe \<longleftrightarrow>
     stage i op cnd te ee {fst te, fst ee} d d2 c2 te2 ee2 Ft Fe \<and> dfg_wf d \<and> edges_closed d \<and>
     p \<in> set (block_keys d) \<and> last_inst d p = Some (Some i) \<and> inst_data d i = Some (ICondBr op cnd te ee) \<and>
     fst te \<noteq> fst ee"

lemma split_facts:
  assumes "block_split p i op cnd te ee d d2 c2 te2 ee2 Ft Fe"
  shows "arm (dfg_edges d) i {fst te, fst ee} d d2 te te2 Ft" "arm (dfg_edges d) i {fst te, fst ee} d d2 ee ee2 Fe"
    and "(p, k, s) \<in> dfg_edges d \<longleftrightarrow> k = i \<and> s \<in> {fst te, fst ee}"
    and "(q, k, s) \<in> dfg_edges d \<Longrightarrow> q \<noteq> p \<Longrightarrow> k \<noteq> i"
    and "(q, k, s) \<in> dfg_edges d \<Longrightarrow> \<exists>bd. dfg_block d s = Some bd"
    and "dfg_edges d2 = {e \<in> dfg_edges d. fst e \<noteq> p} \<union> Ft \<union> Fe \<union> {(p, i, fst te2), (p, i, fst ee2)}"
    and "(n, j, x) \<in> Ft \<union> Fe \<Longrightarrow> dfg_block d n = None \<and> n \<notin> set (block_keys d) \<and> x \<in> {fst te, fst ee}"
proof -
  note b = assms [unfolded block_split_def]
  then have st: "stage i op cnd te ee {fst te, fst ee} d d2 c2 te2 ee2 Ft Fe" by simp
  show arms: "arm (dfg_edges d) i {fst te, fst ee} d d2 te te2 Ft" "arm (dfg_edges d) i {fst te, fst ee} d d2 ee ee2 Fe"
    using st by (simp_all add: stage_def)
  show pe: "(p, k, s) \<in> dfg_edges d \<longleftrightarrow> k = i \<and> s \<in> {fst te, fst ee}" for k s
    using b block_edges_condbr [of d p i op cnd te ee] by (auto simp: dfg_edges_iff)
  show "k \<noteq> i" if "(q, k, s) \<in> dfg_edges d" "q \<noteq> p"
    using edge_owner [of d q k s] edge_owner [of d p i "fst te"] pe [of i "fst te"] that b by auto
  show "\<exists>bd. dfg_block d s = Some bd" if "(q, k, s) \<in> dfg_edges d"
    using b that key_block [of d s] unfolding edges_closed_def by blast
  show "dfg_edges d2 = {e \<in> dfg_edges d. fst e \<noteq> p} \<union> Ft \<union> Fe \<union> {(p, i, fst te2), (p, i, fst ee2)}"
    using stage_edges(4) [OF st] b by blast
  show "dfg_block d n = None \<and> n \<notin> set (block_keys d) \<and> x \<in> {fst te, fst ee}" if "(n, j, x) \<in> Ft \<union> Fe"
  proof -
    have "dfg_block d n = None \<and> x \<in> {fst te, fst ee}" using that arms by (auto simp: arm_def split: if_splits)
    with key_block [of d n] b show ?thesis by force
  qed
qed

lemma arm_alone:
  assumes b: "block_split p i op cnd te ee d d2 c2 te2 ee2 Ft Fe"
    and x: "arm (dfg_edges d) i {fst te, fst ee} d d2 x x' F" "x \<in> {te, ee}" "F \<subseteq> Ft \<union> Fe"
    and y: "\<And>n j s. (n, j, s) \<in> Ft \<union> Fe \<Longrightarrow> (n, j, s) \<notin> F \<Longrightarrow> s \<noteq> fst x"
  shows "\<not> shared (dfg_edges d2) i (fst x')"
proof
  note f = split_facts [OF b]
  have dest: "\<exists>bd. dfg_block d s = Some bd" if "s \<in> {fst te, fst ee}" for s using f(3) [of i s] f(5) [of p i s] that by blast
  assume "shared (dfg_edges d2) i (fst x')"
  then obtain q k where e: "(q, k, fst x') \<in> dfg_edges d2" "k \<noteq> i" by (auto simp: shared_def)
  then consider "(q, k, fst x') \<in> dfg_edges d" | "(q, k, fst x') \<in> Ft \<union> Fe" using f(6) by auto
  note where_edge = this
  have "fst x \<in> {fst te, fst ee}" using x(2) by auto
  from x(1) this show False
  proof (cases rule: arm_cases)
    case (split n j)
    then have "dfg_block d (fst x') = None" by simp
    with where_edge show False using f(5) [of q k "fst x'"] f(7) [of q k "fst x'"] dest [of "fst x'"] by (cases) auto
  next
    case keep
    with where_edge e(2) show False using y [of q k "fst x'"] by cases (auto simp: shared_def)
  qed
qed

lemma split_noncrit:
  assumes b: "block_split p i op cnd te ee d d2 c2 te2 ee2 Ft Fe"
  shows "noncrit (dfg_edges d2) p"
    and "q \<in> set (block_keys d) \<Longrightarrow> q \<noteq> p \<Longrightarrow> noncrit (dfg_edges d) q \<Longrightarrow> noncrit (dfg_edges d2) q"
    and "(n, j, x) \<in> Ft \<union> Fe \<Longrightarrow> noncrit (dfg_edges d2) n"
proof -
  note f = split_facts [OF b]
  have ne: "fst te \<noteq> fst ee" using b by (simp add: block_split_def)
  have "s = fst ee" if "(n, j, s) \<in> Fe" for n j s using that f(2) by (auto simp: arm_def split: if_splits)
  then have te: "\<not> shared (dfg_edges d2) i (fst te2)" using ne by (intro arm_alone [OF b f(1)]) auto
  have "s = fst te" if "(n, j, s) \<in> Ft" for n j s using that f(1) by (auto simp: arm_def split: if_splits)
  then have ee: "\<not> shared (dfg_edges d2) i (fst ee2)" using ne by (intro arm_alone [OF b f(2)]) auto
  have p_edges: "k = i \<and> s \<in> {fst te2, fst ee2}" if "(p, k, s) \<in> dfg_edges d2" for k s
    using that f(6) f(7) [of p k s] b by (auto simp: block_split_def)
  show "noncrit (dfg_edges d2) p" unfolding noncrit_def using p_edges te ee by blast
  show "noncrit (dfg_edges d2) q" if q: "q \<in> set (block_keys d)" "q \<noteq> p" "noncrit (dfg_edges d) q"
    unfolding noncrit_def
  proof (intro allI impI notI)
    fix k s assume ks: "(q, k, s) \<in> dfg_edges d2" and "\<exists>k' s'. (q, k', s') \<in> dfg_edges d2 \<and> s' \<noteq> s"
      and "shared (dfg_edges d2) k s"
    then obtain q' k' where e: "(q', k', s) \<in> dfg_edges d2" "k' \<noteq> k" by (auto simp: shared_def)
    have same: "(q, k, s) \<in> dfg_edges d2 \<longleftrightarrow> (q, k, s) \<in> dfg_edges d" for k s
      using f(6) f(7) [of q k s] q(1,2) by auto
    have alone: "\<not> shared (dfg_edges d) k s"
      using q(3) ks \<open>\<exists>k' s'. _\<close> unfolding noncrit_def same by blast
    have k: "k \<noteq> i" using f(4) [of q k s] ks same q(2) by blast
    have no: "s \<notin> {fst te, fst ee}" using alone k f(3) [of i s] by (auto simp: shared_def)
    have "(q', k', s) \<in> dfg_edges d \<or> (q', k', s) \<in> Ft \<union> Fe \<or> s \<in> {fst te2, fst ee2}" using e(1) f(6) by auto
    moreover have "(q', k', s) \<notin> dfg_edges d" using alone e(2) by (auto simp: shared_def)
    moreover have "(q', k', s) \<notin> Ft \<union> Fe" using f(7) [of q' k' s] no by blast
    moreover have "s \<noteq> fst te2" using f(1) f(5) [of q k s] ks same no by (auto simp: arm_def split: if_splits)
    moreover have "s \<noteq> fst ee2" using f(2) f(5) [of q k s] ks same no by (auto simp: arm_def split: if_splits)
    ultimately show False by blast
  qed
  show "noncrit (dfg_edges d2) n" if n: "(n, j, x) \<in> Ft \<union> Fe"
  proof -
    have st: "stage i op cnd te ee {fst te, fst ee} d d2 c2 te2 ee2 Ft Fe" and p: "dfg_wf d" "p \<in> set (block_keys d)"
      "last_inst d p = Some (Some i)" "inst_data d i = Some (ICondBr op cnd te ee)"
      using b by (simp_all add: block_split_def)
    have "visit_block_succs d2 n = Some [(j, x, False)]" by (rule stage_edges(3) [OF st p n])
    then show ?thesis by (auto simp: noncrit_def dfg_edges_iff block_edges_def)
  qed
qed

section \<open>The branches go where they went\<close>

text \<open>
  A destination is kept, or it is a new block without parameters whose only instruction branches
  to the old destination with the old arguments.
\<close>

definition dest_split :: "'f dfg \<Rightarrow> 'f dfg \<Rightarrow> block \<times> val list \<Rightarrow> block \<times> val list \<Rightarrow> bool" where
  "dest_split d0 d x x' \<longleftrightarrow> x' = x \<or>
     (snd x' = [] \<and> dfg_block d0 (fst x') = None \<and>
      (\<exists>j. dfg_block d (fst x') = Some \<lparr>bd_id = fst x', bd_params = [], bd_insts = [j]\<rparr> \<and>
           inst_data d j = Some (IBr OcBr (fst x) (snd x))))"

definition inst_split :: "'f dfg \<Rightarrow> 'f dfg \<Rightarrow> 'f instruction \<Rightarrow> 'f instruction \<Rightarrow> bool" where
  "inst_split d0 d ix ix' \<longleftrightarrow> ix' = ix \<or>
     (\<exists>op cnd te ee te' ee'. ix = ICondBr op cnd te ee \<and> ix' = ICondBr op cnd te' ee' \<and>
        dest_split d0 d te te' \<and> dest_split d0 d ee ee')"

definition splits :: "'f dfg \<Rightarrow> 'f dfg \<Rightarrow> bool" where
  "splits d0 d \<longleftrightarrow>
     dfg_entry d = dfg_entry d0 \<and> set (block_keys d0) \<subseteq> set (block_keys d) \<and>
     (\<forall>b bd. dfg_block d0 b = Some bd \<longrightarrow> dfg_block d b = Some bd) \<and>
     (\<forall>i nd. dfg_inst_node d0 i = Some nd \<longrightarrow>
        (\<exists>ix'. dfg_inst_node d i = Some (nd\<lparr>in_data := ix'\<rparr>) \<and> inst_split d0 d (in_data nd) ix'))"

lemma splits_refl: "splits d d"
  unfolding splits_def inst_split_def by (metis inst_node.surjective inst_node.update_convs(3) order_refl)

lemma dest_split_mono:
  assumes "dest_split d0 d x x'" "stage i op cnd te ee S d d2 c2 te2 ee2 Ft Fe" "inst_data d i = Some (ICondBr op cnd te ee)"
  shows "dest_split d0 d2 x x'"
proof (cases "x' = x")
  case False
  with assms(1) obtain j where j: "snd x' = []" "dfg_block d0 (fst x') = None"
    "dfg_block d (fst x') = Some \<lparr>bd_id = fst x', bd_params = [], bd_insts = [j]\<rparr>" "inst_data d j = Some (IBr OcBr (fst x) (snd x))"
    by (auto simp: dest_split_def)
  then have "j \<noteq> i" using assms(3) by auto
  then have "inst_data d2 j = inst_data d j" "dfg_block d2 (fst x') = dfg_block d (fst x')"
    using assms(2) j(3,4) by (auto simp: stage_def inst_data_def)
  with j show ?thesis by (auto simp: dest_split_def)
qed (simp add: dest_split_def)

lemma splits_step:
  fixes d :: "'f dfg"
  assumes s: "splits d0 d" and b: "block_split p i op cnd te ee d d2 c2 te2 ee2 Ft Fe"
    and i: "dfg_inst_node d i = dfg_inst_node d0 i"
  shows "splits d0 d2"
proof -
  have st: "stage i op cnd te ee {fst te, fst ee} d d2 c2 te2 ee2 Ft Fe" and data: "inst_data d i = Some (ICondBr op cnd te ee)"
    using b by (simp_all add: block_split_def)
  note st' = st [unfolded stage_def] and s' = s [unfolded splits_def]
  have old: "dfg_block d0 n = None" if "dfg_block d n = None" for n
    using that s' by (cases "dfg_block d0 n") auto
  have arm_dest: "dest_split d0 d2 x x'" if "arm (dfg_edges d) i {fst te, fst ee} d d2 x x' F" for x x' F
    using that old by (auto simp: arm_def dest_split_def split: if_splits)
  have "\<exists>ix'. dfg_inst_node d2 k = Some (nd\<lparr>in_data := ix'\<rparr>) \<and> inst_split d0 d2 (in_data nd) ix'"
    if k: "dfg_inst_node d0 k = Some nd" for k nd
  proof (cases "k = i")
    case True
    then have nd: "dfg_inst_node d i = Some nd" "in_data nd = ICondBr op cnd te ee"
      using i k data by (auto simp: inst_data_def)
    then have "dfg_inst_node d2 k = Some (nd\<lparr>in_data := ICondBr op cnd te2 ee2\<rparr>)" using st' True by simp
    moreover have "dest_split d0 d2 te te2" "dest_split d0 d2 ee ee2"
      using arm_dest [of te te2 Ft] arm_dest [of ee ee2 Fe] st' by simp_all
    then have "inst_split d0 d2 (in_data nd) (ICondBr op cnd te2 ee2)" using nd(2) unfolding inst_split_def by blast
    ultimately show ?thesis by blast
  next
    case False
    from s' k obtain ix' where ix: "dfg_inst_node d k = Some (nd\<lparr>in_data := ix'\<rparr>)" "inst_split d0 d (in_data nd) ix'" by blast
    then have "dfg_inst_node d2 k = Some (nd\<lparr>in_data := ix'\<rparr>)" using st' False by simp
    moreover have "inst_split d0 d2 (in_data nd) ix'"
      using ix(2) unfolding inst_split_def by (elim disjE exE conjE) (auto intro: dest_split_mono [OF _ st data])
    ultimately show ?thesis by blast
  qed
  moreover have "dfg_entry d2 = dfg_entry d0" using s' st' by simp
  moreover have "set (block_keys d0) \<subseteq> set (block_keys d2)" using s' st' by blast
  moreover have "\<forall>b bd. dfg_block d0 b = Some bd \<longrightarrow> dfg_block d2 b = Some bd" using s' st' by blast
  ultimately show ?thesis unfolding splits_def by blast
qed

section \<open>The worklist\<close>

definition fresh_keys :: "'f dfg \<Rightarrow> 'f dfg \<Rightarrow> block set" where
  "fresh_keys d0 d = set (block_keys d) - set (block_keys d0)"

definition split_inv :: "'f dfg \<Rightarrow> block set \<Rightarrow> block set \<Rightarrow> 'f dfg \<Rightarrow> control_flow_graph \<Rightarrow> bool" where
  "split_inv d0 V W d c \<longleftrightarrow>
     dfg_wf d \<and> cfg_valid c \<and> has_edges c (dfg_edges d) \<and> edges_closed d \<and> splits d0 d \<and>
     (\<forall>b \<in> set (block_keys d). visit_block_succs d b \<noteq> None) \<and>
     (\<forall>q \<in> set (block_keys d0) - V. \<forall>i. last_inst d0 q = Some (Some i) \<longrightarrow> dfg_inst_node d i = dfg_inst_node d0 i) \<and>
     (\<forall>q \<in> V \<union> fresh_keys d0 d. noncrit (dfg_edges d) q) \<and>
     (\<forall>q \<in> V \<union> fresh_keys d0 d. \<forall>k s. (q, k, s) \<in> dfg_edges d \<longrightarrow> s \<in> V \<union> W \<union> fresh_keys d0 d) \<and>
     V \<union> W \<subseteq> set (block_keys d0) \<and> entry_block d0 \<in> V \<union> W"

definition no_switch :: "'f dfg \<Rightarrow> bool" where
  "no_switch d \<longleftrightarrow> (\<forall>b \<in> set (block_keys d). \<forall>i. last_inst d b = Some (Some i) \<longrightarrow>
     (\<forall>op v arms b. inst_data d i \<noteq> Some (ISwitch op v arms b)))"

lemma unvisited_succs:
  assumes inv: "split_inv d0 V W d c" and wf: "dfg_wf d0" and p: "p \<in> set (block_keys d0)" "p \<notin> V"
  shows "last_inst d p = last_inst d0 p" and "visit_block_succs d p = visit_block_succs d0 p"
    and "s \<in> set (cn_successors (cfg_data c p)) \<longleftrightarrow> (\<exists>k. (p, k, s) \<in> dfg_edges d0)"
    and "p \<in> set (block_keys d)"
proof -
  note i = inv [unfolded split_inv_def splits_def]
  obtain bd where bd: "dfg_block d0 p = Some bd" using key_block [OF wf p(1)] by blast
  then have "dfg_block d p = Some bd" using i by blast
  with bd show last: "last_inst d p = last_inst d0 p" by (simp add: last_inst_eq)
  have "inst_data d k = inst_data d0 k" if "last_inst d0 p = Some (Some k)" for k
  proof -
    have "dfg_inst_node d k = dfg_inst_node d0 k" using i that p by blast
    then show ?thesis by (simp add: inst_data_def)
  qed
  with bd show v: "visit_block_succs d p = visit_block_succs d0 p"
    by (cases "bd_last bd") (simp_all add: visit_block_succs_def last last_inst_eq [of d0])
  show pd: "p \<in> set (block_keys d)" using i p by blast
  have "s \<in> set (cn_successors (cfg_data c p)) \<longleftrightarrow> (\<exists>k. (p, k, s) \<in> dfg_edges d)"
    using i unfolding has_edges_def by blast
  with v pd p(1) show "s \<in> set (cn_successors (cfg_data c p)) \<longleftrightarrow> (\<exists>k. (p, k, s) \<in> dfg_edges d0)"
    by (simp add: dfg_edges_iff block_edges_def)
qed

lemma inst_succs_two:
  assumes "inst_succs i data = Some vs" "(i, s, f) \<in> set vs" "(i, s', f') \<in> set vs" "s \<noteq> s'"
    "\<And>op v arms b. data \<noteq> ISwitch op v arms b"
  shows "\<exists>op cnd te ee. data = ICondBr op cnd te ee \<and> fst te \<noteq> fst ee"
  using assms by (cases data) (auto simp: inst_succs_def bind_assert_that split: if_splits)

lemma last_owner:
  assumes "dfg_wf d" "last_inst d b = Some (Some i)"
  shows "\<exists>nd. dfg_inst_node d i = Some nd \<and> in_block nd = b"
proof -
  obtain bd where bd: "dfg_block d b = Some bd" "bd_last bd = Some i" using assms(2) by (auto simp: last_inst_eq)
  then have "i \<in> set (bd_insts bd)" by (auto simp: bd_last_def split: if_splits)
  with assms(1) bd(1) show ?thesis unfolding dfg_wf_def blocks_wf_def by blast
qed

lemma split_block_inv:
  fixes d0 :: "'f dfg"
  assumes inv: "split_inv d0 V W d c" and wf: "dfg_wf d0" and ns: "no_switch d0"
    and p: "p \<in> set (block_keys d0)" "p \<notin> V" "p \<in> W"
    and succs: "succs = cn_successors (cfg_data c p)" "set succs \<subseteq> set (block_keys d0)"
  shows "\<exists>d2 c2. split_block p succs (d, c) = Some (d2, c2) \<and>
    split_inv d0 (insert p V) (W - {p} \<union> set succs) d2 c2"
proof -
  note I = inv [unfolded split_inv_def]
  note u = unvisited_succs [OF inv wf p(1,2)]
  have edge: "(p, k, s) \<in> dfg_edges d \<Longrightarrow> s \<in> set succs" for k s
    using I succs(1) unfolding has_edges_def by blast
  show ?thesis
  proof (cases "num_successors c p < 2")
    case True
    have E: "has_edges c (dfg_edges d)" using I by blast
    have "noncrit (dfg_edges d) p" using True succs_two [OF E, of p] unfolding noncrit_def by blast
    then have "split_inv d0 (insert p V) (W - {p} \<union> set succs) d c"
      using I edge p succs(2) unfolding split_inv_def by blast
    with True show ?thesis by (simp add: split_block_def)
  next
    case False
    have E: "has_edges c (dfg_edges d)" using I by blast
    from False succs_two [OF E, of p] obtain k k' s s' where
      ks: "(p, k, s) \<in> dfg_edges d" "(p, k', s') \<in> dfg_edges d" "s \<noteq> s'" by blast
    then obtain vs f f' where vs: "visit_block_succs d p = Some vs" "(k, s, f) \<in> set vs" "(k', s', f') \<in> set vs"
      by (auto simp: dfg_edges_iff block_edges_def)
    then obtain i data where i: "last_inst d p = Some (Some i)" "inst_data d i = Some data" "inst_succs i data = Some vs"
      by (auto simp: visit_block_succs_def split: option.splits)
    then have "k = i" "k' = i" using vs(2,3) by (auto dest: inst_succs_inst)
    have node: "dfg_inst_node d i = dfg_inst_node d0 i" using I p i(1) u(1) by auto
    then have "inst_data d0 i = Some data" using i(2) by (simp add: inst_data_def)
    then have "data \<noteq> ISwitch op v arms b" for op v arms b
      using ns p(1) i(1) u(1) unfolding no_switch_def by metis
    from inst_succs_two [OF i(3) _ _ ks(3) this] vs(2,3) \<open>k = i\<close> \<open>k' = i\<close> obtain op cnd te ee where
      data: "data = ICondBr op cnd te ee" "fst te \<noteq> fst ee" by blast
    have pe: "block_edges d p = {(p, i, fst te), (p, i, fst ee)}" by (rule block_edges_condbr) (use i data in simp_all)
    have dk: "fst te \<in> set succs" "fst ee \<in> set succs"
      using edge [of i] u(4) pe by (simp_all add: dfg_edges_iff)
    have cl: "edges_closed d" "dfg_wf d" "cfg_valid c" using I by blast+
    have dests: "fst te \<in> set (block_keys d)" "fst ee \<in> set (block_keys d)"
      using cl(1) u(4) pe unfolding edges_closed_def dfg_edges_iff by blast+
    from split_edges_stage [OF cl(2,3) E u(4) i(1) _ data(2) dests] i(2) data(1) obtain d2 c2 te2 ee2 Ft Fe where
      st: "split_edges p succs (d, c) = Some (d2, c2)" "stage i op cnd te ee {fst te, fst ee} d d2 c2 te2 ee2 Ft Fe"
      using succs(1) by blast
    have b: "block_split p i op cnd te ee d d2 c2 te2 ee2 Ft Fe"
      using st(2) cl u(4) i data by (simp add: block_split_def)
    have "inst_data d i = Some (ICondBr op cnd te ee)" using i(2) data(1) by simp
    from recompute_stage [OF st(2) cl(2) u(4) i(1) this] obtain c3 where
      c3: "recompute_block d2 p c2 = Some c3" "cfg_valid c3" "has_edges c3 (dfg_edges d2)" by blast
    note e = stage_edges [OF st(2) cl(2) u(4) i(1) \<open>inst_data d i = Some (ICondBr op cnd te ee)\<close>] and f = split_facts [OF b]
    have keys: "set (block_keys d2) = set (block_keys d) \<union> fst ` (Ft \<union> Fe)" and wf2: "dfg_wf d2"
      using st(2) by (simp_all add: stage_def)
    have t2: "fst te2 \<in> insert (fst te) (fst ` (Ft \<union> Fe))" "fst ee2 \<in> insert (fst ee) (fst ` (Ft \<union> Fe))"
      using f(1,2) by (auto simp: arm_def split: if_splits)
    have new: "n \<notin> set (block_keys d)" if "n \<in> fst ` (Ft \<union> Fe)" for n using that f(7) by fastforce
    have old: "set (block_keys d0) \<subseteq> set (block_keys d)" using I unfolding splits_def by blast
    have fresh: "fresh_keys d0 d2 = fresh_keys d0 d \<union> fst ` (Ft \<union> Fe)"
      using keys new old by (auto simp: fresh_keys_def)
    have to: "x \<in> {fst te, fst ee}" if "(n, j, x) \<in> Ft \<union> Fe" for n j x using f(7) [OF that] by blast
    have same: "(q, k, s) \<in> dfg_edges d" if "(q, k, s) \<in> dfg_edges d2" "q \<in> set (block_keys d)" "q \<noteq> p" for q k s
      using that f(6) f(7) [of q k s] by auto
    have closed2: "edges_closed d2"
      unfolding edges_closed_def
    proof (intro allI impI)
      fix b k s assume "(b, k, s) \<in> dfg_edges d2"
      then consider "(b, k, s) \<in> dfg_edges d" | "(b, k, s) \<in> Ft \<union> Fe" | "s \<in> {fst te2, fst ee2}" using f(6) by auto
      then have "s \<in> set (block_keys d) \<or> s \<in> {fst te2, fst ee2}"
      proof cases
        case 2
        from to [OF this] dests show ?thesis by blast
      qed (use cl(1) in \<open>auto simp: edges_closed_def\<close>)
      then show "s \<in> set (block_keys d2)" using t2 dests keys by auto
    qed
    have total: "visit_block_succs d2 b \<noteq> None" if bk: "b \<in> set (block_keys d2)" for b
    proof (cases "b = p")
      case False
      show ?thesis
      proof (cases "b \<in> set (block_keys d)")
        case True
        with e(2) [OF True False] I show ?thesis by simp
      next
        case False
        then obtain j x where "(b, j, x) \<in> Ft \<union> Fe" using bk keys by force
        from e(3) [OF this] show ?thesis by simp
      qed
    qed (use e(1) in simp)
    have untouched: "dfg_inst_node d2 k = dfg_inst_node d0 k"
      if q: "q \<in> set (block_keys d0) - insert p V" and k: "last_inst d0 q = Some (Some k)" for q k
    proof -
      have dk: "dfg_inst_node d k = dfg_inst_node d0 k" using I q k by blast
      obtain nk where nk: "dfg_inst_node d0 k = Some nk" "in_block nk = q" using last_owner [OF wf k] by blast
      obtain ni where "dfg_inst_node d0 i = Some ni" "in_block ni = p" using last_owner [OF wf] u(1) i(1) by metis
      with nk q have "k \<noteq> i" by auto
      with st(2) dk nk show ?thesis by (simp add: stage_def)
    qed
    have V: "V \<subseteq> set (block_keys d0)" using I by blast
    have nc: "noncrit (dfg_edges d2) q" if q: "q \<in> insert p V \<union> fresh_keys d0 d2" for q
    proof -
      consider "q = p" | "q \<in> V \<union> fresh_keys d0 d" "q \<noteq> p" | "q \<in> fst ` (Ft \<union> Fe)" using q fresh by blast
      then show ?thesis
      proof cases
        case 1
        then show ?thesis using split_noncrit(1) [OF b] by simp
      next
        case 2
        then have "q \<in> set (block_keys d)" using old V by (auto simp: fresh_keys_def)
        from split_noncrit(2) [OF b this 2(2)] show ?thesis using 2(1) I by blast
      next
        case 3
        then obtain j x where "(q, j, x) \<in> Ft \<union> Fe" by force
        from split_noncrit(3) [OF b this] show ?thesis .
      qed
    qed
    have I7: "\<forall>q \<in> V \<union> fresh_keys d0 d. \<forall>k s. (q, k, s) \<in> dfg_edges d \<longrightarrow> s \<in> V \<union> W \<union> fresh_keys d0 d"
      using I by simp
    have next_in: "s \<in> insert p V \<union> (W - {p} \<union> set succs) \<union> fresh_keys d0 d2"
      if q: "q \<in> insert p V \<union> fresh_keys d0 d2" and s: "(q, k, s) \<in> dfg_edges d2" for q k s
    proof -
      consider "q = p" | "q \<in> V \<union> fresh_keys d0 d" "q \<noteq> p" | "q \<in> fst ` (Ft \<union> Fe)" "q \<noteq> p" using q fresh by blast
      then show ?thesis
      proof cases
        case 1
        with f(7) [of q k s] u(4) have "(q, k, s) \<notin> Ft \<union> Fe" by blast
        moreover have "(q, k, s) \<notin> {e \<in> dfg_edges d. fst e \<noteq> p}" using 1 by simp
        ultimately have "(q, k, s) \<in> {(p, i, fst te2), (p, i, fst ee2)}" using s unfolding f(6) by (elim UnE) simp_all
        then have "s = fst te2 \<or> s = fst ee2" by (elim insertE) simp_all
        then have "s \<in> insert (fst te) (insert (fst ee) (fst ` (Ft \<union> Fe)))" using t2 by (elim disjE) (simp_all only: insert_iff, metis+)
        then show ?thesis using dk unfolding fresh by (elim insertE) simp_all
      next
        case 2
        then have "q \<in> set (block_keys d)" using old V by (auto simp: fresh_keys_def)
        from I7 [rule_format, OF 2(1) same [OF s this 2(2)]] show ?thesis using fresh by blast
      next
        case 3
        have "(q, k, s) \<notin> dfg_edges d" using new [OF 3(1)] by (simp add: dfg_edges_iff)
        with s f(6) 3(2) have "(q, k, s) \<in> Ft \<union> Fe" by simp
        from to [OF this] show ?thesis using dk by blast
      qed
    qed
    have sp: "splits d0 d" and W: "V \<union> W \<subseteq> set (block_keys d0)" "entry_block d0 \<in> V \<union> W" using I by simp_all
    have "splits d0 d2" by (rule splits_step [OF sp b node])
    moreover have "\<forall>b \<in> set (block_keys d2). visit_block_succs d2 b \<noteq> None" using total by blast
    moreover have "\<forall>q \<in> set (block_keys d0) - insert p V. \<forall>k. last_inst d0 q = Some (Some k) \<longrightarrow>
        dfg_inst_node d2 k = dfg_inst_node d0 k" using untouched by blast
    moreover have "\<forall>q \<in> insert p V \<union> fresh_keys d0 d2. noncrit (dfg_edges d2) q" using nc by blast
    moreover have "\<forall>q \<in> insert p V \<union> fresh_keys d0 d2. \<forall>k s. (q, k, s) \<in> dfg_edges d2 \<longrightarrow>
        s \<in> insert p V \<union> (W - {p} \<union> set succs) \<union> fresh_keys d0 d2" by (intro ballI allI impI next_in)
    moreover have "insert p V \<union> (W - {p} \<union> set succs) \<subseteq> set (block_keys d0)" using p(1) succs(2) W(1) by blast
    moreover have "entry_block d0 \<in> insert p V \<union> (W - {p} \<union> set succs)" using W(2) by blast
    ultimately have "split_inv d0 (insert p V) (W - {p} \<union> set succs) d2 c3"
      using wf2 c3(2,3) closed2 unfolding split_inv_def by (intro conjI) assumption+
    moreover have "split_block p succs (d, c) = Some (d2, c3)"
      using False st(1) c3(1) by (simp add: split_block_def)
    ultimately show ?thesis by blast
  qed
qed

lemma split_inv_cong: "V \<union> W = V \<union> W' \<Longrightarrow> split_inv d0 V W d c = split_inv d0 V W' d c"
  by (simp add: split_inv_def)

lemma split_loop_inv:
  fixes d0 :: "'f dfg"
  assumes wf: "dfg_wf d0" and ns: "no_switch d0" and cl0: "edges_closed d0"
  shows "split_inv d0 (set vs) (set ws) d c \<Longrightarrow>
    \<exists>d2 c2 V. split_loop vs ws (d, c) = Some (d2, c2) \<and> split_inv d0 V {} d2 c2"
proof (induction "(card (set (block_keys d0) - set vs), length ws)" arbitrary: vs ws d c
    rule: wf_induct_rule [OF wf_lex_prod [OF wf_less_than wf_less_than]])
  case 1
  show ?case
  proof (cases ws)
    case Nil
    with 1(2) show ?thesis by (subst split_loop.simps) auto
  next
    case (Cons p ws')
    show ?thesis
    proof (cases "p \<in> set vs")
      case True
      then have "split_inv d0 (set vs) (set ws') d c"
        using 1(2) Cons unfolding split_inv_def by (simp add: insert_absorb)
      from 1(1) [OF _ this] Cons have "\<exists>d2 c2 V. split_loop vs ws' (d, c) = Some (d2, c2) \<and> split_inv d0 V {} d2 c2" by simp
      with Cons True show ?thesis by (subst split_loop.simps) simp
    next
      case False
      define succs where "succs = cn_successors (cfg_data c p)"
      have p: "p \<in> set (block_keys d0)" using 1(2) Cons by (simp add: split_inv_def)
      have sk: "set succs \<subseteq> set (block_keys d0)"
        using unvisited_succs(3) [OF 1(2) wf p False] cl0 unfolding succs_def edges_closed_def by blast
      have pw: "p \<in> set ws" using Cons by simp
      from split_block_inv [OF 1(2) wf ns p False pw succs_def sk] obtain d1 c1 where
        b: "split_block p succs (d, c) = Some (d1, c1)" "split_inv d0 (insert p (set vs)) (set ws - {p} \<union> set succs) d1 c1"
        by blast
      have "set (p # vs) \<union> (set ws - {p} \<union> set succs) = set (p # vs) \<union> set (ws' @ succs)" using Cons by auto
      from split_inv_cong [OF this, of d0 d1 c1] b(2) have inv: "split_inv d0 (set (p # vs)) (set (ws' @ succs)) d1 c1"
        by simp
      have "card (set (block_keys d0) - set (p # vs)) < card (set (block_keys d0) - set vs)"
        using p False by (intro psubset_card_mono) auto
      with 1(1) [OF _ inv] obtain d2 c2 V where
        r: "split_loop (p # vs) (ws' @ succs) (d1, c1) = Some (d2, c2)" "split_inv d0 V {} d2 c2" by auto
      have "succ_iter c p = Some succs" using 1(2) by (simp add: split_inv_def succ_iter_def succs_def)
      then have "split_loop vs ws (d, c) = Some (d2, c2)"
        using r(1) b(1) Cons False by (subst split_loop.simps) simp
      with r(2) show ?thesis by blast
    qed
  qed
qed

section \<open>The property\<close>

lemma start_inv:
  assumes "dfg_wf d" "cfg_closed d" "cfg_compute d c0 = Some c"
  shows "edges_closed d" and "split_inv d {} {entry_block d} d c"
proof -
  have total: "visit_block_succs d b \<noteq> None" if "b \<in> set (block_keys d)" for b
    using assms(3) compute_blocks_visits that by (fastforce simp: cfg_compute_def)
  show closed: "edges_closed d"
    unfolding edges_closed_def
  proof (intro allI impI)
    fix b k s assume "(b, k, s) \<in> dfg_edges d"
    then obtain vs f where vs: "b \<in> set (block_keys d)" "visit_block_succs d b = Some vs" "(k, s, f) \<in> set vs"
      by (auto simp: dfg_edges_iff block_edges_def)
    then have "s \<in> block_succs d b" using visit_dests [OF vs(2)] by force
    then show "s \<in> set (block_keys d)" using assms(2) vs(1) by (fastforce simp: cfg_closed_def block_succs_def)
  qed
  show "split_inv d {} {entry_block d} d c"
    using assms closed cfg_compute_edges [OF assms(3,1)] total splits_refl [of d]
    by (auto simp: split_inv_def fresh_keys_def cfg_closed_def)
qed

lemma final_graph:
  assumes inv: "split_inv d0 V {} d c"
  shows "cfg_compute d c0 = Some c" and "reachable d b \<Longrightarrow> b \<in> V \<union> fresh_keys d0 d"
proof -
  note I = inv [unfolded split_inv_def]
  have total: "visit_block_succs d b \<noteq> None" if "b \<in> set (block_keys d)" for b using I that by blast
  have "\<exists>c2. compute_blocks d bs c1 = Some c2" if "set bs \<subseteq> set (block_keys d)" for bs c1
    using that total by (induction bs arbitrary: c1) (fastforce simp: compute_block_def)+
  from this [of "block_keys d" "cfg_clear c0"] obtain c2 where c2: "cfg_compute d c0 = Some c2" by (auto simp: cfg_compute_def)
  have "dfg_wf d" "cfg_valid c" "has_edges c (dfg_edges d)" using I by simp_all
  with cfg_compute_edges [OF c2] c2 has_edges_unique [of c2 "dfg_edges d" c] show "cfg_compute d c0 = Some c" by auto
  have V: "V \<union> fresh_keys d0 d \<subseteq> set (block_keys d)" using I by (auto simp: splits_def fresh_keys_def)
  show "b \<in> V \<union> fresh_keys d0 d" if "reachable d b"
    using that
  proof (rule reachable_in)
    show "entry_block d \<in> V \<union> fresh_keys d0 d" using I by (simp add: splits_def entry_block_def)
    fix u s assume u: "u \<in> V \<union> fresh_keys d0 d" "s \<in> block_succs d u"
    with V total obtain ws where ws: "visit_block_succs d u = Some ws" by blast
    then obtain k f where "(k, s, f) \<in> set ws" using u(2) visit_dests [OF ws] by force
    then have "(u, k, s) \<in> dfg_edges d" using ws u(1) V by (auto simp: dfg_edges_iff block_edges_def)
    moreover have "\<forall>q \<in> V \<union> fresh_keys d0 d. \<forall>k s. (q, k, s) \<in> dfg_edges d \<longrightarrow> s \<in> V \<union> {} \<union> fresh_keys d0 d"
      using I by simp
    ultimately show "s \<in> V \<union> fresh_keys d0 d" using u(1) by simp
  qed
qed

lemma noncrit_preds:
  assumes "has_edges c E" "noncrit E b" "2 \<le> num_successors c b" "s \<in> set (cn_successors (cfg_data c b))"
  shows "num_predecessors c s = 1"
proof -
  obtain k where k: "(b, k, s) \<in> E" using assms(1,4) by (auto simp: has_edges_def)
  have "\<not> num_successors c b < 2" using assms(3) by simp
  then obtain k' s' where "(b, k', s') \<in> E" "s' \<noteq> s" unfolding succs_two [OF assms(1)] by metis
  with assms(2) k have "\<not> shared E k s" unfolding noncrit_def by blast
  then have "num_predecessors c s < 2" using preds_shared [OF assms(1) k] by simp
  moreover have "(k, b) \<in> set (cn_predecessors (cfg_data c s))" using assms(1) k by (simp add: has_edges_def)
  then have "num_predecessors c s \<noteq> 0" by (auto simp: num_predecessors_def)
  ultimately show ?thesis by simp
qed

text \<open>
  C28. On a well-formed function without switches the pass ends without a panic, keeps every
  instruction except that some destinations of branches go through new blocks that branch on
  with the same arguments, leaves the control flow graph as its computation from scratch would
  give it, and then no reachable block with several successors has a successor with several
  predecessors.
\<close>

theorem critical_edges_are_split:
  assumes "dfg_wf (hf_dfg f)" "cfg_closed (hf_dfg f)" "cfg_compute (hf_dfg f) c0 = Some c" "no_switch (hf_dfg f)"
  shows "\<exists>f' c'. split_critical_edges f c = Some (f', c') \<and> dfg_wf (hf_dfg f') \<and>
    cfg_compute (hf_dfg f') c0 = Some c' \<and> splits (hf_dfg f) (hf_dfg f') \<and>
    (\<forall>b s. reachable (hf_dfg f') b \<and> 2 \<le> num_successors c' b \<and> s \<in> set (cn_successors (cfg_data c' b)) \<longrightarrow>
       num_predecessors c' s = 1)"
proof -
  note start = start_inv [OF assms(1-3)]
  have "split_inv (hf_dfg f) (set []) (set [entry_block (hf_dfg f)]) (hf_dfg f) c" using start(2) by simp
  from split_loop_inv [OF assms(1,4) start(1) this] obtain d' c' V where
    r: "split_loop [] [entry_block (hf_dfg f)] (hf_dfg f, c) = Some (d', c')" "split_inv (hf_dfg f) V {} d' c'" by blast
  note I = r(2) [unfolded split_inv_def]
  have "num_predecessors c' s = 1"
    if b: "reachable d' b" "2 \<le> num_successors c' b" "s \<in> set (cn_successors (cfg_data c' b))" for b s
    using noncrit_preds [OF _ _ b(2,3), of "dfg_edges d'"] final_graph(2) [OF r(2) b(1)] I by blast
  moreover have "split_critical_edges f c = Some (f\<lparr>hf_dfg := d'\<rparr>, c')" using r(1) by (simp add: split_critical_edges_def)
  moreover have "dfg_wf d'" "splits (hf_dfg f) d'" using I by simp_all
  ultimately show ?thesis
    using final_graph(1) [OF r(2)] by (intro exI [of _ "f\<lparr>hf_dfg := d'\<rparr>"] exI [of _ c'] conjI) auto
qed

text \<open>
  An example: the entry block branches to block 2 and to block 1, which goes on to block 2, so
  that the edge from the entry to block 2 is critical.
\<close>

definition crit_dfg :: "int dfg" where
  "crit_dfg =
     \<lparr>dfg_entry = 0,
      dfg_blocks = \<lparr>om_list = [0, 1, 2], om_map =
        [Some \<lparr>bd_id = 0, bd_params = [0], bd_insts = [0]\<rparr>, Some \<lparr>bd_id = 1, bd_params = [], bd_insts = [1]\<rparr>,
         Some \<lparr>bd_id = 2, bd_params = [], bd_insts = [2]\<rparr>]\<rparr>,
      dfg_insts =
        [Some \<lparr>in_key = 0, in_block = 0, in_data = ICondBr OcCondBr 0 (1, []) (2, [])\<rparr>,
         Some \<lparr>in_key = 1, in_block = 1, in_data = IBr OcBr 2 []\<rparr>,
         Some \<lparr>in_key = 2, in_block = 2, in_data = IRet OcRet []\<rparr>],
      dfg_results = (\<lambda>_. []), dfg_values = [VParam TyI1 0 0], dfg_imports = Map.empty, dfg_globals = []\<rparr>"

definition crit_function :: "int hir_function" where
  "crit_function = \<lparr>hf_id = FunctionIdent ''m'' ''f'',
     hf_signature = \<lparr>sig_params = [], sig_results = [], sig_cc = CcFast, sig_linkage = LkExternal\<rparr>,
     hf_dfg = crit_dfg\<rparr>"

lemmas crit_eval = crit_dfg_def dfg_block_get am_get_def nth_Cons' inst_data_def dfg_inst_node_def block_keys_def om_keys_def

lemma crit_block:
  "dfg_block crit_dfg b =
     (if b = 0 then Some \<lparr>bd_id = 0, bd_params = [0], bd_insts = [0]\<rparr>
      else if b = 1 then Some \<lparr>bd_id = 1, bd_params = [], bd_insts = [1]\<rparr>
      else if b = 2 then Some \<lparr>bd_id = 2, bd_params = [], bd_insts = [2]\<rparr> else None)"
  by (auto simp: crit_eval)

lemma crit_inst:
  "inst_data crit_dfg i =
     (if i = 0 then Some (ICondBr OcCondBr 0 (1, []) (2, [])) else if i = 1 then Some (IBr OcBr 2 [])
      else if i = 2 then Some (IRet OcRet []) else None)"
  by (auto simp: crit_eval)

lemma crit_keys: "block_keys crit_dfg = [0, 1, 2]" "entry_block crit_dfg = 0"
  by (simp_all add: crit_eval entry_block_def)

lemma crit_last: "last_inst crit_dfg b = (if b \<in> {0, 1, 2} then Some (Some b) else None)"
  by (simp add: last_inst_eq crit_block bd_last_def)

lemma crit_wf: "dfg_wf crit_dfg"
  unfolding dfg_wf_def
proof (intro conjI)
  show "blocks_wf crit_dfg" unfolding blocks_wf_def crit_block
    by (auto simp: crit_eval om_wf_def om_contains_def am_contains_def split: if_splits)
  show "params_wf crit_dfg" unfolding params_wf_def crit_block
    by (auto simp: crit_dfg_def dfg_value_data_def nth_opt_def split: if_splits)
qed (simp_all add: results_wf_def imports_wf_def crit_dfg_def)

lemma crit_closed: "cfg_closed crit_dfg"
  by (simp add: cfg_closed_def crit_keys block_dests_def crit_last dfg_analyze_branch_def crit_inst push_order_def)

lemma crit_cfg: "\<exists>c. cfg_compute crit_dfg cfg_new = Some c"
  by (simp add: cfg_compute_def crit_keys compute_block_def visit_block_succs_def crit_last crit_inst inst_succs_def is_branch_def)

theorem critical_edges_are_split_witness:
  "\<exists>c f' c'. cfg_compute crit_dfg cfg_new = Some c \<and> split_critical_edges crit_function c = Some (f', c') \<and>
     cfg_compute (hf_dfg f') cfg_new = Some c' \<and> splits crit_dfg (hf_dfg f')"
proof -
  obtain c where c: "cfg_compute crit_dfg cfg_new = Some c" using crit_cfg by blast
  have d: "hf_dfg crit_function = crit_dfg" by (simp add: crit_function_def)
  have "no_switch crit_dfg" by (simp add: no_switch_def crit_keys crit_last crit_inst)
  with critical_edges_are_split [of crit_function cfg_new c, unfolded d, OF crit_wf crit_closed c] c show ?thesis by blast
qed

end
