(* ===== verification/Analyses.thy ===== *)
theory Analyses
  imports LoopQueries LivenessFix SplitEdges
begin

text \<open>
  The analyses of a function (hir-analysis/src/lib.rs): the control flow graph is always there,
  the others are computed when they are first asked for and again when the graph changed.
\<close>

record analyses =
  an_cfg :: control_flow_graph
  an_domtree :: "dominator_tree option"
  an_loops :: "loop_analysis option"
  an_liveness :: "liveness option"

definition an_new :: "'f hir_function \<Rightarrow> analyses option" where
  "an_new f = do {
     c \<leftarrow> cfg_with_function f;
     Some \<lparr>an_cfg = c, an_domtree = None, an_loops = None, an_liveness = None\<rparr> }"

definition require_domtree :: "analyses \<Rightarrow> string + unit" where
  "require_domtree an =
     (if an_domtree an \<noteq> None then Inr ()
      else Inl ''missing analysis requirement: dominator tree analysis is unavailable'')"

definition require_loops :: "analyses \<Rightarrow> string + unit" where
  "require_loops an =
     (if an_loops an \<noteq> None then Inr ()
      else Inl ''missing analysis requirement: loop analysis is unavailable'')"

definition require_liveness :: "analyses \<Rightarrow> string + unit" where
  "require_liveness an =
     (if an_liveness an \<noteq> None then Inr ()
      else Inl ''missing analysis requirement: liveness analysis is unavailable'')"

definition require_all :: "analyses \<Rightarrow> string + unit" where
  "require_all an = require_liveness an"

definition ensure_domtree :: "'f hir_function \<Rightarrow> analyses \<Rightarrow> analyses option" where
  "ensure_domtree f an =
     (case an_domtree an of
        Some _ \<Rightarrow> Some an
      | None \<Rightarrow> do { t \<leftarrow> dt_with_function f (an_cfg an); Some (an\<lparr>an_domtree := Some t\<rparr>) })"

definition ensure_loops :: "'f hir_function \<Rightarrow> analyses \<Rightarrow> analyses option" where
  "ensure_loops f an = do {
     an \<leftarrow> ensure_domtree f an;
     case an_loops an of
       Some _ \<Rightarrow> Some an
     | None \<Rightarrow> do {
         t \<leftarrow> an_domtree an;
         la \<leftarrow> la_with_function f (an_cfg an) t;
         Some (an\<lparr>an_loops := Some la\<rparr>) } }"

definition ensure_liveness :: "'f hir_function \<Rightarrow> analyses \<Rightarrow> analyses option" where
  "ensure_liveness f an = do {
     an \<leftarrow> ensure_loops f an;
     case an_liveness an of
       Some _ \<Rightarrow> Some an
     | None \<Rightarrow> do {
         t \<leftarrow> an_domtree an;
         la \<leftarrow> an_loops an;
         lv \<leftarrow> lv_compute f (an_cfg an) t la;
         Some (an\<lparr>an_liveness := Some lv\<rparr>) } }"

definition ensure_all :: "'f hir_function \<Rightarrow> analyses \<Rightarrow> analyses option" where
  "ensure_all f an = ensure_liveness f an"

definition cfg_changed :: "'f hir_function \<Rightarrow> analyses \<Rightarrow> analyses option" where
  "cfg_changed f an =
     (case an_domtree an of
        None \<Rightarrow> Some an
      | Some t \<Rightarrow> do {
          t \<leftarrow> dt_compute (hf_dfg f) (an_cfg an) t;
          let an = an\<lparr>an_domtree := Some t\<rparr>;
          case an_loops an of
            None \<Rightarrow> Some an
          | Some la \<Rightarrow> do {
              la \<leftarrow> la_compute f (an_cfg an) t la;
              let an = an\<lparr>an_loops := Some la\<rparr>;
              case an_liveness an of
                None \<Rightarrow> Some an
              | Some lv \<Rightarrow> do {
                  lv \<leftarrow> lv_recompute f (an_cfg an) t la lv;
                  Some (an\<lparr>an_liveness := Some lv\<rparr>) } } })"

definition an_recompute :: "'f hir_function \<Rightarrow> analyses \<Rightarrow> analyses option" where
  "an_recompute f an = do {
     c \<leftarrow> cfg_compute (hf_dfg f) (an_cfg an);
     cfg_changed f (an\<lparr>an_cfg := c\<rparr>) }"

section \<open>The analyses are those of the function\<close>

text \<open>
  Every analysis that is present is the one that its computation from scratch gives, and no
  analysis is present without those it rests on.
\<close>

definition an_current :: "'f hir_function \<Rightarrow> analyses \<Rightarrow> bool" where
  "an_current f an \<longleftrightarrow>
     cfg_with_function f = Some (an_cfg an) \<and>
     (\<forall>t. an_domtree an = Some t \<longrightarrow> dt_with_function f (an_cfg an) = Some t) \<and>
     (\<forall>la. an_loops an = Some la \<longrightarrow>
        (\<exists>t. an_domtree an = Some t \<and> la_with_function f (an_cfg an) t = Some la)) \<and>
     (\<forall>lv. an_liveness an = Some lv \<longrightarrow>
        (\<exists>t la. an_domtree an = Some t \<and> an_loops an = Some la \<and> lv_compute f (an_cfg an) t la = Some lv))"

lemma dt_compute_any: "dt_compute d c t = dt_with_function f c" if "d = hf_dfg f"
proof -
  have "dt_clear t = dt_clear dt_new" by (simp add: dt_clear_def dt_new_def)
  then show ?thesis using that by (simp add: dt_compute_def compute_postorder_def dt_with_function_def)
qed

lemma lv_recompute_any: "lv_recompute f c t la lv = lv_compute f c t la"
proof -
  have "lv_clear lv = lv_clear lv_default" by (simp add: lv_clear_def lv_default_def)
  then show ?thesis by (simp add: lv_compute_def lv_recompute_def)
qed

text \<open>
  What the liveness analysis needs of the blocks: they have instructions, only the last one
  branches, and a branch with several destinations has each of them to itself.
\<close>

definition liveness_ready :: "control_flow_graph \<Rightarrow> 'f dfg \<Rightarrow> bool" where
  "liveness_ready c d \<longleftrightarrow>
     (\<forall>b bd. reachable d b \<longrightarrow> dfg_block d b = Some bd \<longrightarrow>
        bd_insts bd \<noteq> [] \<and>
        (\<forall>i \<in> set (butlast (bd_insts bd)). \<forall>data. inst_data d i = Some data \<longrightarrow> analyze_branch data = NotABranch) \<and>
        (\<forall>data jts. inst_data d (last (bd_insts bd)) = Some data \<longrightarrow> analyze_branch data = MultiDest jts \<longrightarrow>
           (\<forall>jt \<in> set jts. num_predecessors c (fst jt) = 1)))"

lemma level_is_loop_exit:
  assumes "loop_nest d hs" "level_state d hs m la"
  shows "is_loop_exit la (innermost_loop la b) s \<noteq> None"
proof -
  have "l < length hs" if "innermost_loop la b = Some l" for b l
    using that assms(2) by (simp add: innermost_loop_def level_state_def inner_def last_such_Some)
  then show ?thesis
    using is_child_loop_correct [OF assms] by (auto simp: is_loop_exit_def split: option.splits)
qed

lemma ready_blocks:
  assumes wf: "dfg_wf d" "cfg_closed d" and la: "loop_nest d hs" "level_state d hs m la"
    and ready: "liveness_ready c d" and b: "reachable d b" "b \<in> set (block_keys d)"
  shows "block_ready c d la b"
proof -
  obtain bd where bd: "dfg_block d b = Some bd" using key_block [OF wf(1) b(2)] by blast
  have r: "bd_insts bd \<noteq> []"
    "\<forall>i \<in> set (butlast (bd_insts bd)). \<forall>data. inst_data d i = Some data \<longrightarrow> analyze_branch data = NotABranch"
    "\<forall>data jts. inst_data d (last (bd_insts bd)) = Some data \<longrightarrow> analyze_branch data = MultiDest jts \<longrightarrow>
       (\<forall>jt \<in> set jts. num_predecessors c (fst jt) = 1)"
    using ready b(1) bd by (auto simp: liveness_ready_def)
  have dist: "distinct (bd_insts bd)" and node: "\<forall>i \<in> set (bd_insts bd). \<exists>data. inst_data d i = Some data"
    using wf(1) bd unfolding dfg_wf_def blocks_wf_def inst_data_def by fastforce+
  have last: "last_inst d b = Some (Some (last (bd_insts bd)))" using bd r(1) by (simp add: last_inst_def bd_last_def)
  have edge: "edge_ok d la b s" if "inst_data d (last (bd_insts bd)) = Some data" "s \<in> set (push_order (analyze_branch data))" for data s
  proof -
    have "s \<in> block_succs d b"
      using that last by (simp add: block_succs_def block_dests_def dfg_analyze_branch_def)
    then have "s \<in> set (block_keys d)" using wf(2) b(2) by (fastforce simp: cfg_closed_def block_succs_def)
    with key_block [OF wf(1)] level_is_loop_exit [OF la] show ?thesis by (auto simp: edge_ok_def block_params_def)
  qed
  have "inst_ready c d la b i" if i: "i \<in> set (bd_insts bd)" for i
  proof -
    obtain data where data: "inst_data d i = Some data" using node i by blast
    show ?thesis
    proof (cases "i = last (bd_insts bd)")
      case True
      then show ?thesis
        using data edge r(3) by (auto simp: inst_ready_def push_order_def split: branch_info.splits)
    next
      case False
      then have "i \<in> set (butlast (bd_insts bd))" using i by (cases "bd_insts bd" rule: rev_cases) auto
      with r(2) data show ?thesis by (auto simp: inst_ready_def)
    qed
  qed
  with bd r(1) dist show ?thesis by (auto simp: block_ready_def)
qed

text \<open>
  The three analyses of a well-formed function exist and are independent of the state that they
  are computed in.
\<close>

definition analyzable :: "'f hir_function \<Rightarrow> control_flow_graph \<Rightarrow> bool" where
  "analyzable f c \<longleftrightarrow>
     dfg_wf (hf_dfg f) \<and> cfg_closed (hf_dfg f) \<and> cfg_compute (hf_dfg f) cfg_new = Some c \<and>
     length (block_keys (hf_dfg f)) < 536870912 \<and> live_preds (hf_dfg f) \<and> liveness_ready c (hf_dfg f)"

lemma reachable_keys: "cfg_closed d \<Longrightarrow> reachable d b \<Longrightarrow> b \<in> set (block_keys d)"
  by (erule reachable_in) (fastforce simp: cfg_closed_def block_succs_def)+

lemma analyses_exist:
  assumes "analyzable f c"
  obtains t la lv where "\<And>t0. dt_compute (hf_dfg f) c t0 = Some t" "dt_with_function f c = Some t"
    "\<And>la0. la_compute f c t la0 = Some la" "la_with_function f c t = Some la"
    "lv_compute f c t la = Some lv"
proof -
  let ?d = "hf_dfg f"
  have wf: "dfg_wf ?d" "cfg_closed ?d" "cfg_compute ?d cfg_new = Some c" "length (block_keys ?d) < 536870912"
    and lp: "live_preds ?d" and ready: "liveness_ready c ?d" using assms by (simp_all add: analyzable_def)
  obtain t rpo g where t: "dt_compute ?d c dt_new = Some t" "dt_valid t" "dt_postorder t = rev rpo" "dom_tree_rep ?d rpo t g"
    using dt_compute_correct [OF wf, of dt_new] by blast
  have dt: "dt_compute ?d c t0 = Some t" for t0
    using dt_compute_any [OF refl, of f c t0] dt_compute_any [OF refl, of f c dt_new] t(1) by simp
  define hs where "hs = filter (loop_head ?d) rpo"
  have nest: "loop_nest ?d hs" unfolding hs_def by (rule loop_nest_filter [OF t(4)])
  have ex: "\<exists>la. la_compute f c t la0 = Some la \<and> la_valid la \<and> level_state ?d hs (length hs) la" for la0
    using la_compute_correct [OF wf(1-3) lp t(4,2,3) hs_def] by blast
  then obtain la where la: "la_compute f c t la_default = Some la" "la_valid la" "level_state ?d hs (length hs) la" by blast
  have la_any: "la_compute f c t la0 = Some la" for la0
  proof -
    obtain la' where la': "la_compute f c t la0 = Some la'" "la_valid la'" "level_state ?d hs (length hs) la'" using ex by blast
    then have "la' = la" using la(2,3) by (cases la; cases la') (simp add: level_state_def)
    with la' show ?thesis by simp
  qed
  have "block_ready c ?d la b" if "b \<in> set (rev rpo)" for b
  proof (rule ready_blocks [OF wf(1,2) nest la(3) ready])
    show "reachable ?d b" using that t(4) by (simp add: dom_tree_rep_def rpo_of_def)
    then show "b \<in> set (block_keys ?d)" using reachable_keys [OF wf(2)] by simp
  qed
  moreover have "cfg_postorder t = Some (rev rpo)" using t(2,3) by (simp add: cfg_postorder_def)
  ultimately obtain lv where "lv_compute f c t la = Some lv"
    using liveness_loop_ends [OF lv_inv_default blocks_ready_vals subset_refl, of "rev rpo" c ?d la lv_default]
      lv_compute_loop [of t "rev rpo" f c la] by auto
  with dt la_any that [of t la lv] show thesis by (simp add: dt_with_function_def la_with_function_def)
qed

text \<open>The analyses of an earlier state of the function: each one rests on the others.\<close>

definition an_nested :: "analyses \<Rightarrow> bool" where
  "an_nested an \<longleftrightarrow>
     (an_domtree an = None \<longrightarrow> an_loops an = None) \<and> (an_loops an = None \<longrightarrow> an_liveness an = None)"

text \<open>
  C29. After a change of the function, whatever the analyses held before, the update gives every
  analysis that was present as its computation from scratch on the new function gives it; what
  is missing can be computed on demand, and then all of them are current.
\<close>

theorem analyses_stay_current:
  assumes "analyzable f (an_cfg an)" "an_nested an"
  shows "\<exists>an1 an2. cfg_changed f an = Some an1 \<and> an_current f an1 \<and>
    (require_liveness an = Inr () \<longrightarrow> require_all an1 = Inr ()) \<and>
    ensure_all f an1 = Some an2 \<and> an_current f an2 \<and> require_all an2 = Inr ()"
proof -
  obtain t la lv where x: "\<And>t0. dt_compute (hf_dfg f) (an_cfg an) t0 = Some t" "dt_with_function f (an_cfg an) = Some t"
    "\<And>la0. la_compute f (an_cfg an) t la0 = Some la" "la_with_function f (an_cfg an) t = Some la"
    "lv_compute f (an_cfg an) t la = Some lv"
  proof (rule analyses_exist [OF assms(1)], goal_cases)
    case (1 t la lv)
    from 1(2-) show ?case by (rule 1(1))
  qed
  have c: "cfg_with_function f = Some (an_cfg an)" using assms(1) by (simp add: analyzable_def cfg_with_function_def)
  note defs = cfg_changed_def an_current_def require_liveness_def require_all_def ensure_all_def ensure_liveness_def
    ensure_loops_def ensure_domtree_def an_nested_def
  show ?thesis
    using assms(2) x c
    by (cases "an_domtree an"; cases "an_loops an"; cases "an_liveness an") (auto simp: defs lv_recompute_any Let_def)
qed

text \<open>An example: the function of the liveness example, with analyses of no function at all.\<close>

lemma live_keys: "block_keys live_dfg = [0, 1]" "entry_block live_dfg = 0"
  by (simp_all add: live_dfg_def block_keys_def om_keys_def entry_block_def)

lemma live_last: "last_inst live_dfg b = (if b = 0 then Some (Some 1) else if b = 1 then Some (Some 2) else None)"
  by (simp add: last_inst_def live_block bd_last_def)

lemma live_dests: "block_dests live_dfg b = (if b = 0 then Some [1] else if b = 1 then Some [] else None)"
  by (simp add: block_dests_def live_last dfg_analyze_branch_def live_inst push_order_def)

lemma live_dfg_wf: "dfg_wf live_dfg"
  unfolding dfg_wf_def
proof (intro conjI live_wf)
  show "params_wf live_dfg" unfolding params_wf_def live_block
    by (auto simp: live_dfg_def dfg_value_data_def nth_opt_def split: if_splits)
qed (simp_all add: results_wf_def imports_wf_def live_dfg_def dfg_value_data_def nth_opt_def)

lemma live_analyzable: "\<exists>c. analyzable live_function c"
proof -
  obtain c where c: "cfg_compute live_dfg cfg_new = Some c"
    by (simp add: cfg_compute_def live_keys compute_block_def visit_block_succs_def live_last live_inst inst_succs_def is_branch_def)
  have "reachable live_dfg 0" using reachable_entry [of live_dfg] by (simp add: live_keys)
  then have "live_preds live_dfg" by (simp add: live_preds_def live_keys block_succs_def live_dests)
  moreover have "liveness_ready c live_dfg" by (auto simp: liveness_ready_def live_block live_inst split: if_splits)
  moreover have "cfg_closed live_dfg" by (simp add: cfg_closed_def live_keys live_dests)
  ultimately show ?thesis using c live_dfg_wf by (auto simp: analyzable_def live_function live_keys)
qed

theorem analyses_stay_current_witness:
  "\<exists>c an1 an2. cfg_changed live_function
     \<lparr>an_cfg = c, an_domtree = Some dt_new, an_loops = Some la_default, an_liveness = Some lv_default\<rparr> = Some an1 \<and>
     an_current live_function an1 \<and> ensure_all live_function an1 = Some an2"
proof -
  obtain c where c: "analyzable live_function c" using live_analyzable by blast
  let ?an = "\<lparr>an_cfg = c, an_domtree = Some dt_new, an_loops = Some la_default, an_liveness = Some lv_default\<rparr>"
  have "analyzable live_function (an_cfg ?an)" "an_nested ?an" using c by (simp_all add: an_nested_def)
  from analyses_stay_current [OF this] show ?thesis by blast
qed

end
