(* ===== verification/AsmBuilder.thy ===== *)
theory AsmBuilder
  imports HirBuilder ExecOps Layout
begin

text \<open>
  The builder of inline assembly (hir/src/asm/builder.rs).  Every instruction is appended to the
  current block after its effect on an operand stack of types has been applied; the builders of
  \<open>if.true\<close>, \<open>while.true\<close> and \<open>repeat\<close> compare the stacks at the ends of the blocks.  The stack of
  types uses the operations of VmStack; a failed assertion is \<open>None\<close>.
\<close>

section \<open>Assertions on types\<close>

definition assert_compatible_u32_operand :: "hir_type \<Rightarrow> unit option" where
  "assert_compatible_u32_operand ty = assert_that (is_pointer ty \<or> is_compatible_operand TyU32 ty)"

definition assert_compatible_u32_operands :: "hir_type \<Rightarrow> hir_type \<Rightarrow> unit option" where
  "assert_compatible_u32_operands lty rty = do {
     assert_that (lty \<in> {TyU8, TyU16, TyU32} \<or> (case lty of TyPtr _ \<Rightarrow> True | _ \<Rightarrow> False));
     assert_that (is_compatible_operand lty rty) }"

definition assert_compatible_felt_operand :: "hir_type \<Rightarrow> unit option" where
  "assert_compatible_felt_operand ty = assert_that (is_compatible_operand TyFelt ty)"

definition assert_compatible_felt_operands :: "hir_type \<Rightarrow> hir_type \<Rightarrow> unit option" where
  "assert_compatible_felt_operands lty rty = do {
     assert_that (lty \<in> {TyU8, TyI8, TyU16, TyI16, TyU32, TyI32, TyFelt});
     assert_that (is_compatible_operand lty rty) }"

section \<open>The effects of the instructions on the stack of types\<close>

text \<open>The arms of \<open>apply_op_stack_effects\<close> that several instructions share.\<close>

definition expect_bool :: "hir_type list \<Rightarrow> hir_type list option" where
  "expect_bool s = do { (ty, s) \<leftarrow> pop1 s; assert_that (ty = TyI1); Some s }"

definition expect_pointer :: "hir_type list \<Rightarrow> (hir_type \<times> hir_type list) option" where
  "expect_pointer s = do { (ty, s) \<leftarrow> pop1 s; assert_that (is_pointer ty); Some (ty, s) }"

definition felt_binary :: "hir_type list \<Rightarrow> (hir_type \<times> hir_type list) option" where
  "felt_binary s = do {
     (rty, s) \<leftarrow> pop1 s;
     (lty, s) \<leftarrow> pop1 s;
     assert_compatible_felt_operands lty rty;
     Some (lty, s) }"

definition felt_unary :: "hir_type list \<Rightarrow> hir_type list option" where
  "felt_unary s = do { ty \<leftarrow> vm_peek s; assert_compatible_felt_operand ty; Some s }"

definition felt_test :: "hir_type list \<Rightarrow> hir_type list option" where
  "felt_test s = do { (ty, s) \<leftarrow> pop1 s; assert_compatible_felt_operand ty; Some (vm_push TyI1 s) }"

definition bool_unary :: "hir_type list \<Rightarrow> hir_type list option" where
  "bool_unary s = do { (ty, s) \<leftarrow> pop1 s; assert_that (ty = TyI1); Some (vm_push ty s) }"

definition bool_binary :: "hir_type list \<Rightarrow> hir_type list option" where
  "bool_binary s = do {
     (rty, s) \<leftarrow> pop1 s;
     (lty, s) \<leftarrow> pop1 s;
     assert_that (lty = rty);
     assert_that (lty = TyI1);
     Some (vm_push lty s) }"

definition u32_binary :: "hir_type list \<Rightarrow> (hir_type \<times> hir_type list) option" where
  "u32_binary s = do {
     (rty, s) \<leftarrow> pop1 s;
     (lty, s) \<leftarrow> pop1 s;
     assert_compatible_u32_operands lty rty;
     Some (lty, s) }"

definition u32_binop :: "hir_type list \<Rightarrow> hir_type list option" where
  "u32_binop s = do { (lty, s) \<leftarrow> u32_binary s; Some (vm_push lty s) }"

definition u32_unary :: "hir_type list \<Rightarrow> (hir_type \<times> hir_type list) option" where
  "u32_unary s = do { (ty, s) \<leftarrow> pop1 s; assert_compatible_u32_operand ty; Some (ty, s) }"

definition u32_unop :: "hir_type list \<Rightarrow> hir_type list option" where
  "u32_unop s = do { (ty, s) \<leftarrow> u32_unary s; Some (vm_push ty s) }"

definition u32_overflowing_binop :: "hir_type list \<Rightarrow> hir_type list option" where
  "u32_overflowing_binop s = do { (lty, s) \<leftarrow> u32_binary s; Some (vm_push TyI1 (vm_push lty s)) }"

definition u32_overflowing_unop :: "hir_type list \<Rightarrow> hir_type list option" where
  "u32_overflowing_unop s = do { (ty, s) \<leftarrow> u32_unary s; Some (vm_push TyI1 (vm_push ty s)) }"

text \<open>\<open>add3\<close> pops \<open>c\<close>, \<open>b\<close> and \<open>a\<close>, \<open>madd\<close> pops \<open>b\<close>, \<open>a\<close> and \<open>c\<close>.\<close>

definition u32_add3 :: "hir_type list \<Rightarrow> (hir_type \<times> hir_type list) option" where
  "u32_add3 s = do {
     (cty, s) \<leftarrow> pop1 s;
     (bty, s) \<leftarrow> pop1 s;
     (aty, s) \<leftarrow> pop1 s;
     assert_compatible_u32_operands aty bty;
     assert_compatible_u32_operands aty cty;
     Some (aty, s) }"

definition u32_madd :: "hir_type list \<Rightarrow> (hir_type \<times> hir_type list) option" where
  "u32_madd s = do {
     (bty, s) \<leftarrow> pop1 s;
     (aty, s) \<leftarrow> pop1 s;
     (cty, s) \<leftarrow> pop1 s;
     assert_compatible_u32_operands aty bty;
     assert_compatible_u32_operands aty cty;
     Some (aty, s) }"

definition u32_compare :: "hir_type list \<Rightarrow> hir_type list option" where
  "u32_compare s = do {
     (rty, s) \<leftarrow> pop1 s;
     (lty, s) \<leftarrow> pop1 s;
     (if is_pointer lty then assert_compatible_u32_operand rty
      else assert_compatible_u32_operands lty rty);
     Some (vm_push TyI1 s) }"

definition u32_compare_imm :: "hir_type list \<Rightarrow> hir_type list option" where
  "u32_compare_imm s = do { (ty, s) \<leftarrow> u32_unary s; Some (vm_push TyI1 s) }"

definition u32_cast :: "hir_type list \<Rightarrow> hir_type list option" where
  "u32_cast s = do { (lty, s) \<leftarrow> pop1 s; assert_that (lty = TyFelt); Some (vm_push TyU32 s) }"

primrec stack_op_effect :: "'f stack_op \<Rightarrow> hir_type list \<Rightarrow> hir_type list option" where
  "stack_op_effect Padw s = Some (vm_padw TyFelt s)"
| "stack_op_effect (Push _) s = Some (vm_push TyFelt s)"
| "stack_op_effect (Push2 _ _) s = Some (vm_push TyFelt (vm_push TyFelt s))"
| "stack_op_effect (Pushw _) s = Some (vm_padw TyFelt s)"
| "stack_op_effect (PushU8 _) s = Some (vm_push TyU8 s)"
| "stack_op_effect (PushU16 _) s = Some (vm_push TyU16 s)"
| "stack_op_effect (PushU32 _) s = Some (vm_push TyU32 s)"
| "stack_op_effect Drop s = vm_drop s"
| "stack_op_effect Dropw s = vm_dropw s"
| "stack_op_effect (Dup idx) s = vm_dup idx s"
| "stack_op_effect (Dupw idx) s = vm_dupw idx s"
| "stack_op_effect (Swap idx) s = vm_swap idx s"
| "stack_op_effect (Swapw idx) s = vm_swapw idx s"
| "stack_op_effect (Movup idx) s = vm_movup idx s"
| "stack_op_effect (Movupw idx) s = vm_movupw idx s"
| "stack_op_effect (Movdn idx) s = vm_movdn idx s"
| "stack_op_effect (Movdnw idx) s = vm_movdnw idx s"
| "stack_op_effect Cswap s = expect_bool s"
| "stack_op_effect Cswapw s = expect_bool s"
| "stack_op_effect Cdrop s = do { s \<leftarrow> expect_bool s; vm_drop s }"
| "stack_op_effect Cdropw s = do { s \<leftarrow> expect_bool s; vm_dropw s }"
| "stack_op_effect Assert s = vm_drop s"
| "stack_op_effect Assertz s = vm_drop s"
| "stack_op_effect AssertEq s = vm_dropn 2 s"
| "stack_op_effect AssertEqw s = vm_dropn 8 s"

primrec mem_op_effect :: "mem_op \<Rightarrow> hir_type list \<Rightarrow> hir_type list option" where
  "mem_op_effect (LocAddr _) s = None"
| "mem_op_effect MemLoad s = do { (ty, s) \<leftarrow> expect_pointer s; p \<leftarrow> pointee ty; Some (vm_push p s) }"
| "mem_op_effect MemLoadOffset s = do { (ty, s) \<leftarrow> expect_pointer s; p \<leftarrow> pointee ty; Some (vm_push p s) }"
| "mem_op_effect (MemLoadImm _) s = Some (vm_push TyFelt s)"
| "mem_op_effect (MemLoadOffsetImm _ _) s = Some (vm_push TyFelt s)"
| "mem_op_effect MemLoadw s = do { (ty, s) \<leftarrow> expect_pointer s; Some (vm_padw TyFelt s) }"
| "mem_op_effect (MemLoadwImm _) s = Some (vm_padw TyFelt s)"
| "mem_op_effect MemStore s = do { (ty, s) \<leftarrow> expect_pointer s; vm_drop s }"
| "mem_op_effect MemStoreOffset s = do { (ty, s) \<leftarrow> expect_pointer s; vm_drop s }"
| "mem_op_effect (MemStoreImm _) s = vm_drop s"
| "mem_op_effect (MemStoreOffsetImm _ _) s = vm_drop s"
| "mem_op_effect MemStorew s = do { (ty, s) \<leftarrow> expect_pointer s; vm_dropw s }"
| "mem_op_effect (MemStorewImm _) s = vm_dropw s"

definition felt_op_effect :: "'f felt_op \<Rightarrow> hir_type list \<Rightarrow> hir_type list option" where
  "felt_op_effect op s =
     (case op of
        Add \<Rightarrow> do { (lty, s) \<leftarrow> felt_binary s; Some (vm_push lty s) }
      | Sub \<Rightarrow> do { (lty, s) \<leftarrow> felt_binary s; Some (vm_push lty s) }
      | Mul \<Rightarrow> do { (lty, s) \<leftarrow> felt_binary s; Some (vm_push lty s) }
      | Div \<Rightarrow> do { (lty, s) \<leftarrow> felt_binary s; Some (vm_push lty s) }
      | Exp \<Rightarrow> do { (lty, s) \<leftarrow> felt_binary s; Some (vm_push lty s) }
      | _ \<Rightarrow> felt_unary s)"

primrec cmp_op_effect :: "'f cmp_op \<Rightarrow> hir_type list \<Rightarrow> hir_type list option" where
  "cmp_op_effect OpNot s = bool_unary s"
| "cmp_op_effect (AndImm _) s = bool_unary s"
| "cmp_op_effect (OrImm _) s = bool_unary s"
| "cmp_op_effect (XorImm _) s = bool_unary s"
| "cmp_op_effect OpAnd s = bool_binary s"
| "cmp_op_effect OpOr s = bool_binary s"
| "cmp_op_effect OpXor s = bool_binary s"
| "cmp_op_effect Eq s = do { (_, s) \<leftarrow> felt_binary s; Some (vm_push TyI1 s) }"
| "cmp_op_effect Neq s = do { (_, s) \<leftarrow> felt_binary s; Some (vm_push TyI1 s) }"
| "cmp_op_effect Gt s = do { (_, s) \<leftarrow> felt_binary s; Some (vm_push TyI1 s) }"
| "cmp_op_effect Gte s = do { (_, s) \<leftarrow> felt_binary s; Some (vm_push TyI1 s) }"
| "cmp_op_effect Lt s = do { (_, s) \<leftarrow> felt_binary s; Some (vm_push TyI1 s) }"
| "cmp_op_effect Lte s = do { (_, s) \<leftarrow> felt_binary s; Some (vm_push TyI1 s) }"
| "cmp_op_effect (EqImm _) s = felt_test s"
| "cmp_op_effect (NeqImm _) s = felt_test s"
| "cmp_op_effect (GtImm _) s = felt_test s"
| "cmp_op_effect (GteImm _) s = felt_test s"
| "cmp_op_effect (LtImm _) s = felt_test s"
| "cmp_op_effect (LteImm _) s = felt_test s"
| "cmp_op_effect IsOdd s = felt_test s"
| "cmp_op_effect Eqw s = do { s \<leftarrow> vm_dropn 8 s; Some (vm_push TyI1 s) }"

definition arith_op_effect :: "arith_op \<Rightarrow> hir_type list \<Rightarrow> hir_type list option" where
  "arith_op_effect op s =
     (case op of
        U32Test \<Rightarrow> do { assert_that (s \<noteq> []); Some (vm_push TyI1 s) }
      | U32Testw \<Rightarrow> do { assert_that (length s > 3); Some (vm_push TyI1 s) }
      | U32Assert \<Rightarrow> do { assert_that (s \<noteq> []); Some s }
      | U32Assert2 \<Rightarrow> do { assert_that (length s > 1); Some s }
      | U32Assertw \<Rightarrow> do { assert_that (length s > 3); Some s }
      | U32Cast \<Rightarrow> u32_cast s
      | U32Split \<Rightarrow> do { s \<leftarrow> u32_cast s; Some (vm_push TyU32 s) }
      | U32OverflowingAdd \<Rightarrow> u32_overflowing_binop s
      | U32OverflowingSub \<Rightarrow> u32_overflowing_binop s
      | U32OverflowingMul \<Rightarrow> u32_overflowing_binop s
      | U32OverflowingAddImm _ \<Rightarrow> u32_overflowing_unop s
      | U32OverflowingSubImm _ \<Rightarrow> u32_overflowing_unop s
      | U32OverflowingMulImm _ \<Rightarrow> u32_overflowing_unop s
      | U32OverflowingAdd3 \<Rightarrow> do { (aty, s) \<leftarrow> u32_add3 s; Some (vm_push TyU32 (vm_push aty s)) }
      | U32OverflowingMadd \<Rightarrow> do { (aty, s) \<leftarrow> u32_madd s; Some (vm_push TyU32 (vm_push aty s)) }
      | U32WrappingAdd3 \<Rightarrow> do { (aty, s) \<leftarrow> u32_add3 s; Some (vm_push aty s) }
      | U32WrappingMadd \<Rightarrow> do { (aty, s) \<leftarrow> u32_madd s; Some (vm_push aty s) }
      | U32CheckedAddImm _ \<Rightarrow> u32_unop s
      | U32CheckedSubImm _ \<Rightarrow> u32_unop s
      | U32CheckedMulImm _ \<Rightarrow> u32_unop s
      | U32WrappingAddImm _ \<Rightarrow> u32_unop s
      | U32WrappingSubImm _ \<Rightarrow> u32_unop s
      | U32WrappingMulImm _ \<Rightarrow> u32_unop s
      | _ \<Rightarrow> u32_binop s)"

definition bit_op_is_unary :: "bit_op \<Rightarrow> bool" where
  "bit_op_is_unary op =
     (case op of
        U32CheckedDivImm _ \<Rightarrow> True | U32UncheckedDivImm _ \<Rightarrow> True
      | U32CheckedModImm _ \<Rightarrow> True | U32UncheckedModImm _ \<Rightarrow> True
      | U32CheckedDivModImm _ \<Rightarrow> True | U32UncheckedDivModImm _ \<Rightarrow> True
      | U32Not \<Rightarrow> True
      | U32CheckedShlImm _ \<Rightarrow> True | U32UncheckedShlImm _ \<Rightarrow> True
      | U32CheckedShrImm _ \<Rightarrow> True | U32UncheckedShrImm _ \<Rightarrow> True
      | U32CheckedRotlImm _ \<Rightarrow> True | U32UncheckedRotlImm _ \<Rightarrow> True
      | U32CheckedRotrImm _ \<Rightarrow> True | U32UncheckedRotrImm _ \<Rightarrow> True
      | _ \<Rightarrow> False)"

definition bit_op_effect :: "bit_op \<Rightarrow> hir_type list \<Rightarrow> hir_type list option" where
  "bit_op_effect op s = (if bit_op_is_unary op then u32_unop s else u32_binop s)"

primrec rel_op_effect :: "rel_op \<Rightarrow> hir_type list \<Rightarrow> hir_type list option" where
  "rel_op_effect U32CheckedPopcnt s = u32_unop s"
| "rel_op_effect U32UncheckedPopcnt s = u32_unop s"
| "rel_op_effect U32Eq s = u32_compare s"
| "rel_op_effect U32Neq s = u32_compare s"
| "rel_op_effect (U32EqImm _) s = u32_compare_imm s"
| "rel_op_effect (U32NeqImm _) s = u32_compare_imm s"
| "rel_op_effect U32CheckedLt s = u32_compare s"
| "rel_op_effect U32UncheckedLt s = u32_compare s"
| "rel_op_effect U32CheckedLte s = u32_compare s"
| "rel_op_effect U32UncheckedLte s = u32_compare s"
| "rel_op_effect U32CheckedGt s = u32_compare s"
| "rel_op_effect U32UncheckedGt s = u32_compare s"
| "rel_op_effect U32CheckedGte s = u32_compare s"
| "rel_op_effect U32UncheckedGte s = u32_compare s"
| "rel_op_effect U32CheckedMin s = u32_binop s"
| "rel_op_effect U32UncheckedMin s = u32_binop s"
| "rel_op_effect U32CheckedMax s = u32_binop s"
| "rel_op_effect U32UncheckedMax s = u32_binop s"

section \<open>Calls\<close>

definition push_type_on_stack :: "hir_type \<Rightarrow> hir_type list \<Rightarrow> hir_type list option" where
  "push_type_on_stack ty s = do {
     r \<leftarrow> to_raw_parts ty;
     parts \<leftarrow> r;
     Some (fold vm_push (rev parts) s) }"

primrec sum_felts :: "hir_type list \<Rightarrow> nat option" where
  "sum_felts [] = Some 0"
| "sum_felts (ty # tys) = do { n \<leftarrow> size_in_felts ty; m \<leftarrow> sum_felts tys; Some (n + m) }"

primrec push_types :: "hir_type list \<Rightarrow> hir_type list \<Rightarrow> hir_type list option" where
  "push_types [] s = Some s"
| "push_types (ty # tys) s = do { s \<leftarrow> push_type_on_stack ty s; push_types tys s }"

definition execute_call ::
  "function_ident \<Rightarrow> bool \<Rightarrow> 'f dfg \<Rightarrow> hir_type list \<Rightarrow> hir_type list option" where
  "execute_call f is_syscall d s = do {
     import \<leftarrow> get_import d f;
     (if is_syscall then assert_that (sig_cc (ef_signature import) = CcKernel)
      else assert_that (sig_cc (ef_signature import) \<noteq> CcKernel));
     needed \<leftarrow> sum_felts (rev (map ap_ty (sig_params (ef_signature import))));
     assert_that (needed \<le> length s);
     s \<leftarrow> vm_dropn needed s;
     push_types (rev (map ap_ty (signature_results (ef_signature import)))) s }"

definition op_effect :: "'f dfg \<Rightarrow> 'f masm_op \<Rightarrow> hir_type list \<Rightarrow> hir_type list option" where
  "op_effect d op s =
     (case op of
        Stk o1 \<Rightarrow> stack_op_effect o1 s
      | Mem o1 \<Rightarrow> mem_op_effect o1 s
      | OpExec f \<Rightarrow> execute_call f False d s
      | OpSyscall f \<Rightarrow> execute_call f False d s
      | Fld o1 \<Rightarrow> felt_op_effect o1 s
      | Cmp o1 \<Rightarrow> cmp_op_effect o1 s
      | OpClk \<Rightarrow> Some (vm_push TyFelt s)
      | Arith o1 \<Rightarrow> arith_op_effect o1 s
      | Bit o1 \<Rightarrow> bit_op_effect o1 s
      | Rel o1 \<Rightarrow> rel_op_effect o1 s
      | _ \<Rightarrow> None)"

text \<open>
  \<open>apply_op_stack_effects\<close> on a sequence of instructions: the bodies of \<open>if.true\<close> and \<open>repeat\<close> are
  traversed, that of \<open>while.true\<close> is not.  \<open>enter_effect\<close> yields the stack and the code that is
  traversed next; \<open>blocks\<close> are the code blocks by number.
\<close>

definition enter_effect ::
  "'f dfg \<Rightarrow> 'f masm_op list list \<Rightarrow> 'f masm_op \<Rightarrow> hir_type list \<Rightarrow>
     (hir_type list \<times> 'f masm_op list) option" where
  "enter_effect d blocks op s =
     (case op of
        OpIf then_body else_body \<Rightarrow> do {
          s \<leftarrow> expect_bool s;
          body \<leftarrow> nth_opt blocks then_body;
          Some (s, body) }
      | OpWhile body \<Rightarrow> do { s \<leftarrow> expect_bool s; Some (s, []) }
      | OpRepeat n body \<Rightarrow> do {
          body \<leftarrow> nth_opt blocks body;
          Some (s, concat (replicate n body)) }
      | _ \<Rightarrow> do { s \<leftarrow> op_effect d op s; Some (s, []) })"

partial_function (option) ops_effect ::
  "'f dfg \<Rightarrow> 'f masm_op list list \<Rightarrow> 'f masm_op list \<Rightarrow> hir_type list \<Rightarrow> hir_type list option" where
  "ops_effect d blocks ops s =
     (case ops of
        [] \<Rightarrow> Some s
      | op # ops \<Rightarrow> do {
          (s, body) \<leftarrow> enter_effect d blocks op s;
          s \<leftarrow> ops_effect d blocks body s;
          ops_effect d blocks ops s })"

definition apply_op_stack_effects ::
  "'f masm_op \<Rightarrow> hir_type list \<Rightarrow> 'f dfg \<Rightarrow> 'f masm_op list list \<Rightarrow> hir_type list option" where
  "apply_op_stack_effects op s d blocks = ops_effect d blocks [op] s"

section \<open>Building one instruction\<close>

text \<open>\<open>MasmOpBuilder\<close>: the graph is only read, the code blocks and the stack are updated.\<close>

record 'f op_builder =
  ob_dfg :: "'f dfg"
  ob_blocks :: "'f masm_op list list"
  ob_stack :: "hir_type list"
  ob_ip :: block_id

type_synonym 'f masm_ins = "'f op_builder \<Rightarrow> 'f op_builder option"

definition op_build :: "'f masm_op \<Rightarrow> 'f masm_ins" where
  "op_build op ob = do {
     s \<leftarrow> apply_op_stack_effects op (ob_stack ob) (ob_dfg ob) (ob_blocks ob);
     blocks \<leftarrow> asm_push (ob_ip ob) op (ob_blocks ob);
     Some (ob\<lparr>ob_stack := s, ob_blocks := blocks\<rparr>) }"

definition mo_padw :: "'f masm_ins" where
  "mo_padw = op_build (Stk Padw)"

definition mo_push :: "'f \<Rightarrow> 'f masm_ins" where
  "mo_push imm = op_build (Stk (Push imm))"

definition mo_pushw :: "'f word4 \<Rightarrow> 'f masm_ins" where
  "mo_pushw word = op_build (Stk (Pushw word))"

definition mo_push_u8 :: "u8 \<Rightarrow> 'f masm_ins" where
  "mo_push_u8 imm = op_build (Stk (PushU8 imm))"

definition mo_push_u16 :: "u16 \<Rightarrow> 'f masm_ins" where
  "mo_push_u16 imm = op_build (Stk (PushU16 imm))"

definition mo_push_u32 :: "u32 \<Rightarrow> 'f masm_ins" where
  "mo_push_u32 imm = op_build (Stk (PushU32 imm))"

definition mo_drop :: "'f masm_ins" where
  "mo_drop = op_build (Stk Drop)"

definition mo_dropw :: "'f masm_ins" where
  "mo_dropw = op_build (Stk Dropw)"

definition mo_dup :: "nat \<Rightarrow> 'f masm_ins" where
  "mo_dup n = op_build (Stk (Dup (as_u8 n)))"

definition mo_dupw :: "nat \<Rightarrow> 'f masm_ins" where
  "mo_dupw n = op_build (Stk (Dupw (as_u8 n)))"

definition mo_swap :: "nat \<Rightarrow> 'f masm_ins" where
  "mo_swap n = op_build (Stk (Swap (as_u8 n)))"

definition mo_swapw :: "nat \<Rightarrow> 'f masm_ins" where
  "mo_swapw n = op_build (Stk (Swapw (as_u8 n)))"

definition mo_movup :: "nat \<Rightarrow> 'f masm_ins" where
  "mo_movup idx = op_build (Stk (Movup (as_u8 idx)))"

definition mo_movupw :: "nat \<Rightarrow> 'f masm_ins" where
  "mo_movupw idx = op_build (Stk (Movupw (as_u8 idx)))"

definition mo_movdn :: "nat \<Rightarrow> 'f masm_ins" where
  "mo_movdn idx = op_build (Stk (Movdn (as_u8 idx)))"

definition mo_movdnw :: "nat \<Rightarrow> 'f masm_ins" where
  "mo_movdnw idx = op_build (Stk (Movdnw (as_u8 idx)))"

definition mo_cswap :: "'f masm_ins" where
  "mo_cswap = op_build (Stk Cswap)"

definition mo_cswapw :: "'f masm_ins" where
  "mo_cswapw = op_build (Stk Cswapw)"

definition mo_cdrop :: "'f masm_ins" where
  "mo_cdrop = op_build (Stk Cdrop)"

definition mo_cdropw :: "'f masm_ins" where
  "mo_cdropw = op_build (Stk Cdropw)"

definition mo_assert :: "'f masm_ins" where
  "mo_assert = op_build (Stk Assert)"

definition mo_assertz :: "'f masm_ins" where
  "mo_assertz = op_build (Stk Assertz)"

definition mo_assert_eq :: "'f masm_ins" where
  "mo_assert_eq = op_build (Stk AssertEq)"

definition mo_assert_eqw :: "'f masm_ins" where
  "mo_assert_eqw = op_build (Stk AssertEq)"

definition mo_load :: "'f masm_ins" where
  "mo_load = op_build (Mem MemLoad)"

definition mo_load_imm :: "u32 \<Rightarrow> 'f masm_ins" where
  "mo_load_imm addr = op_build (Mem (MemLoadImm addr))"

definition mo_load_offset :: "'f masm_ins" where
  "mo_load_offset = op_build (Mem MemLoadOffset)"

definition mo_load_offset_imm :: "u32 \<Rightarrow> nat \<Rightarrow> 'f masm_ins" where
  "mo_load_offset_imm addr offset s = do { assert_that (offset < 4); op_build (Mem (MemLoadOffsetImm addr offset)) s }"

definition mo_loadw :: "'f masm_ins" where
  "mo_loadw = op_build (Mem MemLoadw)"

definition mo_loadw_imm :: "u32 \<Rightarrow> 'f masm_ins" where
  "mo_loadw_imm addr = op_build (Mem (MemLoadwImm addr))"

definition mo_store :: "'f masm_ins" where
  "mo_store = op_build (Mem MemStore)"

definition mo_store_imm :: "u32 \<Rightarrow> 'f masm_ins" where
  "mo_store_imm addr = op_build (Mem (MemStoreImm addr))"

definition mo_store_offset :: "'f masm_ins" where
  "mo_store_offset = op_build (Mem MemStoreOffset)"

definition mo_store_offset_imm :: "u32 \<Rightarrow> nat \<Rightarrow> 'f masm_ins" where
  "mo_store_offset_imm addr offset s = do { assert_that (offset < 4); op_build (Mem (MemStoreOffsetImm addr offset)) s }"

definition mo_storew :: "'f masm_ins" where
  "mo_storew = op_build (Mem MemStorew)"

definition mo_storew_imm :: "u32 \<Rightarrow> 'f masm_ins" where
  "mo_storew_imm addr = op_build (Mem (MemStorewImm addr))"

definition mo_exec :: "function_ident \<Rightarrow> 'f masm_ins" where
  "mo_exec callee = op_build (OpExec callee)"

definition mo_syscall :: "function_ident \<Rightarrow> 'f masm_ins" where
  "mo_syscall callee = op_build (OpSyscall callee)"

definition mo_add :: "'f masm_ins" where
  "mo_add = op_build (Fld Add)"

definition mo_add_imm :: "'f \<Rightarrow> 'f masm_ins" where
  "mo_add_imm imm = op_build (Fld (AddImm imm))"

definition mo_sub :: "'f masm_ins" where
  "mo_sub = op_build (Fld Sub)"

definition mo_sub_imm :: "'f \<Rightarrow> 'f masm_ins" where
  "mo_sub_imm imm = op_build (Fld (SubImm imm))"

definition mo_mul :: "'f masm_ins" where
  "mo_mul = op_build (Fld Mul)"

definition mo_mul_imm :: "'f \<Rightarrow> 'f masm_ins" where
  "mo_mul_imm imm = op_build (Fld (MulImm imm))"

definition mo_div :: "'f masm_ins" where
  "mo_div = op_build (Fld Div)"

definition mo_div_imm :: "'f \<Rightarrow> 'f masm_ins" where
  "mo_div_imm imm = op_build (Fld (DivImm imm))"

definition mo_neg :: "'f masm_ins" where
  "mo_neg = op_build (Fld Neg)"

definition mo_inv :: "'f masm_ins" where
  "mo_inv = op_build (Fld Inv)"

definition mo_incr :: "'f masm_ins" where
  "mo_incr = op_build (Fld Incr)"

definition mo_pow2 :: "'f masm_ins" where
  "mo_pow2 = op_build (Fld Pow2)"

definition mo_exp :: "'f masm_ins" where
  "mo_exp = op_build (Fld Exp)"

definition mo_exp_imm :: "nat \<Rightarrow> 'f masm_ins" where
  "mo_exp_imm exponent = op_build (Fld (ExpImm exponent))"

definition mo_not :: "'f masm_ins" where
  "mo_not = op_build (Cmp OpNot)"

definition mo_and :: "'f masm_ins" where
  "mo_and = op_build (Cmp OpAnd)"

definition mo_and_imm :: "bool \<Rightarrow> 'f masm_ins" where
  "mo_and_imm imm = op_build (Cmp (AndImm imm))"

definition mo_or :: "'f masm_ins" where
  "mo_or = op_build (Cmp OpOr)"

definition mo_or_imm :: "bool \<Rightarrow> 'f masm_ins" where
  "mo_or_imm imm = op_build (Cmp (OrImm imm))"

definition mo_xor :: "'f masm_ins" where
  "mo_xor = op_build (Cmp OpXor)"

definition mo_xor_imm :: "bool \<Rightarrow> 'f masm_ins" where
  "mo_xor_imm imm = op_build (Cmp (XorImm imm))"

definition mo_eq :: "'f masm_ins" where
  "mo_eq = op_build (Cmp Eq)"

definition mo_eq_imm :: "'f \<Rightarrow> 'f masm_ins" where
  "mo_eq_imm imm = op_build (Cmp (EqImm imm))"

definition mo_eqw :: "'f masm_ins" where
  "mo_eqw = op_build (Cmp Eqw)"

definition mo_neq :: "'f masm_ins" where
  "mo_neq = op_build (Cmp Neq)"

definition mo_neq_imm :: "'f \<Rightarrow> 'f masm_ins" where
  "mo_neq_imm imm = op_build (Cmp (NeqImm imm))"

definition mo_gt :: "'f masm_ins" where
  "mo_gt = op_build (Cmp Gt)"

definition mo_gt_imm :: "'f \<Rightarrow> 'f masm_ins" where
  "mo_gt_imm imm = op_build (Cmp (GtImm imm))"

definition mo_gte :: "'f masm_ins" where
  "mo_gte = op_build (Cmp Gte)"

definition mo_gte_imm :: "'f \<Rightarrow> 'f masm_ins" where
  "mo_gte_imm imm = op_build (Cmp (GteImm imm))"

definition mo_lt :: "'f masm_ins" where
  "mo_lt = op_build (Cmp Lt)"

definition mo_lt_imm :: "'f \<Rightarrow> 'f masm_ins" where
  "mo_lt_imm imm = op_build (Cmp (LtImm imm))"

definition mo_lte :: "'f masm_ins" where
  "mo_lte = op_build (Cmp Lte)"

definition mo_lte_imm :: "'f \<Rightarrow> 'f masm_ins" where
  "mo_lte_imm imm = op_build (Cmp (LteImm imm))"

definition mo_is_odd :: "'f masm_ins" where
  "mo_is_odd = op_build (Cmp IsOdd)"

definition mo_clk :: "'f masm_ins" where
  "mo_clk = op_build OpClk"

definition mo_test_u32 :: "'f masm_ins" where
  "mo_test_u32 = op_build (Arith U32Test)"

definition mo_testw_u32 :: "'f masm_ins" where
  "mo_testw_u32 = op_build (Arith U32Testw)"

definition mo_assert_u32 :: "'f masm_ins" where
  "mo_assert_u32 = op_build (Arith U32Assert)"

definition mo_assert2_u32 :: "'f masm_ins" where
  "mo_assert2_u32 = op_build (Arith U32Assert2)"

definition mo_assertw_u32 :: "'f masm_ins" where
  "mo_assertw_u32 = op_build (Arith U32Assertw)"

definition mo_cast_u32 :: "'f masm_ins" where
  "mo_cast_u32 = op_build (Arith U32Cast)"

definition mo_split_u32 :: "'f masm_ins" where
  "mo_split_u32 = op_build (Arith U32Split)"

definition mo_add_u32 :: "overflow \<Rightarrow> 'f masm_ins" where
  "mo_add_u32 overflow = op_build
    (case overflow of
       Unchecked \<Rightarrow> Fld Add
     | Checked \<Rightarrow> Arith U32CheckedAdd
     | Overflowing \<Rightarrow> Arith U32OverflowingAdd
     | Wrapping \<Rightarrow> Arith U32WrappingAdd)"

definition mo_add_imm_u32 :: "'f felt_ops \<Rightarrow> u32 \<Rightarrow> overflow \<Rightarrow> 'f masm_ins" where
  "mo_add_imm_u32 F imm overflow = op_build
    (case overflow of
       Unchecked \<Rightarrow> Fld (AddImm (felt_new F (ucast imm)))
     | Checked \<Rightarrow> Arith (U32CheckedAddImm imm)
     | Overflowing \<Rightarrow> Arith (U32OverflowingAddImm imm)
     | Wrapping \<Rightarrow> Arith (U32WrappingAddImm imm))"

definition mo_add3_overflowing_u32 :: "'f masm_ins" where
  "mo_add3_overflowing_u32 = op_build (Arith U32OverflowingAdd3)"

definition mo_add3_wrapping_u32 :: "'f masm_ins" where
  "mo_add3_wrapping_u32 = op_build (Arith U32WrappingAdd3)"

definition mo_sub_u32 :: "overflow \<Rightarrow> 'f masm_ins" where
  "mo_sub_u32 overflow = op_build
    (case overflow of
       Unchecked \<Rightarrow> Fld Sub
     | Checked \<Rightarrow> Arith U32CheckedSub
     | Overflowing \<Rightarrow> Arith U32OverflowingSub
     | Wrapping \<Rightarrow> Arith U32WrappingSub)"

definition mo_sub_imm_u32 :: "'f felt_ops \<Rightarrow> u32 \<Rightarrow> overflow \<Rightarrow> 'f masm_ins" where
  "mo_sub_imm_u32 F imm overflow = op_build
    (case overflow of
       Unchecked \<Rightarrow> Fld (SubImm (felt_new F (ucast imm)))
     | Checked \<Rightarrow> Arith (U32CheckedSubImm imm)
     | Overflowing \<Rightarrow> Arith (U32OverflowingSubImm imm)
     | Wrapping \<Rightarrow> Arith (U32WrappingSubImm imm))"

definition mo_mul_u32 :: "overflow \<Rightarrow> 'f masm_ins" where
  "mo_mul_u32 overflow = op_build
    (case overflow of
       Unchecked \<Rightarrow> Fld Mul
     | Checked \<Rightarrow> Arith U32CheckedMul
     | Overflowing \<Rightarrow> Arith U32OverflowingMul
     | Wrapping \<Rightarrow> Arith U32WrappingMul)"

definition mo_mul_imm_u32 :: "'f felt_ops \<Rightarrow> u32 \<Rightarrow> overflow \<Rightarrow> 'f masm_ins" where
  "mo_mul_imm_u32 F imm overflow = op_build
    (case overflow of
       Unchecked \<Rightarrow> Fld (MulImm (felt_new F (ucast imm)))
     | Checked \<Rightarrow> Arith (U32CheckedMulImm imm)
     | Overflowing \<Rightarrow> Arith (U32OverflowingMulImm imm)
     | Wrapping \<Rightarrow> Arith (U32WrappingMulImm imm))"

definition mo_madd_overflowing_u32 :: "'f masm_ins" where
  "mo_madd_overflowing_u32 = op_build (Arith U32OverflowingMadd)"

definition mo_madd_wrapping_u32 :: "'f masm_ins" where
  "mo_madd_wrapping_u32 = op_build (Arith U32WrappingMadd)"

definition mo_div_u32 :: "'f masm_ins" where
  "mo_div_u32 = op_build (Bit U32CheckedDiv)"

definition mo_div_imm_u32 :: "u32 \<Rightarrow> 'f masm_ins" where
  "mo_div_imm_u32 imm = op_build (Bit (U32CheckedDivImm imm))"

definition mo_div_unchecked_u32 :: "'f masm_ins" where
  "mo_div_unchecked_u32 = op_build (Bit U32UncheckedDiv)"

definition mo_div_imm_unchecked_u32 :: "u32 \<Rightarrow> 'f masm_ins" where
  "mo_div_imm_unchecked_u32 imm = op_build (Bit (U32UncheckedDivImm imm))"

definition mo_mod_u32 :: "'f masm_ins" where
  "mo_mod_u32 = op_build (Bit U32CheckedMod)"

definition mo_mod_imm_u32 :: "u32 \<Rightarrow> 'f masm_ins" where
  "mo_mod_imm_u32 imm = op_build (Bit (U32CheckedModImm imm))"

definition mo_mod_unchecked_u32 :: "'f masm_ins" where
  "mo_mod_unchecked_u32 = op_build (Bit U32UncheckedMod)"

definition mo_mod_imm_unchecked_u32 :: "u32 \<Rightarrow> 'f masm_ins" where
  "mo_mod_imm_unchecked_u32 imm = op_build (Bit (U32UncheckedModImm imm))"

definition mo_divmod_u32 :: "'f masm_ins" where
  "mo_divmod_u32 = op_build (Bit U32CheckedDivMod)"

definition mo_divmod_imm_u32 :: "u32 \<Rightarrow> 'f masm_ins" where
  "mo_divmod_imm_u32 imm = op_build (Bit (U32CheckedDivModImm imm))"

definition mo_divmod_unchecked_u32 :: "'f masm_ins" where
  "mo_divmod_unchecked_u32 = op_build (Bit U32UncheckedDivMod)"

definition mo_divmod_imm_unchecked_u32 :: "u32 \<Rightarrow> 'f masm_ins" where
  "mo_divmod_imm_unchecked_u32 imm = op_build (Bit (U32UncheckedDivModImm imm))"

definition mo_band_u32 :: "'f masm_ins" where
  "mo_band_u32 = op_build (Bit U32And)"

definition mo_bor_u32 :: "'f masm_ins" where
  "mo_bor_u32 = op_build (Bit U32Or)"

definition mo_bxor_u32 :: "'f masm_ins" where
  "mo_bxor_u32 = op_build (Bit U32Xor)"

definition mo_bnot_u32 :: "'f masm_ins" where
  "mo_bnot_u32 = op_build (Bit U32Not)"

definition mo_shl_u32 :: "'f masm_ins" where
  "mo_shl_u32 = op_build (Bit U32CheckedShl)"

definition mo_shl_imm_u32 :: "u32 \<Rightarrow> 'f masm_ins" where
  "mo_shl_imm_u32 imm = op_build (Bit (U32CheckedShlImm imm))"

definition mo_shl_unchecked_u32 :: "'f masm_ins" where
  "mo_shl_unchecked_u32 = op_build (Bit U32UncheckedShl)"

definition mo_shl_unchecked_imm_u32 :: "u32 \<Rightarrow> 'f masm_ins" where
  "mo_shl_unchecked_imm_u32 imm = op_build (Bit (U32UncheckedShlImm imm))"

definition mo_shr_u32 :: "'f masm_ins" where
  "mo_shr_u32 = op_build (Bit U32CheckedShr)"

definition mo_shr_imm_u32 :: "u32 \<Rightarrow> 'f masm_ins" where
  "mo_shr_imm_u32 imm = op_build (Bit (U32CheckedShrImm imm))"

definition mo_shr_unchecked_u32 :: "'f masm_ins" where
  "mo_shr_unchecked_u32 = op_build (Bit U32UncheckedShr)"

definition mo_shr_unchecked_imm_u32 :: "u32 \<Rightarrow> 'f masm_ins" where
  "mo_shr_unchecked_imm_u32 imm = op_build (Bit (U32UncheckedShrImm imm))"

definition mo_rotl_u32 :: "'f masm_ins" where
  "mo_rotl_u32 = op_build (Bit U32CheckedRotl)"

definition mo_rotl_imm_u32 :: "u32 \<Rightarrow> 'f masm_ins" where
  "mo_rotl_imm_u32 imm = op_build (Bit (U32CheckedRotlImm imm))"

definition mo_rotl_unchecked_u32 :: "'f masm_ins" where
  "mo_rotl_unchecked_u32 = op_build (Bit U32UncheckedRotl)"

definition mo_rotl_unchecked_imm_u32 :: "u32 \<Rightarrow> 'f masm_ins" where
  "mo_rotl_unchecked_imm_u32 imm = op_build (Bit (U32UncheckedRotlImm imm))"

definition mo_rotr_u32 :: "'f masm_ins" where
  "mo_rotr_u32 = op_build (Bit U32CheckedRotr)"

definition mo_rotr_imm_u32 :: "u32 \<Rightarrow> 'f masm_ins" where
  "mo_rotr_imm_u32 imm = op_build (Bit (U32CheckedRotrImm imm))"

definition mo_rotr_unchecked_u32 :: "'f masm_ins" where
  "mo_rotr_unchecked_u32 = op_build (Bit U32UncheckedRotr)"

definition mo_rotr_unchecked_imm_u32 :: "u32 \<Rightarrow> 'f masm_ins" where
  "mo_rotr_unchecked_imm_u32 imm = op_build (Bit (U32UncheckedRotrImm imm))"

definition mo_popcnt_u32 :: "'f masm_ins" where
  "mo_popcnt_u32 = op_build (Rel U32CheckedPopcnt)"

definition mo_popcnt_unchecked_u32 :: "'f masm_ins" where
  "mo_popcnt_unchecked_u32 = op_build (Rel U32UncheckedPopcnt)"

definition mo_eq_u32 :: "'f masm_ins" where
  "mo_eq_u32 = op_build (Rel U32Eq)"

definition mo_eq_imm_u32 :: "u32 \<Rightarrow> 'f masm_ins" where
  "mo_eq_imm_u32 imm = op_build (Rel (U32EqImm imm))"

definition mo_neq_u32 :: "'f masm_ins" where
  "mo_neq_u32 = op_build (Rel U32Neq)"

definition mo_neq_imm_u32 :: "u32 \<Rightarrow> 'f masm_ins" where
  "mo_neq_imm_u32 imm = op_build (Rel (U32NeqImm imm))"

definition mo_lt_u32 :: "'f masm_ins" where
  "mo_lt_u32 = op_build (Rel U32CheckedLt)"

definition mo_lt_unchecked_u32 :: "'f masm_ins" where
  "mo_lt_unchecked_u32 = op_build (Rel U32UncheckedLt)"

definition mo_lte_u32 :: "'f masm_ins" where
  "mo_lte_u32 = op_build (Rel U32CheckedLte)"

definition mo_lte_unchecked_u32 :: "'f masm_ins" where
  "mo_lte_unchecked_u32 = op_build (Rel U32UncheckedLte)"

definition mo_gt_u32 :: "'f masm_ins" where
  "mo_gt_u32 = op_build (Rel U32CheckedGt)"

definition mo_gt_unchecked_u32 :: "'f masm_ins" where
  "mo_gt_unchecked_u32 = op_build (Rel U32UncheckedGt)"

definition mo_gte_u32 :: "'f masm_ins" where
  "mo_gte_u32 = op_build (Rel U32CheckedGte)"

definition mo_gte_unchecked_u32 :: "'f masm_ins" where
  "mo_gte_unchecked_u32 = op_build (Rel U32UncheckedGte)"

definition mo_min_u32 :: "'f masm_ins" where
  "mo_min_u32 = op_build (Rel U32CheckedMin)"

definition mo_min_unchecked_u32 :: "'f masm_ins" where
  "mo_min_unchecked_u32 = op_build (Rel U32UncheckedMin)"

definition mo_max_u32 :: "'f masm_ins" where
  "mo_max_u32 = op_build (Rel U32CheckedMax)"

definition mo_max_unchecked_u32 :: "'f masm_ins" where
  "mo_max_unchecked_u32 = op_build (Rel U32UncheckedMax)"

section \<open>if.true\<close>

datatype if_branch = BranchThen | BranchElse

record 'f if_builder =
  ib_dfg :: "'f dfg"
  ib_blocks :: "'f masm_op list list"
  ib_in_stack :: "hir_type list"
  ib_out_stack :: "hir_type list"
  ib_ip :: block_id
  ib_then :: "block_id option"
  ib_else :: "block_id option"

definition if_true :: "'f op_builder \<Rightarrow> 'f if_builder option" where
  "if_true ob = do {
     s \<leftarrow> expect_bool (ob_stack ob);
     Some \<lparr>ib_dfg = ob_dfg ob, ib_blocks = ob_blocks ob, ib_in_stack = s, ib_out_stack = s,
           ib_ip = ob_ip ob, ib_then = None, ib_else = None\<rparr> }"

record 'f if_block_builder =
  bb_builder :: "'f if_builder"
  bb_stack :: "hir_type list"
  bb_block :: block_id
  bb_branch :: if_branch

definition build_then :: "'f if_builder \<Rightarrow> 'f if_block_builder option" where
  "build_then ib = do {
     assert_that (ib_then ib = None);
     let (b, blocks) = asm_create_block (ib_blocks ib);
     Some \<lparr>bb_builder = ib\<lparr>ib_blocks := blocks\<rparr>, bb_stack = ib_in_stack ib, bb_block = b,
           bb_branch = BranchThen\<rparr> }"

definition build_else :: "'f if_builder \<Rightarrow> 'f if_block_builder option" where
  "build_else ib = do {
     assert_that (ib_else ib = None);
     let (b, blocks) = asm_create_block (ib_blocks ib);
     Some \<lparr>bb_builder = ib\<lparr>ib_blocks := blocks\<rparr>, bb_stack = ib_in_stack ib, bb_block = b,
           bb_branch = BranchElse\<rparr> }"

definition if_block_ins :: "'f masm_ins \<Rightarrow> 'f if_block_builder \<Rightarrow> 'f if_block_builder option" where
  "if_block_ins op bb = do {
     ob \<leftarrow> op \<lparr>ob_dfg = ib_dfg (bb_builder bb), ob_blocks = ib_blocks (bb_builder bb),
              ob_stack = bb_stack bb, ob_ip = bb_block bb\<rparr>;
     Some (bb\<lparr>bb_builder := (bb_builder bb)\<lparr>ib_blocks := ob_blocks ob\<rparr>, bb_stack := ob_stack ob\<rparr>) }"

text \<open>\<open>end\<close>, which drops the builder of the block.\<close>

definition if_block_end :: "'f if_block_builder \<Rightarrow> 'f if_builder option" where
  "if_block_end bb =
     (let ib = (case bb_branch bb of
          BranchThen \<Rightarrow> (bb_builder bb)\<lparr>ib_then := Some (bb_block bb)\<rparr>
        | BranchElse \<Rightarrow> (bb_builder bb)\<lparr>ib_else := Some (bb_block bb)\<rparr>)
      in if ib_then ib \<noteq> None \<and> ib_else ib \<noteq> None then do {
           assert_that (bb_stack bb = ib_out_stack ib);
           Some ib }
         else Some (ib\<lparr>ib_out_stack := bb_stack bb\<rparr>))"

definition if_build :: "'f if_builder \<Rightarrow> 'f op_builder option" where
  "if_build ib = do {
     then_blk \<leftarrow> ib_then ib;
     else_blk \<leftarrow> ib_else ib;
     blocks \<leftarrow> asm_push (ib_ip ib) (OpIf then_blk else_blk) (ib_blocks ib);
     Some \<lparr>ob_dfg = ib_dfg ib, ob_blocks = blocks, ob_stack = ib_out_stack ib, ob_ip = ib_ip ib\<rparr> }"

section \<open>Loops\<close>

datatype loop_type = LoopWhile | LoopRepeat nat

record 'f loop_builder =
  lb_dfg :: "'f dfg"
  lb_blocks :: "'f masm_op list list"
  lb_in_stack :: "hir_type list"
  lb_out_stack :: "hir_type list"
  lb_ip :: block_id
  lb_body :: block_id
  lb_style :: loop_type

definition while_true :: "'f op_builder \<Rightarrow> 'f loop_builder option" where
  "while_true ob = do {
     s \<leftarrow> expect_bool (ob_stack ob);
     let (body, blocks) = asm_create_block (ob_blocks ob);
     Some \<lparr>lb_dfg = ob_dfg ob, lb_blocks = blocks, lb_in_stack = s, lb_out_stack = s,
           lb_ip = ob_ip ob, lb_body = body, lb_style = LoopWhile\<rparr> }"

definition begin_repeat :: "nat \<Rightarrow> 'f op_builder \<Rightarrow> 'f loop_builder option" where
  "begin_repeat n ob = do {
     assert_that (n > 0);
     let (body, blocks) = asm_create_block (ob_blocks ob);
     Some \<lparr>lb_dfg = ob_dfg ob, lb_blocks = blocks, lb_in_stack = ob_stack ob,
           lb_out_stack = ob_stack ob, lb_ip = ob_ip ob, lb_body = body, lb_style = LoopRepeat n\<rparr> }"

definition loop_ins :: "'f masm_ins \<Rightarrow> 'f loop_builder \<Rightarrow> 'f loop_builder option" where
  "loop_ins op lb = do {
     ob \<leftarrow> op \<lparr>ob_dfg = lb_dfg lb, ob_blocks = lb_blocks lb, ob_stack = lb_out_stack lb,
              ob_ip = lb_body lb\<rparr>;
     Some (lb\<lparr>lb_blocks := ob_blocks ob, lb_out_stack := ob_stack ob\<rparr>) }"

text \<open>A single iteration is inlined into the enclosing block.\<close>

definition inline_body :: "'f loop_builder \<Rightarrow> 'f masm_op list list option" where
  "inline_body lb = do {
     ops \<leftarrow> nth_opt (lb_blocks lb) (lb_body lb);
     let blocks = (lb_blocks lb)[lb_body lb := []];
     outer \<leftarrow> nth_opt blocks (lb_ip lb);
     Some (blocks[lb_ip lb := outer @ ops]) }"

definition loop_build :: "'f loop_builder \<Rightarrow> 'f op_builder option" where
  "loop_build lb = do {
     (blocks, s) \<leftarrow>
       (case lb_style lb of
          LoopWhile \<Rightarrow> do {
            s \<leftarrow> expect_bool (lb_out_stack lb);
            assert_that (lb_in_stack lb = s);
            blocks \<leftarrow> asm_push (lb_ip lb) (OpWhile (lb_body lb)) (lb_blocks lb);
            Some (blocks, s) }
        | LoopRepeat n \<Rightarrow>
            if n = 1 then do { blocks \<leftarrow> inline_body lb; Some (blocks, lb_out_stack lb) }
            else do {
              code \<leftarrow> nth_opt (lb_blocks lb) (lb_body lb);
              s \<leftarrow> ops_effect (lb_dfg lb) (lb_blocks lb) (concat (replicate (n - 1) code)) (lb_out_stack lb);
              blocks \<leftarrow> asm_push (lb_ip lb) (OpRepeat n (lb_body lb)) (lb_blocks lb);
              Some (blocks, s) });
     Some \<lparr>ob_dfg = lb_dfg lb, ob_blocks = blocks, ob_stack = s, ob_ip = lb_ip lb\<rparr> }"

section \<open>The inline assembly block\<close>

record 'f masm_builder =
  mb_builder :: builder
  mb_asm :: inline_asm
  mb_blocks :: "'f masm_op list list"
  mb_current :: block_id
  mb_stack :: "hir_type list"

primrec arg_types :: "'f dfg \<Rightarrow> val list \<Rightarrow> hir_type list option" where
  "arg_types d [] = Some []"
| "arg_types d (v # vs) = do { ty \<leftarrow> value_type d v; tys \<leftarrow> arg_types d vs; Some (ty # tys) }"

definition masm_new :: "builder \<Rightarrow> val list \<Rightarrow> hir_type list \<Rightarrow> 'f dfg \<Rightarrow> 'f masm_builder option" where
  "masm_new b args results d = do {
     tys \<leftarrow> arg_types d (rev args);
     let stack = fold vm_push tys [];
     let (asm, blocks) = new_inline_asm results;
     let asm = asm\<lparr>ia_args := args\<rparr>;
     Some \<lparr>mb_builder = b, mb_asm = asm, mb_blocks = blocks, mb_current = ia_body asm,
           mb_stack = stack\<rparr> }"

definition masm_create_block :: "'f masm_builder \<Rightarrow> block_id \<times> 'f masm_builder" where
  "masm_create_block m =
     (let (b, blocks) = asm_create_block (mb_blocks m) in (b, m\<lparr>mb_blocks := blocks\<rparr>))"

definition masm_switch_to_block :: "block_id \<Rightarrow> 'f masm_builder \<Rightarrow> 'f masm_builder" where
  "masm_switch_to_block b m = m\<lparr>mb_current := b\<rparr>"

definition masm_ins :: "'f dfg \<Rightarrow> 'f masm_ins \<Rightarrow> 'f masm_builder \<Rightarrow> 'f masm_builder option" where
  "masm_ins d op m = do {
     ob \<leftarrow> op \<lparr>ob_dfg = d, ob_blocks = mb_blocks m, ob_stack = mb_stack m, ob_ip = mb_current m\<rparr>;
     Some (m\<lparr>mb_blocks := ob_blocks ob, mb_stack := ob_stack ob\<rparr>) }"

definition masm_build :: "'f masm_builder \<Rightarrow> 'f ins_inst" where
  "masm_build m d = do {
     (if ia_results (mb_asm m) = [] then assert_that (mb_stack m = [])
      else do {
        len \<leftarrow> sum_felts (ia_results (mb_asm m));
        assert_that (len = length (mb_stack m)) });
     build (mb_builder m) (IInlineAsm (mb_asm m) (mb_blocks m)) TyUnit d }"

end
