(* ===== verification/AsmProps.thy ===== *)
theory AsmProps
  imports AsmBuilder Emulator Cfg
begin

text \<open>
  The stack of types of the inline assembly builder against the operand stack of the emulator.
\<close>

section \<open>How the stack operations change the height\<close>

named_theorems heights \<open>the heights before and after a stack operation, as destruction rules\<close>

lemma height_pop1 [heights]: "pop1 s = Some (x, s') \<Longrightarrow> length s = Suc (length s')"
  by (auto simp: pop1_def vm_pop_def split: if_splits)

lemma height_vm_pop: "vm_pop s = (Some x, s') \<Longrightarrow> length s = Suc (length s')"
  by (auto simp: vm_pop_def split: if_splits)

lemma height_popw [heights]: "popw s = Some (w, s') \<Longrightarrow> length s = length s' + 4"
  by (auto simp: popw_def vm_popw_def split: option.splits prod.splits dest!: height_vm_pop)

lemma height_pop2 [heights]: "pop2 s = Some (x, s') \<Longrightarrow> length s = length s' + 2"
  by (auto simp: pop2_def split: bind_splits dest!: heights)

lemma height_pop_u32 [heights]: "pop_u32 F s = Some (x, s') \<Longrightarrow> length s = Suc (length s')"
  by (auto simp: pop_u32_def bind_assert_that split: bind_splits if_splits dest!: heights)

lemma height_pop_bool [heights]: "pop_bool F s = Some (x, s') \<Longrightarrow> length s = Suc (length s')"
  by (auto simp: pop_bool_def bind_assert_that split: bind_splits if_splits dest!: heights)

lemma height_push [simp]:
  "length (vm_push x s) = Suc (length s)" "length (vm_padw x s) = length s + 4"
  "length (push_u8 F a s) = Suc (length s)" "length (push_u16 F b s) = Suc (length s)"
  "length (push_u32 F c s) = Suc (length s)"
  by (simp_all add: vm_push_def vm_padw_def push_u8_def push_u16_def push_u32_def)

lemma height_pushw [simp]: "length (vm_pushw w s) = length s + 4"
  by (cases w) (simp add: vm_pushw.simps)

lemma height_dropn [heights]: "vm_dropn n s = Some s' \<Longrightarrow> length s = length s' + n"
  by (auto simp: vm_dropn_def bind_assert_that split: if_splits)

lemma height_drop [heights]: "vm_drop s = Some s' \<Longrightarrow> length s = Suc (length s')"
  by (auto simp: vm_drop_def dest!: heights)

lemma height_dropw [heights]: "vm_dropw s = Some s' \<Longrightarrow> length s = length s' + 4"
  by (auto simp: vm_dropw_def dest!: heights)

lemma height_dup [heights]: "vm_dup n s = Some s' \<Longrightarrow> length s' = Suc (length s)"
  by (auto simp: vm_dup_def split: bind_splits)

lemma height_dupw [heights]: "vm_dupw n s = Some s' \<Longrightarrow> length s' = length s + 4"
  by (auto simp: vm_dupw_def bind_assert_that Let_def split: if_splits option.splits)

lemma height_swap [heights]: "vm_swap n s = Some s' \<Longrightarrow> length s' = length s"
  by (auto simp: vm_swap_def bind_assert_that Let_def split: if_splits)

lemma height_fold_swap: "length (fold (\<lambda>k. list_swap (f k) (g k)) ks s) = length s"
  by (induction ks arbitrary: s) simp_all

lemma height_swapw [heights]: "vm_swapw n s = Some s' \<Longrightarrow> length s' = length s"
  by (auto simp: vm_swapw_def bind_assert_that Let_def height_fold_swap simp del: upt_Suc split: if_splits)

lemma height_rotate [heights]:
  "slice_rotate_left k r = Some r' \<Longrightarrow> length r' = length r"
  "slice_rotate_right k r = Some r' \<Longrightarrow> length r' = length r"
  by (auto simp: slice_rotate_left_def slice_rotate_right_def bind_assert_that split: if_splits)

lemma height_moves [heights]:
  "vm_movup n s = Some s' \<Longrightarrow> length s' = length s"
  "vm_movupw n s = Some s' \<Longrightarrow> length s' = length s"
  "vm_movdn n s = Some s' \<Longrightarrow> length s' = length s"
  "vm_movdnw n s = Some s' \<Longrightarrow> length s' = length s"
  by (auto simp: vm_movup_def vm_movupw_def vm_movdn_def vm_movdnw_def bind_assert_that Let_def
      split: if_splits bind_splits dest!: heights)

section \<open>The builder\<close>

text \<open>The change of height that the builder assumes.\<close>

primrec stack_op_delta :: "'f stack_op \<Rightarrow> int" where
  "stack_op_delta Padw = 4"
| "stack_op_delta (Push _) = 1"
| "stack_op_delta (Push2 _ _) = 2"
| "stack_op_delta (Pushw _) = 4"
| "stack_op_delta (PushU8 _) = 1"
| "stack_op_delta (PushU16 _) = 1"
| "stack_op_delta (PushU32 _) = 1"
| "stack_op_delta Drop = -1"
| "stack_op_delta Dropw = -4"
| "stack_op_delta (Dup _) = 1"
| "stack_op_delta (Dupw _) = 4"
| "stack_op_delta (Swap _) = 0"
| "stack_op_delta (Swapw _) = 0"
| "stack_op_delta (Movup _) = 0"
| "stack_op_delta (Movupw _) = 0"
| "stack_op_delta (Movdn _) = 0"
| "stack_op_delta (Movdnw _) = 0"
| "stack_op_delta Cswap = -1"
| "stack_op_delta Cswapw = -1"
| "stack_op_delta Cdrop = -2"
| "stack_op_delta Cdropw = -5"
| "stack_op_delta Assert = -1"
| "stack_op_delta Assertz = -1"
| "stack_op_delta AssertEq = -2"
| "stack_op_delta AssertEqw = -8"

lemma stack_op_heights:
  "stack_op_effect op ts = Some ts' \<Longrightarrow> int (length ts') = int (length ts) + stack_op_delta op"
  "exec_stack_op F op s = Some s' \<Longrightarrow> int (length s') = int (length s) + stack_op_delta op"
proof -
  show "stack_op_effect op ts = Some ts' \<Longrightarrow> int (length ts') = int (length ts) + stack_op_delta op"
    by (cases op) (auto simp: expect_bool_def bind_assert_that split: bind_splits if_splits dest!: heights)
  show "exec_stack_op F op s = Some s' \<Longrightarrow> int (length s') = int (length s) + stack_op_delta op"
    by (cases op) (auto simp: bind_assert_that split: bind_splits if_splits dest!: heights)
qed

primrec mem_op_delta :: "mem_op \<Rightarrow> int" where
  "mem_op_delta (LocAddr _) = 1"
| "mem_op_delta MemLoad = 0"
| "mem_op_delta (MemLoadImm _) = 1"
| "mem_op_delta MemLoadOffset = -1"
| "mem_op_delta (MemLoadOffsetImm _ _) = 1"
| "mem_op_delta MemLoadw = -1"
| "mem_op_delta (MemLoadwImm _) = 0"
| "mem_op_delta MemStore = -2"
| "mem_op_delta (MemStoreImm _) = -1"
| "mem_op_delta MemStoreOffset = -3"
| "mem_op_delta (MemStoreOffsetImm _ _) = -1"
| "mem_op_delta MemStorew = -1"
| "mem_op_delta (MemStorewImm _) = 0"

definition felt_op_delta :: "'f felt_op \<Rightarrow> int" where
  "felt_op_delta op = (case op of Add \<Rightarrow> -1 | Sub \<Rightarrow> -1 | Mul \<Rightarrow> -1 | Div \<Rightarrow> -1 | Exp \<Rightarrow> -1 | _ \<Rightarrow> 0)"

primrec cmp_op_delta :: "'f cmp_op \<Rightarrow> int" where
  "cmp_op_delta OpNot = 0"
| "cmp_op_delta (AndImm _) = 0"
| "cmp_op_delta (OrImm _) = 0"
| "cmp_op_delta (XorImm _) = 0"
| "cmp_op_delta OpAnd = -1"
| "cmp_op_delta OpOr = -1"
| "cmp_op_delta OpXor = -1"
| "cmp_op_delta Eq = -1"
| "cmp_op_delta Neq = -1"
| "cmp_op_delta Gt = -1"
| "cmp_op_delta Gte = -1"
| "cmp_op_delta Lt = -1"
| "cmp_op_delta Lte = -1"
| "cmp_op_delta (EqImm _) = 0"
| "cmp_op_delta (NeqImm _) = 0"
| "cmp_op_delta (GtImm _) = 0"
| "cmp_op_delta (GteImm _) = 0"
| "cmp_op_delta (LtImm _) = 0"
| "cmp_op_delta (LteImm _) = 0"
| "cmp_op_delta IsOdd = 0"
| "cmp_op_delta Eqw = -7"

definition arith_op_delta :: "arith_op \<Rightarrow> int" where
  "arith_op_delta op =
     (case op of
        U32Test \<Rightarrow> 1 | U32Testw \<Rightarrow> 1 | U32Assert \<Rightarrow> 0 | U32Assert2 \<Rightarrow> 0 | U32Assertw \<Rightarrow> 0
      | U32Cast \<Rightarrow> 0 | U32Split \<Rightarrow> 1
      | U32OverflowingAdd \<Rightarrow> 0 | U32OverflowingSub \<Rightarrow> 0 | U32OverflowingMul \<Rightarrow> 0
      | U32OverflowingAddImm _ \<Rightarrow> 1 | U32OverflowingSubImm _ \<Rightarrow> 1 | U32OverflowingMulImm _ \<Rightarrow> 1
      | U32OverflowingAdd3 \<Rightarrow> -1 | U32OverflowingMadd \<Rightarrow> -1
      | U32WrappingAdd3 \<Rightarrow> -2 | U32WrappingMadd \<Rightarrow> -2
      | U32CheckedAddImm _ \<Rightarrow> 0 | U32CheckedSubImm _ \<Rightarrow> 0 | U32CheckedMulImm _ \<Rightarrow> 0
      | U32WrappingAddImm _ \<Rightarrow> 0 | U32WrappingSubImm _ \<Rightarrow> 0 | U32WrappingMulImm _ \<Rightarrow> 0
      | _ \<Rightarrow> -1)"

text \<open>The instructions with a quotient and a remainder leave one element more.\<close>

definition bit_op_delta :: "bit_op \<Rightarrow> int" where
  "bit_op_delta op =
     (if bit_op_is_unary op then 0 else -1) +
     (case op of
        U32CheckedDivMod \<Rightarrow> 1 | U32CheckedDivModImm _ \<Rightarrow> 1
      | U32UncheckedDivMod \<Rightarrow> 1 | U32UncheckedDivModImm _ \<Rightarrow> 1 | _ \<Rightarrow> 0)"

primrec rel_op_delta :: "rel_op \<Rightarrow> int" where
  "rel_op_delta U32CheckedPopcnt = 0"
| "rel_op_delta U32UncheckedPopcnt = 0"
| "rel_op_delta U32Eq = -1"
| "rel_op_delta U32Neq = -1"
| "rel_op_delta (U32EqImm _) = 0"
| "rel_op_delta (U32NeqImm _) = 0"
| "rel_op_delta U32CheckedLt = -1"
| "rel_op_delta U32UncheckedLt = -1"
| "rel_op_delta U32CheckedLte = -1"
| "rel_op_delta U32UncheckedLte = -1"
| "rel_op_delta U32CheckedGt = -1"
| "rel_op_delta U32UncheckedGt = -1"
| "rel_op_delta U32CheckedGte = -1"
| "rel_op_delta U32UncheckedGte = -1"
| "rel_op_delta U32CheckedMin = -1"
| "rel_op_delta U32UncheckedMin = -1"
| "rel_op_delta U32CheckedMax = -1"
| "rel_op_delta U32UncheckedMax = -1"

lemma height_felt [heights]:
  "felt_binary ts = Some (ty, ts') \<Longrightarrow> length ts = length ts' + 2"
  "felt_unary ts = Some ts' \<Longrightarrow> length ts' = length ts"
  "felt_test ts = Some ts' \<Longrightarrow> length ts' = length ts"
  "bool_unary ts = Some ts' \<Longrightarrow> length ts' = length ts"
  "bool_binary ts = Some ts' \<Longrightarrow> length ts = Suc (length ts')"
  by (auto simp: felt_binary_def felt_unary_def felt_test_def bool_unary_def bool_binary_def
      bind_assert_that split: bind_splits if_splits dest!: heights)

lemma height_u32 [heights]:
  "u32_binary ts = Some (ty, ts') \<Longrightarrow> length ts = length ts' + 2"
  "u32_unary ts = Some (ty, ts') \<Longrightarrow> length ts = Suc (length ts')"
  "u32_add3 ts = Some (ty, ts') \<Longrightarrow> length ts = length ts' + 3"
  "u32_madd ts = Some (ty, ts') \<Longrightarrow> length ts = length ts' + 3"
  "u32_compare ts = Some ts' \<Longrightarrow> length ts = Suc (length ts')"
  "u32_cast ts = Some ts' \<Longrightarrow> length ts' = length ts"
  by (auto simp: u32_binary_def u32_unary_def u32_add3_def u32_madd_def u32_compare_def u32_cast_def
      bind_assert_that split: bind_splits if_splits dest!: heights)

lemma height_u32_ops [heights]:
  "u32_binop ts = Some ts' \<Longrightarrow> length ts = Suc (length ts')"
  "u32_unop ts = Some ts' \<Longrightarrow> length ts' = length ts"
  "u32_overflowing_binop ts = Some ts' \<Longrightarrow> length ts' = length ts"
  "u32_overflowing_unop ts = Some ts' \<Longrightarrow> length ts' = Suc (length ts)"
  "u32_compare_imm ts = Some ts' \<Longrightarrow> length ts' = length ts"
  by (auto simp: u32_binop_def u32_unop_def u32_overflowing_binop_def u32_overflowing_unop_def
      u32_compare_imm_def split: bind_splits dest!: heights)

lemma height_expect [heights]:
  "expect_bool ts = Some ts' \<Longrightarrow> length ts = Suc (length ts')"
  "expect_pointer ts = Some (ty, ts') \<Longrightarrow> length ts = Suc (length ts')"
  by (auto simp: expect_bool_def expect_pointer_def bind_assert_that split: bind_splits if_splits dest!: heights)

section \<open>The emulator\<close>

lemma height_binops [heights]:
  "binop f s = Some s' \<Longrightarrow> length s = Suc (length s')"
  "binop_imm f x s = Some s' \<Longrightarrow> length s' = length s"
  "binop32 F g s = Some s' \<Longrightarrow> length s = Suc (length s')"
  "binop32_imm F g v s = Some s' \<Longrightarrow> length s' = length s"
  "binop_checked_u32 F h s = Some s' \<Longrightarrow> length s = Suc (length s')"
  "binop_checked_u32_imm F h v s = Some s' \<Longrightarrow> length s' = length s"
  "binop_overflowing_u32 F k s = Some s' \<Longrightarrow> length s' = length s"
  "binop_overflowing_u32_imm F k v s = Some s' \<Longrightarrow> length s' = Suc (length s)"
  "binop_wrapping_u32 F g s = Some s' \<Longrightarrow> length s = Suc (length s')"
  "binop_wrapping_u32_imm F g v s = Some s' \<Longrightarrow> length s' = length s"
  by (auto simp: binop_def binop_imm_def binop32_def binop32_imm_def binop_checked_u32_def
      binop_checked_u32_imm_def binop_overflowing_u32_def binop_overflowing_u32_imm_def
      binop_wrapping_u32_def binop_wrapping_u32_imm_def split: bind_splits dest!: heights)

lemma height_comparisons [heights]:
  "comparison F r s = Some s' \<Longrightarrow> length s = Suc (length s')"
  "comparison_imm F r x s = Some s' \<Longrightarrow> length s' = length s"
  "comparison32 F r32 s = Some s' \<Longrightarrow> length s = Suc (length s')"
  "comparison32_imm F r32 v s = Some s' \<Longrightarrow> length s' = length s"
  by (auto simp: comparison_def comparison_imm_def comparison32_def comparison32_imm_def
      split: bind_splits dest!: heights)

lemma height_madd [heights]:
  "exec_madd F w s = Some s' \<Longrightarrow> length s + (if w then 0 else 1) = length s' + 2"
  by (auto simp: exec_madd_def Let_def split: bind_splits if_splits dest!: heights)

lemma height_divmod [heights]:
  "divmod_felts F x y s = Some s' \<Longrightarrow> length s' = length s + 2"
  "divmod_u32s F v w s = Some s' \<Longrightarrow> length s' = length s + 2"
  by (auto simp: divmod_felts_def divmod_u32s_def split: bind_splits)

lemma felt_op_heights:
  "felt_op_effect op ts = Some ts' \<Longrightarrow> int (length ts') = int (length ts) + felt_op_delta op"
  "exec_felt_op F op s = Some s' \<Longrightarrow> int (length s') = int (length s) + felt_op_delta op"
proof -
  show "felt_op_effect op ts = Some ts' \<Longrightarrow> int (length ts') = int (length ts) + felt_op_delta op"
    by (cases op) (auto simp: felt_op_effect_def felt_op_delta_def split: bind_splits dest!: heights)
  show "exec_felt_op F op s = Some s' \<Longrightarrow> int (length s') = int (length s) + felt_op_delta op"
    by (cases op) (auto simp: felt_op_delta_def bind_assert_that Let_def split: bind_splits if_splits dest!: heights)
qed

lemma cmp_op_heights:
  "cmp_op_effect op ts = Some ts' \<Longrightarrow> int (length ts') = int (length ts) + cmp_op_delta op"
  "exec_cmp_op F op s = Some s' \<Longrightarrow> int (length s') = int (length s) + cmp_op_delta op"
proof -
  show "cmp_op_effect op ts = Some ts' \<Longrightarrow> int (length ts') = int (length ts) + cmp_op_delta op"
    by (cases op) (auto split: bind_splits dest!: heights)
  show "exec_cmp_op F op s = Some s' \<Longrightarrow> int (length s') = int (length s) + cmp_op_delta op"
    by (cases op) (auto split: bind_splits dest!: heights)
qed

lemma arith_op_heights:
  "arith_op_effect op ts = Some ts' \<Longrightarrow> int (length ts') = int (length ts) + arith_op_delta op"
  "exec_arith_op F op s = Some s' \<Longrightarrow> int (length s') = int (length s) + arith_op_delta op"
proof -
  show "arith_op_effect op ts = Some ts' \<Longrightarrow> int (length ts') = int (length ts) + arith_op_delta op"
    by (cases op) (auto simp: arith_op_effect_def arith_op_delta_def bind_assert_that
        split: bind_splits if_splits dest!: heights)
  show "exec_arith_op F op s = Some s' \<Longrightarrow> int (length s') = int (length s) + arith_op_delta op"
    by (cases op) (auto simp: arith_op_delta_def bind_assert_that Let_def
        split: bind_splits if_splits dest!: heights)
qed

lemma bit_op_heights:
  "bit_op_effect op ts = Some ts' \<Longrightarrow>
     int (length ts') = int (length ts) + (if bit_op_is_unary op then 0 else -1)"
  "exec_bit_op F op s = Some s' \<Longrightarrow> int (length s') = int (length s) + bit_op_delta op"
proof -
  show "bit_op_effect op ts = Some ts' \<Longrightarrow>
      int (length ts') = int (length ts) + (if bit_op_is_unary op then 0 else -1)"
    by (auto simp: bit_op_effect_def split: if_splits dest!: heights)
  show "exec_bit_op F op s = Some s' \<Longrightarrow> int (length s') = int (length s) + bit_op_delta op"
    by (cases op) (auto simp: bit_op_delta_def bit_op_is_unary_def split: bind_splits dest!: heights)
qed

lemma rel_op_heights:
  "rel_op_effect op ts = Some ts' \<Longrightarrow> int (length ts') = int (length ts) + rel_op_delta op"
  "exec_rel_op F op s = Some s' \<Longrightarrow> int (length s') = int (length s) + rel_op_delta op"
proof -
  show "rel_op_effect op ts = Some ts' \<Longrightarrow> int (length ts') = int (length ts) + rel_op_delta op"
    by (cases op) (auto split: bind_splits dest!: heights)
  show "exec_rel_op F op s = Some s' \<Longrightarrow> int (length s') = int (length s) + rel_op_delta op"
    by (cases op) (auto split: bind_splits dest!: heights)
qed

lemma height_store [heights]:
  "store_or_break a pushed s m st em = Some (Next st' em') \<Longrightarrow> length (em_stack em') = length s"
  by (auto simp: store_or_break_def suspend_at_break_def split: bind_splits if_splits)

lemma height_pop_addr [heights]: "pop_addr F em s = Some (a, s') \<Longrightarrow> length s = Suc (length s')"
  by (auto simp: pop_addr_def bind_assert_that split: bind_splits if_splits dest!: heights)

lemma mem_op_heights:
  "exec_mem_op F op st em = Some (Next st' em') \<Longrightarrow>
     int (length (em_stack em')) = int (length (em_stack em)) + mem_op_delta op"
  by (cases op)
    (auto simp: bind_assert_that suspend_at_break_def split: bind_splits if_splits dest!: heights)

section \<open>Straight-line code\<close>

definition straight_line :: "'f masm_op \<Rightarrow> bool" where
  "straight_line op =
     (case op of OpIf _ _ \<Rightarrow> False | OpWhile _ \<Rightarrow> False | OpRepeat _ _ \<Rightarrow> False
      | OpExec _ \<Rightarrow> False | OpSyscall _ \<Rightarrow> False | _ \<Rightarrow> True)"

text \<open>The instructions for which the builder and the emulator disagree about the height.\<close>

definition height_mismatch :: "'f masm_op \<Rightarrow> bool" where
  "height_mismatch op =
     (case op of
        Mem o1 \<Rightarrow> (case o1 of
            MemLoadOffset \<Rightarrow> True | MemLoadw \<Rightarrow> True | MemLoadwImm _ \<Rightarrow> True
          | MemStoreOffset \<Rightarrow> True | MemStorew \<Rightarrow> True | MemStorewImm _ \<Rightarrow> True | _ \<Rightarrow> False)
      | Bit o1 \<Rightarrow> (case o1 of
            U32CheckedDivMod \<Rightarrow> True | U32CheckedDivModImm _ \<Rightarrow> True
          | U32UncheckedDivMod \<Rightarrow> True | U32UncheckedDivModImm _ \<Rightarrow> True | _ \<Rightarrow> False)
      | _ \<Rightarrow> False)"

lemma ops_effect_Nil [simp]: "ops_effect d blocks [] s = Some s"
  by (simp add: ops_effect.simps)

lemma ops_effect_Cons:
  "ops_effect d blocks (op # ops) s =
     do { (s, body) \<leftarrow> enter_effect d blocks op s; s \<leftarrow> ops_effect d blocks body s; ops_effect d blocks ops s }"
  by (subst ops_effect.simps) simp

lemma map_option_bind_Some: "do { y \<leftarrow> x; Some (f y) } = map_option f x"
  by (cases x) simp_all

lemma enter_straight:
  "straight_line op \<Longrightarrow> enter_effect d blocks op s = map_option (\<lambda>s. (s, [])) (op_effect d op s)"
  by (cases op) (simp_all add: enter_effect_def straight_line_def map_option_bind_Some)

lemma apply_straight:
  "straight_line op \<Longrightarrow> apply_op_stack_effects op s d blocks = op_effect d op s"
  by (cases "op_effect d op s") (simp_all add: apply_op_stack_effects_def ops_effect_Cons enter_straight)

text \<open>By how much the builder's height exceeds the emulator's after the instruction.\<close>

definition excess :: "'f masm_op \<Rightarrow> int" where
  "excess op =
     (case op of
        Mem o1 \<Rightarrow> (case o1 of
            MemLoadOffset \<Rightarrow> 1 | MemLoadw \<Rightarrow> 4 | MemLoadwImm _ \<Rightarrow> 4
          | MemStoreOffset \<Rightarrow> 1 | MemStorew \<Rightarrow> -4 | MemStorewImm _ \<Rightarrow> -4 | _ \<Rightarrow> 0)
      | Bit o1 \<Rightarrow> (case o1 of
            U32CheckedDivMod \<Rightarrow> -1 | U32CheckedDivModImm _ \<Rightarrow> -1
          | U32UncheckedDivMod \<Rightarrow> -1 | U32UncheckedDivModImm _ \<Rightarrow> -1 | _ \<Rightarrow> 0)
      | _ \<Rightarrow> 0)"

lemma excess_mismatch: "excess op \<noteq> 0 \<longleftrightarrow> height_mismatch op"
  by (auto simp: excess_def height_mismatch_def split: masm_op.splits mem_op.splits bit_op.splits)

lemma mem_effect_height:
  "mem_op_effect o1 ts = Some ts' \<Longrightarrow>
     int (length ts') = int (length ts) + mem_op_delta o1 + excess (Mem o1 :: 'f masm_op)"
  by (cases o1) (auto simp: excess_def split: bind_splits dest!: heights)

lemma straight_heights:
  fixes op :: "'f masm_op"
  assumes "straight_line op" "op_effect d op ts = Some ts'"
    "exec_instruction F op st em = Some (Next st' em')"
  shows "int (length ts') - int (length ts) =
    int (length (em_stack em')) - int (length (em_stack em)) + excess op"
proof (cases op)
  case (Stk o1)
  with assms stack_op_heights(1) [of o1] stack_op_heights(2) [of F o1] show ?thesis
    by (auto simp: op_effect_def exec_instruction_def excess_def split: bind_splits)
next
  case (Mem o1)
  with assms(2,3) have "mem_op_effect o1 ts = Some ts'" "exec_mem_op F o1 st em = Some (Next st' em')"
    by (simp_all add: op_effect_def exec_instruction_def)
  from mem_effect_height [OF this(1), where 'f = 'f] mem_op_heights [OF this(2)] show ?thesis
    unfolding Mem by linarith
next
  case (Fld o1)
  with assms felt_op_heights(1) [of o1] felt_op_heights(2) [of F o1] show ?thesis
    by (auto simp: op_effect_def exec_instruction_def excess_def split: bind_splits)
next
  case (Cmp o1)
  with assms cmp_op_heights(1) [of o1] cmp_op_heights(2) [of F o1] show ?thesis
    by (auto simp: op_effect_def exec_instruction_def excess_def split: bind_splits)
next
  case OpClk
  with assms show ?thesis by (auto simp: op_effect_def exec_instruction_def excess_def)
next
  case (Arith o1)
  with assms arith_op_heights(1) [of o1] arith_op_heights(2) [of F o1] show ?thesis
    by (auto simp: op_effect_def exec_instruction_def excess_def split: bind_splits)
next
  case (Bit o1)
  have "excess op = (if bit_op_is_unary o1 then 0 else -1) - bit_op_delta o1"
    unfolding Bit by (cases o1) (simp_all add: excess_def bit_op_delta_def bit_op_is_unary_def)
  with Bit assms bit_op_heights(1) [of o1] bit_op_heights(2) [of F o1] show ?thesis
    by (auto simp: op_effect_def exec_instruction_def split: bind_splits)
next
  case (Rel o1)
  with assms rel_op_heights(1) [of o1] rel_op_heights(2) [of F o1] show ?thesis
    by (auto simp: op_effect_def exec_instruction_def excess_def split: bind_splits)
qed (use assms(1) in \<open>simp_all add: straight_line_def\<close>)

text \<open>
  C31. The builder of inline assembly predicts how the height of the operand stack changes: for
  every instruction without control flow that both the builder and the emulator accept, the stack
  of types changes its height as the operand stack of the virtual machine does, except for exactly
  ten instructions: the loads and stores of words, the two with an offset on the stack, and the
  divisions that leave quotient and remainder.
\<close>

theorem asm_stack_tracks_vm:
  assumes "straight_line op" "apply_op_stack_effects op ts d blocks = Some ts'"
    and "exec_instruction F op st em = Some (Next st' em')"
  shows "int (length ts') - int (length ts) =
      int (length (em_stack em')) - int (length (em_stack em)) \<longleftrightarrow> \<not> height_mismatch op"
proof -
  have "op_effect d op ts = Some ts'" using assms(1,2) by (simp add: apply_straight)
  from straight_heights [OF assms(1) this assms(3)] show ?thesis
    unfolding excess_mismatch [symmetric] by linarith
qed

theorem asm_stack_tracks_vm_witness:
  "\<exists>ts' st st' em'.
     apply_op_stack_effects (Mem MemLoadw) (topdown [TyPtr TyU32, TyFelt, TyFelt, TyFelt, TyFelt])
       (default_dfg :: ref_felt dfg) [] = Some ts' \<and>
     exec_instruction ref_ops (Mem MemLoadw) st ((new_emulator ref_ops 1 0 1)
       \<lparr>em_stack := topdown (replicate 5 (felt_u32 ref_ops 0))\<rparr>) = Some (Next st' em') \<and>
     int (length ts') - 5 \<noteq> int (length (em_stack em')) - 5"
proof -
  let ?em = "(new_emulator ref_ops 1 0 1)\<lparr>em_stack := topdown (replicate 5 (felt_u32 ref_ops 0))\<rparr>"
  have ts: "apply_op_stack_effects (Mem MemLoadw) (topdown [TyPtr TyU32, TyFelt, TyFelt, TyFelt, TyFelt])
      (default_dfg :: ref_felt dfg) [] = Some (topdown (replicate 8 TyFelt))"
    by (simp add: apply_straight straight_line_def op_effect_def expect_pointer_def pop1_def stack_simps)
      (simp add: eval_nat_numeral)
  obtain st' em' where r: "exec_instruction ref_ops (Mem MemLoadw) st ?em = Some (Next st' em')"
    by (auto simp: exec_instruction_def pop_addr_def new_emulator_def eval_nat_numeral bind_assert_that
        exec_simps stack_simps vm_pushw.simps)
  have "straight_line (Mem MemLoadw :: ref_felt masm_op)" "height_mismatch (Mem MemLoadw :: ref_felt masm_op)"
    by (simp_all add: straight_line_def height_mismatch_def)
  with asm_stack_tracks_vm [OF _ ts r] show ?thesis using ts r by auto
qed

section \<open>A whole block\<close>

primrec insert_ops :: "'f dfg \<Rightarrow> 'f masm_op list \<Rightarrow> 'f masm_builder \<Rightarrow> 'f masm_builder option" where
  "insert_ops d [] m = Some m"
| "insert_ops d (op # ops) m = do { m \<leftarrow> masm_ins d (op_build op) m; insert_ops d ops m }"

primrec run_code ::
  "'f felt_ops \<Rightarrow> 'f masm_op list \<Rightarrow> 'f activation \<Rightarrow> 'f emulator \<Rightarrow> ('f activation \<times> 'f emulator) option" where
  "run_code F [] st em = Some (st, em)"
| "run_code F (op # ops) st em = do {
     flow \<leftarrow> exec_instruction F op st em;
     (case flow of Next st em \<Rightarrow> run_code F ops st em | Stop _ _ \<Rightarrow> None) }"

lemma insert_ops_state:
  assumes "insert_ops d code m = Some m'" "\<forall>op \<in> set code. straight_line op" "mb_current m < length (mb_blocks m)"
  shows "mb_builder m' = mb_builder m \<and> mb_asm m' = mb_asm m \<and>
    mb_blocks m' = (mb_blocks m)[mb_current m := mb_blocks m ! mb_current m @ code]"
  using assms
proof (induction code arbitrary: m)
  case (Cons op ops)
  from Cons.prems(1) obtain m1 where m1: "masm_ins d (op_build op) m = Some m1" "insert_ops d ops m1 = Some m'"
    by (auto split: bind_splits)
  then have "mb_builder m1 = mb_builder m" "mb_asm m1 = mb_asm m" "mb_current m1 = mb_current m"
    "mb_blocks m1 = (mb_blocks m)[mb_current m := mb_blocks m ! mb_current m @ [op]]"
    by (auto simp: masm_ins_def op_build_def asm_push_def split: bind_splits if_splits)
  then show ?case using Cons.IH [OF m1(2)] Cons.prems(2,3) by simp
qed simp

lemma arg_types_length: "arg_types d vs = Some tys \<Longrightarrow> length tys = length vs"
  by (induction vs arbitrary: tys) (auto split: bind_splits)

lemma length_push_types: "length (fold vm_push tys s) = length tys + length s"
  by (induction tys arbitrary: s) simp_all

section \<open>What the builder gets wrong\<close>

text \<open>
  Three methods of the builder do not do what they promise.  \<open>assert_eqw\<close> emits the comparison of two
  elements instead of two words.  \<open>syscall\<close> rejects every function with the kernel calling
  convention, although only these can be called with it.  A call counts the arguments in
  field elements of eight bytes but pushes the results in parts of four: a function from \<open>u64\<close>
  to \<open>u64\<close> makes the stack one element higher, and its result is two arrays of four bytes, which
  no arithmetic instruction accepts.
\<close>

theorem asm_builder_defects:
  fixes d :: "'f dfg"
  shows "mo_assert_eqw = (mo_assert_eq :: 'f masm_ins) \<and>
    (get_import d f = Some ext \<and> sig_cc (ef_signature ext) = CcKernel \<and> ob_dfg ob = d \<longrightarrow>
       mo_syscall f ob = None) \<and>
    (get_import d f = Some ext \<and> sig_cc (ef_signature ext) \<noteq> CcKernel \<and>
       map ap_ty (sig_params (ef_signature ext)) = [TyU64] \<and>
       map ap_ty (signature_results (ef_signature ext)) = [TyU64] \<and> ts \<noteq> [] \<longrightarrow>
       execute_call f False d ts = Some (butlast ts @ [TyArray TyU8 4, TyArray TyU8 4]))"
proof (intro conjI impI)
  show "mo_assert_eqw = (mo_assert_eq :: 'f masm_ins)" by (simp add: mo_assert_eqw_def mo_assert_eq_def)
next
  assume "get_import d f = Some ext \<and> sig_cc (ef_signature ext) = CcKernel \<and> ob_dfg ob = d"
  then show "mo_syscall f ob = None"
    by (simp add: mo_syscall_def op_build_def apply_op_stack_effects_def ops_effect_Cons enter_effect_def
        op_effect_def execute_call_def)
next
  assume a: "get_import d f = Some ext \<and> sig_cc (ef_signature ext) \<noteq> CcKernel \<and>
    map ap_ty (sig_params (ef_signature ext)) = [TyU64] \<and>
    map ap_ty (signature_results (ef_signature ext)) = [TyU64] \<and> ts \<noteq> []"
  have "size_in_felts TyU64 = Some 1" by (simp add: size_in_felts_def size_in_bytes_def FELT_SIZE_def)
  moreover have "to_raw_parts TyU64 = Some (Some [TyArray TyU8 4, TyArray TyU8 4])"
    using to_raw_parts_scalar [of TyU64 8]
    by (simp add: is_byte_split_def size_in_bytes_def byte_runs.simps byte_run_def)
  moreover have "Suc 0 \<le> length ts" using a by (cases ts) simp_all
  ultimately show "execute_call f False d ts = Some (butlast ts @ [TyArray TyU8 4, TyArray TyU8 4])"
    using a by (simp add: execute_call_def push_type_on_stack_def vm_dropn_def vm_push_def butlast_conv_take)
qed

theorem asm_builder_defects_witness:
  "\<exists>ts. execute_call (FunctionIdent ''m'' ''f'') False
      ((default_dfg :: int dfg)\<lparr>dfg_imports := [FunctionIdent ''m'' ''f'' \<mapsto>
         \<lparr>ef_id = FunctionIdent ''m'' ''f'', ef_signature =
           \<lparr>sig_params = [\<lparr>ap_ty = TyU64, ap_purpose = ApDefault, ap_extension = AeNone\<rparr>],
            sig_results = [\<lparr>ap_ty = TyU64, ap_purpose = ApDefault, ap_extension = AeNone\<rparr>],
            sig_cc = CcSystemV, sig_linkage = LkExternal\<rparr>\<rparr>]\<rparr>) [TyU64] = Some ts \<and> length ts = 2"
proof -
  let ?u64 = "\<lparr>ap_ty = TyU64, ap_purpose = ApDefault, ap_extension = AeNone\<rparr>"
  let ?ext = "\<lparr>ef_id = FunctionIdent ''m'' ''f'', ef_signature =
    \<lparr>sig_params = [?u64], sig_results = [?u64], sig_cc = CcSystemV, sig_linkage = LkExternal\<rparr>\<rparr>"
  let ?d = "(default_dfg :: int dfg)\<lparr>dfg_imports := [FunctionIdent ''m'' ''f'' \<mapsto> ?ext]\<rparr>"
  have "get_import ?d (FunctionIdent ''m'' ''f'') = Some ?ext" by (simp add: get_import_def)
  then show ?thesis
    using asm_builder_defects [of ?d "FunctionIdent ''m'' ''f''" ?ext undefined "[TyU64]"]
    by (simp add: signature_results_def)
qed

end
