(* ===== verification/AsmFrame.thy ===== *)
theory AsmFrame
  imports AsmProps
begin

text \<open>
  What an instruction leaves alone: the part of the operand stack below the operands that the
  builder of inline assembly has accounted for.  \<open>reaches\<close> says how deep an operation of the virtual
  machine goes, \<open>leaves_below\<close> that it stays above the types the builder knows, and the last section
  carries this through a whole block.
\<close>

section \<open>How deep the stack operations reach\<close>

text \<open>\<open>reaches k s s'\<close>: of the stack \<open>s\<close>, at most the top \<open>k\<close> elements have been touched.\<close>

definition reaches :: "nat \<Rightarrow> 'a list \<Rightarrow> 'a list \<Rightarrow> bool" where
  "reaches k s s' \<longleftrightarrow> (\<forall>m. m + k \<le> length s \<longrightarrow> take m s' = take m s)"

lemma reachesD: "reaches k s s' \<Longrightarrow> m + k \<le> length s \<Longrightarrow> take m s' = take m s"
  by (simp add: reaches_def)

named_theorems reach \<open>how deep a stack operation reaches, as destruction rules\<close>

lemma reach_pop1 [reach]: "pop1 s = Some (x, s') \<Longrightarrow> reaches 1 s s' \<and> length s = Suc (length s')"
  by (auto simp: pop1_def vm_pop_def reaches_def take_butlast split: if_splits)

lemma reach_vm_pop: "vm_pop s = (Some x, s') \<Longrightarrow> reaches 1 s s' \<and> length s = Suc (length s')"
  by (auto simp: vm_pop_def reaches_def take_butlast split: if_splits)

lemma reach_popw [reach]: "popw s = Some (w, s') \<Longrightarrow> reaches 4 s s' \<and> length s = length s' + 4"
  by (auto simp: popw_def vm_popw_def reaches_def split: option.splits prod.splits dest!: reach_vm_pop)

lemma reach_pop2 [reach]: "pop2 s = Some (x, s') \<Longrightarrow> reaches 2 s s' \<and> length s = length s' + 2"
  by (auto simp: pop2_def reaches_def split: bind_splits dest!: reach)

lemma reach_pop_u32 [reach]: "pop_u32 F s = Some (x, s') \<Longrightarrow> reaches 1 s s' \<and> length s = Suc (length s')"
  by (auto simp: pop_u32_def bind_assert_that split: bind_splits if_splits dest!: reach)

lemma reach_pop_bool [reach]: "pop_bool F s = Some (x, s') \<Longrightarrow> reaches 1 s s' \<and> length s = Suc (length s')"
  by (auto simp: pop_bool_def bind_assert_that split: bind_splits if_splits dest!: reach)

lemma take_push [simp]:
  "m \<le> length s \<Longrightarrow> take m (vm_push x s) = take m s" "m \<le> length s \<Longrightarrow> take m (vm_padw x s) = take m s"
  "m \<le> length s \<Longrightarrow> take m (push_u8 F a s) = take m s" "m \<le> length s \<Longrightarrow> take m (push_u16 F b s) = take m s"
  "m \<le> length s \<Longrightarrow> take m (push_u32 F c s) = take m s"
  by (simp_all add: vm_push_def vm_padw_def push_u8_def push_u16_def push_u32_def)

lemma take_pushw [simp]: "m \<le> length s \<Longrightarrow> take m (vm_pushw w s) = take m s"
  by (cases w) (simp add: vm_pushw.simps)

lemma take_list_swap: "m \<le> a \<Longrightarrow> m \<le> b \<Longrightarrow> take m (list_swap a b s) = take m s"
  by (simp add: list_swap_def)

lemma reach_drop [reach]:
  "vm_dropn n s = Some s' \<Longrightarrow> reaches n s s' \<and> length s = length s' + n"
  "vm_drop s = Some s' \<Longrightarrow> reaches 1 s s' \<and> length s = length s' + 1"
  "vm_dropw s = Some s' \<Longrightarrow> reaches 4 s s' \<and> length s = length s' + 4"
  by (auto simp: vm_dropn_def vm_drop_def vm_dropw_def reaches_def bind_assert_that min_def split: if_splits)

lemma reach_dup [reach]:
  "vm_dup n s = Some s' \<Longrightarrow> reaches 0 s s' \<and> length s' = Suc (length s)"
  "vm_dupw n s = Some s' \<Longrightarrow> reaches 0 s s' \<and> length s' = length s + 4"
  by (auto simp: vm_dup_def vm_dupw_def reaches_def bind_assert_that Let_def
      split: if_splits option.splits bind_splits)

lemma reach_swap [reach]: "vm_swap n s = Some s' \<Longrightarrow> reaches (Suc n) s s' \<and> length s' = length s"
  by (auto simp: vm_swap_def reaches_def bind_assert_that Let_def take_list_swap split: if_splits)

lemma take_fold_swap:
  "\<forall>k \<in> set ks. m \<le> f k \<and> m \<le> g k \<Longrightarrow> take m (fold (\<lambda>k. list_swap (f k) (g k)) ks s) = take m s"
  by (induction ks arbitrary: s) (simp_all add: take_list_swap)

lemma reach_swapw [reach]: "vm_swapw n s = Some s' \<Longrightarrow> reaches (4 * n + 4) s s' \<and> length s' = length s"
  by (auto simp: vm_swapw_def reaches_def bind_assert_that Let_def height_fold_swap
      simp del: upt_Suc split: if_splits intro!: take_fold_swap)

lemma reach_moves [reach]:
  "vm_movup n s = Some s' \<Longrightarrow> reaches (Suc n) s s' \<and> length s' = length s"
  "vm_movupw n s = Some s' \<Longrightarrow> reaches (4 * n + 4) s s' \<and> length s' = length s"
  "vm_movdn n s = Some s' \<Longrightarrow> reaches (Suc n) s s' \<and> length s' = length s"
  "vm_movdnw n s = Some s' \<Longrightarrow> reaches (4 * n + 4) s s' \<and> length s' = length s"
  using height_moves [where s = s and s' = s' and n = n]
  by (auto simp: vm_movup_def vm_movupw_def vm_movdn_def vm_movdnw_def bind_assert_that Let_def reaches_def
      split: if_splits bind_splits)

text \<open>What the builder needs to have seen of the stack for its own operation on types.\<close>

lemma moves_need:
  fixes ts :: "hir_type list"
  shows
  "vm_dup n ts = Some ts' \<Longrightarrow> n < length ts"
  "vm_swap n ts = Some ts' \<Longrightarrow> n < length ts"
  "vm_swapw n ts = Some ts' \<Longrightarrow> 4 * n + 4 \<le> length ts"
  "vm_movup n ts = Some ts' \<Longrightarrow> n < length ts"
  "vm_movupw n ts = Some ts' \<Longrightarrow> 4 * n + 4 \<le> length ts"
  "vm_movdn n ts = Some ts' \<Longrightarrow> n < length ts"
  "vm_movdnw n ts = Some ts' \<Longrightarrow> 4 * n + 4 \<le> length ts"
  by (auto simp: vm_dup_def vm_index_def vm_swap_def vm_swapw_def vm_movup_def vm_movupw_def vm_movdn_def vm_movdnw_def
      bind_assert_that Let_def split: if_splits bind_splits)

text \<open>
  The builder takes only the condition from the stack for the conditional swaps, and only the
  condition and one alternative for the conditional drops: the machine needs both alternatives.
\<close>

definition reaches_deeper :: "'f masm_op \<Rightarrow> bool" where
  "reaches_deeper op \<longleftrightarrow> op \<in> Stk ` {Cswap, Cswapw, Cdrop, Cdropw}"

text \<open>An operation that has been checked on the types leaves what is below them alone.\<close>

definition leaves_below :: "hir_type list \<Rightarrow> 'a list \<Rightarrow> 'a list \<Rightarrow> bool" where
  "leaves_below ts s s' \<longleftrightarrow> (\<forall>m. m + length ts \<le> length s \<longrightarrow> take m s' = take m s)"

lemma leaves_belowI: "reaches k s s' \<Longrightarrow> k \<le> length ts \<Longrightarrow> leaves_below ts s s'"
  by (simp add: reaches_def leaves_below_def)

lemma moves_frame:
  "vm_swap n ts = Some ts' \<Longrightarrow> vm_swap n s = Some s' \<Longrightarrow> leaves_below ts s s'"
  "vm_swapw n ts = Some ts' \<Longrightarrow> vm_swapw n s = Some s' \<Longrightarrow> leaves_below ts s s'"
  "vm_movup n ts = Some ts' \<Longrightarrow> vm_movup n s = Some s' \<Longrightarrow> leaves_below ts s s'"
  "vm_movupw n ts = Some ts' \<Longrightarrow> vm_movupw n s = Some s' \<Longrightarrow> leaves_below ts s s'"
  "vm_movdn n ts = Some ts' \<Longrightarrow> vm_movdn n s = Some s' \<Longrightarrow> leaves_below ts s s'"
  "vm_movdnw n ts = Some ts' \<Longrightarrow> vm_movdnw n s = Some s' \<Longrightarrow> leaves_below ts s s'"
  using moves_need [of n ts ts'] reach_swap [of n s s'] reach_swapw [of n s s'] reach_moves [of n s s']
  by (auto simp: reaches_def leaves_below_def)

lemma stack_op_frame:
  assumes "stack_op_effect op ts = Some ts'" "exec_stack_op F op s = Some s'" "\<not> reaches_deeper (Stk op)"
  shows "leaves_below ts s s'"
  using assms
  by (cases op; (auto intro: moves_frame; fail)?)
    (auto simp: leaves_below_def reaches_def reaches_deeper_def bind_assert_that
      split: bind_splits if_splits dest!: reach height_expect)

lemma felt_unary_Some: "felt_unary ts = Some ts' \<Longrightarrow> \<exists>r t. ts = r @ [t] \<and> ts' = ts"
  by (cases ts rule: rev_cases) (auto simp: felt_unary_def vm_peek_def split: bind_splits)

section \<open>The instructions\<close>

lemma reach_binops [reach]:
  "binop f s = Some s' \<Longrightarrow> reaches 2 s s' \<and> length s = Suc (length s')"
  "binop_imm f x s = Some s' \<Longrightarrow> reaches 1 s s' \<and> length s' = length s"
  "binop32 F g s = Some s' \<Longrightarrow> reaches 2 s s' \<and> length s = Suc (length s')"
  "binop32_imm F g v s = Some s' \<Longrightarrow> reaches 1 s s' \<and> length s' = length s"
  "binop_checked_u32 F h s = Some s' \<Longrightarrow> reaches 2 s s' \<and> length s = Suc (length s')"
  "binop_checked_u32_imm F h v s = Some s' \<Longrightarrow> reaches 1 s s' \<and> length s' = length s"
  "binop_overflowing_u32 F k s = Some s' \<Longrightarrow> reaches 2 s s' \<and> length s' = length s"
  "binop_overflowing_u32_imm F k v s = Some s' \<Longrightarrow> reaches 1 s s' \<and> length s' = Suc (length s)"
  "binop_wrapping_u32 F g s = Some s' \<Longrightarrow> reaches 2 s s' \<and> length s = Suc (length s')"
  "binop_wrapping_u32_imm F g v s = Some s' \<Longrightarrow> reaches 1 s s' \<and> length s' = length s"
  by (auto simp: reaches_def binop_def binop_imm_def binop32_def binop32_imm_def binop_checked_u32_def
      binop_checked_u32_imm_def binop_overflowing_u32_def binop_overflowing_u32_imm_def
      binop_wrapping_u32_def binop_wrapping_u32_imm_def split: bind_splits dest!: reach)

lemma reach_comparisons [reach]:
  "comparison F r s = Some s' \<Longrightarrow> reaches 2 s s' \<and> length s = Suc (length s')"
  "comparison_imm F r x s = Some s' \<Longrightarrow> reaches 1 s s' \<and> length s' = length s"
  "comparison32 F r32 s = Some s' \<Longrightarrow> reaches 2 s s' \<and> length s = Suc (length s')"
  "comparison32_imm F r32 v s = Some s' \<Longrightarrow> reaches 1 s s' \<and> length s' = length s"
  by (auto simp: reaches_def comparison_def comparison_imm_def comparison32_def comparison32_imm_def
      split: bind_splits dest!: reach)

lemma reach_madd [reach]: "exec_madd F w s = Some s' \<Longrightarrow> reaches 3 s s'"
  by (auto simp: reaches_def exec_madd_def Let_def split: bind_splits if_splits dest!: reach)

lemma reach_divmod [reach]:
  "divmod_felts F x y s = Some s' \<Longrightarrow> reaches 0 s s'"
  "divmod_u32s F v w s = Some s' \<Longrightarrow> reaches 0 s s'"
  by (auto simp: reaches_def divmod_felts_def divmod_u32s_def split: bind_splits)

lemma felt_op_frame:
  "felt_op_effect op ts = Some ts' \<Longrightarrow> exec_felt_op F op s = Some s' \<Longrightarrow> leaves_below ts s s'"
  by (cases op)
    (auto simp: felt_op_effect_def leaves_below_def reaches_def bind_assert_that Let_def
      split: bind_splits if_splits dest!: reach height_felt(1) felt_unary_Some)

lemma cmp_op_frame:
  "cmp_op_effect op ts = Some ts' \<Longrightarrow> exec_cmp_op F op s = Some s' \<Longrightarrow> leaves_below ts s s'"
  by (cases op)
    (auto simp: leaves_below_def reaches_def bind_assert_that felt_test_def bool_unary_def bool_binary_def
      split: bind_splits if_splits dest!: reach height_felt(1))

lemma arith_op_frame:
  "arith_op_effect op ts = Some ts' \<Longrightarrow> exec_arith_op F op s = Some s' \<Longrightarrow> leaves_below ts s s'"
  by (cases op)
    (auto simp: arith_op_effect_def leaves_below_def reaches_def bind_assert_that Let_def u32_binop_def u32_unop_def
      u32_overflowing_binop_def u32_overflowing_unop_def u32_cast_def
      split: bind_splits if_splits dest!: reach height_u32(1-4))

lemma bit_op_frame:
  "bit_op_effect op ts = Some ts' \<Longrightarrow> exec_bit_op F op s = Some s' \<Longrightarrow> leaves_below ts s s'"
  by (cases op)
    (auto simp: bit_op_effect_def bit_op_is_unary_def leaves_below_def reaches_def u32_binop_def u32_unop_def
      split: bind_splits dest!: reach height_u32(1,2))

lemma rel_op_frame:
  "rel_op_effect op ts = Some ts' \<Longrightarrow> exec_rel_op F op s = Some s' \<Longrightarrow> leaves_below ts s s'"
  by (cases op)
    (auto simp: leaves_below_def reaches_def u32_binop_def u32_unop_def u32_compare_def u32_compare_imm_def
      split: bind_splits dest!: reach height_u32(1,2))

lemma reach_pop_addr [reach]: "pop_addr F em s = Some (a, s') \<Longrightarrow> reaches 1 s s' \<and> length s = Suc (length s')"
  by (auto simp: pop_addr_def bind_assert_that split: bind_splits if_splits dest!: reach)

lemma store_stack: "store_or_break a pushed s m st em = Some (Next st' em') \<Longrightarrow> em_stack em' = s"
  by (auto simp: store_or_break_def suspend_at_break_def split: bind_splits if_splits)

lemma mem_op_frame:
  "mem_op_effect op ts = Some ts' \<Longrightarrow> exec_mem_op F op st em = Some (Next st' em') \<Longrightarrow>
     \<not> height_mismatch (Mem op :: 'f masm_op) \<Longrightarrow> leaves_below ts (em_stack em) (em_stack em')"
  by (cases op)
    (auto simp: leaves_below_def reaches_def height_mismatch_def bind_assert_that suspend_at_break_def
      split: bind_splits if_splits dest!: reach height_expect store_stack)

lemma straight_frame:
  fixes op :: "'f masm_op"
  assumes "straight_line op" "op_effect d op ts = Some ts'"
    and "exec_instruction F op st em = Some (Next st' em')"
    and "\<not> height_mismatch op" "\<not> reaches_deeper op"
  shows "leaves_below ts (em_stack em) (em_stack em')"
proof (cases op)
  case (Mem o1)
  with assms mem_op_frame [of o1 ts ts' F st em st' em'] show ?thesis
    by (simp add: op_effect_def exec_instruction_def)
next
  case (Stk o1)
  with assms stack_op_frame [of o1 ts ts' F] show ?thesis
    by (auto simp: op_effect_def exec_instruction_def split: bind_splits)
next
  case OpClk
  with assms show ?thesis by (auto simp: op_effect_def exec_instruction_def leaves_below_def)
qed (use assms felt_op_frame cmp_op_frame arith_op_frame bit_op_frame rel_op_frame in
  \<open>auto simp: op_effect_def exec_instruction_def straight_line_def split: bind_splits\<close>)

section \<open>A whole block\<close>

text \<open>Neither the heights nor the reach of the instruction differ between builder and machine.\<close>

definition tracked :: "'f masm_op \<Rightarrow> bool" where
  "tracked op \<longleftrightarrow> straight_line op \<and> \<not> height_mismatch op \<and> \<not> reaches_deeper op"

lemma insert_ops_frame:
  assumes "insert_ops d code m = Some m'" "run_code F code st em = Some (st', em')"
    and "\<forall>op \<in> set code. tracked op" "k + length (mb_stack m) = length (em_stack em)"
  shows "k + length (mb_stack m') = length (em_stack em') \<and> take k (em_stack em') = take k (em_stack em)"
  using assms
proof (induction code arbitrary: m st em)
  case (Cons op ops)
  from Cons.prems(3) have op: "straight_line op" "\<not> height_mismatch op" "\<not> reaches_deeper op"
    by (simp_all add: tracked_def)
  from Cons.prems(1) obtain m1 where m1: "masm_ins d (op_build op) m = Some m1" "insert_ops d ops m1 = Some m'"
    by (auto split: bind_splits)
  then have e: "op_effect d op (mb_stack m) = Some (mb_stack m1)"
    using op(1) by (auto simp: masm_ins_def op_build_def apply_straight split: bind_splits)
  from Cons.prems(2) obtain st1 em1 where r: "exec_instruction F op st em = Some (Next st1 em1)"
    "run_code F ops st1 em1 = Some (st', em')"
    by (auto split: bind_splits flow.splits)
  have "k + length (mb_stack m1) = length (em_stack em1)"
    using straight_heights [OF op(1) e r(1)] excess_mismatch [of op] op(2) Cons.prems(4) by simp
  moreover have "take k (em_stack em1) = take k (em_stack em)"
    using straight_frame [OF op(1) e r(1) op(2,3)] Cons.prems(4) by (simp add: leaves_below_def)
  ultimately show ?case using Cons.IH [OF m1(2) r(2)] Cons.prems(3) by simp
qed simp

text \<open>
  C32. What a block of inline assembly does to the operand stack.  When the builder has accepted
  the arguments, the instructions of the body and the block itself, the block is inserted with
  exactly these instructions, and every run of the body in the emulator that goes through and
  starts with one element for each argument on top of the stack takes these elements away, puts
  the elements of the results in their place, counted in field elements, and leaves everything
  below them as it was.  The body has no control flow and none of the ten instructions of C31 whose
  height the builder gets wrong, and no conditional swap or drop: for these the builder does not
  check that the alternatives are there, and the machine takes them from below the arguments.
\<close>

theorem inline_asm_leaves_its_results:
  assumes "masm_new b args results d = Some m0" "insert_ops d code m0 = Some m"
    and "masm_build m d = Some (i, d')"
    and "\<forall>op \<in> set code. tracked op"
    and "em_stack em = below @ ins" "length ins = length args"
    and "run_code F code st em = Some (st', em')"
  shows "\<exists>outs. em_stack em' = below @ outs \<and> sum_felts results = Some (length outs) \<and>
    build b (IInlineAsm \<lparr>ia_op = OcInlineAsm, ia_args = args, ia_results = results, ia_body = 0\<rparr> [code])
      TyUnit d = Some (i, d')"
proof -
  from assms(1) obtain tys where tys: "arg_types d (rev args) = Some tys"
    and m0: "m0 = \<lparr>mb_builder = b, mb_asm = \<lparr>ia_op = OcInlineAsm, ia_args = args, ia_results = results, ia_body = 0\<rparr>,
      mb_blocks = [[]], mb_current = 0, mb_stack = fold vm_push tys []\<rparr>"
    by (auto simp: masm_new_def new_inline_asm_def Let_def split: bind_splits)
  have m: "mb_builder m = b" "mb_asm m = \<lparr>ia_op = OcInlineAsm, ia_args = args, ia_results = results, ia_body = 0\<rparr>"
    "mb_blocks m = [code]"
    using insert_ops_state [OF assms(2)] assms(4) by (simp_all add: m0 tracked_def)
  have "length below + length (mb_stack m0) = length (em_stack em)"
    using arg_types_length [OF tys] assms(5,6) by (simp add: m0 length_push_types)
  from insert_ops_frame [OF assms(2,7,4) this]
  have h: "length below + length (mb_stack m) = length (em_stack em')" "take (length below) (em_stack em') = below"
    using assms(5) by simp_all
  have "sum_felts results = Some (length (mb_stack m)) \<and>
    build b (IInlineAsm \<lparr>ia_op = OcInlineAsm, ia_args = args, ia_results = results, ia_body = 0\<rparr> [code])
      TyUnit d = Some (i, d')"
    using assms(3) by (auto simp: masm_build_def m bind_assert_that split: if_splits bind_splits)
  with h show ?thesis
    by (intro exI [of _ "drop (length below) (em_stack em')"]) (metis append_take_drop_id length_drop diff_add_inverse)
qed

theorem inline_asm_leaves_its_results_witness:
  "\<exists>m m' i d' st st' em' x.
     masm_new (InsertAt (ip_after (PpBlock 0))) [] [TyU32] (default_dfg :: ref_felt dfg) = Some m \<and>
     insert_ops default_dfg [Stk (PushU32 1), Stk (PushU32 2), Bit U32And] m = Some m' \<and>
     masm_build m' (default_dfg :: ref_felt dfg) = Some (i, d') \<and>
     run_code ref_ops [Stk (PushU32 1), Stk (PushU32 2), Bit U32And] st
       ((new_emulator ref_ops 1 0 1)\<lparr>em_stack := topdown [felt_u32 ref_ops 7]\<rparr>) = Some (st', em') \<and>
     em_stack em' = topdown [x, felt_u32 ref_ops 7]"
proof -
  let ?code = "[Stk (PushU32 1), Stk (PushU32 2), Bit U32And] :: ref_felt masm_op list"
  let ?em = "(new_emulator ref_ops 1 0 1)\<lparr>em_stack := topdown [felt_u32 ref_ops 7]\<rparr>"
  let ?b = "InsertAt (ip_after (PpBlock 0))"
  have felts: "size_in_felts TyU32 = Some 1"
    by (simp add: size_in_felts_def size_in_bytes_def FELT_SIZE_def)
  obtain m where m: "masm_new ?b [] [TyU32] (default_dfg :: ref_felt dfg) = Some m"
    "m = \<lparr>mb_builder = ?b, mb_asm = \<lparr>ia_op = OcInlineAsm, ia_args = [], ia_results = [TyU32], ia_body = 0\<rparr>,
       mb_blocks = [[]], mb_current = 0, mb_stack = []\<rparr>"
    by (simp add: masm_new_def new_inline_asm_def)
  obtain m' where m': "insert_ops default_dfg ?code m = Some m'" "length (mb_stack m') = 1"
    "mb_builder m' = ?b" "mb_asm m' = mb_asm m"
    by (simp add: m(2) masm_ins_def op_build_def apply_straight straight_line_def op_effect_def
        asm_push_def bit_op_effect_def bit_op_is_unary_def u32_binop_def u32_binary_def pop1_def vm_pop_def
        vm_push_def assert_compatible_u32_operands_def is_compatible_operand_def)
  obtain i d' where b: "masm_build m' (default_dfg :: ref_felt dfg) = Some (i, d')"
    using m' m(2) felts
    by (simp add: masm_build_def build_def insert_build_def branch_eval append_result_def make_value_def is_block_terminated_def
      last_inst_def bd_last_def)
  obtain st' em' where r: "run_code ref_ops ?code st ?em = Some (st', em')"
    by (simp add: exec_instruction_def new_emulator_def exec_simps stack_simps exec_defs)
  have t: "\<forall>op \<in> set ?code. tracked op"
    by (auto simp: tracked_def straight_line_def height_mismatch_def reaches_deeper_def)
  from inline_asm_leaves_its_results [OF m(1) m'(1) b t _ _ r, of "topdown [felt_u32 ref_ops 7]" "[]"] felts
  obtain outs where "em_stack em' = topdown [felt_u32 ref_ops 7] @ outs" "length outs = 1" by auto
  moreover from this(2) obtain x where "outs = [x]" by (cases outs) auto
  ultimately show ?thesis using m(1) m'(1) b r by (intro exI conjI) (simp_all add: topdown_def)
qed

end
