(* ===== verification/DataSegments.thy ===== *)
theory DataSegments
  imports Prelude Layout "HOL-Library.AList"
begin

text \<open>
  The constants and the data segments of a module: \<open>ConstantData\<close> and \<open>ConstantPool\<close> of
  hir/src/constants.rs, and \<open>DataSegment\<close> with its table of hir/src/segments.rs.  The ordered
  maps of the pool are association lists, the linked list of the table is a list.
\<close>

section \<open>Constants\<close>

type_synonym constant_id = nat
type_synonym constant_data = "u8 list"

definition cd_zext :: "nat \<Rightarrow> constant_data \<Rightarrow> constant_data option" where
  "cd_zext expected_size d =
     do { assert_that (length d \<le> expected_size);
          Some (d @ replicate (expected_size - length d) 0) }"

definition cd_append :: "constant_data \<Rightarrow> constant_data \<Rightarrow> constant_data" where
  "cd_append d bytes = d @ bytes"

definition to_le_bytes_u32 :: "nat \<Rightarrow> constant_data" where
  "to_le_bytes_u32 n = map (\<lambda>i. of_nat (n div 256 ^ i mod 256)) [0..<4]"

record constant_pool =
  cp_constants :: "(constant_id \<times> constant_data) list"
  cp_cache :: "(constant_data \<times> constant_id) list"

definition cp_new :: constant_pool where
  "cp_new = \<lparr>cp_constants = [], cp_cache = []\<rparr>"

definition cp_is_empty :: "constant_pool \<Rightarrow> bool" where
  "cp_is_empty p = (cp_constants p = [])"

definition cp_len :: "constant_pool \<Rightarrow> nat" where
  "cp_len p = length (cp_constants p)"

definition cp_get :: "constant_pool \<Rightarrow> constant_id \<Rightarrow> constant_data option" where
  "cp_get p c = map_of (cp_constants p) c"

definition cp_contains :: "constant_pool \<Rightarrow> constant_data \<Rightarrow> bool" where
  "cp_contains p d = (map_of (cp_cache p) d \<noteq> None)"

definition cp_insert :: "constant_data \<Rightarrow> constant_pool \<Rightarrow> constant_id \<times> constant_pool" where
  "cp_insert d p =
     (case map_of (cp_cache p) d of
        Some cst \<Rightarrow> (cst, p)
      | None \<Rightarrow>
          (let c = cp_len p in
           (c, p\<lparr>cp_constants := AList.update c d (cp_constants p),
                cp_cache := AList.update d c (cp_cache p)\<rparr>)))"

text \<open>The pool is a bijection between the handles below its length and the data it contains.\<close>

definition cp_ok :: "constant_pool \<Rightarrow> bool" where
  "cp_ok p = (map fst (cp_constants p) = [0..<length (cp_constants p)] \<and>
     (\<forall>c d. map_of (cp_constants p) c = Some d \<longleftrightarrow> map_of (cp_cache p) d = Some c))"

lemma cp_ok_new [simp]: "cp_ok cp_new"
  by (simp add: cp_ok_def cp_new_def)

lemma cp_ok_fresh: "cp_ok p \<Longrightarrow> map_of (cp_constants p) (cp_len p) = None"
  by (simp add: cp_ok_def cp_len_def map_of_eq_None_iff flip: set_map)

lemma update_fresh: "map_of al k = None \<Longrightarrow> AList.update k v al = al @ [(k, v)]"
  by (induction al) auto

lemma map_of_snoc:
  "map_of al k = None \<Longrightarrow> map_of (al @ [(k, v)]) x = Some y \<longleftrightarrow> map_of al x = Some y \<or> x = k \<and> y = v"
  by (auto simp: map_add_def split: option.splits)

lemma cp_insert_cases:
  assumes "cp_ok p" "cp_insert d p = (c, p')"
  obtains "map_of (cp_cache p) d = Some c" "p' = p"
  | "map_of (cp_cache p) d = None" "c = cp_len p"
    "p' = p\<lparr>cp_constants := cp_constants p @ [(c, d)], cp_cache := cp_cache p @ [(d, c)]\<rparr>"
  using assms cp_ok_fresh [OF assms(1)]
  by (auto simp: cp_insert_def Let_def update_fresh split: option.splits)

lemma cp_insert_ok:
  assumes "cp_ok p" "cp_insert d p = (c, p')"
  shows "cp_ok p'" "cp_get p' c = Some d" "cp_len p \<le> cp_len p'"
    "cp_get p k = Some x \<Longrightarrow> cp_get p' k = Some x"
proof -
  have "cp_ok p' \<and> cp_get p' c = Some d \<and> cp_len p \<le> cp_len p' \<and>
      (cp_get p k = Some x \<longrightarrow> cp_get p' k = Some x)"
    using assms
  proof (cases rule: cp_insert_cases)
    case 1
    with assms(1) show ?thesis by (simp add: cp_ok_def cp_get_def)
  next
    case 2
    have bij: "map_of (cp_constants p) c' = Some e \<longleftrightarrow> map_of (cp_cache p) e = Some c'" for c' e
      using assms(1) by (simp add: cp_ok_def)
    have fresh: "map_of (cp_constants p) c = None"
      using cp_ok_fresh [OF assms(1)] 2 by simp
    have "map_of (cp_constants p') c' = Some e \<longleftrightarrow> map_of (cp_cache p') e = Some c'" for c' e
      using 2 fresh bij [of c' e] by (auto simp: map_of_snoc simp del: map_of_append)
    moreover have "map fst (cp_constants p') = [0..<length (cp_constants p')]"
      using assms(1) 2 by (simp add: cp_ok_def cp_len_def)
    ultimately show ?thesis
      using 2 fresh by (simp add: cp_ok_def cp_get_def cp_len_def map_of_snoc del: map_of_append)
  qed
  then show "cp_ok p'" "cp_get p' c = Some d" "cp_len p \<le> cp_len p'"
    "cp_get p k = Some x \<Longrightarrow> cp_get p' k = Some x" by blast+
qed

lemma cp_insert_same:
  assumes "cp_ok p" "cp_get p c = Some d"
  shows "cp_insert d p = (c, p)"
  using assms by (simp add: cp_insert_def cp_ok_def cp_get_def)

lemma cp_handles_agree:
  assumes "cp_ok p" "cp_get p c = Some d" "cp_get p c' = Some d"
  shows "c = c'"
  using assms unfolding cp_ok_def cp_get_def by (metis option.inject)

section \<open>Data segments\<close>

datatype segment_error =
    OverlappingSegments nat nat nat nat
  | SegmentMismatch nat
  | SegmentOutOfBounds nat nat
  | InitTooLarge nat
  | InitOutOfBounds nat nat nat

record data_segment =
  ds_offset :: nat
  ds_size :: nat
  ds_init :: constant_data
  ds_readonly :: bool

definition ds_new :: "nat \<Rightarrow> nat \<Rightarrow> constant_data \<Rightarrow> bool \<Rightarrow> segment_error + data_segment" where
  "ds_new offset size0 init readonly =
     (if \<not> length init \<le> u32_MAX then Inl (InitTooLarge offset)
      else if size0 < length init then Inl (InitOutOfBounds offset size0 (length init))
      else let size0 = max size0 (length init) in
        if \<not> offset + size0 \<le> u32_MAX then Inl (SegmentOutOfBounds offset size0)
        else Inr \<lparr>ds_offset = offset, ds_size = size0, ds_init = init, ds_readonly = readonly\<rparr>)"

type_synonym segment_table = "data_segment list"

definition st_is_empty :: "segment_table \<Rightarrow> bool" where
  "st_is_empty t = (t = [])"

definition st_last :: "segment_table \<Rightarrow> data_segment option" where
  "st_last t = (if t = [] then None else Some (last t))"

definition st_next_available_offset :: "segment_table \<Rightarrow> nat option" where
  "st_next_available_offset t =
     (case st_last t of
        Some s \<Rightarrow> do { next_offset \<leftarrow> u32_add (ds_offset s) (ds_size s);
                       align_up u32_MAX next_offset 32 }
      | None \<Rightarrow> Some 0)"

text \<open>The loop of \<open>insert\<close>; \<open>seg_end\<close> is the end of the new segment.\<close>

fun st_insert_loop :: "nat \<Rightarrow> data_segment \<Rightarrow> segment_table \<Rightarrow> (segment_error + segment_table) option" where
  "st_insert_loop seg_end s [] = Some (Inr [s])"
| "st_insert_loop seg_end s (cur # t) =
     do { segment_end \<leftarrow> u32_add (ds_offset cur) (ds_size cur);
          if ds_offset cur \<ge> seg_end then Some (Inr (s # cur # t))
          else if ds_offset cur = ds_offset s then
            (if ds_size cur = ds_size s \<and> ds_init cur = ds_init s \<and> ds_readonly cur = ds_readonly s
             then Some (Inr (cur # t))
             else Some (Inl (SegmentMismatch (ds_offset s))))
          else if segment_end > ds_offset s then
            Some (Inl (OverlappingSegments (ds_offset s) (ds_size s) (ds_offset cur) (ds_size cur)))
          else do { r \<leftarrow> st_insert_loop seg_end s t;
                    Some (map_sum (\<lambda>e. e) (\<lambda>t. cur # t) r) } }"

definition st_insert :: "data_segment \<Rightarrow> segment_table \<Rightarrow> (segment_error + segment_table) option" where
  "st_insert s t =
     do { seg_end \<leftarrow> u32_add (ds_offset s) (ds_size s); st_insert_loop seg_end s t }"

definition st_declare ::
  "nat \<Rightarrow> nat \<Rightarrow> constant_data \<Rightarrow> bool \<Rightarrow> segment_table \<Rightarrow> (segment_error + segment_table) option" where
  "st_declare offset size0 init readonly t =
     (case ds_new offset size0 init readonly of
        Inl e \<Rightarrow> Some (Inl e)
      | Inr s \<Rightarrow> st_insert s t)"

definition st_pop_front :: "segment_table \<Rightarrow> data_segment option \<times> segment_table" where
  "st_pop_front t = (case t of [] \<Rightarrow> (None, []) | s # t \<Rightarrow> (Some s, t))"

definition st_clone :: "segment_table \<Rightarrow> segment_table" where
  "st_clone t = fold (\<lambda>s table. table @ [s]) t []"

lemma st_clone_eq [simp]: "st_clone t = t"
proof -
  have "fold (\<lambda>s table. table @ [s]) t u = u @ t" for u :: segment_table
    by (induction t arbitrary: u) auto
  then show ?thesis by (simp add: st_clone_def)
qed

text \<open>
  A segment is valid when it lies in the address space and holds its data; a table is valid
  when its segments are and each ends before the next one starts.
\<close>

definition ds_end :: "data_segment \<Rightarrow> nat" where
  "ds_end s = ds_offset s + ds_size s"

definition ds_valid :: "data_segment \<Rightarrow> bool" where
  "ds_valid s = (ds_end s \<le> u32_MAX \<and> length (ds_init s) \<le> ds_size s)"

definition ds_disjoint :: "data_segment \<Rightarrow> data_segment \<Rightarrow> bool" where
  "ds_disjoint a b = ({ds_offset a ..< ds_end a} \<inter> {ds_offset b ..< ds_end b} = {})"

definition st_valid :: "segment_table \<Rightarrow> bool" where
  "st_valid t = ((\<forall>s \<in> set t. ds_valid s) \<and> sorted_wrt (\<lambda>a b. ds_end a \<le> ds_offset b) t)"

lemma st_valid_Nil [simp]: "st_valid []"
  by (simp add: st_valid_def)

lemma st_valid_Cons:
  "st_valid (s # t) \<longleftrightarrow> ds_valid s \<and> (\<forall>c \<in> set t. ds_end s \<le> ds_offset c) \<and> st_valid t"
  by (auto simp: st_valid_def)

lemma ds_new_valid: "ds_new n m d r = Inr s \<Longrightarrow> ds_valid s"
  by (auto simp: ds_new_def ds_valid_def ds_end_def Let_def split: if_splits)

lemma ds_valid_add [simp]: "ds_valid s \<Longrightarrow> u32_add (ds_offset s) (ds_size s) = Some (ds_end s)"
  by (simp add: ds_valid_def ds_end_def u32_add_def)

lemma data_segment_eqI:
  "ds_offset a = ds_offset b \<Longrightarrow> ds_size a = ds_size b \<Longrightarrow> ds_init a = ds_init b \<Longrightarrow>
   ds_readonly a = ds_readonly b \<Longrightarrow> (a :: data_segment) = b"
  by (cases a; cases b) simp

lemma st_insert_loop_same_start:
  assumes "ds_valid cur" "ds_offset cur = ds_offset s" "ds_offset s < ds_end s"
  shows "st_insert_loop (ds_end s) s (cur # t) =
    Some (if cur = s then Inr (cur # t) else Inl (SegmentMismatch (ds_offset s)))"
proof -
  have "cur = s \<longleftrightarrow> ds_size cur = ds_size s \<and> ds_init cur = ds_init s \<and> ds_readonly cur = ds_readonly s"
    using assms(2) data_segment_eqI [of cur s] by auto
  then show ?thesis
    using assms(2,3) unfolding st_insert_loop.simps ds_valid_add [OF assms(1)] by simp
qed

text \<open>What the loop returns, on a valid table: no overflow, and one of three outcomes.\<close>

lemma st_insert_loop_result:
  assumes "st_valid t" "ds_valid s"
  shows "\<exists>r. st_insert_loop (ds_end s) s t = Some r \<and>
    (\<forall>t'. r = Inr t' \<longrightarrow> st_valid t' \<and> set t' = insert s (set t) \<and>
       (t' = t \<and> s \<in> set t \<or> (\<exists>us vs. t = us @ vs \<and> t' = us @ s # vs)))"
  using assms
proof (induction t)
  case Nil
  then show ?case by (simp add: st_valid_Cons)
next
  case (Cons cur t)
  from Cons.prems have cur: "ds_valid cur" "st_valid t" "\<forall>c \<in> set t. ds_end cur \<le> ds_offset c"
    by (auto simp: st_valid_Cons)
  from Cons.IH [OF cur(2) Cons.prems(2)] obtain r where r: "st_insert_loop (ds_end s) s t = Some r"
    and ok: "\<And>t'. r = Inr t' \<Longrightarrow> st_valid t' \<and> set t' = insert s (set t) \<and>
       (t' = t \<and> s \<in> set t \<or> (\<exists>us vs. t = us @ vs \<and> t' = us @ s # vs))" by blast
  consider "ds_offset cur \<ge> ds_end s" | "ds_offset cur < ds_end s" "ds_offset cur = ds_offset s"
    | "ds_offset cur < ds_end s" "ds_offset cur \<noteq> ds_offset s" "ds_end cur > ds_offset s"
    | "ds_offset cur < ds_end s" "ds_offset cur \<noteq> ds_offset s" "ds_end cur \<le> ds_offset s"
    by linarith
  then show ?case
  proof cases
    case 1
    have "ds_offset cur \<le> ds_end cur" by (simp add: ds_end_def)
    then have "\<forall>c \<in> set (cur # t). ds_end s \<le> ds_offset c" using 1 cur(3) by fastforce
    then have "st_valid (s # cur # t)" using Cons.prems by (simp add: st_valid_Cons)
    moreover have "\<exists>us vs. cur # t = us @ vs \<and> s # cur # t = us @ s # vs"
      by (rule exI [of _ "[]"]) simp
    ultimately show ?thesis using 1 cur(1) by simp
  next
    case 2
    then have "st_insert_loop (ds_end s) s (cur # t) =
        Some (if cur = s then Inr (cur # t) else Inl (SegmentMismatch (ds_offset s)))"
      using cur(1) by (simp add: st_insert_loop_same_start del: st_insert_loop.simps)
    then show ?thesis using Cons.prems(1) by (cases "cur = s") auto
  next
    case 3
    then show ?thesis using cur(1) by simp
  next
    case 4
    have "st_insert_loop (ds_end s) s (cur # t) = Some (map_sum (\<lambda>e. e) ((#) cur) r)"
      using 4 cur(1) r by simp
    moreover have "st_valid t'' \<and> set t'' = insert s (set (cur # t)) \<and>
        (t'' = cur # t \<and> s \<in> set (cur # t) \<or> (\<exists>us vs. cur # t = us @ vs \<and> t'' = us @ s # vs))"
      if "map_sum (\<lambda>e. e) ((#) cur) r = Inr t''" for t''
    proof -
      from that obtain t' where t': "r = Inr t'" "t'' = cur # t'" by (cases r) auto
      note ok1 = ok [OF t'(1)]
      have "st_valid t''" using ok1 cur 4 unfolding t' by (auto simp: st_valid_Cons)
      moreover have "set t'' = insert s (set (cur # t))" using ok1 unfolding t' by auto
      moreover have "t'' = cur # t \<and> s \<in> set (cur # t) \<or>
          (\<exists>us vs. cur # t = us @ vs \<and> t'' = us @ s # vs)"
      proof (cases "t' = t \<and> s \<in> set t")
        case False
        with ok1 obtain us vs where "t = us @ vs" "t' = us @ s # vs" by blast
        then have "cur # t = (cur # us) @ vs \<and> t'' = (cur # us) @ s # vs" unfolding t' by simp
        then show ?thesis by blast
      qed (simp add: t')
      ultimately show ?thesis by blast
    qed
    ultimately show ?thesis by blast
  qed
qed

text \<open>When no segment is empty, an insertion fails exactly on an overlap.\<close>

lemma ds_disjoint_iff:
  assumes "0 < ds_size a" "0 < ds_size b"
  shows "ds_disjoint a b \<longleftrightarrow> ds_end a \<le> ds_offset b \<or> ds_end b \<le> ds_offset a"
proof
  assume d: "ds_disjoint a b"
  show "ds_end a \<le> ds_offset b \<or> ds_end b \<le> ds_offset a"
  proof (rule ccontr)
    assume "\<not> ?thesis"
    then have "max (ds_offset a) (ds_offset b) \<in> {ds_offset a ..< ds_end a} \<inter> {ds_offset b ..< ds_end b}"
      using assms by (auto simp: ds_end_def)
    with d show False by (auto simp: ds_disjoint_def)
  qed
qed (auto simp: ds_disjoint_def)

lemma st_insert_loop_Inl:
  assumes "st_valid t" "ds_valid s" "0 < ds_size s" "\<forall>c \<in> set t. 0 < ds_size c"
    and "st_insert_loop (ds_end s) s t = Some r"
  shows "(\<exists>e. r = Inl e) \<longleftrightarrow> s \<notin> set t \<and> (\<exists>c \<in> set t. \<not> ds_disjoint c s)"
  using assms
proof (induction t arbitrary: r)
  case (Cons cur t)
  from Cons.prems have cur: "ds_valid cur" "st_valid t" "\<forall>c \<in> set t. ds_end cur \<le> ds_offset c"
    "0 < ds_size cur" "0 < ds_size s"
    by (auto simp: st_valid_Cons)
  have dj: "ds_disjoint c s \<longleftrightarrow> ds_end c \<le> ds_offset s \<or> ds_end s \<le> ds_offset c"
    if "c \<in> set (cur # t)" for c
    using that Cons.prems by (intro ds_disjoint_iff) auto
  have later: "ds_offset cur < ds_offset c" if "c \<in> set t" for c
    using cur(3,4) that by (auto simp: ds_end_def)
  consider "ds_offset cur \<ge> ds_end s" | "ds_offset cur < ds_end s" "ds_offset cur = ds_offset s"
    | "ds_offset cur < ds_end s" "ds_offset cur \<noteq> ds_offset s" "ds_end cur > ds_offset s"
    | "ds_offset cur < ds_end s" "ds_offset cur \<noteq> ds_offset s" "ds_end cur \<le> ds_offset s"
    by linarith
  then show ?case
  proof cases
    case 1
    have "ds_disjoint c s" if "c \<in> set (cur # t)" for c
      using dj [OF that] later 1 that by fastforce
    then show ?thesis using 1 cur(1) Cons.prems(5) by auto
  next
    case 2
    have nt: "s \<notin> set t" using later 2 by auto
    have "\<not> ds_disjoint cur s" using dj [of cur] 2 cur(4,5) by (auto simp: ds_end_def)
    moreover have "r = (if cur = s then Inr (cur # t) else Inl (SegmentMismatch (ds_offset s)))"
      using 2 cur(1) Cons.prems(5) by (simp add: st_insert_loop_same_start del: st_insert_loop.simps)
    ultimately show ?thesis using nt by auto
  next
    case 3
    have "s \<noteq> cur" using 3 by auto
    moreover have "s \<notin> set t" using 3 cur(3) by (auto simp: not_le)
    moreover have "\<not> ds_disjoint cur s" using dj [of cur] 3 by auto
    ultimately show ?thesis using 3 cur(1) Cons.prems(5) by auto
  next
    case 4
    from 4 cur(1) Cons.prems(5) obtain r' where r': "st_insert_loop (ds_end s) s t = Some r'"
      and r: "r = map_sum (\<lambda>e. e) ((#) cur) r'" by auto
    have "(\<exists>e. r = Inl e) \<longleftrightarrow> (\<exists>e. r' = Inl e)" unfolding r by (cases r') auto
    also have "\<dots> \<longleftrightarrow> s \<notin> set t \<and> (\<exists>c \<in> set t. \<not> ds_disjoint c s)"
      using Cons.IH [OF cur(2) _ _ _ r'] Cons.prems by simp
    also have "\<dots> \<longleftrightarrow> s \<notin> set (cur # t) \<and> (\<exists>c \<in> set (cur # t). \<not> ds_disjoint c s)"
      using 4 dj [of cur] by auto
    finally show ?thesis .
  qed
qed auto

lemma st_insert_valid:
  assumes "st_insert s t = Some (Inr t')" "st_valid t" "ds_valid s"
  shows "st_valid t'" "set t' = insert s (set t)"
  using assms st_insert_loop_result [of t s] by (auto simp: st_insert_def)

lemma st_insert_total:
  "st_valid t \<Longrightarrow> ds_valid s \<Longrightarrow> \<exists>r. st_insert s t = Some r"
  using st_insert_loop_result [of t s] by (auto simp: st_insert_def)

lemma st_insert_fails:
  assumes "st_valid t" "ds_valid s" "0 < ds_size s" "\<forall>c \<in> set t. 0 < ds_size c"
  shows "(\<exists>e. st_insert s t = Some (Inl e)) \<longleftrightarrow> s \<notin> set t \<and> (\<exists>c \<in> set t. \<not> ds_disjoint c s)"
proof -
  from st_insert_loop_result [OF assms(1,2)] obtain r where r: "st_insert_loop (ds_end s) s t = Some r"
    by blast
  with assms(2) have "st_insert s t = Some r" by (simp add: st_insert_def)
  with st_insert_loop_Inl [OF assms r] show ?thesis by simp
qed

lemma ds_new_eq:
  "ds_new n m d ro = Inr s \<longleftrightarrow> length d \<le> m \<and> n + m \<le> u32_MAX \<and>
     s = \<lparr>ds_offset = n, ds_size = m, ds_init = d, ds_readonly = ro\<rparr>"
  by (auto simp: ds_new_def Let_def max_def)

lemma st_next_after:
  assumes "st_valid t" "st_next_available_offset t = Some k"
  shows "k mod 32 = 0" "c \<in> set t \<Longrightarrow> ds_end c \<le> k"
proof -
  have "k mod 32 = 0 \<and> (\<forall>c \<in> set t. ds_end c \<le> k)"
  proof (cases t rule: rev_cases)
    case (snoc us s)
    with assms have v: "ds_valid s" "\<forall>c \<in> set us. ds_end c \<le> ds_offset s"
      by (auto simp: st_valid_def sorted_wrt_append)
    with assms(2) snoc have k: "align_up u32_MAX (ds_end s) 32 = Some k"
      by (simp add: st_next_available_offset_def st_last_def)
    have "ds_offset s \<le> ds_end s" by (simp add: ds_end_def)
    with v align_up_Some [OF k] snoc show ?thesis by fastforce
  qed (use assms in \<open>simp add: st_next_available_offset_def st_last_def\<close>)
  then show "k mod 32 = 0" "c \<in> set t \<Longrightarrow> ds_end c \<le> k" by auto
qed

text \<open>
  C33. Declaring a data segment in a table whose segments are in order and disjoint never panics.
  If it succeeds, the table has the declared segment, keeps the others, and each segment still
  ends before the next one starts.  When no segment is empty it fails exactly when the
  initializer does not fit, the segment leaves the address space, or it overlaps a segment other
  than itself.  The next available offset is aligned to 32 bytes and behind every segment.
\<close>

theorem data_segments_stay_disjoint:
  assumes "st_valid t"
    and s_def: "s = \<lparr>ds_offset = n, ds_size = m, ds_init = d, ds_readonly = ro\<rparr>"
  shows "(\<exists>r. st_declare n m d ro t = Some r)
    \<and> (st_declare n m d ro t = Some (Inr t') \<longrightarrow> set t' = insert s (set t) \<and> st_valid t')
    \<and> (st_declare n m d ro t = Some (Inr t') \<longrightarrow>
        (\<forall>i j. i < j \<longrightarrow> j < length t' \<longrightarrow> ds_offset (t' ! i) + ds_size (t' ! i) \<le> ds_offset (t' ! j)))
    \<and> (0 < m \<and> (\<forall>c \<in> set t. 0 < ds_size c) \<longrightarrow>
        (\<exists>e. st_declare n m d ro t = Some (Inl e)) =
        (m < length d \<or> u32_MAX < n + m \<or> s \<notin> set t \<and> (\<exists>c \<in> set t. \<not> ds_disjoint c s)))
    \<and> (st_next_available_offset t = Some k \<longrightarrow>
        k mod 32 = 0 \<and> (\<forall>c \<in> set t. ds_offset c + ds_size c \<le> k))"
proof -
  have total: "\<exists>r. st_declare n m d ro t = Some r"
    using st_insert_total [OF assms(1)] ds_new_valid
    by (auto simp: st_declare_def split: sum.splits)
  have ok: "set t' = insert s (set t) \<and> st_valid t'" if "st_declare n m d ro t = Some (Inr t')"
    using that st_insert_valid [OF _ assms(1)] ds_new_valid ds_new_eq
    by (fastforce simp: st_declare_def s_def split: sum.splits)
  have sorted: "ds_offset (t' ! i) + ds_size (t' ! i) \<le> ds_offset (t' ! j)"
    if "st_declare n m d ro t = Some (Inr t')" "i < j" "j < length t'" for i j
    using ok [OF that(1)] that(2,3) by (auto simp: st_valid_def sorted_wrt_iff_nth_less ds_end_def)
  have fails: "(\<exists>e. st_declare n m d ro t = Some (Inl e)) \<longleftrightarrow>
      m < length d \<or> u32_MAX < n + m \<or> s \<notin> set t \<and> (\<exists>c \<in> set t. \<not> ds_disjoint c s)"
    if "0 < m" "\<forall>c \<in> set t. 0 < ds_size c"
  proof (cases "ds_new n m d ro")
    case (Inl e)
    then have "\<not> (length d \<le> m \<and> n + m \<le> u32_MAX)" using ds_new_eq [of n m d ro] by auto
    with Inl show ?thesis by (auto simp: st_declare_def)
  next
    case (Inr x)
    then have x: "x = s" "ds_valid s" "length d \<le> m" "n + m \<le> u32_MAX"
      using ds_new_valid [of n m d ro] by (auto simp: ds_new_eq s_def)
    with Inr st_insert_fails [OF assms(1) x(2) _ that(2)] that(1) show ?thesis
      by (auto simp: st_declare_def s_def)
  qed
  have "k mod 32 = 0 \<and> (\<forall>c \<in> set t. ds_offset c + ds_size c \<le> k)"
    if "st_next_available_offset t = Some k"
    using st_next_after [OF assms(1) that] by (auto simp: ds_end_def)
  with total ok sorted fails show ?thesis by blast
qed

definition demo_table :: segment_table where
  "demo_table = [\<lparr>ds_offset = 0, ds_size = 65536, ds_init = [], ds_readonly = False\<rparr>]"

lemma demo_table_valid: "st_valid demo_table"
  by (simp add: demo_table_def st_valid_def ds_valid_def ds_end_def u32_MAX_def)

theorem data_segments_stay_disjoint_witness:
  "(\<exists>t'. st_declare 65540 8 [1, 2] True demo_table = Some (Inr t') \<and> length t' = 2 \<and>
     st_valid t' \<and> ds_offset (t' ! 0) + ds_size (t' ! 0) \<le> ds_offset (t' ! 1)) \<and>
   (\<exists>e. st_declare 8 8 [1, 2] True demo_table = Some (Inl e)) \<and>
   st_next_available_offset demo_table = Some 65536 \<and> ds_offset (hd demo_table) + ds_size (hd demo_table) \<le> 65536"
proof (intro conjI)
  let ?s = "\<lparr>ds_offset = 65540, ds_size = 8, ds_init = [1, 2 :: u8], ds_readonly = True\<rparr>"
  note X = data_segments_stay_disjoint [OF demo_table_valid refl]
  have e: "st_declare 65540 8 [1, 2] True demo_table = Some (Inr (demo_table @ [?s]))"
    by (simp add: st_declare_def ds_new_def st_insert_def demo_table_def u32_add_def u32_MAX_def)
  show "\<exists>t'. st_declare 65540 8 [1, 2] True demo_table = Some (Inr t') \<and> length t' = 2 \<and>
     st_valid t' \<and> ds_offset (t' ! 0) + ds_size (t' ! 0) \<le> ds_offset (t' ! 1)"
    using X [THEN conjunct2, THEN conjunct1, THEN mp, OF e]
      X [THEN conjunct2, THEN conjunct2, THEN conjunct1, THEN mp, OF e, rule_format, of 0 1] e
    by (intro exI [of _ "demo_table @ [?s]"]) (simp add: demo_table_def)
  show "\<exists>e. st_declare 8 8 [1, 2] True demo_table = Some (Inl e)"
    using data_segments_stay_disjoint [OF demo_table_valid refl, where n = 8 and m = 8 and d = "[1, 2]" and ro = True]
    by (simp add: demo_table_def ds_disjoint_def ds_end_def)
  show n: "st_next_available_offset demo_table = Some 65536"
    by (simp add: st_next_available_offset_def st_last_def demo_table_def u32_add_def u32_MAX_def
        align_up_def next_multiple_of_def)
  show "ds_offset (hd demo_table) + ds_size (hd demo_table) \<le> 65536"
    using X [THEN conjunct2, THEN conjunct2, THEN conjunct2, THEN conjunct2, THEN mp, OF n] by (simp add: demo_table_def)
qed

end
