(* ===== verification/Globals.thy ===== *)
theory Globals
  imports DataSegments Arena Masm
begin

text \<open>
  The table of global variables (hir/src/globals.rs): declaration, insertion with renaming of
  internal symbols, initializers, and the placement of the variables in memory.

  The intrusive list of the layout holds the keys of the linked nodes; the ordered map of names
  is an association list.  The hash with which conflicting internal symbols are renamed is
  \<open>DefaultHasher\<close> of the standard library, whose algorithm is unspecified: it is a parameter
  \<open>H\<close>, the hash of the data followed by a number.
\<close>

type_synonym global_variable = nat

datatype global_error = NameConflict ident | AlreadyInitialized ident | InvalidInit ident

datatype conflict_strategy = ConflictNone | ConflictRename

record gv_data =
  gvd_id :: global_variable
  gvd_name :: ident
  gvd_ty :: hir_type
  gvd_linkage :: linkage
  gvd_init :: "constant_id option"

record global_table =
  gt_layout :: "global_variable list"
  gt_names :: "(ident \<times> global_variable) list"
  gt_arena :: "gv_data arena_map"
  gt_data :: constant_pool
  gt_next :: nat
  gt_strategy :: conflict_strategy

definition isize_MAX :: nat where "isize_MAX = 9223372036854775807"

text \<open>\<open>Type::layout\<close>: the size and the alignment, when \<open>Layout::from_size_align\<close> accepts them.\<close>

definition type_layout :: "hir_type \<Rightarrow> (nat \<times> nat) option" where
  "type_layout ty =
     do { size \<leftarrow> size_in_bytes ty;
          let align = min_alignment ty;
          assert_that (is_power_of_two align);
          assert_that (size + (align - 1) \<le> isize_MAX);
          Some (size, align) }"

definition gvd_layout :: "gv_data \<Rightarrow> (nat \<times> nat) option" where
  "gvd_layout d = type_layout (gvd_ty d)"

definition is_compatible_with :: "gv_data \<Rightarrow> gv_data \<Rightarrow> bool" where
  "is_compatible_with a b =
     (gvd_ty a = gvd_ty b \<and> gvd_linkage a = gvd_linkage b \<and>
      (gvd_init a = None \<or> gvd_init b = None \<or> gvd_init a = gvd_init b))"

definition gt_new :: "conflict_strategy \<Rightarrow> global_table" where
  "gt_new strategy =
     \<lparr>gt_layout = [], gt_names = [], gt_arena = am_new, gt_data = cp_new, gt_next = 0,
      gt_strategy = strategy\<rparr>"

definition gt_is_empty :: "global_table \<Rightarrow> bool" where
  "gt_is_empty t = (gt_layout t = [])"

definition gt_exists :: "ident \<Rightarrow> global_table \<Rightarrow> bool" where
  "gt_exists name t = (map_of (gt_names t) name \<noteq> None)"

definition gt_find :: "ident \<Rightarrow> global_table \<Rightarrow> global_variable option" where
  "gt_find name t = map_of (gt_names t) name"

definition gt_get :: "global_variable \<Rightarrow> global_table \<Rightarrow> gv_data option" where
  "gt_get gv t = am_get (gt_arena t) gv"

text \<open>The iterator over the layout dereferences the nodes.\<close>

fun nodes_of :: "gv_data arena_map \<Rightarrow> global_variable list \<Rightarrow> gv_data list option" where
  "nodes_of a [] = Some []"
| "nodes_of a (gv # gvs) = do { d \<leftarrow> am_get a gv; ds \<leftarrow> nodes_of a gvs; Some (d # ds) }"

definition gt_iter :: "global_table \<Rightarrow> gv_data list option" where
  "gt_iter t = nodes_of (gt_arena t) (gt_layout t)"

fun remove_first_id :: "gv_data arena_map \<Rightarrow> global_variable \<Rightarrow> global_variable list \<Rightarrow>
    global_variable list option" where
  "remove_first_id a gid [] = Some []"
| "remove_first_id a gid (gv # gvs) =
     do { d \<leftarrow> am_get a gv;
          if gvd_id d = gid then Some gvs
          else do { gvs \<leftarrow> remove_first_id a gid gvs; Some (gv # gvs) } }"

definition gt_remove :: "global_variable \<Rightarrow> global_table \<Rightarrow> global_table option" where
  "gt_remove gid t =
     do { gvs \<leftarrow> remove_first_id (gt_arena t) gid (gt_layout t); Some (t\<lparr>gt_layout := gvs\<rparr>) }"

fun sum_sizes :: "gv_data list \<Rightarrow> nat \<Rightarrow> nat option" where
  "sum_sizes [] size0 = Some size0"
| "sum_sizes (gv # gvs) size0 =
     do { (size1, align) \<leftarrow> gvd_layout gv;
          up \<leftarrow> align_up usize_MAX size1 align;
          size0 \<leftarrow> usize_add size0 up;
          sum_sizes gvs size0 }"

definition gt_size_in_bytes :: "global_table \<Rightarrow> nat option" where
  "gt_size_in_bytes t = do { gvs \<leftarrow> gt_iter t; sum_sizes gvs 0 }"

fun offset_loop :: "global_variable \<Rightarrow> gv_data list \<Rightarrow> nat \<Rightarrow> nat option" where
  "offset_loop gid [] size0 = Some size0"
| "offset_loop gid (gv # gvs) size0 =
     do { (size1, align) \<leftarrow> gvd_layout gv;
          pad \<leftarrow> align_offset usize_MAX size1 align;
          size0 \<leftarrow> usize_add size0 pad;
          if gvd_id gv = gid then Some size0
          else do { size0 \<leftarrow> usize_add size0 size1; offset_loop gid gvs size0 } }"

definition gt_offset_of :: "global_variable \<Rightarrow> global_table \<Rightarrow> nat option" where
  "gt_offset_of gid t =
     do { gvs \<leftarrow> gt_iter t; size0 \<leftarrow> offset_loop gid gvs 0; to_u32 size0 }"

definition gt_insert_constant :: "constant_data \<Rightarrow> global_table \<Rightarrow> constant_id \<times> global_table" where
  "gt_insert_constant d t = (let (c, p) = cp_insert d (gt_data t) in (c, t\<lparr>gt_data := p\<rparr>))"

definition gt_insert :: "gv_data \<Rightarrow> global_table \<Rightarrow> (global_variable \<times> global_table) option" where
  "gt_insert data t =
     (let (gv, arena) = am_alloc_key (gt_arena t) in
      do { arena \<leftarrow> am_append gv (data\<lparr>gvd_id := gv\<rparr>) arena;
           Some (gv, t\<lparr>gt_arena := arena,
                      gt_names := AList.update (gvd_name data) gv (gt_names t),
                      gt_layout := gt_layout t @ [gv]\<rparr>) })"

text \<open>The merge of a declaration into a compatible one: an initializer is kept.\<close>

definition gt_merge :: "gv_data \<Rightarrow> global_variable \<Rightarrow> global_table \<Rightarrow> global_table option" where
  "gt_merge data gv t =
     (if gvd_init data \<noteq> None
      then do { a \<leftarrow> am_update gv (\<lambda>d. d\<lparr>gvd_init := gvd_init data\<rparr>) (gt_arena t);
                Some (t\<lparr>gt_arena := a\<rparr>) }
      else Some t)"

definition gt_declare ::
  "ident \<Rightarrow> hir_type \<Rightarrow> linkage \<Rightarrow> constant_data option \<Rightarrow> global_table \<Rightarrow>
   ((global_error + global_variable) \<times> global_table) option" where
  "gt_declare name ty linkage init t =
     do { assert_that (name \<noteq> []);
          r \<leftarrow> (case init of
                 None \<Rightarrow> Some (Inr (None, t))
               | Some init \<Rightarrow> do {
                   (size0, align) \<leftarrow> type_layout ty;
                   if length init > size0 then Some (Inl (InvalidInit name))
                   else let (c, t) = gt_insert_constant init t in Some (Inr (Some c, t)) });
          (case r of
             Inl e \<Rightarrow> Some (Inl e, t)
           | Inr (init, t) \<Rightarrow>
               let data = \<lparr>gvd_id = 4294967295, gvd_name = name, gvd_ty = ty, gvd_linkage = linkage,
                           gvd_init = init\<rparr> in
               (case map_of (gt_names t) name of
                  Some gv \<Rightarrow> do {
                    other \<leftarrow> am_get (gt_arena t) gv;
                    if is_compatible_with data other
                    then do { t \<leftarrow> gt_merge data gv t; Some (Inr gv, t) }
                    else Some (Inl (NameConflict name), t) }
                | None \<Rightarrow> do { (gv, t) \<leftarrow> gt_insert data t; Some (Inr gv, t) })) }"

text \<open>The formatter \<open>{:x}\<close>.\<close>

definition hex_digit :: "nat \<Rightarrow> char" where
  "hex_digit n = ''0123456789abcdef'' ! n"

fun to_hex :: "nat \<Rightarrow> string" where
  "to_hex n = (if n < 16 then [hex_digit n] else to_hex (n div 16) @ [hex_digit (n mod 16)])"

declare to_hex.simps [simp del]

text \<open>
  The search for an unused name; \<open>next_unique_id\<close> is a \<open>usize\<close>, whose overflow panics, so the
  loop ends.
\<close>

function fresh_symbol :: "(gv_data \<Rightarrow> nat \<Rightarrow> u64) \<Rightarrow> gv_data \<Rightarrow> (ident \<times> global_variable) list \<Rightarrow>
    nat \<Rightarrow> (ident \<times> nat) option" where
  "fresh_symbol H data names unique_id =
     (if unique_id < usize_MAX then
        let generated = gvd_name data @ ''.'' @ to_hex (unat (H data unique_id)) in
        if map_of names generated = None then Some (generated, unique_id + 1)
        else fresh_symbol H data names (unique_id + 1)
      else None)"
  by pat_completeness auto
termination by (relation "measure (\<lambda>(_, _, _, n). usize_MAX - n)") auto

declare fresh_symbol.simps [simp del]

definition gt_try_insert ::
  "(gv_data \<Rightarrow> nat \<Rightarrow> u64) \<Rightarrow> gv_data \<Rightarrow> global_table \<Rightarrow>
   ((global_error + global_variable \<times> bool) \<times> global_table) option" where
  "gt_try_insert H data t =
     do { assert_that (gvd_name data \<noteq> []);
          (case map_of (gt_names t) (gvd_name data) of
             Some gv \<Rightarrow> do {
               other \<leftarrow> am_get (gt_arena t) gv;
               if is_compatible_with data other
               then do { t \<leftarrow> gt_merge data gv t; Some (Inr (gv, False), t) }
               else if gvd_linkage data = LkInternal \<and> gt_strategy t = ConflictRename
               then do {
                 (generated, n) \<leftarrow> fresh_symbol H data (gt_names t) (gt_next t);
                 (gv, t) \<leftarrow> gt_insert (data\<lparr>gvd_name := generated\<rparr>) (t\<lparr>gt_next := n\<rparr>);
                 Some (Inr (gv, True), t) }
               else Some (Inl (NameConflict (gvd_name data)), t) }
           | None \<Rightarrow> do { (gv, t) \<leftarrow> gt_insert data t; Some (Inr (gv, False), t) }) }"

definition gt_set_initializer ::
  "global_variable \<Rightarrow> constant_data \<Rightarrow> global_table \<Rightarrow> (global_error option \<times> global_table) option" where
  "gt_set_initializer gv init t =
     do { global \<leftarrow> am_get (gt_arena t) gv;
          (size0, align) \<leftarrow> gvd_layout global;
          if length init > size0 then Some (Some (InvalidInit (gvd_name global)), t)
          else (case gvd_init global of
             None \<Rightarrow>
               let (c, t) = gt_insert_constant init t in
               do { a \<leftarrow> am_update gv (\<lambda>d. d\<lparr>gvd_init := Some c\<rparr>) (gt_arena t);
                    Some (None, t\<lparr>gt_arena := a\<rparr>) }
           | Some prev_init \<Rightarrow> do {
               prev \<leftarrow> cp_get (gt_data t) prev_init;
               Some (if prev \<noteq> init then Some (AlreadyInitialized (gvd_name global)) else None, t) }) }"

section \<open>The placement of the variables\<close>

text \<open>The bytes a variable takes with its padding, which comes first.\<close>

definition gvd_span :: "gv_data \<Rightarrow> nat option" where
  "gvd_span d = do { (size1, align) \<leftarrow> gvd_layout d; align_up usize_MAX size1 align }"

lemma align_up_offset:
  assumes "align_up mx n m = Some r" "is_power_of_two m"
  shows "align_offset mx n m = Some (r - n)" "n \<le> r"
  using assms align_up_Some [OF assms(1)] by (auto simp: align_up_def align_offset_def)

lemma gvd_layout_span:
  assumes "gvd_span d = Some r"
  obtains sz al pad where "gvd_layout d = Some (sz, al)" "align_up usize_MAX sz al = Some r"
    "align_offset usize_MAX sz al = Some pad" "r = pad + sz"
proof -
  from assms obtain sz al where l: "gvd_layout d = Some (sz, al)" "align_up usize_MAX sz al = Some r"
    by (auto simp: gvd_span_def)
  then have "is_power_of_two al"
    by (auto simp: gvd_layout_def type_layout_def Let_def)
  from align_up_offset [OF l(2) this] l that [of sz al "r - sz"] show thesis by simp
qed

lemma sum_sizes_spans:
  assumes "sum_sizes gvs s = Some n"
  shows "\<exists>rs. map gvd_span gvs = map Some rs \<and> n = s + sum_list rs"
  using assms
proof (induction gvs arbitrary: s)
  case (Cons gv gvs)
  from Cons.prems obtain sz al up where l: "gvd_layout gv = Some (sz, al)"
    "align_up usize_MAX sz al = Some up" "sum_sizes gvs (s + up) = Some n"
    by (auto simp: usize_add_def split: if_splits)
  from Cons.IH [OF l(3)] obtain rs where "map gvd_span gvs = map Some rs" "n = s + up + sum_list rs"
    by blast
  moreover have "gvd_span gv = Some up" using l by (simp add: gvd_span_def)
  ultimately show ?case by (intro exI [of _ "up # rs"]) simp
qed simp

lemma offset_loop_spans:
  assumes "map gvd_span gvs = map Some rs" "distinct (map gvd_id gvs)" "k < length gvs"
    and "s + sum_list rs \<le> usize_MAX" "gvd_layout (gvs ! k) = Some (sz, al)"
  shows "\<exists>p. offset_loop (gvd_id (gvs ! k)) gvs s = Some p \<and>
    s + sum_list (take k rs) \<le> p \<and> p + sz = s + sum_list (take (Suc k) rs)"
  using assms
proof (induction gvs arbitrary: rs s k)
  case (Cons gv gvs)
  from Cons.prems(1) obtain r rs' where rs: "rs = r # rs'" "gvd_span gv = Some r"
    "map gvd_span gvs = map Some rs'" by (cases rs) auto
  obtain sz0 al0 pad where l: "gvd_layout gv = Some (sz0, al0)"
    "align_offset usize_MAX sz0 al0 = Some pad" "r = pad + sz0"
    by (rule gvd_layout_span [OF rs(2)])
  have sum: "usize_add s pad = Some (s + pad)" "usize_add (s + pad) sz0 = Some (s + r)"
    using Cons.prems(4) l(3) rs(1) by (auto simp: usize_add_def)
  show ?case
  proof (cases k)
    case 0
    then show ?thesis using l sum rs(1) Cons.prems(5) by simp
  next
    case (Suc j)
    with Cons.prems have ne: "gvd_id gv \<noteq> gvd_id (gvs ! j)" and j: "j < length gvs"
      by auto
    have "\<exists>p. offset_loop (gvd_id (gvs ! j)) gvs (s + r) = Some p \<and>
        s + r + sum_list (take j rs') \<le> p \<and> p + sz = s + r + sum_list (take (Suc j) rs')"
      using Cons.prems Suc rs j by (intro Cons.IH) auto
    then show ?thesis using l sum ne Suc rs(1) by auto
  qed
qed simp

text \<open>
  A table is valid when the arena, the names and the layout describe the same variables: every
  variable has the name under which it is found and its own key, the linked keys are distinct
  variables, and initializers are constants of the pool.
\<close>

definition gt_ok :: "global_table \<Rightarrow> bool" where
  "gt_ok t = (cp_ok (gt_data t) \<and> distinct (gt_layout t) \<and>
     (\<forall>gv \<in> set (gt_layout t). gt_get gv t \<noteq> None) \<and>
     (\<forall>n gv. map_of (gt_names t) n = Some gv \<longleftrightarrow> (\<exists>d. gt_get gv t = Some d \<and> gvd_name d = n)) \<and>
     (\<forall>gv d. gt_get gv t = Some d \<longrightarrow> gvd_id d = gv \<and>
        (\<forall>c. gvd_init d = Some c \<longrightarrow> cp_get (gt_data t) c \<noteq> None)))"

lemma nodes_of_nth:
  assumes "nodes_of a gvs = Some ds"
  shows "length ds = length gvs" "k < length gvs \<Longrightarrow> am_get a (gvs ! k) = Some (ds ! k)"
proof -
  have "length ds = length gvs \<and> (\<forall>k < length gvs. am_get a (gvs ! k) = Some (ds ! k))"
    using assms
  proof (induction gvs arbitrary: ds)
    case (Cons gv gvs)
    then obtain d ds' where "am_get a gv = Some d" "nodes_of a gvs = Some ds'" "ds = d # ds'"
      by auto
    with Cons.IH [of ds'] show ?case by (auto simp: nth_Cons split: nat.splits)
  qed simp
  then show "length ds = length gvs" "k < length gvs \<Longrightarrow> am_get a (gvs ! k) = Some (ds ! k)"
    by auto
qed

lemma nodes_of_total: "(\<And>gv. gv \<in> set gvs \<Longrightarrow> am_get a gv \<noteq> None) \<Longrightarrow> \<exists>ds. nodes_of a gvs = Some ds"
  by (induction gvs) fastforce+

lemma gt_ok_iter:
  assumes "gt_ok t"
  obtains ds where "gt_iter t = Some ds" "length ds = length (gt_layout t)" "map gvd_id ds = gt_layout t"
    "\<forall>k < length ds. gt_get (gt_layout t ! k) t = Some (ds ! k)"
proof -
  from assms obtain ds where ds: "gt_iter t = Some ds"
    using nodes_of_total [of "gt_layout t" "gt_arena t"] by (auto simp: gt_ok_def gt_iter_def gt_get_def)
  note n = nodes_of_nth [OF ds [unfolded gt_iter_def]]
  have "gvd_id (ds ! k) = gt_layout t ! k" if "k < length (gt_layout t)" for k
    using assms n(2) [OF that] by (auto simp: gt_ok_def gt_get_def)
  then have "map gvd_id ds = gt_layout t" using n(1) by (intro nth_equalityI) auto
  moreover have "\<forall>k < length ds. gt_get (gt_layout t ! k) t = Some (ds ! k)"
    using n by (simp add: gt_get_def)
  ultimately show thesis by (rule that [OF ds n(1)])
qed

text \<open>The variables are placed one behind the other, inside the size of the table.\<close>

lemma sum_take_mono: "i \<le> j \<Longrightarrow> sum_list (take i xs) \<le> sum_list (take j xs :: nat list)"
proof -
  assume "i \<le> j"
  then have "take j xs = take i xs @ take (j - i) (drop i xs)"
    by (metis add_diff_inverse_nat not_le take_add)
  then show ?thesis by simp
qed

lemma gt_placement:
  assumes "gt_ok t" "gt_size_in_bytes t = Some n" "n \<le> u32_MAX"
  shows "\<exists>f sz. (\<forall>k < length (gt_layout t). gt_offset_of (gt_layout t ! k) t = Some (f k) \<and>
       Option.bind (gt_get (gt_layout t ! k) t) gvd_layout = Some (sz k)) \<and>
     (\<forall>i j. i < j \<longrightarrow> j < length (gt_layout t) \<longrightarrow> f i + fst (sz i) \<le> f j) \<and>
     (\<forall>k < length (gt_layout t). f k + fst (sz k) \<le> n)"
proof -
  let ?gvs = "gt_layout t"
  obtain ds where ds: "gt_iter t = Some ds" "length ds = length ?gvs" "map gvd_id ds = ?gvs"
    and get: "\<forall>k < length ds. gt_get (?gvs ! k) t = Some (ds ! k)"
    by (rule gt_ok_iter [OF assms(1)])
  from assms(2) ds(1) have "sum_sizes ds 0 = Some n" by (simp add: gt_size_in_bytes_def)
  from sum_sizes_spans [OF this] obtain rs where rs: "map gvd_span ds = map Some rs"
    and n: "n = sum_list rs" by auto
  from rs have len: "length rs = length ds" by (metis length_map)
  have lay: "\<exists>l. gvd_layout (ds ! k) = Some l" if "k < length ds" for k
    using that rs len gvd_layout_span [of "ds ! k" "rs ! k"] by (metis nth_map)
  define sz where "sz k = the (gvd_layout (ds ! k))" for k
  have sz: "gvd_layout (ds ! k) = Some (sz k)" if "k < length ds" for k
    using lay [OF that] by (auto simp: sz_def)
  have id: "gvd_id (ds ! k) = ?gvs ! k" if "k < length ds" for k
    using ds(3) that by (metis nth_map)
  have dist: "distinct (map gvd_id ds)" using assms(1) ds(3) by (simp add: gt_ok_def)
  have off: "\<exists>p. offset_loop (?gvs ! k) ds 0 = Some p \<and> sum_list (take k rs) \<le> p \<and>
      p + fst (sz k) = sum_list (take (Suc k) rs)" if "k < length ds" for k
    using offset_loop_spans [OF rs dist that, of 0 "fst (sz k)" "snd (sz k)"] sz [OF that]
      id [OF that] n assms(3) by (simp add: u32_MAX_def usize_MAX_def)
  define f where "f k = the (offset_loop (?gvs ! k) ds 0)" for k
  have f: "offset_loop (?gvs ! k) ds 0 = Some (f k)" "sum_list (take k rs) \<le> f k"
    "f k + fst (sz k) = sum_list (take (Suc k) rs)" if "k < length ds" for k
    using off [OF that] by (auto simp: f_def)
  have le: "sum_list (take k rs) \<le> n" for k
    using sum_take_mono [of k "max k (length rs)" rs] n by simp
  have fn: "f k + fst (sz k) \<le> n" if "k < length ds" for k
    using f(3) [OF that] le by simp
  have "gt_offset_of (?gvs ! k) t = Some (f k)" if "k < length ds" for k
    using fn [OF that] f(1) [OF that] ds(1) assms(3) by (simp add: gt_offset_of_def to_u32_def)
  moreover have "f i + fst (sz i) \<le> f j" if "i < j" "j < length ds" for i j
    using f(2) [OF that(2)] f(3) [of i] that sum_take_mono [of "Suc i" j rs] by simp
  moreover have "Option.bind (gt_get (?gvs ! k) t) gvd_layout = Some (sz k)" if "k < length ds" for k
    using get sz [OF that] that by simp
  ultimately show ?thesis using ds(2) fn by (intro exI [of _ f] exI [of _ sz]) simp
qed

section \<open>The operations keep the table valid\<close>

lemma gt_get_simps [simp]:
  "gt_get gv (t\<lparr>gt_layout := l\<rparr>) = gt_get gv t" "gt_get gv (t\<lparr>gt_names := n\<rparr>) = gt_get gv t"
  "gt_get gv (t\<lparr>gt_data := p\<rparr>) = gt_get gv t" "gt_get gv (t\<lparr>gt_next := k\<rparr>) = gt_get gv t"
  "gt_get gv (t\<lparr>gt_arena := a\<rparr>) = am_get a gv"
  by (simp_all add: gt_get_def)

lemma map_of_update: "map_of (AList.update k v al) x = (if x = k then Some v else map_of al x)"
  by (simp add: update_conv)

lemma gt_ok_new [simp]: "gt_ok (gt_new s)"
  by (simp add: gt_ok_def gt_new_def gt_get_def am_new_def am_get_def)

lemma gt_insert_constant_ok:
  assumes "gt_ok t" "gt_insert_constant d t = (c, t')"
  shows "gt_ok t'" "cp_get (gt_data t') c = Some d" "gt_names t' = gt_names t"
    "gt_arena t' = gt_arena t" "gt_layout t' = gt_layout t" "gt_strategy t' = gt_strategy t"
    "cp_get (gt_data t) k = Some x \<Longrightarrow> cp_get (gt_data t') k = Some x"
proof -
  from assms obtain p where p: "cp_insert d (gt_data t) = (c, p)" and t': "t' = t\<lparr>gt_data := p\<rparr>"
    by (auto simp: gt_insert_constant_def split: prod.splits)
  note i = cp_insert_ok [OF _ p]
  from assms(1) have ok: "cp_ok (gt_data t)" by (simp add: gt_ok_def)
  have keep: "cp_get (gt_data t) k = Some x \<Longrightarrow> cp_get p k = Some x" for k x
    using i(4) [OF ok] .
  have "cp_get p c \<noteq> None" if "gt_get gv t = Some d" "gvd_init d = Some c" for gv d c
    using assms(1) that keep unfolding gt_ok_def by fastforce
  with assms(1) i(1) [OF ok] show "gt_ok t'" unfolding t' gt_ok_def by auto
  show "cp_get (gt_data t') c = Some d" using i(2) [OF ok] t' by simp
  show "cp_get (gt_data t) k = Some x \<Longrightarrow> cp_get (gt_data t') k = Some x" using keep t' by simp
qed (use assms in \<open>auto simp: gt_insert_constant_def split: prod.splits\<close>)

lemma gt_insert_eq:
  "gt_insert d t = Some (length (gt_arena t),
     t\<lparr>gt_arena := gt_arena t @ [Some (d\<lparr>gvd_id := length (gt_arena t)\<rparr>)],
       gt_names := AList.update (gvd_name d) (length (gt_arena t)) (gt_names t),
       gt_layout := gt_layout t @ [length (gt_arena t)]\<rparr>)"
  by (simp add: gt_insert_def am_alloc_key_def am_append_def list_update_append)

lemma gt_ok_namesD:
  "gt_ok t \<Longrightarrow> map_of (gt_names t) n = Some gv \<Longrightarrow> \<exists>d. gt_get gv t = Some d \<and> gvd_name d = n"
  by (simp add: gt_ok_def)

lemma gt_ok_named: "gt_ok t \<Longrightarrow> gt_get g t = Some e \<Longrightarrow> map_of (gt_names t) (gvd_name e) = Some g"
  by (simp add: gt_ok_def)

lemma gt_ok_get_lt: "gt_ok t \<Longrightarrow> gt_get gv t = Some d \<Longrightarrow> gv < length (gt_arena t)"
  by (simp add: gt_get_def am_get_SomeD)

lemma gt_insert_ok:
  assumes "gt_ok t" "gt_insert d t = Some (gv, t')" "map_of (gt_names t) (gvd_name d) = None"
    and "\<And>c. gvd_init d = Some c \<Longrightarrow> cp_get (gt_data t) c \<noteq> None"
  shows "gt_ok t'" "gt_get gv t' = Some (d\<lparr>gvd_id := gv\<rparr>)" "gt_get gv t = None"
    "gt_layout t' = gt_layout t @ [gv]" "g \<noteq> gv \<Longrightarrow> gt_get g t' = gt_get g t"
proof -
  let ?n = "length (gt_arena t)"
  from assms(2) have gv: "gv = ?n" and t': "t' = t\<lparr>gt_arena := gt_arena t @ [Some (d\<lparr>gvd_id := ?n\<rparr>)],
       gt_names := AList.update (gvd_name d) ?n (gt_names t), gt_layout := gt_layout t @ [?n]\<rparr>"
    by (auto simp: gt_insert_eq)
  have get: "gt_get g t' = (if g = ?n then Some (d\<lparr>gvd_id := ?n\<rparr>) else gt_get g t)" for g
    by (simp add: t' am_get_push) (simp add: gt_get_def)
  have fresh: "gt_get ?n t = None" by (simp add: gt_get_def am_get_def)
  have nolink: "?n \<notin> set (gt_layout t)" using assms(1) fresh by (auto simp: gt_ok_def)
  have names: "map_of (gt_names t') m = Some g \<longleftrightarrow> (\<exists>e. gt_get g t' = Some e \<and> gvd_name e = m)" for m g
  proof (cases "m = gvd_name d")
    case True
    have "gvd_name e \<noteq> gvd_name d" if "gt_get h t = Some e" for h e
      using gt_ok_named [OF assms(1) that] assms(3) by auto
    then show ?thesis using True by (auto simp: get) (auto simp: t' map_of_update)
  next
    case False
    then show ?thesis using assms(1) fresh by (auto simp: get) (auto simp: t' map_of_update gt_ok_def)
  qed
  show "gt_ok t'"
    using assms(1,4) names nolink unfolding gt_ok_def get by (auto simp: t')
  show "gt_get gv t' = Some (d\<lparr>gvd_id := gv\<rparr>)" "gt_get gv t = None"
    "g \<noteq> gv \<Longrightarrow> gt_get g t' = gt_get g t" using get fresh gv by auto
  show "gt_layout t' = gt_layout t @ [gv]" by (simp add: t' gv)
qed

lemma gt_set_init_ok:
  assumes "gt_ok t" "gt_get gv t = Some d" "cp_get (gt_data t) c \<noteq> None"
    and "am_update gv (\<lambda>d. d\<lparr>gvd_init := Some c\<rparr>) (gt_arena t) = Some a"
  shows "gt_ok (t\<lparr>gt_arena := a\<rparr>)"
    "gt_get g (t\<lparr>gt_arena := a\<rparr>) = (if g = gv then Some (d\<lparr>gvd_init := Some c\<rparr>) else gt_get g t)"
proof -
  let ?t = "t\<lparr>gt_arena := a\<rparr>"
  from assms(2,4) have a: "a = (gt_arena t)[gv := Some (d\<lparr>gvd_init := Some c\<rparr>)]"
    by (simp add: am_update_def gt_get_def)
  have get: "gt_get g ?t = (if g = gv then Some (d\<lparr>gvd_init := Some c\<rparr>) else gt_get g t)" for g
    using am_get_SomeD [of "gt_arena t" gv d] assms(2) by (simp add: a gt_get_def)
  have "map_of (gt_names t) m = Some g \<longleftrightarrow> (\<exists>e. gt_get g ?t = Some e \<and> gvd_name e = m)" for m g
    using assms(1,2) by (auto simp: get gt_ok_def simp del: gt_get_simps)
  with assms(1,2,3) show "gt_ok ?t"
    unfolding gt_ok_def get by (auto simp del: gt_get_simps)
  show "gt_get g ?t = (if g = gv then Some (d\<lparr>gvd_init := Some c\<rparr>) else gt_get g t)" by (rule get)
qed

lemma gt_merge_ok:
  assumes "gt_ok t" "gt_merge d gv t = Some t'" "gt_get gv t = Some e" "is_compatible_with d e"
    and "\<And>c. gvd_init d = Some c \<Longrightarrow> cp_get (gt_data t) c \<noteq> None"
  shows "gt_ok t'" "gt_layout t' = gt_layout t" "gt_names t' = gt_names t" "gt_data t' = gt_data t"
    "gt_get g t' = (if g = gv then
       Some (e\<lparr>gvd_init := if gvd_init d = None then gvd_init e else gvd_init d\<rparr>) else gt_get g t)"
proof -
  have "gt_ok t' \<and> gt_layout t' = gt_layout t \<and> gt_names t' = gt_names t \<and> gt_data t' = gt_data t \<and>
    gt_get g t' = (if g = gv then
       Some (e\<lparr>gvd_init := if gvd_init d = None then gvd_init e else gvd_init d\<rparr>) else gt_get g t)"
  proof (cases "gvd_init d")
    case None
    with assms show ?thesis by (simp add: gt_merge_def)
  next
    case (Some c)
    with assms(2) obtain a where a: "am_update gv (\<lambda>d. d\<lparr>gvd_init := Some c\<rparr>) (gt_arena t) = Some a"
      and t': "t' = t\<lparr>gt_arena := a\<rparr>" by (auto simp: gt_merge_def)
    from gt_set_init_ok [OF assms(1,3) assms(5) [OF Some] a] Some show ?thesis by (simp add: t')
  qed
  then show "gt_ok t'" "gt_layout t' = gt_layout t" "gt_names t' = gt_names t" "gt_data t' = gt_data t"
    "gt_get g t' = (if g = gv then
       Some (e\<lparr>gvd_init := if gvd_init d = None then gvd_init e else gvd_init d\<rparr>) else gt_get g t)"
    by blast+
qed

text \<open>
  An initializer of a declaration, validated and moved into the pool.  \<open>fits b ty\<close>: the data \<open>b\<close> is
  not longer than the type; \<open>init_data t d\<close> is the data of the initializer of \<open>d\<close>; and a declaration
  clashes with a variable of the same name that differs in type, linkage or data.
\<close>

definition fits :: "constant_data \<Rightarrow> hir_type \<Rightarrow> bool" where
  "fits b ty = (case type_layout ty of None \<Rightarrow> False | Some (n, _) \<Rightarrow> length b \<le> n)"

definition init_data :: "global_table \<Rightarrow> gv_data \<Rightarrow> constant_data option" where
  "init_data t d = Option.bind (gvd_init d) (cp_get (gt_data t))"

definition clashes :: "ident \<Rightarrow> hir_type \<Rightarrow> linkage \<Rightarrow> constant_data option \<Rightarrow> global_table \<Rightarrow> bool" where
  "clashes name ty lk init t =
     (case Option.bind (gt_find name t) (\<lambda>g. gt_get g t) of
        None \<Rightarrow> False
      | Some e \<Rightarrow> gvd_ty e \<noteq> ty \<or> gvd_linkage e \<noteq> lk \<or>
          init \<noteq> None \<and> gvd_init e \<noteq> None \<and> init_data t e \<noteq> init)"

text \<open>The pool after a declaration: the data is inserted as soon as it has passed the check of its size.\<close>

definition declared_data :: "hir_type \<Rightarrow> constant_data option \<Rightarrow> constant_pool \<Rightarrow> constant_pool" where
  "declared_data ty init p =
     (case init of None \<Rightarrow> p | Some b \<Rightarrow> if fits b ty then snd (cp_insert b p) else p)"

lemma gt_declare_cases:
  assumes "gt_ok t" "gt_declare name ty lk init t = Some (r, t')"
  obtains b where "r = Inl (InvalidInit name)" "t' = t" "init = Some b" "\<not> fits b ty"
  | u i where "gt_ok u" "gt_names u = gt_names t" "gt_arena u = gt_arena t" "gt_layout u = gt_layout t"
      "gt_strategy u = gt_strategy t"
      "case init of None \<Rightarrow> i = None \<and> u = t
         | Some b \<Rightarrow> fits b ty \<and> (\<exists>c. i = Some c \<and> cp_get (gt_data u) c = Some b)"
      "gt_data u = declared_data ty init (gt_data t)"
      "\<forall>k x. cp_get (gt_data t) k = Some x \<longrightarrow> cp_get (gt_data u) k = Some x"
      "(case map_of (gt_names u) name of
          Some gv \<Rightarrow> do {
            other \<leftarrow> am_get (gt_arena u) gv;
            if is_compatible_with \<lparr>gvd_id = 4294967295, gvd_name = name, gvd_ty = ty,
                gvd_linkage = lk, gvd_init = i\<rparr> other
            then do { u \<leftarrow> gt_merge \<lparr>gvd_id = 4294967295, gvd_name = name, gvd_ty = ty,
                gvd_linkage = lk, gvd_init = i\<rparr> gv u; Some (Inr gv, u) }
            else Some (Inl (NameConflict name), u) }
        | None \<Rightarrow> do { (gv, u) \<leftarrow> gt_insert \<lparr>gvd_id = 4294967295, gvd_name = name, gvd_ty = ty,
            gvd_linkage = lk, gvd_init = i\<rparr> u; Some (Inr gv, u) }) = Some (r, t')"
proof (cases init)
  case None
  with assms(2) have "name \<noteq> []" by (auto simp: gt_declare_def)
  with None assms show thesis
    by (intro that(2) [of t None]) (auto simp: gt_declare_def Let_def declared_data_def)
next
  case (Some b)
  with assms(2) obtain sz al where l: "name \<noteq> []" "type_layout ty = Some (sz, al)"
    by (auto simp: gt_declare_def)
  show thesis
  proof (cases "length b > sz")
    case True
    with Some assms(2) l show thesis by (intro that(1)) (auto simp: gt_declare_def fits_def)
  next
    case False
    obtain c u where u: "gt_insert_constant b t = (c, u)" by (cases "gt_insert_constant b t")
    from u have p: "gt_data u = snd (cp_insert b (gt_data t))"
      by (auto simp: gt_insert_constant_def split: prod.splits)
    from False l have f: "fits b ty" by (simp add: fits_def)
    from p f False Some assms(2) l u show thesis
      using gt_insert_constant_ok [OF assms(1) u]
      by (intro that(2) [of u "Some c"]) (auto simp: gt_declare_def Let_def declared_data_def)
  qed
qed

text \<open>The check of the code compares handles of the pool, which is comparing the data.\<close>

lemma compatible_iff:
  assumes "gt_ok t" "gt_ok u" "gt_find name t = Some gv" "gt_get gv t = Some e"
    and "case init of None \<Rightarrow> i = None | Some b \<Rightarrow> \<exists>c. i = Some c \<and> cp_get (gt_data u) c = Some b"
    and keep: "\<forall>k x. cp_get (gt_data t) k = Some x \<longrightarrow> cp_get (gt_data u) k = Some x"
    and "gvd_ty d = ty" "gvd_linkage d = lk" "gvd_init d = i"
  shows "is_compatible_with d e \<longleftrightarrow> \<not> clashes name ty lk init t"
proof (cases "i = None \<or> gvd_init e = None")
  case True
  with assms show ?thesis
    by (auto simp: is_compatible_with_def clashes_def split: option.splits)
next
  case False
  then obtain c ce where c: "i = Some c" "gvd_init e = Some ce" by auto
  with assms(5) obtain b where b: "init = Some b" "cp_get (gt_data u) c = Some b"
    by (auto split: option.splits)
  from assms(1,4) c(2) obtain be where be: "cp_get (gt_data t) ce = Some be"
    unfolding gt_ok_def by blast
  have "c = ce \<longleftrightarrow> be = b"
    using cp_handles_agree [of "gt_data u" c b ce] assms(2) keep be b(2) by (auto simp: gt_ok_def)
  with c b be assms(3,4,7-9) show ?thesis
    by (auto simp: is_compatible_with_def clashes_def init_data_def)
qed

lemma gt_declare_ok:
  assumes "gt_ok t" "gt_declare name ty lk init t = Some (r, t')"
  shows "gt_ok t' \<and> gt_data t' = declared_data ty init (gt_data t) \<and>
    (case r of
       Inl e \<Rightarrow> gt_layout t' = gt_layout t \<and> gt_names t' = gt_names t \<and> gt_arena t' = gt_arena t \<and>
         (if \<exists>b. init = Some b \<and> \<not> fits b ty then e = InvalidInit name
          else e = NameConflict name \<and> clashes name ty lk init t)
     | Inr gv \<Rightarrow> (\<forall>b. init = Some b \<longrightarrow> fits b ty) \<and> \<not> clashes name ty lk init t \<and>
         gt_find name t' = Some gv \<and>
         (\<exists>d. gt_get gv t' = Some d \<and> gvd_name d = name \<and> gvd_ty d = ty \<and> gvd_linkage d = lk \<and>
            init_data t' d = (if init \<noteq> None then init
              else Option.bind (Option.bind (gt_find name t) (\<lambda>g. gt_get g t)) (init_data t))) \<and>
         gt_layout t' = (if gt_exists name t then gt_layout t else gt_layout t @ [gv]) \<and>
         (\<forall>g. g \<noteq> gv \<longrightarrow> gt_get g t' = gt_get g t))"
  using assms
proof (cases rule: gt_declare_cases)
  case (1 b)
  then show ?thesis using assms(1) by (auto simp: declared_data_def)
next
  case (2 u i)
  let ?d = "\<lparr>gvd_id = 4294967295, gvd_name = name, gvd_ty = ty, gvd_linkage = lk, gvd_init = i\<rparr>"
  have fit: "\<forall>b. init = Some b \<longrightarrow> fits b ty" using 2(6) by (auto split: option.splits)
  have init: "cp_get (gt_data u) c \<noteq> None" if "gvd_init ?d = Some c" for c
    using 2(6) that by (auto split: option.splits)
  have get: "gt_get g u = gt_get g t" for g using 2(3) by (simp add: gt_get_def)
  have val: "Option.bind i (cp_get (gt_data u)) = init"
    using 2(6) by (auto split: option.splits)
  have i: "i = None \<longleftrightarrow> init = None" using 2(6) by (auto split: option.splits)
  show ?thesis
  proof (cases "map_of (gt_names u) name")
    case None
    with 2(9) obtain gv where ins: "gt_insert ?d u = Some (gv, t')" and r: "r = Inr gv" by auto
    note okk = gt_insert_ok [OF 2(1) ins _ init]
    have dat: "gt_data t' = gt_data u" using ins by (auto simp: gt_insert_eq)
    have "gt_find name t' = Some gv"
      using gt_ok_named [OF okk(1) okk(2)] None by (simp add: gt_find_def)
    moreover have ex: "\<not> gt_exists name t" using None 2(2) by (simp add: gt_exists_def)
    moreover have "\<not> clashes name ty lk init t" "gt_find name t = None"
      using ex by (simp_all add: clashes_def gt_find_def gt_exists_def)
    moreover have "init_data t' (?d\<lparr>gvd_id := gv\<rparr>) = init" using val dat by (simp add: init_data_def)
    ultimately show ?thesis using okk None 2(4,7) r fit get dat by auto
  next
    case (Some gv)
    with gt_ok_namesD [OF 2(1) Some] obtain e where e: "gt_get gv u = Some e" "gvd_name e = name"
      by blast
    have ex: "gt_exists name t" and find: "gt_find name t = Some gv" and et: "gt_get gv t = Some e"
      using Some 2(2) e get by (simp_all add: gt_exists_def gt_find_def)
    have comp: "is_compatible_with ?d e \<longleftrightarrow> \<not> clashes name ty lk init t"
      by (rule compatible_iff [OF assms(1) 2(1) find et _ 2(8)]) (use 2(6) in \<open>auto split: option.splits\<close>)
    show ?thesis
    proof (cases "is_compatible_with ?d e")
      case False
      with 2(9) Some e(1) have "r = Inl (NameConflict name)" "t' = u" by (auto simp: gt_get_def)
      with 2 False comp fit show ?thesis by auto
    next
      case True
      with 2(9) Some e(1) have m: "gt_merge ?d gv u = Some t'" and r: "r = Inr gv"
        by (auto simp: gt_get_def)
      note okk = gt_merge_ok [OF 2(1) m e(1) True init]
      let ?e = "e\<lparr>gvd_init := if i = None then gvd_init e else i\<rparr>"
      have "gvd_ty e = ty" "gvd_linkage e = lk" using True by (auto simp: is_compatible_with_def)
      moreover have "init_data t' ?e = (if init \<noteq> None then init else init_data t e)"
        using val okk(4) i 2(6) by (cases i) (auto simp: init_data_def)
      moreover have "gt_find name t' = Some gv" using Some okk(3) by (simp add: gt_find_def)
      moreover have "\<not> clashes name ty lk init t" using True comp by simp
      ultimately show ?thesis using okk e r 2(4,7) ex get fit find et by auto
    qed
  qed
qed

section \<open>Renaming\<close>

text \<open>\<open>renamed_to H d m\<close> is the name that the search tries with the number \<open>m\<close>.\<close>

definition renamed_to :: "(gv_data \<Rightarrow> nat \<Rightarrow> u64) \<Rightarrow> gv_data \<Rightarrow> nat \<Rightarrow> ident" where
  "renamed_to H d m = gvd_name d @ ''.'' @ to_hex (unat (H d m))"

text \<open>The search stops at the first number with an unused name, if there is one before the overflow.\<close>

lemma fresh_symbol_first:
  assumes "map_of names (renamed_to H d m) = None" "n \<le> m" "m < usize_MAX"
  shows "\<exists>k. fresh_symbol H d names n = Some (renamed_to H d k, k + 1) \<and> n \<le> k \<and> k \<le> m \<and>
    map_of names (renamed_to H d k) = None \<and> (\<forall>j. n \<le> j \<longrightarrow> j < k \<longrightarrow> map_of names (renamed_to H d j) \<noteq> None)"
  using assms(2)
proof (induction "m - n" arbitrary: n)
  case 0
  then show ?case using assms
    by (intro exI [of _ m]) (subst fresh_symbol.simps, simp add: renamed_to_def Let_def)
next
  case (Suc l)
  show ?case
  proof (cases "map_of names (renamed_to H d n) = None")
    case True
    then show ?thesis using Suc.prems assms(3)
      by (intro exI [of _ n]) (subst fresh_symbol.simps, simp add: renamed_to_def Let_def)
  next
    case False
    have "l = m - Suc n" "Suc n \<le> m" using Suc.hyps(2) by simp_all
    from Suc.hyps(1) [OF this] obtain k where k: "fresh_symbol H d names (Suc n) = Some (renamed_to H d k, k + 1)"
      "Suc n \<le> k" "k \<le> m" "map_of names (renamed_to H d k) = None"
      "\<forall>j. Suc n \<le> j \<longrightarrow> j < k \<longrightarrow> map_of names (renamed_to H d j) \<noteq> None" by blast
    have "fresh_symbol H d names n = Some (renamed_to H d k, k + 1)"
      using k(1) False Suc.prems assms(3) by (subst fresh_symbol.simps) (auto simp: renamed_to_def Let_def)
    moreover have "\<forall>j. n \<le> j \<longrightarrow> j < k \<longrightarrow> map_of names (renamed_to H d j) \<noteq> None"
      using k(5) False by (metis Suc_leI le_neq_implies_less)
    ultimately show ?thesis using k(2-4) by (intro exI [of _ k]) simp
  qed
qed

lemma gt_try_insert_ok:
  assumes "gt_ok t" "gt_try_insert H d t = Some (r, t')"
    and init: "\<And>c. gvd_init d = Some c \<Longrightarrow> cp_get (gt_data t) c \<noteq> None"
  shows "gt_ok t' \<and>
    (case r of
       Inl e \<Rightarrow> t' = t
     | Inr (gv, renamed) \<Rightarrow>
         (\<exists>d'. gt_get gv t' = Some d' \<and> (gvd_name d' = gvd_name d \<longleftrightarrow> \<not> renamed) \<and>
            gvd_ty d' = gvd_ty d \<and> gvd_linkage d' = gvd_linkage d \<and>
            (gvd_init d = None \<or> gvd_init d' = gvd_init d)) \<and>
         (gt_get gv t = None \<longleftrightarrow> renamed \<or> \<not> gt_exists (gvd_name d) t) \<and>
         gt_layout t' = (if gt_get gv t = None then gt_layout t @ [gv] else gt_layout t) \<and>
         (\<forall>g. g \<noteq> gv \<longrightarrow> gt_get g t' = gt_get g t))"
proof (cases "map_of (gt_names t) (gvd_name d)")
  case None
  with assms(2) obtain gv where ins: "gt_insert d t = Some (gv, t')" and r: "r = Inr (gv, False)"
    by (auto simp: gt_try_insert_def)
  note okk = gt_insert_ok [OF assms(1) ins None init]
  show ?thesis using okk r None by (simp add: gt_exists_def)
next
  case (Some gv)
  with gt_ok_namesD [OF assms(1) Some] obtain e where e: "gt_get gv t = Some e" "gvd_name e = gvd_name d"
    by blast
  have ex: "gt_exists (gvd_name d) t" using Some by (simp add: gt_exists_def)
  consider (merge) "is_compatible_with d e"
    | (rename) "\<not> is_compatible_with d e" "gvd_linkage d = LkInternal" "gt_strategy t = ConflictRename"
    | (conflict) "\<not> is_compatible_with d e" "\<not> (gvd_linkage d = LkInternal \<and> gt_strategy t = ConflictRename)"
    by blast
  then show ?thesis
  proof cases
    case merge
    with assms(2) Some e(1) have m: "gt_merge d gv t = Some t'" and r: "r = Inr (gv, False)"
      by (auto simp: gt_get_def gt_try_insert_def)
    note okk = gt_merge_ok [OF assms(1) m e(1) merge init]
    have "gvd_ty e = gvd_ty d" "gvd_linkage e = gvd_linkage d" using merge by (auto simp: is_compatible_with_def)
    then show ?thesis using okk e r ex by auto
  next
    case rename
    with assms(2) Some e(1) obtain s n g where f: "fresh_symbol H d (gt_names t) (gt_next t) = Some (s, n)"
      and ins: "gt_insert (d\<lparr>gvd_name := s\<rparr>) (t\<lparr>gt_next := n\<rparr>) = Some (g, t')" and r: "r = Inr (g, True)"
      by (auto simp: gt_try_insert_def gt_get_def)
    have s: "map_of names s = None" if "fresh_symbol H d names k = Some (s, n)" for names k
      using that by (induction H d names k rule: fresh_symbol.induct)
        (subst (asm) (2) fresh_symbol.simps, auto simp: Let_def split: if_splits)
    have ok: "gt_ok (t\<lparr>gt_next := n\<rparr>)" using assms(1) by (simp add: gt_ok_def)
    have "map_of (gt_names (t\<lparr>gt_next := n\<rparr>)) (gvd_name (d\<lparr>gvd_name := s\<rparr>)) = None"
      using s [OF f] by simp
    moreover have "cp_get (gt_data (t\<lparr>gt_next := n\<rparr>)) c \<noteq> None"
      if "gvd_init (d\<lparr>gvd_name := s\<rparr>) = Some c" for c
      using init that by simp
    ultimately have okk: "gt_ok t'" "gt_get g t' = Some (d\<lparr>gvd_name := s, gvd_id := g\<rparr>)"
        "gt_get g t = None" "gt_layout t' = gt_layout t @ [g]" "\<forall>h. h \<noteq> g \<longrightarrow> gt_get h t' = gt_get h t"
      using gt_insert_ok [OF ok ins] by auto
    have "s \<noteq> gvd_name d" using s [OF f] Some by auto
    then show ?thesis using okk r by auto
  next
    case conflict
    with assms(2) Some e(1) have "r = Inl (NameConflict (gvd_name d))" "t' = t"
      by (auto simp: gt_get_def gt_try_insert_def split: if_splits)
    then show ?thesis using assms(1) by simp
  qed
qed

lemma gt_remove_ok: "gt_ok t \<Longrightarrow> gt_remove gv t = Some t' \<Longrightarrow> gt_ok t'"
proof -
  have "remove_first_id a g l = Some l' \<Longrightarrow> set l' \<subseteq> set l \<and> (distinct l \<longrightarrow> distinct l')" for a g l l'
    by (induction a g l arbitrary: l' rule: remove_first_id.induct) (fastforce split: if_splits)+
  then show "gt_ok t \<Longrightarrow> gt_remove gv t = Some t' \<Longrightarrow> gt_ok t'"
    by (fastforce simp: gt_remove_def gt_ok_def)
qed

lemma gt_set_initializer_ok:
  assumes "gt_ok t" "gt_set_initializer gv b t = Some (r, t')"
  shows "gt_ok t'"
    "r = None \<Longrightarrow> \<exists>d. gt_get gv t' = Some d \<and> Option.bind (gvd_init d) (cp_get (gt_data t')) = Some b"
proof -
  from assms(2) obtain d sz al where d: "gt_get gv t = Some d" "gvd_layout d = Some (sz, al)"
    by (auto simp: gt_set_initializer_def gt_get_def)
  have "gt_ok t' \<and> (r = None \<longrightarrow>
      (\<exists>d. gt_get gv t' = Some d \<and> Option.bind (gvd_init d) (cp_get (gt_data t')) = Some b))"
  proof (cases "length b > sz \<or> gvd_init d \<noteq> None")
    case True
    with assms d show ?thesis
      by (auto simp: gt_set_initializer_def gt_get_def split: if_splits)
  next
    case False
    obtain c u where u: "gt_insert_constant b t = (c, u)" by (cases "gt_insert_constant b t")
    note okk = gt_insert_constant_ok [OF assms(1) u]
    from False assms(2) d u obtain a where a: "am_update gv (\<lambda>d. d\<lparr>gvd_init := Some c\<rparr>) (gt_arena u) = Some a"
      and t': "t' = u\<lparr>gt_arena := a\<rparr>" "r = None"
      by (auto simp: gt_set_initializer_def gt_get_def Let_def)
    have "gt_get gv u = Some d" using d(1) okk(4) by (simp add: gt_get_def)
    from gt_set_init_ok [OF okk(1) this _ a] okk(2) show ?thesis by (simp add: t')
  qed
  then show "gt_ok t'" "r = None \<Longrightarrow> \<exists>d. gt_get gv t' = Some d \<and> Option.bind (gvd_init d) (cp_get (gt_data t')) = Some b"
    by blast+
qed

section \<open>Properties\<close>

text \<open>
  C34. Declaring a global variable keeps the table consistent.  It fails when the initializer is
  longer than the type, and otherwise exactly when a variable of that name differs in type or
  linkage or has other data.  On success the name is found, with the declared type and linkage,
  holding the declared initializer or, without one, the one it had; a new name is placed behind
  the other variables, a name that exists already is merged without a new variable, and no other
  variable changes.  A failed declaration changes no variable; the data of an initializer that is
  not too long is in the pool of constants even if the declaration then fails.
\<close>

theorem global_declarations:
  assumes "gt_ok t" "gt_declare name ty lk init t = Some (r, t')"
  shows "gt_ok t' \<and> gt_data t' = declared_data ty init (gt_data t) \<and>
    (case r of
       Inl e \<Rightarrow> gt_layout t' = gt_layout t \<and> gt_names t' = gt_names t \<and> gt_arena t' = gt_arena t \<and>
         (if \<exists>b. init = Some b \<and> \<not> fits b ty then e = InvalidInit name
          else e = NameConflict name \<and> clashes name ty lk init t)
     | Inr gv \<Rightarrow> (\<forall>b. init = Some b \<longrightarrow> fits b ty) \<and> \<not> clashes name ty lk init t \<and>
         gt_find name t' = Some gv \<and>
         (\<exists>d. gt_get gv t' = Some d \<and> gvd_name d = name \<and> gvd_ty d = ty \<and> gvd_linkage d = lk \<and>
            init_data t' d = (if init \<noteq> None then init
              else Option.bind (Option.bind (gt_find name t) (\<lambda>g. gt_get g t)) (init_data t))) \<and>
         gt_layout t' = (if gt_exists name t then gt_layout t else gt_layout t @ [gv]) \<and>
         (\<forall>g. g \<noteq> gv \<longrightarrow> gt_get g t' = gt_get g t))"
  by (rule gt_declare_ok [OF assms])

text \<open>The two variables of the examples: a byte and a 32-bit integer.\<close>

definition demo_globals :: global_table where
  "demo_globals =
     (case gt_declare ''a'' TyU8 LkInternal None (gt_new ConflictRename) of
        Some (_, t) \<Rightarrow> (case gt_declare ''b'' TyU32 LkExternal (Some [7, 0, 0, 0]) t of
           Some (_, t) \<Rightarrow> t | None \<Rightarrow> t)
      | None \<Rightarrow> gt_new ConflictRename)"

lemmas global_eval = gt_declare_def gt_new_def am_new_def gt_insert_eq gt_insert_constant_def cp_insert_def
  cp_new_def cp_len_def type_layout_def gvd_layout_def size_in_bytes_def isize_MAX_def is_power_of_two.simps
  gt_merge_def is_compatible_with_def am_get_def am_update_def gt_get_def gt_find_def gt_exists_def

lemma demo_globals_eq:
  "demo_globals =
     \<lparr>gt_layout = [0, 1], gt_names = [(''a'', 0), (''b'', 1)],
      gt_arena = [Some \<lparr>gvd_id = 0, gvd_name = ''a'', gvd_ty = TyU8, gvd_linkage = LkInternal,
                      gvd_init = None\<rparr>,
                  Some \<lparr>gvd_id = 1, gvd_name = ''b'', gvd_ty = TyU32, gvd_linkage = LkExternal,
                      gvd_init = Some 0\<rparr>],
      gt_data = \<lparr>cp_constants = [(0, [7, 0, 0, 0])], cp_cache = [([7, 0, 0, 0], 0)]\<rparr>,
      gt_next = 0, gt_strategy = ConflictRename\<rparr>"
  by (simp add: demo_globals_def global_eval)

lemma demo_globals_ok: "gt_ok demo_globals"
proof -
  obtain r t where t: "gt_declare ''a'' TyU8 LkInternal None (gt_new ConflictRename) = Some (r, t)"
    by (simp add: global_eval)
  obtain r' t' where t': "gt_declare ''b'' TyU32 LkExternal (Some [7, 0, 0, 0]) t = Some (r', t')"
    using t by (auto simp: global_eval)
  have "gt_ok t'" using gt_declare_ok [OF gt_ok_new t] gt_declare_ok [OF _ t'] by blast
  then show ?thesis using t t' by (simp add: demo_globals_def)
qed

theorem global_declarations_witness:
  "\<exists>t'. gt_declare ''c'' TyU32 LkOdr (Some [1]) demo_globals = Some (Inr 2, t') \<and> gt_ok t' \<and>
     gt_find ''c'' t' = Some 2 \<and> gt_layout t' = [0, 1, 2] \<and> gt_get 0 t' = gt_get 0 demo_globals"
proof -
  obtain t' where t': "gt_declare ''c'' TyU32 LkOdr (Some [1]) demo_globals = Some (Inr 2, t')"
    by (simp add: demo_globals_eq global_eval)
  show ?thesis
    using t' global_declarations [OF demo_globals_ok t'] by (auto simp: demo_globals_eq gt_exists_def)
qed

text \<open>
  C35. When modules are linked, an internal variable whose name is taken by an incompatible one is
  added unchanged but for its name, behind the other variables, none of which changes.  Its new name
  is the old one with the hash for the first number, from \<open>next_unique_id\<close> on, that gives a name
  nothing has yet, and the search for the next variable starts after this number.  The condition is
  that some number below the largest \<open>usize\<close> gives such a name; otherwise the search runs into the
  overflow and panics.  Nothing else is assumed of the hash.
\<close>

theorem conflicting_internals_are_renamed:
  fixes H :: "gv_data \<Rightarrow> nat \<Rightarrow> u64"
  assumes "gt_ok t" "gt_strategy t = ConflictRename" "gvd_linkage d = LkInternal" "gvd_name d \<noteq> []"
    and "gt_find (gvd_name d) t = Some g" "gt_get g t = Some e" "\<not> is_compatible_with d e"
    and "gvd_init d = None \<or> cp_get (gt_data t) (the (gvd_init d)) \<noteq> None"
    and "\<not> gt_exists (renamed_to H d m) t" "gt_next t \<le> m" "m < usize_MAX"
  shows "\<exists>gv t' k. gt_try_insert H d t = Some (Inr (gv, True), t') \<and> gt_ok t' \<and>
    gt_get gv t = None \<and> gt_get gv t' = Some (d\<lparr>gvd_id := gv, gvd_name := renamed_to H d k\<rparr>) \<and>
    gt_next t \<le> k \<and> k \<le> m \<and> gt_next t' = k + 1 \<and> \<not> gt_exists (renamed_to H d k) t \<and>
    (\<forall>j. gt_next t \<le> j \<and> j < k \<longrightarrow> gt_exists (renamed_to H d j) t) \<and>
    gt_layout t' = gt_layout t @ [gv] \<and> gt_data t' = gt_data t \<and>
    (\<forall>g. g \<noteq> gv \<longrightarrow> gt_get g t' = gt_get g t) \<and>
    (\<forall>n. gt_find n t' = (if n = renamed_to H d k then Some gv else gt_find n t))"
proof -
  have "map_of (gt_names t) (renamed_to H d m) = None" using assms(9) by (simp add: gt_exists_def)
  from fresh_symbol_first [of "gt_names t" H d m, OF this assms(10,11)]
  obtain k where k: "fresh_symbol H d (gt_names t) (gt_next t) = Some (renamed_to H d k, k + 1)"
    "gt_next t \<le> k" "k \<le> m" "map_of (gt_names t) (renamed_to H d k) = None"
    "\<forall>j. gt_next t \<le> j \<longrightarrow> j < k \<longrightarrow> map_of (gt_names t) (renamed_to H d j) \<noteq> None" by blast
  let ?gv = "length (gt_arena t)"
  obtain t' where ins: "gt_insert (d\<lparr>gvd_name := renamed_to H d k\<rparr>) (t\<lparr>gt_next := k + 1\<rparr>) = Some (?gv, t')"
    by (simp add: gt_insert_eq)
  with k(1) assms(2-7) have e: "gt_try_insert H d t = Some (Inr (?gv, True), t')"
    by (simp add: gt_try_insert_def gt_find_def gt_get_def)
  have "cp_get (gt_data t) c \<noteq> None" if "gvd_init d = Some c" for c using assms(8) that by simp
  from gt_try_insert_ok [OF assms(1) e this]
  have "gt_ok t'" "gt_get ?gv t = None" "gt_layout t' = gt_layout t @ [?gv]"
    "\<forall>g. g \<noteq> ?gv \<longrightarrow> gt_get g t' = gt_get g t" by auto
  moreover have "gt_get ?gv t' = Some (d\<lparr>gvd_id := ?gv, gvd_name := renamed_to H d k\<rparr>)"
    "gt_next t' = k + 1" "gt_data t' = gt_data t"
    "\<forall>n. gt_find n t' = (if n = renamed_to H d k then Some ?gv else gt_find n t)"
    using ins by (auto simp: gt_insert_eq gt_get_def am_get_push gt_find_def map_of_update)
  ultimately show ?thesis
    using e k(2-5) by (intro exI [of _ ?gv] exI [of _ t'] exI [of _ k]) (simp add: gt_exists_def)
qed

theorem conflicting_internals_are_renamed_witness:
  "\<exists>gv t' k. gt_try_insert (\<lambda>d n. of_nat n)
      \<lparr>gvd_id = 0, gvd_name = ''b'', gvd_ty = TyU8, gvd_linkage = LkInternal, gvd_init = None\<rparr> demo_globals =
        Some (Inr (gv, True), t') \<and> gt_layout t' = [0, 1, gv] \<and> k \<le> 0 \<and>
      map_option gvd_name (gt_get gv t') = Some (''b.'' @ to_hex k)"
proof -
  let ?d = "\<lparr>gvd_id = 0, gvd_name = ''b'', gvd_ty = TyU8, gvd_linkage = LkInternal, gvd_init = None\<rparr>"
  let ?H = "\<lambda>d n. of_nat n :: u64"
  have "\<not> gt_exists (renamed_to ?H ?d 0) demo_globals"
    by (simp add: gt_exists_def renamed_to_def demo_globals_eq)
  moreover have "gt_strategy demo_globals = ConflictRename" and lay: "gt_layout demo_globals = [0, 1]"
    and "gt_next demo_globals \<le> 0" "(0 :: nat) < usize_MAX" "gt_find ''b'' demo_globals = Some 1"
    by (simp_all add: demo_globals_eq usize_MAX_def gt_find_def)
  moreover obtain e where "gt_get 1 demo_globals = Some e" "\<not> is_compatible_with ?d e"
    by (simp add: demo_globals_eq gt_get_def am_get_def is_compatible_with_def)
  ultimately obtain gv t' k where "gt_try_insert ?H ?d demo_globals = Some (Inr (gv, True), t')"
    "gt_layout t' = [0, 1] @ [gv]" "k \<le> 0" "gt_get gv t' = Some (?d\<lparr>gvd_id := gv, gvd_name := renamed_to ?H ?d k\<rparr>)"
    using conflicting_internals_are_renamed [OF demo_globals_ok, of ?d 1 e ?H 0] by auto
  then show ?thesis
    by (intro exI [of _ gv] exI [of _ t'] exI [of _ k]) (simp add: renamed_to_def)
qed

text \<open>
  C36. The variables of a consistent table whose size fits the address space are placed one behind
  the other in the order of the layout: \<open>offset_of\<close> returns for each of them, each ends before
  the next one starts, and all of them lie inside the size of the table.
\<close>

theorem globals_are_disjoint:
  assumes "gt_ok t" "gt_size_in_bytes t = Some n" "n \<le> u32_MAX"
  shows "\<exists>f sz. (\<forall>k < length (gt_layout t). gt_offset_of (gt_layout t ! k) t = Some (f k) \<and>
       Option.bind (gt_get (gt_layout t ! k) t) gvd_layout = Some (sz k)) \<and>
     (\<forall>i j. i < j \<longrightarrow> j < length (gt_layout t) \<longrightarrow> f i + fst (sz i) \<le> f j) \<and>
     (\<forall>k < length (gt_layout t). f k + fst (sz k) \<le> n)"
  by (rule gt_placement [OF assms])

lemmas placement_eval = gt_size_in_bytes_def gt_offset_of_def gt_iter_def usize_add_def usize_MAX_def
  align_up_def align_offset_def next_multiple_of_def to_u32_def u32_MAX_def

theorem globals_are_disjoint_witness:
  "\<exists>f sz. gt_offset_of 0 demo_globals = Some (f (0 :: nat)) \<and> gt_offset_of 1 demo_globals = Some (f 1) \<and>
     f 0 + fst (sz (0 :: nat) :: nat \<times> nat) \<le> f 1 \<and> f 1 + fst (sz 1) \<le> 5"
proof -
  have "gt_size_in_bytes demo_globals = Some 5"
    by (simp add: demo_globals_eq placement_eval global_eval)
  moreover have lay: "gt_layout demo_globals = [0, 1]" by (simp add: demo_globals_eq)
  ultimately obtain f and sz :: "nat \<Rightarrow> nat \<times> nat" where
    f: "\<forall>k < 2. gt_offset_of (gt_layout demo_globals ! k) demo_globals = Some (f k) \<and>
       Option.bind (gt_get (gt_layout demo_globals ! k) demo_globals) gvd_layout = Some (sz k)"
    and le: "\<forall>i j. i < j \<longrightarrow> j < 2 \<longrightarrow> f i + fst (sz i) \<le> f j" "\<forall>k < 2. f k + fst (sz k) \<le> 5"
    using globals_are_disjoint [OF demo_globals_ok, of 5] by (auto simp: u32_MAX_def numeral_2_eq_2)
  have "gt_offset_of 0 demo_globals = Some (f 0)" "gt_offset_of 1 demo_globals = Some (f 1)"
    using f [rule_format, of 0] f [rule_format, of 1] lay by simp_all
  moreover have "f 0 + fst (sz 0) \<le> f 1" "f 1 + fst (sz 1) \<le> 5"
    using le(1) [rule_format, of 0 1] le(2) [rule_format, of 1] by simp_all
  ultimately show ?thesis by blast
qed

text \<open>
  Where the table does not do what it promises.  The padding is computed from the size of a
  variable instead of the position it is placed at, so a 32-bit integer behind a byte is placed at
  the odd address 1.  A removed variable is still found by its name, and declaring the name again
  returns it without placing it: its offset is then the end of the table.  \<open>set_initializer\<close> does
  not extend short data.
\<close>

lemma global_table_defects:
  shows "gt_offset_of 1 demo_globals = Some 1 \<and> map_option gvd_ty (gt_get 1 demo_globals) = Some TyU32 \<and>
      min_alignment TyU32 = 4"
    and "\<exists>t. gt_remove 0 demo_globals = Some t \<and> gt_find ''a'' t = Some 0 \<and> gt_layout t = [1] \<and>
      gt_declare ''a'' TyU8 LkInternal None t = Some (Inr 0, t) \<and> gt_offset_of 0 t = gt_size_in_bytes t"
    and "\<exists>t. gt_set_initializer 0 [] demo_globals = Some (None, t) \<and>
      Option.bind (Option.bind (gt_get 0 t) gvd_init) (cp_get (gt_data t)) = Some []"
proof -
  show "gt_offset_of 1 demo_globals = Some 1 \<and> map_option gvd_ty (gt_get 1 demo_globals) = Some TyU32 \<and>
      min_alignment TyU32 = 4"
    by (simp add: demo_globals_eq placement_eval global_eval)
  show "\<exists>t. gt_remove 0 demo_globals = Some t \<and> gt_find ''a'' t = Some 0 \<and> gt_layout t = [1] \<and>
      gt_declare ''a'' TyU8 LkInternal None t = Some (Inr 0, t) \<and> gt_offset_of 0 t = gt_size_in_bytes t"
    by (simp add: demo_globals_eq gt_remove_def placement_eval global_eval)
  show "\<exists>t. gt_set_initializer 0 [] demo_globals = Some (None, t) \<and>
      Option.bind (Option.bind (gt_get 0 t) gvd_init) (cp_get (gt_data t)) = Some []"
    by (simp add: demo_globals_eq gt_set_initializer_def global_eval cp_get_def)
qed

end
