(* ===== verification/Imports.thy ===== *)
theory Imports
  imports Masm
begin

text \<open>
  Names and imports: the parsing of qualified names (hir/src/ident.rs) and the import table of a
  module (hir/src/asm/import.rs).  The hash maps and sets of the table are only used by key, so
  they are partial functions and sets.  Strings are ASCII.  The hash of an alias that is taken is
  \<open>FxHasher\<close>, of an external crate: it is the parameter \<open>H\<close> on the string.
\<close>

section \<open>Strings\<close>

fun rsplit_once :: "string \<Rightarrow> string \<Rightarrow> (string \<times> string) option" where
  "rsplit_once pat [] = None"
| "rsplit_once pat (c # cs) =
     (case rsplit_once pat cs of
        Some (p, q) \<Rightarrow> Some (c # p, q)
      | None \<Rightarrow> if take (length pat) (c # cs) = pat then Some ([], drop (length pat) (c # cs)) else None)"

definition is_whitespace :: "char \<Rightarrow> bool" where
  "is_whitespace c = (of_char c \<in> {9, 10, 11, 12, 13, 32 :: nat})"

definition trim :: "string \<Rightarrow> string" where
  "trim s = rev (dropWhile is_whitespace (rev (dropWhile is_whitespace s)))"

definition strip_prefix :: "string \<Rightarrow> string \<Rightarrow> string option" where
  "strip_prefix p s = (if take (length p) s = p then Some (drop (length p) s) else None)"

definition ends_with :: "string \<Rightarrow> string \<Rightarrow> bool" where
  "ends_with s t = (length t \<le> length s \<and> drop (length s - length t) s = t)"

definition parse_function_ident :: "string \<Rightarrow> function_ident option" where
  "parse_function_ident s =
     (case rsplit_once ''::'' s of
        Some (ns, name) \<Rightarrow> Some (FunctionIdent ns name)
      | None \<Rightarrow> None)"

definition display_function_ident :: "function_ident \<Rightarrow> string" where
  "display_function_ident f = fi_module f @ ''::'' @ fi_function f"

section \<open>Imports\<close>

record masm_import =
  mi_name :: ident
  mi_alias :: ident

definition is_aliased :: "masm_import \<Rightarrow> bool" where
  "is_aliased i = (\<not> ends_with (mi_name i) (mi_alias i))"

definition conflicts_with :: "masm_import \<Rightarrow> masm_import \<Rightarrow> bool" where
  "conflicts_with a b = (mi_alias a = mi_alias b \<and> mi_name a \<noteq> mi_name b)"

definition import_eq :: "masm_import \<Rightarrow> masm_import \<Rightarrow> bool" where
  "import_eq a b =
     (if mi_name a \<noteq> mi_name b then False
      else (case (is_aliased a, is_aliased b) of
        (True, True) \<Rightarrow> mi_alias a = mi_alias b
      | (True, False) \<Rightarrow> False
      | (False, True) \<Rightarrow> False
      | (False, False) \<Rightarrow> True))"

datatype import_error = InvalidModuleIdentifier string | TrailingColons string | EmptyAlias string

definition import_of_ident :: "ident \<Rightarrow> import_error + masm_import" where
  "import_of_ident name =
     (if \<exists>c \<in> set name. is_whitespace c then Inl (InvalidModuleIdentifier name)
      else (case rsplit_once ''::'' name of
          None \<Rightarrow> Inr \<lparr>mi_name = name, mi_alias = name\<rparr>
        | Some (_, alias) \<Rightarrow>
            if alias = [] then Inl (TrailingColons name)
            else Inr \<lparr>mi_name = name, mi_alias = alias\<rparr>))"

definition parse_import :: "string \<Rightarrow> import_error + masm_import" where
  "parse_import s =
     (let s = trim s;
          s = (case strip_prefix ''use '' s of Some t \<Rightarrow> t | None \<Rightarrow> s) in
      case rsplit_once ''->'' s of
        None \<Rightarrow> import_of_ident s
      | Some (fqn, alias) \<Rightarrow>
          if alias = [] then Inl (EmptyAlias s)
          else Inr \<lparr>mi_name = fqn, mi_alias = alias\<rparr>)"

text \<open>The line that \<open>Module::fmt\<close> of codegen/masm/src/masm/module.rs writes for an import.\<close>

definition display_import :: "masm_import \<Rightarrow> string" where
  "display_import i =
     (if is_aliased i then ''use.'' @ mi_name i @ ''->'' @ mi_alias i
      else ''use.'' @ mi_name i)"

section \<open>The import table\<close>

record import_info =
  ii_modules :: "ident \<rightharpoonup> masm_import"
  ii_aliases :: "ident \<rightharpoonup> ident"
  ii_functions :: "ident \<rightharpoonup> function_ident set"

definition ii_new :: import_info where
  "ii_new = \<lparr>ii_modules = Map.empty, ii_aliases = Map.empty, ii_functions = Map.empty\<rparr>"

definition ii_insert :: "masm_import \<Rightarrow> import_info \<Rightarrow> import_info option" where
  "ii_insert i t =
     do { assert_that (ii_modules t (mi_name i) = None);
          Some (t\<lparr>ii_modules := (ii_modules t)(mi_name i \<mapsto> i)\<rparr>) }"

definition ii_add_function :: "ident \<Rightarrow> function_ident \<Rightarrow> import_info \<Rightarrow> import_info" where
  "ii_add_function alias f t =
     (let fs = (case ii_functions t alias of Some fs \<Rightarrow> fs | None \<Rightarrow> {}) in
      t\<lparr>ii_functions := (ii_functions t)(alias \<mapsto> insert f fs)\<rparr>)"

definition ii_add :: "(string \<Rightarrow> string) \<Rightarrow> function_ident \<Rightarrow> import_info \<Rightarrow> import_info option" where
  "ii_add H f t =
     (let module_id = fi_module f in
      case ii_modules t module_id of
        None \<Rightarrow>
          let alias = (case rsplit_once ''::'' module_id of None \<Rightarrow> module_id | Some (_, alias) \<Rightarrow> alias) in
          do { (alias_id, t) \<leftarrow>
                 (if ii_aliases t alias \<noteq> None
                  then let alias = H alias in
                    do { assert_that (ii_aliases t alias = None);
                         Some (alias, t\<lparr>ii_aliases := (ii_aliases t)(alias \<mapsto> module_id)\<rparr>) }
                  else Some (alias, t));
               let t = t\<lparr>ii_modules := (ii_modules t)(module_id \<mapsto>
                   \<lparr>mi_name = module_id, mi_alias = alias_id\<rparr>)\<rparr>;
               let t = t\<lparr>ii_aliases := (ii_aliases t)(alias_id \<mapsto> module_id)\<rparr>;
               Some (ii_add_function alias_id f t) }
      | Some _ \<Rightarrow>
          do { alias \<leftarrow> ii_aliases t module_id;
               Some (ii_add_function alias f t) })"

definition ii_get :: "ident \<Rightarrow> import_info \<Rightarrow> masm_import option" where
  "ii_get module t = ii_modules t module"

definition ii_alias :: "ident \<Rightarrow> import_info \<Rightarrow> ident option" where
  "ii_alias module t = map_option mi_alias (ii_modules t module)"

definition ii_unalias :: "ident \<Rightarrow> import_info \<Rightarrow> ident option" where
  "ii_unalias alias t = ii_aliases t alias"

definition ii_is_import :: "ident \<Rightarrow> import_info \<Rightarrow> bool" where
  "ii_is_import module t = (ii_modules t module \<noteq> None)"

definition ii_imported :: "ident \<Rightarrow> import_info \<Rightarrow> function_ident set option" where
  "ii_imported alias t = ii_functions t alias"

section \<open>Splitting at the last separator\<close>

lemma rsplit_once_None:
  "rsplit_once pat s = None \<longleftrightarrow> (\<forall>k < length s. take (length pat) (drop k s) \<noteq> pat)"
proof (induction s)
  case (Cons c cs)
  show ?case
  proof
    assume n: "rsplit_once pat (c # cs) = None"
    then have "rsplit_once pat cs = None" "take (length pat) (c # cs) \<noteq> pat"
      by (auto split: option.splits if_splits)
    with Cons show "\<forall>k < length (c # cs). take (length pat) (drop k (c # cs)) \<noteq> pat"
      by (auto simp: less_Suc_eq_0_disj)
  next
    assume n: "\<forall>k < length (c # cs). take (length pat) (drop k (c # cs)) \<noteq> pat"
    have "take (length pat) (drop k cs) \<noteq> pat" if "k < length cs" for k
      using n [rule_format, of "Suc k"] that by simp
    with Cons have "rsplit_once pat cs = None" by simp
    with n [rule_format, of 0] show "rsplit_once pat (c # cs) = None" by simp
  qed
qed simp

lemma rsplit_once_append:
  assumes "rsplit_once pat (tl pat @ q) = None" "pat \<noteq> []"
  shows "rsplit_once pat (p @ pat @ q) = Some (p, q)"
proof (induction p)
  case Nil
  obtain c cs where pat: "pat = c # cs" using assms(2) by (cases pat) auto
  with assms(1) show ?case by simp
qed simp

lemma rsplit_onceD:
  assumes "rsplit_once pat s = Some (p, q)"
  shows "s = p @ pat @ q"
  using assms
proof (induction s arbitrary: p)
  case (Cons c cs)
  show ?case
  proof (cases "rsplit_once pat cs")
    case None
    with Cons.prems have t: "take (length pat) (c # cs) = pat" "p = []" "q = drop (length pat) (c # cs)"
      by (auto split: if_splits)
    then show ?thesis using append_take_drop_id [of "length pat" "c # cs"] by simp
  next
    case (Some pq)
    with Cons.prems obtain p' where "rsplit_once pat cs = Some (p', q)" "p = c # p'"
      by (cases pq) auto
    with Cons.IH [of p'] show ?thesis by simp
  qed
qed simp

text \<open>
  A name without the separator, and without a colon at its start, that could join the separator
  before it.
\<close>

definition simple_name :: "string \<Rightarrow> bool" where
  "simple_name s = (rsplit_once ''::'' ('':'' @ s) = None)"

lemma parse_display_function_ident:
  "simple_name (fi_function f) \<Longrightarrow> parse_function_ident (display_function_ident f) = Some f"
  using rsplit_once_append [of "''::''" "fi_function f" "fi_module f"]
  by (cases f) (simp add: parse_function_ident_def display_function_ident_def simple_name_def)

lemma display_parse_function_ident:
  "parse_function_ident s = Some f \<Longrightarrow> display_function_ident f = s"
  by (auto simp: parse_function_ident_def display_function_ident_def dest: rsplit_onceD split: option.splits)

text \<open>
  The table is consistent when the import of a module has its name, and the alias of an imported
  module leads back to it and lists functions of that module only.
\<close>

definition ii_ok :: "import_info \<Rightarrow> bool" where
  "ii_ok t =
     ((\<forall>m i. ii_modules t m = Some i \<longrightarrow> mi_name i = m \<and> ii_aliases t (mi_alias i) = Some m) \<and>
      (\<forall>a fs f. ii_functions t a = Some fs \<longrightarrow> f \<in> fs \<longrightarrow> ii_aliases t a = Some (fi_module f)))"

lemma ii_ok_new [simp]: "ii_ok ii_new"
  by (simp add: ii_ok_def ii_new_def)

lemma ii_add_new_module:
  assumes "ii_ok t" "ii_modules t (fi_module f) = None" "ii_add H f t = Some t'"
  shows "\<exists>a. ii_ok t' \<and> ii_aliases t a = None \<and> ii_alias (fi_module f) t' = Some a \<and>
    ii_unalias a t' = Some (fi_module f) \<and> (\<exists>fs. ii_imported a t' = Some fs \<and> f \<in> fs) \<and>
    (\<forall>m. m \<noteq> fi_module f \<longrightarrow> ii_modules t' m = ii_modules t m)"
proof -
  let ?m = "fi_module f"
  let ?short = "case rsplit_once ''::'' ?m of None \<Rightarrow> ?m | Some (_, alias) \<Rightarrow> alias"
  define a where "a = (if ii_aliases t ?short \<noteq> None then H ?short else ?short)"
  from assms(2,3) have free: "ii_aliases t a = None"
    by (auto simp: ii_add_def Let_def a_def split: if_splits)
  have t': "t' = ii_add_function a f (t\<lparr>ii_aliases := (ii_aliases t)(a \<mapsto> ?m),
       ii_modules := (ii_modules t)(?m \<mapsto> \<lparr>mi_name = ?m, mi_alias = a\<rparr>)\<rparr>)"
    using assms(2,3) by (cases t) (auto simp: ii_add_def Let_def a_def split: if_splits)
  have nf: "fs = {}" if "ii_functions t a = Some fs" for fs
    using assms(1) that free unfolding ii_ok_def by fastforce
  have na: "mi_alias i \<noteq> a" if "ii_modules t m = Some i" for m i
    using assms(1) that free unfolding ii_ok_def by auto
  have nb: "b \<noteq> a" if "ii_functions t b = Some fs" "g \<in> fs" for b fs g
    using nf that by auto
  have fns: "ii_functions t' = (ii_functions t)(a \<mapsto> {f})"
    using nf by (auto simp: t' ii_add_function_def Let_def split: option.splits)
  have "ii_ok t'"
    using assms(1) na nb unfolding ii_ok_def fns
    by (auto simp: t' ii_add_function_def Let_def)
  then show ?thesis
    using free fns by (intro exI [of _ a])
      (auto simp: t' ii_alias_def ii_unalias_def ii_imported_def ii_add_function_def Let_def)
qed

text \<open>
  C37. Qualified names are read as they are written: a function name that does not contain the
  separator is parsed back from its text, and whatever is parsed has the text it came from.
  Importing the first function of a module gives the module an alias that was free, leads back to
  the module and lists the function, and no other import changes.
\<close>

theorem imports_resolve:
  shows "(simple_name (fi_function f) \<longrightarrow> parse_function_ident (display_function_ident f) = Some f)
    \<and> (parse_function_ident s = Some f \<longrightarrow> display_function_ident f = s)
    \<and> (ii_ok t \<and> \<not> ii_is_import (fi_module f) t \<and> ii_add H f t = Some t' \<longrightarrow>
      (\<exists>a. ii_ok t' \<and> ii_unalias a t = None \<and> ii_alias (fi_module f) t' = Some a \<and>
        ii_unalias a t' = Some (fi_module f) \<and> (\<exists>fs. ii_imported a t' = Some fs \<and> f \<in> fs) \<and>
        (\<forall>m. m \<noteq> fi_module f \<longrightarrow> ii_get m t' = ii_get m t)))"
proof -
  have "\<exists>a. ii_ok t' \<and> ii_unalias a t = None \<and> ii_alias (fi_module f) t' = Some a \<and>
        ii_unalias a t' = Some (fi_module f) \<and> (\<exists>fs. ii_imported a t' = Some fs \<and> f \<in> fs) \<and>
        (\<forall>m. m \<noteq> fi_module f \<longrightarrow> ii_get m t' = ii_get m t)"
    if "ii_ok t" "\<not> ii_is_import (fi_module f) t" "ii_add H f t = Some t'"
    using ii_add_new_module [OF that(1) _ that(3)] that(2)
    by (auto simp: ii_is_import_def ii_unalias_def ii_get_def)
  with parse_display_function_ident display_parse_function_ident show ?thesis by blast
qed

theorem imports_resolve_witness:
  "parse_function_ident ''std::math::u64::add'' = Some (FunctionIdent ''std::math::u64'' ''add'') \<and>
   display_function_ident (FunctionIdent ''std::math::u64'' ''add'') = ''std::math::u64::add'' \<and>
   (\<exists>t' a. ii_add (\<lambda>s. s) (FunctionIdent ''std::math::u64'' ''add'') ii_new = Some t' \<and>
      ii_alias ''std::math::u64'' t' = Some a \<and> ii_unalias a t' = Some ''std::math::u64'')"
proof (intro conjI)
  let ?f = "FunctionIdent ''std::math::u64'' ''add''"
  have "simple_name (fi_function ?f)" by (simp add: simple_name_def)
  from imports_resolve [THEN conjunct1, THEN mp, OF this]
  show p: "parse_function_ident ''std::math::u64::add'' = Some ?f"
    by (simp add: display_function_ident_def)
  show "display_function_ident ?f = ''std::math::u64::add''" by (rule imports_resolve [THEN conjunct2, THEN conjunct1, THEN mp, OF p])
  obtain t' where t': "ii_add (\<lambda>s. s) ?f ii_new = Some t'"
    by (simp add: ii_add_def ii_new_def Let_def)
  moreover have "\<not> ii_is_import (fi_module ?f) ii_new" by (simp add: ii_is_import_def ii_new_def)
  ultimately show "\<exists>t' a. ii_add (\<lambda>s. s) ?f ii_new = Some t' \<and>
      ii_alias ''std::math::u64'' t' = Some a \<and> ii_unalias a t' = Some ''std::math::u64''"
    using imports_resolve [THEN conjunct2, THEN conjunct2, of ii_new ?f "\<lambda>s. s" t'] ii_ok_new by auto
qed

text \<open>
  Where the imports go wrong.  Importing a second function of a module with a qualified name
  panics, since the alias is looked up under the full name.  A third module with the same last
  component panics whatever the hash is, since the clashing alias is hashed and not the qualified
  name.  An import whose alias is a proper suffix of the name is taken for an unaliased one, so it
  equals an import with another alias, and the line that is printed for it loses the alias.  A
  printed import is read back as the import of another module, with the keyword in its name.
\<close>

lemma import_defects:
  fixes H :: "string \<Rightarrow> string"
  shows "Option.bind (ii_add H (FunctionIdent ''std::u64'' ''add'') ii_new)
      (ii_add H (FunctionIdent ''std::u64'' ''sub'')) = None"
    and "Option.bind (Option.bind (ii_add H (FunctionIdent ''a::m'' ''f'') ii_new)
      (ii_add H (FunctionIdent ''b::m'' ''f''))) (ii_add H (FunctionIdent ''c::m'' ''f'')) = None"
    and "import_eq \<lparr>mi_name = ''std::u64'', mi_alias = ''u64''\<rparr> \<lparr>mi_name = ''std::u64'', mi_alias = ''64''\<rparr> \<and>
      display_import \<lparr>mi_name = ''std::u64'', mi_alias = ''64''\<rparr> = ''use.std::u64''"
    and "parse_import (display_import \<lparr>mi_name = ''std::u64'', mi_alias = ''x''\<rparr>) =
      Inr \<lparr>mi_name = ''use.std::u64'', mi_alias = ''x''\<rparr>"
proof -
  show "Option.bind (ii_add H (FunctionIdent ''std::u64'' ''add'') ii_new)
      (ii_add H (FunctionIdent ''std::u64'' ''sub'')) = None"
    by (simp add: ii_add_def ii_new_def Let_def ii_add_function_def)
  show "Option.bind (Option.bind (ii_add H (FunctionIdent ''a::m'' ''f'') ii_new)
      (ii_add H (FunctionIdent ''b::m'' ''f''))) (ii_add H (FunctionIdent ''c::m'' ''f'')) = None"
    by (simp add: ii_add_def ii_new_def Let_def ii_add_function_def bind_assert_that)
  show "import_eq \<lparr>mi_name = ''std::u64'', mi_alias = ''u64''\<rparr> \<lparr>mi_name = ''std::u64'', mi_alias = ''64''\<rparr> \<and>
      display_import \<lparr>mi_name = ''std::u64'', mi_alias = ''64''\<rparr> = ''use.std::u64''"
    by (simp add: import_eq_def is_aliased_def ends_with_def display_import_def)
  show "parse_import (display_import \<lparr>mi_name = ''std::u64'', mi_alias = ''x''\<rparr>) =
      Inr \<lparr>mi_name = ''use.std::u64'', mi_alias = ''x''\<rparr>"
    by (simp add: parse_import_def display_import_def is_aliased_def ends_with_def trim_def
        is_whitespace_def strip_prefix_def Let_def)
qed

end
