(* ===== verification/Modules.thy ===== *)
theory Modules
  imports HirFunc Globals Imports
begin

text \<open>
  Modules (hir/src/module.rs): the data segments, the global variables and the list of functions,
  with the rules for kernel modules, and the builder of modules and their functions.  A boxed
  function that is not in a list is detached by construction, so \<open>is_detached\<close> needs no state.  A
  cursor is the position of the function in the list; the null object is \<open>None\<close>.
\<close>

definition sig_is_public :: "signature \<Rightarrow> bool" where
  "sig_is_public s = (sig_linkage s = LkExternal)"

definition sig_is_private :: "signature \<Rightarrow> bool" where
  "sig_is_private s = (sig_linkage s = LkInternal)"

definition sig_is_kernel :: "signature \<Rightarrow> bool" where
  "sig_is_kernel s = (sig_cc s = CcKernel)"

definition hf_is_public :: "'f hir_function \<Rightarrow> bool" where
  "hf_is_public f = sig_is_public (hf_signature f)"

definition hf_is_kernel :: "'f hir_function \<Rightarrow> bool" where
  "hf_is_kernel f = sig_is_kernel (hf_signature f)"

text \<open>
  The imports are the values of a hash map, whose order is not specified: \<open>vals\<close> enumerates the
  values of a map.
\<close>

type_synonym import_values = "(function_ident \<rightharpoonup> external_function) \<Rightarrow> external_function list"

definition hf_imports :: "import_values \<Rightarrow> 'f hir_function \<Rightarrow> external_function list" where
  "hf_imports vals f = filter (\<lambda>ext. ef_id ext \<noteq> hf_id f) (vals (dfg_imports (hf_dfg f)))"

record 'f hir_module =
  hm_name :: ident
  hm_docs :: "string option"
  hm_segments :: segment_table
  hm_globals :: global_table
  hm_functions :: "'f hir_function list"
  hm_is_kernel :: bool

definition hm_make :: "ident \<Rightarrow> bool \<Rightarrow> 'f hir_module" where
  "hm_make name is_kernel =
     \<lparr>hm_name = name, hm_docs = None, hm_segments = [], hm_globals = gt_new ConflictNone,
      hm_functions = [], hm_is_kernel = is_kernel\<rparr>"

definition hm_new :: "ident \<Rightarrow> 'f hir_module" where
  "hm_new name = hm_make name False"

definition hm_new_kernel :: "ident \<Rightarrow> 'f hir_module" where
  "hm_new_kernel name = hm_make name True"

definition hm_declare_data_segment ::
  "nat \<Rightarrow> nat \<Rightarrow> constant_data \<Rightarrow> bool \<Rightarrow> 'f hir_module \<Rightarrow>
   (segment_error option \<times> 'f hir_module) option" where
  "hm_declare_data_segment offset size0 init readonly m =
     do { r \<leftarrow> st_declare offset size0 init readonly (hm_segments m);
          (case r of
             Inl e \<Rightarrow> Some (Some e, m)
           | Inr t \<Rightarrow> Some (None, m\<lparr>hm_segments := t\<rparr>)) }"

definition hm_declare_global_variable ::
  "ident \<Rightarrow> hir_type \<Rightarrow> linkage \<Rightarrow> constant_data option \<Rightarrow> 'f hir_module \<Rightarrow>
   ((global_error + global_variable) \<times> 'f hir_module) option" where
  "hm_declare_global_variable name ty linkage init m =
     do { (r, t) \<leftarrow> gt_declare name ty linkage init (hm_globals m);
          Some (r, m\<lparr>hm_globals := t\<rparr>) }"

definition hm_set_global_initializer ::
  "global_variable \<Rightarrow> constant_data \<Rightarrow> 'f hir_module \<Rightarrow> (global_error option \<times> 'f hir_module) option" where
  "hm_set_global_initializer gv init m =
     do { (r, t) \<leftarrow> gt_set_initializer gv init (hm_globals m);
          Some (r, m\<lparr>hm_globals := t\<rparr>) }"

definition hm_global :: "global_variable \<Rightarrow> 'f hir_module \<Rightarrow> gv_data option" where
  "hm_global gv m = gt_get gv (hm_globals m)"

text \<open>\<open>find_global\<close>: the outer option is the panic of a table whose names are stale.\<close>

definition hm_find_global :: "ident \<Rightarrow> 'f hir_module \<Rightarrow> gv_data option option" where
  "hm_find_global name m =
     (case gt_find name (hm_globals m) of
        None \<Rightarrow> Some None
      | Some gv \<Rightarrow> do { d \<leftarrow> gt_get gv (hm_globals m); Some (Some d) })"

section \<open>The functions of a module\<close>

fun cursor_from :: "ident \<Rightarrow> 'f hir_function list \<Rightarrow> nat \<Rightarrow> nat option" where
  "cursor_from n [] k = None"
| "cursor_from n (f # fs) k =
     (if fi_function (hf_id f) = n then Some k else cursor_from n fs (Suc k))"

definition hm_cursor_at :: "ident \<Rightarrow> 'f hir_module \<Rightarrow> nat option" where
  "hm_cursor_at n m = cursor_from n (hm_functions m) 0"

definition hm_function :: "ident \<Rightarrow> 'f hir_module \<Rightarrow> 'f hir_function option" where
  "hm_function n m = map_option (\<lambda>k. hm_functions m ! k) (hm_cursor_at n m)"

definition hm_contains :: "ident \<Rightarrow> 'f hir_module \<Rightarrow> bool" where
  "hm_contains n m = (hm_function n m \<noteq> None)"

text \<open>\<open>assert_valid_function!\<close>.\<close>

definition assert_valid_function :: "ident \<Rightarrow> bool \<Rightarrow> 'f hir_function \<Rightarrow> unit option" where
  "assert_valid_function name is_kernel f =
     do { assert_that (name = fi_module (hf_id f));
          if hf_is_kernel f then assert_that is_kernel
          else assert_that (\<not> (is_kernel \<and> hf_is_public f)) }"

text \<open>The insertions at a cursor.\<close>

definition cursor_insert_before :: "nat option \<Rightarrow> 'a \<Rightarrow> 'a list \<Rightarrow> 'a list" where
  "cursor_insert_before c x xs =
     (case c of None \<Rightarrow> xs @ [x] | Some k \<Rightarrow> take k xs @ x # drop k xs)"

definition cursor_insert_after :: "nat option \<Rightarrow> 'a \<Rightarrow> 'a list \<Rightarrow> 'a list" where
  "cursor_insert_after c x xs =
     (case c of None \<Rightarrow> x # xs | Some k \<Rightarrow> take (Suc k) xs @ x # drop (Suc k) xs)"

definition mc_insert_before :: "nat option \<Rightarrow> 'f hir_function \<Rightarrow> 'f hir_module \<Rightarrow> 'f hir_module option" where
  "mc_insert_before c f m =
     do { assert_valid_function (hm_name m) (hm_is_kernel m) f;
          Some (m\<lparr>hm_functions := cursor_insert_before c f (hm_functions m)\<rparr>) }"

definition mc_insert_after :: "nat option \<Rightarrow> 'f hir_function \<Rightarrow> 'f hir_module \<Rightarrow> 'f hir_module option" where
  "mc_insert_after c f m =
     do { assert_valid_function (hm_name m) (hm_is_kernel m) f;
          Some (m\<lparr>hm_functions := cursor_insert_after c f (hm_functions m)\<rparr>) }"

definition mc_move_next :: "nat option \<Rightarrow> 'f hir_module \<Rightarrow> nat option" where
  "mc_move_next c m =
     (let k = (case c of None \<Rightarrow> 0 | Some k \<Rightarrow> Suc k) in
      if k < length (hm_functions m) then Some k else None)"

definition mc_move_prev :: "nat option \<Rightarrow> 'f hir_module \<Rightarrow> nat option" where
  "mc_move_prev c m =
     (case c of
        None \<Rightarrow> if hm_functions m = [] then None else Some (length (hm_functions m) - 1)
      | Some k \<Rightarrow> if k = 0 then None else Some (k - 1))"

definition mc_remove :: "nat option \<Rightarrow> 'f hir_module \<Rightarrow> ('f hir_function option \<times> 'f hir_module)" where
  "mc_remove c m =
     (case c of
        None \<Rightarrow> (None, m)
      | Some k \<Rightarrow> (Some (hm_functions m ! k),
          m\<lparr>hm_functions := take k (hm_functions m) @ drop (Suc k) (hm_functions m)\<rparr>))"

definition hm_unlink :: "ident \<Rightarrow> 'f hir_module \<Rightarrow> ('f hir_function \<times> 'f hir_module) option" where
  "hm_unlink n m =
     (case mc_remove (hm_cursor_at n m) m of (Some f, m) \<Rightarrow> Some (f, m) | (None, _) \<Rightarrow> None)"

text \<open>The error of the insertions is the identifier of the function that has the name.\<close>

definition hm_push ::
  "'f hir_function \<Rightarrow> 'f hir_module \<Rightarrow> (function_ident option \<times> 'f hir_module) option" where
  "hm_push f m =
     do { assert_valid_function (hm_name m) (hm_is_kernel m) f;
          (case hm_function (fi_function (hf_id f)) m of
             Some prev \<Rightarrow> Some (Some (hf_id prev), m)
           | None \<Rightarrow> Some (None, m\<lparr>hm_functions := hm_functions m @ [f]\<rparr>)) }"

definition hm_insert_before ::
  "'f hir_function \<Rightarrow> ident \<Rightarrow> 'f hir_module \<Rightarrow> (function_ident option \<times> 'f hir_module) option" where
  "hm_insert_before f before m =
     do { assert_valid_function (hm_name m) (hm_is_kernel m) f;
          (case hm_function (fi_function (hf_id f)) m of
             Some prev \<Rightarrow> Some (Some (hf_id prev), m)
           | None \<Rightarrow> do { m \<leftarrow> mc_insert_before (hm_cursor_at before m) f m; Some (None, m) }) }"

definition hm_insert_after ::
  "'f hir_function \<Rightarrow> ident \<Rightarrow> 'f hir_module \<Rightarrow> (function_ident option \<times> 'f hir_module) option" where
  "hm_insert_after f after m =
     do { assert_valid_function (hm_name m) (hm_is_kernel m) f;
          (case hm_function (fi_function (hf_id f)) m of
             Some prev \<Rightarrow> Some (Some (hf_id prev), m)
           | None \<Rightarrow>
               (case hm_cursor_at after m of
                  None \<Rightarrow> do { m \<leftarrow> mc_insert_before None f m; Some (None, m) }
                | Some k \<Rightarrow> do { m \<leftarrow> mc_insert_after (Some k) f m; Some (None, m) })) }"

definition hm_imports :: "import_values \<Rightarrow> (string \<Rightarrow> string) \<Rightarrow> 'f hir_module \<Rightarrow> import_info option" where
  "hm_imports vals H m =
     (let locals = map hf_id (hm_functions m);
          used = concat (map (\<lambda>f. map ef_id (hf_imports vals f)) (hm_functions m)) in
      fold (\<lambda>f r. Option.bind r (ii_add H f)) (filter (\<lambda>f. f \<notin> set locals) used) (Some ii_new))"

section \<open>The builders\<close>

definition mb_with_docs :: "string \<Rightarrow> 'f hir_module \<Rightarrow> 'f hir_module" where
  "mb_with_docs docs m = m\<lparr>hm_docs := Some docs\<rparr>"

record 'f module_function_builder =
  mfb_function :: "'f hir_function"
  mfb_position :: block

text \<open>Outer \<open>None\<close>: a panic of \<open>Function::new\<close>; \<open>Inl\<close>: the name is taken.\<close>

definition mb_function ::
  "ident \<Rightarrow> signature \<Rightarrow> 'f hir_module \<Rightarrow> (function_ident + 'f module_function_builder) option" where
  "mb_function name sig m =
     (case hm_function name m of
        Some prev \<Rightarrow> Some (Inl (hf_id prev))
      | None \<Rightarrow> do {
          f \<leftarrow> new_hir_function (FunctionIdent (hm_name m) name) sig;
          Some (Inr \<lparr>mfb_function = f, mfb_position = dfg_entry (hf_dfg f)\<rparr>) })"

datatype invalid_function =
    InvalidLinkage linkage | PrivateKernelFunction | KernelConvOutsideKernel | PublicNotKernelConv

definition mfb_build ::
  "'f module_function_builder \<Rightarrow> 'f hir_module \<Rightarrow> (invalid_function + function_ident) \<times> 'f hir_module" where
  "mfb_build b m =
     (let f = mfb_function b; sig = hf_signature f in
      if sig_linkage sig = LkOdr then (Inl (InvalidLinkage LkOdr), m)
      else if sig_cc sig = CcKernel \<and> hm_is_kernel m \<and> \<not> sig_is_public sig
        then (Inl PrivateKernelFunction, m)
      else if sig_cc sig = CcKernel \<and> \<not> hm_is_kernel m then (Inl KernelConvOutsideKernel, m)
      else if sig_cc sig \<noteq> CcKernel \<and> hm_is_kernel m \<and> sig_is_public sig
        then (Inl PublicNotKernelConv, m)
      else (Inr (hf_id f), m\<lparr>hm_functions := hm_functions m @ [f]\<rparr>))"

definition mfb_switch_to_block :: "block \<Rightarrow> 'f module_function_builder \<Rightarrow> 'f module_function_builder" where
  "mfb_switch_to_block b fb = fb\<lparr>mfb_position := b\<rparr>"

section \<open>Well-formed modules\<close>

text \<open>
  The functions of a module have its name, distinct names of their own, and follow the rules of
  kernel modules.
\<close>

definition hm_ok :: "'f hir_module \<Rightarrow> bool" where
  "hm_ok m =
     (distinct (map (\<lambda>f. fi_function (hf_id f)) (hm_functions m)) \<and>
      (\<forall>f \<in> set (hm_functions m). assert_valid_function (hm_name m) (hm_is_kernel m) f = Some ()) \<and>
      st_valid (hm_segments m) \<and> gt_ok (hm_globals m))"

lemma cursor_from_Some:
  "cursor_from n fs j = Some k \<Longrightarrow>
     j \<le> k \<and> k < j + length fs \<and> fi_function (hf_id (fs ! (k - j))) = n"
proof (induction n fs j rule: cursor_from.induct)
  case (2 n f fs j)
  show ?case
  proof (cases "fi_function (hf_id f) = n")
    case False
    with 2 have "Suc j \<le> k \<and> k < Suc j + length fs \<and> fi_function (hf_id (fs ! (k - Suc j))) = n"
      by simp
    moreover from this have "k - j = Suc (k - Suc j)" by linarith
    ultimately show ?thesis by simp
  qed (use 2 in simp)
qed simp

lemma cursor_from_None: "cursor_from n fs j = None \<longleftrightarrow> n \<notin> (\<lambda>f. fi_function (hf_id f)) ` set fs"
  by (induction n fs j rule: cursor_from.induct) auto

lemma hm_cursor_at_Some:
  "hm_cursor_at n m = Some k \<Longrightarrow>
     k < length (hm_functions m) \<and> fi_function (hf_id (hm_functions m ! k)) = n"
  using cursor_from_Some [of n "hm_functions m" 0 k] by (simp add: hm_cursor_at_def)

lemma hm_cursor_at_None:
  "hm_cursor_at n m = None \<longleftrightarrow> n \<notin> (\<lambda>f. fi_function (hf_id f)) ` set (hm_functions m)"
  by (simp add: hm_cursor_at_def cursor_from_None)

lemma hm_function_None:
  "hm_function n m = None \<longleftrightarrow> n \<notin> (\<lambda>f. fi_function (hf_id f)) ` set (hm_functions m)"
  by (simp add: hm_function_def hm_cursor_at_None)

lemma hm_function_SomeD:
  "hm_function n m = Some f \<Longrightarrow> f \<in> set (hm_functions m) \<and> fi_function (hf_id f) = n"
  by (auto simp: hm_function_def dest: hm_cursor_at_Some)

lemma hm_function_unique:
  assumes "distinct (map (\<lambda>f. fi_function (hf_id f)) (hm_functions m))" "f \<in> set (hm_functions m)"
  shows "hm_function (fi_function (hf_id f)) m = Some f"
proof -
  have "hm_function (fi_function (hf_id f)) m \<noteq> None"
    using assms(2) by (auto simp: hm_function_None)
  then obtain g where g: "hm_function (fi_function (hf_id f)) m = Some g" by auto
  with hm_function_SomeD [OF g] assms show ?thesis
    by (auto simp: distinct_map dest: inj_onD)
qed

lemma set_cursor_insert [simp]:
  "set (cursor_insert_before c x xs) = insert x (set xs)"
  "set (cursor_insert_after c x xs) = insert x (set xs)"
  by (auto simp: cursor_insert_before_def cursor_insert_after_def split: option.splits
      dest: in_set_takeD in_set_dropD)
    (metis append_take_drop_id UnE set_append)+

lemma map_cursor_insert:
  "map g (cursor_insert_before c x xs) = cursor_insert_before c (g x) (map g xs)"
  "map g (cursor_insert_after c x xs) = cursor_insert_after c (g x) (map g xs)"
  by (simp_all add: cursor_insert_before_def cursor_insert_after_def take_map drop_map
      split: option.splits)

lemma distinct_cursor_insert:
  "distinct xs \<Longrightarrow> x \<notin> set xs \<Longrightarrow> distinct (cursor_insert_before c x xs)"
  "distinct xs \<Longrightarrow> x \<notin> set xs \<Longrightarrow> distinct (cursor_insert_after c x xs)"
proof -
  have "mset (cursor_insert_before c x xs) = mset (x # xs)" "mset (cursor_insert_after c x xs) = mset (x # xs)"
    by (simp_all add: cursor_insert_before_def cursor_insert_after_def split: option.splits)
      (metis append_take_drop_id mset_append union_code)+
  then show "distinct xs \<Longrightarrow> x \<notin> set xs \<Longrightarrow> distinct (cursor_insert_before c x xs)"
    "distinct xs \<Longrightarrow> x \<notin> set xs \<Longrightarrow> distinct (cursor_insert_after c x xs)"
    by (metis distinct.simps(2) mset_eq_imp_distinct_iff)+
qed

lemma hm_cursor_split:
  assumes "hm_cursor_at n m = Some k"
  obtains us g vs where "hm_functions m = us @ g # vs" "length us = k" "fi_function (hf_id g) = n"
  using hm_cursor_at_Some [OF assms] id_take_nth_drop [of k "hm_functions m"]
  by (metis length_take min.absorb4)

lemma hm_ok_insert:
  assumes "hm_ok m" "assert_valid_function (hm_name m) (hm_is_kernel m) f = Some ()"
    and "hm_function (fi_function (hf_id f)) m = None"
    and "fs = cursor_insert_before c f (hm_functions m) \<or> fs = cursor_insert_after c f (hm_functions m)"
  shows "hm_ok (m\<lparr>hm_functions := fs\<rparr>)"
proof -
  have "distinct (map (\<lambda>f. fi_function (hf_id f)) fs)"
    using assms(1,3,4) by (auto simp: hm_ok_def hm_function_None map_cursor_insert intro!: distinct_cursor_insert)
  moreover have "set fs = insert f (set (hm_functions m))" using assms(4) by auto
  ultimately show ?thesis using assms(1,2) by (simp add: hm_ok_def)
qed

lemma hm_push_ok:
  assumes "hm_ok m" "hm_push f m = Some (None, m')"
  shows "hm_ok m'" "m' = m\<lparr>hm_functions := hm_functions m @ [f]\<rparr>"
  using assms hm_ok_insert [OF assms(1), of f "hm_functions m @ [f]" None]
  by (auto simp: hm_push_def cursor_insert_before_def split: option.splits)

lemma hm_insert_before_ok:
  assumes "hm_ok m" "hm_insert_before f b m = Some (None, m')"
  shows "hm_ok m'" "m' = m\<lparr>hm_functions := cursor_insert_before (hm_cursor_at b m) f (hm_functions m)\<rparr>"
  using assms hm_ok_insert [OF assms(1), of f _ "hm_cursor_at b m"]
  by (auto simp: hm_insert_before_def mc_insert_before_def split: option.splits)

lemma hm_insert_after_ok:
  assumes "hm_ok m" "hm_insert_after f a m = Some (None, m')"
  shows "hm_ok m'" "m' = m\<lparr>hm_functions := (case hm_cursor_at a m of
      None \<Rightarrow> hm_functions m @ [f] | Some k \<Rightarrow> cursor_insert_after (Some k) f (hm_functions m))\<rparr>"
proof -
  from assms(2) have f: "assert_valid_function (hm_name m) (hm_is_kernel m) f = Some ()"
    "hm_function (fi_function (hf_id f)) m = None"
    and m': "m' = m\<lparr>hm_functions := (case hm_cursor_at a m of
      None \<Rightarrow> cursor_insert_before None f (hm_functions m)
    | Some k \<Rightarrow> cursor_insert_after (Some k) f (hm_functions m))\<rparr>"
    by (auto simp: hm_insert_after_def mc_insert_before_def mc_insert_after_def split: option.splits)
  then show "m' = m\<lparr>hm_functions := (case hm_cursor_at a m of
      None \<Rightarrow> hm_functions m @ [f] | Some k \<Rightarrow> cursor_insert_after (Some k) f (hm_functions m))\<rparr>"
    by (simp add: cursor_insert_before_def split: option.splits)
  show "hm_ok m'" unfolding m'
    by (rule hm_ok_insert [OF assms(1) f, where c = "hm_cursor_at a m"]) (simp split: option.splits)
qed

lemma hm_unlink_split:
  assumes "hm_unlink n m = Some (f, m')"
  obtains us vs where "hm_functions m = us @ f # vs" "fi_function (hf_id f) = n"
    "m' = m\<lparr>hm_functions := us @ vs\<rparr>"
proof -
  from assms obtain k where k: "hm_cursor_at n m = Some k"
    by (auto simp: hm_unlink_def mc_remove_def split: option.splits)
  then obtain us g vs where s: "hm_functions m = us @ g # vs" "length us = k" "fi_function (hf_id g) = n"
    by (rule hm_cursor_split)
  with assms k have "g = f" "m' = m\<lparr>hm_functions := us @ vs\<rparr>"
    by (auto simp: hm_unlink_def mc_remove_def nth_append)
  with s that show thesis by blast
qed

lemma hm_unlink_ok:
  assumes "hm_ok m" "hm_unlink n m = Some (f, m')"
  obtains us vs where "hm_functions m = us @ f # vs" "fi_function (hf_id f) = n"
    "m' = m\<lparr>hm_functions := us @ vs\<rparr>" "hm_ok m'"
proof -
  obtain us vs where s: "hm_functions m = us @ f # vs" "fi_function (hf_id f) = n"
    "m' = m\<lparr>hm_functions := us @ vs\<rparr>" by (rule hm_unlink_split [OF assms(2)])
  moreover have "hm_ok m'" using assms(1) s unfolding hm_ok_def by auto
  ultimately show thesis by (rule that)
qed

text \<open>
  C38. Inserting functions into a module keeps its rules: the names stay distinct, every function
  belongs to the module, and the rules for kernel modules hold.  A function goes to the end or
  beside the named function, the others keep their order; it is refused, without a change, exactly
  when its name is taken; and \<open>unlink\<close> takes out the function of that name.
\<close>

theorem module_functions:
  assumes "hm_ok m"
  shows "(hm_push f m = Some (None, m') \<longrightarrow> hm_ok m' \<and> hm_functions m' = hm_functions m @ [f])
    \<and> (hm_insert_before f b m = Some (None, m') \<longrightarrow> hm_ok m' \<and>
      (\<exists>us vs. hm_functions m = us @ vs \<and> hm_functions m' = us @ f # vs \<and>
        (if hm_contains b m then vs \<noteq> [] \<and> fi_function (hf_id (hd vs)) = b else vs = [])))
    \<and> (hm_insert_after f a m = Some (None, m') \<longrightarrow> hm_ok m' \<and>
      (\<exists>us vs. hm_functions m = us @ vs \<and> hm_functions m' = us @ f # vs \<and>
        (if hm_contains a m then us \<noteq> [] \<and> fi_function (hf_id (last us)) = a else vs = [])))
    \<and> (hm_push f m = Some (Some e, m') \<longrightarrow>
      m' = m \<and> e \<in> hf_id ` set (hm_functions m) \<and> fi_function e = fi_function (hf_id f))
    \<and> (hm_unlink n m = Some (f, m') \<longrightarrow> hm_ok m' \<and> fi_function (hf_id f) = n \<and>
      (\<exists>us vs. hm_functions m = us @ f # vs \<and> hm_functions m' = us @ vs))"
proof -
  have push: "hm_ok m' \<and> hm_functions m' = hm_functions m @ [f]" if "hm_push f m = Some (None, m')"
    using hm_push_ok [OF assms that] by simp
  have before: "hm_ok m' \<and>
      (\<exists>us vs. hm_functions m = us @ vs \<and> hm_functions m' = us @ f # vs \<and>
        (if hm_contains b m then vs \<noteq> [] \<and> fi_function (hf_id (hd vs)) = b else vs = []))"
    if "hm_insert_before f b m = Some (None, m')"
  proof (cases "hm_cursor_at b m")
    case None
    with hm_insert_before_ok [OF assms that] show ?thesis
      by (simp add: cursor_insert_before_def hm_contains_def hm_function_def)
  next
    case (Some k)
    then obtain us g vs where "hm_functions m = us @ g # vs" "length us = k" "fi_function (hf_id g) = b"
      by (rule hm_cursor_split)
    with hm_insert_before_ok [OF assms that] Some show ?thesis
      by (intro conjI exI [of _ us] exI [of _ "g # vs"])
        (auto simp: cursor_insert_before_def hm_contains_def hm_function_def)
  qed
  have after: "hm_ok m' \<and>
      (\<exists>us vs. hm_functions m = us @ vs \<and> hm_functions m' = us @ f # vs \<and>
        (if hm_contains a m then us \<noteq> [] \<and> fi_function (hf_id (last us)) = a else vs = []))"
    if "hm_insert_after f a m = Some (None, m')"
  proof (cases "hm_cursor_at a m")
    case None
    with hm_insert_after_ok [OF assms that] show ?thesis
      by (simp add: hm_contains_def hm_function_def)
  next
    case (Some k)
    then obtain us g vs where "hm_functions m = us @ g # vs" "length us = k" "fi_function (hf_id g) = a"
      by (rule hm_cursor_split)
    with hm_insert_after_ok [OF assms that] Some show ?thesis
      by (intro conjI exI [of _ "us @ [g]"] exI [of _ vs])
        (auto simp: cursor_insert_after_def hm_contains_def hm_function_def)
  qed
  have refused: "hm_push f m = Some (Some e, m') \<Longrightarrow>
      m' = m \<and> e \<in> hf_id ` set (hm_functions m) \<and> fi_function e = fi_function (hf_id f)"
    by (auto simp: hm_push_def dest: hm_function_SomeD split: option.splits)
  have unlink: "hm_ok m' \<and> fi_function (hf_id f) = n \<and>
      (\<exists>us vs. hm_functions m = us @ f # vs \<and> hm_functions m' = us @ vs)" if "hm_unlink n m = Some (f, m')"
    by (rule hm_unlink_ok [OF assms that]) auto
  from push before after refused unlink show ?thesis by blast
qed

definition no_params :: "call_conv \<Rightarrow> linkage \<Rightarrow> signature" where
  "no_params cc lk = \<lparr>sig_params = [], sig_results = [], sig_cc = cc, sig_linkage = lk\<rparr>"

definition bare_function :: "ident \<Rightarrow> ident \<Rightarrow> call_conv \<Rightarrow> linkage \<Rightarrow> 'f hir_function" where
  "bare_function m n cc lk = \<lparr>hf_id = FunctionIdent m n, hf_signature = no_params cc lk, hf_dfg = default_dfg\<rparr>"

lemma bare_function_sel [simp]:
  "hf_id (bare_function m n cc lk) = FunctionIdent m n"
  "hf_signature (bare_function m n cc lk) = no_params cc lk"
  "hf_dfg (bare_function m n cc lk) = default_dfg"
  by (simp_all add: bare_function_def)

lemma hm_ok_new: "hm_ok (hm_new n)"
  by (simp add: hm_ok_def hm_new_def hm_make_def)

lemmas module_eval = hm_push_def assert_valid_function_def hf_is_kernel_def hf_is_public_def
  sig_is_kernel_def sig_is_public_def no_params_def hm_function_def hm_cursor_at_def

theorem module_functions_witness:
  "\<exists>m1 m2 us vs. hm_push (bare_function ''m'' ''f'' CcFast LkExternal :: int hir_function) (hm_new ''m'') = Some (None, m1) \<and>
     hm_insert_before (bare_function ''m'' ''g'' CcFast LkInternal) ''f'' m1 = Some (None, m2) \<and>
     hm_ok m2 \<and> hm_functions m1 = us @ vs \<and>
     hm_functions m2 = us @ bare_function ''m'' ''g'' CcFast LkInternal # vs \<and> fi_function (hf_id (hd vs)) = ''f'' \<and>
   (\<exists>f m3. hm_unlink ''g'' m2 = Some (f, m3) \<and> hm_ok m3)"
proof -
  let ?f = "bare_function ''m'' ''f'' CcFast LkExternal :: int hir_function"
  let ?g = "bare_function ''m'' ''g'' CcFast LkInternal :: int hir_function"
  obtain m1 where m1: "hm_push ?f (hm_new ''m'') = Some (None, m1)"
    by (simp add: module_eval hm_new_def hm_make_def)
  then have k: "hm_ok m1" "hm_functions m1 = [?f]" "hm_name m1 = ''m''" "\<not> hm_is_kernel m1"
    using module_functions [OF hm_ok_new, THEN conjunct1, THEN mp, OF m1] by (auto simp: module_eval hm_new_def hm_make_def)
  obtain m2 where m2: "hm_insert_before ?g ''f'' m1 = Some (None, m2)"
    using k(2-4) by (simp add: module_eval hm_insert_before_def mc_insert_before_def)
  from module_functions [OF k(1), THEN conjunct2, THEN conjunct1, THEN mp, OF m2] k(2) obtain us vs where v: "hm_ok m2" "hm_functions m1 = us @ vs"
    "hm_functions m2 = us @ ?g # vs" "fi_function (hf_id (hd vs)) = ''f''" "vs \<noteq> []"
    by (auto simp: module_eval hm_contains_def)
  from v k(2) have "us = []" "vs = [?f]" by (auto simp: Cons_eq_append_conv)
  with v obtain g m3 where m3: "hm_unlink ''g'' m2 = Some (g, m3)"
    by (simp add: hm_unlink_def mc_remove_def hm_cursor_at_def)
  with module_functions [OF v(1), THEN conjunct2, THEN conjunct2, THEN conjunct2, THEN conjunct2, THEN mp, OF m3] v m1 m2 show ?thesis by blast
qed

definition one_param :: "hir_type \<Rightarrow> signature" where
  "one_param ty = \<lparr>sig_params = [\<lparr>ap_ty = ty, ap_purpose = ApDefault, ap_extension = AeNone\<rparr>],
     sig_results = [], sig_cc = CcFast, sig_linkage = LkExternal\<rparr>"

text \<open>
  Two gaps in the checks.  A function builder checks the name when the function is begun and
  not when it is built, so two functions of one name get into a module when they are built one
  inside the other.  And the equality of signatures compares only the numbers of parameters, so
  a second import of a function with other parameter types is accepted.
\<close>

lemma module_defects:
  fixes m :: "'f hir_module"
  shows "\<exists>b b' m1 m2. mb_function ''f'' (no_params CcFast LkExternal) (hm_new ''m'' :: 'f hir_module) = Some (Inr b) \<and>
      mb_function ''f'' (no_params CcFast LkExternal) (hm_new ''m'' :: 'f hir_module) = Some (Inr b') \<and>
      mfb_build b' (hm_new ''m'') = (Inr (FunctionIdent ''m'' ''f''), m1) \<and>
      mfb_build b m1 = (Inr (FunctionIdent ''m'' ''f''), m2) \<and>
      map hf_id (hm_functions m2) = [FunctionIdent ''m'' ''f'', FunctionIdent ''m'' ''f'']"
    and "\<exists>d. import_function ''m'' ''f'' (one_param TyU8) (default_dfg :: 'f dfg) =
        (Inr (FunctionIdent ''m'' ''f''), d) \<and>
      import_function ''m'' ''f'' (one_param TyU64) d = (Inr (FunctionIdent ''m'' ''f''), d)"
proof -
  have new: "\<exists>f :: 'f hir_function. new_hir_function (FunctionIdent ''m'' ''f'') (no_params CcFast LkExternal) = Some f \<and>
      hf_id f = FunctionIdent ''m'' ''f'' \<and> hf_signature f = no_params CcFast LkExternal"
    by (simp add: new_hir_function_def no_params_def Let_def)
  then obtain f :: "'f hir_function" where f: "new_hir_function (FunctionIdent ''m'' ''f'') (no_params CcFast LkExternal) = Some f"
    "hf_id f = FunctionIdent ''m'' ''f''" "hf_signature f = no_params CcFast LkExternal" by blast
  then have "mb_function ''f'' (no_params CcFast LkExternal) (hm_new ''m'' :: 'f hir_module) =
      Some (Inr \<lparr>mfb_function = f, mfb_position = dfg_entry (hf_dfg f)\<rparr>)"
    by (simp add: mb_function_def hm_new_def hm_make_def module_eval)
  then show "\<exists>b b' m1 m2. mb_function ''f'' (no_params CcFast LkExternal) (hm_new ''m'' :: 'f hir_module) = Some (Inr b) \<and>
      mb_function ''f'' (no_params CcFast LkExternal) (hm_new ''m'' :: 'f hir_module) = Some (Inr b') \<and>
      mfb_build b' (hm_new ''m'') = (Inr (FunctionIdent ''m'' ''f''), m1) \<and>
      mfb_build b m1 = (Inr (FunctionIdent ''m'' ''f''), m2) \<and>
      map hf_id (hm_functions m2) = [FunctionIdent ''m'' ''f'', FunctionIdent ''m'' ''f'']"
    using f by (simp add: mfb_build_def Let_def hm_new_def hm_make_def no_params_def sig_is_public_def)
  show "\<exists>d. import_function ''m'' ''f'' (one_param TyU8) (default_dfg :: 'f dfg) =
        (Inr (FunctionIdent ''m'' ''f''), d) \<and>
      import_function ''m'' ''f'' (one_param TyU64) d = (Inr (FunctionIdent ''m'' ''f''), d)"
    by (simp add: import_function_def Let_def default_dfg_def signature_eq_def one_param_def)
qed

end
