(* ===== verification/Linker.thy ===== *)
theory Linker
  imports Modules
begin

text \<open>
  Programs and the linker (hir/src/program/mod.rs and linker.rs).  The call graph and the graph of
  global symbols are directed graphs of an external crate (petgraph): their operations are a
  record, an argument of every definition that uses them, and the locale \<open>digraph\<close> states what
  the crate documents.  Graphs by lists of nodes and edges satisfy it.

  The map of the pending modules is hashed and only used by key.  The program keeps its modules
  in a search tree by name, here a map.  After an error of \<open>add\<close> or \<open>link\<close> the linker is dropped.
\<close>

section \<open>Directed graphs\<close>

record ('n, 'g) graph_ops =
  go_new :: 'g
  go_add_node :: "'n \<Rightarrow> 'g \<Rightarrow> 'g"
  go_add_edge :: "'n \<Rightarrow> 'n \<Rightarrow> 'g \<Rightarrow> 'g"
  go_nodes :: "'g \<Rightarrow> 'n list"
  go_incoming :: "'g \<Rightarrow> 'n \<Rightarrow> 'n list"
  go_toposort :: "'g \<Rightarrow> 'n list option"
  go_back_edge :: "'g \<Rightarrow> ('n \<times> 'n) option"

definition edges_of :: "('n, 'g) graph_ops \<Rightarrow> 'g \<Rightarrow> ('n \<times> 'n) set" where
  "edges_of O' g = {(a, b). a \<in> set (go_incoming O' g b)}"

locale digraph =
  fixes O' :: "('n, 'g) graph_ops"
  assumes nodes_new: "set (go_nodes O' (go_new O')) = {}"
    and incoming_new: "set (go_incoming O' (go_new O') b) = {}"
    and nodes_add_node: "set (go_nodes O' (go_add_node O' n g)) = insert n (set (go_nodes O' g))"
    and incoming_add_node: "set (go_incoming O' (go_add_node O' n g) b) = set (go_incoming O' g b)"
    and nodes_add_edge: "set (go_nodes O' (go_add_edge O' a b g)) = {a, b} \<union> set (go_nodes O' g)"
    and incoming_add_edge: "set (go_incoming O' (go_add_edge O' a b g) c) =
      (if c = b then {a} else {}) \<union> set (go_incoming O' g c)"
    and toposort_None: "go_toposort O' g = None \<longleftrightarrow> \<not> acyclic (edges_of O' g)"
    and toposort_Some: "go_toposort O' g = Some xs \<Longrightarrow> distinct xs \<and> set xs = set (go_nodes O' g) \<and>
      (\<forall>i j. i < length xs \<longrightarrow> j < length xs \<longrightarrow> (xs ! i, xs ! j) \<in> edges_of O' g \<longrightarrow> i < j)"
    and back_edge_None: "go_back_edge O' g = None \<longleftrightarrow> acyclic (edges_of O' g)"
    and back_edge_Some: "go_back_edge O' g = Some (a, b) \<Longrightarrow> (a, b) \<in> edges_of O' g"
begin

lemma edges_new: "edges_of O' (go_new O') = {}"
  by (simp add: edges_of_def incoming_new)

lemma edges_add_node: "edges_of O' (go_add_node O' n g) = edges_of O' g"
  by (simp add: edges_of_def incoming_add_node)

lemma edges_add_edge: "edges_of O' (go_add_edge O' a b g) = insert (a, b) (edges_of O' g)"
  by (auto simp: edges_of_def incoming_add_edge split: if_splits)

lemma toposort_or_back_edge:
  "go_toposort O' g = None \<Longrightarrow> \<exists>a b. go_back_edge O' g = Some (a, b)"
  using toposort_None back_edge_None by fastforce

lemmas graph_simps = nodes_new nodes_add_node nodes_add_edge edges_new edges_add_node edges_add_edge

end

section \<open>Programs\<close>

record 'f program =
  pg_modules :: "ident \<rightharpoonup> 'f hir_module"
  pg_entrypoint :: "function_ident option"
  pg_segments :: segment_table
  pg_globals :: global_table

definition pg_new :: "'f program" where
  "pg_new = \<lparr>pg_modules = Map.empty, pg_entrypoint = None, pg_segments = [],
     pg_globals = gt_new ConflictRename\<rparr>"

definition has_entrypoint :: "'f program \<Rightarrow> bool" where
  "has_entrypoint p = (pg_entrypoint p = None)"

definition is_executable :: "'f program \<Rightarrow> bool" where
  "is_executable p = has_entrypoint p"

definition pg_contains :: "ident \<Rightarrow> 'f program \<Rightarrow> bool" where
  "pg_contains name p = (pg_modules p name \<noteq> None)"

definition pg_signature :: "function_ident \<Rightarrow> 'f program \<Rightarrow> signature option" where
  "pg_signature f p =
     do { m \<leftarrow> pg_modules p (fi_module f);
          map_option hf_signature (hm_function (fi_function f) m) }"

section \<open>The linker\<close>

datatype linker_error =
    ModuleConflict ident | MissingModule ident | MissingFunction function_ident | MissingGlobal ident
  | SignatureMismatch function_ident | LinkageMismatch function_ident
  | InvalidCycle function_ident function_ident | InvalidEntryLinkage function_ident
  | InvalidMultipleEntry function_ident function_ident
  | LinkSegmentError segment_error | LinkGlobalError global_error

datatype global_node = NGlobal ident | NFunction function_ident

record ('f, 'c, 'g) linker =
  lk_program :: "'f program"
  lk_pending :: "ident \<rightharpoonup> 'f hir_module"
  lk_callgraph :: 'c
  lk_globals :: 'g

text \<open>The new linker reserves the first page of memory for the shadow stack.\<close>

definition lk_new ::
  "(function_ident, 'c) graph_ops \<Rightarrow> (global_node, 'g) graph_ops \<Rightarrow> ('f, 'c, 'g) linker option" where
  "lk_new C G =
     do { r \<leftarrow> st_declare 0 (64 * 1024) [] False (pg_segments (pg_new :: 'f program));
          (case r of
             Inl _ \<Rightarrow> None
           | Inr t \<Rightarrow> Some \<lparr>lk_program = pg_new\<lparr>pg_segments := t\<rparr>, lk_pending = Map.empty,
               lk_callgraph = go_new C, lk_globals = go_new G\<rparr>) }"

definition lk_with_entrypoint ::
  "function_ident \<Rightarrow> ('f, 'c, 'g) linker \<Rightarrow> linker_error + ('f, 'c, 'g) linker" where
  "lk_with_entrypoint f lk =
     (case pg_entrypoint (lk_program lk) of
        Some prev \<Rightarrow> if prev \<noteq> f then Inl (InvalidMultipleEntry f prev)
                     else Inr (lk\<lparr>lk_program := (lk_program lk)\<lparr>pg_entrypoint := Some f\<rparr>\<rparr>)
      | None \<Rightarrow> Inr (lk\<lparr>lk_program := (lk_program lk)\<lparr>pg_entrypoint := Some f\<rparr>\<rparr>))"

text \<open>Chaining of computations that may panic and return errors.\<close>

definition bind_res :: "('e + 'a) option \<Rightarrow> ('a \<Rightarrow> ('e + 'b) option) \<Rightarrow> ('e + 'b) option" where
  "bind_res r k = do { x \<leftarrow> r; (case x of Inl e \<Rightarrow> Some (Inl e) | Inr a \<Rightarrow> k a) }"

fun for_each :: "('a \<Rightarrow> 's \<Rightarrow> ('e + 's) option) \<Rightarrow> 'a list \<Rightarrow> 's \<Rightarrow> ('e + 's) option" where
  "for_each f [] s = Some (Inr s)"
| "for_each f (x # xs) s = bind_res (f x s) (for_each f xs)"

definition import_segment :: "data_segment \<Rightarrow> segment_table \<Rightarrow> (linker_error + segment_table) option" where
  "import_segment s t = do { r \<leftarrow> st_insert s t; Some (map_sum LinkSegmentError (\<lambda>t. t) r) }"

text \<open>
  The import of a global: its initializer is moved to the program's constants, and a renaming is
  recorded.  The state is the table of the program, the renamed symbols and the graph.
\<close>

definition import_init :: "global_table \<Rightarrow> gv_data \<Rightarrow> global_table \<Rightarrow> (constant_id option \<times> global_table) option" where
  "import_init mg d t =
     (case gvd_init d of
        None \<Rightarrow> Some (None, t)
      | Some c \<Rightarrow> do { b \<leftarrow> cp_get (gt_data mg) c;
                       let (c, t) = gt_insert_constant b t in Some (Some c, t) })"

definition import_global ::
  "(gv_data \<Rightarrow> nat \<Rightarrow> u64) \<Rightarrow> (global_node, 'g) graph_ops \<Rightarrow> global_table \<Rightarrow> gv_data \<Rightarrow>
   global_table \<times> (ident \<rightharpoonup> ident) \<times> 'g \<Rightarrow> (linker_error + global_table \<times> (ident \<rightharpoonup> ident) \<times> 'g) option" where
  "import_global H G mg d st =
     (case st of (t, renamed, g) \<Rightarrow>
        do { (init, t) \<leftarrow> import_init mg d t;
             (r, t) \<leftarrow> gt_try_insert H (d\<lparr>gvd_init := init\<rparr>) t;
             (case r of
                Inl e \<Rightarrow> Some (Inl (LinkGlobalError e))
              | Inr (gid, was_renamed) \<Rightarrow> do {
                  gv \<leftarrow> gt_get gid t;
                  let name = gvd_name gv;
                  Some (Inr (t, if was_renamed then renamed(gvd_name d \<mapsto> name) else renamed,
                             go_add_node G (NGlobal name) g)) }) })"

text \<open>The calls of one function, in the global and in the local graph.\<close>

fun add_calls :: "(function_ident, 'c) graph_ops \<Rightarrow> ident \<Rightarrow> function_ident \<Rightarrow> function_ident list \<Rightarrow>
    'c \<times> 'c \<Rightarrow> 'c \<times> 'c" where
  "add_calls C module_name caller [] cs = cs"
| "add_calls C module_name caller (callee # callees) (c, l) =
     (let c = go_add_edge C caller callee (go_add_node C callee c);
          l = (if fi_module callee = module_name
               then go_add_edge C caller callee (go_add_node C callee l) else l) in
      add_calls C module_name caller callees (c, l))"

fun add_functions :: "(function_ident, 'c) graph_ops \<Rightarrow> import_values \<Rightarrow> ident \<Rightarrow> 'f hir_function list \<Rightarrow>
    'c \<times> 'c \<Rightarrow> 'c \<times> 'c" where
  "add_functions C vals module_name [] cs = cs"
| "add_functions C vals module_name (f # fs) (c, l) =
     add_functions C vals module_name fs
       (add_calls C module_name (hf_id f) (map ef_id (hf_imports vals f))
          (go_add_node C (hf_id f) c, go_add_node C (hf_id f) l))"

definition validate_callgraph :: "(function_ident, 'c) graph_ops \<Rightarrow> 'c \<Rightarrow> linker_error option" where
  "validate_callgraph C c = map_option (\<lambda>(caller, callee). InvalidCycle caller callee) (go_back_edge C c)"

text \<open>The references of a function to global symbols: renamed, and recorded in the graph.\<close>

definition rename_symbol :: "(ident \<rightharpoonup> ident) \<Rightarrow> ident \<Rightarrow> ident" where
  "rename_symbol renamed name = (case renamed name of Some new_name \<Rightarrow> new_name | None \<Rightarrow> name)"

fun link_symbols :: "(global_node, 'g) graph_ops \<Rightarrow> (ident \<rightharpoonup> ident) \<Rightarrow> function_ident \<Rightarrow>
    global_value_data list \<Rightarrow> 'g \<Rightarrow> global_value_data list \<times> 'g" where
  "link_symbols G renamed f [] g = ([], g)"
| "link_symbols G renamed f (GvSymbol name off # gvs) g =
     (let name = rename_symbol renamed name;
          g = go_add_edge G (NFunction f) (NGlobal name)
                (go_add_node G (NFunction f) (go_add_node G (NGlobal name) g));
          (gvs, g) = link_symbols G renamed f gvs g in
      (GvSymbol name off # gvs, g))"
| "link_symbols G renamed f (gv # gvs) g =
     (let (gvs, g) = link_symbols G renamed f gvs g in (gv # gvs, g))"

definition set_globals :: "global_value_data list \<Rightarrow> 'f hir_function \<Rightarrow> 'f hir_function" where
  "set_globals gvs f = f\<lparr>hf_dfg := (hf_dfg f)\<lparr>dfg_globals := gvs\<rparr>\<rparr>"

fun relink_functions :: "(global_node, 'g) graph_ops \<Rightarrow> (ident \<rightharpoonup> ident) \<Rightarrow> function_ident list \<Rightarrow>
    'f hir_module \<Rightarrow> 'g \<Rightarrow> ('f hir_module \<times> 'g) option" where
  "relink_functions G renamed [] m g = Some (m, g)"
| "relink_functions G renamed (f # fs) m g =
     do { (function, m) \<leftarrow> hm_unlink (fi_function f) m;
          let (gvs, g) = link_symbols G renamed f (dfg_globals (hf_dfg function)) g;
          relink_functions G renamed fs
            (m\<lparr>hm_functions := hm_functions m @ [set_globals gvs function]\<rparr>) g }"

definition lk_add ::
  "(function_ident, 'c) graph_ops \<Rightarrow> (global_node, 'g) graph_ops \<Rightarrow> import_values \<Rightarrow>
   (gv_data \<Rightarrow> nat \<Rightarrow> u64) \<Rightarrow> 'f hir_module \<Rightarrow> ('f, 'c, 'g) linker \<Rightarrow>
   (linker_error + ('f, 'c, 'g) linker) option" where
  "lk_add C G vals H m lk =
     (if lk_pending lk (hm_name m) \<noteq> None then Some (Inl (ModuleConflict (hm_name m)))
      else
        bind_res (for_each import_segment (hm_segments m) (pg_segments (lk_program lk)))
        (\<lambda>segments. do {
           gvs \<leftarrow> gt_iter (hm_globals m);
           bind_res (for_each (import_global H G (hm_globals m)) gvs
               (pg_globals (lk_program lk), Map.empty, lk_globals lk))
           (\<lambda>(globals, renamed, g).
              let (c, l) = add_functions C vals (hm_name m) (hm_functions m) (lk_callgraph lk, go_new C) in
              (case go_toposort C l of
                 None \<Rightarrow> (case validate_callgraph C l of
                            Some e \<Rightarrow> Some (Inl e) | None \<Rightarrow> None)
               | Some topography \<Rightarrow> do {
                   (m', g) \<leftarrow> relink_functions G renamed topography (m\<lparr>hm_segments := []\<rparr>) g;
                   Some (Inr (lk\<lparr>
                     lk_program := (lk_program lk)\<lparr>pg_segments := segments, pg_globals := globals\<rparr>,
                     lk_pending := (lk_pending lk)(hm_name m \<mapsto> m'),
                     lk_callgraph := c, lk_globals := g\<rparr>)) })) }))"

section \<open>Linking\<close>

text \<open>The three globals of the heap; a failed declaration panics.\<close>

definition declare_builtin :: "ident \<Rightarrow> constant_data \<Rightarrow> global_table \<Rightarrow> global_table option" where
  "declare_builtin name hp t =
     do { (r, t) \<leftarrow> gt_declare name (TyPtr TyU8) LkExternal (Some hp) t;
          (case r of Inl _ \<Rightarrow> None | Inr _ \<Rightarrow> Some t) }"

definition heap_base :: "'f program \<Rightarrow> nat option" where
  "heap_base p =
     do { globals_offset \<leftarrow> st_next_available_offset (pg_segments p);
          size0 \<leftarrow> gt_size_in_bytes (pg_globals p);
          size0 \<leftarrow> to_u32 size0;
          end0 \<leftarrow> u32_add globals_offset size0;
          align_up u32_MAX end0 32 }"

definition populate_builtins :: "'f program \<Rightarrow> 'f program option" where
  "populate_builtins p =
     do { base \<leftarrow> heap_base p;
          let hp = to_le_bytes_u32 base;
          t \<leftarrow> declare_builtin ''HEAP_BASE'' hp (pg_globals p);
          t \<leftarrow> declare_builtin ''HEAP_TOP'' hp t;
          t \<leftarrow> declare_builtin ''HEAP_END'' hp t;
          Some (p\<lparr>pg_globals := t\<rparr>) }"

definition is_matching_param :: "abi_param \<Rightarrow> abi_param \<Rightarrow> bool" where
  "is_matching_param expected actual =
     (if ap_purpose expected \<noteq> ap_purpose actual then False
      else (case ap_extension actual of
          AeNone \<Rightarrow> ap_ty expected = ap_ty actual
        | AeZext \<Rightarrow> ap_extension expected = AeZext \<and> ap_ty expected = ap_ty actual
        | AeSext \<Rightarrow> ap_extension expected = AeSext \<and> ap_ty expected = ap_ty actual))"

definition verify_matching_signature ::
  "function_ident \<Rightarrow> signature \<Rightarrow> signature \<Rightarrow> linker_error option" where
  "verify_matching_signature f actual expected =
     (if sig_arity expected \<noteq> sig_arity actual then Some (SignatureMismatch f)
      else if \<not> list_all2 is_matching_param (sig_params expected) (sig_params actual)
        then Some (SignatureMismatch f)
      else if length (signature_results expected) \<noteq> length (signature_results actual)
        then Some (SignatureMismatch f)
      else if \<not> list_all2 is_matching_param (signature_results expected) (signature_results actual)
        then Some (SignatureMismatch f)
      else None)"

definition verify_entrypoint :: "('f, 'c, 'g) linker \<Rightarrow> linker_error option" where
  "verify_entrypoint lk =
     (case pg_entrypoint (lk_program lk) of
        None \<Rightarrow> None
      | Some entry \<Rightarrow>
          (case lk_pending lk (fi_module entry) of
             None \<Rightarrow> Some (MissingModule (fi_module entry))
           | Some m \<Rightarrow>
               (case hm_function (fi_function entry) m of
                  None \<Rightarrow> Some (MissingFunction entry)
                | Some f \<Rightarrow> if \<not> hf_is_public f then Some (InvalidEntryLinkage entry) else None)))"

definition is_stdlib :: "ident \<Rightarrow> bool" where
  "is_stdlib name = (take 5 name = ''std::'')"

text \<open>One caller of \<open>node\<close>, which is the function \<open>f\<close>.\<close>

definition verify_caller :: "(ident \<rightharpoonup> 'f hir_module) \<Rightarrow> function_ident \<Rightarrow> 'f hir_function \<Rightarrow>
    function_ident \<Rightarrow> unit \<Rightarrow> (linker_error + unit) option" where
  "verify_caller pending node f dependent_id u =
     (if fi_module dependent_id \<noteq> fi_module node \<and> \<not> hf_is_public f
      then Some (Inl (LinkageMismatch node))
      else do {
        m \<leftarrow> pending (fi_module dependent_id);
        dependent \<leftarrow> hm_function (fi_function dependent_id) m;
        external_ref \<leftarrow> get_import (hf_dfg dependent) node;
        Some (case verify_matching_signature (hf_id f) (hf_signature f) (ef_signature external_ref) of
                Some e \<Rightarrow> Inl e | None \<Rightarrow> Inr u) })"

definition verify_function :: "(function_ident, 'c) graph_ops \<Rightarrow> ('f, 'c, 'g) linker \<Rightarrow> function_ident \<Rightarrow>
    unit \<Rightarrow> (linker_error + unit) option" where
  "verify_function C lk node u =
     (case lk_pending lk (fi_module node) of
        None \<Rightarrow> if is_stdlib (fi_module node) then Some (Inr u)
                else Some (Inl (MissingModule (fi_module node)))
      | Some m \<Rightarrow>
          (case hm_function (fi_function node) m of
             None \<Rightarrow> Some (Inl (MissingFunction node))
           | Some f \<Rightarrow>
               for_each (verify_caller (lk_pending lk) node f) (go_incoming C (lk_callgraph lk) node) u))"

definition verify_global :: "(global_node, 'g) graph_ops \<Rightarrow> 'g \<Rightarrow> global_node \<Rightarrow> global_table \<Rightarrow>
    (linker_error + global_table) option" where
  "verify_global G g node t =
     (case node of
        NFunction _ \<Rightarrow> Some (Inr t)
      | NGlobal name \<Rightarrow> do {
          t \<leftarrow> (if go_incoming G g node = [] then do { gv \<leftarrow> gt_find name t; gt_remove gv t } else Some t);
          Some (if \<not> gt_exists name t then Inl (MissingGlobal name) else Inr t) })"

definition lk_link ::
  "(function_ident, 'c) graph_ops \<Rightarrow> (global_node, 'g) graph_ops \<Rightarrow> ('f, 'c, 'g) linker \<Rightarrow>
   (linker_error + 'f program) option" where
  "lk_link C G lk =
     do { p \<leftarrow> populate_builtins (lk_program lk);
          let lk = lk\<lparr>lk_program := p\<rparr>;
          (case validate_callgraph C (lk_callgraph lk) of
             Some e \<Rightarrow> Some (Inl e)
           | None \<Rightarrow>
               (case verify_entrypoint lk of
                  Some e \<Rightarrow> Some (Inl e)
                | None \<Rightarrow>
                    bind_res (for_each (verify_function C lk) (go_nodes C (lk_callgraph lk)) ())
                    (\<lambda>_. bind_res (for_each (verify_global G (lk_globals lk)) (go_nodes G (lk_globals lk))
                            (pg_globals p))
                    (\<lambda>t. Some (Inr (p\<lparr>pg_globals := t, pg_modules := lk_pending lk\<rparr>)))))) }"

section \<open>The builder of programs\<close>

fun ident_less :: "ident \<Rightarrow> ident \<Rightarrow> bool" where
  "ident_less a [] = False"
| "ident_less [] (y # ys) = True"
| "ident_less (x # xs) (y # ys) =
     ((of_char x :: nat) < of_char y \<or> x = y \<and> ident_less xs ys)"

text \<open>The modules of the builder in the order of their names.\<close>

record 'f program_builder =
  pb_modules :: "'f hir_module list"
  pb_entry :: "function_ident option"

fun insert_module :: "'f hir_module \<Rightarrow> 'f hir_module list \<Rightarrow> 'f hir_module list" where
  "insert_module m [] = [m]"
| "insert_module m (x # xs) =
     (if ident_less (hm_name m) (hm_name x) then m # x # xs else x # insert_module m xs)"

definition pb_new :: "'f program_builder" where
  "pb_new = \<lparr>pb_modules = [], pb_entry = None\<rparr>"

definition pb_with_entrypoint :: "function_ident \<Rightarrow> 'f program_builder \<Rightarrow> 'f program_builder" where
  "pb_with_entrypoint f b = b\<lparr>pb_entry := Some f\<rparr>"

text \<open>The error is \<open>ModuleConflictError\<close>.\<close>

definition pb_add_module :: "'f hir_module \<Rightarrow> 'f program_builder \<Rightarrow> ident + 'f program_builder" where
  "pb_add_module m b =
     (if hm_name m \<in> hm_name ` set (pb_modules b) then Inl (hm_name m)
      else Inr (b\<lparr>pb_modules := insert_module m (pb_modules b)\<rparr>))"

text \<open>\<open>module\<close> takes a module of that name out of the builder, or begins a new one.\<close>

definition pb_module :: "ident \<Rightarrow> 'f program_builder \<Rightarrow> 'f hir_module \<times> 'f program_builder" where
  "pb_module name b =
     (case find (\<lambda>m. hm_name m = name) (pb_modules b) of
        None \<Rightarrow> (hm_new name, b)
      | Some m \<Rightarrow> (m, b\<lparr>pb_modules := filter (\<lambda>m. hm_name m \<noteq> name) (pb_modules b)\<rparr>))"

definition pb_link ::
  "(function_ident, 'c) graph_ops \<Rightarrow> (global_node, 'g) graph_ops \<Rightarrow> import_values \<Rightarrow>
   (gv_data \<Rightarrow> nat \<Rightarrow> u64) \<Rightarrow> 'f program_builder \<Rightarrow> (linker_error + 'f program) option" where
  "pb_link C G vals H b =
     do { lk \<leftarrow> lk_new C G;
          bind_res (Some (case pb_entry b of None \<Rightarrow> Inr lk | Some entry \<Rightarrow> lk_with_entrypoint entry lk))
          (\<lambda>lk. bind_res (for_each (lk_add C G vals H) (pb_modules b) lk)
          (\<lambda>lk. lk_link C G lk)) }"

end
