(* ===== verification/LinkProps.thy ===== *)
theory LinkProps
  imports Linker
begin

text \<open>
  What a linked program promises: the call graph has no cycle, every reference to a function or a
  global is defined and matches, and the memory layout is consistent; and where the linker falls
  short.
\<close>

section \<open>Graphs as lists\<close>

type_synonym 'n list_graph = "'n list \<times> ('n \<times> 'n) list"

definition lg_nodes :: "'n list_graph \<Rightarrow> 'n list" where
  "lg_nodes g = remdups (fst g @ map fst (snd g) @ map snd (snd g))"

function topo_from :: "'n list \<Rightarrow> ('n \<times> 'n) list \<Rightarrow> 'n list option" where
  "topo_from ns es =
     (case find (\<lambda>n. \<forall>a \<in> set ns. (a, n) \<notin> set es) ns of
        None \<Rightarrow> if ns = [] then Some [] else None
      | Some n \<Rightarrow> map_option (Cons n) (topo_from (remove1 n ns) es))"
  by pat_completeness auto
termination
  by (relation "measure (length \<circ> fst)") (auto simp: find_Some_iff length_remove1)

declare topo_from.simps [simp del]

definition lg_toposort :: "'n list_graph \<Rightarrow> 'n list option" where
  "lg_toposort g = topo_from (lg_nodes g) (snd g)"

definition list_graph_ops :: "('n, 'n list_graph) graph_ops" where
  "list_graph_ops =
     \<lparr>go_new = ([], []),
      go_add_node = (\<lambda>n (ns, es). (List.insert n ns, es)),
      go_add_edge = (\<lambda>a b (ns, es). (List.insert b (List.insert a ns), List.insert (a, b) es)),
      go_nodes = lg_nodes,
      go_incoming = (\<lambda>g b. map fst (filter (\<lambda>(x, y). y = b) (snd g))),
      go_toposort = lg_toposort,
      go_back_edge = (\<lambda>g. case lg_toposort g of
          Some _ \<Rightarrow> None
        | None \<Rightarrow> (case snd g of [] \<Rightarrow> None | e # _ \<Rightarrow> Some e))\<rparr>"

lemma topo_from_Some:
  assumes "topo_from ns es = Some xs" "distinct ns"
  shows "distinct xs \<and> set xs = set ns \<and>
    (\<forall>i j. i < length xs \<longrightarrow> j < length xs \<longrightarrow> (xs ! i, xs ! j) \<in> set es \<longrightarrow> i < j)"
  using assms
proof (induction ns es arbitrary: xs rule: topo_from.induct)
  case (1 ns es)
  show ?case
  proof (cases "find (\<lambda>n. \<forall>a \<in> set ns. (a, n) \<notin> set es) ns")
    case None
    with "1.prems" show ?thesis by (subst (asm) topo_from.simps) (auto split: if_splits)
  next
    case (Some n)
    with "1.prems"(1) obtain ys where ys: "topo_from (remove1 n ns) es = Some ys" "xs = n # ys"
      by (subst (asm) topo_from.simps) auto
    from Some have n: "n \<in> set ns" "\<forall>a \<in> set ns. (a, n) \<notin> set es"
      by (auto simp: find_Some_iff)
    have IH: "distinct ys" "set ys = set ns - {n}"
      "\<And>i j. i < length ys \<Longrightarrow> j < length ys \<Longrightarrow> (ys ! i, ys ! j) \<in> set es \<Longrightarrow> i < j"
      using "1.IH" [OF Some ys(1)] "1.prems"(2) by (auto simp: set_remove1_eq)
    have "i < j" if "i < length xs" "j < length xs" "(xs ! i, xs ! j) \<in> set es" for i j
    proof (cases j)
      case 0
      have "set xs = set ns" using IH(2) n(1) ys(2) by auto
      then have "xs ! i \<in> set ns" using nth_mem [OF that(1)] by blast
      moreover have "(xs ! i, n) \<in> set es" using that(3) 0 ys(2) by simp
      ultimately show ?thesis using n(2) by blast
    next
      case (Suc j')
      with that IH(3) ys(2) show ?thesis by (cases i) auto
    qed
    moreover have "distinct xs" "set xs = set ns" using IH(1,2) n(1) ys(2) by auto
    ultimately show ?thesis by blast
  qed
qed

lemma topo_from_None:
  assumes "topo_from ns es = None" "distinct ns"
  shows "\<not> acyclic (set es)"
  using assms
proof (induction ns es rule: topo_from.induct)
  case (1 ns es)
  show ?case
  proof (cases "find (\<lambda>n. \<forall>a \<in> set ns. (a, n) \<notin> set es) ns")
    case None
    with "1.prems"(1) have ne: "ns \<noteq> []" by (subst (asm) topo_from.simps) (auto split: if_splits)
    show ?thesis
    proof
      assume "acyclic (set es)"
      then have "wf (set es)" by (simp add: finite_acyclic_wf)
      then obtain z where "z \<in> set ns" "\<And>y. (y, z) \<in> set es \<Longrightarrow> y \<notin> set ns"
        using ne wfE_min [of "set es" "hd ns" "set ns"] by (metis list.set_sel(1))
      with None show False by (auto simp: find_None_iff)
    qed
  next
    case (Some n)
    with "1.prems"(1) have "topo_from (remove1 n ns) es = None"
      by (subst (asm) topo_from.simps) auto
    from "1.IH" [OF Some this] "1.prems"(2) show ?thesis by simp
  qed
qed

lemma ordered_acyclic:
  assumes "distinct xs" "\<forall>(a, b) \<in> E. a \<in> set xs \<and> b \<in> set xs"
    and "\<And>i j. i < length xs \<Longrightarrow> j < length xs \<Longrightarrow> (xs ! i, xs ! j) \<in> E \<Longrightarrow> i < j"
  shows "acyclic E"
proof -
  define rank where "rank x = (LEAST i. i < length xs \<and> xs ! i = x)" for x
  have r: "rank (xs ! i) = i" if "i < length xs" for i
    unfolding rank_def by (rule Least_equality) (use that assms(1) nth_eq_iff_index_eq in fastforce)+
  have "E \<subseteq> inv_image less_than rank"
  proof (rule subrelI)
    fix a b assume e: "(a, b) \<in> E"
    with assms(2) obtain i j where "i < length xs" "a = xs ! i" "j < length xs" "b = xs ! j"
      by (metis (no_types, lifting) case_prodD in_set_conv_nth)
    with e assms(3) r show "(a, b) \<in> inv_image less_than rank" by simp
  qed
  then have "wf E" using wf_subset [OF wf_inv_image [OF wf_less_than]] by blast
  then show ?thesis by (rule wf_acyclic)
qed

lemma distinct_lg_nodes: "distinct (lg_nodes g)"
  unfolding lg_nodes_def by (rule distinct_remdups)

lemma lg_toposort_Some:
  assumes "lg_toposort g = Some xs"
  shows "distinct xs \<and> set xs = set (lg_nodes g) \<and>
    (\<forall>i j. i < length xs \<longrightarrow> j < length xs \<longrightarrow> (xs ! i, xs ! j) \<in> set (snd g) \<longrightarrow> i < j)"
  using topo_from_Some [of "lg_nodes g" "snd g" xs] assms
  by (simp add: lg_toposort_def distinct_lg_nodes)

lemma lg_toposort_None: "lg_toposort g = None \<longleftrightarrow> \<not> acyclic (set (snd g))"
proof
  show "lg_toposort g = None \<Longrightarrow> \<not> acyclic (set (snd g))"
    unfolding lg_toposort_def by (rule topo_from_None [OF _ distinct_lg_nodes])
  show "lg_toposort g = None" if c: "\<not> acyclic (set (snd g))"
  proof (rule ccontr)
    assume "lg_toposort g \<noteq> None"
    then obtain xs where xs: "lg_toposort g = Some xs" by auto
    have "\<forall>(a, b) \<in> set (snd g). a \<in> set xs \<and> b \<in> set xs"
      using lg_toposort_Some [OF xs] by (auto simp: lg_nodes_def image_iff split: prod.splits)
        (metis fst_conv snd_conv)+
    then have "acyclic (set (snd g))"
      using lg_toposort_Some [OF xs] by (intro ordered_acyclic [of xs]) auto
    with c show False by simp
  qed
qed

lemma incoming_list_graph: "set (go_incoming list_graph_ops g b) = {a. (a, b) \<in> set (snd g)}"
  by (force simp: list_graph_ops_def)

lemma edges_of_list_graph: "edges_of list_graph_ops g = set (snd g)"
  by (simp add: edges_of_def incoming_list_graph)

interpretation lg: digraph list_graph_ops
proof (unfold_locales, unfold edges_of_list_graph incoming_list_graph)
  fix g :: "'a list_graph" and a b :: 'a and xs :: "'a list"
  show "(go_toposort list_graph_ops g = None) = (\<not> acyclic (set (snd g)))"
    by (simp add: list_graph_ops_def lg_toposort_None)
  show "go_toposort list_graph_ops g = Some xs \<Longrightarrow>
      distinct xs \<and> set xs = set (go_nodes list_graph_ops g) \<and>
      (\<forall>i j. i < length xs \<longrightarrow> j < length xs \<longrightarrow> (xs ! i, xs ! j) \<in> set (snd g) \<longrightarrow> i < j)"
    using lg_toposort_Some [of g xs] by (simp add: list_graph_ops_def)
  have "snd g \<noteq> []" if "lg_toposort g = None"
    using that by (auto simp: lg_toposort_None acyclic_def)
  then show "(go_back_edge list_graph_ops g = None) = acyclic (set (snd g))"
    using lg_toposort_None [of g]
    by (auto simp: list_graph_ops_def split: option.splits list.splits)
  show "go_back_edge list_graph_ops g = Some (a, b) \<Longrightarrow> (a, b) \<in> set (snd g)"
    by (auto simp: list_graph_ops_def split: option.splits list.splits)
qed (auto simp: list_graph_ops_def lg_nodes_def split: prod.splits)

section \<open>Chains\<close>

lemma bind_res_Inr: "bind_res r k = Some (Inr y) \<longleftrightarrow> (\<exists>x. r = Some (Inr x) \<and> k x = Some (Inr y))"
  by (auto simp: bind_res_def split: sum.splits)

lemma for_each_inv:
  assumes "for_each f xs s = Some (Inr s')" "I s"
    and "\<And>x s s'. x \<in> set xs \<Longrightarrow> I s \<Longrightarrow> f x s = Some (Inr s') \<Longrightarrow> I s'"
  shows "I s'"
  using assms
proof (induction xs arbitrary: s)
  case (Cons x xs)
  from Cons.prems(1) obtain t where "f x s = Some (Inr t)" "for_each f xs t = Some (Inr s')"
    by (auto simp: bind_res_Inr)
  with Cons show ?case by (metis list.set_intros)
qed simp

lemma for_each_step:
  assumes "for_each f xs s = Some (Inr s')" "I s" "x \<in> set xs"
    and "\<And>x s s'. x \<in> set xs \<Longrightarrow> I s \<Longrightarrow> f x s = Some (Inr s') \<Longrightarrow> I s'"
  shows "\<exists>t t'. I t \<and> f x t = Some (Inr t')"
  using assms
proof (induction xs arbitrary: s)
  case (Cons y xs)
  from Cons.prems(1) obtain t where t: "f y s = Some (Inr t)" "for_each f xs t = Some (Inr s')"
    by (auto simp: bind_res_Inr)
  show ?case
  proof (cases "x = y")
    case True
    with t(1) Cons.prems(2) show ?thesis by blast
  next
    case False
    with Cons t show ?thesis by (metis list.set_intros set_ConsD)
  qed
qed simp

lemma for_each_all:
  fixes f :: "'a \<Rightarrow> unit \<Rightarrow> ('e + unit) option"
  shows "for_each f xs () = Some (Inr ()) \<Longrightarrow> x \<in> set xs \<Longrightarrow> f x () = Some (Inr ())"
  by (induction xs) (auto simp: bind_res_Inr)

section \<open>Adding a module\<close>

text \<open>The calls of a module, and the references of a function to global symbols.\<close>

definition calls_of :: "import_values \<Rightarrow> 'f hir_module \<Rightarrow> (function_ident \<times> function_ident) set" where
  "calls_of vals m =
     (\<Union>f \<in> set (hm_functions m). {hf_id f} \<times> ef_id ` set (hf_imports vals f))"

lemma snd_calls_of: "snd ` calls_of vals m = (\<Union>f \<in> set (hm_functions m). ef_id ` set (hf_imports vals f))"
  by (force simp: calls_of_def)

definition symbols_in :: "ident set \<Rightarrow> 'f hir_function \<Rightarrow> bool" where
  "symbols_in S f = (\<forall>name off. GvSymbol name off \<in> set (dfg_globals (hf_dfg f)) \<longrightarrow> name \<in> S)"

definition symbol_nodes :: "(global_node, 'g) graph_ops \<Rightarrow> 'g \<Rightarrow> ident set" where
  "symbol_nodes G g = {name. NGlobal name \<in> set (go_nodes G g)}"

definition named_functions :: "'f hir_module \<Rightarrow> bool" where
  "named_functions m =
     (distinct (map (\<lambda>f. fi_function (hf_id f)) (hm_functions m)) \<and>
      (\<forall>f \<in> set (hm_functions m). fi_module (hf_id f) = hm_name m))"

lemma hm_ok_named: "hm_ok m \<Longrightarrow> named_functions m"
  by (auto simp: hm_ok_def named_functions_def assert_valid_function_def)

lemma set_globals_sel [simp]:
  "hf_id (set_globals gvs f) = hf_id f" "hf_signature (set_globals gvs f) = hf_signature f"
  "dfg_imports (hf_dfg (set_globals gvs f)) = dfg_imports (hf_dfg f)"
  "dfg_globals (hf_dfg (set_globals gvs f)) = gvs" "set_globals a (set_globals b f) = set_globals a f"
  by (simp_all add: set_globals_def)

lemma hf_imports_set_globals [simp]: "hf_imports vals (set_globals gvs f) = hf_imports vals f"
  by (simp add: hf_imports_def)

text \<open>The functions without their references.\<close>

definition bare :: "'f hir_module \<Rightarrow> 'f hir_function multiset" where
  "bare m = image_mset (set_globals []) (mset (hm_functions m))"

lemma bare_set:
  assumes "bare m = bare m'" "f \<in> set (hm_functions m)"
  shows "\<exists>f' \<in> set (hm_functions m'). set_globals [] f' = set_globals [] f"
proof -
  have "set_globals [] f \<in># bare m" using assms(2) by (simp add: bare_def)
  then show ?thesis unfolding assms(1) by (auto simp: bare_def)
qed

lemma set_globals_eqD:
  assumes "set_globals [] f' = set_globals [] f"
  shows "hf_id f' = hf_id f" "hf_signature f' = hf_signature f"
    "dfg_imports (hf_dfg f') = dfg_imports (hf_dfg f)" "hf_imports vals f' = hf_imports vals f"
proof -
  show "hf_id f' = hf_id f" "hf_signature f' = hf_signature f"
    "dfg_imports (hf_dfg f') = dfg_imports (hf_dfg f)" "hf_imports vals f' = hf_imports vals f"
    using arg_cong [OF assms, of hf_id] arg_cong [OF assms, of hf_signature]
      arg_cong [OF assms, of "\<lambda>f. dfg_imports (hf_dfg f)"] arg_cong [OF assms, of "hf_imports vals"] by simp_all
qed

lemma bare_calls: "bare m = bare m' \<Longrightarrow> calls_of vals m = calls_of vals m'"
proof -
  have "calls_of vals a \<subseteq> calls_of vals b" if "bare a = bare b" for a b :: "'a hir_module"
  proof -
    have "\<exists>f' \<in> set (hm_functions b). hf_id f' = hf_id f \<and> hf_imports vals f' = hf_imports vals f"
      if "f \<in> set (hm_functions a)" for f
      using bare_set [OF \<open>bare a = bare b\<close> that] set_globals_eqD by metis
    then show ?thesis unfolding calls_of_def by fastforce
  qed
  then show "bare m = bare m' \<Longrightarrow> calls_of vals m = calls_of vals m'" by (metis subset_antisym)
qed

lemma bare_ids: "bare m = bare m' \<Longrightarrow> mset (map hf_id (hm_functions m)) = mset (map hf_id (hm_functions m'))"
proof -
  have "mset (map hf_id (hm_functions a)) = image_mset hf_id (bare a)" for a :: "'a hir_module"
    by (simp add: bare_def image_mset.compositionality comp_def)
  then show "bare m = bare m' \<Longrightarrow> mset (map hf_id (hm_functions m)) = mset (map hf_id (hm_functions m'))"
    by simp
qed

lemma bare_named:
  assumes "bare m = bare m'" "hm_name m = hm_name m'" "named_functions m"
  shows "named_functions m'"
proof -
  note ids = bare_ids [OF assms(1)]
  have n: "map (\<lambda>f. fi_function (hf_id f)) (hm_functions k) = map fi_function (map hf_id (hm_functions k))"
    for k :: "'a hir_module" by simp
  have "mset (map fi_function (map hf_id (hm_functions m))) = mset (map fi_function (map hf_id (hm_functions m')))"
    using ids by (metis mset_map)
  then have "distinct (map (\<lambda>f. fi_function (hf_id f)) (hm_functions m'))"
    using assms(3) unfolding named_functions_def n by (metis mset_eq_imp_distinct_iff)
  moreover have "hf_id ` set (hm_functions m) = hf_id ` set (hm_functions m')"
    using ids by (metis list.set_map mset_eq_setD)
  ultimately show ?thesis
    using assms(2,3) unfolding named_functions_def by (metis imageE imageI)
qed

text \<open>What the loop over the functions of a module adds to the call graph.\<close>

lemma add_calls_edges:
  assumes "digraph C" "add_calls C n caller callees (c, l) = (c', l')"
  shows "edges_of C c' = edges_of C c \<union> {caller} \<times> set callees \<and>
     set (go_nodes C c) \<union> set callees \<subseteq> set (go_nodes C c') \<and>
     set (go_nodes C l) \<subseteq> set (go_nodes C l')"
  using assms(2)
proof (induction callees arbitrary: c l)
  case (Cons f callees)
  note gs = digraph.graph_simps [OF assms(1)]
  from Cons.IH [OF Cons.prems [unfolded add_calls.simps Let_def]] show ?case
    by (auto simp: gs split: if_splits)
qed simp

lemma add_functions_edges:
  assumes "digraph C" "add_functions C vals n fs (c, l) = (c', l')"
  shows "edges_of C c' = edges_of C c \<union> (\<Union>f \<in> set fs. {hf_id f} \<times> ef_id ` set (hf_imports vals f)) \<and>
     set (go_nodes C c) \<union> hf_id ` set fs \<union> (\<Union>f \<in> set fs. ef_id ` set (hf_imports vals f))
       \<subseteq> set (go_nodes C c') \<and>
     set (go_nodes C l) \<union> hf_id ` set fs \<subseteq> set (go_nodes C l')"
  using assms(2)
proof (induction fs arbitrary: c l)
  case (Cons f fs)
  note gs = digraph.graph_simps [OF assms(1)]
  obtain c1 l1 where s: "add_calls C n (hf_id f) (map ef_id (hf_imports vals f))
      (go_add_node C (hf_id f) c, go_add_node C (hf_id f) l) = (c1, l1)" by fastforce
  with Cons.prems have r: "add_functions C vals n fs (c1, l1) = (c', l')" by simp
  show ?case
    using add_calls_edges [OF assms(1) s] Cons.IH [OF r] by (auto simp: gs)
qed simp

lemma link_symbols_nodes:
  assumes "digraph G" "link_symbols G rn f gvs g = (gvs', g')"
  shows "symbol_nodes G g \<subseteq> symbol_nodes G g'"
    "GvSymbol name off \<in> set gvs' \<Longrightarrow> name \<in> symbol_nodes G g'"
proof -
  note gs = digraph.graph_simps [OF assms(1)]
  have "symbol_nodes G g \<subseteq> symbol_nodes G g' \<and>
      (GvSymbol name off \<in> set gvs' \<longrightarrow> name \<in> symbol_nodes G g')"
    using assms(2)
  proof (induction gvs arbitrary: g gvs')
    case (Cons gv gvs)
    show ?case
    proof (cases gv)
      case (GvSymbol n off')
      let ?n = "rename_symbol rn n"
      let ?g = "go_add_edge G (NFunction f) (NGlobal ?n) (go_add_node G (NFunction f) (go_add_node G (NGlobal ?n) g))"
      obtain gvs1 where s: "link_symbols G rn f gvs ?g = (gvs1, g')" "gvs' = GvSymbol ?n off' # gvs1"
        using Cons.prems GvSymbol by (auto simp: Let_def split: prod.splits)
      have "symbol_nodes G ?g = insert ?n (symbol_nodes G g)" by (auto simp: symbol_nodes_def gs)
      with Cons.IH [OF s(1)] s(2) show ?thesis by auto
    next
      case (GvLoad a b c)
      with Cons.prems Cons.IH show ?thesis by (auto split: prod.splits)
    next
      case (GvIAddImm a b c)
      with Cons.prems Cons.IH show ?thesis by (auto split: prod.splits)
    qed
  qed simp
  then show "symbol_nodes G g \<subseteq> symbol_nodes G g'"
    "GvSymbol name off \<in> set gvs' \<Longrightarrow> name \<in> symbol_nodes G g'" by auto
qed

lemma symbols_in_mono: "symbols_in S f \<Longrightarrow> S \<subseteq> T \<Longrightarrow> symbols_in T f"
  by (auto simp: symbols_in_def)

lemma relink_functions_props:
  assumes "digraph G" "relink_functions G rn xs m g = Some (m', g')" "named_functions m"
    and "\<forall>f \<in> set (hm_functions m).
      symbols_in (symbol_nodes G g) f \<or> fi_function (hf_id f) \<in> fi_function ` set xs"
  shows "hm_name m' = hm_name m" "bare m' = bare m" "symbol_nodes G g \<subseteq> symbol_nodes G g'"
    "\<forall>f \<in> set (hm_functions m'). symbols_in (symbol_nodes G g') f"
proof -
  have "hm_name m' = hm_name m \<and> bare m' = bare m \<and> symbol_nodes G g \<subseteq> symbol_nodes G g' \<and>
      (\<forall>f \<in> set (hm_functions m'). symbols_in (symbol_nodes G g') f)"
    using assms(2-4)
  proof (induction xs arbitrary: m g)
    case (Cons x xs)
    from Cons.prems(1) obtain f m1 gvs g1 where u: "hm_unlink (fi_function x) m = Some (f, m1)"
      and ls: "link_symbols G rn x (dfg_globals (hf_dfg f)) g = (gvs, g1)"
      and rl: "relink_functions G rn xs (m1\<lparr>hm_functions := hm_functions m1 @ [set_globals gvs f]\<rparr>) g1 = Some (m', g')"
      by (auto simp: Let_def split: prod.splits)
    obtain us vs where s: "hm_functions m = us @ f # vs" "fi_function (hf_id f) = fi_function x"
      "m1 = m\<lparr>hm_functions := us @ vs\<rparr>" by (rule hm_unlink_split [OF u])
    let ?m = "m1\<lparr>hm_functions := hm_functions m1 @ [set_globals gvs f]\<rparr>"
    note nodes = link_symbols_nodes [OF assms(1) ls]
    have bare: "bare ?m = bare m" using s by (simp add: bare_def)
    have name: "hm_name ?m = hm_name m" using s(3) by simp
    have named: "named_functions ?m"
      using bare_named [OF bare [symmetric] _ Cons.prems(2)] name by simp
    have "symbols_in (symbol_nodes G g1) h \<or> fi_function (hf_id h) \<in> fi_function ` set xs"
      if "h \<in> set (hm_functions ?m)" for h
    proof (cases "h = set_globals gvs f")
      case True
      then show ?thesis using nodes(2) by (auto simp: symbols_in_def)
    next
      case False
      then have h: "h \<in> set us \<union> set vs" using that s(3) by auto
      have "fi_function x \<notin> (\<lambda>f. fi_function (hf_id f)) ` (set us \<union> set vs)"
        using Cons.prems(2) s(1,2) by (auto simp: named_functions_def)
      with h have "fi_function (hf_id h) \<noteq> fi_function x" by (metis imageI)
      moreover have "h \<in> set (hm_functions m)" using h s(1) by auto
      ultimately show ?thesis using Cons.prems(3) symbols_in_mono [OF _ nodes(1)] by fastforce
    qed
    with Cons.IH [OF rl named] bare name nodes(1) show ?case by auto
  qed simp
  then show "hm_name m' = hm_name m" "bare m' = bare m" "symbol_nodes G g \<subseteq> symbol_nodes G g'"
    "\<forall>f \<in> set (hm_functions m'). symbols_in (symbol_nodes G g') f" by blast+
qed

text \<open>The invariant of the linker.\<close>

definition module_linked ::
  "(function_ident, 'c) graph_ops \<Rightarrow> (global_node, 'g) graph_ops \<Rightarrow> import_values \<Rightarrow> 'c \<Rightarrow> 'g \<Rightarrow>
   'f hir_module \<Rightarrow> bool" where
  "module_linked C G vals c g m =
     (named_functions m \<and> calls_of vals m \<subseteq> edges_of C c \<and>
      hf_id ` set (hm_functions m) \<union> snd ` calls_of vals m \<subseteq> set (go_nodes C c) \<and>
      (\<forall>f \<in> set (hm_functions m). symbols_in (symbol_nodes G g) f))"

lemma module_linked_mono:
  assumes "module_linked C G vals c g m" "edges_of C c \<subseteq> edges_of C c'"
    and "set (go_nodes C c) \<subseteq> set (go_nodes C c')" "symbol_nodes G g \<subseteq> symbol_nodes G g'"
  shows "module_linked C G vals c' g' m"
  using assms symbols_in_mono [OF _ assms(4)] unfolding module_linked_def by fast

definition lk_ok ::
  "(function_ident, 'c) graph_ops \<Rightarrow> (global_node, 'g) graph_ops \<Rightarrow> import_values \<Rightarrow>
   ('f, 'c, 'g) linker \<Rightarrow> bool" where
  "lk_ok C G vals lk =
     (st_valid (pg_segments (lk_program lk)) \<and> gt_ok (pg_globals (lk_program lk)) \<and>
      (\<forall>n m. lk_pending lk n = Some m \<longrightarrow> hm_name m = n \<and>
         module_linked C G vals (lk_callgraph lk) (lk_globals lk) m))"

lemma import_segment_Inr: "import_segment s t = Some (Inr u) \<longleftrightarrow> st_insert s t = Some (Inr u)"
proof (cases "st_insert s t")
  case (Some r)
  then show ?thesis by (cases r) (auto simp: import_segment_def)
qed (simp add: import_segment_def)

lemma import_segments_valid:
  assumes "for_each import_segment ss t = Some (Inr t')" "st_valid t" "\<forall>s \<in> set ss. ds_valid s"
  shows "st_valid t' \<and> set ss \<union> set t = set t'"
proof -
  have "set t \<union> set ss = set t' \<and> st_valid t'"
    using assms
  proof (induction ss arbitrary: t)
    case (Cons s ss)
    then obtain u where u: "st_insert s t = Some (Inr u)" "for_each import_segment ss u = Some (Inr t')"
      by (auto simp: bind_res_Inr import_segment_Inr)
    with st_insert_valid [OF u(1)] Cons show ?case by auto
  qed simp
  then show ?thesis by auto
qed

lemma import_global_ok:
  assumes "gt_ok t" "import_global H G mg d (t, rn, g) = Some (Inr (t', rn', g'))"
    and "digraph G"
  shows "gt_ok t' \<and> symbol_nodes G g \<subseteq> symbol_nodes G g'"
proof -
  from assms(2) obtain init t1 r t2 where i: "import_init mg d t = Some (init, t1)"
    and ins: "gt_try_insert H (d\<lparr>gvd_init := init\<rparr>) t1 = Some (r, t')" and r: "r = Inr t2"
    by (auto simp: import_global_def Let_def split: sum.splits)
  have ok: "gt_ok t1 \<and> (\<forall>c. init = Some c \<longrightarrow> cp_get (gt_data t1) c \<noteq> None)"
  proof (cases "gvd_init d")
    case None
    with i assms(1) show ?thesis by (simp add: import_init_def)
  next
    case (Some c)
    with i obtain b c' where "gt_insert_constant b t = (c', t1)" "init = Some c'"
      by (auto simp: import_init_def Let_def split: prod.splits)
    with gt_insert_constant_ok [OF assms(1) this(1)] show ?thesis by simp
  qed
  have "gt_ok t'" using gt_try_insert_ok [OF _ ins] ok by simp
  moreover have "symbol_nodes G g \<subseteq> symbol_nodes G g'"
    using assms(2) digraph.nodes_add_node [OF assms(3)]
    by (auto simp: import_global_def Let_def symbol_nodes_def split: sum.splits)
  ultimately show ?thesis by simp
qed

lemma import_globals_ok:
  assumes "for_each (import_global H G mg) ds (t, rn, g) = Some (Inr (t', rn', g'))" "gt_ok t" "digraph G"
  shows "gt_ok t'" "symbol_nodes G g \<subseteq> symbol_nodes G g'"
proof -
  have "gt_ok (fst (t', rn', g')) \<and> symbol_nodes G g \<subseteq> symbol_nodes G (snd (snd (t', rn', g')))"
    by (rule for_each_inv [OF assms(1)])
      (use assms(2) import_global_ok [OF _ _ assms(3)] in \<open>fastforce+\<close>)
  then show "gt_ok t'" "symbol_nodes G g \<subseteq> symbol_nodes G g'" by auto
qed

lemma lk_add_ok:
  assumes "digraph C" "digraph G" "lk_ok C G vals lk" "hm_ok m"
    and "lk_add C G vals H m lk = Some (Inr lk')"
  shows "lk_ok C G vals lk'" "lk_pending lk (hm_name m) = None"
    "\<exists>m'. lk_pending lk' = (lk_pending lk)(hm_name m \<mapsto> m') \<and> bare m' = bare m"
    "pg_entrypoint (lk_program lk') = pg_entrypoint (lk_program lk)"
proof -
  let ?p = "lk_program lk"
  from assms(5) have new: "lk_pending lk (hm_name m) = None"
    by (auto simp: lk_add_def split: if_splits)
  obtain c l where calls: "add_functions C vals (hm_name m) (hm_functions m) (lk_callgraph lk, go_new C) = (c, l)"
    by fastforce
  from assms(5) new calls obtain segments gvs globals rn g xs m' g' where
    seg: "for_each import_segment (hm_segments m) (pg_segments ?p) = Some (Inr segments)"
    and glob: "for_each (import_global H G (hm_globals m)) gvs (pg_globals ?p, Map.empty, lk_globals lk) =
        Some (Inr (globals, rn, g))"
    and topo: "go_toposort C l = Some xs"
    and rl: "relink_functions G rn xs (m\<lparr>hm_segments := []\<rparr>) g = Some (m', g')"
    and lk': "lk' = lk\<lparr>lk_program := ?p\<lparr>pg_segments := segments, pg_globals := globals\<rparr>,
        lk_pending := (lk_pending lk)(hm_name m \<mapsto> m'), lk_callgraph := c, lk_globals := g'\<rparr>"
    by (auto simp: lk_add_def bind_res_Inr split: option.splits)
  let ?m = "m\<lparr>hm_segments := []\<rparr>"
  have ok: "st_valid (pg_segments ?p)" "gt_ok (pg_globals ?p)"
    using assms(3) by (auto simp: lk_ok_def)
  have seg': "st_valid segments"
    using import_segments_valid [OF seg ok(1)] assms(4) by (auto simp: hm_ok_def st_valid_def)
  note glob' = import_globals_ok [OF glob ok(2) assms(2)]
  note e = add_functions_edges [OF assms(1) calls]
  have xs: "hf_id ` set (hm_functions m) \<subseteq> set xs"
    using e digraph.toposort_Some [OF assms(1) topo] by auto
  have named: "named_functions ?m"
    using hm_ok_named [OF assms(4)] by (simp add: named_functions_def)
  have "\<forall>f \<in> set (hm_functions ?m). symbols_in (symbol_nodes G g) f \<or>
      fi_function (hf_id f) \<in> fi_function ` set xs" using xs by auto
  note r = relink_functions_props [OF assms(2) rl named this]
  have bare: "bare m' = bare m" using r(2) by (simp add: bare_def)
  have c: "calls_of vals m' = calls_of vals m" using bare by (rule bare_calls)
  have ids: "hf_id ` set (hm_functions m') = hf_id ` set (hm_functions m)"
    using bare_ids [OF bare] by (metis list.set_map mset_eq_setD)
  have "named_functions m'" using bare_named [OF r(2) [symmetric] _ named] r(1) by simp
  moreover have "calls_of vals m' \<subseteq> edges_of C c"
    "hf_id ` set (hm_functions m') \<union> snd ` calls_of vals m' \<subseteq> set (go_nodes C c)"
    unfolding c ids snd_calls_of using e by (auto simp: calls_of_def)
  ultimately have linked: "module_linked C G vals c g' m'" using r(4) by (simp add: module_linked_def)
  have sub: "edges_of C (lk_callgraph lk) \<subseteq> edges_of C c"
    "set (go_nodes C (lk_callgraph lk)) \<subseteq> set (go_nodes C c)"
    "symbol_nodes G (lk_globals lk) \<subseteq> symbol_nodes G g'"
    using e glob'(2) r(3) by auto
  have old: "hm_name k = n \<and> module_linked C G vals c g' k" if "lk_pending lk n = Some k" for n k
  proof -
    from assms(3) that have "hm_name k = n" "module_linked C G vals (lk_callgraph lk) (lk_globals lk) k"
      by (auto simp: lk_ok_def)
    with module_linked_mono [OF this(2) sub] show ?thesis by simp
  qed
  have pend: "hm_name k = n \<and> module_linked C G vals c g' k"
    if "((lk_pending lk)(hm_name m \<mapsto> m')) n = Some k" for n k
  proof (cases "n = hm_name m")
    case True
    with that have "k = m'" by simp
    with True linked r(1) show ?thesis by simp
  next
    case False
    with that have "lk_pending lk n = Some k" by simp
    then show ?thesis by (rule old)
  qed
  have "lk_ok C G vals lk' \<longleftrightarrow> st_valid segments \<and> gt_ok globals \<and>
      (\<forall>n k. ((lk_pending lk)(hm_name m \<mapsto> m')) n = Some k \<longrightarrow> hm_name k = n \<and> module_linked C G vals c g' k)"
    by (simp add: lk_ok_def lk')
  with seg' glob'(1) pend show "lk_ok C G vals lk'" by blast
  show "lk_pending lk (hm_name m) = None" by fact
  show "\<exists>m'. lk_pending lk' = (lk_pending lk)(hm_name m \<mapsto> m') \<and> bare m' = bare m"
    using bare lk' by auto
  show "pg_entrypoint (lk_program lk') = pg_entrypoint (lk_program lk)" by (simp add: lk')
qed

section \<open>Linking\<close>

lemma declare_builtin_ok: "declare_builtin n hp t = Some t' \<Longrightarrow> gt_ok t \<Longrightarrow> gt_ok t'"
  using gt_declare_ok [THEN conjunct1] by (auto simp: declare_builtin_def split: sum.splits)

lemma populate_builtins_ok:
  assumes "populate_builtins p = Some p'" "gt_ok (pg_globals p)"
  shows "gt_ok (pg_globals p')" "pg_segments p' = pg_segments p" "pg_entrypoint p' = pg_entrypoint p"
  using assms declare_builtin_ok by (auto simp: populate_builtins_def Let_def)

lemma verify_global_ok:
  assumes "gt_ok t" "verify_global G g node t = Some (Inr t')"
  shows "gt_ok t'" "gt_names t' = gt_names t" "node = NGlobal name \<Longrightarrow> gt_exists name t'"
proof -
  show "gt_ok t'"
    using assms gt_remove_ok by (auto simp: verify_global_def split: global_node.splits if_splits)
  show "gt_names t' = gt_names t" "node = NGlobal name \<Longrightarrow> gt_exists name t'"
    using assms(2)
    by (auto simp: verify_global_def gt_remove_def gt_exists_def split: global_node.splits if_splits)
qed

lemma verify_globals_ok:
  assumes "for_each (verify_global G g) nodes t = Some (Inr t')" "gt_ok t"
  shows "gt_ok t'" "NGlobal name \<in> set nodes \<Longrightarrow> gt_exists name t'"
proof -
  let ?I = "\<lambda>u. gt_ok u \<and> gt_names u = gt_names t"
  have step: "?I u'" if "?I u" "verify_global G g x u = Some (Inr u')" for x u u'
    using verify_global_ok [of u G g x u'] that by simp
  have "?I t'" by (rule for_each_inv [OF assms(1)]) (use assms(2) step in blast)+
  then show "gt_ok t'" by simp
  show "gt_exists name t'" if "NGlobal name \<in> set nodes"
  proof -
    have "\<exists>u u'. ?I u \<and> verify_global G g (NGlobal name) u = Some (Inr u')"
      by (rule for_each_step [OF assms(1) _ that]) (use assms(2) step in blast)+
    then obtain u u' where u: "?I u" "verify_global G g (NGlobal name) u = Some (Inr u')" by blast
    with verify_global_ok(2) [OF _ u(2)] verify_global_ok(3) [OF _ u(2), of name] \<open>?I t'\<close>
    show ?thesis by (simp add: gt_exists_def)
  qed
qed

lemma verify_function_program: "verify_function C (lk\<lparr>lk_program := p\<rparr>) = verify_function C lk"
  by (intro ext) (simp add: verify_function_def split: option.splits)

lemma verify_entrypoint_program:
  "verify_entrypoint (lk\<lparr>lk_program := p\<rparr>) = None \<Longrightarrow> pg_entrypoint p = pg_entrypoint (lk_program lk) \<Longrightarrow>
   verify_entrypoint lk = None"
  by (cases "pg_entrypoint p") (auto simp: verify_entrypoint_def split: option.splits)

lemma lk_link_ok:
  assumes "digraph C" "digraph G" "lk_ok C G vals lk" "lk_link C G lk = Some (Inr p)"
  shows "pg_modules p = lk_pending lk" "gt_ok (pg_globals p)" "pg_segments p = pg_segments (lk_program lk)"
    "acyclic (edges_of C (lk_callgraph lk))"
    "\<And>n. n \<in> set (go_nodes C (lk_callgraph lk)) \<Longrightarrow> verify_function C lk n () = Some (Inr ())"
    "\<And>name. name \<in> symbol_nodes G (lk_globals lk) \<Longrightarrow> gt_exists name (pg_globals p)"
    "verify_entrypoint lk = None"
proof -
  from assms(4) obtain p0 t where p0: "populate_builtins (lk_program lk) = Some p0"
    and b: "go_back_edge C (lk_callgraph lk) = None"
    and entry: "verify_entrypoint (lk\<lparr>lk_program := p0\<rparr>) = None"
    and fs: "for_each (verify_function C (lk\<lparr>lk_program := p0\<rparr>)) (go_nodes C (lk_callgraph lk)) () = Some (Inr ())"
    and gs: "for_each (verify_global G (lk_globals lk)) (go_nodes G (lk_globals lk)) (pg_globals p0) = Some (Inr t)"
    and p: "p = p0\<lparr>pg_globals := t, pg_modules := lk_pending lk\<rparr>"
    by (auto simp: lk_link_def bind_res_Inr validate_callgraph_def Let_def split: option.splits)
  have "gt_ok (pg_globals (lk_program lk))" using assms(3) by (simp add: lk_ok_def)
  note pop = populate_builtins_ok [OF p0 this]
  note glob = verify_globals_ok [OF gs pop(1)]
  show "pg_modules p = lk_pending lk" "gt_ok (pg_globals p)" "pg_segments p = pg_segments (lk_program lk)"
    using p glob(1) pop(2) by simp_all
  show "acyclic (edges_of C (lk_callgraph lk))" using b digraph.back_edge_None [OF assms(1)] by blast
  show "verify_function C lk n () = Some (Inr ())" if "n \<in> set (go_nodes C (lk_callgraph lk))" for n
    using for_each_all [OF fs that] by (simp only: verify_function_program)
  show "gt_exists name (pg_globals p)" if "name \<in> symbol_nodes G (lk_globals lk)" for name
    using glob(2) that p by (simp add: symbol_nodes_def)
  show "verify_entrypoint lk = None" using verify_entrypoint_program [OF entry] pop(3) by simp
qed

text \<open>What the verification of a function checks for one of its callers.\<close>

lemma verify_function_caller:
  assumes "verify_function C lk callee () = Some (Inr ())" "(caller, callee) \<in> edges_of C (lk_callgraph lk)"
  shows "lk_pending lk (fi_module callee) = None \<and> is_stdlib (fi_module callee) \<or>
    (\<exists>m g m' f ext. lk_pending lk (fi_module callee) = Some m \<and> hm_function (fi_function callee) m = Some g \<and>
       (fi_module caller \<noteq> fi_module callee \<longrightarrow> hf_is_public g) \<and>
       lk_pending lk (fi_module caller) = Some m' \<and> hm_function (fi_function caller) m' = Some f \<and>
       get_import (hf_dfg f) callee = Some ext \<and>
       verify_matching_signature (hf_id g) (hf_signature g) (ef_signature ext) = None)"
proof (cases "lk_pending lk (fi_module callee)")
  case None
  with assms(1) show ?thesis by (auto simp: verify_function_def split: if_splits)
next
  case (Some m)
  with assms(1) obtain g where g: "hm_function (fi_function callee) m = Some g"
    and fe: "for_each (verify_caller (lk_pending lk) callee g) (go_incoming C (lk_callgraph lk) callee) () = Some (Inr ())"
    by (auto simp: verify_function_def split: option.splits)
  have "caller \<in> set (go_incoming C (lk_callgraph lk) callee)" using assms(2) by (simp add: edges_of_def)
  from for_each_all [OF fe this] Some g show ?thesis
    by (auto simp: verify_caller_def split: if_splits option.splits)
qed

lemma lk_add_modules:
  assumes "digraph C" "digraph G" "for_each (lk_add C G vals H) ms lk = Some (Inr lk')"
    and "lk_ok C G vals lk" "\<forall>m \<in> set ms. hm_ok m"
  shows "lk_ok C G vals lk'" "pg_entrypoint (lk_program lk') = pg_entrypoint (lk_program lk)"
    "lk_pending lk n = Some k \<Longrightarrow> lk_pending lk' n = Some k"
    "m \<in> set ms \<Longrightarrow> \<exists>m'. lk_pending lk' (hm_name m) = Some m' \<and> bare m' = bare m"
    "lk_pending lk' n = Some m' \<Longrightarrow> lk_pending lk n = None \<Longrightarrow> \<exists>m \<in> set ms. hm_name m = n \<and> bare m' = bare m"
proof -
  have "lk_ok C G vals lk' \<and> pg_entrypoint (lk_program lk') = pg_entrypoint (lk_program lk) \<and>
    (\<forall>n k. lk_pending lk n = Some k \<longrightarrow> lk_pending lk' n = Some k) \<and>
    (\<forall>m \<in> set ms. \<exists>m'. lk_pending lk' (hm_name m) = Some m' \<and> bare m' = bare m) \<and>
    (\<forall>n m'. lk_pending lk' n = Some m' \<longrightarrow> lk_pending lk n = None \<longrightarrow>
       (\<exists>m \<in> set ms. hm_name m = n \<and> bare m' = bare m))"
    using assms(3-5)
  proof (induction ms arbitrary: lk)
    case (Cons m ms)
    from Cons.prems(1) obtain lk1 where a: "lk_add C G vals H m lk = Some (Inr lk1)"
      and r: "for_each (lk_add C G vals H) ms lk1 = Some (Inr lk')" by (auto simp: bind_res_Inr)
    from Cons.prems(3) have hm: "hm_ok m" by simp
    note o1 = lk_add_ok [OF assms(1,2) Cons.prems(2) hm a]
    from o1(3) obtain k where k: "lk_pending lk1 = (lk_pending lk)(hm_name m \<mapsto> k)" "bare k = bare m" by blast
    from Cons.IH [OF r o1(1)] Cons.prems(3)
    have ih: "lk_ok C G vals lk'" "pg_entrypoint (lk_program lk') = pg_entrypoint (lk_program lk1)"
      "\<forall>n k. lk_pending lk1 n = Some k \<longrightarrow> lk_pending lk' n = Some k"
      "\<forall>m \<in> set ms. \<exists>m'. lk_pending lk' (hm_name m) = Some m' \<and> bare m' = bare m"
      "\<forall>n m'. lk_pending lk' n = Some m' \<longrightarrow> lk_pending lk1 n = None \<longrightarrow>
         (\<exists>m \<in> set ms. hm_name m = n \<and> bare m' = bare m)" by auto
    have "lk_pending lk' n = Some k'" if "lk_pending lk n = Some k'" for n k'
      using ih(3) that k(1) o1(2) by (cases "n = hm_name m") auto
    moreover have hd: "lk_pending lk' (hm_name m) = Some k" using ih(3) k(1) by simp
    moreover have "\<exists>m \<in> set (m # ms). hm_name m = n \<and> bare m' = bare m"
      if "lk_pending lk' n = Some m'" "lk_pending lk n = None" for n m'
      using ih(5) that k hd by (cases "n = hm_name m") auto
    ultimately show ?case using ih(1,2,4) o1(4) k(2) by auto
  qed simp
  then show "lk_ok C G vals lk'" "pg_entrypoint (lk_program lk') = pg_entrypoint (lk_program lk)"
    "lk_pending lk n = Some k \<Longrightarrow> lk_pending lk' n = Some k"
    "m \<in> set ms \<Longrightarrow> \<exists>m'. lk_pending lk' (hm_name m) = Some m' \<and> bare m' = bare m"
    "lk_pending lk' n = Some m' \<Longrightarrow> lk_pending lk n = None \<Longrightarrow> \<exists>m \<in> set ms. hm_name m = n \<and> bare m' = bare m"
    by blast+
qed

section \<open>Properties\<close>

text \<open>The imports of a function are listed under their names, and \<open>vals\<close> enumerates them.\<close>

definition imports_listed :: "import_values \<Rightarrow> 'f hir_function \<Rightarrow> bool" where
  "imports_listed vals f =
     (set (vals (dfg_imports (hf_dfg f))) = ran (dfg_imports (hf_dfg f)) \<and>
      (\<forall>c ext. dfg_imports (hf_dfg f) c = Some ext \<longrightarrow> ef_id ext = c))"

lemma imports_listed_call:
  assumes "imports_listed vals f" "get_import (hf_dfg f) c = Some ext" "c \<noteq> hf_id f"
    and "f \<in> set (hm_functions m)"
  shows "(hf_id f, c) \<in> calls_of vals m"
proof -
  have e: "ef_id ext = c" "ext \<in> set (vals (dfg_imports (hf_dfg f)))"
    using assms(1,2) by (auto simp: imports_listed_def get_import_def intro: ranI)
  with assms(3) have "ext \<in> set (hf_imports vals f)" by (simp add: hf_imports_def)
  with e(1) assms(4) show ?thesis unfolding calls_of_def by auto
qed

lemma lk_new_ok:
  assumes "lk_new C G = Some lk"
  shows "lk_ok C G vals lk" "lk_pending lk = Map.empty" "pg_entrypoint (lk_program lk) = None"
proof -
  from assms obtain t where t: "st_declare 0 (64 * 1024) [] False [] = Some (Inr t)"
    and lk: "lk = \<lparr>lk_program = pg_new\<lparr>pg_segments := t\<rparr>, lk_pending = Map.empty,
      lk_callgraph = go_new C, lk_globals = go_new G\<rparr>"
    by (auto simp: lk_new_def pg_new_def split: sum.splits)
  have "st_valid t"
    using t by (auto simp: st_declare_def ds_new_def st_insert_def st_valid_def ds_valid_def ds_end_def
        u32_add_def u32_MAX_def)
  then show "lk_ok C G vals lk" "lk_pending lk = Map.empty" "pg_entrypoint (lk_program lk) = None"
    by (simp_all add: lk lk_ok_def pg_new_def)
qed

lemma pb_link_stages:
  assumes "digraph C" "digraph G" "\<forall>m \<in> set (pb_modules b). hm_ok m" "pb_link C G vals H b = Some (Inr p)"
  obtains lk where "lk_ok C G vals lk" "pg_entrypoint (lk_program lk) = pb_entry b"
    "lk_link C G lk = Some (Inr p)"
    "\<forall>m \<in> set (pb_modules b). \<exists>m'. lk_pending lk (hm_name m) = Some m' \<and> bare m' = bare m"
    "\<forall>n m'. lk_pending lk n = Some m' \<longrightarrow> (\<exists>m \<in> set (pb_modules b). hm_name m = n \<and> bare m' = bare m)"
proof -
  from assms(4) obtain lk0 lk1 lk where new: "lk_new C G = Some lk0"
    and entry: "(case pb_entry b of None \<Rightarrow> Inr lk0 | Some entry \<Rightarrow> lk_with_entrypoint entry lk0) = Inr lk1"
    and add: "for_each (lk_add C G vals H) (pb_modules b) lk1 = Some (Inr lk)"
    and link: "lk_link C G lk = Some (Inr p)"
    by (auto simp: pb_link_def bind_res_Inr)
  note n = lk_new_ok [OF new]
  have l1: "lk_pending lk1 = Map.empty" "pg_entrypoint (lk_program lk1) = pb_entry b" "lk_ok C G vals lk1"
    using entry n by (auto simp: lk_with_entrypoint_def lk_ok_def split: option.splits)
  note a = lk_add_modules [OF assms(1,2) add l1(3) assms(3)]
  show thesis
    by (rule that [of lk]) (use a l1 link in auto)
qed

text \<open>
  When a caller that expects the parameters (or results) \<open>es\<close> may use a function that has \<open>ps\<close>: there
  are as many, with the same types and purposes, and where the function wants its parameter
  extended the caller extends it in the same way.
\<close>

definition accepts :: "abi_param list \<Rightarrow> abi_param list \<Rightarrow> bool" where
  "accepts es ps \<longleftrightarrow> map ap_ty es = map ap_ty ps \<and> map ap_purpose es = map ap_purpose ps \<and>
     (\<forall>i < length ps. ap_extension (ps ! i) \<noteq> AeNone \<longrightarrow> ap_extension (es ! i) = ap_extension (ps ! i))"

lemma matching_accepts: "list_all2 is_matching_param es ps \<longleftrightarrow> accepts es ps"
proof -
  have "is_matching_param e p \<longleftrightarrow> ap_ty e = ap_ty p \<and> ap_purpose e = ap_purpose p \<and>
      (ap_extension p \<noteq> AeNone \<longrightarrow> ap_extension e = ap_extension p)" for e p
    by (cases "ap_extension p") (auto simp: is_matching_param_def)
  then show ?thesis
    by (auto simp: accepts_def list_all2_conv_all_nth list_eq_iff_nth_eq)
qed

lemma matching_signature_iff:
  "verify_matching_signature f actual expected = None \<longleftrightarrow>
     accepts (sig_params expected) (sig_params actual) \<and>
     accepts (signature_results expected) (signature_results actual)"
proof -
  have "accepts es ps \<Longrightarrow> length es = length ps" for es ps
    unfolding accepts_def by (metis length_map)
  then show ?thesis
    unfolding verify_matching_signature_def matching_accepts sig_arity_def by (auto split: if_splits)
qed

text \<open>
  C39. A program that links is closed.  No two different functions call each other in a cycle.
  Every function that a function imports is defined in the program, with parameters and results
  that agree in number, type and purpose with what the caller declares and in the extension where
  the definition wants one, and it is public when it is in another module, unless it is in a module
  of the standard library that is not linked.  The calling conventions may differ.  The entry point is defined and public, every global symbol that is referred to
  exists, all modules are there with all their functions, and the data segments and the globals
  are consistent.
\<close>

theorem linked_programs_are_closed:
  assumes "digraph C" "digraph G"
    and mods: "\<forall>m \<in> set (pb_modules b). hm_ok m \<and> (\<forall>f \<in> set (hm_functions m). imports_listed vals f)"
    and "pb_link C G vals H b = Some (Inr p)"
  shows "acyclic {(hf_id f, c) | f c n m. pg_modules p n = Some m \<and> f \<in> set (hm_functions m) \<and>
      c \<noteq> hf_id f \<and> get_import (hf_dfg f) c \<noteq> None}
    \<and> (\<forall>n m f c ext. pg_modules p n = Some m \<and> f \<in> set (hm_functions m) \<and>
        get_import (hf_dfg f) c = Some ext \<and> c \<noteq> hf_id f \<longrightarrow>
        pg_modules p (fi_module c) = None \<and> is_stdlib (fi_module c) \<or>
        (\<exists>m' g. pg_modules p (fi_module c) = Some m' \<and> g \<in> set (hm_functions m') \<and> hf_id g = c \<and>
           (fi_module c \<noteq> n \<longrightarrow> hf_is_public g) \<and>
           accepts (sig_params (ef_signature ext)) (sig_params (hf_signature g)) \<and>
           accepts (signature_results (ef_signature ext)) (signature_results (hf_signature g))))
    \<and> (\<forall>e. pb_entry b = Some e \<longrightarrow> (\<exists>m f. pg_modules p (fi_module e) = Some m \<and>
        hm_function (fi_function e) m = Some f \<and> hf_is_public f))
    \<and> (\<forall>n m f name off. pg_modules p n = Some m \<and> f \<in> set (hm_functions m) \<and>
        GvSymbol name off \<in> set (dfg_globals (hf_dfg f)) \<longrightarrow> gt_exists name (pg_globals p))
    \<and> (\<forall>m \<in> set (pb_modules b). \<exists>m'. pg_modules p (hm_name m) = Some m' \<and>
        mset (map hf_id (hm_functions m')) = mset (map hf_id (hm_functions m)))
    \<and> st_valid (pg_segments p) \<and> gt_ok (pg_globals p)"
proof -
  from mods have hm: "\<forall>m \<in> set (pb_modules b). hm_ok m" by blast
  obtain lk where lk: "lk_ok C G vals lk" "pg_entrypoint (lk_program lk) = pb_entry b"
    "lk_link C G lk = Some (Inr p)"
    "\<forall>m \<in> set (pb_modules b). \<exists>m'. lk_pending lk (hm_name m) = Some m' \<and> bare m' = bare m"
    "\<forall>n m'. lk_pending lk n = Some m' \<longrightarrow> (\<exists>m \<in> set (pb_modules b). hm_name m = n \<and> bare m' = bare m)"
    by (rule pb_link_stages [OF assms(1,2) hm assms(4)])
  note l = lk_link_ok [OF assms(1,2) lk(1,3)]
  have listed: "imports_listed vals f" if "pg_modules p n = Some m" "f \<in> set (hm_functions m)" for n m f
  proof -
    from that(1) l(1) lk(5) [rule_format, of n m] obtain m0 where "m0 \<in> set (pb_modules b)" "bare m = bare m0" by auto
    with bare_set [OF this(2) that(2)] mods set_globals_eqD(3) show ?thesis
      unfolding imports_listed_def by metis
  qed
  have linked: "hm_name m = n" "module_linked C G vals (lk_callgraph lk) (lk_globals lk) m"
    if "pg_modules p n = Some m" for n m
    using that lk(1) l(1) by (auto simp: lk_ok_def)
  have call: "(hf_id f, c) \<in> edges_of C (lk_callgraph lk)" "c \<in> set (go_nodes C (lk_callgraph lk))"
    if "pg_modules p n = Some m" "f \<in> set (hm_functions m)" "get_import (hf_dfg f) c = Some ext"
      "c \<noteq> hf_id f" for n m f c ext
  proof -
    have "(hf_id f, c) \<in> calls_of vals m"
      by (rule imports_listed_call [OF listed [OF that(1,2)] that(3,4,2)])
    with linked(2) [OF that(1)] show "(hf_id f, c) \<in> edges_of C (lk_callgraph lk)"
      "c \<in> set (go_nodes C (lk_callgraph lk))" by (force simp: module_linked_def)+
  qed
  have acyclic: "acyclic {(hf_id f, c) | f c n m. pg_modules p n = Some m \<and> f \<in> set (hm_functions m) \<and>
      c \<noteq> hf_id f \<and> get_import (hf_dfg f) c \<noteq> None}"
    by (rule acyclic_subset [OF l(4)]) (use call(1) in blast)
  have calls: "pg_modules p (fi_module c) = None \<and> is_stdlib (fi_module c) \<or>
      (\<exists>m' g. pg_modules p (fi_module c) = Some m' \<and> g \<in> set (hm_functions m') \<and> hf_id g = c \<and>
         (fi_module c \<noteq> n \<longrightarrow> hf_is_public g) \<and>
         accepts (sig_params (ef_signature ext)) (sig_params (hf_signature g)) \<and>
         accepts (signature_results (ef_signature ext)) (signature_results (hf_signature g)))"
    if a: "pg_modules p n = Some m" "f \<in> set (hm_functions m)" "get_import (hf_dfg f) c = Some ext"
      "c \<noteq> hf_id f" for n m f c ext
  proof -
    have nf: "named_functions m" "hm_name m = n" using linked [OF a(1)] by (simp_all add: module_linked_def)
    then have fm: "fi_module (hf_id f) = n" using a(2) by (simp add: named_functions_def)
    have ff: "hm_function (fi_function (hf_id f)) m = Some f"
      using nf(1) a(2) by (intro hm_function_unique) (simp_all add: named_functions_def)
    from verify_function_caller [OF l(5) [OF call(2) [OF a]] call(1) [OF a]] l(1) fm ff a(1,3)
    consider "pg_modules p (fi_module c) = None" "is_stdlib (fi_module c)"
      | m' g where "pg_modules p (fi_module c) = Some m'" "hm_function (fi_function c) m' = Some g"
        "n \<noteq> fi_module c \<longrightarrow> hf_is_public g"
        "verify_matching_signature (hf_id g) (hf_signature g) (ef_signature ext) = None" by auto
    then show ?thesis
    proof cases
      case (2 m' g)
      from hm_function_SomeD [OF 2(2)] have g: "g \<in> set (hm_functions m')" "fi_function (hf_id g) = fi_function c"
        by auto
      moreover have "fi_module (hf_id g) = fi_module c"
        using linked [OF 2(1)] g(1) by (simp add: module_linked_def named_functions_def)
      ultimately have "hf_id g = c" by (metis function_ident.expand)
      with 2 g show ?thesis unfolding matching_signature_iff by auto
    qed simp
  qed
  have entry: "\<exists>m f. pg_modules p (fi_module e) = Some m \<and> hm_function (fi_function e) m = Some f \<and> hf_is_public f"
    if "pb_entry b = Some e" for e
    using l(7) lk(2) that l(1) by (auto simp: verify_entrypoint_def split: option.splits if_splits)
  have globals: "gt_exists name (pg_globals p)"
    if "pg_modules p n = Some m" "f \<in> set (hm_functions m)" "GvSymbol name off \<in> set (dfg_globals (hf_dfg f))"
    for n m f name off
    using linked(2) [OF that(1)] that(2,3) l(6) unfolding module_linked_def symbols_in_def by blast
  have kept: "\<exists>m'. pg_modules p (hm_name m) = Some m' \<and>
      mset (map hf_id (hm_functions m')) = mset (map hf_id (hm_functions m))" if "m \<in> set (pb_modules b)" for m
    using lk(4) that l(1) bare_ids by metis
  have "st_valid (pg_segments p)" "gt_ok (pg_globals p)" using l(2,3) lk(1) by (simp_all add: lk_ok_def)
  note data = this
  show ?thesis
    by (intro conjI allI impI ballI acyclic data; (elim conjE)?; (rule entry calls globals kept, assumption+)?)
qed

text \<open>The examples: functions without parameters that import others.\<close>

definition importing :: "ident \<Rightarrow> ident \<Rightarrow> linkage \<Rightarrow> function_ident list \<Rightarrow> int hir_function" where
  "importing m n lk fs = \<lparr>hf_id = FunctionIdent m n, hf_signature = no_params CcFast lk,
     hf_dfg = default_dfg\<lparr>dfg_imports :=
       (\<lambda>f. if f \<in> set fs then Some \<lparr>ef_id = f, ef_signature = no_params CcFast LkExternal\<rparr> else None)\<rparr>\<rparr>"

definition demo_vals :: import_values where
  "demo_vals m = List.map_filter m [FunctionIdent ''a'' ''f'', FunctionIdent ''a'' ''g'', FunctionIdent ''b'' ''g'']"

definition demo_module :: "ident \<Rightarrow> int hir_function list \<Rightarrow> int hir_module" where
  "demo_module n fs = (hm_new n)\<lparr>hm_functions := fs\<rparr>"

definition demo_hash :: "gv_data \<Rightarrow> nat \<Rightarrow> u64" where
  "demo_hash d n = of_nat n"

definition demo_link :: "function_ident option \<Rightarrow> int hir_module list \<Rightarrow> (linker_error + int program) option" where
  "demo_link entry ms =
     pb_link list_graph_ops list_graph_ops demo_vals demo_hash \<lparr>pb_modules = ms, pb_entry = entry\<rparr>"

definition demo_modules :: "int hir_module list" where
  "demo_modules =
     [demo_module ''a'' [importing ''a'' ''f'' LkExternal [FunctionIdent ''b'' ''g'']],
      demo_module ''b'' [importing ''b'' ''g'' LkExternal []]]"

lemmas link_eval = demo_link_def demo_modules_def demo_module_def importing_def demo_vals_def demo_hash_def
  pb_link_def lk_new_def pg_new_def st_declare_def ds_new_def st_insert_def u32_add_def u32_MAX_def
  bind_res_def lk_with_entrypoint_def lk_add_def hm_new_def hm_make_def gt_iter_def global_eval
  list_graph_ops_def lg_toposort_def lg_nodes_def topo_from.simps hf_imports_def default_dfg_def
  hm_unlink_def mc_remove_def hm_cursor_at_def set_globals_def no_params_def List.map_filter_def

lemmas link_eval2 = lk_link_def populate_builtins_def heap_base_def st_next_available_offset_def st_last_def
  gt_size_in_bytes_def to_u32_def align_up_def next_multiple_of_def to_le_bytes_u32_def
  declare_builtin_def validate_callgraph_def verify_entrypoint_def hm_function_def hf_is_public_def
  sig_is_public_def verify_function_def is_stdlib_def verify_caller_def get_import_def
  verify_matching_signature_def sig_arity_def signature_results_def verify_global_def

lemma demo_links:
  "\<exists>p. demo_link (Some (FunctionIdent ''a'' ''f'')) demo_modules = Some (Inr p) \<and>
     (\<exists>m f ext. pg_modules p ''a'' = Some m \<and> f \<in> set (hm_functions m) \<and>
        hf_id f = FunctionIdent ''a'' ''f'' \<and> get_import (hf_dfg f) (FunctionIdent ''b'' ''g'') = Some ext)"
  by (simp add: link_eval link_eval2 Let_def cong: bind_weak_cong)

lemma demo_imports_listed:
  "set fs \<subseteq> {FunctionIdent ''a'' ''f'', FunctionIdent ''a'' ''g'', FunctionIdent ''b'' ''g''} \<Longrightarrow>
   imports_listed demo_vals (importing m n lk fs)"
  by (auto simp: imports_listed_def importing_def demo_vals_def ran_def List.map_filter_def split: if_splits)

lemma demo_modules_ok:
  "\<forall>m \<in> set demo_modules. hm_ok m \<and> (\<forall>f \<in> set (hm_functions m). imports_listed demo_vals f)"
proof -
  have "\<forall>m \<in> set demo_modules. hm_ok m"
    by (simp add: demo_modules_def demo_module_def hm_ok_def hm_new_def hm_make_def importing_def
        assert_valid_function_def hf_is_kernel_def sig_is_kernel_def no_params_def)
  moreover have "\<forall>m \<in> set demo_modules. \<forall>f \<in> set (hm_functions m). imports_listed demo_vals f"
    by (simp add: demo_modules_def demo_module_def hm_new_def hm_make_def demo_imports_listed)
  ultimately show ?thesis by blast
qed

theorem linked_programs_are_closed_witness:
  "\<exists>p m f m' g. demo_link (Some (FunctionIdent ''a'' ''f'')) demo_modules = Some (Inr p) \<and>
     pg_modules p ''a'' = Some m \<and> f \<in> set (hm_functions m) \<and>
     pg_modules p ''b'' = Some m' \<and> g \<in> set (hm_functions m') \<and> hf_id g = FunctionIdent ''b'' ''g'' \<and>
     hf_is_public g \<and> hf_is_public f"
proof -
  let ?b = "\<lparr>pb_modules = demo_modules, pb_entry = Some (FunctionIdent ''a'' ''f'')\<rparr>"
  obtain p m f ext where p: "pb_link list_graph_ops list_graph_ops demo_vals demo_hash ?b = Some (Inr p)"
    and f: "pg_modules p ''a'' = Some m" "f \<in> set (hm_functions m)" "hf_id f = FunctionIdent ''a'' ''f''"
      "get_import (hf_dfg f) (FunctionIdent ''b'' ''g'') = Some ext"
    using demo_links unfolding demo_link_def by blast
  have ms: "\<forall>m \<in> set (pb_modules ?b). hm_ok m \<and> (\<forall>f \<in> set (hm_functions m). imports_listed demo_vals f)"
    using demo_modules_ok by simp
  note closed = linked_programs_are_closed [OF lg.digraph_axioms lg.digraph_axioms ms p]
  have "\<exists>m' g. pg_modules p ''b'' = Some m' \<and> g \<in> set (hm_functions m') \<and>
      hf_id g = FunctionIdent ''b'' ''g'' \<and> hf_is_public g"
    using closed [THEN conjunct2, THEN conjunct1] f by (fastforce simp: is_stdlib_def)
  moreover have "\<exists>m f. pg_modules p ''a'' = Some m \<and> hm_function ''f'' m = Some f \<and> hf_is_public f"
    using closed [THEN conjunct2, THEN conjunct2, THEN conjunct1] by simp
  ultimately show ?thesis using p hm_function_SomeD unfolding demo_link_def by blast
qed

text \<open>
  Where the linker falls short.  A program has an entry point, it says, when none is set.  The
  heap begins where the globals end before the three globals of the heap are added, so it begins
  at the address of the first of them.  A function that calls itself is linked, although recursion
  is not supported: only calls of other functions are in the call graph.  A function is linked to a
  caller that declares it with another calling convention.  A reference to a missing
  function of the same module panics.  The functions of a module are put in an order in which
  callers come before the functions they call, not after.  And internal variables of two modules
  with the same name and type become one variable.
\<close>

theorem linker_defects:
  shows "(has_entrypoint (p\<lparr>pg_entrypoint := None\<rparr>) \<and> \<not> has_entrypoint (p\<lparr>pg_entrypoint := Some e\<rparr>))
    \<and> (\<exists>lk p. lk_new list_graph_ops list_graph_ops = Some (lk :: (int, function_ident list_graph, global_node list_graph) linker) \<and>
      populate_builtins (lk_program lk) = Some p \<and> st_next_available_offset (pg_segments p) = Some 65536 \<and>
      heap_base (lk_program lk) = Some 65536 \<and> gt_find ''HEAP_BASE'' (pg_globals p) = Some 0 \<and>
      gt_offset_of 0 (pg_globals p) = Some 0)
    \<and> (\<exists>p. demo_link None [demo_module ''a'' [importing ''a'' ''f'' LkExternal [FunctionIdent ''a'' ''f'']]] = Some (Inr p))
    \<and> (\<exists>p. demo_link None [demo_module ''a'' [importing ''a'' ''f'' LkExternal [FunctionIdent ''b'' ''g'']],
        demo_module ''b'' [(importing ''b'' ''g'' LkExternal [])
          \<lparr>hf_signature := no_params CcSystemV LkExternal\<rparr>]] = Some (Inr p))
    \<and> (demo_link None [demo_module ''a'' [importing ''a'' ''f'' LkExternal [FunctionIdent ''a'' ''g'']]] = None)
    \<and> (\<exists>p. demo_link None [demo_module ''a'' [importing ''a'' ''g'' LkExternal [],
        importing ''a'' ''f'' LkExternal [FunctionIdent ''a'' ''g'']]] = Some (Inr p) \<and>
      map_option (\<lambda>m. map hf_id (hm_functions m)) (pg_modules p ''a'') =
        Some [FunctionIdent ''a'' ''f'', FunctionIdent ''a'' ''g''])
    \<and> (\<exists>t. gt_try_insert H \<lparr>gvd_id = 0, gvd_name = ''x'', gvd_ty = TyU32, gvd_linkage = LkInternal,
        gvd_init = None\<rparr> (pg_globals pg_new) = Some (Inr (0, False), t) \<and>
      gt_try_insert H \<lparr>gvd_id = 0, gvd_name = ''x'', gvd_ty = TyU32, gvd_linkage = LkInternal,
        gvd_init = None\<rparr> t = Some (Inr (0, False), t))"
proof -
  have d1: "has_entrypoint (p\<lparr>pg_entrypoint := None\<rparr>)" "\<not> has_entrypoint (p\<lparr>pg_entrypoint := Some e\<rparr>)"
    by (simp_all add: has_entrypoint_def)
  have d2: "\<exists>lk p. lk_new list_graph_ops list_graph_ops = Some (lk :: (int, function_ident list_graph, global_node list_graph) linker) \<and>
      populate_builtins (lk_program lk) = Some p \<and> st_next_available_offset (pg_segments p) = Some 65536 \<and>
      heap_base (lk_program lk) = Some 65536 \<and> gt_find ''HEAP_BASE'' (pg_globals p) = Some 0 \<and>
      gt_offset_of 0 (pg_globals p) = Some 0"
    by (simp add: link_eval link_eval2 placement_eval Let_def cong: bind_weak_cong)
  have d3: "\<exists>p. demo_link None [demo_module ''a'' [importing ''a'' ''f'' LkExternal [FunctionIdent ''a'' ''f'']]] = Some (Inr p)"
    by (simp add: link_eval link_eval2 Let_def cong: bind_weak_cong)
  have d7: "\<exists>p. demo_link None [demo_module ''a'' [importing ''a'' ''f'' LkExternal [FunctionIdent ''b'' ''g'']],
        demo_module ''b'' [(importing ''b'' ''g'' LkExternal [])
          \<lparr>hf_signature := no_params CcSystemV LkExternal\<rparr>]] = Some (Inr p)"
    by (simp add: link_eval link_eval2 Let_def cong: bind_weak_cong)
  have d4: "demo_link None [demo_module ''a'' [importing ''a'' ''f'' LkExternal [FunctionIdent ''a'' ''g'']]] = None"
    by (simp add: link_eval Let_def cong: bind_weak_cong)
  have d5: "\<exists>p. demo_link None [demo_module ''a'' [importing ''a'' ''g'' LkExternal [],
        importing ''a'' ''f'' LkExternal [FunctionIdent ''a'' ''g'']]] = Some (Inr p) \<and>
      map_option (\<lambda>m. map hf_id (hm_functions m)) (pg_modules p ''a'') =
        Some [FunctionIdent ''a'' ''f'', FunctionIdent ''a'' ''g'']"
    by (simp add: link_eval link_eval2 Let_def cong: bind_weak_cong)
  have d6: "\<exists>t. gt_try_insert H \<lparr>gvd_id = 0, gvd_name = ''x'', gvd_ty = TyU32, gvd_linkage = LkInternal,
        gvd_init = None\<rparr> (pg_globals pg_new) = Some (Inr (0, False), t) \<and>
      gt_try_insert H \<lparr>gvd_id = 0, gvd_name = ''x'', gvd_ty = TyU32, gvd_linkage = LkInternal,
        gvd_init = None\<rparr> t = Some (Inr (0, False), t)"
    by (simp add: pg_new_def gt_try_insert_def global_eval)
  show ?thesis by (intro conjI d1 d2 d3 d7 d4 d5 d6)
qed

end
