(* ===== verification/Spec2Isabelle.thy ===== *)
theory Spec2Isabelle
  imports Prelude Felt StackSpec VmStack HirType Layout Masm ExecOps
    Emulator EmuRun EmuRefine EmuProps
    Immediates OpStack OpEmitter EmitInt EmitIntProps EmitOps EmitMem EmitOpsProps
    Arena HirFunc DfgProps HirBuilder BuilderProps
    Cfg Domtree DomTheory DomProps DomCorrect DomQueries Loops LoopProps LoopQueries
    Liveness LivenessProps LivenessRun LivenessWay LivenessFix
    SplitEdges SplitProps Analyses
    AsmBuilder AsmProps AsmFrame
    DataSegments Globals Imports Modules Linker LinkProps
begin

text \<open>
  A verification development for the Miden IR compiler: the intermediate representation
  (crates hir, hir-type), its analyses (hir-analysis), the code generator for the Miden virtual
  machine and the emulator of that machine (codegen/masm).

  The program.  A function of the IR is a data flow graph in SSA form, built by instruction
  builders.  Analyses compute its control flow graph, its dominator tree and its loops.  The code
  generator walks the blocks and emits Miden assembly; while it emits, it keeps an operand stack
  of typed operands that must agree with the stack the code will find when it runs.  The
  emulator runs the assembly on a stack of field elements and a memory of four-element words.

  Conventions.  A panic of the compiler or of the emulator (a failed assertion, an index out of
  range, an arithmetic overflow, \<open>todo!()\<close>) is \<open>None\<close>; a \<open>Result\<close> is a sum with the error on the
  left.  Debug assertions and overflow checks are on, as in the profile the tests use.  Lengths,
  indices, \<open>usize\<close> and small unsigned fields are \<open>nat\<close> with their range checked where the
  source checks it; data the program computes with are words of their width.  A loop whose end is
  not evident is a \<open>partial_function (option)\<close>, and the properties prove that it returns.

  The theories, in the order of the dependencies.

  Prelude: machine integers, checked, wrapping and overflowing operations, vectors and slices,
  and the rewrite rules for \<open>Option\<close> binds that the other theories share.
  Felt: the field element of an external crate as a record of operations, an argument of every
  definition that computes with it; the locale \<open>felt_field\<close> has the documented laws and is
  interpreted on the numbers below the modulus.

  StackSpec: the contract of an operand stack, the locale \<open>operand_stack\<close>.
  VmStack: hir/src/asm/stack.rs, the stack of the machine; it and OpStack interpret the locale.

  HirType, Layout: hir-type/src/lib.rs and layout.rs; types, sizes and alignments, the layout of
  structs, and the cutting of a type into the pieces that occupy a stack element.  Lemmas: fields
  are aligned, disjoint and inside the struct; the pieces add up.

  Masm: the instructions (hir/src/asm/isa.rs), functions, modules and native pointers
  (codegen/masm/src/masm).  ExecOps: the instructions of \<open>Emulator::step\<close> on the operand stack.
  Emulator, EmuRun: codegen/masm/src/emulator.rs; activations and instruction pointers, memory,
  loading, \<open>step\<close>, \<open>run\<close>, \<open>resume\<close> and \<open>invoke\<close>.  EmuRefine: the machine as it is documented, its
  control a flat list of instructions; \<open>step\<close> refines it for functions without calls and
  breakpoints, up to one deviation (\<open>repeat.n\<close> runs once too often), and \<open>invoke\<close> returns its state
  whenever the cycle budget admits the run.  EmuProps: prediction of the next instruction, the heap,
  writes of bytes, placement of locals.

  Immediates: hir/src/immediates.rs; conversions and the order of immediates against the
  integers they stand for.

  OpStack: stackify/operand_stack.rs.  OpEmitter: stackify/emit/mod.rs; the locale of the
  emitters' contract, and that every move changes the operand stack and the machine's stack in
  the same way.  EmitInt, EmitOps, EmitMem: the emitters of the other files of stackify/emit.
  EmitIntProps, EmitOpsProps: what the emitted code computes when ExecOps runs it, compared with
  the operation on words.

  Arena: hir/src/layout.rs, the arenas with their intrusive lists.  HirFunc: the data flow graph
  (instruction.rs, value.rs, block.rs, dataflow.rs, insert.rs, function.rs).  DfgProps: the
  invariant of the graph and that every edit keeps it.  HirBuilder, BuilderProps: builder.rs.

  Cfg: hir-analysis/src/control_flow.rs; the graph has exactly the edges of the terminators.
  Domtree: hir-analysis/src/dominance.rs.  DomTheory: why the iteration of Cooper, Harvey and
  Kennedy computes the immediate dominators, on an abstract flow graph.  DomProps, DomCorrect,
  DomQueries: the code's loops end and follow DomTheory, and the queries answer dominance as it
  is defined over paths.

  AsmBuilder: hir/src/asm/builder.rs, the builder of inline assembly with its stack of types.
  AsmProps, AsmFrame: that stack against the stack of the emulator, its height and what lies below.

  DataSegments: hir/src/constants.rs and segments.rs, the constant pool and the table of data
  segments, kept sorted and disjoint.  Globals: hir/src/globals.rs, the table of global variables
  with its merging and renaming of conflicting declarations and the placement in memory.
  Imports: hir/src/asm/import.rs and hir/src/ident.rs, names, imports and their aliases.
  Modules: hir/src/module.rs, functions and tables of a module and its builders.  Linker:
  hir/src/program/mod.rs and linker.rs; LinkProps: what holds of a program that links.  The call
  graphs are those of an external crate: the record \<open>graph_ops\<close> of their operations is an argument
  of the linker, the locale \<open>digraph\<close> has their documented laws and is interpreted on graphs
  given by lists of edges.
  Loops, LoopProps, LoopQueries: hir-analysis/src/loops.rs.  The loops that the analysis finds are
  the natural loops of the graph, their parents and levels those of the nesting.
  Liveness: hir-analysis/src/liveness.rs, next-use distances.  LivenessProps and LivenessRun give
  a visit of a block as a monotone function of the sets at the blocks; LivenessWay says what a
  distance means (\<open>way\<close>); LivenessFix shows that the worklist runs empty, by a measure that
  falls with every change, that every distance is a way, and that it is the shortest way where no
  branch goes back.
  SplitEdges, SplitProps: hir-transform/src/split_critical_edges.rs; the pass is followed through
  its worklist by an invariant on the edges of the graph, and ends without critical edges.
  Analyses: hir-analysis/src/lib.rs, the cached analyses and their update.

  Properties.  Each property theorem is numbered in the text before it; a property with a
  hypothesis is applied to a concrete input by the theorem of the same name with the suffix
  \<open>_witness\<close>.  Several properties state where the code does not do what its comments promise;
  they are theorems about the code as it is.

  Fuel and bounds.  The interpreter loop is total because each iteration advances the cycle
  counter, a checked machine word.  No definition of the program takes
  fuel; the runs of the documented machine in EmuRefine count their steps.  The range of every number that
  the sources check is part of the definitions; hypotheses about ranges in the properties are
  exactly those under which the source does not panic.

  Parameters.  Field arithmetic and the hash function of the machine (\<open>felt_ops\<close>), native
  functions of the embedding program, the compiled memory intrinsics, which are procedures
  that the emitted code calls, the graphs of petgraph (\<open>graph_ops\<close>), hash functions and the order
  in which hash maps are traversed.

  Not modelled, and why.  Text formats (Display, Debug, the writers of hir/src/write.rs and
  display.rs, the parsing of identifiers) and hashing, for which no other code relies on the
  exact bytes; source spans and diagnostics; interned symbols (hir-symbol), which are their
  strings here; the pass driver and the command line tools, which only call the parts above; the
  translation to the external assembler's syntax tree and the driver of the code generator in
  codegen/masm/src/lib.rs; hir/src/testing.rs, which is test code.
  Also not modelled, of the program's own logic: the inlining and treeification passes of
  hir-transform, the validation rules of hir-analysis, and the stackification pass of the code
  generator (stackify/pass.rs) with its tree graph and dependency graph, which are the largest
  parts left; no modelled part depends on them.
\<close>

end
